(* ===== verification/Phl_Prelude.thy ===== *)
theory Phl_Prelude
  imports Main "HOL-Library.Word" "HOL-Library.Multiset"
begin

text \<open>
  Shared vocabulary of the development: the C integer conversions of the PHL layer, the
  status codes of \<^verbatim>\<open>phl/phl_status.h\<close>, and the generic lemmas on lists, options and
  conversions that the component theories use.

  Conventions. A C expression over \<^verbatim>\<open>u8\<close> and \<^verbatim>\<open>u16\<close> operands is evaluated in
  \<^verbatim>\<open>int\<close> and converted back on assignment: the model evaluates it over \<^typ>\<open>int\<close> and
  applies \<open>to_u8\<close> or \<open>to_u16\<close>. Counters and time stamps of 32 and 64 bits and bit maps
  are machine words, whose arithmetic wraps. A pointer to a pre-allocated object is the
  object's number, NULL is \<^const>\<open>None\<close>.
\<close>

unbundle bit_operations_syntax

section \<open>Integer types\<close>

type_synonym u32 = "32 word"
type_synonym u64 = "64 word"
type_synonym u8w = "8 word"
type_synonym u16w = "16 word"

text \<open>A pointer to an object of a pre-allocated array (a packet, a station, a role).\<close>

type_synonym ptr = nat

definition to_u8 :: "int \<Rightarrow> nat" where
  "to_u8 x = nat (x mod 256)"

definition to_u16 :: "int \<Rightarrow> nat" where
  "to_u16 x = nat (x mod 65536)"

text \<open>The C remainder, whose sign is that of the dividend.\<close>

definition c_rem :: "int \<Rightarrow> int \<Rightarrow> int" where
  "c_rem a b = sgn a * (\<bar>a\<bar> mod \<bar>b\<bar>)"

definition BIT :: "nat \<Rightarrow> u32" where
  "BIT n = push_bit n 1"

text \<open>A 32-bit word in little-endian bytes.\<close>

definition le_bytes :: "u32 \<Rightarrow> u8w list" where
  "le_bytes w = [ucast w, ucast (drop_bit 8 w), ucast (drop_bit 16 w), ucast (drop_bit 24 w)]"

definition le_dword :: "u8w list \<Rightarrow> nat \<Rightarrow> u32" where
  "le_dword bs i = ucast (bs ! i) OR push_bit 8 (ucast (bs ! (i + 1))) OR push_bit 16 (ucast (bs ! (i + 2))) OR
     push_bit 24 (ucast (bs ! (i + 3)))"

section \<open>Bus and status codes\<close>

datatype rtw_hci_type = RTW_HCI_PCIE | RTW_HCI_USB | RTW_HCI_SDIO | RTW_HCI_GSPI | RTW_HCI_MAX

datatype rtw_phl_status =
    RTW_PHL_STATUS_SUCCESS
  | RTW_PHL_STATUS_FAILURE
  | RTW_PHL_STATUS_RESOURCE
  | RTW_PHL_STATUS_HAL_INIT_FAILURE
  | RTW_PHL_STATUS_PENDING
  | RTW_PHL_STATUS_FRAME_DROP
  | RTW_PHL_STATUS_INVALID_PARAM
  | RTW_PHL_STATUS_CMD_TIMEOUT
  | RTW_PHL_STATUS_CMD_ERROR
  | RTW_PHL_STATUS_CMD_DROP
  | RTW_PHL_STATUS_CMD_CANNOT_IO
  | RTW_PHL_STATUS_CMD_SUCCESS
  | RTW_PHL_STATUS_UNEXPECTED_ERROR
  | RTW_PHL_STATUS_CANNOT_IO

definition is_cmd_failure :: "rtw_phl_status \<Rightarrow> bool" where
  "is_cmd_failure psts \<longleftrightarrow>
     psts = RTW_PHL_STATUS_CMD_TIMEOUT \<or> psts = RTW_PHL_STATUS_CMD_ERROR \<or>
     psts = RTW_PHL_STATUS_CMD_DROP \<or> psts = RTW_PHL_STATUS_CMD_CANNOT_IO"

definition HW_BAND_MAX :: nat where "HW_BAND_MAX = 2"

text \<open>What a handler of a module returns.\<close>

datatype phl_mdl_ret_code =
    MDL_RET_SUCCESS | MDL_RET_FAIL | MDL_RET_IGNORE | MDL_RET_PENDING | MDL_RET_CANNOT_IO

section \<open>Status flags\<close>

definition SET_STATUS_FLAG :: "'a::len word \<Rightarrow> 'a word \<Rightarrow> 'a word" where
  "SET_STATUS_FLAG status flags = status OR flags"

definition TEST_STATUS_FLAG :: "'a::len word \<Rightarrow> 'a word \<Rightarrow> bool" where
  "TEST_STATUS_FLAG status flags \<longleftrightarrow> status AND flags = flags"

definition CLEAR_STATUS_FLAG :: "'a::len word \<Rightarrow> 'a word \<Rightarrow> 'a word" where
  "CLEAR_STATUS_FLAG status flags = status AND NOT flags"

section \<open>Counting occupied slots\<close>

text \<open>The number of slots of a pointer array that are not NULL.\<close>

definition count_some :: "'a option list \<Rightarrow> nat" where
  "count_some xs = length (filter (\<lambda>x. x \<noteq> None) xs)"

section \<open>Collections and generic lemmas\<close>

named_theorems conv_simps \<open>integer conversions in range\<close>
named_theorems slot_simps \<open>occupied-slot counting\<close>

lemma to_u8_in_range [conv_simps]: "0 \<le> x \<Longrightarrow> x < 256 \<Longrightarrow> to_u8 x = nat x"
  by (simp add: to_u8_def)

lemma to_u16_in_range [conv_simps]: "0 \<le> x \<Longrightarrow> x < 65536 \<Longrightarrow> to_u16 x = nat x"
  by (simp add: to_u16_def)

lemma to_u16_of_nat [conv_simps]: "n < 65536 \<Longrightarrow> to_u16 (int n) = n"
  by (simp add: to_u16_def)

lemma to_u8_less: "to_u8 x < 256"
  by (simp add: to_u8_def nat_less_iff)

lemma to_u16_less: "to_u16 x < 65536"
  by (simp add: to_u16_def nat_less_iff)

lemma int_mod_neg: "x < 0 \<Longrightarrow> - n \<le> x \<Longrightarrow> x mod n = x + n" for x n :: int
  using mod_pos_pos_trivial [of "x + n" n] by simp

text \<open>Two offsets below the ring size from the same slot meet only when they are equal.\<close>

lemma ring_index_eq:
  "r < n \<Longrightarrow> k < n \<Longrightarrow> l < n \<Longrightarrow> (r + k) mod n = (r + l) mod n \<Longrightarrow> k = l" for r k l n :: nat
  by (auto simp: mod_if split: if_splits)

lemma bit_BIT: "n < 32 \<Longrightarrow> bit (BIT k) n \<longleftrightarrow> k = n"
  by (auto simp: BIT_def bit_simps)

lemma BIT_eq: "k < 32 \<Longrightarrow> n < 32 \<Longrightarrow> BIT k = BIT n \<longleftrightarrow> k = n"
  using bit_BIT [of n k] bit_BIT [of n n] by auto

lemma BIT_nonzero: "n < 32 \<Longrightarrow> BIT n \<noteq> 0"
  using bit_BIT [of n n] by auto

lemma count_some_Nil [slot_simps]: "count_some [] = 0"
  by (simp add: count_some_def)

lemma count_some_Cons [slot_simps]:
  "count_some (x # xs) = (if x = None then 0 else 1) + count_some xs"
  by (simp add: count_some_def)

lemma count_some_replicate_None [slot_simps]: "count_some (replicate n None) = 0"
  by (simp add: count_some_def)

lemma count_some_clear:
  "i < length xs \<Longrightarrow> xs ! i \<noteq> None \<Longrightarrow> Suc (count_some (xs[i := None])) = count_some xs"
proof (induction xs arbitrary: i)
  case Nil
  then show ?case by simp
next
  case (Cons x xs)
  then show ?case by (cases i) (auto simp: slot_simps)
qed

lemma count_some_fill:
  "i < length xs \<Longrightarrow> xs ! i = None \<Longrightarrow> count_some (xs[i := Some p]) = Suc (count_some xs)"
proof (induction xs arbitrary: i)
  case Nil
  then show ?case by simp
next
  case (Cons x xs)
  then show ?case by (cases i) (auto simp: slot_simps)
qed

lemma count_some_zero_iff: "count_some xs = 0 \<longleftrightarrow> (\<forall>i<length xs. xs ! i = None)"
proof -
  have "count_some xs = 0 \<longleftrightarrow> (\<forall>x\<in>set xs. x = None)"
    by (auto simp: count_some_def filter_empty_conv)
  then show ?thesis by (simp add: all_set_conv_all_nth)
qed

lemma count_some_pos_ex: "0 < count_some xs \<Longrightarrow> \<exists>i<length xs. xs ! i \<noteq> None"
  using count_some_zero_iff [of xs] by auto

lemma count_some_le_length: "count_some xs \<le> length xs"
  by (simp add: count_some_def)

section \<open>Setting, testing and clearing flags\<close>

named_theorems flag_simps \<open>status flags\<close>

lemma test_flag_iff: "TEST_STATUS_FLAG s f \<longleftrightarrow> (\<forall>n. bit f n \<longrightarrow> bit s n)"
  by (auto simp: TEST_STATUS_FLAG_def bit_eq_iff bit_simps dest: bit_imp_le_length)

lemma test_set_same [flag_simps]: "TEST_STATUS_FLAG (SET_STATUS_FLAG s f) f"
  by (simp add: test_flag_iff SET_STATUS_FLAG_def bit_simps)

lemma test_set_other [flag_simps]:
  "f AND g = 0 \<Longrightarrow> TEST_STATUS_FLAG (SET_STATUS_FLAG s f) g \<longleftrightarrow> TEST_STATUS_FLAG s g"
  by (auto simp: test_flag_iff SET_STATUS_FLAG_def bit_eq_iff bit_simps dest: bit_imp_le_length)

lemma test_clear_other [flag_simps]:
  "f AND g = 0 \<Longrightarrow> TEST_STATUS_FLAG (CLEAR_STATUS_FLAG s f) g \<longleftrightarrow> TEST_STATUS_FLAG s g"
  by (auto simp: test_flag_iff CLEAR_STATUS_FLAG_def bit_eq_iff bit_simps dest: bit_imp_le_length)

lemma test_clear_same [flag_simps]: "f \<noteq> 0 \<Longrightarrow> \<not> TEST_STATUS_FLAG (CLEAR_STATUS_FLAG s f) f"
  by (auto simp: test_flag_iff CLEAR_STATUS_FLAG_def bit_eq_iff bit_simps)

lemma test_zero [flag_simps]: "f \<noteq> 0 \<Longrightarrow> \<not> TEST_STATUS_FLAG 0 f"
  by (auto simp: TEST_STATUS_FLAG_def)

section \<open>Invariants of step relations\<close>

text \<open>What every step keeps holds in every state a run reaches.\<close>

locale step_invariant =
  fixes step :: "'s \<Rightarrow> 's \<Rightarrow> bool" and inv :: "'s \<Rightarrow> bool"
  assumes step_inv: "inv s \<Longrightarrow> step s s' \<Longrightarrow> inv s'"
begin

lemma run_inv:
  assumes "step\<^sup>*\<^sup>* s s'" and "inv s"
  shows "inv s'"
  using assms by (induction rule: rtranclp_induct) (blast intro: step_inv)+

end

end
