(* ===== verification/Phl_Bcn.thy ===== *)
theory Phl_Bcn
  imports Phl_Prelude
begin

text \<open>
  Beacon tracking of \<^verbatim>\<open>phl/phl_sta.c\<close>: the ring of the last three beacons of a station, the
  beacon offset derived from it, the distance of a time stamp from the last target beacon
  transmission time (TBTT), and the synchronisation of two roles' TBTTs.

  Time stamps (TSF) are 64-bit words of microseconds, offsets and intervals are 16-bit
  numbers of time units of 1024 microseconds. \<^verbatim>\<open>_os_modular64\<close> and \<^verbatim>\<open>_os_division64\<close> are the
  unsigned remainder and quotient; with an interval of zero the remainder faults, which is
  \<^const>\<open>None\<close> where the code does not guard it.
\<close>

section \<open>State\<close>

definition MAX_STORE_BCN_NUM :: nat where "MAX_STORE_BCN_NUM = 3"
definition TU :: nat where "TU = 1024"

datatype conf_lvl = CONF_LVL_NONE | CONF_LVL_LOW | CONF_LVL_MID | CONF_LVL_HIGH

record rtw_bcn_offset =
  bo_offset :: nat
  bo_conf_lvl :: conf_lvl

text \<open>\<^verbatim>\<open>info[0]\<close> is \<open>bi_tsf\<close>, \<^verbatim>\<open>info[1]\<close> (time units into the interval) \<open>bi_mod\<close>, \<^verbatim>\<open>info[2]\<close> \<open>bi_hw\<close>.\<close>

record rtw_rx_bcn_info =
  bi_idx :: nat
  bi_num :: nat
  bi_tsf :: "u64 list"
  bi_mod :: "u64 list"
  bi_hw :: "u64 list"
  bi_offset_i :: rtw_bcn_offset

text \<open>The cleared state, \<^verbatim>\<open>phl_clean_sta_bcn_info\<close>.\<close>

definition phl_clean_sta_bcn_info :: "rtw_rx_bcn_info \<Rightarrow> rtw_rx_bcn_info" where
  "phl_clean_sta_bcn_info bcn_i =
     \<lparr>bi_idx = 0, bi_num = 0, bi_tsf = replicate MAX_STORE_BCN_NUM 0,
      bi_mod = replicate MAX_STORE_BCN_NUM 0, bi_hw = replicate MAX_STORE_BCN_NUM 0,
      bi_offset_i = \<lparr>bo_offset = 0, bo_conf_lvl = CONF_LVL_NONE\<rparr>\<rparr>"

section \<open>The beacon ring\<close>

definition get_fidx :: "nat \<Rightarrow> nat \<Rightarrow> nat" where
  "get_fidx num cur_idx =
     (if num = 0 then cur_idx
      else let idx = to_u8 (int cur_idx + 1) in if idx \<ge> MAX_STORE_BCN_NUM then 0 else idx)"

definition get_bidx :: "nat \<Rightarrow> nat \<Rightarrow> nat" where
  "get_bidx num cur_idx =
     (if cur_idx = 0 then to_u8 (int num - 1) else to_u8 (int cur_idx - 1))"

text \<open>The cast \<^verbatim>\<open>(u16)\<close> of a 64-bit value.\<close>

definition u64_to_u16 :: "u64 \<Rightarrow> nat" where
  "u64_to_u16 x = unat x mod 65536"

text \<open>\<^verbatim>\<open>_os_division64(_os_modular64(t, bcn_intvl * TU), TU)\<close>.\<close>

definition tsf_mod_tu :: "u64 \<Rightarrow> nat \<Rightarrow> nat" where
  "tsf_mod_tu t bcn_intvl = (unat t mod (bcn_intvl * TU)) div TU"

definition similar_th :: nat where "similar_th = 2"

definition bcn_similar :: "rtw_rx_bcn_info \<Rightarrow> nat \<Rightarrow> nat \<Rightarrow> nat \<Rightarrow> bool" where
  "bcn_similar bcn_i bcn_intvl cur_idx bidx =
     (let diff = tsf_mod_tu (bi_tsf bcn_i ! cur_idx - bi_tsf bcn_i ! bidx) bcn_intvl
      in diff < similar_th \<or> bcn_intvl - diff < similar_th)"

definition lower_offset :: "rtw_rx_bcn_info \<Rightarrow> nat \<Rightarrow> nat \<Rightarrow> nat" where
  "lower_offset bcn_i i offset =
     (if offset > unat (bi_mod bcn_i ! i) then u64_to_u16 (bi_mod bcn_i ! i) else offset)"

text \<open>The inner loop: \<open>k\<close> rounds are left.\<close>

fun bcn_pairs :: "rtw_rx_bcn_info \<Rightarrow> nat \<Rightarrow> nat \<Rightarrow> nat \<Rightarrow> nat \<Rightarrow> nat \<Rightarrow> nat \<Rightarrow> nat" where
  "bcn_pairs bcn_i bcn_intvl start_idx cur_idx 0 bidx offset = offset"
| "bcn_pairs bcn_i bcn_intvl start_idx cur_idx (Suc k) bidx offset =
     (let bidx' = get_bidx (bi_num bcn_i) bidx in
      if start_idx = bidx' then offset
      else if \<not> bcn_similar bcn_i bcn_intvl cur_idx bidx'
      then bcn_pairs bcn_i bcn_intvl start_idx cur_idx k bidx' offset
      else bcn_pairs bcn_i bcn_intvl start_idx cur_idx k bidx'
             (lower_offset bcn_i bidx' (lower_offset bcn_i cur_idx offset)))"

text \<open>The outer loop over the current index.\<close>

fun bcn_scan :: "rtw_rx_bcn_info \<Rightarrow> nat \<Rightarrow> nat \<Rightarrow> nat \<Rightarrow> nat \<Rightarrow> nat \<Rightarrow> nat" where
  "bcn_scan bcn_i bcn_intvl start_idx 0 cur_idx offset = offset"
| "bcn_scan bcn_i bcn_intvl start_idx (Suc k) cur_idx offset =
     bcn_scan bcn_i bcn_intvl start_idx k (get_bidx (bi_num bcn_i) cur_idx)
       (bcn_pairs bcn_i bcn_intvl start_idx cur_idx (bi_num bcn_i - 1) cur_idx offset)"

text \<open>The last loop: the smallest stored offset, at medium confidence.\<close>

fun bcn_least :: "rtw_rx_bcn_info \<Rightarrow> nat list \<Rightarrow> rtw_bcn_offset \<Rightarrow> rtw_bcn_offset" where
  "bcn_least bcn_i [] off = off"
| "bcn_least bcn_i (i # is) off =
     bcn_least bcn_i is
       (if unat (bi_mod bcn_i ! i) < bo_offset off
        then off\<lparr>bo_offset := u64_to_u16 (bi_mod bcn_i ! i), bo_conf_lvl := CONF_LVL_MID\<rparr>
        else off)"

definition damp_offset :: "nat \<Rightarrow> rtw_bcn_offset \<Rightarrow> rtw_bcn_offset" where
  "damp_offset bcn_intvl off =
     (if bo_offset off \<noteq> 0 \<and> bo_offset off < (bcn_intvl * 5) div 100
      then off\<lparr>bo_offset := 0\<rparr> else off)"

definition phl_sta_up_bcn_offset_info :: "rtw_rx_bcn_info \<Rightarrow> nat \<Rightarrow> rtw_rx_bcn_info" where
  "phl_sta_up_bcn_offset_info bcn_i bcn_intvl =
     bcn_i\<lparr>bi_offset_i := damp_offset bcn_intvl
       (let off = bi_offset_i bcn_i in
        if bi_num bcn_i = 1 then
          off\<lparr>bo_offset := u64_to_u16 (bi_mod bcn_i ! bi_idx bcn_i), bo_conf_lvl := CONF_LVL_LOW\<rparr>
        else
          let offset = bcn_scan bcn_i bcn_intvl (bi_idx bcn_i) (bi_num bcn_i) (bi_idx bcn_i) bcn_intvl in
          if offset \<noteq> bcn_intvl then
            (if offset < bo_offset off
             then off\<lparr>bo_offset := offset, bo_conf_lvl := CONF_LVL_HIGH\<rparr>
             else off\<lparr>bo_conf_lvl := CONF_LVL_HIGH\<rparr>)
          else bcn_least bcn_i [0..<bi_num bcn_i] off)\<rparr>"

definition rtw_phl_sta_up_rx_bcn :: "u64 \<Rightarrow> u64 \<Rightarrow> nat \<Rightarrow> rtw_rx_bcn_info \<Rightarrow> rtw_rx_bcn_info option" where
  "rtw_phl_sta_up_rx_bcn tsf hw_tsf bcn_intvl bcn_i =
     (let i = get_fidx (bi_num bcn_i) (bi_idx bcn_i);
          num = (if bi_num bcn_i < MAX_STORE_BCN_NUM then bi_num bcn_i + 1 else bi_num bcn_i)
      in if bcn_intvl = 0 then None
         else Some (phl_sta_up_bcn_offset_info
                 (bcn_i\<lparr>bi_idx := i, bi_num := num,
                        bi_tsf := (bi_tsf bcn_i)[i := tsf],
                        bi_mod := (bi_mod bcn_i)[i := of_nat (tsf_mod_tu tsf bcn_intvl)],
                        bi_hw := (bi_hw bcn_i)[i := hw_tsf]\<rparr>) bcn_intvl))"

section \<open>Offset from the target beacon time\<close>

text \<open>
  \<open>b_intvl\<close> is the interval of the role (the beacon interval of an access point, else that of
  the associated station); the result \<^const>\<open>None\<close> is the return value false.
\<close>

definition phl_calc_offset_from_tbtt :: "nat \<Rightarrow> nat \<Rightarrow> u64 \<Rightarrow> nat option" where
  "phl_calc_offset_from_tbtt b_intvl b_ofst cur_t =
     (if b_intvl = 0 then None
      else let mod_tu = tsf_mod_tu cur_t b_intvl in
           Some (if mod_tu < b_ofst
                 then to_u16 (int mod_tu + (int b_intvl - int b_ofst))
                 else to_u16 (int mod_tu - int b_ofst)))"

text \<open>
  \<open>get_tsf\<close> is the answer of the first \<^verbatim>\<open>rtw_hal_get_tsf\<close>, \<open>sync_ok\<close> that of
  \<^verbatim>\<open>rtw_hal_tsf_sync\<close>; the two later reads only log. The result carries the difference
  handed to the HAL, if it was called, and \<^verbatim>\<open>*diff_t\<close>.
\<close>

definition rtw_phl_tbtt_sync ::
  "u64 option \<Rightarrow> bool \<Rightarrow> nat \<Rightarrow> nat \<Rightarrow> nat \<Rightarrow> nat \<Rightarrow> nat option \<times> nat option \<times> rtw_phl_status" where
  "rtw_phl_tbtt_sync get_tsf sync_ok src_intvl src_ofst tgt_intvl sync_ofst =
     (case get_tsf of
        None \<Rightarrow> (None, None, RTW_PHL_STATUS_FAILURE)
      | Some tsf \<Rightarrow>
          if tgt_intvl = 0 then (None, None, RTW_PHL_STATUS_FAILURE)
          else
            let ofst = (case phl_calc_offset_from_tbtt src_intvl src_ofst tsf of None \<Rightarrow> 0 | Some n \<Rightarrow> n);
                tgt_tsf = (tsf + of_nat (sync_ofst * TU)) - of_nat (ofst * TU);
                diff_tsf = (tgt_intvl * TU - unat tgt_tsf mod (tgt_intvl * TU)) div TU
            in if sync_ok then (Some diff_tsf, Some (to_u16 (int diff_tsf)), RTW_PHL_STATUS_SUCCESS)
               else (Some diff_tsf, None, RTW_PHL_STATUS_FAILURE))"

section \<open>Bounds of the beacon offset\<close>

text \<open>
  The ring holds at most three beacons, its index is inside, every stored offset and the
  derived one lie inside the interval.
\<close>

definition bcn_inv :: "nat \<Rightarrow> rtw_rx_bcn_info \<Rightarrow> bool" where
  "bcn_inv bcn_intvl bcn_i \<longleftrightarrow>
     bi_num bcn_i \<le> 3 \<and> (if bi_num bcn_i < 3 then bi_idx bcn_i = bi_num bcn_i - 1 else bi_idx bcn_i < 3) \<and>
     length (bi_tsf bcn_i) = 3 \<and> length (bi_mod bcn_i) = 3 \<and> length (bi_hw bcn_i) = 3 \<and>
     (\<forall>i<bi_num bcn_i. unat (bi_mod bcn_i ! i) < bcn_intvl) \<and>
     bo_offset (bi_offset_i bcn_i) < bcn_intvl"

lemma tsf_mod_tu_less: "0 < bcn_intvl \<Longrightarrow> tsf_mod_tu t bcn_intvl < bcn_intvl"
  by (simp add: tsf_mod_tu_def TU_def less_mult_imp_div_less)

lemma u64_to_u16_small [simp]: "unat x < 65536 \<Longrightarrow> u64_to_u16 x = unat x"
  by (simp add: u64_to_u16_def)

lemma lower_offset_bound:
  "bcn_intvl < 65536 \<Longrightarrow> offset \<le> bcn_intvl \<Longrightarrow> lower_offset bcn_i i offset \<le> offset"
  by (simp add: lower_offset_def)

lemma bcn_pairs_bound:
  "bcn_intvl < 65536 \<Longrightarrow> offset \<le> bcn_intvl \<Longrightarrow>
     bcn_pairs bcn_i bcn_intvl s c k b offset \<le> offset"
proof (induction k arbitrary: b offset)
  case (Suc k)
  let ?b = "get_bidx (bi_num bcn_i) b"
  let ?o = "lower_offset bcn_i ?b (lower_offset bcn_i c offset)"
  have l1: "lower_offset bcn_i c offset \<le> offset" using Suc.prems by (rule lower_offset_bound)
  have l2: "?o \<le> lower_offset bcn_i c offset" using Suc.prems l1 by (intro lower_offset_bound) auto
  have "bcn_pairs bcn_i bcn_intvl s c k ?b ?o \<le> ?o" using Suc.prems l1 l2 by (intro Suc.IH) auto
  then have "bcn_pairs bcn_i bcn_intvl s c k ?b ?o \<le> offset" using l1 l2 by linarith
  moreover have "bcn_pairs bcn_i bcn_intvl s c k ?b offset \<le> offset" using Suc.prems by (rule Suc.IH)
  ultimately show ?case by (simp add: Let_def)
qed simp

lemma bcn_scan_bound:
  "bcn_intvl < 65536 \<Longrightarrow> offset \<le> bcn_intvl \<Longrightarrow> bcn_scan bcn_i bcn_intvl s k c offset \<le> offset"
proof (induction k arbitrary: c offset)
  case (Suc k)
  let ?o = "bcn_pairs bcn_i bcn_intvl s c (bi_num bcn_i - 1) c offset"
  have l: "?o \<le> offset" using Suc.prems by (rule bcn_pairs_bound)
  have "bcn_scan bcn_i bcn_intvl s k (get_bidx (bi_num bcn_i) c) ?o \<le> ?o"
    using l Suc.prems by (intro Suc.IH) auto
  then show ?case using l by simp
qed simp

lemma bcn_least_bound:
  "bo_offset off < bcn_intvl \<Longrightarrow> bcn_intvl < 65536 \<Longrightarrow> bo_offset (bcn_least bcn_i is off) \<le> bo_offset off"
proof (induction "is" arbitrary: off)
  case (Cons i "is")
  let ?off = "if unat (bi_mod bcn_i ! i) < bo_offset off
        then off\<lparr>bo_offset := u64_to_u16 (bi_mod bcn_i ! i), bo_conf_lvl := CONF_LVL_MID\<rparr> else off"
  have l: "bo_offset ?off \<le> bo_offset off" using Cons.prems by simp
  then have "bo_offset (bcn_least bcn_i is ?off) \<le> bo_offset ?off" using Cons.prems by (intro Cons.IH) auto
  then show ?case using l by simp
qed simp

lemma damp_offset_bound: "bo_offset (damp_offset n off) \<le> bo_offset off"
  by (simp add: damp_offset_def)

lemma up_offset_bound:
  assumes "bcn_inv bcn_intvl bcn_i" and "0 < bi_num bcn_i" and "bcn_intvl < 65536"
  shows "bo_offset (bi_offset_i (phl_sta_up_bcn_offset_info bcn_i bcn_intvl)) < bcn_intvl"
proof -
  have idx: "unat (bi_mod bcn_i ! bi_idx bcn_i) < bcn_intvl"
    and off: "bo_offset (bi_offset_i bcn_i) < bcn_intvl" using assms by (auto simp: bcn_inv_def split: if_splits)
  have "bo_offset (bcn_least bcn_i [0..<bi_num bcn_i] (bi_offset_i bcn_i)) < bcn_intvl"
    using bcn_least_bound [OF off assms(3)] off by (rule le_less_trans)
  then show ?thesis
    using idx off assms(3)
    by (simp add: phl_sta_up_bcn_offset_info_def Let_def le_less_trans [OF damp_offset_bound])
qed

lemma up_offset_inv:
  assumes "bcn_inv bcn_intvl bcn_i" and "0 < bi_num bcn_i" and "bcn_intvl < 65536"
  shows "bcn_inv bcn_intvl (phl_sta_up_bcn_offset_info bcn_i bcn_intvl)"
proof -
  have frame: "phl_sta_up_bcn_offset_info bcn_i bcn_intvl =
      bcn_i\<lparr>bi_offset_i := bi_offset_i (phl_sta_up_bcn_offset_info bcn_i bcn_intvl)\<rparr>"
    by (simp add: phl_sta_up_bcn_offset_info_def)
  show ?thesis using up_offset_bound [OF assms] assms(1)
    by (subst frame) (simp add: bcn_inv_def)
qed

lemma next_slot:
  assumes "bcn_inv bcn_intvl bcn_i"
  shows "if bi_num bcn_i < 3 then get_fidx (bi_num bcn_i) (bi_idx bcn_i) = bi_num bcn_i
         else get_fidx (bi_num bcn_i) (bi_idx bcn_i) < 3"
proof (cases "bi_num bcn_i < 3")
  case True
  then have "bi_num bcn_i \<in> {0, 1, 2}" by auto
  with assms show ?thesis
    by (auto simp: bcn_inv_def get_fidx_def MAX_STORE_BCN_NUM_def Let_def to_u8_def)
qed (simp add: get_fidx_def MAX_STORE_BCN_NUM_def Let_def)

text \<open>Every received beacon of a station with a beacon interval is recorded and leaves the
  beacon ring well formed: at most three beacons, the index inside the ring, and the
  estimated offset (like the stored ones) inside the beacon interval.
\<close>

lemma rx_bcn_keeps_offset_in_interval:
  assumes "bcn_inv bcn_intvl bcn_i" and "0 < bcn_intvl" and "bcn_intvl < 65536"
  shows "\<exists>bcn_i'. rtw_phl_sta_up_rx_bcn tsf hw_tsf bcn_intvl bcn_i = Some bcn_i' \<and>
     bcn_inv bcn_intvl bcn_i' \<and> bi_tsf bcn_i' ! bi_idx bcn_i' = tsf \<and>
     bi_num bcn_i' = min 3 (bi_num bcn_i + 1)"
proof -
  let ?i = "get_fidx (bi_num bcn_i) (bi_idx bcn_i)"
  let ?num = "if bi_num bcn_i < MAX_STORE_BCN_NUM then bi_num bcn_i + 1 else bi_num bcn_i"
  let ?b = "bcn_i\<lparr>bi_idx := ?i, bi_num := ?num, bi_tsf := (bi_tsf bcn_i)[?i := tsf],
              bi_mod := (bi_mod bcn_i)[?i := of_nat (tsf_mod_tu tsf bcn_intvl)],
              bi_hw := (bi_hw bcn_i)[?i := hw_tsf]\<rparr>"
  have num: "?num = min 3 (bi_num bcn_i + 1)" using assms(1) by (auto simp: MAX_STORE_BCN_NUM_def bcn_inv_def)
  have i: "if bi_num bcn_i < 3 then ?i = bi_num bcn_i else ?i < 3"
    using assms(1) by (rule next_slot)
  have new: "unat (of_nat (tsf_mod_tu tsf bcn_intvl) :: u64) < bcn_intvl"
    using tsf_mod_tu_less [OF assms(2), of tsf] assms(3) by (simp add: unat_of_nat)
  have "bcn_inv bcn_intvl ?b"
    using assms(1) i new
    by (cases "bi_num bcn_i < 3")
      (auto simp: bcn_inv_def nth_list_update MAX_STORE_BCN_NUM_def less_Suc_eq)
  then have "bcn_inv bcn_intvl (phl_sta_up_bcn_offset_info ?b bcn_intvl)"
    using assms(3) by (intro up_offset_inv) (simp_all add: MAX_STORE_BCN_NUM_def)
  moreover have "(bi_tsf bcn_i)[?i := tsf] ! ?i = tsf" using i assms(1) by (auto simp: bcn_inv_def split: if_splits)
  ultimately show ?thesis using assms(2) num
    by (simp add: rtw_phl_sta_up_rx_bcn_def Let_def phl_sta_up_bcn_offset_info_def)
qed

definition ex_bcn :: rtw_rx_bcn_info where
  "ex_bcn = phl_clean_sta_bcn_info \<lparr>bi_idx = 2, bi_num = 3, bi_tsf = [], bi_mod = [], bi_hw = [],
     bi_offset_i = \<lparr>bo_offset = 0, bo_conf_lvl = CONF_LVL_NONE\<rparr>\<rparr>"

lemma clean_bcn_inv: "0 < bcn_intvl \<Longrightarrow> bcn_inv bcn_intvl (phl_clean_sta_bcn_info bcn_i)"
  by (simp add: bcn_inv_def phl_clean_sta_bcn_info_def MAX_STORE_BCN_NUM_def)

section \<open>Distances from the target beacon time\<close>

lemma calc_offset_eq:
  assumes "0 < b_intvl" and "b_intvl < 65536" and "b_ofst < b_intvl"
  shows "phl_calc_offset_from_tbtt b_intvl b_ofst cur_t =
     Some ((tsf_mod_tu cur_t b_intvl + b_intvl - b_ofst) mod b_intvl)"
proof -
  let ?m = "tsf_mod_tu cur_t b_intvl"
  have m: "?m < b_intvl" using assms(1) by (rule tsf_mod_tu_less)
  show ?thesis
  proof (cases "?m < b_ofst")
    case True
    then have "int ?m + (int b_intvl - int b_ofst) = int (?m + b_intvl - b_ofst)" using assms(3) by simp
    moreover have "(?m + b_intvl - b_ofst) mod b_intvl = ?m + b_intvl - b_ofst"
      using True assms(3) by (intro mod_less) linarith
    moreover have "?m + b_intvl - b_ofst < 65536" using True assms(2,3) by linarith
    ultimately show ?thesis using True assms(1)
      by (simp only: phl_calc_offset_from_tbtt_def Let_def to_u16_of_nat) simp
  next
    case False
    then have "int ?m - int b_ofst = int (?m - b_ofst)" by simp
    moreover have "(?m + b_intvl - b_ofst) mod b_intvl = ?m - b_ofst"
      using False m by (simp add: mod_if)
    moreover have "?m - b_ofst < 65536" using m assms(2) by linarith
    ultimately show ?thesis using False assms(1)
      by (simp only: phl_calc_offset_from_tbtt_def Let_def to_u16_of_nat) simp
  qed
qed

text \<open>For a role with a beacon interval, the offset from the last target beacon time is
  computed, lies inside the interval, and is the number of time units by which the time
  stamp is past the beacon offset, modulo the interval; without an interval the computation
  is refused.
\<close>

lemma offset_from_tbtt_correct:
  assumes "b_intvl < 65536" and "b_intvl = 0 \<or> b_ofst < b_intvl"
  shows "case phl_calc_offset_from_tbtt b_intvl b_ofst cur_t of
       None \<Rightarrow> b_intvl = 0
     | Some ofst \<Rightarrow> ofst < b_intvl \<and> (ofst + b_ofst) mod b_intvl = tsf_mod_tu cur_t b_intvl"
proof (cases "b_intvl = 0")
  case True
  then show ?thesis by (simp add: phl_calc_offset_from_tbtt_def)
next
  case False
  let ?m = "tsf_mod_tu cur_t b_intvl"
  have o: "b_ofst < b_intvl" "0 < b_intvl" using assms(2) False by auto
  then have m: "?m < b_intvl" by (intro tsf_mod_tu_less)
  have "((?m + b_intvl - b_ofst) mod b_intvl + b_ofst) mod b_intvl = (?m + b_intvl - b_ofst + b_ofst) mod b_intvl"
    by (simp add: mod_add_left_eq)
  also have "\<dots> = ?m" using o m by simp
  finally show ?thesis using calc_offset_eq [OF o(2) assms(1) o(1)] o by simp
qed

text \<open>When the TBTT synchronisation succeeds, the shift given to the hardware moves the
  target time stamp to less than one time unit before (or exactly onto) a multiple of the
  target role's beacon interval, and the reported shift is the one given to the hardware,
  between zero and one interval.
\<close>

lemma tbtt_sync_aligns:
  assumes "rtw_phl_tbtt_sync (Some tsf) True src_intvl src_ofst tgt_intvl sync_ofst
             = (hal_diff, diff_t, RTW_PHL_STATUS_SUCCESS)"
    and "tgt_intvl < 65536"
  shows "\<exists>d ofst. hal_diff = Some d \<and> diff_t = Some d \<and> d \<le> tgt_intvl \<and>
     ofst = (case phl_calc_offset_from_tbtt src_intvl src_ofst tsf of None \<Rightarrow> 0 | Some n \<Rightarrow> n) \<and>
     (let m = unat (tsf + of_nat (sync_ofst * TU) - of_nat (ofst * TU)) mod (tgt_intvl * TU)
      in m + d * TU \<le> tgt_intvl * TU \<and> tgt_intvl * TU < m + d * TU + TU)"
proof -
  let ?ofst = "case phl_calc_offset_from_tbtt src_intvl src_ofst tsf of None \<Rightarrow> 0 | Some n \<Rightarrow> n"
  let ?m = "unat (tsf + of_nat (sync_ofst * TU) - of_nat (?ofst * TU)) mod (tgt_intvl * TU)"
  let ?d = "(tgt_intvl * TU - ?m) div TU"
  have pos: "tgt_intvl \<noteq> 0" using assms(1) by (auto simp: rtw_phl_tbtt_sync_def Let_def split: if_splits)
  have r: "hal_diff = Some ?d" "diff_t = Some (to_u16 (int ?d))"
    using assms(1) pos by (auto simp: rtw_phl_tbtt_sync_def Let_def)
  have tu: "0 < TU" by (simp add: TU_def)
  have m: "?m < tgt_intvl * TU" using pos tu by (intro mod_less_divisor) simp
  have "?d \<le> (tgt_intvl * TU) div TU" by (intro div_le_mono) simp
  then have d: "?d \<le> tgt_intvl" using tu by simp
  then have u: "to_u16 (int ?d) = ?d" using assms(2) by (intro to_u16_of_nat) simp
  have "?d * TU \<le> tgt_intvl * TU - ?m" by (rule div_times_less_eq_dividend)
  moreover have "tgt_intvl * TU - ?m < ?d * TU + TU"
    using dividend_less_div_times [OF tu, of "tgt_intvl * TU - ?m"] by (simp add: add.commute)
  ultimately have "?m + ?d * TU \<le> tgt_intvl * TU \<and> tgt_intvl * TU < ?m + ?d * TU + TU" using m by linarith
  then show ?thesis using r d unfolding u Let_def by blast
qed

end
