(* ===== verification/Phl_Queue.thy ===== *)
theory Phl_Queue
  imports Phl_Prelude
begin

text \<open>
  The general queue of the PHL layer, \<^verbatim>\<open>struct phl_queue\<close> with the \<^verbatim>\<open>pq_\<close> functions
  of \<^verbatim>\<open>phl/phl_util.c\<close>: an intrusive doubly linked list with a sentinel and a
  separately kept element count. The model keeps the list of the linked objects in order;
  the spin lock serialises the operations, so each is one atomic step. The second part
  models the two elapsed-time functions of the same file.
\<close>

section \<open>The queue\<close>

record 'a phl_queue =
  queue :: "'a list"
  cnt :: int

datatype list_pos = First | Tail

definition pq_init :: "'a phl_queue" where
  "pq_init = \<lparr>queue = [], cnt = 0\<rparr>"

definition pq_reset :: "'a phl_queue \<Rightarrow> 'a phl_queue" where
  "pq_reset q = q\<lparr>queue := [], cnt := 0\<rparr>"

text \<open>\<^verbatim>\<open>pq_push\<close> always reports true.\<close>

definition pq_push :: "'a phl_queue \<Rightarrow> 'a \<Rightarrow> list_pos \<Rightarrow> 'a phl_queue \<times> bool" where
  "pq_push q obj pos =
     (q\<lparr>queue := (if pos = First then obj # queue q else queue q @ [obj]),
        cnt := cnt q + 1\<rparr>, True)"

text \<open>The out parameter \<^verbatim>\<open>*obj\<close> is the returned option; the C result is whether it is set.\<close>

definition pq_pop :: "'a phl_queue \<Rightarrow> list_pos \<Rightarrow> 'a phl_queue \<times> 'a option" where
  "pq_pop q pos =
     (if queue q \<noteq> [] \<and> 0 < cnt q then
        (if pos = First then
           (q\<lparr>queue := tl (queue q), cnt := cnt q - 1\<rparr>, Some (hd (queue q)))
         else
           (q\<lparr>queue := butlast (queue q), cnt := cnt q - 1\<rparr>, Some (last (queue q))))
      else (q, None))"

definition pq_get_front :: "'a phl_queue \<Rightarrow> 'a option" where
  "pq_get_front q = (if queue q \<noteq> [] \<and> 0 < cnt q then Some (hd (queue q)) else None)"

definition pq_get_tail :: "'a phl_queue \<Rightarrow> 'a option" where
  "pq_get_tail q = (if queue q \<noteq> [] \<and> 0 < cnt q then Some (last (queue q)) else None)"

text \<open>
  The successor of a linked object: \<^const>\<open>None\<close> when the next node is the sentinel. The C
  code follows the object's own link, so the object has to be linked in this queue; the
  model gives \<^const>\<open>None\<close> for one that is not.
\<close>

fun list_next :: "'a list \<Rightarrow> 'a \<Rightarrow> 'a option" where
  "list_next [] x = None"
| "list_next [y] x = None"
| "list_next (y # z # zs) x = (if y = x then Some z else list_next (z # zs) x)"

definition pq_get_next :: "'a phl_queue \<Rightarrow> 'a option \<Rightarrow> 'a option" where
  "pq_get_next q cur_obj =
     (case cur_obj of None \<Rightarrow> None | Some x \<Rightarrow> list_next (queue q) x)"

definition pq_get_prev :: "'a phl_queue \<Rightarrow> 'a option \<Rightarrow> 'a option" where
  "pq_get_prev q cur_obj =
     (case cur_obj of None \<Rightarrow> None | Some x \<Rightarrow> list_next (rev (queue q)) x)"

text \<open>The walk of \<^verbatim>\<open>pq_search_node\<close>: first hit, and the list without it.\<close>

fun search_walk :: "('a \<Rightarrow> bool) \<Rightarrow> 'a list \<Rightarrow> ('a \<times> 'a list) option" where
  "search_walk search_fun [] = None"
| "search_walk search_fun (x # xs) =
     (if search_fun x then Some (x, xs)
      else map_option (\<lambda>(y, ys). (y, x # ys)) (search_walk search_fun xs))"

definition pq_search_node ::
  "'a phl_queue \<Rightarrow> bool \<Rightarrow> ('a \<Rightarrow> bool) option \<Rightarrow> 'a phl_queue \<times> 'a option" where
  "pq_search_node q bdel search_fun =
     (if queue q \<noteq> [] \<and> 0 < cnt q then
        (case search_fun of
           None \<Rightarrow> (q, None)
         | Some f \<Rightarrow>
             (case search_walk f (queue q) of
                None \<Rightarrow> (q, None)
              | Some (x, rest) \<Rightarrow>
                  (if bdel then (q\<lparr>queue := rest, cnt := cnt q - 1\<rparr>, Some x)
                   else (q, Some x))))
      else (q, None))"

text \<open>
  \<^verbatim>\<open>list_del\<close> unlinks the object wherever it is linked; \<^const>\<open>remove1\<close> takes it out of
  this queue. The count is decremented whether or not it was there.
\<close>

definition pq_del_node :: "'a phl_queue \<Rightarrow> 'a option \<Rightarrow> 'a phl_queue" where
  "pq_del_node q obj =
     (case obj of None \<Rightarrow> q
      | Some x \<Rightarrow> q\<lparr>queue := remove1 x (queue q), cnt := cnt q - 1\<rparr>)"

text \<open>Insert before the first object the predicate accepts, else at the tail.\<close>

fun insert_before :: "('a \<Rightarrow> bool) \<Rightarrow> 'a \<Rightarrow> 'a list \<Rightarrow> 'a list" where
  "insert_before p x [] = [x]"
| "insert_before p x (y # ys) = (if p y then x # y # ys else y # insert_before p x ys)"

definition pq_insert ::
  "'a phl_queue \<Rightarrow> 'a \<Rightarrow> ('a \<Rightarrow> 'a \<Rightarrow> bool) option \<Rightarrow> 'a phl_queue \<times> bool" where
  "pq_insert q input pq_predicate =
     (q\<lparr>queue := insert_before (case pq_predicate of None \<Rightarrow> (\<lambda>_. False) | Some f \<Rightarrow> f input)
                  input (queue q),
        cnt := cnt q + 1\<rparr>, True)"

section \<open>Elapsed time\<close>

definition phl_get_passing_time_us :: "u32 \<Rightarrow> u32 \<Rightarrow> u32" where
  "phl_get_passing_time_us now start =
     (if now = start then 0
      else if start < now then now - start
      else 0xffffffff - start + now)"

definition phl_get_passing_time_ms :: "u32 \<Rightarrow> u32 \<Rightarrow> u32" where
  "phl_get_passing_time_ms now start =
     (if now = start then 0
      else if start < now then now - start
      else 0xffffffff - start + now)"

section \<open>The count agrees with the list\<close>

definition pq_wf :: "'a phl_queue \<Rightarrow> bool" where
  "pq_wf q \<longleftrightarrow> cnt q = int (length (queue q))"

named_theorems pq_defs \<open>definitions of the queue operations\<close>

lemmas [pq_defs] = pq_init_def pq_reset_def pq_push_def pq_pop_def pq_get_front_def
  pq_get_tail_def pq_search_node_def pq_del_node_def pq_insert_def

lemma search_walk_Some:
  "search_walk f xs = Some (x, rest) \<Longrightarrow>
     f x \<and> (\<exists>as bs. xs = as @ x # bs \<and> rest = as @ bs \<and> (\<forall>a\<in>set as. \<not> f a))"
proof (induction xs arbitrary: rest)
  case Nil
  then show ?case by simp
next
  case (Cons y ys)
  show ?case
  proof (cases "f y")
    case True
    with Cons.prems show ?thesis by (auto intro: exI [of _ "[]"])
  next
    case False
    with Cons.prems obtain r where w: "search_walk f ys = Some (x, r)" and r: "rest = y # r"
      by auto
    from Cons.IH [OF w] obtain as bs
      where "f x" "ys = as @ x # bs" "r = as @ bs" "\<forall>a\<in>set as. \<not> f a" by blast
    with False r have "y # ys = (y # as) @ x # bs \<and> rest = (y # as) @ bs \<and>
        (\<forall>a\<in>set (y # as). \<not> f a)"
      by simp
    with \<open>f x\<close> show ?thesis by blast
  qed
qed

lemma search_walk_None: "search_walk f xs = None \<longleftrightarrow> (\<forall>x\<in>set xs. \<not> f x)"
  by (induction xs) auto

lemma length_insert_before [simp]: "length (insert_before p x xs) = Suc (length xs)"
  by (induction xs) auto

lemma set_insert_before [simp]: "set (insert_before p x xs) = insert x (set xs)"
  by (induction xs) auto

lemma mset_insert_before [simp]: "mset (insert_before p x xs) = add_mset x (mset xs)"
  by (induction xs) auto

lemma pq_wf_init: "pq_wf pq_init"
  by (simp add: pq_wf_def pq_init_def)

lemma pq_wf_push: "pq_wf q \<Longrightarrow> pq_wf (fst (pq_push q x pos))"
  by (simp add: pq_wf_def pq_push_def)

lemma pq_wf_pop: "pq_wf q \<Longrightarrow> pq_wf (fst (pq_pop q pos))"
  by (auto simp: pq_wf_def pq_pop_def of_nat_diff Suc_le_eq)

lemma pq_wf_search: "pq_wf q \<Longrightarrow> pq_wf (fst (pq_search_node q bdel f))"
  by (auto simp: pq_wf_def pq_search_node_def split: option.splits dest!: search_walk_Some)

lemma pq_wf_del: "pq_wf q \<Longrightarrow> x \<in> set (queue q) \<Longrightarrow> pq_wf (pq_del_node q (Some x))"
  using length_pos_if_in_set [of x "queue q"]
  by (simp add: pq_wf_def pq_del_node_def length_remove1 of_nat_diff Suc_le_eq)

lemma pq_wf_insert: "pq_wf q \<Longrightarrow> pq_wf (fst (pq_insert q x p))"
  by (simp add: pq_wf_def pq_insert_def)

lemma pq_pop_wf_eq:
  "pq_wf q \<Longrightarrow> pq_pop q First =
     (case queue q of [] \<Rightarrow> (q, None)
      | x # xs \<Rightarrow> (q\<lparr>queue := xs, cnt := cnt q - 1\<rparr>, Some x))"
  by (auto simp: pq_wf_def pq_pop_def split: list.splits)

section \<open>Elapsed time across a wrap of the counter\<close>

text \<open>Without a wrap of the 32-bit clock between the two readings, the elapsed time is their
  difference; with a wrap, the branch written for it is one less than the modular difference
  of the readings, so an elapsed time is reported one unit short.
\<close>

lemma passing_time_wrap:
  "phl_get_passing_time_us now start =
     (if start \<le> now then now - start else now - start - 1) \<and>
   (start \<le> now \<longrightarrow> unat (phl_get_passing_time_us now start) = unat now - unat start) \<and>
   (now < start \<longrightarrow> unat (phl_get_passing_time_us now start) = 2 ^ 32 + unat now - unat start - 1)"
proof -
  have m: "(0xffffffff :: u32) = - 1" by simp
  have e: "phl_get_passing_time_us now start = (if start \<le> now then now - start else now - start - 1)"
    by (auto simp: phl_get_passing_time_us_def m order_le_less)
  moreover have "unat (now - start) = unat now - unat start" if "start \<le> now"
    using that by (rule unat_sub)
  moreover have "unat (now - start - 1) = 2 ^ 32 + unat now - unat start - 1" if "now < start"
  proof -
    have lt: "unat now < unat start" "unat start < 2 ^ 32"
      using that unsigned_less [where w = start] by (simp_all add: word_less_nat_alt)
    have "now - start - 1 = of_nat (2 ^ 32 + unat now - unat start - 1)"
    proof -
      have "of_nat (2 ^ 32 + unat now - unat start - 1) = (of_nat (2 ^ 32) + now - start - 1 :: u32)"
        using lt by (simp add: of_nat_diff)
      then show ?thesis by simp
    qed
    then show ?thesis using lt by (simp only: unat_of_nat) simp
  qed
  ultimately show ?thesis by auto
qed

text \<open>Every queue operation keeps the separately counted number of elements equal to the
  length of the list (a deletion when its argument is linked), so a pop fails exactly on an
  empty list.
\<close>

lemma pq_count_invariant:
  assumes "pq_wf q"
  shows "pq_wf (fst (pq_push q x pos)) \<and> pq_wf (fst (pq_pop q pos)) \<and>
     pq_wf (fst (pq_search_node q bdel f)) \<and> pq_wf (fst (pq_insert q x p)) \<and>
     (y \<in> set (queue q) \<longrightarrow> pq_wf (pq_del_node q (Some y))) \<and>
     (snd (pq_pop q pos) = None \<longleftrightarrow> queue q = [])"
proof -
  have "snd (pq_pop q pos) = None \<longleftrightarrow> queue q = []"
    using assms by (auto simp: pq_wf_def pq_pop_def)
  then show ?thesis
    using assms by (simp add: pq_wf_push pq_wf_pop pq_wf_search pq_wf_insert pq_wf_del)
qed

end
