(* ===== verification/Phl_Reorder.thy ===== *)
theory Phl_Reorder
  imports Phl_Prelude
begin

text \<open>
  The receive reordering buffer of a block-ack session, \<^verbatim>\<open>struct phl_tid_ampdu_rx\<close> of
  \<^verbatim>\<open>phl/phl_struct.h\<close> with \<^verbatim>\<open>seq_less\<close> to \<^verbatim>\<open>phl_manage_sta_reorder_buf\<close> of
  \<^verbatim>\<open>phl/phl_rx.c\<close>.

  The functions work on a state that extends the session by what the call does outside it:
  the list of released frames, the packets handed to \<^verbatim>\<open>recycle_rx_pkt\<close>, the packets whose
  buffer is handed to \<^verbatim>\<open>phl_recycle_rx_buf\<close>, and the last timer request. Sequence numbers
  are below 4096; the mask with \<^verbatim>\<open>0xfff\<close> is the bitwise conjunction on the C
  \<^verbatim>\<open>int\<close> value. The index of a slot is a remainder by \<^verbatim>\<open>buf_size\<close>, which a session
  never sets to 0 (\<^verbatim>\<open>rtw_phl_start_rx_ba_session\<close> replaces it).
\<close>

section \<open>State\<close>

record phl_tid_ampdu_rx =
  reorder_buf :: "ptr option list"
  reorder_time :: "u32 list"
  head_seq_num :: nat
  stored_mpdu_num :: nat
  ssn :: nat
  buf_size :: nat
  ba_tid :: nat
  started :: bool
  removed :: bool

datatype timer_cmd = SetTimer nat | CancelTimer

record reorder_st = phl_tid_ampdu_rx +
  frames :: "ptr list"
  recycled :: "ptr list"
  rxbuf_recycled :: "ptr list"
  timer :: "timer_cmd option"

section \<open>Sequence numbers\<close>

definition SEQ_MODULO :: int where "SEQ_MODULO = 0x1000"

definition SEQ_MASK :: int where "SEQ_MASK = 0xfff"

definition seq_less :: "nat \<Rightarrow> nat \<Rightarrow> bool" where
  "seq_less sq1 sq2 \<longleftrightarrow> ((int sq1 - int sq2) AND SEQ_MASK) > drop_bit 1 SEQ_MODULO"

definition seq_inc :: "nat \<Rightarrow> nat" where
  "seq_inc sq = nat ((int sq + 1) AND SEQ_MASK)"

definition seq_sub :: "nat \<Rightarrow> nat \<Rightarrow> nat" where
  "seq_sub sq1 sq2 = nat ((int sq1 - int sq2) AND SEQ_MASK)"

definition reorder_index :: "'a phl_tid_ampdu_rx_scheme \<Rightarrow> nat \<Rightarrow> nat" where
  "reorder_index r seq = seq_sub seq (ssn r) mod buf_size r"

section \<open>Release of frames\<close>

definition phl_release_reorder_frame :: "reorder_st \<Rightarrow> nat \<Rightarrow> reorder_st" where
  "phl_release_reorder_frame r index =
     (let r1 = (case reorder_buf r ! index of
                  None \<Rightarrow> r
                | Some pkt \<Rightarrow>
                    r\<lparr>stored_mpdu_num := to_u16 (int (stored_mpdu_num r) - 1),
                      reorder_buf := (reorder_buf r)[index := None],
                      frames := frames r @ [pkt]\<rparr>)
      in r1\<lparr>head_seq_num := seq_inc (head_seq_num r1)\<rparr>)"

definition HT_RX_REORDER_BUF_TIMEOUT_MS :: nat where
  "HT_RX_REORDER_BUF_TIMEOUT_MS = 100"

text \<open>The slots of \<^verbatim>\<open>for (j = (index + 1) % n; j != index; j = (j + 1) % n)\<close>, in order.\<close>

definition ring_order :: "nat \<Rightarrow> nat \<Rightarrow> nat list" where
  "ring_order index n = map (\<lambda>k. (index + k) mod n) [1..<n]"

definition recycle_slot :: "nat \<Rightarrow> reorder_st \<Rightarrow> reorder_st" where
  "recycle_slot i r =
     (case reorder_buf r ! i of None \<Rightarrow> r
      | Some pkt \<Rightarrow> r\<lparr>rxbuf_recycled := rxbuf_recycled r @ [pkt]\<rparr>)"

text \<open>
  The time-out loop of \<^verbatim>\<open>phl_reorder_release\<close>: the slots already passed (over which the
  inner loop recycles), the slots to visit and the count of skipped ones. The flag is
  whether it left by \<^verbatim>\<open>goto set_release_timer\<close>.
\<close>

fun release_expired ::
  "u32 \<Rightarrow> nat list \<Rightarrow> nat list \<Rightarrow> nat \<Rightarrow> reorder_st \<Rightarrow> reorder_st \<times> bool" where
  "release_expired cur_time passed [] skipped r = (r, False)"
| "release_expired cur_time passed (j # js) skipped r =
     (case reorder_buf r ! j of
        None \<Rightarrow> release_expired cur_time (passed @ [j]) js (skipped + 1) r
      | Some pkt \<Rightarrow>
          if skipped \<noteq> 0 \<and>
             cur_time < reorder_time r ! j + of_nat HT_RX_REORDER_BUF_TIMEOUT_MS
          then (r, True)
          else
            let r1 = fold recycle_slot passed r;
                r2 = phl_release_reorder_frame r1 j;
                r3 = r2\<lparr>head_seq_num :=
                          nat ((int (head_seq_num r2) + int skipped) AND SEQ_MASK)\<rparr>
            in release_expired cur_time (passed @ [j]) js 0 r3)"

text \<open>The loop that releases consecutive frames from the head on.\<close>

function release_ready :: "nat \<Rightarrow> reorder_st \<Rightarrow> reorder_st" where
  "release_ready index r =
     (if index < length (reorder_buf r) \<and> reorder_buf r ! index \<noteq> None
      then let r1 = phl_release_reorder_frame r index
           in release_ready (reorder_index r1 (head_seq_num r1)) r1
      else r)"
  by pat_completeness auto

termination
proof (relation "measure (\<lambda>(index, r). count_some (reorder_buf r))")
  fix index r x
  assume i: "index < length (reorder_buf r) \<and> reorder_buf r ! index \<noteq> None"
    and x: "x = phl_release_reorder_frame r index"
  have "reorder_buf x = (reorder_buf r)[index := None]"
    using i x by (auto simp: phl_release_reorder_frame_def Let_def)
  with i have "count_some (reorder_buf x) < count_some (reorder_buf r)"
    using count_some_clear [of index "reorder_buf r"] by simp
  then show "((reorder_index x (head_seq_num x), x), index, r)
               \<in> measure (\<lambda>(index, r). count_some (reorder_buf r))"
    by simp
qed simp

text \<open>
  The last loop of \<^verbatim>\<open>phl_reorder_release\<close> looks for a stored frame. It stops at
  \<^verbatim>\<open>(index - 1) % buf_size\<close>, which is \<^verbatim>\<open>-1\<close> when \<^verbatim>\<open>index\<close> is 0 and then never
  matches; \<^const>\<open>None\<close> is the loop that does not end.
\<close>

partial_function (option) seek_ready ::
  "ptr option list \<Rightarrow> nat \<Rightarrow> int \<Rightarrow> nat \<Rightarrow> nat option" where
  "seek_ready buf n stop j =
     (if int j = stop then Some j
      else if buf ! j \<noteq> None then Some j
      else seek_ready buf n stop ((j + 1) mod n))"

definition set_release_timer :: "reorder_st \<Rightarrow> reorder_st" where
  "set_release_timer r =
     (if \<not> removed r then r\<lparr>timer := Some (SetTimer HT_RX_REORDER_BUF_TIMEOUT_MS)\<rparr> else r)"

text \<open>The end of the function when the loop was not left early.\<close>

definition release_timer_step :: "reorder_st \<Rightarrow> reorder_st option" where
  "release_timer_step r =
     (if stored_mpdu_num r \<noteq> 0 then
        let index = head_seq_num r mod buf_size r in
        map_option (\<lambda>_. set_release_timer r)
          (seek_ready (reorder_buf r) (buf_size r)
             (c_rem (int index - 1) (int (buf_size r))) index)
      else Some (r\<lparr>timer := Some CancelTimer\<rparr>))"

definition phl_reorder_release :: "u32 \<Rightarrow> reorder_st \<Rightarrow> reorder_st option" where
  "phl_reorder_release cur_time r =
     (let index = reorder_index r (head_seq_num r);
          (r1, stop) =
            (if reorder_buf r ! index = None \<and> stored_mpdu_num r \<noteq> 0
             then release_expired cur_time [] (ring_order index (buf_size r)) 1 r
             else (release_ready index r, False))
      in if stop then Some (set_release_timer r1)
         else release_timer_step r1)"

function release_until :: "nat \<Rightarrow> reorder_st \<Rightarrow> reorder_st" where
  "release_until hseq r =
     (if seq_less (head_seq_num r) hseq \<and> stored_mpdu_num r \<noteq> 0
      then release_until hseq
             (phl_release_reorder_frame r (reorder_index r (head_seq_num r)))
      else r)"
  by pat_completeness auto


lemma and_SEQ_MASK: "x AND SEQ_MASK = x mod 4096"
proof -
  have "SEQ_MASK = mask 12" by (simp add: SEQ_MASK_def mask_eq_exp_minus_1)
  then have "x AND SEQ_MASK = take_bit 12 x" by (simp add: take_bit_eq_mask)
  then show ?thesis by (simp add: take_bit_eq_mod)
qed

named_theorems seq_simps \<open>sequence numbers as residues modulo 4096\<close>

lemma seq_sub_eq [seq_simps]: "seq_sub a b = nat ((int a - int b) mod 4096)"
  by (simp add: seq_sub_def and_SEQ_MASK)

lemma seq_inc_eq [seq_simps]: "seq_inc a = (a + 1) mod 4096"
  by (simp add: seq_inc_def and_SEQ_MASK nat_mod_distrib nat_add_distrib)

lemma seq_less_eq [seq_simps]: "seq_less a b \<longleftrightarrow> 2048 < (int a - int b) mod 4096"
  by (simp add: seq_less_def and_SEQ_MASK SEQ_MODULO_def drop_bit_eq_div)

lemma seq_less_dist: "seq_less a b \<longleftrightarrow> 0 < seq_sub b a \<and> seq_sub b a < 2048"
proof -
  have "(int a - int b) mod 4096 =
      (if (int b - int a) mod 4096 = 0 then 0 else 4096 - (int b - int a) mod 4096)"
    using zmod_zminus1_eq_if [of "int b - int a" 4096] by simp
  then show ?thesis by (simp add: seq_simps nat_less_iff zero_less_nat_eq) linarith
qed

lemma seq_sub_less [simp]: "seq_sub a b < 4096"
  by (simp add: seq_sub_eq nat_less_iff)

lemma seq_sub_inc: "0 < seq_sub b a \<Longrightarrow> seq_sub b (seq_inc a) = seq_sub b a - 1"
proof -
  define y where "y = (int b - int a) mod 4096"
  assume "0 < seq_sub b a"
  then have y: "0 < y" "y < 4096" by (simp_all add: seq_simps y_def)
  have "(int b - int (seq_inc a)) mod 4096 = (y - 1) mod 4096"
    by (simp add: seq_simps zmod_int y_def mod_simps algebra_simps)
  also have "\<dots> = y - 1" using y by simp
  finally show ?thesis using y by (simp add: seq_sub_eq y_def nat_diff_distrib)
qed

lemma head_release_frame [simp]:
  "head_seq_num (phl_release_reorder_frame r i) = seq_inc (head_seq_num r)"
  by (simp add: phl_release_reorder_frame_def Let_def split: option.split)

termination release_until
proof (relation "measure (\<lambda>(hseq, r). seq_sub hseq (head_seq_num r))")
  fix hseq and r :: reorder_st
  assume "seq_less (head_seq_num r) hseq \<and> stored_mpdu_num r \<noteq> 0"
  then have "0 < seq_sub hseq (head_seq_num r)" by (simp add: seq_less_dist)
  then show "((hseq, phl_release_reorder_frame r (reorder_index r (head_seq_num r))), hseq, r)
      \<in> measure (\<lambda>(hseq, r). seq_sub hseq (head_seq_num r))"
    by (simp add: seq_sub_inc)
qed simp

declare release_ready.simps [simp del] release_until.simps [simp del]

definition phl_release_reorder_frames :: "reorder_st \<Rightarrow> nat \<Rightarrow> reorder_st" where
  "phl_release_reorder_frames r hseq = (release_until hseq r)\<lparr>head_seq_num := hseq\<rparr>"

text \<open>The frame is put into its slot.\<close>

definition reorder_store :: "reorder_st \<Rightarrow> nat \<Rightarrow> ptr \<Rightarrow> u32 \<Rightarrow> reorder_st" where
  "reorder_store r index pkt cur_time =
     r\<lparr>reorder_buf := (reorder_buf r)[index := Some pkt],
       reorder_time := (reorder_time r)[index := cur_time],
       stored_mpdu_num := to_u16 (int (stored_mpdu_num r) + 1)\<rparr>"

text \<open>
  The result is the updated session and the C return value; \<^const>\<open>None\<close> when the release
  does not return. The packet's sequence number is that of its meta data; the two
  readings of the clock are the same in the model.
\<close>

definition phl_manage_sta_reorder_buf ::
  "(ptr \<Rightarrow> nat) \<Rightarrow> u32 \<Rightarrow> ptr \<Rightarrow> reorder_st \<Rightarrow> (reorder_st \<times> bool) option" where
  "phl_manage_sta_reorder_buf seq_of cur_time pkt r =
     (let mpdu_seq_num = seq_of pkt;
          head = head_seq_num r
      in if \<not> started r \<and> seq_less mpdu_seq_num head then Some (r, False)
         else
           let r1 = r\<lparr>started := True\<rparr> in
           if seq_less mpdu_seq_num head then
             Some (r1\<lparr>recycled := recycled r1 @ [pkt]\<rparr>, True)
           else
             let r2 = (if \<not> seq_less mpdu_seq_num (to_u16 (int head + int (buf_size r1)))
                       then phl_release_reorder_frames r1
                              (seq_inc (seq_sub mpdu_seq_num (buf_size r1)))
                       else r1);
                 index = reorder_index r2 mpdu_seq_num
             in if reorder_buf r2 ! index \<noteq> None then
                  Some (r2\<lparr>recycled := recycled r2 @ [pkt]\<rparr>, True)
                else if mpdu_seq_num = head_seq_num r2 \<and> stored_mpdu_num r2 = 0 then
                  Some (r2\<lparr>head_seq_num := seq_inc (head_seq_num r2)\<rparr>, False)
                else
                  map_option (\<lambda>r4. (r4, True))
                    (phl_reorder_release cur_time (reorder_store r2 index pkt cur_time)))"

section \<open>The window and its invariant\<close>

text \<open>
  The abstraction of the ring: the window that starts at the head sequence number, as a
  list whose position is the distance from the head.
\<close>

definition win :: "reorder_st \<Rightarrow> ptr option list" where
  "win r = rotate (reorder_index r (head_seq_num r)) (reorder_buf r)"

definition reorder_shape :: "reorder_st \<Rightarrow> bool" where
  "reorder_shape r \<longleftrightarrow>
     1 < buf_size r \<and> buf_size r < 2048 \<and> buf_size r dvd 4096 \<and>
     length (reorder_buf r) = buf_size r \<and> length (reorder_time r) = buf_size r \<and>
     head_seq_num r < 4096 \<and> ssn r < 4096 \<and>
     stored_mpdu_num r = count_some (reorder_buf r)"

definition reorder_inv :: "(ptr \<Rightarrow> nat) \<Rightarrow> reorder_st \<Rightarrow> bool" where
  "reorder_inv seq_of r \<longleftrightarrow>
     reorder_shape r \<and>
     (\<forall>d<buf_size r. \<forall>p. win r ! d = Some p \<longrightarrow>
        seq_of p = (head_seq_num r + d) mod 4096)"

text \<open>The frames of a window, in order.\<close>

definition somes :: "'a option list \<Rightarrow> 'a list" where
  "somes xs = map the (filter (\<lambda>x. x \<noteq> None) xs)"

text \<open>The reference operation: the window slides by one slot, releasing what it leaves.\<close>

primrec slide :: "nat \<Rightarrow> reorder_st \<Rightarrow> reorder_st" where
  "slide 0 r = r"
| "slide (Suc k) r =
     phl_release_reorder_frame (slide k r)
       (reorder_index (slide k r) (head_seq_num (slide k r)))"

lemma somes_simps [simp]:
  "somes [] = []" "somes (None # xs) = somes xs" "somes (Some x # xs) = x # somes xs"
  "somes (xs @ ys) = somes xs @ somes ys" "somes (replicate n None) = []"
  by (simp_all add: somes_def)

lemma length_somes: "length (somes xs) = count_some xs"
  by (simp add: somes_def count_some_def)

lemma rotate_shift:
  assumes "i < length xs"
  shows "rotate (Suc i) (xs[i := None]) = tl (rotate i xs) @ [None]"
proof (rule nth_equalityI)
  fix d
  assume "d < length (rotate (Suc i) (xs[i := None]))"
  then have d: "d < length xs" by simp
  show "rotate (Suc i) (xs[i := None]) ! d = (tl (rotate i xs) @ [None]) ! d"
  proof (cases "Suc d = length xs")
    case True
    then have "(d + Suc i) mod length xs = i" using assms by (cases "i = 0") (auto simp: mod_if)
    then show ?thesis using True [symmetric] d assms
      by (simp add: nth_rotate nth_append add.commute del: rotate_Suc)
  next
    case False
    then have "(d + Suc i) mod length xs \<noteq> i" using assms d
      by (auto simp: mod_if split: if_splits)
    moreover have "d < length xs - 1" using False d by simp
    ultimately show ?thesis using d assms
      by (simp add: nth_rotate nth_append nth_tl add.commute del: rotate_Suc)
  qed
qed (use assms in simp)

lemma reorder_index_less: "0 < buf_size r \<Longrightarrow> reorder_index r x < buf_size r"
  by (simp add: reorder_index_def)

lemma reorder_index_int:
  assumes "buf_size r dvd 4096"
  shows "int (reorder_index r x) = (int x - int (ssn r)) mod int (buf_size r)"
proof -
  have "int (buf_size r) dvd 4096" using assms by (metis of_nat_dvd_iff of_nat_numeral)
  then show ?thesis by (simp add: reorder_index_def seq_sub_eq zmod_int mod_mod_cancel)
qed

lemma reorder_index_add:
  assumes "buf_size r dvd 4096"
  shows "reorder_index r ((x + d) mod 4096) = (reorder_index r x + d) mod buf_size r"
proof -
  have "int (buf_size r) dvd 4096" using assms by (metis of_nat_dvd_iff of_nat_numeral)
  then have "int (reorder_index r ((x + d) mod 4096)) =
      int ((reorder_index r x + d) mod buf_size r)"
    by (simp add: reorder_index_int [OF assms] zmod_int mod_mod_cancel mod_simps)
       (metis (no_types) add.commute diff_add_eq mod_diff_left_eq mod_mod_cancel)
  then show ?thesis by linarith
qed

text \<open>What a release leaves alone.\<close>

definition same_rest :: "reorder_st \<Rightarrow> reorder_st \<Rightarrow> bool" where
  "same_rest r r' \<longleftrightarrow>
     buf_size r' = buf_size r \<and> ssn r' = ssn r \<and> reorder_time r' = reorder_time r \<and>
     ba_tid r' = ba_tid r \<and> started r' = started r \<and> removed r' = removed r \<and>
     recycled r' = recycled r \<and> rxbuf_recycled r' = rxbuf_recycled r \<and> timer r' = timer r"

lemma same_rest_refl [simp]: "same_rest r r"
  by (simp add: same_rest_def)

lemma same_rest_trans: "same_rest r r' \<Longrightarrow> same_rest r' r'' \<Longrightarrow> same_rest r r''"
  by (simp add: same_rest_def)

lemma same_rest_release [simp]: "same_rest r (phl_release_reorder_frame r i)"
  by (simp add: same_rest_def phl_release_reorder_frame_def Let_def split: option.split)

lemma reorder_index_rest: "same_rest r r' \<Longrightarrow> reorder_index r' = reorder_index r"
  by (simp add: fun_eq_iff reorder_index_def same_rest_def)

lemma length_win [simp]: "length (win r) = length (reorder_buf r)"
  by (simp add: win_def)

lemma win_nth:
  "d < length (reorder_buf r) \<Longrightarrow>
     win r ! d = reorder_buf r ! ((reorder_index r (head_seq_num r) + d) mod length (reorder_buf r))"
  by (simp add: win_def nth_rotate add.commute)

lemma count_some_mset: "count_some xs = size (filter_mset (\<lambda>x. x \<noteq> None) (mset xs))"
  by (simp add: count_some_def flip: mset_filter)

lemma mset_win: "mset (win r) = mset (reorder_buf r)"
proof -
  have "mset (rotate1 xs) = mset xs" for xs :: "ptr option list" by (cases xs) simp_all
  then have "mset (rotate n xs) = mset xs" for n and xs :: "ptr option list"
    by (induction n) simp_all
  then show ?thesis by (simp add: win_def)
qed

lemma count_some_win: "count_some (win r) = count_some (reorder_buf r)"
  by (simp add: count_some_mset mset_win)

lemma head_release_slot:
  assumes "reorder_shape r"
  shows "hd (win r) = reorder_buf r ! reorder_index r (head_seq_num r)"
proof -
  have l: "win r \<noteq> []" "reorder_index r (head_seq_num r) < length (reorder_buf r)"
    using assms reorder_index_less [of r] by (auto simp: reorder_shape_def win_def)
  then show ?thesis using win_nth [of 0 r] by (cases "reorder_buf r = []") (auto simp: hd_conv_nth)
qed

lemma release_head_buf:
  assumes "reorder_shape r"
  defines "i \<equiv> reorder_index r (head_seq_num r)"
  shows "reorder_buf (phl_release_reorder_frame r i) = (reorder_buf r)[i := None]"
    and "frames (phl_release_reorder_frame r i) = frames r @ somes [hd (win r)]"
    and "stored_mpdu_num (phl_release_reorder_frame r i) = count_some ((reorder_buf r)[i := None])"
proof -
  have i: "i < length (reorder_buf r)" and n: "length (reorder_buf r) < 2048"
    using assms reorder_index_less [of r] by (auto simp: reorder_shape_def)
  have h: "hd (win r) = reorder_buf r ! i" using head_release_slot [OF assms(1)] i_def by simp
  have st: "stored_mpdu_num r = count_some (reorder_buf r)"
    using assms(1) by (simp add: reorder_shape_def)
  have None: "(reorder_buf r)[i := None] = reorder_buf r" if "reorder_buf r ! i = None"
    using that by (metis list_update_id)
  show "reorder_buf (phl_release_reorder_frame r i) = (reorder_buf r)[i := None]"
    using None by (auto simp: phl_release_reorder_frame_def Let_def split: option.split)
  show "frames (phl_release_reorder_frame r i) = frames r @ somes [hd (win r)]"
    by (auto simp: phl_release_reorder_frame_def Let_def h split: option.split)
  have "count_some (reorder_buf r) < 2048" using n count_some_le_length [of "reorder_buf r"] by simp
  then show "stored_mpdu_num (phl_release_reorder_frame r i) =
      count_some ((reorder_buf r)[i := None])"
    using None count_some_clear [OF i] st
    by (cases "reorder_buf r ! i")
       (auto simp: phl_release_reorder_frame_def Let_def to_u16_in_range)
qed

lemma release_head:
  assumes "reorder_shape r"
  defines "r' \<equiv> phl_release_reorder_frame r (reorder_index r (head_seq_num r))"
  shows "reorder_shape r' \<and> win r' = tl (win r) @ [None] \<and>
     frames r' = frames r @ somes [hd (win r)]"
proof -
  let ?i = "reorder_index r (head_seq_num r)"
  have i: "?i < length (reorder_buf r)" and d: "buf_size r dvd 4096"
    and len: "length (reorder_buf r) = buf_size r"
    using assms(1) reorder_index_less [of r] by (auto simp: reorder_shape_def)
  note b = release_head_buf [OF assms(1), folded r'_def]
  have rest: "same_rest r r'" by (simp add: r'_def)
  have "reorder_index r' (head_seq_num r') = Suc ?i mod length (reorder_buf r)"
    using reorder_index_add [OF d, of "head_seq_num r" 1] len
    unfolding reorder_index_rest [OF rest] by (simp add: r'_def seq_inc_eq)
  then have "win r' = rotate (Suc ?i) ((reorder_buf r)[?i := None])"
    unfolding win_def b(1) by (metis length_list_update rotate_conv_mod)
  then have "win r' = tl (win r) @ [None]" using rotate_shift [OF i] by (simp add: win_def)
  moreover have "reorder_shape r'"
    using assms(1) rest b(1,3) by (simp add: reorder_shape_def same_rest_def r'_def seq_inc_eq)
  ultimately show ?thesis using b(2) by simp
qed

section \<open>Sliding the window\<close>

lemma slide_add: "slide (a + b) r = slide a (slide b r)"
  by (induction a) simp_all

lemma slide_rest: "same_rest r (slide k r)"
proof (induction k)
  case (Suc k)
  then show ?case by (simp add: same_rest_trans [OF _ same_rest_release])
qed simp

lemma slide_head: "reorder_shape r \<Longrightarrow> head_seq_num (slide k r) = (head_seq_num r + k) mod 4096"
  by (induction k) (simp_all add: reorder_shape_def seq_inc_eq mod_simps)

lemma drop_Suc_snoc: "k < length u \<Longrightarrow> drop (Suc k) (u @ [x]) = tl (drop k u) @ [x]"
  by (simp add: drop_Suc tl_drop)

lemma slide_abs:
  assumes "reorder_shape r"
  shows "reorder_shape (slide k r) \<and>
     win (slide k r) = drop k (win r @ replicate k None) \<and>
     frames (slide k r) = frames r @ somes (take k (win r))"
proof (induction k)
  case 0
  then show ?case using assms by simp
next
  case (Suc k)
  let ?w = "win r"
  have ne: "?w \<noteq> []" using assms by (auto simp: reorder_shape_def win_def)
  from Suc have sh: "reorder_shape (slide k r)" and w: "win (slide k r) = drop k (?w @ replicate k None)"
    and f: "frames (slide k r) = frames r @ somes (take k ?w)" by simp_all
  note rel = release_head [OF sh]
  have h: "somes (take k ?w) @ somes [hd (drop k (?w @ replicate k None))] = somes (take (Suc k) ?w)"
  proof (cases "k < length ?w")
    case True
    then show ?thesis
      by (simp add: hd_drop_conv_nth nth_append take_Suc_conv_app_nth flip: somes_simps(4))
  next
    case False
    moreover from ne have "reorder_buf r \<noteq> []" by (simp add: win_def)
    then have "hd (drop k (?w @ replicate k None)) = None" using False by simp
    ultimately show ?thesis by simp
  qed
  have "tl (drop k (?w @ replicate k None)) @ [None] = drop (Suc k) (?w @ replicate (Suc k) None)"
  proof -
    have "k < length (?w @ replicate k None)" using ne by (simp add: win_def)
    from drop_Suc_snoc [OF this, of None]
    show ?thesis by (metis append_assoc replicate_Suc replicate_append_same)
  qed
  with rel w f h show ?case by simp
qed

lemmas slide_shape = slide_abs [THEN conjunct1]
lemmas slide_win = slide_abs [THEN conjunct2, THEN conjunct1]
lemmas slide_frames = slide_abs [THEN conjunct2, THEN conjunct2]

lemma release_None:
  "reorder_buf r ! i = None \<Longrightarrow>
     phl_release_reorder_frame r i = r\<lparr>head_seq_num := seq_inc (head_seq_num r)\<rparr>"
  by (simp add: phl_release_reorder_frame_def)

lemma hd_win_slide:
  assumes "reorder_shape r"
  shows "hd (win (slide k r)) = (if k < buf_size r then win r ! k else None)"
proof -
  have "length (win r) = buf_size r" "0 < buf_size r"
    using assms by (auto simp: reorder_shape_def)
  then show ?thesis by (auto simp: slide_win [OF assms] hd_drop_conv_nth nth_append)
qed

lemma slide_None:
  assumes "reorder_shape r"
  shows "(\<And>d. d < k \<Longrightarrow> d < buf_size r \<Longrightarrow> win r ! d = None) \<Longrightarrow>
     slide k r = r\<lparr>head_seq_num := (head_seq_num r + k) mod 4096\<rparr>"
proof (induction k)
  case 0
  then show ?case using assms by (simp add: reorder_shape_def)
next
  case (Suc k)
  have "slide k r = r\<lparr>head_seq_num := (head_seq_num r + k) mod 4096\<rparr>"
    by (rule Suc.IH) (simp add: Suc.prems)
  moreover have "reorder_buf (slide k r) ! reorder_index (slide k r) (head_seq_num (slide k r)) = None"
    using head_release_slot [OF slide_shape [OF assms], of k] hd_win_slide [OF assms, of k]
      Suc.prems [of k]
    by (auto split: if_splits)
  ultimately show ?case using assms
    by (simp add: release_None seq_inc_eq mod_simps)
qed

lemma slide_index:
  assumes "reorder_shape r"
  shows "reorder_index (slide k r) (head_seq_num (slide k r)) =
     (reorder_index r (head_seq_num r) + k) mod buf_size r"
  using reorder_index_add [of r "head_seq_num r" k] assms
  by (simp add: slide_head [OF assms] reorder_index_rest [OF slide_rest] reorder_shape_def)

lemma slide_win_nth:
  "reorder_shape r \<Longrightarrow> k + e < buf_size r \<Longrightarrow> win (slide k r) ! e = win r ! (k + e)"
  by (auto simp: slide_win nth_append reorder_shape_def)

lemma slide_slot:
  assumes "reorder_shape r" and "e < buf_size r" and "k \<le> buf_size r"
  shows "reorder_buf (slide k r) ! ((reorder_index r (head_seq_num r) + e) mod buf_size r) =
     (if e < k then None else win r ! e)"
proof -
  let ?n = "buf_size r" and ?i = "reorder_index r (head_seq_num r)" and ?r = "slide k r"
  have sh: "reorder_shape ?r" and n: "length (reorder_buf ?r) = ?n" "length (win r) = ?n"
    using slide_abs [OF assms(1), of k] slide_rest [of r k] assms(1)
    by (auto simp: reorder_shape_def same_rest_def)
  note i = slide_index [OF assms(1), of k]
  have w: "win ?r ! d = reorder_buf ?r ! ((?i + (k + d)) mod ?n)" if "d < ?n" for d
    using win_nth [of d ?r] that n i by (simp add: mod_simps add.assoc)
  show ?thesis
  proof (cases "e < k")
    case True
    with assms have d: "?n - k + e < ?n" "\<not> buf_size r + e - k < buf_size r - k" by simp_all
    have "win ?r ! (?n - k + e) = None"
      using True assms n d by (simp add: slide_win [OF assms(1)] nth_append)
    moreover have "(?i + (k + (?n - k + e))) mod ?n = (?i + e) mod ?n"
    proof -
      have "?i + (k + (?n - k + e)) = (?i + e) + ?n" using assms by simp
      then show ?thesis by (metis mod_add_self2)
    qed
    ultimately show ?thesis using w [OF d(1)] True by simp
  next
    case False
    with assms have "e - k < ?n - k" by simp
    with False have "win ?r ! (e - k) = win r ! e"
      using assms n by (simp add: slide_win [OF assms(1)] nth_append)
    with False w [of "e - k"] assms show ?thesis by simp
  qed
qed

section \<open>Every release slides the window\<close>

text \<open>The number of consecutive frames at the head.\<close>

definition ready_run :: "reorder_st \<Rightarrow> nat" where
  "ready_run r = length (takeWhile (\<lambda>x. x \<noteq> None) (win r))"

lemma release_ready_slide:
  "reorder_shape r \<Longrightarrow> release_ready (reorder_index r (head_seq_num r)) r = slide (ready_run r) r"
proof (induction "count_some (reorder_buf r)" arbitrary: r rule: less_induct)
  case less
  let ?i = "reorder_index r (head_seq_num r)"
  have i: "?i < length (reorder_buf r)" and ne: "win r \<noteq> []"
    using less.prems reorder_index_less [of r] by (auto simp: reorder_shape_def win_def)
  have h: "hd (win r) = reorder_buf r ! ?i" by (rule head_release_slot [OF less.prems])
  show ?case
  proof (cases "reorder_buf r ! ?i = None")
    case True
    then have "ready_run r = 0" using ne h by (cases "win r") (simp_all add: ready_run_def)
    with True show ?thesis by (simp add: release_ready.simps)
  next
    case False
    let ?r = "slide 1 r"
    have r: "?r = phl_release_reorder_frame r ?i" by simp
    have sh: "reorder_shape ?r" by (rule slide_shape [OF less.prems])
    have "count_some (reorder_buf ?r) < count_some (reorder_buf r)"
      using release_head_buf(1) [OF less.prems] r count_some_clear [OF i] False by simp
    then have "release_ready (reorder_index ?r (head_seq_num ?r)) ?r = slide (ready_run ?r) ?r"
      using less.hyps sh by blast
    moreover have "release_ready ?i r = release_ready (reorder_index ?r (head_seq_num ?r)) ?r"
      using False i by (subst release_ready.simps) (simp add: Let_def)
    moreover have "ready_run r = ready_run ?r + 1"
      using ne h False less.prems
      by (cases "win r") (simp_all add: ready_run_def slide_win [OF less.prems]
          takeWhile_append del: slide.simps, simp add: takeWhile_eq_all_conv [THEN iffD2])
    ultimately show ?thesis by (simp only: slide_add)
  qed
qed

lemma stored_zero_win:
  "reorder_shape r \<Longrightarrow> stored_mpdu_num r = 0 \<Longrightarrow> d < buf_size r \<Longrightarrow> win r ! d = None"
  using count_some_win [of r] count_some_zero_iff [of "win r"] by (auto simp: reorder_shape_def)

lemma seq_add_sub: "b < 4096 \<Longrightarrow> (a + seq_sub b a) mod 4096 = b"
proof -
  assume b: "b < 4096"
  have "int ((a + seq_sub b a) mod 4096) = int b"
    using b by (simp add: seq_sub_eq zmod_int mod_simps)
  then show ?thesis by linarith
qed

lemma seq_sub_zero: "a < 4096 \<Longrightarrow> b < 4096 \<Longrightarrow> seq_sub a b = 0 \<longleftrightarrow> a = b"
  using seq_add_sub [of a b] by (auto simp: seq_sub_eq)

lemma release_until_slide:
  assumes "hseq < 4096"
  shows "reorder_shape r \<Longrightarrow> seq_sub hseq (head_seq_num r) < 2048 \<Longrightarrow>
     (release_until hseq r)\<lparr>head_seq_num := hseq\<rparr> = slide (seq_sub hseq (head_seq_num r)) r"
proof (induction "seq_sub hseq (head_seq_num r)" arbitrary: r)
  case 0
  then have "head_seq_num r = hseq" using assms seq_sub_zero [of hseq "head_seq_num r"]
    by (simp add: reorder_shape_def)
  moreover from 0 have "release_until hseq r = r"
    by (subst release_until.simps) (simp add: seq_less_dist)
  ultimately show ?case using 0 by simp
next
  case (Suc k)
  show ?case
  proof (cases "stored_mpdu_num r = 0")
    case True
    then have "release_until hseq r = r" by (subst release_until.simps) simp
    moreover have "slide (Suc k) r = r\<lparr>head_seq_num := (head_seq_num r + Suc k) mod 4096\<rparr>"
      using slide_None [OF Suc.prems(1)] stored_zero_win [OF Suc.prems(1) True] by blast
    ultimately show ?thesis using Suc.hyps(2) seq_add_sub [OF assms, of "head_seq_num r"]
      by (simp del: slide.simps)
  next
    case False
    let ?r = "slide 1 r"
    have k: "k = seq_sub hseq (head_seq_num ?r)"
      using seq_sub_inc [of hseq "head_seq_num r"] Suc.hyps(2) by simp
    have "release_until hseq r = release_until hseq ?r"
      using False Suc.hyps(2) Suc.prems(2)
      by (subst release_until.simps) (simp add: seq_less_dist)
    moreover have "(release_until hseq ?r)\<lparr>head_seq_num := hseq\<rparr> = slide k ?r"
      using Suc.hyps(1) [OF k slide_shape [OF Suc.prems(1)]] Suc.hyps(2) Suc.prems(2) k by simp
    moreover have "slide (Suc k) r = slide k ?r" using slide_add [of k 1 r] by simp
    ultimately show ?thesis using Suc.hyps(2) by simp
  qed
qed

lemma release_frames_slide:
  "reorder_shape r \<Longrightarrow> hseq < 4096 \<Longrightarrow> seq_sub hseq (head_seq_num r) < 2048 \<Longrightarrow>
     phl_release_reorder_frames r hseq = slide (seq_sub hseq (head_seq_num r)) r"
  by (simp add: phl_release_reorder_frames_def release_until_slide)

lemma recycle_none: "(\<And>i. i \<in> set is \<Longrightarrow> reorder_buf r ! i = None) \<Longrightarrow> fold recycle_slot is r = r"
  by (induction "is") (simp_all add: recycle_slot_def)

text \<open>A release past skipped slots is a slide over them and one slot more.\<close>

lemma release_skipped_slide:
  assumes "reorder_shape r" and "\<And>d. d < s \<Longrightarrow> d < buf_size r \<Longrightarrow> win r ! d = None"
    and "j = (reorder_index r (head_seq_num r) + s) mod buf_size r"
  defines "r2 \<equiv> phl_release_reorder_frame r j"
  shows "r2\<lparr>head_seq_num := nat ((int (head_seq_num r2) + int s) AND SEQ_MASK)\<rparr> = slide (Suc s) r"
proof -
  have d: "buf_size r dvd 4096" using assms(1) by (simp add: reorder_shape_def)
  have sl: "slide s r = r\<lparr>head_seq_num := (head_seq_num r + s) mod 4096\<rparr>"
    by (rule slide_None [OF assms(1,2)])
  have "reorder_index (slide s r) (head_seq_num (slide s r)) = j"
    using reorder_index_add [OF d, of "head_seq_num r" s] assms(3)
    by (simp add: slide_head [OF assms(1)] reorder_index_rest [OF slide_rest])
  then have "slide (Suc s) r = phl_release_reorder_frame (r\<lparr>head_seq_num := (head_seq_num r + s) mod 4096\<rparr>) j"
    by (simp add: sl)
  moreover have "nat ((int (seq_inc (head_seq_num r)) + int s) AND SEQ_MASK) =
      seq_inc ((head_seq_num r + s) mod 4096)"
    by (simp add: and_SEQ_MASK seq_inc_eq nat_mod_distrib nat_add_distrib mod_simps)
  ultimately show ?thesis
    by (simp add: r2_def phl_release_reorder_frame_def Let_def split: option.split)
qed

text \<open>
  The time-out loop slides the window by some distance; it stops early only in front of a
  frame that has not timed out, and otherwise leaves nothing stored.
\<close>

lemma release_expired_slide:
  assumes sh: "reorder_shape r0"
  defines "n \<equiv> buf_size r0" and "slot \<equiv> \<lambda>e. (reorder_index r0 (head_seq_num r0) + e) mod buf_size r0"
  shows "1 \<le> d \<Longrightarrow> d \<le> n \<Longrightarrow> s \<le> d \<Longrightarrow> (\<And>e. d - s \<le> e \<Longrightarrow> e < d \<Longrightarrow> win r0 ! e = None) \<Longrightarrow>
     \<exists>k stop. release_expired t (map slot [1..<d]) (map slot [d..<n]) s (slide (d - s) r0)
                = (slide k r0, stop) \<and> k \<le> n \<and>
       (\<not> stop \<longrightarrow> (\<forall>e. k \<le> e \<and> e < n \<longrightarrow> win r0 ! e = None)) \<and>
       (stop \<longrightarrow> (\<exists>e. k \<le> e \<and> e < n \<and> win r0 ! e \<noteq> None \<and>
          t < reorder_time r0 ! slot e + of_nat HT_RX_REORDER_BUF_TIMEOUT_MS))"
proof (induction "n - d" arbitrary: d s)
  case 0
  then have "d = n" by simp
  with 0 show ?case by (intro exI [of _ "d - s"] exI [of _ False]) auto
next
  case (Suc m)
  let ?r = "slide (d - s) r0" and ?T = "of_nat HT_RX_REORDER_BUF_TIMEOUT_MS :: u32"
  have d: "d < n" using Suc.hyps(2) by simp
  have js: "map slot [d..<n] = slot d # map slot [Suc d..<n]"
    and passed: "map slot [1..<d] @ [slot d] = map slot [1..<Suc d]"
    using d Suc.prems(1) by (simp_all add: upt_conv_Cons)
  have slot: "reorder_buf ?r ! slot e = (if e < d - s then None else win r0 ! e)" if "e < n" for e
    using slide_slot [OF sh, of e "d - s"] that d n_def unfolding slot_def by simp
  have time: "reorder_time ?r = reorder_time r0" and size: "buf_size ?r = n"
    using slide_rest [of r0 "d - s"] n_def by (simp_all add: same_rest_def)
  show ?case
  proof (cases "win r0 ! d")
    case None
    have ds: "Suc d - Suc s = d - s" by simp
    have "\<And>e. Suc d - Suc s \<le> e \<Longrightarrow> e < Suc d \<Longrightarrow> win r0 ! e = None"
      using Suc.prems(4) None by (auto simp: less_Suc_eq)
    moreover have "m = n - Suc d" "1 \<le> Suc d" "Suc d \<le> n" "Suc s \<le> Suc d"
      using Suc.hyps(2) d Suc.prems(3) by simp_all
    ultimately show ?thesis
      using Suc.hyps(1) [of "Suc d" "Suc s"] slot [OF d] None Suc.prems(3)
      by (simp only: js release_expired.simps passed ds) simp
  next
    case (Some pkt)
    show ?thesis
    proof (cases "s \<noteq> 0 \<and> t < reorder_time r0 ! slot d + ?T")
      case True
      have "release_expired t (map slot [1..<d]) (map slot [d..<n]) s ?r = (?r, True)"
        using slot [OF d] Some True time by (simp add: js)
      with True d Some Suc.prems(2) show ?thesis
        by (intro exI [of _ "d - s"] exI [of _ True] conjI impI exI [of _ d]) auto
    next
      case False
      have win: "win ?r ! e = None" if "e < s" "e < buf_size ?r" for e
        using that Suc.prems(3) Suc.prems(4) [of "d - s + e"] d slide_win_nth [OF sh, of "d - s" e] n_def
        by simp
      have j: "slot d = (reorder_index ?r (head_seq_num ?r) + s) mod buf_size ?r"
        using Suc.prems(3) by (simp add: slide_index [OF sh] slot_def size [folded n_def] n_def [symmetric] mod_simps add.assoc)
      have fold: "fold recycle_slot (map slot [1..<d]) ?r = ?r"
        using slot d Suc.prems(4) by (intro recycle_none) auto
      have next_r: "slide (Suc s) ?r = slide (Suc d - 0) r0"
        using slide_add [of "Suc s" "d - s" r0] Suc.prems(3) by (simp del: slide.simps)
      note rel = release_skipped_slide [OF slide_shape [OF sh] win j]
      have "release_expired t (map slot [1..<d]) (map slot [d..<n]) s ?r =
          release_expired t (map slot [1..<Suc d]) (map slot [Suc d..<n]) 0 (slide (Suc d - 0) r0)"
        using slot [OF d] Some False time rel unfolding next_r
        by (simp only: js release_expired.simps passed fold Let_def) (simp del: slide.simps)
      then show ?thesis using Suc.hyps(1) [of "Suc d" 0] Suc.hyps(2) d Suc.prems by simp
    qed
  qed
qed

section \<open>\<^verbatim>\<open>phl_reorder_release\<close>\<close>

lemma seek_ready_returns:
  assumes "i < n" and "buf ! i \<noteq> None"
  shows "j < n \<Longrightarrow> \<exists>k. seek_ready buf n stop j = Some k"
proof (induction "(i + n - j) mod n" arbitrary: j rule: less_induct)
  case less
  show ?case
  proof (cases "int j = stop \<or> buf ! j \<noteq> None")
    case True
    then show ?thesis by (subst seek_ready.simps) auto
  next
    case False
    then have "i \<noteq> j" using assms(2) by auto
    have "(i + n - (j + 1) mod n) mod n < (i + n - j) mod n"
      using \<open>i \<noteq> j\<close> assms(1) less.prems by (auto simp: mod_if split: if_splits)
    then have "\<exists>k. seek_ready buf n stop ((j + 1) mod n) = Some k"
      using less.hyps [of "(j + 1) mod n"] less.prems by simp
    with False show ?thesis by (subst seek_ready.simps) simp
  qed
qed

lemma stored_slot:
  "reorder_shape r \<Longrightarrow> stored_mpdu_num r \<noteq> 0 \<Longrightarrow> \<exists>i<buf_size r. reorder_buf r ! i \<noteq> None"
  using count_some_pos_ex [of "reorder_buf r"] by (auto simp: reorder_shape_def)

text \<open>Its result, by how far the window slides and which timer request it makes.\<close>

definition slid :: "nat \<Rightarrow> reorder_st \<Rightarrow> reorder_st \<Rightarrow> bool" where
  "slid k r r' \<longleftrightarrow>
     (if stored_mpdu_num (slide k r) = 0
      then r' = (slide k r)\<lparr>timer := Some CancelTimer\<rparr>
      else r' = set_release_timer (slide k r))"

lemma slid_slide: "slid 0 (slide k r) r' = slid k r r'"
  by (simp add: slid_def)

lemma release_tail:
  assumes "reorder_shape r"
  shows "\<exists>r'. release_timer_step r = Some r' \<and> slid 0 r r'"
proof (cases "stored_mpdu_num r = 0")
  case True
  then show ?thesis by (simp add: slid_def release_timer_step_def)
next
  case False
  obtain i where i: "i < buf_size r" "reorder_buf r ! i \<noteq> None"
    using stored_slot [OF assms False] by blast
  have "head_seq_num r mod buf_size r < buf_size r" using i by simp
  from seek_ready_returns [OF i this] False show ?thesis
    by (auto simp: Let_def slid_def release_timer_step_def)
qed

lemma ready_run_le: "reorder_shape r \<Longrightarrow> ready_run r \<le> buf_size r"
  using length_takeWhile_le [of "\<lambda>x. x \<noteq> None" "win r"] by (simp add: ready_run_def reorder_shape_def)

lemma reorder_release_slide:
  assumes sh: "reorder_shape r"
  shows "\<exists>k r'. phl_reorder_release t r = Some r' \<and> k \<le> buf_size r \<and> slid k r r' \<and>
     (hd (win r) \<noteq> None \<longrightarrow> k = ready_run r) \<and>
     (hd (win r) = None \<longrightarrow>
        (\<forall>e. k \<le> e \<and> e < buf_size r \<longrightarrow> win r ! e = None) \<or>
        (\<exists>e. k \<le> e \<and> e < buf_size r \<and> win r ! e \<noteq> None \<and>
          t < reorder_time r ! ((reorder_index r (head_seq_num r) + e) mod buf_size r)
                + of_nat HT_RX_REORDER_BUF_TIMEOUT_MS))"
proof -
  let ?i = "reorder_index r (head_seq_num r)"
  have h: "hd (win r) = reorder_buf r ! ?i" by (rule head_release_slot [OF sh])
  have tail: "\<exists>r'. phl_reorder_release t r = Some r' \<and> slid k r r'"
    if "(if reorder_buf r ! ?i = None \<and> stored_mpdu_num r \<noteq> 0
         then release_expired t [] (ring_order ?i (buf_size r)) 1 r
         else (release_ready ?i r, False)) = (slide k r, False)" for k
    using release_tail [OF slide_shape [OF sh, of k]] that
    by (simp add: phl_reorder_release_def Let_def slid_slide)
  show ?thesis
  proof (cases "reorder_buf r ! ?i = None \<and> stored_mpdu_num r \<noteq> 0")
    case False
    then obtain r' where "phl_reorder_release t r = Some r'" "slid (ready_run r) r r'"
      using tail [of "ready_run r"] release_ready_slide [OF sh] by auto
    moreover have "\<forall>e. ready_run r \<le> e \<and> e < buf_size r \<longrightarrow> win r ! e = None" if "hd (win r) = None"
      using False that h stored_zero_win [OF sh] by auto
    ultimately show ?thesis using ready_run_le [OF sh]
      by (intro exI [of _ "ready_run r"] exI [of _ r'] conjI impI disjI1) simp_all
  next
    case True
    have "win r \<noteq> []" using sh by (auto simp: reorder_shape_def win_def)
    then have "win r ! 0 = None" using True h by (simp add: hd_conv_nth)
    then obtain k stop where k: "release_expired t [] (ring_order ?i (buf_size r)) 1 r = (slide k r, stop)"
      "k \<le> buf_size r" "\<not> stop \<longrightarrow> (\<forall>e. k \<le> e \<and> e < buf_size r \<longrightarrow> win r ! e = None)"
      "stop \<longrightarrow> (\<exists>e. k \<le> e \<and> e < buf_size r \<and> win r ! e \<noteq> None \<and>
          t < reorder_time r ! ((?i + e) mod buf_size r) + of_nat HT_RX_REORDER_BUF_TIMEOUT_MS)"
      using release_expired_slide [OF sh, of 1 1 t] sh
      by (auto simp: ring_order_def reorder_shape_def)
    show ?thesis
    proof (cases stop)
      case False
      then show ?thesis using tail [of k] True k h by auto
    next
      case True': True
      with k(4) obtain e where e: "k \<le> e" "e < buf_size r" "win r ! e \<noteq> None" by blast
      have "stored_mpdu_num (slide k r) \<noteq> 0"
      proof
        assume z: "stored_mpdu_num (slide k r) = 0"
        have "e - k < buf_size (slide k r)" using e slide_rest [of r k] by (simp add: same_rest_def)
        from stored_zero_win [OF slide_shape [OF sh] z this] e slide_win_nth [OF sh, of k "e - k"]
        show False by simp
      qed
      then have "phl_reorder_release t r = Some (set_release_timer (slide k r))"
        "slid k r (set_release_timer (slide k r))"
        using True k(1) True' by (simp_all add: phl_reorder_release_def slid_def)
      then show ?thesis using k True' True h
        by - (rule exI [of _ k], rule exI [of _ "set_release_timer (slide k r)"],
             intro conjI impI disjI2, simp_all)
    qed
  qed
qed

section \<open>Arrival of a frame\<close>

lemma seq_sub_cases:
  "a < 4096 \<Longrightarrow> b < 4096 \<Longrightarrow> seq_sub a b = (if b \<le> a then a - b else a + 4096 - b)"
proof -
  assume a: "a < 4096" "b < 4096"
  have "(int a - int b) mod 4096 = (if b \<le> a then int a - int b else int a + 4096 - int b)"
    using a int_mod_neg [of "int a - int b" 4096] by simp
  then show ?thesis by (auto simp: seq_sub_eq)
qed

lemma in_window_iff:
  assumes "\<not> seq_less m h" and "m < 4096" and "h < 4096" and "w < 2048"
  shows "seq_less m (to_u16 (int h + int w)) \<longleftrightarrow> seq_sub m h < w"
proof -
  have "to_u16 (int h + int w) = h + w" using assms by (simp add: to_u16_in_range nat_add_distrib)
  moreover have d: "seq_sub m h \<le> 2048"
    using assms(1) seq_sub_cases [OF assms(2,3)] by (simp add: seq_less_eq seq_sub_eq)
  moreover have "(int m - int (h + w)) mod 4096 = (int (seq_sub m h) - int w) mod 4096"
    by (simp add: seq_sub_eq mod_simps algebra_simps)
  moreover have "(int (seq_sub m h) - int w) mod 4096 =
      (if seq_sub m h < w then int (seq_sub m h) - int w + 4096 else int (seq_sub m h) - int w)"
    using int_mod_neg [of "int (seq_sub m h) - int w" 4096] assms d by simp
  ultimately show ?thesis using assms(4) by (simp add: seq_less_eq)
qed

lemma make_room:
  assumes sh: "reorder_shape r" and m: "m < 4096" and old: "\<not> seq_less m (head_seq_num r)"
  defines "r2 \<equiv> (if \<not> seq_less m (to_u16 (int (head_seq_num r) + int (buf_size r)))
                  then phl_release_reorder_frames r (seq_inc (seq_sub m (buf_size r))) else r)"
    and "k \<equiv> seq_sub m (head_seq_num r) + 1 - buf_size r"
  shows "r2 = slide k r" and "seq_sub m (head_seq_num r2) < buf_size r"
    and "k + seq_sub m (head_seq_num r2) = seq_sub m (head_seq_num r)" and "k < 2048"
proof -
  let ?h = "head_seq_num r" and ?w = "buf_size r" and ?d = "seq_sub m (head_seq_num r)"
  have b: "1 < ?w" "?w < 2048" "?h < 4096" using sh by (auto simp: reorder_shape_def)
  have d: "?d \<le> 2048" using old by (simp add: seq_less_eq seq_sub_eq)
  have iff: "seq_less m (to_u16 (int ?h + int ?w)) \<longleftrightarrow> ?d < ?w"
    using in_window_iff [OF old m b(3,2)] .
  show k2048: "k < 2048" using d b by (simp add: k_def)
  have "seq_sub (seq_inc (seq_sub m ?w)) ?h = (?d + 1 - ?w)" if "?w \<le> ?d"
  proof -
    have "(int (seq_inc (seq_sub m ?w)) - int ?h) mod 4096 = (1 + (int m - int ?w) - int ?h) mod 4096"
      by (simp add: seq_sub_eq seq_inc_eq zmod_int mod_simps)
    also have "\<dots> = ((int m - int ?h) mod 4096 + (1 - int ?w)) mod 4096"
      by (subst mod_add_left_eq) (simp add: algebra_simps)
    also have "\<dots> = (int ?d + 1 - int ?w) mod 4096"
      by (simp add: seq_sub_eq algebra_simps)
    also have "\<dots> = int ?d + 1 - int ?w" using that d b by simp
    finally show ?thesis using that by (subst seq_sub_eq) (simp add: nat_diff_distrib nat_add_distrib)
  qed
  then have "phl_release_reorder_frames r (seq_inc (seq_sub m ?w)) = slide k r" if "?w \<le> ?d"
    using release_frames_slide [OF sh, of "seq_inc (seq_sub m ?w)"] that d b
    by (simp add: k_def seq_inc_eq)
  moreover have "k = 0" if "?d < ?w" using that by (simp add: k_def)
  ultimately show r2: "r2 = slide k r" using iff by (auto simp: r2_def)
  have "int (seq_sub m (head_seq_num r2)) = (int ?d - int k) mod 4096"
    by (simp add: r2 slide_head [OF sh] seq_sub_eq zmod_int mod_simps algebra_simps)
  also have "\<dots> = int ?d - int k" using d b by (auto simp: k_def)
  finally show "k + seq_sub m (head_seq_num r2) = ?d" by simp
  then show "seq_sub m (head_seq_num r2) < ?w" using b by (auto simp: k_def)
qed

lemma rotate_update:
  assumes "d < length xs"
  shows "rotate i (xs[(i + d) mod length xs := v]) = (rotate i xs)[d := v]"
proof (rule nth_equalityI)
  fix e
  assume "e < length (rotate i (xs[(i + d) mod length xs := v]))"
  then have e: "e < length xs" by simp
  have "(i + d) mod length xs = (i + e) mod length xs \<longleftrightarrow> d = e"
    using assms e mod_less_divisor [of "length xs" i] ring_index_eq [of "i mod length xs" "length xs" d e]
    by (cases xs) (auto simp: mod_simps)
  moreover have "(i + d) mod length xs < length xs" using assms by (cases xs) simp_all
  ultimately show "rotate i (xs[(i + d) mod length xs := v]) ! e = (rotate i xs)[d := v] ! e"
    using assms e by (simp add: nth_rotate nth_list_update add.commute)
qed simp

lemma somes_mset: "mset (somes xs) = image_mset the (filter_mset (\<lambda>x. x \<noteq> None) (mset xs))"
  by (simp add: somes_def flip: mset_filter)

lemma somes_win: "mset (somes (win r)) = mset (somes (reorder_buf r))"
  by (simp add: somes_mset mset_win)

lemma somes_fill:
  "i < length xs \<Longrightarrow> xs ! i = None \<Longrightarrow> mset (somes (xs[i := Some p])) = add_mset p (mset (somes xs))"
proof (induction xs arbitrary: i)
  case (Cons x xs)
  then show ?case by (cases i; cases x) auto
qed simp

text \<open>Sliding keeps the invariant, releases in order and loses nothing.\<close>

lemma slide_inv: "reorder_inv seq_of r \<Longrightarrow> reorder_inv seq_of (slide k r)"
  unfolding reorder_inv_def
proof (intro conjI allI impI)
  assume inv: "reorder_shape r \<and> (\<forall>d<buf_size r. \<forall>p. win r ! d = Some p \<longrightarrow>
      seq_of p = (head_seq_num r + d) mod 4096)"
  then show "reorder_shape (slide k r)" using slide_shape by blast
  fix d p
  assume d: "d < buf_size (slide k r)" and p: "win (slide k r) ! d = Some p"
  have n: "buf_size (slide k r) = buf_size r" "length (win r) = buf_size r"
    using slide_rest [of r k] inv by (simp_all add: same_rest_def reorder_shape_def)
  have "(win r @ replicate k None) ! (k + d) = Some p"
    using p inv by (simp add: slide_win del: drop_append)
  then have kd: "k + d < buf_size r" and "win r ! (k + d) = Some p"
    using d n by (auto simp: nth_append split: if_splits)
  then show "seq_of p = (head_seq_num (slide k r) + d) mod 4096"
    using inv by (simp add: slide_head mod_simps add.assoc)
qed

lemma released_in_order:
  assumes "reorder_inv seq_of r"
  defines "dist \<equiv> \<lambda>p. seq_sub (seq_of p) (head_seq_num r)"
  shows "sorted_wrt (<) (map dist (somes (take k (win r)))) \<and>
     (\<forall>p\<in>set (somes (take k (win r))). dist p < k \<and> dist p < buf_size r)"
proof (induction k)
  case (Suc k)
  then have IH: "sorted_wrt (<) (map dist (somes (take k (win r))))"
    "\<forall>p\<in>set (somes (take k (win r))). dist p < k \<and> dist p < buf_size r" by simp_all
  have n: "length (win r) = buf_size r" "buf_size r < 4096"
    using assms(1) by (auto simp: reorder_inv_def reorder_shape_def)
  show ?case
  proof (cases "k < length (win r)")
    case True
    have t: "take (Suc k) (win r) = take k (win r) @ [win r ! k]"
      by (rule take_Suc_conv_app_nth [OF True])
    show ?thesis
    proof (cases "win r ! k")
      case None
      then show ?thesis using IH t by auto
    next
      case (Some p)
      then have "seq_of p = (head_seq_num r + k) mod 4096"
        using assms(1) True n by (simp add: reorder_inv_def)
      then have "dist p = k" using True n by (simp add: dist_def seq_sub_eq zmod_int mod_simps)
      then show ?thesis using IH t Some True n by (auto simp: sorted_wrt_append)
    qed
  next
    case False
    then show ?thesis using IH by auto
  qed
qed simp

lemma slide_conserves:
  assumes "reorder_shape r"
  shows "mset (frames (slide k r)) + mset (somes (reorder_buf (slide k r))) =
     mset (frames r) + mset (somes (reorder_buf r))"
proof -
  have "somes (win (slide k r)) = somes (drop k (win r))" by (simp add: slide_win [OF assms])
  moreover have "somes (win r) = somes (take k (win r)) @ somes (drop k (win r))"
    by (metis append_take_drop_id somes_simps(4))
  ultimately have "mset (somes (win (slide k r))) + mset (somes (take k (win r))) = mset (somes (win r))"
    by simp
  then show ?thesis by (simp add: slide_frames [OF assms] somes_win union_commute)
qed

text \<open>A release beyond the window's end releases what the whole window releases.\<close>

lemma somes_take_all: "length xs \<le> k \<Longrightarrow> somes (take k xs) = somes (take (length xs) xs)"
  by simp

lemma insert_win:
  assumes sh: "reorder_shape r" and m: "m < 4096" and d: "seq_sub m (head_seq_num r) < buf_size r"
    and free: "reorder_buf r ! reorder_index r m = None"
    and r'_def: "r' = reorder_store r (reorder_index r m) p t"
  shows "reorder_shape r'" and "win r' = (win r)[seq_sub m (head_seq_num r) := Some p]"
    and "win r ! seq_sub m (head_seq_num r) = None"
proof -
  let ?i = "reorder_index r (head_seq_num r)" and ?d = "seq_sub m (head_seq_num r)"
  have n: "length (reorder_buf r) = buf_size r" "buf_size r < 2048" "buf_size r dvd 4096" "0 < buf_size r"
    using sh by (auto simp: reorder_shape_def)
  have i: "reorder_index r m = (?i + ?d) mod length (reorder_buf r)"
    using reorder_index_add [OF n(3), of "head_seq_num r" ?d] seq_add_sub [OF m, of "head_seq_num r"] n
    by simp
  have ix: "reorder_index r m < length (reorder_buf r)" using reorder_index_less [of r] n by simp
  have "stored_mpdu_num r < 2048"
    using count_some_le_length [of "reorder_buf r"] n sh by (simp add: reorder_shape_def)
  then show "reorder_shape r'"
    using sh count_some_fill [OF ix free] ix
    by (simp add: reorder_shape_def r'_def reorder_store_def to_u16_in_range nat_add_distrib)
  show "win r' = (win r)[?d := Some p]"
    using rotate_update [of ?d "reorder_buf r" ?i "Some p"] d n i
    by (simp add: win_def r'_def reorder_store_def reorder_index_def)
  show "win r ! ?d = None" using win_nth [of ?d r] d n i free by simp
qed

lemma slid_facts:
  assumes "slid k r r'" and "reorder_shape r"
  shows "win r' = win (slide k r)" "frames r' = frames (slide k r)" "recycled r' = recycled r"
    "rxbuf_recycled r' = rxbuf_recycled r" "reorder_buf r' = reorder_buf (slide k r)"
    "reorder_inv f r' = reorder_inv f (slide k r)"
    "stored_mpdu_num r' = stored_mpdu_num (slide k r)" "head_seq_num r' = head_seq_num (slide k r)"
  using assms slide_rest [of r k]
  by (auto simp: slid_def set_release_timer_def win_def reorder_index_def same_rest_def
      reorder_inv_def reorder_shape_def split: if_splits)

lemma store_facts:
  "frames (reorder_store r i p t) = frames r" "recycled (reorder_store r i p t) = recycled r"
  "rxbuf_recycled (reorder_store r i p t) = rxbuf_recycled r"
  "head_seq_num (reorder_store r i p t) = head_seq_num r"
  "buf_size (reorder_store r i p t) = buf_size r"
  by (simp_all add: reorder_store_def)

lemma insert_inv:
  assumes inv: "reorder_inv seq_of r" and m: "seq_of p < 4096"
    and d: "seq_sub (seq_of p) (head_seq_num r) < buf_size r"
    and free: "reorder_buf r ! reorder_index r (seq_of p) = None"
  shows "reorder_inv seq_of (reorder_store r (reorder_index r (seq_of p)) p t)"
    and "mset (somes (win (reorder_store r (reorder_index r (seq_of p)) p t))) =
       add_mset p (mset (somes (win r)))"
proof -
  have sh: "reorder_shape r" using inv by (simp add: reorder_inv_def)
  note ins = insert_win [OF sh m d free refl]
  have len: "length (win r) = buf_size r" using sh by (simp add: reorder_shape_def)
  show "reorder_inv seq_of (reorder_store r (reorder_index r (seq_of p)) p t)"
    using ins inv d len seq_add_sub [OF m, of "head_seq_num r"]
    by (auto simp: reorder_inv_def store_facts nth_list_update)
  show "mset (somes (win (reorder_store r (reorder_index r (seq_of p)) p t))) =
       add_mset p (mset (somes (win r)))"
    using ins d len by (simp add: somes_fill)
qed

lemma dist_shift:
  assumes "seq_sub x ((h + k) mod 4096) < 2048" and "k < 2048"
  shows "seq_sub x h = k + seq_sub x ((h + k) mod 4096)"
proof -
  have "(int x - int h) mod 4096 = (int k + (int x - int ((h + k) mod 4096)) mod 4096) mod 4096"
    by (simp add: zmod_int mod_simps)
  also have "\<dots> = int k + (int x - int ((h + k) mod 4096)) mod 4096"
    using assms by (simp add: seq_sub_eq)
  finally show ?thesis by (simp add: seq_sub_eq nat_add_distrib)
qed

text \<open>What one arrival does, in terms of the window.\<close>

definition arrival_ok :: "(ptr \<Rightarrow> nat) \<Rightarrow> ptr \<Rightarrow> reorder_st \<Rightarrow> reorder_st \<Rightarrow> bool \<Rightarrow> bool" where
  "arrival_ok seq_of pkt r r' ret \<longleftrightarrow>
     reorder_inv seq_of r' \<and> rxbuf_recycled r' = rxbuf_recycled r \<and>
     (\<exists>rel rec. frames r' = frames r @ rel \<and> recycled r' = recycled r @ rec \<and>
        sorted_wrt (<) (map (\<lambda>p. seq_sub (seq_of p) (head_seq_num r))
                          (rel @ (if ret then [] else [pkt]))) \<and>
        mset rel + mset rec + mset (if ret then [] else [pkt]) + mset (somes (reorder_buf r')) =
          add_mset pkt (mset (somes (reorder_buf r))))"

lemma started_facts:
  "win (r\<lparr>started := b\<rparr>) = win r" "reorder_shape (r\<lparr>started := b\<rparr>) = reorder_shape r"
  "reorder_inv f (r\<lparr>started := b\<rparr>) = reorder_inv f r"
  "reorder_index (r\<lparr>started := b\<rparr>) = reorder_index r"
  by (simp_all add: reorder_inv_def win_def reorder_shape_def reorder_index_def fun_eq_iff)

lemma recycled_facts:
  "reorder_inv f (r\<lparr>recycled := x\<rparr>) = reorder_inv f r"
  by (simp add: reorder_inv_def win_def reorder_shape_def reorder_index_def)

lemma slide_recycled: "recycled (slide k r) = recycled r" "rxbuf_recycled (slide k r) = rxbuf_recycled r"
  "buf_size (slide k r) = buf_size r" "reorder_time (slide k r) = reorder_time r"
  "removed (slide k r) = removed r"
  using slide_rest [of r k] by (simp_all add: same_rest_def)

text \<open>A frame that is stored after the window made room for it.\<close>

lemma store_arrival:
  assumes inv: "reorder_inv seq_of r" and m: "seq_of pkt < 4096" and k: "k < 2048"
    and d: "seq_sub (seq_of pkt) (head_seq_num (slide k r)) < buf_size r"
    and free: "reorder_buf (slide k r) ! reorder_index (slide k r) (seq_of pkt) = None"
    and r3: "r3 = reorder_store (slide k r) (reorder_index (slide k r) (seq_of pkt)) pkt t"
  shows "\<exists>r4. phl_reorder_release t r3 = Some r4 \<and> arrival_ok seq_of pkt r r4 True"
proof -
  have sh: "reorder_shape r" using inv by (simp add: reorder_inv_def)
  note ins = insert_inv [OF slide_inv [OF inv, of k] m _ free, of t, folded r3]
  have inv3: "reorder_inv seq_of r3" and mset3: "mset (somes (win r3)) = add_mset pkt (mset (somes (win (slide k r))))"
    using ins d by (simp_all add: slide_recycled)
  then have sh3: "reorder_shape r3" by (simp add: reorder_inv_def)
  obtain j r4 where r4: "phl_reorder_release t r3 = Some r4" "slid j r3 r4"
    using reorder_release_slide [OF sh3, of t] by blast
  note f = slid_facts [OF r4(2) sh3]
  let ?dist = "\<lambda>p. seq_sub (seq_of p) (head_seq_num r)"
  let ?a = "somes (take k (win r))" and ?b = "somes (take j (win r3))"
  note oa = released_in_order [OF inv, of k] and ob = released_in_order [OF inv3, of j]
  have h3: "head_seq_num r3 = (head_seq_num r + k) mod 4096" and n3: "buf_size r3 < 2048"
    using slide_head [OF sh, of k] sh3 by (simp_all add: r3 store_facts reorder_shape_def)
  have shift: "?dist p = k + seq_sub (seq_of p) (head_seq_num r3)" if "p \<in> set ?b" for p
  proof -
    have "seq_sub (seq_of p) (head_seq_num r3) < 2048" using ob that n3 by (auto dest: bspec)
    then show ?thesis using dist_shift [of "seq_of p" "head_seq_num r" k] k h3 by simp
  qed
  have "map ?dist ?b = map ((+) k) (map (\<lambda>p. seq_sub (seq_of p) (head_seq_num r3)) ?b)"
    using shift by simp
  moreover have "sorted_wrt (<) (map ((+) k) xs)" if "sorted_wrt (<) xs" for xs :: "nat list"
    using that by (simp add: sorted_wrt_map)
  ultimately have "sorted_wrt (<) (map ?dist ?b)" by (simp only: ob [THEN conjunct1])
  then have order: "sorted_wrt (<) (map ?dist (?a @ ?b))"
    using oa shift by (auto simp: sorted_wrt_append trans_less_add1)
  have "frames r4 = frames r @ (?a @ ?b)"
    using f(2) slide_frames [OF sh3, of j] slide_frames [OF sh, of k] by (simp add: r3 store_facts)
  moreover have "mset (?a @ ?b) + mset (somes (reorder_buf r4)) = add_mset pkt (mset (somes (reorder_buf r)))"
  proof -
    have "mset ?b + mset (somes (reorder_buf r4)) = mset (somes (win r3))"
      using slide_conserves [OF sh3, of j] f(5) by (simp add: slide_frames [OF sh3] somes_win)
    moreover have "mset ?a + mset (somes (win (slide k r))) = mset (somes (reorder_buf r))"
      using slide_conserves [OF sh, of k] by (simp add: slide_frames [OF sh] somes_win)
    ultimately show ?thesis using mset3 by (simp add: add.assoc)
  qed
  ultimately show ?thesis
    using r4(1) f slide_inv [OF inv3] order
    by (auto simp: arrival_ok_def r3 store_facts slide_recycled)
qed

lemma arrival_started: "arrival_ok f p (r\<lparr>started := b\<rparr>) r' ret = arrival_ok f p r r' ret"
  by (simp add: arrival_ok_def)

text \<open>A frame already stored is dropped, one that is next and alone is passed on.\<close>

lemma drop_arrival:
  assumes inv: "reorder_inv seq_of r"
  shows "arrival_ok seq_of pkt r ((slide k r)\<lparr>recycled := recycled (slide k r) @ [pkt]\<rparr>) True"
proof -
  have sh: "reorder_shape r" using inv by (simp add: reorder_inv_def)
  have "mset (somes (take k (win r))) + mset (somes (reorder_buf (slide k r))) = mset (somes (reorder_buf r))"
    using slide_conserves [OF sh, of k] by (simp add: slide_frames [OF sh])
  then show ?thesis using slide_inv [OF inv, of k] released_in_order [OF inv, of k]
    by (auto simp: arrival_ok_def recycled_facts slide_recycled slide_frames [OF sh])
qed

lemma direct_arrival:
  assumes inv: "reorder_inv seq_of r" and m: "seq_of pkt < 4096" and k: "k < 2048"
    and next_seq: "seq_of pkt = head_seq_num (slide k r)" and st: "stored_mpdu_num (slide k r) = 0"
  shows "arrival_ok seq_of pkt r ((slide k r)\<lparr>head_seq_num := seq_inc (head_seq_num (slide k r))\<rparr>) False"
proof -
  let ?r2 = "slide k r"
  have sh: "reorder_shape r" using inv by (simp add: reorder_inv_def)
  have "slide 1 ?r2 = ?r2\<lparr>head_seq_num := (head_seq_num ?r2 + 1) mod 4096\<rparr>"
    by (rule slide_None [OF slide_shape [OF sh]]) (rule stored_zero_win [OF slide_shape [OF sh] st])
  then have r': "?r2\<lparr>head_seq_num := seq_inc (head_seq_num ?r2)\<rparr> = slide 1 ?r2"
    by (simp add: seq_inc_eq del: slide.simps)
  have "somes (reorder_buf ?r2) = []"
    using st slide_shape [OF sh, of k] length_somes [of "reorder_buf ?r2"] by (simp add: reorder_shape_def)
  then have cons: "mset (somes (take k (win r))) = mset (somes (reorder_buf r))"
    using slide_conserves [OF sh, of k] by (simp add: slide_frames [OF sh])
  have "seq_sub (seq_of pkt) ((head_seq_num r + k) mod 4096) = 0"
    using next_seq by (simp add: slide_head [OF sh] seq_sub_eq)
  then have "seq_sub (seq_of pkt) (head_seq_num r) = k"
    using dist_shift [of "seq_of pkt" "head_seq_num r" k] k by simp
  then have "sorted_wrt (<) (map (\<lambda>p. seq_sub (seq_of p) (head_seq_num r)) (somes (take k (win r)) @ [pkt]))"
    using released_in_order [OF inv, of k] by (auto simp: sorted_wrt_append)
  then show ?thesis
    using slide_inv [OF slide_inv [OF inv], of 1 k, folded r'] cons \<open>somes (reorder_buf ?r2) = []\<close>
    by (simp add: arrival_ok_def slide_recycled slide_frames [OF sh])
qed

lemma manage_arrival:
  assumes inv: "reorder_inv seq_of r" and m: "seq_of pkt < 4096"
  shows "\<exists>r' ret. phl_manage_sta_reorder_buf seq_of t pkt r = Some (r', ret) \<and>
     arrival_ok seq_of pkt r r' ret"
proof (cases "seq_less (seq_of pkt) (head_seq_num r)")
  case True
  then show ?thesis using inv
    by (cases "started r") (auto simp: phl_manage_sta_reorder_buf_def arrival_ok_def Let_def
        started_facts recycled_facts)
next
  case False
  let ?r1 = "r\<lparr>started := True\<rparr>" and ?m = "seq_of pkt"
  define k where "k = seq_sub ?m (head_seq_num ?r1) + 1 - buf_size ?r1"
  have inv1: "reorder_inv seq_of ?r1" and sh1: "reorder_shape ?r1"
    using inv by (simp_all add: started_facts reorder_inv_def)
  note room = make_room [OF sh1 m, simplified, OF False, folded k_def [simplified]]
  let ?r2 = "slide k ?r1" and ?i = "reorder_index (slide k (r\<lparr>started := True\<rparr>)) (seq_of pkt)"
  have r2: "(if \<not> seq_less ?m (to_u16 (int (head_seq_num r) + int (buf_size ?r1)))
      then phl_release_reorder_frames ?r1 (seq_inc (seq_sub ?m (buf_size ?r1))) else ?r1) = ?r2"
    using room(1) by simp
  have unf: "phl_manage_sta_reorder_buf seq_of t pkt r =
     (if reorder_buf ?r2 ! ?i \<noteq> None then Some (?r2\<lparr>recycled := recycled ?r2 @ [pkt]\<rparr>, True)
      else if ?m = head_seq_num ?r2 \<and> stored_mpdu_num ?r2 = 0 then
        Some (?r2\<lparr>head_seq_num := seq_inc (head_seq_num ?r2)\<rparr>, False)
      else map_option (\<lambda>r4. (r4, True)) (phl_reorder_release t (reorder_store ?r2 ?i pkt t)))"
    unfolding phl_manage_sta_reorder_buf_def Let_def r2 using False by simp
  show ?thesis
  proof (cases "reorder_buf ?r2 ! ?i = None")
    case free: True
    show ?thesis
    proof (cases "?m = head_seq_num ?r2 \<and> stored_mpdu_num ?r2 = 0")
      case True
      then show ?thesis using unf free direct_arrival [OF inv1 m room(4)] by (auto simp: arrival_started)
    next
      case False
      have "seq_sub ?m (head_seq_num ?r2) < buf_size ?r1" using room(1,2) by simp
      from store_arrival [OF inv1 m room(4) this free refl, of t] obtain r4
        where r4: "phl_reorder_release t (reorder_store ?r2 ?i pkt t) = Some r4"
          "arrival_ok seq_of pkt r r4 True" by (auto simp: arrival_started)
      have "phl_manage_sta_reorder_buf seq_of t pkt r = Some (r4, True)"
        unfolding unf using free False r4(1) by simp
      then show ?thesis using r4(2) by blast
    qed
  next
    case False
    then show ?thesis using unf drop_arrival [OF inv1, of pkt k] by (auto simp: arrival_started)
  qed
qed

section \<open>Properties of the reordering buffer\<close>

text \<open>A session of window 4 at the wrap of the sequence numbers, with frame 7 (number 0) stored.\<close>

definition ex_session :: reorder_st where
  "ex_session = \<lparr>reorder_buf = [None, Some 7, None, None], reorder_time = [0, 50, 0, 0],
     head_seq_num = 4095, stored_mpdu_num = 1, ssn = 4095, buf_size = 4, ba_tid = 0,
     started = True, removed = False, frames = [], recycled = [], rxbuf_recycled = [],
     timer = None\<rparr>"

definition ex_seq :: "ptr \<Rightarrow> nat" where
  "ex_seq p = (if p = 7 then 0 else 4095)"

lemma ex_index: "reorder_index ex_session 4095 = 0"
  by (simp add: reorder_index_def seq_sub_eq ex_session_def)

lemma ex_win: "win ex_session = [None, Some 7, None, None]"
  using ex_index by (simp add: win_def ex_session_def)

lemma ex_session_inv: "reorder_inv ex_seq ex_session"
proof -
  have "ex_seq p = (4095 + d) mod 4096"
    if "d < 4" "[None, Some 7, None, None] ! d = Some p" for d and p :: ptr
  proof -
    from that(1) consider "d = 0" | "d = 1" | "d = 2" | "d = 3" by linarith
    then show ?thesis using that(2) by cases (simp_all add: ex_seq_def)
  qed
  then show ?thesis
    by (simp add: reorder_inv_def ex_win)
       (simp add: ex_session_def reorder_shape_def slot_simps dvd_def; presburger)
qed

definition ex_after :: reorder_st where
  "ex_after = \<lparr>reorder_buf = [None, None, None, None], reorder_time = [60, 50, 0, 0],
     head_seq_num = 1, stored_mpdu_num = 0, ssn = 4095, buf_size = 4, ba_tid = 0,
     started = True, removed = False, frames = [3, 7], recycled = [], rxbuf_recycled = [],
     timer = Some CancelTimer\<rparr>"

lemma ex_manage: "phl_manage_sta_reorder_buf ex_seq 60 3 ex_session = Some (ex_after, True)"
  by code_simp

text \<open>
  C26: An arriving frame is processed in finite time whatever the buffer holds, and the
  session stays well formed: every stored frame is in the slot of its sequence number, at
  its distance from the head, and the count of stored frames is right.
\<close>

theorem manage_keeps_session:
  assumes "reorder_inv seq_of r" and "seq_of pkt < 4096"
  shows "\<exists>r' ret. phl_manage_sta_reorder_buf seq_of t pkt r = Some (r', ret) \<and> reorder_inv seq_of r'"
  using manage_arrival [OF assms, of t] by (auto simp: arrival_ok_def)

theorem manage_keeps_session_witness:
  "\<exists>r' ret. phl_manage_sta_reorder_buf ex_seq 60 3 ex_session = Some (r', ret) \<and> reorder_inv ex_seq r'"
  by (rule manage_keeps_session [OF ex_session_inv]) (simp add: ex_seq_def)

text \<open>
  C27: The frames an arrival hands up, the arriving frame included when it is passed on
  directly, leave in the order of their sequence numbers, counted from the old head.
\<close>

theorem manage_releases_in_order:
  assumes "reorder_inv seq_of r" and "seq_of pkt < 4096"
    and "phl_manage_sta_reorder_buf seq_of t pkt r = Some (r', ret)"
  shows "\<exists>rel. frames r' = frames r @ rel \<and>
     sorted_wrt (<) (map (\<lambda>p. seq_sub (seq_of p) (head_seq_num r)) (rel @ (if ret then [] else [pkt])))"
  using manage_arrival [OF assms(1,2), of t] assms(3) by (auto simp: arrival_ok_def)

theorem manage_releases_in_order_witness:
  "\<exists>rel. frames ex_after = frames ex_session @ rel \<and>
     sorted_wrt (<) (map (\<lambda>p. seq_sub (ex_seq p) 4095) (rel @ []))"
  using manage_releases_in_order [OF ex_session_inv _ ex_manage]
  by (simp add: ex_seq_def ex_session_def)

text \<open>No frame is lost or duplicated by an arrival: the arriving frame and the stored ones
  are exactly those stored afterwards, released, passed on or recycled, and the inner
  recycling loop of the time-out branch never takes a frame.
\<close>

lemma manage_conserves_frames:
  assumes "reorder_inv seq_of r" and "seq_of pkt < 4096"
    and "phl_manage_sta_reorder_buf seq_of t pkt r = Some (r', ret)"
  shows "rxbuf_recycled r' = rxbuf_recycled r \<and>
     (\<exists>rel rec. frames r' = frames r @ rel \<and> recycled r' = recycled r @ rec \<and>
        mset rel + mset rec + mset (if ret then [] else [pkt]) + mset (somes (reorder_buf r')) =
          add_mset pkt (mset (somes (reorder_buf r))))"
  using manage_arrival [OF assms(1,2), of t] assms(3) by (auto simp: arrival_ok_def)

text \<open>A release never leaves frames waiting without a timer: it requests the timer while
  frames stay stored (unless the session is being removed) and cancels it otherwise.
\<close>

lemma release_arms_timer:
  assumes "reorder_inv seq_of r" and "phl_reorder_release t r = Some r'" and "\<not> removed r"
  shows "timer r' = Some (if stored_mpdu_num r' = 0 then CancelTimer
                          else SetTimer HT_RX_REORDER_BUF_TIMEOUT_MS)"
proof -
  have "reorder_shape r" using assms(1) by (simp add: reorder_inv_def)
  then obtain k where "slid k r r'" using reorder_release_slide [of r t] assms(2) by auto
  then show ?thesis using assms(3) by (auto simp: slid_def set_release_timer_def slide_recycled split: if_splits)
qed

text \<open>When the frame at the head is missing and every stored frame has waited its 100 ms,
  one run of the release empties the buffer and cancels the timer, so a lost frame delays
  the frames behind it only for a bounded time.
\<close>

lemma expired_frames_drain:
  assumes "reorder_inv seq_of r" and "reorder_buf r ! reorder_index r (head_seq_num r) = None"
    and "\<And>i. i < buf_size r \<Longrightarrow> reorder_buf r ! i \<noteq> None \<Longrightarrow>
       reorder_time r ! i + of_nat HT_RX_REORDER_BUF_TIMEOUT_MS \<le> t"
  shows "\<exists>r'. phl_reorder_release t r = Some r' \<and> stored_mpdu_num r' = 0 \<and>
     timer r' = Some CancelTimer \<and> mset (frames r') = mset (frames r) + mset (somes (reorder_buf r))"
proof -
  have sh: "reorder_shape r" using assms(1) by (simp add: reorder_inv_def)
  have n: "length (reorder_buf r) = buf_size r" "0 < buf_size r" using sh by (auto simp: reorder_shape_def)
  obtain k r' where r': "phl_reorder_release t r = Some r'" "k \<le> buf_size r" "slid k r r'"
    and alt: "(\<forall>e. k \<le> e \<and> e < buf_size r \<longrightarrow> win r ! e = None) \<or>
        (\<exists>e. k \<le> e \<and> e < buf_size r \<and> win r ! e \<noteq> None \<and>
          t < reorder_time r ! ((reorder_index r (head_seq_num r) + e) mod buf_size r)
                + of_nat HT_RX_REORDER_BUF_TIMEOUT_MS)"
    using reorder_release_slide [OF sh, of t] head_release_slot [OF sh] assms(2) by auto
  have "\<forall>e. k \<le> e \<and> e < buf_size r \<longrightarrow> win r ! e = None"
    using alt assms(3) win_nth [of _ r] n by (metis mod_less_divisor not_le)
  then have "\<forall>d<length (win (slide k r)). win (slide k r) ! d = None"
    using slide_win [OF sh, of k] r'(2) n by (auto simp: nth_append)
  then have z: "stored_mpdu_num (slide k r) = 0" "somes (win (slide k r)) = []"
    using slide_shape [OF sh, of k] count_some_zero_iff [of "win (slide k r)"]
      length_somes [of "win (slide k r)"] by (auto simp: reorder_shape_def count_some_win)
  moreover have "mset (frames (slide k r)) = mset (frames r) + mset (somes (reorder_buf r))"
    using slide_conserves [OF sh, of k] z(2) somes_win [of "slide k r"] by simp
  ultimately show ?thesis using r' by (auto simp: slid_def)
qed

text \<open>
  C28: Advancing the window to a sequence number less than 2048 ahead of the head (what a
  block-ack request or a frame beyond the window asks for) releases exactly the stored
  frames before that number, in order, and leaves the others at their place.
\<close>

theorem release_frames_refines_slide:
  assumes "reorder_inv seq_of r" and "hseq < 4096" and "seq_sub hseq (head_seq_num r) < 2048"
  defines "k \<equiv> seq_sub hseq (head_seq_num r)" and "r' \<equiv> phl_release_reorder_frames r hseq"
  shows "reorder_inv seq_of r' \<and> head_seq_num r' = hseq \<and>
     frames r' = frames r @ somes (take k (win r)) \<and>
     win r' = drop k (win r @ replicate k None)"
proof -
  have sh: "reorder_shape r" using assms(1) by (simp add: reorder_inv_def)
  have "r' = slide k r" unfolding r'_def k_def by (rule release_frames_slide [OF sh assms(2,3)])
  then show ?thesis
    using slide_inv [OF assms(1), of k] slide_abs [OF sh, of k] slide_head [OF sh, of k]
      seq_add_sub [OF assms(2), of "head_seq_num r"] by (simp add: k_def)
qed

theorem release_frames_refines_slide_witness:
  "frames (phl_release_reorder_frames ex_session 2) = [7]"
  using release_frames_refines_slide [OF ex_session_inv, of 2]
  by (simp add: ex_win) (simp add: ex_session_def seq_sub_eq)

text \<open>At a distance of exactly 2048 neither sequence number precedes the other, so the
  advance that \<^verbatim>\<open>rtw_phl_rx_bar\<close> then makes moves the head without releasing the stored
  frames: the invariant is lost.
\<close>

lemma release_frames_half_range:
  "\<not> seq_less 2047 (head_seq_num ex_session) \<and>
   phl_release_reorder_frames ex_session 2047 = ex_session\<lparr>head_seq_num := 2047\<rparr> \<and>
   \<not> reorder_inv ex_seq (phl_release_reorder_frames ex_session 2047)"
proof -
  have r: "phl_release_reorder_frames ex_session 2047 = ex_session\<lparr>head_seq_num := 2047\<rparr>"
    unfolding phl_release_reorder_frames_def
    by (subst release_until.simps) (simp add: ex_session_def seq_less_eq)
  have w: "win (ex_session\<lparr>head_seq_num := 2047\<rparr>) = [None, Some 7, None, None]"
    by (simp add: win_def ex_session_def reorder_index_def seq_sub_eq)
  have "\<not> reorder_inv ex_seq (ex_session\<lparr>head_seq_num := 2047\<rparr>)"
  proof
    assume "reorder_inv ex_seq (ex_session\<lparr>head_seq_num := 2047\<rparr>)"
    then have "\<forall>d<4. \<forall>p. [None, Some 7, None, None] ! d = Some p \<longrightarrow> ex_seq p = (2047 + d) mod 4096"
      unfolding reorder_inv_def w by (simp add: ex_session_def)
    from this [rule_format, of 1 7] show False by (simp add: ex_seq_def)
  qed
  then show ?thesis using r by (simp add: ex_session_def seq_less_eq)
qed

end
