(* ===== verification/Phl_Session.thy ===== *)
theory Phl_Session
  imports Phl_Reorder
begin

text \<open>
  Reordering sessions of any kind. The order of the frames needs a window that divides the range of the sequence numbers and a
  head that moves by less than half of it (\<open>Phl_Reorder\<close>), but neither is checked: a block-ack session is accepted with every
  window, and a block-ack request may move the head by exactly half the range. What holds of every session, whatever the
  window and the sequence numbers are, is shown here: the operations return and no frame is lost or duplicated.
\<close>

section \<open>Sessions\<close>

definition sess_ok :: "reorder_st \<Rightarrow> bool" where
  "sess_ok r \<longleftrightarrow> 0 < buf_size r \<and> buf_size r < 65536 \<and> length (reorder_buf r) = buf_size r \<and>
     length (reorder_time r) = buf_size r \<and> stored_mpdu_num r = count_some (reorder_buf r)"

text \<open>Frames move from the buffer to the list of released ones only.\<close>

definition drained :: "reorder_st \<Rightarrow> reorder_st \<Rightarrow> bool" where
  "drained r r' \<longleftrightarrow> sess_ok r' \<and> recycled r' = recycled r \<and> rxbuf_recycled r' = rxbuf_recycled r \<and>
     buf_size r' = buf_size r \<and>
     (\<exists>rel. frames r' = frames r @ rel \<and> mset rel + mset (somes (reorder_buf r')) = mset (somes (reorder_buf r)))"

lemma drained_refl: "sess_ok r \<Longrightarrow> drained r r"
  by (simp add: drained_def)

lemma drained_trans: "drained r r1 \<Longrightarrow> drained r1 r2 \<Longrightarrow> drained r r2"
  unfolding drained_def by (auto simp: ac_simps)

lemma drained_ok: "drained r r' \<Longrightarrow> sess_ok r'"
  by (simp add: drained_def)

lemma drained_upd:
  "drained r (r'\<lparr>head_seq_num := h\<rparr>) = drained r r'" "drained r (r'\<lparr>timer := tm\<rparr>) = drained r r'"
  "drained (r\<lparr>started := b\<rparr>) r' = drained r r'"
  by (simp_all add: drained_def sess_ok_def)

lemma somes_clear: "i < length xs \<Longrightarrow> xs ! i = Some p \<Longrightarrow> add_mset p (mset (somes (xs[i := None]))) = mset (somes xs)"
proof (induction xs arbitrary: i)
  case (Cons x xs)
  then show ?case by (cases i; cases x) auto
qed simp

lemma release_frame_drained:
  assumes "sess_ok r" and "i < buf_size r"
  shows "drained r (phl_release_reorder_frame r i)"
proof (cases "reorder_buf r ! i")
  case None
  then show ?thesis using drained_refl [OF assms(1)] by (simp add: phl_release_reorder_frame_def drained_upd)
next
  case (Some p)
  have i: "i < length (reorder_buf r)" using assms by (simp add: sess_ok_def)
  have c: "Suc (count_some ((reorder_buf r)[i := None])) = stored_mpdu_num r"
    using count_some_clear [OF i] Some assms(1) by (simp add: sess_ok_def)
  moreover have "stored_mpdu_num r \<le> buf_size r" using assms(1) count_some_le_length [of "reorder_buf r"] by (simp add: sess_ok_def)
  ultimately have "to_u16 (int (stored_mpdu_num r) - 1) = count_some ((reorder_buf r)[i := None])"
    using assms(1) by (simp add: to_u16_def sess_ok_def)
  then show ?thesis using Some somes_clear [OF i Some] assms(1)
    by (simp add: phl_release_reorder_frame_def drained_def sess_ok_def)
qed

section \<open>The loops\<close>

lemma release_ready_drained: "sess_ok r \<Longrightarrow> drained r (release_ready i r)"
proof (induction i r rule: release_ready.induct)
  case (1 i r)
  show ?case
  proof (cases "i < length (reorder_buf r) \<and> reorder_buf r ! i \<noteq> None")
    case True
    let ?r = "phl_release_reorder_frame r i"
    have d: "drained r ?r" using release_frame_drained [OF "1.prems"] True "1.prems" by (simp add: sess_ok_def)
    from drained_trans [OF d "1.IH" [OF True refl drained_ok [OF d]]] show ?thesis
      using True by (subst release_ready.simps) (simp add: Let_def)
  next
    case False
    then show ?thesis using drained_refl [OF "1.prems"] by (subst release_ready.simps) auto
  qed
qed

lemma release_until_drained: "sess_ok r \<Longrightarrow> drained r (release_until hseq r)"
proof (induction hseq r rule: release_until.induct)
  case (1 hseq r)
  show ?case
  proof (cases "seq_less (head_seq_num r) hseq \<and> stored_mpdu_num r \<noteq> 0")
    case True
    let ?r = "phl_release_reorder_frame r (reorder_index r (head_seq_num r))"
    have "0 < buf_size r" using "1.prems" by (simp add: sess_ok_def)
    then have d: "drained r ?r" by (intro release_frame_drained [OF "1.prems"] reorder_index_less)
    from drained_trans [OF d "1.IH" [OF True drained_ok [OF d]]] show ?thesis using True by (subst release_until.simps) simp
  next
    case False
    then show ?thesis using drained_refl [OF "1.prems"] by (subst release_until.simps) auto
  qed
qed

lemma release_frames_drained: "sess_ok r \<Longrightarrow> drained r (phl_release_reorder_frames r hseq)"
  using release_until_drained by (simp add: phl_release_reorder_frames_def drained_upd)

text \<open>The slots already passed are empty, so the inner loop of the time-out branch recycles nothing.\<close>

lemma release_expired_drained:
  "sess_ok r \<Longrightarrow> distinct (passed @ js) \<Longrightarrow> \<forall>j\<in>set (passed @ js). j < buf_size r \<Longrightarrow> \<forall>i\<in>set passed. reorder_buf r ! i = None \<Longrightarrow>
     drained r (fst (release_expired t passed js skipped r))"
proof (induction t passed js skipped r rule: release_expired.induct)
  case (1 t passed skipped r)
  then show ?case by (simp add: drained_refl)
next
  case (2 t passed j js skipped r)
  show ?case
  proof (cases "reorder_buf r ! j")
    case None
    then show ?thesis using "2.IH"(1) [OF None "2.prems"(1)] "2.prems" by auto
  next
    case (Some p)
    show ?thesis
    proof (cases "skipped \<noteq> 0 \<and> t < reorder_time r ! j + of_nat HT_RX_REORDER_BUF_TIMEOUT_MS")
      case True
      then show ?thesis using Some drained_refl [OF "2.prems"(1)] by simp
    next
      case False
      let ?r2 = "phl_release_reorder_frame r j"
      let ?r3 = "?r2\<lparr>head_seq_num := nat ((int (head_seq_num ?r2) + int skipped) AND SEQ_MASK)\<rparr>"
      have f: "fold recycle_slot passed r = r" using "2.prems"(4) by (intro recycle_none) simp
      have d: "drained r ?r3" using release_frame_drained [OF "2.prems"(1), of j] "2.prems"(3) by (simp add: drained_upd)
      have b: "reorder_buf ?r3 = (reorder_buf r)[j := None]" using Some by (simp add: phl_release_reorder_frame_def)
      have n: "buf_size ?r3 = buf_size r" "length (reorder_buf r) = buf_size r"
        using d "2.prems"(1) by (simp_all add: drained_def sess_ok_def)
      have "\<forall>i\<in>set (passed @ [j]). reorder_buf ?r3 ! i = None"
        using "2.prems"(2,3,4) n unfolding b by (auto simp: nth_list_update)
      then have "drained ?r3 (fst (release_expired t (passed @ [j]) js 0 ?r3))"
        using "2.IH"(2) [OF Some False refl refl refl, unfolded f, OF drained_ok [OF d]] "2.prems"(2,3) n by auto
      from drained_trans [OF d this] show ?thesis using Some False f drained_refl [OF "2.prems"(1)] by (simp add: Let_def)
    qed
  qed
qed

lemma ring_order_slots:
  assumes "i < n"
  shows "distinct (ring_order i n)" "\<forall>j\<in>set (ring_order i n). j < n"
proof -
  have "inj_on (\<lambda>k. (i + k) mod n) {1..<n}"
  proof (rule inj_onI)
    fix x y
    assume a: "x \<in> {1..<n}" "y \<in> {1..<n}" and e: "(i + x) mod n = (i + y) mod n"
    have "(i + k) mod n = (if i + k < n then i + k else i + k - n)" if "k < n" for k
      using that assms by (simp add: mod_if)
    then show "x = y" using a e assms by (auto split: if_splits)
  qed
  then show "distinct (ring_order i n)" by (simp add: ring_order_def distinct_map)
  show "\<forall>j\<in>set (ring_order i n). j < n" using assms by (auto simp: ring_order_def)
qed

lemma timer_step_drained:
  assumes "sess_ok r"
  shows "\<exists>r'. release_timer_step r = Some r' \<and> drained r r'"
proof (cases "stored_mpdu_num r = 0")
  case True
  then show ?thesis using drained_refl [OF assms] by (simp add: release_timer_step_def drained_upd)
next
  case False
  then obtain i where i: "i < buf_size r" "reorder_buf r ! i \<noteq> None"
    using count_some_pos_ex [of "reorder_buf r"] assms by (auto simp: sess_ok_def)
  obtain k where "seek_ready (reorder_buf r) (buf_size r) (c_rem (int (head_seq_num r mod buf_size r) - 1) (int (buf_size r)))
      (head_seq_num r mod buf_size r) = Some k"
    using seek_ready_returns [OF i, of "head_seq_num r mod buf_size r"] i by auto
  then show ?thesis using False drained_refl [OF assms]
    by (auto simp: release_timer_step_def set_release_timer_def Let_def drained_upd)
qed

text \<open>The release of a session returns, and what it takes from the buffer it hands up.\<close>

lemma reorder_release_drained:
  assumes "sess_ok r"
  shows "\<exists>r'. phl_reorder_release t r = Some r' \<and> drained r r'"
proof -
  let ?i = "reorder_index r (head_seq_num r)"
  obtain r1 stop where b: "(if reorder_buf r ! ?i = None \<and> stored_mpdu_num r \<noteq> 0
      then release_expired t [] (ring_order ?i (buf_size r)) 1 r else (release_ready ?i r, False)) = (r1, stop)" by fastforce
  have i: "?i < buf_size r" using assms by (intro reorder_index_less) (simp add: sess_ok_def)
  have "drained r (fst (release_expired t [] (ring_order ?i (buf_size r)) 1 r))"
    by (rule release_expired_drained [OF assms]) (use ring_order_slots [OF i] in simp_all)
  then have d: "drained r r1" using b release_ready_drained [OF assms, of ?i] by (auto split: if_splits)
  obtain r2 where r2: "release_timer_step r1 = Some r2" "drained r1 r2" using timer_step_drained [OF drained_ok [OF d]] by blast
  have "phl_reorder_release t r = (if stop then Some (set_release_timer r1) else release_timer_step r1)"
    unfolding phl_reorder_release_def Let_def b by simp
  moreover have "drained r (set_release_timer r1)" using d by (simp add: set_release_timer_def drained_upd)
  ultimately show ?thesis using r2 drained_trans [OF d r2(2)] by auto
qed

section \<open>Arrivals\<close>

definition arrival_kept :: "ptr \<Rightarrow> reorder_st \<Rightarrow> reorder_st \<Rightarrow> bool \<Rightarrow> bool" where
  "arrival_kept pkt r r' ret \<longleftrightarrow> sess_ok r' \<and> rxbuf_recycled r' = rxbuf_recycled r \<and>
     (\<exists>rel rec. frames r' = frames r @ rel \<and> recycled r' = recycled r @ rec \<and>
        mset rel + mset rec + mset (if ret then [] else [pkt]) + mset (somes (reorder_buf r')) =
          add_mset pkt (mset (somes (reorder_buf r))))"

lemma store_kept:
  assumes "sess_ok r" and "i < buf_size r" and "reorder_buf r ! i = None"
  shows "sess_ok (reorder_store r i pkt t)" "mset (somes (reorder_buf (reorder_store r i pkt t))) = add_mset pkt (mset (somes (reorder_buf r)))"
proof -
  have i: "i < length (reorder_buf r)" using assms by (simp add: sess_ok_def)
  have c: "count_some ((reorder_buf r)[i := Some pkt]) = Suc (stored_mpdu_num r)"
    using count_some_fill [OF i assms(3)] assms(1) by (simp add: sess_ok_def)
  moreover have "count_some ((reorder_buf r)[i := Some pkt]) \<le> buf_size r"
    using count_some_le_length [of "(reorder_buf r)[i := Some pkt]"] assms(1) by (simp add: sess_ok_def)
  ultimately show "sess_ok (reorder_store r i pkt t)"
    using assms(1) by (simp add: sess_ok_def reorder_store_def to_u16_def)
  show "mset (somes (reorder_buf (reorder_store r i pkt t))) = add_mset pkt (mset (somes (reorder_buf r)))"
    using somes_clear [of i "(reorder_buf r)[i := Some pkt]" pkt] i list_update_id [of "reorder_buf r" i] assms(3)
    by (simp add: reorder_store_def)
qed

text \<open>An arriving frame is processed in finite time by every session, and no frame is lost or duplicated.\<close>

lemma manage_kept:
  assumes "sess_ok r"
  shows "\<exists>r' ret. phl_manage_sta_reorder_buf seq_of t pkt r = Some (r', ret) \<and> arrival_kept pkt r r' ret"
proof (cases "seq_less (seq_of pkt) (head_seq_num r)")
  case True
  have "arrival_kept pkt r r False"
    "arrival_kept pkt r (r\<lparr>started := True, recycled := recycled r @ [pkt]\<rparr>) True"
    using assms by (simp_all add: arrival_kept_def sess_ok_def)
  then show ?thesis using True by (cases "started r") (auto simp: phl_manage_sta_reorder_buf_def Let_def)
next
  case False
  let ?r1 = "r\<lparr>started := True\<rparr>"
  define r2 where "r2 = (if \<not> seq_less (seq_of pkt) (to_u16 (int (head_seq_num r) + int (buf_size ?r1)))
      then phl_release_reorder_frames ?r1 (seq_inc (seq_sub (seq_of pkt) (buf_size ?r1))) else ?r1)"
  have ok1: "sess_ok ?r1" using assms by (simp add: sess_ok_def)
  have d: "drained r r2"
    using release_frames_drained [OF ok1] drained_refl [OF ok1] by (auto simp: r2_def drained_upd)
  have ok2: "sess_ok r2" by (rule drained_ok [OF d])
  let ?i = "reorder_index r2 (seq_of pkt)"
  have i: "?i < buf_size r2" using ok2 by (intro reorder_index_less) (simp add: sess_ok_def)
  obtain rel where rel: "frames r2 = frames r @ rel" "mset rel + mset (somes (reorder_buf r2)) = mset (somes (reorder_buf r))"
    "recycled r2 = recycled r" "rxbuf_recycled r2 = rxbuf_recycled r" using d by (auto simp: drained_def)
  have unf: "phl_manage_sta_reorder_buf seq_of t pkt r =
     (if reorder_buf r2 ! ?i \<noteq> None then Some (r2\<lparr>recycled := recycled r2 @ [pkt]\<rparr>, True)
      else if seq_of pkt = head_seq_num r2 \<and> stored_mpdu_num r2 = 0 then
        Some (r2\<lparr>head_seq_num := seq_inc (head_seq_num r2)\<rparr>, False)
      else map_option (\<lambda>r4. (r4, True)) (phl_reorder_release t (reorder_store r2 ?i pkt t)))"
    unfolding phl_manage_sta_reorder_buf_def Let_def r2_def [symmetric] using False by simp
  consider (dup) "reorder_buf r2 ! ?i \<noteq> None" | (direct) "reorder_buf r2 ! ?i = None" "seq_of pkt = head_seq_num r2 \<and> stored_mpdu_num r2 = 0"
    | (store) "reorder_buf r2 ! ?i = None" "\<not> (seq_of pkt = head_seq_num r2 \<and> stored_mpdu_num r2 = 0)" by blast
  then show ?thesis
  proof cases
    case dup
    have "arrival_kept pkt r (r2\<lparr>recycled := recycled r2 @ [pkt]\<rparr>) True"
      using ok2 rel by (auto simp: arrival_kept_def sess_ok_def)
    then show ?thesis using dup unf by auto
  next
    case direct
    have "arrival_kept pkt r (r2\<lparr>head_seq_num := seq_inc (head_seq_num r2)\<rparr>) False"
      using ok2 rel by (auto simp: arrival_kept_def sess_ok_def)
    then show ?thesis using direct unf by auto
  next
    case store
    note s = store_kept [OF ok2 i store(1), of pkt t]
    obtain r4 where r4: "phl_reorder_release t (reorder_store r2 ?i pkt t) = Some r4" "drained (reorder_store r2 ?i pkt t) r4"
      using reorder_release_drained [OF s(1)] by blast
    obtain rel2 where rel2: "frames r4 = frames r2 @ rel2" "mset rel2 + mset (somes (reorder_buf r4)) = add_mset pkt (mset (somes (reorder_buf r2)))"
      "recycled r4 = recycled r2" "rxbuf_recycled r4 = rxbuf_recycled r2" "sess_ok r4"
      using r4(2) s(2) by (auto simp: drained_def reorder_store_def)
    have "mset (rel @ rel2) + mset (somes (reorder_buf r4)) = add_mset pkt (mset (somes (reorder_buf r)))"
      using rel(2) rel2(2) by (simp add: add.assoc)
    then have "arrival_kept pkt r r4 True"
      unfolding arrival_kept_def using rel rel2 by (intro conjI exI [of _ "rel @ rel2"] exI [of _ "[]"]) simp_all
    then show ?thesis using store unf r4(1) by auto
  qed
qed

text \<open>A session whose window is well formed is one of these.\<close>

lemma reorder_inv_sess: "reorder_inv f r \<Longrightarrow> sess_ok r"
  by (simp add: reorder_inv_def reorder_shape_def sess_ok_def)

end
