(* ===== verification/Phl_Rx_Agg.thy ===== *)
theory Phl_Rx_Agg
  imports Phl_Session
begin

text \<open>
  The block-ack receive sessions of a station, \<^verbatim>\<open>phl/phl_rx_agg.c\<close>: creation, removal and
  release of the entries of \<^verbatim>\<open>sta->tid_rx\<close>, and the expiry of the station's reorder timer.
  A memory allocation is an input of the operation (whether it succeeds); the packets an
  operation hands to \<^verbatim>\<open>recycle_rx_pkt\<close> are part of its result.
\<close>

section \<open>Operations\<close>

definition PHL_MAX_AGG_WSIZE :: nat where "PHL_MAX_AGG_WSIZE = 32"

type_synonym tid_rx_table = "phl_tid_ampdu_rx option list"

text \<open>The three allocations: the entry, its buffer of pointers and its buffer of times.\<close>

record ampdu_alloc =
  r_alloc :: bool
  reorder_buf_alloc :: bool
  reorder_time_alloc :: bool

definition phl_tid_ampdu_rx_alloc ::
  "ampdu_alloc \<Rightarrow> nat \<Rightarrow> nat \<Rightarrow> nat \<Rightarrow> phl_tid_ampdu_rx option" where
  "phl_tid_ampdu_rx_alloc al seqn tid sz =
     (if \<not> r_alloc al then None
      else if \<not> reorder_buf_alloc al then None
      else if \<not> reorder_time_alloc al then None
      else Some \<lparr>reorder_buf = replicate sz None, reorder_time = replicate sz 0,
                 head_seq_num = seqn, stored_mpdu_num = 0, ssn = seqn, buf_size = sz,
                 ba_tid = tid, started = False, removed = False\<rparr>)"

text \<open>The packets handed back when an entry is freed.\<close>

definition phl_tid_ampdu_rx_free :: "phl_tid_ampdu_rx option \<Rightarrow> ptr list" where
  "phl_tid_ampdu_rx_free r =
     (case r of None \<Rightarrow> [] | Some x \<Rightarrow> somes (take (buf_size x) (reorder_buf x)))"

text \<open>
  \<^verbatim>\<open>phl_free_rx_reorder\<close> marks the entries removed, cancels the timer and frees the
  entries: the middle component is the table during the cancellation.
\<close>

definition phl_free_rx_reorder ::
  "tid_rx_table \<Rightarrow> tid_rx_table \<times> timer_cmd \<times> tid_rx_table \<times> ptr list" where
  "phl_free_rx_reorder tid_rx =
     (let marked = map (map_option (\<lambda>r. r\<lparr>removed := True\<rparr>)) tid_rx
      in (marked, CancelTimer, map (\<lambda>_. None) marked, concat (map phl_tid_ampdu_rx_free marked)))"

definition rtw_phl_stop_rx_ba_session ::
  "tid_rx_table option \<Rightarrow> nat \<Rightarrow> tid_rx_table option \<times> ptr list" where
  "rtw_phl_stop_rx_ba_session sta tid =
     (case sta of
        None \<Rightarrow> (None, [])
      | Some tid_rx \<Rightarrow>
          if tid \<ge> length tid_rx then (sta, [])
          else
            case tid_rx ! tid of
              None \<Rightarrow> (sta, [])
            | Some r \<Rightarrow>
                (Some (tid_rx[tid := None]), phl_tid_ampdu_rx_free (Some (r\<lparr>removed := True\<rparr>))))"

text \<open>
  The last component is the entry that is allocated but neither stored nor freed. The
  status of \<^verbatim>\<open>rtw_hal_start_ba_session\<close> is not used by the code.
\<close>

definition rtw_phl_start_rx_ba_session ::
  "ampdu_alloc \<Rightarrow> tid_rx_table \<Rightarrow> nat \<Rightarrow> nat \<Rightarrow> nat \<Rightarrow> nat
     \<Rightarrow> tid_rx_table \<times> rtw_phl_status \<times> ptr list \<times> phl_tid_ampdu_rx option" where
  "rtw_phl_start_rx_ba_session al tid_rx start_seq_num ba_policy tid sz =
     (if ba_policy \<noteq> 0 then (tid_rx, RTW_PHL_STATUS_FAILURE, [], None)
      else
        let sz1 = (if sz = 0 then PHL_MAX_AGG_WSIZE else sz) in
        case phl_tid_ampdu_rx_alloc al start_seq_num tid sz1 of
          None \<Rightarrow> (tid_rx, RTW_PHL_STATUS_RESOURCE, [], None)
        | Some r \<Rightarrow>
            if tid \<ge> length tid_rx then (tid_rx, RTW_PHL_STATUS_FAILURE, [], Some r)
            else
              (tid_rx[tid := Some r], RTW_PHL_STATUS_SUCCESS,
               phl_tid_ampdu_rx_free (tid_rx ! tid), None))"

text \<open>A session as the reordering functions see it, with nothing released yet.\<close>

definition open_session :: "phl_tid_ampdu_rx \<Rightarrow> reorder_st" where
  "open_session r = phl_tid_ampdu_rx.extend r (reorder_st.fields [] [] [] None)"

definition close_session :: "reorder_st \<Rightarrow> phl_tid_ampdu_rx" where
  "close_session r = phl_tid_ampdu_rx.truncate r"

text \<open>
  One round of the loop of \<^verbatim>\<open>phl_sta_rx_reorder_timer_expired\<close>: the entry of one TID is
  released under the lock; the frames go to \<^verbatim>\<open>phl_handle_rx_frame_list\<close>.
\<close>

definition timer_expired_tid ::
  "u32 \<Rightarrow> phl_tid_ampdu_rx option \<Rightarrow> (phl_tid_ampdu_rx option \<times> ptr list \<times> timer_cmd option) option" where
  "timer_expired_tid cur_time e =
     (case e of None \<Rightarrow> Some (None, [], None)
      | Some r \<Rightarrow>
          map_option (\<lambda>r'. (Some (close_session r'), frames r', timer r'))
            (phl_reorder_release cur_time (open_session r)))"

fun timer_expired_loop ::
  "u32 \<Rightarrow> tid_rx_table \<Rightarrow> (tid_rx_table \<times> ptr list list \<times> timer_cmd option list) option" where
  "timer_expired_loop cur_time [] = Some ([], [], [])"
| "timer_expired_loop cur_time (e # es) =
     (case timer_expired_tid cur_time e of
        None \<Rightarrow> None
      | Some (e', fr, tm) \<Rightarrow>
          map_option (\<lambda>(es', frs, tms). (e' # es', fr # frs, tm # tms))
            (timer_expired_loop cur_time es))"

definition phl_sta_rx_reorder_timer_expired ::
  "u32 \<Rightarrow> tid_rx_table \<Rightarrow> (tid_rx_table \<times> ptr list list \<times> timer_cmd option list) option" where
  "phl_sta_rx_reorder_timer_expired cur_time tid_rx = timer_expired_loop cur_time tid_rx"

section \<open>Well-formed session tables\<close>

definition table_inv :: "tid_rx_table \<Rightarrow> bool" where
  "table_inv tid_rx \<longleftrightarrow> length tid_rx = 8 \<and> (\<forall>r. Some r \<in> set tid_rx \<longrightarrow> sess_ok (open_session r))"

lemma open_session_simps [simp]:
  "reorder_buf (open_session r) = reorder_buf r" "reorder_time (open_session r) = reorder_time r"
  "head_seq_num (open_session r) = head_seq_num r" "buf_size (open_session r) = buf_size r"
  "stored_mpdu_num (open_session r) = stored_mpdu_num r" "ssn (open_session r) = ssn r"
  "frames (open_session r) = []" "removed (open_session r) = removed r" "timer (open_session r) = None"
  by (simp_all add: open_session_def phl_tid_ampdu_rx.defs reorder_st.defs)

lemma close_session_simps [simp]:
  "reorder_buf (close_session r) = reorder_buf r" "reorder_time (close_session r) = reorder_time r"
  "head_seq_num (close_session r) = head_seq_num r" "buf_size (close_session r) = buf_size r"
  "stored_mpdu_num (close_session r) = stored_mpdu_num r" "ssn (close_session r) = ssn r"
  by (simp_all add: close_session_def phl_tid_ampdu_rx.defs)

lemma open_session_recycled [simp]:
  "recycled (open_session r) = []" "rxbuf_recycled (open_session r) = []"
  by (simp_all add: open_session_def phl_tid_ampdu_rx.defs reorder_st.defs)

lemma sess_ok_close: "sess_ok (open_session (close_session r)) = sess_ok r"
  by (simp add: sess_ok_def)

lemma free_open: "sess_ok (open_session r) \<Longrightarrow> phl_tid_ampdu_rx_free (Some r) = somes (reorder_buf r)"
  by (simp add: phl_tid_ampdu_rx_free_def sess_ok_def)

text \<open>Every window is accepted; it is a 16-bit number and a requested window of 0 is replaced by 32.\<close>

lemma fresh_session:
  assumes "phl_tid_ampdu_rx_alloc al seqn tid sz = Some r" and "0 < sz" and "sz < 65536"
  shows "sess_ok (open_session r)"
  using assms by (auto simp: phl_tid_ampdu_rx_alloc_def sess_ok_def slot_simps split: if_splits)

lemma timer_tid_inv:
  assumes "\<And>r. e = Some r \<Longrightarrow> sess_ok (open_session r)"
  shows "\<exists>e' fr tm. timer_expired_tid t e = Some (e', fr, tm) \<and>
     (\<forall>r. e' = Some r \<longrightarrow> sess_ok (open_session r)) \<and>
     mset fr + mset (phl_tid_ampdu_rx_free e') = mset (phl_tid_ampdu_rx_free e)"
proof (cases e)
  case None
  then show ?thesis by (simp add: timer_expired_tid_def phl_tid_ampdu_rx_free_def)
next
  case (Some r)
  have ok: "sess_ok (open_session r)" using assms Some by simp
  obtain r' where r': "phl_reorder_release t (open_session r) = Some r'" "drained (open_session r) r'"
    using reorder_release_drained [OF ok] by blast
  have ok': "sess_ok (open_session (close_session r'))" using drained_ok [OF r'(2)] by (simp add: sess_ok_close)
  have "mset (frames r') + mset (somes (reorder_buf r')) = mset (somes (reorder_buf r))"
    using r'(2) by (auto simp: drained_def)
  then show ?thesis using r'(1) ok' Some free_open [OF ok] free_open [OF ok'] by (simp add: timer_expired_tid_def)
qed

lemma timer_loop_inv:
  "(\<And>r. Some r \<in> set es \<Longrightarrow> sess_ok (open_session r)) \<Longrightarrow>
   \<exists>es' frs tms. timer_expired_loop t es = Some (es', frs, tms) \<and> length es' = length es \<and>
     (\<forall>r. Some r \<in> set es' \<longrightarrow> sess_ok (open_session r)) \<and>
     mset (concat frs) + mset (concat (map phl_tid_ampdu_rx_free es')) =
       mset (concat (map phl_tid_ampdu_rx_free es))"
proof (induction es)
  case (Cons e es)
  obtain e' fr tm where e: "timer_expired_tid t e = Some (e', fr, tm)"
    "\<forall>r. e' = Some r \<longrightarrow> sess_ok (open_session r)"
    "mset fr + mset (phl_tid_ampdu_rx_free e') = mset (phl_tid_ampdu_rx_free e)"
    using timer_tid_inv [of e t] Cons.prems by (metis list.set_intros(1))
  obtain es' frs tms where es: "timer_expired_loop t es = Some (es', frs, tms)" "length es' = length es"
    "\<forall>r. Some r \<in> set es' \<longrightarrow> sess_ok (open_session r)"
    "mset (concat frs) + mset (concat (map phl_tid_ampdu_rx_free es')) =
       mset (concat (map phl_tid_ampdu_rx_free es))"
    using Cons.IH Cons.prems by (meson list.set_intros(2))
  have "mset (fr @ concat frs) + mset (phl_tid_ampdu_rx_free e' @ concat (map phl_tid_ampdu_rx_free es')) =
      mset (phl_tid_ampdu_rx_free e) + mset (concat (map phl_tid_ampdu_rx_free es))"
    using e(3) es(4) by (simp add: ac_simps)
  then show ?case using e es by auto
qed simp

section \<open>Properties of the sessions\<close>

text \<open>A block-ack session that is accepted for a valid TID replaces the TID's entry by a
  well-formed empty session, and every packet the replaced session stored is recycled;
  every other outcome leaves the table as it was.
\<close>

lemma start_ba_session:
  assumes "rtw_phl_start_rx_ba_session al tab seqn pol tid sz = (tab', st, rec, lost)"
    and "table_inv tab" and "sz < 65536"
  shows "table_inv tab' \<and>
     (st = RTW_PHL_STATUS_SUCCESS \<longrightarrow>
        tid < 8 \<and> rec = phl_tid_ampdu_rx_free (tab ! tid) \<and> lost = None \<and>
        (\<exists>r. tab' = tab[tid := Some r] \<and> stored_mpdu_num r = 0 \<and> head_seq_num r = seqn)) \<and>
     (st \<noteq> RTW_PHL_STATUS_SUCCESS \<longrightarrow> tab' = tab \<and> rec = [])"
proof (cases "st = RTW_PHL_STATUS_SUCCESS")
  case True
  define sz1 where "sz1 = (if sz = 0 then PHL_MAX_AGG_WSIZE else sz)"
  have s: "0 < sz1" "sz1 < 65536" using assms(3) by (auto simp: sz1_def PHL_MAX_AGG_WSIZE_def)
  from assms(1) True obtain r where r: "phl_tid_ampdu_rx_alloc al seqn tid sz1 = Some r"
    "tid < length tab" "tab' = tab[tid := Some r]" "rec = phl_tid_ampdu_rx_free (tab ! tid)" "lost = None"
    by (auto simp: rtw_phl_start_rx_ba_session_def Let_def sz1_def split: if_splits option.splits)
  have "sess_ok (open_session r)" by (rule fresh_session [OF r(1) s])
  then have "table_inv tab'"
    using assms(2) r(3) set_update_subset_insert [of tab tid "Some r"] by (auto simp: table_inv_def)
  moreover have "stored_mpdu_num r = 0" "head_seq_num r = seqn"
    using r(1) by (auto simp: phl_tid_ampdu_rx_alloc_def split: if_splits)
  ultimately show ?thesis using True r assms(2) by (auto simp: table_inv_def)
next
  case False
  then show ?thesis using assms(1,2)
    by (auto simp: rtw_phl_start_rx_ba_session_def Let_def split: if_splits option.splits)
qed

definition ex_table :: tid_rx_table where
  "ex_table = (replicate 8 None)[0 := Some (close_session ex_session)]"

lemma ex_table_inv: "table_inv ex_table"
  using reorder_inv_sess [OF ex_session_inv] by (auto simp: table_inv_def ex_table_def sess_ok_close numeral_eq_Suc)

text \<open>The expiry of a station's reorder timer visits every session in finite time, keeps
  all of them well formed, and what the sessions stored before is what they store
  afterwards plus what was released.
\<close>

lemma timer_expiry_keeps_sessions:
  assumes "table_inv tab"
  shows "\<exists>tab' frs tms. phl_sta_rx_reorder_timer_expired t tab = Some (tab', frs, tms) \<and>
     table_inv tab' \<and>
     mset (concat frs) + mset (concat (map phl_tid_ampdu_rx_free tab')) =
       mset (concat (map phl_tid_ampdu_rx_free tab))"
  using timer_loop_inv [of tab t] assms
  by (auto simp: table_inv_def phl_sta_rx_reorder_timer_expired_def)

text \<open>
  Freeing the sessions of a station first marks every session removed, so that the timer
  is not set again once cancelled, and then recycles every stored packet and empties the
  table.
\<close>

lemma free_rx_reorder_recycles:
  "table_inv tab \<Longrightarrow> phl_free_rx_reorder tab = (marked, tm, tab', rec) \<Longrightarrow>
     rec = concat (map phl_tid_ampdu_rx_free tab) \<and> tab' = replicate 8 None \<and>
     (\<forall>r. Some r \<in> set marked \<longrightarrow> removed r)"
proof -
  assume a: "table_inv tab" "phl_free_rx_reorder tab = (marked, tm, tab', rec)"
  have "phl_tid_ampdu_rx_free (map_option (\<lambda>r. r\<lparr>removed := True\<rparr>) e) = phl_tid_ampdu_rx_free e" for e
    by (cases e) (simp_all add: phl_tid_ampdu_rx_free_def)
  moreover have "Some r = map_option (\<lambda>r. r\<lparr>removed := True\<rparr>) e \<Longrightarrow> removed r"
    for r e by (cases e) auto
  ultimately show ?thesis using a
    by (auto simp: phl_free_rx_reorder_def Let_def comp_def table_inv_def map_replicate_const)
qed

end
