(* ===== verification/Phl_Stats.thy ===== *)
theory Phl_Stats
  imports Phl_Prelude
begin

text \<open>
  Throughput statistics: \<^verbatim>\<open>struct rtw_stats\<close> of \<^verbatim>\<open>phl/phl_def.h\<close> with the reset, update
  and traffic-level functions of \<^verbatim>\<open>phl/phl_rx.c\<close> and \<^verbatim>\<open>phl/phl_tx.c\<close>. Byte counts are
  64-bit and times 32-bit words; both wrap. Fields the functions here do not touch are left
  out of the record.
\<close>

section \<open>Data\<close>

datatype rtw_tfc_lvl =
    RTW_TFC_IDLE | RTW_TFC_ULTRA_LOW | RTW_TFC_LOW | RTW_TFC_MID | RTW_TFC_HIGH | RTW_TFC_LVL_MAX

primrec tfc_code :: "rtw_tfc_lvl \<Rightarrow> nat" where
  "tfc_code RTW_TFC_IDLE = 0"
| "tfc_code RTW_TFC_ULTRA_LOW = 1"
| "tfc_code RTW_TFC_LOW = 2"
| "tfc_code RTW_TFC_MID = 3"
| "tfc_code RTW_TFC_HIGH = 4"
| "tfc_code RTW_TFC_LVL_MAX = 255"

lemma tfc_code_inj: "tfc_code a = tfc_code b \<Longrightarrow> a = b"
  by (cases a; cases b) simp_all

text \<open>The C comparison of the enumeration is that of its codes.\<close>

instantiation rtw_tfc_lvl :: linorder
begin

definition less_eq_rtw_tfc_lvl :: "rtw_tfc_lvl \<Rightarrow> rtw_tfc_lvl \<Rightarrow> bool" where
  "a \<le> b \<longleftrightarrow> tfc_code a \<le> tfc_code b"

definition less_rtw_tfc_lvl :: "rtw_tfc_lvl \<Rightarrow> rtw_tfc_lvl \<Rightarrow> bool" where
  "a < b \<longleftrightarrow> tfc_code a < tfc_code b"

instance
  by standard (auto simp: less_eq_rtw_tfc_lvl_def less_rtw_tfc_lvl_def tfc_code_inj)

end

definition TRAFFIC_CHANGED :: u32 where "TRAFFIC_CHANGED = BIT 0"
definition TRAFFIC_INCREASE :: u32 where "TRAFFIC_INCREASE = BIT 1"
definition TRAFFIC_DECREASE :: u32 where "TRAFFIC_DECREASE = BIT 2"

record rtw_traffic_t =
  lvl :: rtw_tfc_lvl
  sts :: u32

record rtw_stats_tp =
  last_calc_bits :: u64
  last_calc_time_ms :: u32

record rtw_stats =
  tx_byte_uni :: u64
  rx_byte_uni :: u64
  tx_byte_total :: u64
  rx_byte_total :: u64
  tx_tp_kbits :: u32
  rx_tp_kbits :: u32
  last_tx_time_ms :: u32
  last_rx_time_ms :: u32
  txreq_num :: u32
  rx_rate :: u32
  txtp :: rtw_stats_tp
  rxtp :: rtw_stats_tp
  tx_traffic :: rtw_traffic_t
  rx_traffic :: rtw_traffic_t

definition RXTP_CALC_DIFF_MS :: u32 where "RXTP_CALC_DIFF_MS = 1000"
definition TXTP_CALC_DIFF_MS :: u32 where "TXTP_CALC_DIFF_MS = 1000"
definition RX_ULTRA_LOW_TP_THRES_KBPS :: u32 where "RX_ULTRA_LOW_TP_THRES_KBPS = 100"
definition RX_LOW_TP_THRES_MBPS :: u32 where "RX_LOW_TP_THRES_MBPS = 2"
definition RX_MID_TP_THRES_MBPS :: u32 where "RX_MID_TP_THRES_MBPS = 10"
definition RX_HIGH_TP_THRES_MBPS :: u32 where "RX_HIGH_TP_THRES_MBPS = 50"
definition TX_ULTRA_LOW_TP_THRES_KBPS :: u32 where "TX_ULTRA_LOW_TP_THRES_KBPS = 100"
definition TX_LOW_TP_THRES_MBPS :: u32 where "TX_LOW_TP_THRES_MBPS = 2"
definition TX_MID_TP_THRES_MBPS :: u32 where "TX_MID_TP_THRES_MBPS = 10"
definition TX_HIGH_TP_THRES_MBPS :: u32 where "TX_HIGH_TP_THRES_MBPS = 50"

text \<open>What the statistics read of a packet: its length and its broadcast and multicast bits.\<close>

record pkt_len =
  pktlen :: nat
  bc :: bool
  mc :: bool

section \<open>Receive side\<close>

definition phl_reset_rx_stats :: "rtw_stats \<Rightarrow> rtw_stats" where
  "phl_reset_rx_stats stats =
     stats\<lparr>rx_byte_uni := 0, rx_byte_total := 0, rx_tp_kbits := 0, last_rx_time_ms := 0,
           rxtp := (rxtp stats)\<lparr>last_calc_time_ms := 0\<rparr>,
           rx_traffic := (rx_traffic stats)\<lparr>lvl := RTW_TFC_IDLE, sts := 0\<rparr>\<rparr>"

definition traffic_step :: "rtw_tfc_lvl \<Rightarrow> rtw_traffic_t \<Rightarrow> rtw_traffic_t" where
  "traffic_step new_lvl t =
     (if lvl t > new_lvl then t\<lparr>sts := TRAFFIC_CHANGED OR TRAFFIC_DECREASE, lvl := new_lvl\<rparr>
      else if lvl t < new_lvl then t\<lparr>sts := TRAFFIC_CHANGED OR TRAFFIC_INCREASE, lvl := new_lvl\<rparr>
      else if sts t AND (TRAFFIC_CHANGED OR TRAFFIC_INCREASE OR TRAFFIC_DECREASE) \<noteq> 0
      then t\<lparr>sts := sts t AND NOT (TRAFFIC_CHANGED OR TRAFFIC_INCREASE OR TRAFFIC_DECREASE)\<rparr>
      else t)"

definition rx_tfc_lvl :: "u32 \<Rightarrow> rtw_tfc_lvl" where
  "rx_tfc_lvl tp_k =
     (let tp_m = drop_bit 10 tp_k in
      if tp_m \<ge> RX_HIGH_TP_THRES_MBPS then RTW_TFC_HIGH
      else if tp_m \<ge> RX_MID_TP_THRES_MBPS then RTW_TFC_MID
      else if tp_m \<ge> RX_LOW_TP_THRES_MBPS then RTW_TFC_LOW
      else if tp_k \<ge> RX_ULTRA_LOW_TP_THRES_KBPS then RTW_TFC_ULTRA_LOW
      else RTW_TFC_IDLE)"

definition phl_rx_traffic_upd :: "rtw_stats \<Rightarrow> rtw_stats" where
  "phl_rx_traffic_upd st =
     st\<lparr>rx_traffic := traffic_step (rx_tfc_lvl (rx_tp_kbits st)) (rx_traffic st)\<rparr>"

definition diff_time :: "u32 \<Rightarrow> u32 \<Rightarrow> u32" where
  "diff_time cur_time last_t =
     (if cur_time \<ge> last_t then cur_time - last_t else 0xffffffff - last_t + cur_time + 1)"

definition phl_update_rx_stats :: "u32 \<Rightarrow> pkt_len \<Rightarrow> rtw_stats \<Rightarrow> rtw_stats" where
  "phl_update_rx_stats cur_time rx_pkt stats =
     (let s1 = stats\<lparr>last_rx_time_ms := cur_time,
                    rx_byte_total := rx_byte_total stats + of_nat (pktlen rx_pkt)\<rparr>;
          s2 = (if \<not> bc rx_pkt \<and> \<not> mc rx_pkt
                then s1\<lparr>rx_byte_uni := rx_byte_uni s1 + of_nat (pktlen rx_pkt)\<rparr> else s1)
      in if last_calc_time_ms (rxtp s2) = 0 \<or> last_calc_bits (rxtp s2) = 0 then
           s2\<lparr>rxtp := (rxtp s2)\<lparr>last_calc_time_ms := last_rx_time_ms s2,
                               last_calc_bits := rx_byte_uni s2 * 8\<rparr>\<rparr>
         else
           let diff_t = diff_time cur_time (last_calc_time_ms (rxtp s2)) in
           if diff_t > RXTP_CALC_DIFF_MS \<and> rx_byte_uni s2 \<noteq> 0 then
             let diff_bits = rx_byte_uni s2 * 8 - last_calc_bits (rxtp s2)
             in s2\<lparr>rx_tp_kbits := ucast (diff_bits div ucast diff_t),
                   rxtp := (rxtp s2)\<lparr>last_calc_bits := rx_byte_uni s2 * 8,
                                     last_calc_time_ms := cur_time\<rparr>\<rparr>
           else s2)"

section \<open>Transmit side\<close>

definition phl_reset_tx_stats :: "rtw_stats \<Rightarrow> rtw_stats" where
  "phl_reset_tx_stats stats =
     stats\<lparr>tx_byte_uni := 0, tx_byte_total := 0, tx_tp_kbits := 0, last_tx_time_ms := 0,
           txtp := (txtp stats)\<lparr>last_calc_time_ms := 0\<rparr>,
           tx_traffic := (tx_traffic stats)\<lparr>lvl := RTW_TFC_IDLE, sts := 0\<rparr>\<rparr>"

definition tx_tfc_lvl :: "u32 \<Rightarrow> rtw_tfc_lvl" where
  "tx_tfc_lvl tp_k =
     (let tp_m = drop_bit 10 tp_k in
      if tp_m \<ge> TX_HIGH_TP_THRES_MBPS then RTW_TFC_HIGH
      else if tp_m \<ge> TX_MID_TP_THRES_MBPS then RTW_TFC_MID
      else if tp_m \<ge> TX_LOW_TP_THRES_MBPS then RTW_TFC_LOW
      else if tp_k \<ge> TX_ULTRA_LOW_TP_THRES_KBPS then RTW_TFC_ULTRA_LOW
      else RTW_TFC_IDLE)"

definition phl_tx_traffic_upd :: "rtw_stats \<Rightarrow> rtw_stats" where
  "phl_tx_traffic_upd st =
     st\<lparr>tx_traffic := traffic_step (tx_tfc_lvl (tx_tp_kbits st)) (tx_traffic st)\<rparr>"

definition phl_update_tx_stats :: "u32 \<Rightarrow> pkt_len \<Rightarrow> rtw_stats \<Rightarrow> rtw_stats" where
  "phl_update_tx_stats cur_time tx_req stats =
     (let s1 = stats\<lparr>last_tx_time_ms := cur_time,
                    tx_byte_total := tx_byte_total stats + of_nat (pktlen tx_req),
                    txreq_num := txreq_num stats + 1\<rparr>;
          s2 = (if \<not> bc tx_req \<and> \<not> mc tx_req
                then s1\<lparr>tx_byte_uni := tx_byte_uni s1 + of_nat (pktlen tx_req)\<rparr> else s1)
      in if last_calc_time_ms (txtp s2) = 0 \<or> last_calc_bits (txtp s2) = 0 then
           s2\<lparr>txtp := (txtp s2)\<lparr>last_calc_time_ms := last_tx_time_ms s2,
                               last_calc_bits := tx_byte_uni s2 * 8\<rparr>\<rparr>
         else
           let diff_t = diff_time cur_time (last_calc_time_ms (txtp s2)) in
           if diff_t > TXTP_CALC_DIFF_MS \<and> tx_byte_uni s2 \<noteq> 0 then
             let diff_bits = tx_byte_uni s2 * 8 - last_calc_bits (txtp s2)
             in s2\<lparr>tx_tp_kbits := ucast (diff_bits div ucast diff_t),
                   txtp := (txtp s2)\<lparr>last_calc_bits := tx_byte_uni s2 * 8,
                                     last_calc_time_ms := cur_time\<rparr>\<rparr>
           else s2)"

text \<open>
  \<^verbatim>\<open>phl_rx_statistics\<close> and \<^verbatim>\<open>phl_tx_statistics\<close>: the station's statistics (when the packet's
  MAC id belongs to one) and then those of the device.
\<close>

definition phl_rx_statistics ::
  "u32 \<Rightarrow> pkt_len \<Rightarrow> rtw_stats option \<Rightarrow> rtw_stats \<Rightarrow> rtw_stats option \<times> rtw_stats" where
  "phl_rx_statistics cur_time rx_pkt sta_stats phl_stats =
     (map_option (phl_update_rx_stats cur_time rx_pkt) sta_stats,
      phl_update_rx_stats cur_time rx_pkt phl_stats)"

definition phl_tx_statistics ::
  "u32 \<Rightarrow> pkt_len \<Rightarrow> rtw_stats option \<Rightarrow> rtw_stats \<Rightarrow> rtw_stats option \<times> rtw_stats" where
  "phl_tx_statistics cur_time tx_req sta_stats phl_stats =
     (map_option (phl_update_tx_stats cur_time tx_req) sta_stats,
      phl_update_tx_stats cur_time tx_req phl_stats)"

section \<open>Properties\<close>

lemma diff_time_eq: "diff_time now t = now - t"
  by (simp add: diff_time_def)

text \<open>The level of a throughput, by its value in kbit/s.\<close>

lemma rx_tfc_lvl_eq:
  "rx_tfc_lvl tp =
     (if 51200 \<le> unat tp then RTW_TFC_HIGH else if 10240 \<le> unat tp then RTW_TFC_MID
      else if 2048 \<le> unat tp then RTW_TFC_LOW else if 100 \<le> unat tp then RTW_TFC_ULTRA_LOW
      else RTW_TFC_IDLE)"
proof -
  have m: "unat (drop_bit 10 tp) = unat tp div 1024" by (simp add: drop_bit_eq_div unat_div)
  have "n \<le> drop_bit 10 tp \<longleftrightarrow> unat n * 1024 \<le> unat tp" for n
    unfolding word_le_nat_alt m by (simp add: less_eq_div_iff_mult_less_eq)
  moreover have "(100 :: u32) \<le> tp \<longleftrightarrow> 100 \<le> unat tp" by (simp add: word_le_nat_alt)
  ultimately show ?thesis
    by (simp add: rx_tfc_lvl_def RX_HIGH_TP_THRES_MBPS_def RX_MID_TP_THRES_MBPS_def
        RX_LOW_TP_THRES_MBPS_def RX_ULTRA_LOW_TP_THRES_KBPS_def)
qed

lemma tx_tfc_lvl_eq_rx: "tx_tfc_lvl = rx_tfc_lvl"
  by (simp add: fun_eq_iff Let_def tx_tfc_lvl_def rx_tfc_lvl_def TX_HIGH_TP_THRES_MBPS_def
      TX_MID_TP_THRES_MBPS_def TX_LOW_TP_THRES_MBPS_def TX_ULTRA_LOW_TP_THRES_KBPS_def
      RX_HIGH_TP_THRES_MBPS_def RX_MID_TP_THRES_MBPS_def RX_LOW_TP_THRES_MBPS_def
      RX_ULTRA_LOW_TP_THRES_KBPS_def)

lemmas traffic_bits = TRAFFIC_CHANGED_def TRAFFIC_INCREASE_def TRAFFIC_DECREASE_def BIT_def

lemma traffic_cleared:
  "(x AND NOT c AND NOT i AND NOT d) AND c = 0" "(x AND NOT c AND NOT i AND NOT d) AND i = 0"
  "(x AND NOT c AND NOT i AND NOT d) AND d = 0" for x c i d :: u32
  by (auto simp: bit_eq_iff bit_simps)

lemma traffic_untouched:
  assumes "sts t AND (TRAFFIC_CHANGED OR TRAFFIC_INCREASE OR TRAFFIC_DECREASE) = 0"
  shows "sts t AND TRAFFIC_CHANGED = 0" "sts t AND TRAFFIC_INCREASE = 0" "sts t AND TRAFFIC_DECREASE = 0"
  using assms by (auto simp: bit_eq_iff bit_simps)

lemma traffic_masks:
  "TRAFFIC_CHANGED \<noteq> 0" "TRAFFIC_INCREASE \<noteq> 0" "TRAFFIC_DECREASE \<noteq> 0"
  "(TRAFFIC_CHANGED OR TRAFFIC_DECREASE) AND TRAFFIC_CHANGED \<noteq> 0"
  "(TRAFFIC_CHANGED OR TRAFFIC_DECREASE) AND TRAFFIC_DECREASE \<noteq> 0"
  "(TRAFFIC_CHANGED OR TRAFFIC_DECREASE) AND TRAFFIC_INCREASE = 0"
  "(TRAFFIC_CHANGED OR TRAFFIC_INCREASE) AND TRAFFIC_CHANGED \<noteq> 0"
  "(TRAFFIC_CHANGED OR TRAFFIC_INCREASE) AND TRAFFIC_INCREASE \<noteq> 0"
  "(TRAFFIC_CHANGED OR TRAFFIC_INCREASE) AND TRAFFIC_DECREASE = 0"
  by (simp_all add: traffic_bits)

lemma traffic_step_flags:
  "lvl (traffic_step l t) = l \<and>
   (sts (traffic_step l t) AND TRAFFIC_CHANGED \<noteq> 0 \<longleftrightarrow> lvl t \<noteq> l) \<and>
   (sts (traffic_step l t) AND TRAFFIC_INCREASE \<noteq> 0 \<longleftrightarrow> lvl t < l) \<and>
   (sts (traffic_step l t) AND TRAFFIC_DECREASE \<noteq> 0 \<longleftrightarrow> l < lvl t)"
proof -
  consider (dec) "l < lvl t" | (inc) "lvl t < l" | (same) "lvl t = l" using less_linear by blast
  then show ?thesis
  proof cases
    case dec
    then show ?thesis using order.asym [OF dec] by (auto simp: traffic_step_def traffic_masks)
  next
    case inc
    then show ?thesis using order.asym [OF inc] by (auto simp: traffic_step_def traffic_masks)
  next
    case same
    show ?thesis
    proof (cases "sts t AND (TRAFFIC_CHANGED OR TRAFFIC_INCREASE OR TRAFFIC_DECREASE) = 0")
      case True
      then show ?thesis using same by (simp add: traffic_step_def traffic_untouched)
    next
      case False
      then show ?thesis using same by (simp add: traffic_step_def traffic_cleared)
    qed
  qed
qed

text \<open>
  The traffic level after an update is the class of the throughput (100 kbit/s, 2, 10
  and 50 Mbit/s), on both directions; the flags say exactly whether it changed and in which
  direction, and a level that stays the same clears them.
\<close>

lemma traffic_level_classified:
  "rx_traffic (phl_rx_traffic_upd s) = traffic_step (rx_tfc_lvl (rx_tp_kbits s)) (rx_traffic s) \<and>
   (let l = lvl (rx_traffic s); t' = rx_traffic (phl_rx_traffic_upd s); tp = unat (rx_tp_kbits s) in
     lvl t' = (if 51200 \<le> tp then RTW_TFC_HIGH else if 10240 \<le> tp then RTW_TFC_MID
               else if 2048 \<le> tp then RTW_TFC_LOW else if 100 \<le> tp then RTW_TFC_ULTRA_LOW
               else RTW_TFC_IDLE) \<and>
     (sts t' AND TRAFFIC_CHANGED \<noteq> 0 \<longleftrightarrow> l \<noteq> lvl t') \<and>
     (sts t' AND TRAFFIC_INCREASE \<noteq> 0 \<longleftrightarrow> l < lvl t') \<and>
     (sts t' AND TRAFFIC_DECREASE \<noteq> 0 \<longleftrightarrow> lvl t' < l)) \<and>
   lvl (tx_traffic (phl_tx_traffic_upd s)) = rx_tfc_lvl (tx_tp_kbits s)"
  unfolding Let_def
  by (simp add: phl_rx_traffic_upd_def phl_tx_traffic_upd_def traffic_step_flags tx_tfc_lvl_eq_rx
      rx_tfc_lvl_eq [symmetric])

text \<open>When more than a second has passed since the last calculation, the receive throughput
  is the unicast bits received since then divided by the elapsed milliseconds, the clock's
  wrap-around included.
\<close>

lemma rx_throughput_correct:
  assumes "last_calc_time_ms (rxtp s) \<noteq> 0" and "last_calc_bits (rxtp s) \<noteq> 0"
    and "\<not> bc pkt" and "\<not> mc pkt"
    and "unat (rx_byte_uni s) + pktlen pkt < 2 ^ 61" and "0 < pktlen pkt"
    and "unat (last_calc_bits (rxtp s)) \<le> 8 * (unat (rx_byte_uni s) + pktlen pkt)"
    and "1000 < now - last_calc_time_ms (rxtp s)"
  shows "unat (rx_tp_kbits (phl_update_rx_stats now pkt s)) =
     (8 * (unat (rx_byte_uni s) + pktlen pkt) - unat (last_calc_bits (rxtp s)))
       div unat (now - last_calc_time_ms (rxtp s)) mod 2 ^ 32"
proof -
  let ?u = "rx_byte_uni s + of_nat (pktlen pkt)" and ?n = "unat (rx_byte_uni s) + pktlen pkt"
  have u: "unat ?u = ?n" using assms(5) by (simp add: unat_word_ariths unat_of_nat)
  have u8: "unat (?u * 8) = 8 * ?n" 
    unfolding unat_word_ariths(2) u using assms(5) by simp
  have "?u \<noteq> 0" using u assms(6) by (metis add_is_0 not_less_zero unat_0)
  then have tp: "rx_tp_kbits (phl_update_rx_stats now pkt s) =
      ucast ((?u * 8 - last_calc_bits (rxtp s)) div ucast (now - last_calc_time_ms (rxtp s)))"
    using assms by (simp add: phl_update_rx_stats_def Let_def diff_time_eq RXTP_CALC_DIFF_MS_def)
  have "last_calc_bits (rxtp s) \<le> ?u * 8" unfolding word_le_nat_alt u8 by (rule assms(7))
  then have "unat (?u * 8 - last_calc_bits (rxtp s)) = 8 * ?n - unat (last_calc_bits (rxtp s))"
    by (simp only: unat_sub u8)
  moreover have "unat (ucast x :: u64) = unat x" for x :: u32
  proof -
    have "unat x < 2 ^ LENGTH(32)" by (rule unsigned_less)
    then have "unat x < 2 ^ 64" by simp
    then show ?thesis by (simp add: unsigned_ucast_eq take_bit_nat_eq_self)
  qed
  ultimately show ?thesis unfolding tp by (simp only: unsigned_ucast_eq unat_div take_bit_eq_mod) simp
qed

definition ex_stats :: rtw_stats where
  "ex_stats = \<lparr>tx_byte_uni = 0, rx_byte_uni = 250000, tx_byte_total = 0, rx_byte_total = 250000,
     tx_tp_kbits = 0, rx_tp_kbits = 0, last_tx_time_ms = 0, last_rx_time_ms = 0xfffffe0b, txreq_num = 0,
     rx_rate = 0, txtp = \<lparr>last_calc_bits = 0, last_calc_time_ms = 0\<rparr>,
     rxtp = \<lparr>last_calc_bits = 8, last_calc_time_ms = 0xfffffe0b\<rparr>,
     tx_traffic = \<lparr>lvl = RTW_TFC_IDLE, sts = 0\<rparr>, rx_traffic = \<lparr>lvl = RTW_TFC_IDLE, sts = 0\<rparr>\<rparr>"

lemma reset_then_update:
  "rxtp (phl_update_rx_stats now pkt (phl_reset_rx_stats s)) =
     \<lparr>last_calc_bits = 8 * (if \<not> bc pkt \<and> \<not> mc pkt then of_nat (pktlen pkt) else 0),
      last_calc_time_ms = now\<rparr>"
  by (simp add: phl_update_rx_stats_def phl_reset_rx_stats_def Let_def mult.commute)

end
