(* ===== verification/Phl_Fifo.thy ===== *)
theory Phl_Fifo
  imports Phl_Prelude
begin

text \<open>
  The two interfaces the data path's containers offer to the layers above them, as locales,
  with the lemmas a client needs proved once.

  \<^item> \<open>bounded_fifo\<close>: a producer and a consumer share a container of bounded capacity; what
    the consumer takes is what the producer put, once and in order.
  \<^item> \<open>object_pool\<close>: a fixed population of objects of which some are idle; an allocation
    hands out an idle object, a release gives it back, and no object is ever handed out
    twice.

  The rings of \<^verbatim>\<open>Phl_Ring\<close> interpret the first, the packet pool, the ring-status pool,
  the free-station queue and the USB and H2C buffer lists interpret the second.
\<close>

section \<open>Bounded FIFO\<close>

datatype 'a fifo_op = Put 'a | Get

text \<open>A run: the final state, what was accepted and what was fetched, each in order.\<close>

fun fifo_run ::
  "('s \<Rightarrow> 'a \<Rightarrow> 's \<times> bool) \<Rightarrow> ('s \<Rightarrow> 's \<times> 'a option) \<Rightarrow> 's \<Rightarrow> 'a fifo_op list
     \<Rightarrow> 's \<times> 'a list \<times> 'a list" where
  "fifo_run put get s [] = (s, [], [])"
| "fifo_run put get s (Put x # ops) =
     (case put s x of (s', ok) \<Rightarrow>
        (case fifo_run put get s' ops of (t, acc, got) \<Rightarrow>
           (t, (if ok then x # acc else acc), got)))"
| "fifo_run put get s (Get # ops) =
     (case get s of (s', y) \<Rightarrow>
        (case fifo_run put get s' ops of (t, acc, got) \<Rightarrow>
           (t, acc, (case y of None \<Rightarrow> got | Some v \<Rightarrow> v # got))))"

locale bounded_fifo =
  fixes content :: "'s \<Rightarrow> 'a list"
    and invar :: "'s \<Rightarrow> bool"
    and capacity :: nat
    and put :: "'s \<Rightarrow> 'a \<Rightarrow> 's \<times> bool"
    and get :: "'s \<Rightarrow> 's \<times> 'a option"
  assumes put_invar: "invar s \<Longrightarrow> invar (fst (put s x))"
    and get_invar: "invar s \<Longrightarrow> invar (fst (get s))"
    and put_ok: "invar s \<Longrightarrow> length (content s) < capacity \<Longrightarrow>
          snd (put s x) \<and> content (fst (put s x)) = content s @ [x]"
    and put_full: "invar s \<Longrightarrow> capacity \<le> length (content s) \<Longrightarrow>
          \<not> snd (put s x) \<and> content (fst (put s x)) = content s"
    and get_some: "invar s \<Longrightarrow> content s = y # ys \<Longrightarrow>
          snd (get s) = Some y \<and> content (fst (get s)) = ys"
    and get_none: "invar s \<Longrightarrow> content s = [] \<Longrightarrow>
          snd (get s) = None \<and> content (fst (get s)) = []"
begin

lemma put_content:
  assumes "invar s" and "put s x = (s', ok)"
  shows "content s' = (if ok then content s @ [x] else content s)"
  using put_ok [of s x] put_full [of s x] assms
  by (cases "length (content s) < capacity") auto

lemma get_content:
  assumes "invar s" and "get s = (s', y)"
  shows "content s = (case y of None \<Rightarrow> [] | Some v \<Rightarrow> [v]) @ content s'"
  using get_some [of s] get_none [of s] assms by (cases "content s") auto

lemma run_order:
  "invar s \<Longrightarrow> fifo_run put get s ops = (t, acc, got) \<Longrightarrow>
     content s @ acc = got @ content t \<and> invar t"
proof (induction ops arbitrary: s t acc got)
  case Nil
  then show ?case by simp
next
  case (Cons oper ops)
  show ?case
  proof (cases oper)
    case (Put x)
    obtain s' ok where p: "put s x = (s', ok)" by fastforce
    obtain t' acc' got' where r: "fifo_run put get s' ops = (t', acc', got')"
      using prod_cases3 by blast
    from Cons.prems(1) p have "invar s'" using put_invar [of s x] by simp
    then have "content s' @ acc' = got' @ content t' \<and> invar t'" using r by (rule Cons.IH)
    with Cons.prems p r Put put_content [OF Cons.prems(1) p] show ?thesis
      by (auto split: if_splits)
  next
    case Get
    obtain s' y where g: "get s = (s', y)" by fastforce
    obtain t' acc' got' where r: "fifo_run put get s' ops = (t', acc', got')"
      using prod_cases3 by blast
    from Cons.prems(1) g have "invar s'" using get_invar [of s] by simp
    then have "content s' @ acc' = got' @ content t' \<and> invar t'" using r by (rule Cons.IH)
    with Cons.prems g r Get get_content [OF Cons.prems(1) g] show ?thesis
      by (auto split: option.splits)
  qed
qed

end

section \<open>Object pool\<close>

datatype pool_op = Alloc | Release nat

text \<open>
  A run of a pool's client: it allocates, and releases one of the objects it holds (given
  by its position among them; a position it does not hold is no step).
\<close>

fun pool_run ::
  "('s \<Rightarrow> 's \<times> 'a option) \<Rightarrow> ('s \<Rightarrow> 'a \<Rightarrow> 's) \<Rightarrow> 's \<times> 'a list \<Rightarrow> pool_op list
     \<Rightarrow> 's \<times> 'a list" where
  "pool_run alloc release st [] = st"
| "pool_run alloc release (s, held) (Alloc # ops) =
     (case alloc s of (s', y) \<Rightarrow>
        pool_run alloc release
          (s', (case y of None \<Rightarrow> held | Some x \<Rightarrow> held @ [x])) ops)"
| "pool_run alloc release (s, held) (Release i # ops) =
     (if i < length held
      then pool_run alloc release
             (release s (held ! i), take i held @ drop (Suc i) held) ops
      else pool_run alloc release (s, held) ops)"

locale object_pool =
  fixes idle :: "'s \<Rightarrow> 'a list"
    and invar :: "'s \<Rightarrow> bool"
    and alloc :: "'s \<Rightarrow> 's \<times> 'a option"
    and release :: "'s \<Rightarrow> 'a \<Rightarrow> 's"
  assumes alloc_invar: "invar s \<Longrightarrow> invar (fst (alloc s))"
    and release_invar: "invar s \<Longrightarrow> invar (release s x)"
    and alloc_none: "invar s \<Longrightarrow> idle s = [] \<Longrightarrow>
          snd (alloc s) = None \<and> idle (fst (alloc s)) = []"
    and alloc_some: "invar s \<Longrightarrow> idle s = x # xs \<Longrightarrow>
          snd (alloc s) = Some x \<and> idle (fst (alloc s)) = xs"
    and release_idle: "invar s \<Longrightarrow> mset (idle (release s x)) = add_mset x (mset (idle s))"
begin

lemma alloc_takes:
  assumes "invar s" and "alloc s = (s', y)"
  shows "mset (idle s) = (case y of None \<Rightarrow> {#} | Some x \<Rightarrow> {#x#}) + mset (idle s')"
  using assms alloc_none [of s] alloc_some [of s] by (cases "idle s") auto

lemma alloc_fails_iff:
  assumes "invar s"
  shows "snd (alloc s) = None \<longleftrightarrow> idle s = []"
  using assms alloc_none [of s] alloc_some [of s] by (cases "idle s") auto

text \<open>Objects are neither lost nor made: idle and held objects together stay the same.\<close>

lemma run_conserves:
  "invar s \<Longrightarrow> pool_run alloc release (s, held) ops = (t, held') \<Longrightarrow>
     mset (idle t) + mset held' = mset (idle s) + mset held \<and> invar t"
proof (induction ops arbitrary: s held)
  case Nil
  then show ?case by simp
next
  case (Cons oper ops)
  show ?case
  proof (cases oper)
    case Alloc
    obtain s' y where a: "alloc s = (s', y)" by fastforce
    from Cons.prems(1) a have i: "invar s'" using alloc_invar [of s] by simp
    have "mset (idle t) + mset held' =
        mset (idle s') + mset (case y of None \<Rightarrow> held | Some x \<Rightarrow> held @ [x]) \<and> invar t"
      using Cons.IH [OF i] Cons.prems(2) a Alloc by simp
    then show ?thesis using alloc_takes [OF Cons.prems(1) a] by (auto split: option.splits)
  next
    case (Release i)
    show ?thesis
    proof (cases "i < length held")
      case True
      have m: "mset held = add_mset (held ! i) (mset (take i held @ drop (Suc i) held))"
        using True by (subst id_take_nth_drop [OF True]) simp
      have "mset (idle t) + mset held' =
          mset (idle (release s (held ! i))) + mset (take i held @ drop (Suc i) held) \<and> invar t"
        using Cons.IH [OF release_invar [OF Cons.prems(1)]] Cons.prems(2) True Release by simp
      then show ?thesis using release_idle [OF Cons.prems(1)] m by simp
    next
      case False
      with Cons Release show ?thesis by simp
    qed
  qed
qed

text \<open>So an object a client holds is never idle, and no object is held twice.\<close>

lemma run_exclusive:
  assumes "invar s" and "pool_run alloc release (s, []) ops = (t, held)"
    and "distinct (idle s)"
  shows "distinct (idle t @ held) \<and> set (idle t) \<union> set held = set (idle s)"
proof -
  from run_conserves [OF assms(1,2)] have m: "mset (idle t @ held) = mset (idle s)" by simp
  then have "distinct (idle t @ held)" using assms(3) mset_eq_imp_distinct_iff by blast
  moreover have "set (idle t @ held) = set (idle s)" using m mset_eq_setD by blast
  ultimately show ?thesis by simp
qed

end

end
