(* ===== verification/Phl_Ring.thy ===== *)
theory Phl_Ring
  imports Phl_Fifo
begin

text \<open>
  The read/write-pointer rings between the core and the PHL layer:
  \<^verbatim>\<open>phl_calc_avail_rptr\<close> and \<^verbatim>\<open>phl_calc_avail_wptr\<close> of \<^verbatim>\<open>phl/phl_tx.c\<close>, the RX ring
  (\<^verbatim>\<open>_phl_add_rx_pkt\<close>, \<^verbatim>\<open>rtw_phl_query_rx_pkt\<close> and the two ring queries of
  \<^verbatim>\<open>phl/phl_rx.c\<close>) and the ring part of the TX ring (\<^verbatim>\<open>rtw_phl_add_tx_req\<close>).
  The main result is that both rings refine a bounded FIFO of capacity 4095.
\<close>

section \<open>Pointer arithmetic\<close>

definition MAX_PHL_RING_ENTRY_NUM :: nat where
  "MAX_PHL_RING_ENTRY_NUM = 4096"

definition phl_calc_avail_rptr :: "nat \<Rightarrow> nat \<Rightarrow> nat \<Rightarrow> nat" where
  "phl_calc_avail_rptr rptr wptr bndy =
     (if wptr \<ge> rptr then to_u16 (int wptr - int rptr)
      else if rptr > wptr then to_u16 (int wptr + (int bndy - int rptr))
      else 0)"

definition phl_calc_avail_wptr :: "nat \<Rightarrow> nat \<Rightarrow> nat \<Rightarrow> nat" where
  "phl_calc_avail_wptr rptr wptr bndy =
     (if rptr > wptr then to_u16 (int rptr - int wptr - 1)
      else if wptr \<ge> rptr then to_u16 (int rptr + (int bndy - int wptr) - 1)
      else 0)"

section \<open>The RX ring\<close>

text \<open>
  \<^verbatim>\<open>struct rtw_phl_rx_ring\<close>: the PHL layer writes at \<open>phl_idx\<close>, the core reads at
  \<open>core_idx\<close>; the entries are pointers to received packets.
\<close>

record rtw_phl_rx_ring =
  rx_core_idx :: nat
  rx_phl_idx :: nat
  rx_entry :: "nat \<Rightarrow> ptr option"

text \<open>The build does not define \<^verbatim>\<open>CONFIG_RX_BATCH_IND\<close>, so this option is off.\<close>

definition PHL_RX_BATCH_IND :: bool where
  "PHL_RX_BATCH_IND = False"

text \<open>
  \<^verbatim>\<open>_phl_add_rx_pkt\<close>. The status is only set to success under
  \<^verbatim>\<open>PHL_RX_BATCH_IND\<close>; without it a packet that was stored is reported as
  \<^const>\<open>RTW_PHL_STATUS_FAILURE\<close>. The atomics hold a C \<^verbatim>\<open>int\<close>, read through a cast
  to \<^verbatim>\<open>u16\<close>.
\<close>

definition phl_add_rx_pkt ::
  "rtw_phl_rx_ring \<Rightarrow> ptr \<Rightarrow> rtw_phl_rx_ring \<times> rtw_phl_status" where
  "phl_add_rx_pkt ring recvpkt =
     (let wptr = to_u16 (int (rx_phl_idx ring));
          rptr = to_u16 (int (rx_core_idx ring));
          ring_res = phl_calc_avail_wptr rptr wptr MAX_PHL_RING_ENTRY_NUM
      in if ring_res \<le> 0 then (ring, RTW_PHL_STATUS_RESOURCE)
         else
           let wptr1 = to_u16 (int wptr + 1);
               wptr2 = (if wptr1 \<ge> MAX_PHL_RING_ENTRY_NUM then 0 else wptr1)
           in (ring\<lparr>rx_entry := (rx_entry ring)(wptr2 := Some recvpkt),
                    rx_phl_idx := (if wptr2 \<noteq> 0 then rx_phl_idx ring + 1 else 0)\<rparr>,
               if PHL_RX_BATCH_IND then RTW_PHL_STATUS_SUCCESS else RTW_PHL_STATUS_FAILURE))"

text \<open>
  The ring part of \<^verbatim>\<open>rtw_phl_query_rx_pkt\<close> as one step. The code takes no lock here: it is the only reader of
  the ring, and the writer changes the other index only.
\<close>

definition rx_ring_query :: "rtw_phl_rx_ring \<Rightarrow> rtw_phl_rx_ring \<times> ptr option" where
  "rx_ring_query ring =
     (let wptr = to_u16 (int (rx_phl_idx ring));
          rptr = to_u16 (int (rx_core_idx ring));
          ring_res = phl_calc_avail_rptr rptr wptr MAX_PHL_RING_ENTRY_NUM
      in if ring_res > 0 then
           let rptr1 = to_u16 (int rptr + 1) in
           if rptr1 \<ge> MAX_PHL_RING_ENTRY_NUM then
             (ring\<lparr>rx_entry := (rx_entry ring)(0 := None), rx_core_idx := 0\<rparr>, rx_entry ring 0)
           else
             (ring\<lparr>rx_entry := (rx_entry ring)(rptr1 := None),
                   rx_core_idx := rx_core_idx ring + 1\<rparr>, rx_entry ring rptr1)
         else (ring, None))"

definition rtw_phl_query_new_rx_num :: "rtw_phl_rx_ring \<Rightarrow> nat" where
  "rtw_phl_query_new_rx_num ring =
     phl_calc_avail_rptr (to_u16 (int (rx_core_idx ring))) (to_u16 (int (rx_phl_idx ring)))
       MAX_PHL_RING_ENTRY_NUM"

definition phl_check_recv_ring_resource :: "rtw_phl_rx_ring \<Rightarrow> bool" where
  "phl_check_recv_ring_resource ring =
     (let avail = phl_calc_avail_wptr (to_u16 (int (rx_core_idx ring)))
                    (to_u16 (int (rx_phl_idx ring))) MAX_PHL_RING_ENTRY_NUM
      in if avail = 0 then False else True)"

definition rx_ring_init :: rtw_phl_rx_ring where
  "rx_ring_init = \<lparr>rx_core_idx = 0, rx_phl_idx = 0, rx_entry = (\<lambda>_. None)\<rparr>"

section \<open>The TX ring\<close>

text \<open>
  \<^verbatim>\<open>struct rtw_phl_tx_ring\<close>: here the core writes at \<open>core_idx\<close> and the PHL layer reads
  at \<open>phl_idx\<close>; \<open>phl_next_idx\<close> is the entry the PHL layer is working on.
\<close>

record rtw_phl_tx_ring =
  tx_tid :: nat
  tx_dma_ch :: nat
  tx_core_idx :: nat
  tx_phl_idx :: nat
  tx_phl_next_idx :: nat
  tx_entry :: "nat \<Rightarrow> ptr option"

text \<open>The part of \<^verbatim>\<open>rtw_phl_add_tx_req\<close> on the ring it found for the request.\<close>

definition tx_ring_add ::
  "rtw_phl_tx_ring \<Rightarrow> ptr \<Rightarrow> rtw_phl_tx_ring \<times> rtw_phl_status" where
  "tx_ring_add ring tx_req =
     (let rptr = to_u16 (int (tx_phl_idx ring));
          ring_res = phl_calc_avail_wptr rptr (tx_core_idx ring) MAX_PHL_RING_ENTRY_NUM
      in if ring_res > 0 then
           let core_idx = (tx_core_idx ring + 1) mod MAX_PHL_RING_ENTRY_NUM
           in (ring\<lparr>tx_core_idx := core_idx,
                    tx_entry := (tx_entry ring)(core_idx := Some tx_req)\<rparr>,
               RTW_PHL_STATUS_SUCCESS)
         else (ring, RTW_PHL_STATUS_RESOURCE))"

text \<open>
  One step of the drain loop of \<^verbatim>\<open>_phl_free_phl_tring_list\<close>: advance the read pointer and
  take the entry there; stop when the ring is empty or the entry is NULL.
\<close>

definition tx_ring_take :: "rtw_phl_tx_ring \<Rightarrow> rtw_phl_tx_ring \<times> ptr option" where
  "tx_ring_take ring =
     (let rptr = to_u16 (int (tx_phl_idx ring))
      in if rptr \<noteq> tx_core_idx ring then
           let rptr1 = to_u16 (int rptr + 1);
               rptr2 = (if rptr1 \<ge> MAX_PHL_RING_ENTRY_NUM then 0 else rptr1)
           in (ring\<lparr>tx_phl_idx := rptr2\<rparr>, tx_entry ring rptr2)
         else (ring, None))"

section \<open>A ring slice as a list\<close>

text \<open>The entries after the read index \<open>r\<close> up to the write index \<open>w\<close>, in ring order.\<close>

definition ring_slice :: "nat \<Rightarrow> (nat \<Rightarrow> 'a) \<Rightarrow> nat \<Rightarrow> nat \<Rightarrow> 'a list" where
  "ring_slice n e r w = map (\<lambda>k. e ((r + 1 + k) mod n)) [0..<(w + n - r) mod n]"

lemma ring_dist:
  "r < n \<Longrightarrow> w < n \<Longrightarrow> (w + n - r) mod n = (if r \<le> w then w - r else w + n - r)" for r w n :: nat
  by (auto simp: mod_if)

lemma ring_dist_Suc:
  assumes "r < n" and "w < n" and "(w + 1) mod n \<noteq> r"
  shows "((w + 1) mod n + n - r) mod n = Suc ((w + n - r) mod n)"
proof -
  have "(w + 1) mod n < n" using assms by simp
  then show ?thesis using assms
    by (simp add: ring_dist) (auto simp: mod_if split: if_splits)
qed

lemma ring_dist_pred:
  assumes "r < n" and "w < n" and "r \<noteq> w"
  shows "(w + n - r) mod n = Suc ((w + n - (r + 1) mod n) mod n)"
proof -
  have "(r + 1) mod n < n" using assms by simp
  then show ?thesis using assms
    by (simp add: ring_dist) (auto simp: mod_if split: if_splits)
qed

lemma length_ring_slice [simp]: "length (ring_slice n e r w) = (w + n - r) mod n"
  by (simp add: ring_slice_def)

lemma ring_slice_empty [simp]: "r < n \<Longrightarrow> ring_slice n e r r = []"
  by (simp add: ring_slice_def)

lemma ring_slice_push:
  assumes r: "r < n" and w: "w < n" and room: "(w + 1) mod n \<noteq> r"
  shows "ring_slice n (e((w + 1) mod n := x)) r ((w + 1) mod n) = ring_slice n e r w @ [x]"
proof -
  let ?d = "(w + n - r) mod n"
  have d: "?d < n" using r by simp
  have at: "(r + 1 + ?d) mod n = (w + 1) mod n"
  proof -
    have "(r + (w + n - r)) mod n = w mod n" using r w by simp
    then have "(r + ?d) mod n = w mod n" by (metis mod_add_right_eq)
    then show ?thesis by (metis add.assoc add.commute mod_add_left_eq)
  qed
  have sd: "Suc ?d < n"
    using ring_dist_Suc [OF r w room] by (metis mod_less_divisor r less_nat_zero_code neq0_conv)
  have off: "(r + 1 + k) mod n \<noteq> (w + 1) mod n" if "k < ?d" for k
  proof
    assume "(r + 1 + k) mod n = (w + 1) mod n"
    then have "(r + Suc k) mod n = (r + Suc ?d) mod n" using at by simp
    then have "Suc k = Suc ?d" by (rule ring_index_eq [OF r, rotated 2]) (use that sd in simp_all)
    with that show False by simp
  qed
  show ?thesis using ring_dist_Suc [OF r w room] off at
    by (simp add: ring_slice_def)
qed

lemma ring_slice_pop:
  assumes r: "r < n" and w: "w < n" and ne: "r \<noteq> w"
  shows "ring_slice n e r w = e ((r + 1) mod n) # ring_slice n e ((r + 1) mod n) w"
proof -
  let ?m = "(w + n - (r + 1) mod n) mod n"
  have "[0..<(w + n - r) mod n] = 0 # map Suc [0..<?m]"
    using ring_dist_pred [OF r w ne] by (simp add: upt_conv_Cons map_Suc_upt del: upt_Suc)
  moreover have "(r + 1 + Suc k) mod n = ((r + 1) mod n + 1 + k) mod n" for k
    using mod_add_left_eq [of "r + 1" n "1 + k"] by (simp add: ac_simps)
  ultimately show ?thesis by (simp add: ring_slice_def)
qed

lemma ring_slice_nil_iff: "r < n \<Longrightarrow> w < n \<Longrightarrow> ring_slice n e r w = [] \<longleftrightarrow> r = w"
  by (metis length_0_conv length_ring_slice nat.distinct(1) ring_dist_pred ring_slice_empty)

lemma ring_slice_upd_other:
  assumes "r < n" and "w < n"
  shows "ring_slice n (e(r := x)) r w = ring_slice n e r w"
proof -
  have "(r + 1 + k) mod n \<noteq> r" if "k < (w + n - r) mod n" for k
  proof
    assume "(r + 1 + k) mod n = r"
    then have eq: "(r + Suc k) mod n = (r + 0) mod n" using assms by simp
    have "(w + n - r) mod n < n" using assms by simp
    then have "Suc k < n \<or> Suc k = n" using that by auto
    then show False
    proof
      assume "Suc k < n"
      with eq assms show False using ring_index_eq [of r n "Suc k" 0] by simp
    next
      assume "Suc k = n"
      with that assms show False by (simp add: ring_dist split: if_splits)
    qed
  qed
  then show ?thesis by (simp add: ring_slice_def)
qed

section \<open>The rings as bounded FIFOs\<close>

definition rx_ring_invar :: "rtw_phl_rx_ring \<Rightarrow> bool" where
  "rx_ring_invar ring \<longleftrightarrow>
     rx_core_idx ring < MAX_PHL_RING_ENTRY_NUM \<and> rx_phl_idx ring < MAX_PHL_RING_ENTRY_NUM \<and>
     None \<notin> set (ring_slice MAX_PHL_RING_ENTRY_NUM (rx_entry ring)
                  (rx_core_idx ring) (rx_phl_idx ring))"

definition rx_ring_content :: "rtw_phl_rx_ring \<Rightarrow> ptr list" where
  "rx_ring_content ring =
     map the (ring_slice MAX_PHL_RING_ENTRY_NUM (rx_entry ring)
                (rx_core_idx ring) (rx_phl_idx ring))"

definition tx_ring_invar :: "rtw_phl_tx_ring \<Rightarrow> bool" where
  "tx_ring_invar ring \<longleftrightarrow>
     tx_core_idx ring < MAX_PHL_RING_ENTRY_NUM \<and> tx_phl_idx ring < MAX_PHL_RING_ENTRY_NUM \<and>
     None \<notin> set (ring_slice MAX_PHL_RING_ENTRY_NUM (tx_entry ring)
                  (tx_phl_idx ring) (tx_core_idx ring))"

definition tx_ring_content :: "rtw_phl_tx_ring \<Rightarrow> ptr list" where
  "tx_ring_content ring =
     map the (ring_slice MAX_PHL_RING_ENTRY_NUM (tx_entry ring)
                (tx_phl_idx ring) (tx_core_idx ring))"

text \<open>The outcome as the FIFO interface sees it: accepted unless out of resource.\<close>

definition rx_ring_put :: "rtw_phl_rx_ring \<Rightarrow> ptr \<Rightarrow> rtw_phl_rx_ring \<times> bool" where
  "rx_ring_put ring p =
     (case phl_add_rx_pkt ring p of (ring', st) \<Rightarrow> (ring', st \<noteq> RTW_PHL_STATUS_RESOURCE))"

definition tx_ring_put :: "rtw_phl_tx_ring \<Rightarrow> ptr \<Rightarrow> rtw_phl_tx_ring \<times> bool" where
  "tx_ring_put ring p =
     (case tx_ring_add ring p of (ring', st) \<Rightarrow> (ring', st = RTW_PHL_STATUS_SUCCESS))"

lemma avail_rptr_eq:
  "r < MAX_PHL_RING_ENTRY_NUM \<Longrightarrow> w < MAX_PHL_RING_ENTRY_NUM \<Longrightarrow>
     phl_calc_avail_rptr r w MAX_PHL_RING_ENTRY_NUM =
       (w + MAX_PHL_RING_ENTRY_NUM - r) mod MAX_PHL_RING_ENTRY_NUM"
  by (auto simp: phl_calc_avail_rptr_def ring_dist MAX_PHL_RING_ENTRY_NUM_def conv_simps)

lemma avail_wptr_eq:
  "r < MAX_PHL_RING_ENTRY_NUM \<Longrightarrow> w < MAX_PHL_RING_ENTRY_NUM \<Longrightarrow>
     phl_calc_avail_wptr r w MAX_PHL_RING_ENTRY_NUM =
       MAX_PHL_RING_ENTRY_NUM - 1 - (w + MAX_PHL_RING_ENTRY_NUM - r) mod MAX_PHL_RING_ENTRY_NUM"
  by (auto simp: phl_calc_avail_wptr_def ring_dist MAX_PHL_RING_ENTRY_NUM_def conv_simps)

lemma ring_full_iff:
  "r < MAX_PHL_RING_ENTRY_NUM \<Longrightarrow> w < MAX_PHL_RING_ENTRY_NUM \<Longrightarrow>
     (w + 1) mod MAX_PHL_RING_ENTRY_NUM = r \<longleftrightarrow>
       (w + MAX_PHL_RING_ENTRY_NUM - r) mod MAX_PHL_RING_ENTRY_NUM = MAX_PHL_RING_ENTRY_NUM - 1"
  by (simp add: ring_dist MAX_PHL_RING_ENTRY_NUM_def) (auto simp: mod_if split: if_splits)

lemma ring_idx_u16: "i < MAX_PHL_RING_ENTRY_NUM \<Longrightarrow> to_u16 (int i) = i"
  by (simp add: MAX_PHL_RING_ENTRY_NUM_def conv_simps)

lemma ring_idx_inc_u16:
  assumes "i < MAX_PHL_RING_ENTRY_NUM"
  shows "(if MAX_PHL_RING_ENTRY_NUM \<le> to_u16 (int i + 1) then 0 else to_u16 (int i + 1)) =
           (i + 1) mod MAX_PHL_RING_ENTRY_NUM"
    and "(if (i + 1) mod MAX_PHL_RING_ENTRY_NUM \<noteq> 0 then i + 1 else 0) =
           (i + 1) mod MAX_PHL_RING_ENTRY_NUM"
  using assms
  by (auto simp: MAX_PHL_RING_ENTRY_NUM_def to_u16_in_range nat_add_distrib mod_if)

lemma phl_add_rx_pkt_eq:
  assumes "rx_core_idx ring < MAX_PHL_RING_ENTRY_NUM" and "rx_phl_idx ring < MAX_PHL_RING_ENTRY_NUM"
  shows "phl_add_rx_pkt ring p =
     (if (rx_phl_idx ring + 1) mod MAX_PHL_RING_ENTRY_NUM = rx_core_idx ring
      then (ring, RTW_PHL_STATUS_RESOURCE)
      else (ring\<lparr>rx_entry := (rx_entry ring)((rx_phl_idx ring + 1) mod MAX_PHL_RING_ENTRY_NUM := Some p),
                 rx_phl_idx := (rx_phl_idx ring + 1) mod MAX_PHL_RING_ENTRY_NUM\<rparr>,
            RTW_PHL_STATUS_FAILURE))"
proof -
  have d: "(rx_phl_idx ring + MAX_PHL_RING_ENTRY_NUM - rx_core_idx ring) mod MAX_PHL_RING_ENTRY_NUM
             < MAX_PHL_RING_ENTRY_NUM" by (simp add: MAX_PHL_RING_ENTRY_NUM_def)
  show ?thesis
    unfolding phl_add_rx_pkt_def Let_def ring_idx_u16 [OF assms(1)] ring_idx_u16 [OF assms(2)]
      avail_wptr_eq [OF assms] ring_full_iff [OF assms] ring_idx_inc_u16 [OF assms(2)]
      PHL_RX_BATCH_IND_def
    using d by auto
qed

lemma rx_ring_query_eq:
  assumes "rx_core_idx ring < MAX_PHL_RING_ENTRY_NUM" and "rx_phl_idx ring < MAX_PHL_RING_ENTRY_NUM"
  shows "rx_ring_query ring =
     (if rx_core_idx ring = rx_phl_idx ring then (ring, None)
      else let i = (rx_core_idx ring + 1) mod MAX_PHL_RING_ENTRY_NUM
           in (ring\<lparr>rx_entry := (rx_entry ring)(i := None), rx_core_idx := i\<rparr>, rx_entry ring i))"
proof -
  have z: "(rx_phl_idx ring + MAX_PHL_RING_ENTRY_NUM - rx_core_idx ring) mod MAX_PHL_RING_ENTRY_NUM = 0
             \<longleftrightarrow> rx_core_idx ring = rx_phl_idx ring"
    using assms by (auto simp: ring_dist)
  have i: "to_u16 (int (rx_core_idx ring) + 1) = rx_core_idx ring + 1"
    using assms(1) by (simp add: MAX_PHL_RING_ENTRY_NUM_def to_u16_in_range nat_add_distrib)
  show ?thesis
    unfolding rx_ring_query_def Let_def ring_idx_u16 [OF assms(1)] ring_idx_u16 [OF assms(2)]
      avail_rptr_eq [OF assms] i
    using z assms(1) by (auto simp: mod_if)
qed

lemma tx_ring_add_eq:
  assumes "tx_core_idx ring < MAX_PHL_RING_ENTRY_NUM" and "tx_phl_idx ring < MAX_PHL_RING_ENTRY_NUM"
  shows "tx_ring_add ring p =
     (if (tx_core_idx ring + 1) mod MAX_PHL_RING_ENTRY_NUM = tx_phl_idx ring
      then (ring, RTW_PHL_STATUS_RESOURCE)
      else let i = (tx_core_idx ring + 1) mod MAX_PHL_RING_ENTRY_NUM
           in (ring\<lparr>tx_core_idx := i, tx_entry := (tx_entry ring)(i := Some p)\<rparr>,
               RTW_PHL_STATUS_SUCCESS))"
proof -
  have "(tx_core_idx ring + MAX_PHL_RING_ENTRY_NUM - tx_phl_idx ring) mod MAX_PHL_RING_ENTRY_NUM
             < MAX_PHL_RING_ENTRY_NUM" by (simp add: MAX_PHL_RING_ENTRY_NUM_def)
  then show ?thesis
    unfolding tx_ring_add_def Let_def ring_idx_u16 [OF assms(2)]
      avail_wptr_eq [OF assms(2) assms(1)] ring_full_iff [OF assms(2) assms(1)]
    by auto
qed

lemma tx_ring_take_eq:
  assumes "tx_phl_idx ring < MAX_PHL_RING_ENTRY_NUM"
  shows "tx_ring_take ring =
     (if tx_phl_idx ring = tx_core_idx ring then (ring, None)
      else let i = (tx_phl_idx ring + 1) mod MAX_PHL_RING_ENTRY_NUM
           in (ring\<lparr>tx_phl_idx := i\<rparr>, tx_entry ring i))"
  unfolding tx_ring_take_def Let_def ring_idx_u16 [OF assms] ring_idx_inc_u16 [OF assms] by simp

lemma rx_ring_invar_init: "rx_ring_invar rx_ring_init \<and> rx_ring_content rx_ring_init = []"
  by (simp add: rx_ring_invar_def rx_ring_content_def rx_ring_init_def MAX_PHL_RING_ENTRY_NUM_def)

lemma ring_size_pos [simp]: "0 < MAX_PHL_RING_ENTRY_NUM"
  by (simp add: MAX_PHL_RING_ENTRY_NUM_def)

lemma length_rx_ring_content:
  "length (rx_ring_content ring) =
     (rx_phl_idx ring + MAX_PHL_RING_ENTRY_NUM - rx_core_idx ring) mod MAX_PHL_RING_ENTRY_NUM"
  by (simp add: rx_ring_content_def)

lemma length_tx_ring_content:
  "length (tx_ring_content ring) =
     (tx_core_idx ring + MAX_PHL_RING_ENTRY_NUM - tx_phl_idx ring) mod MAX_PHL_RING_ENTRY_NUM"
  by (simp add: tx_ring_content_def)

lemma rx_ring_put_simps:
  assumes "rx_ring_invar ring"
  shows "length (rx_ring_content ring) < MAX_PHL_RING_ENTRY_NUM - 1 \<Longrightarrow>
           snd (rx_ring_put ring p) \<and> rx_ring_invar (fst (rx_ring_put ring p)) \<and>
           rx_ring_content (fst (rx_ring_put ring p)) = rx_ring_content ring @ [p]"
    and "MAX_PHL_RING_ENTRY_NUM - 1 \<le> length (rx_ring_content ring) \<Longrightarrow>
           rx_ring_put ring p = (ring, False)"
proof -
  have b: "rx_core_idx ring < MAX_PHL_RING_ENTRY_NUM" "rx_phl_idx ring < MAX_PHL_RING_ENTRY_NUM"
    using assms by (auto simp: rx_ring_invar_def)
  {
    assume "length (rx_ring_content ring) < MAX_PHL_RING_ENTRY_NUM - 1"
    then have room: "(rx_phl_idx ring + 1) mod MAX_PHL_RING_ENTRY_NUM \<noteq> rx_core_idx ring"
      by (simp only: length_rx_ring_content ring_full_iff [OF b])
    show "snd (rx_ring_put ring p) \<and> rx_ring_invar (fst (rx_ring_put ring p)) \<and>
           rx_ring_content (fst (rx_ring_put ring p)) = rx_ring_content ring @ [p]"
      using assms b room
      by (simp add: rx_ring_put_def phl_add_rx_pkt_eq rx_ring_invar_def rx_ring_content_def
          ring_slice_push [OF b room, simplified])
  next
    assume "MAX_PHL_RING_ENTRY_NUM - 1 \<le> length (rx_ring_content ring)"
    moreover have "length (rx_ring_content ring) < MAX_PHL_RING_ENTRY_NUM"
      by (simp add: length_rx_ring_content)
    ultimately have "(rx_phl_idx ring + 1) mod MAX_PHL_RING_ENTRY_NUM = rx_core_idx ring"
      by (simp only: length_rx_ring_content ring_full_iff [OF b])
    then show "rx_ring_put ring p = (ring, False)"
      using b by (simp add: rx_ring_put_def phl_add_rx_pkt_eq)
  }
qed

lemma rx_ring_get_simps:
  assumes "rx_ring_invar ring"
  shows "rx_ring_content ring = y # ys \<Longrightarrow>
           snd (rx_ring_query ring) = Some y \<and> rx_ring_invar (fst (rx_ring_query ring)) \<and>
           rx_ring_content (fst (rx_ring_query ring)) = ys"
    and "rx_ring_content ring = [] \<Longrightarrow> rx_ring_query ring = (ring, None)"
proof -
  have b: "rx_core_idx ring < MAX_PHL_RING_ENTRY_NUM" "rx_phl_idx ring < MAX_PHL_RING_ENTRY_NUM"
    using assms by (auto simp: rx_ring_invar_def)
  {
    assume c: "rx_ring_content ring = y # ys"
    then have ne: "rx_core_idx ring \<noteq> rx_phl_idx ring"
      using b by (auto simp: rx_ring_content_def)
    note pop = ring_slice_pop [OF b ne, simplified]
    have i: "Suc (rx_core_idx ring) mod MAX_PHL_RING_ENTRY_NUM < MAX_PHL_RING_ENTRY_NUM" by simp
    show "snd (rx_ring_query ring) = Some y \<and> rx_ring_invar (fst (rx_ring_query ring)) \<and>
           rx_ring_content (fst (rx_ring_query ring)) = ys"
      using assms b c ne
      by (auto simp: rx_ring_query_eq [OF b] Let_def rx_ring_invar_def rx_ring_content_def pop
          ring_slice_upd_other [OF i b(2)])
  next
    assume "rx_ring_content ring = []"
    then show "rx_ring_query ring = (ring, None)"
      using b by (simp add: rx_ring_content_def ring_slice_nil_iff rx_ring_query_eq)
  }
qed

interpretation rx_ring: bounded_fifo rx_ring_content rx_ring_invar
  "MAX_PHL_RING_ENTRY_NUM - 1" rx_ring_put rx_ring_query
proof unfold_locales
  show "rx_ring_invar s \<Longrightarrow> rx_ring_invar (fst (rx_ring_put s x))" for s x
    using rx_ring_put_simps [of s x] by (cases "length (rx_ring_content s) < MAX_PHL_RING_ENTRY_NUM - 1") auto
  show "rx_ring_invar s \<Longrightarrow> rx_ring_invar (fst (rx_ring_query s))" for s
    using rx_ring_get_simps [of s] by (cases "rx_ring_content s") auto
qed (use rx_ring_put_simps rx_ring_get_simps in auto)

lemma tx_ring_put_simps:
  assumes "tx_ring_invar ring"
  shows "length (tx_ring_content ring) < MAX_PHL_RING_ENTRY_NUM - 1 \<Longrightarrow>
           snd (tx_ring_put ring p) \<and> tx_ring_invar (fst (tx_ring_put ring p)) \<and>
           tx_ring_content (fst (tx_ring_put ring p)) = tx_ring_content ring @ [p]"
    and "MAX_PHL_RING_ENTRY_NUM - 1 \<le> length (tx_ring_content ring) \<Longrightarrow>
           tx_ring_put ring p = (ring, False)"
proof -
  have b: "tx_phl_idx ring < MAX_PHL_RING_ENTRY_NUM" "tx_core_idx ring < MAX_PHL_RING_ENTRY_NUM"
    using assms by (auto simp: tx_ring_invar_def)
  {
    assume "length (tx_ring_content ring) < MAX_PHL_RING_ENTRY_NUM - 1"
    then have room: "(tx_core_idx ring + 1) mod MAX_PHL_RING_ENTRY_NUM \<noteq> tx_phl_idx ring"
      by (simp only: length_tx_ring_content ring_full_iff [OF b])
    show "snd (tx_ring_put ring p) \<and> tx_ring_invar (fst (tx_ring_put ring p)) \<and>
           tx_ring_content (fst (tx_ring_put ring p)) = tx_ring_content ring @ [p]"
      using assms b room
      by (simp add: tx_ring_put_def tx_ring_add_eq Let_def tx_ring_invar_def tx_ring_content_def
          ring_slice_push [OF b room, simplified])
  next
    assume "MAX_PHL_RING_ENTRY_NUM - 1 \<le> length (tx_ring_content ring)"
    moreover have "length (tx_ring_content ring) < MAX_PHL_RING_ENTRY_NUM"
      by (simp add: length_tx_ring_content)
    ultimately have "(tx_core_idx ring + 1) mod MAX_PHL_RING_ENTRY_NUM = tx_phl_idx ring"
      by (simp only: length_tx_ring_content ring_full_iff [OF b])
    then show "tx_ring_put ring p = (ring, False)"
      using b by (simp add: tx_ring_put_def tx_ring_add_eq)
  }
qed

lemma tx_ring_get_simps:
  assumes "tx_ring_invar ring"
  shows "tx_ring_content ring = y # ys \<Longrightarrow>
           snd (tx_ring_take ring) = Some y \<and> tx_ring_invar (fst (tx_ring_take ring)) \<and>
           tx_ring_content (fst (tx_ring_take ring)) = ys"
    and "tx_ring_content ring = [] \<Longrightarrow> tx_ring_take ring = (ring, None)"
proof -
  have b: "tx_phl_idx ring < MAX_PHL_RING_ENTRY_NUM" "tx_core_idx ring < MAX_PHL_RING_ENTRY_NUM"
    using assms by (auto simp: tx_ring_invar_def)
  {
    assume c: "tx_ring_content ring = y # ys"
    then have ne: "tx_phl_idx ring \<noteq> tx_core_idx ring"
      using b by (auto simp: tx_ring_content_def)
    show "snd (tx_ring_take ring) = Some y \<and> tx_ring_invar (fst (tx_ring_take ring)) \<and>
           tx_ring_content (fst (tx_ring_take ring)) = ys"
      using assms b c ne
      by (auto simp: tx_ring_take_eq [OF b(1)] Let_def tx_ring_invar_def tx_ring_content_def
          ring_slice_pop [OF b ne, simplified])
  next
    assume "tx_ring_content ring = []"
    then show "tx_ring_take ring = (ring, None)"
      using b by (simp add: tx_ring_content_def ring_slice_nil_iff tx_ring_take_eq)
  }
qed

interpretation tx_ring: bounded_fifo tx_ring_content tx_ring_invar
  "MAX_PHL_RING_ENTRY_NUM - 1" tx_ring_put tx_ring_take
proof unfold_locales
  show "tx_ring_invar s \<Longrightarrow> tx_ring_invar (fst (tx_ring_put s x))" for s x
    using tx_ring_put_simps [of s x] by (cases "length (tx_ring_content s) < MAX_PHL_RING_ENTRY_NUM - 1") auto
  show "tx_ring_invar s \<Longrightarrow> tx_ring_invar (fst (tx_ring_take s))" for s
    using tx_ring_get_simps [of s] by (cases "tx_ring_content s") auto
qed (use tx_ring_put_simps tx_ring_get_simps in auto)

section \<open>What the consumers of the rings get\<close>

text \<open>
  C29: Whatever way the PHL producer and the core consumer interleave on the receive ring, the
  packets the core gets, followed by those still in the ring, are the packets of the start
  followed by the accepted ones, in order: none is lost, repeated or reordered.
\<close>

theorem rx_ring_fifo:
  assumes "rx_ring_invar ring" and "fifo_run rx_ring_put rx_ring_query ring ops = (ring', acc, got)"
  shows "rx_ring_content ring @ acc = got @ rx_ring_content ring' \<and> rx_ring_invar ring'"
  using assms by (rule rx_ring.run_order)

theorem rx_ring_fifo_witness:
  "\<exists>ring' acc got.
     fifo_run rx_ring_put rx_ring_query rx_ring_init [Put 7, Put 8, Get, Get, Get] = (ring', acc, got) \<and>
     [] @ acc = got @ rx_ring_content ring' \<and> rx_ring_invar ring'"
proof -
  obtain ring' acc got where
    e: "fifo_run rx_ring_put rx_ring_query rx_ring_init [Put 7, Put 8, Get, Get, Get] = (ring', acc, got)"
    using prod_cases3 by blast
  from rx_ring_fifo [OF rx_ring_invar_init [THEN conjunct1] e] show ?thesis
    using e by (auto simp: rx_ring_invar_init)
qed

text \<open>The receive ring accepts a packet unless it already holds 4095: the slot that tells a
  full ring from an empty one is the only capacity it gives up, and a refused packet leaves
  the ring unchanged.
\<close>

lemma rx_ring_capacity:
  assumes "rx_ring_invar ring" and "phl_add_rx_pkt ring p = (ring', status)"
  shows "length (rx_ring_content ring) \<le> 4095 \<and>
    (if length (rx_ring_content ring) < 4095
     then status \<noteq> RTW_PHL_STATUS_RESOURCE \<and> rx_ring_content ring' = rx_ring_content ring @ [p]
     else status = RTW_PHL_STATUS_RESOURCE \<and> ring' = ring)"
proof -
  have put: "rx_ring_put ring p = (ring', status \<noteq> RTW_PHL_STATUS_RESOURCE)"
    using assms(2) by (simp add: rx_ring_put_def)
  have n: "MAX_PHL_RING_ENTRY_NUM - 1 = 4095" by (simp add: MAX_PHL_RING_ENTRY_NUM_def)
  have "length (rx_ring_content ring) < 4096"
    using ring_size_pos by (simp add: length_rx_ring_content MAX_PHL_RING_ENTRY_NUM_def)
  then show ?thesis
    using rx_ring_put_simps [OF assms(1), of p] put unfolding n by (auto simp: not_less)
qed

end
