(* ===== verification/Phl_Tring.thy ===== *)
theory Phl_Tring
  imports Phl_Ring
begin

text \<open>
  The transmit rings of the stations, \<^verbatim>\<open>phl/phl_tx.c\<close>: registration and deferred release of
  a station's ring list, the pool of ring-status objects, the transmit plan of a station,
  the flow control that orders the rings of all stations for transmission, and the request
  interface of the core.

  A ring status points to a ring; the model identifies the ring by the MAC id of its ring
  list and its TID. The pool object it lives in is \<open>rs_obj\<close>. The result of
  \<^verbatim>\<open>_os_kmem_alloc\<close> and the channel mapping of \<^verbatim>\<open>rtw_hal_tx_chnl_mapping\<close> are arguments.
\<close>

section \<open>State\<close>

definition MAX_PHL_RING_CAT_NUM :: nat where "MAX_PHL_RING_CAT_NUM = 10"
definition MAX_PHL_RING_STATUS_NUMBER :: nat where "MAX_PHL_RING_STATUS_NUMBER = 64"
definition RTW_PHL_RING_CAT_MGNT :: nat where "RTW_PHL_RING_CAT_MGNT = 8"
definition RTW_PHL_RING_CAT_HIQ :: nat where "RTW_PHL_RING_CAT_HIQ = 9"

record phl_ring_status =
  rs_obj :: ptr
  rs_macid :: nat
  rs_band :: nat
  rs_wmm :: nat
  rs_port :: nat
  rs_req_busy :: nat
  rs_tid :: nat

record phl_tx_plan =
  tp_sleep :: bool
  tp_has_mgnt :: bool
  tp_has_hiq :: bool
  tp_sorted_ring :: "phl_ring_status list"

record rtw_phl_tring_list =
  tl_macid :: nat
  tl_band :: nat
  tl_wmm :: nat
  tl_port :: nat
  tl_phl_ring :: "rtw_phl_tx_ring list"
  tl_tx_plan :: phl_tx_plan

record tx_st =
  t_ring_list :: "rtw_phl_tring_list list"
  t_ring_free_list :: "rtw_phl_tring_list list"
  t_fctrl_result :: "phl_ring_status list"
  ring_sts_idle :: "ptr list"
  phl_sw_tx_more :: bool
  tx_recycled :: "ptr list"

section \<open>Ring lists\<close>

text \<open>
  The loop of \<^verbatim>\<open>_phl_free_phl_tring_list\<close> over one ring, on a local copy of the read
  pointer; it has no bound of its own.
\<close>

partial_function (option) drain_ring :: "rtw_phl_tx_ring \<Rightarrow> ptr list option" where
  "drain_ring ring =
     (case tx_ring_take ring of
        (ring', None) \<Rightarrow> Some []
      | (ring', Some tx_req) \<Rightarrow> Option.bind (drain_ring ring') (\<lambda>reqs. Some (tx_req # reqs)))"

fun drain_rings :: "rtw_phl_tx_ring list \<Rightarrow> ptr list option" where
  "drain_rings [] = Some []"
| "drain_rings (ring # rings) =
     (case drain_ring ring of None \<Rightarrow> None
      | Some reqs \<Rightarrow> map_option (\<lambda>rest. reqs @ rest) (drain_rings rings))"

text \<open>The requests handed to the core's \<^verbatim>\<open>tx_recycle\<close>.\<close>

definition phl_free_phl_tring_list :: "rtw_phl_tring_list \<Rightarrow> ptr list option" where
  "phl_free_phl_tring_list ring_list = drain_rings (tl_phl_ring ring_list)"

definition phl_init_tx_plan :: phl_tx_plan where
  "phl_init_tx_plan =
     \<lparr>tp_sleep = False, tp_has_mgnt = False, tp_has_hiq = False, tp_sorted_ring = []\<rparr>"

definition phl_allocate_phl_tring_list ::
  "bool \<Rightarrow> (nat \<Rightarrow> nat) \<Rightarrow> nat \<Rightarrow> nat \<Rightarrow> nat \<Rightarrow> nat \<Rightarrow> rtw_phl_tring_list option" where
  "phl_allocate_phl_tring_list alloc_ok chnl_mapping macid hw_band hw_wmm hw_port =
     (if alloc_ok then
        Some \<lparr>tl_macid = macid, tl_band = hw_band, tl_wmm = hw_wmm, tl_port = hw_port,
              tl_phl_ring =
                map (\<lambda>i. \<lparr>tx_tid = i, tx_dma_ch = chnl_mapping i, tx_core_idx = 0,
                          tx_phl_idx = 0, tx_phl_next_idx = 0, tx_entry = (\<lambda>_. None)\<rparr>)
                    [0..<MAX_PHL_RING_CAT_NUM],
              tl_tx_plan = phl_init_tx_plan\<rparr>
      else None)"

definition phl_register_tx_ring ::
  "bool \<Rightarrow> (nat \<Rightarrow> nat) \<Rightarrow> nat \<Rightarrow> nat \<Rightarrow> nat \<Rightarrow> nat \<Rightarrow> tx_st \<Rightarrow> tx_st \<times> rtw_phl_status" where
  "phl_register_tx_ring alloc_ok chnl_mapping macid hw_band hw_wmm hw_port st =
     (case phl_allocate_phl_tring_list alloc_ok chnl_mapping macid hw_band hw_wmm hw_port of
        Some trl \<Rightarrow> (st\<lparr>t_ring_list := t_ring_list st @ [trl]\<rparr>, RTW_PHL_STATUS_SUCCESS)
      | None \<Rightarrow> (st, RTW_PHL_STATUS_FAILURE))"

text \<open>The first ring list of a MAC id, and the list without it.\<close>

fun take_tring :: "nat \<Rightarrow> rtw_phl_tring_list list
    \<Rightarrow> (rtw_phl_tring_list \<times> rtw_phl_tring_list list) option" where
  "take_tring macid [] = None"
| "take_tring macid (t # ts) =
     (if macid = tl_macid t then Some (t, ts)
      else map_option (\<lambda>(x, rest). (x, t # rest)) (take_tring macid ts))"

definition phl_deregister_tx_ring :: "nat \<Rightarrow> tx_st \<Rightarrow> tx_st \<times> rtw_phl_status" where
  "phl_deregister_tx_ring macid st =
     (case take_tring macid (t_ring_list st) of
        None \<Rightarrow> (st, RTW_PHL_STATUS_FAILURE)
      | Some (t, rest) \<Rightarrow>
          (st\<lparr>t_ring_list := rest, t_ring_free_list := t_ring_free_list st @ [t]\<rparr>,
           RTW_PHL_STATUS_SUCCESS))"

fun free_trings :: "rtw_phl_tring_list list \<Rightarrow> ptr list option" where
  "free_trings [] = Some []"
| "free_trings (t # ts) =
     (case phl_free_phl_tring_list t of None \<Rightarrow> None
      | Some reqs \<Rightarrow> map_option (\<lambda>rest. reqs @ rest) (free_trings ts))"

definition phl_free_deferred_tx_ring :: "tx_st \<Rightarrow> tx_st option" where
  "phl_free_deferred_tx_ring st =
     map_option (\<lambda>reqs. st\<lparr>t_ring_free_list := [], tx_recycled := tx_recycled st @ reqs\<rparr>)
       (free_trings (t_ring_free_list st))"

section \<open>The ring-status pool\<close>

definition phl_alloc_ring_sts :: "ptr list \<Rightarrow> ptr list \<times> ptr option" where
  "phl_alloc_ring_sts idle_list =
     (case idle_list of [] \<Rightarrow> ([], None) | x # xs \<Rightarrow> (xs, Some x))"

definition phl_release_ring_sts :: "ptr list \<Rightarrow> ptr \<Rightarrow> ptr list" where
  "phl_release_ring_sts idle_list obj = idle_list @ [obj]"

definition phl_ring_status_init :: "bool \<Rightarrow> tx_st \<Rightarrow> tx_st \<times> rtw_phl_status" where
  "phl_ring_status_init alloc_ok st =
     (if alloc_ok then
        (st\<lparr>ring_sts_idle := [0..<MAX_PHL_RING_STATUS_NUMBER]\<rparr>, RTW_PHL_STATUS_SUCCESS)
      else (st, RTW_PHL_STATUS_FAILURE))"

interpretation ring_sts_pool: object_pool "\<lambda>s. s" "\<lambda>_. True" phl_alloc_ring_sts phl_release_ring_sts
  by unfold_locales (auto simp: phl_alloc_ring_sts_def phl_release_ring_sts_def)

section \<open>Transmit plans\<close>

text \<open>
  \<^verbatim>\<open>_phl_check_ring_status\<close> returns the ring (its next index is set), the idle list and
  the ring status, which is NULL when there is nothing to send or no status object.
\<close>

definition phl_check_ring_status ::
  "ptr list \<Rightarrow> rtw_phl_tring_list \<Rightarrow> rtw_phl_tx_ring
     \<Rightarrow> ptr list \<times> rtw_phl_tx_ring \<times> phl_ring_status option" where
  "phl_check_ring_status idle_list trl ring =
     (let rptr = to_u16 (int (tx_phl_idx ring));
          avail = phl_calc_avail_rptr rptr (tx_core_idx ring) MAX_PHL_RING_ENTRY_NUM
      in if avail = 0 then (idle_list, ring, None)
         else
           case phl_alloc_ring_sts idle_list of
             (idle', None) \<Rightarrow> (idle', ring, None)
           | (idle', Some obj) \<Rightarrow>
               let rptr1 = to_u16 (int rptr + 1) in
               (idle',
                ring\<lparr>tx_phl_next_idx := (if rptr1 \<ge> MAX_PHL_RING_ENTRY_NUM then 0 else rptr1)\<rparr>,
                Some \<lparr>rs_obj = obj, rs_macid = tl_macid trl, rs_band = tl_band trl,
                      rs_wmm = tl_wmm trl, rs_port = tl_port trl, rs_req_busy = avail,
                      rs_tid = tx_tid ring\<rparr>))"

definition phl_reset_tx_plan :: "ptr list \<Rightarrow> phl_tx_plan \<Rightarrow> ptr list \<times> phl_tx_plan" where
  "phl_reset_tx_plan idle_list plan =
     (fold (\<lambda>rs i. phl_release_ring_sts i (rs_obj rs)) (tp_sorted_ring plan) idle_list,
      plan\<lparr>tp_sleep := False, tp_has_mgnt := False, tp_has_hiq := False, tp_sorted_ring := []\<rparr>)"

definition phl_sort_ring_by_tid :: "phl_ring_status \<Rightarrow> nat \<Rightarrow> phl_tx_plan \<Rightarrow> phl_tx_plan" where
  "phl_sort_ring_by_tid ring_sts cat plan =
     (let l = tp_sorted_ring plan in
      if rs_tid ring_sts = 1 then plan\<lparr>tp_sorted_ring := l @ [ring_sts]\<rparr>
      else if rs_tid ring_sts = 2 then
        (if l = [] then plan\<lparr>tp_sorted_ring := [ring_sts]\<rparr>
         else if rs_tid (last l) = 1
         then plan\<lparr>tp_sorted_ring := butlast l @ [ring_sts, last l]\<rparr>
         else plan\<lparr>tp_sorted_ring := l @ [ring_sts]\<rparr>)
      else
        let plan1 = plan\<lparr>tp_sorted_ring := ring_sts # l\<rparr> in
        if cat = RTW_PHL_RING_CAT_MGNT then plan1\<lparr>tp_has_mgnt := True\<rparr>
        else if cat = RTW_PHL_RING_CAT_HIQ then plan1\<lparr>tp_has_hiq := True\<rparr>
        else plan1)"

fun check_rings ::
  "nat list \<Rightarrow> ptr list \<Rightarrow> rtw_phl_tring_list \<Rightarrow> ptr list \<times> rtw_phl_tring_list" where
  "check_rings [] idle_list trl = (idle_list, trl)"
| "check_rings (i # is) idle_list trl =
     (case phl_check_ring_status idle_list trl (tl_phl_ring trl ! i) of
        (idle', ring', None) \<Rightarrow>
          check_rings is idle' (trl\<lparr>tl_phl_ring := (tl_phl_ring trl)[i := ring']\<rparr>)
      | (idle', ring', Some ring_sts) \<Rightarrow>
          check_rings is idle'
            (trl\<lparr>tl_phl_ring := (tl_phl_ring trl)[i := ring'],
                tl_tx_plan := phl_sort_ring_by_tid ring_sts i (tl_tx_plan trl)\<rparr>))"

text \<open>The flag is whether the plan is put on the station list.\<close>

definition phl_check_tring_list ::
  "ptr list \<Rightarrow> rtw_phl_tring_list \<Rightarrow> ptr list \<times> rtw_phl_tring_list \<times> bool" where
  "phl_check_tring_list idle_list trl =
     (case check_rings [0..<MAX_PHL_RING_CAT_NUM] idle_list trl of
        (idle', tl') \<Rightarrow> (idle', tl', tp_sorted_ring (tl_tx_plan tl') \<noteq> []))"

fun check_tring_lists ::
  "ptr list \<Rightarrow> rtw_phl_tring_list list \<Rightarrow> ptr list \<times> rtw_phl_tring_list list \<times> bool list" where
  "check_tring_lists idle_list [] = (idle_list, [], [])"
| "check_tring_lists idle_list (trl # ts) =
     (case phl_check_tring_list idle_list trl of
        (idle1, tl', b) \<Rightarrow>
          case check_tring_lists idle1 ts of
            (idle2, ts', bs) \<Rightarrow> (idle2, tl' # ts', b # bs))"

text \<open>
  The station list is the list of the ring lists whose plan is on it; the plans themselves
  stay in the ring lists, so the flow control below works on these ring lists.
\<close>

definition phl_check_xmit_ring_resource :: "tx_st \<Rightarrow> tx_st \<times> bool list \<times> bool" where
  "phl_check_xmit_ring_resource st =
     (case check_tring_lists (ring_sts_idle st) (t_ring_list st) of
        (idle', ts', bs) \<Rightarrow>
          (st\<lparr>ring_sts_idle := idle', t_ring_list := ts', phl_sw_tx_more := False\<rparr>,
           bs, True \<in> set bs))"

section \<open>Flow control\<close>

text \<open>
  The result list and, per TID, the status object that was put there last; a ring of a TID
  already present goes right behind it, a new TID at the tail.
\<close>

fun insert_after :: "ptr \<Rightarrow> phl_ring_status \<Rightarrow> phl_ring_status list \<Rightarrow> phl_ring_status list" where
  "insert_after obj x [] = []"
| "insert_after obj x (y # ys) =
     (if rs_obj y = obj then y # x # ys else y # insert_after obj x ys)"

fun place_rings ::
  "phl_ring_status list \<Rightarrow> phl_ring_status list \<times> (nat \<Rightarrow> ptr option)
     \<Rightarrow> phl_ring_status list \<times> (nat \<Rightarrow> ptr option)" where
  "place_rings [] acc = acc"
| "place_rings (r # rs) (res, tid_entry) =
     place_rings rs
       ((case tid_entry (rs_tid r) of
           None \<Rightarrow> res @ [r]
         | Some obj \<Rightarrow> insert_after obj r res),
        tid_entry(rs_tid r := Some (rs_obj r)))"

text \<open>The first ring of a plan goes to the head of the result.\<close>

definition promote_first ::
  "bool \<Rightarrow> phl_ring_status list \<times> phl_ring_status list
     \<Rightarrow> phl_ring_status list \<times> phl_ring_status list" where
  "promote_first flag rr =
     (case rr of (rings, res) \<Rightarrow>
        if flag then (tl rings, hd rings # res) else (rings, res))"

definition flow_plan ::
  "phl_tx_plan \<Rightarrow> phl_ring_status list \<times> (nat \<Rightarrow> ptr option) \<times> ptr list
     \<Rightarrow> phl_tx_plan \<times> phl_ring_status list \<times> (nat \<Rightarrow> ptr option) \<times> ptr list" where
  "flow_plan plan acc =
     (case acc of (res, tid_entry, idle_list) \<Rightarrow>
        if tp_sleep plan then
          (case phl_reset_tx_plan idle_list plan of
             (idle', plan') \<Rightarrow> (plan', res, tid_entry, idle'))
        else
          case promote_first (tp_has_hiq plan) (tp_sorted_ring plan, res) of
            (rings1, res1) \<Rightarrow>
          case promote_first (tp_has_mgnt plan) (rings1, res1) of
            (rings2, res2) \<Rightarrow>
          case place_rings rings2 (res2, tid_entry) of
            (res3, tid_entry3) \<Rightarrow>
          case phl_reset_tx_plan idle_list (plan\<lparr>tp_sorted_ring := []\<rparr>) of
            (idle', plan') \<Rightarrow> (plan', res3, tid_entry3, idle'))"

fun flow_plans ::
  "(rtw_phl_tring_list \<times> bool) list \<Rightarrow> phl_ring_status list \<times> (nat \<Rightarrow> ptr option) \<times> ptr list
     \<Rightarrow> rtw_phl_tring_list list \<times> phl_ring_status list \<times> (nat \<Rightarrow> ptr option) \<times> ptr list" where
  "flow_plans [] acc = ([], acc)"
| "flow_plans ((trl, on_list) # ts) acc =
     (if on_list then
        case flow_plan (tl_tx_plan trl) acc of
          (plan', acc') \<Rightarrow>
            (case flow_plans ts acc' of (ts', acc2) \<Rightarrow> (trl\<lparr>tl_tx_plan := plan'\<rparr> # ts', acc2))
      else
        case flow_plans ts acc of (ts', acc2) \<Rightarrow> (trl # ts', acc2))"

definition phl_tx_flow_ctrl :: "bool list \<Rightarrow> tx_st \<Rightarrow> tx_st" where
  "phl_tx_flow_ctrl sta_list st =
     (case flow_plans (zip (t_ring_list st) sta_list)
             (t_fctrl_result st, (\<lambda>_. None), ring_sts_idle st) of
        (ts', res, tid_entry, idle') \<Rightarrow>
          st\<lparr>t_ring_list := ts', t_fctrl_result := res, ring_sts_idle := idle'\<rparr>)"

section \<open>Requests of the core\<close>

fun add_to_tring ::
  "nat \<Rightarrow> nat \<Rightarrow> ptr \<Rightarrow> rtw_phl_tring_list list \<Rightarrow> (rtw_phl_tring_list list \<times> rtw_phl_status) option" where
  "add_to_tring macid tid tx_req [] = None"
| "add_to_tring macid tid tx_req (t # ts) =
     (if macid = tl_macid t then
        (case tx_ring_add (tl_phl_ring t ! tid) tx_req of
           (ring', status) \<Rightarrow>
             Some (t\<lparr>tl_phl_ring := (tl_phl_ring t)[tid := ring']\<rparr> # ts, status))
      else map_option (\<lambda>(ts', status). (t # ts', status)) (add_to_tring macid tid tx_req ts))"

text \<open>
  \<^verbatim>\<open>rtw_phl_add_tx_req\<close>; the statistics it updates on success are \<^verbatim>\<open>Phl_Stats\<close>'s, the flag
  says that they are updated.
\<close>

definition rtw_phl_add_tx_req ::
  "nat \<Rightarrow> nat \<Rightarrow> ptr \<Rightarrow> tx_st \<Rightarrow> tx_st \<times> rtw_phl_status \<times> bool" where
  "rtw_phl_add_tx_req macid tid tx_req st =
     (case add_to_tring macid tid tx_req (t_ring_list st) of
        None \<Rightarrow> (st, RTW_PHL_STATUS_FAILURE, False)
      | Some (ts, status) \<Rightarrow>
          (if status = RTW_PHL_STATUS_SUCCESS
           then (st\<lparr>t_ring_list := ts, phl_sw_tx_more := True\<rparr>, status, True)
           else (st, status, False)))"

definition rtw_phl_tring_rsc :: "nat \<Rightarrow> nat \<Rightarrow> tx_st \<Rightarrow> nat" where
  "rtw_phl_tring_rsc macid tid st =
     (case take_tring macid (t_ring_list st) of
        None \<Rightarrow> 0
      | Some (t, rest) \<Rightarrow>
          let ring = tl_phl_ring t ! tid in
          phl_calc_avail_rptr (to_u16 (int (tx_phl_idx ring))) (tx_core_idx ring)
            MAX_PHL_RING_ENTRY_NUM)"

section \<open>Draining a ring\<close>

lemma drain_ring_content:
  "tx_ring_invar ring \<Longrightarrow> drain_ring ring = Some (tx_ring_content ring)"
proof (induction "tx_ring_content ring" arbitrary: ring)
  case Nil
  then have "tx_ring_take ring = (ring, None)" using tx_ring_get_simps(2) [of ring] by simp
  then show ?case using Nil by (subst drain_ring.simps) simp
next
  case (Cons y ys)
  obtain ring' where t: "tx_ring_take ring = (ring', Some y)" "tx_ring_invar ring'"
      "tx_ring_content ring' = ys"
    using tx_ring_get_simps(1) [OF Cons.prems Cons.hyps(2) [symmetric]]
    by (metis prod.collapse)
  have "drain_ring ring' = Some ys" using Cons.hyps(1) [of ring'] t by simp
  then show ?case using t(1) Cons.hyps(2) by (subst drain_ring.simps) simp
qed

definition tring_inv :: "rtw_phl_tring_list \<Rightarrow> bool" where
  "tring_inv t \<longleftrightarrow> length (tl_phl_ring t) = MAX_PHL_RING_CAT_NUM \<and>
     (\<forall>i<MAX_PHL_RING_CAT_NUM. tx_ring_invar (tl_phl_ring t ! i) \<and> tx_tid (tl_phl_ring t ! i) = i)"

definition tring_content :: "rtw_phl_tring_list \<Rightarrow> ptr list" where
  "tring_content t = concat (map tx_ring_content (tl_phl_ring t))"

definition tx_inv :: "tx_st \<Rightarrow> bool" where
  "tx_inv st \<longleftrightarrow> (\<forall>t\<in>set (t_ring_list st) \<union> set (t_ring_free_list st). tring_inv t)"

definition pending_reqs :: "tx_st \<Rightarrow> ptr multiset" where
  "pending_reqs st =
     mset (concat (map tring_content (t_ring_list st))) +
     mset (concat (map tring_content (t_ring_free_list st)))"

lemma drain_rings_content:
  "\<forall>ring\<in>set rings. tx_ring_invar ring \<Longrightarrow> drain_rings rings = Some (concat (map tx_ring_content rings))"
  by (induction rings) (simp_all add: drain_ring_content)

lemma free_tring_content: "tring_inv t \<Longrightarrow> phl_free_phl_tring_list t = Some (tring_content t)"
  unfolding phl_free_phl_tring_list_def tring_content_def tring_inv_def
  by (rule drain_rings_content) (auto simp: in_set_conv_nth)

lemma free_trings_content:
  "\<forall>t\<in>set ts. tring_inv t \<Longrightarrow> free_trings ts = Some (concat (map tring_content ts))"
  by (induction ts) (simp_all add: free_tring_content)

lemma take_tring_split:
  "take_tring macid ts = Some (t, rest) \<Longrightarrow>
     tl_macid t = macid \<and> (\<exists>as bs. ts = as @ t # bs \<and> rest = as @ bs \<and> (\<forall>a\<in>set as. tl_macid a \<noteq> macid))"
proof (induction ts arbitrary: rest)
  case (Cons x xs)
  show ?case
  proof (cases "macid = tl_macid x")
    case True
    with Cons.prems show ?thesis by (auto intro: exI [of _ "[]"])
  next
    case False
    with Cons.prems obtain r where r: "take_tring macid xs = Some (t, r)" "rest = x # r" by auto
    from Cons.IH [OF r(1)] obtain as bs where "tl_macid t = macid" "xs = as @ t # bs" "r = as @ bs"
      "\<forall>a\<in>set as. tl_macid a \<noteq> macid" by blast
    with False r(2) show ?thesis by (intro conjI exI [of _ "x # as"] exI [of _ bs]) auto
  qed
qed simp

lemma fresh_tring_inv:
  "phl_allocate_phl_tring_list ok f m b w p = Some t \<Longrightarrow> tring_inv t \<and> tring_content t = [] \<and> tl_macid t = m"
  by (auto simp: phl_allocate_phl_tring_list_def tring_inv_def tring_content_def tx_ring_invar_def
      tx_ring_content_def ring_slice_def split: if_splits)

text \<open>A station's rings can be registered, deregistered and, later, freed without losing a
  transmit request: registration adds no request, deregistration only moves the rings to
  the deferred list (and fails exactly when the MAC id has none), and the deferred free
  ends and hands every pending request of those rings back to the core.
\<close>

lemma deferred_free_recycles:
  assumes "tx_inv st"
  shows "\<exists>st'. phl_free_deferred_tx_ring (fst (phl_deregister_tx_ring macid st)) = Some st' \<and>
     tx_inv st' \<and> t_ring_free_list st' = [] \<and>
     mset (tx_recycled st') + pending_reqs st' = mset (tx_recycled st) + pending_reqs st \<and>
     (snd (phl_deregister_tx_ring macid st) = RTW_PHL_STATUS_FAILURE \<longleftrightarrow>
        macid \<notin> tl_macid ` set (t_ring_list st))"
proof -
  let ?d = "fst (phl_deregister_tx_ring macid st)"
  have none: "take_tring macid ts = None \<longleftrightarrow> macid \<notin> tl_macid ` set ts" for ts
    by (induction ts) auto
  have d: "tx_inv ?d \<and> pending_reqs ?d = pending_reqs st \<and> tx_recycled ?d = tx_recycled st"
  proof (cases "take_tring macid (t_ring_list st)")
    case None
    then show ?thesis using assms by (simp add: phl_deregister_tx_ring_def)
  next
    case (Some tr)
    obtain t rest where tr: "take_tring macid (t_ring_list st) = Some (t, rest)" using Some by (cases tr) auto
    from take_tring_split [OF tr] obtain as bs
      where "t_ring_list st = as @ t # bs" "rest = as @ bs" by blast
    then show ?thesis using assms tr
      by (auto simp: phl_deregister_tx_ring_def tx_inv_def pending_reqs_def)
  qed
  then have "free_trings (t_ring_free_list ?d) = Some (concat (map tring_content (t_ring_free_list ?d)))"
    by (intro free_trings_content) (simp add: tx_inv_def)
  then obtain st' where st': "phl_free_deferred_tx_ring ?d = Some st'"
    "st' = ?d\<lparr>t_ring_free_list := [],
             tx_recycled := tx_recycled ?d @ concat (map tring_content (t_ring_free_list ?d))\<rparr>"
    by (simp add: phl_free_deferred_tx_ring_def)
  have "mset (tx_recycled st') + pending_reqs st' = mset (tx_recycled ?d) + pending_reqs ?d"
    by (simp add: st'(2) pending_reqs_def)
  moreover have "tx_inv st'" "t_ring_free_list st' = []"
    using d by (simp_all add: st'(2) tx_inv_def)
  moreover have "snd (phl_deregister_tx_ring macid st) = RTW_PHL_STATUS_FAILURE \<longleftrightarrow>
      macid \<notin> tl_macid ` set (t_ring_list st)"
    using none [of "t_ring_list st"] by (auto simp: phl_deregister_tx_ring_def split: option.splits)
  ultimately show ?thesis using st'(1) d by simp
qed

definition tx_st_init :: tx_st where
  "tx_st_init = \<lparr>t_ring_list = [], t_ring_free_list = [], t_fctrl_result = [],
     ring_sts_idle = [0..<MAX_PHL_RING_STATUS_NUMBER], phl_sw_tx_more = False, tx_recycled = []\<rparr>"

definition ex_tx :: tx_st where
  "ex_tx = fst (phl_register_tx_ring True id 3 0 0 0 tx_st_init)"

lemma register_inv:
  "tx_inv st \<Longrightarrow> tx_inv (fst (phl_register_tx_ring ok f m b w p st))"
  by (auto simp: phl_register_tx_ring_def tx_inv_def dest: fresh_tring_inv split: option.splits)

lemma ex_tx_inv: "tx_inv ex_tx"
  unfolding ex_tx_def by (rule register_inv) (simp add: tx_inv_def tx_st_init_def)

section \<open>The order of a transmit plan\<close>

definition tid_insert :: "nat \<Rightarrow> nat list \<Rightarrow> nat list" where
  "tid_insert t l =
     (if t = 1 then l @ [t]
      else if t = 2 then (if l \<noteq> [] \<and> last l = 1 then butlast l @ [t, last l] else l @ [t])
      else t # l)"

text \<open>The order of precedence: the high and management queues, then the TIDs by access category.\<close>

definition tid_order :: "nat list" where
  "tid_order = [9, 8, 7, 6, 5, 4, 3, 0, 2, 1]"

lemma sort_ring_tids:
  "map rs_tid (tp_sorted_ring (phl_sort_ring_by_tid r cat plan)) =
     tid_insert (rs_tid r) (map rs_tid (tp_sorted_ring plan))"
  by (auto simp: phl_sort_ring_by_tid_def Let_def tid_insert_def last_map map_butlast)

lemma tid_insert_order:
  "fold tid_insert (filter ne [0..<10]) [] = filter ne tid_order"
proof -
  have e: "[0..<10] = [0, 1, 2] @ [3, 4, 5, 6, 7, 8, 9 :: nat]" by (simp add: upt_rec)
  have big: "fold tid_insert (filter ne [3, 4, 5, 6, 7, 8, 9]) l =
      filter ne [9, 8, 7, 6, 5, 4, 3] @ l" for l
  proof -
    have "fold tid_insert xs l = rev xs @ l" if "\<forall>x\<in>set xs. 2 < x" for xs l
      using that by (induction xs arbitrary: l) (auto simp: tid_insert_def)
    from this [of "filter ne [3, 4, 5, 6, 7, 8, 9]"] show ?thesis by (simp add: rev_filter)
  qed
  have small: "fold tid_insert (filter ne [0, 1, 2]) [] = filter ne [0, 2, 1]"
    by (simp add: tid_insert_def)
  have "fold tid_insert (filter ne [0..<10]) [] =
      fold tid_insert (filter ne [3, 4, 5, 6, 7, 8, 9]) (fold tid_insert (filter ne [0, 1, 2]) [])"
    unfolding e filter_append fold_append by simp
  also have "\<dots> = filter ne [9, 8, 7, 6, 5, 4, 3] @ filter ne [0, 2, 1]"
    unfolding small big by simp
  also have "\<dots> = filter ne tid_order" unfolding filter_append [symmetric] by (simp add: tid_order_def)
  finally show ?thesis .
qed

definition ring_busy :: "rtw_phl_tring_list \<Rightarrow> nat \<Rightarrow> bool" where
  "ring_busy t i \<longleftrightarrow> tx_ring_content (tl_phl_ring t ! i) \<noteq> []"

lemma avail_zero_iff:
  assumes "tx_ring_invar ring"
  shows "phl_calc_avail_rptr (to_u16 (int (tx_phl_idx ring))) (tx_core_idx ring) MAX_PHL_RING_ENTRY_NUM
       = length (tx_ring_content ring)"
proof -
  have b: "tx_phl_idx ring < MAX_PHL_RING_ENTRY_NUM" "tx_core_idx ring < MAX_PHL_RING_ENTRY_NUM"
    using assms by (simp_all add: tx_ring_invar_def)
  show ?thesis unfolding ring_idx_u16 [OF b(1)] avail_rptr_eq [OF b] length_tx_ring_content ..
qed

lemma next_idx_irrelevant:
  "tx_ring_content (ring\<lparr>tx_phl_next_idx := x\<rparr>) = tx_ring_content ring"
  "tx_ring_invar (ring\<lparr>tx_phl_next_idx := x\<rparr>) = tx_ring_invar ring"
  by (simp_all add: tx_ring_content_def tx_ring_invar_def)

lemma check_ring_idle:
  assumes "tx_ring_invar ring" and "tx_ring_content ring = []"
  shows "phl_check_ring_status idle_list t ring = (idle_list, ring, None)"
  using assms by (simp add: phl_check_ring_status_def Let_def avail_zero_iff)

lemma check_ring_busy:
  assumes "tx_ring_invar ring" and "tx_ring_content ring \<noteq> []"
  shows "\<exists>n. phl_check_ring_status (obj # idle_list) t ring =
     (idle_list, ring\<lparr>tx_phl_next_idx := n\<rparr>,
      Some \<lparr>rs_obj = obj, rs_macid = tl_macid t, rs_band = tl_band t, rs_wmm = tl_wmm t,
            rs_port = tl_port t, rs_req_busy = length (tx_ring_content ring), rs_tid = tx_tid ring\<rparr>)"
  using assms by (auto simp: phl_check_ring_status_def Let_def avail_zero_iff phl_alloc_ring_sts_def)

lemma sort_flags:
  "tp_has_hiq (phl_sort_ring_by_tid r cat plan) \<longleftrightarrow>
     tp_has_hiq plan \<or> (rs_tid r \<notin> {1, 2} \<and> cat = RTW_PHL_RING_CAT_HIQ)"
  "tp_has_mgnt (phl_sort_ring_by_tid r cat plan) \<longleftrightarrow>
     tp_has_mgnt plan \<or> (rs_tid r \<notin> {1, 2} \<and> cat = RTW_PHL_RING_CAT_MGNT)"
  by (auto simp: phl_sort_ring_by_tid_def Let_def RTW_PHL_RING_CAT_MGNT_def RTW_PHL_RING_CAT_HIQ_def)

text \<open>The plan after the rings \<open>is\<close> were looked at.\<close>

definition plan_after :: "nat list \<Rightarrow> (nat \<Rightarrow> bool) \<Rightarrow> phl_tx_plan \<Rightarrow> phl_tx_plan \<Rightarrow> bool" where
  "plan_after is ne plan plan' \<longleftrightarrow>
     map rs_tid (tp_sorted_ring plan') = fold tid_insert (filter ne is) (map rs_tid (tp_sorted_ring plan)) \<and>
     (tp_has_hiq plan' \<longleftrightarrow> tp_has_hiq plan \<or> 9 \<in> set is \<and> ne 9) \<and>
     (tp_has_mgnt plan' \<longleftrightarrow> tp_has_mgnt plan \<or> 8 \<in> set is \<and> ne 8) \<and>
     tp_sleep plan' = tp_sleep plan"

lemma sort_sleep: "tp_sleep (phl_sort_ring_by_tid r cat plan) = tp_sleep plan"
  by (simp add: phl_sort_ring_by_tid_def Let_def)

lemma plan_after_Cons:
  assumes "plan_after is ne (phl_sort_ring_by_tid r i plan) plan'" and "rs_tid r = i" and "ne i"
  shows "plan_after (i # is) ne plan plan'"
  using assms
  by (auto simp: plan_after_def sort_ring_tids sort_flags sort_sleep
      RTW_PHL_RING_CAT_MGNT_def RTW_PHL_RING_CAT_HIQ_def)

lemma plan_after_cong:
  assumes "\<And>j. j \<in> set is \<Longrightarrow> ne j = ne' j" and "plan_after is ne plan plan'"
  shows "plan_after is ne' plan plan'"
proof -
  have "filter ne is = filter ne' is" using assms(1) by (rule filter_cong [OF refl])
  then show ?thesis using assms by (auto simp: plan_after_def)
qed

lemma check_rings_plan:
  "tring_inv t \<Longrightarrow> set is \<subseteq> {..<10} \<Longrightarrow> length (filter (ring_busy t) is) \<le> length idle_list \<Longrightarrow>
   check_rings is idle_list t = (idle', t') \<Longrightarrow>
     tring_inv t' \<and> tring_content t' = tring_content t \<and> plan_after is (ring_busy t) (tl_tx_plan t) (tl_tx_plan t')"
proof (induction "is" arbitrary: idle_list t)
  case Nil
  then show ?case by (simp add: plan_after_def)
next
  case (Cons i "is")
  let ?ring = "tl_phl_ring t ! i"
  have len: "length (tl_phl_ring t) = 10" and i: "i < 10"
    and ring: "tx_ring_invar ?ring" "tx_tid ?ring = i"
    using Cons.prems(1,2) by (auto simp: tring_inv_def MAX_PHL_RING_CAT_NUM_def)
  show ?case
  proof (cases "ring_busy t i")
    case False
    then have "phl_check_ring_status idle_list t ?ring = (idle_list, ?ring, None)"
      by (intro check_ring_idle ring) (simp add: ring_busy_def)
    then have c: "check_rings is idle_list t = (idle', t')"
      using Cons.prems(4) by simp
    have "length (filter (ring_busy t) is) \<le> length idle_list" using Cons.prems(3) False by simp
    from Cons.IH [OF Cons.prems(1) _ this c] Cons.prems(2) False show ?thesis
      by (auto simp: plan_after_def)
  next
    case True
    then obtain obj idle1 where idle: "idle_list = obj # idle1" using Cons.prems(3) by (cases idle_list) auto
    from check_ring_busy [OF ring(1), of obj idle1 t] True obtain n where
      st: "phl_check_ring_status idle_list t ?ring = (idle1, ?ring\<lparr>tx_phl_next_idx := n\<rparr>,
        Some \<lparr>rs_obj = obj, rs_macid = tl_macid t, rs_band = tl_band t, rs_wmm = tl_wmm t,
            rs_port = tl_port t, rs_req_busy = length (tx_ring_content ?ring), rs_tid = i\<rparr>)"
      (is "_ = (_, ?ring', Some ?rs)")
      using ring(2) idle by (auto simp: ring_busy_def)
    let ?t1 = "t\<lparr>tl_phl_ring := (tl_phl_ring t)[i := ?ring'],
                 tl_tx_plan := phl_sort_ring_by_tid ?rs i (tl_tx_plan t)\<rparr>"
    have c: "check_rings is idle1 ?t1 = (idle', t')" using Cons.prems(4) st by simp
    have cont: "map tx_ring_content ((tl_phl_ring t)[i := ?ring']) = map tx_ring_content (tl_phl_ring t)"
      using i len by (intro nth_equalityI) (auto simp: nth_list_update next_idx_irrelevant)
    have inv1: "tring_inv ?t1" using Cons.prems(1) i
      by (auto simp: tring_inv_def MAX_PHL_RING_CAT_NUM_def nth_list_update next_idx_irrelevant)
    have busy1: "ring_busy ?t1 j = ring_busy t j" if "j < 10" for j
      using that len i by (cases "j = i") (simp_all add: ring_busy_def next_idx_irrelevant)
    have f: "filter (ring_busy ?t1) is = filter (ring_busy t) is"
      using busy1 Cons.prems(2) by (intro filter_cong) auto
    have "length (filter (ring_busy ?t1) is) \<le> length idle1" using Cons.prems(3) True idle f by simp
    from Cons.IH [OF inv1 _ this c] Cons.prems(2)
    have IH: "tring_inv t'" "tring_content t' = tring_content ?t1"
      "plan_after is (ring_busy ?t1) (tl_tx_plan ?t1) (tl_tx_plan t')" by auto
    have "tring_content ?t1 = tring_content t" using cont by (simp add: tring_content_def)
    moreover have "plan_after (i # is) (ring_busy t) (tl_tx_plan t) (tl_tx_plan t')"
    proof (rule plan_after_Cons)
      have eq: "ring_busy ?t1 j = ring_busy t j" if "j \<in> set is" for j
        using that Cons.prems(2) by (intro busy1) auto
      have "plan_after is (ring_busy ?t1) (phl_sort_ring_by_tid ?rs i (tl_tx_plan t)) (tl_tx_plan t')"
        using IH(3) by simp
      with eq show "plan_after is (ring_busy t) (phl_sort_ring_by_tid ?rs i (tl_tx_plan t)) (tl_tx_plan t')"
        by (rule plan_after_cong)
    qed (use True in simp_all)
    ultimately show ?thesis using IH(1,2) by simp
  qed
qed

text \<open>The plan of a station lists exactly its rings with pending requests, ordered by
  precedence (high queue, management, voice, video, best effort, background), flags the
  high and management queue, and looking at the rings does not change their requests.
\<close>

lemma tx_plan_by_precedence:
  assumes "tring_inv t" and "tl_tx_plan t = phl_init_tx_plan" and "10 \<le> length idle_list"
    and "phl_check_tring_list idle_list t = (idle', t', on_list)"
  shows "map rs_tid (tp_sorted_ring (tl_tx_plan t')) = filter (ring_busy t) [9, 8, 7, 6, 5, 4, 3, 0, 2, 1] \<and>
     (tp_has_hiq (tl_tx_plan t') \<longleftrightarrow> ring_busy t 9) \<and> (tp_has_mgnt (tl_tx_plan t') \<longleftrightarrow> ring_busy t 8) \<and>
     (on_list \<longleftrightarrow> tring_content t \<noteq> []) \<and> tring_content t' = tring_content t"
proof -
  have c: "check_rings [0..<10] idle_list t = (idle', t')"
    and on: "on_list \<longleftrightarrow> tp_sorted_ring (tl_tx_plan t') \<noteq> []"
    using assms(4) by (auto simp: phl_check_tring_list_def MAX_PHL_RING_CAT_NUM_def split: prod.splits)
  have "length (filter (ring_busy t) [0..<10]) \<le> 10" using length_filter_le [of _ "[0..<10]"] by simp
  then have "length (filter (ring_busy t) [0..<10]) \<le> length idle_list" using assms(3) by linarith
  moreover have "set [0..<10] \<subseteq> {..<10::nat}" by auto
  ultimately have p: "plan_after [0..<10] (ring_busy t) (tl_tx_plan t) (tl_tx_plan t')" "tring_content t' = tring_content t"
    using check_rings_plan [OF assms(1) _ _ c] by blast+
  then have tids: "map rs_tid (tp_sorted_ring (tl_tx_plan t')) = filter (ring_busy t) tid_order"
    by (simp add: plan_after_def assms(2) phl_init_tx_plan_def tid_insert_order)
  have len: "length (tl_phl_ring t) = 10" using assms(1) by (simp add: tring_inv_def MAX_PHL_RING_CAT_NUM_def)
  have "tring_content t \<noteq> [] \<longleftrightarrow> (\<exists>i<10. ring_busy t i)"
    using len by (force simp: tring_content_def ring_busy_def in_set_conv_nth)
  also have "\<dots> \<longleftrightarrow> filter (ring_busy t) tid_order \<noteq> []"
  proof -
    have "{..<10} = set tid_order" by (simp add: tid_order_def numeral_eq_Suc lessThan_Suc insert_commute)
    then have "(\<exists>i<10. ring_busy t i) \<longleftrightarrow> (\<exists>i\<in>set tid_order. ring_busy t i)" by auto
    then show ?thesis by (auto simp: filter_empty_conv)
  qed
  finally have "on_list \<longleftrightarrow> tring_content t \<noteq> []" using on tids by (metis map_is_Nil_conv)
  then show ?thesis using p tids by (simp add: plan_after_def assms(2) phl_init_tx_plan_def tid_order_def)
qed


section \<open>Adding a request\<close>

lemma tx_ring_add_cases:
  assumes "tx_ring_invar ring" and "tx_ring_add ring req = (ring', status)"
  shows "if length (tx_ring_content ring) < MAX_PHL_RING_ENTRY_NUM - 1
     then status = RTW_PHL_STATUS_SUCCESS \<and> tx_ring_invar ring' \<and>
          tx_ring_content ring' = tx_ring_content ring @ [req] \<and> tx_tid ring' = tx_tid ring
     else status = RTW_PHL_STATUS_RESOURCE \<and> ring' = ring"
proof -
  have put: "tx_ring_put ring req = (ring', status = RTW_PHL_STATUS_SUCCESS)"
    using assms(2) by (simp add: tx_ring_put_def)
  have "tx_tid ring' = tx_tid ring \<and> status \<in> {RTW_PHL_STATUS_SUCCESS, RTW_PHL_STATUS_RESOURCE}"
    using assms(2) by (auto simp: tx_ring_add_def Let_def split: if_splits)
  then show ?thesis
    using tx_ring_put_simps [OF assms(1), of req] put by (auto simp: not_less)
qed

lemma add_to_tring_first:
  "\<forall>a\<in>set as. tl_macid a \<noteq> macid \<Longrightarrow> tl_macid t = macid \<Longrightarrow>
   add_to_tring macid tid req (as @ t # bs) =
     (case tx_ring_add (tl_phl_ring t ! tid) req of (ring', status) \<Rightarrow>
        Some (as @ t\<lparr>tl_phl_ring := (tl_phl_ring t)[tid := ring']\<rparr> # bs, status))"
  by (induction as) (auto split: prod.splits)

text \<open>A request of the core is appended to the ring of its MAC id and TID and to no other,
  the scheduler is told that there is more to send, and when the ring is full the request is
  refused with RESOURCE and nothing changes.
\<close>

lemma add_tx_req_appends:
  assumes "tx_inv st" and "tid < MAX_PHL_RING_CAT_NUM"
    and "t_ring_list st = as @ t # bs" and "tl_macid t = macid" and "\<forall>a\<in>set as. tl_macid a \<noteq> macid"
    and "rtw_phl_add_tx_req macid tid req st = (st', status, stats)"
  shows "tx_inv st' \<and>
    (if length (tx_ring_content (tl_phl_ring t ! tid)) < MAX_PHL_RING_ENTRY_NUM - 1
     then status = RTW_PHL_STATUS_SUCCESS \<and> stats \<and> phl_sw_tx_more st' \<and>
       (\<exists>t'. t_ring_list st' = as @ t' # bs \<and> tl_macid t' = macid \<and>
          tx_ring_content (tl_phl_ring t' ! tid) = tx_ring_content (tl_phl_ring t ! tid) @ [req] \<and>
          (\<forall>j. j \<noteq> tid \<longrightarrow> tl_phl_ring t' ! j = tl_phl_ring t ! j))
     else status = RTW_PHL_STATUS_RESOURCE \<and> \<not> stats \<and> st' = st)"
proof -
  obtain ring' s where r: "tx_ring_add (tl_phl_ring t ! tid) req = (ring', s)" by fastforce
  have ti: "tring_inv t" using assms(1,3) by (simp add: tx_inv_def)
  then have inv: "tx_ring_invar (tl_phl_ring t ! tid)" and len: "length (tl_phl_ring t) = MAX_PHL_RING_CAT_NUM"
    using assms(2) by (simp_all add: tring_inv_def)
  let ?t' = "t\<lparr>tl_phl_ring := (tl_phl_ring t)[tid := ring']\<rparr>"
  have a: "add_to_tring macid tid req (t_ring_list st) = Some (as @ ?t' # bs, s)"
    unfolding assms(3) add_to_tring_first [OF assms(5,4)] r by simp
  note c = tx_ring_add_cases [OF inv r]
  show ?thesis
  proof (cases "length (tx_ring_content (tl_phl_ring t ! tid)) < MAX_PHL_RING_ENTRY_NUM - 1")
    case True
    with c have s: "s = RTW_PHL_STATUS_SUCCESS" "tx_ring_invar ring'" "tx_tid ring' = tx_tid (tl_phl_ring t ! tid)"
      "tx_ring_content ring' = tx_ring_content (tl_phl_ring t ! tid) @ [req]" by simp_all
    then have st': "st' = st\<lparr>t_ring_list := as @ ?t' # bs, phl_sw_tx_more := True\<rparr>" "status = s" "stats"
      using assms(6) a by (simp_all add: rtw_phl_add_tx_req_def)
    have "tring_inv ?t'" using ti s assms(2) by (auto simp: tring_inv_def nth_list_update)
    then have "tx_inv st'" using assms(1,3) by (auto simp: tx_inv_def st')
    moreover have "\<exists>t'. t_ring_list st' = as @ t' # bs \<and> tl_macid t' = macid \<and>
          tx_ring_content (tl_phl_ring t' ! tid) = tx_ring_content (tl_phl_ring t ! tid) @ [req] \<and>
          (\<forall>j. j \<noteq> tid \<longrightarrow> tl_phl_ring t' ! j = tl_phl_ring t ! j)"
      by (rule exI [of _ ?t']) (simp add: st' s assms(2,4) len)
    ultimately show ?thesis using True s(1) st' by simp
  next
    case False
    with c have "s = RTW_PHL_STATUS_RESOURCE" by simp
    then have "st' = st \<and> status = RTW_PHL_STATUS_RESOURCE \<and> \<not> stats"
      using assms(6) a by (simp add: rtw_phl_add_tx_req_def)
    then show ?thesis using False assms(1) by simp
  qed
qed

definition ex_ring_list :: rtw_phl_tring_list where
  "ex_ring_list = hd (t_ring_list ex_tx)"

lemma add_to_tring_inv:
  "\<forall>t\<in>set ts. tring_inv t \<Longrightarrow> tid < MAX_PHL_RING_CAT_NUM \<Longrightarrow>
   add_to_tring macid tid req ts = Some (ts', status) \<Longrightarrow> \<forall>t\<in>set ts'. tring_inv t"
proof (induction ts arbitrary: ts')
  case (Cons t ts)
  show ?case
  proof (cases "macid = tl_macid t")
    case True
    obtain ring' s where r: "tx_ring_add (tl_phl_ring t ! tid) req = (ring', s)" by fastforce
    have "tx_ring_invar (tl_phl_ring t ! tid)" using Cons.prems by (simp add: tring_inv_def)
    from tx_ring_add_cases [OF this r] have "tx_ring_invar ring' \<and> tx_tid ring' = tx_tid (tl_phl_ring t ! tid)"
      using \<open>tx_ring_invar (tl_phl_ring t ! tid)\<close> by (auto split: if_splits)
    then show ?thesis using Cons.prems True r by (auto simp: tring_inv_def nth_list_update)
  next
    case False
    with Cons show ?thesis by (auto split: prod.splits)
  qed
qed simp

section \<open>Conservation by the flow control\<close>

definition entries_ok :: "(nat \<Rightarrow> ptr option) \<Rightarrow> phl_ring_status list \<Rightarrow> bool" where
  "entries_ok tid_entry res \<longleftrightarrow> (\<forall>k obj. tid_entry k = Some obj \<longrightarrow> obj \<in> rs_obj ` set res)"

text \<open>A plan flagged for the high or management queue holds a ring for each flag.\<close>

definition plan_ok :: "phl_tx_plan \<Rightarrow> bool" where
  "plan_ok plan \<longleftrightarrow>
     (if tp_has_hiq plan then 1 else 0) + (if tp_has_mgnt plan then 1 else 0)
       \<le> length (tp_sorted_ring plan)"

lemma insert_after_mset:
  "obj \<in> rs_obj ` set res \<Longrightarrow> mset (insert_after obj x res) = add_mset x (mset res)"
  by (induction res) auto

lemma place_rings_mset:
  "entries_ok te res \<Longrightarrow> place_rings rs (res, te) = (res', te') \<Longrightarrow>
     mset res' = mset res + mset rs \<and> entries_ok te' res'"
proof (induction rs arbitrary: res te)
  case (Cons r rs)
  let ?res1 = "case te (rs_tid r) of None \<Rightarrow> res @ [r] | Some obj \<Rightarrow> insert_after obj r res"
  have m: "mset ?res1 = add_mset r (mset res)"
    using Cons.prems(1) by (auto simp: entries_ok_def insert_after_mset split: option.splits)
  then have "set ?res1 = insert r (set res)" by (metis set_mset_add_mset_insert set_mset_mset)
  then have "entries_ok (te(rs_tid r := Some (rs_obj r))) ?res1"
    using Cons.prems(1) by (auto simp: entries_ok_def)
  moreover have "place_rings rs (?res1, te(rs_tid r := Some (rs_obj r))) = (res', te')"
    using Cons.prems(2) by simp
  ultimately have "mset res' = mset ?res1 + mset rs \<and> entries_ok te' res'" by (rule Cons.IH)
  then show ?case unfolding m by simp
qed simp

lemma promote_first_mset:
  assumes "promote_first flag (rings, res) = (rings', res')" and "(if flag then 1 else 0) \<le> length rings"
  shows "mset rings' + mset res' = mset rings + mset res \<and> set res \<subseteq> set res' \<and>
     length rings' + (if flag then 1 else 0) = length rings"
  using assms by (cases rings) (auto simp: promote_first_def split: if_splits)

lemma release_fold_mset:
  "mset (fold (\<lambda>rs i. phl_release_ring_sts i (rs_obj rs)) l idle) = mset idle + image_mset rs_obj (mset l)"
  by (induction l arbitrary: idle) (auto simp: phl_release_ring_sts_def)

lemma flow_plan_mset:
  assumes "plan_ok plan" and "entries_ok te res" and "flow_plan plan (res, te, idle) = (plan', res', te', idle')"
  shows "entries_ok te' res' \<and> plan' = phl_init_tx_plan \<and>
     mset res' = mset res + (if tp_sleep plan then {#} else mset (tp_sorted_ring plan)) \<and>
     mset idle' + image_mset rs_obj (mset res') =
       mset idle + image_mset rs_obj (mset res + mset (tp_sorted_ring plan))"
proof (cases "tp_sleep plan")
  case True
  with assms show ?thesis
    by (auto simp: flow_plan_def phl_reset_tx_plan_def release_fold_mset phl_init_tx_plan_def)
next
  case False
  obtain rings1 res1 where p1: "promote_first (tp_has_hiq plan) (tp_sorted_ring plan, res) = (rings1, res1)"
    by fastforce
  obtain rings2 res2 where p2: "promote_first (tp_has_mgnt plan) (rings1, res1) = (rings2, res2)" by fastforce
  obtain res3 te3 where p3: "place_rings rings2 (res2, te) = (res3, te3)" by fastforce
  have "(if tp_has_hiq plan then 1 else 0) \<le> length (tp_sorted_ring plan)" using assms(1) by (auto simp: plan_ok_def)
  note m1 = promote_first_mset [OF p1 this]
  have "(if tp_has_mgnt plan then 1 else 0) \<le> length rings1" using assms(1) m1 by (auto simp: plan_ok_def)
  note m2 = promote_first_mset [OF p2 this]
  have "entries_ok te res2" using assms(2) m1 m2 by (fastforce simp: entries_ok_def)
  note m3 = place_rings_mset [OF this p3]
  have r: "res' = res3" "te' = te3" "idle' = idle" "plan' = phl_init_tx_plan"
    using assms(3) False p1 p2 p3 by (auto simp: flow_plan_def phl_reset_tx_plan_def phl_init_tx_plan_def)
  have "mset res3 = mset res + mset (tp_sorted_ring plan)" using m1 m2 m3 by (metis union_commute)
  then show ?thesis using False m3 r by simp
qed

text \<open>The rings the flow control puts on the result, and the plans it leaves alone.\<close>

definition planned :: "(rtw_phl_tring_list \<times> bool) list \<Rightarrow> phl_ring_status list" where
  "planned ts = concat (map (\<lambda>(t, on). if on \<and> \<not> tp_sleep (tl_tx_plan t)
                                        then tp_sorted_ring (tl_tx_plan t) else []) ts)"

definition on_plans :: "(rtw_phl_tring_list \<times> bool) list \<Rightarrow> phl_ring_status list" where
  "on_plans ts = concat (map (\<lambda>(t, on). if on then tp_sorted_ring (tl_tx_plan t) else []) ts)"

lemma flow_plans_mset:
  "\<forall>(t, on)\<in>set ts. plan_ok (tl_tx_plan t) \<Longrightarrow> entries_ok te res \<Longrightarrow>
   flow_plans ts (res, te, idle) = (ts', res', te', idle') \<Longrightarrow>
     mset res' = mset res + mset (planned ts) \<and>
     mset idle' + image_mset rs_obj (mset res') = mset idle + image_mset rs_obj (mset res + mset (on_plans ts)) \<and>
     ts' = map (\<lambda>(t, on). if on then t\<lparr>tl_tx_plan := phl_init_tx_plan\<rparr> else t) ts"
proof (induction ts arbitrary: te res idle ts')
  case Nil
  then show ?case by (simp add: planned_def on_plans_def)
next
  case (Cons x ts)
  obtain t on where x: "x = (t, on)" by fastforce
  have ok: "plan_ok (tl_tx_plan t)" "\<forall>(t, on)\<in>set ts. plan_ok (tl_tx_plan t)" using Cons.prems(1) x by auto
  show ?case
  proof (cases on)
    case True
    obtain plan1 res1 te1 idle1 where f: "flow_plan (tl_tx_plan t) (res, te, idle) = (plan1, res1, te1, idle1)"
      using prod_cases4 by blast
    obtain ts1 where g: "flow_plans ts (res1, te1, idle1) = (ts1, res', te', idle')"
        and ts': "ts' = t\<lparr>tl_tx_plan := plan1\<rparr> # ts1"
      using Cons.prems(3) x True f by (auto split: prod.splits)
    note m = flow_plan_mset [OF ok(1) Cons.prems(2) f]
    from Cons.IH [OF ok(2) _ g] m have IH: "mset res' = mset res1 + mset (planned ts)"
      "mset idle' + image_mset rs_obj (mset res') = mset idle1 + image_mset rs_obj (mset res1 + mset (on_plans ts))"
      "ts1 = map (\<lambda>(t, on). if on then t\<lparr>tl_tx_plan := phl_init_tx_plan\<rparr> else t) ts" by auto
    have "planned (x # ts) = (if tp_sleep (tl_tx_plan t) then [] else tp_sorted_ring (tl_tx_plan t)) @ planned ts"
      "on_plans (x # ts) = tp_sorted_ring (tl_tx_plan t) @ on_plans ts"
      using True x by (simp_all add: planned_def on_plans_def)
    note on = this
    have m4: "mset idle1 + image_mset rs_obj (mset res1) =
        mset idle + image_mset rs_obj (mset res + mset (tp_sorted_ring (tl_tx_plan t)))" using m by blast
    have "mset res' = mset res + mset (planned (x # ts))" using IH(1) m on(1) by (simp add: union_assoc)
    moreover have "mset idle' + image_mset rs_obj (mset res') =
        mset idle + image_mset rs_obj (mset res + mset (on_plans (x # ts)))"
    proof -
      have "mset idle' + image_mset rs_obj (mset res') =
          (mset idle1 + image_mset rs_obj (mset res1)) + image_mset rs_obj (mset (on_plans ts))"
        using IH(2) by (simp only: image_mset_union union_assoc)
      then show ?thesis unfolding m4 on by (simp only: image_mset_union union_assoc mset_append)
    qed
    ultimately show ?thesis using IH(3) m True x ts' by simp
  next
    case False
    obtain ts1 where g: "flow_plans ts (res, te, idle) = (ts1, res', te', idle')" and ts': "ts' = t # ts1"
      using Cons.prems(3) x False by (auto split: prod.splits)
    have e: "planned (x # ts) = planned ts" "on_plans (x # ts) = on_plans ts"
      using False x by (simp_all add: planned_def on_plans_def)
    have IH: "mset res' = mset res + mset (planned ts)"
      "mset idle' + image_mset rs_obj (mset res') = mset idle + image_mset rs_obj (mset res + mset (on_plans ts))"
      "ts1 = map (\<lambda>(t, on). if on then t\<lparr>tl_tx_plan := phl_init_tx_plan\<rparr> else t) ts"
      using Cons.IH [OF ok(2) Cons.prems(2) g] by blast+
    have "ts' = map (\<lambda>(t, on). if on then t\<lparr>tl_tx_plan := phl_init_tx_plan\<rparr> else t) (x # ts)"
      by (simp add: IH(3) ts' x False)
    then show ?thesis unfolding e by (intro conjI IH(1,2))
  qed
qed

text \<open>
  C36: The flow control moves every ring of an awake station's plan to the result exactly once,
  returns the status objects of sleeping stations to the pool so that none is lost, and leaves
  every visited plan reset.
\<close>

theorem flow_ctrl_conserves:
  assumes "\<forall>t\<in>set (t_ring_list st). plan_ok (tl_tx_plan t)" and "length sta_list = length (t_ring_list st)"
  shows "mset (t_fctrl_result (phl_tx_flow_ctrl sta_list st)) =
           mset (t_fctrl_result st) + mset (planned (zip (t_ring_list st) sta_list)) \<and>
     mset (ring_sts_idle (phl_tx_flow_ctrl sta_list st)) +
           image_mset rs_obj (mset (t_fctrl_result (phl_tx_flow_ctrl sta_list st))) =
         mset (ring_sts_idle st) +
           image_mset rs_obj (mset (t_fctrl_result st) + mset (on_plans (zip (t_ring_list st) sta_list))) \<and>
     t_ring_list (phl_tx_flow_ctrl sta_list st) =
       map (\<lambda>(t, on). if on then t\<lparr>tl_tx_plan := phl_init_tx_plan\<rparr> else t) (zip (t_ring_list st) sta_list)"
proof -
  let ?ts = "zip (t_ring_list st) sta_list"
  obtain ts' res' te' idle' where f: "flow_plans ?ts (t_fctrl_result st, (\<lambda>_. None), ring_sts_idle st) = (ts', res', te', idle')"
    using prod_cases4 by blast
  have "\<forall>(t, on)\<in>set ?ts. plan_ok (tl_tx_plan t)" using assms(1) by (auto dest: set_zip_leftD)
  moreover have "entries_ok (\<lambda>_. None) (t_fctrl_result st)" by (simp add: entries_ok_def)
  moreover have e: "t_fctrl_result (phl_tx_flow_ctrl sta_list st) = res'"
    "ring_sts_idle (phl_tx_flow_ctrl sta_list st) = idle'" "t_ring_list (phl_tx_flow_ctrl sta_list st) = ts'"
    by (simp_all add: phl_tx_flow_ctrl_def f)
  ultimately show ?thesis unfolding e using flow_plans_mset [OF _ _ f] by blast
qed

definition ex_rs :: "ptr \<Rightarrow> nat \<Rightarrow> nat \<Rightarrow> phl_ring_status" where
  "ex_rs obj macid tid = \<lparr>rs_obj = obj, rs_macid = macid, rs_band = 0, rs_wmm = 0, rs_port = 0,
     rs_req_busy = 1, rs_tid = tid\<rparr>"

definition ex_planned :: tx_st where
  "ex_planned = tx_st_init\<lparr>ring_sts_idle := [5..<64], t_ring_list :=
     [ex_ring_list\<lparr>tl_macid := 0, tl_tx_plan := \<lparr>tp_sleep = False, tp_has_mgnt = False, tp_has_hiq = False,
        tp_sorted_ring = [ex_rs 0 0 5, ex_rs 1 0 1]\<rparr>\<rparr>,
      ex_ring_list\<lparr>tl_tx_plan := \<lparr>tp_sleep = False, tp_has_mgnt = False, tp_has_hiq = True,
        tp_sorted_ring = [ex_rs 2 3 9, ex_rs 3 3 5, ex_rs 4 3 0]\<rparr>\<rparr>]\<rparr>"

theorem flow_ctrl_conserves_witness:
  "mset (t_fctrl_result (phl_tx_flow_ctrl [True, True] ex_planned)) =
     mset (t_fctrl_result ex_planned) + mset (planned (zip (t_ring_list ex_planned) [True, True])) \<and>
   map rs_obj (t_fctrl_result (phl_tx_flow_ctrl [True, True] ex_planned)) = [2, 0, 3, 1, 4]"
proof -
  have "\<forall>t\<in>set (t_ring_list ex_planned). plan_ok (tl_tx_plan t)"
    "length [True, True] = length (t_ring_list ex_planned)"
    by (simp_all add: ex_planned_def plan_ok_def)
  moreover have "map rs_obj (t_fctrl_result (phl_tx_flow_ctrl [True, True] ex_planned)) = [2, 0, 3, 1, 4]"
    by (simp add: ex_planned_def phl_tx_flow_ctrl_def flow_plan_def promote_first_def phl_reset_tx_plan_def
        tx_st_init_def ex_rs_def)
  ultimately show ?thesis using flow_ctrl_conserves [of ex_planned "[True, True]"] by blast
qed

end
