(* ===== verification/Phl_Macid.thy ===== *)
theory Phl_Macid
  imports Phl_Prelude
begin

text \<open>
  MAC-id management of \<^verbatim>\<open>phl/phl_sta.c\<close>: the bit maps of used and broadcast MAC ids, the per-role
  bit maps, and the table from MAC ids to stations. A role is its index in
  \<^verbatim>\<open>phl_com->wifi_roles\<close>, which is its \<^verbatim>\<open>id\<close>; a station is the number of its
  \<^verbatim>\<open>struct rtw_phl_stainfo_t\<close>; a MAC address is the list of its six bytes.
\<close>

section \<open>State\<close>

definition PHL_MACID_MAX_ARRAY_NUM :: nat where "PHL_MACID_MAX_ARRAY_NUM = 8"
definition PHL_MACID_MAX_NUM :: nat where "PHL_MACID_MAX_NUM = 256"
definition MAX_WIFI_ROLE_NUMBER :: nat where "MAX_WIFI_ROLE_NUMBER = 5"

type_synonym macid_map = "u32 list"
type_synonym mac_addr = "nat list"

record macid_ctl_t =
  used_map :: macid_map
  bmc_map :: macid_map
  wifi_role_usedmap :: "macid_map list"
  wrole_bmc :: "nat list"
  mc_sta :: "ptr option list"
  max_num :: nat

definition is_broadcast_mac_addr :: "mac_addr \<Rightarrow> bool" where
  "is_broadcast_mac_addr addr \<longleftrightarrow> addr = replicate 6 0xff"

section \<open>Operations\<close>

definition phl_macid_ctrl_init :: "nat \<Rightarrow> macid_ctl_t \<Rightarrow> macid_ctl_t \<times> rtw_phl_status" where
  "phl_macid_ctrl_init hal_macid_num mc =
     (if hal_macid_num = 0 then (mc, RTW_PHL_STATUS_FAILURE)
      else let m = min hal_macid_num PHL_MACID_MAX_NUM
           in (mc\<lparr>max_num := m, wrole_bmc := replicate MAX_WIFI_ROLE_NUMBER m\<rparr>,
               RTW_PHL_STATUS_SUCCESS))"

definition phl_macid_ctrl_deinit :: "macid_ctl_t \<Rightarrow> macid_ctl_t \<times> rtw_phl_status" where
  "phl_macid_ctrl_deinit mc = (mc\<lparr>max_num := 0\<rparr>, RTW_PHL_STATUS_SUCCESS)"

definition phl_macid_is_used :: "macid_map \<Rightarrow> nat \<Rightarrow> bool" where
  "phl_macid_is_used m mid = (m ! (mid div 32) AND BIT (mid mod 32) \<noteq> 0)"

definition phl_macid_map_set :: "macid_map \<Rightarrow> nat \<Rightarrow> macid_map" where
  "phl_macid_map_set m mid = m[mid div 32 := m ! (mid div 32) OR BIT (mid mod 32)]"

definition phl_macid_map_clr :: "macid_map \<Rightarrow> nat \<Rightarrow> macid_map" where
  "phl_macid_map_clr m mid = m[mid div 32 := m ! (mid div 32) AND NOT (BIT (mid mod 32))]"

definition phl_wrole_bcmc_id_set :: "nat \<Rightarrow> nat \<Rightarrow> macid_ctl_t \<Rightarrow> macid_ctl_t" where
  "phl_wrole_bcmc_id_set wrole mid mc = mc\<lparr>wrole_bmc := (wrole_bmc mc)[wrole := mid]\<rparr>"

text \<open>The result is the table, the value assigned to \<^verbatim>\<open>phl_sta->macid\<close> if any, and the status.\<close>

definition phl_alloc_macid ::
  "nat option \<Rightarrow> mac_addr \<Rightarrow> ptr \<Rightarrow> macid_ctl_t \<Rightarrow> macid_ctl_t \<times> nat option \<times> rtw_phl_status" where
  "phl_alloc_macid wrole addr phl_sta mc =
     (case wrole of
        None \<Rightarrow> (mc, None, RTW_PHL_STATUS_FAILURE)
      | Some w \<Rightarrow>
          case find (\<lambda>mid. \<not> phl_macid_is_used (used_map mc) mid) [0..<max_num mc] of
            None \<Rightarrow> (mc, Some (max_num mc), RTW_PHL_STATUS_FAILURE)
          | Some mid \<Rightarrow>
              let mc1 = mc\<lparr>used_map := phl_macid_map_set (used_map mc) mid,
                           wifi_role_usedmap := (wifi_role_usedmap mc)
                             [w := phl_macid_map_set (wifi_role_usedmap mc ! w) mid],
                           mc_sta := (mc_sta mc)[mid := Some phl_sta]\<rparr>;
                  mc2 = (if is_broadcast_mac_addr addr
                         then phl_wrole_bcmc_id_set w mid
                                (mc1\<lparr>bmc_map := phl_macid_map_set (bmc_map mc1) mid\<rparr>)
                         else mc1)
              in (mc2, Some mid, RTW_PHL_STATUS_SUCCESS))"

text \<open>The station's MAC id becomes \<open>max_num\<close>, the invalid one, on every path.\<close>

definition phl_release_macid ::
  "nat \<Rightarrow> mac_addr \<Rightarrow> nat \<Rightarrow> macid_ctl_t \<Rightarrow> macid_ctl_t \<times> nat \<times> rtw_phl_status" where
  "phl_release_macid wrole addr macid mc =
     (if macid \<ge> max_num mc then (mc, max_num mc, RTW_PHL_STATUS_FAILURE)
      else if \<not> phl_macid_is_used (used_map mc) macid then (mc, max_num mc, RTW_PHL_STATUS_FAILURE)
      else
        let mc1 = mc\<lparr>used_map := phl_macid_map_clr (used_map mc) macid,
                     wifi_role_usedmap := (wifi_role_usedmap mc)
                       [wrole := phl_macid_map_clr (wifi_role_usedmap mc ! wrole) macid],
                     mc_sta := (mc_sta mc)[macid := None]\<rparr>;
            mc2 = (if is_broadcast_mac_addr addr
                   then mc1\<lparr>bmc_map := phl_macid_map_clr (bmc_map mc1) macid\<rparr> else mc1)
        in (mc2, max_num mc, RTW_PHL_STATUS_SUCCESS))"

definition rtw_phl_wrole_bcmc_id_get :: "nat \<Rightarrow> macid_ctl_t \<Rightarrow> nat" where
  "rtw_phl_wrole_bcmc_id_get wrole mc = wrole_bmc mc ! wrole"

definition rtw_phl_get_macid_max_num :: "macid_ctl_t \<Rightarrow> nat" where
  "rtw_phl_get_macid_max_num mc = max_num mc"

definition rtw_phl_macid_is_bmc :: "nat \<Rightarrow> macid_ctl_t \<Rightarrow> bool" where
  "rtw_phl_macid_is_bmc macid mc =
     (if macid \<ge> max_num mc then True else phl_macid_is_used (bmc_map mc) macid)"

definition rtw_phl_macid_is_used :: "nat \<Rightarrow> macid_ctl_t \<Rightarrow> bool" where
  "rtw_phl_macid_is_used macid mc =
     (if macid \<ge> max_num mc then True else phl_macid_is_used (used_map mc) macid)"

text \<open>The loops over the roles; the flag is whether \<^verbatim>\<open>iface_bmp\<close> is not zero.\<close>

fun shared_loop :: "nat \<Rightarrow> nat list \<Rightarrow> bool \<Rightarrow> macid_ctl_t \<Rightarrow> bool" where
  "shared_loop macid [] iface_bmp mc = False"
| "shared_loop macid (i # is) iface_bmp mc =
     (if phl_macid_is_used (wifi_role_usedmap mc ! i) macid
      then (if iface_bmp then True else shared_loop macid is True mc)
      else shared_loop macid is iface_bmp mc)"

definition rtw_phl_macid_is_wrole_shared :: "nat \<Rightarrow> macid_ctl_t \<Rightarrow> bool" where
  "rtw_phl_macid_is_wrole_shared macid mc =
     (if macid \<ge> max_num mc then False
      else shared_loop macid [0..<MAX_WIFI_ROLE_NUMBER] False mc)"

fun specific_loop :: "nat \<Rightarrow> nat \<Rightarrow> nat list \<Rightarrow> bool \<Rightarrow> macid_ctl_t \<Rightarrow> bool" where
  "specific_loop macid wrole [] iface_bmp mc = iface_bmp"
| "specific_loop macid wrole (i # is) iface_bmp mc =
     (if phl_macid_is_used (wifi_role_usedmap mc ! i) macid
      then (if iface_bmp \<or> i \<noteq> wrole then False else specific_loop macid wrole is True mc)
      else specific_loop macid wrole is iface_bmp mc)"

definition rtw_phl_macid_is_wrole_specific :: "nat \<Rightarrow> nat \<Rightarrow> macid_ctl_t \<Rightarrow> bool" where
  "rtw_phl_macid_is_wrole_specific macid wrole mc =
     (if macid \<ge> max_num mc then False
      else specific_loop macid wrole [0..<MAX_WIFI_ROLE_NUMBER] False mc)"

section \<open>Bit maps as sets\<close>

lemma is_used_bit: "phl_macid_is_used m mid \<longleftrightarrow> bit (m ! (mid div 32)) (mid mod 32)"
  by (simp add: phl_macid_is_used_def BIT_def bit_iff_and_push_bit_not_eq_0)

lemma same_id: "a div 32 = b div 32 \<Longrightarrow> a mod 32 = b mod 32 \<Longrightarrow> a = b" for a b :: nat
  by (metis div_mult_mod_eq)

lemma is_used_set [simp]:
  "a < 32 * length m \<Longrightarrow> phl_macid_is_used (phl_macid_map_set m a) b \<longleftrightarrow> b = a \<or> phl_macid_is_used m b"
  by (cases "a div 32 = b div 32")
    (auto simp: is_used_bit phl_macid_map_set_def bit_or_iff bit_BIT nth_list_update
      less_mult_imp_div_less mult.commute dest: same_id)

lemma is_used_clr [simp]:
  "a < 32 * length m \<Longrightarrow> phl_macid_is_used (phl_macid_map_clr m a) b \<longleftrightarrow> b \<noteq> a \<and> phl_macid_is_used m b"
  by (cases "a div 32 = b div 32")
    (auto simp: is_used_bit phl_macid_map_clr_def bit_and_iff bit_not_iff bit_BIT nth_list_update
      less_mult_imp_div_less mult.commute dest: same_id)

lemma length_map_set [simp]: "length (phl_macid_map_set m a) = length m"
  by (simp add: phl_macid_map_set_def)

lemma length_map_clr [simp]: "length (phl_macid_map_clr m a) = length m"
  by (simp add: phl_macid_map_clr_def)

text \<open>The MAC ids in use, those of a role, and the station of an id.\<close>

definition used_ids :: "macid_ctl_t \<Rightarrow> nat set" where
  "used_ids mc = {mid. mid < max_num mc \<and> phl_macid_is_used (used_map mc) mid}"

definition role_ids :: "macid_ctl_t \<Rightarrow> nat \<Rightarrow> nat set" where
  "role_ids mc w = {mid. mid < max_num mc \<and> phl_macid_is_used (wifi_role_usedmap mc ! w) mid}"

definition bmc_ids :: "macid_ctl_t \<Rightarrow> nat set" where
  "bmc_ids mc = {mid. mid < max_num mc \<and> phl_macid_is_used (bmc_map mc) mid}"

text \<open>
  The shape of the tables, and what they promise: an id is used exactly when it has a
  station, and the roles divide the used ids among them.
\<close>

definition macid_shape :: "macid_ctl_t \<Rightarrow> bool" where
  "macid_shape mc \<longleftrightarrow> max_num mc \<le> 256 \<and> length (used_map mc) = 8 \<and> length (bmc_map mc) = 8 \<and>
     length (wifi_role_usedmap mc) = 5 \<and> (\<forall>m\<in>set (wifi_role_usedmap mc). length m = 8) \<and>
     length (wrole_bmc mc) = 5 \<and> length (mc_sta mc) = 256"

definition macid_inv :: "macid_ctl_t \<Rightarrow> bool" where
  "macid_inv mc \<longleftrightarrow> macid_shape mc \<and>
     (\<forall>mid<max_num mc. mid \<in> used_ids mc \<longleftrightarrow> mc_sta mc ! mid \<noteq> None) \<and>
     used_ids mc = (\<Union>w<5. role_ids mc w) \<and>
     (\<forall>w<5. \<forall>v<5. w \<noteq> v \<longrightarrow> role_ids mc w \<inter> role_ids mc v = {})"

lemma find_least:
  "find P [0..<n] = Some k \<longleftrightarrow> k < n \<and> P k \<and> (\<forall>j<k. \<not> P j)"
  by (auto simp: find_Some_iff intro: exI [of _ k])

lemma alloc_finds:
  "find (\<lambda>mid. \<not> phl_macid_is_used (used_map mc) mid) [0..<max_num mc] = Some mid \<longleftrightarrow>
     mid < max_num mc \<and> mid \<notin> used_ids mc \<and> {..<mid} \<subseteq> used_ids mc"
  unfolding find_least by (auto simp: used_ids_def)

lemma alloc_finds_none:
  "find (\<lambda>mid. \<not> phl_macid_is_used (used_map mc) mid) [0..<max_num mc] = None \<longleftrightarrow>
     used_ids mc = {..<max_num mc}"
  by (auto simp: find_None_iff used_ids_def)

text \<open>What an allocation does to the abstract sets.\<close>

lemma alloc_sets:
  assumes "macid_shape mc" and "w < 5" and "mid < max_num mc"
    and "phl_alloc_macid (Some w) addr sta mc = (mc', Some mid, RTW_PHL_STATUS_SUCCESS)"
  shows "macid_shape mc' \<and> max_num mc' = max_num mc \<and> used_ids mc' = insert mid (used_ids mc) \<and>
     (\<forall>v<5. role_ids mc' v = (if v = w then insert mid (role_ids mc v) else role_ids mc v)) \<and>
     bmc_ids mc' = (if is_broadcast_mac_addr addr then insert mid (bmc_ids mc) else bmc_ids mc) \<and>
     mc_sta mc' = (mc_sta mc)[mid := Some sta] \<and>
     wrole_bmc mc' = (if is_broadcast_mac_addr addr then (wrole_bmc mc)[w := mid] else wrole_bmc mc)"
proof -
  have lens: "mid < 32 * length (used_map mc)" "mid < 32 * length (bmc_map mc)"
      "mid < 32 * length (wifi_role_usedmap mc ! w)"
    using assms(1-3) by (auto simp: macid_shape_def all_set_conv_all_nth)
  have "length (wifi_role_usedmap mc ! w) = 8" "length (wifi_role_usedmap mc) = 5"
    using assms(1,2) by (auto simp: macid_shape_def all_set_conv_all_nth)
  with lens assms show ?thesis
    by (auto simp: phl_alloc_macid_def Let_def phl_wrole_bcmc_id_set_def used_ids_def role_ids_def
        bmc_ids_def macid_shape_def nth_list_update set_update_subset_insert [THEN subsetD]
        dest!: set_update_subset_insert [THEN subsetD] split: option.splits if_splits)
qed

text \<open>What a release does to the abstract sets.\<close>

lemma release_sets:
  assumes "macid_shape mc" and "w < 5"
    and "phl_release_macid w addr mid mc = (mc', m', RTW_PHL_STATUS_SUCCESS)"
  shows "mid \<in> used_ids mc \<and> macid_shape mc' \<and> max_num mc' = max_num mc \<and> m' = max_num mc \<and>
     used_ids mc' = used_ids mc - {mid} \<and>
     (\<forall>v<5. role_ids mc' v = (if v = w then role_ids mc v - {mid} else role_ids mc v)) \<and>
     bmc_ids mc' = (if is_broadcast_mac_addr addr then bmc_ids mc - {mid} else bmc_ids mc) \<and>
     mc_sta mc' = (mc_sta mc)[mid := None] \<and> wrole_bmc mc' = wrole_bmc mc"
proof -
  have mid: "mid < max_num mc" using assms(3) by (auto simp: phl_release_macid_def split: if_splits)
  have lens: "mid < 32 * length (used_map mc)" "mid < 32 * length (bmc_map mc)"
      "mid < 32 * length (wifi_role_usedmap mc ! w)"
    using assms(1,2) mid by (auto simp: macid_shape_def all_set_conv_all_nth)
  have "length (wifi_role_usedmap mc ! w) = 8" "length (wifi_role_usedmap mc) = 5"
    using assms(1,2) by (auto simp: macid_shape_def all_set_conv_all_nth)
  with lens assms mid show ?thesis
    by (auto simp: phl_release_macid_def Let_def used_ids_def role_ids_def
        bmc_ids_def macid_shape_def nth_list_update
        dest!: set_update_subset_insert [THEN subsetD] split: if_splits)
qed

lemma alloc_cases:
  "phl_alloc_macid (Some w) addr sta mc = (mc', m, st) \<Longrightarrow>
     st = RTW_PHL_STATUS_SUCCESS \<and> (\<exists>mid. m = Some mid \<and> mid < max_num mc \<and> mid \<notin> used_ids mc \<and> {..<mid} \<subseteq> used_ids mc) \<or>
     st = RTW_PHL_STATUS_FAILURE \<and> mc' = mc \<and> m = Some (max_num mc) \<and> used_ids mc = {..<max_num mc}"
  by (auto simp: phl_alloc_macid_def Let_def alloc_finds alloc_finds_none split: option.splits)

section \<open>The allocator is correct\<close>

lemma alloc_inv:
  assumes "macid_inv mc" and "w < 5" and "mid < max_num mc" and "mid \<notin> used_ids mc"
    and "phl_alloc_macid (Some w) addr sta mc = (mc', Some mid, RTW_PHL_STATUS_SUCCESS)"
  shows "macid_inv mc'"
proof -
  have sh: "macid_shape mc" using assms(1) by (simp add: macid_inv_def)
  note a = alloc_sets [OF sh assms(2,3,5)]
  have len: "mid < length (mc_sta mc)" using sh assms(3) by (simp add: macid_shape_def)
  have fresh: "mid \<notin> role_ids mc v" if "v < 5" for v using assms(1,4) that by (auto simp: macid_inv_def)
  have "(\<Union>v<5. role_ids mc' v) = insert mid (\<Union>v<5. role_ids mc v)" using a assms(2) by auto
  moreover have "\<forall>i<max_num mc'. i \<in> used_ids mc' \<longleftrightarrow> mc_sta mc' ! i \<noteq> None"
    using a assms(1) len by (auto simp: macid_inv_def nth_list_update)
  moreover have "role_ids mc' v \<inter> role_ids mc' u = {}" if "v < 5" "u < 5" "v \<noteq> u" for v u
    using a assms(1) fresh that by (auto simp: macid_inv_def)
  ultimately show ?thesis using a assms(1) unfolding macid_inv_def by auto
qed

lemma release_inv:
  assumes "macid_inv mc" and "w < 5" and "mid \<in> role_ids mc w"
    and "phl_release_macid w addr mid mc = (mc', m', RTW_PHL_STATUS_SUCCESS)"
  shows "macid_inv mc'"
proof -
  have sh: "macid_shape mc" using assms(1) by (simp add: macid_inv_def)
  note a = release_sets [OF sh assms(2,4)]
  have mid: "mid < max_num mc" using assms(3) by (simp add: role_ids_def)
  then have len: "mid < length (mc_sta mc)" using sh by (simp add: macid_shape_def)
  have only: "mid \<notin> role_ids mc v" if "v < 5" "v \<noteq> w" for v
    using assms(1-3) that unfolding macid_inv_def by blast
  have "(\<Union>v<5. role_ids mc' v) = (\<Union>v<5. role_ids mc v) - {mid}"
  proof -
    have "role_ids mc' v = role_ids mc v - {mid}" if "v < 5" for v using a only [of v] that by auto
    then show ?thesis by auto
  qed
  moreover have "\<forall>i<max_num mc'. i \<in> used_ids mc' \<longleftrightarrow> mc_sta mc' ! i \<noteq> None"
    using a assms(1) len by (auto simp: macid_inv_def nth_list_update)
  moreover have "role_ids mc' v \<inter> role_ids mc' u = {}" if "v < 5" "u < 5" "v \<noteq> u" for v u
  proof -
    have "role_ids mc v \<inter> role_ids mc u = {}" using assms(1) that unfolding macid_inv_def by blast
    moreover have "role_ids mc' v \<subseteq> role_ids mc v" "role_ids mc' u \<subseteq> role_ids mc u" using a that by auto
    ultimately show ?thesis by blast
  qed
  ultimately show ?thesis using a assms(1) unfolding macid_inv_def by auto
qed

text \<open>Allocating a MAC id hands out the lowest id that is not in use, enters it for the
  station and its role, and keeps the tables consistent (used ids are those with a station,
  roles do not share ids); it fails, changing nothing, exactly when all ids are in use.
\<close>

lemma alloc_macid_lowest_free:
  assumes "macid_inv mc" and "w < MAX_WIFI_ROLE_NUMBER"
    and "phl_alloc_macid (Some w) addr sta mc = (mc', m, status)"
  shows "macid_inv mc' \<and>
    (if used_ids mc = {..<max_num mc}
     then status = RTW_PHL_STATUS_FAILURE \<and> mc' = mc \<and> m = Some (max_num mc)
     else status = RTW_PHL_STATUS_SUCCESS \<and>
       (\<exists>mid. m = Some mid \<and> mid < max_num mc \<and> mid \<notin> used_ids mc \<and> {..<mid} \<subseteq> used_ids mc \<and>
          used_ids mc' = insert mid (used_ids mc) \<and> role_ids mc' w = insert mid (role_ids mc w) \<and>
          mc_sta mc' ! mid = Some sta))"
proof (cases "used_ids mc = {..<max_num mc}")
  case True
  with alloc_cases [OF assms(3)] assms(1) show ?thesis by auto
next
  case False
  with alloc_cases [OF assms(3)] obtain mid where
    m: "m = Some mid" "mid < max_num mc" "mid \<notin> used_ids mc" "{..<mid} \<subseteq> used_ids mc" "status = RTW_PHL_STATUS_SUCCESS"
    by blast
  have w: "w < 5" using assms(2) by (simp add: MAX_WIFI_ROLE_NUMBER_def)
  have sh: "macid_shape mc" using assms(1) by (simp add: macid_inv_def)
  note e = assms(3) [unfolded m(1,5)]
  have "mid < length (mc_sta mc)" using sh m(2) by (simp add: macid_shape_def)
  then show ?thesis using False m w alloc_sets [OF sh w m(2) e] alloc_inv [OF assms(1) w m(2,3) e] by auto
qed

text \<open>Releasing a MAC id that its role holds makes it free again, clears its station and
  keeps the tables consistent; allocating it and releasing it at once gives back the same
  ids in use, per role and in total.
\<close>

lemma release_macid_inverts_alloc:
  assumes "macid_inv mc" and "w < MAX_WIFI_ROLE_NUMBER" and "used_ids mc \<noteq> {..<max_num mc}"
  shows "\<exists>mc1 mid mc2. phl_alloc_macid (Some w) addr sta mc = (mc1, Some mid, RTW_PHL_STATUS_SUCCESS) \<and>
     phl_release_macid w addr mid mc1 = (mc2, max_num mc, RTW_PHL_STATUS_SUCCESS) \<and>
     macid_inv mc2 \<and> used_ids mc2 = used_ids mc \<and> (\<forall>v<MAX_WIFI_ROLE_NUMBER. role_ids mc2 v = role_ids mc v) \<and>
     mc_sta mc2 = mc_sta mc"
proof -
  obtain mc1 m st where e0: "phl_alloc_macid (Some w) addr sta mc = (mc1, m, st)" using prod_cases3 by blast
  with alloc_cases [OF e0] assms(3) obtain mid where
    m: "m = Some mid" "mid < max_num mc" "mid \<notin> used_ids mc" "st = RTW_PHL_STATUS_SUCCESS" by blast
  have w: "w < 5" using assms(2) by (simp add: MAX_WIFI_ROLE_NUMBER_def)
  have sh: "macid_shape mc" using assms(1) by (simp add: macid_inv_def)
  note e = e0 [unfolded m(1,4)]
  note a = alloc_sets [OF sh w m(2) e] and inv1 = alloc_inv [OF assms(1) w m(2,3) e]
  have sh1: "macid_shape mc1" and mid1: "mid < max_num mc1" and u1: "mid \<in> used_ids mc1" using a m by auto
  obtain mc2 m2 st2 where r0: "phl_release_macid w addr mid mc1 = (mc2, m2, st2)" using prod_cases3 by blast
  then have "st2 = RTW_PHL_STATUS_SUCCESS"
    using mid1 u1 by (auto simp: phl_release_macid_def Let_def used_ids_def split: if_splits)
  then have r: "phl_release_macid w addr mid mc1 = (mc2, m2, RTW_PHL_STATUS_SUCCESS)" using r0 by simp
  note b = release_sets [OF sh1 w r]
  have fresh: "mid \<notin> role_ids mc w" "mc_sta mc ! mid = None"
    using assms(1) m w by (auto simp: macid_inv_def)
  have "mid \<in> role_ids mc1 w" using a w by simp
  then have "macid_inv mc2" using release_inv [OF inv1 w _ r] by blast
  moreover have "used_ids mc2 = used_ids mc" "\<forall>v<5. role_ids mc2 v = role_ids mc v"
    using a b fresh m(3) by auto
  moreover have "mc_sta mc2 = mc_sta mc" using a b fresh(2) by (simp add: list_update_same_conv) (metis list_update_id)
  ultimately show ?thesis using e r b a unfolding MAX_WIFI_ROLE_NUMBER_def by auto
qed

lemma shared_loop_eq:
  "shared_loop macid is b mc \<longleftrightarrow>
     (if b then (\<exists>i\<in>set is. phl_macid_is_used (wifi_role_usedmap mc ! i) macid)
      else 2 \<le> length (filter (\<lambda>i. phl_macid_is_used (wifi_role_usedmap mc ! i) macid) is))"
  by (induction "is" arbitrary: b) (auto simp: filter_empty_conv Suc_le_eq)

lemma specific_loop_eq:
  "specific_loop macid w is b mc \<longleftrightarrow>
     (let h = filter (\<lambda>i. phl_macid_is_used (wifi_role_usedmap mc ! i) macid) is
      in if b then h = [] else h = [w])"
proof (induction "is" arbitrary: b)
  case (Cons i "is")
  show ?case
  proof (cases "phl_macid_is_used (wifi_role_usedmap mc ! i) macid")
    case True
    then have "specific_loop macid w (i # is) b mc \<longleftrightarrow> \<not> b \<and> i = w \<and> specific_loop macid w is True mc"
      by auto
    then show ?thesis using Cons.IH [of True] True by (auto simp: Let_def)
  next
    case False
    then show ?thesis using Cons.IH by simp
  qed
qed simp

text \<open>
  With consistent tables no MAC id is shared between roles, and a MAC id is specific to a
  role exactly when that role holds it.
\<close>

lemma macid_roles_disjoint:
  assumes "macid_inv mc" and "w < MAX_WIFI_ROLE_NUMBER"
  shows "\<not> rtw_phl_macid_is_wrole_shared macid mc \<and>
     (rtw_phl_macid_is_wrole_specific macid w mc \<longleftrightarrow> macid \<in> role_ids mc w)"
proof (cases "macid < max_num mc")
  case False
  then show ?thesis
    by (simp add: rtw_phl_macid_is_wrole_shared_def rtw_phl_macid_is_wrole_specific_def role_ids_def)
next
  case True
  let ?u = "\<lambda>i. phl_macid_is_used (wifi_role_usedmap mc ! i) macid"
  have one: "i = j" if "i < 5" "j < 5" "?u i" "?u j" for i j
    using assms(1) that True unfolding macid_inv_def role_ids_def by blast
  have h: "set (filter ?u [0..<5]) = {i. i < 5 \<and> ?u i}" "distinct (filter ?u [0..<5])" by auto
  have card: "length (filter ?u [0..<5]) = card {i. i < 5 \<and> ?u i}" using distinct_card [OF h(2)] h(1) by metis
  have w: "w < 5" using assms(2) by (simp add: MAX_WIFI_ROLE_NUMBER_def)
  have le: "length (filter ?u [0..<5]) \<le> 1"
    unfolding card using one by (auto simp: card_le_Suc0_iff_eq)
  have "filter ?u [0..<5] = [w] \<longleftrightarrow> ?u w"
  proof
    assume "?u w"
    then have "w \<in> set (filter ?u [0..<5])" using w by simp
    with le show "filter ?u [0..<5] = [w]" by (cases "filter ?u [0..<5]") auto
  next
    assume "filter ?u [0..<5] = [w]"
    then have "w \<in> set (filter ?u [0..<5])" by simp
    then show "?u w" by simp
  qed
  then show ?thesis using le True
    by (simp add: rtw_phl_macid_is_wrole_shared_def rtw_phl_macid_is_wrole_specific_def shared_loop_eq
        specific_loop_eq role_ids_def MAX_WIFI_ROLE_NUMBER_def Let_def)
qed

section \<open>An example table\<close>

definition mc_zero :: macid_ctl_t where
  "mc_zero = \<lparr>used_map = replicate 8 0, bmc_map = replicate 8 0,
     wifi_role_usedmap = replicate 5 (replicate 8 0), wrole_bmc = replicate 5 0,
     mc_sta = replicate 256 None, max_num = 0\<rparr>"

definition ex_mc :: macid_ctl_t where
  "ex_mc = fst (phl_macid_ctrl_init 128 mc_zero)"

lemma nothing_used: "mid < 256 \<Longrightarrow> \<not> phl_macid_is_used (replicate 8 0) mid"
  by (simp add: is_used_bit less_mult_imp_div_less)

lemma init_inv:
  "0 < n \<Longrightarrow> macid_inv (fst (phl_macid_ctrl_init n mc_zero)) \<and> used_ids (fst (phl_macid_ctrl_init n mc_zero)) = {}"
  by (auto simp: phl_macid_ctrl_init_def mc_zero_def Let_def macid_inv_def macid_shape_def used_ids_def role_ids_def
      bmc_ids_def nothing_used PHL_MACID_MAX_NUM_def MAX_WIFI_ROLE_NUMBER_def)

lemma nat_set_not_empty: "{} \<noteq> {..<128::nat}"
  by (metis empty_iff lessThan_iff zero_less_numeral)

lemma ex_mc_facts: "macid_inv ex_mc" "used_ids ex_mc = {}" "max_num ex_mc = 128"
  using init_inv [of 128]
  by (simp_all add: ex_mc_def phl_macid_ctrl_init_def Let_def PHL_MACID_MAX_NUM_def)

end
