(* ===== verification/Phl_Sta.thy ===== *)
theory Phl_Sta
  imports Phl_Queue Phl_Rx_Agg Phl_Stats Phl_Tring Phl_Bcn Phl_Macid
begin

text \<open>
  Station management of \<^verbatim>\<open>phl/phl_sta.c\<close>: the population of station objects, which are either
  in the free queue or in the queue of associated stations of a role, their allocation and
  release together with the MAC id, the transmit rings and the reorder sessions, the media
  status, and the look-ups.

  A station is the number of its object, a role its index. The answers of the HAL, of the
  memory allocator and of the command dispatcher are arguments (\<open>sta_env\<close> collects those of
  allocation and release); calls into the HAL that only push settings are returned as effects.
\<close>

section \<open>State\<close>

definition PHL_MAX_STA_NUM :: nat where "PHL_MAX_STA_NUM = 128"

datatype role_type =
    PHL_RTYPE_NONE | PHL_RTYPE_STATION | PHL_RTYPE_AP | PHL_RTYPE_VAP | PHL_RTYPE_ADHOC
  | PHL_RTYPE_ADHOC_MASTER | PHL_RTYPE_MESH | PHL_RTYPE_MONITOR | PHL_RTYPE_P2P_DEVICE
  | PHL_RTYPE_P2P_GC | PHL_RTYPE_P2P_GO | PHL_RTYPE_TDLS | PHL_RTYPE_NAN | PHL_MLME_MAX

datatype mlme_state = MLME_NO_LINK | MLME_LINKING | MLME_LINKED

record rtw_phl_stainfo_t =
  s_wrole :: "nat option"
  s_active :: bool
  s_macid :: nat
  s_mac_addr :: mac_addr
  s_stats :: rtw_stats
  s_bcn_hit_cond :: nat
  s_hit_rule :: nat
  s_addr_sel :: nat
  s_addr_msk :: nat
  s_tid_rx :: tid_rx_table
  s_protect :: nat
  s_sec_mode :: nat
  s_ps_sta :: nat
  s_cal_giltf :: nat
  s_bcn_i :: rtw_rx_bcn_info

record rtw_wifi_role_t =
  r_type :: role_type
  r_mstate :: mlme_state
  r_hw_wmm :: nat
  r_mac_addr :: mac_addr
  r_hw_band :: nat
  r_hw_port :: nat
  r_assoc_sta_queue :: "ptr phl_queue"

record sta_st =
  mac_ctrl :: macid_ctl_t
  free_sta_queue :: "ptr phl_queue"
  stas :: "ptr \<Rightarrow> rtw_phl_stainfo_t"
  wifi_roles :: "nat \<Rightarrow> rtw_wifi_role_t"
  sta_tx :: tx_st
  rx_recycled :: "ptr list"

text \<open>Ring memory and channel mapping; whether the HAL adds and deletes the station entry.\<close>

record sta_env =
  e_ring_alloc :: bool
  e_chnl_map :: "nat \<Rightarrow> nat"
  e_add_ok :: bool
  e_del_ok :: bool

definition upd_sta :: "ptr \<Rightarrow> (rtw_phl_stainfo_t \<Rightarrow> rtw_phl_stainfo_t) \<Rightarrow> sta_st \<Rightarrow> sta_st" where
  "upd_sta p f st = st\<lparr>stas := (stas st)(p := f (stas st p))\<rparr>"

definition upd_role :: "nat \<Rightarrow> (rtw_wifi_role_t \<Rightarrow> rtw_wifi_role_t) \<Rightarrow> sta_st \<Rightarrow> sta_st" where
  "upd_role w f st = st\<lparr>wifi_roles := (wifi_roles st)(w := f (wifi_roles st w))\<rparr>"

section \<open>Station queues\<close>

definition phl_stainfo_init :: "bool \<Rightarrow> rtw_phl_stainfo_t \<Rightarrow> rtw_phl_stainfo_t \<times> rtw_phl_status" where
  "phl_stainfo_init hal_ok sta =
     (let sta1 = sta\<lparr>s_tid_rx := replicate 8 None, s_ps_sta := 0\<rparr>
      in if hal_ok then (sta1\<lparr>s_active := False\<rparr>, RTW_PHL_STATUS_SUCCESS)
         else (sta1, RTW_PHL_STATUS_FAILURE))"

definition phl_stainfo_enqueue :: "ptr phl_queue \<Rightarrow> ptr option \<Rightarrow> ptr phl_queue \<times> rtw_phl_status" where
  "phl_stainfo_enqueue q psta =
     (case psta of None \<Rightarrow> (q, RTW_PHL_STATUS_FAILURE)
      | Some p \<Rightarrow> (q\<lparr>queue := queue q @ [p], cnt := cnt q + 1\<rparr>, RTW_PHL_STATUS_SUCCESS))"

definition phl_stainfo_dequeue :: "ptr phl_queue \<Rightarrow> ptr phl_queue \<times> ptr option" where
  "phl_stainfo_dequeue q =
     (case queue q of [] \<Rightarrow> (q, None)
      | p # ps \<Rightarrow> (q\<lparr>queue := ps, cnt := cnt q - 1\<rparr>, Some p))"

text \<open>\<^verbatim>\<open>list_del\<close> unlinks the station; the model removes it from the queue it is said to be in.\<close>

definition phl_stainfo_queue_del :: "ptr phl_queue \<Rightarrow> ptr option \<Rightarrow> ptr phl_queue \<times> rtw_phl_status" where
  "phl_stainfo_queue_del q psta =
     (case psta of None \<Rightarrow> (q, RTW_PHL_STATUS_FAILURE)
      | Some p \<Rightarrow>
          ((if cnt q \<noteq> 0 then q\<lparr>queue := remove1 p (queue q), cnt := cnt q - 1\<rparr> else q),
           RTW_PHL_STATUS_SUCCESS))"

definition phl_stainfo_queue_search ::
  "(ptr \<Rightarrow> rtw_phl_stainfo_t) \<Rightarrow> ptr phl_queue \<Rightarrow> mac_addr \<Rightarrow> ptr option" where
  "phl_stainfo_queue_search sts_of q addr = find (\<lambda>p. s_mac_addr (sts_of p) = addr) (queue q)"

definition phl_stainfo_queue_get_first :: "ptr phl_queue \<Rightarrow> ptr option" where
  "phl_stainfo_queue_get_first q = (case queue q of [] \<Rightarrow> None | p # ps \<Rightarrow> Some p)"

text \<open>
  The loop of \<^verbatim>\<open>phl_stainfo_ctrl_deinie\<close> dequeues until the queue is empty; the second component
  lists the stations given to \<^verbatim>\<open>_phl_stainfo_deinit\<close>.
\<close>

function deinit_loop :: "ptr phl_queue \<Rightarrow> ptr phl_queue \<times> ptr list" where
  "deinit_loop q =
     (case phl_stainfo_dequeue q of
        (q', None) \<Rightarrow> (q', [])
      | (q', Some p) \<Rightarrow> (case deinit_loop q' of (q2, ps) \<Rightarrow> (q2, p # ps)))"
  by pat_completeness auto
termination
  by (relation "measure (\<lambda>q. length (queue q))") (auto simp: phl_stainfo_dequeue_def split: list.splits)

declare deinit_loop.simps [simp del]

definition phl_stainfo_ctrl_deinie :: "sta_st \<Rightarrow> sta_st \<times> rtw_phl_status" where
  "phl_stainfo_ctrl_deinie st =
     (st\<lparr>free_sta_queue := fst (deinit_loop (free_sta_queue st))\<rparr>, RTW_PHL_STATUS_SUCCESS)"

text \<open>\<open>hal_ok i\<close> is the answer of \<^verbatim>\<open>rtw_hal_stainfo_init\<close> for station \<open>i\<close>; the flag is failure.\<close>

fun ctrl_init_loop :: "(ptr \<Rightarrow> bool) \<Rightarrow> nat list \<Rightarrow> sta_st \<Rightarrow> sta_st \<times> bool" where
  "ctrl_init_loop hal_ok [] st = (st, False)"
| "ctrl_init_loop hal_ok (i # is) st =
     (case phl_stainfo_init (hal_ok i) (stas st i) of
        (sta', status) \<Rightarrow>
          let st1 = upd_sta i (\<lambda>_. sta') st in
          if status \<noteq> RTW_PHL_STATUS_SUCCESS then (st1, True)
          else ctrl_init_loop hal_ok is
                 (st1\<lparr>free_sta_queue := fst (phl_stainfo_enqueue (free_sta_queue st1) (Some i))\<rparr>))"

definition phl_stainfo_ctrl_init :: "bool \<Rightarrow> (ptr \<Rightarrow> bool) \<Rightarrow> sta_st \<Rightarrow> sta_st \<times> rtw_phl_status" where
  "phl_stainfo_ctrl_init buf_alloc hal_ok st =
     (if \<not> buf_alloc then (st, RTW_PHL_STATUS_FAILURE)
      else
        case ctrl_init_loop hal_ok [0..<PHL_MAX_STA_NUM] (st\<lparr>free_sta_queue := pq_init\<rparr>) of
          (st1, sta_init_fail) \<Rightarrow>
            if sta_init_fail then (fst (phl_stainfo_ctrl_deinie st1), RTW_PHL_STATUS_FAILURE)
            else (st1, RTW_PHL_STATUS_SUCCESS))"

section \<open>Look-ups\<close>

definition rtw_phl_get_stainfo_by_macid :: "nat \<Rightarrow> sta_st \<Rightarrow> ptr option" where
  "rtw_phl_get_stainfo_by_macid macid st =
     (if macid \<ge> max_num (mac_ctrl st) then None
      else if phl_macid_is_used (used_map (mac_ctrl st)) macid then mc_sta (mac_ctrl st) ! macid
      else None)"

text \<open>
  The loop dereferences the station of every used id; one without a station is a fault,
  which is \<^const>\<open>None\<close>, while \<open>Some None\<close> is the result NULL.
\<close>

fun by_addr_loop :: "mac_addr \<Rightarrow> nat list \<Rightarrow> sta_st \<Rightarrow> ptr option option" where
  "by_addr_loop addr [] st = Some None"
| "by_addr_loop addr (mid # mids) st =
     (if phl_macid_is_used (used_map (mac_ctrl st)) mid then
        (case mc_sta (mac_ctrl st) ! mid of
           None \<Rightarrow> None
         | Some p \<Rightarrow> if s_mac_addr (stas st p) = addr then Some (Some p) else by_addr_loop addr mids st)
      else by_addr_loop addr mids st)"

definition rtw_phl_get_stainfo_by_addr_ex :: "mac_addr \<Rightarrow> sta_st \<Rightarrow> ptr option option" where
  "rtw_phl_get_stainfo_by_addr_ex addr st = by_addr_loop addr [0..<max_num (mac_ctrl st)] st"

definition rtw_phl_get_macid_by_addr :: "mac_addr \<Rightarrow> sta_st \<Rightarrow> nat option" where
  "rtw_phl_get_macid_by_addr addr st =
     map_option (\<lambda>r. case r of None \<Rightarrow> max_num (mac_ctrl st) | Some p \<Rightarrow> s_macid (stas st p))
       (rtw_phl_get_stainfo_by_addr_ex addr st)"

definition rtw_phl_get_stainfo_by_addr :: "nat \<Rightarrow> mac_addr \<Rightarrow> sta_st \<Rightarrow> ptr option" where
  "rtw_phl_get_stainfo_by_addr w addr st =
     (if is_broadcast_mac_addr addr then
        (let macid = wrole_bmc (mac_ctrl st) ! w in
         if macid \<ge> max_num (mac_ctrl st) then None else mc_sta (mac_ctrl st) ! macid)
      else phl_stainfo_queue_search (stas st) (r_assoc_sta_queue (wifi_roles st w)) addr)"

definition rtw_phl_get_stainfo_self :: "nat \<Rightarrow> sta_st \<Rightarrow> ptr option" where
  "rtw_phl_get_stainfo_self w st = phl_stainfo_queue_get_first (r_assoc_sta_queue (wifi_roles st w))"

text \<open>\<open>rssi_bcn\<close> is \<^verbatim>\<open>rtw_hal_get_sta_rssi_bcn\<close>.\<close>

fun min_rssi_loop :: "(ptr \<Rightarrow> nat) \<Rightarrow> nat list \<Rightarrow> sta_st \<Rightarrow> nat \<Rightarrow> nat" where
  "min_rssi_loop rssi_bcn [] st m = m"
| "min_rssi_loop rssi_bcn (i # is) st m =
     (if \<not> phl_macid_is_used (used_map (mac_ctrl st)) i then min_rssi_loop rssi_bcn is st m
      else
        case rtw_phl_get_stainfo_by_macid i st of
          None \<Rightarrow> min_rssi_loop rssi_bcn is st m
        | Some p \<Rightarrow>
            if rssi_bcn p = 0 then min_rssi_loop rssi_bcn is st m
            else min_rssi_loop rssi_bcn is st (min (rssi_bcn p) m))"

definition phl_get_min_rssi_bcn :: "(ptr \<Rightarrow> nat) \<Rightarrow> sta_st \<Rightarrow> nat" where
  "phl_get_min_rssi_bcn rssi_bcn st = min_rssi_loop rssi_bcn [0..<max_num (mac_ctrl st)] st 0xff"

section \<open>Release\<close>

text \<open>The station's address may be overwritten, so the state is returned with the answer.\<close>

definition phl_self_stainfo_chk :: "nat \<Rightarrow> ptr \<Rightarrow> sta_st \<Rightarrow> sta_st \<times> bool" where
  "phl_self_stainfo_chk w sta st =
     (case r_type (wifi_roles st w) of
        PHL_RTYPE_STATION \<Rightarrow> (upd_sta sta (\<lambda>s. s\<lparr>s_mac_addr := r_mac_addr (wifi_roles st w)\<rparr>) st, True)
      | PHL_RTYPE_P2P_GC \<Rightarrow> (upd_sta sta (\<lambda>s. s\<lparr>s_mac_addr := r_mac_addr (wifi_roles st w)\<rparr>) st, True)
      | PHL_RTYPE_AP \<Rightarrow> (st, r_mac_addr (wifi_roles st w) = s_mac_addr (stas st sta))
      | PHL_RTYPE_MESH \<Rightarrow> (st, r_mac_addr (wifi_roles st w) = s_mac_addr (stas st sta))
      | PHL_RTYPE_P2P_GO \<Rightarrow> (st, r_mac_addr (wifi_roles st w) = s_mac_addr (stas st sta))
      | PHL_RTYPE_TDLS \<Rightarrow> (st, r_mac_addr (wifi_roles st w) = s_mac_addr (stas st sta))
      | _ \<Rightarrow> (st, False))"

definition release_sta_macid :: "ptr \<Rightarrow> sta_st \<Rightarrow> sta_st \<times> rtw_phl_status" where
  "release_sta_macid p st =
     (case phl_release_macid (the (s_wrole (stas st p))) (s_mac_addr (stas st p))
             (s_macid (stas st p)) (mac_ctrl st) of
        (mct, invalid_macid, status) \<Rightarrow>
          (upd_sta p (\<lambda>s. s\<lparr>s_macid := invalid_macid\<rparr>) (st\<lparr>mac_ctrl := mct\<rparr>), status))"

definition phl_free_stainfo_sw :: "ptr option \<Rightarrow> sta_st \<Rightarrow> sta_st \<times> rtw_phl_status" where
  "phl_free_stainfo_sw sta st =
     (case sta of None \<Rightarrow> (st, RTW_PHL_STATUS_FAILURE)
      | Some p \<Rightarrow>
          case phl_free_rx_reorder (s_tid_rx (stas st p)) of
            (marked, tm, tab, reclaimed) \<Rightarrow>
          let st1 = upd_sta p (\<lambda>s. s\<lparr>s_tid_rx := tab\<rparr>) (st\<lparr>rx_recycled := rx_recycled st @ reclaimed\<rparr>);
              st2 = st1\<lparr>sta_tx := fst (phl_deregister_tx_ring (s_macid (stas st1 p)) (sta_tx st1))\<rparr>
          in release_sta_macid p st2)"

text \<open>\<^verbatim>\<open>__phl_free_stainfo_sw\<close>, which also gives the object back to the free queue.\<close>

definition free_stainfo_sw :: "ptr option \<Rightarrow> sta_st \<Rightarrow> sta_st \<times> rtw_phl_status" where
  "free_stainfo_sw sta st =
     (case sta of None \<Rightarrow> (st, RTW_PHL_STATUS_FAILURE)
      | Some p \<Rightarrow>
          let w = the (s_wrole (stas st p));
              chk = (if \<not> is_broadcast_mac_addr (s_mac_addr (stas st p))
                     then phl_self_stainfo_chk w p st else (st, False));
              st1 = fst chk
          in if snd chk then (st1, RTW_PHL_STATUS_SUCCESS)
             else
               let st2 = upd_role w (\<lambda>r. r\<lparr>r_assoc_sta_queue :=
                           fst (phl_stainfo_queue_del (r_assoc_sta_queue r) (Some p))\<rparr>) st1;
                   st3 = fst (phl_free_stainfo_sw (Some p) st2)
               in case phl_stainfo_enqueue (free_sta_queue st3) (Some p) of
                    (q, status) \<Rightarrow> (st3\<lparr>free_sta_queue := q\<rparr>, status))"

definition phl_free_stainfo_hw :: "bool \<Rightarrow> ptr option \<Rightarrow> sta_st \<Rightarrow> sta_st \<times> rtw_phl_status" where
  "phl_free_stainfo_hw del_ok sta st =
     (case sta of None \<Rightarrow> (st, RTW_PHL_STATUS_FAILURE)
      | Some p \<Rightarrow>
          (upd_sta p (\<lambda>s. s\<lparr>s_active := False\<rparr>) st,
           if del_ok then RTW_PHL_STATUS_SUCCESS else RTW_PHL_STATUS_FAILURE))"

text \<open>\<^verbatim>\<open>__phl_free_stainfo_hw\<close> and \<^verbatim>\<open>__phl_free_stainfo\<close>.\<close>

definition free_stainfo_hw :: "bool \<Rightarrow> ptr \<Rightarrow> sta_st \<Rightarrow> sta_st \<times> rtw_phl_status" where
  "free_stainfo_hw del_ok p st =
     (let w = the (s_wrole (stas st p));
          chk = (if \<not> is_broadcast_mac_addr (s_mac_addr (stas st p))
                 then phl_self_stainfo_chk w p st else (st, False))
      in if snd chk then (fst chk, RTW_PHL_STATUS_SUCCESS)
         else phl_free_stainfo_hw del_ok (Some p) (fst chk))"

definition free_stainfo :: "bool \<Rightarrow> ptr \<Rightarrow> sta_st \<Rightarrow> sta_st \<times> rtw_phl_status" where
  "free_stainfo del_ok p st = free_stainfo_sw (Some p) (fst (free_stainfo_hw del_ok p st))"

section \<open>Allocation\<close>

definition alloc_sta_macid :: "ptr \<Rightarrow> sta_st \<Rightarrow> sta_st \<times> rtw_phl_status" where
  "alloc_sta_macid p st =
     (case phl_alloc_macid (s_wrole (stas st p)) (s_mac_addr (stas st p)) p (mac_ctrl st) of
        (mct, m, status) \<Rightarrow>
          (case m of None \<Rightarrow> st\<lparr>mac_ctrl := mct\<rparr>
           | Some mid \<Rightarrow> upd_sta p (\<lambda>s. s\<lparr>s_macid := mid\<rparr>) (st\<lparr>mac_ctrl := mct\<rparr>), status))"

text \<open>
  \<^verbatim>\<open>_phl_alloc_stainfo_sw\<close>: on a failure to register the transmit rings the MAC id is released,
  and the status returned is still the success of the MAC-id allocation.
\<close>

definition alloc_stainfo_rsc :: "sta_env \<Rightarrow> ptr \<Rightarrow> sta_st \<Rightarrow> sta_st \<times> rtw_phl_status" where
  "alloc_stainfo_rsc env p st =
     (case alloc_sta_macid p st of
        (st1, pstatus) \<Rightarrow>
          if pstatus \<noteq> RTW_PHL_STATUS_SUCCESS then (st1, pstatus)
          else
            let role = wifi_roles st1 (the (s_wrole (stas st1 p))) in
            case phl_register_tx_ring (e_ring_alloc env) (e_chnl_map env) (s_macid (stas st1 p))
                   (r_hw_band role) (r_hw_wmm role) (r_hw_port role) (sta_tx st1) of
              (tx', rstatus) \<Rightarrow>
                if rstatus \<noteq> RTW_PHL_STATUS_SUCCESS
                then (fst (release_sta_macid p (st1\<lparr>sta_tx := tx'\<rparr>)), pstatus)
                else (st1\<lparr>sta_tx := tx'\<rparr>, RTW_PHL_STATUS_SUCCESS))"

definition phl_sta_set_default_value :: "rtw_phl_stainfo_t \<Rightarrow> rtw_phl_stainfo_t" where
  "phl_sta_set_default_value s = s\<lparr>s_bcn_hit_cond := 0, s_hit_rule := 0, s_protect := 0\<rparr>"

text \<open>The part of \<^verbatim>\<open>phl_alloc_stainfo_sw\<close> that takes a station object from the free queue.\<close>

definition alloc_new_sta :: "sta_env \<Rightarrow> mac_addr \<Rightarrow> nat \<Rightarrow> sta_st \<Rightarrow> sta_st \<times> ptr option" where
  "alloc_new_sta env sta_addr w st =
     (case phl_stainfo_dequeue (free_sta_queue st) of
        (q, None) \<Rightarrow> (st\<lparr>free_sta_queue := q\<rparr>, None)
      | (q, Some p) \<Rightarrow>
          let st1 = upd_sta p (\<lambda>s. s\<lparr>s_mac_addr := sta_addr, s_wrole := Some w\<rparr>) (st\<lparr>free_sta_queue := q\<rparr>)
          in case alloc_stainfo_rsc env p st1 of
               (st2, status) \<Rightarrow>
                 if status \<noteq> RTW_PHL_STATUS_SUCCESS
                 then (st2\<lparr>free_sta_queue := fst (phl_stainfo_enqueue (free_sta_queue st2) (Some p))\<rparr>, None)
                 else (upd_role w (\<lambda>r. r\<lparr>r_assoc_sta_queue :=
                                fst (phl_stainfo_enqueue (r_assoc_sta_queue r) (Some p))\<rparr>)
                         (upd_sta p phl_sta_set_default_value st2), Some p))"

definition phl_alloc_stainfo_sw :: "sta_env \<Rightarrow> mac_addr \<Rightarrow> nat \<Rightarrow> sta_st \<Rightarrow> sta_st \<times> ptr option" where
  "phl_alloc_stainfo_sw env sta_addr w st =
     (let self = (if r_type (wifi_roles st w) = PHL_RTYPE_STATION \<and> \<not> is_broadcast_mac_addr sta_addr
                  then rtw_phl_get_stainfo_self w st else None)
      in case self of
           Some p \<Rightarrow> (upd_sta p (\<lambda>s. s\<lparr>s_mac_addr := sta_addr\<rparr>) st, Some p)
         | None \<Rightarrow>
             case rtw_phl_get_stainfo_by_addr w sta_addr st of
               Some p \<Rightarrow> (st, Some p)
             | None \<Rightarrow> alloc_new_sta env sta_addr w st)"

definition phl_alloc_stainfo_hw :: "bool \<Rightarrow> ptr option \<Rightarrow> sta_st \<Rightarrow> sta_st \<times> rtw_phl_status" where
  "phl_alloc_stainfo_hw add_ok sta st =
     (case sta of None \<Rightarrow> (st, RTW_PHL_STATUS_FAILURE)
      | Some p \<Rightarrow>
          if \<not> add_ok then (st, RTW_PHL_STATUS_FAILURE)
          else (upd_sta p (\<lambda>s. s\<lparr>s_active := True\<rparr>) st, RTW_PHL_STATUS_SUCCESS))"

text \<open>\<^verbatim>\<open>__phl_alloc_stainfo\<close>; the second component is \<^verbatim>\<open>*sta\<close>.\<close>

definition alloc_stainfo :: "sta_env \<Rightarrow> mac_addr \<Rightarrow> nat \<Rightarrow> sta_st \<Rightarrow> sta_st \<times> ptr option \<times> rtw_phl_status" where
  "alloc_stainfo env sta_addr w st =
     (case phl_alloc_stainfo_sw env sta_addr w st of
        (st1, None) \<Rightarrow> (st1, None, RTW_PHL_STATUS_FAILURE)
      | (st1, Some p) \<Rightarrow>
          if s_active (stas st1 p) then (st1, Some p, RTW_PHL_STATUS_SUCCESS)
          else
            case phl_alloc_stainfo_hw (e_add_ok env) (Some p) st1 of
              (st2, status) \<Rightarrow>
                if status \<noteq> RTW_PHL_STATUS_SUCCESS
                then (fst (free_stainfo_sw (Some p) st2), None, RTW_PHL_STATUS_FAILURE)
                else (st2, Some p, RTW_PHL_STATUS_SUCCESS))"

definition phl_alloc_stainfo ::
  "sta_env \<Rightarrow> ptr option \<Rightarrow> mac_addr \<Rightarrow> nat \<Rightarrow> bool \<Rightarrow> bool \<Rightarrow> sta_st \<Rightarrow> sta_st \<times> ptr option \<times> rtw_phl_status" where
  "phl_alloc_stainfo env sta sta_addr w alloc only_hw st =
     (if alloc then
        (if only_hw then
           (case phl_alloc_stainfo_hw (e_add_ok env) sta st of (st', status) \<Rightarrow> (st', sta, status))
         else alloc_stainfo env sta_addr w st)
      else
        (if only_hw then
           (case free_stainfo_hw (e_del_ok env) (the sta) st of (st', status) \<Rightarrow> (st', sta, status))
         else
           (case free_stainfo (e_del_ok env) (the sta) st of (st', status) \<Rightarrow> (st', sta, status))))"

section \<open>Freeing the stations of a role\<close>

text \<open>\<open>del_ok\<close> is the answer of \<^verbatim>\<open>rtw_hal_del_sta_entry\<close> per station.\<close>

fun role_free_hw_loop :: "(ptr \<Rightarrow> bool) \<Rightarrow> macid_map \<Rightarrow> nat list \<Rightarrow> sta_st \<Rightarrow> sta_st" where
  "role_free_hw_loop del_ok m [] st = st"
| "role_free_hw_loop del_ok m (mid # mids) st =
     (if phl_macid_is_used m mid then
        (case mc_sta (mac_ctrl st) ! mid of
           None \<Rightarrow> role_free_hw_loop del_ok m mids st
         | Some p \<Rightarrow> role_free_hw_loop del_ok m mids (fst (phl_free_stainfo_hw (del_ok p) (Some p) st)))
      else role_free_hw_loop del_ok m mids st)"

definition phl_wifi_role_free_stainfo_hw :: "(ptr \<Rightarrow> bool) \<Rightarrow> nat \<Rightarrow> sta_st \<Rightarrow> sta_st \<times> rtw_phl_status" where
  "phl_wifi_role_free_stainfo_hw del_ok w st =
     (role_free_hw_loop del_ok (wifi_role_usedmap (mac_ctrl st) ! w) [0..<max_num (mac_ctrl st)] st,
      RTW_PHL_STATUS_SUCCESS)"

text \<open>One round of the two release loops: \<open>hw\<close> is whether the HAL entry is deleted as well.\<close>

definition role_free_step :: "bool \<Rightarrow> (ptr \<Rightarrow> bool) \<Rightarrow> ptr \<Rightarrow> sta_st \<Rightarrow> sta_st" where
  "role_free_step hw del_ok p st =
     (let st1 = (if hw then fst (phl_free_stainfo_hw (del_ok p) (Some p) st) else st);
          st2 = fst (phl_free_stainfo_sw (Some p) st1)
      in st2\<lparr>free_sta_queue := fst (phl_stainfo_enqueue (free_sta_queue st2) (Some p))\<rparr>)"

lemma free_keeps_roles [simp]:
  "wifi_roles (fst (phl_free_stainfo_hw ok sta st)) = wifi_roles st"
  "wifi_roles (fst (phl_free_stainfo_sw sta st)) = wifi_roles st"
  "wifi_roles (role_free_step hw del_ok p st) = wifi_roles st"
  by (simp_all add: phl_free_stainfo_hw_def phl_free_stainfo_sw_def release_sta_macid_def upd_sta_def
      role_free_step_def Let_def split: option.splits prod.splits)

function role_free_loop :: "bool \<Rightarrow> (ptr \<Rightarrow> bool) \<Rightarrow> nat \<Rightarrow> sta_st \<Rightarrow> sta_st" where
  "role_free_loop hw del_ok w st =
     (case phl_stainfo_dequeue (r_assoc_sta_queue (wifi_roles st w)) of
        (q, None) \<Rightarrow> upd_role w (\<lambda>r. r\<lparr>r_assoc_sta_queue := q\<rparr>) st
      | (q, Some p) \<Rightarrow>
          role_free_loop hw del_ok w
            (role_free_step hw del_ok p (upd_role w (\<lambda>r. r\<lparr>r_assoc_sta_queue := q\<rparr>) st)))"
  by pat_completeness auto
termination
  by (relation "measure (\<lambda>(hw, del_ok, w, st). length (queue (r_assoc_sta_queue (wifi_roles st w))))")
    (auto simp: phl_stainfo_dequeue_def upd_role_def split: list.splits)

declare role_free_loop.simps [simp del]

definition phl_wifi_role_free_stainfo_sw :: "nat \<Rightarrow> sta_st \<Rightarrow> sta_st \<times> rtw_phl_status" where
  "phl_wifi_role_free_stainfo_sw w st = (role_free_loop False (\<lambda>_. True) w st, RTW_PHL_STATUS_SUCCESS)"

definition phl_wifi_role_free_stainfo :: "(ptr \<Rightarrow> bool) \<Rightarrow> nat \<Rightarrow> sta_st \<Rightarrow> sta_st \<times> rtw_phl_status" where
  "phl_wifi_role_free_stainfo del_ok w st = (role_free_loop True del_ok w st, RTW_PHL_STATUS_SUCCESS)"

section \<open>The station population\<close>

definition assoc :: "sta_st \<Rightarrow> nat \<Rightarrow> ptr list" where
  "assoc st w = queue (r_assoc_sta_queue (wifi_roles st w))"

definition free_stas :: "sta_st \<Rightarrow> ptr list" where
  "free_stas st = queue (free_sta_queue st)"

definition population :: "sta_st \<Rightarrow> ptr set" where
  "population st = set (free_stas st) \<union> (\<Union>w<5. set (assoc st w))"

text \<open>The queues: their counts are right, and each station is in one place once.\<close>

definition queues_inv :: "sta_st \<Rightarrow> bool" where
  "queues_inv st \<longleftrightarrow> pq_wf (free_sta_queue st) \<and> distinct (free_stas st) \<and>
     (\<forall>w<5. pq_wf (r_assoc_sta_queue (wifi_roles st w)) \<and> distinct (assoc st w) \<and>
        set (free_stas st) \<inter> set (assoc st w) = {} \<and>
        (\<forall>v<5. v \<noteq> w \<longrightarrow> set (assoc st v) \<inter> set (assoc st w) = {}))"

text \<open>
  The queues and the MAC ids agree: an associated station knows its role, holds a valid
  MAC id of that role, and is the station of that id; a station in the table is associated.
\<close>

definition sta_inv :: "sta_st \<Rightarrow> bool" where
  "sta_inv st \<longleftrightarrow> queues_inv st \<and> macid_inv (mac_ctrl st) \<and>
     (\<forall>w<5. \<forall>p\<in>set (assoc st w). s_wrole (stas st p) = Some w \<and>
        s_macid (stas st p) \<in> role_ids (mac_ctrl st) w \<and> mc_sta (mac_ctrl st) ! s_macid (stas st p) = Some p) \<and>
     (\<forall>mid<max_num (mac_ctrl st). \<forall>p. mc_sta (mac_ctrl st) ! mid = Some p \<longrightarrow>
        (\<exists>w<5. p \<in> set (assoc st w)) \<and> s_macid (stas st p) = mid)"

text \<open>The transmit rings and the MAC ids agree: the used ids have a well-formed ring list each, and only they.\<close>

definition rings_inv :: "sta_st \<Rightarrow> bool" where
  "rings_inv st \<longleftrightarrow> tx_inv (sta_tx st) \<and> distinct (map tl_macid (t_ring_list (sta_tx st))) \<and>
     tl_macid ` set (t_ring_list (sta_tx st)) = used_ids (mac_ctrl st)"

lemma assoc_facts:
  assumes "sta_inv st" and "w < 5" and "p \<in> set (assoc st w)"
  shows "s_wrole (stas st p) = Some w" "s_macid (stas st p) \<in> role_ids (mac_ctrl st) w"
    "s_macid (stas st p) < max_num (mac_ctrl st)" "s_macid (stas st p) \<in> used_ids (mac_ctrl st)"
    "mc_sta (mac_ctrl st) ! s_macid (stas st p) = Some p" "p \<notin> set (free_stas st)"
    "\<And>v. v < 5 \<Longrightarrow> v \<noteq> w \<Longrightarrow> p \<notin> set (assoc st v)"
proof -
  show m: "s_macid (stas st p) \<in> role_ids (mac_ctrl st) w" using assms by (simp add: sta_inv_def)
  then show "s_macid (stas st p) < max_num (mac_ctrl st)" by (simp add: role_ids_def)
  have "used_ids (mac_ctrl st) = (\<Union>w<5. role_ids (mac_ctrl st) w)"
    using assms(1) by (simp add: sta_inv_def macid_inv_def)
  then show "s_macid (stas st p) \<in> used_ids (mac_ctrl st)" using m assms(2) by blast
qed (use assms in \<open>auto simp: sta_inv_def queues_inv_def\<close>)

text \<open>
  A station that leaves its role: the role's queue loses it, the free queue gets it, the
  MAC id is released, and nothing else of the tables changes.
\<close>

lemma leave_inv:
  assumes inv: "sta_inv st" and w: "w < 5" and p: "p \<in> set (assoc st w)"
    and rel: "phl_release_macid w addr (s_macid (stas st p)) (mac_ctrl st) = (mct, m, RTW_PHL_STATUS_SUCCESS)"
    and q: "free_stas st' = free_stas st @ [p]" "pq_wf (free_sta_queue st')"
      "assoc st' w = remove1 p (assoc st w)" "pq_wf (r_assoc_sta_queue (wifi_roles st' w))"
      "\<And>v. v \<noteq> w \<Longrightarrow> r_assoc_sta_queue (wifi_roles st' v) = r_assoc_sta_queue (wifi_roles st v)"
    and s: "\<And>x. x \<noteq> p \<Longrightarrow> s_wrole (stas st' x) = s_wrole (stas st x) \<and> s_macid (stas st' x) = s_macid (stas st x)"
    and mc: "mac_ctrl st' = mct"
  shows "sta_inv st' \<and> population st' = population st \<and> used_ids mct = used_ids (mac_ctrl st) - {s_macid (stas st p)}"
proof -
  note f = assoc_facts [OF inv w p]
  have mi: "macid_inv (mac_ctrl st)" using inv by (simp add: sta_inv_def)
  then have sh: "macid_shape (mac_ctrl st)" by (simp add: macid_inv_def)
  note r = release_sets [OF sh w rel]
  have mi': "macid_inv mct" by (rule release_inv [OF mi w f(2) rel])
  have dw: "distinct (assoc st w)" using inv w by (simp add: sta_inv_def queues_inv_def)
  have av: "assoc st' v = assoc st v" if "v \<noteq> w" for v using q(5) [OF that] by (simp add: assoc_def)
  have aw: "set (assoc st' w) = set (assoc st w) - {p}" using dw by (simp add: q(3))
  have qi: "queues_inv st'"
    unfolding queues_inv_def
  proof (intro conjI allI impI)
    show "distinct (free_stas st')" using inv f(6) by (simp add: q sta_inv_def queues_inv_def)
    fix v :: nat assume v: "v < 5"
    show "pq_wf (r_assoc_sta_queue (wifi_roles st' v))"
      using q(4,5) inv v by (cases "v = w") (auto simp: sta_inv_def queues_inv_def)
    show "distinct (assoc st' v)" using q(3) av inv v dw
      by (cases "v = w") (auto simp: sta_inv_def queues_inv_def distinct_remove1)
    show "set (free_stas st') \<inter> set (assoc st' v) = {}"
      using q(1) av aw inv v w f(7) by (cases "v = w") (auto simp: sta_inv_def queues_inv_def)
    fix u assume u: "u < 5" "u \<noteq> v"
    have "set (assoc st u) \<inter> set (assoc st v) = {}" using inv v u unfolding sta_inv_def queues_inv_def by blast
    moreover have "set (assoc st' u) \<subseteq> set (assoc st u)" "set (assoc st' v) \<subseteq> set (assoc st v)"
      using av aw by (cases "u = w", auto) (cases "v = w", auto)
    ultimately show "set (assoc st' u) \<inter> set (assoc st' v) = {}" by blast
  qed (rule q(2))
  have fwd: "s_wrole (stas st' x) = Some v \<and> s_macid (stas st' x) \<in> role_ids mct v \<and>
      mc_sta mct ! s_macid (stas st' x) = Some x" if v: "v < 5" and x: "x \<in> set (assoc st' v)" for v x
  proof -
    have xp: "x \<noteq> p" using x aw av f(7) v by (cases "v = w") auto
    have xv: "x \<in> set (assoc st v)" using x aw av by (cases "v = w") auto
    note g = assoc_facts [OF inv v xv]
    have "s_macid (stas st x) \<noteq> s_macid (stas st p)" using g(5) f(5) xp by auto
    then show ?thesis using g r s [OF xp] v by (cases "v = w") auto
  qed
  have bwd: "(\<exists>v<5. x \<in> set (assoc st' v)) \<and> s_macid (stas st' x) = mid"
    if mid: "mid < max_num mct" and x: "mc_sta mct ! mid = Some x" for mid x
  proof -
    have ne: "mid \<noteq> s_macid (stas st p)"
    proof
      assume "mid = s_macid (stas st p)"
      moreover have "s_macid (stas st p) < length (mc_sta (mac_ctrl st))" using f(3) sh by (simp add: macid_shape_def)
      ultimately show False using x r by simp
    qed
    then have x0: "mc_sta (mac_ctrl st) ! mid = Some x" "mid < max_num (mac_ctrl st)" using x mid r by simp_all
    then obtain v where v: "v < 5" "x \<in> set (assoc st v)" "s_macid (stas st x) = mid"
      using inv unfolding sta_inv_def by blast
    then have xp: "x \<noteq> p" using ne by auto
    then show ?thesis using v s [OF xp] aw av by (cases "v = w") auto
  qed
  have "population st' = population st"
  proof -
    have "(\<Union>v<5. set (assoc st' v)) = (\<Union>v<5. set (assoc st v)) - {p}"
    proof -
      have "set (assoc st' v) = set (assoc st v) - {p}" if "v < 5" for v
        using aw av f(7) that by (cases "v = w") auto
      then show ?thesis by auto
    qed
    then show ?thesis using q(1) p w by (auto simp: population_def)
  qed
  then show ?thesis using qi mi' fwd bwd r by (auto simp: sta_inv_def mc)
qed

text \<open>
  A station that joins a role: it comes from the head of the free queue, gets a fresh MAC id
  and is appended to the role's queue.
\<close>

lemma join_inv:
  assumes inv: "sta_inv st" and w: "w < 5" and free: "free_stas st = p # ps"
    and al: "phl_alloc_macid (Some w) addr p (mac_ctrl st) = (mct, Some mid, RTW_PHL_STATUS_SUCCESS)"
    and q: "free_stas st' = ps" "pq_wf (free_sta_queue st')"
      "assoc st' w = assoc st w @ [p]" "pq_wf (r_assoc_sta_queue (wifi_roles st' w))"
      "\<And>v. v \<noteq> w \<Longrightarrow> r_assoc_sta_queue (wifi_roles st' v) = r_assoc_sta_queue (wifi_roles st v)"
    and s: "\<And>x. x \<noteq> p \<Longrightarrow> s_wrole (stas st' x) = s_wrole (stas st x) \<and> s_macid (stas st' x) = s_macid (stas st x)"
      "s_wrole (stas st' p) = Some w" "s_macid (stas st' p) = mid"
    and mc: "mac_ctrl st' = mct"
  shows "sta_inv st' \<and> population st' = population st"
proof -
  have mi: "macid_inv (mac_ctrl st)" using inv by (simp add: sta_inv_def)
  then have sh: "macid_shape (mac_ctrl st)" by (simp add: macid_inv_def)
  have mid: "mid < max_num (mac_ctrl st)" "mid \<notin> used_ids (mac_ctrl st)" using alloc_cases [OF al] by auto
  note r = alloc_sets [OF sh w mid(1) al]
  have mi': "macid_inv mct" by (rule alloc_inv [OF mi w mid al])
  have len: "mid < length (mc_sta (mac_ctrl st))" using mid(1) sh by (simp add: macid_shape_def)
  have none: "mc_sta (mac_ctrl st) ! mid = None" using mi mid by (auto simp: macid_inv_def)
  have pf: "p \<notin> set (assoc st v)" if "v < 5" for v
    using inv free that by (auto simp: sta_inv_def queues_inv_def)
  have av: "assoc st' v = assoc st v" if "v \<noteq> w" for v using q(5) [OF that] by (simp add: assoc_def)
  have sub: "set (assoc st' v) \<subseteq> insert p (set (assoc st v))" for v using av q(3) by (cases "v = w") auto
  have qi: "queues_inv st'"
    unfolding queues_inv_def
  proof (intro conjI allI impI)
    have d: "distinct (p # ps)" using inv free unfolding sta_inv_def queues_inv_def by metis
    then show "distinct (free_stas st')" by (simp add: q)
    fix v :: nat assume v: "v < 5"
    show "pq_wf (r_assoc_sta_queue (wifi_roles st' v))"
      using q(4,5) inv v by (cases "v = w") (auto simp: sta_inv_def queues_inv_def)
    show "distinct (assoc st' v)" using q(3) av inv v pf
      by (cases "v = w") (auto simp: sta_inv_def queues_inv_def)
    have "set (p # ps) \<inter> set (assoc st v) = {}" using inv v free unfolding sta_inv_def queues_inv_def by metis
    then show "set (free_stas st') \<inter> set (assoc st' v) = {}" using q(1) d sub [of v] by auto
    fix u assume u: "u < 5" "u \<noteq> v"
    have "set (assoc st u) \<inter> set (assoc st v) = {}" using inv v u unfolding sta_inv_def queues_inv_def by blast
    then show "set (assoc st' u) \<inter> set (assoc st' v) = {}" using av q(3) pf u v
      by (cases "u = w"; cases "v = w") auto
  qed (rule q(2))
  have fwd: "s_wrole (stas st' x) = Some v \<and> s_macid (stas st' x) \<in> role_ids mct v \<and>
      mc_sta mct ! s_macid (stas st' x) = Some x" if v: "v < 5" and x: "x \<in> set (assoc st' v)" for v x
  proof (cases "x = p")
    case True
    then have "v = w" using x av pf v by (cases "v = w") auto
    then show ?thesis using True s(2,3) r w len by auto
  next
    case False
    then have xv: "x \<in> set (assoc st v)" using x sub [of v] by auto
    note g = assoc_facts [OF inv v xv]
    have "s_macid (stas st x) \<noteq> mid" using g(4) mid(2) by auto
    then show ?thesis using g r s(1) [OF False] v by (cases "v = w") auto
  qed
  have bwd: "(\<exists>v<5. x \<in> set (assoc st' v)) \<and> s_macid (stas st' x) = i"
    if i: "i < max_num mct" and x: "mc_sta mct ! i = Some x" for i x
  proof (cases "i = mid")
    case True
    then have "x = p" using x r len by simp
    then show ?thesis using True s(3) q(3) w by auto
  next
    case False
    then have x0: "mc_sta (mac_ctrl st) ! i = Some x" "i < max_num (mac_ctrl st)" using x i r by simp_all
    then obtain v where v: "v < 5" "x \<in> set (assoc st v)" "s_macid (stas st x) = i"
      using inv unfolding sta_inv_def by blast
    then have xp: "x \<noteq> p" using pf by auto
    have "x \<in> set (assoc st' v)" using v av q(3) by (cases "v = w") auto
    then show ?thesis using v s(1) [OF xp] by auto
  qed
  have "population st' = population st"
  proof -
    have aw: "set (assoc st' v) = (if v = w then insert p (set (assoc st v)) else set (assoc st v))" for v
      using av q(3) by auto
    have "(\<Union>v<5. set (assoc st' v)) = insert p (\<Union>v<5. set (assoc st v))"
      unfolding aw using w by auto
    then show ?thesis using q(1) free by (auto simp: population_def)
  qed
  then show ?thesis using qi mi' fwd bwd by (auto simp: sta_inv_def mc)
qed

text \<open>Changing other fields of stations and roles does not matter.\<close>

lemma sta_inv_cong:
  assumes "free_sta_queue st' = free_sta_queue st" and "mac_ctrl st' = mac_ctrl st"
    and "\<And>v. r_assoc_sta_queue (wifi_roles st' v) = r_assoc_sta_queue (wifi_roles st v)"
    and "\<And>x. s_wrole (stas st' x) = s_wrole (stas st x)" and "\<And>x. s_macid (stas st' x) = s_macid (stas st x)"
  shows "sta_inv st' = sta_inv st \<and> population st' = population st \<and> assoc st' = assoc st \<and> free_stas st' = free_stas st"
proof -
  have a: "assoc st' = assoc st" "free_stas st' = free_stas st"
    using assms(1,3) by (auto simp: assoc_def free_stas_def)
  then show ?thesis
    unfolding sta_inv_def queues_inv_def population_def a assms by simp
qed

lemma free_rotate_inv:
  assumes inv: "sta_inv st" and free: "free_stas st = p # ps"
    and q: "free_stas st' = ps @ [p]" "pq_wf (free_sta_queue st')"
      "\<And>v. r_assoc_sta_queue (wifi_roles st' v) = r_assoc_sta_queue (wifi_roles st v)"
    and s: "\<And>x. x \<noteq> p \<Longrightarrow> s_wrole (stas st' x) = s_wrole (stas st x) \<and> s_macid (stas st' x) = s_macid (stas st x)"
    and mc: "mac_ctrl st' = mac_ctrl st"
  shows "sta_inv st' \<and> population st' = population st"
proof -
  have a: "assoc st' = assoc st" using q(3) by (auto simp: assoc_def)
  have pf: "p \<notin> set (assoc st v)" if "v < 5" for v
    using inv free that by (auto simp: sta_inv_def queues_inv_def)
  have "distinct (p # ps)" using inv free unfolding sta_inv_def queues_inv_def by metis
  then have "queues_inv st'"
    using inv free q a by (auto simp: sta_inv_def queues_inv_def)
  moreover have "s_wrole (stas st' x) = s_wrole (stas st x) \<and> s_macid (stas st' x) = s_macid (stas st x)"
    if "v < 5" "x \<in> set (assoc st v)" for v x using that pf s by metis
  ultimately show ?thesis using inv unfolding sta_inv_def mc a population_def
    by (intro conjI) (metis, metis, metis, metis, auto simp: q free)
qed

lemma alloc_rsc_roles: "wifi_roles (fst (alloc_stainfo_rsc env p st)) = wifi_roles st"
proof -
  have m: "wifi_roles (fst (alloc_sta_macid p st)) = wifi_roles st" for st
    by (simp add: alloc_sta_macid_def upd_sta_def split: prod.splits option.splits)
  have r: "wifi_roles (fst (release_sta_macid p st)) = wifi_roles st" for st
    by (simp add: release_sta_macid_def upd_sta_def split: prod.splits)
  obtain st1 s1 where a: "alloc_sta_macid p st = (st1, s1)" by fastforce
  show ?thesis using m [of st] a by (simp add: alloc_stainfo_rsc_def Let_def r split: prod.splits)
qed

lemma alloc_rsc_cases:
  assumes "s_wrole (stas st p) = Some w" and "e_ring_alloc env" and "alloc_stainfo_rsc env p st = (st', status)"
  shows "(\<exists>mct mid t. phl_alloc_macid (Some w) (s_mac_addr (stas st p)) p (mac_ctrl st) =
             (mct, Some mid, RTW_PHL_STATUS_SUCCESS) \<and> status = RTW_PHL_STATUS_SUCCESS \<and>
             tring_inv t \<and> tring_content t = [] \<and> tl_macid t = mid \<and>
             st' = (upd_sta p (\<lambda>s. s\<lparr>s_macid := mid\<rparr>) (st\<lparr>mac_ctrl := mct\<rparr>))
                     \<lparr>sta_tx := (sta_tx st)\<lparr>t_ring_list := t_ring_list (sta_tx st) @ [t]\<rparr>\<rparr>) \<or>
         (status = RTW_PHL_STATUS_FAILURE \<and> used_ids (mac_ctrl st) = {..<max_num (mac_ctrl st)} \<and>
             st' = upd_sta p (\<lambda>s. s\<lparr>s_macid := max_num (mac_ctrl st)\<rparr>) st)"
proof -
  obtain mct m stat where al: "phl_alloc_macid (Some w) (s_mac_addr (stas st p)) p (mac_ctrl st) = (mct, m, stat)"
    using prod_cases3 by blast
  from alloc_cases [OF al] show ?thesis
  proof (elim disjE conjE exE)
    fix mid assume "m = Some mid" "stat = RTW_PHL_STATUS_SUCCESS"
    moreover obtain t where t: "phl_allocate_phl_tring_list True (e_chnl_map env) mid (r_hw_band (wifi_roles st w))
        (r_hw_wmm (wifi_roles st w)) (r_hw_port (wifi_roles st w)) = Some t"
      by (simp add: phl_allocate_phl_tring_list_def)
    ultimately show ?thesis using assms al fresh_tring_inv [OF t]
      by (auto simp: alloc_stainfo_rsc_def alloc_sta_macid_def phl_register_tx_ring_def upd_sta_def Let_def)
  next
    assume "stat = RTW_PHL_STATUS_FAILURE" "mct = mac_ctrl st" "m = Some (max_num (mac_ctrl st))"
      "used_ids (mac_ctrl st) = {..<max_num (mac_ctrl st)}"
    then show ?thesis using assms al by (auto simp: alloc_stainfo_rsc_def alloc_sta_macid_def upd_sta_def)
  qed
qed

lemma alloc_new_sta_inv:
  assumes inv: "sta_inv st" and w: "w < 5" and ring: "e_ring_alloc env"
    and e: "alloc_new_sta env addr w st = (st', r)"
  shows "sta_inv st' \<and> population st' = population st \<and>
    (case r of None \<Rightarrow> (free_stas st = [] \<or> used_ids (mac_ctrl st) = {..<max_num (mac_ctrl st)}) \<and>
         sta_tx st' = sta_tx st \<and> mac_ctrl st' = mac_ctrl st
     | Some p \<Rightarrow>
         (\<exists>t. tring_inv t \<and> tring_content t = [] \<and> tl_macid t = s_macid (stas st' p) \<and>
            sta_tx st' = (sta_tx st)\<lparr>t_ring_list := t_ring_list (sta_tx st) @ [t]\<rparr>) \<and>
         s_macid (stas st' p) \<notin> used_ids (mac_ctrl st) \<and>
         used_ids (mac_ctrl st') = insert (s_macid (stas st' p)) (used_ids (mac_ctrl st)) \<and>
         assoc st' w = assoc st w @ [p] \<and> s_mac_addr (stas st' p) = addr \<and> p \<in> set (free_stas st) \<and>
         (\<forall>x. x \<noteq> p \<longrightarrow> s_mac_addr (stas st' x) = s_mac_addr (stas st x)) \<and>
         (is_broadcast_mac_addr addr \<longrightarrow> wrole_bmc (mac_ctrl st') ! w = s_macid (stas st' p)))"
proof (cases "free_stas st")
  case Nil
  then have "st' = st \<and> r = None" using e by (simp add: alloc_new_sta_def phl_stainfo_dequeue_def free_stas_def)
  then show ?thesis using inv Nil by simp
next
  case (Cons p ps)
  let ?q = "(free_sta_queue st)\<lparr>queue := ps, cnt := cnt (free_sta_queue st) - 1\<rparr>"
  let ?st1 = "upd_sta p (\<lambda>s. s\<lparr>s_mac_addr := addr, s_wrole := Some w\<rparr>) (st\<lparr>free_sta_queue := ?q\<rparr>)"
  obtain st2 status where a: "alloc_stainfo_rsc env p ?st1 = (st2, status)" by fastforce
  have wf: "pq_wf (free_sta_queue st)" "pq_wf (r_assoc_sta_queue (wifi_roles st w))"
    using inv w by (simp_all add: sta_inv_def queues_inv_def)
  have pr: "s_wrole (stas ?st1 p) = Some w" by (simp add: upd_sta_def)
  note pops = alloc_new_sta_def phl_stainfo_dequeue_def phl_stainfo_enqueue_def
  from alloc_rsc_cases [OF pr ring a] show ?thesis
  proof (elim disjE conjE exE)
    fix mct mid t
    assume al: "phl_alloc_macid (Some w) (s_mac_addr (stas ?st1 p)) p (mac_ctrl ?st1) = (mct, Some mid, RTW_PHL_STATUS_SUCCESS)"
      and st2: "status = RTW_PHL_STATUS_SUCCESS" "st2 = (upd_sta p (\<lambda>s. s\<lparr>s_macid := mid\<rparr>) (?st1\<lparr>mac_ctrl := mct\<rparr>))
          \<lparr>sta_tx := (sta_tx ?st1)\<lparr>t_ring_list := t_ring_list (sta_tx ?st1) @ [t]\<rparr>\<rparr>"
      and t: "tring_inv t" "tring_content t = []" "tl_macid t = mid"
    then have r: "r = Some p" and st': "st' = upd_role w (\<lambda>r. r\<lparr>r_assoc_sta_queue :=
          fst (phl_stainfo_enqueue (r_assoc_sta_queue r) (Some p))\<rparr>) (upd_sta p phl_sta_set_default_value st2)"
      using e a Cons by (auto simp: pops free_stas_def)
    have "sta_inv st' \<and> population st' = population st"
    proof (rule join_inv [OF inv w Cons])
      show "phl_alloc_macid (Some w) (s_mac_addr (stas ?st1 p)) p (mac_ctrl st) = (mct, Some mid, RTW_PHL_STATUS_SUCCESS)"
        using al by (simp add: upd_sta_def)
    qed (use wf Cons in \<open>auto simp: st' st2 upd_role_def upd_sta_def phl_stainfo_enqueue_def assoc_def free_stas_def
          phl_sta_set_default_value_def pq_wf_def of_nat_diff\<close>)
    moreover have sh: "macid_shape (mac_ctrl st)" using inv by (simp add: sta_inv_def macid_inv_def)
    have al': "phl_alloc_macid (Some w) addr p (mac_ctrl st) = (mct, Some mid, RTW_PHL_STATUS_SUCCESS)"
      using al by (simp add: upd_sta_def)
    have mid: "mid < max_num (mac_ctrl st)" "mid \<notin> used_ids (mac_ctrl st)" using alloc_cases [OF al'] by auto
    note sets = alloc_sets [OF sh w mid(1) al']
    have "wrole_bmc mct ! w = mid" if "is_broadcast_mac_addr addr" using sets that sh w by (simp add: macid_shape_def)
    moreover have "\<exists>t. tring_inv t \<and> tring_content t = [] \<and> tl_macid t = s_macid (stas st' p) \<and>
        sta_tx st' = (sta_tx st)\<lparr>t_ring_list := t_ring_list (sta_tx st) @ [t]\<rparr>"
      by (rule exI [of _ t]) (simp add: t st' st2 upd_role_def upd_sta_def phl_sta_set_default_value_def)
    ultimately show ?thesis using r Cons mid(2) sets
      by (simp del: ex_simps add: st' st2 upd_role_def upd_sta_def phl_stainfo_enqueue_def assoc_def phl_sta_set_default_value_def)
  next
    assume f: "status = RTW_PHL_STATUS_FAILURE" "used_ids (mac_ctrl ?st1) = {..<max_num (mac_ctrl ?st1)}"
      "st2 = upd_sta p (\<lambda>s. s\<lparr>s_macid := max_num (mac_ctrl ?st1)\<rparr>) ?st1"
    then have r: "r = None" and st': "st' = st2\<lparr>free_sta_queue := fst (phl_stainfo_enqueue (free_sta_queue st2) (Some p))\<rparr>"
      using e a Cons by (auto simp: pops free_stas_def)
    have "sta_inv st' \<and> population st' = population st"
      by (rule free_rotate_inv [OF inv Cons])
        (use wf Cons in \<open>auto simp: st' f upd_sta_def phl_stainfo_enqueue_def free_stas_def pq_wf_def\<close>)
    then show ?thesis using r f(2) by (simp add: st' f(3) upd_sta_def)
  qed
qed

lemma by_addr_assoc:
  assumes "sta_inv st" and "w < 5" and "rtw_phl_get_stainfo_by_addr w addr st = Some p"
  shows "\<exists>v<5. p \<in> set (assoc st v)"
proof (cases "is_broadcast_mac_addr addr")
  case True
  then have "wrole_bmc (mac_ctrl st) ! w < max_num (mac_ctrl st)"
    "mc_sta (mac_ctrl st) ! (wrole_bmc (mac_ctrl st) ! w) = Some p"
    using assms(3) by (auto simp: rtw_phl_get_stainfo_by_addr_def Let_def split: if_splits)
  then show ?thesis using assms(1) unfolding sta_inv_def by blast
next
  case False
  then have "p \<in> set (assoc st w)"
    using assms(3)
    by (auto simp: rtw_phl_get_stainfo_by_addr_def phl_stainfo_queue_search_def assoc_def find_Some_iff)
  then show ?thesis using assms(2) by blast
qed

lemma rings_added_inv:
  assumes "rings_inv st" and "tring_inv t" and "tl_macid t \<notin> used_ids (mac_ctrl st)"
    and "sta_tx st' = (sta_tx st)\<lparr>t_ring_list := t_ring_list (sta_tx st) @ [t]\<rparr>"
    and "used_ids (mac_ctrl st') = insert (tl_macid t) (used_ids (mac_ctrl st))"
  shows "rings_inv st'"
  using assms by (auto simp: rings_inv_def tx_inv_def)


text \<open>The release of a station that is no longer in a queue.\<close>

lemma free_sw_effect:
  assumes inv: "sta_inv st" and w: "w < 5" and p: "p \<in> set (assoc st w)"
    and st1: "mac_ctrl st1 = mac_ctrl st" "\<And>x. s_macid (stas st1 x) = s_macid (stas st x)"
      "\<And>x. s_wrole (stas st1 x) = s_wrole (stas st x)"
  shows "\<exists>mct m. phl_release_macid w (s_mac_addr (stas st1 p)) (s_macid (stas st p)) (mac_ctrl st) =
        (mct, m, RTW_PHL_STATUS_SUCCESS) \<and> snd (phl_free_stainfo_sw (Some p) st1) = RTW_PHL_STATUS_SUCCESS \<and>
     (let st2 = fst (phl_free_stainfo_sw (Some p) st1) in
      mac_ctrl st2 = mct \<and> free_sta_queue st2 = free_sta_queue st1 \<and> wifi_roles st2 = wifi_roles st1 \<and>
      s_macid (stas st2 p) = max_num (mac_ctrl st) \<and>
      sta_tx st2 = fst (phl_deregister_tx_ring (s_macid (stas st p)) (sta_tx st1)) \<and>
      (\<forall>x. x \<noteq> p \<longrightarrow> s_wrole (stas st2 x) = s_wrole (stas st x) \<and> s_macid (stas st2 x) = s_macid (stas st x)))"
proof -
  note f = assoc_facts [OF inv w p]
  obtain mct m stat where r: "phl_release_macid w (s_mac_addr (stas st1 p)) (s_macid (stas st p)) (mac_ctrl st) =
      (mct, m, stat)" using prod_cases3 by blast
  then have s: "stat = RTW_PHL_STATUS_SUCCESS" "m = max_num (mac_ctrl st)"
    using f(3,4) by (auto simp: phl_release_macid_def Let_def used_ids_def split: if_splits)
  have wr: "s_wrole (stas st1 p) = Some w" using f(1) st1(3) by simp
  show ?thesis using r s st1 wr
    by (simp add: phl_free_stainfo_sw_def release_sta_macid_def upd_sta_def Let_def split: prod.splits)
qed

lemma self_chk_cong:
  "phl_self_stainfo_chk w p st = (st1, b) \<Longrightarrow>
     sta_inv st1 = sta_inv st \<and> population st1 = population st \<and> assoc st1 = assoc st \<and>
     free_sta_queue st1 = free_sta_queue st \<and> wifi_roles st1 = wifi_roles st \<and> mac_ctrl st1 = mac_ctrl st \<and> sta_tx st1 = sta_tx st \<and>
     (\<forall>x. s_wrole (stas st1 x) = s_wrole (stas st x) \<and> s_macid (stas st1 x) = s_macid (stas st x))"
proof -
  assume a: "phl_self_stainfo_chk w p st = (st1, b)"
  have "free_sta_queue st1 = free_sta_queue st \<and> wifi_roles st1 = wifi_roles st \<and> mac_ctrl st1 = mac_ctrl st \<and> sta_tx st1 = sta_tx st \<and>
     (\<forall>x. s_wrole (stas st1 x) = s_wrole (stas st x) \<and> s_macid (stas st1 x) = s_macid (stas st x))"
    using a by (auto simp: phl_self_stainfo_chk_def upd_sta_def split: role_type.splits)
  then show ?thesis using sta_inv_cong [of st1 st] by simp
qed

lemma deregister_moves:
  assumes "rings_inv st" and "mid \<in> used_ids (mac_ctrl st)"
  shows "\<exists>as t bs. t_ring_list (sta_tx st) = as @ t # bs \<and> tl_macid t = mid \<and>
     fst (phl_deregister_tx_ring mid (sta_tx st)) =
       (sta_tx st)\<lparr>t_ring_list := as @ bs, t_ring_free_list := t_ring_free_list (sta_tx st) @ [t]\<rparr>"
proof -
  have "mid \<in> tl_macid ` set (t_ring_list (sta_tx st))" using assms by (simp add: rings_inv_def)
  moreover have "mid \<in> tl_macid ` set ts \<Longrightarrow> take_tring mid ts \<noteq> None" for ts by (induction ts) auto
  ultimately have "take_tring mid (t_ring_list (sta_tx st)) \<noteq> None" by blast
  then obtain t rest where t: "take_tring mid (t_ring_list (sta_tx st)) = Some (t, rest)" by auto
  from take_tring_split [OF t] t show ?thesis by (auto simp: phl_deregister_tx_ring_def)
qed

text \<open>The ring list that leaves takes its requests to the deferred list, where none of them is lost.\<close>

lemma rings_moved_inv:
  assumes "rings_inv st" and "t_ring_list (sta_tx st) = as @ t # bs"
    and "sta_tx st' = (sta_tx st)\<lparr>t_ring_list := as @ bs, t_ring_free_list := t_ring_free_list (sta_tx st) @ [t]\<rparr>"
    and "used_ids (mac_ctrl st') = used_ids (mac_ctrl st) - {tl_macid t}"
  shows "rings_inv st' \<and> pending_reqs (sta_tx st') = pending_reqs (sta_tx st)"
proof -
  have n: "tl_macid t \<notin> tl_macid ` set (as @ bs)" "insert (tl_macid t) (tl_macid ` set (as @ bs)) = used_ids (mac_ctrl st)"
    using assms(1,2) by (auto simp: rings_inv_def)
  then have "tl_macid ` set (as @ bs) = used_ids (mac_ctrl st) - {tl_macid t}" by blast
  moreover have "distinct (map tl_macid (as @ bs))" using assms(1,2) by (simp add: rings_inv_def)
  moreover have "tx_inv (sta_tx st')" "pending_reqs (sta_tx st') = pending_reqs (sta_tx st)"
    using assms(1-3) by (auto simp: rings_inv_def tx_inv_def pending_reqs_def)
  ultimately show ?thesis by (simp add: rings_inv_def assms(3,4))
qed

text \<open>
  C35: Releasing an associated station keeps the tables consistent and loses no object. A
  role's own station stays where it is, with its rings; any other one goes to the free queue, its MAC id
  becomes unused and invalid in the station, and its list of transmit rings, which is there, is unlinked from the
  lists of the stations and appended as it is to the list of the deferred free: all others keep their place and no
  pending request is lost.
\<close>

theorem free_stainfo_keeps_tables:
  assumes "sta_inv st" and "rings_inv st" and "w < MAX_WIFI_ROLE_NUMBER" and "p \<in> set (assoc st w)"
    and "free_stainfo_sw (Some p) st = (st', status)"
  shows "status = RTW_PHL_STATUS_SUCCESS \<and> sta_inv st' \<and> rings_inv st' \<and> population st' = population st \<and>
    pending_reqs (sta_tx st') = pending_reqs (sta_tx st) \<and>
    (if \<not> is_broadcast_mac_addr (s_mac_addr (stas st p)) \<and> snd (phl_self_stainfo_chk w p st)
     then assoc st' = assoc st \<and> mac_ctrl st' = mac_ctrl st \<and> sta_tx st' = sta_tx st
     else free_stas st' = free_stas st @ [p] \<and> p \<notin> set (assoc st' w) \<and>
       used_ids (mac_ctrl st') = used_ids (mac_ctrl st) - {s_macid (stas st p)} \<and>
       s_macid (stas st' p) = max_num (mac_ctrl st) \<and>
       (\<exists>as t bs. t_ring_list (sta_tx st) = as @ t # bs \<and> tl_macid t = s_macid (stas st p) \<and>
          t_ring_list (sta_tx st') = as @ bs \<and>
          t_ring_free_list (sta_tx st') = t_ring_free_list (sta_tx st) @ [t]))"
proof -
  have w: "w < 5" using assms(3) by (simp add: MAX_WIFI_ROLE_NUMBER_def)
  note f = assoc_facts [OF assms(1) w assms(4)]
  obtain st1 b where chk: "(if \<not> is_broadcast_mac_addr (s_mac_addr (stas st p))
                     then phl_self_stainfo_chk w p st else (st, False)) = (st1, b)" by fastforce
  have c: "sta_inv st1" "population st1 = population st" "assoc st1 = assoc st" "free_sta_queue st1 = free_sta_queue st"
      "wifi_roles st1 = wifi_roles st" "mac_ctrl st1 = mac_ctrl st" "sta_tx st1 = sta_tx st"
      "\<And>x. s_wrole (stas st1 x) = s_wrole (stas st x)" "\<And>x. s_macid (stas st1 x) = s_macid (stas st x)"
    using chk self_chk_cong [of w p st st1 b] assms(1) by (auto split: if_splits)
  show ?thesis
  proof (cases b)
    case True
    then have "st' = st1" "status = RTW_PHL_STATUS_SUCCESS"
      using assms(5) chk f(1) by (simp_all add: free_stainfo_sw_def Let_def)
    then show ?thesis using c chk True assms(2) by (auto simp: rings_inv_def split: if_splits)
  next
    case False
    let ?st2 = "upd_role w (\<lambda>r. r\<lparr>r_assoc_sta_queue := fst (phl_stainfo_queue_del (r_assoc_sta_queue r) (Some p))\<rparr>) st1"
    let ?st3 = "fst (phl_free_stainfo_sw (Some p) ?st2)"
    have st': "st' = ?st3\<lparr>free_sta_queue := fst (phl_stainfo_enqueue (free_sta_queue ?st3) (Some p))\<rparr>"
      "status = RTW_PHL_STATUS_SUCCESS"
      using assms(5) chk f(1) False by (simp_all add: free_stainfo_sw_def Let_def phl_stainfo_enqueue_def)
    obtain mct m where r: "phl_release_macid w (s_mac_addr (stas ?st2 p)) (s_macid (stas st p)) (mac_ctrl st) =
        (mct, m, RTW_PHL_STATUS_SUCCESS)"
      and eff: "mac_ctrl ?st3 = mct" "free_sta_queue ?st3 = free_sta_queue ?st2" "wifi_roles ?st3 = wifi_roles ?st2"
        "s_macid (stas ?st3 p) = max_num (mac_ctrl st)"
        "sta_tx ?st3 = fst (phl_deregister_tx_ring (s_macid (stas st p)) (sta_tx ?st2))"
        "\<And>x. x \<noteq> p \<Longrightarrow> s_wrole (stas ?st3 x) = s_wrole (stas st x) \<and> s_macid (stas ?st3 x) = s_macid (stas st x)"
      using free_sw_effect [OF assms(1) w assms(4), of ?st2] c by (auto simp: upd_role_def Let_def)
    have e2: "free_sta_queue ?st3 = free_sta_queue st" unfolding eff(2) by (simp add: upd_role_def c)
    have e5: "sta_tx ?st3 = fst (phl_deregister_tx_ring (s_macid (stas st p)) (sta_tx st))"
      unfolding eff(5) by (simp add: upd_role_def c)
    have wf: "pq_wf (free_sta_queue st)" "pq_wf (r_assoc_sta_queue (wifi_roles st w))"
      using assms(1) w by (simp_all add: sta_inv_def queues_inv_def)
    have pin: "p \<in> set (queue (r_assoc_sta_queue (wifi_roles st w)))" using assms(4) by (simp add: assoc_def)
    then have cnt: "cnt (r_assoc_sta_queue (wifi_roles st w)) \<noteq> 0"
      using wf(2) by (auto simp: pq_wf_def)
    have aw: "assoc st' w = remove1 p (assoc st w)"
      using cnt by (simp add: st' upd_role_def c phl_stainfo_queue_del_def assoc_def)
    have fs: "free_stas st' = free_stas st @ [p]"
      by (simp add: st' e2 free_stas_def phl_stainfo_enqueue_def)
    have all: "sta_inv st' \<and> population st' = population st \<and> used_ids mct = used_ids (mac_ctrl st) - {s_macid (stas st p)}"
    proof (rule leave_inv [OF assms(1) w assms(4) r fs _ aw])
      show "pq_wf (free_sta_queue st')" using wf(1) by (simp add: st' e2 phl_stainfo_enqueue_def pq_wf_def)
      show "pq_wf (r_assoc_sta_queue (wifi_roles st' w))"
        using wf(2) pin cnt length_pos_if_in_set [OF pin]
        by (simp add: st' upd_role_def c phl_stainfo_queue_del_def pq_wf_def length_remove1 of_nat_diff Suc_le_eq)
    qed (use eff(1,6) in \<open>auto simp: st' upd_role_def c\<close>)
    have "distinct (assoc st w)" using assms(1) w by (simp add: sta_inv_def queues_inv_def)
    then have pn: "p \<notin> set (assoc st' w)" by (simp add: aw)
    have mc: "mac_ctrl st' = mct" "s_macid (stas st' p) = max_num (mac_ctrl st)" using eff(1,4) by (simp_all add: st'(1))
    obtain as t bs where m: "t_ring_list (sta_tx st) = as @ t # bs" "tl_macid t = s_macid (stas st p)"
      "sta_tx st' = (sta_tx st)\<lparr>t_ring_list := as @ bs, t_ring_free_list := t_ring_free_list (sta_tx st) @ [t]\<rparr>"
      using deregister_moves [OF assms(2) f(4)] e5 by (auto simp: st'(1))
    have ri: "rings_inv st' \<and> pending_reqs (sta_tx st') = pending_reqs (sta_tx st)"
      using rings_moved_inv [OF assms(2) m(1,3)] all by (simp add: m(2) mc(1))
    have "\<exists>as t bs. t_ring_list (sta_tx st) = as @ t # bs \<and> tl_macid t = s_macid (stas st p) \<and>
        t_ring_list (sta_tx st') = as @ bs \<and> t_ring_free_list (sta_tx st') = t_ring_free_list (sta_tx st) @ [t]"
      using m by auto
    then show ?thesis using False chk fs st'(2) all pn mc ri by (auto split: if_splits)
  qed
qed

lemma role_free_step_inv:
  fixes hw :: bool and del_ok :: "ptr \<Rightarrow> bool"
  assumes inv: "sta_inv st" and w: "w < 5" and a: "assoc st w = p # ps"
  defines "q \<equiv> (r_assoc_sta_queue (wifi_roles st w))\<lparr>queue := ps, cnt := cnt (r_assoc_sta_queue (wifi_roles st w)) - 1\<rparr>"
  defines "st' \<equiv> role_free_step hw del_ok p (upd_role w (\<lambda>r. r\<lparr>r_assoc_sta_queue := q\<rparr>) st)"
  shows "sta_inv st' \<and> population st' = population st \<and> assoc st' w = ps \<and> free_stas st' = free_stas st @ [p] \<and>
     (\<forall>v. v \<noteq> w \<longrightarrow> assoc st' v = assoc st v)"
proof -
  let ?st0 = "upd_role w (\<lambda>r. r\<lparr>r_assoc_sta_queue := q\<rparr>) st"
  let ?st1 = "if hw then fst (phl_free_stainfo_hw (del_ok p) (Some p) ?st0) else ?st0"
  let ?st2 = "fst (phl_free_stainfo_sw (Some p) ?st1)"
  have p: "p \<in> set (assoc st w)" using a by simp
  have c: "mac_ctrl ?st1 = mac_ctrl st" "free_sta_queue ?st1 = free_sta_queue st" "wifi_roles ?st1 = wifi_roles ?st0"
      "\<And>x. s_macid (stas ?st1 x) = s_macid (stas st x)" "\<And>x. s_wrole (stas ?st1 x) = s_wrole (stas st x)"
    by (simp_all add: phl_free_stainfo_hw_def upd_role_def upd_sta_def)
  from free_sw_effect [OF inv w p, of ?st1] c obtain mct m where
    r: "phl_release_macid w (s_mac_addr (stas ?st1 p)) (s_macid (stas st p)) (mac_ctrl st) = (mct, m, RTW_PHL_STATUS_SUCCESS)"
    and eff: "mac_ctrl ?st2 = mct" "free_sta_queue ?st2 = free_sta_queue ?st1" "wifi_roles ?st2 = wifi_roles ?st1"
      "\<And>x. x \<noteq> p \<Longrightarrow> s_wrole (stas ?st2 x) = s_wrole (stas st x) \<and> s_macid (stas ?st2 x) = s_macid (stas st x)"
    by (auto simp: Let_def)
  have st': "st' = ?st2\<lparr>free_sta_queue := fst (phl_stainfo_enqueue (free_sta_queue ?st2) (Some p))\<rparr>"
    by (simp add: st'_def role_free_step_def Let_def)
  have roles: "wifi_roles st' = (wifi_roles st)(w := (wifi_roles st w)\<lparr>r_assoc_sta_queue := q\<rparr>)"
    unfolding st'_def by (simp add: upd_role_def)
  have fq: "free_sta_queue st' = fst (phl_stainfo_enqueue (free_sta_queue st) (Some p))"
    unfolding st' by (simp add: eff(2) c(2) del: if_split)
  have aw: "assoc st' w = remove1 p (assoc st w)" using a by (simp add: assoc_def roles q_def)
  have fs: "free_stas st' = free_stas st @ [p]" by (simp add: fq free_stas_def phl_stainfo_enqueue_def)
  have wf: "pq_wf (free_sta_queue st)" "pq_wf (r_assoc_sta_queue (wifi_roles st w))"
    using inv w by (simp_all add: sta_inv_def queues_inv_def)
  have "sta_inv st' \<and> population st' = population st \<and> used_ids mct = used_ids (mac_ctrl st) - {s_macid (stas st p)}"
  proof (rule leave_inv [OF inv w p r fs _ aw])
    show "pq_wf (free_sta_queue st')" using wf(1) by (simp add: fq phl_stainfo_enqueue_def pq_wf_def)
    show "pq_wf (r_assoc_sta_queue (wifi_roles st' w))" using wf(2) a by (simp add: roles q_def pq_wf_def assoc_def)
    show "mac_ctrl st' = mct" by (simp add: st' eff(1) del: if_split)
    show "s_wrole (stas st' x) = s_wrole (stas st x) \<and> s_macid (stas st' x) = s_macid (stas st x)" if "x \<noteq> p" for x
      using eff(4) [OF that] by (simp add: st' del: if_split)
  qed (simp add: roles)
  moreover have "\<forall>v. v \<noteq> w \<longrightarrow> assoc st' v = assoc st v" by (simp add: assoc_def roles)
  ultimately show ?thesis using aw fs a by simp
qed

lemma role_free_loop_inv:
  "sta_inv st \<Longrightarrow> w < 5 \<Longrightarrow>
     sta_inv (role_free_loop hw del_ok w st) \<and> population (role_free_loop hw del_ok w st) = population st \<and>
     assoc (role_free_loop hw del_ok w st) w = [] \<and>
     free_stas (role_free_loop hw del_ok w st) = free_stas st @ assoc st w \<and>
     (\<forall>v. v \<noteq> w \<longrightarrow> assoc (role_free_loop hw del_ok w st) v = assoc st v)"
proof (induction "assoc st w" arbitrary: st)
  case Nil
  let ?r = "role_free_loop hw del_ok w st"
  have "?r = upd_role w (\<lambda>r. r\<lparr>r_assoc_sta_queue := r_assoc_sta_queue (wifi_roles st w)\<rparr>) st"
    using Nil.hyps by (simp add: role_free_loop.simps [of hw del_ok w st] phl_stainfo_dequeue_def assoc_def)
  then have "sta_inv ?r = sta_inv st \<and> population ?r = population st \<and> assoc ?r = assoc st \<and> free_stas ?r = free_stas st"
    by (intro sta_inv_cong) (simp_all add: upd_role_def)
  then show ?case using Nil by simp
next
  case (Cons p ps)
  let ?q = "(r_assoc_sta_queue (wifi_roles st w))\<lparr>queue := ps, cnt := cnt (r_assoc_sta_queue (wifi_roles st w)) - 1\<rparr>"
  let ?s = "role_free_step hw del_ok p (upd_role w (\<lambda>r. r\<lparr>r_assoc_sta_queue := ?q\<rparr>) st)"
  have eq: "role_free_loop hw del_ok w st = role_free_loop hw del_ok w ?s"
    using Cons.hyps(2) [symmetric]
    by (subst role_free_loop.simps) (simp add: phl_stainfo_dequeue_def assoc_def)
  from role_free_step_inv [OF Cons.prems Cons.hyps(2) [symmetric], of hw del_ok]
  have st: "sta_inv ?s" "population ?s = population st" "assoc ?s w = ps" "free_stas ?s = free_stas st @ [p]"
    "\<forall>v. v \<noteq> w \<longrightarrow> assoc ?s v = assoc st v" by simp_all
  from Cons.hyps(1) [OF st(3) [symmetric] st(1) Cons.prems(2)] st Cons.hyps(2) [symmetric] show ?case
    unfolding eq by simp
qed

lemma no_station_no_id:
  assumes inv: "sta_inv st" and w: "w < 5" and e: "assoc st w = []"
  shows "role_ids (mac_ctrl st) w = {}"
proof (rule ccontr)
  assume "role_ids (mac_ctrl st) w \<noteq> {}"
  then obtain mid where m: "mid \<in> role_ids (mac_ctrl st) w" by blast
  have mi: "macid_inv (mac_ctrl st)" using inv by (simp add: sta_inv_def)
  have lt: "mid < max_num (mac_ctrl st)" using m by (simp add: role_ids_def)
  have "used_ids (mac_ctrl st) = (\<Union>v<5. role_ids (mac_ctrl st) v)" using mi by (simp add: macid_inv_def)
  then have "mid \<in> used_ids (mac_ctrl st)" using m w by blast
  then obtain p where "mc_sta (mac_ctrl st) ! mid = Some p" using mi lt unfolding macid_inv_def by blast
  then obtain v where v: "v < 5" "p \<in> set (assoc st v)" "s_macid (stas st p) = mid"
    using inv lt unfolding sta_inv_def by blast
  then have "mid \<in> role_ids (mac_ctrl st) v" using assoc_facts(2) [OF inv v(1,2)] by simp
  moreover have "v \<noteq> w" using v e by auto
  ultimately show False using mi m v(1) w unfolding macid_inv_def by blast
qed

text \<open>Freeing the stations of a role ends: the role has no station and no MAC id left, its
  stations are back in the free queue in order, the other roles keep theirs, and the tables
  stay consistent.
\<close>

lemma role_free_stainfo_empties:
  assumes "sta_inv st" and "w < MAX_WIFI_ROLE_NUMBER"
    and "phl_wifi_role_free_stainfo del_ok w st = (st', status)"
  shows "status = RTW_PHL_STATUS_SUCCESS \<and> sta_inv st' \<and> population st' = population st \<and> assoc st' w = [] \<and>
     role_ids (mac_ctrl st') w = {} \<and> free_stas st' = free_stas st @ assoc st w \<and>
     (\<forall>v. v \<noteq> w \<longrightarrow> assoc st' v = assoc st v)"
proof -
  have w: "w < 5" using assms(2) by (simp add: MAX_WIFI_ROLE_NUMBER_def)
  have e: "st' = role_free_loop True del_ok w st" "status = RTW_PHL_STATUS_SUCCESS"
    using assms(3) by (simp_all add: phl_wifi_role_free_stainfo_def)
  from role_free_loop_inv [OF assms(1) w, of True del_ok] show ?thesis
    using no_station_no_id [of st' w] w by (simp add: e)
qed

lemma by_macid_of_assoc:
  assumes "sta_inv st" and "w < 5" and "p \<in> set (assoc st w)"
  shows "rtw_phl_get_stainfo_by_macid (s_macid (stas st p)) st = Some p"
  using assoc_facts [OF assms] by (simp add: rtw_phl_get_stainfo_by_macid_def used_ids_def)

lemma find_append_new: "find P xs = None \<Longrightarrow> P y \<Longrightarrow> find P (xs @ [y]) = Some y"
  by (induction xs) (auto split: if_splits)

lemma find_cong_set: "(\<And>x. x \<in> set xs \<Longrightarrow> P x = Q x) \<Longrightarrow> find P xs = find Q xs"
  by (induction xs) auto

text \<open>A station allocated for an address (unicast or broadcast) is the one found afterwards by
  that address in its role, and the one found by its MAC id.
\<close>

lemma alloc_then_lookup:
  assumes "sta_inv st" and "w < MAX_WIFI_ROLE_NUMBER" and "e_ring_alloc env"
    and "phl_alloc_stainfo_sw env addr w st = (st', Some p)"
  shows "rtw_phl_get_stainfo_by_addr w addr st' = Some p \<and>
     rtw_phl_get_stainfo_by_macid (s_macid (stas st' p)) st' = Some p"
proof -
  have w: "w < 5" using assms(2) by (simp add: MAX_WIFI_ROLE_NUMBER_def)
  let ?self = "if r_type (wifi_roles st w) = PHL_RTYPE_STATION \<and> \<not> is_broadcast_mac_addr addr
               then rtw_phl_get_stainfo_self w st else None"
  show ?thesis
  proof (cases ?self)
    case (Some x)
    then have e: "st' = upd_sta p (\<lambda>s. s\<lparr>s_mac_addr := addr\<rparr>) st" "x = p"
      using assms(4) by (auto simp: phl_alloc_stainfo_sw_def Let_def)
    have i: "sta_inv st' = sta_inv st \<and> population st' = population st \<and> assoc st' = assoc st \<and> free_stas st' = free_stas st"
      by (rule sta_inv_cong) (simp_all add: e upd_sta_def)
    obtain ps where q: "assoc st w = p # ps" "\<not> is_broadcast_mac_addr addr" using Some e(2)
      by (auto simp: rtw_phl_get_stainfo_self_def phl_stainfo_queue_get_first_def assoc_def split: if_splits list.splits)
    have "rtw_phl_get_stainfo_by_addr w addr st' = Some p" using q
      by (simp add: rtw_phl_get_stainfo_by_addr_def phl_stainfo_queue_search_def assoc_def e upd_sta_def)
    then show ?thesis using by_macid_of_assoc [of st' w p] i q w assms(1) by simp
  next
    case None
    show ?thesis
    proof (cases "rtw_phl_get_stainfo_by_addr w addr st")
      case (Some x)
      then have e: "st' = st" "x = p" using None assms(4) by (simp_all add: phl_alloc_stainfo_sw_def Let_def)
      then show ?thesis using Some by_addr_assoc [OF assms(1) w Some] by_macid_of_assoc [OF assms(1)] by auto
    next
      case n: None
      then have "alloc_new_sta env addr w st = (st', Some p)"
        using None assms(4) by (simp add: phl_alloc_stainfo_sw_def Let_def)
      from alloc_new_sta_inv [OF assms(1) w assms(3) this]
      have a: "sta_inv st'" "assoc st' w = assoc st w @ [p]" "s_mac_addr (stas st' p) = addr" "p \<in> set (free_stas st)"
        "\<And>x. x \<noteq> p \<Longrightarrow> s_mac_addr (stas st' x) = s_mac_addr (stas st x)"
        "is_broadcast_mac_addr addr \<Longrightarrow> wrole_bmc (mac_ctrl st') ! w = s_macid (stas st' p)" by auto
      note m = by_macid_of_assoc [OF a(1) w, of p] assoc_facts(3,5) [OF a(1) w, of p]
      have "rtw_phl_get_stainfo_by_addr w addr st' = Some p"
      proof (cases "is_broadcast_mac_addr addr")
        case True
        then show ?thesis using a m by (simp add: rtw_phl_get_stainfo_by_addr_def Let_def)
      next
        case False
        have p: "p \<notin> set (assoc st w)" using assms(1) w a(4) by (auto simp: sta_inv_def queues_inv_def)
        have "find (\<lambda>x. s_mac_addr (stas st x) = addr) (assoc st w) = None"
          using n False by (simp add: rtw_phl_get_stainfo_by_addr_def phl_stainfo_queue_search_def assoc_def)
        moreover have "find (\<lambda>x. s_mac_addr (stas st' x) = addr) (assoc st w) =
            find (\<lambda>x. s_mac_addr (stas st x) = addr) (assoc st w)"
          using a(5) p by (intro find_cong_set) metis
        ultimately have "find (\<lambda>x. s_mac_addr (stas st' x) = addr) (assoc st' w) = Some p"
          unfolding a(2) by (intro find_append_new) (simp_all add: a(3))
        then show ?thesis using False
          by (simp add: rtw_phl_get_stainfo_by_addr_def phl_stainfo_queue_search_def assoc_def)
      qed
      then show ?thesis using m a(2) by simp
    qed
  qed
qed

text \<open>When the transmit rings of a new station cannot be registered, the MAC id is given back
  but the allocation still reports the station: it is put into the role's queue with the
  invalid MAC id and without rings, and the tables are no longer consistent.
\<close>

lemma ring_failure_unnoticed:
  assumes "sta_inv st" and "w < MAX_WIFI_ROLE_NUMBER" and "\<not> e_ring_alloc env"
    and "free_stas st = p # ps" and "used_ids (mac_ctrl st) \<noteq> {..<max_num (mac_ctrl st)}"
    and "r_type (wifi_roles st w) \<noteq> PHL_RTYPE_STATION" and "rtw_phl_get_stainfo_by_addr w addr st = None"
  shows "\<exists>st'. phl_alloc_stainfo_sw env addr w st = (st', Some p) \<and> assoc st' w = assoc st w @ [p] \<and>
     s_macid (stas st' p) = max_num (mac_ctrl st) \<and> sta_tx st' = sta_tx st \<and>
     used_ids (mac_ctrl st') = used_ids (mac_ctrl st) \<and> \<not> sta_inv st'"
proof -
  have w: "w < 5" using assms(2) by (simp add: MAX_WIFI_ROLE_NUMBER_def)
  let ?q = "(free_sta_queue st)\<lparr>queue := ps, cnt := cnt (free_sta_queue st) - 1\<rparr>"
  let ?st1 = "upd_sta p (\<lambda>s. s\<lparr>s_mac_addr := addr, s_wrole := Some w\<rparr>) (st\<lparr>free_sta_queue := ?q\<rparr>)"
  obtain mct m stat where al: "phl_alloc_macid (Some w) addr p (mac_ctrl st) = (mct, m, stat)"
    using prod_cases3 by blast
  with alloc_cases [OF al] assms(5) obtain mid where
    m: "m = Some mid" "mid < max_num (mac_ctrl st)" "mid \<notin> used_ids (mac_ctrl st)" "stat = RTW_PHL_STATUS_SUCCESS" by blast
  have sh: "macid_shape (mac_ctrl st)" using assms(1) by (simp add: sta_inv_def macid_inv_def)
  note a = alloc_sets [OF sh w m(2) al [unfolded m(1,4)]]
  obtain mct2 m2 stat2 where rel: "phl_release_macid w addr mid mct = (mct2, m2, stat2)" using prod_cases3 by blast
  then have s2: "stat2 = RTW_PHL_STATUS_SUCCESS"
    using a m(2) by (auto simp: phl_release_macid_def Let_def used_ids_def set_eq_iff split: if_splits)
  note r = release_sets [OF conjunct1 [OF a] w rel [unfolded s2]]
  let ?st2 = "fst (release_sta_macid p ((upd_sta p (\<lambda>s. s\<lparr>s_macid := mid\<rparr>) (?st1\<lparr>mac_ctrl := mct\<rparr>))\<lparr>sta_tx := sta_tx st\<rparr>))"
  have rsc: "alloc_stainfo_rsc env p ?st1 = (?st2, RTW_PHL_STATUS_SUCCESS)"
    using al m assms(3) by (simp add: alloc_stainfo_rsc_def alloc_sta_macid_def upd_sta_def phl_register_tx_ring_def
        phl_allocate_phl_tring_list_def Let_def)
  have e2: "?st2 = (upd_sta p (\<lambda>s. s\<lparr>s_macid := m2\<rparr>)
      (upd_sta p (\<lambda>s. s\<lparr>s_macid := mid\<rparr>) (?st1\<lparr>mac_ctrl := mct\<rparr>)))\<lparr>mac_ctrl := mct2, sta_tx := sta_tx st\<rparr>"
    using rel by (simp add: release_sta_macid_def upd_sta_def)
  let ?st' = "upd_role w (\<lambda>r. r\<lparr>r_assoc_sta_queue := fst (phl_stainfo_enqueue (r_assoc_sta_queue r) (Some p))\<rparr>)
                (upd_sta p phl_sta_set_default_value ?st2)"
  have q: "queue (free_sta_queue st) = p # ps" using assms(4) by (simp add: free_stas_def)
  have "alloc_new_sta env addr w st = (?st', Some p)"
    unfolding alloc_new_sta_def phl_stainfo_dequeue_def q by (simp add: rsc)
  then have res: "phl_alloc_stainfo_sw env addr w st = (?st', Some p)"
    using assms(6,7) by (simp add: phl_alloc_stainfo_sw_def Let_def)
  have f: "assoc ?st' w = assoc st w @ [p]" "s_macid (stas ?st' p) = max_num (mac_ctrl st)" "sta_tx ?st' = sta_tx st"
      "mac_ctrl ?st' = mct2"
    unfolding e2 using r a
    by (simp_all add: upd_role_def upd_sta_def assoc_def phl_stainfo_enqueue_def phl_sta_set_default_value_def)
  have "max_num mct2 = max_num (mac_ctrl st)" using r a by simp
  then have "\<not> sta_inv ?st'" using assoc_facts(3) [of ?st' w p] f w by auto
  moreover have "used_ids mct2 = used_ids (mac_ctrl st)" using r a m(3) by auto
  ultimately show ?thesis using res f by blast
qed

section \<open>An example\<close>

text \<open>An access point as role 0 with no station yet, and two free station objects.\<close>

definition ex_stainfo :: rtw_phl_stainfo_t where
  "ex_stainfo = \<lparr>s_wrole = None, s_active = False, s_macid = 0, s_mac_addr = replicate 6 0, s_stats = ex_stats,
     s_bcn_hit_cond = 0, s_hit_rule = 0, s_addr_sel = 0, s_addr_msk = 0, s_tid_rx = replicate 8 None,
     s_protect = 0, s_sec_mode = 0, s_ps_sta = 0, s_cal_giltf = 0, s_bcn_i = ex_bcn\<rparr>"

definition ex_role :: rtw_wifi_role_t where
  "ex_role = \<lparr>r_type = PHL_RTYPE_AP, r_mstate = MLME_NO_LINK, r_hw_wmm = 0, r_mac_addr = [2, 0, 0, 0, 0, 1],
     r_hw_band = 0, r_hw_port = 0, r_assoc_sta_queue = pq_init\<rparr>"

definition ex_st :: sta_st where
  "ex_st = \<lparr>mac_ctrl = ex_mc, free_sta_queue = \<lparr>queue = [4, 7], cnt = 2\<rparr>, stas = (\<lambda>_. ex_stainfo),
     wifi_roles = (\<lambda>_. ex_role), sta_tx = tx_st_init, rx_recycled = []\<rparr>"

definition ex_env :: sta_env where
  "ex_env = \<lparr>e_ring_alloc = True, e_chnl_map = (\<lambda>_. 0), e_add_ok = True, e_del_ok = True\<rparr>"

definition ex_addr :: mac_addr where
  "ex_addr = [2, 0, 0, 0, 0, 9]"

definition ex_st1 :: sta_st where
  "ex_st1 = fst (phl_alloc_stainfo_sw ex_env ex_addr 0 ex_st)"

lemma ex_mc_sta: "mid < 128 \<Longrightarrow> mc_sta ex_mc ! mid = None"
  using ex_mc_facts by (auto simp: macid_inv_def)

lemma ex_st_inv: "sta_inv ex_st"
  using ex_mc_facts ex_mc_sta
  by (auto simp: sta_inv_def queues_inv_def ex_st_def ex_role_def assoc_def free_stas_def pq_wf_def pq_init_def)

lemma ex_st_facts:
  "free_stas ex_st = [4, 7]" "r_type (wifi_roles ex_st 0) \<noteq> PHL_RTYPE_STATION"
  "rtw_phl_get_stainfo_by_addr 0 ex_addr ex_st = None"
  "used_ids (mac_ctrl ex_st) \<noteq> {..<max_num (mac_ctrl ex_st)}"
  "used_ids (mac_ctrl ex_st) = {}" "max_num (mac_ctrl ex_st) = 128"
  using nat_set_not_empty
  by (simp_all add: ex_st_def ex_role_def free_stas_def rtw_phl_get_stainfo_by_addr_def ex_addr_def
      is_broadcast_mac_addr_def phl_stainfo_queue_search_def pq_init_def ex_mc_facts numeral_eq_Suc)

lemma ex_alloc:
  "\<exists>p. phl_alloc_stainfo_sw ex_env ex_addr 0 ex_st = (ex_st1, Some p) \<and> sta_inv ex_st1 \<and> assoc ex_st1 0 = [p] \<and>
     s_mac_addr (stas ex_st1 p) = ex_addr"
proof -
  obtain r where e: "phl_alloc_stainfo_sw ex_env ex_addr 0 ex_st = (ex_st1, r)"
    unfolding ex_st1_def by (metis prod.collapse)
  then have n: "alloc_new_sta ex_env ex_addr 0 ex_st = (ex_st1, r)"
    using ex_st_facts by (simp add: phl_alloc_stainfo_sw_def)
  have a: "assoc ex_st 0 = []" by (simp add: ex_st_def ex_role_def assoc_def pq_init_def)
  have "e_ring_alloc ex_env" by (simp add: ex_env_def)
  from alloc_new_sta_inv [OF ex_st_inv _ this n] ex_st_facts e a show ?thesis
    by (auto split: option.splits)
qed

lemma ex_st1_role: "r_type (wifi_roles ex_st1 0) = PHL_RTYPE_AP" "r_mac_addr (wifi_roles ex_st1 0) = [2, 0, 0, 0, 0, 1]"
proof -
  have "phl_alloc_stainfo_sw ex_env ex_addr 0 ex_st = alloc_new_sta ex_env ex_addr 0 ex_st"
    using ex_st_facts by (simp add: phl_alloc_stainfo_sw_def)
  then show "r_type (wifi_roles ex_st1 0) = PHL_RTYPE_AP" "r_mac_addr (wifi_roles ex_st1 0) = [2, 0, 0, 0, 0, 1]"
    using alloc_rsc_roles [of ex_env 4]
    by (simp_all add: ex_st1_def alloc_new_sta_def upd_role_def upd_sta_def ex_st_def ex_role_def
        phl_stainfo_dequeue_def Let_def split_beta)
qed


lemma ex_st_rings: "rings_inv ex_st"
  using ex_st_facts(5) by (simp add: rings_inv_def ex_st_def tx_st_init_def tx_inv_def)

lemma ex_st1_rings: "rings_inv ex_st1"
proof -
  obtain p where e: "phl_alloc_stainfo_sw ex_env ex_addr 0 ex_st = (ex_st1, Some p)" using ex_alloc by blast
  then have n: "alloc_new_sta ex_env ex_addr 0 ex_st = (ex_st1, Some p)"
    using ex_st_facts by (simp add: phl_alloc_stainfo_sw_def)
  have "e_ring_alloc ex_env" by (simp add: ex_env_def)
  from alloc_new_sta_inv [OF ex_st_inv _ this n] rings_added_inv [OF ex_st_rings, of _ ex_st1] show ?thesis by auto
qed


theorem free_stainfo_keeps_tables_witness:
  "\<exists>p st'. assoc ex_st1 0 = [p] \<and> free_stainfo_sw (Some p) ex_st1 = (st', RTW_PHL_STATUS_SUCCESS) \<and> sta_inv st' \<and>
     free_stas st' = free_stas ex_st1 @ [p] \<and> used_ids (mac_ctrl st') = used_ids (mac_ctrl ex_st1) - {s_macid (stas ex_st1 p)} \<and>
     (\<exists>as t bs. t_ring_list (sta_tx ex_st1) = as @ t # bs \<and> tl_macid t = s_macid (stas ex_st1 p) \<and>
        t_ring_list (sta_tx st') = as @ bs \<and> t_ring_free_list (sta_tx st') = t_ring_free_list (sta_tx ex_st1) @ [t])"
proof -
  obtain p where a: "sta_inv ex_st1" "assoc ex_st1 0 = [p]" "s_mac_addr (stas ex_st1 p) = ex_addr"
    using ex_alloc by blast
  have mx: "(0::nat) < MAX_WIFI_ROLE_NUMBER" by (simp add: MAX_WIFI_ROLE_NUMBER_def)
  have p: "p \<in> set (assoc ex_st1 0)" using a(2) by simp
  obtain st' status where e: "free_stainfo_sw (Some p) ex_st1 = (st', status)" by fastforce
  have "\<not> snd (phl_self_stainfo_chk 0 p ex_st1)"
    using ex_st1_role a(3) by (simp add: phl_self_stainfo_chk_def ex_addr_def)
  with free_stainfo_keeps_tables [OF a(1) ex_st1_rings mx p e] a(2) e show ?thesis by auto
qed

end
