(* ===== verification/Phl_Media.thy ===== *)
theory Phl_Media
  imports Phl_Sta
begin

text \<open>
  The rest of \<^verbatim>\<open>phl/phl_sta.c\<close>: the media status of a station, changes of its settings, the
  commands that wrap these and the allocation for the command dispatcher, the traffic update
  over all stations, and the transmit report counters read by the core.

  The answer of the dispatcher's \<^verbatim>\<open>phl_cmd_enqueue\<close> and those of the HAL are arguments.
\<close>

section \<open>Media status\<close>

text \<open>Is the station linked, do the two HAL updates succeed, and is the channel (if known) DFS.\<close>

record media_env =
  m_sta_linked :: bool
  m_update_ok :: bool
  m_role_cfg_ok :: bool
  m_reg_dfs :: "bool option"

datatype media_eff = SetDfsTbCtrl bool | UpdateStaEntry nat bool | RoleCfg nat | PktOfldAdd nat | PktOfldDel nat

definition phl_media_sta_notify :: "nat \<Rightarrow> bool \<Rightarrow> media_eff list" where
  "phl_media_sta_notify macid is_connect = (if is_connect then [PktOfldAdd macid] else [PktOfldDel macid])"

definition phl_set_dfs_tb_ctrl :: "bool option \<Rightarrow> media_eff list" where
  "phl_set_dfs_tb_ctrl reg_dfs = (case reg_dfs of None \<Rightarrow> [] | Some is_dfs \<Rightarrow> [SetDfsTbCtrl is_dfs])"

definition phl_update_media_status ::
  "media_env \<Rightarrow> ptr \<Rightarrow> mac_addr \<Rightarrow> bool \<Rightarrow> sta_st \<Rightarrow> sta_st \<times> media_eff list \<times> rtw_phl_status" where
  "phl_update_media_status env p sta_addr is_connect st =
     (let w = the (s_wrole (stas st p)); role = wifi_roles st w; macid = s_macid (stas st p) in
      if is_connect \<and> m_sta_linked env then (st, [], RTW_PHL_STATUS_FAILURE)
      else if \<not> is_connect \<and> \<not> m_sta_linked env then
        ((if r_type role = PHL_RTYPE_STATION \<or> r_type role = PHL_RTYPE_P2P_GC
          then upd_role w (\<lambda>r. r\<lparr>r_mstate := MLME_NO_LINK\<rparr>) st else st),
         [], if r_mstate role = MLME_LINKING then RTW_PHL_STATUS_SUCCESS else RTW_PHL_STATUS_FAILURE)
      else
        let st1 = (if \<not> is_connect
                   then upd_sta p (\<lambda>s. s\<lparr>s_stats := phl_reset_rx_stats (phl_reset_tx_stats (s_stats s))\<rparr>) st
                   else upd_sta p (\<lambda>s. s\<lparr>s_bcn_i := phl_clean_sta_bcn_info (s_bcn_i s)\<rparr>) st);
            st2 = (if r_type role = PHL_RTYPE_STATION
                   then (if is_connect
                         then upd_sta p (\<lambda>s. s\<lparr>s_mac_addr := sta_addr\<rparr>)
                                (upd_role w (\<lambda>r. r\<lparr>r_mstate := MLME_LINKED\<rparr>) st1)
                         else upd_role w (\<lambda>r. r\<lparr>r_mstate := MLME_NO_LINK\<rparr>) st1)
                   else st1);
            eff2 = (if r_type role = PHL_RTYPE_STATION \<and> is_connect
                    then phl_set_dfs_tb_ctrl (m_reg_dfs env) else []) @ [UpdateStaEntry macid is_connect]
        in if \<not> m_update_ok env then (st2, eff2, RTW_PHL_STATUS_FAILURE)
           else
             let eff3 = eff2 @ (if r_type role = PHL_RTYPE_STATION then [RoleCfg w] else []) in
             if r_type role = PHL_RTYPE_STATION \<and> \<not> m_role_cfg_ok env
             then (st2, eff3, RTW_PHL_STATUS_FAILURE)
             else (st2, eff3 @ phl_media_sta_notify macid is_connect, RTW_PHL_STATUS_SUCCESS))"

section \<open>Changed settings\<close>

datatype sta_chg_id =
    STA_CHG_BW | STA_CHG_NSS | STA_CHG_RAMASK | STA_CHG_SEC_MODE | STA_CHG_MBSSID | STA_CHG_RA_GILTF | STA_CHG_MAX

definition phl_change_stainfo :: "bool \<Rightarrow> rtw_phl_status" where
  "phl_change_stainfo hal_ok = (if hal_ok then RTW_PHL_STATUS_SUCCESS else RTW_PHL_STATUS_FAILURE)"

text \<open>\<open>chg_info\<close> is the byte at \<^verbatim>\<open>chg_info\<close>.\<close>

definition change_stainfo :: "bool \<Rightarrow> ptr \<Rightarrow> sta_chg_id \<Rightarrow> nat \<Rightarrow> sta_st \<Rightarrow> sta_st \<times> rtw_phl_status" where
  "change_stainfo hal_ok p chg_id chg_info st =
     ((case chg_id of
         STA_CHG_SEC_MODE \<Rightarrow> upd_sta p (\<lambda>s. s\<lparr>s_sec_mode := chg_info\<rparr>) st
       | STA_CHG_MBSSID \<Rightarrow> upd_sta p (\<lambda>s. s\<lparr>s_addr_sel := 1, s_addr_msk := chg_info\<rparr>) st
       | STA_CHG_RA_GILTF \<Rightarrow> upd_sta p (\<lambda>s. s\<lparr>s_cal_giltf := chg_info\<rparr>) st
       | _ \<Rightarrow> st),
      phl_change_stainfo hal_ok)"

section \<open>Commands\<close>

datatype phl_cmd_type = PHL_CMD_DIRECTLY | PHL_CMD_NO_WAIT | PHL_CMD_WAIT | PHL_CMD_MAX

text \<open>
  What became of the command's parameter block: none was made, the dispatcher owns it and
  frees it in the completion callback, or the sender freed it.
\<close>

datatype param_fate = NoParam | OwnedByDispatcher | FreedBySender

text \<open>The status handling after \<^verbatim>\<open>phl_cmd_enqueue\<close> that the three commands share.\<close>

definition after_enqueue :: "rtw_phl_status \<Rightarrow> rtw_phl_status \<times> param_fate" where
  "after_enqueue psts =
     (if is_cmd_failure psts then (RTW_PHL_STATUS_FAILURE, OwnedByDispatcher)
      else if psts \<noteq> RTW_PHL_STATUS_SUCCESS then (RTW_PHL_STATUS_FAILURE, FreedBySender)
      else (psts, OwnedByDispatcher))"

definition phl_cmd_alloc_stainfo ::
  "phl_cmd_type \<Rightarrow> bool \<Rightarrow> rtw_phl_status \<Rightarrow> sta_env \<Rightarrow> ptr option \<Rightarrow> mac_addr \<Rightarrow> nat \<Rightarrow> bool \<Rightarrow> bool \<Rightarrow> sta_st
     \<Rightarrow> sta_st \<times> ptr option \<times> rtw_phl_status \<times> param_fate" where
  "phl_cmd_alloc_stainfo cmd_type param_alloc enq env sta sta_addr w alloc only_hw st =
     (if cmd_type = PHL_CMD_DIRECTLY then
        (case phl_alloc_stainfo env sta sta_addr w alloc only_hw st of
           (st', sta', psts) \<Rightarrow> (st', sta', psts, NoParam))
      else if \<not> param_alloc then (st, sta, RTW_PHL_STATUS_RESOURCE, NoParam)
      else (case after_enqueue enq of (psts, fate) \<Rightarrow> (st, sta, psts, fate)))"

definition rtw_phl_cmd_update_media_status ::
  "phl_cmd_type \<Rightarrow> bool \<Rightarrow> rtw_phl_status \<Rightarrow> media_env \<Rightarrow> ptr \<Rightarrow> mac_addr \<Rightarrow> bool \<Rightarrow> sta_st
     \<Rightarrow> sta_st \<times> media_eff list \<times> rtw_phl_status \<times> param_fate" where
  "rtw_phl_cmd_update_media_status cmd_type param_alloc enq env p sta_addr is_connect st =
     (if cmd_type = PHL_CMD_DIRECTLY then
        (case phl_update_media_status env p sta_addr is_connect st of
           (st', eff, psts) \<Rightarrow> (st', eff, psts, NoParam))
      else if \<not> param_alloc then (st, [], RTW_PHL_STATUS_RESOURCE, NoParam)
      else (case after_enqueue enq of (psts, fate) \<Rightarrow> (st, [], psts, fate)))"

text \<open>The information bytes are a second block; it shares the fate of the first.\<close>

definition phl_cmd_change_stainfo ::
  "phl_cmd_type \<Rightarrow> bool \<Rightarrow> bool \<Rightarrow> rtw_phl_status \<Rightarrow> bool \<Rightarrow> ptr \<Rightarrow> sta_chg_id \<Rightarrow> nat \<Rightarrow> nat \<Rightarrow> sta_st
     \<Rightarrow> sta_st \<times> rtw_phl_status \<times> param_fate" where
  "phl_cmd_change_stainfo cmd_type param_alloc info_alloc enq hal_ok p chg_id chg_info chg_info_len st =
     (if cmd_type = PHL_CMD_DIRECTLY then
        (case change_stainfo hal_ok p chg_id chg_info st of (st', psts) \<Rightarrow> (st', psts, NoParam))
      else if \<not> param_alloc then (st, RTW_PHL_STATUS_RESOURCE, NoParam)
      else if chg_info_len > 0 \<and> \<not> info_alloc then (st, RTW_PHL_STATUS_RESOURCE, FreedBySender)
      else (case after_enqueue enq of (psts, fate) \<Rightarrow> (st, psts, fate)))"

section \<open>Traffic update\<close>

text \<open>The second component lists the MAC ids a transmit report is asked for.\<close>

fun tfc_upd_loop :: "nat list \<Rightarrow> sta_st \<Rightarrow> sta_st \<times> nat list" where
  "tfc_upd_loop [] st = (st, [])"
| "tfc_upd_loop (mid # mids) st =
     (if phl_macid_is_used (used_map (mac_ctrl st)) mid then
        (case mc_sta (mac_ctrl st) ! mid of
           None \<Rightarrow> tfc_upd_loop mids st
         | Some p \<Rightarrow>
             (case tfc_upd_loop mids
                     (upd_sta p (\<lambda>s. s\<lparr>s_stats := phl_rx_traffic_upd (phl_tx_traffic_upd (s_stats s))\<rparr>) st) of
                (st', asked) \<Rightarrow> (st', s_macid (stas st p) # asked)))
      else tfc_upd_loop mids st)"

definition phl_sta_trx_tfc_upd :: "sta_st \<Rightarrow> sta_st \<times> nat list" where
  "phl_sta_trx_tfc_upd st = tfc_upd_loop [0..<max_num (mac_ctrl st)] st"

section \<open>Transmit reports\<close>

definition PHL_AC_QUEUE_TOTAL :: nat where "PHL_AC_QUEUE_TOTAL = 4"

record rtw_wp_rpt_stats =
  wp_tx_ok_cnt :: u32
  wp_rty_fail_cnt :: u32
  wp_lifetime_drop_cnt :: u32
  wp_macid_drop_cnt :: u32

text \<open>
  The counters of the four access categories of a station, the caller's buffer (\<^const>\<open>None\<close>
  is NULL) and the queue; the results are the counters, the buffer and the status. A queue
  beyond the total is refused. The buffer has room for the entry that is written: the entry of
  the queue, or all four.
\<close>

definition rtw_phl_get_tx_ok_rpt ::
  "rtw_wp_rpt_stats list option \<Rightarrow> u32 list option \<Rightarrow> nat
     \<Rightarrow> rtw_wp_rpt_stats list option \<times> u32 list option \<times> rtw_phl_status" where
  "rtw_phl_get_tx_ok_rpt sta buf qsel =
     (case (sta, buf) of
        (Some wp, Some out) \<Rightarrow>
          if qsel > PHL_AC_QUEUE_TOTAL then (sta, buf, RTW_PHL_STATUS_FAILURE)
          else if qsel = PHL_AC_QUEUE_TOTAL then
            (Some (map (\<lambda>c. c\<lparr>wp_tx_ok_cnt := 0\<rparr>) wp),
             Some (map wp_tx_ok_cnt (take PHL_AC_QUEUE_TOTAL wp) @ drop PHL_AC_QUEUE_TOTAL out),
             RTW_PHL_STATUS_SUCCESS)
          else
            (Some (wp[qsel := (wp ! qsel)\<lparr>wp_tx_ok_cnt := 0\<rparr>]), Some (out[0 := wp_tx_ok_cnt (wp ! qsel)]),
             RTW_PHL_STATUS_SUCCESS)
      | _ \<Rightarrow> (sta, buf, RTW_PHL_STATUS_FAILURE))"

definition rtw_phl_get_hw_tx_fail_cnt :: "rtw_wp_rpt_stats \<Rightarrow> u32" where
  "rtw_phl_get_hw_tx_fail_cnt c = wp_rty_fail_cnt c + wp_lifetime_drop_cnt c + wp_macid_drop_cnt c"

definition rtw_phl_reset_tx_fail_cnt :: "rtw_wp_rpt_stats \<Rightarrow> rtw_wp_rpt_stats" where
  "rtw_phl_reset_tx_fail_cnt c = c\<lparr>wp_rty_fail_cnt := 0, wp_lifetime_drop_cnt := 0, wp_macid_drop_cnt := 0\<rparr>"

definition rtw_phl_get_tx_fail_rpt ::
  "rtw_wp_rpt_stats list option \<Rightarrow> u32 list option \<Rightarrow> nat
     \<Rightarrow> rtw_wp_rpt_stats list option \<times> u32 list option \<times> rtw_phl_status" where
  "rtw_phl_get_tx_fail_rpt sta buf qsel =
     (case (sta, buf) of
        (Some wp, Some out) \<Rightarrow>
          if qsel > PHL_AC_QUEUE_TOTAL then (sta, buf, RTW_PHL_STATUS_FAILURE)
          else if qsel = PHL_AC_QUEUE_TOTAL then
            (Some (map rtw_phl_reset_tx_fail_cnt wp),
             Some (map rtw_phl_get_hw_tx_fail_cnt (take PHL_AC_QUEUE_TOTAL wp) @ drop PHL_AC_QUEUE_TOTAL out),
             RTW_PHL_STATUS_SUCCESS)
          else
            (Some (wp[qsel := rtw_phl_reset_tx_fail_cnt (wp ! qsel)]),
             Some (out[qsel := rtw_phl_get_hw_tx_fail_cnt (wp ! qsel)]), RTW_PHL_STATUS_SUCCESS)
      | _ \<Rightarrow> (sta, buf, RTW_PHL_STATUS_FAILURE))"

definition rtw_phl_get_tx_retry_rpt ::
  "u32 list option \<Rightarrow> u32 list option \<Rightarrow> nat \<Rightarrow> u32 list option \<times> u32 list option \<times> rtw_phl_status" where
  "rtw_phl_get_tx_retry_rpt sta buf qsel =
     (case (sta, buf) of
        (Some cnts, Some out) \<Rightarrow>
          if qsel > PHL_AC_QUEUE_TOTAL then (sta, buf, RTW_PHL_STATUS_FAILURE)
          else if qsel = PHL_AC_QUEUE_TOTAL then
            (Some (replicate PHL_AC_QUEUE_TOTAL 0),
             Some (take PHL_AC_QUEUE_TOTAL cnts @ drop PHL_AC_QUEUE_TOTAL out), RTW_PHL_STATUS_SUCCESS)
          else (Some (cnts[qsel := 0]), Some (out[0 := cnts ! qsel]), RTW_PHL_STATUS_SUCCESS)
      | _ \<Rightarrow> (sta, buf, RTW_PHL_STATUS_FAILURE))"

section \<open>Properties of the media status\<close>

text \<open>A media-status update keeps the station tables consistent. A repeated connect or
  disconnect reaches no hardware and leaves the statistics alone; a disconnect while linking
  counts as an aborted connect and succeeds. A successful update of a client role leaves the
  role linked exactly on a connect, with the peer's address stored and the beacon history
  cleared, and pushes the station entry once.
\<close>

lemma media_status_update:
  assumes "sta_inv st" and "w < MAX_WIFI_ROLE_NUMBER" and "p \<in> set (assoc st w)"
    and "phl_update_media_status env p addr is_connect st = (st', eff, status)"
  shows "sta_inv st' \<and>
    (if is_connect = m_sta_linked env
     then eff = [] \<and> stas st' = stas st \<and>
       (status = RTW_PHL_STATUS_SUCCESS \<longleftrightarrow> \<not> is_connect \<and> r_mstate (wifi_roles st w) = MLME_LINKING)
     else (status = RTW_PHL_STATUS_SUCCESS \<longleftrightarrow>
             m_update_ok env \<and> (r_type (wifi_roles st w) = PHL_RTYPE_STATION \<longrightarrow> m_role_cfg_ok env)) \<and>
       count_list eff (UpdateStaEntry (s_macid (stas st p)) is_connect) = 1 \<and>
       (r_type (wifi_roles st w) = PHL_RTYPE_STATION \<longrightarrow>
          r_mstate (wifi_roles st' w) = (if is_connect then MLME_LINKED else MLME_NO_LINK) \<and>
          (is_connect \<longrightarrow> s_mac_addr (stas st' p) = addr \<and> bi_num (s_bcn_i (stas st' p)) = 0)))"
proof -
  have w: "w < 5" using assms(2) by (simp add: MAX_WIFI_ROLE_NUMBER_def)
  have r: "s_wrole (stas st p) = Some w" by (rule assoc_facts(1) [OF assms(1) w assms(3)])
  have "sta_inv st' = sta_inv st \<and> population st' = population st \<and> assoc st' = assoc st \<and> free_stas st' = free_stas st"
    using assms(4) by (intro sta_inv_cong)
      (auto simp: phl_update_media_status_def Let_def upd_role_def upd_sta_def split: if_splits)
  then have "sta_inv st'" using assms(1) by simp
  then show ?thesis using assms(4) r
    by (cases is_connect; cases "m_sta_linked env"; cases "m_reg_dfs env")
      (auto simp: phl_update_media_status_def Let_def upd_role_def upd_sta_def phl_set_dfs_tb_ctrl_def
        phl_media_sta_notify_def phl_clean_sta_bcn_info_def split: if_splits)
qed

section \<open>Properties of commands and reports\<close>

text \<open>A command that goes through the dispatcher changes no station state in the sender, and
  its parameter block has exactly one owner: the sender frees it when the command was not
  accepted, and the dispatcher owns it when it was, also when waiting for it failed; the
  sender sees success only for an accepted command that succeeded.
\<close>

lemma media_cmd_param_owned_once:
  assumes "cmd_type \<noteq> PHL_CMD_DIRECTLY"
    and "rtw_phl_cmd_update_media_status cmd_type param_alloc enq env p addr is_connect st = (st', eff, psts, fate)"
  shows "st' = st \<and> eff = [] \<and> (fate = NoParam \<longleftrightarrow> \<not> param_alloc) \<and>
     (psts = RTW_PHL_STATUS_SUCCESS \<longleftrightarrow> param_alloc \<and> enq = RTW_PHL_STATUS_SUCCESS) \<and>
     (fate = FreedBySender \<longleftrightarrow> param_alloc \<and> enq \<noteq> RTW_PHL_STATUS_SUCCESS \<and> \<not> is_cmd_failure enq)"
  using assms
  by (auto simp: rtw_phl_cmd_update_media_status_def after_enqueue_def is_cmd_failure_def split: if_splits)

text \<open>
  Reading a transmit report of one access category returns its counter and clears it and
  no other; the success report is stored at the start of the caller's buffer, the failure
  report at the index of the category.
\<close>

lemma tx_report_reads_and_clears:
  assumes "length wp = 4" and "length out = 4" and "qsel < 4"
  shows "rtw_phl_get_tx_ok_rpt (Some wp) (Some out) qsel =
       (Some (wp[qsel := (wp ! qsel)\<lparr>wp_tx_ok_cnt := 0\<rparr>]), Some (out[0 := wp_tx_ok_cnt (wp ! qsel)]), RTW_PHL_STATUS_SUCCESS) \<and>
     (\<exists>wp' out'. rtw_phl_get_tx_fail_rpt (Some wp) (Some out) qsel = (Some wp', Some out', RTW_PHL_STATUS_SUCCESS) \<and>
        out' ! qsel = wp_rty_fail_cnt (wp ! qsel) + wp_lifetime_drop_cnt (wp ! qsel) + wp_macid_drop_cnt (wp ! qsel) \<and>
        (\<forall>j<4. j \<noteq> qsel \<longrightarrow> out' ! j = out ! j \<and> wp' ! j = wp ! j) \<and> rtw_phl_get_hw_tx_fail_cnt (wp' ! qsel) = 0)"
  using assms
  by (auto simp: rtw_phl_get_tx_ok_rpt_def rtw_phl_get_tx_fail_rpt_def PHL_AC_QUEUE_TOTAL_def
      rtw_phl_reset_tx_fail_cnt_def rtw_phl_get_hw_tx_fail_cnt_def nth_list_update)

end
