(* ===== verification/Phl_Usb_Buf.thy ===== *)
theory Phl_Usb_Buf
  imports Phl_Queue Phl_Fifo
begin

text \<open>
  The receive buffers of the USB interface, \<^verbatim>\<open>struct rtw_rx_buf_ring\<close> of
  \<^verbatim>\<open>phl/hci/phl_trx_usb.c\<close>: a fixed block of buffers that are idle, busy (given to the USB core
  by an in token), pending (filled, waiting for the receive handler), or held by the received
  packets that point into them, counted by \<^verbatim>\<open>pktcnt\<close>.

  A buffer is its index in the block. The answers of the HAL (the descriptor size) and of the USB
  core (whether it takes the request) are arguments; the timer is the flag whether it is armed.
\<close>

section \<open>Buffers and their lists\<close>

record rtw_rx_buf =
  rb_pipe_idx :: nat
  rb_pktcnt :: nat
  rb_transfer_len :: nat

record rtw_rx_buf_ring =
  block_cnt_alloc :: nat
  rx_bufs :: "ptr \<Rightarrow> rtw_rx_buf"
  idle_rxbuf_list :: "ptr phl_queue"
  busy_rxbuf_list :: "ptr phl_queue"
  pend_rxbuf_list :: "ptr phl_queue"
  deferred_timer :: bool

definition WLAN_IN_MPDU_PIPE_IDX :: nat where "WLAN_IN_MPDU_PIPE_IDX = 0"

definition upd_rxbuf :: "ptr \<Rightarrow> (rtw_rx_buf \<Rightarrow> rtw_rx_buf) \<Rightarrow> rtw_rx_buf_ring \<Rightarrow> rtw_rx_buf_ring" where
  "upd_rxbuf b f ring = ring\<lparr>rx_bufs := (rx_bufs ring)(b := f (rx_bufs ring b))\<rparr>"

text \<open>
  The loop of \<^verbatim>\<open>_phl_rx_init_usb\<close>; \<open>buffer_alloc i\<close> is whether the memory of buffer \<open>i\<close> is
  there. The loop ends at the first failure, which the code then overwrites by success.
\<close>

fun rx_init_loop :: "(nat \<Rightarrow> bool) \<Rightarrow> nat list \<Rightarrow> rtw_rx_buf_ring \<Rightarrow> rtw_rx_buf_ring" where
  "rx_init_loop buffer_alloc [] ring = ring"
| "rx_init_loop buffer_alloc (i # is) ring =
     (if \<not> buffer_alloc i then ring
      else
        let ring1 = upd_rxbuf i (\<lambda>b. b\<lparr>rb_pktcnt := 0\<rparr>) ring
        in rx_init_loop buffer_alloc is
             (ring1\<lparr>idle_rxbuf_list := fst (pq_push (idle_rxbuf_list ring1) i Tail)\<rparr>))"

definition phl_rx_init_usb ::
  "bool \<Rightarrow> bool \<Rightarrow> (nat \<Rightarrow> bool) \<Rightarrow> (ptr \<Rightarrow> rtw_rx_buf) \<Rightarrow> nat \<Rightarrow> nat \<Rightarrow> rtw_rx_buf_ring option \<times> rtw_phl_status" where
  "phl_rx_init_usb ring_alloc block_alloc buffer_alloc mem pipe_cnt num_rxbuf =
     (if \<not> ring_alloc then (None, RTW_PHL_STATUS_FAILURE)
      else if \<not> block_alloc then (None, RTW_PHL_STATUS_FAILURE)
      else
        let ring = \<lparr>block_cnt_alloc = pipe_cnt * num_rxbuf, rx_bufs = mem, idle_rxbuf_list = pq_init,
                    busy_rxbuf_list = pq_init, pend_rxbuf_list = pq_init, deferred_timer = False\<rparr>
        in (Some (rx_init_loop buffer_alloc [0..<block_cnt_alloc ring] ring), RTW_PHL_STATUS_SUCCESS))"

text \<open>
  \<^verbatim>\<open>phl_release_rxbuf_usb\<close>: one reference less; the buffer is idle when none is left. Clearing the
  buffer's memory is not modelled.
\<close>

definition phl_release_rxbuf_usb ::
  "ptr option \<Rightarrow> rtw_rx_buf_ring \<Rightarrow> rtw_rx_buf_ring \<times> rtw_phl_status" where
  "phl_release_rxbuf_usb r ring =
     (case r of None \<Rightarrow> (ring, RTW_PHL_STATUS_FAILURE)
      | Some b \<Rightarrow>
          let ring1 = (if rb_pktcnt (rx_bufs ring b) \<noteq> 0
                       then upd_rxbuf b (\<lambda>x. x\<lparr>rb_pktcnt := rb_pktcnt x - 1\<rparr>) ring else ring)
          in if rb_pktcnt (rx_bufs ring1 b) = 0
             then (case pq_push (idle_rxbuf_list ring1) b Tail of (q, ret) \<Rightarrow>
                     (ring1\<lparr>idle_rxbuf_list := q\<rparr>,
                      if ret then RTW_PHL_STATUS_SUCCESS else RTW_PHL_STATUS_FAILURE))
             else (ring1, RTW_PHL_STATUS_SUCCESS))"

definition phl_in_token_usb ::
  "bool \<Rightarrow> bool \<Rightarrow> nat \<Rightarrow> rtw_rx_buf_ring \<Rightarrow> rtw_rx_buf_ring \<times> rtw_phl_status" where
  "phl_in_token_usb desc_size_ok send_ok pipe_idx ring =
     (case pq_pop (idle_rxbuf_list ring) First of
        (q, None) \<Rightarrow> (ring, RTW_PHL_STATUS_RESOURCE)
      | (q, Some b) \<Rightarrow>
          let ring1 = ring\<lparr>idle_rxbuf_list := q\<rparr> in
          if \<not> desc_size_ok then (ring1, RTW_PHL_STATUS_FAILURE)
          else
            let ring2 = upd_rxbuf b (\<lambda>x. x\<lparr>rb_pipe_idx := pipe_idx\<rparr>) ring1;
                ring3 = ring2\<lparr>busy_rxbuf_list := fst (pq_push (busy_rxbuf_list ring2) b Tail)\<rparr>
            in if \<not> send_ok then
                 let ring4 = ring3\<lparr>busy_rxbuf_list := pq_del_node (busy_rxbuf_list ring3) (Some b)\<rparr>
                 in (fst (phl_release_rxbuf_usb (Some b) ring4), RTW_PHL_STATUS_FAILURE)
               else (ring3, RTW_PHL_STATUS_SUCCESS))"

text \<open>
  The inner loop of \<^verbatim>\<open>_phl_rx_start_usb\<close>. The answers for the \<open>k\<close>-th token are
  \<open>desc_size_ok k\<close> and \<open>send_ok k\<close>.
\<close>

function in_token_loop ::
  "(nat \<Rightarrow> bool) \<Rightarrow> (nat \<Rightarrow> bool) \<Rightarrow> nat \<Rightarrow> nat \<Rightarrow> nat \<Rightarrow> rtw_phl_status \<Rightarrow> rtw_rx_buf_ring
     \<Rightarrow> rtw_rx_buf_ring \<times> rtw_phl_status" where
  "in_token_loop desc_size_ok send_ok in_token_num pipe_idx k pstatus ring =
     (if cnt (busy_rxbuf_list ring) < int in_token_num then
        (case phl_in_token_usb (desc_size_ok k) (send_ok k) pipe_idx ring of
           (ring', pstatus') \<Rightarrow>
             if pstatus' \<noteq> RTW_PHL_STATUS_SUCCESS then (ring', pstatus')
             else in_token_loop desc_size_ok send_ok in_token_num pipe_idx (k + 1) pstatus' ring')
      else (ring, pstatus))"
  by pat_completeness auto

lemma in_token_busy:
  "phl_in_token_usb d s p ring = (ring', RTW_PHL_STATUS_SUCCESS) \<Longrightarrow>
   cnt (busy_rxbuf_list ring') = cnt (busy_rxbuf_list ring) + 1"
  by (auto simp: phl_in_token_usb_def pq_push_def upd_rxbuf_def Let_def split: prod.splits option.splits if_splits)

termination in_token_loop
  by (relation "measure (\<lambda>(d, s, n, p, k, st, ring). nat (int n - cnt (busy_rxbuf_list ring)))")
     (auto dest: in_token_busy [OF sym])

declare in_token_loop.simps [simp del]

definition phl_rx_start_usb ::
  "(nat \<Rightarrow> bool) \<Rightarrow> (nat \<Rightarrow> bool) \<Rightarrow> nat \<Rightarrow> nat \<Rightarrow> rtw_rx_buf_ring \<Rightarrow> rtw_rx_buf_ring \<times> rtw_phl_status" where
  "phl_rx_start_usb desc_size_ok send_ok max_bulkin_num in_token_num ring =
     fold (\<lambda>pipe_idx (ring, pstatus).
             if pipe_idx = WLAN_IN_MPDU_PIPE_IDX
             then in_token_loop desc_size_ok send_ok in_token_num pipe_idx 0 pstatus ring
             else (ring, pstatus))
       [0..<max_bulkin_num] (ring, RTW_PHL_STATUS_SUCCESS)"

text \<open>The flag is whether new packets are indicated.\<close>

definition phl_rx_deferred_in_token ::
  "(nat \<Rightarrow> bool) \<Rightarrow> (nat \<Rightarrow> bool) \<Rightarrow> nat \<Rightarrow> nat \<Rightarrow> rtw_rx_buf_ring \<Rightarrow> rtw_rx_buf_ring \<times> bool" where
  "phl_rx_deferred_in_token desc_size_ok send_ok max_bulkin_num in_token_num ring =
     (case phl_rx_start_usb desc_size_ok send_ok max_bulkin_num in_token_num ring of
        (ring', pstatus) \<Rightarrow>
          if pstatus = RTW_PHL_STATUS_RESOURCE then (ring'\<lparr>deferred_timer := True\<rparr>, True)
          else (ring', False))"

definition phl_rx_stop_usb_timer :: "rtw_rx_buf_ring \<Rightarrow> rtw_rx_buf_ring" where
  "phl_rx_stop_usb_timer ring = ring\<lparr>deferred_timer := False\<rparr>"

text \<open>
  The completion of a USB request: \<open>ok\<close> is its status, \<open>desc_size_ok\<close> and \<open>send_ok\<close> are the answers
  for the token that replaces it.
\<close>

definition phl_pend_rxbuf_usb ::
  "bool \<Rightarrow> bool \<Rightarrow> bool \<Rightarrow> nat \<Rightarrow> ptr \<Rightarrow> rtw_rx_buf_ring \<Rightarrow> rtw_rx_buf_ring \<times> rtw_phl_status" where
  "phl_pend_rxbuf_usb desc_size_ok send_ok ok inbuf_len b ring =
     (let ring1 = (if queue (busy_rxbuf_list ring) \<noteq> []
                   then ring\<lparr>busy_rxbuf_list := pq_del_node (busy_rxbuf_list ring) (Some b)\<rparr> else ring);
          (ring2, pstatus) =
            (if ok then
               (let ring' = upd_rxbuf b (\<lambda>x. x\<lparr>rb_transfer_len := inbuf_len\<rparr>) ring1 in
                case pq_push (pend_rxbuf_list ring') b Tail of (q, ret) \<Rightarrow>
                  (ring'\<lparr>pend_rxbuf_list := q\<rparr>,
                   if ret then RTW_PHL_STATUS_SUCCESS else RTW_PHL_STATUS_FAILURE))
             else (fst (phl_release_rxbuf_usb (Some b) ring1), RTW_PHL_STATUS_FAILURE))
      in if ok then
           (case phl_in_token_usb desc_size_ok send_ok (rb_pipe_idx (rx_bufs ring2 b)) ring2 of
              (ring3, st) \<Rightarrow>
                (if st = RTW_PHL_STATUS_RESOURCE then ring3\<lparr>deferred_timer := True\<rparr> else ring3, pstatus))
         else (ring2, pstatus))"

section \<open>Where the buffers are\<close>

definition queued_bufs :: "rtw_rx_buf_ring \<Rightarrow> ptr list" where
  "queued_bufs ring = queue (idle_rxbuf_list ring) @ queue (busy_rxbuf_list ring) @ queue (pend_rxbuf_list ring)"

text \<open>
  A well-formed block: the buffers of the three lists and those the client holds (\<open>held\<close>) are the
  whole block, each once, and a listed buffer has no reference.
\<close>

definition rxbuf_inv :: "ptr multiset \<Rightarrow> rtw_rx_buf_ring \<Rightarrow> bool" where
  "rxbuf_inv held ring \<longleftrightarrow>
     pq_wf (idle_rxbuf_list ring) \<and> pq_wf (busy_rxbuf_list ring) \<and> pq_wf (pend_rxbuf_list ring) \<and>
     mset (queued_bufs ring) + held = mset [0..<block_cnt_alloc ring] \<and>
     (\<forall>b\<in>set (queued_bufs ring). rb_pktcnt (rx_bufs ring b) = 0)"

lemma rxbuf_facts:
  assumes "rxbuf_inv held ring"
  shows "distinct (queued_bufs ring)" "\<And>b. b \<in># held \<Longrightarrow> b \<notin> set (queued_bufs ring)"
    "\<And>b. b \<in> set (queued_bufs ring) \<Longrightarrow> b < block_cnt_alloc ring"
    "\<And>b. b \<in># held \<Longrightarrow> b < block_cnt_alloc ring" "\<And>b. count held b \<le> 1"
proof -
  obtain h where h: "mset h = held" using ex_mset by blast
  have m: "mset (queued_bufs ring @ h) = mset [0..<block_cnt_alloc ring]"
    using assms h by (simp add: rxbuf_inv_def)
  then have d: "distinct (queued_bufs ring @ h)" using mset_eq_imp_distinct_iff distinct_upt by blast
  have e: "set (queued_bufs ring @ h) = {0..<block_cnt_alloc ring}" using mset_eq_setD [OF m] by simp
  show "distinct (queued_bufs ring)" using d by simp
  show "b \<notin> set (queued_bufs ring)" if "b \<in># held" for b using d that h by auto
  show "b < block_cnt_alloc ring" if "b \<in> set (queued_bufs ring)" for b using e that by auto
  show "b < block_cnt_alloc ring" if "b \<in># held" for b using e that h by auto
  show "count held b \<le> 1" for b
    using d h distinct_count_atmost_1 [of h] by (auto split: if_splits)
qed

lemma release_last:
  assumes "rxbuf_inv (add_mset b held) ring" and "rb_pktcnt (rx_bufs ring b) \<le> 1"
    and "phl_release_rxbuf_usb (Some b) ring = (ring', status)"
  shows "rxbuf_inv held ring' \<and> status = RTW_PHL_STATUS_SUCCESS \<and>
     queue (idle_rxbuf_list ring') = queue (idle_rxbuf_list ring) @ [b] \<and>
     busy_rxbuf_list ring' = busy_rxbuf_list ring \<and> pend_rxbuf_list ring' = pend_rxbuf_list ring \<and>
     (\<forall>x. x \<noteq> b \<longrightarrow> rx_bufs ring' x = rx_bufs ring x) \<and> rb_pktcnt (rx_bufs ring' b) = 0 \<and>
     block_cnt_alloc ring' = block_cnt_alloc ring"
proof -
  let ?r = "upd_rxbuf b (\<lambda>x. x\<lparr>rb_pktcnt := 0\<rparr>) ring"
  have r: "ring' = ?r\<lparr>idle_rxbuf_list := fst (pq_push (idle_rxbuf_list ring) b Tail)\<rparr>" "status = RTW_PHL_STATUS_SUCCESS"
  proof -
    have "(if rb_pktcnt (rx_bufs ring b) \<noteq> 0 then upd_rxbuf b (\<lambda>x. x\<lparr>rb_pktcnt := rb_pktcnt x - 1\<rparr>) ring else ring) = ?r"
      using assms(2) by (cases ring) (auto simp: upd_rxbuf_def fun_eq_iff)
    then show "ring' = ?r\<lparr>idle_rxbuf_list := fst (pq_push (idle_rxbuf_list ring) b Tail)\<rparr>" "status = RTW_PHL_STATUS_SUCCESS"
      using assms(3) by (simp_all add: phl_release_rxbuf_usb_def Let_def upd_rxbuf_def pq_push_def)
  qed
  have "pq_wf (idle_rxbuf_list ring')" using assms(1) pq_wf_push [of "idle_rxbuf_list ring" b Tail]
    by (simp add: r upd_rxbuf_def rxbuf_inv_def)
  then have "rxbuf_inv held ring'" using assms(1)
    by (auto simp: r upd_rxbuf_def rxbuf_inv_def queued_bufs_def pq_push_def)
  then show ?thesis by (simp add: r upd_rxbuf_def pq_push_def)
qed

lemma release_more:
  assumes "rxbuf_inv held ring" and "b \<in># held" and "1 < rb_pktcnt (rx_bufs ring b)"
    and "phl_release_rxbuf_usb (Some b) ring = (ring', status)"
  shows "rxbuf_inv held ring' \<and> status = RTW_PHL_STATUS_SUCCESS \<and>
     ring' = upd_rxbuf b (\<lambda>x. x\<lparr>rb_pktcnt := rb_pktcnt x - 1\<rparr>) ring"
proof -
  have r: "ring' = upd_rxbuf b (\<lambda>x. x\<lparr>rb_pktcnt := rb_pktcnt x - 1\<rparr>) ring" "status = RTW_PHL_STATUS_SUCCESS"
    using assms(3,4) by (auto simp: phl_release_rxbuf_usb_def Let_def upd_rxbuf_def split: if_splits)
  then show ?thesis using assms(1) rxbuf_facts(2) [OF assms(1,2)]
    by (auto simp: rxbuf_inv_def upd_rxbuf_def queued_bufs_def)
qed

lemma in_token_inv:
  assumes inv: "rxbuf_inv held ring" and "phl_in_token_usb True send_ok p ring = (ring', status)"
  shows "rxbuf_inv held ring' \<and> (\<forall>x. rb_pktcnt (rx_bufs ring' x) = rb_pktcnt (rx_bufs ring x)) \<and>
     block_cnt_alloc ring' = block_cnt_alloc ring \<and> pend_rxbuf_list ring' = pend_rxbuf_list ring \<and>
     (case queue (idle_rxbuf_list ring) of
        [] \<Rightarrow> ring' = ring \<and> status = RTW_PHL_STATUS_RESOURCE
      | b # bs \<Rightarrow>
          if send_ok then status = RTW_PHL_STATUS_SUCCESS \<and> queue (idle_rxbuf_list ring') = bs \<and>
            queue (busy_rxbuf_list ring') = queue (busy_rxbuf_list ring) @ [b]
          else status = RTW_PHL_STATUS_FAILURE \<and> queue (idle_rxbuf_list ring') = bs @ [b] \<and>
            queue (busy_rxbuf_list ring') = queue (busy_rxbuf_list ring))"
proof (cases "queue (idle_rxbuf_list ring)")
  case Nil
  then show ?thesis using assms by (simp add: phl_in_token_usb_def pq_pop_def)
next
  case (Cons b bs)
  have wf: "pq_wf (idle_rxbuf_list ring)" "pq_wf (busy_rxbuf_list ring)" using inv by (simp_all add: rxbuf_inv_def)
  have z: "rb_pktcnt (rx_bufs ring b) = 0" using inv Cons by (simp add: rxbuf_inv_def queued_bufs_def)
  have nb: "b \<notin> set (queue (busy_rxbuf_list ring))"
    using rxbuf_facts(1) [OF inv] Cons by (auto simp: queued_bufs_def)
  let ?q = "(idle_rxbuf_list ring)\<lparr>queue := bs, cnt := cnt (idle_rxbuf_list ring) - 1\<rparr>"
  let ?r = "upd_rxbuf b (\<lambda>x. x\<lparr>rb_pipe_idx := p\<rparr>) (ring\<lparr>idle_rxbuf_list := ?q\<rparr>)"
  let ?r3 = "?r\<lparr>busy_rxbuf_list := fst (pq_push (busy_rxbuf_list ring) b Tail)\<rparr>"
  have wq: "pq_wf ?q" using wf(1) Cons by (simp add: pq_wf_def)
  have pop: "pq_pop (idle_rxbuf_list ring) First = (?q, Some b)" using pq_pop_wf_eq [OF wf(1)] Cons by simp
  show ?thesis
  proof (cases send_ok)
    case True
    have e: "ring' = ?r3" "status = RTW_PHL_STATUS_SUCCESS"
      using assms(2) pop True by (simp_all add: phl_in_token_usb_def upd_rxbuf_def)
    have "rxbuf_inv held ring'"
      using inv Cons wq z pq_wf_push [OF wf(2), of b Tail] unfolding e(1)
      by (auto simp: rxbuf_inv_def upd_rxbuf_def queued_bufs_def pq_push_def)
    then show ?thesis using Cons True by (auto simp: e upd_rxbuf_def pq_push_def)
  next
    case False
    let ?r4 = "?r3\<lparr>busy_rxbuf_list := pq_del_node (busy_rxbuf_list ?r3) (Some b)\<rparr>"
    have q4: "queue (busy_rxbuf_list ?r4) = queue (busy_rxbuf_list ring)" "cnt (busy_rxbuf_list ?r4) = cnt (busy_rxbuf_list ring)"
      using nb by (simp_all add: pq_del_node_def pq_push_def remove1_append)
    have "rxbuf_inv (add_mset b held) ?r4"
      using inv Cons wq z wf q4 by (simp add: rxbuf_inv_def queued_bufs_def upd_rxbuf_def pq_wf_def)
    moreover have "phl_release_rxbuf_usb (Some b) ?r4 = (ring', snd (phl_release_rxbuf_usb (Some b) ?r4))"
      using assms(2) pop False by (auto simp: phl_in_token_usb_def upd_rxbuf_def Let_def)
    moreover have s: "status = RTW_PHL_STATUS_FAILURE" using assms(2) pop False by (simp add: phl_in_token_usb_def Let_def)
    ultimately have "rxbuf_inv held ring' \<and> queue (idle_rxbuf_list ring') = bs @ [b] \<and>
        busy_rxbuf_list ring' = busy_rxbuf_list ?r4 \<and> pend_rxbuf_list ring' = pend_rxbuf_list ?r4 \<and>
        (\<forall>x. x \<noteq> b \<longrightarrow> rx_bufs ring' x = rx_bufs ?r4 x) \<and> rb_pktcnt (rx_bufs ring' b) = 0 \<and>
        block_cnt_alloc ring' = block_cnt_alloc ?r4"
      using release_last [of b held ?r4 ring'] z by (simp add: upd_rxbuf_def)
    moreover from this have "rb_pktcnt (rx_bufs ring' x) = rb_pktcnt (rx_bufs ring x)" for x
      using z by (cases "x = b") (simp_all add: upd_rxbuf_def)
    ultimately show ?thesis using Cons False s q4 by (simp add: upd_rxbuf_def)
  qed
qed

lemma pend_inv:
  assumes inv: "rxbuf_inv held ring" and b: "b \<in> set (queue (busy_rxbuf_list ring))"
    and e: "phl_pend_rxbuf_usb True send_ok ok len b ring = (ring', status)"
  shows "rxbuf_inv held ring' \<and> (\<forall>x. rb_pktcnt (rx_bufs ring' x) = rb_pktcnt (rx_bufs ring x)) \<and>
     block_cnt_alloc ring' = block_cnt_alloc ring \<and> (status = RTW_PHL_STATUS_SUCCESS \<longleftrightarrow> ok) \<and>
     queue (pend_rxbuf_list ring') = queue (pend_rxbuf_list ring) @ (if ok then [b] else [])"
proof -
  let ?r1 = "ring\<lparr>busy_rxbuf_list := pq_del_node (busy_rxbuf_list ring) (Some b)\<rparr>"
  have ne: "queue (busy_rxbuf_list ring) \<noteq> []" using b by auto
  have z: "rb_pktcnt (rx_bufs ring b) = 0" using inv b by (simp add: rxbuf_inv_def queued_bufs_def)
  obtain as bs where sp: "queue (busy_rxbuf_list ring) = as @ b # bs" "b \<notin> set as" using split_list_first [OF b] by blast
  then have "queue (busy_rxbuf_list ?r1) = as @ bs" by (simp add: pq_del_node_def remove1_append)
  then have r1: "rxbuf_inv (add_mset b held) ?r1"
    using inv pq_wf_del [OF _ b] sp by (auto simp: rxbuf_inv_def queued_bufs_def)
  show ?thesis
  proof (cases ok)
    case False
    then have "phl_release_rxbuf_usb (Some b) ?r1 = (ring', snd (phl_release_rxbuf_usb (Some b) ?r1))"
      "status = RTW_PHL_STATUS_FAILURE" using e ne by (auto simp: phl_pend_rxbuf_usb_def Let_def)
    with release_last [OF r1, of ring'] z
    have r: "rxbuf_inv held ring'" "pend_rxbuf_list ring' = pend_rxbuf_list ring" "rb_pktcnt (rx_bufs ring' b) = 0"
      "\<forall>x. x \<noteq> b \<longrightarrow> rx_bufs ring' x = rx_bufs ring x" "block_cnt_alloc ring' = block_cnt_alloc ring"
      by simp_all
    have "rb_pktcnt (rx_bufs ring' x) = rb_pktcnt (rx_bufs ring x)" for x
      using r(3,4) z by (cases "x = b") simp_all
    then show ?thesis using r False \<open>status = RTW_PHL_STATUS_FAILURE\<close> by simp
  next
    case True
    let ?r2 = "(upd_rxbuf b (\<lambda>x. x\<lparr>rb_transfer_len := len\<rparr>) ?r1)
                 \<lparr>pend_rxbuf_list := fst (pq_push (pend_rxbuf_list ring) b Tail)\<rparr>"
    have r2: "rxbuf_inv held ?r2" using r1 z pq_wf_push [of "pend_rxbuf_list ring" b Tail]
      by (auto simp: rxbuf_inv_def queued_bufs_def upd_rxbuf_def pq_push_def)
    obtain r3 st where t: "phl_in_token_usb True send_ok (rb_pipe_idx (rx_bufs ring b)) ?r2 = (r3, st)" by fastforce
    have ring': "ring' = r3\<lparr>deferred_timer := deferred_timer ring'\<rparr>" "status = RTW_PHL_STATUS_SUCCESS"
      using e t True ne by (auto simp: phl_pend_rxbuf_usb_def Let_def upd_rxbuf_def pq_push_def)
    have i3: "rxbuf_inv held r3" "\<forall>x. rb_pktcnt (rx_bufs r3 x) = rb_pktcnt (rx_bufs ?r2 x)"
      "block_cnt_alloc r3 = block_cnt_alloc ?r2" "pend_rxbuf_list r3 = pend_rxbuf_list ?r2"
      using in_token_inv [OF r2 t] by blast+
    obtain tm where tm: "ring' = r3\<lparr>deferred_timer := tm\<rparr>" using ring'(1) by blast
    show ?thesis using i3 True ring'(2) unfolding tm
      by (simp add: rxbuf_inv_def queued_bufs_def upd_rxbuf_def pq_push_def)
  qed
qed

lemma in_token_loop_inv:
  "rxbuf_inv held ring \<Longrightarrow> d = (\<lambda>_. True) \<Longrightarrow> in_token_loop d s n p k st ring = (ring', st') \<Longrightarrow>
   rxbuf_inv held ring' \<and> (\<forall>x. rb_pktcnt (rx_bufs ring' x) = rb_pktcnt (rx_bufs ring x)) \<and>
   block_cnt_alloc ring' = block_cnt_alloc ring \<and> pend_rxbuf_list ring' = pend_rxbuf_list ring"
proof (induction d s n p k st ring rule: in_token_loop.induct)
  case (1 d s n p k st ring)
  obtain r1 st1 where t: "phl_in_token_usb (d k) (s k) p ring = (r1, st1)" by fastforce
  have i: "rxbuf_inv held r1 \<and> (\<forall>x. rb_pktcnt (rx_bufs r1 x) = rb_pktcnt (rx_bufs ring x)) \<and>
      block_cnt_alloc r1 = block_cnt_alloc ring \<and> pend_rxbuf_list r1 = pend_rxbuf_list ring"
    using in_token_inv [OF "1.prems"(1), of "s k" p r1 st1] t "1.prems"(2) by simp
  show ?case
  proof (cases "cnt (busy_rxbuf_list ring) < int n \<and> st1 = RTW_PHL_STATUS_SUCCESS")
    case True
    then have e: "in_token_loop d s n p (k + 1) st1 r1 = (ring', st')"
      using "1.prems"(3) t by (subst (asm) in_token_loop.simps) simp
    have "rxbuf_inv held ring' \<and> (\<forall>x. rb_pktcnt (rx_bufs ring' x) = rb_pktcnt (rx_bufs r1 x)) \<and>
      block_cnt_alloc ring' = block_cnt_alloc r1 \<and> pend_rxbuf_list ring' = pend_rxbuf_list r1"
      using "1.IH" [OF _ t [symmetric]] True i "1.prems"(2) e by simp
    then show ?thesis using i by simp
  next
    case False
    then have "ring' = ring \<or> ring' = r1"
      using "1.prems"(3) t by (subst (asm) in_token_loop.simps) (auto split: if_splits)
    then show ?thesis using i "1.prems"(1) by auto
  qed
qed

lemma rx_start_eq:
  "phl_rx_start_usb d s n m ring =
     (if n = 0 then (ring, RTW_PHL_STATUS_SUCCESS) else in_token_loop d s m 0 0 RTW_PHL_STATUS_SUCCESS ring)"
proof -
  let ?f = "\<lambda>pipe_idx (ring, pstatus). if pipe_idx = WLAN_IN_MPDU_PIPE_IDX
             then in_token_loop d s m pipe_idx 0 pstatus ring else (ring, pstatus)"
  have o: "fold ?f xs x = x" if "0 \<notin> set xs" for xs :: "nat list" and x
    using that by (induction xs arbitrary: x) (auto simp: WLAN_IN_MPDU_PIPE_IDX_def split: prod.splits)
  show ?thesis
  proof (cases n)
    case (Suc j)
    then have "[0..<n] = 0 # [1..<n]" by (simp add: upt_conv_Cons)
    then show ?thesis using o [of "[1..<n]"] Suc by (simp add: phl_rx_start_usb_def WLAN_IN_MPDU_PIPE_IDX_def)
  qed (simp add: phl_rx_start_usb_def)
qed

lemma in_token_loop_posts:
  "rxbuf_inv held ring \<Longrightarrow> d = (\<lambda>_. True) \<Longrightarrow> s = (\<lambda>_. True) \<Longrightarrow> in_token_loop d s n p k st ring = (ring', st') \<Longrightarrow>
   m = n - length (queue (busy_rxbuf_list ring)) \<Longrightarrow>
   queue (busy_rxbuf_list ring') = queue (busy_rxbuf_list ring) @ take m (queue (idle_rxbuf_list ring)) \<and>
   queue (idle_rxbuf_list ring') = drop m (queue (idle_rxbuf_list ring)) \<and>
   st' = (if length (queue (idle_rxbuf_list ring)) < m then RTW_PHL_STATUS_RESOURCE
          else if m = 0 then st else RTW_PHL_STATUS_SUCCESS)"
proof (induction d s n p k st ring arbitrary: m rule: in_token_loop.induct)
  case (1 d s n p k st ring)
  obtain r1 st1 where t: "phl_in_token_usb (d k) (s k) p ring = (r1, st1)" by fastforce
  note i = in_token_inv [OF "1.prems"(1), of "s k" p r1 st1]
  have c: "cnt (busy_rxbuf_list ring) = int (length (queue (busy_rxbuf_list ring)))"
    using "1.prems"(1) by (simp add: rxbuf_inv_def pq_wf_def)
  show ?case
  proof (cases "0 < m \<and> queue (idle_rxbuf_list ring) \<noteq> []")
    case False
    then show ?thesis using "1.prems"(2-) t i c
      by (subst (asm) in_token_loop.simps) (auto split: if_splits)
  next
    case True
    then obtain b bs where q: "queue (idle_rxbuf_list ring) = b # bs" by (cases "queue (idle_rxbuf_list ring)") auto
    have lt: "cnt (busy_rxbuf_list ring) < int n" using True "1.prems"(5) c by simp
    have r1: "rxbuf_inv held r1" "st1 = RTW_PHL_STATUS_SUCCESS" "queue (idle_rxbuf_list r1) = bs"
      "queue (busy_rxbuf_list r1) = queue (busy_rxbuf_list ring) @ [b]"
      using i t q "1.prems"(2,3) by simp_all
    have e: "in_token_loop d s n p (k + 1) st1 r1 = (ring', st')"
      using "1.prems"(4) t lt r1(2) by (subst (asm) in_token_loop.simps) simp
    have m1: "m - 1 = n - length (queue (busy_rxbuf_list r1))" using "1.prems"(5) r1(4) by simp
    from "1.IH" [OF lt t [symmetric], of "m - 1"] r1 "1.prems"(2,3) e m1 True q
    show ?thesis by (cases m) auto
  qed
qed

text \<open>When the USB core takes every request, starting reception gives it idle buffers, in order,
  until the configured number of tokens is out or the idle list is empty, which is reported as
  RESOURCE; no buffer is lost and no reference count changes.
\<close>

lemma rx_start_posts_tokens:
  assumes "rxbuf_inv held ring" and "0 < max_bulkin_num"
    and "phl_rx_start_usb (\<lambda>_. True) (\<lambda>_. True) max_bulkin_num in_token_num ring = (ring', status)"
  shows "\<exists>m. m = in_token_num - length (queue (busy_rxbuf_list ring)) \<and> rxbuf_inv held ring' \<and>
     queue (busy_rxbuf_list ring') = queue (busy_rxbuf_list ring) @ take m (queue (idle_rxbuf_list ring)) \<and>
     queue (idle_rxbuf_list ring') = drop m (queue (idle_rxbuf_list ring)) \<and>
     status = (if length (queue (idle_rxbuf_list ring)) < m then RTW_PHL_STATUS_RESOURCE
               else RTW_PHL_STATUS_SUCCESS)"
proof -
  have "in_token_loop (\<lambda>_. True) (\<lambda>_. True) in_token_num 0 0 RTW_PHL_STATUS_SUCCESS ring = (ring', status)"
    using assms(2,3) by (simp add: rx_start_eq)
  from in_token_loop_posts [OF assms(1) refl refl this refl] in_token_loop_inv [OF assms(1) refl this]
  show ?thesis by simp
qed

lemma rx_init_loop_inv:
  "rxbuf_inv held ring \<Longrightarrow> held = mset is \<Longrightarrow> distinct is \<Longrightarrow> \<forall>i\<in>set is. buffer_alloc i \<Longrightarrow>
   rxbuf_inv {#} (rx_init_loop buffer_alloc is ring) \<and>
   queue (idle_rxbuf_list (rx_init_loop buffer_alloc is ring)) = queue (idle_rxbuf_list ring) @ is"
proof (induction buffer_alloc "is" ring arbitrary: held rule: rx_init_loop.induct)
  case (1 a ring)
  then show ?case by simp
next
  case (2 a i "is" ring)
  let ?r1 = "upd_rxbuf i (\<lambda>b. b\<lparr>rb_pktcnt := 0\<rparr>) ring"
  let ?r2 = "?r1\<lparr>idle_rxbuf_list := fst (pq_push (idle_rxbuf_list ?r1) i Tail)\<rparr>"
  have "rxbuf_inv (mset is) ?r2"
    using "2.prems"(1,2) pq_wf_push [of "idle_rxbuf_list ring" i Tail]
    by (auto simp: rxbuf_inv_def queued_bufs_def upd_rxbuf_def pq_push_def)
  from "2.IH" [OF _ refl this refl] "2.prems"(3,4) show ?case
    by (simp add: upd_rxbuf_def pq_push_def)
qed

lemma rx_init_inv:
  assumes "phl_rx_init_usb True True (\<lambda>_. True) mem pipe_cnt num = (Some ring, status)"
  shows "rxbuf_inv {#} ring \<and> queue (idle_rxbuf_list ring) = [0..<pipe_cnt * num] \<and> status = RTW_PHL_STATUS_SUCCESS"
proof -
  let ?r = "\<lparr>block_cnt_alloc = pipe_cnt * num, rx_bufs = mem, idle_rxbuf_list = pq_init,
             busy_rxbuf_list = pq_init, pend_rxbuf_list = pq_init, deferred_timer = False\<rparr>"
  have "rxbuf_inv (mset [0..<pipe_cnt * num]) ?r"
    by (simp add: rxbuf_inv_def queued_bufs_def pq_wf_def pq_init_def)
  from rx_init_loop_inv [OF this refl, of "\<lambda>_. True"] assms show ?thesis
    by (auto simp: phl_rx_init_usb_def Let_def pq_init_def)
qed

end
