(* ===== verification/Phl_Rssi.thy ===== *)
theory Phl_Rssi
  imports Phl_Prelude
begin

text \<open>
  The moving averages of the received signal strength: the ring of the last sixteen samples with their
  sum, kept per station (\<^verbatim>\<open>STA_UPDATE_MA_RSSI\<close> of \<^verbatim>\<open>phl/hal_g6/hal_def.h\<close>) and per frame type of
  the device (\<^verbatim>\<open>UPDATE_MA_RSSI\<close> of \<^verbatim>\<open>phl/phl_def.h\<close>), and the fast average of management frames.
  The two ring macros have the same text up to the place of the fields; the model has one update of
  the fields and the two places.

  The main result is that the ring computes the average of the last samples, so neither the running
  sum nor the average ever wraps.
\<close>

section \<open>The averages\<close>

definition PHL_MAX_RSSI :: nat where "PHL_MAX_RSSI = 110"

definition HAL_RSSI_MAVG_NUM :: nat where "HAL_RSSI_MAVG_NUM = 16"

record moving_avg =
  ma_rssi_ele_idx :: nat
  ma_rssi_ele_cnt :: nat
  ma_rssi_ele :: "nat list"
  ma_rssi_ele_sum :: u32
  ma_rssi :: nat

definition clip_rssi :: "nat \<Rightarrow> nat" where
  "clip_rssi val = (if val > PHL_MAX_RSSI then PHL_MAX_RSSI else val)"

definition STA_UPDATE_MA_RSSI :: "nat \<Rightarrow> moving_avg \<Rightarrow> moving_avg" where
  "STA_UPDATE_MA_RSSI val r =
     (let idx = (if ma_rssi_ele_idx r < HAL_RSSI_MAVG_NUM then ma_rssi_ele_idx r else 0);
          oldest_rssi = ma_rssi_ele r ! idx;
          r1 = r\<lparr>ma_rssi_ele_idx := idx, ma_rssi_ele := (ma_rssi_ele r)[idx := clip_rssi val],
                 ma_rssi_ele_sum := ma_rssi_ele_sum r - of_nat oldest_rssi + of_nat (clip_rssi val)\<rparr>;
          r2 = r1\<lparr>ma_rssi_ele_idx := to_u8 (int (ma_rssi_ele_idx r1) + 1),
                  ma_rssi_ele_cnt := (if ma_rssi_ele_cnt r1 < HAL_RSSI_MAVG_NUM
                                      then to_u8 (int (ma_rssi_ele_cnt r1) + 1) else ma_rssi_ele_cnt r1)\<rparr>
      in r2\<lparr>ma_rssi := to_u8 (uint (ma_rssi_ele_sum r2 div of_nat (ma_rssi_ele_cnt r2)))\<rparr>)"

definition STA_UPDATE_MA_RSSI_FAST :: "nat \<Rightarrow> nat \<Rightarrow> nat" where
  "STA_UPDATE_MA_RSSI_FAST val rssi =
     to_u8 ((int rssi * (int HAL_RSSI_MAVG_NUM - 1) + int val) div int HAL_RSSI_MAVG_NUM)"

datatype rtw_rssi_type =
    RTW_RSSI_DATA_ACAM | RTW_RSSI_DATA_ACAM_A1M | RTW_RSSI_DATA_OTHER | RTW_RSSI_CTRL_ACAM
  | RTW_RSSI_CTRL_ACAM_A1M | RTW_RSSI_CTRL_OTHER | RTW_RSSI_MGNT_ACAM | RTW_RSSI_MGNT_ACAM_A1M
  | RTW_RSSI_MGNT_OTHER | RTW_RSSI_UNKNOWN | RTW_RSSI_TYPE_MAX

type_synonym rtw_phl_rssi_stat = "rtw_rssi_type \<Rightarrow> moving_avg"

definition UPDATE_MA_RSSI :: "rtw_rssi_type \<Rightarrow> nat \<Rightarrow> rtw_phl_rssi_stat \<Rightarrow> rtw_phl_rssi_stat" where
  "UPDATE_MA_RSSI ty val r = r(ty := STA_UPDATE_MA_RSSI val (r ty))"

text \<open>The part of \<^verbatim>\<open>struct rtw_rssi_info\<close> that the receive path writes.\<close>

record rtw_rssi_info =
  assoc_rssi :: nat
  sta_ma_rssi :: moving_avg
  ma_rssi_mgnt :: nat

section \<open>The ring holds the last samples\<close>

definition avg_init :: moving_avg where
  "avg_init = \<lparr>ma_rssi_ele_idx = 0, ma_rssi_ele_cnt = 0, ma_rssi_ele = replicate HAL_RSSI_MAVG_NUM 0,
               ma_rssi_ele_sum = 0, ma_rssi = 0\<rparr>"

text \<open>The last sixteen of the samples.\<close>

definition recent :: "nat list \<Rightarrow> nat list" where
  "recent xs = drop (length xs - HAL_RSSI_MAVG_NUM) xs"

definition avg_rel :: "nat list \<Rightarrow> moving_avg \<Rightarrow> bool" where
  "avg_rel xs r \<longleftrightarrow>
     length (ma_rssi_ele r) = 16 \<and> ma_rssi_ele_cnt r = min 16 (length xs) \<and>
     ma_rssi_ele_idx r = (if xs = [] then 0 else (length xs - 1) mod 16 + 1) \<and>
     (\<forall>i<length xs. length xs \<le> i + 16 \<longrightarrow> ma_rssi_ele r ! (i mod 16) = xs ! i) \<and>
     (\<forall>j<16. length xs \<le> j \<longrightarrow> ma_rssi_ele r ! j = 0) \<and>
     ma_rssi_ele_sum r = of_nat (sum_list (recent xs)) \<and> (\<forall>x\<in>set xs. x \<le> PHL_MAX_RSSI)"

lemma sum_list_bound: "\<forall>x\<in>set xs. x \<le> b \<Longrightarrow> sum_list xs \<le> b * length xs" for b :: nat
  by (induction xs) auto

lemma recent_bound:
  assumes "\<forall>x\<in>set xs. x \<le> PHL_MAX_RSSI"
  shows "sum_list (recent xs) \<le> 110 * min 16 (length xs)"
proof -
  have "\<forall>x\<in>set (recent xs). x \<le> 110" using assms by (auto simp: recent_def PHL_MAX_RSSI_def dest: in_set_dropD)
  moreover have "length (recent xs) = min 16 (length xs)" by (simp add: recent_def HAL_RSSI_MAVG_NUM_def)
  ultimately show ?thesis using sum_list_bound [of "recent xs" 110] by simp
qed

lemma recent_snoc:
  "sum_list (recent (xs @ [v])) + (if 16 \<le> length xs then xs ! (length xs - 16) else 0) = sum_list (recent xs) + v"
proof (cases "16 \<le> length xs")
  case True
  have "recent xs = xs ! (length xs - 16) # drop (Suc (length xs - 16)) xs"
    using True by (simp add: recent_def HAL_RSSI_MAVG_NUM_def Cons_nth_drop_Suc)
  moreover have "length xs - 15 = Suc (length xs - 16)" using True by linarith
  then have "recent (xs @ [v]) = drop (Suc (length xs - 16)) xs @ [v]"
    using True by (simp add: recent_def HAL_RSSI_MAVG_NUM_def)
  ultimately show ?thesis using True by simp
qed (simp add: recent_def HAL_RSSI_MAVG_NUM_def)

lemma avg_init_rel: "avg_rel [] avg_init"
  by (simp add: avg_rel_def avg_init_def recent_def HAL_RSSI_MAVG_NUM_def)

lemma oldest_sample:
  assumes "avg_rel xs r"
  shows "(if ma_rssi_ele_idx r < HAL_RSSI_MAVG_NUM then ma_rssi_ele_idx r else 0) = length xs mod 16"
    "ma_rssi_ele r ! (length xs mod 16) = (if 16 \<le> length xs then xs ! (length xs - 16) else 0)"
proof -
  show "(if ma_rssi_ele_idx r < HAL_RSSI_MAVG_NUM then ma_rssi_ele_idx r else 0) = length xs mod 16"
  proof (cases xs)
    case (Cons y ys)
    then have "ma_rssi_ele_idx r = length ys mod 16 + 1" using assms by (simp add: avg_rel_def)
    moreover have "Suc (length ys) mod 16 = (if length ys mod 16 = 15 then 0 else length ys mod 16 + 1)"
      by (simp add: mod_Suc)
    moreover have "length ys mod 16 < 16" by simp
    ultimately show ?thesis using Cons by (auto simp: HAL_RSSI_MAVG_NUM_def)
  qed (use assms in \<open>simp add: avg_rel_def HAL_RSSI_MAVG_NUM_def\<close>)
  show "ma_rssi_ele r ! (length xs mod 16) = (if 16 \<le> length xs then xs ! (length xs - 16) else 0)"
  proof (cases "16 \<le> length xs")
    case True
    then have "(length xs - 16) mod 16 = length xs mod 16" by (simp add: le_mod_geq)
    moreover have "ma_rssi_ele r ! ((length xs - 16) mod 16) = xs ! (length xs - 16)"
      using assms True by (simp add: avg_rel_def)
    ultimately show ?thesis using True by simp
  qed (use assms in \<open>simp add: avg_rel_def\<close>)
qed

lemma avg_step:
  assumes rel: "avg_rel xs r"
  shows "avg_rel (xs @ [clip_rssi v]) (STA_UPDATE_MA_RSSI v r)"
    "ma_rssi (STA_UPDATE_MA_RSSI v r) = sum_list (recent (xs @ [clip_rssi v])) div min 16 (Suc (length xs))"
proof -
  let ?k = "length xs mod 16" and ?c = "clip_rssi v" and ?ys = "xs @ [clip_rssi v]"
  let ?s = "sum_list (recent ?ys)"
  define n where "n = min 16 (Suc (length xs))"
  note o = oldest_sample [OF rel]
  have c: "?c \<le> PHL_MAX_RSSI" by (simp add: clip_rssi_def)
  have all: "\<forall>x\<in>set ?ys. x \<le> PHL_MAX_RSSI" using rel c by (auto simp: avg_rel_def)
  have sum: "of_nat (sum_list (recent xs)) - of_nat (ma_rssi_ele r ! ?k) + of_nat ?c = (of_nat ?s :: u32)"
  proof -
    have "of_nat ?s + of_nat (ma_rssi_ele r ! ?k) = (of_nat (sum_list (recent xs)) + of_nat ?c :: u32)"
      using recent_snoc [of xs ?c] unfolding o(2) of_nat_add [symmetric] by simp
    then show ?thesis by (simp add: algebra_simps)
  qed
  have cnt: "(if ma_rssi_ele_cnt r < HAL_RSSI_MAVG_NUM then to_u8 (int (ma_rssi_ele_cnt r) + 1) else ma_rssi_ele_cnt r) = n"
    using rel by (auto simp: avg_rel_def HAL_RSSI_MAVG_NUM_def to_u8_in_range nat_add_distrib n_def)
  have idx: "to_u8 (int ?k + 1) = ?k + 1" by (simp add: to_u8_in_range nat_add_distrib)
  have eq: "STA_UPDATE_MA_RSSI v r = r\<lparr>ma_rssi_ele_idx := ?k + 1, ma_rssi_ele_cnt := n,
      ma_rssi_ele := (ma_rssi_ele r)[?k := ?c], ma_rssi_ele_sum := of_nat ?s,
      ma_rssi := to_u8 (uint ((of_nat ?s :: u32) div of_nat n))\<rparr>"
  proof -
    have "ma_rssi_ele_sum r = of_nat (sum_list (recent xs))" using rel by (simp add: avg_rel_def)
    then show ?thesis using sum cnt idx unfolding STA_UPDATE_MA_RSSI_def Let_def o(1)
      by (cases r) (auto split: if_splits)
  qed
  have b: "?s \<le> 110 * n" using recent_bound [OF all] by (simp add: n_def)
  have "ma_rssi (STA_UPDATE_MA_RSSI v r) = ?s div n"
  proof -
    have lt: "?s < 2 ^ 32" "n < 2 ^ 32" using b by (auto simp: n_def)
    have "unat ((of_nat ?s :: u32) div of_nat n) = ?s div n"
      using lt by (simp add: unat_div unat_of_nat take_bit_nat_eq_self)
    moreover have "?s div n \<le> 110" using div_le_mono [OF b, of n] by (cases "n = 0") simp_all
    ultimately have "to_u8 (uint ((of_nat ?s :: u32) div of_nat n)) = ?s div n"
      unfolding uint_nat using to_u8_in_range [of "int (?s div n)"] by simp
    then show ?thesis by (simp add: eq)
  qed
  then show "ma_rssi (STA_UPDATE_MA_RSSI v r) = ?s div min 16 (Suc (length xs))" by (simp only: n_def)
  have ele: "(ma_rssi_ele r)[?k := ?c] ! (i mod 16) = ?ys ! i" if "i < length ?ys" "length ?ys \<le> i + 16" for i
  proof (cases "i = length xs")
    case True
    then show ?thesis using rel by (simp add: avg_rel_def)
  next
    case False
    then have i: "i < length xs" "length xs < i + 16" using that by simp_all
    then have "i mod 16 \<noteq> ?k"
      by (metis add_diff_cancel_left' le_add_diff_inverse less_imp_le_nat linorder_not_less mod_eq_dvd_iff_nat
          nat_add_left_cancel_less nat_dvd_not_less zero_less_diff)
    then show ?thesis using rel i by (simp add: avg_rel_def nth_append)
  qed
  have zero: "(ma_rssi_ele r)[?k := ?c] ! j = 0" if "j < 16" "length ?ys \<le> j" for j
    using rel that by (simp add: avg_rel_def nth_list_update)
  show "avg_rel ?ys (STA_UPDATE_MA_RSSI v r)"
    using rel all ele zero by (simp add: avg_rel_def eq n_def)
qed

text \<open>Fed with any samples, the ring's average is the integer mean of the last sixteen of them (of all
  when there are fewer), each clipped at 110; so it never exceeds 110 and the running sum of the ring,
  which the code keeps by adding and subtracting, never drifts from the sum of the samples.
\<close>

lemma rssi_average_of_recent:
  assumes "vs \<noteq> []"
  shows "ma_rssi (fold STA_UPDATE_MA_RSSI vs avg_init) =
       sum_list (recent (map clip_rssi vs)) div min HAL_RSSI_MAVG_NUM (length vs) \<and>
     ma_rssi (fold STA_UPDATE_MA_RSSI vs avg_init) \<le> PHL_MAX_RSSI \<and>
     unat (ma_rssi_ele_sum (fold STA_UPDATE_MA_RSSI vs avg_init)) = sum_list (recent (map clip_rssi vs))"
proof -
  have rel: "avg_rel (map clip_rssi us) (fold STA_UPDATE_MA_RSSI us avg_init)" for us
  proof (induction us rule: rev_induct)
    case Nil
    then show ?case by (simp add: avg_init_rel)
  next
    case (snoc v us)
    then show ?case using avg_step(1) by simp
  qed
  obtain us v where vs: "vs = us @ [v]" using assms by (metis rev_exhaust)
  have all: "\<forall>x\<in>set (map clip_rssi vs). x \<le> PHL_MAX_RSSI" by (auto simp: clip_rssi_def)
  note b = recent_bound [OF all]
  have m: "ma_rssi (fold STA_UPDATE_MA_RSSI vs avg_init) =
      sum_list (recent (map clip_rssi vs)) div min HAL_RSSI_MAVG_NUM (length vs)"
    using avg_step(2) [OF rel [of us], of v] by (simp add: vs HAL_RSSI_MAVG_NUM_def)
  have "sum_list (recent (map clip_rssi vs)) div min 16 (length vs) \<le> 110"
    using div_le_mono [OF b, of "min 16 (length vs)"] assms by simp
  moreover have "unat (ma_rssi_ele_sum (fold STA_UPDATE_MA_RSSI vs avg_init)) = sum_list (recent (map clip_rssi vs))"
    using rel [of vs] b by (simp add: avg_rel_def unat_of_nat take_bit_nat_eq_self)
  ultimately show ?thesis using m by (simp add: PHL_MAX_RSSI_def HAL_RSSI_MAVG_NUM_def)
qed

end
