(* ===== verification/Phl_Rx_Pool.thy ===== *)
theory Phl_Rx_Pool
  imports Phl_Media Phl_Usb_Buf Phl_Rssi
begin

text \<open>
  The receive packets of \<^verbatim>\<open>phl/phl_rx.c\<close>: the packet objects, the state of the receive path, the
  pool of idle packets, and the recycling of a packet together with the USB buffer it points into.

  A packet is the index of its object in \<^verbatim>\<open>rx_pkt_pool->phl_rx\<close>; the ring between PHL and core
  holds the same number (the C code stores the address of the embedded \<^verbatim>\<open>struct rtw_recv_pkt\<close>). Of
  the meta data the model keeps the fields that the receive path reads. The second half defines where
  packets and buffers can be and shows that recycling moves a packet back to the pool and gives up
  its reference to the buffer.
\<close>

section \<open>Packets\<close>

datatype rtw_rx_type =
    RTW_RX_TYPE_WIFI | RTW_RX_TYPE_PPDU_STATUS | RTW_RX_TYPE_CHANNEL_INFO | RTW_RX_TYPE_TX_RPT
  | RTW_RX_TYPE_TX_WP_RELEASE_HOST | RTW_RX_TYPE_DFS_RPT | RTW_RX_TYPE_C2H | RTW_RX_TYPE_MAX

record rtw_r_meta_data =
  md_ta :: mac_addr
  md_pktlen :: nat
  md_bb_sel :: nat
  md_long_rxd :: nat
  md_ppdu_type :: nat
  md_ppdu_cnt :: nat
  md_rx_rate :: nat
  md_rx_gi_ltf :: nat
  md_bw :: nat
  md_amsdu_cut :: bool
  md_last_msdu :: bool
  md_frame_type :: nat
  md_mc :: bool
  md_bc :: bool
  md_more_frag :: bool
  md_pwr_bit :: bool
  md_qos :: bool
  md_tid :: nat
  md_q_null :: bool
  md_seq :: nat
  md_frag_num :: nat
  md_macid :: nat
  md_addr_cam_vld :: bool
  md_mac_addr :: mac_addr

definition zero_meta :: rtw_r_meta_data where
  "zero_meta = \<lparr>md_ta = replicate 6 0, md_pktlen = 0, md_bb_sel = 0, md_long_rxd = 0, md_ppdu_type = 0,
     md_ppdu_cnt = 0, md_rx_rate = 0, md_rx_gi_ltf = 0, md_bw = 0, md_amsdu_cut = False, md_last_msdu = False,
     md_frame_type = 0, md_mc = False, md_bc = False, md_more_frag = False, md_pwr_bit = False, md_qos = False,
     md_tid = 0, md_q_null = False, md_seq = 0, md_frag_num = 0, md_macid = 0, md_addr_cam_vld = False,
     md_mac_addr = replicate 6 0\<rparr>"

record rtw_phl_ppdu_phy_info =
  pi_is_valid :: bool
  pi_rssi :: nat
  pi_rssi_path :: "nat list"
  pi_ch_idx :: nat
  pi_tx_bf :: nat
  pi_frame_type :: nat

text \<open>
  \<^verbatim>\<open>struct rtw_phl_rx_pkt\<close> with its \<^verbatim>\<open>struct rtw_recv_pkt\<close>: \<open>rp_os_priv\<close> is whether a network
  buffer is attached, \<open>rp_length\<close> the length of \<^verbatim>\<open>pkt_list[0]\<close>, \<open>rp_hdr_type\<close> the type and
  subtype bits of the frame's 802.11 header.
\<close>

record rtw_phl_rx_pkt =
  rp_type :: rtw_rx_type
  rp_rxbuf_ptr :: "ptr option"
  rp_os_priv :: bool
  rp_os_netbuf_len :: nat
  rp_mdata :: rtw_r_meta_data
  rp_rx_role :: "nat option"
  rp_tx_sta :: "ptr option"
  rp_length :: nat
  rp_hdr_type :: nat
  rp_phy_info :: rtw_phl_ppdu_phy_info

definition zero_phy_info :: rtw_phl_ppdu_phy_info where
  "zero_phy_info = \<lparr>pi_is_valid = False, pi_rssi = 0, pi_rssi_path = replicate 4 0, pi_ch_idx = 0,
     pi_tx_bf = 0, pi_frame_type = 0\<rparr>"

definition MAX_PHL_RING_RX_PKT_NUM :: nat where "MAX_PHL_RING_RX_PKT_NUM = 8192"

record phl_rx_pkt_pool =
  pool_idle :: "ptr list"
  pool_idle_cnt :: u32

section \<open>PPDU status entries\<close>

definition PHL_MAX_PPDU_CNT :: nat where "PHL_MAX_PPDU_CNT = 8"

record rtw_phl_ppdu_sts_ent =
  se_frame_type :: nat
  se_addr_cam_vld :: bool
  se_crc32 :: nat
  se_ppdu_type :: nat
  se_rx_rate :: nat
  se_src_mac_addr :: mac_addr
  se_valid :: bool
  se_phl_done :: bool
  se_freerun_cnt :: nat
  se_rssi :: nat
  se_sta :: "(bool \<times> nat) list"
  se_frames :: "ptr phl_queue"

record rtw_phl_ppdu_sts_info =
  sts_ent :: "nat \<Rightarrow> nat \<Rightarrow> rtw_phl_ppdu_sts_ent"
  cur_rx_ppdu_cnt :: "nat \<Rightarrow> nat"
  latest_rx_is_psts :: "nat \<Rightarrow> bool"
  en_ppdu_sts :: "nat \<Rightarrow> bool"
  en_psts_per_pkt :: bool
  psts_ampdu :: bool
  ppdu_sts_filter :: u32
  en_fake_psts :: bool
  cur_ppdu_cnt :: "nat \<Rightarrow> nat"

section \<open>The receive path\<close>

text \<open>
  The state: the stations, the packets with their pool, the ring to the core, the USB buffers, the
  PPDU status entries, the event bits, the configuration the receive path reads, and what it makes
  known to others: the power-save changes notified to the core, the packets whose network buffer was
  freed, and the last command to the reorder timer of each station. The last fields are the signal
  strength averages of device and stations and the transmit reports of the stations (per access
  category, and the totals of successes and failures).
\<close>

record rx_st =
  rx_sta :: sta_st
  role_map :: u32
  rx_pkt_pool :: phl_rx_pkt_pool
  rx_pkts :: "ptr \<Rightarrow> rtw_phl_rx_pkt"
  phl_rx_ring :: rtw_phl_rx_ring
  rxbuf_pool :: rtw_rx_buf_ring
  ppdu_sts_info :: rtw_phl_ppdu_sts_info
  evt_bitmap :: u32
  cap_ap_ps :: bool
  append_fcs :: bool
  phl_stats :: rtw_stats
  rx_rate_nmr :: "nat \<Rightarrow> u32"
  ps_changes :: "(nat \<times> mac_addr \<times> bool) list"
  netbuf_freed :: "ptr list"
  reorder_timer :: "ptr \<Rightarrow> timer_cmd option"
  rssi_stat :: rtw_phl_rssi_stat
  sta_rssi :: "ptr \<Rightarrow> rtw_rssi_info"
  sta_wp_rpt :: "ptr \<Rightarrow> rtw_wp_rpt_stats list"
  sta_tx_cnt :: "ptr \<Rightarrow> u32 \<times> u32"

definition upd_pkt :: "ptr \<Rightarrow> (rtw_phl_rx_pkt \<Rightarrow> rtw_phl_rx_pkt) \<Rightarrow> rx_st \<Rightarrow> rx_st" where
  "upd_pkt p f st = st\<lparr>rx_pkts := (rx_pkts st)(p := f (rx_pkts st p))\<rparr>"

definition rtw_phl_query_phl_rx :: "rx_st \<Rightarrow> rx_st \<times> ptr option" where
  "rtw_phl_query_phl_rx st =
     (let pool = rx_pkt_pool st in
      case pool_idle pool of [] \<Rightarrow> (st, None)
      | p # ps \<Rightarrow>
          (st\<lparr>rx_pkt_pool := pool\<lparr>pool_idle := ps, pool_idle_cnt := pool_idle_cnt pool - 1\<rparr>\<rparr>, Some p))"

definition rtw_phl_is_phl_rx_idle :: "rx_st \<Rightarrow> bool" where
  "rtw_phl_is_phl_rx_idle st \<longleftrightarrow> of_nat MAX_PHL_RING_RX_PKT_NUM = pool_idle_cnt (rx_pkt_pool st)"

definition phl_release_phl_rx :: "ptr \<Rightarrow> rx_st \<Rightarrow> rx_st" where
  "phl_release_phl_rx p st =
     (let pool = rx_pkt_pool st;
          st1 = upd_pkt p (\<lambda>_. \<lparr>rp_type = RTW_RX_TYPE_MAX, rp_rxbuf_ptr = None, rp_os_priv = False,
                  rp_os_netbuf_len = 0, rp_mdata = zero_meta, rp_rx_role = None, rp_tx_sta = None,
                  rp_length = 0, rp_hdr_type = 0, rp_phy_info = zero_phy_info\<rparr>) st
      in st1\<lparr>rx_pkt_pool := pool\<lparr>pool_idle := pool_idle pool @ [p],
                                  pool_idle_cnt := pool_idle_cnt pool + 1\<rparr>\<rparr>)"

text \<open>The pool is zeroed before its packets are linked; \<open>alloc\<close> is whether the memory is there.\<close>

definition phl_alloc_recv_pkt_pool :: "bool \<Rightarrow> rx_st \<Rightarrow> rx_st \<times> rtw_phl_status" where
  "phl_alloc_recv_pkt_pool alloc st =
     (if \<not> alloc then (st, RTW_PHL_STATUS_FAILURE)
      else
        (st\<lparr>rx_pkts := (\<lambda>_. \<lparr>rp_type = RTW_RX_TYPE_WIFI, rp_rxbuf_ptr = None, rp_os_priv = False,
                  rp_os_netbuf_len = 0, rp_mdata = zero_meta, rp_rx_role = None, rp_tx_sta = None,
                  rp_length = 0, rp_hdr_type = 0, rp_phy_info = zero_phy_info\<rparr>),
            rx_pkt_pool :=
              fold (\<lambda>i pool. pool\<lparr>pool_idle := pool_idle pool @ [i], pool_idle_cnt := pool_idle_cnt pool + 1\<rparr>)
                [0..<MAX_PHL_RING_RX_PKT_NUM] \<lparr>pool_idle = [], pool_idle_cnt = 0\<rparr>\<rparr>,
         RTW_PHL_STATUS_SUCCESS))"

definition phl_rx_init :: "bool \<Rightarrow> rx_st \<Rightarrow> rx_st \<times> rtw_phl_status" where
  "phl_rx_init alloc st =
     (case phl_alloc_recv_pkt_pool alloc st of
        (st', status) \<Rightarrow> if status \<noteq> RTW_PHL_STATUS_SUCCESS then (st', status) else (st', RTW_PHL_STATUS_SUCCESS))"

text \<open>\<^verbatim>\<open>hci_trx_ops->recycle_rx_buf\<close> is \<^const>\<open>phl_release_rxbuf_usb\<close> on USB.\<close>

definition phl_recycle_rx_buf :: "ptr option \<Rightarrow> rx_st \<Rightarrow> rx_st" where
  "phl_recycle_rx_buf phl_rx st =
     (case phl_rx of None \<Rightarrow> st
      | Some p \<Rightarrow>
          let st1 = (case rp_rxbuf_ptr (rx_pkts st p) of None \<Rightarrow> st
                     | Some b \<Rightarrow> st\<lparr>rxbuf_pool := fst (phl_release_rxbuf_usb (Some b) (rxbuf_pool st))\<rparr>)
          in phl_release_phl_rx p st1)"

definition phl_recycle_rx_pkt_usb :: "ptr \<Rightarrow> rx_st \<Rightarrow> rx_st" where
  "phl_recycle_rx_pkt_usb p st =
     phl_recycle_rx_buf (Some p)
       (if rp_os_priv (rx_pkts st p) then st\<lparr>netbuf_freed := netbuf_freed st @ [p]\<rparr> else st)"

section \<open>Where packets and buffers are\<close>

definition session_pkts :: "sta_st \<Rightarrow> ptr multiset" where
  "session_pkts stt = (\<Sum>s<PHL_MAX_STA_NUM. mset (concat (map phl_tid_ampdu_rx_free (s_tid_rx (stas stt s)))))"

definition wait_pkts :: "rtw_phl_ppdu_sts_info \<Rightarrow> ptr multiset" where
  "wait_pkts ps = (\<Sum>band<HW_BAND_MAX. \<Sum>i<PHL_MAX_PPDU_CNT. mset (queue (se_frames (sts_ent ps band i))))"

definition placed_pkts :: "rx_st \<Rightarrow> ptr multiset" where
  "placed_pkts st = mset (rx_ring_content (phl_rx_ring st)) + session_pkts (rx_sta st) + wait_pkts (ppdu_sts_info st)"

text \<open>
  Every packet is idle, placed (in the ring to the core, in a reorder session, or waiting for its PPDU
  status) or held by whoever works on it, and is so once; an idle packet points to no buffer.
\<close>

definition pkts_inv :: "ptr multiset \<Rightarrow> rx_st \<Rightarrow> bool" where
  "pkts_inv held st \<longleftrightarrow>
     mset (pool_idle (rx_pkt_pool st)) + placed_pkts st + held = mset [0..<MAX_PHL_RING_RX_PKT_NUM] \<and>
     pool_idle_cnt (rx_pkt_pool st) = of_nat (length (pool_idle (rx_pkt_pool st))) \<and>
     (\<forall>p\<in>set (pool_idle (rx_pkt_pool st)). rp_rxbuf_ptr (rx_pkts st p) = None)"

definition buf_users :: "rx_st \<Rightarrow> ptr \<Rightarrow> ptr set" where
  "buf_users st b = {p. p < MAX_PHL_RING_RX_PKT_NUM \<and> rp_rxbuf_ptr (rx_pkts st p) = Some b}"

definition owned_bufs :: "ptr option \<Rightarrow> rx_st \<Rightarrow> ptr set" where
  "owned_bufs cur st = {b. buf_users st b \<noteq> {}} \<union> set_option cur"

text \<open>
  The buffers outside the three lists are those some packet points to, and the one the receive handler
  is parsing (\<open>cur\<close>); a buffer's count is the number of packets that point to it.
\<close>

definition bufs_inv :: "ptr option \<Rightarrow> rx_st \<Rightarrow> bool" where
  "bufs_inv cur st \<longleftrightarrow>
     rxbuf_inv (mset_set (owned_bufs cur st)) (rxbuf_pool st) \<and>
     (\<forall>b. buf_users st b \<noteq> {} \<longrightarrow> Some b \<noteq> cur \<longrightarrow>
        rb_pktcnt (rx_bufs (rxbuf_pool st) b) = card (buf_users st b)) \<and>
     (\<forall>b. cur = Some b \<longrightarrow> rb_pktcnt (rx_bufs (rxbuf_pool st) b) = 0)"

definition pkt_seq :: "rx_st \<Rightarrow> ptr \<Rightarrow> nat" where
  "pkt_seq st p = md_seq (rp_mdata (rx_pkts st p))"

definition tables_inv :: "rx_st \<Rightarrow> bool" where
  "tables_inv st \<longleftrightarrow>
     sta_inv (rx_sta st) \<and> population (rx_sta st) \<subseteq> {..<PHL_MAX_STA_NUM} \<and>
     rx_ring_invar (phl_rx_ring st) \<and>
     (\<forall>s<PHL_MAX_STA_NUM. table_inv (s_tid_rx (stas (rx_sta st) s))) \<and>
     (\<forall>band i. pq_wf (se_frames (sts_ent (ppdu_sts_info st) band i))) \<and>
     (\<forall>band. cur_ppdu_cnt (ppdu_sts_info st) band < PHL_MAX_PPDU_CNT)"

definition rx_inv :: "ptr multiset \<Rightarrow> ptr option \<Rightarrow> rx_st \<Rightarrow> bool" where
  "rx_inv held cur st \<longleftrightarrow> pkts_inv held st \<and> bufs_inv cur st \<and> tables_inv st"

lemma pkts_facts:
  assumes "pkts_inv held st"
  shows "\<And>p. p \<in># held \<Longrightarrow> p \<notin> set (pool_idle (rx_pkt_pool st))" "\<And>p. p \<in># held \<Longrightarrow> p \<notin># placed_pkts st"
    "\<And>p. p \<in># held \<Longrightarrow> p < MAX_PHL_RING_RX_PKT_NUM" "\<And>p. p \<in># held \<Longrightarrow> count held p = 1"
    "\<And>p. p \<in># placed_pkts st \<Longrightarrow> p < MAX_PHL_RING_RX_PKT_NUM"
    "\<And>p. p \<in> set (pool_idle (rx_pkt_pool st)) \<Longrightarrow> p < MAX_PHL_RING_RX_PKT_NUM"
    "distinct (pool_idle (rx_pkt_pool st))"
proof -
  obtain h where h: "mset h = held" using ex_mset by blast
  obtain pl where pl: "mset pl = placed_pkts st" using ex_mset by blast
  have m: "mset (pool_idle (rx_pkt_pool st) @ pl @ h) = mset [0..<MAX_PHL_RING_RX_PKT_NUM]"
    using assms h pl by (simp add: pkts_inv_def add.assoc)
  then have d: "distinct (pool_idle (rx_pkt_pool st) @ pl @ h)" using mset_eq_imp_distinct_iff distinct_upt by blast
  have e: "set (pool_idle (rx_pkt_pool st) @ pl @ h) = {0..<MAX_PHL_RING_RX_PKT_NUM}" using mset_eq_setD [OF m] by simp
  have sets: "set_mset held = set h" "set_mset (placed_pkts st) = set pl" using h pl set_mset_mset by metis+
  show "p \<notin> set (pool_idle (rx_pkt_pool st))" "p \<notin># placed_pkts st" "p < MAX_PHL_RING_RX_PKT_NUM" if "p \<in># held" for p
    using that d e unfolding sets by auto
  show "count held p = 1" if "p \<in># held" for p
    using that d h distinct_count_atmost_1 [of h] by auto
  show "p < MAX_PHL_RING_RX_PKT_NUM" if "p \<in># placed_pkts st" for p
    using that e unfolding sets by auto
  show "p < MAX_PHL_RING_RX_PKT_NUM" if "p \<in> set (pool_idle (rx_pkt_pool st))" for p using that e by auto
  show "distinct (pool_idle (rx_pkt_pool st))" using d by simp
qed

lemma finite_buf_users [simp]: "finite (buf_users st b)"
  by (simp add: buf_users_def)

lemma finite_owned [simp]: "finite (owned_bufs cur st)"
proof -
  have "{b. buf_users st b \<noteq> {}} \<subseteq> (\<lambda>p. the (rp_rxbuf_ptr (rx_pkts st p))) ` {..<MAX_PHL_RING_RX_PKT_NUM}"
    by (force simp: buf_users_def)
  then have "finite {b. buf_users st b \<noteq> {}}" using finite_surj [of "{..<MAX_PHL_RING_RX_PKT_NUM}"] by blast
  then show ?thesis by (simp add: owned_bufs_def)
qed

lemma in_session_pkts:
  "q \<in># session_pkts stt \<longleftrightarrow>
     (\<exists>s<PHL_MAX_STA_NUM. \<exists>e\<in>set (s_tid_rx (stas stt s)). q \<in> set (phl_tid_ampdu_rx_free e))"
  by (auto simp: session_pkts_def set_mset_sum)

lemma tables_inv_cong:
  "tables_inv st \<Longrightarrow> rx_sta st' = rx_sta st \<Longrightarrow> phl_rx_ring st' = phl_rx_ring st \<Longrightarrow> ppdu_sts_info st' = ppdu_sts_info st \<Longrightarrow>
   tables_inv st'"
  by (simp add: tables_inv_def)

lemma placed_cong:
  "rx_sta st' = rx_sta st \<Longrightarrow> phl_rx_ring st' = phl_rx_ring st \<Longrightarrow> ppdu_sts_info st' = ppdu_sts_info st \<Longrightarrow>
   placed_pkts st' = placed_pkts st"
  by (simp add: placed_pkts_def)

lemma pkts_inv_move:
  assumes "pkts_inv held st" and "placed_pkts st' + held' = placed_pkts st + held"
    and "rx_pkt_pool st' = rx_pkt_pool st" and "\<And>q. rp_rxbuf_ptr (rx_pkts st' q) = rp_rxbuf_ptr (rx_pkts st q)"
  shows "pkts_inv held' st'"
  using assms(1) unfolding pkts_inv_def add.assoc assms(2-4) .

section \<open>Recycling\<close>

text \<open>A packet that points to no buffer goes back to the pool.\<close>

lemma release_pkt:
  assumes inv: "rx_inv (add_mset p held) cur st" and none: "rp_rxbuf_ptr (rx_pkts st p) = None"
  shows "rx_inv held cur (phl_release_phl_rx p st)"
proof -
  let ?st = "phl_release_phl_rx p st"
  have pk: "pkts_inv (add_mset p held) st" and bu: "bufs_inv cur st" and tb: "tables_inv st"
    using inv by (simp_all add: rx_inv_def)
  have same: "rx_sta ?st = rx_sta st" "phl_rx_ring ?st = phl_rx_ring st" "ppdu_sts_info ?st = ppdu_sts_info st"
    "rxbuf_pool ?st = rxbuf_pool st"
    by (simp_all add: phl_release_phl_rx_def upd_pkt_def Let_def)
  have r: "rp_rxbuf_ptr (rx_pkts ?st q) = rp_rxbuf_ptr (rx_pkts st q)" for q
    using none by (simp add: phl_release_phl_rx_def upd_pkt_def Let_def)
  have "pkts_inv held ?st"
    using pk none placed_cong [OF same(1-3)]
    by (auto simp: pkts_inv_def r phl_release_phl_rx_def upd_pkt_def Let_def)
  moreover have "bufs_inv cur ?st" using bu by (simp add: bufs_inv_def owned_bufs_def buf_users_def same r)
  moreover have "tables_inv ?st" by (rule tables_inv_cong [OF tb same(1-3)])
  ultimately show ?thesis by (simp add: rx_inv_def)
qed

text \<open>Dropping the reference of a held packet releases the buffer when it was the last one.\<close>

lemma drop_reference:
  assumes inv: "rx_inv (add_mset p held) None st" and b: "rp_rxbuf_ptr (rx_pkts st p) = Some b"
    and ring: "fst (phl_release_rxbuf_usb (Some b) (rxbuf_pool st)) = ring"
    and st': "rxbuf_pool st' = ring" "rx_pkts st' = (rx_pkts st)(p := (rx_pkts st p)\<lparr>rp_rxbuf_ptr := None\<rparr>)"
  shows "bufs_inv None st'"
proof -
  have pk: "pkts_inv (add_mset p held) st" and bu: "bufs_inv None st" using inv by (simp_all add: rx_inv_def)
  have pm: "p < MAX_PHL_RING_RX_PKT_NUM" using pkts_facts(3) [OF pk, of p] by simp
  then have pu: "p \<in> buf_users st b" using b by (simp add: buf_users_def)
  have users: "buf_users st' x = (if x = b then buf_users st b - {p} else buf_users st x)" for x
    using b by (auto simp: buf_users_def st'(2))
  have rb: "rxbuf_inv (mset_set (owned_bufs None st)) (rxbuf_pool st)" and
    cn: "rb_pktcnt (rx_bufs (rxbuf_pool st) b) = card (buf_users st b)"
    using bu pu by (auto simp: bufs_inv_def)
  have bo: "b \<in> owned_bufs None st" using pu by (auto simp: owned_bufs_def)
  obtain stat where e: "phl_release_rxbuf_usb (Some b) (rxbuf_pool st) = (ring, stat)"
    using ring by (cases "phl_release_rxbuf_usb (Some b) (rxbuf_pool st)") simp
  show ?thesis
  proof (cases "buf_users st b = {p}")
    case True
    have ow: "owned_bufs None st' = owned_bufs None st - {b}" using users True by (auto simp: owned_bufs_def)
    have "mset_set (owned_bufs None st) = add_mset b (mset_set (owned_bufs None st'))"
      using bo ow mset_set.remove [OF finite_owned bo] by simp
    then have r: "rxbuf_inv (mset_set (owned_bufs None st')) ring"
      "\<forall>x. x \<noteq> b \<longrightarrow> rx_bufs ring x = rx_bufs (rxbuf_pool st) x"
      using release_last [of b _ "rxbuf_pool st" ring stat] rb cn True e by simp_all
    then show ?thesis using bu users True by (auto simp: bufs_inv_def st'(1))
  next
    case False
    then have two: "1 < card (buf_users st b)"
      using pu card_1_singleton_iff [of "buf_users st b"] card_gt_0_iff [of "buf_users st b"]
      by (metis One_nat_def Suc_lessI empty_iff finite_buf_users singletonD singletonI)
    have ow: "owned_bufs None st' = owned_bufs None st" using users False pu by (auto simp: owned_bufs_def)
    have r: "rxbuf_inv (mset_set (owned_bufs None st)) ring"
      "ring = upd_rxbuf b (\<lambda>x. x\<lparr>rb_pktcnt := rb_pktcnt x - 1\<rparr>) (rxbuf_pool st)"
      using release_more [OF rb _ _ e] bo two cn by auto
    then have "rb_pktcnt (rx_bufs ring x) = card (buf_users st' x)" if "buf_users st' x \<noteq> {}" for x
      using that bu users pu cn by (cases "x = b") (auto simp: bufs_inv_def upd_rxbuf_def)
    then show ?thesis using r(1) by (simp add: bufs_inv_def ow st'(1))
  qed
qed

lemma recycle_buf:
  assumes inv: "rx_inv (add_mset p held) None st"
  shows "rx_inv held None (phl_recycle_rx_buf (Some p) st)"
proof (cases "rp_rxbuf_ptr (rx_pkts st p)")
  case None
  then show ?thesis using release_pkt [OF inv] by (simp add: phl_recycle_rx_buf_def)
next
  case (Some b)
  let ?ring = "fst (phl_release_rxbuf_usb (Some b) (rxbuf_pool st))"
  let ?st1 = "(upd_pkt p (\<lambda>x. x\<lparr>rp_rxbuf_ptr := None\<rparr>) st)\<lparr>rxbuf_pool := ?ring\<rparr>"
  have pk: "pkts_inv (add_mset p held) st" and tb: "tables_inv st" using inv by (simp_all add: rx_inv_def)
  have "bufs_inv None ?st1" by (rule drop_reference [OF inv Some refl]) (simp_all add: upd_pkt_def)
  moreover have "pkts_inv (add_mset p held) ?st1"
    using pk by (auto simp: pkts_inv_def placed_pkts_def upd_pkt_def)
  moreover have "tables_inv ?st1"
    by (rule tables_inv_cong [OF tb]) (simp_all add: upd_pkt_def)
  ultimately have "rx_inv (add_mset p held) None ?st1" by (simp add: rx_inv_def)
  from release_pkt [OF this] have "rx_inv held None (phl_release_phl_rx p ?st1)" by (simp add: upd_pkt_def)
  moreover have "phl_release_phl_rx p ?st1 = phl_recycle_rx_buf (Some p) st"
    using Some by (simp add: phl_recycle_rx_buf_def phl_release_phl_rx_def upd_pkt_def Let_def)
  ultimately show ?thesis by simp
qed

lemma rx_inv_netbuf: "rx_inv held cur (st\<lparr>netbuf_freed := xs\<rparr>) = rx_inv held cur st"
  by (simp add: rx_inv_def pkts_inv_def placed_pkts_def bufs_inv_def owned_bufs_def buf_users_def tables_inv_def)

lemma recycle_pkt:
  "rx_inv (add_mset p held) None st \<Longrightarrow> rx_inv held None (phl_recycle_rx_pkt_usb p st)"
  by (simp add: phl_recycle_rx_pkt_usb_def recycle_buf rx_inv_netbuf)

lemma recycle_frame:
  "rx_sta (phl_recycle_rx_buf (Some p) st) = rx_sta st"
  "phl_rx_ring (phl_recycle_rx_buf (Some p) st) = phl_rx_ring st"
  "ppdu_sts_info (phl_recycle_rx_buf (Some p) st) = ppdu_sts_info st"
  "q \<noteq> p \<Longrightarrow> rx_pkts (phl_recycle_rx_buf (Some p) st) q = rx_pkts st q"
  by (simp_all add: phl_recycle_rx_buf_def phl_release_phl_rx_def upd_pkt_def Let_def split: option.splits)

text \<open>The pool is an object pool: the idle packets are handed out in order and come back at the end.\<close>

interpretation rx_pkt_pool: object_pool "\<lambda>st. pool_idle (rx_pkt_pool st)" "\<lambda>_. True"
  rtw_phl_query_phl_rx "\<lambda>st p. phl_release_phl_rx p st"
  by unfold_locales
     (simp_all add: rtw_phl_query_phl_rx_def phl_release_phl_rx_def upd_pkt_def Let_def)

lemma query_phl_rx:
  assumes inv: "rx_inv held cur st" and "rtw_phl_query_phl_rx st = (st', Some p)"
  shows "rx_inv (add_mset p held) cur st' \<and> rp_rxbuf_ptr (rx_pkts st' p) = None \<and>
     length (pool_idle (rx_pkt_pool st)) = Suc (length (pool_idle (rx_pkt_pool st'))) \<and> rxbuf_pool st' = rxbuf_pool st"
proof -
  have "snd (rtw_phl_query_phl_rx st) \<noteq> None" using assms(2) by simp
  then obtain ps where ps: "pool_idle (rx_pkt_pool st) = p # ps"
    using rx_pkt_pool.alloc_none [of st] rx_pkt_pool.alloc_some [of st] assms(2)
    by (cases "pool_idle (rx_pkt_pool st)") auto
  then have st': "st' = st\<lparr>rx_pkt_pool := (rx_pkt_pool st)\<lparr>pool_idle := ps, pool_idle_cnt := pool_idle_cnt (rx_pkt_pool st) - 1\<rparr>\<rparr>"
    using assms(2) by (simp add: rtw_phl_query_phl_rx_def Let_def)
  have "pkts_inv (add_mset p held) st'" using inv ps by (auto simp: rx_inv_def pkts_inv_def placed_pkts_def st')
  moreover have "bufs_inv cur st' \<and> tables_inv st'"
    using inv by (simp add: rx_inv_def bufs_inv_def owned_bufs_def buf_users_def tables_inv_def st')
  ultimately show ?thesis using inv ps by (simp add: rx_inv_def pkts_inv_def st')
qed

section \<open>An example\<close>

text \<open>An access point with no packet pool yet, an empty ring and no waiting frames.\<close>

definition ex_rx :: rx_st where
  "ex_rx = \<lparr>rx_sta = ex_st, role_map = 1, rx_pkt_pool = \<lparr>pool_idle = [], pool_idle_cnt = 0\<rparr>,
     rx_pkts = (\<lambda>_. \<lparr>rp_type = RTW_RX_TYPE_WIFI, rp_rxbuf_ptr = None, rp_os_priv = False, rp_os_netbuf_len = 0,
        rp_mdata = zero_meta, rp_rx_role = None, rp_tx_sta = None, rp_length = 0, rp_hdr_type = 0, rp_phy_info = zero_phy_info\<rparr>),
     phl_rx_ring = rx_ring_init,
     rxbuf_pool = \<lparr>block_cnt_alloc = 0, rx_bufs = (\<lambda>_. \<lparr>rb_pipe_idx = 0, rb_pktcnt = 0, rb_transfer_len = 0\<rparr>),
        idle_rxbuf_list = pq_init, busy_rxbuf_list = pq_init, pend_rxbuf_list = pq_init, deferred_timer = False\<rparr>,
     ppdu_sts_info = \<lparr>sts_ent = (\<lambda>_ _. \<lparr>se_frame_type = 0, se_addr_cam_vld = False, se_crc32 = 0,
          se_ppdu_type = 0, se_rx_rate = 0, se_src_mac_addr = replicate 6 0, se_valid = False,
          se_phl_done = False, se_freerun_cnt = 0, se_rssi = 0, se_sta = [], se_frames = pq_init\<rparr>),
        cur_rx_ppdu_cnt = (\<lambda>_. 0), latest_rx_is_psts = (\<lambda>_. False),
        en_ppdu_sts = (\<lambda>_. True), en_psts_per_pkt = True, psts_ampdu = False, ppdu_sts_filter = 0, en_fake_psts = False,
        cur_ppdu_cnt = (\<lambda>_. 0)\<rparr>,
     evt_bitmap = 0, cap_ap_ps = True, append_fcs = True, phl_stats = ex_stats, rx_rate_nmr = (\<lambda>_. 0), ps_changes = [],
     netbuf_freed = [], reorder_timer = (\<lambda>_. None), rssi_stat = (\<lambda>_. avg_init),
     sta_rssi = (\<lambda>_. \<lparr>assoc_rssi = 0, sta_ma_rssi = avg_init, ma_rssi_mgnt = 0\<rparr>), sta_wp_rpt = (\<lambda>_. []),
     sta_tx_cnt = (\<lambda>_. (0, 0))\<rparr>"

end
