(* ===== verification/Phl_Rx.thy ===== *)
theory Phl_Rx
  imports Phl_Rx_Pool
begin

text \<open>
  The receive path of \<^verbatim>\<open>phl/phl_rx.c\<close> for one packet: the power-save state of the sender, the
  reordering by station and TID, the hand-over to the core through the ring, the block-ack request,
  the reorder timer, and the core's side of the ring. Each operation is shown to keep every packet and
  every buffer accounted for (\<^const>\<open>rx_inv\<close>), with the packets it works on as the held ones.

  The clock reading of an operation is an argument. An operation that runs the reordering has an
  optional result: \<^const>\<open>None\<close> is a loop that does not end, or an access outside the session table.
\<close>

section \<open>Operations\<close>

definition RTW_PHL_EVT_RX :: u32 where "RTW_PHL_EVT_RX = BIT 0"

definition RTW_FRAME_TYPE_MGNT :: nat where "RTW_FRAME_TYPE_MGNT = 0"
definition RTW_FRAME_TYPE_CTRL :: nat where "RTW_FRAME_TYPE_CTRL = 1"
definition RTW_FRAME_TYPE_DATA :: nat where "RTW_FRAME_TYPE_DATA = 2"

definition upd_rx_sta :: "ptr \<Rightarrow> (rtw_phl_stainfo_t \<Rightarrow> rtw_phl_stainfo_t) \<Rightarrow> rx_st \<Rightarrow> rx_st" where
  "upd_rx_sta s f st = st\<lparr>rx_sta := upd_sta s f (rx_sta st)\<rparr>"

text \<open>The handler is scheduled besides; the model keeps the event bit.\<close>

definition phl_indic_new_rxpkt :: "rx_st \<Rightarrow> rx_st" where
  "phl_indic_new_rxpkt st = st\<lparr>evt_bitmap := evt_bitmap st OR RTW_PHL_EVT_RX\<rparr>"

definition phl_record_rx_stats :: "ptr option \<Rightarrow> rx_st \<Rightarrow> rx_st" where
  "phl_record_rx_stats recvpkt st =
     (case recvpkt of None \<Rightarrow> st
      | Some p \<Rightarrow>
          (case rp_tx_sta (rx_pkts st p) of None \<Rightarrow> st
           | Some s \<Rightarrow>
               upd_rx_sta s (\<lambda>x. x\<lparr>s_stats := (s_stats x)\<lparr>rx_rate := of_nat (md_rx_rate (rp_mdata (rx_pkts st p)))\<rparr>\<rparr>) st))"

text \<open>\<^verbatim>\<open>_phl_add_rx_pkt\<close> with the recording of the rate after the ring was unlocked.\<close>

definition add_rx_pkt :: "ptr \<Rightarrow> rx_st \<Rightarrow> rx_st \<times> rtw_phl_status" where
  "add_rx_pkt p st =
     (case phl_add_rx_pkt (phl_rx_ring st) p of
        (ring, pstatus) \<Rightarrow>
          let st1 = st\<lparr>phl_rx_ring := ring\<rparr>
          in ((if pstatus = RTW_PHL_STATUS_SUCCESS then phl_record_rx_stats (Some p) st1 else st1), pstatus))"

text \<open>
  \<^verbatim>\<open>phl_sta_ps_enter\<close> and \<^verbatim>\<open>phl_sta_ps_exit\<close>; \<open>ps_changes\<close> lists what the callback
  \<^verbatim>\<open>ap_ps_sta_ps_change\<close> is told when the core has registered one.
\<close>

definition phl_sta_ps_enter :: "ptr \<Rightarrow> nat \<Rightarrow> rx_st \<Rightarrow> rx_st" where
  "phl_sta_ps_enter s role st =
     (let st1 = upd_rx_sta s (\<lambda>x. x\<lparr>s_ps_sta := 1\<rparr>) st
      in st1\<lparr>ps_changes := ps_changes st1 @ [(role, s_mac_addr (stas (rx_sta st1) s), True)]\<rparr>)"

definition phl_sta_ps_exit :: "ptr \<Rightarrow> nat \<Rightarrow> rx_st \<Rightarrow> rx_st" where
  "phl_sta_ps_exit s role st =
     (let st1 = upd_rx_sta s (\<lambda>x. x\<lparr>s_ps_sta := 0\<rparr>) st
      in st1\<lparr>ps_changes := ps_changes st1 @ [(role, s_mac_addr (stas (rx_sta st1) s), False)]\<rparr>)"

definition phl_get_wrole_by_addr :: "mac_addr \<Rightarrow> rx_st \<Rightarrow> nat option" where
  "phl_get_wrole_by_addr addr st =
     find (\<lambda>ridx. role_map st AND BIT ridx \<noteq> 0 \<and> r_mac_addr (wifi_roles (rx_sta st) ridx) = addr)
       [0..<MAX_WIFI_ROLE_NUMBER]"

text \<open>The sender of a frame and its role, as \<^verbatim>\<open>phl_rx_handle_sta_process\<close> looks them up.\<close>

definition sta_process_lookup :: "rtw_r_meta_data \<Rightarrow> rx_st \<Rightarrow> ptr option \<times> nat option" where
  "sta_process_lookup m st =
     (let by_cam = (if md_addr_cam_vld m then rtw_phl_get_stainfo_by_macid (md_macid m) (rx_sta st) else None)
      in case by_cam of
           Some s \<Rightarrow> (Some s, s_wrole (stas (rx_sta st) s))
         | None \<Rightarrow>
             (case phl_get_wrole_by_addr (md_mac_addr m) st of
                None \<Rightarrow> (None, None)
              | Some w \<Rightarrow> (rtw_phl_get_stainfo_by_addr w (md_ta m) (rx_sta st), Some w)))"

definition phl_rx_handle_sta_process :: "ptr \<Rightarrow> rx_st \<Rightarrow> rx_st" where
  "phl_rx_handle_sta_process p st =
     (if \<not> cap_ap_ps st then st
      else
        let m = rp_mdata (rx_pkts st p) in
        case sta_process_lookup m st of
          (Some s, Some w) \<Rightarrow>
            let st1 = upd_pkt p (\<lambda>x. x\<lparr>rp_tx_sta := Some s, rp_rx_role := Some w\<rparr>) st
            in if \<not> md_more_frag m \<and>
                  (md_frame_type m = RTW_FRAME_TYPE_DATA \<or> md_frame_type m = RTW_FRAME_TYPE_CTRL) \<and>
                  (r_type (wifi_roles (rx_sta st) w) = PHL_RTYPE_AP \<or>
                   r_type (wifi_roles (rx_sta st) w) = PHL_RTYPE_P2P_GO)
               then (if s_ps_sta (stas (rx_sta st1) s) \<noteq> 0
                     then (if \<not> md_pwr_bit m then phl_sta_ps_exit s w st1 else st1)
                     else (if md_pwr_bit m then phl_sta_ps_enter s w st1 else st1))
               else st1
        | _ \<Rightarrow> st)"

definition phl_handle_rx_frame :: "ptr \<Rightarrow> rx_st \<Rightarrow> rx_st" where
  "phl_handle_rx_frame p st =
     (case add_rx_pkt p (phl_rx_handle_sta_process p st) of
        (st1, status) \<Rightarrow> if status = RTW_PHL_STATUS_RESOURCE then phl_recycle_rx_pkt_usb p st1 else st1)"

definition phl_handle_rx_frame_list :: "ptr list \<Rightarrow> rx_st \<Rightarrow> rx_st" where
  "phl_handle_rx_frame_list frms st = phl_indic_new_rxpkt (fold phl_handle_rx_frame frms st)"

text \<open>The frame check sequence is cut off; \<^const>\<open>None\<close> when the packet is too short for it.\<close>

definition rx_strip_fcs :: "ptr \<Rightarrow> rx_st \<Rightarrow> rx_st option" where
  "rx_strip_fcs p st =
     (let m = rp_mdata (rx_pkts st p) in
      if append_fcs st \<and> \<not> (md_amsdu_cut m \<and> \<not> md_last_msdu m) then
        (if rp_length (rx_pkts st p) \<le> 4 then None
         else Some (upd_pkt p (\<lambda>x. x\<lparr>rp_length := rp_length x - 4\<rparr>) st))
      else Some st)"

text \<open>The station whose sessions reorder the frame; \<^const>\<open>None\<close> when it is not reordered.\<close>

definition rx_reorder_sta :: "rtw_r_meta_data \<Rightarrow> rx_st \<Rightarrow> ptr option" where
  "rx_reorder_sta m st =
     (let sta = (if md_addr_cam_vld m then rtw_phl_get_stainfo_by_macid (md_macid m) (rx_sta st) else None)
      in case sta of
           Some s \<Rightarrow>
             if s_wrole (stas (rx_sta st) s) \<noteq> None then Some s
             else (case phl_get_wrole_by_addr (md_mac_addr m) st of None \<Rightarrow> None
                   | Some w \<Rightarrow> rtw_phl_get_stainfo_by_addr w (md_ta m) (rx_sta st))
         | None \<Rightarrow>
             (case phl_get_wrole_by_addr (md_mac_addr m) st of None \<Rightarrow> None
              | Some w \<Rightarrow> rtw_phl_get_stainfo_by_addr w (md_ta m) (rx_sta st)))"

text \<open>
  What a session hands out takes effect on the state: the entry is stored back, recycled packets go to
  the pool, and the timer command is noted.
\<close>

definition store_session :: "ptr \<Rightarrow> nat \<Rightarrow> reorder_st \<Rightarrow> rx_st \<Rightarrow> rx_st" where
  "store_session s tid r st =
     (let st1 = upd_rx_sta s (\<lambda>x. x\<lparr>s_tid_rx := (s_tid_rx x)[tid := Some (close_session r)]\<rparr>) st;
          st2 = fold (\<lambda>p. phl_recycle_rx_buf (Some p)) (rxbuf_recycled r) (fold phl_recycle_rx_pkt_usb (recycled r) st1)
      in (case timer r of None \<Rightarrow> st2 | Some c \<Rightarrow> st2\<lparr>reorder_timer := (reorder_timer st2)(s := Some c)\<rparr>))"

definition reorder_in_session :: "u32 \<Rightarrow> ptr \<Rightarrow> ptr \<Rightarrow> nat \<Rightarrow> rx_st \<Rightarrow> (rx_st \<times> ptr list \<times> rtw_phl_status) option" where
  "reorder_in_session cur_time p s tid st =
     (if tid \<ge> length (s_tid_rx (stas (rx_sta st) s))
      then Some (phl_recycle_rx_pkt_usb p st, [], RTW_PHL_STATUS_FAILURE)
      else
        case s_tid_rx (stas (rx_sta st) s) ! tid of
          None \<Rightarrow> Some (st, [p], RTW_PHL_STATUS_SUCCESS)
        | Some r \<Rightarrow>
            map_option
              (\<lambda>(r', ret). (store_session s tid r' st, frames r' @ (if ret then [] else [p]), RTW_PHL_STATUS_SUCCESS))
              (phl_manage_sta_reorder_buf (pkt_seq st) cur_time p (open_session r)))"

text \<open>
  \<^verbatim>\<open>phl_rx_reorder\<close>: the new state, the frames to hand up, and the status. The update of the HAL's
  receive statistics of the station is not modelled.
\<close>

definition phl_rx_reorder :: "u32 \<Rightarrow> ptr \<Rightarrow> rx_st \<Rightarrow> (rx_st \<times> ptr list \<times> rtw_phl_status) option" where
  "phl_rx_reorder cur_time p st =
     (case rx_strip_fcs p st of
        None \<Rightarrow> Some (phl_recycle_rx_pkt_usb p st, [], RTW_PHL_STATUS_FAILURE)
      | Some st1 \<Rightarrow>
          let m = rp_mdata (rx_pkts st1 p) in
          if md_bc m \<or> md_mc m \<or> \<not> md_qos m \<or> md_q_null m \<or> md_more_frag m \<or> md_frag_num m \<noteq> 0
          then Some (st1, [p], RTW_PHL_STATUS_SUCCESS)
          else
            case rx_reorder_sta m st1 of
              None \<Rightarrow> Some (st1, [p], RTW_PHL_STATUS_SUCCESS)
            | Some s \<Rightarrow>
                reorder_in_session cur_time p s (md_tid m)
                  (upd_pkt p (\<lambda>x. x\<lparr>rp_tx_sta := Some s, rp_rx_role := s_wrole (stas (rx_sta st1) s)\<rparr>) st1))"

definition RTW_DATA_RATE_HE_NSS4_MCS11 :: nat where "RTW_DATA_RATE_HE_NSS4_MCS11 = 0x1BB"

definition phl_rx_handle_normal :: "u32 \<Rightarrow> ptr \<Rightarrow> rx_st \<Rightarrow> rx_st option" where
  "phl_rx_handle_normal cur_time p st =
     (let rate = md_rx_rate (rp_mdata (rx_pkts st p));
          st1 = (if rate \<le> RTW_DATA_RATE_HE_NSS4_MCS11
                 then st\<lparr>rx_rate_nmr := (rx_rate_nmr st)(rate := rx_rate_nmr st rate + 1)\<rparr> else st)
      in map_option
           (\<lambda>(st2, frms, pstatus). if pstatus = RTW_PHL_STATUS_SUCCESS then phl_handle_rx_frame_list frms st2 else st2)
           (phl_rx_reorder cur_time p st1))"

text \<open>
  \<^verbatim>\<open>rtw_phl_rx_bar\<close> indexes \<^verbatim>\<open>sta->tid_rx\<close> without a check; an index outside is
  \<^const>\<open>None\<close>.
\<close>

definition rtw_phl_rx_bar :: "ptr \<Rightarrow> nat \<Rightarrow> nat \<Rightarrow> rx_st \<Rightarrow> rx_st option" where
  "rtw_phl_rx_bar s tid seq st =
     (let t = s_tid_rx (stas (rx_sta st) s) in
      if tid \<ge> length t then None
      else
        case t ! tid of
          None \<Rightarrow> Some st
        | Some r \<Rightarrow>
            if seq_less seq (head_seq_num r) then Some st
            else
              let r' = phl_release_reorder_frames (open_session r) seq
              in Some (phl_handle_rx_frame_list (frames r') (store_session s tid r' st)))"

text \<open>One round of \<^verbatim>\<open>phl_sta_rx_reorder_timer_expired\<close>, and the rounds for all TIDs.\<close>

definition timer_round :: "u32 \<Rightarrow> ptr \<Rightarrow> nat \<Rightarrow> rx_st \<Rightarrow> rx_st option" where
  "timer_round cur_time s tid st =
     (case s_tid_rx (stas (rx_sta st) s) ! tid of
        None \<Rightarrow> Some (phl_handle_rx_frame_list [] st)
      | Some r \<Rightarrow>
          map_option (\<lambda>r'. phl_handle_rx_frame_list (frames r') (store_session s tid r' st))
            (phl_reorder_release cur_time (open_session r)))"

fun timer_rounds :: "u32 \<Rightarrow> ptr \<Rightarrow> nat list \<Rightarrow> rx_st \<Rightarrow> rx_st option" where
  "timer_rounds cur_time s [] st = Some st"
| "timer_rounds cur_time s (i # is) st =
     (case timer_round cur_time s i st of None \<Rightarrow> None | Some st' \<Rightarrow> timer_rounds cur_time s is st')"

definition rx_reorder_timer_expired :: "u32 \<Rightarrow> ptr \<Rightarrow> rx_st \<Rightarrow> rx_st option" where
  "rx_reorder_timer_expired cur_time s st =
     timer_rounds cur_time s [0..<length (s_tid_rx (stas (rx_sta st) s))] st"

text \<open>The core takes a packet; its length enters the statistics of its station and of the device.\<close>

definition rtw_phl_query_rx_pkt :: "u32 \<Rightarrow> rx_st \<Rightarrow> rx_st \<times> ptr option" where
  "rtw_phl_query_rx_pkt cur_time st =
     (case rx_ring_query (phl_rx_ring st) of
        (ring, None) \<Rightarrow> (st\<lparr>phl_rx_ring := ring\<rparr>, None)
      | (ring, Some p) \<Rightarrow>
          let st1 = st\<lparr>phl_rx_ring := ring\<rparr>;
              m = rp_mdata (rx_pkts st1 p);
              len = \<lparr>pktlen = md_pktlen m, bc = md_bc m, mc = md_mc m\<rparr>;
              sta = rtw_phl_get_stainfo_by_macid (md_macid m) (rx_sta st1);
              (sts', dev') = phl_rx_statistics cur_time len (map_option (\<lambda>s. s_stats (stas (rx_sta st1) s)) sta) (phl_stats st1);
              st2 = (case (sta, sts') of (Some s, Some x) \<Rightarrow> upd_rx_sta s (\<lambda>i. i\<lparr>s_stats := x\<rparr>) st1 | _ \<Rightarrow> st1)
          in (st2\<lparr>phl_stats := dev'\<rparr>, Some p))"

definition rtw_phl_return_rxbuf :: "ptr option \<Rightarrow> rx_st \<Rightarrow> rx_st \<times> rtw_phl_status" where
  "rtw_phl_return_rxbuf recvpkt st =
     (case recvpkt of None \<Rightarrow> (st, RTW_PHL_STATUS_FAILURE)
      | Some p \<Rightarrow> (phl_recycle_rx_buf (Some p) st, RTW_PHL_STATUS_SUCCESS))"

text \<open>\<open>process\<close> is the core's \<^verbatim>\<open>rx_process\<close>, if one is registered.\<close>

definition phl_event_indicator :: "(rx_st \<Rightarrow> rx_st) option \<Rightarrow> rx_st \<Rightarrow> rx_st" where
  "phl_event_indicator process st =
     (if evt_bitmap st AND RTW_PHL_EVT_RX \<noteq> 0 then
        let st1 = (case process of None \<Rightarrow> st | Some f \<Rightarrow> f st)
        in st1\<lparr>evt_bitmap := evt_bitmap st1 AND NOT RTW_PHL_EVT_RX\<rparr>
      else st)"

text \<open>Start and end of a block-ack session of a station, with the packets they recycle.\<close>

definition start_rx_ba_session ::
  "ampdu_alloc \<Rightarrow> ptr \<Rightarrow> nat \<Rightarrow> nat \<Rightarrow> nat \<Rightarrow> nat \<Rightarrow> rx_st \<Rightarrow> rx_st \<times> rtw_phl_status" where
  "start_rx_ba_session al s start_seq_num ba_policy tid sz st =
     (case rtw_phl_start_rx_ba_session al (s_tid_rx (stas (rx_sta st) s)) start_seq_num ba_policy tid sz of
        (t, status, rec, leaked) \<Rightarrow>
          (fold phl_recycle_rx_pkt_usb rec (upd_rx_sta s (\<lambda>x. x\<lparr>s_tid_rx := t\<rparr>) st), status))"

definition stop_rx_ba_session :: "ptr option \<Rightarrow> nat \<Rightarrow> rx_st \<Rightarrow> rx_st" where
  "stop_rx_ba_session sta tid st =
     (case sta of None \<Rightarrow> st
      | Some s \<Rightarrow>
          (case rtw_phl_stop_rx_ba_session (Some (s_tid_rx (stas (rx_sta st) s))) tid of
             (t, rec) \<Rightarrow>
               fold phl_recycle_rx_pkt_usb rec
                 (case t of None \<Rightarrow> st | Some t' \<Rightarrow> upd_rx_sta s (\<lambda>x. x\<lparr>s_tid_rx := t'\<rparr>) st)))"

section \<open>What does not move packets\<close>

text \<open>Two states that agree on everything the accounting of packets and buffers looks at.\<close>

definition rx_same :: "rx_st \<Rightarrow> rx_st \<Rightarrow> bool" where
  "rx_same st st' \<longleftrightarrow>
     rx_pkt_pool st' = rx_pkt_pool st \<and> rxbuf_pool st' = rxbuf_pool st \<and> phl_rx_ring st' = phl_rx_ring st \<and>
     ppdu_sts_info st' = ppdu_sts_info st \<and>
     (\<forall>q. rp_rxbuf_ptr (rx_pkts st' q) = rp_rxbuf_ptr (rx_pkts st q) \<and> rp_mdata (rx_pkts st' q) = rp_mdata (rx_pkts st q)) \<and>
     free_sta_queue (rx_sta st') = free_sta_queue (rx_sta st) \<and> mac_ctrl (rx_sta st') = mac_ctrl (rx_sta st) \<and>
     wifi_roles (rx_sta st') = wifi_roles (rx_sta st) \<and>
     (\<forall>x. s_wrole (stas (rx_sta st') x) = s_wrole (stas (rx_sta st) x) \<and>
          s_macid (stas (rx_sta st') x) = s_macid (stas (rx_sta st) x) \<and>
          s_tid_rx (stas (rx_sta st') x) = s_tid_rx (stas (rx_sta st) x))"

lemma rx_same_refl [simp]: "rx_same st st"
  by (simp add: rx_same_def)

lemma rx_same_trans: "rx_same st st' \<Longrightarrow> rx_same st' st'' \<Longrightarrow> rx_same st st''"
  by (simp add: rx_same_def)

lemma rx_same_sta:
  "(\<And>x. s_wrole (f x) = s_wrole x) \<Longrightarrow> (\<And>x. s_macid (f x) = s_macid x) \<Longrightarrow> (\<And>x. s_tid_rx (f x) = s_tid_rx x) \<Longrightarrow>
   rx_same st (upd_rx_sta s f st)"
  by (simp add: rx_same_def upd_rx_sta_def upd_sta_def)

lemma rx_same_pkt:
  "(\<And>x. rp_rxbuf_ptr (f x) = rp_rxbuf_ptr x) \<Longrightarrow> (\<And>x. rp_mdata (f x) = rp_mdata x) \<Longrightarrow> rx_same st (upd_pkt p f st)"
  by (simp add: rx_same_def upd_pkt_def)

lemma rx_same_fields [simp]:
  "rx_same st (st\<lparr>evt_bitmap := e\<rparr>)" "rx_same st (st\<lparr>ps_changes := c\<rparr>)" "rx_same st (st\<lparr>netbuf_freed := n\<rparr>)"
  "rx_same st (st\<lparr>reorder_timer := t\<rparr>)" "rx_same st (st\<lparr>rx_rate_nmr := r\<rparr>)" "rx_same st (st\<lparr>phl_stats := d\<rparr>)"
  by (simp_all add: rx_same_def)

lemma rx_same_inv:
  assumes "rx_same st st'"
  shows "rx_inv held cur st' = rx_inv held cur st"
proof -
  note s = assms [unfolded rx_same_def]
  have "sta_inv (rx_sta st') = sta_inv (rx_sta st) \<and> population (rx_sta st') = population (rx_sta st) \<and>
      assoc (rx_sta st') = assoc (rx_sta st) \<and> free_stas (rx_sta st') = free_stas (rx_sta st)"
    by (rule sta_inv_cong) (use s in simp_all)
  moreover have "session_pkts (rx_sta st') = session_pkts (rx_sta st)" using s by (simp add: session_pkts_def)
  moreover have "buf_users st' = buf_users st" using s by (simp add: buf_users_def fun_eq_iff)
  ultimately show ?thesis using s
    by (simp add: rx_inv_def pkts_inv_def placed_pkts_def bufs_inv_def owned_bufs_def tables_inv_def)
qed

lemma sta_process_same: "rx_same st (phl_rx_handle_sta_process p st)"
proof -
  have 1: "rx_same st (upd_pkt p (\<lambda>x. x\<lparr>rp_tx_sta := Some s, rp_rx_role := Some w\<rparr>) st)" for s w st
    by (rule rx_same_pkt) simp_all
  have 2: "rx_same st (phl_sta_ps_enter s w st)" "rx_same st (phl_sta_ps_exit s w st)" for s w st
    by (simp_all add: rx_same_def phl_sta_ps_enter_def phl_sta_ps_exit_def upd_rx_sta_def upd_sta_def Let_def)
  show ?thesis
    using rx_same_trans [OF 1 2(1)] rx_same_trans [OF 1 2(2)] 1
    by (auto simp: phl_rx_handle_sta_process_def Let_def split: prod.splits option.splits)
qed

lemma record_same: "rx_same st (phl_record_rx_stats p st)"
  by (auto simp: phl_record_rx_stats_def intro!: rx_same_sta split: option.splits)

section \<open>Handing frames to the core\<close>

lemma handle_frame:
  assumes inv: "rx_inv (add_mset p held) None st"
  shows "rx_inv held None (phl_handle_rx_frame p st)"
proof -
  let ?st = "phl_rx_handle_sta_process p st"
  have i: "rx_inv (add_mset p held) None ?st" using rx_same_inv [OF sta_process_same] inv by blast
  obtain ring status where r: "phl_add_rx_pkt (phl_rx_ring ?st) p = (ring, status)" by fastforce
  have ri: "rx_ring_invar (phl_rx_ring ?st)" using i by (simp add: rx_inv_def tables_inv_def)
  have put: "rx_ring_put (phl_rx_ring ?st) p = (ring, status \<noteq> RTW_PHL_STATUS_RESOURCE)" using r by (simp add: rx_ring_put_def)
  note c = rx_ring.put_content [OF ri put] and v = rx_ring.put_invar [OF ri, of p, unfolded put, simplified]
  show ?thesis
  proof (cases "status = RTW_PHL_STATUS_RESOURCE")
    case True
    then have "ring = phl_rx_ring ?st"
      using r by (auto simp: phl_add_rx_pkt_def Let_def PHL_RX_BATCH_IND_def split: if_splits)
    then have "phl_handle_rx_frame p st = phl_recycle_rx_pkt_usb p ?st"
      using r True by (simp add: phl_handle_rx_frame_def add_rx_pkt_def)
    then show ?thesis using recycle_pkt [OF i] by simp
  next
    case False
    let ?st1 = "?st\<lparr>phl_rx_ring := ring\<rparr>"
    have "rx_inv held None ?st1" using i c v False
      by (auto simp: rx_inv_def pkts_inv_def placed_pkts_def bufs_inv_def owned_bufs_def buf_users_def tables_inv_def)
    then show ?thesis using r False rx_same_inv [OF record_same, of held None "Some p" ?st1]
      by (simp add: phl_handle_rx_frame_def add_rx_pkt_def Let_def)
  qed
qed

lemma handle_frame_list:
  assumes "rx_inv (mset frms + held) None st"
  shows "rx_inv held None (phl_handle_rx_frame_list frms st)"
proof -
  have "rx_inv (mset frms + held) None st \<Longrightarrow> rx_inv held None (fold phl_handle_rx_frame frms st)"
    by (induction frms arbitrary: st) (auto dest: handle_frame)
  with assms show ?thesis by (simp add: phl_handle_rx_frame_list_def phl_indic_new_rxpkt_def rx_same_inv [OF rx_same_fields(1)])
qed

lemma recycle_pkts:
  "rx_inv (mset ps + held) None st \<Longrightarrow> rx_inv held None (fold phl_recycle_rx_pkt_usb ps st)"
  by (induction ps arbitrary: st) (auto dest: recycle_pkt)

section \<open>Sessions\<close>

lemma session_pkts_update:
  assumes "s < PHL_MAX_STA_NUM" and "tid < length (s_tid_rx (stas stt s))"
    and "stt' = upd_sta s (\<lambda>x. x\<lparr>s_tid_rx := (s_tid_rx x)[tid := e]\<rparr>) stt"
  shows "session_pkts stt' + mset (phl_tid_ampdu_rx_free (s_tid_rx (stas stt s) ! tid)) =
     session_pkts stt + mset (phl_tid_ampdu_rx_free e)"
proof -
  let ?f = "\<lambda>stt i. mset (concat (map phl_tid_ampdu_rx_free (s_tid_rx (stas stt i))))"
  let ?t = "s_tid_rx (stas stt s)"
  have split: "(\<Sum>i<PHL_MAX_STA_NUM. ?f x i) = ?f x s + (\<Sum>i\<in>{..<PHL_MAX_STA_NUM} - {s}. ?f x i)" for x
    using assms(1) sum.remove [of "{..<PHL_MAX_STA_NUM}" s "?f x"] by simp
  have rest: "(\<Sum>i\<in>{..<PHL_MAX_STA_NUM} - {s}. ?f stt' i) = (\<Sum>i\<in>{..<PHL_MAX_STA_NUM} - {s}. ?f stt i)"
    using assms(3) by (simp add: upd_sta_def)
  have "?t = take tid ?t @ ?t ! tid # drop (Suc tid) ?t" using assms(2) by (rule id_take_nth_drop)
  then have o: "?f stt s = mset (concat (map phl_tid_ampdu_rx_free (take tid ?t))) +
      mset (phl_tid_ampdu_rx_free (?t ! tid)) + mset (concat (map phl_tid_ampdu_rx_free (drop (Suc tid) ?t)))"
    by (metis (no_types, lifting) add.assoc concat.simps(2) concat_append list.simps(9) map_append mset_append)
  have "s_tid_rx (stas stt' s) = take tid ?t @ e # drop (Suc tid) ?t"
    using assms(2,3) by (simp add: upd_sta_def upd_conv_take_nth_drop)
  then have n: "?f stt' s = mset (concat (map phl_tid_ampdu_rx_free (take tid ?t))) +
      mset (phl_tid_ampdu_rx_free e) + mset (concat (map phl_tid_ampdu_rx_free (drop (Suc tid) ?t)))"
    by simp
  show ?thesis by (simp only: session_pkts_def split rest o n) (simp add: ac_simps)
qed

text \<open>
  An entry is replaced: what the old entry stored is now stored by the new one or held.
\<close>

lemma replace_session:
  assumes inv: "rx_inv (mset extra + held) None st" and s: "s < PHL_MAX_STA_NUM"
    and tid: "tid < length (s_tid_rx (stas (rx_sta st) s))"
    and e: "\<And>r. e = Some r \<Longrightarrow> sess_ok (open_session r)"
    and cons: "mset (phl_tid_ampdu_rx_free e) + mset out =
        mset (phl_tid_ampdu_rx_free (s_tid_rx (stas (rx_sta st) s) ! tid)) + mset extra"
    and st': "st' = upd_rx_sta s (\<lambda>x. x\<lparr>s_tid_rx := (s_tid_rx x)[tid := e]\<rparr>) st"
  shows "rx_inv (mset out + held) None st'"
proof -
  have pk: "pkts_inv (mset extra + held) st" and bu: "bufs_inv None st" and tb: "tables_inv st"
    using inv by (simp_all add: rx_inv_def)
  have up: "session_pkts (rx_sta st') + mset (phl_tid_ampdu_rx_free (s_tid_rx (stas (rx_sta st) s) ! tid)) =
      session_pkts (rx_sta st) + mset (phl_tid_ampdu_rx_free e)"
    by (rule session_pkts_update [OF s tid]) (simp add: st' upd_rx_sta_def)
  have "session_pkts (rx_sta st') + mset out = session_pkts (rx_sta st) + mset extra"
  proof -
    let ?o = "mset (phl_tid_ampdu_rx_free (s_tid_rx (stas (rx_sta st) s) ! tid))"
    have "session_pkts (rx_sta st') + mset out + ?o = session_pkts (rx_sta st) + mset extra + ?o"
      using up cons by (metis (no_types, lifting) add.assoc add.commute)
    then show ?thesis by simp
  qed
  then have "placed_pkts st' + (mset out + held) = placed_pkts st + (mset extra + held)"
    by (simp add: placed_pkts_def st' upd_rx_sta_def)
  then have "pkts_inv (mset out + held) st'"
    by (rule pkts_inv_move [OF pk]) (simp_all add: st' upd_rx_sta_def)
  moreover have "bufs_inv None st'"
    using bu by (simp add: bufs_inv_def owned_bufs_def buf_users_def st' upd_rx_sta_def)
  moreover have "tables_inv st'"
  proof -
    let ?stt = "upd_sta s (\<lambda>x. x\<lparr>s_tid_rx := (s_tid_rx x)[tid := e]\<rparr>) (rx_sta st)"
    have "sta_inv ?stt = sta_inv (rx_sta st) \<and> population ?stt = population (rx_sta st) \<and>
        assoc ?stt = assoc (rx_sta st) \<and> free_stas ?stt = free_stas (rx_sta st)"
      by (rule sta_inv_cong) (simp_all add: upd_sta_def)
    moreover have "table_inv (s_tid_rx (stas ?stt i))" if "i < PHL_MAX_STA_NUM" for i
    proof (cases "i = s")
      case True
      have "table_inv (s_tid_rx (stas (rx_sta st) s))" using tb s by (simp add: tables_inv_def)
      then show ?thesis using e set_update_subset_insert [of "s_tid_rx (stas (rx_sta st) s)" tid e] True
        by (auto simp: table_inv_def upd_sta_def)
    qed (use tb that in \<open>simp add: tables_inv_def upd_sta_def\<close>)
    ultimately show ?thesis using tb by (simp add: tables_inv_def st' upd_rx_sta_def)
  qed
  ultimately show ?thesis by (simp add: rx_inv_def)
qed

lemma store_session_inv:
  assumes inv: "rx_inv (mset extra + held) None st" and s: "s < PHL_MAX_STA_NUM"
    and tid: "tid < length (s_tid_rx (stas (rx_sta st) s))" and r: "s_tid_rx (stas (rx_sta st) s) ! tid = Some r"
    and ri: "sess_ok r'" and none: "rxbuf_recycled r' = []"
    and cons: "mset (somes (reorder_buf r')) + mset (recycled r') + mset frms = mset (somes (reorder_buf r)) + mset extra"
  shows "rx_inv (mset frms + held) None (store_session s tid r' st)"
proof -
  let ?st = "upd_rx_sta s (\<lambda>x. x\<lparr>s_tid_rx := (s_tid_rx x)[tid := Some (close_session r')]\<rparr>) st"
  have "table_inv (s_tid_rx (stas (rx_sta st) s))" using inv s by (simp add: rx_inv_def tables_inv_def)
  then have o: "sess_ok (open_session r)" using r tid nth_mem [OF tid] by (simp add: table_inv_def)
  have n: "sess_ok (open_session (close_session r'))" using ri by (simp add: sess_ok_close)
  have "rx_inv (mset (recycled r' @ frms) + held) None ?st"
  proof (rule replace_session [OF inv s tid _ _ refl])
    show "sess_ok (open_session x)" if "Some (close_session r') = Some x" for x using n that by simp
    show "mset (phl_tid_ampdu_rx_free (Some (close_session r'))) + mset (recycled r' @ frms) =
        mset (phl_tid_ampdu_rx_free (s_tid_rx (stas (rx_sta st) s) ! tid)) + mset extra"
      unfolding r free_open [OF o] free_open [OF n] using cons by (simp add: add.assoc)
  qed
  then have "rx_inv (mset frms + held) None (fold phl_recycle_rx_pkt_usb (recycled r') ?st)"
    by (intro recycle_pkts) (simp add: add.assoc)
  then show ?thesis using none by (auto simp: store_session_def Let_def rx_same_inv [OF rx_same_fields(4)] split: option.splits)
qed

lemma reorder_session:
  assumes inv: "rx_inv (add_mset p held) None st" and s: "s < PHL_MAX_STA_NUM"
  shows "\<exists>st' frms status. reorder_in_session t p s tid st = Some (st', frms, status) \<and>
     rx_inv (mset frms + held) None st' \<and> (status \<noteq> RTW_PHL_STATUS_SUCCESS \<longrightarrow> frms = [])"
proof (cases "tid < length (s_tid_rx (stas (rx_sta st) s))")
  case False
  then show ?thesis using recycle_pkt [OF inv] by (simp add: reorder_in_session_def)
next
  case tid: True
  show ?thesis
  proof (cases "s_tid_rx (stas (rx_sta st) s) ! tid")
    case None
    then show ?thesis using tid inv by (simp add: reorder_in_session_def)
  next
    case (Some r)
    have tb: "tables_inv st" using inv by (simp add: rx_inv_def)
    then have "table_inv (s_tid_rx (stas (rx_sta st) s))" using s by (simp add: tables_inv_def)
    then have o: "sess_ok (open_session r)" using Some tid nth_mem [OF tid] by (simp add: table_inv_def)
    obtain r' ret where m: "phl_manage_sta_reorder_buf (pkt_seq st) t p (open_session r) = Some (r', ret)"
      and ok: "arrival_kept p (open_session r) r' ret"
      using manage_kept [OF o, of "pkt_seq st" t p] by blast
    have c: "mset (somes (reorder_buf r')) + mset (recycled r') + mset (frames r' @ (if ret then [] else [p])) =
        mset (somes (reorder_buf r)) + mset [p]" "rxbuf_recycled r' = []" "sess_ok r'"
      using ok by (auto simp: arrival_kept_def ac_simps)
    have "rx_inv (mset (frames r' @ (if ret then [] else [p])) + held) None (store_session s tid r' st)"
      by (rule store_session_inv [OF _ s tid Some c(3,2,1)]) (use inv in simp)
    then show ?thesis using tid Some m by (auto simp: reorder_in_session_def)
  qed
qed

section \<open>The operations keep the accounts\<close>

lemma lookup_range:
  assumes "tables_inv st"
  shows "rtw_phl_get_stainfo_by_macid mid (rx_sta st) = Some s \<Longrightarrow> s < PHL_MAX_STA_NUM"
    "w < 5 \<Longrightarrow> rtw_phl_get_stainfo_by_addr w addr (rx_sta st) = Some s \<Longrightarrow> s < PHL_MAX_STA_NUM"
proof -
  have inv: "sta_inv (rx_sta st)" and po: "population (rx_sta st) \<subseteq> {..<PHL_MAX_STA_NUM}"
    using assms by (simp_all add: tables_inv_def)
  have pop: "x < PHL_MAX_STA_NUM" if "v < 5" "x \<in> set (assoc (rx_sta st) v)" for x v
    using that po by (auto simp: population_def)
  show "s < PHL_MAX_STA_NUM" if "rtw_phl_get_stainfo_by_macid mid (rx_sta st) = Some s"
  proof -
    have "mid < max_num (mac_ctrl (rx_sta st))" "mc_sta (mac_ctrl (rx_sta st)) ! mid = Some s"
      using that by (auto simp: rtw_phl_get_stainfo_by_macid_def split: if_splits)
    then have "\<exists>v<5. s \<in> set (assoc (rx_sta st) v)" using inv by (simp add: sta_inv_def)
    then show ?thesis using pop by blast
  qed
  show "s < PHL_MAX_STA_NUM" if "w < 5" "rtw_phl_get_stainfo_by_addr w addr (rx_sta st) = Some s"
    using by_addr_assoc [OF inv that] pop by blast
qed

lemma wrole_by_addr_range: "phl_get_wrole_by_addr addr st = Some w \<Longrightarrow> w < 5"
  by (auto simp: phl_get_wrole_by_addr_def find_Some_iff MAX_WIFI_ROLE_NUMBER_def)

lemma reorder_sta_range: "tables_inv st \<Longrightarrow> rx_reorder_sta m st = Some s \<Longrightarrow> s < PHL_MAX_STA_NUM"
  by (auto simp: rx_reorder_sta_def Let_def split: option.splits if_splits
      dest: lookup_range(1) lookup_range(2) [OF _ wrole_by_addr_range])

lemma strip_same: "rx_strip_fcs p st = Some st' \<Longrightarrow> rx_same st st'"
  by (auto simp: rx_strip_fcs_def Let_def split: if_splits intro: rx_same_pkt)

lemma rx_reorder:
  assumes inv: "rx_inv (add_mset p held) None st"
  shows "\<exists>st' frms status. phl_rx_reorder t p st = Some (st', frms, status) \<and>
     rx_inv (mset frms + held) None st' \<and> (status \<noteq> RTW_PHL_STATUS_SUCCESS \<longrightarrow> frms = [])"
proof (cases "rx_strip_fcs p st")
  case None
  then show ?thesis using recycle_pkt [OF inv] by (simp add: phl_rx_reorder_def)
next
  case (Some st1)
  have i1: "rx_inv (add_mset p held) None st1" using rx_same_inv [OF strip_same [OF Some]] inv by blast
  let ?m = "rp_mdata (rx_pkts st1 p)"
  show ?thesis
  proof (cases "md_bc ?m \<or> md_mc ?m \<or> \<not> md_qos ?m \<or> md_q_null ?m \<or> md_more_frag ?m \<or> md_frag_num ?m \<noteq> 0 \<or>
      rx_reorder_sta ?m st1 = None")
    case True
    then have "phl_rx_reorder t p st = Some (st1, [p], RTW_PHL_STATUS_SUCCESS)"
      using Some by (auto simp: phl_rx_reorder_def Let_def)
    then show ?thesis using i1 by simp
  next
    case False
    then obtain s where s: "rx_reorder_sta ?m st1 = Some s" by auto
    let ?st2 = "upd_pkt p (\<lambda>x. x\<lparr>rp_tx_sta := Some s, rp_rx_role := s_wrole (stas (rx_sta st1) s)\<rparr>) st1"
    have "rx_same st1 ?st2" by (rule rx_same_pkt) simp_all
    then have i2: "rx_inv (add_mset p held) None ?st2" using rx_same_inv i1 by blast
    have "s < PHL_MAX_STA_NUM" using reorder_sta_range [OF _ s] i1 by (simp add: rx_inv_def)
    from reorder_session [OF i2 this, of t "md_tid ?m"] show ?thesis
      using Some False s by (simp add: phl_rx_reorder_def Let_def)
  qed
qed

lemma handle_normal:
  assumes inv: "rx_inv (add_mset p held) None st"
  shows "\<exists>st'. phl_rx_handle_normal t p st = Some st' \<and> rx_inv held None st'"
proof -
  let ?rate = "md_rx_rate (rp_mdata (rx_pkts st p))"
  let ?st1 = "if ?rate \<le> RTW_DATA_RATE_HE_NSS4_MCS11
              then st\<lparr>rx_rate_nmr := (rx_rate_nmr st)(?rate := rx_rate_nmr st ?rate + 1)\<rparr> else st"
  have "rx_inv (add_mset p held) None ?st1" using inv by (simp add: rx_same_inv [OF rx_same_fields(5)])
  from rx_reorder [OF this, of t] obtain st2 frms status where
    r: "phl_rx_reorder t p ?st1 = Some (st2, frms, status)" "rx_inv (mset frms + held) None st2"
      "status \<noteq> RTW_PHL_STATUS_SUCCESS \<longrightarrow> frms = []" by blast
  then show ?thesis using handle_frame_list [OF r(2)]
    by (cases "status = RTW_PHL_STATUS_SUCCESS") (auto simp: phl_rx_handle_normal_def Let_def)
qed

lemma drained_session:
  assumes inv: "rx_inv held None st" and s: "s < PHL_MAX_STA_NUM"
    and tid: "tid < length (s_tid_rx (stas (rx_sta st) s))" and r: "s_tid_rx (stas (rx_sta st) s) ! tid = Some r"
    and d: "drained (open_session r) r'"
  shows "rx_inv held None (phl_handle_rx_frame_list (frames r') (store_session s tid r' st))"
proof -
  have r': "sess_ok r'" "rxbuf_recycled r' = []"
    "mset (somes (reorder_buf r')) + mset (recycled r') + mset (frames r') = mset (somes (reorder_buf r)) + mset []"
    using d by (auto simp: drained_def ac_simps)
  from store_session_inv [OF _ s tid r r', of held] inv
  show ?thesis by (intro handle_frame_list) simp
qed

lemma table_session:
  assumes "rx_inv held cur st" and "s < PHL_MAX_STA_NUM"
  shows "length (s_tid_rx (stas (rx_sta st) s)) = 8"
    "tid < 8 \<Longrightarrow> s_tid_rx (stas (rx_sta st) s) ! tid = Some r \<Longrightarrow> sess_ok (open_session r)"
proof -
  have t: "table_inv (s_tid_rx (stas (rx_sta st) s))" using assms by (simp add: rx_inv_def tables_inv_def)
  then show l: "length (s_tid_rx (stas (rx_sta st) s)) = 8" by (simp add: table_inv_def)
  show "sess_ok (open_session r)" if "tid < 8" "s_tid_rx (stas (rx_sta st) s) ! tid = Some r"
    using t that l nth_mem [of tid "s_tid_rx (stas (rx_sta st) s)"] by (simp add: table_inv_def)
qed

lemma timer_round_inv:
  assumes inv: "rx_inv held None st" and s: "s < PHL_MAX_STA_NUM" and tid: "tid < 8"
  shows "\<exists>st'. timer_round t s tid st = Some st' \<and> rx_inv held None st'"
proof (cases "s_tid_rx (stas (rx_sta st) s) ! tid")
  case None
  then show ?thesis using handle_frame_list [of "[]" held st] inv by (simp add: timer_round_def)
next
  case (Some r)
  obtain r' where r': "phl_reorder_release t (open_session r) = Some r'" "drained (open_session r) r'"
    using reorder_release_drained [OF table_session(2) [OF inv s tid Some]] by blast
  have "rx_inv held None (phl_handle_rx_frame_list (frames r') (store_session s tid r' st))"
    by (rule drained_session [OF inv s _ Some r'(2)]) (simp add: table_session [OF inv s] tid)
  then show ?thesis using Some r'(1) by (simp add: timer_round_def)
qed

lemma timer_rounds_inv:
  "rx_inv held None st \<Longrightarrow> s < PHL_MAX_STA_NUM \<Longrightarrow> \<forall>i\<in>set is. i < 8 \<Longrightarrow>
   \<exists>st'. timer_rounds t s is st = Some st' \<and> rx_inv held None st'"
proof (induction "is" arbitrary: st)
  case (Cons i "is")
  from timer_round_inv [OF Cons.prems(1,2), of i t] Cons.prems(3)
  obtain st1 where "timer_round t s i st = Some st1" "rx_inv held None st1" by auto
  then show ?case using Cons.IH [of st1] Cons.prems(2,3) by simp
qed simp

lemma timer_expired:
  assumes "rx_inv held None st" and "s < PHL_MAX_STA_NUM"
  shows "\<exists>st'. rx_reorder_timer_expired t s st = Some st' \<and> rx_inv held None st'"
proof -
  have "length (s_tid_rx (stas (rx_sta st) s)) = 8"
    using assms by (simp add: rx_inv_def tables_inv_def table_inv_def)
  then show ?thesis using timer_rounds_inv [OF assms, of "[0..<8]" t] by (auto simp: rx_reorder_timer_expired_def)
qed

text \<open>The block-ack request, for any sequence number.\<close>

lemma rx_bar:
  assumes inv: "rx_inv held None st" and s: "s < PHL_MAX_STA_NUM" and st': "rtw_phl_rx_bar s tid seq st = Some st'"
  shows "rx_inv held None st'"
proof -
  let ?t = "s_tid_rx (stas (rx_sta st) s)"
  have tid: "tid < 8" using st' by (auto simp: rtw_phl_rx_bar_def Let_def table_session [OF inv s] split: if_splits)
  show ?thesis
  proof (cases "\<exists>r. ?t ! tid = Some r \<and> \<not> seq_less seq (head_seq_num r)")
    case False
    then have "st' = st" using st'
      by (auto simp: rtw_phl_rx_bar_def Let_def split: if_splits option.splits)
    then show ?thesis using inv by simp
  next
    case True
    then obtain r where r: "?t ! tid = Some r" "\<not> seq_less seq (head_seq_num r)" by blast
    have "drained (open_session r) (phl_release_reorder_frames (open_session r) seq)"
      by (rule release_frames_drained [OF table_session(2) [OF inv s tid r(1)]])
    from drained_session [OF inv s _ r(1) this] show ?thesis
      using st' r tid table_session(1) [OF inv s] by (simp add: rtw_phl_rx_bar_def Let_def)
  qed
qed

lemma query_rx:
  assumes inv: "rx_inv held None st" and "rtw_phl_query_rx_pkt t st = (st', p)"
  shows "rx_inv ((case p of None \<Rightarrow> {#} | Some x \<Rightarrow> {#x#}) + held) None st'"
proof -
  obtain ring y where g: "rx_ring_query (phl_rx_ring st) = (ring, y)" by fastforce
  have ri: "rx_ring_invar (phl_rx_ring st)" using inv by (simp add: rx_inv_def tables_inv_def)
  note c = rx_ring.get_content [OF ri g] and v = rx_ring.get_invar [OF ri, unfolded g, simplified]
  let ?st1 = "st\<lparr>phl_rx_ring := ring\<rparr>"
  have "rx_inv ((case y of None \<Rightarrow> {#} | Some x \<Rightarrow> {#x#}) + held) None ?st1"
    using inv c v
    by (cases y) (auto simp: rx_inv_def pkts_inv_def placed_pkts_def bufs_inv_def owned_bufs_def buf_users_def
        tables_inv_def)
  moreover have "p = y \<and> rx_same ?st1 st'"
  proof (cases y)
    case None
    then show ?thesis using assms(2) g by (auto simp: rtw_phl_query_rx_pkt_def)
  next
    case (Some x)
    have up: "rx_same ?st1 ((upd_rx_sta s (\<lambda>i. i\<lparr>s_stats := a\<rparr>) ?st1)\<lparr>phl_stats := d\<rparr>)" for s a d
      by (simp add: rx_same_def upd_rx_sta_def upd_sta_def)
    show ?thesis using assms(2) g Some up
      by (auto simp: rtw_phl_query_rx_pkt_def phl_rx_statistics_def Let_def split: option.splits)
  qed
  ultimately show ?thesis using rx_same_inv by blast
qed

lemma return_rx:
  "rx_inv (add_mset p held) None st \<Longrightarrow> rtw_phl_return_rxbuf (Some p) st = (st', status) \<Longrightarrow>
   rx_inv held None st' \<and> status = RTW_PHL_STATUS_SUCCESS"
  by (auto simp: rtw_phl_return_rxbuf_def recycle_buf)

lemma stop_ba:
  assumes inv: "rx_inv held None st" and s: "s < PHL_MAX_STA_NUM"
  shows "rx_inv held None (stop_rx_ba_session (Some s) tid st)"
proof -
  let ?t = "s_tid_rx (stas (rx_sta st) s)"
  show ?thesis
  proof (cases "tid < length ?t \<and> ?t ! tid \<noteq> None")
    case False
    have "rx_same st (upd_rx_sta s (\<lambda>x. x\<lparr>s_tid_rx := ?t\<rparr>) st)"
      by (simp add: rx_same_def upd_rx_sta_def upd_sta_def)
    then show ?thesis using False inv rx_same_inv
      by (auto simp: stop_rx_ba_session_def rtw_phl_stop_rx_ba_session_def split: option.splits)
  next
    case True
    then obtain r where r: "?t ! tid = Some r" by auto
    have o: "sess_ok (open_session r)"
      using inv s r nth_mem [of tid ?t] True by (simp add: rx_inv_def tables_inv_def table_inv_def)
    let ?st = "upd_rx_sta s (\<lambda>x. x\<lparr>s_tid_rx := (s_tid_rx x)[tid := None]\<rparr>) st"
    let ?rec = "phl_tid_ampdu_rx_free (Some (r\<lparr>removed := True\<rparr>))"
    have rec: "?rec = phl_tid_ampdu_rx_free (Some r)" by (simp add: phl_tid_ampdu_rx_free_def)
    have "rx_inv (mset ?rec + held) None ?st"
      by (rule replace_session [of "[]" held st s tid None ?rec])
         (use inv s True r in \<open>simp_all add: phl_tid_ampdu_rx_free_def\<close>)
    moreover have "?st = upd_rx_sta s (\<lambda>x. x\<lparr>s_tid_rx := ?t[tid := None]\<rparr>) st"
      by (simp add: upd_rx_sta_def upd_sta_def)
    ultimately show ?thesis using recycle_pkts [of ?rec held ?st] True r
      by (simp add: stop_rx_ba_session_def rtw_phl_stop_rx_ba_session_def)
  qed
qed

lemma start_ba:
  assumes inv: "rx_inv held None st" and s: "s < PHL_MAX_STA_NUM" and sz: "sz < 65536"
  shows "rx_inv held None (fst (start_rx_ba_session al s seqn ba_policy tid sz st))"
proof -
  let ?t = "s_tid_rx (stas (rx_sta st) s)" and ?sz = "if sz = 0 then PHL_MAX_AGG_WSIZE else sz"
  have same: "rx_same st (upd_rx_sta s (\<lambda>x. x\<lparr>s_tid_rx := ?t\<rparr>) st)"
    by (simp add: rx_same_def upd_rx_sta_def upd_sta_def)
  show ?thesis
  proof (cases "ba_policy = 0 \<and> tid < length ?t \<and> phl_tid_ampdu_rx_alloc al seqn tid ?sz \<noteq> None")
    case False
    then have "fst (start_rx_ba_session al s seqn ba_policy tid sz st) = upd_rx_sta s (\<lambda>x. x\<lparr>s_tid_rx := ?t\<rparr>) st"
      by (auto simp: start_rx_ba_session_def rtw_phl_start_rx_ba_session_def Let_def split: option.splits)
    then show ?thesis using inv rx_same_inv [OF same] by simp
  next
    case True
    then obtain r where r: "phl_tid_ampdu_rx_alloc al seqn tid ?sz = Some r" by auto
    have o: "sess_ok (open_session r)"
      by (rule fresh_session [OF r]) (use sz in \<open>auto simp: PHL_MAX_AGG_WSIZE_def\<close>)
    have e: "reorder_buf r = replicate ?sz None" using r by (auto simp: phl_tid_ampdu_rx_alloc_def split: if_splits)
    have emp: "phl_tid_ampdu_rx_free (Some r) = []" unfolding free_open [OF o] e by simp
    let ?st = "upd_rx_sta s (\<lambda>x. x\<lparr>s_tid_rx := (s_tid_rx x)[tid := Some r]\<rparr>) st"
    let ?rec = "phl_tid_ampdu_rx_free (?t ! tid)"
    have "rx_inv (mset ?rec + held) None ?st"
      by (rule replace_session [of "[]" held st s tid "Some r" ?rec]) (use inv s True o emp in simp_all)
    moreover have "?st = upd_rx_sta s (\<lambda>x. x\<lparr>s_tid_rx := ?t[tid := Some r]\<rparr>) st"
      by (simp add: upd_rx_sta_def upd_sta_def)
    ultimately show ?thesis using recycle_pkts [of ?rec held ?st] True r
      by (simp add: start_rx_ba_session_def rtw_phl_start_rx_ba_session_def Let_def)
  qed
qed

section \<open>Power save\<close>

text \<open>For a frame of a station of an access point (or P2P group owner) that is data or control and not
  a fragment with more to come, the station's power-save state becomes the power-management bit of the
  frame, and the core is told exactly when that is a change.
\<close>

lemma ps_state_follows_pm_bit:
  assumes "cap_ap_ps st" and "sta_process_lookup (rp_mdata (rx_pkts st p)) st = (Some s, Some w)"
    and "\<not> md_more_frag (rp_mdata (rx_pkts st p))"
    and "md_frame_type (rp_mdata (rx_pkts st p)) = RTW_FRAME_TYPE_DATA \<or>
         md_frame_type (rp_mdata (rx_pkts st p)) = RTW_FRAME_TYPE_CTRL"
    and "r_type (wifi_roles (rx_sta st) w) = PHL_RTYPE_AP \<or> r_type (wifi_roles (rx_sta st) w) = PHL_RTYPE_P2P_GO"
    and "st' = phl_rx_handle_sta_process p st"
  shows "(s_ps_sta (stas (rx_sta st') s) \<noteq> 0 \<longleftrightarrow> md_pwr_bit (rp_mdata (rx_pkts st p))) \<and>
     ps_changes st' = ps_changes st @
       (if (s_ps_sta (stas (rx_sta st) s) \<noteq> 0) = md_pwr_bit (rp_mdata (rx_pkts st p)) then []
        else [(w, s_mac_addr (stas (rx_sta st) s), md_pwr_bit (rp_mdata (rx_pkts st p)))]) \<and>
     (\<forall>x. x \<noteq> s \<longrightarrow> stas (rx_sta st') x = stas (rx_sta st) x)"
proof -
  have e: "st' = (let st1 = upd_pkt p (\<lambda>x. x\<lparr>rp_tx_sta := Some s, rp_rx_role := Some w\<rparr>) st in
      if s_ps_sta (stas (rx_sta st) s) \<noteq> 0
      then (if \<not> md_pwr_bit (rp_mdata (rx_pkts st p)) then phl_sta_ps_exit s w st1 else st1)
      else (if md_pwr_bit (rp_mdata (rx_pkts st p)) then phl_sta_ps_enter s w st1 else st1))"
    using assms by (simp add: phl_rx_handle_sta_process_def Let_def upd_pkt_def)
  show ?thesis unfolding e
    by (simp add: Let_def phl_sta_ps_exit_def phl_sta_ps_enter_def upd_rx_sta_def upd_sta_def upd_pkt_def)
qed

end
