(* ===== verification/Phl_Psts.thy ===== *)
theory Phl_Psts
  imports Phl_Rx
begin

text \<open>
  The PPDU status of \<^verbatim>\<open>phl/phl_rx.c\<close>: frames that wait for the status of their PPDU, the
  status packet that arrives after them, and the signal strength averages it updates.
\<close>

section \<open>PPDU status\<close>

definition psts_band :: "rtw_r_meta_data \<Rightarrow> nat" where
  "psts_band m = (if md_bb_sel m > 0 then 1 else 0)"

definition set_frames :: "nat \<Rightarrow> nat \<Rightarrow> ptr phl_queue \<Rightarrow> rx_st \<Rightarrow> rx_st" where
  "set_frames band i q st =
     (let ps = ppdu_sts_info st;
          ent = (sts_ent ps band i)\<lparr>se_frames := q\<rparr>
      in st\<lparr>ppdu_sts_info := ps\<lparr>sts_ent := (sts_ent ps)(band := (sts_ent ps band)(i := ent))\<rparr>\<rparr>)"

definition psts_frames :: "nat \<Rightarrow> nat \<Rightarrow> rx_st \<Rightarrow> ptr phl_queue" where
  "psts_frames band i st = se_frames (sts_ent (ppdu_sts_info st) band i)"

text \<open>The loop of \<^verbatim>\<open>_phl_rx_proc_frame_list\<close>: until the queue is empty.\<close>

partial_function (option) proc_frame_loop :: "u32 \<Rightarrow> nat \<Rightarrow> nat \<Rightarrow> rx_st \<Rightarrow> rx_st option" where
  "proc_frame_loop t band i st =
     (case pq_pop (psts_frames band i st) First of
        (q, None) \<Rightarrow> Some st
      | (q, Some p) \<Rightarrow>
          Option.bind (phl_rx_handle_normal t p (set_frames band i q st)) (proc_frame_loop t band i))"

definition phl_rx_proc_frame_list :: "u32 \<Rightarrow> nat \<Rightarrow> nat \<Rightarrow> rx_st \<Rightarrow> rx_st option" where
  "phl_rx_proc_frame_list t band i st =
     (if cnt (psts_frames band i st) = 0 then Some st else proc_frame_loop t band i st)"

text \<open>The fake status of a frame without a valid one; \<open>cur_ch\<close> is the channel the HAL reports.\<close>

definition fake_phy_info :: "nat \<Rightarrow> rtw_phl_rssi_stat \<Rightarrow> nat \<Rightarrow> rtw_phl_ppdu_phy_info \<Rightarrow> rtw_phl_ppdu_phy_info" where
  "fake_phy_info cur_ch rs frame_type info =
     (let rssi = ma_rssi (rs (if frame_type = RTW_FRAME_TYPE_MGNT then RTW_RSSI_MGNT_ACAM_A1M
                              else if frame_type = RTW_FRAME_TYPE_DATA then RTW_RSSI_DATA_ACAM_A1M
                              else if frame_type = RTW_FRAME_TYPE_CTRL then RTW_RSSI_CTRL_ACAM_A1M
                              else RTW_RSSI_UNKNOWN))
      in info\<lparr>pi_rssi := rssi, pi_rssi_path := replicate 4 rssi, pi_ch_idx := cur_ch, pi_is_valid := True\<rparr>)"

text \<open>
  \<^verbatim>\<open>phl_rx_proc_phy_sts\<close>. The status is copied to the first waiting frame \<open>f\<close>, or to all of them
  when \<^verbatim>\<open>psts_ampdu\<close> is set (the loop follows the queue), unless it does not belong to them, and the
  frames are passed on.
\<close>

definition phy_sts_info :: "nat \<Rightarrow> ptr \<Rightarrow> ptr \<Rightarrow> rx_st \<Rightarrow> rtw_phl_ppdu_phy_info" where
  "phy_sts_info cur_ch p f st =
     (let info = (rp_phy_info (rx_pkts st p))\<lparr>pi_frame_type := rp_hdr_type (rx_pkts st f)\<rparr>
      in if \<not> pi_is_valid info \<and> en_fake_psts (ppdu_sts_info st)
         then fake_phy_info cur_ch (rssi_stat st) (md_frame_type (rp_mdata (rx_pkts st f))) info else info)"

definition phy_sts_targets :: "nat \<Rightarrow> nat \<Rightarrow> ptr \<Rightarrow> ptr \<Rightarrow> rx_st \<Rightarrow> ptr list" where
  "phy_sts_targets band i p f st =
     (let m = rp_mdata (rx_pkts st p); fm = rp_mdata (rx_pkts st f);
          upt_psts = (md_ppdu_cnt m = i \<and> md_rx_rate fm = md_rx_rate m \<and> md_bw fm = md_bw m \<and>
                      md_rx_gi_ltf fm = md_rx_gi_ltf m \<and> md_ppdu_type fm = md_ppdu_type m)
      in if \<not> upt_psts then [] else if psts_ampdu (ppdu_sts_info st) then queue (psts_frames band i st) else [f])"

definition phl_rx_proc_phy_sts :: "u32 \<Rightarrow> nat \<Rightarrow> ptr option \<Rightarrow> rx_st \<Rightarrow> (rx_st \<times> rtw_phl_status) option" where
  "phl_rx_proc_phy_sts t cur_ch ppdu_sts st =
     (case ppdu_sts of None \<Rightarrow> Some (st, RTW_PHL_STATUS_FAILURE)
      | Some p \<Rightarrow>
          let ps = ppdu_sts_info st; m = rp_mdata (rx_pkts st p); band = psts_band m in
          if \<not> en_psts_per_pkt ps then Some (st, RTW_PHL_STATUS_FAILURE)
          else if md_ppdu_cnt m \<ge> PHL_MAX_PPDU_CNT then Some (st, RTW_PHL_STATUS_FAILURE)
          else if \<not> en_ppdu_sts ps band then Some (st, RTW_PHL_STATUS_FAILURE)
          else
            let i = cur_ppdu_cnt ps band; q = psts_frames band i st in
            if cnt q = 0 then Some (st, RTW_PHL_STATUS_SUCCESS)
            else
              case pq_get_front q of None \<Rightarrow> Some (st, RTW_PHL_STATUS_FAILURE)
              | Some f \<Rightarrow>
                  let info = phy_sts_info cur_ch p f st;
                      st1 = fold (\<lambda>x. upd_pkt x (\<lambda>y. y\<lparr>rp_phy_info := info\<rparr>)) (phy_sts_targets band i p f st)
                              (upd_pkt p (\<lambda>y. y\<lparr>rp_phy_info := info\<rparr>) st)
                  in map_option (\<lambda>st2. (set_frames band i (pq_reset (psts_frames band i st2)) st2, RTW_PHL_STATUS_FAILURE))
                       (phl_rx_proc_frame_list t band i st1))"

text \<open>At the start of a PPDU the queues of the band are passed on.\<close>

fun flush_frames :: "u32 \<Rightarrow> nat \<Rightarrow> nat list \<Rightarrow> rx_st \<Rightarrow> rx_st option" where
  "flush_frames t band [] st = Some st"
| "flush_frames t band (i # is) st =
     (if cnt (psts_frames band i st) \<noteq> 0 then
        (case phl_rx_proc_frame_list t band i st of None \<Rightarrow> None
         | Some st1 \<Rightarrow> flush_frames t band is (set_frames band i (pq_reset (psts_frames band i st1)) st1))
      else flush_frames t band is st)"

definition psts_wanted :: "rtw_r_meta_data \<Rightarrow> rx_st \<Rightarrow> bool" where
  "psts_wanted m st \<longleftrightarrow> md_long_rxd m = 1 \<and> ppdu_sts_filter (ppdu_sts_info st) AND BIT (md_frame_type m) \<noteq> 0"

definition phl_rx_proc_wait_phy_sts :: "u32 \<Rightarrow> ptr \<Rightarrow> rx_st \<Rightarrow> (rx_st \<times> bool) option" where
  "phl_rx_proc_wait_phy_sts t p st =
     (let ps = ppdu_sts_info st; m = rp_mdata (rx_pkts st p); band = psts_band m; i = md_ppdu_cnt m in
      if \<not> en_psts_per_pkt ps then Some (st, False)
      else if i \<ge> PHL_MAX_PPDU_CNT then Some (st, False)
      else if \<not> en_ppdu_sts ps band then Some (st, False)
      else if cur_ppdu_cnt ps band \<noteq> i then
        (case flush_frames t band [0..<PHL_MAX_PPDU_CNT] st of None \<Rightarrow> None
         | Some st1 \<Rightarrow>
             let wanted = psts_wanted m st1;
                 st2 = (if wanted then set_frames band i (fst (pq_push (pq_reset (psts_frames band i st1)) p Tail)) st1 else st1);
                 ps2 = ppdu_sts_info st2
             in Some (st2\<lparr>ppdu_sts_info := ps2\<lparr>cur_ppdu_cnt := (cur_ppdu_cnt ps2)(band := i)\<rparr>\<rparr>, wanted))
      else if psts_wanted m st then Some (set_frames band i (fst (pq_push (psts_frames band i st) p Tail)) st, True)
      else Some (st, False))"

definition RTW_FRAME_TYPE_BEACON :: nat where "RTW_FRAME_TYPE_BEACON = 32"
definition RTW_FRAME_TYPE_PROBE_RESP :: nat where "RTW_FRAME_TYPE_PROBE_RESP = 20"
definition RTW_FRAME_TYPE_ASOC_REQ :: nat where "RTW_FRAME_TYPE_ASOC_REQ = 0"
definition RTW_FRAME_TYPE_ASOC_RESP :: nat where "RTW_FRAME_TYPE_ASOC_RESP = 4"
definition RTW_FRAME_TYPE_REASOC_REQ :: nat where "RTW_FRAME_TYPE_REASOC_REQ = 8"
definition RTW_FRAME_TYPE_REASOC_RESP :: nat where "RTW_FRAME_TYPE_REASOC_RESP = 12"

text \<open>
  One user of the entry. The macro \<^verbatim>\<open>RTW_IS_ASOC_REQ_PKT\<close> ends in \<^verbatim>\<open>? true : false\<close> without
  parentheses, so in the condition \<^verbatim>\<open>RTW_IS_ASOC_REQ_PKT(type) && (usr_num == 1)\<close> the second part
  belongs to the last branch of the conditional and is without effect. \<^const>\<open>None\<close> is the fault of
  the look-up by address.
\<close>

definition psts_user :: "rtw_phl_ppdu_sts_ent \<Rightarrow> bool \<times> nat \<Rightarrow> rx_st \<Rightarrow> rx_st option" where
  "psts_user ent usr st =
     (case usr of (vld, macid) \<Rightarrow>
        let ty = se_frame_type ent; rssi = se_rssi ent;
            asoc_req = (ty = RTW_FRAME_TYPE_REASOC_REQ \<or> ty = RTW_FRAME_TYPE_ASOC_REQ)
        in if vld then
             (case rtw_phl_get_stainfo_by_macid macid (rx_sta st) of None \<Rightarrow> Some st
              | Some s \<Rightarrow>
                  let r = sta_rssi st s;
                      r1 = r\<lparr>sta_ma_rssi := STA_UPDATE_MA_RSSI rssi (sta_ma_rssi r)\<rparr>;
                      r2 = (if asoc_req \<or> ty = RTW_FRAME_TYPE_REASOC_RESP \<or> ty = RTW_FRAME_TYPE_ASOC_RESP
                            then r1\<lparr>assoc_rssi := rssi\<rparr> else r1);
                      r3 = (if ty = RTW_FRAME_TYPE_BEACON \<or> ty = RTW_FRAME_TYPE_PROBE_RESP
                            then r2\<lparr>ma_rssi_mgnt := (if ma_rssi_mgnt r2 = 0 then rssi
                                                     else STA_UPDATE_MA_RSSI_FAST rssi (ma_rssi_mgnt r2))\<rparr>
                            else r2)
                  in Some (st\<lparr>sta_rssi := (sta_rssi st)(s := r3)\<rparr>))
           else if (if asoc_req then True else False \<and> length (se_sta ent) = 1) then
             (case rtw_phl_get_stainfo_by_addr_ex (se_src_mac_addr ent) (rx_sta st) of
                None \<Rightarrow> None
              | Some None \<Rightarrow> Some st
              | Some (Some s) \<Rightarrow> Some (st\<lparr>sta_rssi := (sta_rssi st)(s := (sta_rssi st s)\<lparr>assoc_rssi := rssi\<rparr>)\<rparr>))
           else Some st)"

fun psts_users :: "rtw_phl_ppdu_sts_ent \<Rightarrow> (bool \<times> nat) list \<Rightarrow> rx_st \<Rightarrow> rx_st option" where
  "psts_users ent [] st = Some st"
| "psts_users ent (u # us) st = (case psts_user ent u st of None \<Rightarrow> None | Some st' \<Rightarrow> psts_users ent us st')"

definition phl_rx_proc_ppdu_sts :: "ptr option \<Rightarrow> rx_st \<Rightarrow> rx_st option" where
  "phl_rx_proc_ppdu_sts phl_rx st =
     (case phl_rx of None \<Rightarrow> Some st
      | Some p \<Rightarrow>
          let m = rp_mdata (rx_pkts st p); band = psts_band m; i = md_ppdu_cnt m;
              ps = ppdu_sts_info st; ent = sts_ent ps band i
          in if \<not> se_valid ent then Some st
             else if se_phl_done ent then Some st
             else psts_users ent (se_sta ent)
                    (st\<lparr>ppdu_sts_info := ps\<lparr>sts_ent := (sts_ent ps)(band := (sts_ent ps band)(i := ent\<lparr>se_phl_done := True\<rparr>))\<rparr>\<rparr>))"

section \<open>What an operation leaves alone\<close>

text \<open>The busy and pending buffers and their pipes.\<close>

definition keep_bufs :: "rx_st \<Rightarrow> rx_st \<Rightarrow> bool" where
  "keep_bufs st st' \<longleftrightarrow>
     busy_rxbuf_list (rxbuf_pool st') = busy_rxbuf_list (rxbuf_pool st) \<and>
     pend_rxbuf_list (rxbuf_pool st') = pend_rxbuf_list (rxbuf_pool st) \<and>
     (\<forall>b. rb_pipe_idx (rx_bufs (rxbuf_pool st') b) = rb_pipe_idx (rx_bufs (rxbuf_pool st) b))"

definition keep_all :: "rx_st \<Rightarrow> rx_st \<Rightarrow> bool" where
  "keep_all st st' \<longleftrightarrow> keep_bufs st st' \<and> ppdu_sts_info st' = ppdu_sts_info st"

lemma keep_refl [simp]: "keep_bufs st st" "keep_all st st"
  by (simp_all add: keep_bufs_def keep_all_def)

lemma keep_trans:
  "keep_bufs st st' \<Longrightarrow> keep_bufs st' st'' \<Longrightarrow> keep_bufs st st''"
  "keep_all st st' \<Longrightarrow> keep_all st' st'' \<Longrightarrow> keep_all st st''"
  by (simp_all add: keep_bufs_def keep_all_def)

lemma keep_same: "rx_same st st' \<Longrightarrow> keep_all st st'"
  by (simp add: rx_same_def keep_all_def keep_bufs_def)

lemma release_rxbuf_keep:
  "busy_rxbuf_list (fst (phl_release_rxbuf_usb r ring)) = busy_rxbuf_list ring"
  "pend_rxbuf_list (fst (phl_release_rxbuf_usb r ring)) = pend_rxbuf_list ring"
  "rb_pipe_idx (rx_bufs (fst (phl_release_rxbuf_usb r ring)) b) = rb_pipe_idx (rx_bufs ring b)"
  by (auto simp: phl_release_rxbuf_usb_def upd_rxbuf_def pq_push_def Let_def split: option.splits)

lemma keep_release_pkt: "keep_all st (phl_release_phl_rx p st)"
  by (simp add: keep_all_def keep_bufs_def phl_release_phl_rx_def upd_pkt_def Let_def)

lemma keep_recycle_buf: "keep_all st (phl_recycle_rx_buf p st)"
  using keep_release_pkt
  by (auto simp: keep_all_def keep_bufs_def phl_recycle_rx_buf_def release_rxbuf_keep phl_release_phl_rx_def
      upd_pkt_def Let_def split: option.splits)

lemma keep_recycle_pkt: "keep_all st (phl_recycle_rx_pkt_usb p st)"
  using keep_trans(2) [OF keep_same [OF rx_same_fields(3)] keep_recycle_buf] keep_recycle_buf
  by (simp add: phl_recycle_rx_pkt_usb_def)

lemma keep_fold: "(\<And>x st. keep_all st (f x st)) \<Longrightarrow> keep_all st (fold f xs st)"
  by (induction xs arbitrary: st) (auto intro: keep_trans(2))

lemma keep_upd_sta: "keep_all st (upd_rx_sta s f st)"
  by (simp add: keep_all_def keep_bufs_def upd_rx_sta_def)

lemma keep_store: "keep_all st (store_session s tid r st)"
proof -
  let ?st1 = "upd_rx_sta s (\<lambda>x. x\<lparr>s_tid_rx := (s_tid_rx x)[tid := Some (close_session r)]\<rparr>) st"
  let ?st2 = "fold phl_recycle_rx_pkt_usb (recycled r) ?st1"
  let ?st3 = "fold (\<lambda>p. phl_recycle_rx_buf (Some p)) (rxbuf_recycled r) ?st2"
  have "keep_all st ?st3"
    by (rule keep_trans(2) [OF keep_trans(2) [OF keep_upd_sta keep_fold [OF keep_recycle_pkt]] keep_fold [OF keep_recycle_buf]])
  then show ?thesis using keep_trans(2) [OF _ keep_same [OF rx_same_fields(4)]]
    by (auto simp: store_session_def Let_def split: option.splits)
qed

lemma keep_handle_frame: "keep_all st (phl_handle_rx_frame p st)"
proof -
  let ?st = "phl_rx_handle_sta_process p st"
  have k: "keep_all st ?st" by (rule keep_same [OF sta_process_same])
  have "keep_all ?st (fst (add_rx_pkt p ?st))"
  proof -
    obtain ring status where r: "phl_add_rx_pkt (phl_rx_ring ?st) p = (ring, status)" by fastforce
    have "keep_all ?st (?st\<lparr>phl_rx_ring := ring\<rparr>)" by (simp add: keep_all_def keep_bufs_def)
    then show ?thesis using keep_trans(2) [OF _ keep_same [OF record_same]] r by (simp add: add_rx_pkt_def Let_def)
  qed
  with k have "keep_all st (fst (add_rx_pkt p ?st))" by (rule keep_trans(2))
  then show ?thesis using keep_trans(2) [OF _ keep_recycle_pkt]
    by (auto simp: phl_handle_rx_frame_def split: prod.splits)
qed

lemma keep_handle_list: "keep_all st (phl_handle_rx_frame_list frms st)"
  unfolding phl_handle_rx_frame_list_def phl_indic_new_rxpkt_def
  by (rule keep_trans(2) [OF keep_fold [OF keep_handle_frame] keep_same [OF rx_same_fields(1)]])

lemma keep_reorder: "phl_rx_reorder t p st = Some (st', frms, status) \<Longrightarrow> keep_all st st'"
proof -
  assume e: "phl_rx_reorder t p st = Some (st', frms, status)"
  have sess: "keep_all x y" if "reorder_in_session t p s tid x = Some (y, f, z)" for s tid x y f z
    using that keep_recycle_pkt keep_store
    by (auto simp: reorder_in_session_def split: if_splits option.splits)
  show ?thesis
  proof (cases "rx_strip_fcs p st")
    case None
    then show ?thesis using e keep_recycle_pkt by (auto simp: phl_rx_reorder_def)
  next
    case (Some st1)
    have k1: "keep_all st st1" by (rule keep_same [OF strip_same [OF Some]])
    have k2: "keep_all st1 (upd_pkt p (\<lambda>x. x\<lparr>rp_tx_sta := a, rp_rx_role := c\<rparr>) st1)" for a c
      by (rule keep_same [OF rx_same_pkt]) simp_all
    let ?m = "rp_mdata (rx_pkts st1 p)"
    show ?thesis
    proof (cases "md_bc ?m \<or> md_mc ?m \<or> \<not> md_qos ?m \<or> md_q_null ?m \<or> md_more_frag ?m \<or> md_frag_num ?m \<noteq> 0 \<or>
        rx_reorder_sta ?m st1 = None")
      case True
      then show ?thesis using e Some k1 by (auto simp: phl_rx_reorder_def Let_def split: if_splits)
    next
      case False
      then obtain s where s: "rx_reorder_sta ?m st1 = Some s" by auto
      let ?st2 = "upd_pkt p (\<lambda>x. x\<lparr>rp_tx_sta := Some s, rp_rx_role := s_wrole (stas (rx_sta st1) s)\<rparr>) st1"
      have "reorder_in_session t p s (md_tid ?m) ?st2 = Some (st', frms, status)"
        using e Some False s by (simp add: phl_rx_reorder_def Let_def)
      from keep_trans(2) [OF k1 keep_trans(2) [OF k2 sess [OF this]]] show ?thesis .
    qed
  qed
qed

lemma keep_normal: "phl_rx_handle_normal t p st = Some st' \<Longrightarrow> keep_all st st'"
proof -
  assume e: "phl_rx_handle_normal t p st = Some st'"
  define st1 where "st1 = (let rate = md_rx_rate (rp_mdata (rx_pkts st p)) in
      if rate \<le> RTW_DATA_RATE_HE_NSS4_MCS11
      then st\<lparr>rx_rate_nmr := (rx_rate_nmr st)(rate := rx_rate_nmr st rate + 1)\<rparr> else st)"
  have k: "keep_all st st1" using keep_same [OF rx_same_fields(5)] by (simp add: st1_def Let_def)
  obtain st2 frms status where r: "phl_rx_reorder t p st1 = Some (st2, frms, status)"
    and st': "st' = (if status = RTW_PHL_STATUS_SUCCESS then phl_handle_rx_frame_list frms st2 else st2)"
    using e by (auto simp: phl_rx_handle_normal_def st1_def Let_def)
  show ?thesis using keep_trans(2) [OF k keep_reorder [OF r]] keep_trans(2) [OF _ keep_handle_list] st' by simp
qed

section \<open>PPDU status keeps the accounts\<close>

lemma wait_pkts_update:
  assumes "band < HW_BAND_MAX" and "i < PHL_MAX_PPDU_CNT"
  shows "wait_pkts (ppdu_sts_info (set_frames band i q st)) + mset (queue (psts_frames band i st)) =
     wait_pkts (ppdu_sts_info st) + mset (queue q)"
proof -
  let ?f = "\<lambda>st x j. mset (queue (se_frames (sts_ent (ppdu_sts_info st) x j)))"
  let ?st' = "set_frames band i q st"
  have inner: "(\<Sum>j<PHL_MAX_PPDU_CNT. ?f s band j) = ?f s band i + (\<Sum>j\<in>{..<PHL_MAX_PPDU_CNT} - {i}. ?f s band j)" for s
    using assms(2) sum.remove [of "{..<PHL_MAX_PPDU_CNT}" i "?f s band"] by simp
  have outer: "wait_pkts (ppdu_sts_info s) = (\<Sum>j<PHL_MAX_PPDU_CNT. ?f s band j) +
      (\<Sum>x\<in>{..<HW_BAND_MAX} - {band}. \<Sum>j<PHL_MAX_PPDU_CNT. ?f s x j)" for s
    using assms(1) sum.remove [of "{..<HW_BAND_MAX}" band "\<lambda>x. \<Sum>j<PHL_MAX_PPDU_CNT. ?f s x j"] by (simp add: wait_pkts_def)
  have o: "?f ?st' x j = ?f st x j" if "x \<noteq> band \<or> j \<noteq> i" for x j
    using that by (auto simp: set_frames_def Let_def)
  have "(\<Sum>x\<in>{..<HW_BAND_MAX} - {band}. \<Sum>j<PHL_MAX_PPDU_CNT. ?f ?st' x j) =
      (\<Sum>x\<in>{..<HW_BAND_MAX} - {band}. \<Sum>j<PHL_MAX_PPDU_CNT. ?f st x j)"
    by (intro sum.cong refl o) simp
  moreover have "(\<Sum>j\<in>{..<PHL_MAX_PPDU_CNT} - {i}. ?f ?st' band j) = (\<Sum>j\<in>{..<PHL_MAX_PPDU_CNT} - {i}. ?f st band j)"
    by (intro sum.cong refl o) simp
  moreover have "?f ?st' band i = mset (queue q)" by (simp add: set_frames_def Let_def)
  ultimately show ?thesis by (simp only: outer inner psts_frames_def) (simp add: ac_simps)
qed

lemma set_frames_inv:
  assumes inv: "rx_inv (mset extra + held) None st" and b: "band < HW_BAND_MAX" and i: "i < PHL_MAX_PPDU_CNT"
    and wf: "pq_wf q" and cons: "mset (queue q) + mset out = mset (queue (psts_frames band i st)) + mset extra"
  shows "rx_inv (mset out + held) None (set_frames band i q st)"
proof -
  let ?st' = "set_frames band i q st"
  have pk: "pkts_inv (mset extra + held) st" and bu: "bufs_inv None st" and tb: "tables_inv st"
    using inv by (simp_all add: rx_inv_def)
  have "wait_pkts (ppdu_sts_info ?st') + mset out = wait_pkts (ppdu_sts_info st) + mset extra"
  proof -
    let ?o = "mset (queue (psts_frames band i st))"
    have "wait_pkts (ppdu_sts_info ?st') + mset out + ?o = wait_pkts (ppdu_sts_info st) + mset extra + ?o"
      using wait_pkts_update [OF b i, of q st] cons by (metis (no_types, lifting) add.assoc add.commute)
    then show ?thesis by simp
  qed
  then have "placed_pkts ?st' + (mset out + held) = placed_pkts st + (mset extra + held)"
    by (simp add: placed_pkts_def add.assoc) (simp add: set_frames_def Let_def)
  then have "pkts_inv (mset out + held) ?st'"
    by (rule pkts_inv_move [OF pk]) (simp_all add: set_frames_def Let_def)
  moreover have "bufs_inv None ?st'"
    using bu by (simp add: bufs_inv_def owned_bufs_def buf_users_def set_frames_def Let_def)
  moreover have "tables_inv ?st'"
    using tb wf by (simp add: tables_inv_def set_frames_def Let_def)
  ultimately show ?thesis by (simp add: rx_inv_def)
qed

lemma keep_set_frames: "keep_bufs st (set_frames band i q st)"
  by (simp add: keep_bufs_def set_frames_def Let_def)

lemma psts_wf: "rx_inv held cur st \<Longrightarrow> pq_wf (psts_frames band i st)"
  by (simp add: rx_inv_def tables_inv_def psts_frames_def)

lemma set_frames_other: "x \<noteq> band \<or> j \<noteq> i \<Longrightarrow> psts_frames x j (set_frames band i q st) = psts_frames x j st"
  by (auto simp: psts_frames_def set_frames_def Let_def)

lemma set_frames_this [simp]: "psts_frames band i (set_frames band i q st) = q"
  by (simp add: psts_frames_def set_frames_def Let_def)

lemma proc_frame_loop:
  assumes "rx_inv held None st" and "band < HW_BAND_MAX" and "i < PHL_MAX_PPDU_CNT"
  shows "\<exists>st'. proc_frame_loop t band i st = Some st' \<and> rx_inv held None st' \<and> keep_bufs st st' \<and>
     queue (psts_frames band i st') = [] \<and>
     (\<forall>x j. x \<noteq> band \<or> j \<noteq> i \<longrightarrow> psts_frames x j st' = psts_frames x j st)"
  using assms(1)
proof (induction "queue (psts_frames band i st)" arbitrary: st)
  case Nil
  then show ?case by (subst proc_frame_loop.simps) (simp add: pq_pop_def)
next
  case (Cons p ps)
  let ?q = "(psts_frames band i st)\<lparr>queue := ps, cnt := cnt (psts_frames band i st) - 1\<rparr>"
  have q: "queue (psts_frames band i st) = p # ps" using Cons.hyps(2) by simp
  have wf: "pq_wf (psts_frames band i st)" by (rule psts_wf [OF Cons.prems])
  have pop: "pq_pop (psts_frames band i st) First = (?q, Some p)" using pq_pop_wf_eq [OF wf] q by simp
  have "rx_inv (mset [p] + held) None (set_frames band i ?q st)"
    by (rule set_frames_inv [where extra = "[]", OF _ assms(2,3)]) (use Cons.prems wf q in \<open>simp_all add: pq_wf_def\<close>)
  then obtain st1 where st1: "phl_rx_handle_normal t p (set_frames band i ?q st) = Some st1" "rx_inv held None st1"
    using handle_normal [of p held _ t] by auto
  have k: "keep_all (set_frames band i ?q st) st1" by (rule keep_normal [OF st1(1)])
  then have f: "psts_frames x j st1 = psts_frames x j (set_frames band i ?q st)" for x j
    by (simp add: keep_all_def psts_frames_def)
  then have "ps = queue (psts_frames band i st1)" by simp
  from Cons.hyps(1) [OF this st1(2)] obtain st' where
    r: "proc_frame_loop t band i st1 = Some st'" "rx_inv held None st'" "keep_bufs st1 st'" "queue (psts_frames band i st') = []"
      "\<forall>x j. x \<noteq> band \<or> j \<noteq> i \<longrightarrow> psts_frames x j st' = psts_frames x j st1"
    by blast
  have "keep_bufs st st1" using keep_trans(1) [OF keep_set_frames] k by (auto simp: keep_all_def)
  then have "keep_bufs st st'" using r(3) keep_trans(1) by blast
  moreover have "\<forall>x j. x \<noteq> band \<or> j \<noteq> i \<longrightarrow> psts_frames x j st' = psts_frames x j st"
    using r(5) f set_frames_other by simp
  ultimately show ?case using r pop st1(1) by (subst proc_frame_loop.simps) simp
qed

text \<open>What passing on a queue leaves: the queue is empty, the others are as before.\<close>

definition passed_on :: "nat \<Rightarrow> nat set \<Rightarrow> rx_st \<Rightarrow> rx_st \<Rightarrow> bool" where
  "passed_on band is st st' \<longleftrightarrow> keep_bufs st st' \<and> (\<forall>i\<in>is. queue (psts_frames band i st') = []) \<and>
     (\<forall>x j. x \<noteq> band \<or> j \<notin> is \<longrightarrow> psts_frames x j st' = psts_frames x j st)"

lemma proc_frame_list:
  assumes "rx_inv held None st" and "band < HW_BAND_MAX" and "i < PHL_MAX_PPDU_CNT"
  shows "\<exists>st'. phl_rx_proc_frame_list t band i st = Some st' \<and> rx_inv held None st' \<and> passed_on band {i} st st' \<and>
     set_frames band i (pq_reset (psts_frames band i st')) st' = st'"
proof -
  obtain st' where st': "phl_rx_proc_frame_list t band i st = Some st'" "rx_inv held None st'" "passed_on band {i} st st'"
  proof (cases "cnt (psts_frames band i st) = 0")
    case True
    then have "queue (psts_frames band i st) = []" using psts_wf [OF assms(1), of band i] by (simp add: pq_wf_def)
    then show thesis using that [of st] True assms(1) by (simp add: phl_rx_proc_frame_list_def passed_on_def)
  next
    case False
    then show thesis using that proc_frame_loop [OF assms, of t] by (auto simp: phl_rx_proc_frame_list_def passed_on_def)
  qed
  have "queue (psts_frames band i st') = []" using st'(3) by (simp add: passed_on_def)
  then have "pq_reset (psts_frames band i st') = psts_frames band i st'"
    using psts_wf [OF st'(2), of band i] by (simp add: pq_reset_def pq_wf_def)
  then have "set_frames band i (pq_reset (psts_frames band i st')) st' = st'"
    by (simp add: set_frames_def psts_frames_def Let_def)
  with st' show ?thesis by blast
qed

lemma flush_frames:
  assumes "rx_inv held None st" and "band < HW_BAND_MAX" and "\<forall>i\<in>set is. i < PHL_MAX_PPDU_CNT"
  shows "\<exists>st'. flush_frames t band is st = Some st' \<and> rx_inv held None st' \<and> passed_on band (set is) st st'"
  using assms(1,3)
proof (induction "is" arbitrary: st)
  case Nil
  then show ?case by (simp add: passed_on_def)
next
  case (Cons i "is")
  have i: "i < PHL_MAX_PPDU_CNT" using Cons.prems(2) by simp
  from proc_frame_list [OF Cons.prems(1) assms(2) i, of t] obtain st1 where
    st1: "phl_rx_proc_frame_list t band i st = Some st1" "rx_inv held None st1" "passed_on band {i} st st1"
      "set_frames band i (pq_reset (psts_frames band i st1)) st1 = st1" by blast
  from Cons.IH [OF st1(2)] Cons.prems(2) obtain st' where
    st': "flush_frames t band is st1 = Some st'" "rx_inv held None st'" "passed_on band (set is) st1 st'" by auto
  have "passed_on band (set (i # is)) st st'"
    using st1(3) st'(3) keep_trans(1) [of st st1 st'] by (force simp: passed_on_def)
  moreover have "flush_frames t band (i # is) st = Some st'"
    using st1 st'(1) by (auto simp: phl_rx_proc_frame_list_def)
  ultimately show ?case using st'(2) by blast
qed

lemma rx_inv_cur_ppdu:
  "rx_inv held cur st \<Longrightarrow> i < PHL_MAX_PPDU_CNT \<Longrightarrow>
   rx_inv held cur (st\<lparr>ppdu_sts_info := (ppdu_sts_info st)\<lparr>cur_ppdu_cnt := (cur_ppdu_cnt (ppdu_sts_info st))(band := i)\<rparr>\<rparr>)"
  by (simp add: rx_inv_def pkts_inv_def placed_pkts_def wait_pkts_def bufs_inv_def owned_bufs_def buf_users_def
      tables_inv_def)

lemma psts_band_range: "psts_band m < HW_BAND_MAX"
  by (simp add: psts_band_def HW_BAND_MAX_def)

lemma push_frame:
  assumes "rx_inv (add_mset p held) None st" and "band < HW_BAND_MAX" and "i < PHL_MAX_PPDU_CNT"
  shows "rx_inv held None (set_frames band i (fst (pq_push (psts_frames band i st) p Tail)) st)"
  using set_frames_inv [where extra = "[p]" and out = "[]" and held = held, OF _ assms(2,3)] assms(1)
    pq_wf_push [OF psts_wf [OF assms(1)], of band i p Tail]
  by (simp add: pq_push_def)

text \<open>A frame that arrives is queued for its status or still held.\<close>

lemma proc_wait:
  assumes inv: "rx_inv (add_mset p held) None st"
  shows "\<exists>st' ret. phl_rx_proc_wait_phy_sts t p st = Some (st', ret) \<and> keep_bufs st st' \<and>
     rx_inv (if ret then held else add_mset p held) None st'"
proof -
  let ?m = "rp_mdata (rx_pkts st p)" let ?band = "psts_band ?m" and ?i = "md_ppdu_cnt ?m"
  show ?thesis
  proof (cases "en_psts_per_pkt (ppdu_sts_info st) \<and> ?i < PHL_MAX_PPDU_CNT \<and> en_ppdu_sts (ppdu_sts_info st) ?band")
    case False
    then show ?thesis using inv by (auto simp: phl_rx_proc_wait_phy_sts_def Let_def)
  next
    case True
    show ?thesis
    proof (cases "cur_ppdu_cnt (ppdu_sts_info st) ?band = ?i")
      case same: True
      have "rx_inv held None (set_frames ?band ?i (fst (pq_push (psts_frames ?band ?i st) p Tail)) st)"
        using push_frame [OF inv psts_band_range] True by simp
      then show ?thesis using True same inv keep_set_frames
        by (cases "psts_wanted ?m st") (auto simp: phl_rx_proc_wait_phy_sts_def Let_def)
    next
      case False
      obtain st1 where st1: "flush_frames t ?band [0..<PHL_MAX_PPDU_CNT] st = Some st1" "rx_inv (add_mset p held) None st1"
        "passed_on ?band (set [0..<PHL_MAX_PPDU_CNT]) st st1"
        using flush_frames [OF inv psts_band_range, of "[0..<PHL_MAX_PPDU_CNT]"] by auto
      have e: "pq_reset (psts_frames ?band ?i st1) = psts_frames ?band ?i st1"
        using st1(3) True psts_wf [OF st1(2), of ?band ?i] by (simp add: passed_on_def pq_reset_def pq_wf_def)
      let ?st2 = "if psts_wanted ?m st1 then set_frames ?band ?i (fst (pq_push (psts_frames ?band ?i st1) p Tail)) st1 else st1"
      let ?st3 = "?st2\<lparr>ppdu_sts_info := (ppdu_sts_info ?st2)\<lparr>cur_ppdu_cnt := (cur_ppdu_cnt (ppdu_sts_info ?st2))(?band := ?i)\<rparr>\<rparr>"
      have "rx_inv (if psts_wanted ?m st1 then held else add_mset p held) None ?st2"
        using push_frame [OF st1(2) psts_band_range] True st1(2) by simp
      then have "rx_inv (if psts_wanted ?m st1 then held else add_mset p held) None ?st3"
        using rx_inv_cur_ppdu True by blast
      moreover have "keep_bufs st1 ?st3" by (simp add: keep_bufs_def set_frames_def Let_def)
      then have "keep_bufs st ?st3" using st1(3) keep_trans(1) [of st st1] by (simp add: passed_on_def)
      moreover have "phl_rx_proc_wait_phy_sts t p st = Some (?st3, psts_wanted ?m st1)"
        using True False st1(1) e by (simp add: phl_rx_proc_wait_phy_sts_def Let_def)
      ultimately show ?thesis by blast
    qed
  qed
qed

text \<open>The status packet: the frames that waited for it are passed on.\<close>

lemma fold_same: "(\<And>x st. rx_same st (f x st)) \<Longrightarrow> rx_same st (fold f xs st)"
  by (induction xs arbitrary: st) (auto intro: rx_same_trans)

lemma proc_phy_sts:
  assumes inv: "rx_inv held None st"
  shows "\<exists>st' status. phl_rx_proc_phy_sts t ch ps st = Some (st', status) \<and> keep_bufs st st' \<and> rx_inv held None st'"
proof -
  have unchanged: ?thesis if "phl_rx_proc_phy_sts t ch ps st = Some (st, status)" for status
    using that inv by simp
  show ?thesis
  proof (cases ps)
    case None
    then show ?thesis by (intro unchanged) (simp add: phl_rx_proc_phy_sts_def)
  next
    case (Some p)
    let ?m = "rp_mdata (rx_pkts st p)" let ?band = "psts_band ?m" let ?i = "cur_ppdu_cnt (ppdu_sts_info st) ?band"
    let ?q = "psts_frames ?band ?i st"
    have i: "?i < PHL_MAX_PPDU_CNT" using inv by (simp add: rx_inv_def tables_inv_def)
    show ?thesis
    proof (cases "\<not> en_psts_per_pkt (ppdu_sts_info st) \<or> PHL_MAX_PPDU_CNT \<le> md_ppdu_cnt ?m \<or>
        \<not> en_ppdu_sts (ppdu_sts_info st) ?band \<or> cnt ?q = 0 \<or> pq_get_front ?q = None")
      case True
      then show ?thesis using inv Some by (auto simp: phl_rx_proc_phy_sts_def Let_def)
    next
      case False
      then obtain f where f: "pq_get_front ?q = Some f" by auto
      define info st1 where "info = phy_sts_info ch p f st" and
        "st1 = fold (\<lambda>x. upd_pkt x (\<lambda>y. y\<lparr>rp_phy_info := info\<rparr>)) (phy_sts_targets ?band ?i p f st)
          (upd_pkt p (\<lambda>y. y\<lparr>rp_phy_info := info\<rparr>) st)"
      have one: "rx_same s (upd_pkt x (\<lambda>y. y\<lparr>rp_phy_info := info\<rparr>) s)" for x s by (rule rx_same_pkt) simp_all
      have same: "rx_same st st1" unfolding st1_def by (rule rx_same_trans [OF one fold_same [OF one]])
      then have "rx_inv held None st1" using inv rx_same_inv by blast
      from proc_frame_list [OF this psts_band_range i, of t] obtain st2 where
        st2: "phl_rx_proc_frame_list t ?band ?i st1 = Some st2" "rx_inv held None st2" "passed_on ?band {?i} st1 st2"
          "set_frames ?band ?i (pq_reset (psts_frames ?band ?i st2)) st2 = st2" by blast
      have "phl_rx_proc_phy_sts t ch ps st = Some (st2, RTW_PHL_STATUS_FAILURE)"
        using False f st2(1,4) Some by (simp add: phl_rx_proc_phy_sts_def Let_def st1_def info_def)
      moreover have "keep_bufs st st2"
        using keep_trans(1) [of st st1 st2] keep_same [OF same] st2(3) by (simp add: keep_all_def passed_on_def)
      ultimately show ?thesis using st2(2) by blast
    qed
  qed
qed

lemma by_addr_loop_total:
  "macid_inv (mac_ctrl stt) \<Longrightarrow> \<forall>i\<in>set is. i < max_num (mac_ctrl stt) \<Longrightarrow> by_addr_loop addr is stt \<noteq> None"
  by (induction "is") (auto simp: macid_inv_def used_ids_def split: option.splits)

lemma psts_user_same:
  assumes "tables_inv st"
  shows "\<exists>st'. psts_user ent u st = Some st' \<and> rx_same st st'"
proof -
  have "rtw_phl_get_stainfo_by_addr_ex (se_src_mac_addr ent) (rx_sta st) \<noteq> None"
    using by_addr_loop_total assms by (simp add: rtw_phl_get_stainfo_by_addr_ex_def tables_inv_def sta_inv_def)
  then obtain r where "rtw_phl_get_stainfo_by_addr_ex (se_src_mac_addr ent) (rx_sta st) = Some r" by blast
  moreover have "rx_same st (st\<lparr>sta_rssi := r\<rparr>)" for r by (simp add: rx_same_def)
  ultimately show ?thesis by (cases u) (auto simp: psts_user_def Let_def split: option.splits)
qed

lemma psts_users_same:
  "rx_inv held cur st \<Longrightarrow> \<exists>st'. psts_users ent us st = Some st' \<and> rx_same st st'"
proof (induction us arbitrary: st)
  case (Cons u us)
  obtain st1 where s: "psts_user ent u st = Some st1" "rx_same st st1"
    using psts_user_same [of st ent u] Cons.prems by (auto simp: rx_inv_def)
  then have "rx_inv held cur st1" using Cons.prems rx_same_inv by blast
  from Cons.IH [OF this] obtain st' where "psts_users ent us st1 = Some st'" "rx_same st1 st'" by blast
  then show ?case using s rx_same_trans [of st st1 st'] by simp
qed simp

lemma proc_ppdu_sts:
  assumes inv: "rx_inv held cur st"
  shows "\<exists>st'. phl_rx_proc_ppdu_sts ps st = Some st' \<and> keep_bufs st st' \<and> rx_inv held cur st'"
proof (cases "\<exists>p. ps = Some p \<and> se_valid (sts_ent (ppdu_sts_info st) (psts_band (rp_mdata (rx_pkts st p)))
      (md_ppdu_cnt (rp_mdata (rx_pkts st p)))) \<and>
    \<not> se_phl_done (sts_ent (ppdu_sts_info st) (psts_band (rp_mdata (rx_pkts st p))) (md_ppdu_cnt (rp_mdata (rx_pkts st p))))")
  case False
  then show ?thesis using inv by (auto simp: phl_rx_proc_ppdu_sts_def Let_def split: option.splits)
next
  case True
  then obtain p where p: "ps = Some p" by blast
  let ?m = "rp_mdata (rx_pkts st p)"
  let ?ent = "sts_ent (ppdu_sts_info st) (psts_band ?m) (md_ppdu_cnt ?m)"
  define st1 where "st1 = st\<lparr>ppdu_sts_info := (ppdu_sts_info st)\<lparr>sts_ent := (sts_ent (ppdu_sts_info st))
      (psts_band ?m := (sts_ent (ppdu_sts_info st) (psts_band ?m)) (md_ppdu_cnt ?m := ?ent\<lparr>se_phl_done := True\<rparr>))\<rparr>\<rparr>"
  have f: "se_frames (sts_ent (ppdu_sts_info st1) x j) = se_frames (sts_ent (ppdu_sts_info st) x j)" for x j
    by (simp add: st1_def)
  have o: "rx_sta st1 = rx_sta st" "rx_pkts st1 = rx_pkts st" "phl_rx_ring st1 = phl_rx_ring st" "rxbuf_pool st1 = rxbuf_pool st"
    "rx_pkt_pool st1 = rx_pkt_pool st" "cur_ppdu_cnt (ppdu_sts_info st1) = cur_ppdu_cnt (ppdu_sts_info st)"
    by (simp_all add: st1_def)
  have "rx_inv held cur st1" using inv
    by (simp add: rx_inv_def pkts_inv_def placed_pkts_def wait_pkts_def f o bufs_inv_def owned_bufs_def
        buf_users_def tables_inv_def)
  moreover from psts_users_same [OF this] obtain st' where
    st': "psts_users ?ent (se_sta ?ent) st1 = Some st'" "rx_same st1 st'" by blast
  moreover have "keep_bufs st st1" by (simp add: keep_bufs_def o)
  ultimately have "rx_inv held cur st'" "keep_bufs st st'"
    using rx_same_inv keep_trans(1) [of st st1 st'] keep_same [of st1 st'] by (auto simp: keep_all_def)
  then show ?thesis using True p st'(1) by (auto simp: phl_rx_proc_ppdu_sts_def Let_def st1_def)
qed

end
