(* ===== verification/Phl_Datapath.thy ===== *)
theory Phl_Datapath
  imports Phl_Stats
begin

text \<open>
  The data-path controller of \<^verbatim>\<open>phl/phl_tx.c\<close>: modules (the command controller, the system
  error recovery and the power saving) pause and resume the software transmit and receive
  paths and the hardware; the handlers check the pause state and ask for power; the USB
  operations of \<^verbatim>\<open>phl/hci/phl_trx_usb.c\<close> move the path states.

  A pause polls the state of the path while the handler of that path runs on another
  context. What the handler does meanwhile is an argument: \<open>tx_ran i\<close> says whether the
  transmit handler has come to its stop check before poll \<open>i\<close>. The receive handler of the
  USB interface never stops the receive path, so polling it sees its own state only. The
  two status enumerations have the same values and are one type.
\<close>

section \<open>State\<close>

datatype phl_trx_status = STATUS_IDLE | STATUS_RUNNING | STATUS_STOP_INPROGRESS | STATUS_SW_PAUSE

datatype phl_data_ctl_cmd =
    PHL_DATA_CTL_HW_TRX_RST_RESUME | PHL_DATA_CTL_HW_TRX_PAUSE | PHL_DATA_CTL_SW_TX_RESUME
  | PHL_DATA_CTL_SW_RX_RESUME | PHL_DATA_CTL_SW_TX_PAUSE | PHL_DATA_CTL_SW_RX_PAUSE
  | PHL_DATA_CTL_SW_TX_RESET | PHL_DATA_CTL_SW_RX_RESET | PHL_DATA_CTL_TRX_SW_PAUSE
  | PHL_DATA_CTL_TRX_SW_RESUME | PHL_DATA_CTL_TRX_PAUSE_W_RST | PHL_DATA_CTL_TRX_RESUME_W_RST
  | PHL_DATA_CTL_MAX

datatype data_ctrl_err_code =
    CTRL_ERR_SW_TX_PAUSE_POLLTO | CTRL_ERR_SW_TX_PAUSE_FAIL | CTRL_ERR_SW_TX_RESUME_FAIL
  | CTRL_ERR_SW_RX_PAUSE_POLLTO | CTRL_ERR_SW_RX_PAUSE_FAIL | CTRL_ERR_SW_RX_RESUME_FAIL
  | CTRL_ERR_HW_TRX_PAUSE_FAIL | CTRL_ERR_HW_TRX_RESUME_FAIL

datatype trx_type = PHL_CTRL_TX | PHL_CTRL_RX

definition DATA_CTRL_MDL_NONE :: u32 where "DATA_CTRL_MDL_NONE = 0"
definition DATA_CTRL_MDL_CMD_CTRLER :: u32 where "DATA_CTRL_MDL_CMD_CTRLER = BIT 0"
definition DATA_CTRL_MDL_SER :: u32 where "DATA_CTRL_MDL_SER = BIT 1"
definition DATA_CTRL_MDL_PS :: u32 where "DATA_CTRL_MDL_PS = BIT 2"

definition PHL_MDL_PHY_MGNT :: nat where "PHL_MDL_PHY_MGNT = 1"
definition PHL_MDL_POWER_MGNT :: nat where "PHL_MDL_POWER_MGNT = 41"
definition PHL_MDL_SER :: nat where "PHL_MDL_SER = 42"

definition POLL_SW_TX_PAUSE_CNT :: nat where "POLL_SW_TX_PAUSE_CNT = 100"
definition POLL_SW_RX_PAUSE_CNT :: nat where "POLL_SW_RX_PAUSE_CNT = 100"

record data_st =
  sw_tx_sts :: phl_trx_status
  sw_rx_sts :: phl_trx_status
  pause_tx_id :: u32
  pause_rx_id :: u32
  is_hw_trx_pause :: bool
  sw_tx_more :: bool
  sw_rx_more :: bool
  sw_tx_req_pwr :: bool
  sw_rx_req_pwr :: bool
  d_stats :: rtw_stats

text \<open>
  The answers of the scheduler for the two handlers, what the transmit handler did while it was
  polled, and whether the two steps of the HAL's recovery succeed.
\<close>

record data_env =
  tx_notify :: rtw_phl_status
  rx_start :: rtw_phl_status
  tx_ran :: "nat \<Rightarrow> bool"
  hal_pause_ok :: bool
  hal_resume_ok :: bool

section \<open>The USB operations\<close>

definition phl_req_tx_stop_usb :: "data_st \<Rightarrow> data_st" where
  "phl_req_tx_stop_usb st = st\<lparr>sw_tx_sts := STATUS_STOP_INPROGRESS\<rparr>"

definition phl_tx_stop_usb :: "data_st \<Rightarrow> data_st" where
  "phl_tx_stop_usb st = st\<lparr>sw_tx_sts := STATUS_SW_PAUSE\<rparr>"

definition phl_req_rx_stop_usb :: "data_st \<Rightarrow> data_st" where
  "phl_req_rx_stop_usb st = st\<lparr>sw_rx_sts := STATUS_STOP_INPROGRESS\<rparr>"

definition phl_is_tx_sw_pause_usb :: "data_st \<Rightarrow> bool" where
  "phl_is_tx_sw_pause_usb st \<longleftrightarrow> sw_tx_sts st = STATUS_SW_PAUSE"

definition phl_is_rx_sw_pause_usb :: "data_st \<Rightarrow> bool" where
  "phl_is_rx_sw_pause_usb st \<longleftrightarrow> sw_rx_sts st = STATUS_SW_PAUSE"

definition phl_tx_resume_usb :: "data_st \<Rightarrow> data_st" where
  "phl_tx_resume_usb st = st\<lparr>sw_tx_sts := STATUS_RUNNING\<rparr>"

definition phl_rx_resume_usb :: "data_st \<Rightarrow> data_st" where
  "phl_rx_resume_usb st = st\<lparr>sw_rx_sts := STATUS_RUNNING\<rparr>"

definition phl_trx_resume_usb :: "trx_type \<Rightarrow> data_st \<Rightarrow> data_st" where
  "phl_trx_resume_usb ty st = (case ty of PHL_CTRL_TX \<Rightarrow> phl_tx_resume_usb st | PHL_CTRL_RX \<Rightarrow> phl_rx_resume_usb st)"

definition phl_trx_reset_usb :: "trx_type \<Rightarrow> data_st \<Rightarrow> data_st" where
  "phl_trx_reset_usb ty st =
     (case ty of
        PHL_CTRL_TX \<Rightarrow> st\<lparr>d_stats := phl_reset_tx_stats (d_stats st)\<rparr>
      | PHL_CTRL_RX \<Rightarrow> st\<lparr>d_stats := phl_reset_rx_stats (d_stats st)\<rparr>)"

text \<open>The stop check at the end of the transmit handler, label \<^verbatim>\<open>chk_stop\<close>.\<close>

definition tx_callback_chk_stop :: "data_st \<Rightarrow> data_st" where
  "tx_callback_chk_stop st =
     (if sw_tx_sts st = STATUS_STOP_INPROGRESS then phl_tx_stop_usb st else st)"

section \<open>Power and pause checks of the handlers\<close>

text \<open>\<open>send_ok\<close>: the dispatcher accepts the power request.\<close>

definition phl_datapath_req_pwr :: "bool \<Rightarrow> trx_type \<Rightarrow> data_st \<Rightarrow> data_st" where
  "phl_datapath_req_pwr send_ok ty st =
     (if \<not> send_ok then st
      else case ty of PHL_CTRL_TX \<Rightarrow> st\<lparr>sw_tx_req_pwr := True\<rparr> | PHL_CTRL_RX \<Rightarrow> st\<lparr>sw_rx_req_pwr := True\<rparr>)"

text \<open>The completion of a power request: is the handler to be notified?\<close>

definition phl_req_pwr_cb :: "trx_type \<Rightarrow> bool \<Rightarrow> data_st \<Rightarrow> data_st \<times> bool" where
  "phl_req_pwr_cb ty failed st =
     ((case ty of PHL_CTRL_TX \<Rightarrow> st\<lparr>sw_tx_req_pwr := False\<rparr> | PHL_CTRL_RX \<Rightarrow> st\<lparr>sw_rx_req_pwr := False\<rparr>),
      \<not> failed)"

definition phl_datapath_chk_pwr :: "bool \<Rightarrow> trx_type \<Rightarrow> data_st \<Rightarrow> data_st \<times> bool" where
  "phl_datapath_chk_pwr send_ok ty st =
     (let pause_id = (case ty of PHL_CTRL_TX \<Rightarrow> pause_tx_id st | PHL_CTRL_RX \<Rightarrow> pause_rx_id st);
          more = (case ty of PHL_CTRL_TX \<Rightarrow> sw_tx_more st | PHL_CTRL_RX \<Rightarrow> sw_rx_more st);
          req_pwr = (case ty of PHL_CTRL_TX \<Rightarrow> sw_tx_req_pwr st | PHL_CTRL_RX \<Rightarrow> sw_rx_req_pwr st)
      in if pause_id AND NOT DATA_CTRL_MDL_PS \<noteq> 0 then (st, False)
         else (if more \<and> \<not> req_pwr then phl_datapath_req_pwr send_ok ty st else st, True))"

definition phl_datapath_chk_trx_pause :: "bool \<Rightarrow> trx_type \<Rightarrow> data_st \<Rightarrow> data_st \<times> bool" where
  "phl_datapath_chk_trx_pause send_ok ty st =
     (let sw_sts = (case ty of PHL_CTRL_TX \<Rightarrow> sw_tx_sts st | PHL_CTRL_RX \<Rightarrow> sw_rx_sts st)
      in if sw_sts = STATUS_SW_PAUSE then (fst (phl_datapath_chk_pwr send_ok ty st), True)
         else (st, False))"

section \<open>Pause and resume\<close>

definition phl_get_ctrl_mdl :: "nat \<Rightarrow> u32" where
  "phl_get_ctrl_mdl mdl =
     (if mdl = PHL_MDL_PHY_MGNT then DATA_CTRL_MDL_CMD_CTRLER
      else if mdl = PHL_MDL_SER then DATA_CTRL_MDL_SER
      else if mdl = PHL_MDL_POWER_MGNT then DATA_CTRL_MDL_PS
      else DATA_CTRL_MDL_NONE)"

definition phl_sw_tx_resume :: "data_env \<Rightarrow> nat \<Rightarrow> data_st \<Rightarrow> data_st \<times> rtw_phl_status" where
  "phl_sw_tx_resume env mdl st =
     (let ctrl_mdl = phl_get_ctrl_mdl mdl in
      if \<not> TEST_STATUS_FLAG (pause_tx_id st) ctrl_mdl then (st, RTW_PHL_STATUS_FAILURE)
      else
        let st1 = st\<lparr>pause_tx_id := CLEAR_STATUS_FLAG (pause_tx_id st) ctrl_mdl\<rparr> in
        if pause_tx_id st1 \<noteq> DATA_CTRL_MDL_NONE then (st1, RTW_PHL_STATUS_SUCCESS)
        else (phl_trx_resume_usb PHL_CTRL_TX st1, tx_notify env))"

definition phl_sw_rx_resume :: "data_env \<Rightarrow> nat \<Rightarrow> data_st \<Rightarrow> data_st \<times> rtw_phl_status" where
  "phl_sw_rx_resume env mdl st =
     (let ctrl_mdl = phl_get_ctrl_mdl mdl in
      if \<not> TEST_STATUS_FLAG (pause_rx_id st) ctrl_mdl then (st, RTW_PHL_STATUS_FAILURE)
      else
        let st1 = st\<lparr>pause_rx_id := CLEAR_STATUS_FLAG (pause_rx_id st) ctrl_mdl\<rparr> in
        if pause_rx_id st1 \<noteq> DATA_CTRL_MDL_NONE then (st1, RTW_PHL_STATUS_SUCCESS)
        else (phl_trx_resume_usb PHL_CTRL_RX st1, rx_start env))"

text \<open>The polling loops; the flag is whether the pause was seen.\<close>

fun poll_tx_pause :: "(nat \<Rightarrow> bool) \<Rightarrow> nat \<Rightarrow> nat \<Rightarrow> data_st \<Rightarrow> data_st \<times> bool" where
  "poll_tx_pause hdl i 0 st = (st, False)"
| "poll_tx_pause hdl i (Suc n) st =
     (let st1 = (if hdl i then tx_callback_chk_stop st else st) in
      if phl_is_tx_sw_pause_usb st1 then (st1, True) else poll_tx_pause hdl (Suc i) n st1)"

fun poll_rx_pause :: "nat \<Rightarrow> data_st \<Rightarrow> bool" where
  "poll_rx_pause 0 st = False"
| "poll_rx_pause (Suc n) st = (if phl_is_rx_sw_pause_usb st then True else poll_rx_pause n st)"

definition phl_sw_tx_pause :: "data_env \<Rightarrow> nat \<Rightarrow> data_st \<Rightarrow> data_st \<times> rtw_phl_status" where
  "phl_sw_tx_pause env mdl st =
     (let own = (\<lambda>s. s\<lparr>pause_tx_id := SET_STATUS_FLAG (pause_tx_id s) (phl_get_ctrl_mdl mdl)\<rparr>) in
      if sw_tx_sts st = STATUS_SW_PAUSE \<or> sw_tx_sts st = STATUS_STOP_INPROGRESS
      then (own st, RTW_PHL_STATUS_SUCCESS)
      else
        let st1 = phl_req_tx_stop_usb st in
        if tx_notify env = RTW_PHL_STATUS_SUCCESS then
          (case poll_tx_pause (tx_ran env) 0 POLL_SW_TX_PAUSE_CNT st1 of
             (st2, paused) \<Rightarrow>
               (own st2, if paused then RTW_PHL_STATUS_SUCCESS else RTW_PHL_STATUS_CMD_TIMEOUT))
        else (st1, RTW_PHL_STATUS_FAILURE))"

definition phl_sw_rx_pause :: "data_env \<Rightarrow> nat \<Rightarrow> data_st \<Rightarrow> data_st \<times> rtw_phl_status" where
  "phl_sw_rx_pause env mdl st =
     (let own = (\<lambda>s. s\<lparr>pause_rx_id := SET_STATUS_FLAG (pause_rx_id s) (phl_get_ctrl_mdl mdl)\<rparr>) in
      if sw_rx_sts st = STATUS_SW_PAUSE \<or> sw_rx_sts st = STATUS_STOP_INPROGRESS
      then (own st, RTW_PHL_STATUS_SUCCESS)
      else
        let st1 = phl_req_rx_stop_usb st in
        if rx_start env = RTW_PHL_STATUS_SUCCESS then
          (own st1, if poll_rx_pause POLL_SW_RX_PAUSE_CNT st1 then RTW_PHL_STATUS_SUCCESS
                    else RTW_PHL_STATUS_CMD_TIMEOUT)
        else (st1, RTW_PHL_STATUS_FAILURE))"

definition phl_hw_trx_rst_resume :: "data_env \<Rightarrow> data_st \<Rightarrow> data_st \<times> rtw_phl_status" where
  "phl_hw_trx_rst_resume env st =
     (if hal_resume_ok env then (st\<lparr>is_hw_trx_pause := False\<rparr>, RTW_PHL_STATUS_SUCCESS)
      else (st, RTW_PHL_STATUS_FAILURE))"

definition phl_hw_trx_pause :: "data_env \<Rightarrow> data_st \<Rightarrow> data_st \<times> rtw_phl_status" where
  "phl_hw_trx_pause env st =
     (if hal_pause_ok env then (st\<lparr>is_hw_trx_pause := True\<rparr>, RTW_PHL_STATUS_SUCCESS)
      else (st, RTW_PHL_STATUS_FAILURE))"

text \<open>The next step is taken only after success.\<close>

definition and_then ::
  "data_st \<times> rtw_phl_status \<Rightarrow> (data_st \<Rightarrow> data_st \<times> rtw_phl_status) \<Rightarrow> data_st \<times> rtw_phl_status" where
  "and_then r f = (case r of (st, status) \<Rightarrow> if status \<noteq> RTW_PHL_STATUS_SUCCESS then (st, status) else f st)"

definition phl_trx_sw_pause :: "data_env \<Rightarrow> nat \<Rightarrow> data_st \<Rightarrow> data_st \<times> rtw_phl_status" where
  "phl_trx_sw_pause env mdl st = and_then (phl_sw_tx_pause env mdl st) (phl_sw_rx_pause env mdl)"

definition phl_trx_sw_resume :: "data_env \<Rightarrow> nat \<Rightarrow> data_st \<Rightarrow> data_st \<times> rtw_phl_status" where
  "phl_trx_sw_resume env mdl st = and_then (phl_sw_tx_resume env mdl st) (phl_sw_rx_resume env mdl)"

text \<open>The error code is written through \<^verbatim>\<open>msg->outbuf\<close> when the buffer has its size.\<close>

definition phl_trx_pause_w_rst ::
  "data_env \<Rightarrow> nat \<Rightarrow> data_st \<Rightarrow> data_st \<times> rtw_phl_status \<times> data_ctrl_err_code option" where
  "phl_trx_pause_w_rst env mdl st =
     (case phl_sw_tx_pause env mdl st of (st1, sts1) \<Rightarrow>
        if sts1 \<noteq> RTW_PHL_STATUS_SUCCESS then
          (st1, sts1, Some (if sts1 = RTW_PHL_STATUS_CMD_TIMEOUT then CTRL_ERR_SW_TX_PAUSE_POLLTO
                            else CTRL_ERR_SW_TX_PAUSE_FAIL))
        else
          case phl_hw_trx_pause env st1 of (st2, sts2) \<Rightarrow>
            if sts2 \<noteq> RTW_PHL_STATUS_SUCCESS then (st2, sts2, Some CTRL_ERR_HW_TRX_PAUSE_FAIL)
            else
              case phl_sw_rx_pause env mdl st2 of (st3, sts3) \<Rightarrow>
                if sts3 \<noteq> RTW_PHL_STATUS_SUCCESS then
                  (st3, sts3, Some (if sts3 = RTW_PHL_STATUS_CMD_TIMEOUT then CTRL_ERR_SW_RX_PAUSE_POLLTO
                                    else CTRL_ERR_SW_RX_PAUSE_FAIL))
                else (phl_trx_reset_usb PHL_CTRL_RX (phl_trx_reset_usb PHL_CTRL_TX st3), sts3, None))"

definition phl_trx_resume_w_rst ::
  "data_env \<Rightarrow> nat \<Rightarrow> data_st \<Rightarrow> data_st \<times> rtw_phl_status \<times> data_ctrl_err_code option" where
  "phl_trx_resume_w_rst env mdl st =
     (case phl_sw_rx_resume env mdl st of (st1, sts1) \<Rightarrow>
        if sts1 \<noteq> RTW_PHL_STATUS_SUCCESS then (st1, sts1, Some CTRL_ERR_SW_RX_RESUME_FAIL)
        else
          case phl_hw_trx_rst_resume env st1 of (st2, sts2) \<Rightarrow>
            if sts2 \<noteq> RTW_PHL_STATUS_SUCCESS then (st2, sts2, Some CTRL_ERR_HW_TRX_RESUME_FAIL)
            else
              case phl_sw_tx_resume env mdl st2 of (st3, sts3) \<Rightarrow>
                if sts3 \<noteq> RTW_PHL_STATUS_SUCCESS then (st3, sts3, Some CTRL_ERR_SW_TX_RESUME_FAIL)
                else (st3, sts3, None))"

definition drop_err :: "data_st \<times> rtw_phl_status \<times> data_ctrl_err_code option \<Rightarrow> data_st \<times> rtw_phl_status" where
  "drop_err r = (fst r, fst (snd r))"

text \<open>\<open>ctl\<close> is the command and the id of the module that gives it.\<close>

definition phl_data_ctrler ::
  "data_env \<Rightarrow> (phl_data_ctl_cmd \<times> nat) option \<Rightarrow> data_st \<Rightarrow> data_st \<times> rtw_phl_status" where
  "phl_data_ctrler env ctl st =
     (case ctl of None \<Rightarrow> (st, RTW_PHL_STATUS_FAILURE)
      | Some (cmd, mdl) \<Rightarrow>
          (case cmd of
             PHL_DATA_CTL_HW_TRX_RST_RESUME \<Rightarrow> phl_hw_trx_rst_resume env st
           | PHL_DATA_CTL_HW_TRX_PAUSE \<Rightarrow> phl_hw_trx_pause env st
           | PHL_DATA_CTL_SW_TX_RESUME \<Rightarrow> phl_sw_tx_resume env mdl st
           | PHL_DATA_CTL_SW_RX_RESUME \<Rightarrow> phl_sw_rx_resume env mdl st
           | PHL_DATA_CTL_SW_TX_PAUSE \<Rightarrow> phl_sw_tx_pause env mdl st
           | PHL_DATA_CTL_SW_RX_PAUSE \<Rightarrow> phl_sw_rx_pause env mdl st
           | PHL_DATA_CTL_SW_TX_RESET \<Rightarrow> (phl_trx_reset_usb PHL_CTRL_TX st, RTW_PHL_STATUS_SUCCESS)
           | PHL_DATA_CTL_SW_RX_RESET \<Rightarrow> (phl_trx_reset_usb PHL_CTRL_RX st, RTW_PHL_STATUS_SUCCESS)
           | PHL_DATA_CTL_TRX_SW_PAUSE \<Rightarrow> phl_trx_sw_pause env mdl st
           | PHL_DATA_CTL_TRX_SW_RESUME \<Rightarrow> phl_trx_sw_resume env mdl st
           | PHL_DATA_CTL_TRX_PAUSE_W_RST \<Rightarrow> drop_err (phl_trx_pause_w_rst env mdl st)
           | PHL_DATA_CTL_TRX_RESUME_W_RST \<Rightarrow> drop_err (phl_trx_resume_w_rst env mdl st)
           | PHL_DATA_CTL_MAX \<Rightarrow> (st, RTW_PHL_STATUS_FAILURE)))"

section \<open>Runs of the controller\<close>

text \<open>
  A step of the running system, seen from the controller: a command of a module, the stop
  check of the transmit handler, the pause check of a handler, or the completion of a power
  request.
\<close>

inductive data_step :: "data_st \<Rightarrow> (phl_data_ctl_cmd \<times> nat) option \<Rightarrow> data_st \<Rightarrow> bool" where
  command: "phl_data_ctrler env (Some c) st = (st', status) \<Longrightarrow> data_step st (Some c) st'"
| handler_stop: "data_step st None (tx_callback_chk_stop st)"
| handler_check: "phl_datapath_chk_trx_pause ok ty st = (st', b) \<Longrightarrow> data_step st None st'"
| power_done: "phl_req_pwr_cb ty failed st = (st', b) \<Longrightarrow> data_step st None st'"

inductive_cases data_stepE: "data_step st l st'"

text \<open>Runs with the commands given on the way.\<close>

inductive data_run :: "data_st \<Rightarrow> (phl_data_ctl_cmd \<times> nat) list \<Rightarrow> data_st \<Rightarrow> bool" where
  run_nil: "data_run st [] st"
| run_cmd: "data_step st (Some c) st1 \<Longrightarrow> data_run st1 cs st2 \<Longrightarrow> data_run st (c # cs) st2"
| run_tau: "data_step st None st1 \<Longrightarrow> data_run st1 cs st2 \<Longrightarrow> data_run st cs st2"

definition stopped :: "phl_trx_status \<Rightarrow> bool" where
  "stopped s \<longleftrightarrow> s = STATUS_STOP_INPROGRESS \<or> s = STATUS_SW_PAUSE"

text \<open>A path that some module has paused is stopped or being stopped.\<close>

definition data_inv :: "data_st \<Rightarrow> bool" where
  "data_inv st \<longleftrightarrow> (pause_tx_id st \<noteq> 0 \<longrightarrow> stopped (sw_tx_sts st)) \<and> (pause_rx_id st \<noteq> 0 \<longrightarrow> stopped (sw_rx_sts st))"

lemmas data_ops = phl_req_tx_stop_usb_def phl_tx_stop_usb_def phl_req_rx_stop_usb_def phl_is_tx_sw_pause_usb_def
  phl_is_rx_sw_pause_usb_def phl_tx_resume_usb_def phl_rx_resume_usb_def phl_trx_resume_usb_def phl_trx_reset_usb_def
  tx_callback_chk_stop_def DATA_CTRL_MDL_NONE_def

lemma poll_tx_frame:
  "poll_tx_pause hdl i n st = (st', b) \<Longrightarrow> stopped (sw_tx_sts st) \<Longrightarrow>
     \<exists>s. st' = st\<lparr>sw_tx_sts := s\<rparr> \<and> stopped s \<and> (b \<longrightarrow> s = STATUS_SW_PAUSE)"
proof (induction n arbitrary: i st)
  case 0
  then have "st' = st\<lparr>sw_tx_sts := sw_tx_sts st\<rparr> \<and> stopped (sw_tx_sts st) \<and> \<not> b" by simp
  then show ?case by blast
next
  case (Suc n)
  obtain s1 where s1: "(if hdl i then tx_callback_chk_stop st else st) = st\<lparr>sw_tx_sts := s1\<rparr>" "stopped s1"
  proof -
    have "(if hdl i then tx_callback_chk_stop st else st) =
        st\<lparr>sw_tx_sts := if hdl i \<and> sw_tx_sts st = STATUS_STOP_INPROGRESS then STATUS_SW_PAUSE else sw_tx_sts st\<rparr>"
      by (simp add: tx_callback_chk_stop_def phl_tx_stop_usb_def)
    then show thesis by (rule that) (use Suc.prems(2) in \<open>simp add: stopped_def\<close>)
  qed
  show ?case
  proof (cases "s1 = STATUS_SW_PAUSE")
    case True
    then have "st' = st\<lparr>sw_tx_sts := s1\<rparr>" using Suc.prems(1)
      unfolding poll_tx_pause.simps s1(1) by (simp add: phl_is_tx_sw_pause_usb_def)
    then show ?thesis using True s1(2) by blast
  next
    case False
    then have "poll_tx_pause hdl (Suc i) n (st\<lparr>sw_tx_sts := s1\<rparr>) = (st', b)" using Suc.prems(1)
      unfolding poll_tx_pause.simps s1(1) by (simp add: phl_is_tx_sw_pause_usb_def)
    from Suc.IH [OF this] s1(2) show ?thesis by simp
  qed
qed

lemma sw_tx_pause_cases:
  assumes "phl_sw_tx_pause env mdl st = (st', status)"
  shows "\<exists>s p. st' = st\<lparr>sw_tx_sts := s, pause_tx_id := p\<rparr> \<and> stopped s \<and>
     (if status = RTW_PHL_STATUS_FAILURE then p = pause_tx_id st
      else p = pause_tx_id st OR phl_get_ctrl_mdl mdl)"
proof (cases "stopped (sw_tx_sts st)")
  case True
  then have "st' = st\<lparr>sw_tx_sts := sw_tx_sts st, pause_tx_id := pause_tx_id st OR phl_get_ctrl_mdl mdl\<rparr>"
    "status = RTW_PHL_STATUS_SUCCESS"
    using assms by (auto simp: phl_sw_tx_pause_def stopped_def SET_STATUS_FLAG_def Let_def)
  then show ?thesis using True by (intro exI) auto
next
  case False
  obtain st2 b where p: "poll_tx_pause (tx_ran env) 0 POLL_SW_TX_PAUSE_CNT (phl_req_tx_stop_usb st) = (st2, b)"
    by fastforce
  have "stopped (sw_tx_sts (phl_req_tx_stop_usb st))" by (simp add: phl_req_tx_stop_usb_def stopped_def)
  from poll_tx_frame [OF p this] obtain s where s: "st2 = st\<lparr>sw_tx_sts := s\<rparr>" "stopped s"
    by (auto simp: phl_req_tx_stop_usb_def)
  have r: "phl_sw_tx_pause env mdl st =
      (if tx_notify env = RTW_PHL_STATUS_SUCCESS
       then (st2\<lparr>pause_tx_id := SET_STATUS_FLAG (pause_tx_id st2) (phl_get_ctrl_mdl mdl)\<rparr>,
             if b then RTW_PHL_STATUS_SUCCESS else RTW_PHL_STATUS_CMD_TIMEOUT)
       else (phl_req_tx_stop_usb st, RTW_PHL_STATUS_FAILURE))"
    using False p by (simp add: phl_sw_tx_pause_def Let_def stopped_def)
  show ?thesis
  proof (cases "tx_notify env = RTW_PHL_STATUS_SUCCESS")
    case True
    then have "st' = st\<lparr>sw_tx_sts := s, pause_tx_id := pause_tx_id st OR phl_get_ctrl_mdl mdl\<rparr>"
      "status \<noteq> RTW_PHL_STATUS_FAILURE" using r assms s by (auto simp: SET_STATUS_FLAG_def)
    then show ?thesis using s(2) by (intro exI) auto
  next
    case False
    then have "st' = st\<lparr>sw_tx_sts := STATUS_STOP_INPROGRESS, pause_tx_id := pause_tx_id st\<rparr>"
      "status = RTW_PHL_STATUS_FAILURE" using r assms by (auto simp: phl_req_tx_stop_usb_def)
    then show ?thesis by (intro exI) (auto simp: stopped_def)
  qed
qed

lemma poll_rx_never: "poll_rx_pause n st \<longleftrightarrow> 0 < n \<and> sw_rx_sts st = STATUS_SW_PAUSE"
  by (induction n) (auto simp: phl_is_rx_sw_pause_usb_def)

lemma sw_rx_pause_cases:
  assumes "phl_sw_rx_pause env mdl st = (st', status)"
  shows "\<exists>s p. st' = st\<lparr>sw_rx_sts := s, pause_rx_id := p\<rparr> \<and> stopped s \<and>
     (if status = RTW_PHL_STATUS_FAILURE then p = pause_rx_id st
      else p = pause_rx_id st OR phl_get_ctrl_mdl mdl)"
proof (cases "stopped (sw_rx_sts st)")
  case True
  then have "st' = st\<lparr>sw_rx_sts := sw_rx_sts st, pause_rx_id := pause_rx_id st OR phl_get_ctrl_mdl mdl\<rparr>"
    "status = RTW_PHL_STATUS_SUCCESS"
    using assms by (auto simp: phl_sw_rx_pause_def stopped_def SET_STATUS_FLAG_def Let_def)
  then show ?thesis using True by (intro exI) auto
next
  case False
  show ?thesis
  proof (cases "rx_start env = RTW_PHL_STATUS_SUCCESS")
    case True
    then have "st' = st\<lparr>sw_rx_sts := STATUS_STOP_INPROGRESS, pause_rx_id := pause_rx_id st OR phl_get_ctrl_mdl mdl\<rparr>"
      "status \<noteq> RTW_PHL_STATUS_FAILURE"
      using False assms by (auto simp: phl_sw_rx_pause_def Let_def stopped_def SET_STATUS_FLAG_def phl_req_rx_stop_usb_def
          poll_rx_never)
    then show ?thesis by (intro exI) (auto simp: stopped_def)
  next
    case f: False
    then have "st' = st\<lparr>sw_rx_sts := STATUS_STOP_INPROGRESS, pause_rx_id := pause_rx_id st\<rparr>"
      "status = RTW_PHL_STATUS_FAILURE"
      using False assms by (auto simp: phl_sw_rx_pause_def Let_def stopped_def phl_req_rx_stop_usb_def)
    then show ?thesis by (intro exI) (auto simp: stopped_def)
  qed
qed

lemma sw_tx_resume_cases:
  assumes "phl_sw_tx_resume env mdl st = (st', status)"
  defines "p \<equiv> pause_tx_id st AND NOT (phl_get_ctrl_mdl mdl)"
  shows "st' = st \<or> p \<noteq> 0 \<and> st' = st\<lparr>pause_tx_id := p\<rparr> \<or>
     p = 0 \<and> st' = st\<lparr>pause_tx_id := 0, sw_tx_sts := STATUS_RUNNING\<rparr>"
  using assms by (auto simp: phl_sw_tx_resume_def Let_def CLEAR_STATUS_FLAG_def data_ops split: if_splits)

lemma sw_rx_resume_cases:
  assumes "phl_sw_rx_resume env mdl st = (st', status)"
  defines "p \<equiv> pause_rx_id st AND NOT (phl_get_ctrl_mdl mdl)"
  shows "st' = st \<or> p \<noteq> 0 \<and> st' = st\<lparr>pause_rx_id := p\<rparr> \<or>
     p = 0 \<and> st' = st\<lparr>pause_rx_id := 0, sw_rx_sts := STATUS_RUNNING\<rparr>"
  using assms by (auto simp: phl_sw_rx_resume_def Let_def CLEAR_STATUS_FLAG_def data_ops split: if_splits)

text \<open>What a basic step may do to the ownership of the transmit path: nothing of module \<open>b\<close> is lost.\<close>

definition tx_safe :: "nat \<Rightarrow> data_st \<Rightarrow> data_st \<Rightarrow> bool" where
  "tx_safe b st st' \<longleftrightarrow> (data_inv st \<longrightarrow> data_inv st') \<and> (bit (pause_tx_id st) b \<longrightarrow> bit (pause_tx_id st') b)"

lemma tx_safe_trans: "tx_safe b s1 s2 \<Longrightarrow> tx_safe b s2 s3 \<Longrightarrow> tx_safe b s1 s3"
  by (simp add: tx_safe_def)

lemma mdl_bit: "b < 3 \<Longrightarrow> bit (phl_get_ctrl_mdl mdl) b \<longleftrightarrow> phl_get_ctrl_mdl mdl = BIT b"
proof -
  assume b: "b < 3"
  have "phl_get_ctrl_mdl mdl = 0 \<or> (\<exists>k<3. phl_get_ctrl_mdl mdl = BIT k)"
    unfolding phl_get_ctrl_mdl_def DATA_CTRL_MDL_NONE_def DATA_CTRL_MDL_CMD_CTRLER_def DATA_CTRL_MDL_SER_def
      DATA_CTRL_MDL_PS_def by (metis numeral_3_eq_3 one_less_numeral_iff semiring_norm(77) lessI zero_less_numeral numeral_2_eq_2)
  then show ?thesis using b BIT_nonzero [of b] by (auto simp: bit_BIT BIT_eq)
qed

definition resumes_tx :: "phl_data_ctl_cmd \<Rightarrow> bool" where
  "resumes_tx cmd \<longleftrightarrow> cmd \<in> {PHL_DATA_CTL_SW_TX_RESUME, PHL_DATA_CTL_TRX_SW_RESUME, PHL_DATA_CTL_TRX_RESUME_W_RST}"

lemma tx_safe_basic:
  "tx_safe b st (fst (phl_sw_tx_pause env mdl st))"
  "tx_safe b st (fst (phl_sw_rx_pause env mdl st))"
  "tx_safe b st (fst (phl_sw_rx_resume env mdl st))"
  "tx_safe b st (fst (phl_hw_trx_pause env st))"
  "tx_safe b st (fst (phl_hw_trx_rst_resume env st))"
  "tx_safe b st (phl_trx_reset_usb ty st)"
  "tx_safe b st (tx_callback_chk_stop st)"
proof -
  obtain st1 s1 where a: "phl_sw_tx_pause env mdl st = (st1, s1)" by fastforce
  from sw_tx_pause_cases [OF this] show "tx_safe b st (fst (phl_sw_tx_pause env mdl st))"
    by (auto simp: a tx_safe_def data_inv_def bit_or_iff split: if_splits)
  obtain st1 s1 where a: "phl_sw_rx_pause env mdl st = (st1, s1)" by fastforce
  from sw_rx_pause_cases [OF this] show "tx_safe b st (fst (phl_sw_rx_pause env mdl st))"
    by (auto simp: a tx_safe_def data_inv_def split: if_splits)
  obtain st1 s1 where a: "phl_sw_rx_resume env mdl st = (st1, s1)" by fastforce
  from sw_rx_resume_cases [OF this] show "tx_safe b st (fst (phl_sw_rx_resume env mdl st))"
    by (auto simp: a tx_safe_def data_inv_def)
qed (auto simp: tx_safe_def data_inv_def phl_hw_trx_pause_def phl_hw_trx_rst_resume_def data_ops stopped_def
      split: trx_type.splits)

lemma tx_safe_resume:
  assumes "b < 3" and "phl_get_ctrl_mdl mdl \<noteq> BIT b"
  shows "tx_safe b st (fst (phl_sw_tx_resume env mdl st))"
proof -
  obtain st1 s1 where a: "phl_sw_tx_resume env mdl st = (st1, s1)" by fastforce
  have "bit (pause_tx_id st AND NOT (phl_get_ctrl_mdl mdl)) b = bit (pause_tx_id st) b"
    using assms mdl_bit [OF assms(1), of mdl] by (auto simp: bit_and_iff bit_not_iff)
  with sw_tx_resume_cases [OF a] show ?thesis by (auto simp: a tx_safe_def data_inv_def)
qed

lemma tx_safe_and_then:
  assumes "tx_safe b st (fst r)" and "\<And>s. tx_safe b s (fst (f s))"
  shows "tx_safe b st (fst (and_then r f))"
  using assms tx_safe_trans by (auto simp: and_then_def split: prod.splits)

lemma tx_safe_w_rst:
  "tx_safe b st (fst (phl_trx_pause_w_rst env mdl st))"
  "b < 3 \<Longrightarrow> phl_get_ctrl_mdl mdl \<noteq> BIT b \<Longrightarrow> tx_safe b st (fst (phl_trx_resume_w_rst env mdl st))"
proof -
  let ?st1 = "fst (phl_sw_tx_pause env mdl st)"
  let ?st2 = "fst (phl_hw_trx_pause env ?st1)"
  let ?st3 = "fst (phl_sw_rx_pause env mdl ?st2)"
  have 1: "tx_safe b st ?st1" by (rule tx_safe_basic)
  have 2: "tx_safe b st ?st2" by (rule tx_safe_trans [OF 1 tx_safe_basic(4)])
  have 3: "tx_safe b st ?st3" by (rule tx_safe_trans [OF 2 tx_safe_basic(2)])
  have "tx_safe b st (phl_trx_reset_usb PHL_CTRL_RX (phl_trx_reset_usb PHL_CTRL_TX ?st3))"
    by (rule tx_safe_trans [OF tx_safe_trans [OF 3 tx_safe_basic(6)] tx_safe_basic(6)])
  with 1 2 3 show "tx_safe b st (fst (phl_trx_pause_w_rst env mdl st))"
    by (simp add: phl_trx_pause_w_rst_def split_beta)
next
  assume b: "b < 3" "phl_get_ctrl_mdl mdl \<noteq> BIT b"
  let ?st1 = "fst (phl_sw_rx_resume env mdl st)"
  let ?st2 = "fst (phl_hw_trx_rst_resume env ?st1)"
  have 1: "tx_safe b st ?st1" by (rule tx_safe_basic)
  have 2: "tx_safe b st ?st2" by (rule tx_safe_trans [OF 1 tx_safe_basic(5)])
  have 3: "tx_safe b st (fst (phl_sw_tx_resume env mdl ?st2))" by (rule tx_safe_trans [OF 2 tx_safe_resume [OF b]])
  from 1 2 3 show "tx_safe b st (fst (phl_trx_resume_w_rst env mdl st))"
    by (simp add: phl_trx_resume_w_rst_def split_beta)
qed

lemma tx_safe_ctrler:
  assumes "b < 3" and "resumes_tx cmd \<Longrightarrow> phl_get_ctrl_mdl mdl \<noteq> BIT b"
  shows "tx_safe b st (fst (phl_data_ctrler env (Some (cmd, mdl)) st))"
proof -
  have refl: "tx_safe b st st" by (simp add: tx_safe_def)
  show ?thesis
    using assms refl
    by (cases cmd) (simp_all add: phl_data_ctrler_def tx_safe_basic tx_safe_resume tx_safe_w_rst drop_err_def
        phl_trx_sw_pause_def phl_trx_sw_resume_def tx_safe_and_then resumes_tx_def)
qed

lemma data_step_safe:
  assumes "data_step st l st'" and "b < 3"
    and "\<And>cmd mdl. l = Some (cmd, mdl) \<Longrightarrow> resumes_tx cmd \<Longrightarrow> phl_get_ctrl_mdl mdl \<noteq> BIT b"
  shows "tx_safe b st st'"
  using assms
proof (cases rule: data_step.cases)
  case (command env c status)
  obtain cmd mdl where "c = (cmd, mdl)" by fastforce
  with command assms tx_safe_ctrler [of b cmd mdl st env] show ?thesis by auto
next
  case handler_stop
  then show ?thesis by (simp add: tx_safe_basic)
next
  case (handler_check ok ty b')
  then show ?thesis
    by (auto simp: phl_datapath_chk_trx_pause_def phl_datapath_chk_pwr_def phl_datapath_req_pwr_def tx_safe_def data_inv_def
        Let_def split: if_splits trx_type.splits)
next
  case (power_done ty failed b')
  then show ?thesis by (auto simp: phl_req_pwr_cb_def tx_safe_def data_inv_def split: trx_type.splits)
qed

lemma data_run_safe:
  "data_run st cs st' \<Longrightarrow> b < 3 \<Longrightarrow>
   (\<forall>(cmd, mdl)\<in>set cs. resumes_tx cmd \<longrightarrow> phl_get_ctrl_mdl mdl \<noteq> BIT b) \<Longrightarrow> tx_safe b st st'"
proof (induction rule: data_run.induct)
  case (run_nil st)
  then show ?case by (simp add: tx_safe_def)
next
  case (run_cmd st c st1 cs st2)
  have "tx_safe b st st1" using run_cmd.prems by (intro data_step_safe [OF run_cmd.hyps(1)]) auto
  moreover have "tx_safe b st1 st2" using run_cmd by simp
  ultimately show ?case by (rule tx_safe_trans)
next
  case (run_tau st st1 cs st2)
  have "tx_safe b st st1" using run_tau.prems(1) by (intro data_step_safe [OF run_tau.hyps(1)]) auto
  moreover have "tx_safe b st1 st2" using run_tau by simp
  ultimately show ?case by (rule tx_safe_trans)
qed

text \<open>
  C30: Once a module owns a pause of the transmit path, the path stays stopped and the module
  keeps owning the pause through any run of the system (commands of all modules, handlers,
  power requests) in which the module itself does not ask to resume transmission.
\<close>

theorem tx_pause_exclusive:
  assumes "data_run st cs st'" and "data_inv st" and "b < 3" and "bit (pause_tx_id st) b"
    and "\<forall>(cmd, mdl)\<in>set cs. resumes_tx cmd \<longrightarrow> phl_get_ctrl_mdl mdl \<noteq> BIT b"
  shows "data_inv st' \<and> bit (pause_tx_id st') b \<and> sw_tx_sts st' \<in> {STATUS_STOP_INPROGRESS, STATUS_SW_PAUSE}"
proof -
  have s: "tx_safe b st st'" using assms by (intro data_run_safe) auto
  then have "data_inv st'" "bit (pause_tx_id st') b" using assms by (simp_all add: tx_safe_def)
  then show ?thesis by (auto simp: data_inv_def stopped_def)
qed

section \<open>Pausing and resuming complete\<close>

lemma poll_tx_sees:
  "sw_tx_sts st = STATUS_STOP_INPROGRESS \<Longrightarrow> i \<le> k \<Longrightarrow> k < i + n \<Longrightarrow> hdl k \<Longrightarrow>
     poll_tx_pause hdl i n st = (st\<lparr>sw_tx_sts := STATUS_SW_PAUSE\<rparr>, True)"
proof (induction n arbitrary: i)
  case (Suc n)
  show ?case
  proof (cases "hdl i")
    case True
    then show ?thesis using Suc.prems(1) by (simp add: data_ops)
  next
    case False
    then have "i \<noteq> k" using Suc.prems(4) by auto
    then have "poll_tx_pause hdl (Suc i) n st = (st\<lparr>sw_tx_sts := STATUS_SW_PAUSE\<rparr>, True)"
      using Suc by (intro Suc.IH) auto
    then show ?thesis using False Suc.prems(1) by (simp add: phl_is_tx_sw_pause_usb_def)
  qed
qed simp

text \<open>A pause of the running transmit path succeeds when the transmit handler reaches its stop
  check within the 100 polls: the path is paused and the module owns the pause. When that
  module is the only owner, its resume sets the path running again and notifies the handler.
\<close>

lemma tx_pause_then_resume:
  assumes "sw_tx_sts st \<in> {STATUS_IDLE, STATUS_RUNNING}" and "pause_tx_id st = 0"
    and "tx_notify env = RTW_PHL_STATUS_SUCCESS" and "i < 100" and "tx_ran env i"
    and "mdl \<in> {PHL_MDL_PHY_MGNT, PHL_MDL_POWER_MGNT, PHL_MDL_SER}"
  shows "\<exists>st1. phl_sw_tx_pause env mdl st = (st1, RTW_PHL_STATUS_SUCCESS) \<and> sw_tx_sts st1 = STATUS_SW_PAUSE \<and>
     pause_tx_id st1 = phl_get_ctrl_mdl mdl \<and> phl_get_ctrl_mdl mdl \<noteq> 0 \<and>
     phl_sw_tx_resume env mdl st1 = (st\<lparr>sw_tx_sts := STATUS_RUNNING\<rparr>, RTW_PHL_STATUS_SUCCESS)"
proof -
  let ?m = "phl_get_ctrl_mdl mdl"
  let ?st1 = "st\<lparr>sw_tx_sts := STATUS_SW_PAUSE, pause_tx_id := ?m\<rparr>"
  have m: "?m \<noteq> 0" using assms(6) BIT_nonzero
    by (auto simp: phl_get_ctrl_mdl_def DATA_CTRL_MDL_CMD_CTRLER_def DATA_CTRL_MDL_SER_def DATA_CTRL_MDL_PS_def
        PHL_MDL_PHY_MGNT_def PHL_MDL_POWER_MGNT_def PHL_MDL_SER_def)
  have "poll_tx_pause (tx_ran env) 0 POLL_SW_TX_PAUSE_CNT (phl_req_tx_stop_usb st) =
      ((phl_req_tx_stop_usb st)\<lparr>sw_tx_sts := STATUS_SW_PAUSE\<rparr>, True)"
    using assms(4,5) by (intro poll_tx_sees [of _ 0 i]) (auto simp: phl_req_tx_stop_usb_def POLL_SW_TX_PAUSE_CNT_def)
  then have p: "phl_sw_tx_pause env mdl st = (?st1, RTW_PHL_STATUS_SUCCESS)"
    using assms(1-3) by (auto simp: phl_sw_tx_pause_def Let_def SET_STATUS_FLAG_def phl_req_tx_stop_usb_def)
  have z: "?m AND NOT ?m = 0" by simp
  have "phl_sw_tx_resume env mdl ?st1 = (st\<lparr>sw_tx_sts := STATUS_RUNNING\<rparr>, RTW_PHL_STATUS_SUCCESS)"
    using assms(2,3) z by (simp add: phl_sw_tx_resume_def Let_def TEST_STATUS_FLAG_def CLEAR_STATUS_FLAG_def data_ops)
  with p m show ?thesis by (intro exI [of _ ?st1]) simp
qed

text \<open>On the USB interface a pause of a running receive path never succeeds: the handler has no
  stop check, so the 100 polls time out, and the path is left half stopped and owned by the
  module; a pause with reset of a running receive path therefore ends with the receive poll
  time-out after the hardware has been paused, while a repeated pause reports success at once.
\<close>

lemma rx_pause_times_out:
  assumes "sw_rx_sts st \<in> {STATUS_IDLE, STATUS_RUNNING}" and "rx_start env = RTW_PHL_STATUS_SUCCESS"
  shows "\<exists>st1. phl_sw_rx_pause env mdl st = (st1, RTW_PHL_STATUS_CMD_TIMEOUT) \<and>
     st1 = st\<lparr>sw_rx_sts := STATUS_STOP_INPROGRESS, pause_rx_id := pause_rx_id st OR phl_get_ctrl_mdl mdl\<rparr> \<and>
     snd (phl_sw_rx_pause env mdl st1) = RTW_PHL_STATUS_SUCCESS \<and>
     (snd (phl_sw_tx_pause env mdl st) = RTW_PHL_STATUS_SUCCESS \<and> hal_pause_ok env \<longrightarrow>
        snd (phl_trx_pause_w_rst env mdl st) = (RTW_PHL_STATUS_CMD_TIMEOUT, Some CTRL_ERR_SW_RX_PAUSE_POLLTO) \<and>
        is_hw_trx_pause (fst (phl_trx_pause_w_rst env mdl st)))"
proof -
  have rx: "phl_sw_rx_pause env mdl s =
      (s\<lparr>sw_rx_sts := STATUS_STOP_INPROGRESS, pause_rx_id := pause_rx_id s OR phl_get_ctrl_mdl mdl\<rparr>, RTW_PHL_STATUS_CMD_TIMEOUT)"
    if "sw_rx_sts s \<in> {STATUS_IDLE, STATUS_RUNNING}" for s
    using that assms(2)
    by (auto simp: phl_sw_rx_pause_def Let_def SET_STATUS_FLAG_def phl_req_rx_stop_usb_def poll_rx_never)
  obtain s1 r1 where t: "phl_sw_tx_pause env mdl st = (s1, r1)" by fastforce
  from sw_tx_pause_cases [OF t] have s1: "sw_rx_sts s1 = sw_rx_sts st" by auto
  let ?s2 = "s1\<lparr>is_hw_trx_pause := True\<rparr>"
  have "snd (phl_trx_pause_w_rst env mdl st) = (RTW_PHL_STATUS_CMD_TIMEOUT, Some CTRL_ERR_SW_RX_PAUSE_POLLTO) \<and>
        is_hw_trx_pause (fst (phl_trx_pause_w_rst env mdl st))"
    if "r1 = RTW_PHL_STATUS_SUCCESS" "hal_pause_ok env"
    using that t rx [of ?s2] assms(1) s1 by (simp add: phl_trx_pause_w_rst_def phl_hw_trx_pause_def)
  then show ?thesis using rx [OF assms(1)] t by (auto simp: phl_sw_rx_pause_def Let_def)
qed

text \<open>
  A handler finds its path paused exactly in the pause state, and asks for power at most
  once: only when no module other than power saving pauses the path, there is more to do and
  no request is pending.
\<close>

lemma power_request_only_for_ps:
  assumes "phl_datapath_chk_trx_pause send_ok PHL_CTRL_TX st = (st', paused)"
  shows "(paused \<longleftrightarrow> sw_tx_sts st = STATUS_SW_PAUSE) \<and>
     (st' \<noteq> st \<longrightarrow> paused \<and> pause_tx_id st AND NOT DATA_CTRL_MDL_PS = 0 \<and> sw_tx_more st \<and> \<not> sw_tx_req_pwr st \<and>
        st' = st\<lparr>sw_tx_req_pwr := True\<rparr>)"
  using assms
  by (auto simp: phl_datapath_chk_trx_pause_def phl_datapath_chk_pwr_def phl_datapath_req_pwr_def Let_def split: if_splits)

section \<open>Examples\<close>

definition ex_data :: data_st where
  "ex_data = \<lparr>sw_tx_sts = STATUS_RUNNING, sw_rx_sts = STATUS_RUNNING, pause_tx_id = 0, pause_rx_id = 0,
     is_hw_trx_pause = False, sw_tx_more = True, sw_rx_more = False, sw_tx_req_pwr = False, sw_rx_req_pwr = False,
     d_stats = ex_stats\<rparr>"

definition ex_denv :: data_env where
  "ex_denv = \<lparr>tx_notify = RTW_PHL_STATUS_SUCCESS, rx_start = RTW_PHL_STATUS_SUCCESS, tx_ran = (\<lambda>i. i = 3),
     hal_pause_ok = True, hal_resume_ok = True\<rparr>"

definition ex_paused :: data_st where
  "ex_paused = ex_data\<lparr>sw_tx_sts := STATUS_SW_PAUSE, pause_tx_id := BIT 2\<rparr>"

theorem tx_pause_exclusive_witness:
  "data_run ex_paused [(PHL_DATA_CTL_SW_TX_RESUME, PHL_MDL_SER)] (fst (phl_data_ctrler ex_denv
      (Some (PHL_DATA_CTL_SW_TX_RESUME, PHL_MDL_SER)) ex_paused)) \<and>
   sw_tx_sts (fst (phl_data_ctrler ex_denv (Some (PHL_DATA_CTL_SW_TX_RESUME, PHL_MDL_SER)) ex_paused))
     \<in> {STATUS_STOP_INPROGRESS, STATUS_SW_PAUSE}"
proof -
  let ?st' = "fst (phl_data_ctrler ex_denv (Some (PHL_DATA_CTL_SW_TX_RESUME, PHL_MDL_SER)) ex_paused)"
  have "data_step ex_paused (Some (PHL_DATA_CTL_SW_TX_RESUME, PHL_MDL_SER)) ?st'"
    by (rule data_step.command [of ex_denv]) (rule prod.collapse [symmetric])
  then have r: "data_run ex_paused [(PHL_DATA_CTL_SW_TX_RESUME, PHL_MDL_SER)] ?st'"
    by (rule data_run.run_cmd) (rule data_run.run_nil)
  have inv: "data_inv ex_paused" by (simp add: data_inv_def ex_paused_def ex_data_def stopped_def)
  have b: "bit (pause_tx_id ex_paused) 2" by (simp add: ex_paused_def bit_BIT)
  have other: "\<forall>(cmd, mdl)\<in>set [(PHL_DATA_CTL_SW_TX_RESUME, PHL_MDL_SER)].
      resumes_tx cmd \<longrightarrow> phl_get_ctrl_mdl mdl \<noteq> BIT 2"
    by (simp add: phl_get_ctrl_mdl_def PHL_MDL_SER_def PHL_MDL_PHY_MGNT_def DATA_CTRL_MDL_SER_def BIT_eq)
  from tx_pause_exclusive [OF r inv _ b other] r show ?thesis by simp
qed

end
