(* ===== verification/Phl_Usb_Rx.thy ===== *)
theory Phl_Usb_Rx
  imports Phl_Psts Phl_Datapath
begin

text \<open>
  The USB receive handler of \<^verbatim>\<open>phl/hci/phl_trx_usb.c\<close> on top of \<^verbatim>\<open>phl/phl_rx.c\<close>: the
  packets of a filled buffer are parsed, dispatched by type, held back for their PPDU status or passed
  on, and the buffer is released with its last packet. The system of this theory (USB completions, the
  handler, timers, block-ack sessions, the core) keeps every packet and every buffer accounted for.

  What the HAL reads from the buffer is an argument: for the \<open>k\<close>-th packet of a buffer either nothing
  (the descriptor is refused) or a \<open>hal_rx\<close>; so are whether a network buffer is available and the
  release reports of a report packet.
\<close>

section \<open>Release reports\<close>

definition TX_STATUS_TX_DONE :: nat where "TX_STATUS_TX_DONE = 0"
definition TX_STATUS_TX_FAIL_REACH_RTY_LMT :: nat where "TX_STATUS_TX_FAIL_REACH_RTY_LMT = 1"
definition TX_STATUS_TX_FAIL_LIFETIME_DROP :: nat where "TX_STATUS_TX_FAIL_LIFETIME_DROP = 2"
definition TX_STATUS_TX_FAIL_MACID_DROP :: nat where "TX_STATUS_TX_FAIL_MACID_DROP = 3"

text \<open>
  The access category indexes the four reports of a station; the HAL reduces it modulo 4, and an index outside leaves
  the reports as they are.
\<close>

definition phl_wp_report_record_sts_usb :: "nat \<Rightarrow> nat \<Rightarrow> nat \<Rightarrow> rx_st \<Rightarrow> rx_st" where
  "phl_wp_report_record_sts_usb macid ac_queue txsts st =
     (case rtw_phl_get_stainfo_by_macid macid (rx_sta st) of None \<Rightarrow> st
      | Some s \<Rightarrow>
          let wp = sta_wp_rpt st s ! ac_queue; (ok, fail) = sta_tx_cnt st s;
              cnts = (if txsts = TX_STATUS_TX_DONE then (ok + 1, fail) else (ok, fail + 1));
              wp' = (if txsts = TX_STATUS_TX_DONE then wp\<lparr>wp_tx_ok_cnt := wp_tx_ok_cnt wp + 1\<rparr>
                     else if txsts = TX_STATUS_TX_FAIL_REACH_RTY_LMT then wp\<lparr>wp_rty_fail_cnt := wp_rty_fail_cnt wp + 1\<rparr>
                     else if txsts = TX_STATUS_TX_FAIL_LIFETIME_DROP then wp\<lparr>wp_lifetime_drop_cnt := wp_lifetime_drop_cnt wp + 1\<rparr>
                     else if txsts = TX_STATUS_TX_FAIL_MACID_DROP then wp\<lparr>wp_macid_drop_cnt := wp_macid_drop_cnt wp + 1\<rparr>
                     else wp)
          in st\<lparr>sta_wp_rpt := (sta_wp_rpt st)(s := (sta_wp_rpt st s)[ac_queue := wp']),
                sta_tx_cnt := (sta_tx_cnt st)(s := cnts)\<rparr>)"

text \<open>
  The loop of \<^verbatim>\<open>_phl_rx_handle_wp_report_usb\<close>. The HAL's answers are the size of each report and
  its contents; the loop ends at a size of zero or when the 16-bit rest is zero.
\<close>

fun handle_wp_loop :: "nat \<Rightarrow> (nat \<times> nat \<times> nat \<times> nat) list \<Rightarrow> rx_st \<Rightarrow> rx_st" where
  "handle_wp_loop pkt_len [] st = st"
| "handle_wp_loop pkt_len ((rsize, macid, ac_queue, txsts) # rs) st =
     (if pkt_len = 0 \<or> rsize = 0 then st
      else handle_wp_loop (to_u16 (int pkt_len - int rsize)) rs (phl_wp_report_record_sts_usb macid ac_queue txsts st))"

definition phl_rx_handle_wp_report_usb :: "(nat \<times> nat \<times> nat \<times> nat) list \<Rightarrow> ptr \<Rightarrow> rx_st \<Rightarrow> rx_st" where
  "phl_rx_handle_wp_report_usb reports p st = handle_wp_loop (rp_length (rx_pkts st p)) reports st"

section \<open>Parsing a buffer\<close>

record hal_rx =
  hr_type :: rtw_rx_type
  hr_mdata :: rtw_r_meta_data
  hr_phy_info :: rtw_phl_ppdu_phy_info
  hr_offset :: int
  hr_length :: nat
  hr_hdr_type :: nat
  hr_mfrag :: nat
  hr_frag_num :: nat

definition RTW_MAX_ETH_PKT_LEN :: nat where "RTW_MAX_ETH_PKT_LEN = 1536"

definition ALIGN8 :: "int \<Rightarrow> int" where
  "ALIGN8 len = (len + 8 - 1) AND NOT (8 - 1)"

definition rx_netbuf_len :: "hal_rx \<Rightarrow> nat" where
  "rx_netbuf_len h =
     (if hr_mfrag h = 1 \<and> hr_frag_num h = 0 then
        (if hr_length h < RTW_MAX_ETH_PKT_LEN then RTW_MAX_ETH_PKT_LEN else hr_length h)
      else hr_length h)"

text \<open>The packet after the HAL filled it, and after a network buffer was attached or not.\<close>

definition fill_pkt :: "hal_rx \<Rightarrow> rtw_phl_rx_pkt \<Rightarrow> rtw_phl_rx_pkt" where
  "fill_pkt h x = x\<lparr>rp_type := hr_type h, rp_mdata := hr_mdata h, rp_length := hr_length h,
                   rp_hdr_type := hr_hdr_type h, rp_phy_info := hr_phy_info h\<rparr>"

record rx_env =
  ev_hal :: "ptr \<Rightarrow> nat \<Rightarrow> hal_rx option"
  ev_netbuf :: "ptr \<Rightarrow> nat \<Rightarrow> bool"
  ev_reports :: "ptr \<Rightarrow> (nat \<times> nat \<times> nat \<times> nat) list"
  ev_time :: u32
  ev_ch :: nat

text \<open>
  The loop of \<^verbatim>\<open>phl_get_single_rx\<close>: the packets parsed so far, the 8-bit reference count, and
  whether every packet so far has its own network buffer (\<^verbatim>\<open>brel\<close>).
\<close>

function single_rx_loop ::
  "rx_env \<Rightarrow> ptr \<Rightarrow> nat \<Rightarrow> int \<Rightarrow> ptr list \<Rightarrow> nat \<Rightarrow> bool \<Rightarrow> rx_st \<Rightarrow> rx_st \<times> ptr list \<times> nat \<times> bool" where
  "single_rx_loop env b k transfer_len acc ref_cnt brel st =
     (case rtw_phl_query_phl_rx st of
        (st1, None) \<Rightarrow> (st1, acc, ref_cnt, brel)
      | (st1, Some p) \<Rightarrow>
          (case ev_hal env b k of
             None \<Rightarrow> (phl_release_phl_rx p st1, acc, ref_cnt, brel)
           | Some h \<Rightarrow>
               let balloc = (hr_type h = RTW_RX_TYPE_WIFI \<and> ev_netbuf env b k);
                   st2 = upd_pkt p (\<lambda>x. if balloc
                            then (fill_pkt h x)\<lparr>rp_os_priv := True, rp_os_netbuf_len := rx_netbuf_len h\<rparr>
                            else (fill_pkt h x)\<lparr>rp_rxbuf_ptr := Some b\<rparr>) st1;
                   len = transfer_len - ALIGN8 (hr_offset h + int (hr_length h));
                   ref_cnt' = (if balloc then ref_cnt else to_u8 (int ref_cnt + 1));
                   brel' = (brel \<and> balloc)
               in if len > 0 then single_rx_loop env b (k + 1) len (acc @ [p]) ref_cnt' brel' st2
                  else (st2, acc @ [p], ref_cnt', brel')))"
  by pat_completeness auto

lemma query_idle_less:
  "rtw_phl_query_phl_rx st = (st', Some p) \<Longrightarrow>
   length (pool_idle (rx_pkt_pool st')) < length (pool_idle (rx_pkt_pool st))"
  by (auto simp: rtw_phl_query_phl_rx_def Let_def split: list.splits)

termination single_rx_loop
  by (relation "measure (\<lambda>(env, b, k, l, acc, r, br, st). length (pool_idle (rx_pkt_pool st)))")
     (auto simp: upd_pkt_def dest: query_idle_less [OF sym])

declare single_rx_loop.simps [simp del]

text \<open>The packets of the buffer in order; none is NULL.\<close>

definition phl_get_single_rx :: "rx_env \<Rightarrow> ptr \<Rightarrow> rx_st \<Rightarrow> rx_st \<times> ptr list" where
  "phl_get_single_rx env b st =
     (case single_rx_loop env b 0 (int (rb_transfer_len (rx_bufs (rxbuf_pool st) b))) [] 0 True st of
        (st1, pkts, ref_cnt, brel) \<Rightarrow>
          if pkts \<noteq> [] then
            (if brel then (st1\<lparr>rxbuf_pool := fst (phl_release_rxbuf_usb (Some b) (rxbuf_pool st1))\<rparr>, pkts)
             else (st1\<lparr>rxbuf_pool := upd_rxbuf b (\<lambda>x. x\<lparr>rb_pktcnt := ref_cnt\<rparr>) (rxbuf_pool st1)\<rparr>, pkts))
          else (st1, []))"

section \<open>Dispatching\<close>

definition rx_process_one :: "rx_env \<Rightarrow> ptr \<Rightarrow> rx_st \<Rightarrow> rx_st option" where
  "rx_process_one env p st =
     (case rp_type (rx_pkts st p) of
        RTW_RX_TYPE_WIFI \<Rightarrow>
          (case phl_rx_proc_wait_phy_sts (ev_time env) p st of
             None \<Rightarrow> None
           | Some (st1, ret) \<Rightarrow> if \<not> ret then phl_rx_handle_normal (ev_time env) p st1 else Some st1)
      | RTW_RX_TYPE_PPDU_STATUS \<Rightarrow>
          (case phl_rx_proc_ppdu_sts (Some p) st of
             None \<Rightarrow> None
           | Some st1 \<Rightarrow>
               map_option (\<lambda>(st2, _). phl_recycle_rx_buf (Some p) st2)
                 (phl_rx_proc_phy_sts (ev_time env) (ev_ch env) (Some p) st1))
      | RTW_RX_TYPE_TX_WP_RELEASE_HOST \<Rightarrow>
          Some (phl_recycle_rx_buf (Some p) (phl_rx_handle_wp_report_usb (ev_reports env p) p st))
      | _ \<Rightarrow> Some (phl_recycle_rx_buf (Some p) st))"

fun phl_rx_process_usb :: "rx_env \<Rightarrow> ptr list \<Rightarrow> rx_st \<Rightarrow> rx_st option" where
  "phl_rx_process_usb env [] st = Some st"
| "phl_rx_process_usb env (p # ps) st =
     (case rx_process_one env p st of None \<Rightarrow> None | Some st1 \<Rightarrow> phl_rx_process_usb env ps st1)"

text \<open>
  \<^verbatim>\<open>phl_rx_usb\<close>; \<open>have_rx\<close> is whether the local \<^verbatim>\<open>phl_rx\<close> is set, which only the MPDU pipe
  assigns.
\<close>

partial_function (option) phl_rx_usb_loop :: "rx_env \<Rightarrow> bool \<Rightarrow> rx_st \<Rightarrow> rx_st option" where
  "phl_rx_usb_loop env have_rx st =
     (if cnt (pend_rxbuf_list (rxbuf_pool st)) \<noteq> 0 then
        (case pq_pop (pend_rxbuf_list (rxbuf_pool st)) First of
           (q, None) \<Rightarrow> Some st
         | (q, Some b) \<Rightarrow>
             (let st1 = st\<lparr>rxbuf_pool := (rxbuf_pool st)\<lparr>pend_rxbuf_list := q\<rparr>\<rparr> in
              if rb_pipe_idx (rx_bufs (rxbuf_pool st1) b) = WLAN_IN_MPDU_PIPE_IDX then
                (case phl_get_single_rx env b st1 of
                   (st2, pkts) \<Rightarrow>
                     if pkts = []
                     then phl_rx_usb_loop env False (st2\<lparr>rxbuf_pool := fst (phl_release_rxbuf_usb (Some b) (rxbuf_pool st2))\<rparr>)
                     else Option.bind (phl_rx_process_usb env pkts st2) (phl_rx_usb_loop env True))
              else if \<not> have_rx
              then phl_rx_usb_loop env False (st1\<lparr>rxbuf_pool := fst (phl_release_rxbuf_usb (Some b) (rxbuf_pool st1))\<rparr>)
              else phl_rx_usb_loop env have_rx st1))
      else Some st)"

definition phl_rx_usb :: "rx_env \<Rightarrow> rx_st \<Rightarrow> rx_st option" where
  "phl_rx_usb env st = phl_rx_usb_loop env False st"

text \<open>The receive handler; \<open>paused\<close> is the answer of \<^const>\<open>phl_datapath_chk_trx_pause\<close>.\<close>

definition phl_rx_callback_usb :: "rx_env \<Rightarrow> bool \<Rightarrow> rx_st \<Rightarrow> rx_st option" where
  "phl_rx_callback_usb env paused st =
     (if paused then Some st
      else if \<not> phl_check_recv_ring_resource (phl_rx_ring st) then Some st
      else phl_rx_usb env st)"

text \<open>A completed request of the USB core; a filled buffer schedules the handler.\<close>

definition rtw_phl_post_in_complete ::
  "bool \<Rightarrow> bool \<Rightarrow> bool \<Rightarrow> nat \<Rightarrow> ptr \<Rightarrow> rx_st \<Rightarrow> rx_st \<times> bool" where
  "rtw_phl_post_in_complete desc_size_ok send_ok ok inbuf_len b st =
     (case phl_pend_rxbuf_usb desc_size_ok send_ok ok inbuf_len b (rxbuf_pool st) of
        (ring, pstatus) \<Rightarrow> (st\<lparr>rxbuf_pool := ring\<rparr>, pstatus = RTW_PHL_STATUS_SUCCESS))"

section \<open>A buffer is parsed\<close>

text \<open>A buffer leaves the list of pending ones for the handler.\<close>

lemma pend_to_cur:
  assumes inv: "rx_inv held None st" and q: "queue (pend_rxbuf_list (rxbuf_pool st)) = b # bs"
    and st': "st' = st\<lparr>rxbuf_pool := (rxbuf_pool st)\<lparr>pend_rxbuf_list :=
        (pend_rxbuf_list (rxbuf_pool st))\<lparr>queue := bs, cnt := cnt (pend_rxbuf_list (rxbuf_pool st)) - 1\<rparr>\<rparr>\<rparr>"
  shows "rx_inv held (Some b) st' \<and> buf_users st' b = {}"
proof -
  have bu: "bufs_inv None st" using inv by (simp add: rx_inv_def)
  then have rb: "rxbuf_inv (mset_set (owned_bufs None st)) (rxbuf_pool st)" by (simp add: bufs_inv_def)
  have bq: "b \<in> set (queued_bufs (rxbuf_pool st))" using q by (simp add: queued_bufs_def)
  then have no: "b \<notin> owned_bufs None st" using rxbuf_facts(2) [OF rb, of b] by auto
  then have u: "buf_users st b = {}" by (auto simp: owned_bufs_def)
  have users: "buf_users st' = buf_users st" by (simp add: buf_users_def st' fun_eq_iff)
  have ow: "owned_bufs (Some b) st' = insert b (owned_bufs None st)" by (auto simp: owned_bufs_def users)
  have "rxbuf_inv (mset_set (owned_bufs (Some b) st')) (rxbuf_pool st')"
    unfolding ow using rb q no by (auto simp: rxbuf_inv_def queued_bufs_def st' pq_wf_def)
  moreover have "rb_pktcnt (rx_bufs (rxbuf_pool st) b) = 0" using rb bq by (simp add: rxbuf_inv_def)
  moreover have "rx_bufs (rxbuf_pool st') = rx_bufs (rxbuf_pool st)" by (simp add: st')
  ultimately have "bufs_inv (Some b) st'" using bu by (simp add: bufs_inv_def users)
  then show ?thesis using inv u users
    by (simp add: rx_inv_def pkts_inv_def placed_pkts_def tables_inv_def) (simp add: st')
qed

lemma fill_pkt_inv:
  assumes inv: "rx_inv (add_mset p held) (Some b) st" and none: "rp_rxbuf_ptr (rx_pkts st p) = None"
    and ptr: "rp_rxbuf_ptr (f (rx_pkts st p)) = (if own then Some b else None)"
  shows "rx_inv (add_mset p held) (Some b) (upd_pkt p f st) \<and>
     buf_users (upd_pkt p f st) b = (if own then insert p (buf_users st b) else buf_users st b)"
proof -
  let ?st = "upd_pkt p f st"
  have pk: "pkts_inv (add_mset p held) st" and bu: "bufs_inv (Some b) st" and tb: "tables_inv st"
    using inv by (simp_all add: rx_inv_def)
  have p: "p \<notin> set (pool_idle (rx_pkt_pool st))" "p < MAX_PHL_RING_RX_PKT_NUM"
    using pkts_facts(1,3) [OF pk, of p] by simp_all
  have u: "buf_users ?st x = (if own \<and> x = b then insert p (buf_users st b) else buf_users st x)" for x
    using ptr none p(2) by (auto simp: buf_users_def upd_pkt_def)
  then have ow: "owned_bufs (Some b) ?st = owned_bufs (Some b) st" by (auto simp: owned_bufs_def)
  have "pkts_inv (add_mset p held) ?st" using pk p(1) by (auto simp: pkts_inv_def placed_pkts_def upd_pkt_def)
  moreover have "rxbuf_pool ?st = rxbuf_pool st" by (simp add: upd_pkt_def)
  then have "bufs_inv (Some b) ?st" using bu by (auto simp: bufs_inv_def ow u)
  moreover have "tables_inv ?st"
    by (rule tables_inv_cong [OF tb]) (simp_all add: upd_pkt_def)
  ultimately show ?thesis using u by (simp add: rx_inv_def)
qed

text \<open>
  A packet without a network buffer of its own stays in the buffer and counts as a reference to it. The
  count has eight bits and nothing bounds the packets of a transfer, so the accounts are kept only as long as
  at most 255 packets of a transfer stay in its buffer.
\<close>

definition stays_in_buf :: "rx_env \<Rightarrow> ptr \<Rightarrow> nat \<Rightarrow> bool" where
  "stays_in_buf env b k = (case ev_hal env b k of None \<Rightarrow> False
     | Some h \<Rightarrow> \<not> (hr_type h = RTW_RX_TYPE_WIFI \<and> ev_netbuf env b k))"

definition kept_pkts :: "rx_env \<Rightarrow> ptr \<Rightarrow> nat \<Rightarrow> nat" where
  "kept_pkts env b n = length (filter (stays_in_buf env b) [0..<n])"

definition refs_fit :: "rx_env \<Rightarrow> bool" where
  "refs_fit env \<longleftrightarrow> (\<forall>b n. kept_pkts env b n \<le> 255)"

lemma kept_Suc: "kept_pkts env b (Suc k) = kept_pkts env b k + (if stays_in_buf env b k then 1 else 0)"
  by (simp add: kept_pkts_def)

definition parsed :: "rx_env \<Rightarrow> ptr multiset \<Rightarrow> ptr \<Rightarrow> nat \<Rightarrow> ptr list \<Rightarrow> nat \<Rightarrow> bool \<Rightarrow> rx_st \<Rightarrow> bool" where
  "parsed env held b k pkts ref_cnt brel st \<longleftrightarrow>
     rx_inv (mset pkts + held) (Some b) st \<and> buf_users st b \<subseteq> set pkts \<and> card (buf_users st b) = kept_pkts env b k \<and>
     ref_cnt = card (buf_users st b) \<and> (brel \<longleftrightarrow> buf_users st b = {})"

lemma query_keep:
  "rtw_phl_query_phl_rx st = (st', r) \<Longrightarrow> keep_all st st' \<and> rxbuf_pool st' = rxbuf_pool st \<and> buf_users st' = buf_users st"
  by (auto simp: rtw_phl_query_phl_rx_def Let_def keep_all_def keep_bufs_def buf_users_def split: list.splits)

lemma single_rx_step:
  assumes ok: "refs_fit env" and pre: "parsed env held b k acc ref_cnt brel st"
    and q: "rtw_phl_query_phl_rx st = (st1, Some p)" and h: "ev_hal env b k = Some h"
    and ba: "balloc = (hr_type h = RTW_RX_TYPE_WIFI \<and> ev_netbuf env b k)"
    and st2: "st2 = upd_pkt p (\<lambda>x. if balloc then (fill_pkt h x)\<lparr>rp_os_priv := True, rp_os_netbuf_len := n\<rparr>
                               else (fill_pkt h x)\<lparr>rp_rxbuf_ptr := Some b\<rparr>) st1"
  shows "parsed env held b (k + 1) (acc @ [p]) (if balloc then ref_cnt else to_u8 (int ref_cnt + 1)) (brel \<and> balloc) st2 \<and>
     keep_all st st2 \<and> rxbuf_pool st2 = rxbuf_pool st"
proof -
  have kept: "kept_pkts env b (k + 1) = kept_pkts env b k + (if balloc then 0 else 1)"
    using h ba by (simp add: kept_Suc stays_in_buf_def)
  have le: "kept_pkts env b (k + 1) \<le> 255" using ok by (simp add: refs_fit_def)
  have i1: "rx_inv (add_mset p (mset acc + held)) (Some b) st1" "rp_rxbuf_ptr (rx_pkts st1 p) = None"
    using query_phl_rx [OF _ q] pre by (auto simp: parsed_def)
  note ke = query_keep [OF q]
  have p: "p \<notin># mset acc"
    using pkts_facts(4) [of "add_mset p (mset acc + held)" st1 p] i1(1) by (auto simp: rx_inv_def not_in_iff)
  then have np: "p \<notin> buf_users st b" using pre by (auto simp: parsed_def)
  have "rx_inv (add_mset p (mset acc + held)) (Some b) st2 \<and>
      buf_users st2 b = (if \<not> balloc then insert p (buf_users st1 b) else buf_users st1 b)"
    unfolding st2 by (rule fill_pkt_inv [OF i1]) (use i1(2) in \<open>auto simp: fill_pkt_def\<close>)
  moreover have "keep_all st1 st2" "rxbuf_pool st2 = rxbuf_pool st1" by (simp_all add: st2 upd_pkt_def keep_all_def keep_bufs_def)
  moreover have "to_u8 (int ref_cnt + 1) = ref_cnt + 1" if "\<not> balloc"
    using pre kept le that by (simp add: parsed_def to_u8_def)
  ultimately show ?thesis using pre kept np ke keep_trans(2) [of st st1 st2] by (auto simp: parsed_def)
qed

lemma single_rx_loop:
  "refs_fit env \<Longrightarrow> parsed env held b k acc ref_cnt brel st \<Longrightarrow>
   single_rx_loop env b k len acc ref_cnt brel st = (st', pkts, ref_cnt', brel') \<Longrightarrow>
   (\<exists>k'. parsed env held b k' pkts ref_cnt' brel' st') \<and> keep_all st st' \<and> rxbuf_pool st' = rxbuf_pool st"
proof (induction env b k len acc ref_cnt brel st rule: single_rx_loop.induct)
  case (1 env b k len acc ref_cnt brel st)
  obtain st1 o1 where q: "rtw_phl_query_phl_rx st = (st1, o1)" by fastforce
  note ke = query_keep [OF q]
  consider (none) "o1 = None" | (refused) p where "o1 = Some p" "ev_hal env b k = None"
    | (packet) p h where "o1 = Some p" "ev_hal env b k = Some h" by fastforce
  then show ?case
  proof cases
    case none
    then have "st1 = st" using q by (auto simp: rtw_phl_query_phl_rx_def Let_def split: list.splits)
    then show ?thesis using "1.prems"(2,3) q none by (subst (asm) single_rx_loop.simps) auto
  next
    case (refused p)
    have "rx_inv (add_mset p (mset acc + held)) (Some b) st1" "rp_rxbuf_ptr (rx_pkts st1 p) = None"
      using query_phl_rx [OF _ q [unfolded refused(1)]] "1.prems"(2) by (auto simp: parsed_def)
    note r = release_pkt [OF this]
    have u: "buf_users (phl_release_phl_rx p st1) = buf_users st1"
      using query_phl_rx [OF _ q [unfolded refused(1)]] "1.prems"(2)
      by (auto simp: buf_users_def phl_release_phl_rx_def upd_pkt_def Let_def fun_eq_iff parsed_def)
    have "st' = phl_release_phl_rx p st1" "pkts = acc" "ref_cnt' = ref_cnt" "brel' = brel"
      using "1.prems"(3) q refused by (subst (asm) single_rx_loop.simps, simp)+
    moreover have "rxbuf_pool (phl_release_phl_rx p st1) = rxbuf_pool st1"
      by (simp add: phl_release_phl_rx_def upd_pkt_def Let_def)
    ultimately show ?thesis using "1.prems"(2) r ke u keep_trans(2) [OF _ keep_release_pkt, of st st1 p]
      by (auto simp: parsed_def)
  next
    case (packet p h)
    define balloc where "balloc = (hr_type h = RTW_RX_TYPE_WIFI \<and> ev_netbuf env b k)"
    define st2 where "st2 = upd_pkt p (\<lambda>x. if balloc
        then (fill_pkt h x)\<lparr>rp_os_priv := True, rp_os_netbuf_len := rx_netbuf_len h\<rparr>
        else (fill_pkt h x)\<lparr>rp_rxbuf_ptr := Some b\<rparr>) st1"
    define l ref2 brel2 where "l = len - ALIGN8 (hr_offset h + int (hr_length h))"
      and "ref2 = (if balloc then ref_cnt else to_u8 (int ref_cnt + 1))" and "brel2 = (brel \<and> balloc)"
    have step: "parsed env held b (k + 1) (acc @ [p]) ref2 brel2 st2 \<and> keep_all st st2 \<and> rxbuf_pool st2 = rxbuf_pool st"
      unfolding ref2_def brel2_def
      by (rule single_rx_step [OF "1.prems"(1,2) q [unfolded packet(1)] packet(2) balloc_def]) (simp add: st2_def)
    have e: "single_rx_loop env b k len acc ref_cnt brel st =
        (if 0 < l then single_rx_loop env b (k + 1) l (acc @ [p]) ref2 brel2 st2 else (st2, acc @ [p], ref2, brel2))"
      using q packet by (subst single_rx_loop.simps) (simp add: Let_def balloc_def st2_def l_def ref2_def brel2_def)
    show ?thesis
    proof (cases "0 < l")
      case True
      have "(\<exists>k'. parsed env held b k' pkts ref_cnt' brel' st') \<and> keep_all st2 st' \<and> rxbuf_pool st' = rxbuf_pool st2"
        using "1.IH" [OF q [unfolded packet(1), symmetric] refl packet(2) balloc_def st2_def l_def ref2_def brel2_def True]
          "1.prems"(1,3) step e True by simp
      then show ?thesis using step keep_trans(2) [of st st2 st'] by auto
    next
      case False
      then show ?thesis using step e "1.prems"(3) by auto
    qed
  qed
qed

text \<open>After parsing the buffer belongs to its packets, or is idle, or has no packets.\<close>

lemma release_cur:
  assumes inv: "rx_inv held (Some b) st" and u: "buf_users st b = {}"
  shows "rx_inv held None (st\<lparr>rxbuf_pool := fst (phl_release_rxbuf_usb (Some b) (rxbuf_pool st))\<rparr>)"
proof -
  obtain ring status where e: "phl_release_rxbuf_usb (Some b) (rxbuf_pool st) = (ring, status)" by fastforce
  let ?st = "st\<lparr>rxbuf_pool := ring\<rparr>"
  have bu: "bufs_inv (Some b) st" using inv by (simp add: rx_inv_def)
  have no: "b \<notin> owned_bufs None st" and ow: "owned_bufs (Some b) st = insert b (owned_bufs None st)"
    using u by (auto simp: owned_bufs_def)
  have "rxbuf_inv (add_mset b (mset_set (owned_bufs None st))) (rxbuf_pool st)"
    using bu no by (simp add: bufs_inv_def ow)
  from release_last [OF this _ e] bu
  have r: "rxbuf_inv (mset_set (owned_bufs None st)) ring" "\<forall>x. x \<noteq> b \<longrightarrow> rx_bufs ring x = rx_bufs (rxbuf_pool st) x"
    by (simp_all add: bufs_inv_def)
  have users: "buf_users ?st = buf_users st" by (simp add: buf_users_def fun_eq_iff)
  then have "owned_bufs None ?st = owned_bufs None st" by (simp add: owned_bufs_def)
  moreover have "rb_pktcnt (rx_bufs ring x) = card (buf_users st x)" if "buf_users st x \<noteq> {}" for x
    using r(2) bu u that by (cases "x = b") (auto simp: bufs_inv_def)
  ultimately have "bufs_inv None ?st" using r(1) by (simp add: bufs_inv_def users)
  then show ?thesis using inv e
    by (simp add: rx_inv_def pkts_inv_def placed_pkts_def tables_inv_def)
qed

lemma keep_release_rxbuf: "keep_all st (st\<lparr>rxbuf_pool := fst (phl_release_rxbuf_usb r (rxbuf_pool st))\<rparr>)"
  by (simp add: keep_all_def keep_bufs_def release_rxbuf_keep)

lemma count_cur:
  assumes inv: "rx_inv held (Some b) st" and u: "buf_users st b \<noteq> {}"
  shows "rx_inv held None (st\<lparr>rxbuf_pool := upd_rxbuf b (\<lambda>x. x\<lparr>rb_pktcnt := card (buf_users st b)\<rparr>) (rxbuf_pool st)\<rparr>)"
    (is "rx_inv held None ?st")
proof -
  have bu: "bufs_inv (Some b) st" using inv by (simp add: rx_inv_def)
  have users: "buf_users ?st = buf_users st" by (simp add: buf_users_def fun_eq_iff)
  have ow: "owned_bufs None ?st = owned_bufs (Some b) st" using u by (auto simp: owned_bufs_def users)
  have rb: "rxbuf_inv (mset_set (owned_bufs (Some b) st)) (rxbuf_pool st)" using bu by (simp add: bufs_inv_def)
  have "b \<in># mset_set (owned_bufs (Some b) st)" using finite_owned [of "Some b" st] by (simp add: owned_bufs_def)
  then have "b \<notin> set (queued_bufs (rxbuf_pool st))" by (rule rxbuf_facts(2) [OF rb])
  then have "rxbuf_inv (mset_set (owned_bufs (Some b) st)) (rxbuf_pool ?st)"
    using rb by (auto simp: rxbuf_inv_def upd_rxbuf_def queued_bufs_def)
  then have "bufs_inv None ?st" using bu unfolding bufs_inv_def ow users by (auto simp: upd_rxbuf_def)
  then show ?thesis using inv
    by (simp add: rx_inv_def pkts_inv_def placed_pkts_def tables_inv_def)
qed

lemma get_single_rx:
  assumes ok: "refs_fit env" and inv: "rx_inv held (Some b) st" and u: "buf_users st b = {}"
    and e: "phl_get_single_rx env b st = (st', pkts)"
  shows "keep_all st st' \<and> (if pkts = [] then rx_inv held (Some b) st' \<and> buf_users st' b = {}
     else rx_inv (mset pkts + held) None st')"
proof -
  let ?l = "int (rb_transfer_len (rx_bufs (rxbuf_pool st) b))"
  obtain st1 ps r br where s: "single_rx_loop env b 0 ?l [] 0 True st = (st1, ps, r, br)" by (metis prod_cases4)
  have "parsed env held b 0 [] 0 True st" using inv u by (simp add: parsed_def kept_pkts_def)
  from single_rx_loop [OF ok this s] obtain k' where p: "parsed env held b k' ps r br st1" and k: "keep_all st st1" by blast
  have pkts: "pkts = ps" using e s by (auto simp: phl_get_single_rx_def split: if_splits)
  show ?thesis
  proof (cases "ps = []")
    case True
    then show ?thesis using p k e s by (auto simp: parsed_def phl_get_single_rx_def)
  next
    case False
    have i: "rx_inv (mset ps + held) (Some b) st1" using p by (simp add: parsed_def)
    show ?thesis
    proof (cases br)
      case True
      then have "st' = st1\<lparr>rxbuf_pool := fst (phl_release_rxbuf_usb (Some b) (rxbuf_pool st1))\<rparr>"
        using e s False by (simp add: phl_get_single_rx_def)
      then show ?thesis using release_cur [OF i] p True False pkts keep_trans(2) [OF k keep_release_rxbuf]
        by (simp add: parsed_def)
    next
      case nbr: False
      then have st': "st' = st1\<lparr>rxbuf_pool := upd_rxbuf b (\<lambda>x. x\<lparr>rb_pktcnt := card (buf_users st1 b)\<rparr>) (rxbuf_pool st1)\<rparr>"
        using e s False p by (simp add: phl_get_single_rx_def parsed_def)
      have "keep_all st1 st'" by (simp add: st' keep_all_def keep_bufs_def upd_rxbuf_def)
      then show ?thesis using count_cur [OF i] p nbr False pkts keep_trans(2) [OF k] st' by (simp add: parsed_def)
    qed
  qed
qed

text \<open>
  What the bound is for: the count is the number of packets that stay in the buffer modulo 256. With exactly 256
  of them it is 0, and the buffer is put on the idle list once for every packet that is recycled.
\<close>

lemma single_rx_count:
  "single_rx_loop env b k len acc ref_cnt brel st = (st', pkts, ref_cnt', brel') \<Longrightarrow> ref_cnt = kept_pkts env b k mod 256 \<Longrightarrow>
   \<exists>k'. k + length pkts = k' + length acc \<and> ref_cnt' = kept_pkts env b k' mod 256 \<and> kept_pkts env b k \<le> kept_pkts env b k' \<and>
     (brel' \<longleftrightarrow> brel \<and> kept_pkts env b k' = kept_pkts env b k)"
proof (induction env b k len acc ref_cnt brel st rule: single_rx_loop.induct)
  case (1 env b k len acc ref_cnt brel st)
  obtain st1 o1 where q: "rtw_phl_query_phl_rx st = (st1, o1)" by fastforce
  consider (stop) "o1 = None \<or> ev_hal env b k = None" | (packet) p h where "o1 = Some p" "ev_hal env b k = Some h" by fastforce
  then show ?case
  proof cases
    case stop
    then have "pkts = acc \<and> ref_cnt' = ref_cnt \<and> brel' = brel" using "1.prems"(1) q
      by (subst (asm) single_rx_loop.simps) (auto split: option.splits)
    then show ?thesis using "1.prems"(2) by auto
  next
    case (packet p h)
    define balloc where "balloc = (hr_type h = RTW_RX_TYPE_WIFI \<and> ev_netbuf env b k)"
    define st2 where "st2 = upd_pkt p (\<lambda>x. if balloc
        then (fill_pkt h x)\<lparr>rp_os_priv := True, rp_os_netbuf_len := rx_netbuf_len h\<rparr>
        else (fill_pkt h x)\<lparr>rp_rxbuf_ptr := Some b\<rparr>) st1"
    define l ref2 brel2 where "l = len - ALIGN8 (hr_offset h + int (hr_length h))"
      and "ref2 = (if balloc then ref_cnt else to_u8 (int ref_cnt + 1))" and "brel2 = (brel \<and> balloc)"
    have kept: "kept_pkts env b (k + 1) = kept_pkts env b k + (if balloc then 0 else 1)"
      using packet(2) by (simp add: kept_Suc stays_in_buf_def balloc_def)
    have r2: "ref2 = kept_pkts env b (k + 1) mod 256" "brel2 \<longleftrightarrow> brel \<and> kept_pkts env b (k + 1) = kept_pkts env b k"
      using "1.prems"(2) kept by (auto simp: ref2_def brel2_def to_u8_def nat_mod_distrib nat_add_distrib mod_Suc_eq)
    have e: "single_rx_loop env b k len acc ref_cnt brel st =
        (if 0 < l then single_rx_loop env b (k + 1) l (acc @ [p]) ref2 brel2 st2 else (st2, acc @ [p], ref2, brel2))"
      using q packet by (subst single_rx_loop.simps) (simp add: Let_def balloc_def st2_def l_def ref2_def brel2_def)
    show ?thesis
    proof (cases "0 < l")
      case True
      from "1.IH" [OF q [unfolded packet(1), symmetric] refl packet(2) balloc_def st2_def l_def ref2_def brel2_def True]
        "1.prems"(1) e True r2(1)
      obtain k' where "k + 1 + length pkts = k' + length (acc @ [p])" "ref_cnt' = kept_pkts env b k' mod 256"
        "kept_pkts env b (k + 1) \<le> kept_pkts env b k'" "brel' \<longleftrightarrow> brel2 \<and> kept_pkts env b k' = kept_pkts env b (k + 1)" by auto
      then show ?thesis using kept r2(2) by (intro exI [of _ k']) (auto split: if_splits)
    next
      case False
      then show ?thesis using e "1.prems"(1) kept r2 by (intro exI [of _ "k + 1"]) auto
    qed
  qed
qed

lemma ref_cnt_wraps:
  assumes "phl_get_single_rx env b st = (st', pkts)" and "length pkts = 256" and "\<And>k. k < 256 \<Longrightarrow> stays_in_buf env b k"
    and "release = (\<lambda>ring. fst (phl_release_rxbuf_usb (Some b) ring))"
  shows "rb_pktcnt (rx_bufs (rxbuf_pool st') b) = 0 \<and>
     queue (idle_rxbuf_list (release (release (rxbuf_pool st')))) = queue (idle_rxbuf_list (rxbuf_pool st')) @ [b, b]"
proof -
  obtain st1 ps r br where s: "single_rx_loop env b 0 (int (rb_transfer_len (rx_bufs (rxbuf_pool st) b))) [] 0 True st = (st1, ps, r, br)"
    by (metis prod_cases4)
  have ps: "ps = pkts" using assms(1) s by (auto simp: phl_get_single_rx_def split: if_splits)
  have "kept_pkts env b 256 = 256" "pkts \<noteq> []" using assms(2,3) by (auto simp: kept_pkts_def)
  then have "r = 0 \<and> \<not> br" using single_rx_count [OF s] assms(2) ps by (auto simp: kept_pkts_def)
  then have "st' = st1\<lparr>rxbuf_pool := upd_rxbuf b (\<lambda>x. x\<lparr>rb_pktcnt := 0\<rparr>) (rxbuf_pool st1)\<rparr>"
    using assms(1) s ps \<open>pkts \<noteq> []\<close> by (simp add: phl_get_single_rx_def)
  then have "rb_pktcnt (rx_bufs (rxbuf_pool st') b) = 0" by (simp add: upd_rxbuf_def)
  then show ?thesis by (simp add: assms(4) phl_release_rxbuf_usb_def pq_push_def Let_def)
qed

section \<open>Packets are dispatched\<close>

lemma wp_record_same: "rx_same st (phl_wp_report_record_sts_usb m ac ts st)"
  by (simp add: phl_wp_report_record_sts_usb_def Let_def rx_same_def split: option.splits prod.splits)

lemma wp_report_same: "rx_same st (phl_rx_handle_wp_report_usb rs p st)"
proof -
  have "rx_same st (handle_wp_loop n rs st)" for n
    by (induction n rs st rule: handle_wp_loop.induct) (auto intro: rx_same_trans wp_record_same)
  then show ?thesis by (simp add: phl_rx_handle_wp_report_usb_def)
qed

lemma process_one:
  assumes inv: "rx_inv (add_mset p held) None st"
  shows "\<exists>st'. rx_process_one env p st = Some st' \<and> keep_bufs st st' \<and> rx_inv held None st'"
proof -
  have rec: "rx_inv held None (phl_recycle_rx_buf (Some p) s) \<and> keep_bufs st (phl_recycle_rx_buf (Some p) s)"
    if "rx_inv (add_mset p held) None s" "keep_bufs st s" for s
    using recycle_buf [OF that(1)] keep_trans(1) [OF that(2)] keep_recycle_buf by (auto simp: keep_all_def)
  show ?thesis
  proof (cases "rp_type (rx_pkts st p)")
    case RTW_RX_TYPE_WIFI
    obtain st1 ret where w: "phl_rx_proc_wait_phy_sts (ev_time env) p st = Some (st1, ret)" "keep_bufs st st1"
      "rx_inv (if ret then held else add_mset p held) None st1" using proc_wait [OF inv] by blast
    show ?thesis
    proof (cases ret)
      case False
      then obtain st2 where n: "phl_rx_handle_normal (ev_time env) p st1 = Some st2" "rx_inv held None st2"
        using handle_normal [of p held st1] w(3) by auto
      then show ?thesis using RTW_RX_TYPE_WIFI w False keep_trans(1) [OF w(2)] keep_normal [OF n(1)]
        by (simp add: rx_process_one_def keep_all_def)
    qed (use RTW_RX_TYPE_WIFI w in \<open>simp add: rx_process_one_def\<close>)
  next
    case RTW_RX_TYPE_PPDU_STATUS
    obtain st1 where s1: "phl_rx_proc_ppdu_sts (Some p) st = Some st1" "keep_bufs st st1" "rx_inv (add_mset p held) None st1"
      using proc_ppdu_sts [OF inv] by blast
    obtain st2 status where s2: "phl_rx_proc_phy_sts (ev_time env) (ev_ch env) (Some p) st1 = Some (st2, status)"
      "keep_bufs st1 st2" "rx_inv (add_mset p held) None st2" using proc_phy_sts [OF s1(3)] by blast
    show ?thesis using RTW_RX_TYPE_PPDU_STATUS s1(1) s2(1) rec [OF s2(3) keep_trans(1) [OF s1(2) s2(2)]]
      by (simp add: rx_process_one_def)
  next
    case RTW_RX_TYPE_TX_WP_RELEASE_HOST
    then show ?thesis using rec [of "phl_rx_handle_wp_report_usb (ev_reports env p) p st"] inv
        rx_same_inv [OF wp_report_same] keep_same [OF wp_report_same] by (simp add: rx_process_one_def keep_all_def)
  qed (use rec [OF inv] in \<open>simp_all add: rx_process_one_def\<close>)
qed

lemma process_usb:
  "rx_inv (mset ps + held) None st \<Longrightarrow>
   \<exists>st'. phl_rx_process_usb env ps st = Some st' \<and> keep_bufs st st' \<and> rx_inv held None st'"
proof (induction ps arbitrary: st)
  case (Cons p ps)
  obtain st1 where s1: "rx_process_one env p st = Some st1" "keep_bufs st st1" "rx_inv (mset ps + held) None st1"
    using process_one [of p "mset ps + held" st env] Cons.prems by auto
  from Cons.IH [OF s1(3)] obtain st' where "phl_rx_process_usb env ps st1 = Some st'" "keep_bufs st1 st'" "rx_inv held None st'"
    by blast
  then show ?case using s1 keep_trans(1) [of st st1 st'] by simp
qed simp

section \<open>The handler\<close>

text \<open>Every buffer out for reception was posted on the MPDU pipe.\<close>

definition mpdu_pipe :: "rx_st \<Rightarrow> bool" where
  "mpdu_pipe st \<longleftrightarrow>
     (\<forall>b\<in>set (queue (busy_rxbuf_list (rxbuf_pool st))) \<union> set (queue (pend_rxbuf_list (rxbuf_pool st))).
        rb_pipe_idx (rx_bufs (rxbuf_pool st) b) = WLAN_IN_MPDU_PIPE_IDX)"

lemma mpdu_pipe_keep: "keep_bufs st st' \<Longrightarrow> mpdu_pipe st' = mpdu_pipe st"
  by (simp add: keep_bufs_def mpdu_pipe_def)

text \<open>
  The handler returns, with every pending buffer dealt with and every packet and buffer accounted for.
\<close>

lemma rx_usb_loop:
  assumes ok: "refs_fit env"
  shows "rx_inv held None st \<Longrightarrow> mpdu_pipe st \<Longrightarrow>
   \<exists>st'. phl_rx_usb_loop env have_rx st = Some st' \<and> rx_inv held None st' \<and> mpdu_pipe st' \<and>
     queue (pend_rxbuf_list (rxbuf_pool st')) = [] \<and>
     busy_rxbuf_list (rxbuf_pool st') = busy_rxbuf_list (rxbuf_pool st)"
proof (induction "queue (pend_rxbuf_list (rxbuf_pool st))" arbitrary: st have_rx)
  case Nil
  have "pq_wf (pend_rxbuf_list (rxbuf_pool st))" using Nil.prems(1) by (simp add: rx_inv_def bufs_inv_def rxbuf_inv_def)
  then have "cnt (pend_rxbuf_list (rxbuf_pool st)) = 0" using Nil.hyps by (simp add: pq_wf_def)
  then show ?case using Nil by (subst phl_rx_usb_loop.simps) simp
next
  case (Cons b bs)
  let ?l = "pend_rxbuf_list (rxbuf_pool st)"
  define q where "q = ?l\<lparr>queue := bs, cnt := cnt ?l - 1\<rparr>"
  define st1 where "st1 = st\<lparr>rxbuf_pool := (rxbuf_pool st)\<lparr>pend_rxbuf_list := q\<rparr>\<rparr>"
  have wf: "pq_wf ?l" using Cons.prems(1) by (simp add: rx_inv_def bufs_inv_def rxbuf_inv_def)
  have l: "queue ?l = b # bs" using Cons.hyps(2) by simp
  have pop: "pq_pop ?l First = (q, Some b)" "cnt ?l \<noteq> 0" using pq_pop_wf_eq [OF wf] wf l by (simp_all add: q_def pq_wf_def)
  have i1: "rx_inv held (Some b) st1" "buf_users st1 b = {}"
    using pend_to_cur [OF Cons.prems(1) l] by (simp_all add: st1_def q_def)
  have pipe: "rb_pipe_idx (rx_bufs (rxbuf_pool st1) b) = WLAN_IN_MPDU_PIPE_IDX" "mpdu_pipe st1"
    using Cons.prems(2) l by (auto simp: mpdu_pipe_def st1_def q_def)
  have go: ?case if "keep_bufs st1 st2" "rx_inv held None st2"
    "phl_rx_usb_loop env have_rx st = phl_rx_usb_loop env h st2" for st2 h
    using Cons.hyps(1) [of st2 h] that pipe(2) mpdu_pipe_keep [OF that(1)]
    by (simp add: keep_bufs_def st1_def q_def)
  obtain st2 pkts where g: "phl_get_single_rx env b st1 = (st2, pkts)" by fastforce
  note s = get_single_rx [OF ok i1 g]
  show ?case
  proof (cases "pkts = []")
    case True
    let ?st3 = "st2\<lparr>rxbuf_pool := fst (phl_release_rxbuf_usb (Some b) (rxbuf_pool st2))\<rparr>"
    show ?thesis
    proof (rule go)
      show "keep_bufs st1 ?st3" using s keep_trans(2) [OF _ keep_release_rxbuf] by (auto simp: keep_all_def)
      show "rx_inv held None ?st3" using release_cur s True by simp
      show "phl_rx_usb_loop env have_rx st = phl_rx_usb_loop env False ?st3"
        using pop pipe g True by (subst phl_rx_usb_loop.simps) (simp add: st1_def Let_def)
    qed
  next
    case False
    obtain st3 where p: "phl_rx_process_usb env pkts st2 = Some st3" "keep_bufs st2 st3" "rx_inv held None st3"
      using process_usb [of pkts held st2 env] s False by auto
    show ?thesis
    proof (rule go)
      show "keep_bufs st1 st3" using s p(2) keep_trans(1) [of st1 st2 st3] by (simp add: keep_all_def)
      show "rx_inv held None st3" by (rule p(3))
      show "phl_rx_usb_loop env have_rx st = phl_rx_usb_loop env True st3"
        using pop pipe g False p(1) by (subst phl_rx_usb_loop.simps) (simp add: st1_def Let_def)
    qed
  qed
qed

end
