(* ===== verification/Phl_Rx_System.thy ===== *)
theory Phl_Rx_System
  imports Phl_Usb_Rx
begin

text \<open>
  The receive side as a whole: the operations of the USB core (a completed request), the deferred in
  token, the receive handler, the reorder timers, the block-ack frames and sessions, the HAL's PPDU
  status and the core that takes packets from the ring and returns them, in any order. The state is
  that of the receive path and the packets the core holds.

  Each operation is one step: the code runs them under the locks of the lists they change. The
  assumptions on the environment are in the rules: the USB core completes requests it has, the core
  returns packets it has, and stations are objects of the station array. A block-ack request may name any sequence
  number and a session any 16-bit window; a request whose TID is 8 or more is an access outside the session table and
  no step. The one restriction of the transfers is \<^const>\<open>refs_fit\<close>: at most 255 packets of a transfer stay in its
  buffer, because the 8-bit reference count of the buffer wraps at 256 (\<open>ref_cnt_wraps\<close> of \<open>Phl_Usb_Rx\<close>); the code
  does not ensure it.
\<close>

section \<open>Steps\<close>

text \<open>The HAL writes the status entries; the waiting frames belong to PHL.\<close>

definition hal_fills_psts :: "rtw_phl_ppdu_sts_info \<Rightarrow> rtw_phl_ppdu_sts_info \<Rightarrow> bool" where
  "hal_fills_psts ps ps' \<longleftrightarrow> cur_ppdu_cnt ps' = cur_ppdu_cnt ps \<and>
     (\<forall>band i. se_frames (sts_ent ps' band i) = se_frames (sts_ent ps band i))"

inductive rx_step :: "rx_st \<times> ptr list \<Rightarrow> rx_st \<times> ptr list \<Rightarrow> bool" where
  complete: "b \<in> set (queue (busy_rxbuf_list (rxbuf_pool st))) \<Longrightarrow>
    rtw_phl_post_in_complete True send_ok ok inbuf_len b st = (st', sched) \<Longrightarrow> rx_step (st, core) (st', core)"
| in_token: "phl_rx_deferred_in_token (\<lambda>_. True) send_oks max_bulkin_num in_token_num (rxbuf_pool st) = (ring, indicate) \<Longrightarrow>
    rx_step (st, core) (st\<lparr>rxbuf_pool := ring\<rparr>, core)"
| handler: "refs_fit env \<Longrightarrow> phl_rx_callback_usb env paused st = Some st' \<Longrightarrow> rx_step (st, core) (st', core)"
| reorder_timer: "s < PHL_MAX_STA_NUM \<Longrightarrow> rx_reorder_timer_expired t s st = Some st' \<Longrightarrow> rx_step (st, core) (st', core)"
| bar: "s < PHL_MAX_STA_NUM \<Longrightarrow> rtw_phl_rx_bar s tid seq st = Some st' \<Longrightarrow> rx_step (st, core) (st', core)"
| ba_start: "s < PHL_MAX_STA_NUM \<Longrightarrow> sz < 65536 \<Longrightarrow>
    start_rx_ba_session al s seq ba_policy tid sz st = (st', status) \<Longrightarrow> rx_step (st, core) (st', core)"
| ba_stop: "s < PHL_MAX_STA_NUM \<Longrightarrow> rx_step (st, core) (stop_rx_ba_session (Some s) tid st, core)"
| psts: "hal_fills_psts (ppdu_sts_info st) ps \<Longrightarrow> rx_step (st, core) (st\<lparr>ppdu_sts_info := ps\<rparr>, core)"
| query: "rtw_phl_query_rx_pkt t st = (st', p) \<Longrightarrow>
    rx_step (st, core) (st', (case p of None \<Rightarrow> core | Some x \<Rightarrow> core @ [x]))"
| return: "p \<in> set core \<Longrightarrow> rtw_phl_return_rxbuf (Some p) st = (st', status) \<Longrightarrow>
    rx_step (st, core) (st', remove1 p core)"

inductive_cases rx_stepE: "rx_step (st, core) (st', core')"

definition rx_sys_inv :: "rx_st \<times> ptr list \<Rightarrow> bool" where
  "rx_sys_inv = (\<lambda>(st, core). rx_inv (mset core) None st \<and> mpdu_pipe st)"

section \<open>Every step keeps the invariant\<close>

lemma ring_change:
  assumes inv: "rx_inv held None st"
    and r: "\<And>h. rxbuf_inv h (rxbuf_pool st) \<Longrightarrow> rxbuf_inv h ring"
      "\<And>x. rb_pktcnt (rx_bufs ring x) = rb_pktcnt (rx_bufs (rxbuf_pool st) x)"
  shows "rx_inv held None (st\<lparr>rxbuf_pool := ring\<rparr>)"
proof -
  let ?st = "st\<lparr>rxbuf_pool := ring\<rparr>"
  have u: "buf_users ?st = buf_users st" by (simp add: buf_users_def fun_eq_iff)
  then have "owned_bufs None ?st = owned_bufs None st" by (simp add: owned_bufs_def)
  then show ?thesis using inv r
    by (simp add: rx_inv_def pkts_inv_def placed_pkts_def tables_inv_def bufs_inv_def u)
qed

definition ring_pipe :: "rtw_rx_buf_ring \<Rightarrow> bool" where
  "ring_pipe ring \<longleftrightarrow>
     (\<forall>b\<in>set (queue (busy_rxbuf_list ring)) \<union> set (queue (pend_rxbuf_list ring)).
        rb_pipe_idx (rx_bufs ring b) = WLAN_IN_MPDU_PIPE_IDX)"

lemma mpdu_pipe_ring: "mpdu_pipe st = ring_pipe (rxbuf_pool st)"
  by (simp add: mpdu_pipe_def ring_pipe_def)

lemma release_ring_pipe: "ring_pipe (fst (phl_release_rxbuf_usb r ring)) = ring_pipe ring"
  by (simp add: ring_pipe_def release_rxbuf_keep)

lemma del_ring_pipe:
  "ring_pipe ring \<Longrightarrow> ring_pipe (ring\<lparr>busy_rxbuf_list := pq_del_node (busy_rxbuf_list ring) (Some b)\<rparr>)"
  using set_remove1_subset [of b "queue (busy_rxbuf_list ring)"] by (auto simp: ring_pipe_def pq_del_node_def)

lemma in_token_pipe:
  assumes "ring_pipe ring" and "phl_in_token_usb d s WLAN_IN_MPDU_PIPE_IDX ring = (ring', status)"
  shows "ring_pipe ring'"
proof (cases "snd (pq_pop (idle_rxbuf_list ring) First)")
  case None
  then show ?thesis using assms by (auto simp: phl_in_token_usb_def split: prod.splits)
next
  case (Some b)
  let ?r1 = "ring\<lparr>idle_rxbuf_list := fst (pq_pop (idle_rxbuf_list ring) First)\<rparr>"
  let ?r3 = "(upd_rxbuf b (\<lambda>x. x\<lparr>rb_pipe_idx := WLAN_IN_MPDU_PIPE_IDX\<rparr>) ?r1)
      \<lparr>busy_rxbuf_list := fst (pq_push (busy_rxbuf_list ring) b Tail)\<rparr>"
  let ?r4 = "?r3\<lparr>busy_rxbuf_list := pq_del_node (busy_rxbuf_list ?r3) (Some b)\<rparr>"
  have "ring_pipe ?r1" using assms(1) by (simp add: ring_pipe_def)
  moreover have p3: "ring_pipe ?r3" using assms(1) by (auto simp: ring_pipe_def upd_rxbuf_def pq_push_def)
  moreover have "ring_pipe ?r4" by (rule del_ring_pipe [OF p3])
  moreover have "ring' = ?r1 \<or> ring' = ?r3 \<or> ring' = fst (phl_release_rxbuf_usb (Some b) ?r4)"
    using assms(2) Some by (auto simp: phl_in_token_usb_def upd_rxbuf_def Let_def split: prod.splits if_splits)
  ultimately show ?thesis using release_ring_pipe by auto
qed

lemma in_token_loop_pipe:
  "ring_pipe ring \<Longrightarrow> p = WLAN_IN_MPDU_PIPE_IDX \<Longrightarrow> in_token_loop d s n p k st ring = (ring', st') \<Longrightarrow> ring_pipe ring'"
proof (induction d s n p k st ring rule: in_token_loop.induct)
  case (1 d s n p k st ring)
  obtain r1 st1 where t: "phl_in_token_usb (d k) (s k) p ring = (r1, st1)" by fastforce
  have i: "ring_pipe r1" using in_token_pipe "1.prems"(1,2) t by simp
  show ?case
  proof (cases "cnt (busy_rxbuf_list ring) < int n \<and> st1 = RTW_PHL_STATUS_SUCCESS")
    case True
    then have "in_token_loop d s n p (k + 1) st1 r1 = (ring', st')"
      using "1.prems"(3) t by (subst (asm) in_token_loop.simps) simp
    then show ?thesis using "1.IH" [OF _ t [symmetric]] True i "1.prems"(2) by simp
  next
    case False
    then have "ring' = ring \<or> ring' = r1"
      using "1.prems"(3) t by (subst (asm) in_token_loop.simps) (auto split: if_splits)
    then show ?thesis using i "1.prems"(1) by auto
  qed
qed

lemma pend_pipe:
  assumes "ring_pipe ring" and b: "b \<in> set (queue (busy_rxbuf_list ring))"
    and e: "phl_pend_rxbuf_usb d s ok len b ring = (ring', status)"
  shows "ring_pipe ring'"
proof -
  let ?r1 = "ring\<lparr>busy_rxbuf_list := pq_del_node (busy_rxbuf_list ring) (Some b)\<rparr>"
  let ?r2 = "(upd_rxbuf b (\<lambda>x. x\<lparr>rb_transfer_len := len\<rparr>) ?r1)
      \<lparr>pend_rxbuf_list := fst (pq_push (pend_rxbuf_list ring) b Tail)\<rparr>"
  have ne: "queue (busy_rxbuf_list ring) \<noteq> []" using b by auto
  have pb: "rb_pipe_idx (rx_bufs ring b) = WLAN_IN_MPDU_PIPE_IDX" using assms(1) b by (simp add: ring_pipe_def)
  have p1: "ring_pipe ?r1" by (rule del_ring_pipe [OF assms(1)])
  have p2: "ring_pipe ?r2" using p1 pb by (auto simp: ring_pipe_def upd_rxbuf_def pq_push_def)
  show ?thesis
  proof (cases ok)
    case False
    then have "ring' = fst (phl_release_rxbuf_usb (Some b) ?r1)" using e ne by (auto simp: phl_pend_rxbuf_usb_def Let_def)
    then show ?thesis using p1 release_ring_pipe by simp
  next
    case True
    obtain r3 st where t: "phl_in_token_usb d s (rb_pipe_idx (rx_bufs ring b)) ?r2 = (r3, st)" by fastforce
    then have "ring_pipe r3" using in_token_pipe [OF p2] pb by simp
    moreover have "ring' = r3 \<or> ring' = r3\<lparr>deferred_timer := True\<rparr>"
      using e t True ne by (auto simp: phl_pend_rxbuf_usb_def Let_def upd_rxbuf_def pq_push_def split: if_splits)
    ultimately show ?thesis by (auto simp: ring_pipe_def)
  qed
qed

lemma complete_inv:
  assumes inv: "rx_sys_inv (st, core)" and b: "b \<in> set (queue (busy_rxbuf_list (rxbuf_pool st)))"
    and e: "rtw_phl_post_in_complete True send_ok ok len b st = (st', sched)"
  shows "rx_sys_inv (st', core)"
proof -
  obtain ring status where p: "phl_pend_rxbuf_usb True send_ok ok len b (rxbuf_pool st) = (ring, status)" by fastforce
  have st': "st' = st\<lparr>rxbuf_pool := ring\<rparr>" using e p by (simp add: rtw_phl_post_in_complete_def)
  have "rxbuf_inv (mset_set (owned_bufs None st)) (rxbuf_pool st)" using inv by (simp add: rx_sys_inv_def rx_inv_def bufs_inv_def)
  then have "rb_pktcnt (rx_bufs ring x) = rb_pktcnt (rx_bufs (rxbuf_pool st) x)" for x using pend_inv [OF _ b p] by blast
  then have "rx_inv (mset core) None st'" unfolding st'
    using inv pend_inv [OF _ b p] by (intro ring_change) (auto simp: rx_sys_inv_def)
  moreover have "mpdu_pipe st'" using pend_pipe [OF _ b p] inv by (simp add: mpdu_pipe_ring st' rx_sys_inv_def)
  ultimately show ?thesis by (simp add: rx_sys_inv_def)
qed

lemma rx_start_inv:
  assumes inv: "rx_sys_inv (st, core)" and e: "phl_rx_start_usb (\<lambda>_. True) s n m (rxbuf_pool st) = (ring, status)"
  shows "rx_sys_inv (st\<lparr>rxbuf_pool := ring\<rparr>, core)"
proof (cases "n = 0")
  case True
  then show ?thesis using e inv by (auto simp: rx_start_eq)
next
  case False
  then have l: "in_token_loop (\<lambda>_. True) s m 0 0 RTW_PHL_STATUS_SUCCESS (rxbuf_pool st) = (ring, status)"
    using e by (simp add: rx_start_eq)
  have "rxbuf_inv (mset_set (owned_bufs None st)) (rxbuf_pool st)" using inv by (simp add: rx_sys_inv_def rx_inv_def bufs_inv_def)
  from in_token_loop_inv [OF this refl l]
  have "rb_pktcnt (rx_bufs ring x) = rb_pktcnt (rx_bufs (rxbuf_pool st) x)" for x by blast
  then have "rx_inv (mset core) None (st\<lparr>rxbuf_pool := ring\<rparr>)"
    using inv in_token_loop_inv [OF _ refl l] by (intro ring_change) (auto simp: rx_sys_inv_def)
  moreover have "ring_pipe ring"
    using in_token_loop_pipe [OF _ _ l] inv by (simp add: rx_sys_inv_def mpdu_pipe_ring WLAN_IN_MPDU_PIPE_IDX_def)
  ultimately show ?thesis by (simp add: rx_sys_inv_def mpdu_pipe_ring)
qed

lemma deferred_inv:
  assumes inv: "rx_sys_inv (st, core)"
    and e: "phl_rx_deferred_in_token (\<lambda>_. True) s n m (rxbuf_pool st) = (ring, ind)"
  shows "rx_sys_inv (st\<lparr>rxbuf_pool := ring\<rparr>, core)"
proof -
  obtain r1 status where s: "phl_rx_start_usb (\<lambda>_. True) s n m (rxbuf_pool st) = (r1, status)" by fastforce
  note i = rx_start_inv [OF inv s]
  have "ring = r1 \<or> ring = r1\<lparr>deferred_timer := True\<rparr>" using e s by (auto simp: phl_rx_deferred_in_token_def split: if_splits)
  then show ?thesis
  proof
    assume r: "ring = r1\<lparr>deferred_timer := True\<rparr>"
    have "rx_inv (mset core) None ((st\<lparr>rxbuf_pool := r1\<rparr>)\<lparr>rxbuf_pool := ring\<rparr>)"
      by (rule ring_change) (use i r in \<open>auto simp: rx_sys_inv_def rxbuf_inv_def queued_bufs_def\<close>)
    then show ?thesis using i r by (simp add: rx_sys_inv_def mpdu_pipe_ring ring_pipe_def)
  qed (use i in simp)
qed

lemma handler_returns:
  assumes inv: "rx_sys_inv (st, core)" and ok: "refs_fit env"
  shows "\<exists>st'. phl_rx_callback_usb env paused st = Some st' \<and> rx_sys_inv (st', core) \<and>
     (\<not> paused \<longrightarrow> phl_check_recv_ring_resource (phl_rx_ring st) \<longrightarrow> queue (pend_rxbuf_list (rxbuf_pool st')) = [])"
  using rx_usb_loop [OF ok, of "mset core" st False] inv
  by (auto simp: phl_rx_callback_usb_def phl_rx_usb_def rx_sys_inv_def)

lemma psts_inv:
  "rx_inv held cur st \<Longrightarrow> hal_fills_psts (ppdu_sts_info st) ps \<Longrightarrow> rx_inv held cur (st\<lparr>ppdu_sts_info := ps\<rparr>)"
  by (simp add: hal_fills_psts_def rx_inv_def pkts_inv_def placed_pkts_def wait_pkts_def bufs_inv_def owned_bufs_def
      buf_users_def tables_inv_def)

text \<open>The operations on sessions and packets leave the lists of buffers out for reception alone.\<close>

lemma keep_sessions:
  "rx_reorder_timer_expired t s st = Some st' \<Longrightarrow> keep_all st st'"
  "rtw_phl_rx_bar s tid seq st = Some st' \<Longrightarrow> keep_all st st'"
  "start_rx_ba_session al s seq ba_policy tid sz st = (st', status) \<Longrightarrow> keep_all st st'"
  "keep_all st (stop_rx_ba_session sta tid st)"
  "rtw_phl_query_rx_pkt t st = (st', p) \<Longrightarrow> keep_all st st'"
  "rtw_phl_return_rxbuf r st = (st', status) \<Longrightarrow> keep_all st st'"
proof -
  have hs: "keep_all x (phl_handle_rx_frame_list fs (store_session s tid r x))" for x s tid r fs
    by (rule keep_trans(2) [OF keep_store keep_handle_list])
  have round: "keep_all x y" if "timer_round t s i x = Some y" for i x y
    using that hs keep_handle_list by (auto simp: timer_round_def split: option.splits)
  have "keep_all x y" if "timer_rounds t s is x = Some y" for "is" x y
    using that by (induction "is" arbitrary: x) (auto split: option.splits dest!: round intro: keep_trans(2))
  then show "rx_reorder_timer_expired t s st = Some st' \<Longrightarrow> keep_all st st'"
    by (auto simp: rx_reorder_timer_expired_def)
  show "rtw_phl_rx_bar s tid seq st = Some st' \<Longrightarrow> keep_all st st'"
    using hs by (auto simp: rtw_phl_rx_bar_def Let_def split: if_splits option.splits)
  have fu: "keep_all st (fold phl_recycle_rx_pkt_usb rec (upd_rx_sta s f st))" for rec s f
    by (rule keep_trans(2) [OF keep_upd_sta keep_fold [OF keep_recycle_pkt]])
  show "start_rx_ba_session al s seq ba_policy tid sz st = (st', status) \<Longrightarrow> keep_all st st'"
    using fu by (auto simp: start_rx_ba_session_def split: prod.splits)
  show "keep_all st (stop_rx_ba_session sta tid st)"
    using fu keep_fold [OF keep_recycle_pkt]
    by (auto simp: stop_rx_ba_session_def split: option.splits prod.splits)
  show "rtw_phl_query_rx_pkt t st = (st', p) \<Longrightarrow> keep_all st st'"
    by (auto simp: rtw_phl_query_rx_pkt_def Let_def keep_all_def keep_bufs_def upd_rx_sta_def
        split: prod.splits option.splits)
  show "rtw_phl_return_rxbuf r st = (st', status) \<Longrightarrow> keep_all st st'"
    using keep_recycle_buf by (auto simp: rtw_phl_return_rxbuf_def split: option.splits)
qed

lemma sys_inv_keep:
  "rx_inv (mset core') None st' \<Longrightarrow> keep_all st st' \<Longrightarrow> rx_sys_inv (st, core) \<Longrightarrow> rx_sys_inv (st', core')"
  using mpdu_pipe_keep [of st st'] by (simp add: rx_sys_inv_def keep_all_def)

lemma rx_step_inv: "rx_step s s' \<Longrightarrow> rx_sys_inv s \<Longrightarrow> rx_sys_inv s'"
proof (induction rule: rx_step.induct)
  case complete then show ?case using complete_inv by blast
next
  case in_token then show ?case using deferred_inv by blast
next
  case (handler env paused st st' core)
  then show ?case using handler_returns [of st core env paused] by auto
next
  case (reorder_timer s t st st' core)
  then show ?case using timer_expired [of "mset core" st s t] keep_sessions(1)
    by (intro sys_inv_keep [of core st' st core]) (auto simp: rx_sys_inv_def)
next
  case (bar s tid seq st st' core)
  have "rx_inv (mset core) None st'"
    using rx_bar [of "mset core" st s tid seq st'] bar by (simp add: rx_sys_inv_def)
  then show ?case using sys_inv_keep keep_sessions(2) [OF bar(2)] bar.prems by blast
next
  case (ba_start s sz al seq ba_policy tid st st' status core)
  have "rx_inv (mset core) None st'"
    using start_ba [of "mset core" st s sz al seq ba_policy tid] ba_start by (simp add: rx_sys_inv_def)
  then show ?case using sys_inv_keep keep_sessions(3) [OF ba_start(3)] ba_start.prems by blast
next
  case (ba_stop s st core tid)
  then have "rx_inv (mset core) None (stop_rx_ba_session (Some s) tid st)" using stop_ba by (simp add: rx_sys_inv_def)
  then show ?case using sys_inv_keep keep_sessions(4) ba_stop.prems by blast
next
  case (psts st ps core)
  then show ?case using psts_inv [of "mset core" None st ps] by (simp add: rx_sys_inv_def mpdu_pipe_ring)
next
  case (query t st st' p core)
  have "rx_inv (mset (case p of None \<Rightarrow> core | Some x \<Rightarrow> core @ [x])) None st'"
    using query_rx [OF _ query(1), of "mset core"] query.prems by (auto simp: rx_sys_inv_def split: option.splits)
  then show ?case using sys_inv_keep keep_sessions(5) [OF query(1)] query.prems by blast
next
  case (return p core st st' status)
  have "rx_inv (mset (remove1 p core)) None st'"
    using return_rx [of p "mset (remove1 p core)" st st' status] return by (simp add: rx_sys_inv_def)
  then show ?case using sys_inv_keep keep_sessions(6) [OF return(2)] return.prems by blast
qed

interpretation rx_sys: step_invariant rx_step rx_sys_inv
  by unfold_locales (rule rx_step_inv)

section \<open>Properties\<close>

text \<open>
  The state after initialisation: the pool of packets, the buffers (not yet posted), an empty ring,
  no sessions, no waiting frames.
\<close>

definition rx_fresh :: "rx_st \<Rightarrow> bool" where
  "rx_fresh st \<longleftrightarrow> sta_inv (rx_sta st) \<and> population (rx_sta st) \<subseteq> {..<PHL_MAX_STA_NUM} \<and>
     (\<forall>s. s_tid_rx (stas (rx_sta st) s) = replicate 8 None) \<and> phl_rx_ring st = rx_ring_init \<and>
     (\<forall>band i. se_frames (sts_ent (ppdu_sts_info st) band i) = pq_init) \<and>
     (\<forall>band. cur_ppdu_cnt (ppdu_sts_info st) band = 0)"

lemma rx_init_pool:
  assumes "phl_rx_init True st = (st', status)"
  shows "pool_idle (rx_pkt_pool st') = [0..<MAX_PHL_RING_RX_PKT_NUM] \<and>
     pool_idle_cnt (rx_pkt_pool st') = of_nat MAX_PHL_RING_RX_PKT_NUM \<and>
     (\<forall>p. rp_rxbuf_ptr (rx_pkts st' p) = None) \<and> rx_sta st' = rx_sta st \<and>
     phl_rx_ring st' = phl_rx_ring st \<and> ppdu_sts_info st' = ppdu_sts_info st"
proof -
  let ?f = "\<lambda>i (pool :: phl_rx_pkt_pool). pool\<lparr>pool_idle := pool_idle pool @ [i], pool_idle_cnt := pool_idle_cnt pool + 1\<rparr>"
  have "pool_idle (fold ?f xs pool) = pool_idle pool @ xs \<and>
      pool_idle_cnt (fold ?f xs pool) = pool_idle_cnt pool + of_nat (length xs)" for xs pool
    by (induction xs arbitrary: pool) simp_all
  then show ?thesis using assms
    by (auto simp: phl_rx_init_def phl_alloc_recv_pkt_pool_def)
qed

lemma rx_init_sys_inv:
  assumes fresh: "rx_fresh st0" and i: "phl_rx_init True st0 = (st1, status)"
    and u: "phl_rx_init_usb True True (\<lambda>_. True) mem pipe_cnt num = (Some ring, status')"
  shows "rx_sys_inv (st1\<lparr>rxbuf_pool := ring\<rparr>, [])"
proof -
  let ?st = "st1\<lparr>rxbuf_pool := ring\<rparr>"
  note p = rx_init_pool [OF i] and r = rx_init_inv [OF u]
  have users: "buf_users ?st b = {}" for b using p by (simp add: buf_users_def)
  then have ow: "owned_bufs None ?st = {}" by (simp add: owned_bufs_def)
  have "placed_pkts ?st = {#}"
    using p fresh rx_ring_invar_init
    by (simp add: placed_pkts_def rx_fresh_def session_pkts_def wait_pkts_def pq_init_def phl_tid_ampdu_rx_free_def)
  then have "pkts_inv {#} ?st" using p by (simp add: pkts_inv_def)
  moreover have "bufs_inv None ?st" using r by (simp add: bufs_inv_def users ow)
  moreover have "tables_inv ?st"
    using p fresh rx_ring_invar_init
    by (simp add: tables_inv_def rx_fresh_def table_inv_def pq_wf_def pq_init_def PHL_MAX_PPDU_CNT_def)
  moreover have "mpdu_pipe ?st"
  proof -
    have "length (queued_bufs ring) = block_cnt_alloc ring"
      using r by (metis rxbuf_inv_def add.right_neutral size_mset length_upt diff_zero)
    moreover have "block_cnt_alloc ring = pipe_cnt * num"
    proof -
      have "block_cnt_alloc (rx_init_loop a is x) = block_cnt_alloc x" for a "is" x
        by (induction a "is" x rule: rx_init_loop.induct) (auto simp: upd_rxbuf_def Let_def)
      then show ?thesis using u by (auto simp: phl_rx_init_usb_def Let_def)
    qed
    ultimately have "queue (busy_rxbuf_list ring) = [] \<and> queue (pend_rxbuf_list ring) = []"
      using r by (simp add: queued_bufs_def)
    then show ?thesis by (simp add: mpdu_pipe_def)
  qed
  ultimately show ?thesis by (simp add: rx_sys_inv_def rx_inv_def)
qed




text \<open>
  C25: The block-ack request handler indexes the eight sessions of a station by the TID it is given,
  which is a four-bit field of a received frame, without a check: it accesses memory outside the table
  exactly when the TID is 8 or more.
\<close>

theorem rx_bar_faults_iff_tid_large:
  assumes "rx_fresh st0" and "phl_rx_init True st0 = (st1, RTW_PHL_STATUS_SUCCESS)"
    and "phl_rx_init_usb True True (\<lambda>_. True) mem pipe_cnt num = (Some ring, RTW_PHL_STATUS_SUCCESS)"
    and "rx_step\<^sup>*\<^sup>* (st1\<lparr>rxbuf_pool := ring\<rparr>, []) (st, core)" and "s < PHL_MAX_STA_NUM"
  shows "rtw_phl_rx_bar s tid seq st = None \<longleftrightarrow> 8 \<le> tid"
proof -
  have "rx_inv (mset core) None st"
    using rx_sys.run_inv [OF assms(4) rx_init_sys_inv [OF assms(1-3)]] by (simp add: rx_sys_inv_def)
  then have "length (s_tid_rx (stas (rx_sta st) s)) = 8"
    using assms(5) by (simp add: rx_inv_def tables_inv_def table_inv_def)
  then show ?thesis by (auto simp: rtw_phl_rx_bar_def Let_def split: option.splits)
qed

section \<open>An example\<close>

text \<open>
  A device with four buffers: the tokens are posted, the first request completes with a packet for which there is
  no network buffer, and the handler passes it on (a management frame) or recycles it (a message of the firmware).
\<close>

definition ex_rx_env :: "rtw_rx_type \<Rightarrow> rx_env" where
  "ex_rx_env ty = \<lparr>ev_hal = (\<lambda>b k. if k = 0
       then Some \<lparr>hr_type = ty, hr_mdata = zero_meta\<lparr>md_seq := 5, md_pktlen := 100\<rparr>, hr_phy_info = zero_phy_info,
              hr_offset = 16, hr_length = 100, hr_hdr_type = 0, hr_mfrag = 0, hr_frag_num = 0\<rparr>
       else None),
     ev_netbuf = (\<lambda>_ _. False), ev_reports = (\<lambda>_. []), ev_time = 0, ev_ch = 6\<rparr>"

lemma ex_rx_env_ok: "refs_fit (ex_rx_env ty)"
proof -
  have "set (filter (stays_in_buf (ex_rx_env ty) b) [0..<n]) \<subseteq> {0}" for b n
    by (auto simp: stays_in_buf_def ex_rx_env_def split: if_splits)
  then have "card (set (filter (stays_in_buf (ex_rx_env ty) b) [0..<n])) \<le> card {0 :: nat}" for b n
    by (rule card_mono [OF finite.insertI [OF finite.emptyI]])
  moreover have "card (set (filter (stays_in_buf (ex_rx_env ty) b) [0..<n])) = kept_pkts (ex_rx_env ty) b n" for b n
    unfolding kept_pkts_def by (rule distinct_card) simp
  ultimately have le: "kept_pkts (ex_rx_env ty) b n \<le> 1" for b n by (metis card_1_singleton_iff One_nat_def)
  show ?thesis unfolding refs_fit_def
  proof (intro allI)
    show "kept_pkts (ex_rx_env ty) b n \<le> 255" for b n using le [of b n] by simp
  qed
qed

lemma ex_rx_fresh: "rx_fresh ex_rx"
  using ex_st_inv ex_st_facts(1)
  by (auto simp: rx_fresh_def ex_rx_def population_def ex_st_def ex_stainfo_def ex_role_def assoc_def pq_init_def
      PHL_MAX_STA_NUM_def)

definition ex_mem :: "ptr \<Rightarrow> rtw_rx_buf" where
  "ex_mem = (\<lambda>_. \<lparr>rb_pipe_idx = 0, rb_pktcnt = 0, rb_transfer_len = 0\<rparr>)"

text \<open>A transfer that holds one message of the firmware leaves the ring, the stations and the status entries alone.\<close>

lemma c2h_handled:
  assumes "pq_wf (pend_rxbuf_list (rxbuf_pool st))" and "queue (pend_rxbuf_list (rxbuf_pool st)) = [b]"
    and "rb_pipe_idx (rx_bufs (rxbuf_pool st) b) = 0" and "pool_idle (rx_pkt_pool st) = p # q # ps" and "p \<noteq> q"
  shows "\<exists>st'. phl_rx_usb_loop (ex_rx_env RTW_RX_TYPE_C2H) False st = Some st' \<and> rx_sta st' = rx_sta st \<and>
     phl_rx_ring st' = phl_rx_ring st \<and> ppdu_sts_info st' = ppdu_sts_info st"
proof -
  let ?env = "ex_rx_env RTW_RX_TYPE_C2H"
  let ?same = "\<lambda>s. rx_sta s = rx_sta st \<and> phl_rx_ring s = phl_rx_ring st \<and> ppdu_sts_info s = ppdu_sts_info st"
  let ?nopend = "\<lambda>s. pend_rxbuf_list (rxbuf_pool s) = (pend_rxbuf_list (rxbuf_pool st))\<lparr>queue := [], cnt := 0\<rparr>"
  let ?st1 = "st\<lparr>rxbuf_pool := (rxbuf_pool st)\<lparr>pend_rxbuf_list := (pend_rxbuf_list (rxbuf_pool st))\<lparr>queue := [], cnt := 0\<rparr>\<rparr>\<rparr>"
  have c: "cnt (pend_rxbuf_list (rxbuf_pool st)) = 1" using assms(1,2) by (simp add: pq_wf_def)
  have pop: "pq_pop (pend_rxbuf_list (rxbuf_pool st)) First = ((pend_rxbuf_list (rxbuf_pool st))\<lparr>queue := [], cnt := 0\<rparr>, Some b)"
    using pq_pop_wf_eq [OF assms(1)] assms(2) c by simp
  obtain st2 pkts where g: "phl_get_single_rx ?env b ?st1 = (st2, pkts)" by fastforce
  have s2: "?same st2 \<and> ?nopend st2 \<and> pkts = [p] \<and> rp_type (rx_pkts st2 p) = RTW_RX_TYPE_C2H"
  proof -
    let ?e = "\<lambda>s s'. rx_sta s' = rx_sta s \<and> phl_rx_ring s' = phl_rx_ring s \<and> ppdu_sts_info s' = ppdu_sts_info s \<and>
        rxbuf_pool s' = rxbuf_pool s \<and> rx_pkts s' p = rx_pkts s p"
    have k1: "\<exists>s'. single_rx_loop ?env b (Suc 0) l acc r br s = (s', acc, r, br) \<and> ?e s s'"
      if "pool_idle (rx_pkt_pool s) = q # ps" for l acc r br s
      using that assms(5)
      by (subst single_rx_loop.simps)
         (simp add: rtw_phl_query_phl_rx_def Let_def ex_rx_env_def phl_release_phl_rx_def upd_pkt_def)
    let ?h = "the (ev_hal ?env b 0)"
    let ?stA = "upd_pkt p (\<lambda>x. (fill_pkt ?h x)\<lparr>rp_rxbuf_ptr := Some b\<rparr>)
        (?st1\<lparr>rx_pkt_pool := (rx_pkt_pool ?st1)\<lparr>pool_idle := q # ps, pool_idle_cnt := pool_idle_cnt (rx_pkt_pool ?st1) - 1\<rparr>\<rparr>)"
    have k0: "\<exists>s'. single_rx_loop ?env b 0 l [] 0 True ?st1 = (s', [p], 1, False) \<and> ?e ?stA s'" for l
      using k1 [of ?stA "l - ALIGN8 (16 + int 100)" "[p]" 1 False] assms(4)
      by (subst single_rx_loop.simps)
         (simp add: rtw_phl_query_phl_rx_def Let_def ex_rx_env_def to_u8_def upd_pkt_def)
    obtain s' where s': "single_rx_loop ?env b 0 (int (rb_transfer_len (rx_bufs (rxbuf_pool ?st1) b))) [] 0 True ?st1 = (s', [p], 1, False)"
      "?e ?stA s'" using k0 by blast
    have "rp_type (rx_pkts ?stA p) = RTW_RX_TYPE_C2H" by (simp add: upd_pkt_def fill_pkt_def ex_rx_env_def)
    then show ?thesis using g s' by (auto simp: phl_get_single_rx_def upd_rxbuf_def upd_pkt_def)
  qed
  let ?st3 = "phl_recycle_rx_buf (Some p) st2"
  have s3: "?same ?st3 \<and> ?nopend ?st3" using s2
    by (simp add: phl_recycle_rx_buf_def phl_release_phl_rx_def upd_pkt_def Let_def release_rxbuf_keep split: option.splits)
  have "phl_rx_usb_loop ?env False st = phl_rx_usb_loop ?env True ?st3"
    using pop c assms(3) g s2
    by (subst phl_rx_usb_loop.simps) (simp add: Let_def WLAN_IN_MPDU_PIPE_IDX_def rx_process_one_def)
  moreover have "phl_rx_usb_loop ?env True ?st3 = Some ?st3" using s3 by (subst phl_rx_usb_loop.simps) simp
  ultimately show ?thesis using s3 by simp
qed

lemma ex_rx_run:
  "\<exists>st1 ring st st' st''. phl_rx_init True ex_rx = (st1, RTW_PHL_STATUS_SUCCESS) \<and>
     phl_rx_init_usb True True (\<lambda>_. True) ex_mem 1 4 = (Some ring, RTW_PHL_STATUS_SUCCESS) \<and>
     rx_step\<^sup>*\<^sup>* (st1\<lparr>rxbuf_pool := ring\<rparr>, []) (st, []) \<and> queue (pend_rxbuf_list (rxbuf_pool st)) = [0] \<and>
     phl_rx_callback_usb (ex_rx_env RTW_RX_TYPE_WIFI) False st = Some st' \<and>
     phl_rx_callback_usb (ex_rx_env RTW_RX_TYPE_C2H) False st = Some st'' \<and>
     rx_step\<^sup>*\<^sup>* (st1\<lparr>rxbuf_pool := ring\<rparr>, []) (st'', []) \<and>
     rx_ring_content (phl_rx_ring st'') = [] \<and> session_pkts (rx_sta st'') = {#} \<and> wait_pkts (ppdu_sts_info st'') = {#}"
proof -
  obtain st1 where st1: "phl_rx_init True ex_rx = (st1, RTW_PHL_STATUS_SUCCESS)"
    by (simp add: phl_rx_init_def phl_alloc_recv_pkt_pool_def)
  obtain ring where ring: "phl_rx_init_usb True True (\<lambda>_. True) ex_mem 1 4 = (Some ring, RTW_PHL_STATUS_SUCCESS)"
    by (simp add: phl_rx_init_usb_def)
  let ?s0 = "st1\<lparr>rxbuf_pool := ring\<rparr>"
  have i0: "rx_sys_inv (?s0, [])" by (rule rx_init_sys_inv [OF ex_rx_fresh st1 ring])
  note r = rx_init_inv [OF ring]
  obtain ring1 ind where d: "phl_rx_deferred_in_token (\<lambda>_. True) (\<lambda>_. True) 1 4 (rxbuf_pool ?s0) = (ring1, ind)" by fastforce
  let ?s1 = "?s0\<lparr>rxbuf_pool := ring1\<rparr>"
  have s1: "rx_step (?s0, []) (?s1, [])" by (rule rx_step.in_token [OF d])
  obtain r2 status2 where l: "in_token_loop (\<lambda>_. True) (\<lambda>_. True) 4 0 0 RTW_PHL_STATUS_SUCCESS ring = (r2, status2)" by fastforce
  have "queue (busy_rxbuf_list ring1) = queue (busy_rxbuf_list r2) \<and> queue (pend_rxbuf_list ring1) = queue (pend_rxbuf_list r2)"
    using d l by (auto simp: phl_rx_deferred_in_token_def rx_start_eq split: if_splits)
  moreover have q: "queue (busy_rxbuf_list ring) = []" "queue (pend_rxbuf_list ring) = []"
    using ring by (auto simp: phl_rx_init_usb_def ex_mem_def upt_rec upd_rxbuf_def pq_push_def pq_init_def)
  then have "queue (busy_rxbuf_list r2) = [0, 1, 2, 3]" "pend_rxbuf_list r2 = pend_rxbuf_list ring"
    using in_token_loop_posts [OF _ refl refl l refl] in_token_loop_inv [OF _ refl l] r by (auto simp: upt_rec)
  ultimately have b1: "queue (busy_rxbuf_list (rxbuf_pool ?s1)) = [0, 1, 2, 3]" "queue (pend_rxbuf_list (rxbuf_pool ?s1)) = []"
    using q by simp_all
  obtain s2 sched where c: "rtw_phl_post_in_complete True True True 256 0 ?s1 = (s2, sched)" by fastforce
  have s2: "rx_step (?s1, []) (s2, [])" by (rule rx_step.complete [OF _ c]) (use b1(1) in simp)
  have i1: "rx_sys_inv (?s1, [])" using rx_step_inv [OF s1 i0] .
  obtain ring2 status where p: "phl_pend_rxbuf_usb True True True 256 0 (rxbuf_pool ?s1) = (ring2, status)" by fastforce
  have "rxbuf_inv (mset_set (owned_bufs None ?s1)) (rxbuf_pool ?s1)" using i1 by (simp add: rx_sys_inv_def rx_inv_def bufs_inv_def)
  then have "queue (pend_rxbuf_list ring2) = [0]" using pend_inv [OF _ _ p] b1 by simp
  then have pend: "queue (pend_rxbuf_list (rxbuf_pool s2)) = [0]" using c p by (auto simp: rtw_phl_post_in_complete_def)
  have i2: "rx_sys_inv (s2, [])" using rx_step_inv [OF s2 i1] .
  obtain s3 where h: "phl_rx_callback_usb (ex_rx_env RTW_RX_TYPE_WIFI) False s2 = Some s3"
    using handler_returns [OF i2 ex_rx_env_ok] by blast
  have st2: "rx_sta s2 = rx_sta st1" "phl_rx_ring s2 = phl_rx_ring st1" "ppdu_sts_info s2 = ppdu_sts_info st1"
    "rx_pkt_pool s2 = rx_pkt_pool st1" using c by (auto simp: rtw_phl_post_in_complete_def split: prod.splits)
  note p0 = rx_init_pool [OF st1] and f0 = ex_rx_fresh [unfolded rx_fresh_def]
  have idle: "pool_idle (rx_pkt_pool s2) = 0 # 1 # [2..<MAX_PHL_RING_RX_PKT_NUM]"
  proof -
    have "[0..<n] = 0 # 1 # [2..<n]" if "2 < n" for n :: nat using that by (simp add: upt_conv_Cons numeral_2_eq_2)
    then show ?thesis using p0 st2(4) by (simp add: MAX_PHL_RING_RX_PKT_NUM_def del: upt_rec_numeral)
  qed
  have "pq_wf (pend_rxbuf_list (rxbuf_pool s2))" "rb_pipe_idx (rx_bufs (rxbuf_pool s2) 0) = 0"
    using i2 pend by (simp_all add: rx_sys_inv_def rx_inv_def bufs_inv_def rxbuf_inv_def mpdu_pipe_def WLAN_IN_MPDU_PIPE_IDX_def)
  from c2h_handled [OF this(1) pend this(2) idle zero_neq_one] obtain s4 where h4: "phl_rx_usb_loop (ex_rx_env RTW_RX_TYPE_C2H) False s2 = Some s4"
    and e4: "rx_sta s4 = rx_sta s2" "phl_rx_ring s4 = phl_rx_ring s2" "ppdu_sts_info s4 = ppdu_sts_info s2" by blast
  have ring0: "phl_rx_ring s2 = rx_ring_init" using st2 p0 f0 by simp
  have "phl_check_recv_ring_resource (phl_rx_ring s2)" unfolding ring0 by (simp add: phl_check_recv_ring_resource_def rx_ring_init_def phl_calc_avail_wptr_def to_u16_def MAX_PHL_RING_ENTRY_NUM_def)
  then have h5: "phl_rx_callback_usb (ex_rx_env RTW_RX_TYPE_C2H) False s2 = Some s4"
    using h4 by (simp add: phl_rx_callback_usb_def phl_rx_usb_def)
  have s4: "rx_step (s2, []) (s4, [])" by (rule rx_step.handler [OF ex_rx_env_ok h5])
  have "rx_ring_content (phl_rx_ring s4) = []" "session_pkts (rx_sta s4) = {#}" "wait_pkts (ppdu_sts_info s4) = {#}"
    using p0 f0 rx_ring_invar_init st2 e4
    by (simp_all add: session_pkts_def wait_pkts_def pq_init_def phl_tid_ampdu_rx_free_def)
  with s1 s2 s4 st1 ring pend h h5 show ?thesis by (meson converse_rtranclp_into_rtranclp rtranclp.rtrancl_refl)
qed




theorem rx_bar_faults_iff_tid_large_witness:
  "\<exists>st1 ring st. phl_rx_init True ex_rx = (st1, RTW_PHL_STATUS_SUCCESS) \<and>
     rx_step\<^sup>*\<^sup>* (st1\<lparr>rxbuf_pool := ring\<rparr>, []) (st, []) \<and> rtw_phl_rx_bar 4 9 0 st = None \<and> rtw_phl_rx_bar 4 7 0 st \<noteq> None"
proof -
  from ex_rx_run obtain st1 ring st where r: "phl_rx_init True ex_rx = (st1, RTW_PHL_STATUS_SUCCESS)"
    "phl_rx_init_usb True True (\<lambda>_. True) ex_mem 1 4 = (Some ring, RTW_PHL_STATUS_SUCCESS)"
    "rx_step\<^sup>*\<^sup>* (st1\<lparr>rxbuf_pool := ring\<rparr>, []) (st, [])" by blast
  have "(4::nat) < PHL_MAX_STA_NUM" by (simp add: PHL_MAX_STA_NUM_def)
  from rx_bar_faults_iff_tid_large [OF ex_rx_fresh r this, of 9 0] rx_bar_faults_iff_tid_large [OF ex_rx_fresh r this, of 7 0]
  have "rtw_phl_rx_bar 4 9 0 st = None \<and> rtw_phl_rx_bar 4 7 0 st \<noteq> None" by simp
  then show ?thesis using r by blast
qed

end
