(* ===== verification/Mac_Txdesc.thy ===== *)
theory Mac_Txdesc
  imports Phl_Prelude
begin

text \<open>
  The transmit descriptor of the MAC layer, \<^verbatim>\<open>phl/hal_g6/mac/mac_ax/trx_desc.c\<close> with the layout of
  \<^verbatim>\<open>phl/hal_g6/mac/txdesc.h\<close> (8852A section): the write descriptor (WD) body of six dwords, the optional
  WD info of six dwords, and the WD check sum.

  The buffer is a function from the dword index, counted from the start of the descriptor, to its
  value; the host is little-endian, so \<^verbatim>\<open>cpu_to_le32\<close> is the identity. A byte or half-word of the meta
  data is a word of that width. Reading past the eight entries of \<^verbatim>\<open>qsel_l\<close> is \<^const>\<open>None\<close>.
\<close>

section \<open>Fields of a dword\<close>

text \<open>A field is its shift and its mask before the shift, as the \<^verbatim>\<open>_SH\<close> and \<^verbatim>\<open>_MSK\<close> macros give it.\<close>

type_synonym txd_field = "nat \<times> u32"

definition SET_WORD :: "u32 \<Rightarrow> txd_field \<Rightarrow> u32" where
  "SET_WORD v f = push_bit (fst f) (v AND snd f)"

definition GET_FIELD :: "u32 \<Rightarrow> txd_field \<Rightarrow> u32" where
  "GET_FIELD w f = drop_bit (fst f) w AND snd f"

definition SET_CLR_WORD :: "u32 \<Rightarrow> u32 \<Rightarrow> txd_field \<Rightarrow> u32" where
  "SET_CLR_WORD w v f = (w AND NOT (push_bit (fst f) (snd f))) OR push_bit (fst f) (v AND snd f)"

definition AX_TXD_WP_OFFSET :: txd_field where "AX_TXD_WP_OFFSET = (24, 0xff)"
definition AX_TXD_WDINFO_EN :: u32 where "AX_TXD_WDINFO_EN = BIT 22"
definition AX_TXD_PKT_OFFSET :: u32 where "AX_TXD_PKT_OFFSET = BIT 21"
definition AX_TXD_FWDL_EN :: u32 where "AX_TXD_FWDL_EN = BIT 20"
definition AX_TXD_CH_DMA :: txd_field where "AX_TXD_CH_DMA = (16, 0xf)"
definition AX_TXD_HDR_LLC_LEN :: txd_field where "AX_TXD_HDR_LLC_LEN = (11, 0x1f)"
definition AX_TXD_STF_MODE :: u32 where "AX_TXD_STF_MODE = BIT 10"
definition AX_TXD_WD_PAGE :: u32 where "AX_TXD_WD_PAGE = BIT 7"
definition AX_TXD_HW_AES_IV :: u32 where "AX_TXD_HW_AES_IV = BIT 6"
definition AX_TXD_HWAMSDU :: u32 where "AX_TXD_HWAMSDU = BIT 5"
definition AX_TXD_SMH_EN :: u32 where "AX_TXD_SMH_EN = BIT 4"
definition AX_TXD_HW_SSN_SEL :: txd_field where "AX_TXD_HW_SSN_SEL = (2, 0x3)"
definition AX_TXD_EN_HWSEQ_MODE :: txd_field where "AX_TXD_EN_HWSEQ_MODE = (0, 0x3)"
definition AX_TXD_DMA_TXAGG_NUM :: txd_field where "AX_TXD_DMA_TXAGG_NUM = (8, 0xff)"
definition AX_TXD_SHCUT_CAMID :: txd_field where "AX_TXD_SHCUT_CAMID = (0, 0xff)"
definition AX_TXD_MACID :: txd_field where "AX_TXD_MACID = (24, 0x7f)"
definition AX_TXD_TID_IND :: u32 where "AX_TXD_TID_IND = BIT 23"
definition AX_TXD_QSEL :: txd_field where "AX_TXD_QSEL = (17, 0x3f)"
definition AX_TXD_TXPKTSIZE :: txd_field where "AX_TXD_TXPKTSIZE = (0, 0x3fff)"
definition AX_TXD_BK :: u32 where "AX_TXD_BK = BIT 13"
definition AX_TXD_AGG_EN :: u32 where "AX_TXD_AGG_EN = BIT 12"
definition AX_TXD_WIFI_SEQ :: txd_field where "AX_TXD_WIFI_SEQ = (0, 0xfff)"
definition AX_TXD_TXDESC_CHECKSUM :: txd_field where "AX_TXD_TXDESC_CHECKSUM = (0, 0xffff)"
definition AX_TXD_ACK_CH_INFO :: u32 where "AX_TXD_ACK_CH_INFO = BIT 31"
definition AX_TXD_USERATE_SEL :: u32 where "AX_TXD_USERATE_SEL = BIT 30"
definition AX_TXD_DATA_BW :: txd_field where "AX_TXD_DATA_BW = (28, 0x3)"
definition AX_TXD_GI_LTF :: txd_field where "AX_TXD_GI_LTF = (25, 0x7)"
definition AX_TXD_DATARATE :: txd_field where "AX_TXD_DATARATE = (16, 0x1ff)"
definition AX_TXD_DATA_ER :: u32 where "AX_TXD_DATA_ER = BIT 15"
definition AX_TXD_DATA_DCM :: u32 where "AX_TXD_DATA_DCM = BIT 14"
definition AX_TXD_DATA_STBC :: u32 where "AX_TXD_DATA_STBC = BIT 12"
definition AX_TXD_DATA_LDPC :: u32 where "AX_TXD_DATA_LDPC = BIT 11"
definition AX_TXD_DISDATAFB :: u32 where "AX_TXD_DISDATAFB = BIT 10"
definition AX_TXD_DISRTSFB :: u32 where "AX_TXD_DISRTSFB = BIT 9"
definition AX_TXD_DATA_BW_ER :: u32 where "AX_TXD_DATA_BW_ER = BIT 8"
definition AX_TXD_MULTIPORT_ID :: txd_field where "AX_TXD_MULTIPORT_ID = (4, 0x7)"
definition AX_TXD_MBSSID :: txd_field where "AX_TXD_MBSSID = (0, 0xf)"
definition AX_TXD_DATA_TXCNT_LMT_SEL :: u32 where "AX_TXD_DATA_TXCNT_LMT_SEL = BIT 31"
definition AX_TXD_DATA_TXCNT_LMT :: txd_field where "AX_TXD_DATA_TXCNT_LMT = (25, 0x3f)"
definition AX_TXD_DATA_RTY_LOWEST_RATE :: txd_field where "AX_TXD_DATA_RTY_LOWEST_RATE = (16, 0x1ff)"
definition AX_TXD_A_CTRL_CAS :: u32 where "AX_TXD_A_CTRL_CAS = BIT 15"
definition AX_TXD_A_CTRL_BSR :: u32 where "AX_TXD_A_CTRL_BSR = BIT 14"
definition AX_TXD_A_CTRL_UPH :: u32 where "AX_TXD_A_CTRL_UPH = BIT 13"
definition AX_TXD_BMC :: u32 where "AX_TXD_BMC = BIT 11"
definition AX_TXD_NAVUSEHDR :: u32 where "AX_TXD_NAVUSEHDR = BIT 10"
definition AX_TXD_MAX_AGG_NUM :: txd_field where "AX_TXD_MAX_AGG_NUM = (0, 0xff)"
definition AX_TXD_AMPDU_DENSITY :: txd_field where "AX_TXD_AMPDU_DENSITY = (18, 0x7)"
definition AX_TXD_LIFETIME_SEL :: txd_field where "AX_TXD_LIFETIME_SEL = (13, 0x7)"
definition AX_TXD_SECTYPE :: txd_field where "AX_TXD_SECTYPE = (9, 0xf)"
definition AX_TXD_SEC_HW_ENC :: u32 where "AX_TXD_SEC_HW_ENC = BIT 8"
definition AX_TXD_SEC_CAM_IDX :: txd_field where "AX_TXD_SEC_CAM_IDX = (0, 0xff)"
definition AX_TXD_SPE_RPT :: u32 where "AX_TXD_SPE_RPT = BIT 10"
definition AX_TXD_RTT_EN :: u32 where "AX_TXD_RTT_EN = BIT 9"
definition AX_TXD_SIFS_TX :: u32 where "AX_TXD_SIFS_TX = BIT 6"
definition AX_TXD_SND_PKT_SEL :: txd_field where "AX_TXD_SND_PKT_SEL = (3, 0x7)"
definition AX_TXD_NDPA :: txd_field where "AX_TXD_NDPA = (1, 0x3)"
definition AX_TXD_HW_RTS_EN :: u32 where "AX_TXD_HW_RTS_EN = BIT 31"
definition AX_TXD_CCA_RTS :: txd_field where "AX_TXD_CCA_RTS = (29, 0x3)"
definition AX_TXD_CTS2SELF :: u32 where "AX_TXD_CTS2SELF = BIT 28"
definition AX_TXD_RTS_EN :: u32 where "AX_TXD_RTS_EN = BIT 27"
definition AX_TXD_SW_DEFINE :: txd_field where "AX_TXD_SW_DEFINE = (0, 0xf)"

section \<open>Meta data of a frame\<close>

datatype rtw_packet_type =
    RTW_PHL_PKT_TYPE_DATA | RTW_PHL_PKT_TYPE_MGNT | RTW_PHL_PKT_TYPE_H2C | RTW_PHL_PKT_TYPE_CTRL
  | RTW_PHL_PKT_TYPE_FWDL | RTW_PHL_PKT_TYPE_MAX

record rtw_t_meta_data =
  t_band :: u8w
  t_wmm :: u8w
  t_type :: rtw_packet_type
  t_tid :: u8w
  t_bc :: u8w
  t_mc :: u8w
  t_pktlen :: u16w
  t_hw_seq_mode :: u8w
  t_hw_ssn_sel :: u8w
  t_smh_en :: u8w
  t_hw_amsdu :: u8w
  t_hw_aes_iv :: u8w
  t_wd_page_size :: u8w
  t_hdr_len :: u8w
  t_dma_ch :: u8w
  t_usb_pkt_ofst :: u8w
  t_wdinfo_en :: u8w
  t_wp_offset :: u8w
  t_shcut_camid :: u8w
  t_macid :: u16w
  t_sw_seq :: u16w
  t_ampdu_en :: u8w
  t_bk :: u8w
  t_mbssid :: u8w
  t_hal_port :: u8w
  t_data_bw_er :: u8w
  t_dis_rts_rate_fb :: u8w
  t_dis_data_rate_fb :: u8w
  t_f_ldpc :: u8w
  t_f_stbc :: u8w
  t_f_dcm :: u8w
  t_f_er :: u8w
  t_f_rate :: u16w
  t_f_gi_ltf :: u8w
  t_f_bw :: u8w
  t_userate_sel :: u8w
  t_ack_ch_info :: u8w
  t_max_agg_num :: u8w
  t_nav_use_hdr :: u8w
  t_a_ctrl_uph :: u8w
  t_a_ctrl_bsr :: u8w
  t_a_ctrl_cas :: u8w
  t_data_rty_lowest_rate :: u16w
  t_data_tx_cnt_lmt :: u8w
  t_data_tx_cnt_lmt_en :: u8w
  t_sec_cam_idx :: u8w
  t_sec_hw_enc :: u8w
  t_sec_type :: u8w
  t_life_time_sel :: u8w
  t_ampdu_density :: u8w
  t_ndpa :: u8w
  t_snd_pkt_sel :: u8w
  t_sifs_tx :: u8w
  t_rtt_en :: u8w
  t_spe_rpt :: u8w
  t_sw_define :: u8w
  t_rts_en :: u8w
  t_cts2self :: u8w
  t_rts_cca_mode :: u8w
  t_hw_rts_en :: u8w

datatype mac_ax_intf = MAC_AX_INTF_USB | MAC_AX_INTF_SDIO | MAC_AX_INTF_PCIE | MAC_AX_INTF_INVALID

datatype mac_ax_qta_mode =
    MAC_AX_QTA_SCC | MAC_AX_QTA_DBCC | MAC_AX_QTA_SCC_STF | MAC_AX_QTA_DBCC_STF | MAC_AX_QTA_SU_TP
  | MAC_AX_QTA_DLFW | MAC_AX_QTA_BCN_TEST | MAC_AX_QTA_LAMODE | MAC_AX_QTA_INVALID

record mac_ax_adapter =
  intf :: mac_ax_intf
  qta_mode :: mac_ax_qta_mode
  wd_checksum_en :: u8w
  ep5 :: u8w
  ep6 :: u8w
  ep12 :: u8w

datatype mac_ret = MACSUCCESS | MACBUFSZ | MACTXCHDMA | MACFUNCINPUT | MACINTF | MACNOITEM | MACPARSEERR

section \<open>Channels and queues\<close>

definition MAC_AX_DMA_B0MG :: u8w where "MAC_AX_DMA_B0MG = 8"
definition MAC_AX_DMA_B0HI :: u8w where "MAC_AX_DMA_B0HI = 9"
definition MAC_AX_DMA_B1MG :: u8w where "MAC_AX_DMA_B1MG = 10"
definition MAC_AX_DMA_B1HI :: u8w where "MAC_AX_DMA_B1HI = 11"
definition MAC_AX_DMA_H2C :: u8w where "MAC_AX_DMA_H2C = 12"
definition MAC_AX_DATA_HIQ :: u8w where "MAC_AX_DATA_HIQ = 9"
definition MAC_AX_HI0_SEL :: u8w where "MAC_AX_HI0_SEL = 17"
definition MAC_AX_MG0_SEL :: u8w where "MAC_AX_MG0_SEL = 18"
definition MAC_AX_HI1_SEL :: u8w where "MAC_AX_HI1_SEL = 25"
definition MAC_AX_MG1_SEL :: u8w where "MAC_AX_MG1_SEL = 26"
definition TID_MAX_NUM :: nat where "TID_MAX_NUM = 8"
definition WD_BODY_BYTES :: nat where "WD_BODY_BYTES = 24"
definition WD_INFO_BYTES :: nat where "WD_INFO_BYTES = 24"

definition qsel_l :: "u8w list" where "qsel_l = [0, 1, 1, 0, 2, 2, 3, 3]"
definition tid_ind :: "bool list" where "tid_ind = [False, False, True, True, False, True, False, True]"

section \<open>Building the descriptor\<close>

text \<open>\<open>(x ? m : 0)\<close> of the C source.\<close>

definition txd_flag :: "u8w \<Rightarrow> u32 \<Rightarrow> u32" where
  "txd_flag x m = (if x \<noteq> 0 then m else 0)"

definition put_dwords :: "nat \<Rightarrow> u32 list \<Rightarrow> (nat \<Rightarrow> u32) \<Rightarrow> nat \<Rightarrow> u32" where
  "put_dwords i ws buf = (\<lambda>k. if i \<le> k \<and> k < i + length ws then ws ! (k - i) else buf k)"

definition mac_txdesc_len :: "rtw_t_meta_data \<Rightarrow> nat" where
  "mac_txdesc_len info =
     (if t_type info \<noteq> RTW_PHL_PKT_TYPE_H2C \<and> t_type info \<noteq> RTW_PHL_PKT_TYPE_FWDL \<and> t_wdinfo_en info \<noteq> 0
      then WD_BODY_BYTES + WD_INFO_BYTES else WD_BODY_BYTES)"

definition bad_pktlen :: "rtw_t_meta_data \<Rightarrow> bool" where
  "bad_pktlen info \<longleftrightarrow> snd AX_TXD_TXPKTSIZE < ucast (t_pktlen info) \<or> t_pktlen info = 0"

text \<open>The exclusive or of all half-words of the descriptor, the check sum field taken as zero.\<close>

definition half_xor :: "u32 \<Rightarrow> u16w" where
  "half_xor w = ucast w XOR ucast (drop_bit 16 w)"

fun xor_dwords :: "(nat \<Rightarrow> u32) \<Rightarrow> nat \<Rightarrow> nat \<Rightarrow> u16w \<Rightarrow> u16w" where
  "xor_dwords buf i 0 chksum = chksum"
| "xor_dwords buf i (Suc n) chksum = xor_dwords buf (i + 1) n (chksum XOR half_xor (buf i))"

definition mac_wd_checksum :: "rtw_t_meta_data \<Rightarrow> (nat \<Rightarrow> u32) \<Rightarrow> nat \<Rightarrow> u32" where
  "mac_wd_checksum info buf =
     (let dw4 = buf 4;
          buf1 = buf(4 := SET_CLR_WORD dw4 0 AX_TXD_TXDESC_CHECKSUM);
          chksum = xor_dwords buf1 0 (mac_txdesc_len info div 4) 0
      in buf1(4 := SET_CLR_WORD dw4 (ucast chksum) AX_TXD_TXDESC_CHECKSUM))"

definition txdes_proc_h2c_fwdl ::
  "rtw_t_meta_data \<Rightarrow> (nat \<Rightarrow> u32) \<Rightarrow> nat \<Rightarrow> (mac_ret \<times> rtw_t_meta_data \<times> (nat \<Rightarrow> u32)) option" where
  "txdes_proc_h2c_fwdl info buf len =
     (if len \<noteq> mac_txdesc_len info then Some (MACBUFSZ, info, buf)
      else if bad_pktlen info then Some (MACFUNCINPUT, info, buf)
      else Some (MACSUCCESS, info,
        put_dwords 0
          [SET_WORD (ucast MAC_AX_DMA_H2C) AX_TXD_CH_DMA OR
             (if t_type info = RTW_PHL_PKT_TYPE_FWDL then AX_TXD_FWDL_EN else 0),
           0, SET_WORD (ucast (t_pktlen info)) AX_TXD_TXPKTSIZE, 0, 0, 0] buf))"

text \<open>The first part of dword 0, by the bus; None for an unknown bus.\<close>

definition txd_intf_dw0 :: "mac_ax_adapter \<Rightarrow> rtw_t_meta_data \<Rightarrow> u32 option" where
  "txd_intf_dw0 adapter info =
     (case intf adapter of
        MAC_AX_INTF_SDIO \<Rightarrow> Some AX_TXD_STF_MODE
      | MAC_AX_INTF_USB \<Rightarrow> Some (AX_TXD_STF_MODE OR txd_flag (t_usb_pkt_ofst info) AX_TXD_PKT_OFFSET)
      | MAC_AX_INTF_PCIE \<Rightarrow>
          Some (txd_flag (t_wd_page_size info) AX_TXD_WD_PAGE OR
            (if qta_mode adapter = MAC_AX_QTA_SCC_STF \<or> qta_mode adapter = MAC_AX_QTA_DBCC_STF
             then AX_TXD_STF_MODE else 0))
      | MAC_AX_INTF_INVALID \<Rightarrow> None)"

definition txd_data_ch :: "mac_ax_adapter \<Rightarrow> rtw_t_meta_data \<Rightarrow> u8w" where
  "txd_data_ch adapter info =
     (if t_dma_ch info = MAC_AX_DATA_HIQ \<and> intf adapter = MAC_AX_INTF_USB
      then (if t_band info \<noteq> 0 then MAC_AX_DMA_B1MG else MAC_AX_DMA_B0MG)
      else if t_dma_ch info = MAC_AX_DATA_HIQ
      then (if t_band info \<noteq> 0 then MAC_AX_DMA_B1HI else MAC_AX_DMA_B0HI)
      else t_dma_ch info)"

definition txd_data_qsel :: "rtw_t_meta_data \<Rightarrow> u8w option" where
  "txd_data_qsel info =
     (if t_dma_ch info = MAC_AX_DATA_HIQ
      then Some (if t_band info \<noteq> 0 then MAC_AX_HI1_SEL else MAC_AX_HI0_SEL)
      else if unat (t_tid info) < length qsel_l then Some (push_bit 2 (t_wmm info) OR qsel_l ! unat (t_tid info))
      else None)"

definition txd_data_body :: "u32 \<Rightarrow> u8w \<Rightarrow> u8w \<Rightarrow> rtw_t_meta_data \<Rightarrow> u32 list" where
  "txd_data_body dw0 ch qsel info =
     [dw0 OR
       (SET_WORD (ucast (t_hw_seq_mode info)) AX_TXD_EN_HWSEQ_MODE OR
        SET_WORD (ucast (t_hw_ssn_sel info)) AX_TXD_HW_SSN_SEL OR
        SET_WORD (ucast (t_hdr_len info)) AX_TXD_HDR_LLC_LEN OR
        SET_WORD (ucast ch) AX_TXD_CH_DMA OR
        txd_flag (t_hw_amsdu info) AX_TXD_HWAMSDU OR
        txd_flag (t_smh_en info) AX_TXD_SMH_EN OR
        txd_flag (t_hw_aes_iv info) AX_TXD_HW_AES_IV OR
        txd_flag (t_wdinfo_en info) AX_TXD_WDINFO_EN OR
        SET_WORD (ucast (t_wp_offset info)) AX_TXD_WP_OFFSET),
      SET_WORD (ucast (t_shcut_camid info)) AX_TXD_SHCUT_CAMID,
      SET_WORD (ucast (t_pktlen info)) AX_TXD_TXPKTSIZE OR
        SET_WORD (ucast qsel) AX_TXD_QSEL OR
        (if tid_ind ! unat (t_tid info) then AX_TXD_TID_IND else 0) OR
        SET_WORD (ucast (t_macid info)) AX_TXD_MACID,
      SET_WORD (ucast (t_sw_seq info)) AX_TXD_WIFI_SEQ OR
        txd_flag (t_ampdu_en info) AX_TXD_AGG_EN OR
        (if t_bk info \<noteq> 0 \<or> t_ack_ch_info info \<noteq> 0 then AX_TXD_BK else 0),
      0, 0]"

definition txd_rate_dw0 :: "rtw_t_meta_data \<Rightarrow> u32" where
  "txd_rate_dw0 info =
     (txd_flag (t_userate_sel info) AX_TXD_USERATE_SEL OR
      SET_WORD (ucast (t_f_rate info)) AX_TXD_DATARATE OR
      SET_WORD (ucast (t_f_bw info)) AX_TXD_DATA_BW OR
      txd_flag (t_data_bw_er info) AX_TXD_DATA_BW_ER OR
      SET_WORD (ucast (t_f_gi_ltf info)) AX_TXD_GI_LTF OR
      txd_flag (t_f_er info) AX_TXD_DATA_ER OR
      txd_flag (t_f_dcm info) AX_TXD_DATA_DCM OR
      txd_flag (t_f_stbc info) AX_TXD_DATA_STBC OR
      txd_flag (t_f_ldpc info) AX_TXD_DATA_LDPC OR
      txd_flag (t_dis_data_rate_fb info) AX_TXD_DISDATAFB OR
      txd_flag (t_dis_rts_rate_fb info) AX_TXD_DISRTSFB OR
      SET_WORD (ucast (t_hal_port info)) AX_TXD_MULTIPORT_ID OR
      SET_WORD (ucast (t_mbssid info)) AX_TXD_MBSSID)"

definition txd_agg_dw1 :: "rtw_t_meta_data \<Rightarrow> u32" where
  "txd_agg_dw1 info =
     (SET_WORD (ucast (t_max_agg_num info)) AX_TXD_MAX_AGG_NUM OR
      SET_WORD (ucast (t_data_tx_cnt_lmt info)) AX_TXD_DATA_TXCNT_LMT OR
      txd_flag (t_data_tx_cnt_lmt_en info) AX_TXD_DATA_TXCNT_LMT_SEL OR
      (if t_bc info \<noteq> 0 \<or> t_mc info \<noteq> 0 then AX_TXD_BMC else 0) OR
      txd_flag (t_nav_use_hdr info) AX_TXD_NAVUSEHDR)"

definition txd_sec_dw2 :: "rtw_t_meta_data \<Rightarrow> u32" where
  "txd_sec_dw2 info =
     (SET_WORD (ucast (t_life_time_sel info)) AX_TXD_LIFETIME_SEL OR
      SET_WORD (ucast (t_sec_type info)) AX_TXD_SECTYPE OR
      txd_flag (t_sec_hw_enc info) AX_TXD_SEC_HW_ENC OR
      SET_WORD (ucast (t_sec_cam_idx info)) AX_TXD_SEC_CAM_IDX OR
      SET_WORD (ucast (t_ampdu_density info)) AX_TXD_AMPDU_DENSITY)"

definition txd_snd_dw3 :: "rtw_t_meta_data \<Rightarrow> u32" where
  "txd_snd_dw3 info =
     (txd_flag (t_sifs_tx info) AX_TXD_SIFS_TX OR
      SET_WORD (ucast (t_ndpa info)) AX_TXD_NDPA OR
      SET_WORD (ucast (t_snd_pkt_sel info)) AX_TXD_SND_PKT_SEL OR
      txd_flag (t_rtt_en info) AX_TXD_RTT_EN OR
      txd_flag (t_spe_rpt info) AX_TXD_SPE_RPT)"

definition txd_rts_dw4 :: "rtw_t_meta_data \<Rightarrow> u32" where
  "txd_rts_dw4 info =
     (txd_flag (t_rts_en info) AX_TXD_RTS_EN OR
      txd_flag (t_cts2self info) AX_TXD_CTS2SELF OR
      SET_WORD (ucast (t_rts_cca_mode info)) AX_TXD_CCA_RTS OR
      txd_flag (t_hw_rts_en info) AX_TXD_HW_RTS_EN OR
      SET_WORD (ucast (t_sw_define info)) AX_TXD_SW_DEFINE)"

definition txd_data_info :: "rtw_t_meta_data \<Rightarrow> u32 list" where
  "txd_data_info info =
     [txd_rate_dw0 info OR txd_flag (t_ack_ch_info info) AX_TXD_ACK_CH_INFO,
      txd_agg_dw1 info OR
        (txd_flag (t_a_ctrl_uph info) AX_TXD_A_CTRL_UPH OR
         txd_flag (t_a_ctrl_bsr info) AX_TXD_A_CTRL_BSR OR
         txd_flag (t_a_ctrl_cas info) AX_TXD_A_CTRL_CAS OR
         SET_WORD (ucast (t_data_rty_lowest_rate info)) AX_TXD_DATA_RTY_LOWEST_RATE),
      txd_sec_dw2 info, txd_snd_dw3 info, txd_rts_dw4 info, 0]"

text \<open>What both frame handlers do last: the WD info after the body, then the check sum.\<close>

definition txd_finish :: "mac_ax_adapter \<Rightarrow> rtw_t_meta_data \<Rightarrow> u32 list \<Rightarrow> u32 list \<Rightarrow> (nat \<Rightarrow> u32) \<Rightarrow> nat \<Rightarrow> u32" where
  "txd_finish adapter info wdb wdi buf =
     (let buf1 = put_dwords 0 wdb buf;
          buf2 = (if t_wdinfo_en info \<noteq> 0 then put_dwords 6 wdi buf1 else buf1)
      in if wd_checksum_en adapter \<noteq> 0 then mac_wd_checksum info buf2 else buf2)"

definition txdes_proc_data ::
  "mac_ax_adapter \<Rightarrow> rtw_t_meta_data \<Rightarrow> (nat \<Rightarrow> u32) \<Rightarrow> nat \<Rightarrow>
     (mac_ret \<times> rtw_t_meta_data \<times> (nat \<Rightarrow> u32)) option" where
  "txdes_proc_data adapter info buf len =
     (if len \<noteq> mac_txdesc_len info then Some (MACBUFSZ, info, buf)
      else if MAC_AX_DATA_HIQ < t_dma_ch info then Some (MACTXCHDMA, info, buf)
      else if bad_pktlen info then Some (MACFUNCINPUT, info, buf)
      else
        case txd_intf_dw0 adapter info of None \<Rightarrow> Some (MACINTF, info, buf)
        | Some dw0 \<Rightarrow>
            (case txd_data_qsel info of None \<Rightarrow> None
             | Some qsel \<Rightarrow>
                 let info1 = (if TID_MAX_NUM \<le> unat (t_tid info) then info\<lparr>t_tid := of_nat (TID_MAX_NUM - 1)\<rparr> else info)
                 in Some (MACSUCCESS, info1,
                      txd_finish adapter info1 (txd_data_body dw0 (txd_data_ch adapter info) qsel info1)
                        (txd_data_info info1) buf)))"

definition txd_mgnt_body :: "u32 \<Rightarrow> rtw_t_meta_data \<Rightarrow> u32 list" where
  "txd_mgnt_body dw0 info =
     [dw0 OR
       (SET_WORD (ucast (t_hw_seq_mode info)) AX_TXD_EN_HWSEQ_MODE OR
        SET_WORD (ucast (t_hw_ssn_sel info)) AX_TXD_HW_SSN_SEL OR
        SET_WORD (ucast (t_hdr_len info)) AX_TXD_HDR_LLC_LEN OR
        txd_flag (t_wdinfo_en info) AX_TXD_WDINFO_EN) OR
       SET_WORD (ucast (if t_band info \<noteq> 0 then MAC_AX_DMA_B1MG else MAC_AX_DMA_B0MG)) AX_TXD_CH_DMA,
      0,
      SET_WORD (ucast (t_pktlen info)) AX_TXD_TXPKTSIZE OR
        SET_WORD (ucast (if t_band info \<noteq> 0 then MAC_AX_MG1_SEL else MAC_AX_MG0_SEL)) AX_TXD_QSEL OR
        SET_WORD (ucast (t_macid info)) AX_TXD_MACID,
      SET_WORD (ucast (t_sw_seq info)) AX_TXD_WIFI_SEQ OR txd_flag (t_bk info) AX_TXD_BK,
      0, 0]"

definition txd_mgnt_info :: "rtw_t_meta_data \<Rightarrow> u32 list" where
  "txd_mgnt_info info = [txd_rate_dw0 info, txd_agg_dw1 info, txd_sec_dw2 info, txd_snd_dw3 info, txd_rts_dw4 info, 0]"

definition txdes_proc_mgnt ::
  "mac_ax_adapter \<Rightarrow> rtw_t_meta_data \<Rightarrow> (nat \<Rightarrow> u32) \<Rightarrow> nat \<Rightarrow>
     (mac_ret \<times> rtw_t_meta_data \<times> (nat \<Rightarrow> u32)) option" where
  "txdes_proc_mgnt adapter info buf len =
     (if len \<noteq> mac_txdesc_len info then Some (MACBUFSZ, info, buf)
      else if bad_pktlen info then Some (MACFUNCINPUT, info, buf)
      else
        case txd_intf_dw0 adapter info of None \<Rightarrow> Some (MACINTF, info, buf)
        | Some dw0 \<Rightarrow>
            Some (MACSUCCESS, info, txd_finish adapter info (txd_mgnt_body dw0 info) (txd_mgnt_info info) buf))"

definition mac_build_txdesc ::
  "mac_ax_adapter \<Rightarrow> rtw_t_meta_data \<Rightarrow> (nat \<Rightarrow> u32) \<Rightarrow> nat \<Rightarrow>
     (mac_ret \<times> rtw_t_meta_data \<times> (nat \<Rightarrow> u32)) option" where
  "mac_build_txdesc adapter info buf len =
     (case t_type info of
        RTW_PHL_PKT_TYPE_H2C \<Rightarrow> txdes_proc_h2c_fwdl info buf len
      | RTW_PHL_PKT_TYPE_FWDL \<Rightarrow> txdes_proc_h2c_fwdl info buf len
      | RTW_PHL_PKT_TYPE_DATA \<Rightarrow> txdes_proc_data adapter info buf len
      | RTW_PHL_PKT_TYPE_MGNT \<Rightarrow> txdes_proc_mgnt adapter info buf len
      | _ \<Rightarrow> Some (MACNOITEM, info, buf))"

text \<open>The descriptor of an aggregate gets its packet count in dword 1 of the first WD.\<close>

definition usb_tx_agg_cfg_8852a :: "u8w \<Rightarrow> (nat \<Rightarrow> u32) \<Rightarrow> nat \<Rightarrow> u32" where
  "usb_tx_agg_cfg_8852a agg_num buf = buf(1 := SET_CLR_WORD (buf 1) (ucast agg_num) AX_TXD_DMA_TXAGG_NUM)"

text \<open>\<open>mask_ofst\<close> and \<open>mask_agg\<close> select what is refilled.\<close>

definition mac_refill_txdesc ::
  "mac_ax_adapter \<Rightarrow> rtw_t_meta_data \<Rightarrow> u8w \<Rightarrow> u8w \<Rightarrow> u8w \<Rightarrow> u8w \<Rightarrow> (nat \<Rightarrow> u32) \<Rightarrow> nat \<Rightarrow> u32" where
  "mac_refill_txdesc adapter info mask_ofst mask_agg packet_offset agg_num buf =
     (let dw0 = buf 0; dw1 = buf 1;
          buf1 = (if mask_ofst \<noteq> 0 then buf(0 := dw0 OR txd_flag packet_offset AX_TXD_PKT_OFFSET) else buf);
          buf2 = (if ucast mask_agg = snd AX_TXD_DMA_TXAGG_NUM
                  then buf1(1 := SET_CLR_WORD dw1 (ucast agg_num) AX_TXD_DMA_TXAGG_NUM) else buf1)
      in if wd_checksum_en adapter \<noteq> 0 then mac_wd_checksum info buf2 else buf2)"

section \<open>Reading fields back\<close>

lemmas txd_defs =
  AX_TXD_WP_OFFSET_def AX_TXD_WDINFO_EN_def AX_TXD_PKT_OFFSET_def AX_TXD_FWDL_EN_def AX_TXD_CH_DMA_def
  AX_TXD_HDR_LLC_LEN_def AX_TXD_STF_MODE_def AX_TXD_WD_PAGE_def AX_TXD_HW_AES_IV_def AX_TXD_HWAMSDU_def
  AX_TXD_SMH_EN_def AX_TXD_HW_SSN_SEL_def AX_TXD_EN_HWSEQ_MODE_def AX_TXD_DMA_TXAGG_NUM_def
  AX_TXD_SHCUT_CAMID_def AX_TXD_MACID_def AX_TXD_TID_IND_def AX_TXD_QSEL_def AX_TXD_TXPKTSIZE_def AX_TXD_BK_def
  AX_TXD_AGG_EN_def AX_TXD_WIFI_SEQ_def AX_TXD_TXDESC_CHECKSUM_def AX_TXD_ACK_CH_INFO_def
  AX_TXD_USERATE_SEL_def AX_TXD_DATA_BW_def AX_TXD_GI_LTF_def AX_TXD_DATARATE_def AX_TXD_DATA_ER_def
  AX_TXD_DATA_DCM_def AX_TXD_DATA_STBC_def AX_TXD_DATA_LDPC_def AX_TXD_DISDATAFB_def AX_TXD_DISRTSFB_def
  AX_TXD_DATA_BW_ER_def AX_TXD_MULTIPORT_ID_def AX_TXD_MBSSID_def AX_TXD_DATA_TXCNT_LMT_SEL_def
  AX_TXD_DATA_TXCNT_LMT_def AX_TXD_DATA_RTY_LOWEST_RATE_def AX_TXD_A_CTRL_CAS_def AX_TXD_A_CTRL_BSR_def
  AX_TXD_A_CTRL_UPH_def AX_TXD_BMC_def AX_TXD_NAVUSEHDR_def AX_TXD_MAX_AGG_NUM_def AX_TXD_AMPDU_DENSITY_def
  AX_TXD_LIFETIME_SEL_def AX_TXD_SECTYPE_def AX_TXD_SEC_HW_ENC_def AX_TXD_SEC_CAM_IDX_def AX_TXD_SPE_RPT_def
  AX_TXD_RTT_EN_def AX_TXD_SIFS_TX_def AX_TXD_SND_PKT_SEL_def AX_TXD_NDPA_def AX_TXD_HW_RTS_EN_def
  AX_TXD_CCA_RTS_def AX_TXD_CTS2SELF_def AX_TXD_RTS_EN_def AX_TXD_SW_DEFINE_def

definition fld_mask :: "txd_field \<Rightarrow> u32" where
  "fld_mask f = push_bit (fst f) (snd f)"

definition fld_fits :: "txd_field \<Rightarrow> bool" where
  "fld_fits f \<longleftrightarrow> drop_bit (fst f) (fld_mask f) = snd f"

named_theorems txd_simps \<open>reading a field of a dword built from fields and flags\<close>

lemma get_or [txd_simps]: "GET_FIELD (a OR b) f = GET_FIELD a f OR GET_FIELD b f"
  by (rule bit_word_eqI) (auto simp: GET_FIELD_def bit_simps)

lemma get_zero [txd_simps]: "GET_FIELD 0 f = 0"
  by (simp add: GET_FIELD_def)

lemma bit_set_word: "bit (SET_WORD v g) n \<longleftrightarrow> bit (fld_mask g) n \<and> fst g \<le> n \<and> bit v (n - fst g)"
  by (auto simp: SET_WORD_def fld_mask_def bit_simps)

lemma get_set_other [txd_simps]: "fld_mask f AND fld_mask g = 0 \<Longrightarrow> GET_FIELD (SET_WORD v g) f = 0"
proof (rule bit_word_eqI)
  fix n
  assume d: "fld_mask f AND fld_mask g = 0" and "n < LENGTH(32)"
  have "\<not> (bit (fld_mask f) (n + fst f) \<and> bit (fld_mask g) (n + fst f))"
    using arg_cong [OF d, of "\<lambda>w. bit w (n + fst f)"] by (simp add: bit_simps)
  moreover have "bit (fld_mask g) (n + fst f) \<Longrightarrow> n + fst f < 32" by (auto dest: bit_imp_le_length)
  ultimately show "bit (GET_FIELD (SET_WORD v g) f) n \<longleftrightarrow> bit (0 :: u32) n"
    by (auto simp: GET_FIELD_def bit_simps bit_set_word fld_mask_def add.commute)
qed

lemma get_set_same [txd_simps]: "fld_fits f \<Longrightarrow> GET_FIELD (SET_WORD v f) f = v AND snd f"
proof (rule bit_word_eqI)
  fix n
  assume d: "fld_fits f" and "n < LENGTH(32)"
  have "bit (snd f) n \<longleftrightarrow> bit (fld_mask f) (n + fst f)"
    using arg_cong [OF d [unfolded fld_fits_def], of "\<lambda>w. bit w n"] by (simp add: bit_simps add.commute)
  then show "bit (GET_FIELD (SET_WORD v f) f) n \<longleftrightarrow> bit (v AND snd f) n"
    by (auto simp: GET_FIELD_def bit_simps bit_set_word add.commute)
qed

lemma get_BIT_other [txd_simps]: "\<not> bit (fld_mask f) k \<Longrightarrow> GET_FIELD (BIT k) f = 0"
proof (rule bit_word_eqI)
  fix n
  assume d: "\<not> bit (fld_mask f) k" and "n < LENGTH(32)"
  then show "bit (GET_FIELD (BIT k) f) n \<longleftrightarrow> bit (0 :: u32) n"
    by (auto simp: GET_FIELD_def bit_simps fld_mask_def BIT_def)
qed

lemma get_flag [txd_simps]: "\<not> bit (fld_mask f) k \<Longrightarrow> GET_FIELD (txd_flag x (BIT k)) f = 0"
  by (simp add: txd_flag_def get_zero get_BIT_other)

lemma get_if [txd_simps]: "\<not> bit (fld_mask f) k \<Longrightarrow> GET_FIELD (if b then BIT k else 0) f = 0"
  by (simp add: get_zero get_BIT_other)

lemma bit_flag [txd_simps]: "n < 32 \<Longrightarrow> bit (txd_flag x (BIT k)) n \<longleftrightarrow> x \<noteq> 0 \<and> k = n"
  by (simp add: txd_flag_def bit_BIT)

lemma bit_if_BIT [txd_simps]: "n < 32 \<Longrightarrow> bit (if b then BIT k else 0) n \<longleftrightarrow> b \<and> k = n"
  by (simp add: bit_BIT)

lemma bit_set_out [txd_simps]: "\<not> bit (fld_mask g) n \<Longrightarrow> \<not> bit (SET_WORD v g) n"
  by (simp add: bit_set_word)

lemma put_dwords_simps [txd_simps]:
  "i \<le> k \<Longrightarrow> k < i + length ws \<Longrightarrow> put_dwords i ws buf k = ws ! (k - i)"
  "k < i \<or> i + length ws \<le> k \<Longrightarrow> put_dwords i ws buf k = buf k"
  by (auto simp: put_dwords_def)

lemma get_clr_same: "fld_fits f \<Longrightarrow> GET_FIELD (SET_CLR_WORD w v f) f = v AND snd f"
proof -
  assume f: "fld_fits f"
  have "GET_FIELD (w AND NOT (fld_mask f)) f = 0"
    by (rule bit_word_eqI) (auto simp: GET_FIELD_def fld_mask_def bit_simps)
  then show ?thesis
    using get_set_same [OF f, of v] get_or [of "w AND NOT (fld_mask f)" "SET_WORD v f" f]
    by (simp add: SET_CLR_WORD_def SET_WORD_def fld_mask_def)
qed

lemma get_clr_other:
  assumes "fld_mask f AND fld_mask g = 0"
  shows "GET_FIELD (SET_CLR_WORD w v g) f = GET_FIELD w f"
proof -
  have d: "\<not> (bit (fld_mask f) k \<and> bit (fld_mask g) k)" for k
    using arg_cong [OF assms, of "\<lambda>w. bit w k"] by (simp add: bit_simps)
  have "GET_FIELD (w AND NOT (fld_mask g)) f = GET_FIELD w f"
  proof (rule bit_word_eqI)
    fix n
    assume "n < LENGTH(32)"
    show "bit (GET_FIELD (w AND NOT (fld_mask g)) f) n \<longleftrightarrow> bit (GET_FIELD w f) n"
      using d [of "n + fst f"] by (auto simp: GET_FIELD_def fld_mask_def bit_simps add.commute dest: bit_imp_le_length)
  qed
  then show ?thesis
    using get_set_other [OF assms, of v] get_or [of "w AND NOT (fld_mask g)" "SET_WORD v g" f]
    by (simp add: SET_CLR_WORD_def SET_WORD_def fld_mask_def)
qed

lemmas txd_eval = txd_simps txd_defs fld_mask_def fld_fits_def bit_or_iff bit_BIT

lemma data_body_fields:
  "GET_FIELD (txd_data_body dw0 ch q info ! 2) AX_TXD_TXPKTSIZE = ucast (t_pktlen info) AND 0x3fff"
  "GET_FIELD (txd_data_body dw0 ch q info ! 2) AX_TXD_MACID = ucast (t_macid info) AND 0x7f"
  "GET_FIELD (txd_data_body dw0 ch q info ! 2) AX_TXD_QSEL = ucast q AND 0x3f"
  "bit (txd_data_body dw0 ch q info ! 2) 23 = tid_ind ! unat (t_tid info)"
  "GET_FIELD (txd_data_body dw0 ch q info ! 3) AX_TXD_WIFI_SEQ = ucast (t_sw_seq info) AND 0xfff"
  "bit (txd_data_body dw0 ch q info ! 3) 12 \<longleftrightarrow> t_ampdu_en info \<noteq> 0"
  "bit (txd_data_body dw0 ch q info ! 3) 13 \<longleftrightarrow> t_bk info \<noteq> 0 \<or> t_ack_ch_info info \<noteq> 0"
  "GET_FIELD (txd_data_body dw0 ch q info ! 1) AX_TXD_SHCUT_CAMID = ucast (t_shcut_camid info) AND 0xff"
  by (simp_all add: txd_data_body_def txd_eval)

lemma intf_dw0_fields:
  assumes "txd_intf_dw0 adapter info = Some dw0"
  shows "GET_FIELD dw0 AX_TXD_CH_DMA = 0" "GET_FIELD dw0 AX_TXD_HDR_LLC_LEN = 0" "GET_FIELD dw0 AX_TXD_WP_OFFSET = 0"
    "\<not> bit dw0 22"
  using assms by (auto simp: txd_intf_dw0_def txd_eval split: mac_ax_intf.splits if_splits)

lemma data_dw0_fields:
  assumes "txd_intf_dw0 adapter info0 = Some dw0"
  shows "GET_FIELD (txd_data_body dw0 ch q info ! 0) AX_TXD_CH_DMA = ucast ch AND 0xf"
    "GET_FIELD (txd_data_body dw0 ch q info ! 0) AX_TXD_HDR_LLC_LEN = ucast (t_hdr_len info) AND 0x1f"
    "GET_FIELD (txd_data_body dw0 ch q info ! 0) AX_TXD_WP_OFFSET = ucast (t_wp_offset info) AND 0xff"
    "bit (txd_data_body dw0 ch q info ! 0) 22 \<longleftrightarrow> t_wdinfo_en info \<noteq> 0"
  using intf_dw0_fields [OF assms] by (simp_all add: txd_data_body_def txd_eval)

section \<open>The check sum\<close>

lemma xor_dwords_acc: "xor_dwords buf i n c = c XOR xor_dwords buf i n 0"
proof (induction n arbitrary: i c)
  case 0
  then show ?case by simp
next
  case (Suc n)
  show ?case using Suc.IH [of "i + 1" "c XOR half_xor (buf i)"] Suc.IH [of "i + 1" "half_xor (buf i)"]
    by (simp add: ac_simps)
qed

lemma xor_dwords_upd:
  "i \<le> k \<Longrightarrow> k < i + n \<Longrightarrow>
   xor_dwords (buf(k := w)) i n c = xor_dwords buf i n c XOR half_xor (buf k) XOR half_xor w"
proof (induction n arbitrary: i c)
  case 0
  then show ?case by simp
next
  case (Suc n)
  have u: "k < i \<Longrightarrow> xor_dwords (buf(k := w)) i n c = xor_dwords buf i n c" for i c
    by (induction n arbitrary: i c) simp_all
  show ?case
  proof (cases "k = i")
    case True
    then show ?thesis using u [of "i + 1"] xor_dwords_acc [of buf "i + 1" n "c XOR half_xor w"]
        xor_dwords_acc [of buf "i + 1" n "c XOR half_xor (buf i)"] by (simp add: ac_simps fun_upd_def)
  next
    case False
    then show ?thesis using Suc by simp
  qed
qed

lemma half_xor_low:
  assumes "\<And>n. bit (m :: u32) n \<longleftrightarrow> n < 16"
  shows "half_xor (SET_CLR_WORD w (ucast c) (0, m)) = half_xor (SET_CLR_WORD w 0 (0, m)) XOR c"
  by (intro bit_word_eqI) (auto simp: half_xor_def SET_CLR_WORD_def bit_simps assms)

lemma half_xor_checksum:
  "half_xor (SET_CLR_WORD w (ucast c) AX_TXD_TXDESC_CHECKSUM) = half_xor (SET_CLR_WORD w 0 AX_TXD_TXDESC_CHECKSUM) XOR c"
proof -
  have m: "(0xffff :: u32) = mask 16" by (simp add: mask_eq_exp_minus_1)
  have "bit (0xffff :: u32) n \<longleftrightarrow> n < 16" for n unfolding m bit_mask_iff by auto
  then show ?thesis unfolding AX_TXD_TXDESC_CHECKSUM_def by (rule half_xor_low)
qed

lemma checksum_xor_zero: "xor_dwords (mac_wd_checksum info buf) 0 (mac_txdesc_len info div 4) 0 = 0"
proof -
  let ?b = "buf(4 := SET_CLR_WORD (buf 4) 0 AX_TXD_TXDESC_CHECKSUM)" and ?n = "mac_txdesc_len info div 4"
  have n: "4 < 0 + ?n" by (simp add: mac_txdesc_len_def WD_BODY_BYTES_def WD_INFO_BYTES_def)
  show ?thesis
    using xor_dwords_upd [OF _ n, of ?b "SET_CLR_WORD (buf 4) (ucast (xor_dwords ?b 0 ?n 0)) AX_TXD_TXDESC_CHECKSUM" 0]
    by (simp add: mac_wd_checksum_def Let_def half_xor_checksum)
qed

section \<open>What the builder does\<close>

lemma checksum_other: "k \<noteq> 4 \<Longrightarrow> mac_wd_checksum info buf k = buf k"
  by (simp add: mac_wd_checksum_def Let_def)

lemma finish_body:
  "length wdb = 6 \<Longrightarrow> k < 6 \<Longrightarrow> k \<noteq> 4 \<Longrightarrow> txd_finish adapter info wdb wdi buf k = wdb ! k"
  by (simp add: txd_finish_def Let_def checksum_other txd_simps)

lemma finish_info:
  "length wdb = 6 \<Longrightarrow> length wdi = 6 \<Longrightarrow> t_wdinfo_en info \<noteq> 0 \<Longrightarrow> 6 \<le> k \<Longrightarrow> k < 12 \<Longrightarrow>
   txd_finish adapter info wdb wdi buf k = wdi ! (k - 6)"
  by (simp add: txd_finish_def Let_def checksum_other txd_simps)

lemma finish_outside:
  "length wdb = 6 \<Longrightarrow> length wdi = 6 \<Longrightarrow> t_type info = RTW_PHL_PKT_TYPE_DATA \<or> t_type info = RTW_PHL_PKT_TYPE_MGNT \<Longrightarrow>
   mac_txdesc_len info div 4 \<le> k \<Longrightarrow> txd_finish adapter info wdb wdi buf k = buf k"
  by (auto simp: txd_finish_def Let_def checksum_other txd_simps mac_txdesc_len_def WD_BODY_BYTES_def WD_INFO_BYTES_def
      split: if_splits)

lemma body_lengths [simp]:
  "length (txd_data_body dw0 ch q info) = 6" "length (txd_data_info info) = 6"
  "length (txd_mgnt_body dw0 info) = 6" "length (txd_mgnt_info info) = 6"
  by (simp_all add: txd_data_body_def txd_data_info_def txd_mgnt_body_def txd_mgnt_info_def)

lemma pktlen_exact: "\<not> bad_pktlen info \<Longrightarrow> ucast (t_pktlen info) AND 0x3fff = (ucast (t_pktlen info) :: u32)"
proof -
  assume "\<not> bad_pktlen info"
  then have "(ucast (t_pktlen info) :: u32) < 2 ^ 14" by (simp add: bad_pktlen_def AX_TXD_TXPKTSIZE_def not_less word_le_nat_alt word_less_nat_alt)
  then show ?thesis using less_mask_eq [of "ucast (t_pktlen info) :: u32" 14] by (simp add: mask_eq_exp_minus_1)
qed

lemma data_success:
  assumes "txdes_proc_data adapter info buf len = Some (MACSUCCESS, info', buf')"
  obtains dw0 q where "txd_intf_dw0 adapter info = Some dw0" "txd_data_qsel info = Some q" "len = mac_txdesc_len info"
    "\<not> bad_pktlen info" "t_dma_ch info \<le> MAC_AX_DATA_HIQ"
    "info' = (if TID_MAX_NUM \<le> unat (t_tid info) then info\<lparr>t_tid := of_nat (TID_MAX_NUM - 1)\<rparr> else info)"
    "buf' = txd_finish adapter info' (txd_data_body dw0 (txd_data_ch adapter info) q info') (txd_data_info info') buf"
  using assms by (auto simp: txdes_proc_data_def Let_def not_less split: if_splits option.splits)

lemma len_keeps_tid: "mac_txdesc_len (if b then info\<lparr>t_tid := x\<rparr> else info) = mac_txdesc_len info"
  by (simp add: mac_txdesc_len_def)

lemma ch_exact:
  assumes "t_dma_ch info \<le> MAC_AX_DATA_HIQ"
  shows "ucast (txd_data_ch adapter info) AND 0xf = (ucast (txd_data_ch adapter info) :: u32)"
proof -
  have "txd_data_ch adapter info < 16"
    using assms by (auto simp: txd_data_ch_def MAC_AX_DATA_HIQ_def MAC_AX_DMA_B0MG_def MAC_AX_DMA_B1MG_def
        MAC_AX_DMA_B0HI_def MAC_AX_DMA_B1HI_def word_less_nat_alt word_le_nat_alt)
  then have "(ucast (txd_data_ch adapter info) :: u32) < 2 ^ 4"
    by (simp add: word_less_nat_alt unsigned_ucast_eq take_bit_nat_eq_self)
  then show ?thesis using less_mask_eq [of "ucast (txd_data_ch adapter info) :: u32" 4] by (simp add: mask_eq_exp_minus_1)
qed

section \<open>The layout of a data descriptor\<close>

text \<open>
  What the hardware is to read from the descriptor of a data frame, as a table of its own: a place is the dword, the
  lowest bit and the number of bits; the bits between the fields are zero. The check sum field of dword 4 is not listed.
\<close>

type_synonym txd_entry = "(nat \<times> nat \<times> nat) \<times> u32"

definition txd_bits :: "(nat \<Rightarrow> u32) \<Rightarrow> nat \<times> nat \<times> nat \<Rightarrow> u32" where
  "txd_bits w = (\<lambda>(i, sh, n). take_bit n (drop_bit sh (w i)))"

definition truth :: "bool \<Rightarrow> u32" where
  "truth b = (if b then 1 else 0)"

text \<open>The channel and the queue: high-queue frames use the management channel of the band on USB.\<close>

definition doc_channel :: "mac_ax_adapter \<Rightarrow> rtw_t_meta_data \<Rightarrow> u32" where
  "doc_channel adapter info =
     (if t_dma_ch info = 9 then (if intf adapter = MAC_AX_INTF_USB then (if t_band info = 0 then 8 else 10)
                                 else (if t_band info = 0 then 9 else 11))
      else ucast (t_dma_ch info))"

definition doc_qsel :: "rtw_t_meta_data \<Rightarrow> u32" where
  "doc_qsel info = (if t_dma_ch info = 9 then (if t_band info = 0 then 17 else 25)
     else take_bit 6 (ucast (push_bit 2 (t_wmm info) OR [0, 1, 1, 0, 2, 2, 3, 3] ! unat (t_tid info))))"

text \<open>The WD body.\<close>

definition doc_data_body :: "mac_ax_adapter \<Rightarrow> rtw_t_meta_data \<Rightarrow> txd_entry list" where
  "doc_data_body adapter info =
     [((0, 0, 2), take_bit 2 (ucast (t_hw_seq_mode info))),
      ((0, 2, 2), take_bit 2 (ucast (t_hw_ssn_sel info))),
      ((0, 4, 1), truth (t_smh_en info \<noteq> 0)),
      ((0, 5, 1), truth (t_hw_amsdu info \<noteq> 0)),
      ((0, 6, 1), truth (t_hw_aes_iv info \<noteq> 0)),
      ((0, 7, 1), truth (intf adapter = MAC_AX_INTF_PCIE \<and> t_wd_page_size info \<noteq> 0)),
      ((0, 8, 2), 0),
      ((0, 10, 1), truth (intf adapter = MAC_AX_INTF_PCIE \<longrightarrow>
          qta_mode adapter = MAC_AX_QTA_SCC_STF \<or> qta_mode adapter = MAC_AX_QTA_DBCC_STF)),
      ((0, 11, 5), take_bit 5 (ucast (t_hdr_len info))),
      ((0, 16, 4), doc_channel adapter info),
      ((0, 20, 1), 0),
      ((0, 21, 1), truth (intf adapter = MAC_AX_INTF_USB \<and> t_usb_pkt_ofst info \<noteq> 0)),
      ((0, 22, 1), truth (t_wdinfo_en info \<noteq> 0)),
      ((0, 23, 1), 0),
      ((0, 24, 8), ucast (t_wp_offset info)),
      ((1, 0, 8), ucast (t_shcut_camid info)),
      ((1, 8, 24), 0),
      ((2, 0, 14), ucast (t_pktlen info)),
      ((2, 14, 3), 0),
      ((2, 17, 6), doc_qsel info),
      ((2, 23, 1), truth (unat (t_tid info) \<in> {2, 3, 5} \<or> 7 \<le> unat (t_tid info))),
      ((2, 24, 7), take_bit 7 (ucast (t_macid info))),
      ((2, 31, 1), 0),
      ((3, 0, 12), take_bit 12 (ucast (t_sw_seq info))),
      ((3, 12, 1), truth (t_ampdu_en info \<noteq> 0)),
      ((3, 13, 1), truth (t_bk info \<noteq> 0 \<or> t_ack_ch_info info \<noteq> 0)),
      ((3, 14, 18), 0),
      ((4, 16, 16), 0),
      ((5, 0, 32), 0)]"

text \<open>The WD info.\<close>

definition doc_data_info :: "rtw_t_meta_data \<Rightarrow> txd_entry list" where
  "doc_data_info info =
     [((6, 0, 4), take_bit 4 (ucast (t_mbssid info))),
      ((6, 4, 3), take_bit 3 (ucast (t_hal_port info))),
      ((6, 7, 1), 0),
      ((6, 8, 1), truth (t_data_bw_er info \<noteq> 0)),
      ((6, 9, 1), truth (t_dis_rts_rate_fb info \<noteq> 0)),
      ((6, 10, 1), truth (t_dis_data_rate_fb info \<noteq> 0)),
      ((6, 11, 1), truth (t_f_ldpc info \<noteq> 0)),
      ((6, 12, 1), truth (t_f_stbc info \<noteq> 0)),
      ((6, 13, 1), 0),
      ((6, 14, 1), truth (t_f_dcm info \<noteq> 0)),
      ((6, 15, 1), truth (t_f_er info \<noteq> 0)),
      ((6, 16, 9), take_bit 9 (ucast (t_f_rate info))),
      ((6, 25, 3), take_bit 3 (ucast (t_f_gi_ltf info))),
      ((6, 28, 2), take_bit 2 (ucast (t_f_bw info))),
      ((6, 30, 1), truth (t_userate_sel info \<noteq> 0)),
      ((6, 31, 1), truth (t_ack_ch_info info \<noteq> 0)),
      ((7, 0, 8), ucast (t_max_agg_num info)),
      ((7, 8, 2), 0),
      ((7, 10, 1), truth (t_nav_use_hdr info \<noteq> 0)),
      ((7, 11, 1), truth (t_bc info \<noteq> 0 \<or> t_mc info \<noteq> 0)),
      ((7, 12, 1), 0),
      ((7, 13, 1), truth (t_a_ctrl_uph info \<noteq> 0)),
      ((7, 14, 1), truth (t_a_ctrl_bsr info \<noteq> 0)),
      ((7, 15, 1), truth (t_a_ctrl_cas info \<noteq> 0)),
      ((7, 16, 9), take_bit 9 (ucast (t_data_rty_lowest_rate info))),
      ((7, 25, 6), take_bit 6 (ucast (t_data_tx_cnt_lmt info))),
      ((7, 31, 1), truth (t_data_tx_cnt_lmt_en info \<noteq> 0)),
      ((8, 0, 8), ucast (t_sec_cam_idx info)),
      ((8, 8, 1), truth (t_sec_hw_enc info \<noteq> 0)),
      ((8, 9, 4), take_bit 4 (ucast (t_sec_type info))),
      ((8, 13, 3), take_bit 3 (ucast (t_life_time_sel info))),
      ((8, 16, 2), 0),
      ((8, 18, 3), take_bit 3 (ucast (t_ampdu_density info))),
      ((8, 21, 11), 0),
      ((9, 0, 1), 0),
      ((9, 1, 2), take_bit 2 (ucast (t_ndpa info))),
      ((9, 3, 3), take_bit 3 (ucast (t_snd_pkt_sel info))),
      ((9, 6, 1), truth (t_sifs_tx info \<noteq> 0)),
      ((9, 7, 2), 0),
      ((9, 9, 1), truth (t_rtt_en info \<noteq> 0)),
      ((9, 10, 1), truth (t_spe_rpt info \<noteq> 0)),
      ((9, 11, 21), 0),
      ((10, 0, 4), take_bit 4 (ucast (t_sw_define info))),
      ((10, 4, 23), 0),
      ((10, 27, 1), truth (t_rts_en info \<noteq> 0)),
      ((10, 28, 1), truth (t_cts2self info \<noteq> 0)),
      ((10, 29, 2), take_bit 2 (ucast (t_rts_cca_mode info))),
      ((10, 31, 1), truth (t_hw_rts_en info \<noteq> 0)),
      ((11, 0, 32), 0)]"

lemma bits_field: "txd_bits w (i, sh, n) = GET_FIELD (w i) (sh, mask n)"
  by (simp add: txd_bits_def GET_FIELD_def take_bit_eq_mask)

lemma get_flag_same: "GET_FIELD (txd_flag x (BIT k)) (k, 1) = (if k < 32 then truth (x \<noteq> 0) else 0)"
  by (rule bit_word_eqI) (auto simp: GET_FIELD_def txd_flag_def truth_def bit_simps BIT_def)

lemma get_if_same: "GET_FIELD (if b then BIT k else 0) (k, 1) = (if k < 32 then truth b else 0)"
  by (rule bit_word_eqI) (auto simp: GET_FIELD_def truth_def bit_simps BIT_def)

lemma get_BIT_same: "GET_FIELD (BIT k) (k, 1) = (if k < 32 then 1 else 0)"
  by (rule bit_word_eqI) (auto simp: GET_FIELD_def bit_simps BIT_def)

lemma truth_simps: "truth True = 1" "truth False = 0"
  by (simp_all add: truth_def)

lemma take_bit_ucast8: "take_bit n (ucast (x :: u8w) :: u32) = ucast x" if "8 \<le> n" for n
  using that by (intro bit_word_eqI) (auto simp: bit_simps dest: bit_imp_le_length)


lemma and_255: "ucast (x :: u8w) AND (255 :: u32) = ucast x"
  using take_bit_ucast8 [of 8 x] by (simp add: take_bit_eq_mask mask_eq_exp_minus_1)

lemmas txd_read = bits_field txd_eval mask_eq_exp_minus_1 get_flag_same get_if_same take_bit_eq_mask and_255 get_BIT_same truth_simps

lemma info_all: "(\<And>i. i < 6 \<Longrightarrow> w (6 + i) = txd_data_info info ! i) \<Longrightarrow> list_all (\<lambda>(k, v). txd_bits w k = v) (doc_data_info info)"
proof -
  assume a: "\<And>i. i < 6 \<Longrightarrow> w (6 + i) = txd_data_info info ! i"
  have w: "w 6 = txd_data_info info ! 0" "w 7 = txd_data_info info ! 1" "w 8 = txd_data_info info ! 2" "w 9 = txd_data_info info ! 3"
    "w 10 = txd_data_info info ! 4" "w 11 = txd_data_info info ! 5"
    using a [of 0] a [of 1] a [of 2] a [of 3] a [of 4] a [of 5] by simp_all
  show ?thesis
    by (simp add: doc_data_info_def txd_read w txd_data_info_def txd_rate_dw0_def txd_agg_dw1_def txd_sec_dw2_def txd_snd_dw3_def txd_rts_dw4_def)
qed

lemma doc_channel_eq: "t_dma_ch info \<le> MAC_AX_DATA_HIQ \<Longrightarrow> ucast (txd_data_ch adapter info) AND 0xf = doc_channel adapter info"
  by (subst ch_exact) (auto simp: txd_data_ch_def doc_channel_def MAC_AX_DATA_HIQ_def MAC_AX_DMA_B0MG_def MAC_AX_DMA_B1MG_def
      MAC_AX_DMA_B0HI_def MAC_AX_DMA_B1HI_def)

lemma doc_qsel_eq: "txd_data_qsel info = Some q \<Longrightarrow> ucast q AND 0x3f = doc_qsel info"
  by (auto simp: txd_data_qsel_def doc_qsel_def MAC_AX_DATA_HIQ_def MAC_AX_HI0_SEL_def MAC_AX_HI1_SEL_def qsel_l_def
      take_bit_eq_mask mask_eq_exp_minus_1 split: if_splits)

lemma doc_tid_ind: "tid_ind ! min 7 n \<longleftrightarrow> n \<in> {2, 3, 5} \<or> 7 \<le> n"
proof (cases "n < 7")
  case True
  then have "n \<in> {0, 1, 2, 3, 4, 5, 6}" by auto
  then show ?thesis by (auto simp: tid_ind_def)
qed (simp add: tid_ind_def)

lemma intf_bits:
  assumes "txd_intf_dw0 adapter info = Some dw0"
  shows "GET_FIELD dw0 (0, 3) = 0" "GET_FIELD dw0 (2, 3) = 0" "GET_FIELD dw0 (4, 1) = 0" "GET_FIELD dw0 (5, 1) = 0" "GET_FIELD dw0 (6, 1) = 0"
    "GET_FIELD dw0 (7, 1) = truth (intf adapter = MAC_AX_INTF_PCIE \<and> t_wd_page_size info \<noteq> 0)" "GET_FIELD dw0 (8, 3) = 0"
    "GET_FIELD dw0 (10, 1) = truth (intf adapter = MAC_AX_INTF_PCIE \<longrightarrow>
          qta_mode adapter = MAC_AX_QTA_SCC_STF \<or> qta_mode adapter = MAC_AX_QTA_DBCC_STF)"
    "GET_FIELD dw0 (11, 31) = 0" "GET_FIELD dw0 (16, 15) = 0" "GET_FIELD dw0 (20, 1) = 0"
    "GET_FIELD dw0 (21, 1) = truth (intf adapter = MAC_AX_INTF_USB \<and> t_usb_pkt_ofst info \<noteq> 0)"
    "GET_FIELD dw0 (22, 1) = 0" "GET_FIELD dw0 (23, 1) = 0" "GET_FIELD dw0 (24, 255) = 0"
  using assms by (auto simp: txd_intf_dw0_def txd_read split: mac_ax_intf.splits)

lemma data_body_doc:
  assumes "txd_intf_dw0 adapter info = Some dw0" "txd_data_qsel info = Some q" "\<not> bad_pktlen info" "t_dma_ch info \<le> MAC_AX_DATA_HIQ"
    "info' = (if TID_MAX_NUM \<le> unat (t_tid info) then info\<lparr>t_tid := of_nat (TID_MAX_NUM - 1)\<rparr> else info)"
    "\<And>k. k < 4 \<Longrightarrow> w k = txd_data_body dw0 (txd_data_ch adapter info) q info' ! k" "GET_FIELD (w 4) (16, 0xffff) = 0" "w 5 = 0"
  shows "list_all (\<lambda>(k, v). txd_bits w k = v) (doc_data_body adapter info)"
proof -
  have t: "tid_ind ! unat (t_tid info') \<longleftrightarrow> unat (t_tid info) \<in> {2, 3, 5} \<or> 7 \<le> unat (t_tid info)"
  proof -
    have "unat (t_tid info') = min 7 (unat (t_tid info))" by (auto simp: assms(5) TID_MAX_NUM_def min_def)
    then show ?thesis using doc_tid_ind by simp
  qed
  have f: "t_pktlen info' = t_pktlen info" "t_macid info' = t_macid info" "t_sw_seq info' = t_sw_seq info"
    "t_hdr_len info' = t_hdr_len info" "t_ampdu_en info' = t_ampdu_en info" "t_wdinfo_en info' = t_wdinfo_en info"
    "t_hw_seq_mode info' = t_hw_seq_mode info" "t_hw_ssn_sel info' = t_hw_ssn_sel info" "t_smh_en info' = t_smh_en info"
    "t_hw_amsdu info' = t_hw_amsdu info" "t_hw_aes_iv info' = t_hw_aes_iv info" "t_wp_offset info' = t_wp_offset info"
    "t_shcut_camid info' = t_shcut_camid info" "t_bk info' = t_bk info" "t_ack_ch_info info' = t_ack_ch_info info"
    by (simp_all add: assms(5))
  have w: "w 0 = txd_data_body dw0 (txd_data_ch adapter info) q info' ! 0" "w (Suc 0) = txd_data_body dw0 (txd_data_ch adapter info) q info' ! 1"
    "w 2 = txd_data_body dw0 (txd_data_ch adapter info) q info' ! 2" "w 3 = txd_data_body dw0 (txd_data_ch adapter info) q info' ! 3"
    using assms(6) by simp_all
  show ?thesis
    using intf_bits [OF assms(1)] assms(7)
    by (simp add: doc_data_body_def txd_read w txd_data_body_def f assms(8) doc_channel_eq [OF assms(4)] doc_qsel_eq [OF assms(2)]
        pktlen_exact [OF assms(3)] t)
qed

lemma finish_dw4:
  assumes "length wdb = 6" "wdb ! 4 = 0"
  shows "GET_FIELD (txd_finish adapter info wdb wdi buf 4) (16, 0xffff) = 0"
    "wd_checksum_en adapter = 0 \<Longrightarrow> txd_finish adapter info wdb wdi buf 4 = 0"
proof -
  let ?b = "if t_wdinfo_en info \<noteq> 0 then put_dwords 6 wdi (put_dwords 0 wdb buf) else put_dwords 0 wdb buf"
  have z: "?b 4 = 0" using assms by (simp add: txd_simps)
  then show "wd_checksum_en adapter = 0 \<Longrightarrow> txd_finish adapter info wdb wdi buf 4 = 0" by (simp add: txd_finish_def Let_def)
  have "GET_FIELD (SET_CLR_WORD 0 v AX_TXD_TXDESC_CHECKSUM) (16, 0xffff) = 0" for v
    by (subst get_clr_other) (simp_all add: fld_mask_def AX_TXD_TXDESC_CHECKSUM_def get_zero)
  then show "GET_FIELD (txd_finish adapter info wdb wdi buf 4) (16, 0xffff) = 0"
    using z by (simp add: txd_finish_def mac_wd_checksum_def Let_def get_zero)
qed

text \<open>
  C3: what the hardware reads from the descriptor of a data frame is what the driver asked for. When the
  descriptor is built, every field of the body (packet size and channel exactly, the others cut to their width), and
  with a WD info part every field of rate, aggregation, security, sounding and RTS, has the value of the meta data, and
  the bits between the fields are zero, as the tables \<^const>\<open>doc_data_body\<close> and \<^const>\<open>doc_data_info\<close> list them; with
  check sums on, the exclusive or of all half-words is zero; and nothing past the descriptor changes.
\<close>

theorem txdesc_data_roundtrip:
  assumes "mac_build_txdesc adapter info buf len = Some (MACSUCCESS, info', buf')"
    and "t_type info = RTW_PHL_PKT_TYPE_DATA"
  shows "list_all (\<lambda>(place, v). txd_bits buf' place = v) (doc_data_body adapter info) \<and>
    (t_wdinfo_en info \<noteq> 0 \<longrightarrow> list_all (\<lambda>(place, v). txd_bits buf' place = v) (doc_data_info info)) \<and>
    (if wd_checksum_en adapter \<noteq> 0 then xor_dwords buf' 0 (len div 4) 0 = 0 else buf' 4 = 0) \<and>
    (\<forall>k. len div 4 \<le> k \<longrightarrow> buf' k = buf k)"
proof -
  have p: "txdes_proc_data adapter info buf len = Some (MACSUCCESS, info', buf')"
    using assms by (simp add: mac_build_txdesc_def)
  obtain dw0 q where d: "txd_intf_dw0 adapter info = Some dw0" "txd_data_qsel info = Some q" "len = mac_txdesc_len info"
    "\<not> bad_pktlen info" "t_dma_ch info \<le> MAC_AX_DATA_HIQ"
    and i: "info' = (if TID_MAX_NUM \<le> unat (t_tid info) then info\<lparr>t_tid := of_nat (TID_MAX_NUM - 1)\<rparr> else info)"
    and b: "buf' = txd_finish adapter info' (txd_data_body dw0 (txd_data_ch adapter info) q info') (txd_data_info info') buf"
    using data_success [OF p] by metis
  have t: "mac_txdesc_len info' = mac_txdesc_len info" "t_type info' = RTW_PHL_PKT_TYPE_DATA" "txd_data_info info' = txd_data_info info"
    "t_wdinfo_en info' = t_wdinfo_en info"
    using assms(2) by (simp_all add: i mac_txdesc_len_def txd_data_info_def txd_rate_dw0_def txd_agg_dw1_def txd_sec_dw2_def
        txd_snd_dw3_def txd_rts_dw4_def)
  have z: "txd_data_body dw0 (txd_data_ch adapter info) q info' ! 4 = 0" "txd_data_body dw0 (txd_data_ch adapter info) q info' ! 5 = 0"
    by (simp_all add: txd_data_body_def)
  have "list_all (\<lambda>(place, v). txd_bits buf' place = v) (doc_data_body adapter info)"
    by (rule data_body_doc [OF d(1,2,4,5) i]) (use z in \<open>simp_all add: b finish_body finish_dw4\<close>)
  moreover have "list_all (\<lambda>(place, v). txd_bits buf' place = v) (doc_data_info info)" if "t_wdinfo_en info \<noteq> 0"
    by (rule info_all) (use that t in \<open>simp add: b finish_info\<close>)
  moreover have "if wd_checksum_en adapter \<noteq> 0 then xor_dwords buf' 0 (len div 4) 0 = 0 else buf' 4 = 0"
    using checksum_xor_zero [of info'] finish_dw4(2) [OF body_lengths(1) z(1)] t(1) d(3)
    by (simp add: b) (simp add: txd_finish_def Let_def)
  moreover have "buf' k = buf k" if "len div 4 \<le> k" for k using that d(3) t by (simp add: b finish_outside)
  ultimately show ?thesis by blast
qed

text \<open>
  C4: the verdict of the builder on every input. A type other than data, management, H2C and firmware download, a
  length that is not that of the descriptor (24 bytes, or 48 for a data or management frame with a WD info), a data
  channel above 9, a packet size of 0 or more than 16383, and an unknown bus are refused in this order, each with its
  own status and with the buffer and the meta data as they were. All other input is accepted, except a data frame of
  an ordinary channel whose TID is 8 or more: there the builder reads past its queue table, because the queue of the
  TID is looked up before the TID is limited.
\<close>

theorem txdesc_errors:
  "if t_type info \<in> {RTW_PHL_PKT_TYPE_CTRL, RTW_PHL_PKT_TYPE_MAX}
   then mac_build_txdesc adapter info buf len = Some (MACNOITEM, info, buf)
   else if len \<noteq> (if t_type info \<in> {RTW_PHL_PKT_TYPE_DATA, RTW_PHL_PKT_TYPE_MGNT} \<and> t_wdinfo_en info \<noteq> 0 then 48 else 24)
   then mac_build_txdesc adapter info buf len = Some (MACBUFSZ, info, buf)
   else if t_type info = RTW_PHL_PKT_TYPE_DATA \<and> 9 < unat (t_dma_ch info)
   then mac_build_txdesc adapter info buf len = Some (MACTXCHDMA, info, buf)
   else if unat (t_pktlen info) = 0 \<or> 16383 < unat (t_pktlen info)
   then mac_build_txdesc adapter info buf len = Some (MACFUNCINPUT, info, buf)
   else if t_type info \<in> {RTW_PHL_PKT_TYPE_DATA, RTW_PHL_PKT_TYPE_MGNT} \<and> intf adapter = MAC_AX_INTF_INVALID
   then mac_build_txdesc adapter info buf len = Some (MACINTF, info, buf)
   else if t_type info = RTW_PHL_PKT_TYPE_DATA \<and> unat (t_dma_ch info) < 9 \<and> 8 \<le> unat (t_tid info)
   then mac_build_txdesc adapter info buf len = None
   else \<exists>info' buf'. mac_build_txdesc adapter info buf len = Some (MACSUCCESS, info', buf')"
proof -
  have len: "mac_txdesc_len info =
      (if t_type info \<noteq> RTW_PHL_PKT_TYPE_H2C \<and> t_type info \<noteq> RTW_PHL_PKT_TYPE_FWDL \<and> t_wdinfo_en info \<noteq> 0 then 48 else 24)"
    by (simp add: mac_txdesc_len_def WD_BODY_BYTES_def WD_INFO_BYTES_def)
  have ch: "MAC_AX_DATA_HIQ < t_dma_ch info \<longleftrightarrow> 9 < unat (t_dma_ch info)" "t_dma_ch info = MAC_AX_DATA_HIQ \<longleftrightarrow> unat (t_dma_ch info) = 9"
    by (simp_all add: MAC_AX_DATA_HIQ_def word_less_nat_alt word_unat_eq_iff)
  have pl: "bad_pktlen info \<longleftrightarrow> unat (t_pktlen info) = 0 \<or> 16383 < unat (t_pktlen info)"
  proof -
    have "take_bit 32 (unat (t_pktlen info)) = unat (t_pktlen info)"
      using unsigned_less [where ?'a = nat, of "t_pktlen info"] by (simp add: take_bit_nat_eq_self)
    then show ?thesis by (auto simp: bad_pktlen_def AX_TXD_TXPKTSIZE_def word_less_nat_alt unsigned_ucast_eq unat_eq_zero)
  qed
  have io: "txd_intf_dw0 adapter info = None \<longleftrightarrow> intf adapter = MAC_AX_INTF_INVALID"
    by (simp add: txd_intf_dw0_def split: mac_ax_intf.splits)
  have qs: "txd_data_qsel info = None \<longleftrightarrow> unat (t_dma_ch info) \<noteq> 9 \<and> 8 \<le> unat (t_tid info)"
    by (simp add: txd_data_qsel_def ch(2) qsel_l_def not_less)
  show ?thesis
  proof (cases "t_type info")
    case RTW_PHL_PKT_TYPE_DATA
    then show ?thesis using io qs
      by (auto simp: mac_build_txdesc_def txdes_proc_data_def len ch pl Let_def split: option.splits)
  next
    case RTW_PHL_PKT_TYPE_MGNT
    then show ?thesis using io by (auto simp: mac_build_txdesc_def txdes_proc_mgnt_def len pl split: option.splits)
  qed (simp_all add: mac_build_txdesc_def txdes_proc_h2c_fwdl_def len pl)
qed

text \<open>The check sum of a built descriptor is right. With check sums on, the exclusive or of all
  half-words of the descriptor of a data or management frame, WD info included, is zero, which is what
  the hardware verifies; setting the packet count of a USB aggregate afterwards changes that field alone.
\<close>

lemma txdesc_checksum_valid:
  assumes "mac_build_txdesc adapter info buf len = Some (MACSUCCESS, info', buf')"
    and "t_type info = RTW_PHL_PKT_TYPE_DATA \<or> t_type info = RTW_PHL_PKT_TYPE_MGNT" and "wd_checksum_en adapter \<noteq> 0"
  shows "xor_dwords buf' 0 (len div 4) 0 = 0 \<and>
    GET_FIELD (usb_tx_agg_cfg_8852a n buf' 1) AX_TXD_DMA_TXAGG_NUM = ucast n AND 0xff \<and>
    GET_FIELD (usb_tx_agg_cfg_8852a n buf' 1) AX_TXD_SHCUT_CAMID = GET_FIELD (buf' 1) AX_TXD_SHCUT_CAMID \<and>
    (\<forall>k. k \<noteq> 1 \<longrightarrow> usb_tx_agg_cfg_8852a n buf' k = buf' k)"
proof -
  obtain buf0 where b: "buf' = mac_wd_checksum info' buf0" and l: "len = mac_txdesc_len info'"
  proof (cases "t_type info = RTW_PHL_PKT_TYPE_DATA")
    case True
    then have p: "txdes_proc_data adapter info buf len = Some (MACSUCCESS, info', buf')"
      using assms(1) by (simp add: mac_build_txdesc_def)
    obtain wdb wdi where "buf' = txd_finish adapter info' wdb wdi buf" and "len = mac_txdesc_len info'"
      by (rule data_success [OF p]) (simp add: len_keeps_tid)
    then show ?thesis using assms(3) that by (simp add: txd_finish_def Let_def)
  next
    case False
    then show ?thesis using assms that
      by (auto simp: mac_build_txdesc_def txdes_proc_mgnt_def txd_finish_def Let_def split: if_splits option.splits)
  qed
  have "GET_FIELD (SET_CLR_WORD (buf' 1) (ucast n) AX_TXD_DMA_TXAGG_NUM) AX_TXD_DMA_TXAGG_NUM = ucast n AND 0xff"
    by (subst get_clr_same) (simp_all add: fld_fits_def fld_mask_def AX_TXD_DMA_TXAGG_NUM_def)
  moreover have "GET_FIELD (SET_CLR_WORD (buf' 1) (ucast n) AX_TXD_DMA_TXAGG_NUM) AX_TXD_SHCUT_CAMID = GET_FIELD (buf' 1) AX_TXD_SHCUT_CAMID"
    by (rule get_clr_other) (simp add: fld_mask_def AX_TXD_DMA_TXAGG_NUM_def AX_TXD_SHCUT_CAMID_def)
  ultimately show ?thesis using checksum_xor_zero [of info' buf0] by (simp add: usb_tx_agg_cfg_8852a_def b l)
qed

section \<open>Examples\<close>

definition ex_adapter :: mac_ax_adapter where
  "ex_adapter = \<lparr>intf = MAC_AX_INTF_USB, qta_mode = MAC_AX_QTA_SCC, wd_checksum_en = 1, ep5 = 1, ep6 = 1, ep12 = 1\<rparr>"

text \<open>A video frame of 1500 bytes for MAC id 3.\<close>

definition ex_txinfo :: rtw_t_meta_data where
  "ex_txinfo = \<lparr>
    t_band = 0, t_wmm = 1, t_type = RTW_PHL_PKT_TYPE_DATA, t_tid = 5, t_bc = 0, t_mc = 0, t_pktlen = 1500, 
    t_hw_seq_mode = 0, t_hw_ssn_sel = 0, t_smh_en = 0, t_hw_amsdu = 0, t_hw_aes_iv = 0, t_wd_page_size = 0, 
    t_hdr_len = 13, t_dma_ch = 2, t_usb_pkt_ofst = 0, t_wdinfo_en = 1, t_wp_offset = 0, t_shcut_camid = 0, 
    t_macid = 3, t_sw_seq = 0x123, t_ampdu_en = 1, t_bk = 0, t_mbssid = 0, t_hal_port = 0, t_data_bw_er = 0, 
    t_dis_rts_rate_fb = 0, t_dis_data_rate_fb = 0, t_f_ldpc = 0, t_f_stbc = 0, t_f_dcm = 0, t_f_er = 0, 
    t_f_rate = 0x10b, t_f_gi_ltf = 0, t_f_bw = 0, t_userate_sel = 0, t_ack_ch_info = 0, t_max_agg_num = 31, 
    t_nav_use_hdr = 0, t_a_ctrl_uph = 0, t_a_ctrl_bsr = 0, t_a_ctrl_cas = 0, t_data_rty_lowest_rate = 0, 
    t_data_tx_cnt_lmt = 0, t_data_tx_cnt_lmt_en = 0, t_sec_cam_idx = 0, t_sec_hw_enc = 0, t_sec_type = 0, 
    t_life_time_sel = 0, t_ampdu_density = 0, t_ndpa = 0, t_snd_pkt_sel = 0, t_sifs_tx = 0, t_rtt_en = 0, 
    t_spe_rpt = 0, t_sw_define = 0, t_rts_en = 0, t_cts2self = 0, t_rts_cca_mode = 0, t_hw_rts_en = 0\<rparr>"

lemma ex_txinfo_builds: "\<exists>buf'. mac_build_txdesc ex_adapter ex_txinfo buf 48 = Some (MACSUCCESS, ex_txinfo, buf')"
  by (simp add: mac_build_txdesc_def txdes_proc_data_def ex_txinfo_def ex_adapter_def mac_txdesc_len_def WD_BODY_BYTES_def
      WD_INFO_BYTES_def bad_pktlen_def AX_TXD_TXPKTSIZE_def MAC_AX_DATA_HIQ_def txd_intf_dw0_def txd_data_qsel_def
      qsel_l_def TID_MAX_NUM_def Let_def)

theorem txdesc_data_roundtrip_witness:
  "\<exists>buf'. mac_build_txdesc ex_adapter ex_txinfo (\<lambda>_. 0) 48 = Some (MACSUCCESS, ex_txinfo, buf') \<and>
     txd_bits buf' (2, 0, 14) = 1500 \<and> txd_bits buf' (2, 24, 7) = 3 \<and> txd_bits buf' (2, 17, 6) = 6 \<and>
     txd_bits buf' (6, 16, 9) = 0x10b \<and> txd_bits buf' (8, 8, 1) = 0"
proof -
  obtain buf' where b: "mac_build_txdesc ex_adapter ex_txinfo (\<lambda>_. 0) 48 = Some (MACSUCCESS, ex_txinfo, buf')"
    using ex_txinfo_builds by blast
  have "t_type ex_txinfo = RTW_PHL_PKT_TYPE_DATA" by (simp add: ex_txinfo_def)
  note r = txdesc_data_roundtrip [OF b this]
  have "t_wdinfo_en ex_txinfo \<noteq> 0" by (simp add: ex_txinfo_def)
  then have "txd_bits buf' (2, 0, 14) = 1500" "txd_bits buf' (2, 24, 7) = 3" "txd_bits buf' (2, 17, 6) = 6"
    "txd_bits buf' (6, 16, 9) = 0x10b" "txd_bits buf' (8, 8, 1) = 0"
    using r by (simp_all add: doc_data_body_def doc_data_info_def doc_qsel_def truth_def ex_txinfo_def)
  with b show ?thesis by blast
qed

theorem txdesc_errors_witness:
  "mac_build_txdesc ex_adapter (ex_txinfo\<lparr>t_pktlen := 0\<rparr>) (\<lambda>_. 7) 48 = Some (MACFUNCINPUT, ex_txinfo\<lparr>t_pktlen := 0\<rparr>, \<lambda>_. 7) \<and>
   mac_build_txdesc ex_adapter ex_txinfo (\<lambda>_. 7) 24 = Some (MACBUFSZ, ex_txinfo, \<lambda>_. 7) \<and>
   mac_build_txdesc ex_adapter (ex_txinfo\<lparr>t_tid := 8\<rparr>) (\<lambda>_. 7) 48 = None"
  using txdesc_errors [of "ex_txinfo\<lparr>t_pktlen := 0\<rparr>" ex_adapter "\<lambda>_. 7" 48] txdesc_errors [of ex_txinfo ex_adapter "\<lambda>_. 7" 24]
    txdesc_errors [of "ex_txinfo\<lparr>t_tid := 8\<rparr>" ex_adapter "\<lambda>_. 7" 48]
  by (simp add: ex_txinfo_def ex_adapter_def)

end
