(* ===== verification/Phl_Bytes.thy ===== *)
theory Phl_Bytes
  imports Phl_Prelude
begin

text \<open>
  Bytes of a DMA buffer: segments of a buffer, the little-endian words in it, and words that are packed
  from bit fields. Transmit and receive descriptors are both read and written through these.
\<close>

section \<open>Segments of a buffer\<close>

definition seg :: "nat \<Rightarrow> nat \<Rightarrow> 'a list \<Rightarrow> 'a list" where
  "seg off n buf = take n (drop off buf)"

lemma seg_nth: "off + n \<le> length buf \<Longrightarrow> i < n \<Longrightarrow> seg off n buf ! i = buf ! (off + i)"
  by (simp add: seg_def)

lemma seg_split: "seg off (n + m) buf = seg off n buf @ seg (off + n) m buf"
  unfolding seg_def take_add by (simp add: add.commute)

lemma le_dword_bytes: "seg off 4 buf = le_bytes w \<Longrightarrow> off + 4 \<le> length buf \<Longrightarrow> le_dword buf off = w"
proof -
  assume s: "seg off 4 buf = le_bytes w" and l: "off + 4 \<le> length buf"
  have "buf ! off = ucast w" "buf ! (off + 1) = ucast (drop_bit 8 w)" "buf ! (off + 2) = ucast (drop_bit 16 w)"
    "buf ! (off + 3) = ucast (drop_bit 24 w)"
    using seg_nth [OF l, of 0] seg_nth [OF l, of 1] seg_nth [OF l, of 2] seg_nth [OF l, of 3]
    by (simp_all add: s le_bytes_def)
  note b = this
  show ?thesis unfolding le_dword_def
  proof (rule bit_word_eqI)
    fix n
    assume "n < LENGTH(32)"
    then consider "n < 8" | "8 \<le> n" "n < 16" | "16 \<le> n" "n < 24" | "24 \<le> n" "n < 32" by fastforce
    then show "bit ((ucast (buf ! off) :: u32) OR push_bit 8 (ucast (buf ! (off + 1))) OR push_bit 16 (ucast (buf ! (off + 2))) OR
        push_bit 24 (ucast (buf ! (off + 3)))) n \<longleftrightarrow> bit w n"
      by cases (auto simp: b b [simplified] bit_simps)
  qed
qed

lemma concat_dwords: "k < n \<Longrightarrow> seg (4 * k) 4 (concat (map (\<lambda>k. le_bytes (w k)) [0..<n])) = le_bytes (w k)"
proof (induction n)
  case 0
  then show ?case by simp
next
  case (Suc n)
  have len: "length (concat (map (\<lambda>k. le_bytes (w k)) [0..<n])) = 4 * n"
    by (induction n) (simp_all add: le_bytes_def)
  show ?case
  proof (cases "k = n")
    case True
    then show ?thesis using len by (simp add: seg_def le_bytes_def)
  next
    case False
    then have "k < n" using Suc.prems by simp
    then show ?thesis using Suc.IH len by (simp add: seg_def)
  qed
qed

lemma length_dwords: "length (concat (map (\<lambda>k. le_bytes (w k)) [0..<n])) = 4 * n"
  by (induction n) (simp_all add: le_bytes_def)

lemma seg_seg: "i + m \<le> n \<Longrightarrow> seg i m (seg off n buf) = seg (off + i) m buf"
  by (simp add: seg_def drop_take min_absorb1 add.commute)

lemma le_dword_at:
  assumes "seg off (4 * n) buf = concat (map (\<lambda>k. le_bytes (w k)) [0..<n])" "off + 4 * n \<le> length buf" "k < n"
  shows "le_dword buf (off + 4 * k) = w k"
proof (rule le_dword_bytes)
  show "seg (off + 4 * k) 4 buf = le_bytes (w k)"
    using seg_seg [of "4 * k" 4 "4 * n" off buf] concat_dwords [OF assms(3), of w] assms(1,3) by simp
  show "off + 4 * k + 4 \<le> length buf" using assms by simp
qed

section \<open>Bit fields of a word\<close>

text \<open>
  A word as the list of its fields, lowest first, each a width and a value. The field that starts at a bit
  is read back by a shift and a mask.
\<close>

fun pack :: "(nat \<times> nat) list \<Rightarrow> nat" where
  "pack [] = 0"
| "pack ((n, v) # fs) = v + 2 ^ n * pack fs"

fun fits :: "(nat \<times> nat) list \<Rightarrow> bool" where
  "fits [] = True"
| "fits ((n, v) # fs) \<longleftrightarrow> v < 2 ^ n \<and> fits fs"

fun widths :: "(nat \<times> nat) list \<Rightarrow> nat" where
  "widths [] = 0"
| "widths ((n, v) # fs) = n + widths fs"

lemma widths_append: "widths (xs @ ys) = widths xs + widths ys"
  by (induction xs rule: widths.induct) simp_all

lemma fits_append: "fits (xs @ ys) \<longleftrightarrow> fits xs \<and> fits ys"
  by (induction xs rule: fits.induct) simp_all

lemma pack_less: "fits fs \<Longrightarrow> pack fs < 2 ^ widths fs"
proof (induction fs rule: pack.induct)
  case (2 n v fs)
  then have "pack fs + 1 \<le> 2 ^ widths fs" "v < 2 ^ n" by simp_all
  then have "v + 2 ^ n * pack fs < 2 ^ n * (pack fs + 1)" by simp
  also have "\<dots> \<le> 2 ^ n * 2 ^ widths fs" using \<open>pack fs + 1 \<le> 2 ^ widths fs\<close> by (intro mult_le_mono) simp_all
  finally show ?case by (simp add: power_add)
qed simp

lemma pack_drop: "fits xs \<Longrightarrow> pack (xs @ ys) div 2 ^ widths xs = pack ys"
proof (induction xs rule: pack.induct)
  case (2 n v xs)
  have "(v + 2 ^ n * pack (xs @ ys)) div 2 ^ n = pack (xs @ ys)" using "2.prems" by simp
  then show ?case using 2 by (simp add: power_add div_mult2_eq)
qed simp

lemma pack_field:
  assumes "fits (xs @ (n, v) # ys)"
  shows "pack (xs @ (n, v) # ys) div 2 ^ widths xs mod 2 ^ n = v"
  using assms pack_drop [of xs "(n, v) # ys"] by (simp add: fits_append)

lemma pack_nth:
  assumes "fits fs" "i < length fs"
  shows "pack fs div 2 ^ widths (take i fs) mod 2 ^ fst (fs ! i) = snd (fs ! i)"
  using pack_field [of "take i fs" "fst (fs ! i)" "snd (fs ! i)" "drop (Suc i) fs"] assms
  by (simp add: id_take_nth_drop [OF assms(2), symmetric])

end
