(* ===== verification/Hal_Rxdesc.thy ===== *)
theory Hal_Rxdesc
  imports Phl_Rx_System Mac_Txdesc Phl_Bytes
begin

text \<open>
  The chip layer of reception: the descriptor in front of every packet of a received transfer
  (\<^verbatim>\<open>phl/hal_g6/rtl8852a/hal_trx_8852a.c\<close>), the PPDU status report (\<^verbatim>\<open>phl/hal_g6/mac/mac_ax/phy_rpt.c\<close>,
  \<^verbatim>\<open>phl/hal_g6/hal_api_mac.c\<close>), the headers of the PHY status, radar and firmware reports, and the status
  entries that are filled (\<^verbatim>\<open>phl/hal_g6/hal_rx.c\<close>). \<open>Phl_Usb_Rx\<close> takes
  what the chip layer reads as an argument; here it is computed from the bytes of the buffer.

  A buffer is the list of the bytes of its memory and a pointer into it an offset; a read outside the
  memory is the result \<^const>\<open>None\<close>.
\<close>

section \<open>The fields of a descriptor\<close>

definition BIT_LEN_MASK_32 :: "nat \<Rightarrow> u32" where
  "BIT_LEN_MASK_32 n = drop_bit (32 - n) 0xFFFFFFFF"

definition BIT_LEN_MASK_16 :: "nat \<Rightarrow> u16w" where
  "BIT_LEN_MASK_16 n = drop_bit (16 - n) 0xFFFF"

definition LE_BITS_TO_4BYTE :: "u8w list \<Rightarrow> nat \<Rightarrow> nat \<Rightarrow> nat \<Rightarrow> u32" where
  "LE_BITS_TO_4BYTE buf p s n = drop_bit s (le_dword buf p) AND BIT_LEN_MASK_32 n"

definition le_word :: "u8w list \<Rightarrow> nat \<Rightarrow> u16w" where
  "le_word bs i = ucast (bs ! i) OR push_bit 8 (ucast (bs ! (i + 1)))"

definition LE_BITS_TO_2BYTE :: "u8w list \<Rightarrow> nat \<Rightarrow> nat \<Rightarrow> nat \<Rightarrow> u16w" where
  "LE_BITS_TO_2BYTE buf p s n = drop_bit s (le_word buf p) AND BIT_LEN_MASK_16 n"

text \<open>The macros of \<^verbatim>\<open>hal_trx_8852a.h\<close>: the byte offset of the word, the first bit and the width.\<close>

type_synonym rxd_field = "nat \<times> nat \<times> nat"

definition GET_RX_AX_DESC_PKT_LEN_8852A :: rxd_field where "GET_RX_AX_DESC_PKT_LEN_8852A = (0, 0, 14)"
definition GET_RX_AX_DESC_SHIFT_8852A :: rxd_field where "GET_RX_AX_DESC_SHIFT_8852A = (0, 14, 2)"
definition GET_RX_AX_DESC_HDR_IV_L_8852A :: rxd_field where "GET_RX_AX_DESC_HDR_IV_L_8852A = (0, 16, 6)"
definition GET_RX_AX_DESC_BB_SEL_8852A :: rxd_field where "GET_RX_AX_DESC_BB_SEL_8852A = (0, 22, 1)"
definition GET_RX_AX_DESC_MAC_INFO_VLD_8852A :: rxd_field where "GET_RX_AX_DESC_MAC_INFO_VLD_8852A = (0, 23, 1)"
definition GET_RX_AX_DESC_RPKT_TYPE_8852A :: rxd_field where "GET_RX_AX_DESC_RPKT_TYPE_8852A = (0, 24, 4)"
definition GET_RX_AX_DESC_DRV_INFO_SIZE_8852A :: rxd_field where "GET_RX_AX_DESC_DRV_INFO_SIZE_8852A = (0, 28, 3)"
definition GET_RX_AX_DESC_LONG_RXD_8852A :: rxd_field where "GET_RX_AX_DESC_LONG_RXD_8852A = (0, 31, 1)"
definition GET_RX_AX_DESC_PPDU_TYPE_8852A :: rxd_field where "GET_RX_AX_DESC_PPDU_TYPE_8852A = (4, 0, 4)"
definition GET_RX_AX_DESC_PPDU_CNT_8852A :: rxd_field where "GET_RX_AX_DESC_PPDU_CNT_8852A = (4, 4, 3)"
definition GET_RX_AX_DESC_SR_EN_8852A :: rxd_field where "GET_RX_AX_DESC_SR_EN_8852A = (4, 7, 1)"
definition GET_RX_AX_DESC_USER_ID_8852A :: rxd_field where "GET_RX_AX_DESC_USER_ID_8852A = (4, 8, 8)"
definition GET_RX_AX_DESC_RX_DATARATE_8852A :: rxd_field where "GET_RX_AX_DESC_RX_DATARATE_8852A = (4, 16, 9)"
definition GET_RX_AX_DESC_RX_GI_LTF_8852A :: rxd_field where "GET_RX_AX_DESC_RX_GI_LTF_8852A = (4, 25, 3)"
definition GET_RX_AX_DESC_NON_SRG_PPDU_8852A :: rxd_field where "GET_RX_AX_DESC_NON_SRG_PPDU_8852A = (4, 28, 1)"
definition GET_RX_AX_DESC_INTER_PPDU_8852A :: rxd_field where "GET_RX_AX_DESC_INTER_PPDU_8852A = (4, 29, 1)"
definition GET_RX_AX_DESC_BW_8852A :: rxd_field where "GET_RX_AX_DESC_BW_8852A = (4, 30, 2)"
definition GET_RX_AX_DESC_FREERUN_CNT_8852A :: rxd_field where "GET_RX_AX_DESC_FREERUN_CNT_8852A = (8, 0, 32)"
definition GET_RX_AX_DESC_A1_MATCH_8852A :: rxd_field where "GET_RX_AX_DESC_A1_MATCH_8852A = (12, 0, 1)"
definition GET_RX_AX_DESC_SW_DEC_8852A :: rxd_field where "GET_RX_AX_DESC_SW_DEC_8852A = (12, 1, 1)"
definition GET_RX_AX_DESC_HW_DEC_8852A :: rxd_field where "GET_RX_AX_DESC_HW_DEC_8852A = (12, 2, 1)"
definition GET_RX_AX_DESC_AMPDU_8852A :: rxd_field where "GET_RX_AX_DESC_AMPDU_8852A = (12, 3, 1)"
definition GET_RX_AX_DESC_AMPDU_EDN_PKT_8852A :: rxd_field where "GET_RX_AX_DESC_AMPDU_EDN_PKT_8852A = (12, 4, 1)"
definition GET_RX_AX_DESC_AMSDU_8852A :: rxd_field where "GET_RX_AX_DESC_AMSDU_8852A = (12, 5, 1)"
definition GET_RX_AX_DESC_AMSDU_CUT_8852A :: rxd_field where "GET_RX_AX_DESC_AMSDU_CUT_8852A = (12, 6, 1)"
definition GET_RX_AX_DESC_LAST_MSDU_8852A :: rxd_field where "GET_RX_AX_DESC_LAST_MSDU_8852A = (12, 7, 1)"
definition GET_RX_AX_DESC_BYPASS_8852A :: rxd_field where "GET_RX_AX_DESC_BYPASS_8852A = (12, 8, 1)"
definition GET_RX_AX_DESC_CRC32_8852A :: rxd_field where "GET_RX_AX_DESC_CRC32_8852A = (12, 9, 1)"
definition GET_RX_AX_DESC_ICVERR_8852A :: rxd_field where "GET_RX_AX_DESC_ICVERR_8852A = (12, 10, 1)"
definition GET_RX_AX_DESC_MAGIC_WAKE_8852A :: rxd_field where "GET_RX_AX_DESC_MAGIC_WAKE_8852A = (12, 11, 1)"
definition GET_RX_AX_DESC_UNICAST_WAKE_8852A :: rxd_field where "GET_RX_AX_DESC_UNICAST_WAKE_8852A = (12, 12, 1)"
definition GET_RX_AX_DESC_PATTERN_WAKE_8852A :: rxd_field where "GET_RX_AX_DESC_PATTERN_WAKE_8852A = (12, 13, 1)"
definition GET_RX_AX_DESC_CH_INFO_8852A :: rxd_field where "GET_RX_AX_DESC_CH_INFO_8852A = (12, 14, 1)"
definition GET_RX_AX_DESC_STATISTICS_8852A :: rxd_field where "GET_RX_AX_DESC_STATISTICS_8852A = (12, 15, 1)"
definition GET_RX_AX_DESC_PATTERN_IDX_8852A :: rxd_field where "GET_RX_AX_DESC_PATTERN_IDX_8852A = (12, 16, 5)"
definition GET_RX_AX_DESC_TARGET_IDC_8852A :: rxd_field where "GET_RX_AX_DESC_TARGET_IDC_8852A = (12, 21, 3)"
definition GET_RX_AX_DESC_CHKSUM_OFFLOAD_8852A :: rxd_field where "GET_RX_AX_DESC_CHKSUM_OFFLOAD_8852A = (12, 24, 1)"
definition GET_RX_AX_DESC_WITH_LLC_8852A :: rxd_field where "GET_RX_AX_DESC_WITH_LLC_8852A = (12, 25, 1)"
definition GET_RX_AX_DESC_TYPE_8852A :: rxd_field where "GET_RX_AX_DESC_TYPE_8852A = (16, 0, 2)"
definition GET_RX_AX_DESC_MC_8852A :: rxd_field where "GET_RX_AX_DESC_MC_8852A = (16, 2, 1)"
definition GET_RX_AX_DESC_BC_8852A :: rxd_field where "GET_RX_AX_DESC_BC_8852A = (16, 3, 1)"
definition GET_RX_AX_DESC_MD_8852A :: rxd_field where "GET_RX_AX_DESC_MD_8852A = (16, 4, 1)"
definition GET_RX_AX_DESC_MF_8852A :: rxd_field where "GET_RX_AX_DESC_MF_8852A = (16, 5, 1)"
definition GET_RX_AX_DESC_PWR_8852A :: rxd_field where "GET_RX_AX_DESC_PWR_8852A = (16, 6, 1)"
definition GET_RX_AX_DESC_QOS_8852A :: rxd_field where "GET_RX_AX_DESC_QOS_8852A = (16, 7, 1)"
definition GET_RX_AX_DESC_TID_8852A :: rxd_field where "GET_RX_AX_DESC_TID_8852A = (16, 8, 4)"
definition GET_RX_AX_DESC_EOSP_8852A :: rxd_field where "GET_RX_AX_DESC_EOSP_8852A = (16, 12, 1)"
definition GET_RX_AX_DESC_HTC_8852A :: rxd_field where "GET_RX_AX_DESC_HTC_8852A = (16, 13, 1)"
definition GET_RX_AX_DESC_QNULL_8852A :: rxd_field where "GET_RX_AX_DESC_QNULL_8852A = (16, 14, 1)"
definition GET_RX_AX_DESC_SEQ_8852A :: rxd_field where "GET_RX_AX_DESC_SEQ_8852A = (16, 16, 12)"
definition GET_RX_AX_DESC_FRAG_8852A :: rxd_field where "GET_RX_AX_DESC_FRAG_8852A = (16, 28, 4)"
definition GET_RX_AX_DESC_CAM_IDX_8852A :: rxd_field where "GET_RX_AX_DESC_CAM_IDX_8852A = (20, 0, 8)"
definition GET_RX_AX_DESC_ADDR_CAM_8852A :: rxd_field where "GET_RX_AX_DESC_ADDR_CAM_8852A = (20, 8, 8)"
definition GET_RX_AX_DESC_MACID_8852A :: rxd_field where "GET_RX_AX_DESC_MACID_8852A = (20, 16, 8)"
definition GET_RX_AX_DESC_PL_ID_8852A :: rxd_field where "GET_RX_AX_DESC_PL_ID_8852A = (20, 24, 4)"
definition GET_RX_AX_DESC_CAM_VLD_8852A :: rxd_field where "GET_RX_AX_DESC_CAM_VLD_8852A = (20, 28, 1)"
definition GET_RX_AX_DESC_FWD_EN_8852A :: rxd_field where "GET_RX_AX_DESC_FWD_EN_8852A = (20, 29, 1)"
definition GET_RX_AX_DESC_PL_MATCH_8852A :: rxd_field where "GET_RX_AX_DESC_PL_MATCH_8852A = (20, 30, 1)"

lemmas rxd_fields =
  GET_RX_AX_DESC_PKT_LEN_8852A_def GET_RX_AX_DESC_SHIFT_8852A_def GET_RX_AX_DESC_HDR_IV_L_8852A_def
  GET_RX_AX_DESC_BB_SEL_8852A_def GET_RX_AX_DESC_MAC_INFO_VLD_8852A_def GET_RX_AX_DESC_RPKT_TYPE_8852A_def
  GET_RX_AX_DESC_DRV_INFO_SIZE_8852A_def GET_RX_AX_DESC_LONG_RXD_8852A_def GET_RX_AX_DESC_PPDU_TYPE_8852A_def
  GET_RX_AX_DESC_PPDU_CNT_8852A_def GET_RX_AX_DESC_SR_EN_8852A_def GET_RX_AX_DESC_USER_ID_8852A_def
  GET_RX_AX_DESC_RX_DATARATE_8852A_def GET_RX_AX_DESC_RX_GI_LTF_8852A_def GET_RX_AX_DESC_NON_SRG_PPDU_8852A_def
  GET_RX_AX_DESC_INTER_PPDU_8852A_def GET_RX_AX_DESC_BW_8852A_def GET_RX_AX_DESC_FREERUN_CNT_8852A_def
  GET_RX_AX_DESC_A1_MATCH_8852A_def GET_RX_AX_DESC_SW_DEC_8852A_def GET_RX_AX_DESC_HW_DEC_8852A_def
  GET_RX_AX_DESC_AMPDU_8852A_def GET_RX_AX_DESC_AMPDU_EDN_PKT_8852A_def GET_RX_AX_DESC_AMSDU_8852A_def
  GET_RX_AX_DESC_AMSDU_CUT_8852A_def GET_RX_AX_DESC_LAST_MSDU_8852A_def GET_RX_AX_DESC_BYPASS_8852A_def
  GET_RX_AX_DESC_CRC32_8852A_def GET_RX_AX_DESC_ICVERR_8852A_def GET_RX_AX_DESC_MAGIC_WAKE_8852A_def
  GET_RX_AX_DESC_UNICAST_WAKE_8852A_def GET_RX_AX_DESC_PATTERN_WAKE_8852A_def GET_RX_AX_DESC_CH_INFO_8852A_def
  GET_RX_AX_DESC_STATISTICS_8852A_def GET_RX_AX_DESC_PATTERN_IDX_8852A_def GET_RX_AX_DESC_TARGET_IDC_8852A_def
  GET_RX_AX_DESC_CHKSUM_OFFLOAD_8852A_def GET_RX_AX_DESC_WITH_LLC_8852A_def GET_RX_AX_DESC_TYPE_8852A_def
  GET_RX_AX_DESC_MC_8852A_def GET_RX_AX_DESC_BC_8852A_def GET_RX_AX_DESC_MD_8852A_def
  GET_RX_AX_DESC_MF_8852A_def GET_RX_AX_DESC_PWR_8852A_def GET_RX_AX_DESC_QOS_8852A_def
  GET_RX_AX_DESC_TID_8852A_def GET_RX_AX_DESC_EOSP_8852A_def GET_RX_AX_DESC_HTC_8852A_def
  GET_RX_AX_DESC_QNULL_8852A_def GET_RX_AX_DESC_SEQ_8852A_def GET_RX_AX_DESC_FRAG_8852A_def
  GET_RX_AX_DESC_CAM_IDX_8852A_def GET_RX_AX_DESC_ADDR_CAM_8852A_def GET_RX_AX_DESC_MACID_8852A_def
  GET_RX_AX_DESC_PL_ID_8852A_def GET_RX_AX_DESC_CAM_VLD_8852A_def GET_RX_AX_DESC_FWD_EN_8852A_def
  GET_RX_AX_DESC_PL_MATCH_8852A_def

definition rxd_get :: "u8w list \<Rightarrow> nat \<Rightarrow> rxd_field \<Rightarrow> nat" where
  "rxd_get buf desc f = (case f of (o', s, n) \<Rightarrow> unat (LE_BITS_TO_4BYTE buf (desc + o') s n))"

definition rxd_flag :: "u8w list \<Rightarrow> nat \<Rightarrow> rxd_field \<Rightarrow> bool" where
  "rxd_flag buf desc f \<longleftrightarrow> rxd_get buf desc f \<noteq> 0"

definition RX_8852A_DESC_PKT_T_WIFI :: nat where "RX_8852A_DESC_PKT_T_WIFI = 0"
definition RX_8852A_DESC_PKT_T_PPDU_STATUS :: nat where "RX_8852A_DESC_PKT_T_PPDU_STATUS = 1"
definition RX_8852A_DESC_PKT_T_CHANNEL_INFO :: nat where "RX_8852A_DESC_PKT_T_CHANNEL_INFO = 2"
definition RX_8852A_DESC_PKT_T_TX_RPT :: nat where "RX_8852A_DESC_PKT_T_TX_RPT = 6"
definition RX_8852A_DESC_PKT_T_TX_PD_RELEASE_HOST :: nat where "RX_8852A_DESC_PKT_T_TX_PD_RELEASE_HOST = 7"
definition RX_8852A_DESC_PKT_T_DFS_RPT :: nat where "RX_8852A_DESC_PKT_T_DFS_RPT = 8"
definition RX_8852A_DESC_PKT_T_C2H :: nat where "RX_8852A_DESC_PKT_T_C2H = 10"

lemmas rx_pkt_types = RX_8852A_DESC_PKT_T_WIFI_def RX_8852A_DESC_PKT_T_PPDU_STATUS_def RX_8852A_DESC_PKT_T_CHANNEL_INFO_def
  RX_8852A_DESC_PKT_T_TX_RPT_def RX_8852A_DESC_PKT_T_TX_PD_RELEASE_HOST_def RX_8852A_DESC_PKT_T_DFS_RPT_def RX_8852A_DESC_PKT_T_C2H_def

definition RX_8852A_DESC_PPDU_T_VHT_MU :: nat where "RX_8852A_DESC_PPDU_T_VHT_MU = 6"
definition RX_8852A_DESC_PPDU_T_HE_MU :: nat where "RX_8852A_DESC_PPDU_T_HE_MU = 9"
definition RX_8852A_DESC_PPDU_T_HE_TB :: nat where "RX_8852A_DESC_PPDU_T_HE_TB = 10"

definition RX_DESC_L_SIZE_8852A :: nat where "RX_DESC_L_SIZE_8852A = 32"
definition RX_DESC_S_SIZE_8852A :: nat where "RX_DESC_S_SIZE_8852A = 16"
definition RX_BD_INFO_SIZE :: nat where "RX_BD_INFO_SIZE = 4"
definition RX_PPDU_MAC_INFO_SIZE_8852A :: nat where "RX_PPDU_MAC_INFO_SIZE_8852A = 4"

lemmas rxd_sizes = RX_DESC_L_SIZE_8852A_def RX_DESC_S_SIZE_8852A_def RX_BD_INFO_SIZE_def RX_PPDU_MAC_INFO_SIZE_8852A_def

section \<open>Parsing the descriptor\<close>

text \<open>The meta data with all fields of \<^verbatim>\<open>struct rtw_r_meta_data\<close> that the descriptor fills.\<close>

record rx_wd = rtw_r_meta_data +
  wd_shift :: nat
  wd_mac_info_vld :: nat
  wd_rpkt_type :: nat
  wd_drv_info_size :: nat
  wd_wl_hd_iv_len :: nat
  wd_sr_en :: nat
  wd_user_id :: nat
  wd_non_srg_ppdu :: nat
  wd_inter_ppdu :: nat
  wd_freerun_cnt :: nat
  wd_a1_match :: nat
  wd_sw_dec :: nat
  wd_hw_dec :: nat
  wd_ampdu :: nat
  wd_ampdu_end_pkt :: nat
  wd_amsdu :: nat
  wd_bypass :: nat
  wd_crc32 :: nat
  wd_icverr :: nat
  wd_magic_wake :: nat
  wd_unicast_wake :: nat
  wd_pattern_wake :: nat
  wd_get_ch_info :: nat
  wd_rx_statistics :: nat
  wd_pattern_idx :: nat
  wd_target_idc :: nat
  wd_chksum_ofld_en :: nat
  wd_with_llc :: nat
  wd_more_data :: nat
  wd_eosp :: nat
  wd_htc :: nat
  wd_sec_cam_idx :: nat
  wd_addr_cam :: nat
  wd_rx_pl_id :: nat
  wd_addr_fwd_en :: nat
  wd_rx_pl_match :: nat
  wd_ppdu_cnt_chg :: bool

datatype rtw_hal_status =
    RTW_HAL_STATUS_SUCCESS | RTW_HAL_STATUS_FAILURE | RTW_HAL_STATUS_RESOURCE | RTW_HAL_STATUS_IO_INIT_FAILURE
  | RTW_HAL_STATUS_MAC_INIT_FAILURE | RTW_HAL_STATUS_BB_INIT_FAILURE | RTW_HAL_STATUS_RF_INIT_FAILURE
  | RTW_HAL_STATUS_BTC_INIT_FAILURE | RTW_HAL_STATUS_HAL_INIT_FAILURE | RTW_HAL_STATUS_EFUSE_UNINIT
  | RTW_HAL_STATUS_EFUSE_IVALID_OFFSET | RTW_HAL_STATUS_EFUSE_PG_FAIL | RTW_HAL_STATUS_MAC_API_FAILURE
  | RTW_HAL_STATUS_BB_CH_INFO_LAST_SEG | RTW_HAL_STATUS_UNKNOWN_RFE_TYPE | RTW_HAL_STATUS_TIMEOUT

text \<open>
  \<^verbatim>\<open>_hal_parsing_rx_wd_8852a\<close>, the words in groups. Every field is as wide as the macro reads it at most, so the
  assignments do not truncate. A descriptor is read as far as its type and its length need.
\<close>

definition rx_wd_dw0 :: "u8w list \<Rightarrow> nat \<Rightarrow> rx_wd \<Rightarrow> rx_wd" where
  "rx_wd_dw0 buf desc m =
     m\<lparr>md_pktlen := rxd_get buf desc GET_RX_AX_DESC_PKT_LEN_8852A,
       wd_shift := rxd_get buf desc GET_RX_AX_DESC_SHIFT_8852A,
       md_bb_sel := rxd_get buf desc GET_RX_AX_DESC_BB_SEL_8852A,
       wd_mac_info_vld := rxd_get buf desc GET_RX_AX_DESC_MAC_INFO_VLD_8852A,
       wd_rpkt_type := rxd_get buf desc GET_RX_AX_DESC_RPKT_TYPE_8852A,
       wd_drv_info_size := rxd_get buf desc GET_RX_AX_DESC_DRV_INFO_SIZE_8852A,
       md_long_rxd := rxd_get buf desc GET_RX_AX_DESC_LONG_RXD_8852A\<rparr>"

definition rx_wd_dw1_3 :: "u8w list \<Rightarrow> nat \<Rightarrow> rx_wd \<Rightarrow> rx_wd" where
  "rx_wd_dw1_3 buf desc m =
     m\<lparr>wd_wl_hd_iv_len := rxd_get buf desc GET_RX_AX_DESC_HDR_IV_L_8852A,
       md_ppdu_type := rxd_get buf desc GET_RX_AX_DESC_PPDU_TYPE_8852A,
       md_ppdu_cnt := rxd_get buf desc GET_RX_AX_DESC_PPDU_CNT_8852A,
       wd_sr_en := rxd_get buf desc GET_RX_AX_DESC_SR_EN_8852A,
       wd_user_id := rxd_get buf desc GET_RX_AX_DESC_USER_ID_8852A,
       md_rx_rate := rxd_get buf desc GET_RX_AX_DESC_RX_DATARATE_8852A,
       md_rx_gi_ltf := rxd_get buf desc GET_RX_AX_DESC_RX_GI_LTF_8852A,
       wd_non_srg_ppdu := rxd_get buf desc GET_RX_AX_DESC_NON_SRG_PPDU_8852A,
       wd_inter_ppdu := rxd_get buf desc GET_RX_AX_DESC_INTER_PPDU_8852A,
       md_bw := rxd_get buf desc GET_RX_AX_DESC_BW_8852A,
       wd_freerun_cnt := rxd_get buf desc GET_RX_AX_DESC_FREERUN_CNT_8852A,
       wd_a1_match := rxd_get buf desc GET_RX_AX_DESC_A1_MATCH_8852A,
       wd_sw_dec := rxd_get buf desc GET_RX_AX_DESC_SW_DEC_8852A,
       wd_hw_dec := rxd_get buf desc GET_RX_AX_DESC_HW_DEC_8852A,
       wd_ampdu := rxd_get buf desc GET_RX_AX_DESC_AMPDU_8852A,
       wd_ampdu_end_pkt := rxd_get buf desc GET_RX_AX_DESC_AMPDU_EDN_PKT_8852A,
       wd_amsdu := rxd_get buf desc GET_RX_AX_DESC_AMSDU_8852A,
       md_amsdu_cut := rxd_flag buf desc GET_RX_AX_DESC_AMSDU_CUT_8852A,
       md_last_msdu := rxd_flag buf desc GET_RX_AX_DESC_LAST_MSDU_8852A,
       wd_bypass := rxd_get buf desc GET_RX_AX_DESC_BYPASS_8852A,
       wd_crc32 := rxd_get buf desc GET_RX_AX_DESC_CRC32_8852A,
       wd_icverr := rxd_get buf desc GET_RX_AX_DESC_ICVERR_8852A,
       wd_magic_wake := rxd_get buf desc GET_RX_AX_DESC_MAGIC_WAKE_8852A,
       wd_unicast_wake := rxd_get buf desc GET_RX_AX_DESC_UNICAST_WAKE_8852A,
       wd_pattern_wake := rxd_get buf desc GET_RX_AX_DESC_PATTERN_WAKE_8852A,
       wd_get_ch_info := rxd_get buf desc GET_RX_AX_DESC_CH_INFO_8852A,
       wd_rx_statistics := rxd_get buf desc GET_RX_AX_DESC_STATISTICS_8852A,
       wd_pattern_idx := rxd_get buf desc GET_RX_AX_DESC_PATTERN_IDX_8852A,
       wd_target_idc := rxd_get buf desc GET_RX_AX_DESC_TARGET_IDC_8852A,
       wd_chksum_ofld_en := rxd_get buf desc GET_RX_AX_DESC_CHKSUM_OFFLOAD_8852A,
       wd_with_llc := rxd_get buf desc GET_RX_AX_DESC_WITH_LLC_8852A\<rparr>"

definition rx_wd_dw4_7 :: "u8w list \<Rightarrow> nat \<Rightarrow> rx_wd \<Rightarrow> rx_wd" where
  "rx_wd_dw4_7 buf desc m =
     m\<lparr>md_frame_type := rxd_get buf desc GET_RX_AX_DESC_TYPE_8852A,
       md_mc := rxd_flag buf desc GET_RX_AX_DESC_MC_8852A, md_bc := rxd_flag buf desc GET_RX_AX_DESC_BC_8852A,
       wd_more_data := rxd_get buf desc GET_RX_AX_DESC_MD_8852A,
       md_more_frag := rxd_flag buf desc GET_RX_AX_DESC_MF_8852A,
       md_pwr_bit := rxd_flag buf desc GET_RX_AX_DESC_PWR_8852A,
       md_qos := rxd_flag buf desc GET_RX_AX_DESC_QOS_8852A, md_tid := rxd_get buf desc GET_RX_AX_DESC_TID_8852A,
       wd_eosp := rxd_get buf desc GET_RX_AX_DESC_EOSP_8852A, wd_htc := rxd_get buf desc GET_RX_AX_DESC_HTC_8852A,
       md_q_null := rxd_flag buf desc GET_RX_AX_DESC_QNULL_8852A,
       md_seq := rxd_get buf desc GET_RX_AX_DESC_SEQ_8852A,
       md_frag_num := rxd_get buf desc GET_RX_AX_DESC_FRAG_8852A,
       wd_sec_cam_idx := rxd_get buf desc GET_RX_AX_DESC_CAM_IDX_8852A,
       wd_addr_cam := rxd_get buf desc GET_RX_AX_DESC_ADDR_CAM_8852A,
       md_addr_cam_vld := rxd_flag buf desc GET_RX_AX_DESC_CAM_VLD_8852A,
       md_macid := (if rxd_get buf desc GET_RX_AX_DESC_CAM_VLD_8852A = 0 then 0xFF
                    else rxd_get buf desc GET_RX_AX_DESC_MACID_8852A),
       wd_rx_pl_id := rxd_get buf desc GET_RX_AX_DESC_PL_ID_8852A,
       wd_addr_fwd_en := rxd_get buf desc GET_RX_AX_DESC_FWD_EN_8852A,
       wd_rx_pl_match := rxd_get buf desc GET_RX_AX_DESC_PL_MATCH_8852A, md_mac_addr := map unat (seg (desc + 24) 6 buf)\<rparr>"

definition rx_wd_typed :: "nat \<Rightarrow> bool" where
  "rx_wd_typed ty \<longleftrightarrow> ty = RX_8852A_DESC_PKT_T_WIFI \<or> ty = RX_8852A_DESC_PKT_T_PPDU_STATUS"

definition hal_parsing_rx_wd :: "u8w list \<Rightarrow> nat \<Rightarrow> rx_wd \<Rightarrow> (rx_wd \<times> rtw_hal_status) option" where
  "hal_parsing_rx_wd buf desc m =
     (let ret = (\<lambda>x. Some (x, if md_pktlen x = 0 then RTW_HAL_STATUS_FAILURE else RTW_HAL_STATUS_SUCCESS)) in
      if length buf < desc + 4 then None
      else
        let m0 = rx_wd_dw0 buf desc m in
        if \<not> rx_wd_typed (wd_rpkt_type m0) then ret m0
        else if length buf < desc + 16 then None
        else
          let m1 = rx_wd_dw1_3 buf desc m0 in
          if md_long_rxd m1 \<noteq> 1 then ret m1
          else if length buf < desc + 30 then None
          else ret (rx_wd_dw4_7 buf desc m1))"

text \<open>
  The packet as it is filled: \<open>fl_vir\<close> and \<open>fl_len\<close> are address and length of \<^verbatim>\<open>pkt_list[0]\<close>.
\<close>

record rx_fill =
  fl_type :: rtw_rx_type
  fl_wd :: rx_wd
  fl_vir :: nat
  fl_len :: nat
  fl_pkt_cnt :: nat
  fl_phy :: rtw_phl_ppdu_phy_info

definition hal_parsing_rx_wd_8852a :: "rtw_hci_type \<Rightarrow> (u8w list \<times> nat) option \<Rightarrow> rx_fill \<Rightarrow> (rx_fill \<times> rtw_hal_status) option" where
  "hal_parsing_rx_wd_8852a hci buffer f =
     (case buffer of None \<Rightarrow> Some (f, RTW_HAL_STATUS_FAILURE)
      | Some (buf, p) \<Rightarrow>
          let desc = (if hci = RTW_HCI_PCIE then p + RX_BD_INFO_SIZE else p) in
          case hal_parsing_rx_wd buf desc (fl_wd f) of None \<Rightarrow> None
          | Some (m, s) \<Rightarrow>
              if s \<noteq> RTW_HAL_STATUS_SUCCESS then Some (f\<lparr>fl_wd := m\<rparr>, s)
              else
                let desc_l = (if md_long_rxd m \<noteq> 0 then RX_DESC_L_SIZE_8852A else RX_DESC_S_SIZE_8852A);
                    shift = to_u8 (int (wd_shift m) * 2 + int (wd_drv_info_size m) * 8 + int desc_l);
                    pkt = (if wd_mac_info_vld m = 1 \<and> wd_rpkt_type m \<noteq> RX_8852A_DESC_PKT_T_PPDU_STATUS
                           then desc + shift + RX_PPDU_MAC_INFO_SIZE_8852A else desc + shift)
                in Some (f\<lparr>fl_wd := m, fl_vir := pkt, fl_len := to_u16 (int (md_pktlen m))\<rparr>, s))"

section \<open>The PPDU status report\<close>

definition AX_MAC_INFO_USR_NUM :: txd_field where "AX_MAC_INFO_USR_NUM = (0, 0xf)"
definition AX_MAC_INFO_FW_DEFINE :: txd_field where "AX_MAC_INFO_FW_DEFINE = (8, 0xff)"
definition AX_MAC_INFO_LSIG_LEN :: txd_field where "AX_MAC_INFO_LSIG_LEN = (16, 0xfff)"
definition AX_MAC_INFO_SERVICE :: txd_field where "AX_MAC_INFO_SERVICE = (0, 0xffff)"
definition AX_MAC_INFO_PLCP_LEN :: txd_field where "AX_MAC_INFO_PLCP_LEN = (16, 0xff)"
definition AX_MAC_INFO_MACID :: txd_field where "AX_MAC_INFO_MACID = (8, 0xff)"
definition MAC_AX_RX_CNT_SIZE :: nat where "MAC_AX_RX_CNT_SIZE = 96"
definition MAC_AX_MAC_INFO_USE_SIZE :: nat where "MAC_AX_MAC_INFO_USE_SIZE = 4"
definition MAC_AX_PPDU_MAX_USR :: nat where "MAC_AX_PPDU_MAX_USR = 4"
definition HAL_RXCNT_MAX :: nat where "HAL_RXCNT_MAX = 43"

lemmas mac_info_defs = AX_MAC_INFO_USR_NUM_def AX_MAC_INFO_FW_DEFINE_def AX_MAC_INFO_LSIG_LEN_def AX_MAC_INFO_SERVICE_def
  AX_MAC_INFO_PLCP_LEN_def AX_MAC_INFO_MACID_def MAC_AX_RX_CNT_SIZE_def MAC_AX_MAC_INFO_USE_SIZE_def MAC_AX_PPDU_MAX_USR_def
  HAL_RXCNT_MAX_def

record mac_ax_ppdu_usr =
  us_vld :: bool
  us_has_data :: bool
  us_has_ctrl :: bool
  us_has_mgnt :: bool
  us_has_bcn :: bool
  us_macid :: nat

record mac_ax_ppdu_rpt =
  pr_rx_cnt_ptr :: "nat option"
  pr_plcp_ptr :: "nat option"
  pr_phy_st_ptr :: "nat option"
  pr_phy_st_size :: nat
  pr_rx_cnt_size :: nat
  pr_lsig_len :: nat
  pr_service :: nat
  pr_usr_num :: nat
  pr_fw_def :: nat
  pr_is_to_self :: bool
  pr_plcp_size :: nat
  pr_usr :: "mac_ax_ppdu_usr list"

definition zero_rpt :: mac_ax_ppdu_rpt where
  "zero_rpt = \<lparr>pr_rx_cnt_ptr = None, pr_plcp_ptr = None, pr_phy_st_ptr = None, pr_phy_st_size = 0, pr_rx_cnt_size = 0,
     pr_lsig_len = 0, pr_service = 0, pr_usr_num = 0, pr_fw_def = 0, pr_is_to_self = False, pr_plcp_size = 0, pr_usr = []\<rparr>"

text \<open>The users that follow the two words of the report; the list holds the first \<open>usr_num\<close> of the array.\<close>

definition parse_usr :: "u8w list \<Rightarrow> nat \<Rightarrow> mac_ax_ppdu_usr" where
  "parse_usr buf p =
     (let val = le_dword buf p
      in \<lparr>us_vld = bit val 0, us_has_data = bit val 1, us_has_ctrl = bit val 2, us_has_mgnt = bit val 3,
          us_has_bcn = bit val 4, us_macid = unat (GET_FIELD val AX_MAC_INFO_MACID)\<rparr>)"

definition parse_mac_info :: "u8w list \<Rightarrow> nat \<Rightarrow> nat \<Rightarrow> mac_ax_ppdu_rpt \<Rightarrow> (mac_ax_ppdu_rpt \<times> mac_ret) option" where
  "parse_mac_info buf p len rpt =
     (if length buf < p + 4 then None
      else
        let val = le_dword buf p; n = unat (GET_FIELD val AX_MAC_INFO_USR_NUM) in
        if n > MAC_AX_PPDU_MAX_USR then Some (rpt\<lparr>pr_usr_num := n\<rparr>, MACPARSEERR)
        else if length buf < p + 8 + n * MAC_AX_MAC_INFO_USE_SIZE then None
        else
          let rx_cnt_size = (if bit val 29 then MAC_AX_RX_CNT_SIZE else 0);
              val1 = le_dword buf (p + 4);
              plcp_size = to_u8 (int (unat (GET_FIELD val1 AX_MAC_INFO_PLCP_LEN)) * 8);
              usrs = n * MAC_AX_MAC_INFO_USE_SIZE + (if odd n then MAC_AX_MAC_INFO_USE_SIZE else 0);
              accu_size = 8 + usrs + rx_cnt_size + plcp_size;
              rpt1 = rpt\<lparr>pr_usr_num := n, pr_fw_def := unat (GET_FIELD val AX_MAC_INFO_FW_DEFINE),
                pr_lsig_len := unat (GET_FIELD val AX_MAC_INFO_LSIG_LEN), pr_is_to_self := bit val 28,
                pr_rx_cnt_size := rx_cnt_size, pr_service := unat (GET_FIELD val1 AX_MAC_INFO_SERVICE),
                pr_plcp_size := plcp_size,
                pr_usr := map (\<lambda>i. parse_usr buf (p + 8 + i * MAC_AX_MAC_INFO_USE_SIZE)) [0..<n]\<rparr>;
              rpt2 = (if rx_cnt_size \<noteq> 0 then rpt1\<lparr>pr_rx_cnt_ptr := Some (p + 8 + usrs)\<rparr> else rpt1);
              rpt3 = (if plcp_size \<noteq> 0 then rpt2\<lparr>pr_plcp_ptr := Some (p + 8 + usrs + rx_cnt_size)\<rparr> else rpt2);
              rpt4 = (if len > accu_size
                      then rpt3\<lparr>pr_phy_st_ptr := Some (p + accu_size), pr_phy_st_size := len - accu_size\<rparr> else rpt3)
          in Some (rpt4, MACSUCCESS))"

definition mac_parse_ppdu :: "u8w list \<Rightarrow> nat \<Rightarrow> nat \<Rightarrow> bool \<Rightarrow> (mac_ax_ppdu_rpt \<times> mac_ret) option" where
  "mac_parse_ppdu buf p ppdu_len mac_info =
     (if mac_info then parse_mac_info buf p ppdu_len zero_rpt
      else Some (zero_rpt\<lparr>pr_phy_st_ptr := Some p, pr_phy_st_size := ppdu_len\<rparr>, MACSUCCESS))"

text \<open>What the chip layer keeps of the report; \<open>hp_rx_cnt\<close> are the counters decoded.\<close>

record hal_ppdu_sts =
  hp_phy_st_ptr :: "nat option"
  hp_plcp_size :: nat
  hp_phy_st_size :: nat
  hp_rx_cnt_size :: nat
  hp_usr :: "mac_ax_ppdu_usr list"
  hp_rx_cnt :: "nat list"

definition zero_ppdu_sts :: hal_ppdu_sts where
  "zero_ppdu_sts = \<lparr>hp_phy_st_ptr = None, hp_plcp_size = 0, hp_phy_st_size = 0, hp_rx_cnt_size = 0, hp_usr = [],
     hp_rx_cnt = replicate HAL_RXCNT_MAX 0\<rparr>"

definition zero_usr :: mac_ax_ppdu_usr where
  "zero_usr = \<lparr>us_vld = False, us_has_data = False, us_has_ctrl = False, us_has_mgnt = False, us_has_bcn = False, us_macid = 0\<rparr>"

definition hal_mac_ax_ppdu_sts_to_hal_ppdu_sts :: "u8w list \<Rightarrow> mac_ax_ppdu_rpt \<Rightarrow> hal_ppdu_sts \<Rightarrow> hal_ppdu_sts option" where
  "hal_mac_ax_ppdu_sts_to_hal_ppdu_sts buf rpt h =
     (let h1 = h\<lparr>hp_phy_st_ptr := pr_phy_st_ptr rpt, hp_plcp_size := pr_plcp_size rpt, hp_phy_st_size := pr_phy_st_size rpt,
                 hp_rx_cnt_size := pr_rx_cnt_size rpt, hp_usr := map (\<lambda>u. if us_vld u then u else zero_usr) (pr_usr rpt)\<rparr>;
          n = min (pr_rx_cnt_size rpt div 2) HAL_RXCNT_MAX
      in case pr_rx_cnt_ptr rpt of None \<Rightarrow> Some h1
         | Some q \<Rightarrow>
             if n = 0 then Some h1
             else if length buf < q + 2 * n - 1 then None
             else Some (h1\<lparr>hp_rx_cnt := map (\<lambda>i. unat (buf ! (q + 2 * i))) [0..<n] @ drop n (hp_rx_cnt h)\<rparr>))"

definition rtw_hal_mac_ax_parse_ppdu_sts :: "u8w list \<Rightarrow> nat \<Rightarrow> nat \<Rightarrow> bool \<Rightarrow> hal_ppdu_sts option" where
  "rtw_hal_mac_ax_parse_ppdu_sts buf p len mac_valid =
     (case mac_parse_ppdu buf p len mac_valid of None \<Rightarrow> None
      | Some (rpt, r) \<Rightarrow>
          if r = MACSUCCESS then hal_mac_ax_ppdu_sts_to_hal_ppdu_sts buf rpt zero_ppdu_sts else Some zero_ppdu_sts)"

section \<open>The status entries\<close>

text \<open>The header of a frame at an address of the buffer.\<close>

definition PHL_GET_80211_HDR_TYPE :: "u8w list \<Rightarrow> nat \<Rightarrow> nat" where
  "PHL_GET_80211_HDR_TYPE buf hdr = unat (LE_BITS_TO_2BYTE buf hdr 2 6)"

definition PHL_GET_80211_HDR_MORE_FRAG :: "u8w list \<Rightarrow> nat \<Rightarrow> nat" where
  "PHL_GET_80211_HDR_MORE_FRAG buf hdr = unat (LE_BITS_TO_2BYTE buf hdr 10 1)"

definition PHL_GET_80211_HDR_FRAG_NUM :: "u8w list \<Rightarrow> nat \<Rightarrow> nat" where
  "PHL_GET_80211_HDR_FRAG_NUM buf hdr = unat (LE_BITS_TO_2BYTE buf (hdr + 22) 0 4)"

definition PHL_GET_80211_HDR_ADDRESS2 :: "u8w list \<Rightarrow> nat \<Rightarrow> mac_addr" where
  "PHL_GET_80211_HDR_ADDRESS2 buf hdr = map unat (seg (hdr + 10) 6 buf)"

definition PHL_GET_80211_HDR_ADDRESS3 :: "u8w list \<Rightarrow> nat \<Rightarrow> mac_addr" where
  "PHL_GET_80211_HDR_ADDRESS3 buf hdr = map unat (seg (hdr + 16) 6 buf)"

definition upd_sts_ent :: "nat \<Rightarrow> nat \<Rightarrow> (rtw_phl_ppdu_sts_ent \<Rightarrow> rtw_phl_ppdu_sts_ent) \<Rightarrow> rtw_phl_ppdu_sts_info \<Rightarrow> rtw_phl_ppdu_sts_info" where
  "upd_sts_ent band i f ps = ps\<lparr>sts_ent := (sts_ent ps)(band := (sts_ent ps band)(i := f (sts_ent ps band i)))\<rparr>"

text \<open>The first frame of a PPDU opens its entry.\<close>

definition hal_rx_ppdu_sts_normal_data ::
  "u8w list \<Rightarrow> nat \<Rightarrow> rx_wd \<Rightarrow> rtw_phl_ppdu_sts_info \<Rightarrow> rx_wd \<times> rtw_phl_ppdu_sts_info" where
  "hal_rx_ppdu_sts_normal_data buf hdr m ps =
     (let band = (if md_bb_sel m > 0 then 1 else 0); i = md_ppdu_cnt m in
      if cur_rx_ppdu_cnt ps band = i \<and> \<not> latest_rx_is_psts ps band then (m, ps)
      else
        let ty = PHL_GET_80211_HDR_TYPE buf hdr;
            src = (if ty = RTW_FRAME_TYPE_BEACON \<or> ty = RTW_FRAME_TYPE_PROBE_RESP then PHL_GET_80211_HDR_ADDRESS3 buf hdr
                   else if wd_a1_match m \<noteq> 0 \<and> (ty = RTW_FRAME_TYPE_REASOC_REQ \<or> ty = RTW_FRAME_TYPE_ASOC_REQ)
                   then PHL_GET_80211_HDR_ADDRESS2 buf hdr
                   else md_ta m);
            ps1 = upd_sts_ent band i (\<lambda>e. e\<lparr>se_addr_cam_vld := md_addr_cam_vld m, se_frame_type := ty, se_crc32 := wd_crc32 m,
                    se_rx_rate := md_rx_rate m, se_ppdu_type := md_ppdu_type m, se_src_mac_addr := src, se_valid := False\<rparr>)
                    (ps\<lparr>latest_rx_is_psts := (latest_rx_is_psts ps)(band := False)\<rparr>)
        in (m\<lparr>wd_ppdu_cnt_chg := True\<rparr>, ps1\<lparr>cur_rx_ppdu_cnt := (cur_rx_ppdu_cnt ps1)(band := i)\<rparr>))"

definition rssi_type_of :: "rtw_phl_ppdu_sts_ent \<Rightarrow> nat \<Rightarrow> rtw_rssi_type" where
  "rssi_type_of ent a1_match =
     (let ty = se_frame_type ent mod 4; cam = se_addr_cam_vld ent; a1 = (a1_match = 1) in
      if ty = RTW_FRAME_TYPE_MGNT then
        (if cam then (if a1 then RTW_RSSI_MGNT_ACAM_A1M else RTW_RSSI_MGNT_ACAM) else RTW_RSSI_MGNT_OTHER)
      else if ty = RTW_FRAME_TYPE_CTRL then
        (if cam then (if a1 then RTW_RSSI_CTRL_ACAM_A1M else RTW_RSSI_CTRL_ACAM) else RTW_RSSI_CTRL_OTHER)
      else if ty = RTW_FRAME_TYPE_DATA then
        (if cam then (if a1 then RTW_RSSI_DATA_ACAM_A1M else RTW_RSSI_DATA_ACAM) else RTW_RSSI_DATA_OTHER)
      else RTW_RSSI_UNKNOWN)"

text \<open>
  The status of a PPDU completes its entry. The MAC id of a user that is not valid is not written (and
  nobody reads it); the list of the entry holds its \<^verbatim>\<open>usr_num\<close> users.
\<close>

definition hal_rx_ppdu_sts ::
  "rx_wd \<Rightarrow> rtw_phl_ppdu_phy_info \<Rightarrow> hal_ppdu_sts \<Rightarrow> rtw_phl_ppdu_sts_info \<times> rtw_phl_rssi_stat \<Rightarrow>
   rtw_phl_ppdu_sts_info \<times> rtw_phl_rssi_stat" where
  "hal_rx_ppdu_sts m phy h = (\<lambda>(ps, rs).
     let band = (if md_bb_sel m > 0 then 1 else 0); i = md_ppdu_cnt m;
         ps1 = ps\<lparr>latest_rx_is_psts := (latest_rx_is_psts ps)(band := True)\<rparr>;
         ent = sts_ent ps1 band i;
         unknown = (ps1, UPDATE_MA_RSSI RTW_RSSI_UNKNOWN (pi_rssi phy) rs)
     in if \<not> pi_is_valid phy then (ps1, rs)
        else if wd_crc32 m \<noteq> 0 \<or> se_crc32 ent \<noteq> 0 then unknown
        else if se_rx_rate ent \<noteq> md_rx_rate m then unknown
        else if se_ppdu_type ent \<noteq> md_ppdu_type m then unknown
        else if se_valid ent then (ps1, rs)
        else
          (upd_sts_ent band i (\<lambda>e. e\<lparr>se_freerun_cnt := wd_freerun_cnt m, se_rssi := pi_rssi phy,
             se_sta := map (\<lambda>u. (us_vld u, if us_vld u then us_macid u else 0)) (hp_usr h),
             se_phl_done := False, se_valid := True\<rparr>) ps1,
           UPDATE_MA_RSSI (rssi_type_of ent (wd_a1_match m)) (pi_rssi phy) rs))"

section \<open>PHY status, radar and firmware reports\<close>

text \<open>
  Three reports start with a header of eight bytes, which is read without a look at the length of the packet:
  the PHY status (\<^verbatim>\<open>phl/hal_g6/phy/bb/halbb_physts.c\<close>), the radar report (\<^verbatim>\<open>phy_rpt.c\<close>) and the firmware
  report (\<^verbatim>\<open>fwcmd.c\<close>). Who takes over behind the header is an argument, with the memory and the address, and may
  itself leave the memory (\<^const>\<open>None\<close>): \<open>bb_ies\<close> is the loop over the elements of the PHY status, with whether they
  are valid and the channel and beam forming flag of the report; \<open>bb_radar\<close> the pulses of a radar report;
  \<open>c2h_class_hdl\<close> the handler of category and class, which may change the report; \<open>c2h_post_hdl\<close> the entry of
  \<^verbatim>\<open>c2h_list\<close>. \<open>bb_last\<close> are channel and flag of the last status with elements, \<open>bb_show_all\<close> is
  \<^verbatim>\<open>show_phy_sts_all_pkt\<close> and \<open>bb_rfpath\<close> is \<^verbatim>\<open>cur_rx_rfpath\<close>.
\<close>

record mac_ax_dfs_rpt =
  dfs_ptr :: nat
  dfs_drop_num :: nat
  dfs_max_cont_drop :: nat
  dfs_total_drop :: nat
  dfs_num :: nat

record rtw_c2h_info =
  c2h_cat :: nat
  c2h_class :: nat
  c2h_func :: nat
  c2h_type_rec_ack :: bool
  c2h_type_done_ack :: bool
  c2h_h2c_return :: nat
  c2h_h2c_seq :: nat
  c2h_content_len :: nat
  c2h_content :: nat

record rx_parsers =
  bb_show_all :: bool
  bb_rfpath :: nat
  bb_last :: "nat \<times> nat"
  bb_ies :: "u8w list \<Rightarrow> nat \<Rightarrow> nat \<Rightarrow> rx_wd \<Rightarrow> hal_ppdu_sts \<Rightarrow> bool \<Rightarrow> (bool \<times> nat \<times> nat) option"
  bb_radar :: "u8w list \<Rightarrow> mac_ax_dfs_rpt \<Rightarrow> bool option"
  c2h_class_hdl :: "nat \<Rightarrow> nat \<Rightarrow> u8w list \<Rightarrow> nat \<Rightarrow> nat \<Rightarrow> rtw_c2h_info \<Rightarrow> (rtw_c2h_info \<times> mac_ret) option"
  c2h_post_hdl :: "nat \<Rightarrow> u8w list \<Rightarrow> rtw_c2h_info \<Rightarrow> u32 option"

definition PHYSTS_HDR_LEN :: nat where "PHYSTS_HDR_LEN = 8"

text \<open>The header of a PHY status: its length in units of eight bytes, the mean and the four signal strengths.\<close>

definition halbb_physts_ie_hdr :: "u8w list \<Rightarrow> nat \<Rightarrow> (nat \<times> nat \<times> nat list) option" where
  "halbb_physts_ie_hdr buf p =
     (if length buf < p + PHYSTS_HDR_LEN then None
      else Some (unat (buf ! (p + 1)), unat (buf ! (p + 3)), map (\<lambda>i. unat (buf ! (p + 4 + i))) [0..<4]))"

text \<open>The result is \<^verbatim>\<open>physts_rpt_valid\<close>, \<^verbatim>\<open>rssi_avg\<close>, \<^verbatim>\<open>rssi\<close>, \<^verbatim>\<open>ch_idx\<close> and \<^verbatim>\<open>is_bf\<close> of the report.\<close>

definition halbb_physts_parsing ::
  "rx_parsers \<Rightarrow> u8w list \<Rightarrow> nat \<Rightarrow> nat \<Rightarrow> rx_wd \<Rightarrow> hal_ppdu_sts \<Rightarrow> bool \<Rightarrow> (bool \<times> nat \<times> nat list \<times> nat \<times> nat) option" where
  "halbb_physts_parsing bb buf p physts_total_length m h is_su =
     (case halbb_physts_ie_hdr buf p of None \<Rightarrow> None
      | Some (ie_length_hdr, avg, path) \<Rightarrow>
          let total_ie_len = to_u16 (int physts_total_length - int PHYSTS_HDR_LEN);
              to_self = wd_a1_match m \<noteq> 0;
              rpt_gen = (\<lambda>(valid, ch, bf). (valid, avg, path, if valid \<and> to_self then ch else 0, if valid \<and> to_self then bf else 0))
          in if ie_length_hdr * 8 \<noteq> physts_total_length then Some (rpt_gen (False, bb_last bb))
             else if \<not> to_self \<and> \<not> bb_show_all bb then Some (rpt_gen (True, bb_last bb))
             else if total_ie_len = 0 then Some (rpt_gen (True, bb_last bb))
             else map_option rpt_gen (bb_ies bb buf (p + PHYSTS_HDR_LEN) total_ie_len m h is_su))"

definition rtw_hal_bb_parse_phy_sts ::
  "rx_parsers \<Rightarrow> u8w list \<Rightarrow> hal_ppdu_sts \<Rightarrow> rx_wd \<Rightarrow> bool \<Rightarrow> rtw_phl_ppdu_phy_info \<Rightarrow> rtw_phl_ppdu_phy_info option" where
  "rtw_hal_bb_parse_phy_sts bb buf h m is_su phy =
     (case hp_phy_st_ptr h of None \<Rightarrow> None
      | Some p \<Rightarrow>
          case halbb_physts_parsing bb buf p (to_u16 (int (hp_phy_st_size h))) m h is_su of None \<Rightarrow> None
          | Some (valid, avg, path, ch, bf) \<Rightarrow>
              if avg \<noteq> 0 \<or> valid then
                let paths = map (\<lambda>r. r div 2) path in
                Some (phy\<lparr>pi_is_valid := True, pi_rssi := if bb_rfpath bb < 4 then paths ! bb_rfpath bb else avg div 2,
                  pi_rssi_path := paths, pi_ch_idx := ch, pi_tx_bf := bf\<rparr>)
              else Some phy)"

definition AX_DFS_DROP_NUM :: txd_field where "AX_DFS_DROP_NUM = (0, 0xffff)"
definition AX_DFS_MAX_CONT_DROP :: txd_field where "AX_DFS_MAX_CONT_DROP = (16, 0xff)"
definition AX_DFS_TOTAL_DROP :: txd_field where "AX_DFS_TOTAL_DROP = (24, 0xff)"
definition MAC_AX_DFS_HDR_SIZE :: nat where "MAC_AX_DFS_HDR_SIZE = 8"

text \<open>The number of pulses comes from the length of the packet less the header, in 32 bits.\<close>

definition mac_parse_dfs :: "u8w list \<Rightarrow> nat \<Rightarrow> nat \<Rightarrow> (mac_ax_dfs_rpt \<times> mac_ret) option" where
  "mac_parse_dfs buf p dfs_len =
     (if length buf < p + 8 then None
      else
        let val = le_dword buf p; val1 = le_dword buf (p + 4); len = (of_nat dfs_len - of_nat MAC_AX_DFS_HDR_SIZE :: u32)
        in Some (\<lparr>dfs_ptr = p + MAC_AX_DFS_HDR_SIZE, dfs_drop_num = unat (GET_FIELD val AX_DFS_DROP_NUM),
              dfs_max_cont_drop = unat (GET_FIELD val AX_DFS_MAX_CONT_DROP), dfs_total_drop = unat (GET_FIELD val1 AX_DFS_TOTAL_DROP),
              dfs_num = to_u16 (int (unat (drop_bit 3 len)))\<rparr>,
            if len AND 7 \<noteq> 0 then MACPARSEERR else MACSUCCESS))"

definition C2H_HDR_CAT :: txd_field where "C2H_HDR_CAT = (0, 0x3)"
definition C2H_HDR_CLASS :: txd_field where "C2H_HDR_CLASS = (2, 0x3f)"
definition C2H_HDR_FUNC :: txd_field where "C2H_HDR_FUNC = (8, 0xff)"
definition C2H_HDR_DEL_TYPE :: txd_field where "C2H_HDR_DEL_TYPE = (16, 0xf)"
definition C2H_HDR_TOTAL_LEN :: txd_field where "C2H_HDR_TOTAL_LEN = (0, 0x3fff)"
definition FWCMD_TYPE_C2H :: nat where "FWCMD_TYPE_C2H = 1"
definition FWCMD_C2H_CAT_TEST :: nat where "FWCMD_C2H_CAT_TEST = 0"
definition FWCMD_C2H_CAT_MAC :: nat where "FWCMD_C2H_CAT_MAC = 1"
definition FWCMD_C2H_CAT_OUTSRC :: nat where "FWCMD_C2H_CAT_OUTSRC = 2"

text \<open>\<^verbatim>\<open>struct rtw_c2h_info c = {0}\<close> and what is read from the header.\<close>

definition c2h_field_parsing :: "u8w list \<Rightarrow> nat \<Rightarrow> rtw_c2h_info option" where
  "c2h_field_parsing buf p =
     (if length buf < p + 8 then None
      else
        let val = le_dword buf p; val1 = le_dword buf (p + 4)
        in Some \<lparr>c2h_cat = unat (GET_FIELD val C2H_HDR_CAT), c2h_class = unat (GET_FIELD val C2H_HDR_CLASS),
            c2h_func = unat (GET_FIELD val C2H_HDR_FUNC), c2h_type_rec_ack = False, c2h_type_done_ack = False,
            c2h_h2c_return = 0, c2h_h2c_seq = 0,
            c2h_content_len = to_u16 (int (unat (GET_FIELD val1 C2H_HDR_TOTAL_LEN)) - 8),
            c2h_content = p + 8\<rparr>)"

text \<open>The classes of a category that have a handler (\<^verbatim>\<open>c2h_proc_sys\<close> and \<^verbatim>\<open>c2h_proc_mac\<close>).\<close>

definition c2h_proc_sel :: "nat \<Rightarrow> nat list option" where
  "c2h_proc_sel cat =
     (if cat = FWCMD_C2H_CAT_TEST then Some [0, 2, 4]
      else if cat = FWCMD_C2H_CAT_MAC then Some [0, 1, 2, 3, 4, 5, 6, 9, 8, 10] else None)"

definition mac_process_c2h :: "rx_parsers \<Rightarrow> u8w list \<Rightarrow> nat \<Rightarrow> nat \<Rightarrow> (rtw_c2h_info \<times> mac_ret) option" where
  "mac_process_c2h bb buf p len =
     (case c2h_field_parsing buf p of None \<Rightarrow> None
      | Some info \<Rightarrow>
          if unat (GET_FIELD (le_dword buf p) C2H_HDR_DEL_TYPE) \<noteq> FWCMD_TYPE_C2H then Some (info, MACNOITEM)
          else if c2h_cat info = FWCMD_C2H_CAT_OUTSRC then Some (info, MACSUCCESS)
          else
            case c2h_proc_sel (c2h_cat info) of None \<Rightarrow> Some (info, MACNOITEM)
            | Some proc \<Rightarrow>
                if c2h_class info \<in> set proc then c2h_class_hdl bb (c2h_cat info) (c2h_class info) buf p len info
                else Some (info, MACNOITEM))"

text \<open>\<^verbatim>\<open>c2h_list\<close>: category and classes of the baseband, coexistence and MAC entries. The result is the event sent.\<close>

definition c2h_list :: "(nat \<times> nat \<times> nat) list" where
  "c2h_list = [(2, 0, 7), (2, 0x10, 0x17), (1, 0, 0xFF)]"

definition hal_c2h_post_process :: "rx_parsers \<Rightarrow> u8w list \<Rightarrow> rtw_c2h_info \<Rightarrow> nat list option" where
  "hal_c2h_post_process bb buf c =
     (case find (\<lambda>i. case c2h_list ! i of (cat, lo, hi) \<Rightarrow> c2h_cat c = cat \<and> lo \<le> c2h_class c \<and> c2h_class c \<le> hi) [0..<length c2h_list] of
        None \<Rightarrow> Some []
      | Some i \<Rightarrow> map_option (\<lambda>ret. if ret \<noteq> 0 then [to_u16 (int (unat ret))] else []) (c2h_post_hdl bb i buf c))"

section \<open>A received buffer\<close>

text \<open>
  The state the chip layer changes; \<open>hc_reports\<close> are the radar and firmware reports that were parsed, with address
  and length, and \<open>hc_msgs\<close> the events sent to the message hub for firmware reports.
\<close>

record hal_ctx =
  hc_rx_ok :: u32
  hc_rx_err :: u32
  hc_psts :: rtw_phl_ppdu_sts_info
  hc_rssi :: rtw_phl_rssi_stat
  hc_reports :: "(rtw_rx_type \<times> nat \<times> nat) list"
  hc_msgs :: "nat list"

definition hal_rx_wlanhdr_check_8852a :: "u8w list \<Rightarrow> nat \<Rightarrow> rx_wd \<Rightarrow> rx_wd option" where
  "hal_rx_wlanhdr_check_8852a buf hdr m =
     (if length buf < hdr + 24 then None else Some (m\<lparr>md_ta := PHL_GET_80211_HDR_ADDRESS2 buf hdr\<rparr>))"

definition hal_rx_sts_8852a :: "rx_wd \<Rightarrow> hal_ctx \<Rightarrow> hal_ctx" where
  "hal_rx_sts_8852a m ctx =
     (if wd_crc32 m \<noteq> 0 \<or> wd_icverr m \<noteq> 0 then ctx\<lparr>hc_rx_err := hc_rx_err ctx + 1\<rparr> else ctx\<lparr>hc_rx_ok := hc_rx_ok ctx + 1\<rparr>)"

definition handle_wifi :: "u8w list \<Rightarrow> rx_fill \<Rightarrow> hal_ctx \<Rightarrow> (rx_fill \<times> hal_ctx) option" where
  "handle_wifi buf f ctx =
     (case hal_rx_wlanhdr_check_8852a buf (fl_vir f) (fl_wd f) of None \<Rightarrow> None
      | Some m \<Rightarrow>
          case hal_rx_ppdu_sts_normal_data buf (fl_vir f) m (hc_psts ctx) of
            (m1, ps) \<Rightarrow> Some (f\<lparr>fl_type := RTW_RX_TYPE_WIFI, fl_wd := m1\<rparr>, (hal_rx_sts_8852a m ctx)\<lparr>hc_psts := ps\<rparr>))"

definition rx_is_su :: "rx_wd \<Rightarrow> bool" where
  "rx_is_su m \<longleftrightarrow> \<not> (md_ppdu_type m = RX_8852A_DESC_PPDU_T_VHT_MU \<or> md_ppdu_type m = RX_8852A_DESC_PPDU_T_HE_MU \<or>
     md_ppdu_type m = RX_8852A_DESC_PPDU_T_HE_TB)"

definition handle_ppdu_status :: "rx_parsers \<Rightarrow> u8w list \<Rightarrow> rx_fill \<Rightarrow> hal_ctx \<Rightarrow> (rx_fill \<times> hal_ctx) option" where
  "handle_ppdu_status bb buf f ctx =
     (let m = fl_wd f; f1 = f\<lparr>fl_type := RTW_RX_TYPE_PPDU_STATUS\<rparr> in
      case rtw_hal_mac_ax_parse_ppdu_sts buf (fl_vir f) (md_pktlen m) (wd_mac_info_vld m \<noteq> 0) of None \<Rightarrow> None
      | Some h \<Rightarrow>
          if hp_phy_st_size h = 0 then Some (f1, ctx)
          else
            case rtw_hal_bb_parse_phy_sts bb buf h m (rx_is_su m) (fl_phy f1) of None \<Rightarrow> None
            | Some phy \<Rightarrow>
                case hal_rx_ppdu_sts m phy h (hc_psts ctx, hc_rssi ctx) of
                  (ps, rs) \<Rightarrow> Some (f1\<lparr>fl_phy := phy\<rparr>, ctx\<lparr>hc_psts := ps, hc_rssi := rs\<rparr>))"

definition handle_dfs_rpt :: "rx_parsers \<Rightarrow> u8w list \<Rightarrow> rx_fill \<Rightarrow> hal_ctx \<Rightarrow> (rx_fill \<times> hal_ctx) option" where
  "handle_dfs_rpt bb buf f ctx =
     (case mac_parse_dfs buf (fl_vir f) (md_pktlen (fl_wd f)) of None \<Rightarrow> None
      | Some (rpt, r) \<Rightarrow>
          case bb_radar bb buf rpt of None \<Rightarrow> None
          | Some detected \<Rightarrow>
              Some (f\<lparr>fl_type := RTW_RX_TYPE_DFS_RPT\<rparr>,
                ctx\<lparr>hc_reports := hc_reports ctx @ [(RTW_RX_TYPE_DFS_RPT, fl_vir f, md_pktlen (fl_wd f))]\<rparr>))"

definition handle_c2h :: "rx_parsers \<Rightarrow> u8w list \<Rightarrow> rx_fill \<Rightarrow> hal_ctx \<Rightarrow> (rx_fill \<times> hal_ctx) option" where
  "handle_c2h bb buf f ctx =
     (case mac_process_c2h bb buf (fl_vir f) (md_pktlen (fl_wd f)) of None \<Rightarrow> None
      | Some (c, r) \<Rightarrow>
          case hal_c2h_post_process bb buf c of None \<Rightarrow> None
          | Some msgs \<Rightarrow>
              Some (f\<lparr>fl_type := RTW_RX_TYPE_C2H\<rparr>,
                ctx\<lparr>hc_reports := hc_reports ctx @ [(RTW_RX_TYPE_C2H, fl_vir f, md_pktlen (fl_wd f))],
                  hc_msgs := hc_msgs ctx @ msgs\<rparr>))"

definition hal_handle_rx_buffer_8852a ::
  "rx_parsers \<Rightarrow> rtw_hci_type \<Rightarrow> u8w list \<Rightarrow> nat \<Rightarrow> nat \<Rightarrow> rx_fill \<Rightarrow> hal_ctx \<Rightarrow> (rx_fill \<times> hal_ctx \<times> rtw_hal_status) option" where
  "hal_handle_rx_buffer_8852a bb hci buf p buf_len f ctx =
     (case hal_parsing_rx_wd_8852a hci (Some (buf, p)) f of None \<Rightarrow> None
      | Some (f0, s) \<Rightarrow>
          if s \<noteq> RTW_HAL_STATUS_SUCCESS then Some (f0, ctx, s)
          else if fl_vir f0 + fl_len f0 > p + buf_len then Some (f0, ctx, RTW_HAL_STATUS_FAILURE)
          else
            let f1 = f0\<lparr>fl_pkt_cnt := 1\<rparr>; ty = wd_rpkt_type (fl_wd f1);
                r = (if ty = RX_8852A_DESC_PKT_T_WIFI then handle_wifi buf f1 ctx
                     else if ty = RX_8852A_DESC_PKT_T_TX_PD_RELEASE_HOST
                     then Some (f1\<lparr>fl_type := RTW_RX_TYPE_TX_WP_RELEASE_HOST\<rparr>, ctx)
                     else if ty = RX_8852A_DESC_PKT_T_PPDU_STATUS then handle_ppdu_status bb buf f1 ctx
                     else if ty = RX_8852A_DESC_PKT_T_DFS_RPT then handle_dfs_rpt bb buf f1 ctx
                     else if ty = RX_8852A_DESC_PKT_T_CHANNEL_INFO then Some (f1\<lparr>fl_type := RTW_RX_TYPE_CHANNEL_INFO\<rparr>, ctx)
                     else if ty = RX_8852A_DESC_PKT_T_C2H then handle_c2h bb buf f1 ctx
                     else if ty = RX_8852A_DESC_PKT_T_TX_RPT then Some (f1\<lparr>fl_type := RTW_RX_TYPE_TX_RPT\<rparr>, ctx)
                     else Some (f1, ctx))
            in map_option (\<lambda>(f2, ctx1). (f2, ctx1, RTW_HAL_STATUS_SUCCESS)) r)"

section \<open>Fields are bounded\<close>

lemma mask_32: "n \<le> 32 \<Longrightarrow> BIT_LEN_MASK_32 n = mask n"
  unfolding BIT_LEN_MASK_32_def
proof (rule bit_word_eqI)
  fix k
  assume "n \<le> 32" "k < LENGTH(32)"
  then have "bit (drop_bit (32 - n) (mask 32 :: u32)) k \<longleftrightarrow> bit (mask n :: u32) k" by (auto simp: bit_simps)
  moreover have "(mask 32 :: u32) = 0xFFFFFFFF" by (simp add: mask_eq_exp_minus_1)
  ultimately show "bit (drop_bit (32 - n) 0xFFFFFFFF :: u32) k \<longleftrightarrow> bit (mask n :: u32) k" by (simp only:)
qed

lemma rxd_get_div:
  assumes "n \<le> 32"
  shows "rxd_get buf desc (o', s, n) = unat (le_dword buf (desc + o')) div 2 ^ s mod 2 ^ n"
proof -
  have "LE_BITS_TO_4BYTE buf (desc + o') s n = take_bit n (drop_bit s (le_dword buf (desc + o')))"
    by (simp add: LE_BITS_TO_4BYTE_def mask_32 [OF assms] take_bit_eq_mask)
  then have "rxd_get buf desc (o', s, n) = take_bit n (drop_bit s (unat (le_dword buf (desc + o'))))"
    by (simp add: rxd_get_def unsigned_take_bit_eq unat_drop_bit_eq)
  then show ?thesis by (simp only: drop_bit_eq_div take_bit_eq_mod)
qed

lemma rxd_get_less: "n \<le> 32 \<Longrightarrow> rxd_get buf desc (o', s, n) < 2 ^ n"
  by (simp add: rxd_get_div)

section \<open>The documented layout\<close>

text \<open>
  \<^verbatim>\<open>struct rtw_r_meta_data\<close> (\<^verbatim>\<open>phl/phl_trx_def.h\<close>) notes word and bits of every field. The words written in this
  layout, the lowest field first; \<open>cam_macid\<close> is the MAC id field, which only counts with a valid address
  entry.
\<close>

definition rx_layout :: "nat \<Rightarrow> rx_wd \<Rightarrow> (nat \<times> nat) list list" where
  "rx_layout cam_macid m =
     [[(14, md_pktlen m), (2, wd_shift m), (6, wd_wl_hd_iv_len m), (1, md_bb_sel m), (1, wd_mac_info_vld m),
       (4, wd_rpkt_type m), (3, wd_drv_info_size m), (1, md_long_rxd m)],
      [(4, md_ppdu_type m), (3, md_ppdu_cnt m), (1, wd_sr_en m), (8, wd_user_id m), (9, md_rx_rate m),
       (3, md_rx_gi_ltf m), (1, wd_non_srg_ppdu m), (1, wd_inter_ppdu m), (2, md_bw m)],
      [(32, wd_freerun_cnt m)],
      [(1, wd_a1_match m), (1, wd_sw_dec m), (1, wd_hw_dec m), (1, wd_ampdu m), (1, wd_ampdu_end_pkt m),
       (1, wd_amsdu m), (1, of_bool (md_amsdu_cut m)), (1, of_bool (md_last_msdu m)), (1, wd_bypass m), (1, wd_crc32 m),
       (1, wd_icverr m), (1, wd_magic_wake m), (1, wd_unicast_wake m), (1, wd_pattern_wake m), (2, wd_get_ch_info m),
       (5, wd_pattern_idx m), (3, wd_target_idc m), (1, wd_chksum_ofld_en m), (1, wd_with_llc m), (1, wd_rx_statistics m)],
      [(2, md_frame_type m), (1, of_bool (md_mc m)), (1, of_bool (md_bc m)), (1, wd_more_data m),
       (1, of_bool (md_more_frag m)), (1, of_bool (md_pwr_bit m)), (1, of_bool (md_qos m)), (4, md_tid m),
       (1, wd_eosp m), (1, wd_htc m), (1, of_bool (md_q_null m)), (1, 0), (12, md_seq m), (4, md_frag_num m)],
      [(8, wd_sec_cam_idx m), (8, wd_addr_cam m), (8, cam_macid), (4, wd_rx_pl_id m),
       (1, of_bool (md_addr_cam_vld m)), (1, wd_addr_fwd_en m), (1, wd_rx_pl_match m)]]"

text \<open>The descriptor is stored at \<open>desc\<close>.\<close>

definition rx_desc_at :: "nat \<Rightarrow> rx_wd \<Rightarrow> u8w list \<Rightarrow> nat \<Rightarrow> bool" where
  "rx_desc_at cam_macid m buf desc \<longleftrightarrow>
     (\<forall>k<6. fits (rx_layout cam_macid m ! k) \<and> unat (le_dword buf (desc + 4 * k)) = pack (rx_layout cam_macid m ! k)) \<and>
     md_mac_addr m = map unat (seg (desc + 24) 6 buf) \<and> desc + 32 \<le> length buf \<and>
     md_macid m = (if md_addr_cam_vld m then cam_macid else 0xFF)"

lemma pack_get:
  assumes "fits fs" "unat (le_dword buf (desc + o')) = pack fs" "i < length fs" "s = widths (take i fs)" "n = fst (fs ! i)" "n \<le> 32"
  shows "rxd_get buf desc (o', s, n) = snd (fs ! i)"
  using pack_nth [OF assms(1,3)] assms by (simp add: rxd_get_div)

lemma rx_layout_get:
  assumes "rx_desc_at cam_macid m buf desc" "k < 6" "i < length (rx_layout cam_macid m ! k)"
  shows "rxd_get buf desc (4 * k, widths (take i (rx_layout cam_macid m ! k)), fst (rx_layout cam_macid m ! k ! i)) =
     snd (rx_layout cam_macid m ! k ! i)"
proof (rule pack_get [OF _ _ assms(3) refl refl])
  show "fits (rx_layout cam_macid m ! k)" "unat (le_dword buf (desc + 4 * k)) = pack (rx_layout cam_macid m ! k)"
    using assms(1,2) by (simp_all add: rx_desc_at_def)
  have "\<forall>fs\<in>set (rx_layout cam_macid m). \<forall>f\<in>set fs. fst f \<le> 32" by (simp add: rx_layout_def)
  moreover have "length (rx_layout cam_macid m) = 6" by (simp add: rx_layout_def)
  ultimately show "fst (rx_layout cam_macid m ! k ! i) \<le> 32" using assms(2,3) by (metis nth_mem)
qed

lemma rx_layout_dw0:
  assumes "rx_desc_at cam_macid m buf desc"
  shows "rxd_get buf desc GET_RX_AX_DESC_PKT_LEN_8852A = md_pktlen m"
    "rxd_get buf desc GET_RX_AX_DESC_SHIFT_8852A = wd_shift m"
    "rxd_get buf desc GET_RX_AX_DESC_HDR_IV_L_8852A = wd_wl_hd_iv_len m"
    "rxd_get buf desc GET_RX_AX_DESC_BB_SEL_8852A = md_bb_sel m"
    "rxd_get buf desc GET_RX_AX_DESC_MAC_INFO_VLD_8852A = wd_mac_info_vld m"
    "rxd_get buf desc GET_RX_AX_DESC_RPKT_TYPE_8852A = wd_rpkt_type m"
    "rxd_get buf desc GET_RX_AX_DESC_DRV_INFO_SIZE_8852A = wd_drv_info_size m"
    "rxd_get buf desc GET_RX_AX_DESC_LONG_RXD_8852A = md_long_rxd m"
proof -
  note g = rx_layout_get [OF assms, of 0]
  show "rxd_get buf desc GET_RX_AX_DESC_PKT_LEN_8852A = md_pktlen m"
    "rxd_get buf desc GET_RX_AX_DESC_SHIFT_8852A = wd_shift m"
    "rxd_get buf desc GET_RX_AX_DESC_HDR_IV_L_8852A = wd_wl_hd_iv_len m"
    "rxd_get buf desc GET_RX_AX_DESC_BB_SEL_8852A = md_bb_sel m"
    "rxd_get buf desc GET_RX_AX_DESC_MAC_INFO_VLD_8852A = wd_mac_info_vld m"
    "rxd_get buf desc GET_RX_AX_DESC_RPKT_TYPE_8852A = wd_rpkt_type m"
    "rxd_get buf desc GET_RX_AX_DESC_DRV_INFO_SIZE_8852A = wd_drv_info_size m"
    "rxd_get buf desc GET_RX_AX_DESC_LONG_RXD_8852A = md_long_rxd m"
    using g [of 0] g [of 1] g [of 2] g [of 3] g [of 4] g [of 5] g [of 6] g [of 7]
    by (simp_all add: rx_layout_def rxd_fields)
qed

lemma rx_layout_dw1:
  assumes "rx_desc_at cam_macid m buf desc"
  shows "rxd_get buf desc GET_RX_AX_DESC_PPDU_TYPE_8852A = md_ppdu_type m"
    "rxd_get buf desc GET_RX_AX_DESC_PPDU_CNT_8852A = md_ppdu_cnt m"
    "rxd_get buf desc GET_RX_AX_DESC_SR_EN_8852A = wd_sr_en m"
    "rxd_get buf desc GET_RX_AX_DESC_USER_ID_8852A = wd_user_id m"
    "rxd_get buf desc GET_RX_AX_DESC_RX_DATARATE_8852A = md_rx_rate m"
    "rxd_get buf desc GET_RX_AX_DESC_RX_GI_LTF_8852A = md_rx_gi_ltf m"
    "rxd_get buf desc GET_RX_AX_DESC_NON_SRG_PPDU_8852A = wd_non_srg_ppdu m"
    "rxd_get buf desc GET_RX_AX_DESC_INTER_PPDU_8852A = wd_inter_ppdu m"
    "rxd_get buf desc GET_RX_AX_DESC_BW_8852A = md_bw m"
proof -
  note g = rx_layout_get [OF assms, of 1]
  show "rxd_get buf desc GET_RX_AX_DESC_PPDU_TYPE_8852A = md_ppdu_type m"
    "rxd_get buf desc GET_RX_AX_DESC_PPDU_CNT_8852A = md_ppdu_cnt m"
    "rxd_get buf desc GET_RX_AX_DESC_SR_EN_8852A = wd_sr_en m"
    "rxd_get buf desc GET_RX_AX_DESC_USER_ID_8852A = wd_user_id m"
    "rxd_get buf desc GET_RX_AX_DESC_RX_DATARATE_8852A = md_rx_rate m"
    "rxd_get buf desc GET_RX_AX_DESC_RX_GI_LTF_8852A = md_rx_gi_ltf m"
    "rxd_get buf desc GET_RX_AX_DESC_NON_SRG_PPDU_8852A = wd_non_srg_ppdu m"
    "rxd_get buf desc GET_RX_AX_DESC_INTER_PPDU_8852A = wd_inter_ppdu m"
    "rxd_get buf desc GET_RX_AX_DESC_BW_8852A = md_bw m"
    using g [of 0] g [of 1] g [of 2] g [of 3] g [of 4] g [of 5] g [of 6] g [of 7] g [of 8]
    by (simp_all add: rx_layout_def rxd_fields)
qed

lemma rx_layout_dw2:
  assumes "rx_desc_at cam_macid m buf desc"
  shows "rxd_get buf desc GET_RX_AX_DESC_FREERUN_CNT_8852A = wd_freerun_cnt m"
proof -
  note g = rx_layout_get [OF assms, of 2]
  show "rxd_get buf desc GET_RX_AX_DESC_FREERUN_CNT_8852A = wd_freerun_cnt m"
    using g [of 0]
    by (simp_all add: rx_layout_def rxd_fields)
qed

lemma rx_layout_dw3:
  assumes "rx_desc_at cam_macid m buf desc"
  shows "rxd_get buf desc GET_RX_AX_DESC_A1_MATCH_8852A = wd_a1_match m"
    "rxd_get buf desc GET_RX_AX_DESC_SW_DEC_8852A = wd_sw_dec m"
    "rxd_get buf desc GET_RX_AX_DESC_HW_DEC_8852A = wd_hw_dec m"
    "rxd_get buf desc GET_RX_AX_DESC_AMPDU_8852A = wd_ampdu m"
    "rxd_get buf desc GET_RX_AX_DESC_AMPDU_EDN_PKT_8852A = wd_ampdu_end_pkt m"
    "rxd_get buf desc GET_RX_AX_DESC_AMSDU_8852A = wd_amsdu m"
    "rxd_get buf desc GET_RX_AX_DESC_AMSDU_CUT_8852A = of_bool (md_amsdu_cut m)"
    "rxd_get buf desc GET_RX_AX_DESC_LAST_MSDU_8852A = of_bool (md_last_msdu m)"
    "rxd_get buf desc GET_RX_AX_DESC_BYPASS_8852A = wd_bypass m"
    "rxd_get buf desc GET_RX_AX_DESC_CRC32_8852A = wd_crc32 m"
    "rxd_get buf desc GET_RX_AX_DESC_ICVERR_8852A = wd_icverr m"
    "rxd_get buf desc GET_RX_AX_DESC_MAGIC_WAKE_8852A = wd_magic_wake m"
    "rxd_get buf desc GET_RX_AX_DESC_UNICAST_WAKE_8852A = wd_unicast_wake m"
    "rxd_get buf desc GET_RX_AX_DESC_PATTERN_WAKE_8852A = wd_pattern_wake m"
    "rxd_get buf desc GET_RX_AX_DESC_PATTERN_IDX_8852A = wd_pattern_idx m"
    "rxd_get buf desc GET_RX_AX_DESC_TARGET_IDC_8852A = wd_target_idc m"
    "rxd_get buf desc GET_RX_AX_DESC_CHKSUM_OFFLOAD_8852A = wd_chksum_ofld_en m"
    "rxd_get buf desc GET_RX_AX_DESC_WITH_LLC_8852A = wd_with_llc m"
proof -
  note g = rx_layout_get [OF assms, of 3]
  show "rxd_get buf desc GET_RX_AX_DESC_A1_MATCH_8852A = wd_a1_match m"
    "rxd_get buf desc GET_RX_AX_DESC_SW_DEC_8852A = wd_sw_dec m"
    "rxd_get buf desc GET_RX_AX_DESC_HW_DEC_8852A = wd_hw_dec m"
    "rxd_get buf desc GET_RX_AX_DESC_AMPDU_8852A = wd_ampdu m"
    "rxd_get buf desc GET_RX_AX_DESC_AMPDU_EDN_PKT_8852A = wd_ampdu_end_pkt m"
    "rxd_get buf desc GET_RX_AX_DESC_AMSDU_8852A = wd_amsdu m"
    "rxd_get buf desc GET_RX_AX_DESC_AMSDU_CUT_8852A = of_bool (md_amsdu_cut m)"
    "rxd_get buf desc GET_RX_AX_DESC_LAST_MSDU_8852A = of_bool (md_last_msdu m)"
    "rxd_get buf desc GET_RX_AX_DESC_BYPASS_8852A = wd_bypass m"
    "rxd_get buf desc GET_RX_AX_DESC_CRC32_8852A = wd_crc32 m"
    "rxd_get buf desc GET_RX_AX_DESC_ICVERR_8852A = wd_icverr m"
    "rxd_get buf desc GET_RX_AX_DESC_MAGIC_WAKE_8852A = wd_magic_wake m"
    "rxd_get buf desc GET_RX_AX_DESC_UNICAST_WAKE_8852A = wd_unicast_wake m"
    "rxd_get buf desc GET_RX_AX_DESC_PATTERN_WAKE_8852A = wd_pattern_wake m"
    "rxd_get buf desc GET_RX_AX_DESC_PATTERN_IDX_8852A = wd_pattern_idx m"
    "rxd_get buf desc GET_RX_AX_DESC_TARGET_IDC_8852A = wd_target_idc m"
    "rxd_get buf desc GET_RX_AX_DESC_CHKSUM_OFFLOAD_8852A = wd_chksum_ofld_en m"
    "rxd_get buf desc GET_RX_AX_DESC_WITH_LLC_8852A = wd_with_llc m"
    using g [of 0] g [of "Suc 0"] g [of 2] g [of 3] g [of 4] g [of 5] g [of 6] g [of 7] g [of 8] g [of 9] g [of 10] g [of
    11] g [of 12] g [of 13] g [of 15] g [of 16] g [of 17] g [of 18]
    by (simp_all add: rx_layout_def rxd_fields del: One_nat_def)
qed

lemma rx_layout_dw4:
  assumes "rx_desc_at cam_macid m buf desc"
  shows "rxd_get buf desc GET_RX_AX_DESC_TYPE_8852A = md_frame_type m"
    "rxd_get buf desc GET_RX_AX_DESC_MC_8852A = of_bool (md_mc m)"
    "rxd_get buf desc GET_RX_AX_DESC_BC_8852A = of_bool (md_bc m)"
    "rxd_get buf desc GET_RX_AX_DESC_MD_8852A = wd_more_data m"
    "rxd_get buf desc GET_RX_AX_DESC_MF_8852A = of_bool (md_more_frag m)"
    "rxd_get buf desc GET_RX_AX_DESC_PWR_8852A = of_bool (md_pwr_bit m)"
    "rxd_get buf desc GET_RX_AX_DESC_QOS_8852A = of_bool (md_qos m)"
    "rxd_get buf desc GET_RX_AX_DESC_TID_8852A = md_tid m"
    "rxd_get buf desc GET_RX_AX_DESC_EOSP_8852A = wd_eosp m"
    "rxd_get buf desc GET_RX_AX_DESC_HTC_8852A = wd_htc m"
    "rxd_get buf desc GET_RX_AX_DESC_QNULL_8852A = of_bool (md_q_null m)"
    "rxd_get buf desc GET_RX_AX_DESC_SEQ_8852A = md_seq m"
    "rxd_get buf desc GET_RX_AX_DESC_FRAG_8852A = md_frag_num m"
proof -
  note g = rx_layout_get [OF assms, of 4]
  show "rxd_get buf desc GET_RX_AX_DESC_TYPE_8852A = md_frame_type m"
    "rxd_get buf desc GET_RX_AX_DESC_MC_8852A = of_bool (md_mc m)"
    "rxd_get buf desc GET_RX_AX_DESC_BC_8852A = of_bool (md_bc m)"
    "rxd_get buf desc GET_RX_AX_DESC_MD_8852A = wd_more_data m"
    "rxd_get buf desc GET_RX_AX_DESC_MF_8852A = of_bool (md_more_frag m)"
    "rxd_get buf desc GET_RX_AX_DESC_PWR_8852A = of_bool (md_pwr_bit m)"
    "rxd_get buf desc GET_RX_AX_DESC_QOS_8852A = of_bool (md_qos m)"
    "rxd_get buf desc GET_RX_AX_DESC_TID_8852A = md_tid m"
    "rxd_get buf desc GET_RX_AX_DESC_EOSP_8852A = wd_eosp m"
    "rxd_get buf desc GET_RX_AX_DESC_HTC_8852A = wd_htc m"
    "rxd_get buf desc GET_RX_AX_DESC_QNULL_8852A = of_bool (md_q_null m)"
    "rxd_get buf desc GET_RX_AX_DESC_SEQ_8852A = md_seq m"
    "rxd_get buf desc GET_RX_AX_DESC_FRAG_8852A = md_frag_num m"
    using g [of 0] g [of 1] g [of 2] g [of 3] g [of 4] g [of 5] g [of 6] g [of 7] g [of 8] g [of 9] g [of 10] g [of
    12] g [of 13]
    by (simp_all add: rx_layout_def rxd_fields)
qed

lemma rx_layout_dw5:
  assumes "rx_desc_at cam_macid m buf desc"
  shows "rxd_get buf desc GET_RX_AX_DESC_CAM_IDX_8852A = wd_sec_cam_idx m"
    "rxd_get buf desc GET_RX_AX_DESC_ADDR_CAM_8852A = wd_addr_cam m"
    "rxd_get buf desc GET_RX_AX_DESC_MACID_8852A = cam_macid"
    "rxd_get buf desc GET_RX_AX_DESC_PL_ID_8852A = wd_rx_pl_id m"
    "rxd_get buf desc GET_RX_AX_DESC_CAM_VLD_8852A = of_bool (md_addr_cam_vld m)"
    "rxd_get buf desc GET_RX_AX_DESC_FWD_EN_8852A = wd_addr_fwd_en m"
    "rxd_get buf desc GET_RX_AX_DESC_PL_MATCH_8852A = wd_rx_pl_match m"
proof -
  note g = rx_layout_get [OF assms, of 5]
  show "rxd_get buf desc GET_RX_AX_DESC_CAM_IDX_8852A = wd_sec_cam_idx m"
    "rxd_get buf desc GET_RX_AX_DESC_ADDR_CAM_8852A = wd_addr_cam m"
    "rxd_get buf desc GET_RX_AX_DESC_MACID_8852A = cam_macid"
    "rxd_get buf desc GET_RX_AX_DESC_PL_ID_8852A = wd_rx_pl_id m"
    "rxd_get buf desc GET_RX_AX_DESC_CAM_VLD_8852A = of_bool (md_addr_cam_vld m)"
    "rxd_get buf desc GET_RX_AX_DESC_FWD_EN_8852A = wd_addr_fwd_en m"
    "rxd_get buf desc GET_RX_AX_DESC_PL_MATCH_8852A = wd_rx_pl_match m"
    using g [of 0] g [of 1] g [of 2] g [of 3] g [of 4] g [of 5] g [of 6]
    by (simp_all add: rx_layout_def rxd_fields)
qed

lemmas rx_layout_fields = rx_layout_dw0 rx_layout_dw1 rx_layout_dw2 rx_layout_dw3 rx_layout_dw4 rx_layout_dw5

text \<open>Two bits are noted as one field, but are read as two.\<close>

lemma rx_layout_ch_info:
  assumes "rx_desc_at cam_macid m buf desc"
  shows "rxd_get buf desc GET_RX_AX_DESC_CH_INFO_8852A = wd_get_ch_info m mod 2"
    "rxd_get buf desc GET_RX_AX_DESC_STATISTICS_8852A = wd_get_ch_info m div 2"
proof -
  let ?q = "unat (le_dword buf (desc + 12)) div 2 ^ 14"
  have q: "?q mod 4 = wd_get_ch_info m"
    using rx_layout_get [OF assms, of 3 14] by (simp add: rx_layout_def rxd_get_div)
  have "?q mod 2 = ?q mod 4 mod 2" by (simp add: mod_mod_cancel)
  then show "rxd_get buf desc GET_RX_AX_DESC_CH_INFO_8852A = wd_get_ch_info m mod 2"
    using q by (simp add: rxd_fields rxd_get_div)
  have "x div 2 mod 2 = x mod 4 div 2" for x :: nat by presburger
  moreover have "unat (le_dword buf (desc + 12)) div 2 ^ 15 = ?q div 2" by (simp flip: div_mult2_eq)
  ultimately show "rxd_get buf desc GET_RX_AX_DESC_STATISTICS_8852A = wd_get_ch_info m div 2"
    using q by (simp add: rxd_fields rxd_get_div)
qed

lemma rx_desc_read:
  assumes "rx_desc_at cam_macid m buf desc" "rx_wd_typed (wd_rpkt_type m)" "md_long_rxd m = 1" "0 < md_pktlen m"
  shows "hal_parsing_rx_wd buf desc m0 =
     Some (m\<lparr>wd_get_ch_info := wd_get_ch_info m mod 2, wd_rx_statistics := wd_get_ch_info m div 2,
              md_ta := md_ta m0, wd_ppdu_cnt_chg := wd_ppdu_cnt_chg m0\<rparr>, RTW_HAL_STATUS_SUCCESS)"
proof -
  note get = rx_layout_fields [OF assms(1)] rx_layout_ch_info [OF assms(1)]
  have len: "\<not> length buf < desc + 4" "\<not> length buf < desc + 16" "\<not> length buf < desc + 30"
    and id: "md_mac_addr m = map unat (seg (desc + 24) 6 buf)" "md_macid m = (if md_addr_cam_vld m then cam_macid else 0xFF)"
    using assms(1) by (simp_all add: rx_desc_at_def)
  have "rx_wd_dw4_7 buf desc (rx_wd_dw1_3 buf desc (rx_wd_dw0 buf desc m0)) =
      m\<lparr>wd_get_ch_info := wd_get_ch_info m mod 2, wd_rx_statistics := wd_get_ch_info m div 2,
        md_ta := md_ta m0, wd_ppdu_cnt_chg := wd_ppdu_cnt_chg m0\<rparr>"
    by (rule rx_wd.equality) (simp_all add: rx_wd_dw0_def rx_wd_dw1_3_def rx_wd_dw4_7_def rxd_flag_def get id)
  moreover have "wd_rpkt_type (rx_wd_dw0 buf desc m0) = wd_rpkt_type m" "md_long_rxd (rx_wd_dw1_3 buf desc (rx_wd_dw0 buf desc m0)) = 1"
    using assms(3) by (simp_all add: rx_wd_dw0_def rx_wd_dw1_3_def get)
  ultimately show ?thesis using len assms(2-4) by (simp add: hal_parsing_rx_wd_def Let_def)
qed

text \<open>
  C7: A descriptor of a frame or a status, written in the layout that \<^verbatim>\<open>struct rtw_r_meta_data\<close> notes, is read
  back field by field, with one exception: the two bits noted as channel information are read as a channel
  information bit and a statistics bit, and the bit noted as statistics is not read. The transmitter address
  and the start mark of a PPDU are not part of the descriptor and stay as they were.
\<close>

theorem rx_desc_documented:
  assumes "rx_desc_at cam_macid m buf desc" "rx_wd_typed (wd_rpkt_type m)" "md_long_rxd m = 1" "0 < md_pktlen m"
  shows "hal_parsing_rx_wd buf desc m0 =
     Some (m\<lparr>wd_get_ch_info := wd_get_ch_info m mod 2, wd_rx_statistics := wd_get_ch_info m div 2,
              md_ta := md_ta m0, wd_ppdu_cnt_chg := wd_ppdu_cnt_chg m0\<rparr>, RTW_HAL_STATUS_SUCCESS)"
  using assms by (rule rx_desc_read)

section \<open>A packet lies inside its transfer\<close>

definition rx_hdr_len :: "rx_wd \<Rightarrow> nat" where
  "rx_hdr_len m = 2 * wd_shift m + 8 * wd_drv_info_size m + (if md_long_rxd m = 0 then 16 else 32) +
     (if wd_mac_info_vld m = 1 \<and> wd_rpkt_type m \<noteq> RX_8852A_DESC_PKT_T_PPDU_STATUS then 4 else 0)"

lemma parse_wd_bounds:
  assumes "hal_parsing_rx_wd buf desc m0 = Some (m, s)"
  shows "md_pktlen m < 16384" "wd_shift m < 4" "wd_drv_info_size m < 8" "md_long_rxd m < 2"
    "s = (if md_pktlen m = 0 then RTW_HAL_STATUS_FAILURE else RTW_HAL_STATUS_SUCCESS)"
    "rx_wd_typed (wd_rpkt_type m) \<Longrightarrow> md_ppdu_cnt m < 8"
    "md_seq m0 < 4096 \<Longrightarrow> md_seq m < 4096" "md_ta m = md_ta m0" "desc + 4 \<le> length buf"
  using assms rxd_get_less [of 14 buf desc 0 0] rxd_get_less [of 2 buf desc 0 14] rxd_get_less [of 3 buf desc 0 28]
    rxd_get_less [of 1 buf desc 0 31] rxd_get_less [of 3 buf desc 4 4] rxd_get_less [of 12 buf desc 16 16]
  by (auto simp: hal_parsing_rx_wd_def Let_def rx_wd_dw0_def rx_wd_dw1_3_def rx_wd_dw4_7_def rxd_fields
      split: if_splits)

lemma parsing_success:
  assumes "hal_parsing_rx_wd_8852a RTW_HCI_USB (Some (buf, p)) f = Some (f', RTW_HAL_STATUS_SUCCESS)"
  shows "hal_parsing_rx_wd buf p (fl_wd f) = Some (fl_wd f', RTW_HAL_STATUS_SUCCESS)" "0 < fl_len f'"
    "fl_vir f' = p + rx_hdr_len (fl_wd f')" "fl_len f' = md_pktlen (fl_wd f')" "fl_type f' = fl_type f" "fl_phy f' = fl_phy f"
proof -
  obtain m s where m: "hal_parsing_rx_wd buf p (fl_wd f) = Some (m, s)"
    using assms by (auto simp: hal_parsing_rx_wd_8852a_def split: option.splits)
  note b = parse_wd_bounds [OF m]
  have s: "s = RTW_HAL_STATUS_SUCCESS" and f': "f' = f\<lparr>fl_wd := m, fl_vir := p + rx_hdr_len m, fl_len := md_pktlen m\<rparr>"
    using assms m b(1-4)
    by (auto simp: hal_parsing_rx_wd_8852a_def rx_hdr_len_def rxd_sizes to_u8_def to_u16_def Let_def nat_add_distrib nat_mult_distrib split: if_splits)
  show "hal_parsing_rx_wd buf p (fl_wd f) = Some (fl_wd f', RTW_HAL_STATUS_SUCCESS)" using m s f' by simp
  show "fl_vir f' = p + rx_hdr_len (fl_wd f')" "fl_len f' = md_pktlen (fl_wd f')" "fl_type f' = fl_type f" "fl_phy f' = fl_phy f"
    using f' by simp_all
  show "0 < fl_len f'" using f' b(5) s by (simp split: if_splits)
qed

definition zero_wd :: rx_wd where
  "zero_wd = rtw_r_meta_data.extend zero_meta
     (rx_wd.fields 0 0 0 0 0 0 0 0 0 0 0 0 0 0 0 0 0 0 0 0 0 0 0 0 0 0 0 0 0 0 0 0 0 0 0 0 False)"

text \<open>A packet from the pool, which \<^const>\<open>phl_release_phl_rx\<close> has cleared.\<close>

definition zero_fill :: rx_fill where
  "zero_fill = \<lparr>fl_type = RTW_RX_TYPE_MAX, fl_wd = zero_wd, fl_vir = 0, fl_len = 0, fl_pkt_cnt = 0, fl_phy = zero_phy_info\<rparr>"

lemma zero_wd_simps [simp]: "md_seq zero_wd = 0" "md_ta zero_wd = replicate 6 0" "rtw_r_meta_data.truncate zero_wd = zero_meta"
  by (simp_all add: zero_wd_def zero_meta_def rtw_r_meta_data.defs)

lemma fills_psts_refl: "hal_fills_psts ps ps"
  by (simp add: hal_fills_psts_def)

lemma fills_psts_ent:
  "(\<And>e. se_frames (f e) = se_frames e) \<Longrightarrow> cur_ppdu_cnt ps1 = cur_ppdu_cnt ps \<Longrightarrow> sts_ent ps1 = sts_ent ps \<Longrightarrow>
   hal_fills_psts ps (upd_sts_ent band i f ps1)"
  by (simp add: hal_fills_psts_def upd_sts_ent_def)

lemma normal_data_fills: "hal_fills_psts ps (snd (hal_rx_ppdu_sts_normal_data buf hdr m ps))"
  by (simp add: hal_rx_ppdu_sts_normal_data_def Let_def hal_fills_psts_def upd_sts_ent_def)

lemma ppdu_sts_fills: "hal_fills_psts ps (fst (hal_rx_ppdu_sts m phy h (ps, rs)))"
  by (simp add: hal_rx_ppdu_sts_def Let_def hal_fills_psts_def upd_sts_ent_def)

lemma normal_data_meta: "\<exists>c. fst (hal_rx_ppdu_sts_normal_data buf hdr m ps) = m\<lparr>wd_ppdu_cnt_chg := c\<rparr>"
proof -
  have "fst (hal_rx_ppdu_sts_normal_data buf hdr m ps) \<in> {m\<lparr>wd_ppdu_cnt_chg := wd_ppdu_cnt_chg m\<rparr>, m\<lparr>wd_ppdu_cnt_chg := True\<rparr>}"
    by (simp add: hal_rx_ppdu_sts_normal_data_def Let_def)
  then show ?thesis by blast
qed

lemma handle_wifi_result:
  assumes "handle_wifi buf f ctx = Some (f', ctx')"
  shows "\<exists>c. f' = f\<lparr>fl_type := RTW_RX_TYPE_WIFI,
           fl_wd := (fl_wd f)\<lparr>md_ta := PHL_GET_80211_HDR_ADDRESS2 buf (fl_vir f), wd_ppdu_cnt_chg := c\<rparr>\<rparr>"
    "hal_fills_psts (hc_psts ctx) (hc_psts ctx')" "fl_vir f + 24 \<le> length buf"
proof -
  let ?m = "(fl_wd f)\<lparr>md_ta := PHL_GET_80211_HDR_ADDRESS2 buf (fl_vir f)\<rparr>"
  let ?r = "hal_rx_ppdu_sts_normal_data buf (fl_vir f) ?m (hc_psts ctx)"
  have e: "f' = f\<lparr>fl_type := RTW_RX_TYPE_WIFI, fl_wd := fst ?r\<rparr>" "hc_psts ctx' = snd ?r" "fl_vir f + 24 \<le> length buf"
    using assms by (auto simp: handle_wifi_def hal_rx_wlanhdr_check_8852a_def split: if_splits prod.splits)
  show "hal_fills_psts (hc_psts ctx) (hc_psts ctx')" "fl_vir f + 24 \<le> length buf" using e normal_data_fills by simp_all
  obtain c where "fst ?r = ?m\<lparr>wd_ppdu_cnt_chg := c\<rparr>" using normal_data_meta by blast
  then show "\<exists>c. f' = f\<lparr>fl_type := RTW_RX_TYPE_WIFI,
           fl_wd := (fl_wd f)\<lparr>md_ta := PHL_GET_80211_HDR_ADDRESS2 buf (fl_vir f), wd_ppdu_cnt_chg := c\<rparr>\<rparr>"
    using e(1) by auto
qed

lemma handle_ppdu_result:
  assumes "handle_ppdu_status bb buf f ctx = Some (f', ctx')"
  shows "\<exists>phy. f' = f\<lparr>fl_type := RTW_RX_TYPE_PPDU_STATUS, fl_phy := phy\<rparr>" "hal_fills_psts (hc_psts ctx) (hc_psts ctx')"
proof -
  obtain h where h: "rtw_hal_mac_ax_parse_ppdu_sts buf (fl_vir f) (md_pktlen (fl_wd f)) (wd_mac_info_vld (fl_wd f) \<noteq> 0) = Some h"
    using assms by (fastforce simp: handle_ppdu_status_def Let_def split: option.splits)
  consider "f' = f\<lparr>fl_type := RTW_RX_TYPE_PPDU_STATUS\<rparr>" "ctx' = ctx"
    | phy where "f' = f\<lparr>fl_type := RTW_RX_TYPE_PPDU_STATUS, fl_phy := phy\<rparr>"
        "hc_psts ctx' = fst (hal_rx_ppdu_sts (fl_wd f) phy h (hc_psts ctx, hc_rssi ctx))"
    using assms h by (auto simp: handle_ppdu_status_def Let_def split: if_splits prod.splits option.splits)
  then show "\<exists>phy. f' = f\<lparr>fl_type := RTW_RX_TYPE_PPDU_STATUS, fl_phy := phy\<rparr>" "hal_fills_psts (hc_psts ctx) (hc_psts ctx')"
    by (cases; use fills_psts_refl ppdu_sts_fills in \<open>auto intro: exI [of _ "fl_phy f"]\<close>)+
qed

lemma handle_report_result:
  "handle_dfs_rpt bb buf f ctx = Some (f', ctx') \<Longrightarrow> f' = f\<lparr>fl_type := RTW_RX_TYPE_DFS_RPT\<rparr> \<and> hc_psts ctx' = hc_psts ctx"
  "handle_c2h bb buf f ctx = Some (f', ctx') \<Longrightarrow> f' = f\<lparr>fl_type := RTW_RX_TYPE_C2H\<rparr> \<and> hc_psts ctx' = hc_psts ctx"
  by (auto simp: handle_dfs_rpt_def handle_c2h_def split: option.splits)

definition rx_type_of :: "nat \<Rightarrow> rtw_rx_type" where
  "rx_type_of ty =
     (if ty = 0 then RTW_RX_TYPE_WIFI else if ty = 1 then RTW_RX_TYPE_PPDU_STATUS else if ty = 2 then RTW_RX_TYPE_CHANNEL_INFO
      else if ty = 6 then RTW_RX_TYPE_TX_RPT else if ty = 7 then RTW_RX_TYPE_TX_WP_RELEASE_HOST
      else if ty = 8 then RTW_RX_TYPE_DFS_RPT else if ty = 10 then RTW_RX_TYPE_C2H else RTW_RX_TYPE_MAX)"

text \<open>What a packet looks like after it was read: the part of the meta data that is handed on.\<close>

definition rx_meta :: "u8w list \<Rightarrow> nat \<Rightarrow> rx_wd \<Rightarrow> rtw_r_meta_data" where
  "rx_meta buf hdr m = (rtw_r_meta_data.truncate m)\<lparr>md_ta :=
     (if wd_rpkt_type m = RX_8852A_DESC_PKT_T_WIFI then PHL_GET_80211_HDR_ADDRESS2 buf hdr else md_ta m)\<rparr>"

lemma truncate_upd:
  "rtw_r_meta_data.truncate (m\<lparr>md_ta := a, wd_ppdu_cnt_chg := c\<rparr>) = (rtw_r_meta_data.truncate m)\<lparr>md_ta := a\<rparr>"
  "(rtw_r_meta_data.truncate m)\<lparr>md_ta := md_ta m\<rparr> = rtw_r_meta_data.truncate m"
  by (cases m; simp add: rtw_r_meta_data.defs)+

lemma handle_rx_success:
  assumes "hal_handle_rx_buffer_8852a bb RTW_HCI_USB buf p buf_len zero_fill ctx = Some (f, ctx', RTW_HAL_STATUS_SUCCESS)"
  shows "\<exists>m. hal_parsing_rx_wd buf p zero_wd = Some (m, RTW_HAL_STATUS_SUCCESS) \<and> fl_vir f = p + rx_hdr_len m \<and>
     fl_len f = md_pktlen m \<and> rx_hdr_len m + md_pktlen m \<le> buf_len \<and>
     rtw_r_meta_data.truncate (fl_wd f) = rx_meta buf (fl_vir f) m \<and>
     fl_type f = rx_type_of (wd_rpkt_type m) \<and> hal_fills_psts (hc_psts ctx) (hc_psts ctx')"
proof -
  obtain f0 where f0: "hal_parsing_rx_wd_8852a RTW_HCI_USB (Some (buf, p)) zero_fill = Some (f0, RTW_HAL_STATUS_SUCCESS)"
    and fit: "fl_vir f0 + fl_len f0 \<le> p + buf_len"
    using assms by (auto simp: hal_handle_rx_buffer_8852a_def split: option.splits if_splits)
  let ?m = "fl_wd f0" and ?f = "f0\<lparr>fl_pkt_cnt := 1\<rparr>"
  note ps = parsing_success [OF f0]
  consider (wifi) "wd_rpkt_type ?m = 0" "handle_wifi buf ?f ctx = Some (f, ctx')"
    | (ppdu) "wd_rpkt_type ?m = 1" "handle_ppdu_status bb buf ?f ctx = Some (f, ctx')"
    | (other) "wd_rpkt_type ?m \<noteq> 0" "wd_rpkt_type ?m \<noteq> 1"
        "f = ?f\<lparr>fl_type := rx_type_of (wd_rpkt_type ?m)\<rparr>" "hc_psts ctx' = hc_psts ctx"
    using assms f0 fit ps(5)
    by (auto simp: hal_handle_rx_buffer_8852a_def Let_def rx_pkt_types rx_type_of_def zero_fill_def
        dest!: handle_report_result split: if_splits option.splits)
  then have "fl_vir f = fl_vir f0 \<and> fl_len f = fl_len f0 \<and> rtw_r_meta_data.truncate (fl_wd f) = rx_meta buf (fl_vir f) ?m \<and>
      fl_type f = rx_type_of (wd_rpkt_type ?m) \<and> hal_fills_psts (hc_psts ctx) (hc_psts ctx')"
  proof cases
    case wifi
    obtain c where "f = ?f\<lparr>fl_type := RTW_RX_TYPE_WIFI,
        fl_wd := ?m\<lparr>md_ta := PHL_GET_80211_HDR_ADDRESS2 buf (fl_vir f0), wd_ppdu_cnt_chg := c\<rparr>\<rparr>"
      using handle_wifi_result(1) [OF wifi(2)] by auto
    then show ?thesis using handle_wifi_result(2) [OF wifi(2)] wifi(1)
      by (simp add: rx_meta_def truncate_upd rx_pkt_types rx_type_of_def)
  next
    case ppdu
    obtain phy where "f = ?f\<lparr>fl_type := RTW_RX_TYPE_PPDU_STATUS, fl_phy := phy\<rparr>"
      using handle_ppdu_result(1) [OF ppdu(2)] by auto
    then show ?thesis using handle_ppdu_result(2) [OF ppdu(2)] ppdu(1)
      by (simp add: rx_meta_def truncate_upd rx_pkt_types rx_type_of_def)
  next
    case other
    then show ?thesis by (simp add: rx_meta_def truncate_upd rx_pkt_types fills_psts_refl)
  qed
  then show ?thesis using ps(1,3,4) fit by (auto simp: zero_fill_def)
qed

text \<open>
  C8: A packet that the chip layer accepts lies inside its transfer, behind a header of 16 to 98 bytes, and is not
  empty, so the parser of a transfer makes progress; its sequence number has 12 bits and the index of its PPDU
  entry is in range; and of the status entries only those parts change that the receive path leaves to the chip
  layer. These are the assumptions of the receive system about the chip layer.
\<close>

theorem rx_packet_inside:
  assumes "hal_handle_rx_buffer_8852a bb RTW_HCI_USB buf p buf_len zero_fill ctx = Some (f, ctx', RTW_HAL_STATUS_SUCCESS)"
  shows "p + 16 \<le> fl_vir f \<and> fl_vir f \<le> p + 98 \<and> 0 < fl_len f \<and> fl_len f < 16384 \<and> fl_vir f + fl_len f \<le> p + buf_len \<and>
     md_seq (fl_wd f) < 4096 \<and>
     (fl_type f = RTW_RX_TYPE_WIFI \<or> fl_type f = RTW_RX_TYPE_PPDU_STATUS \<longrightarrow> md_ppdu_cnt (fl_wd f) < PHL_MAX_PPDU_CNT) \<and>
     hal_fills_psts (hc_psts ctx) (hc_psts ctx')"
proof -
  obtain m where m: "hal_parsing_rx_wd buf p zero_wd = Some (m, RTW_HAL_STATUS_SUCCESS)" "fl_vir f = p + rx_hdr_len m"
    "fl_len f = md_pktlen m" "rx_hdr_len m + md_pktlen m \<le> buf_len"
    "rtw_r_meta_data.truncate (fl_wd f) = rx_meta buf (fl_vir f) m" "fl_type f = rx_type_of (wd_rpkt_type m)"
    "hal_fills_psts (hc_psts ctx) (hc_psts ctx')"
    using handle_rx_success [OF assms] by blast
  note b = parse_wd_bounds [OF m(1)]
  have "md_seq (fl_wd f) = md_seq m" "md_ppdu_cnt (fl_wd f) = md_ppdu_cnt m"
    using arg_cong [OF m(5), of md_seq] arg_cong [OF m(5), of md_ppdu_cnt] by (simp_all add: rx_meta_def rtw_r_meta_data.defs)
  moreover have "rx_wd_typed (wd_rpkt_type m)" if "fl_type f = RTW_RX_TYPE_WIFI \<or> fl_type f = RTW_RX_TYPE_PPDU_STATUS"
    using that m(6) by (auto simp: rx_type_of_def rx_wd_typed_def rx_pkt_types split: if_splits)
  moreover have "16 \<le> rx_hdr_len m" "rx_hdr_len m \<le> 98" using b(2-4) by (auto simp: rx_hdr_len_def)
  moreover have "0 < md_pktlen m" using b(5) by (simp split: if_splits)
  ultimately show ?thesis using m(2-4,7) b(1,6,7) by (auto simp: PHL_MAX_PPDU_CNT_def)
qed

section \<open>Reads outside the buffer\<close>

text \<open>The bytes of a status report that are read.\<close>

definition report_need :: "u8w list \<Rightarrow> nat \<Rightarrow> nat" where
  "report_need buf p =
     (let val = le_dword buf p; n = unat (GET_FIELD val AX_MAC_INFO_USR_NUM) in
      if length buf < p + 4 \<or> n > 4 then 4
      else if bit val 29 then 8 + 4 * n + (if odd n then 4 else 0) + 85 else 8 + 4 * n)"

lemma to_hal_fault:
  "hal_mac_ax_ppdu_sts_to_hal_ppdu_sts buf rpt h = None \<longleftrightarrow>
   (\<exists>q. pr_rx_cnt_ptr rpt = Some q \<and> 2 \<le> pr_rx_cnt_size rpt \<and> length buf < q + 2 * min (pr_rx_cnt_size rpt div 2) HAL_RXCNT_MAX - 1)"
  by (auto simp: hal_mac_ax_ppdu_sts_to_hal_ppdu_sts_def Let_def HAL_RXCNT_MAX_def split: option.splits)

lemma parse_mac_info_result:
  assumes "\<not> length buf < p + 4" "n = unat (GET_FIELD (le_dword buf p) AX_MAC_INFO_USR_NUM)" "n \<le> 4" "\<not> length buf < p + 8 + 4 * n"
  shows "\<exists>rpt. parse_mac_info buf p len zero_rpt = Some (rpt, MACSUCCESS) \<and>
     pr_rx_cnt_size rpt = (if bit (le_dword buf p) 29 then 96 else 0) \<and>
     pr_rx_cnt_ptr rpt = (if bit (le_dword buf p) 29 then Some (p + 8 + 4 * n + (if odd n then 4 else 0)) else None)"
  using assms by (simp add: parse_mac_info_def Let_def mac_info_defs zero_rpt_def)

lemma parse_ppdu_fault: "rtw_hal_mac_ax_parse_ppdu_sts buf p len True = None \<longleftrightarrow> length buf < p + report_need buf p"
proof -
  let ?val = "le_dword buf p" let ?n = "unat (GET_FIELD ?val AX_MAC_INFO_USR_NUM)"
  consider (short) "length buf < p + 4" | (many) "\<not> length buf < p + 4" "4 < ?n"
    | (cut) "\<not> length buf < p + 4" "?n \<le> 4" "length buf < p + 8 + 4 * ?n"
    | (users) "\<not> length buf < p + 4" "?n \<le> 4" "\<not> length buf < p + 8 + 4 * ?n" by linarith
  then show ?thesis
  proof cases
    case users
    obtain rpt where r: "parse_mac_info buf p len zero_rpt = Some (rpt, MACSUCCESS)"
      "pr_rx_cnt_size rpt = (if bit ?val 29 then 96 else 0)"
      "pr_rx_cnt_ptr rpt = (if bit ?val 29 then Some (p + 8 + 4 * ?n + (if odd ?n then 4 else 0)) else None)"
      using parse_mac_info_result [OF users(1) refl users(2,3)] by blast
    have "rtw_hal_mac_ax_parse_ppdu_sts buf p len True = None \<longleftrightarrow>
        bit ?val 29 \<and> length buf < p + 8 + 4 * ?n + (if odd ?n then 4 else 0) + 85"
      by (simp add: rtw_hal_mac_ax_parse_ppdu_sts_def mac_parse_ppdu_def r to_hal_fault HAL_RXCNT_MAX_def)
    then show ?thesis using users by (simp add: report_need_def Let_def ac_simps)
  qed (simp_all add: rtw_hal_mac_ax_parse_ppdu_sts_def mac_parse_ppdu_def parse_mac_info_def Let_def report_need_def mac_info_defs)
qed

text \<open>
  Address and length of the PHY status in a status report: behind the users, counters and PLCP bytes that the
  report announces, or at its start when there is no MAC information.
\<close>

definition report_len :: "u8w list \<Rightarrow> nat \<Rightarrow> nat" where
  "report_len buf p =
     (let n = unat (GET_FIELD (le_dword buf p) AX_MAC_INFO_USR_NUM) in
      8 + 4 * (n + n mod 2) + (if bit (le_dword buf p) 29 then 96 else 0) +
      unat (GET_FIELD (le_dword buf (p + 4)) AX_MAC_INFO_PLCP_LEN) * 8 mod 256)"

definition phy_status :: "u8w list \<Rightarrow> nat \<Rightarrow> rx_wd \<Rightarrow> (nat \<times> nat) option" where
  "phy_status buf p m =
     (if wd_mac_info_vld m = 0 then Some (p, md_pktlen m)
      else if 4 < unat (GET_FIELD (le_dword buf p) AX_MAC_INFO_USR_NUM) \<or> md_pktlen m \<le> report_len buf p then None
      else Some (p + report_len buf p, md_pktlen m - report_len buf p))"

text \<open>
  Who takes over behind a header that lies in the memory leaves the memory: the loop over the elements of a PHY
  status, the radar detection, or the handlers of a firmware report.
\<close>

definition parser_fault :: "rx_parsers \<Rightarrow> u8w list \<Rightarrow> nat \<Rightarrow> rx_wd \<Rightarrow> bool" where
  "parser_fault bb buf p m \<longleftrightarrow>
     wd_rpkt_type m = RX_8852A_DESC_PKT_T_PPDU_STATUS \<and>
       (\<exists>h q n. rtw_hal_mac_ax_parse_ppdu_sts buf p (md_pktlen m) (wd_mac_info_vld m \<noteq> 0) = Some h \<and>
          phy_status buf p m = Some (q, n) \<and> q + 8 \<le> length buf \<and> halbb_physts_parsing bb buf q n m h (rx_is_su m) = None) \<or>
     wd_rpkt_type m = RX_8852A_DESC_PKT_T_DFS_RPT \<and>
       (\<exists>rpt r. mac_parse_dfs buf p (md_pktlen m) = Some (rpt, r) \<and> bb_radar bb buf rpt = None) \<or>
     wd_rpkt_type m = RX_8852A_DESC_PKT_T_C2H \<and> p + 8 \<le> length buf \<and>
       (case mac_process_c2h bb buf p (md_pktlen m) of None \<Rightarrow> True | Some (c, r) \<Rightarrow> hal_c2h_post_process bb buf c = None)"

lemma parsers_inside:
  assumes "\<And>q n m' h su. bb_ies bb buf q n m' h su \<noteq> None" "\<And>r. bb_radar bb buf r \<noteq> None"
    "\<And>i c q n r. c2h_class_hdl bb i c buf q n r \<noteq> None" "\<And>i c. c2h_post_hdl bb i buf c \<noteq> None"
  shows "\<not> parser_fault bb buf p m"
  using assms
  by (auto simp: parser_fault_def halbb_physts_parsing_def halbb_physts_ie_hdr_def PHYSTS_HDR_LEN_def mac_process_c2h_def
      c2h_field_parsing_def hal_c2h_post_process_def Let_def simp del: not_None_eq split: option.splits if_splits prod.splits)

lemma to_hal_keeps:
  "hal_mac_ax_ppdu_sts_to_hal_ppdu_sts buf rpt h0 = Some h \<Longrightarrow>
   hp_phy_st_ptr h = pr_phy_st_ptr rpt \<and> hp_phy_st_size h = pr_phy_st_size rpt"
  by (auto simp: hal_mac_ax_ppdu_sts_to_hal_ppdu_sts_def Let_def split: option.splits if_splits)

lemma mac_info_phy:
  assumes "parse_mac_info buf p len zero_rpt = Some (rpt, MACSUCCESS)"
  shows "unat (GET_FIELD (le_dword buf p) AX_MAC_INFO_USR_NUM) \<le> 4"
    "pr_phy_st_ptr rpt = (if report_len buf p < len then Some (p + report_len buf p) else None)"
    "pr_phy_st_size rpt = len - report_len buf p"
proof -
  let ?n = "unat (GET_FIELD (le_dword buf p) AX_MAC_INFO_USR_NUM)"
  have plcp: "to_u8 (int k * 8) = k * 8 mod 256" for k by (simp add: to_u8_def nat_mod_distrib nat_mult_distrib)
  show n: "?n \<le> 4" using assms by (auto simp: parse_mac_info_def Let_def mac_info_defs split: if_splits)
  define plcp where "plcp = to_u8 (int (unat (GET_FIELD (le_dword buf (p + 4)) AX_MAC_INFO_PLCP_LEN)) * 8)"
  define usrs where "usrs = ?n * 4 + (if odd ?n then 4 else 0)"
  define cnt :: nat where "cnt = (if bit (le_dword buf p) 29 then 96 else 0)"
  have len: "\<not> length buf < p + 4" "\<not> length buf < p + 8 + ?n * 4" using assms n by (auto simp: parse_mac_info_def Let_def mac_info_defs split: if_splits)
  have "report_len buf p = 8 + usrs + cnt + plcp"
    unfolding plcp_def plcp by (cases "odd ?n") (simp_all add: report_len_def usrs_def cnt_def Let_def odd_iff_mod_2_eq_one)
  moreover have "pr_phy_st_ptr rpt = (if 8 + usrs + cnt + plcp < len then Some (p + (8 + usrs + cnt + plcp)) else None)"
    "pr_phy_st_size rpt = len - (8 + usrs + cnt + plcp)"
    using n len assms [unfolded parse_mac_info_def Let_def MAC_AX_PPDU_MAX_USR_def MAC_AX_RX_CNT_SIZE_def
        MAC_AX_MAC_INFO_USE_SIZE_def, folded plcp_def usrs_def cnt_def]
    by (cases "plcp = 0"; cases "cnt = 0"; cases "8 + usrs + cnt + plcp < len"; auto simp: zero_rpt_def)+
  ultimately show "pr_phy_st_ptr rpt = (if report_len buf p < len then Some (p + report_len buf p) else None)"
    "pr_phy_st_size rpt = len - report_len buf p" by simp_all
qed

lemma parse_ppdu_phy:
  assumes "rtw_hal_mac_ax_parse_ppdu_sts buf p (md_pktlen m) (wd_mac_info_vld m \<noteq> 0) = Some h"
  shows "0 < hp_phy_st_size h \<Longrightarrow> \<exists>q. hp_phy_st_ptr h = Some q \<and> phy_status buf p m = Some (q, hp_phy_st_size h)"
    "0 < md_pktlen m \<Longrightarrow> hp_phy_st_size h = 0 \<Longrightarrow> phy_status buf p m = None" "hp_phy_st_size h \<le> md_pktlen m"
proof -
  consider (plain) "wd_mac_info_vld m = 0" "hp_phy_st_ptr h = Some p" "hp_phy_st_size h = md_pktlen m"
    | (info) rpt where "wd_mac_info_vld m \<noteq> 0" "parse_mac_info buf p (md_pktlen m) zero_rpt = Some (rpt, MACSUCCESS)"
        "hp_phy_st_ptr h = pr_phy_st_ptr rpt" "hp_phy_st_size h = pr_phy_st_size rpt"
    | (bad) "wd_mac_info_vld m \<noteq> 0" "hp_phy_st_size h = 0" "4 < unat (GET_FIELD (le_dword buf p) AX_MAC_INFO_USR_NUM)"
  proof (cases "wd_mac_info_vld m = 0")
    case True
    then show ?thesis using assms plain to_hal_keeps
      by (fastforce simp: rtw_hal_mac_ax_parse_ppdu_sts_def mac_parse_ppdu_def)
  next
    case False
    then obtain rpt r where r: "parse_mac_info buf p (md_pktlen m) zero_rpt = Some (rpt, r)"
      "(if r = MACSUCCESS then hal_mac_ax_ppdu_sts_to_hal_ppdu_sts buf rpt zero_ppdu_sts else Some zero_ppdu_sts) = Some h"
      using assms by (auto simp: rtw_hal_mac_ax_parse_ppdu_sts_def mac_parse_ppdu_def split: option.splits)
    show ?thesis
    proof (cases "r = MACSUCCESS")
      case True
      then show ?thesis using r info False to_hal_keeps by fastforce
    next
      case err: False
      then have "4 < unat (GET_FIELD (le_dword buf p) AX_MAC_INFO_USR_NUM)"
        using r(1) by (auto simp: parse_mac_info_def Let_def mac_info_defs split: if_splits)
      then show ?thesis using bad False r(2) err by (auto simp: zero_ppdu_sts_def)
    qed
  qed
  note cases = this
  show "\<exists>q. hp_phy_st_ptr h = Some q \<and> phy_status buf p m = Some (q, hp_phy_st_size h)" if "0 < hp_phy_st_size h"
    using that by (cases rule: cases) (auto simp: phy_status_def mac_info_phy not_less dest: mac_info_phy)
  show "phy_status buf p m = None" if "0 < md_pktlen m" "hp_phy_st_size h = 0"
    using that by (cases rule: cases) (auto simp: phy_status_def mac_info_phy)
  show "hp_phy_st_size h \<le> md_pktlen m" by (cases rule: cases) (auto simp: mac_info_phy)
qed

lemma parse_ppdu_total:
  "rtw_hal_mac_ax_parse_ppdu_sts buf p len (wd_mac_info_vld m \<noteq> 0) = None \<longleftrightarrow>
   wd_mac_info_vld m \<noteq> 0 \<and> length buf < p + report_need buf p"
proof (cases "wd_mac_info_vld m = 0")
  case True
  then show ?thesis
    by (simp add: rtw_hal_mac_ax_parse_ppdu_sts_def mac_parse_ppdu_def hal_mac_ax_ppdu_sts_to_hal_ppdu_sts_def zero_rpt_def Let_def)
qed (simp add: parse_ppdu_fault)

lemma handle_wifi_fault: "handle_wifi buf f ctx = None \<longleftrightarrow> length buf < fl_vir f + 24"
  by (auto simp: handle_wifi_def hal_rx_wlanhdr_check_8852a_def split: prod.splits)

lemma handle_dfs_fault:
  "wd_rpkt_type (fl_wd f) = RX_8852A_DESC_PKT_T_DFS_RPT \<Longrightarrow>
   handle_dfs_rpt bb buf f ctx = None \<longleftrightarrow> length buf < fl_vir f + 8 \<or> parser_fault bb buf (fl_vir f) (fl_wd f)"
  by (auto simp: handle_dfs_rpt_def parser_fault_def mac_parse_dfs_def rx_pkt_types Let_def split: option.splits)

lemma handle_c2h_fault:
  "wd_rpkt_type (fl_wd f) = RX_8852A_DESC_PKT_T_C2H \<Longrightarrow>
   handle_c2h bb buf f ctx = None \<longleftrightarrow> length buf < fl_vir f + 8 \<or> parser_fault bb buf (fl_vir f) (fl_wd f)"
  by (auto simp: handle_c2h_def parser_fault_def mac_process_c2h_def c2h_field_parsing_def rx_pkt_types split: option.splits prod.splits)

lemma parse_phy_fault:
  assumes "hp_phy_st_ptr h = Some q" "hp_phy_st_size h < 65536"
  shows "rtw_hal_bb_parse_phy_sts bb buf h m su phy = None \<longleftrightarrow>
     length buf < q + 8 \<or> halbb_physts_parsing bb buf q (hp_phy_st_size h) m h su = None"
  using assms
  by (auto simp: rtw_hal_bb_parse_phy_sts_def to_u16_def halbb_physts_parsing_def halbb_physts_ie_hdr_def PHYSTS_HDR_LEN_def Let_def
      split: option.splits prod.splits)

lemma handle_ppdu_fault:
  assumes "wd_rpkt_type (fl_wd f) = RX_8852A_DESC_PKT_T_PPDU_STATUS" "0 < md_pktlen (fl_wd f)" "md_pktlen (fl_wd f) < 65536"
  shows "handle_ppdu_status bb buf f ctx = None \<longleftrightarrow>
     wd_mac_info_vld (fl_wd f) \<noteq> 0 \<and> length buf < fl_vir f + report_need buf (fl_vir f) \<or>
     (\<exists>q n. phy_status buf (fl_vir f) (fl_wd f) = Some (q, n) \<and> length buf < q + 8) \<or> parser_fault bb buf (fl_vir f) (fl_wd f)"
proof -
  let ?m = "fl_wd f"
  let ?parse = "rtw_hal_mac_ax_parse_ppdu_sts buf (fl_vir f) (md_pktlen ?m) (wd_mac_info_vld ?m \<noteq> 0)"
  show ?thesis
  proof (cases ?parse)
    case None
    then have "wd_mac_info_vld ?m \<noteq> 0 \<and> length buf < fl_vir f + report_need buf (fl_vir f)" using parse_ppdu_total by blast
    then show ?thesis using None by (simp add: handle_ppdu_status_def Let_def)
  next
    case (Some h)
    note phy = parse_ppdu_phy [OF Some]
    have ok: "\<not> (wd_mac_info_vld ?m \<noteq> 0 \<and> length buf < fl_vir f + report_need buf (fl_vir f))"
      using parse_ppdu_total [of buf "fl_vir f" "md_pktlen ?m" ?m] Some by simp
    show ?thesis
    proof (cases "hp_phy_st_size h = 0")
      case True
      then show ?thesis using Some ok phy(2) assms(1,2) by (simp add: handle_ppdu_status_def parser_fault_def Let_def rx_pkt_types)
    next
      case False
      then obtain q where q: "hp_phy_st_ptr h = Some q" "phy_status buf (fl_vir f) ?m = Some (q, hp_phy_st_size h)" using phy(1) by auto
      have "handle_ppdu_status bb buf f ctx = None \<longleftrightarrow> rtw_hal_bb_parse_phy_sts bb buf h ?m (rx_is_su ?m) (fl_phy f) = None"
        using Some False by (auto simp: handle_ppdu_status_def Let_def split: option.splits prod.splits)
      then show ?thesis using parse_phy_fault [OF q(1)] phy(3) assms(1,3) ok Some q(2)
        by (auto simp: parser_fault_def rx_pkt_types)
    qed
  qed
qed


lemma parse_8852a_ok:
  assumes "hal_parsing_rx_wd buf p zero_wd = Some (m, RTW_HAL_STATUS_SUCCESS)"
  shows "\<exists>f0. hal_parsing_rx_wd_8852a RTW_HCI_USB (Some (buf, p)) zero_fill = Some (f0, RTW_HAL_STATUS_SUCCESS) \<and>
     fl_wd f0 = m \<and> fl_vir f0 = p + rx_hdr_len m \<and> fl_len f0 = md_pktlen m"
proof -
  obtain f0 where f0: "hal_parsing_rx_wd_8852a RTW_HCI_USB (Some (buf, p)) zero_fill = Some (f0, RTW_HAL_STATUS_SUCCESS)"
    using assms by (simp add: hal_parsing_rx_wd_8852a_def zero_fill_def Let_def)
  note ps = parsing_success [OF f0]
  have "fl_wd f0 = m" using ps(1) assms by (simp add: zero_fill_def)
  then show ?thesis using f0 ps(3,4) by simp
qed

text \<open>What the chip layer itself reads of an accepted packet with its header at \<open>p\<close> lies in the memory.\<close>

definition rx_reads_inside :: "u8w list \<Rightarrow> nat \<Rightarrow> rx_wd \<Rightarrow> bool" where
  "rx_reads_inside buf p m \<longleftrightarrow>
     (wd_rpkt_type m = RX_8852A_DESC_PKT_T_WIFI \<longrightarrow> p + 24 \<le> length buf) \<and>
     (wd_rpkt_type m = RX_8852A_DESC_PKT_T_PPDU_STATUS \<longrightarrow>
        (wd_mac_info_vld m \<noteq> 0 \<longrightarrow> p + report_need buf p \<le> length buf) \<and>
        (case phy_status buf p m of None \<Rightarrow> True | Some (q, n) \<Rightarrow> q + 8 \<le> length buf)) \<and>
     (wd_rpkt_type m = RX_8852A_DESC_PKT_T_DFS_RPT \<or> wd_rpkt_type m = RX_8852A_DESC_PKT_T_C2H \<longrightarrow> p + 8 \<le> length buf)"

lemma handle_rx_fault:
  assumes m: "hal_parsing_rx_wd buf p zero_wd = Some (m, RTW_HAL_STATUS_SUCCESS)" and fit: "rx_hdr_len m + md_pktlen m \<le> buf_len"
  shows "hal_handle_rx_buffer_8852a bb RTW_HCI_USB buf p buf_len zero_fill ctx = None \<longleftrightarrow>
     \<not> rx_reads_inside buf (p + rx_hdr_len m) m \<or> parser_fault bb buf (p + rx_hdr_len m) m"
proof -
  obtain f0 where f0: "hal_parsing_rx_wd_8852a RTW_HCI_USB (Some (buf, p)) zero_fill = Some (f0, RTW_HAL_STATUS_SUCCESS)"
    "fl_wd f0 = m" "fl_vir f0 = p + rx_hdr_len m" "fl_len f0 = md_pktlen m"
    using parse_8852a_ok m by blast
  have len: "0 < md_pktlen m" "md_pktlen m < 65536" using parse_wd_bounds(1,5) [OF m] by (auto split: if_splits)
  let ?f = "f0\<lparr>fl_pkt_cnt := 1\<rparr>"
  note faults = handle_wifi_fault [of buf ?f ctx] handle_dfs_fault [of ?f bb buf ctx] handle_c2h_fault [of ?f bb buf ctx]
    handle_ppdu_fault [of ?f bb buf ctx]
  show ?thesis
    using f0 fit len faults
    by (auto simp: hal_handle_rx_buffer_8852a_def rx_reads_inside_def parser_fault_def rx_pkt_types Let_def not_le split: option.splits)
qed


lemma handle_rx_status:
  assumes "hal_parsing_rx_wd buf p zero_wd = Some (m, RTW_HAL_STATUS_SUCCESS)" "rx_hdr_len m + md_pktlen m \<le> buf_len"
    "hal_handle_rx_buffer_8852a bb RTW_HCI_USB buf p buf_len zero_fill ctx = Some (f, ctx', s)"
  shows "s = RTW_HAL_STATUS_SUCCESS"
proof -
  obtain f0 where "hal_parsing_rx_wd_8852a RTW_HCI_USB (Some (buf, p)) zero_fill = Some (f0, RTW_HAL_STATUS_SUCCESS)"
    "fl_wd f0 = m" "fl_vir f0 = p + rx_hdr_len m" "fl_len f0 = md_pktlen m"
    using parse_8852a_ok [OF assms(1)] by blast
  then show ?thesis using assms(2,3) by (auto simp: hal_handle_rx_buffer_8852a_def Let_def split: if_splits)
qed

lemma handle_rx_ok:
  assumes "hal_parsing_rx_wd buf p zero_wd = Some (m, RTW_HAL_STATUS_SUCCESS)" "rx_hdr_len m + md_pktlen m \<le> buf_len"
    "rx_reads_inside buf (p + rx_hdr_len m) m" "\<not> parser_fault bb buf (p + rx_hdr_len m) m"
  shows "\<exists>f ctx'. hal_handle_rx_buffer_8852a bb RTW_HCI_USB buf p buf_len zero_fill ctx = Some (f, ctx', RTW_HAL_STATUS_SUCCESS)"
  using handle_rx_fault [OF assms(1,2), of bb ctx] handle_rx_status [OF assms(1,2)] assms(3,4)
  by (cases "hal_handle_rx_buffer_8852a bb RTW_HCI_USB buf p buf_len zero_fill ctx") auto

text \<open>
  A radar report shorter than its header: the length wraps, so 65535 pulses are announced to the radar detection,
  which gets the report although the parser refuses it.
\<close>

lemma short_dfs_announces_pulses:
  assumes "0 < dfs_len" "dfs_len < 8" "p + 8 \<le> length buf"
  shows "\<exists>rpt. mac_parse_dfs buf p dfs_len = Some (rpt, MACPARSEERR) \<and> dfs_num rpt = 65535"
proof -
  have k: "list_all (\<lambda>k :: u32. (k - 8) AND 7 \<noteq> 0 \<and> uint (drop_bit 3 (k - 8)) = 536870911) [1, 2, 3, 4, 5, 6, 7]" by code_simp
  from assms(1,2) consider "dfs_len = 1" | "dfs_len = 2" | "dfs_len = 3" | "dfs_len = 4" | "dfs_len = 5" | "dfs_len = 6" | "dfs_len = 7"
    by linarith
  then have "(of_nat dfs_len - 8 :: u32) AND 7 \<noteq> 0 \<and> uint (drop_bit 3 (of_nat dfs_len - 8 :: u32)) = 536870911"
    using k by cases simp_all
  then show ?thesis using assms(3) by (auto simp: mac_parse_dfs_def MAC_AX_DFS_HDR_SIZE_def to_u16_def Let_def)
qed

section \<open>A descriptor is read from its own bytes\<close>

lemma le_dword_local:
  assumes "seg off (length fr) buf = fr" "off + length fr \<le> length buf" "i + 4 \<le> length fr"
  shows "le_dword buf (off + i) = le_dword fr i"
proof -
  have b: "buf ! (off + i + k) = fr ! (i + k)" if "k < 4" for k
    using seg_nth [OF assms(2), of "i + k"] assms(1,3) that by (simp add: add.assoc)
  show ?thesis using b [of 0] b [of 1] b [of 2] b [of 3] by (simp add: le_dword_def)
qed

lemma seg_local:
  "seg off (length fr) buf = fr \<Longrightarrow> i + n \<le> length fr \<Longrightarrow> seg (off + i) n buf = seg i n fr"
  using seg_seg [of i n "length fr" off buf] by simp

lemma rxd_get_local:
  assumes "seg off (length fr) buf = fr" "off + length fr \<le> length buf" "fst f + 4 \<le> length fr"
  shows "rxd_get buf off f = rxd_get fr 0 f" "rxd_flag buf off f = rxd_flag fr 0 f"
  using le_dword_local [OF assms] by (simp_all add: rxd_get_def rxd_flag_def LE_BITS_TO_4BYTE_def split_beta)

lemma dw_local:
  assumes "seg off (length fr) buf = fr" "off + length fr \<le> length buf"
  shows "4 \<le> length fr \<Longrightarrow> rx_wd_dw0 buf off m = rx_wd_dw0 fr 0 m"
    "16 \<le> length fr \<Longrightarrow> rx_wd_dw1_3 buf off m = rx_wd_dw1_3 fr 0 m"
    "30 \<le> length fr \<Longrightarrow> rx_wd_dw4_7 buf off m = rx_wd_dw4_7 fr 0 m"
proof -
  note g = rxd_get_local [OF assms]
  show "rx_wd_dw0 buf off m = rx_wd_dw0 fr 0 m" if "4 \<le> length fr"
    unfolding rx_wd_dw0_def using that by (simp only: g rxd_fields fst_conv add_0)
  show "rx_wd_dw1_3 buf off m = rx_wd_dw1_3 fr 0 m" if "16 \<le> length fr"
  proof -
    have "0 + 4 \<le> length fr" "4 + 4 \<le> length fr" "8 + 4 \<le> length fr" "12 + 4 \<le> length fr" using that by simp_all
    then show ?thesis unfolding rx_wd_dw1_3_def by (simp only: g rxd_fields fst_conv)
  qed
  show "rx_wd_dw4_7 buf off m = rx_wd_dw4_7 fr 0 m" if "30 \<le> length fr"
  proof -
    have "16 + 4 \<le> length fr" "20 + 4 \<le> length fr" "seg (off + 24) 6 buf = seg (0 + 24) 6 fr"
      using that seg_local [OF assms(1), of 24 6] by simp_all
    then show ?thesis unfolding rx_wd_dw4_7_def by (simp only: g rxd_fields fst_conv)
  qed
qed

lemma parse_wd_local:
  assumes "seg off (length fr) buf = fr" "off + length fr \<le> length buf" "hal_parsing_rx_wd fr 0 m0 = Some r"
  shows "hal_parsing_rx_wd buf off m0 = Some r"
  using assms(2,3) dw_local [OF assms(1,2)]
  by (auto simp: hal_parsing_rx_wd_def Let_def split: if_splits)

section \<open>Examples\<close>

text \<open>A frame of 24 bytes with a long descriptor: TID 3, sequence number 5, MAC id 7.\<close>

definition ex_wd :: rx_wd where
  "ex_wd = zero_wd\<lparr>md_pktlen := 24, md_long_rxd := 1, wd_get_ch_info := 2, md_tid := 3, md_seq := 5, md_addr_cam_vld := True,
     md_macid := 7, md_mac_addr := [2, 0, 0, 0, 0, 1]\<rparr>"

definition ex_desc :: "u8w list" where
  "ex_desc = [0x18, 0, 0, 0x80, 0, 0, 0, 0, 0, 0, 0, 0, 0, 0x80, 0, 0, 0, 3, 5, 0, 0, 0, 7, 0x10, 2, 0, 0, 0, 0, 1, 0, 0]"

text \<open>Nobody behind the headers reads more than the header.\<close>

definition ex_parsers :: rx_parsers where
  "ex_parsers = \<lparr>bb_show_all = False, bb_rfpath = 4, bb_last = (0, 0), bb_ies = (\<lambda>_ _ _ _ _ _. Some (True, 0, 0)),
     bb_radar = (\<lambda>_ _. Some False), c2h_class_hdl = (\<lambda>_ _ _ _ _ info. Some (info, MACSUCCESS)), c2h_post_hdl = (\<lambda>_ _ _. Some 0)\<rparr>"

lemma ex_parsers_inside: "\<not> parser_fault ex_parsers buf p m"
  by (rule parsers_inside) (simp_all add: ex_parsers_def)

definition ex_ctx :: hal_ctx where
  "ex_ctx = \<lparr>hc_rx_ok = 0, hc_rx_err = 0, hc_psts = ppdu_sts_info ex_rx, hc_rssi = rssi_stat ex_rx, hc_reports = [], hc_msgs = []\<rparr>"

lemma ex_words_int:
  "uint (le_dword ex_desc 0) = 0x80000018" "uint (le_dword ex_desc 4) = 0" "uint (le_dword ex_desc 8) = 0"
  "uint (le_dword ex_desc 12) = 0x8000" "uint (le_dword ex_desc 16) = 0x00050300" "uint (le_dword ex_desc 20) = 0x10070000"
  by code_simp+

lemma ex_words:
  "unat (le_dword ex_desc 0) = 0x80000018" "unat (le_dword ex_desc 4) = 0" "unat (le_dword ex_desc 8) = 0"
  "unat (le_dword ex_desc 12) = 0x8000" "unat (le_dword ex_desc 16) = 0x00050300" "unat (le_dword ex_desc 20) = 0x10070000"
  by (simp_all add: ex_words_int flip: nat_uint_eq)

lemmas ex_wd_fields = ex_wd_def zero_wd_def zero_meta_def rtw_r_meta_data.defs rx_wd.defs

lemma ex_layout:
  "rx_layout 7 ex_wd =
     [[(14, 24), (2, 0), (6, 0), (1, 0), (1, 0), (4, 0), (3, 0), (1, 1)],
      [(4, 0), (3, 0), (1, 0), (8, 0), (9, 0), (3, 0), (1, 0), (1, 0), (2, 0)],
      [(32, 0)],
      [(1, 0), (1, 0), (1, 0), (1, 0), (1, 0), (1, 0), (1, 0), (1, 0), (1, 0), (1, 0), (1, 0), (1, 0), (1, 0), (1, 0), (2, 2),
       (5, 0), (3, 0), (1, 0), (1, 0), (1, 0)],
      [(2, 0), (1, 0), (1, 0), (1, 0), (1, 0), (1, 0), (1, 0), (4, 3), (1, 0), (1, 0), (1, 0), (1, 0), (12, 5), (4, 0)],
      [(8, 0), (8, 0), (8, 7), (4, 0), (1, 1), (1, 0), (1, 0)]]"
  by (simp add: rx_layout_def ex_wd_fields)

lemma ex_desc_at: "rx_desc_at 7 ex_wd ex_desc 0"
proof -
  have "fits (rx_layout 7 ex_wd ! k) \<and> unat (le_dword ex_desc (0 + 4 * k)) = pack (rx_layout 7 ex_wd ! k)" if "k < 6" for k
  proof -
    from that consider "k = 0" | "k = 1" | "k = 2" | "k = 3" | "k = 4" | "k = 5" by linarith
    then show ?thesis by cases (simp_all add: ex_words ex_layout)
  qed
  then show ?thesis by (simp add: rx_desc_at_def ex_wd_def ex_desc_def seg_def)
qed

lemma ex_parse:
  "\<exists>m. hal_parsing_rx_wd (ex_desc @ xs) 0 zero_wd = Some (m, RTW_HAL_STATUS_SUCCESS) \<and>
     wd_rpkt_type m = 0 \<and> rx_hdr_len m = 32 \<and> md_pktlen m = 24"
proof -
  have "\<exists>m. hal_parsing_rx_wd ex_desc 0 zero_wd = Some (m, RTW_HAL_STATUS_SUCCESS) \<and>
     wd_rpkt_type m = 0 \<and> rx_hdr_len m = 32 \<and> md_pktlen m = 24"
    using rx_desc_read [OF ex_desc_at, of zero_wd] by (simp add: ex_wd_fields rx_wd_typed_def rx_pkt_types rx_hdr_len_def)
  then show ?thesis using parse_wd_local [of 0 ex_desc "ex_desc @ xs" zero_wd] by (auto simp: seg_def)
qed

theorem rx_desc_documented_witness:
  "\<exists>m. hal_parsing_rx_wd ex_desc 0 zero_wd = Some (m, RTW_HAL_STATUS_SUCCESS) \<and>
     md_seq m = 5 \<and> md_tid m = 3 \<and> md_macid m = 7 \<and> wd_get_ch_info m = 0 \<and> wd_rx_statistics m = 1"
  using rx_desc_documented [OF ex_desc_at, of zero_wd] by (simp add: ex_wd_fields rx_wd_typed_def rx_pkt_types)

theorem rx_packet_inside_witness:
  "\<exists>f ctx'. hal_handle_rx_buffer_8852a ex_parsers RTW_HCI_USB (ex_desc @ replicate 24 0) 0 56 zero_fill ex_ctx =
       Some (f, ctx', RTW_HAL_STATUS_SUCCESS) \<and> 16 \<le> fl_vir f \<and> fl_vir f + fl_len f \<le> 56 \<and>
     hal_fills_psts (hc_psts ex_ctx) (hc_psts ctx')"
proof -
  obtain m where m: "hal_parsing_rx_wd (ex_desc @ replicate 24 0) 0 zero_wd = Some (m, RTW_HAL_STATUS_SUCCESS)" "wd_rpkt_type m = 0"
    "rx_hdr_len m = 32" "md_pktlen m = 24" using ex_parse by blast
  have "length ex_desc = 32" by (simp add: ex_desc_def)
  then obtain f ctx' where "hal_handle_rx_buffer_8852a ex_parsers RTW_HCI_USB (ex_desc @ replicate 24 0) 0 56 zero_fill ex_ctx =
      Some (f, ctx', RTW_HAL_STATUS_SUCCESS)"
    using handle_rx_ok [OF m(1), of 56 ex_parsers ex_ctx] m(2-4) ex_parsers_inside by (auto simp: rx_reads_inside_def rx_pkt_types)
  then show ?thesis using rx_packet_inside by fastforce
qed




end
