(* ===== verification/Hal_Rx_Agg.thy ===== *)
theory Hal_Rx_Agg
  imports Hal_Rxdesc
begin

text \<open>
  The chip layer and the USB receive handler together: a transfer with several packets, each padded to a
  multiple of eight bytes, is cut by \<^const>\<open>phl_get_single_rx\<close> into exactly these packets.
\<close>

section \<open>What the handler gets from the bytes\<close>

definition hal_rx_of :: "u8w list \<Rightarrow> nat \<Rightarrow> rx_fill \<Rightarrow> hal_rx" where
  "hal_rx_of buf p f =
     \<lparr>hr_type = fl_type f, hr_mdata = rtw_r_meta_data.truncate (fl_wd f), hr_phy_info = fl_phy f,
      hr_offset = int (fl_vir f) - int p, hr_length = fl_len f,
      hr_hdr_type = (if fl_type f = RTW_RX_TYPE_WIFI then PHL_GET_80211_HDR_TYPE buf (fl_vir f) else 0),
      hr_mfrag = (if fl_type f = RTW_RX_TYPE_WIFI then PHL_GET_80211_HDR_MORE_FRAG buf (fl_vir f) else 0),
      hr_frag_num = (if fl_type f = RTW_RX_TYPE_WIFI then PHL_GET_80211_HDR_FRAG_NUM buf (fl_vir f) else 0)\<rparr>"

text \<open>
  The calls of the chip layer in \<^const>\<open>single_rx_loop\<close>: the \<open>k\<close>th one starts behind the packets before it, with
  the rest of the transfer and the state they left.
\<close>

fun hal_kth :: "rx_parsers \<Rightarrow> u8w list \<Rightarrow> nat \<Rightarrow> nat \<Rightarrow> hal_ctx \<Rightarrow> nat \<Rightarrow> hal_rx option" where
  "hal_kth bb buf p len ctx k =
     (case hal_handle_rx_buffer_8852a bb RTW_HCI_USB buf p len zero_fill ctx of None \<Rightarrow> None
      | Some (f, ctx', s) \<Rightarrow>
          if s \<noteq> RTW_HAL_STATUS_SUCCESS then None
          else (case k of 0 \<Rightarrow> Some (hal_rx_of buf p f)
                | Suc j \<Rightarrow>
                    let n = nat (ALIGN8 (int (fl_vir f) - int p + int (fl_len f)))
                    in hal_kth bb buf (p + n) (len - n) ctx' j))"

declare hal_kth.simps [simp del]

section \<open>Aggregates\<close>

text \<open>
  A packet on the bus: a descriptor that is accepted, what its length fields announce in front of the payload, and
  the payload. A frame has at least an 802.11 header, a status report what it announces with the header of a PHY
  status, a radar or firmware report its header.
\<close>

definition rx_frame :: "u8w list \<Rightarrow> rx_wd \<Rightarrow> bool" where
  "rx_frame fr m \<longleftrightarrow> hal_parsing_rx_wd fr 0 zero_wd = Some (m, RTW_HAL_STATUS_SUCCESS) \<and> length fr = rx_hdr_len m + md_pktlen m \<and>
     (wd_rpkt_type m = RX_8852A_DESC_PKT_T_WIFI \<longrightarrow> 24 \<le> md_pktlen m) \<and>
     (wd_rpkt_type m = RX_8852A_DESC_PKT_T_PPDU_STATUS \<and> wd_mac_info_vld m \<noteq> 0 \<longrightarrow>
        rx_hdr_len m + 8 \<le> length fr \<and> rx_hdr_len m + report_need fr (rx_hdr_len m) \<le> length fr) \<and>
     (wd_rpkt_type m = RX_8852A_DESC_PKT_T_PPDU_STATUS \<longrightarrow>
        (case phy_status fr (rx_hdr_len m) m of None \<Rightarrow> True | Some (q, n) \<Rightarrow> q + 8 \<le> length fr)) \<and>
     (wd_rpkt_type m = RX_8852A_DESC_PKT_T_DFS_RPT \<or> wd_rpkt_type m = RX_8852A_DESC_PKT_T_C2H \<longrightarrow> 8 \<le> md_pktlen m)"

definition pad8 :: "u8w list \<Rightarrow> u8w list" where
  "pad8 fr = fr @ replicate (nat (ALIGN8 (int (length fr))) - length fr) 0"

definition rx_aggregate :: "u8w list list \<Rightarrow> u8w list" where
  "rx_aggregate frs = concat (map pad8 frs)"

lemma align8_nat: "nat (ALIGN8 (int n)) = (n + 7) div 8 * 8"
proof -
  have "x AND NOT (mask 3) = push_bit 3 (drop_bit 3 x)" for x :: int by (rule bit_eqI) (auto simp: bit_simps)
  moreover have "(mask 3 :: int) = 8 - 1" by (simp add: mask_eq_exp_minus_1)
  ultimately have "ALIGN8 (int n) = (int n + 7) div 8 * 8"
    unfolding ALIGN8_def by (simp add: push_bit_eq_mult drop_bit_eq_div)
  then show ?thesis by (simp add: nat_mult_distrib nat_div_distrib nat_add_distrib)
qed

lemma length_pad8: "length (pad8 fr) = (length fr + 7) div 8 * 8"
  by (simp add: pad8_def align8_nat)

lemma report_need_local:
  assumes "seg p (length fr) buf = fr" "p + length fr \<le> length buf" "i + 4 \<le> length fr"
  shows "report_need buf (p + i) = report_need fr i"
  using le_dword_local [OF assms] assms(2,3) by (simp add: report_need_def)

lemma phy_status_local:
  assumes "seg p (length fr) buf = fr" "p + length fr \<le> length buf" "wd_mac_info_vld m \<noteq> 0 \<Longrightarrow> i + 8 \<le> length fr"
  shows "phy_status buf (p + i) m = map_option (\<lambda>(q, n). (p + q, n)) (phy_status fr i m)"
proof (cases "wd_mac_info_vld m = 0")
  case False
  then have "le_dword buf (p + i) = le_dword fr i" "le_dword buf (p + i + 4) = le_dword fr (i + 4)"
    using le_dword_local [OF assms(1,2), of i] le_dword_local [OF assms(1,2), of "i + 4"] assms(3) by (simp_all add: add.assoc)
  then show ?thesis using False by (simp add: phy_status_def report_len_def Let_def)
qed (simp add: phy_status_def)

lemma reads_inside_local:
  assumes "rx_frame fr m" "seg p (length fr) buf = fr" "p + length fr \<le> length buf"
  shows "rx_reads_inside buf (p + rx_hdr_len m) m"
proof -
  have len: "length fr = rx_hdr_len m + md_pktlen m" using assms(1) by (simp add: rx_frame_def)
  have "report_need buf (p + rx_hdr_len m) = report_need fr (rx_hdr_len m)"
    if "wd_rpkt_type m = RX_8852A_DESC_PKT_T_PPDU_STATUS" "wd_mac_info_vld m \<noteq> 0"
    using that report_need_local [OF assms(2,3), of "rx_hdr_len m"] assms(1) by (simp add: rx_frame_def)
  moreover have "phy_status buf (p + rx_hdr_len m) m = map_option (\<lambda>(q, n). (p + q, n)) (phy_status fr (rx_hdr_len m) m)"
    if "wd_rpkt_type m = RX_8852A_DESC_PKT_T_PPDU_STATUS"
    by (rule phy_status_local [OF assms(2,3)]) (use that assms(1) in \<open>simp add: rx_frame_def\<close>)
  ultimately show ?thesis using assms(1,3) len
    by (auto simp: rx_reads_inside_def rx_frame_def rx_pkt_types split: option.splits)
qed

lemma rx_meta_local:
  assumes "seg p (length fr) buf = fr" "wd_rpkt_type m = RX_8852A_DESC_PKT_T_WIFI \<longrightarrow> hdr + 24 \<le> length fr"
  shows "rx_meta buf (p + hdr) m = rx_meta fr hdr m"
  using seg_local [OF assms(1), of "hdr + 10" 6] assms(2)
  by (cases "wd_rpkt_type m = RX_8852A_DESC_PKT_T_WIFI") (simp_all add: rx_meta_def PHL_GET_80211_HDR_ADDRESS2_def add.assoc)

lemma agg_handle_frame:
  assumes fr: "rx_frame fr m" and at: "seg p (length fr) buf = fr" "p + length fr \<le> length buf" and len: "length fr \<le> len"
    and behind: "\<not> parser_fault bb buf (p + rx_hdr_len m) m"
  shows "\<exists>f ctx'. hal_handle_rx_buffer_8852a bb RTW_HCI_USB buf p len zero_fill ctx = Some (f, ctx', RTW_HAL_STATUS_SUCCESS) \<and>
     fl_vir f = p + rx_hdr_len m \<and> fl_len f = md_pktlen m \<and> rtw_r_meta_data.truncate (fl_wd f) = rx_meta fr (rx_hdr_len m) m \<and>
     fl_type f = rx_type_of (wd_rpkt_type m)"
proof -
  have m: "hal_parsing_rx_wd buf p zero_wd = Some (m, RTW_HAL_STATUS_SUCCESS)"
    using parse_wd_local [OF at] fr by (simp add: rx_frame_def)
  have l: "length fr = rx_hdr_len m + md_pktlen m" using fr by (simp add: rx_frame_def)
  have "\<exists>f ctx'. hal_handle_rx_buffer_8852a bb RTW_HCI_USB buf p len zero_fill ctx = Some (f, ctx', RTW_HAL_STATUS_SUCCESS)"
    using handle_rx_ok [OF m, of len bb ctx] reads_inside_local [OF fr at] behind l len by simp
  then obtain f ctx' where f: "hal_handle_rx_buffer_8852a bb RTW_HCI_USB buf p len zero_fill ctx = Some (f, ctx', RTW_HAL_STATUS_SUCCESS)"
    by blast
  have "rx_meta buf (p + rx_hdr_len m) m = rx_meta fr (rx_hdr_len m) m"
    using rx_meta_local [OF at(1)] fr l by (simp add: rx_frame_def)
  then show ?thesis using handle_rx_success [OF f] f m by auto
qed

text \<open>What the receive path is told about the packet.\<close>

definition told :: "hal_rx \<Rightarrow> u8w list \<Rightarrow> rx_wd \<Rightarrow> bool" where
  "told h fr m \<longleftrightarrow> hr_type h = rx_type_of (wd_rpkt_type m) \<and> hr_mdata h = rx_meta fr (rx_hdr_len m) m \<and>
     hr_offset h = int (rx_hdr_len m) \<and> hr_length h = md_pktlen m"

lemma kth_of_aggregate:
  "list_all2 rx_frame frs ms \<Longrightarrow> seg p (length (rx_aggregate frs)) buf = rx_aggregate frs \<Longrightarrow>
   p + length (rx_aggregate frs) \<le> length buf \<Longrightarrow>
   (\<And>i. i < length frs \<Longrightarrow> \<not> parser_fault bb buf (p + length (rx_aggregate (take i frs)) + rx_hdr_len (ms ! i)) (ms ! i)) \<Longrightarrow>
   k < length frs \<Longrightarrow>
   \<exists>h. hal_kth bb buf p (length (rx_aggregate frs)) ctx k = Some h \<and> told h (frs ! k) (ms ! k)"
proof (induction frs arbitrary: ms p ctx k)
  case (Cons fr frs)
  then obtain m ms' where ms: "ms = m # ms'" "rx_frame fr m" "list_all2 rx_frame frs ms'" by (auto simp: list_all2_Cons1)
  let ?n = "length (pad8 fr)" let ?rest = "length (rx_aggregate frs)"
  have agg: "rx_aggregate (fr # frs) = pad8 fr @ rx_aggregate frs" by (simp add: rx_aggregate_def)
  have fr_n: "length fr \<le> ?n" by (simp add: length_pad8)
  have sp: "seg p ?n buf = pad8 fr" "seg (p + ?n) ?rest buf = rx_aggregate frs"
    using Cons.prems(2,3) seg_split [of p ?n ?rest buf] by (simp_all add: agg append_eq_append_conv seg_def)
  have "seg p (length fr) buf = fr"
    using seg_split [of p "length fr" "?n - length fr" buf] sp(1) fr_n Cons.prems(3)
    by (simp add: pad8_def append_eq_append_conv seg_def agg)
  then obtain f ctx' where f: "hal_handle_rx_buffer_8852a bb RTW_HCI_USB buf p (?n + ?rest) zero_fill ctx = Some (f, ctx', RTW_HAL_STATUS_SUCCESS)"
    "fl_vir f = p + rx_hdr_len m" "fl_len f = md_pktlen m" "rtw_r_meta_data.truncate (fl_wd f) = rx_meta fr (rx_hdr_len m) m"
    "fl_type f = rx_type_of (wd_rpkt_type m)"
    using agg_handle_frame [OF ms(2), of p buf "?n + ?rest" bb ctx] Cons.prems(3) Cons.prems(4) [of 0] fr_n ms(1)
    by (auto simp: agg rx_aggregate_def)
  have l: "length fr = rx_hdr_len m + md_pktlen m" using ms(2) by (simp add: rx_frame_def)
  have n: "nat (ALIGN8 (int (fl_vir f) - int p + int (fl_len f))) = ?n"
    using f(2,3) l align8_nat [of "length fr"] by (simp add: length_pad8)
  show ?case
  proof (cases k)
    case 0
    then show ?thesis using f ms(1) by (subst hal_kth.simps) (simp add: agg told_def hal_rx_of_def)
  next
    case (Suc j)
    have "\<exists>h. hal_kth bb buf (p + ?n) ?rest ctx' j = Some h \<and> told h (frs ! j) (ms' ! j)"
    proof (rule Cons.IH [OF ms(3) sp(2)])
      show "\<not> parser_fault bb buf (p + ?n + length (rx_aggregate (take i frs)) + rx_hdr_len (ms' ! i)) (ms' ! i)" if "i < length frs" for i
        using Cons.prems(4) [of "Suc i"] that ms(1) by (simp add: rx_aggregate_def add.assoc)
    qed (use Cons.prems(3,5) Suc in \<open>simp_all add: agg\<close>)
    then show ?thesis using f n Suc ms(1) by (subst hal_kth.simps) (simp add: agg Let_def)
  qed
qed simp

section \<open>The packets of a transfer\<close>

definition filled :: "hal_rx \<Rightarrow> rtw_phl_rx_pkt \<Rightarrow> bool" where
  "filled h x \<longleftrightarrow> rp_type x = hr_type h \<and> rp_mdata x = hr_mdata h \<and> rp_length x = hr_length h"

definition step_len :: "hal_rx \<Rightarrow> int" where
  "step_len h = ALIGN8 (hr_offset h + int (hr_length h))"

lemma loop_takes_all:
  assumes "hs \<noteq> []" "\<And>i. i < length hs \<Longrightarrow> ev_hal env b (k + i) = Some (hs ! i)" "\<And>h. h \<in> set hs \<Longrightarrow> 0 < step_len h"
    "len = (\<Sum>h\<leftarrow>hs. step_len h)" "length hs \<le> length (pool_idle (rx_pkt_pool st))" "distinct (pool_idle (rx_pkt_pool st))"
  shows "\<exists>st' ref_cnt' brel'. single_rx_loop env b k len acc ref_cnt brel st =
       (st', acc @ take (length hs) (pool_idle (rx_pkt_pool st)), ref_cnt', brel') \<and>
     (\<forall>i<length hs. filled (hs ! i) (rx_pkts st' (pool_idle (rx_pkt_pool st) ! i))) \<and>
     (\<forall>q. q \<notin> set (take (length hs) (pool_idle (rx_pkt_pool st))) \<longrightarrow> rx_pkts st' q = rx_pkts st q)"
  using assms
proof (induction hs arbitrary: k len acc ref_cnt brel st)
  case (Cons h hs)
  obtain p ps where idle: "pool_idle (rx_pkt_pool st) = p # ps" using Cons.prems(5) by (cases "pool_idle (rx_pkt_pool st)") auto
  then obtain st1 where q: "rtw_phl_query_phl_rx st = (st1, Some p)" "pool_idle (rx_pkt_pool st1) = ps" "rx_pkts st1 = rx_pkts st"
    by (simp add: rtw_phl_query_phl_rx_def Let_def)
  define balloc where "balloc = (hr_type h = RTW_RX_TYPE_WIFI \<and> ev_netbuf env b k)"
  define st2 where "st2 = upd_pkt p (\<lambda>x. if balloc
        then (fill_pkt h x)\<lparr>rp_os_priv := True, rp_os_netbuf_len := rx_netbuf_len h\<rparr> else (fill_pkt h x)\<lparr>rp_rxbuf_ptr := Some b\<rparr>) st1"
  define rc br where "rc = (if balloc then ref_cnt else to_u8 (int ref_cnt + 1))" and "br = (brel \<and> balloc)"
  define rest where "rest = (\<Sum>h\<leftarrow>hs. step_len h)"
  have ev: "ev_hal env b k = Some h" using Cons.prems(2) [of 0] by simp
  have len: "len - ALIGN8 (hr_offset h + int (hr_length h)) = rest" using Cons.prems(4) by (simp add: rest_def step_len_def)
  have loop: "single_rx_loop env b k len acc ref_cnt brel st =
      (if 0 < rest then single_rx_loop env b (k + 1) rest (acc @ [p]) rc br st2 else (st2, acc @ [p], rc, br))"
    using q(1) ev len by (subst single_rx_loop.simps) (simp add: Let_def balloc_def st2_def rc_def br_def)
  have st2: "pool_idle (rx_pkt_pool st2) = ps" "filled h (rx_pkts st2 p)" "\<And>x. x \<noteq> p \<Longrightarrow> rx_pkts st2 x = rx_pkts st x"
    using q by (simp_all add: st2_def upd_pkt_def filled_def fill_pkt_def)
  have ev': "ev_hal env b (k + 1 + i) = Some (hs ! i)" if "i < length hs" for i using Cons.prems(2) [of "Suc i"] that by simp
  show ?case
  proof (cases "hs = []")
    case True
    then show ?thesis using loop st2 by (simp add: rest_def idle)
  next
    case False
    then have "0 < rest" unfolding rest_def using Cons.prems(3)
      by (cases hs) (auto intro!: add_pos_nonneg sum_list_nonneg simp: less_imp_le)
    moreover have "\<exists>st' ref_cnt' brel'. single_rx_loop env b (k + 1) rest (acc @ [p]) rc br st2 =
         (st', (acc @ [p]) @ take (length hs) ps, ref_cnt', brel') \<and>
       (\<forall>i<length hs. filled (hs ! i) (rx_pkts st' (ps ! i))) \<and> (\<forall>q. q \<notin> set (take (length hs) ps) \<longrightarrow> rx_pkts st' q = rx_pkts st2 q)"
      using Cons.IH [OF False _ _ rest_def, of "k + 1" st2 "acc @ [p]" rc br] ev' Cons.prems(3,5,6) idle st2(1) by simp
    ultimately obtain st' rc' br' where r: "single_rx_loop env b k len acc ref_cnt brel st = (st', acc @ p # take (length hs) ps, rc', br')"
      "\<forall>i<length hs. filled (hs ! i) (rx_pkts st' (ps ! i))" "\<forall>q. q \<notin> set (take (length hs) ps) \<longrightarrow> rx_pkts st' q = rx_pkts st2 q"
      using loop by auto
    have "p \<notin> set (take (length hs) ps)" using Cons.prems(6) idle by (auto dest: in_set_takeD)
    then have "filled ((h # hs) ! i) (rx_pkts st' ((p # ps) ! i))" if "i < Suc (length hs)" for i
      using r(2,3) st2(2) that by (cases i) auto
    then show ?thesis using r st2(3) by (simp add: idle)
  qed
qed simp

lemma get_single_rx_pkts:
  assumes "single_rx_loop env b 0 (int (rb_transfer_len (rx_bufs (rxbuf_pool st) b))) [] 0 True st = (st1, pkts, rc, br)" "pkts \<noteq> []"
  shows "\<exists>st'. phl_get_single_rx env b st = (st', pkts) \<and> rx_pkts st' = rx_pkts st1"
  using assms by (simp add: phl_get_single_rx_def)

lemma told_step:
  assumes "told h fr m" "rx_frame fr m"
  shows "step_len h = int (length (pad8 fr))" "0 < step_len h"
proof -
  have l: "length fr = rx_hdr_len m + md_pktlen m" and "0 < md_pktlen m"
    using assms(2) parse_wd_bounds(5) by (fastforce simp: rx_frame_def split: if_splits)+
  then have pos: "0 < (length fr + 7) div 8 * 8" by simp
  have "nat (step_len h) = (length fr + 7) div 8 * 8"
    using assms(1) l align8_nat [of "length fr"] by (simp add: told_def step_len_def)
  then show "0 < step_len h" "step_len h = int (length (pad8 fr))" using pos by (simp_all add: length_pad8)
qed

lemma aggregate_payload:
  assumes "i < length frs" "seg 0 (length (rx_aggregate frs)) buf = rx_aggregate frs" "n \<le> length (frs ! i)"
  shows "seg (length (rx_aggregate (take i frs)) + n) (length (frs ! i) - n) buf = drop n (frs ! i)"
proof -
  let ?a = "rx_aggregate (take i frs)" and ?fr = "frs ! i"
  have "rx_aggregate frs = ?a @ pad8 ?fr @ rx_aggregate (drop (Suc i) frs)"
    unfolding rx_aggregate_def by (subst id_take_nth_drop [OF assms(1)]) simp
  then obtain tl where e: "rx_aggregate frs = ?a @ ?fr @ tl" by (auto simp: pad8_def)
  have "seg (length ?a + n) (length ?fr - n) (rx_aggregate frs) = drop n ?fr"
    using assms(3) by (simp add: e seg_def)
  moreover have "length ?a + n + (length ?fr - n) \<le> length (rx_aggregate frs)" using assms(3) by (simp add: e)
  ultimately show ?thesis using seg_seg [of "length ?a + n" "length ?fr - n" "length (rx_aggregate frs)" 0 buf] assms(2) by simp
qed

text \<open>
  C6: A transfer that holds packets one after the other, each padded to eight bytes, is cut by the receive handler
  into exactly these packets, in order, in packet objects of the pool: each object gets the type, the length and the
  meta data of its own descriptor, and the bytes it stands for are its payload. The code that takes over behind the
  header of a PHY status, radar or firmware report is taken to stay in the memory of the transfer.
\<close>

theorem rx_aggregate_parsed:
  assumes frames: "list_all2 rx_frame frs ms" "frs \<noteq> []"
    and bytes: "seg 0 (length (rx_aggregate frs)) buf = rx_aggregate frs" "length (rx_aggregate frs) \<le> length buf"
      "rb_transfer_len (rx_bufs (rxbuf_pool st) b) = length (rx_aggregate frs)"
      "ev_hal env b = hal_kth bb buf 0 (length (rx_aggregate frs)) ctx"
    and behind: "\<And>i. i < length frs \<Longrightarrow>
      \<not> parser_fault bb buf (length (rx_aggregate (take i frs)) + rx_hdr_len (ms ! i)) (ms ! i)"
    and pool: "length frs \<le> length (pool_idle (rx_pkt_pool st))" "distinct (pool_idle (rx_pkt_pool st))"
  shows "\<exists>st'. phl_get_single_rx env b st = (st', take (length frs) (pool_idle (rx_pkt_pool st))) \<and>
     (\<forall>i<length frs. let x = rx_pkts st' (pool_idle (rx_pkt_pool st) ! i); m = ms ! i in
        rp_type x = rx_type_of (wd_rpkt_type m) \<and> rp_length x = md_pktlen m \<and> rp_mdata x = rx_meta (frs ! i) (rx_hdr_len m) m \<and>
        (\<exists>h. ev_hal env b i = Some h \<and>
           seg (length (rx_aggregate (take i frs)) + nat (hr_offset h)) (hr_length h) buf = drop (rx_hdr_len m) (frs ! i)))"
proof -
  define hs where "hs = map (\<lambda>i. the (ev_hal env b i)) [0..<length frs]"
  have len: "length ms = length frs" "length hs = length frs" using frames(1) by (simp_all add: list_all2_lengthD hs_def)
  have fr: "rx_frame (frs ! i) (ms ! i)" if "i < length frs" for i using frames(1) that by (simp add: list_all2_nthD)
  have told: "ev_hal env b i = Some (hs ! i) \<and> told (hs ! i) (frs ! i) (ms ! i)" if "i < length frs" for i
    using kth_of_aggregate [OF frames(1), of 0 buf bb i ctx] bytes behind that by (auto simp: hs_def)
  have pos: "0 < step_len h" if "h \<in> set hs" for h
    using that told told_step(2) fr len(2) by (metis in_set_conv_nth)
  have "step_len (hs ! i) = int (length (pad8 (frs ! i)))" if "i < length frs" for i
    using told_step(1) told [OF that] fr [OF that] by blast
  then have "map step_len hs = map (\<lambda>fr. int (length (pad8 fr))) frs" using len(2) by (intro nth_equalityI) simp_all
  then have sum: "int (length (rx_aggregate frs)) = (\<Sum>h\<leftarrow>hs. step_len h)"
    by (simp add: rx_aggregate_def length_concat sum_list_of_nat o_def flip: sum_list_of_nat)
  have "hs \<noteq> []" using frames(2) len(2) by auto
  then obtain st1 rc br where loop: "single_rx_loop env b 0 (int (length (rx_aggregate frs))) [] 0 True st =
      (st1, take (length frs) (pool_idle (rx_pkt_pool st)), rc, br)"
    "\<forall>i<length frs. filled (hs ! i) (rx_pkts st1 (pool_idle (rx_pkt_pool st) ! i))"
    using loop_takes_all [OF _ _ pos sum, of env b 0 st "[]" 0 True] told len(2) pool by auto
  moreover have "take (length frs) (pool_idle (rx_pkt_pool st)) \<noteq> []" using frames(2) pool(1) by auto
  ultimately obtain st' where st': "phl_get_single_rx env b st = (st', take (length frs) (pool_idle (rx_pkt_pool st)))" "rx_pkts st' = rx_pkts st1"
    using get_single_rx_pkts bytes(3) by metis
  have "rp_type (rx_pkts st' (pool_idle (rx_pkt_pool st) ! i)) = rx_type_of (wd_rpkt_type (ms ! i)) \<and>
      rp_length (rx_pkts st' (pool_idle (rx_pkt_pool st) ! i)) = md_pktlen (ms ! i) \<and>
      rp_mdata (rx_pkts st' (pool_idle (rx_pkt_pool st) ! i)) = rx_meta (frs ! i) (rx_hdr_len (ms ! i)) (ms ! i) \<and>
      seg (length (rx_aggregate (take i frs)) + nat (hr_offset (hs ! i))) (hr_length (hs ! i)) buf = drop (rx_hdr_len (ms ! i)) (frs ! i)"
    if i: "i < length frs" for i
    using loop(2) st'(2) told [OF i] fr [OF i] aggregate_payload [OF i bytes(1), of "rx_hdr_len (ms ! i)"] i
    by (simp add: filled_def told_def rx_frame_def)
  then show ?thesis using st'(1) told by (auto simp: Let_def)
qed

section \<open>Example\<close>

text \<open>Two frames in one transfer, the packets 3 and 5 idle.\<close>

definition ex_frame :: "u8w list" where "ex_frame = ex_desc @ replicate 24 0"

definition ex_agg_st :: rx_st where
  "ex_agg_st = ex_rx\<lparr>rx_pkt_pool := \<lparr>pool_idle = [3, 5], pool_idle_cnt = 2\<rparr>,
     rxbuf_pool := (rxbuf_pool ex_rx)\<lparr>rx_bufs := (\<lambda>_. \<lparr>rb_pipe_idx = 0, rb_pktcnt = 0, rb_transfer_len = 112\<rparr>)\<rparr>\<rparr>"

definition ex_agg_env :: rx_env where
  "ex_agg_env = \<lparr>ev_hal = (\<lambda>_. hal_kth ex_parsers (rx_aggregate [ex_frame, ex_frame]) 0 112 ex_ctx),
     ev_netbuf = (\<lambda>_ _. True), ev_reports = (\<lambda>_. []), ev_time = 0, ev_ch = 0\<rparr>"

theorem rx_aggregate_parsed_witness:
  "\<exists>st' m. phl_get_single_rx ex_agg_env 0 ex_agg_st = (st', [3, 5]) \<and> rx_frame ex_frame m \<and>
     rp_length (rx_pkts st' 3) = 24 \<and> rp_mdata (rx_pkts st' 5) = rx_meta ex_frame 32 m \<and> rp_type (rx_pkts st' 5) = RTW_RX_TYPE_WIFI"
proof -
  obtain m where m: "hal_parsing_rx_wd ex_frame 0 zero_wd = Some (m, RTW_HAL_STATUS_SUCCESS)" "wd_rpkt_type m = 0"
    "rx_hdr_len m = 32" "md_pktlen m = 24" using ex_parse [of "replicate 24 0"] by (auto simp: ex_frame_def)
  have len: "length ex_frame = 56" by (simp add: ex_frame_def ex_desc_def)
  have fr: "rx_frame ex_frame m" using m len by (simp add: rx_frame_def rx_pkt_types)
  have agg: "length (rx_aggregate [ex_frame, ex_frame]) = 112" by (simp add: rx_aggregate_def length_pad8 len)
  have "\<exists>st'. phl_get_single_rx ex_agg_env 0 ex_agg_st = (st', take (length [ex_frame, ex_frame]) (pool_idle (rx_pkt_pool ex_agg_st))) \<and>
     (\<forall>i<length [ex_frame, ex_frame]. let x = rx_pkts st' (pool_idle (rx_pkt_pool ex_agg_st) ! i); m' = [m, m] ! i in
        rp_type x = rx_type_of (wd_rpkt_type m') \<and> rp_length x = md_pktlen m' \<and>
        rp_mdata x = rx_meta ([ex_frame, ex_frame] ! i) (rx_hdr_len m') m' \<and>
        (\<exists>h. ev_hal ex_agg_env 0 i = Some h \<and>
           seg (length (rx_aggregate (take i [ex_frame, ex_frame])) + nat (hr_offset h)) (hr_length h) (rx_aggregate [ex_frame, ex_frame]) =
             drop (rx_hdr_len m') ([ex_frame, ex_frame] ! i)))"
    by (rule rx_aggregate_parsed [where bb = ex_parsers and ctx = ex_ctx])
       (use fr agg in \<open>simp_all add: seg_def ex_agg_st_def ex_agg_env_def ex_parsers_inside\<close>)
  then obtain st' where st': "phl_get_single_rx ex_agg_env 0 ex_agg_st = (st', [3, 5])"
    "\<forall>i<2. rp_type (rx_pkts st' ([3, 5] ! i)) = rx_type_of (wd_rpkt_type ([m, m] ! i)) \<and>
       rp_length (rx_pkts st' ([3, 5] ! i)) = md_pktlen ([m, m] ! i) \<and>
       rp_mdata (rx_pkts st' ([3, 5] ! i)) = rx_meta ([ex_frame, ex_frame] ! i) (rx_hdr_len ([m, m] ! i)) ([m, m] ! i)"
    by (auto simp: ex_agg_st_def Let_def)
  show ?thesis using st'(1) spec [OF st'(2), of 0] spec [OF st'(2), of 1] m fr by (auto simp: rx_type_of_def)
qed

end
