(* ===== verification/Phl_H2c.thy ===== *)
theory Phl_H2c
  imports Phl_Queue Phl_Fifo
begin

text \<open>
  The pool of host-to-chip command packets of \<^verbatim>\<open>phl/phl_tx.c\<close>: three idle lists by packet size
  and a busy list over one array of 264 packets.

  A packet is its index in the array; the pointers into its buffer are offsets from
  \<^verbatim>\<open>vir_head\<close>. Whether memory is available is an argument. An access through a NULL queue is
  \<^const>\<open>None\<close>.
\<close>

section \<open>Packets\<close>

datatype rtw_h2c_pkt_type = H2CB_TYPE_CMD | H2CB_TYPE_DATA | H2CB_TYPE_LONG_DATA | H2CB_TYPE_MAX

definition H2CB_CMD_QLEN :: nat where "H2CB_CMD_QLEN = 32"
definition H2CB_DATA_QLEN :: nat where "H2CB_DATA_QLEN = 32"
definition H2CB_LONG_DATA_QLEN :: nat where "H2CB_LONG_DATA_QLEN = 200"

definition MAX_H2C_PKT_NUM :: nat where
  "MAX_H2C_PKT_NUM = H2CB_CMD_QLEN + H2CB_DATA_QLEN + H2CB_LONG_DATA_QLEN"

definition FWCMD_HDR_LEN :: nat where "FWCMD_HDR_LEN = 8"
definition WD_BODY_LEN :: nat where "WD_BODY_LEN = 24"
definition H2C_CMD_LEN :: nat where "H2C_CMD_LEN = 64"
definition H2C_DATA_LEN :: nat where "H2C_DATA_LEN = 256"
definition H2C_LONG_DATA_LEN :: nat where "H2C_LONG_DATA_LEN = 2048"

definition get_h2c_size_by_range :: "nat \<Rightarrow> nat" where
  "get_h2c_size_by_range i =
     (if i < H2CB_CMD_QLEN then FWCMD_HDR_LEN + WD_BODY_LEN + H2C_CMD_LEN
      else if i < H2CB_CMD_QLEN + H2CB_DATA_QLEN then FWCMD_HDR_LEN + WD_BODY_LEN + H2C_DATA_LEN
      else FWCMD_HDR_LEN + WD_BODY_LEN + H2C_LONG_DATA_LEN)"

record rtw_h2c_pkt =
  h_type :: rtw_h2c_pkt_type
  h_id :: u32
  h_buf_len :: nat
  h_data_len :: nat
  h_host_idx :: nat
  h_seq :: nat
  h_vir_data :: nat
  h_vir_tail :: nat
  h_vir_end :: nat

record phl_h2c_pkt_pool =
  h2c_pkts :: "ptr \<Rightarrow> rtw_h2c_pkt"
  idle_h2c_pkt_cmd_list :: "ptr phl_queue"
  idle_h2c_pkt_data_list :: "ptr phl_queue"
  idle_h2c_pkt_ldata_list :: "ptr phl_queue"
  busy_h2c_pkt_list :: "ptr phl_queue"

section \<open>Operations\<close>

definition enqueue_h2c_pkt :: "ptr phl_queue \<Rightarrow> ptr option \<Rightarrow> list_pos \<Rightarrow> ptr phl_queue \<times> rtw_phl_status" where
  "enqueue_h2c_pkt q h2c_pkt pos =
     (case h2c_pkt of None \<Rightarrow> (q, RTW_PHL_STATUS_FAILURE)
      | Some p \<Rightarrow>
          (q\<lparr>queue := (if pos = Tail then queue q @ [p] else p # queue q), cnt := cnt q + 1\<rparr>,
           RTW_PHL_STATUS_SUCCESS))"

definition dequeue_h2c_pkt :: "ptr phl_queue \<Rightarrow> ptr phl_queue \<times> ptr option" where
  "dequeue_h2c_pkt q =
     (case queue q of [] \<Rightarrow> (q, None)
      | p # ps \<Rightarrow> (q\<lparr>queue := ps, cnt := cnt q - 1\<rparr>, Some p))"

text \<open>The buffer is cleared besides.\<close>

definition phl_reset_h2c_pkt :: "nat \<Rightarrow> rtw_h2c_pkt \<Rightarrow> rtw_h2c_pkt" where
  "phl_reset_h2c_pkt buf_len pkt =
     (let pkt1 = pkt\<lparr>h_buf_len := buf_len, h_id := 0, h_host_idx := 0, h_data_len := 0, h_seq := 0\<rparr>;
          start = FWCMD_HDR_LEN + WD_BODY_LEN
      in case h_type pkt of
           H2CB_TYPE_CMD \<Rightarrow> pkt1\<lparr>h_vir_data := start, h_vir_tail := start, h_vir_end := start + H2C_CMD_LEN\<rparr>
         | H2CB_TYPE_DATA \<Rightarrow> pkt1\<lparr>h_vir_data := start, h_vir_tail := start, h_vir_end := start + H2C_DATA_LEN\<rparr>
         | H2CB_TYPE_LONG_DATA \<Rightarrow>
             pkt1\<lparr>h_vir_data := start, h_vir_tail := start, h_vir_end := start + H2C_LONG_DATA_LEN\<rparr>
         | H2CB_TYPE_MAX \<Rightarrow> pkt1)"

definition upd_h2c :: "ptr \<Rightarrow> (rtw_h2c_pkt \<Rightarrow> rtw_h2c_pkt) \<Rightarrow> phl_h2c_pkt_pool \<Rightarrow> phl_h2c_pkt_pool" where
  "upd_h2c p f pool = pool\<lparr>h2c_pkts := (h2c_pkts pool)(p := f (h2c_pkts pool p))\<rparr>"

definition phl_enqueue_busy_h2c_pkt ::
  "ptr option \<Rightarrow> list_pos \<Rightarrow> phl_h2c_pkt_pool \<Rightarrow> phl_h2c_pkt_pool \<times> rtw_phl_status" where
  "phl_enqueue_busy_h2c_pkt h2c_pkt pos pool =
     (case enqueue_h2c_pkt (busy_h2c_pkt_list pool) h2c_pkt pos of
        (q, pstatus) \<Rightarrow> (pool\<lparr>busy_h2c_pkt_list := q\<rparr>, pstatus))"

definition phl_enqueue_idle_h2c_pkt ::
  "ptr option \<Rightarrow> phl_h2c_pkt_pool \<Rightarrow> (phl_h2c_pkt_pool \<times> rtw_phl_status) option" where
  "phl_enqueue_idle_h2c_pkt h2c_pkt pool =
     (case h2c_pkt of None \<Rightarrow> Some (pool, RTW_PHL_STATUS_FAILURE)
      | Some p \<Rightarrow>
          let hdr = FWCMD_HDR_LEN + WD_BODY_LEN in
          (case h_type (h2c_pkts pool p) of
             H2CB_TYPE_CMD \<Rightarrow>
               let pool1 = upd_h2c p (phl_reset_h2c_pkt (hdr + H2C_CMD_LEN)) pool in
               (case enqueue_h2c_pkt (idle_h2c_pkt_cmd_list pool1) (Some p) Tail of
                  (q, s) \<Rightarrow> Some (pool1\<lparr>idle_h2c_pkt_cmd_list := q\<rparr>, s))
           | H2CB_TYPE_DATA \<Rightarrow>
               let pool1 = upd_h2c p (phl_reset_h2c_pkt (hdr + H2C_DATA_LEN)) pool in
               (case enqueue_h2c_pkt (idle_h2c_pkt_data_list pool1) (Some p) Tail of
                  (q, s) \<Rightarrow> Some (pool1\<lparr>idle_h2c_pkt_data_list := q\<rparr>, s))
           | H2CB_TYPE_LONG_DATA \<Rightarrow>
               let pool1 = upd_h2c p (phl_reset_h2c_pkt (hdr + H2C_LONG_DATA_LEN)) pool in
               (case enqueue_h2c_pkt (idle_h2c_pkt_ldata_list pool1) (Some p) Tail of
                  (q, s) \<Rightarrow> Some (pool1\<lparr>idle_h2c_pkt_ldata_list := q\<rparr>, s))
           | H2CB_TYPE_MAX \<Rightarrow> None))"

definition phl_query_busy_h2c_pkt :: "phl_h2c_pkt_pool \<Rightarrow> phl_h2c_pkt_pool \<times> ptr option" where
  "phl_query_busy_h2c_pkt pool =
     (case dequeue_h2c_pkt (busy_h2c_pkt_list pool) of (q, r) \<Rightarrow> (pool\<lparr>busy_h2c_pkt_list := q\<rparr>, r))"

definition phl_query_idle_h2c_pkt ::
  "rtw_h2c_pkt_type \<Rightarrow> phl_h2c_pkt_pool \<Rightarrow> (phl_h2c_pkt_pool \<times> ptr option) option" where
  "phl_query_idle_h2c_pkt h2c_type pool =
     (case h2c_type of
        H2CB_TYPE_CMD \<Rightarrow>
          (case dequeue_h2c_pkt (idle_h2c_pkt_cmd_list pool) of (q, r) \<Rightarrow> Some (pool\<lparr>idle_h2c_pkt_cmd_list := q\<rparr>, r))
      | H2CB_TYPE_DATA \<Rightarrow>
          (case dequeue_h2c_pkt (idle_h2c_pkt_data_list pool) of (q, r) \<Rightarrow> Some (pool\<lparr>idle_h2c_pkt_data_list := q\<rparr>, r))
      | H2CB_TYPE_LONG_DATA \<Rightarrow>
          (case dequeue_h2c_pkt (idle_h2c_pkt_ldata_list pool) of (q, r) \<Rightarrow> Some (pool\<lparr>idle_h2c_pkt_ldata_list := q\<rparr>, r))
      | H2CB_TYPE_MAX \<Rightarrow> None)"

text \<open>\<^verbatim>\<open>rtw_phl_query_h2c_pkt\<close> of \<^verbatim>\<open>phl/phl_api_drv.c\<close>, less its dump of the pool.\<close>

definition rtw_phl_query_h2c_pkt ::
  "rtw_h2c_pkt_type \<Rightarrow> phl_h2c_pkt_pool \<Rightarrow> (phl_h2c_pkt_pool \<times> ptr option) option" where
  "rtw_phl_query_h2c_pkt type pool = phl_query_idle_h2c_pkt type pool"

text \<open>
  The loop of \<^verbatim>\<open>_phl_free_h2c_pkt\<close>: the cursor \<open>j\<close> stays where it is at a packet without a
  buffer. The result lists the packets whose buffer is freed.
\<close>

fun free_h2c_loop :: "nat \<Rightarrow> nat \<Rightarrow> (ptr \<Rightarrow> bool) \<Rightarrow> ptr list" where
  "free_h2c_loop 0 j has_buf = []"
| "free_h2c_loop (Suc n) j has_buf =
     (if \<not> has_buf j then free_h2c_loop n j has_buf
      else j # free_h2c_loop n (j + 1) (has_buf(j := False)))"

definition phl_free_h2c_pkt :: "bool \<Rightarrow> (ptr \<Rightarrow> bool) \<Rightarrow> ptr list" where
  "phl_free_h2c_pkt h2c_pkt_buf has_buf = (if h2c_pkt_buf then free_h2c_loop MAX_H2C_PKT_NUM 0 has_buf else [])"

text \<open>
  The loop of \<^verbatim>\<open>_phl_alloc_h2c_pkt\<close>: \<open>buf_alloc i\<close> is whether the buffer of packet \<open>i\<close> is there.
  The result is the pool and the number of packets set up.
\<close>

fun alloc_h2c_loop :: "(nat \<Rightarrow> bool) \<Rightarrow> nat list \<Rightarrow> nat \<Rightarrow> phl_h2c_pkt_pool \<Rightarrow> phl_h2c_pkt_pool \<times> nat \<times> rtw_phl_status" where
  "alloc_h2c_loop buf_alloc [] n pool = (pool, n, if n = 0 then RTW_PHL_STATUS_FAILURE else RTW_PHL_STATUS_SUCCESS)"
| "alloc_h2c_loop buf_alloc (i # is) n pool =
     (if \<not> buf_alloc i then (pool, n, RTW_PHL_STATUS_RESOURCE)
      else
        let start = FWCMD_HDR_LEN + WD_BODY_LEN;
            pool1 = upd_h2c i (\<lambda>p. p\<lparr>h_buf_len := get_h2c_size_by_range i, h_vir_data := start, h_vir_tail := start\<rparr>) pool;
            pool2 =
              (if i < H2CB_CMD_QLEN then
                 (upd_h2c i (\<lambda>p. p\<lparr>h_type := H2CB_TYPE_CMD, h_vir_end := start + H2C_CMD_LEN\<rparr>) pool1)
                   \<lparr>idle_h2c_pkt_cmd_list := fst (enqueue_h2c_pkt (idle_h2c_pkt_cmd_list pool1) (Some i) Tail)\<rparr>
               else if i < H2CB_CMD_QLEN + H2CB_DATA_QLEN then
                 (upd_h2c i (\<lambda>p. p\<lparr>h_type := H2CB_TYPE_DATA, h_vir_end := start + H2C_DATA_LEN\<rparr>) pool1)
                   \<lparr>idle_h2c_pkt_data_list := fst (enqueue_h2c_pkt (idle_h2c_pkt_data_list pool1) (Some i) Tail)\<rparr>
               else
                 (upd_h2c i (\<lambda>p. p\<lparr>h_type := H2CB_TYPE_LONG_DATA, h_vir_end := start + H2C_LONG_DATA_LEN\<rparr>) pool1)
                   \<lparr>idle_h2c_pkt_ldata_list := fst (enqueue_h2c_pkt (idle_h2c_pkt_ldata_list pool1) (Some i) Tail)\<rparr>)
        in alloc_h2c_loop buf_alloc is (n + 1) pool2)"

text \<open>The third result lists the buffers freed when the set-up fails.\<close>

definition phl_alloc_h2c_pool ::
  "bool \<Rightarrow> bool \<Rightarrow> (nat \<Rightarrow> bool) \<Rightarrow> (ptr \<Rightarrow> rtw_h2c_pkt) \<Rightarrow> phl_h2c_pkt_pool option \<times> rtw_phl_status \<times> ptr list" where
  "phl_alloc_h2c_pool pool_alloc root_alloc buf_alloc mem =
     (if \<not> pool_alloc then (None, RTW_PHL_STATUS_FAILURE, [])
      else
        let pool = \<lparr>h2c_pkts = mem, idle_h2c_pkt_cmd_list = pq_init, idle_h2c_pkt_data_list = pq_init,
                    idle_h2c_pkt_ldata_list = pq_init, busy_h2c_pkt_list = pq_init\<rparr>
        in if \<not> root_alloc then (None, RTW_PHL_STATUS_RESOURCE, [])
           else
             case alloc_h2c_loop buf_alloc [0..<MAX_H2C_PKT_NUM] 0 pool of
               (pool', n, pstatus) \<Rightarrow>
                 if pstatus \<noteq> RTW_PHL_STATUS_SUCCESS
                 then (None, RTW_PHL_STATUS_RESOURCE, phl_free_h2c_pkt True (\<lambda>i. i < n))
                 else (Some pool', RTW_PHL_STATUS_SUCCESS, []))"

section \<open>Where the packets are\<close>

definition h2c_size :: "rtw_h2c_pkt_type \<Rightarrow> nat" where
  "h2c_size t = (case t of H2CB_TYPE_CMD \<Rightarrow> H2C_CMD_LEN | H2CB_TYPE_DATA \<Rightarrow> H2C_DATA_LEN
     | H2CB_TYPE_LONG_DATA \<Rightarrow> H2C_LONG_DATA_LEN | H2CB_TYPE_MAX \<Rightarrow> 0)"

text \<open>The size class a packet of the array was allocated with.\<close>

definition h2c_class :: "ptr \<Rightarrow> rtw_h2c_pkt_type" where
  "h2c_class i = (if i < H2CB_CMD_QLEN then H2CB_TYPE_CMD
     else if i < H2CB_CMD_QLEN + H2CB_DATA_QLEN then H2CB_TYPE_DATA else H2CB_TYPE_LONG_DATA)"

definition h2c_idle :: "rtw_h2c_pkt_type \<Rightarrow> phl_h2c_pkt_pool \<Rightarrow> ptr phl_queue" where
  "h2c_idle t pool = (case t of H2CB_TYPE_CMD \<Rightarrow> idle_h2c_pkt_cmd_list pool
     | H2CB_TYPE_DATA \<Rightarrow> idle_h2c_pkt_data_list pool | H2CB_TYPE_LONG_DATA \<Rightarrow> idle_h2c_pkt_ldata_list pool
     | H2CB_TYPE_MAX \<Rightarrow> pq_init)"

definition h2c_clean :: "rtw_h2c_pkt \<Rightarrow> bool" where
  "h2c_clean p \<longleftrightarrow> h_vir_data p = FWCMD_HDR_LEN + WD_BODY_LEN \<and> h_vir_tail p = h_vir_data p \<and>
     h_vir_end p = h_vir_data p + h2c_size (h_type p) \<and> h_buf_len p = h_vir_end p"

text \<open>
  Idle, busy and held packets are the whole array, each once; a packet keeps its size class, the idle
  list of a class has packets of that class only, ready for use.
\<close>

definition h2c_inv :: "ptr multiset \<Rightarrow> phl_h2c_pkt_pool \<Rightarrow> bool" where
  "h2c_inv held pool \<longleftrightarrow>
     (\<forall>t. pq_wf (h2c_idle t pool) \<and>
        (\<forall>p\<in>set (queue (h2c_idle t pool)). h_type (h2c_pkts pool p) = t \<and> h2c_clean (h2c_pkts pool p))) \<and>
     pq_wf (busy_h2c_pkt_list pool) \<and>
     mset (queue (idle_h2c_pkt_cmd_list pool)) + mset (queue (idle_h2c_pkt_data_list pool)) +
       mset (queue (idle_h2c_pkt_ldata_list pool)) + mset (queue (busy_h2c_pkt_list pool)) + held =
       mset [0..<MAX_H2C_PKT_NUM] \<and>
     (\<forall>p<MAX_H2C_PKT_NUM. h_type (h2c_pkts pool p) = h2c_class p)"

definition set_idle :: "rtw_h2c_pkt_type \<Rightarrow> ptr phl_queue \<Rightarrow> phl_h2c_pkt_pool \<Rightarrow> phl_h2c_pkt_pool" where
  "set_idle t q pool = (case t of H2CB_TYPE_CMD \<Rightarrow> pool\<lparr>idle_h2c_pkt_cmd_list := q\<rparr>
     | H2CB_TYPE_DATA \<Rightarrow> pool\<lparr>idle_h2c_pkt_data_list := q\<rparr>
     | H2CB_TYPE_LONG_DATA \<Rightarrow> pool\<lparr>idle_h2c_pkt_ldata_list := q\<rparr> | H2CB_TYPE_MAX \<Rightarrow> pool)"

definition all_idle :: "phl_h2c_pkt_pool \<Rightarrow> ptr multiset" where
  "all_idle pool = mset (queue (idle_h2c_pkt_cmd_list pool)) + mset (queue (idle_h2c_pkt_data_list pool)) +
     mset (queue (idle_h2c_pkt_ldata_list pool))"

lemma set_idle_simps [simp]:
  "h2c_idle t (set_idle t' q pool) = (if t = t' \<and> t \<noteq> H2CB_TYPE_MAX then q else h2c_idle t pool)"
  "h2c_pkts (set_idle t q pool) = h2c_pkts pool" "busy_h2c_pkt_list (set_idle t q pool) = busy_h2c_pkt_list pool"
  "h2c_idle t (upd_h2c p f pool) = h2c_idle t pool" "busy_h2c_pkt_list (upd_h2c p f pool) = busy_h2c_pkt_list pool"
  "h2c_pkts (upd_h2c p f pool) = (h2c_pkts pool)(p := f (h2c_pkts pool p))" "all_idle (upd_h2c p f pool) = all_idle pool"
  by (cases t; cases t'; simp add: h2c_idle_def set_idle_def upd_h2c_def all_idle_def)+

lemma all_idle_set:
  "t \<noteq> H2CB_TYPE_MAX \<Longrightarrow> all_idle (set_idle t q pool) + mset (queue (h2c_idle t pool)) = all_idle pool + mset (queue q)"
  by (cases t) (simp_all add: all_idle_def set_idle_def h2c_idle_def ac_simps)

lemma query_idle_eq:
  "t \<noteq> H2CB_TYPE_MAX \<Longrightarrow>
   phl_query_idle_h2c_pkt t pool = (case dequeue_h2c_pkt (h2c_idle t pool) of (q, r) \<Rightarrow> Some (set_idle t q pool, r))"
  by (cases t) (simp_all add: phl_query_idle_h2c_pkt_def h2c_idle_def set_idle_def)

lemma enqueue_idle_eq:
  assumes "h_type (h2c_pkts pool p) = t" and "t \<noteq> H2CB_TYPE_MAX"
  shows "phl_enqueue_idle_h2c_pkt (Some p) pool =
     Some (set_idle t (fst (enqueue_h2c_pkt (h2c_idle t pool) (Some p) Tail))
             (upd_h2c p (phl_reset_h2c_pkt (FWCMD_HDR_LEN + WD_BODY_LEN + h2c_size t)) pool), RTW_PHL_STATUS_SUCCESS)"
  using assms
  by (cases t) (simp_all add: phl_enqueue_idle_h2c_pkt_def h2c_idle_def set_idle_def enqueue_h2c_pkt_def h2c_size_def
      upd_h2c_def Let_def)

lemma h2c_inv_alt:
  "h2c_inv held pool \<longleftrightarrow>
     (\<forall>t. pq_wf (h2c_idle t pool) \<and>
        (\<forall>p\<in>set (queue (h2c_idle t pool)). h_type (h2c_pkts pool p) = t \<and> h2c_clean (h2c_pkts pool p))) \<and>
     pq_wf (busy_h2c_pkt_list pool) \<and>
     all_idle pool + mset (queue (busy_h2c_pkt_list pool)) + held = mset [0..<MAX_H2C_PKT_NUM] \<and>
     (\<forall>p<MAX_H2C_PKT_NUM. h_type (h2c_pkts pool p) = h2c_class p)"
  by (simp add: h2c_inv_def all_idle_def)

lemma idle_sub_all: "p \<in> set (queue (h2c_idle t pool)) \<Longrightarrow> p \<in># all_idle pool"
  by (cases t) (auto simp: h2c_idle_def all_idle_def pq_init_def)

lemma h2c_facts:
  assumes "h2c_inv held pool"
  shows "\<And>p. p \<in># held \<Longrightarrow> p < MAX_H2C_PKT_NUM" "\<And>p t. p \<in># held \<Longrightarrow> p \<notin> set (queue (h2c_idle t pool))"
    "\<And>p. p \<in># held \<Longrightarrow> h_type (h2c_pkts pool p) = h2c_class p" "\<And>p. h2c_class p \<noteq> H2CB_TYPE_MAX"
proof -
  have m: "all_idle pool + mset (queue (busy_h2c_pkt_list pool)) + held = mset [0..<MAX_H2C_PKT_NUM]"
    using assms by (simp add: h2c_inv_alt)
  show r: "p < MAX_H2C_PKT_NUM" if "p \<in># held" for p
    using that arg_cong [OF m, of set_mset] by auto
  show "p \<notin> set (queue (h2c_idle t pool))" if "p \<in># held" for p t
  proof
    assume "p \<in> set (queue (h2c_idle t pool))"
    then have "p \<in># all_idle pool" by (rule idle_sub_all)
    then have "1 < count (mset [0..<MAX_H2C_PKT_NUM]) p"
      using that unfolding m [symmetric] by (simp add: count_greater_zero_iff [symmetric] del: count_greater_zero_iff)
    then show False by (metis distinct_count_atmost_1 distinct_upt less_irrefl less_numeral_extra(3) not_one_less_zero)
  qed
  show "h_type (h2c_pkts pool p) = h2c_class p" if "p \<in># held" for p using assms r [OF that] by (simp add: h2c_inv_alt)
  show "h2c_class p \<noteq> H2CB_TYPE_MAX" for p by (simp add: h2c_class_def)
qed

lemma query_idle:
  assumes inv: "h2c_inv held pool" and t: "t \<noteq> H2CB_TYPE_MAX"
  shows "\<exists>pool' r. phl_query_idle_h2c_pkt t pool = Some (pool', r) \<and>
     (case r of None \<Rightarrow> queue (h2c_idle t pool) = [] \<and> pool' = pool
      | Some p \<Rightarrow> h2c_inv (add_mset p held) pool' \<and> h_type (h2c_pkts pool' p) = t \<and> h2c_clean (h2c_pkts pool' p))"
proof (cases "queue (h2c_idle t pool)")
  case Nil
  then have "set_idle t (h2c_idle t pool) pool = pool" by (cases t) (simp_all add: set_idle_def h2c_idle_def)
  then show ?thesis using Nil t by (simp add: query_idle_eq dequeue_h2c_pkt_def)
next
  case (Cons p ps)
  let ?q = "(h2c_idle t pool)\<lparr>queue := ps, cnt := cnt (h2c_idle t pool) - 1\<rparr>"
  have "all_idle (set_idle t ?q pool) + mset (p # ps) = all_idle pool + mset ps"
    using all_idle_set [OF t, of ?q pool] Cons by simp
  then have "add_mset p (all_idle (set_idle t ?q pool)) = all_idle pool" by simp
  moreover have "all_idle pool + mset (queue (busy_h2c_pkt_list pool)) + held = mset [0..<MAX_H2C_PKT_NUM]"
    using inv by (simp add: h2c_inv_alt)
  ultimately have m: "all_idle (set_idle t ?q pool) + mset (queue (busy_h2c_pkt_list pool)) + add_mset p held =
      mset [0..<MAX_H2C_PKT_NUM]" by (metis add_mset_add_single union_assoc union_commute)
  have q: "pq_wf ?q" "\<forall>x\<in>set ps. h_type (h2c_pkts pool x) = t \<and> h2c_clean (h2c_pkts pool x)"
    using inv Cons by (auto simp: h2c_inv_alt pq_wf_def dest: spec [of _ t])
  have "h2c_inv (add_mset p held) (set_idle t ?q pool)"
    using inv m q by (simp add: h2c_inv_alt)
  moreover have "h_type (h2c_pkts pool p) = t" "h2c_clean (h2c_pkts pool p)"
    using inv Cons by (auto simp: h2c_inv_alt dest: spec [of _ t])
  ultimately show ?thesis using Cons t by (simp add: query_idle_eq dequeue_h2c_pkt_def)
qed

lemma enqueue_idle:
  assumes inv: "h2c_inv (add_mset p held) pool"
  shows "\<exists>pool'. phl_enqueue_idle_h2c_pkt (Some p) pool = Some (pool', RTW_PHL_STATUS_SUCCESS) \<and> h2c_inv held pool' \<and>
     queue (h2c_idle (h2c_class p) pool') = queue (h2c_idle (h2c_class p) pool) @ [p]"
proof -
  let ?t = "h2c_class p"
  have t: "h_type (h2c_pkts pool p) = ?t" "?t \<noteq> H2CB_TYPE_MAX" using h2c_facts(3,4) [OF inv, of p] by simp_all
  let ?f = "phl_reset_h2c_pkt (FWCMD_HDR_LEN + WD_BODY_LEN + h2c_size ?t)"
  let ?q = "fst (enqueue_h2c_pkt (h2c_idle ?t pool) (Some p) Tail)"
  let ?pool = "set_idle ?t ?q (upd_h2c p ?f pool)"
  have f: "h_type (?f (h2c_pkts pool p)) = ?t" "h2c_clean (?f (h2c_pkts pool p))"
    using t by (cases ?t; simp add: phl_reset_h2c_pkt_def h2c_clean_def h2c_size_def Let_def)+
  have np: "p \<notin> set (queue (h2c_idle t pool))" for t using h2c_facts(2) [OF inv, of p t] by simp
  have "all_idle ?pool + mset (queue (h2c_idle ?t pool)) = all_idle pool + mset (queue ?q)"
    using all_idle_set [OF t(2), of ?q "upd_h2c p ?f pool"] by simp
  then have "all_idle ?pool = add_mset p (all_idle pool)" by (simp add: enqueue_h2c_pkt_def)
  moreover have "pq_wf ?q" using inv by (simp add: h2c_inv_alt pq_wf_def enqueue_h2c_pkt_def)
  ultimately have "h2c_inv held ?pool"
    using inv f np by (auto simp: h2c_inv_alt enqueue_h2c_pkt_def)
  then show ?thesis using enqueue_idle_eq [OF t] t(2) by (simp add: enqueue_h2c_pkt_def)
qed

lemma busy_inv:
  "h2c_inv (add_mset p held) pool \<Longrightarrow> h2c_inv held (fst (phl_enqueue_busy_h2c_pkt (Some p) pos pool))"
  "h2c_inv held pool \<Longrightarrow> phl_query_busy_h2c_pkt pool = (pool', r) \<Longrightarrow>
   h2c_inv ((case r of None \<Rightarrow> {#} | Some p \<Rightarrow> {#p#}) + held) pool'"
proof -
  have f: "h2c_idle t (pool\<lparr>busy_h2c_pkt_list := q\<rparr>) = h2c_idle t pool"
    "all_idle (pool\<lparr>busy_h2c_pkt_list := q\<rparr>) = all_idle pool" for t q
    by (cases t; simp add: h2c_idle_def all_idle_def)+
  show "h2c_inv (add_mset p held) pool \<Longrightarrow> h2c_inv held (fst (phl_enqueue_busy_h2c_pkt (Some p) pos pool))"
    by (simp add: h2c_inv_alt phl_enqueue_busy_h2c_pkt_def enqueue_h2c_pkt_def f pq_wf_def)
  show "h2c_inv held pool \<Longrightarrow> phl_query_busy_h2c_pkt pool = (pool', r) \<Longrightarrow>
      h2c_inv ((case r of None \<Rightarrow> {#} | Some p \<Rightarrow> {#p#}) + held) pool'"
    by (auto simp: h2c_inv_alt phl_query_busy_h2c_pkt_def dequeue_h2c_pkt_def f pq_wf_def split: list.splits)
qed

section \<open>Setting the pool up\<close>

text \<open>The pool after the first \<open>n\<close> packets are set up.\<close>

definition h2c_upto :: "nat \<Rightarrow> phl_h2c_pkt_pool \<Rightarrow> bool" where
  "h2c_upto n pool \<longleftrightarrow>
     (\<forall>t. pq_wf (h2c_idle t pool) \<and>
        (\<forall>p\<in>set (queue (h2c_idle t pool)). p < n \<and> h_type (h2c_pkts pool p) = t \<and> h2c_clean (h2c_pkts pool p))) \<and>
     busy_h2c_pkt_list pool = pq_init \<and> all_idle pool = mset [0..<n] \<and>
     (\<forall>p<n. h_type (h2c_pkts pool p) = h2c_class p)"

definition setup_h2c :: "ptr \<Rightarrow> rtw_h2c_pkt \<Rightarrow> rtw_h2c_pkt" where
  "setup_h2c i p = p\<lparr>h_buf_len := FWCMD_HDR_LEN + WD_BODY_LEN + h2c_size (h2c_class i),
     h_vir_data := FWCMD_HDR_LEN + WD_BODY_LEN, h_vir_tail := FWCMD_HDR_LEN + WD_BODY_LEN, h_type := h2c_class i,
     h_vir_end := FWCMD_HDR_LEN + WD_BODY_LEN + h2c_size (h2c_class i)\<rparr>"

lemma setup_h2c_clean: "h_type (setup_h2c i p) = h2c_class i" "h2c_clean (setup_h2c i p)"
  by (simp_all add: setup_h2c_def h2c_clean_def)

lemma alloc_h2c_loop_step:
  "buf_alloc i \<Longrightarrow> alloc_h2c_loop buf_alloc (i # is) n pool =
     alloc_h2c_loop buf_alloc is (n + 1)
       (set_idle (h2c_class i) (fst (enqueue_h2c_pkt (h2c_idle (h2c_class i) pool) (Some i) Tail))
          (upd_h2c i (setup_h2c i) pool))"
  by (simp add: h2c_class_def set_idle_def h2c_idle_def upd_h2c_def setup_h2c_def get_h2c_size_by_range_def
      h2c_size_def Let_def)

lemma upto_step:
  assumes "h2c_upto i pool"
  shows "h2c_upto (Suc i) (set_idle (h2c_class i) (fst (enqueue_h2c_pkt (h2c_idle (h2c_class i) pool) (Some i) Tail))
           (upd_h2c i (setup_h2c i) pool))" (is "h2c_upto _ ?pool")
proof -
  let ?t = "h2c_class i"
  let ?q = "fst (enqueue_h2c_pkt (h2c_idle ?t pool) (Some i) Tail)"
  have t: "?t \<noteq> H2CB_TYPE_MAX" by (simp add: h2c_class_def)
  have lt: "p < i" if "p \<in> set (queue (h2c_idle t pool))" for p t using assms that by (auto simp: h2c_upto_def)
  have "all_idle ?pool + mset (queue (h2c_idle ?t pool)) = all_idle pool + mset (queue ?q)"
    using all_idle_set [OF t, of ?q "upd_h2c i (setup_h2c i) pool"] by simp
  then have m: "all_idle ?pool = mset [0..<Suc i]" using assms by (simp add: enqueue_h2c_pkt_def h2c_upto_def)
  have w: "pq_wf ?q" using assms by (simp add: h2c_upto_def pq_wf_def enqueue_h2c_pkt_def)
  have q: "queue ?q = queue (h2c_idle ?t pool) @ [i]" by (simp add: enqueue_h2c_pkt_def)
  have pk: "\<forall>p\<in>set (queue (h2c_idle t ?pool)). p < Suc i \<and> h_type (h2c_pkts ?pool p) = t \<and> h2c_clean (h2c_pkts ?pool p)" for t
    using assms lt [of _ t] t by (auto simp: q setup_h2c_clean h2c_upto_def less_SucI)
  show ?thesis unfolding h2c_upto_def using assms m w pk t
    by (simp add: h2c_upto_def setup_h2c_clean less_Suc_eq)
qed

lemma alloc_h2c_loop_all:
  "h2c_upto i pool \<Longrightarrow> \<forall>j. i \<le> j \<and> j < i + k \<longrightarrow> buf_alloc j \<Longrightarrow> 0 < n + k \<Longrightarrow>
   \<exists>pool'. alloc_h2c_loop buf_alloc [i..<i + k] n pool = (pool', n + k, RTW_PHL_STATUS_SUCCESS) \<and> h2c_upto (i + k) pool'"
proof (induction k arbitrary: i n pool)
  case 0
  then show ?case by simp
next
  case (Suc k)
  have u: "[i..<i + Suc k] = i # [Suc i..<Suc i + k]" by (simp add: upt_conv_Cons)
  have "buf_alloc i" using Suc.prems by simp
  note step = alloc_h2c_loop_step [of buf_alloc i "[Suc i..<Suc i + k]" n pool, OF this]
  show ?case unfolding u step
    using Suc.IH [OF upto_step [OF Suc.prems(1)], of "n + 1"] Suc.prems(2) by auto
qed

lemma alloc_h2c_loop_stops:
  "\<forall>j. i \<le> j \<and> j < k \<longrightarrow> buf_alloc j \<Longrightarrow> i \<le> k \<Longrightarrow> k < m \<Longrightarrow> \<not> buf_alloc k \<Longrightarrow>
   \<exists>pool'. alloc_h2c_loop buf_alloc [i..<m] n pool = (pool', n + (k - i), RTW_PHL_STATUS_RESOURCE)"
proof (induction "k - i" arbitrary: i n pool)
  case 0
  then show ?case by (auto simp: upt_conv_Cons)
next
  case (Suc x)
  then have i: "buf_alloc i" "i < k" by auto
  have "\<exists>pool'. alloc_h2c_loop buf_alloc [Suc i..<m] (n + 1) pl = (pool', n + 1 + (k - Suc i), RTW_PHL_STATUS_RESOURCE)" for pl
    using Suc.hyps(1) [of "Suc i" "n + 1" pl] Suc.hyps(2) Suc.prems i by simp
  moreover have "[i..<m] = i # [Suc i..<m]" using i Suc.prems by (simp add: upt_conv_Cons)
  ultimately show ?case using i by (simp add: alloc_h2c_loop_step Suc_diff_Suc del: alloc_h2c_loop.simps(2))
qed

lemma free_h2c_loop_none: "\<not> has_buf j \<Longrightarrow> free_h2c_loop n j has_buf = []"
  by (induction n) simp_all

lemma free_h2c_loop_prefix:
  "(\<forall>i. i \<ge> j \<longrightarrow> (has_buf i \<longleftrightarrow> i < k)) \<Longrightarrow> j \<le> k \<Longrightarrow> k \<le> j + n \<Longrightarrow> free_h2c_loop n j has_buf = [j..<k]"
proof (induction n arbitrary: j has_buf)
  case 0
  then show ?case by simp
next
  case (Suc n)
  show ?case
  proof (cases "j < k")
    case True
    then show ?thesis using Suc.IH [of "j + 1" "has_buf(j := False)"] Suc.prems
      by (simp add: upt_conv_Cons fun_upd_def)
  next
    case False
    then show ?thesis using Suc.prems by (simp add: free_h2c_loop_none)
  qed
qed

lemma upto_inv: "h2c_upto MAX_H2C_PKT_NUM pool \<Longrightarrow> h2c_inv {#} pool"
  by (simp add: h2c_upto_def h2c_inv_alt pq_init_def pq_wf_def)

lemma h2c_upto_init:
  "h2c_upto 0 \<lparr>h2c_pkts = mem, idle_h2c_pkt_cmd_list = pq_init, idle_h2c_pkt_data_list = pq_init,
     idle_h2c_pkt_ldata_list = pq_init, busy_h2c_pkt_list = pq_init\<rparr>"
proof -
  have "h2c_idle t \<lparr>h2c_pkts = mem, idle_h2c_pkt_cmd_list = pq_init, idle_h2c_pkt_data_list = pq_init,
     idle_h2c_pkt_ldata_list = pq_init, busy_h2c_pkt_list = pq_init\<rparr> = pq_init" for t
    by (cases t) (simp_all add: h2c_idle_def)
  then show ?thesis by (simp add: h2c_upto_def all_idle_def pq_init_def pq_wf_def)
qed

lemma alloc_pool_ok:
  assumes "\<forall>i<MAX_H2C_PKT_NUM. buf_alloc i"
  shows "\<exists>pool. phl_alloc_h2c_pool True True buf_alloc mem = (Some pool, RTW_PHL_STATUS_SUCCESS, []) \<and> h2c_inv {#} pool"
proof -
  have "0 < MAX_H2C_PKT_NUM" by (simp add: MAX_H2C_PKT_NUM_def H2CB_CMD_QLEN_def)
  then obtain pool' where "alloc_h2c_loop buf_alloc [0..<MAX_H2C_PKT_NUM] 0
      \<lparr>h2c_pkts = mem, idle_h2c_pkt_cmd_list = pq_init, idle_h2c_pkt_data_list = pq_init,
       idle_h2c_pkt_ldata_list = pq_init, busy_h2c_pkt_list = pq_init\<rparr> =
      (pool', MAX_H2C_PKT_NUM, RTW_PHL_STATUS_SUCCESS)" "h2c_upto MAX_H2C_PKT_NUM pool'"
    using alloc_h2c_loop_all [OF h2c_upto_init, of MAX_H2C_PKT_NUM buf_alloc 0 mem] assms by auto
  then show ?thesis by (simp add: phl_alloc_h2c_pool_def upto_inv)
qed

lemma alloc_pool_fails:
  assumes "k < MAX_H2C_PKT_NUM" "\<not> buf_alloc k" "\<forall>j<k. buf_alloc j"
  shows "phl_alloc_h2c_pool True True buf_alloc mem = (None, RTW_PHL_STATUS_RESOURCE, [0..<k])"
proof -
  obtain pool' where "alloc_h2c_loop buf_alloc [0..<MAX_H2C_PKT_NUM] 0
      \<lparr>h2c_pkts = mem, idle_h2c_pkt_cmd_list = pq_init, idle_h2c_pkt_data_list = pq_init,
       idle_h2c_pkt_ldata_list = pq_init, busy_h2c_pkt_list = pq_init\<rparr> =
      (pool', k, RTW_PHL_STATUS_RESOURCE)"
    using alloc_h2c_loop_stops [of 0 k buf_alloc MAX_H2C_PKT_NUM 0
        "\<lparr>h2c_pkts = mem, idle_h2c_pkt_cmd_list = pq_init, idle_h2c_pkt_data_list = pq_init,
          idle_h2c_pkt_ldata_list = pq_init, busy_h2c_pkt_list = pq_init\<rparr>"] assms by auto
  moreover have "free_h2c_loop MAX_H2C_PKT_NUM 0 (\<lambda>i. i < k) = [0..<k]"
    using free_h2c_loop_prefix [of 0 "\<lambda>i. i < k" k MAX_H2C_PKT_NUM] assms by simp
  ultimately show ?thesis by (simp add: phl_alloc_h2c_pool_def phl_free_h2c_pkt_def)
qed

section \<open>Runs of the pool\<close>

text \<open>
  A state is the packets held outside the pool and the pool. A holder asks for a packet of a class,
  fills its own packet (never its class), puts it on the busy list, takes the oldest busy packet, or
  gives a packet back.
\<close>

inductive h2c_step :: "ptr multiset \<times> phl_h2c_pkt_pool \<Rightarrow> ptr multiset \<times> phl_h2c_pkt_pool \<Rightarrow> bool" where
  ask: "rtw_phl_query_h2c_pkt t pool = Some (pool', Some p) \<Longrightarrow> h2c_step (held, pool) (add_mset p held, pool')"
| fill: "p \<in># held \<Longrightarrow> h_type (f (h2c_pkts pool p)) = h_type (h2c_pkts pool p) \<Longrightarrow>
    h2c_step (held, pool) (held, upd_h2c p f pool)"
| send: "p \<in># held \<Longrightarrow> phl_enqueue_busy_h2c_pkt (Some p) pos pool = (pool', s) \<Longrightarrow>
    h2c_step (held, pool) (held - {#p#}, pool')"
| recycle: "phl_query_busy_h2c_pkt pool = (pool', Some p) \<Longrightarrow> h2c_step (held, pool) (add_mset p held, pool')"
| give: "p \<in># held \<Longrightarrow> phl_enqueue_idle_h2c_pkt (Some p) pool = Some (pool', s) \<Longrightarrow>
    h2c_step (held, pool) (held - {#p#}, pool')"

lemma fill_inv:
  assumes inv: "h2c_inv held pool" and p: "p \<in># held" "h_type (f (h2c_pkts pool p)) = h_type (h2c_pkts pool p)"
  shows "h2c_inv held (upd_h2c p f pool)"
proof -
  have "x \<noteq> p" if "x \<in> set (queue (h2c_idle t pool))" for x t using h2c_facts(2) [OF inv p(1)] that by blast
  then show ?thesis using inv p by (auto simp: h2c_inv_alt)
qed

lemma h2c_step_inv: "h2c_step s s' \<Longrightarrow> h2c_inv (fst s) (snd s) \<Longrightarrow> h2c_inv (fst s') (snd s')"
proof (induction rule: h2c_step.induct)
  case (ask t pool pool' p held)
  have "t \<noteq> H2CB_TYPE_MAX" using ask(1) by (auto simp: rtw_phl_query_h2c_pkt_def phl_query_idle_h2c_pkt_def)
  then show ?case using query_idle [of held pool t] ask by (auto simp: rtw_phl_query_h2c_pkt_def)
next
  case (fill p held f pool)
  then show ?case using fill_inv by simp
next
  case (send p held pos pool pool' s)
  then show ?case using busy_inv(1) [of p "held - {#p#}" pool pos] by simp
next
  case (recycle pool pool' p held)
  then show ?case using busy_inv(2) [of held pool pool' "Some p"] by simp
next
  case (give p held pool pool' s)
  then show ?case using enqueue_idle [of p "held - {#p#}" pool] by auto
qed

interpretation h2c_run: step_invariant h2c_step "\<lambda>s. h2c_inv (fst s) (snd s)"
  by unfold_locales (rule h2c_step_inv)

lemma alloc_pool_inv:
  assumes "phl_alloc_h2c_pool pool_alloc root_alloc buf_alloc mem = (Some pool, st, fr)"
  shows "h2c_inv {#} pool" "\<forall>i<MAX_H2C_PKT_NUM. buf_alloc i"
proof -
  have a: "pool_alloc" "root_alloc" using assms by (auto simp: phl_alloc_h2c_pool_def split: if_splits)
  show b: "\<forall>i<MAX_H2C_PKT_NUM. buf_alloc i"
  proof (rule ccontr)
    assume "\<not> (\<forall>i<MAX_H2C_PKT_NUM. buf_alloc i)"
    then obtain k where "k < MAX_H2C_PKT_NUM" "\<not> buf_alloc k" "\<forall>j<k. buf_alloc j"
      using exists_least_iff [of "\<lambda>i. i < MAX_H2C_PKT_NUM \<and> \<not> buf_alloc i"] by (meson less_trans)
    then show False using alloc_pool_fails [of k buf_alloc mem] assms a by simp
  qed
  show "h2c_inv {#} pool" using alloc_pool_ok [OF b, of mem] assms a by auto
qed

lemma held_once: "h2c_inv (add_mset p held) pool \<Longrightarrow> p \<notin># held \<and> p < MAX_H2C_PKT_NUM"
proof
  assume inv: "h2c_inv (add_mset p held) pool"
  show "p < MAX_H2C_PKT_NUM" using h2c_facts(1) [OF inv] by simp
  have "count (add_mset p held) p \<le> count (mset [0..<MAX_H2C_PKT_NUM]) p"
    using inv unfolding h2c_inv_alt by (metis mset_subset_eq_add_right subseteq_mset_def)
  then show "p \<notin># held" using distinct_upt [of 0 MAX_H2C_PKT_NUM] unfolding distinct_count_atmost_1
    by (auto simp: count_eq_zero_iff [symmetric] simp del: mset_upt split: if_splits)
qed

lemma idle_class: "h2c_inv held pool \<Longrightarrow> p \<in> set (queue (h2c_idle t pool)) \<Longrightarrow> h2c_class p = t"
proof -
  assume inv: "h2c_inv held pool" and p: "p \<in> set (queue (h2c_idle t pool))"
  have "p \<in># mset [0..<MAX_H2C_PKT_NUM]"
    using idle_sub_all [OF p] inv unfolding h2c_inv_alt by (metis union_iff)
  then show ?thesis using inv p by (auto simp: h2c_inv_alt)
qed

lemma class_size: "get_h2c_size_by_range p = FWCMD_HDR_LEN + WD_BODY_LEN + h2c_size (h2c_class p)"
  by (simp add: get_h2c_size_by_range_def h2c_class_def h2c_size_def)

lemma fresh_pool_idle:
  assumes "phl_alloc_h2c_pool True True buf_alloc mem = (Some pool, RTW_PHL_STATUS_SUCCESS, fr)"
  shows "mset (queue (idle_h2c_pkt_cmd_list pool)) + mset (queue (idle_h2c_pkt_data_list pool)) +
    mset (queue (idle_h2c_pkt_ldata_list pool)) = mset [0..<MAX_H2C_PKT_NUM]"
proof -
  have "0 < MAX_H2C_PKT_NUM" by (simp add: MAX_H2C_PKT_NUM_def H2CB_CMD_QLEN_def)
  then obtain pool' where "alloc_h2c_loop buf_alloc [0..<MAX_H2C_PKT_NUM] 0
      \<lparr>h2c_pkts = mem, idle_h2c_pkt_cmd_list = pq_init, idle_h2c_pkt_data_list = pq_init,
       idle_h2c_pkt_ldata_list = pq_init, busy_h2c_pkt_list = pq_init\<rparr> =
      (pool', MAX_H2C_PKT_NUM, RTW_PHL_STATUS_SUCCESS)" "h2c_upto MAX_H2C_PKT_NUM pool'"
    using alloc_h2c_loop_all [OF h2c_upto_init, of MAX_H2C_PKT_NUM buf_alloc 0 mem] alloc_pool_inv(2) [OF assms] by auto
  then show ?thesis using assms by (simp add: phl_alloc_h2c_pool_def h2c_upto_def all_idle_def)
qed

text \<open>
  C21: the H2C packet pool stays typed and loses no packet. In every state reached from a freshly allocated pool,
  each of the 264 packets is in exactly one place: in the idle list of the size class it was allocated with, on the
  busy list, or held. A request
  for a size class gives nothing only when the idle list of the class is empty; otherwise it gives a
  packet of that class that nobody holds, empty, with room for the whole payload of the class between
  its data pointer and the end of the buffer it was allocated with; and every held packet can be given
  back, which appends it to the idle list of its class.
\<close>

theorem h2c_pool_typed:
  assumes "phl_alloc_h2c_pool True True buf_alloc mem = (Some pool0, RTW_PHL_STATUS_SUCCESS, fr)"
    and "h2c_step\<^sup>*\<^sup>* ({#}, pool0) (held, pool)" and "t \<noteq> H2CB_TYPE_MAX"
  shows "mset (queue (idle_h2c_pkt_cmd_list pool)) + mset (queue (idle_h2c_pkt_data_list pool)) +
       mset (queue (idle_h2c_pkt_ldata_list pool)) + mset (queue (busy_h2c_pkt_list pool)) + held =
       mset [0..<MAX_H2C_PKT_NUM] \<and>
    list_all (\<lambda>p. h2c_class p = H2CB_TYPE_CMD) (queue (idle_h2c_pkt_cmd_list pool)) \<and>
    list_all (\<lambda>p. h2c_class p = H2CB_TYPE_DATA) (queue (idle_h2c_pkt_data_list pool)) \<and>
    list_all (\<lambda>p. h2c_class p = H2CB_TYPE_LONG_DATA) (queue (idle_h2c_pkt_ldata_list pool)) \<and>
    (\<exists>pool' r. rtw_phl_query_h2c_pkt t pool = Some (pool', r) \<and>
     (case r of None \<Rightarrow> queue (h2c_idle t pool) = []
      | Some p \<Rightarrow> p \<notin># held \<and> h_type (h2c_pkts pool' p) = t \<and> h_vir_tail (h2c_pkts pool' p) = h_vir_data (h2c_pkts pool' p) \<and>
          h_vir_end (h2c_pkts pool' p) = h_vir_data (h2c_pkts pool' p) + h2c_size t \<and>
          h_vir_end (h2c_pkts pool' p) = get_h2c_size_by_range p)) \<and>
    (\<forall>p\<in>#held. \<exists>pool'. phl_enqueue_idle_h2c_pkt (Some p) pool = Some (pool', RTW_PHL_STATUS_SUCCESS) \<and>
       queue (h2c_idle (h2c_class p) pool') = queue (h2c_idle (h2c_class p) pool) @ [p])"
proof -
  have inv: "h2c_inv held pool" using h2c_run.run_inv [OF assms(2)] alloc_pool_inv(1) [OF assms(1)] by simp
  obtain pool' r where q: "phl_query_idle_h2c_pkt t pool = Some (pool', r)"
    and r: "case r of None \<Rightarrow> queue (h2c_idle t pool) = [] \<and> pool' = pool
      | Some p \<Rightarrow> h2c_inv (add_mset p held) pool' \<and> h_type (h2c_pkts pool' p) = t \<and> h2c_clean (h2c_pkts pool' p)"
    using query_idle [OF inv assms(3)] by blast
  have "p \<notin># held \<and> h_type (h2c_pkts pool' p) = t \<and> h_vir_tail (h2c_pkts pool' p) = h_vir_data (h2c_pkts pool' p) \<and>
      h_vir_end (h2c_pkts pool' p) = h_vir_data (h2c_pkts pool' p) + h2c_size t \<and>
      h_vir_end (h2c_pkts pool' p) = get_h2c_size_by_range p" if "r = Some p" for p
  proof -
    have i: "h2c_inv (add_mset p held) pool'" and c: "h_type (h2c_pkts pool' p) = t" "h2c_clean (h2c_pkts pool' p)"
      using r that by simp_all
    show ?thesis using held_once [OF i] c h2c_facts(3) [OF i, of p] by (simp add: h2c_clean_def class_size)
  qed
  then have "\<exists>pool' r. rtw_phl_query_h2c_pkt t pool = Some (pool', r) \<and>
     (case r of None \<Rightarrow> queue (h2c_idle t pool) = []
      | Some p \<Rightarrow> p \<notin># held \<and> h_type (h2c_pkts pool' p) = t \<and> h_vir_tail (h2c_pkts pool' p) = h_vir_data (h2c_pkts pool' p) \<and>
          h_vir_end (h2c_pkts pool' p) = h_vir_data (h2c_pkts pool' p) + h2c_size t \<and>
          h_vir_end (h2c_pkts pool' p) = get_h2c_size_by_range p)"
    using q r by (auto simp: rtw_phl_query_h2c_pkt_def split: option.splits)
  moreover have "\<exists>pool'. phl_enqueue_idle_h2c_pkt (Some p) pool = Some (pool', RTW_PHL_STATUS_SUCCESS) \<and>
      queue (h2c_idle (h2c_class p) pool') = queue (h2c_idle (h2c_class p) pool) @ [p]" if "p \<in># held" for p
    using enqueue_idle [of p "held - {#p#}" pool] inv that by auto
  moreover have "mset (queue (idle_h2c_pkt_cmd_list pool)) + mset (queue (idle_h2c_pkt_data_list pool)) +
       mset (queue (idle_h2c_pkt_ldata_list pool)) + mset (queue (busy_h2c_pkt_list pool)) + held = mset [0..<MAX_H2C_PKT_NUM]"
    using inv by (simp add: h2c_inv_def)
  moreover have "list_all (\<lambda>p. h2c_class p = x) (queue (h2c_idle x pool))" for x
    using idle_class [OF inv, of _ x] by (simp add: list_all_iff)
  from this [of H2CB_TYPE_CMD] this [of H2CB_TYPE_DATA] this [of H2CB_TYPE_LONG_DATA]
  have "list_all (\<lambda>p. h2c_class p = H2CB_TYPE_CMD) (queue (idle_h2c_pkt_cmd_list pool))"
    "list_all (\<lambda>p. h2c_class p = H2CB_TYPE_DATA) (queue (idle_h2c_pkt_data_list pool))"
    "list_all (\<lambda>p. h2c_class p = H2CB_TYPE_LONG_DATA) (queue (idle_h2c_pkt_ldata_list pool))"
    by (simp_all add: h2c_idle_def)
  ultimately show ?thesis by blast
qed

definition ex_h2c_mem :: "ptr \<Rightarrow> rtw_h2c_pkt" where
  "ex_h2c_mem p = \<lparr>h_type = H2CB_TYPE_CMD, h_id = 0, h_buf_len = 0, h_data_len = 0, h_host_idx = 0, h_seq = 0,
     h_vir_data = 0, h_vir_tail = 0, h_vir_end = 0\<rparr>"

text \<open>A packet is taken from the fresh pool, held, and can be given back.\<close>

theorem h2c_pool_typed_witness:
  "\<exists>pool0 pool p. phl_alloc_h2c_pool True True (\<lambda>i. True) ex_h2c_mem = (Some pool0, RTW_PHL_STATUS_SUCCESS, []) \<and>
     h2c_step\<^sup>*\<^sup>* ({#}, pool0) ({#p#}, pool) \<and>
     mset (queue (idle_h2c_pkt_cmd_list pool)) + mset (queue (idle_h2c_pkt_data_list pool)) +
       mset (queue (idle_h2c_pkt_ldata_list pool)) + mset (queue (busy_h2c_pkt_list pool)) + {#p#} =
       mset [0..<MAX_H2C_PKT_NUM] \<and>
     (\<exists>pool'. phl_enqueue_idle_h2c_pkt (Some p) pool = Some (pool', RTW_PHL_STATUS_SUCCESS) \<and>
        queue (h2c_idle (h2c_class p) pool') = queue (h2c_idle (h2c_class p) pool) @ [p])"
proof -
  obtain pool0 where p0: "phl_alloc_h2c_pool True True (\<lambda>i. True) ex_h2c_mem = (Some pool0, RTW_PHL_STATUS_SUCCESS, [])"
    and inv: "h2c_inv {#} pool0" using alloc_pool_ok [of "\<lambda>i. True" ex_h2c_mem] by auto
  have ne: "H2CB_TYPE_DATA \<noteq> H2CB_TYPE_MAX" by simp
  have "32 \<in># mset (queue (idle_h2c_pkt_cmd_list pool0)) + mset (queue (idle_h2c_pkt_data_list pool0)) +
      mset (queue (idle_h2c_pkt_ldata_list pool0))"
    using fresh_pool_idle [OF p0] by (simp add: MAX_H2C_PKT_NUM_def H2CB_CMD_QLEN_def H2CB_DATA_QLEN_def)
  moreover note c = h2c_pool_typed [OF p0 rtranclp.rtrancl_refl ne]
  ultimately have "queue (h2c_idle H2CB_TYPE_DATA pool0) \<noteq> []"
    by (auto simp: h2c_idle_def list_all_iff h2c_class_def H2CB_CMD_QLEN_def H2CB_DATA_QLEN_def)
  then obtain pool p where q: "rtw_phl_query_h2c_pkt H2CB_TYPE_DATA pool0 = Some (pool, Some p)" using c by (auto split: option.splits)
  have run: "h2c_step\<^sup>*\<^sup>* ({#}, pool0) ({#p#}, pool)" using h2c_step.ask [OF q, of "{#}"] by simp
  from h2c_pool_typed [OF p0 run ne] p0 run show ?thesis by (intro exI [of _ pool0] exI [of _ pool] exI [of _ p]) simp
qed

end
