(* ===== verification/Phl_Usb_Tx.thy ===== *)
theory Phl_Usb_Tx
  imports Mac_Txdesc Phl_H2c Phl_Tring Phl_Datapath
begin

text \<open>
  Transmission over USB, \<^verbatim>\<open>phl/hci/phl_trx_usb.c\<close>: the pools of transmit buffers, the aggregation of
  the requests of one ring into one bulk transfer, the transmit handler and the transfer of command
  packets.

  A transmit buffer is the list of its bytes; a write past its end is \<^const>\<open>None\<close>, as is an index outside
  the tables of the descriptor builder and a remainder by a bulk size of zero. A request is found through
  a store by its pointer; a fragment of it without an address is \<^const>\<open>None\<close>. The result of the bus driver
  is an argument. The build has \<^verbatim>\<open>CONFIG_PHL_USB_TX_AGGREGATION\<close> and \<^verbatim>\<open>RTW_WKARD_USB_TXAGG_BULK_END_WD\<close>
  and not \<^verbatim>\<open>CONFIG_PHL_USB_TX_PADDING_CHK\<close>, so \<^verbatim>\<open>last_idx\<close> stays \<^verbatim>\<open>IDX_NONE\<close> and no dummy is added by the
  aggregation.
\<close>

section \<open>Buffers\<close>

record phl_usb_buf =
  ub_buffer :: "u8w list"
  ub_h2c :: "ptr option"
  ub_type :: rtw_packet_type

record phl_usb_tx_buf_resource =
  idle_txbuf_list :: "ptr phl_queue"
  mgmt_txbuf_list :: "ptr phl_queue"
  h2c_txbuf_list :: "ptr phl_queue"

record bus_cap_t =
  tx_buf_size :: nat
  tx_buf_num :: nat
  tx_mgnt_buf_size :: nat
  tx_mgnt_buf_num :: nat
  tx_h2c_buf_num :: nat

definition enqueue_usb_buf :: "ptr phl_queue \<Rightarrow> ptr option \<Rightarrow> list_pos \<Rightarrow> ptr phl_queue \<times> rtw_phl_status" where
  "enqueue_usb_buf q usb_buf pos =
     (case usb_buf of None \<Rightarrow> (q, RTW_PHL_STATUS_FAILURE)
      | Some p \<Rightarrow>
          (q\<lparr>queue := (if pos = Tail then queue q @ [p] else p # queue q), cnt := cnt q + 1\<rparr>,
           RTW_PHL_STATUS_SUCCESS))"

definition dequeue_usb_buf :: "ptr phl_queue \<Rightarrow> ptr phl_queue \<times> ptr option" where
  "dequeue_usb_buf q =
     (case queue q of [] \<Rightarrow> (q, None)
      | p # ps \<Rightarrow> (q\<lparr>queue := ps, cnt := cnt q - 1\<rparr>, Some p))"

definition put_bytes :: "nat \<Rightarrow> u8w list \<Rightarrow> u8w list \<Rightarrow> u8w list option" where
  "put_bytes off bs buf =
     (if off + length bs \<le> length buf then Some (take off buf @ bs @ drop (off + length bs) buf) else None)"

section \<open>Requests\<close>

datatype rtw_treq_type = RTW_PHL_TREQ_TYPE_NORMAL | RTW_PHL_TREQ_TYPE_TEST_PATTERN | RTW_PHL_TREQ_TYPE_OTHER

record rtw_xmit_req =
  x_treq_type :: rtw_treq_type
  x_mdata :: rtw_t_meta_data
  x_total_len :: nat
  x_pkt_list :: "u8w list option list"

record tx_cfg =
  c_adapter :: mac_ax_adapter
  c_bus_cap :: bus_cap_t
  c_bulk_size :: nat
  c_max_wd :: nat
  c_tx_recycle :: bool
  c_tx_test_recycle :: bool

definition PKT_OFFSET_DUMMY :: nat where "PKT_OFFSET_DUMMY = 8"
definition MGMT_TID :: nat where "MGMT_TID = 8"
definition MAX_WD_LEN :: nat where "MAX_WD_LEN = 48"
definition MAX_WD_BODY_LEN :: nat where "MAX_WD_BODY_LEN = 24"
definition USB_SUPER_SPEED_BULK_SIZE :: nat where "USB_SUPER_SPEED_BULK_SIZE = 1024"
definition USB_HIGH_SPEED_BULK_SIZE :: nat where "USB_HIGH_SPEED_BULK_SIZE = 512"

definition GET_SHIFT_OFFSET :: "nat \<Rightarrow> nat" where
  "GET_SHIFT_OFFSET bulk =
     (if bulk = USB_SUPER_SPEED_BULK_SIZE then 10 else if bulk = USB_HIGH_SPEED_BULK_SIZE then 9 else 6)"

definition to_u32 :: "nat \<Rightarrow> nat" where
  "to_u32 n = n mod 4294967296"

text \<open>\<^verbatim>\<open>_ALIGN(n, 8)\<close> in \<^verbatim>\<open>u32\<close>.\<close>

definition ALIGN8_u32 :: "nat \<Rightarrow> nat" where
  "ALIGN8_u32 n = to_u32 (n + 7) div 8 * 8"

text \<open>
  What \<^verbatim>\<open>rtw_hal_fill_wd\<close> calls on this bus: the length of the descriptor, and its dwords
  written at offset \<open>off\<close> unless the builder fails. The result is the updated meta data, the buffer and
  whether it succeeded.
\<close>

definition rtw_hal_mac_ax_fill_txdesc ::
  "mac_ax_adapter \<Rightarrow> rtw_t_meta_data \<Rightarrow> nat \<Rightarrow> u8w list \<Rightarrow> (bool \<times> rtw_t_meta_data \<times> u8w list) option" where
  "rtw_hal_mac_ax_fill_txdesc adapter info off buf =
     (let wd_len = mac_txdesc_len info in
      case mac_build_txdesc adapter info (\<lambda>k. le_dword buf (off + 4 * k)) wd_len of
        None \<Rightarrow> None
      | Some (r, info', w) \<Rightarrow>
          if r \<noteq> MACSUCCESS then Some (False, info', buf)
          else map_option (\<lambda>buf'. (True, info', buf'))
                 (put_bytes off (concat (map (\<lambda>k. le_bytes (w k)) [0..<wd_len div 4])) buf))"

text \<open>The fragments of a request, copied one after the other.\<close>

fun copy_pkts :: "u8w list option list \<Rightarrow> nat \<Rightarrow> nat \<Rightarrow> u8w list \<Rightarrow> (nat \<times> u8w list) option" where
  "copy_pkts [] off packet_len buf = Some (packet_len, buf)"
| "copy_pkts (None # ps) off packet_len buf = copy_pkts ps off packet_len buf"
| "copy_pkts (Some bs # ps) off packet_len buf =
     (case put_bytes off bs buf of None \<Rightarrow> None
      | Some buf' \<Rightarrow> copy_pkts ps (off + length bs) (to_u32 (packet_len + length bs)) buf')"

text \<open>What is handed back to the core, and through which callback.\<close>

definition recycle_req :: "tx_cfg \<Rightarrow> rtw_xmit_req \<Rightarrow> ptr \<Rightarrow> (bool \<times> ptr) list" where
  "recycle_req cfg req p =
     (case x_treq_type req of
        RTW_PHL_TREQ_TYPE_TEST_PATTERN \<Rightarrow> if c_tx_test_recycle cfg then [(True, p)] else []
      | RTW_PHL_TREQ_TYPE_NORMAL \<Rightarrow> if c_tx_recycle cfg then [(False, p)] else []
      | RTW_PHL_TREQ_TYPE_OTHER \<Rightarrow> [])"

text \<open>The new packet length, the meta data, the buffer and the status; the request is recycled in any case.\<close>

definition phl_prepare_tx_usb ::
  "tx_cfg \<Rightarrow> rtw_xmit_req \<Rightarrow> nat \<Rightarrow> nat \<Rightarrow> u8w list \<Rightarrow>
     (rtw_phl_status \<times> nat \<times> rtw_t_meta_data \<times> u8w list) option" where
  "phl_prepare_tx_usb cfg tx_req off packet_len buf =
     (case rtw_hal_mac_ax_fill_txdesc (c_adapter cfg) (x_mdata tx_req) off buf of
        None \<Rightarrow> None
      | Some (False, info', buf') \<Rightarrow> Some (RTW_PHL_STATUS_FAILURE, packet_len, info', buf')
      | Some (True, info', buf') \<Rightarrow>
          (let wd_len = mac_txdesc_len (x_mdata tx_req);
               dummy = (if t_usb_pkt_ofst info' = 1 then PKT_OFFSET_DUMMY else 0)
           in case copy_pkts (x_pkt_list tx_req) (off + wd_len + dummy) (to_u32 (packet_len + wd_len + dummy)) buf' of
                None \<Rightarrow> None
              | Some (packet_len', buf'') \<Rightarrow> Some (RTW_PHL_STATUS_SUCCESS, packet_len', info', buf'')))"

section \<open>Aggregation of a ring\<close>

record xmit_loc =
  l_ring :: rtw_phl_tx_ring
  l_reqs :: "ptr \<Rightarrow> rtw_xmit_req"
  l_buf :: "u8w list"
  l_cur :: nat
  l_packet_len :: nat
  l_tx_len :: nat
  l_agg_cnt :: nat
  l_trasc_agg_cnt :: nat
  l_trasc_idx :: nat
  l_type :: rtw_packet_type
  l_status :: rtw_phl_status
  l_recycled :: "(bool \<times> ptr) list"

definition fill_mdata :: "phl_ring_status \<Rightarrow> rtw_phl_tx_ring \<Rightarrow> rtw_xmit_req \<Rightarrow> rtw_xmit_req" where
  "fill_mdata rs tring req =
     req\<lparr>x_mdata := (x_mdata req)\<lparr>t_macid := of_nat (rs_macid rs), t_band := of_nat (rs_band rs), t_wmm := of_nat (rs_wmm rs),
       t_hal_port := of_nat (rs_port rs), t_tid := of_nat (tx_tid tring), t_dma_ch := of_nat (tx_dma_ch tring),
       t_pktlen := of_nat (x_total_len req)\<rparr>\<rparr>"

definition wd_estimate :: "rtw_xmit_req \<Rightarrow> nat" where
  "wd_estimate req = (if t_wdinfo_en (x_mdata req) = 1 then MAX_WD_LEN else MAX_WD_BODY_LEN)"

text \<open>After a prepared request: is the limit of descriptors in one bulk transaction reached?\<close>

definition trasc_step :: "tx_cfg \<Rightarrow> xmit_loc \<Rightarrow> xmit_loc \<times> bool" where
  "trasc_step cfg l =
     (let i = l_tx_len l div 2 ^ GET_SHIFT_OFFSET (c_bulk_size cfg);
          l1 = (if l_trasc_idx l \<noteq> i then l\<lparr>l_trasc_idx := to_u8 (int i), l_trasc_agg_cnt := 0\<rparr> else l)
      in (l1, c_max_wd cfg \<le> l_trasc_agg_cnt l1))"

text \<open>
  The loop of \<^verbatim>\<open>_phl_handle_xmit_ring_usb\<close>; its first argument is \<^verbatim>\<open>req_busy\<close>. The updates of the ring
  index, of the counters and of the position in the buffer are in the order of the source.
\<close>

definition xmit_align :: "rtw_packet_type \<Rightarrow> xmit_loc \<Rightarrow> xmit_loc" where
  "xmit_align ty l =
     (if ty = RTW_PHL_PKT_TYPE_DATA then
        let packet_align_len = ALIGN8_u32 (l_packet_len l) in
        l\<lparr>l_cur := l_cur l + packet_align_len,
          l_tx_len := (if packet_align_len > l_packet_len l
                       then to_u32 (l_tx_len l + (packet_align_len - l_packet_len l)) else l_tx_len l)\<rparr>
      else l)"

definition bulk_end_wd :: "tx_cfg \<Rightarrow> nat \<Rightarrow> xmit_loc \<Rightarrow> bool" where
  "bulk_end_wd cfg wd_len l =
     (l_tx_len l \<noteq> 0 \<and>
      to_u32 (l_tx_len l + wd_len + (ALIGN8_u32 (l_packet_len l) - l_packet_len l)) mod c_bulk_size cfg = 0)"

fun xmit_loop :: "tx_cfg \<Rightarrow> phl_ring_status \<Rightarrow> nat \<Rightarrow> xmit_loc \<Rightarrow> xmit_loc option" where
  "xmit_loop cfg rs 0 l = Some l"
| "xmit_loop cfg rs (Suc busy) l =
     (let rptr = to_u16 (int (tx_phl_next_idx (l_ring l))) in
      case tx_entry (l_ring l) rptr of None \<Rightarrow> Some l
      | Some p \<Rightarrow>
          let req = fill_mdata rs (l_ring l) (l_reqs l p);
              ty = t_type (x_mdata req);
              wd_len = wd_estimate req;
              l0 = l\<lparr>l_reqs := (l_reqs l)(p := req), l_type := ty\<rparr>
          in if tx_buf_size (c_bus_cap cfg) < to_u32 (ALIGN8_u32 (wd_len + x_total_len req) + l_tx_len l0) then Some l0
             else if ty = RTW_PHL_PKT_TYPE_DATA \<and> l_tx_len l0 \<noteq> 0 \<and> c_bulk_size cfg = 0 then None
             else if ty = RTW_PHL_PKT_TYPE_DATA \<and> bulk_end_wd cfg wd_len l0
             then Some (l0\<lparr>l_cur := l_cur l0 + ALIGN8_u32 (l_packet_len l0)\<rparr>)
             else
               let l1 = xmit_align ty l0 in
               case phl_prepare_tx_usb cfg req (l_cur l1) 0 (l_buf l1) of None \<Rightarrow> None
               | Some (status, packet_len, info', buf') \<Rightarrow>
                   let l2 = l1\<lparr>l_packet_len := packet_len, l_buf := buf', l_status := status,
                          l_reqs := (l_reqs l1)(p := req\<lparr>x_mdata := info'\<rparr>),
                          l_tx_len := to_u32 (l_tx_len l1 + packet_len),
                          l_recycled := l_recycled l1 @ recycle_req cfg req p,
                          l_ring := (l_ring l1)\<lparr>tx_phl_idx := rptr\<rparr>\<rparr>
                   in if status \<noteq> RTW_PHL_STATUS_SUCCESS then Some l2
                      else
                        let l3 = l2\<lparr>l_agg_cnt := to_u8 (int (l_agg_cnt l2) + 1),
                                   l_trasc_agg_cnt := to_u8 (int (l_trasc_agg_cnt l2) + 1)\<rparr>
                        in if ty \<noteq> RTW_PHL_PKT_TYPE_DATA then Some l3
                           else
                             case trasc_step cfg l3 of (l4, stop) \<Rightarrow>
                               if stop then Some l4
                               else
                                 let l5 = (if busy \<noteq> 0
                                           then l4\<lparr>l_ring := (l_ring l4)\<lparr>tx_phl_next_idx :=
                                                  (if MAX_PHL_RING_ENTRY_NUM \<le> to_u16 (int rptr + 1) then 0
                                                   else tx_phl_next_idx (l_ring l4) + 1)\<rparr>\<rparr>
                                           else l4)
                                 in xmit_loop cfg rs busy l5)"

text \<open>
  What is given to the bus driver: the buffer, the channel and the length. \<open>os_tx\<close> is whether it takes
  the transfer.
\<close>

definition usb_agg_num :: "nat \<Rightarrow> u8w list \<Rightarrow> u8w list option" where
  "usb_agg_num agg_cnt buf =
     put_bytes 4 (le_bytes (usb_tx_agg_cfg_8852a (of_nat agg_cnt) (\<lambda>k. le_dword buf (4 * k)) 1)) buf"

record usb_tx_st =
  u_tx :: tx_st
  u_dp :: data_st
  u_txb :: "ptr \<Rightarrow> phl_usb_buf"
  u_pool :: phl_usb_tx_buf_resource
  u_reqs :: "ptr \<Rightarrow> rtw_xmit_req"
  u_h2c :: phl_h2c_pkt_pool
  u_sent :: "(ptr \<times> u8w list) list"
  u_recycled :: "(bool \<times> ptr) list"

definition requeue_txbuf :: "nat \<Rightarrow> ptr \<Rightarrow> usb_tx_st \<Rightarrow> usb_tx_st \<times> rtw_phl_status" where
  "requeue_txbuf tid b st =
     (if tid = MGMT_TID
      then (case enqueue_usb_buf (mgmt_txbuf_list (u_pool st)) (Some b) Tail of (q, s) \<Rightarrow>
              (st\<lparr>u_pool := (u_pool st)\<lparr>mgmt_txbuf_list := q\<rparr>\<rparr>, s))
      else (case enqueue_usb_buf (idle_txbuf_list (u_pool st)) (Some b) Tail of (q, s) \<Rightarrow>
              (st\<lparr>u_pool := (u_pool st)\<lparr>idle_txbuf_list := q\<rparr>\<rparr>, s)))"

text \<open>
  The ring of a ring status, \<^verbatim>\<open>ring_sts->ring_ptr\<close>: the ring of that category in the ring list of that
  MAC id.
\<close>

definition ring_ptr :: "phl_ring_status \<Rightarrow> tx_st \<Rightarrow> rtw_phl_tx_ring option" where
  "ring_ptr rs st = map_option (\<lambda>t. tl_phl_ring t ! rs_tid rs) (find (\<lambda>t. tl_macid t = rs_macid rs) (t_ring_list st))"

fun set_ring :: "nat \<Rightarrow> nat \<Rightarrow> rtw_phl_tx_ring \<Rightarrow> rtw_phl_tring_list list \<Rightarrow> rtw_phl_tring_list list" where
  "set_ring macid tid ring [] = []"
| "set_ring macid tid ring (t # ts) =
     (if tl_macid t = macid then t\<lparr>tl_phl_ring := (tl_phl_ring t)[tid := ring]\<rparr> # ts else t # set_ring macid tid ring ts)"

definition release_status :: "phl_ring_status \<Rightarrow> usb_tx_st \<Rightarrow> usb_tx_st" where
  "release_status rs st = st\<lparr>u_tx := (u_tx st)\<lparr>ring_sts_idle := phl_release_ring_sts (ring_sts_idle (u_tx st)) (rs_obj rs)\<rparr>\<rparr>"

definition xmit_init :: "rtw_phl_tx_ring \<Rightarrow> (ptr \<Rightarrow> rtw_xmit_req) \<Rightarrow> u8w list \<Rightarrow> xmit_loc" where
  "xmit_init tring reqs buf =
     \<lparr>l_ring = tring, l_reqs = reqs, l_buf = buf, l_cur = 0, l_packet_len = 0, l_tx_len = 0, l_agg_cnt = 0,
      l_trasc_agg_cnt = 0, l_trasc_idx = 0, l_type = RTW_PHL_PKT_TYPE_DATA, l_status = RTW_PHL_STATUS_FAILURE,
      l_recycled = []\<rparr>"

definition phl_handle_xmit_ring_usb ::
  "tx_cfg \<Rightarrow> bool \<Rightarrow> phl_ring_status \<Rightarrow> ptr \<Rightarrow> usb_tx_st \<Rightarrow> (usb_tx_st \<times> rtw_phl_status) option" where
  "phl_handle_xmit_ring_usb cfg os_tx rs b st =
     (case ring_ptr rs (u_tx st) of None \<Rightarrow> None
      | Some tring \<Rightarrow>
     (case xmit_loop cfg rs (rs_req_busy rs) (xmit_init tring (u_reqs st) (ub_buffer (u_txb st b))) of
        None \<Rightarrow> None
      | Some l \<Rightarrow>
          (case (if l_status l = RTW_PHL_STATUS_SUCCESS \<and> l_type l = RTW_PHL_PKT_TYPE_DATA \<and> 1 < l_agg_cnt l
                 then usb_agg_num (l_agg_cnt l) (l_buf l) else Some (l_buf l)) of
             None \<Rightarrow> None
           | Some buf \<Rightarrow>
               let st1 = st\<lparr>u_reqs := l_reqs l, u_recycled := u_recycled st @ l_recycled l,
                           u_tx := (u_tx st)\<lparr>t_ring_list := set_ring (rs_macid rs) (rs_tid rs) (l_ring l) (t_ring_list (u_tx st))\<rparr>,
                           u_txb := (u_txb st)(b := (u_txb st b)\<lparr>ub_buffer := buf\<rparr>)\<rparr>;
                   status1 = (if l_status l = RTW_PHL_STATUS_SUCCESS
                              then (if os_tx then RTW_PHL_STATUS_SUCCESS else RTW_PHL_STATUS_FAILURE) else l_status l);
                   st2 = (if l_status l = RTW_PHL_STATUS_SUCCESS \<and> os_tx
                          then st1\<lparr>u_sent := u_sent st1 @ [(b, take (l_tx_len l) buf)]\<rparr> else st1)
               in case (if status1 \<noteq> RTW_PHL_STATUS_SUCCESS then requeue_txbuf (tx_tid tring) b st2 else (st2, status1)) of
                    (st3, status2) \<Rightarrow> Some (release_status rs st3, status2))))"

section \<open>Pool, flow control and handler\<close>

text \<open>
  \<^verbatim>\<open>_phl_alloc_txbuf_usb\<close>: after a failed allocation of the buffer the structure is freed and its pointer
  still returned, \<open>Dangling\<close>.
\<close>

datatype txbuf_alloc = NoStruct | Dangling | Fresh phl_usb_buf

definition phl_alloc_txbuf_usb :: "bool \<Rightarrow> bool \<Rightarrow> nat \<Rightarrow> rtw_packet_type \<Rightarrow> txbuf_alloc" where
  "phl_alloc_txbuf_usb struct_ok buf_ok blen ty =
     (if \<not> struct_ok then NoStruct else if \<not> buf_ok then Dangling
      else Fresh \<lparr>ub_buffer = replicate blen 0, ub_h2c = None, ub_type = ty\<rparr>)"

text \<open>
  One loop of \<^verbatim>\<open>_phl_alloc_txbuf_pool_usb\<close> over the buffers \<open>is\<close>. The type is stored through the pointer
  right after the allocation, so a dangling one is \<^const>\<open>None\<close>. The flag is whether all are there.
\<close>

fun alloc_txbufs ::
  "(nat \<Rightarrow> bool) \<Rightarrow> (nat \<Rightarrow> bool) \<Rightarrow> nat \<Rightarrow> rtw_packet_type \<Rightarrow> nat list \<Rightarrow> (ptr \<Rightarrow> phl_usb_buf) \<times> ptr phl_queue \<Rightarrow>
     ((ptr \<Rightarrow> phl_usb_buf) \<times> ptr phl_queue \<times> bool) option" where
  "alloc_txbufs sok bok blen ty [] (m, q) = Some (m, q, True)"
| "alloc_txbufs sok bok blen ty (i # is) (m, q) =
     (case phl_alloc_txbuf_usb (sok i) (bok i) blen ty of
        NoStruct \<Rightarrow> Some (m, q, False)
      | Dangling \<Rightarrow> None
      | Fresh b \<Rightarrow> alloc_txbufs sok bok blen ty is (m(i := b), fst (enqueue_usb_buf q (Some i) Tail)))"

text \<open>
  The pool with its data, management and command buffers numbered in this order; a command buffer has no
  memory of its own. The last result lists what a failed set-up frees.
\<close>

definition phl_alloc_txbuf_pool_usb ::
  "(nat \<Rightarrow> bool) \<Rightarrow> (nat \<Rightarrow> bool) \<Rightarrow> bool \<Rightarrow> bus_cap_t \<Rightarrow> (ptr \<Rightarrow> phl_usb_buf) \<Rightarrow>
     ((ptr \<Rightarrow> phl_usb_buf) \<times> phl_usb_tx_buf_resource option \<times> rtw_phl_status \<times> ptr list) option" where
  "phl_alloc_txbuf_pool_usb sok bok ring_ok cap m0 =
     (if \<not> ring_ok then Some (m0, None, RTW_PHL_STATUS_FAILURE, [])
      else
        let n = tx_buf_num cap; m = n + tx_mgnt_buf_num cap; h = m + tx_h2c_buf_num cap in
        case alloc_txbufs sok bok (tx_buf_size cap) RTW_PHL_PKT_TYPE_DATA [0..<n] (m0, pq_init) of
          None \<Rightarrow> None
        | Some (m1, idle_q, ok1) \<Rightarrow>
            if \<not> ok1 then Some (m1, None, RTW_PHL_STATUS_RESOURCE, queue idle_q)
            else
              (case alloc_txbufs sok bok (tx_mgnt_buf_size cap) RTW_PHL_PKT_TYPE_MGNT [n..<m] (m1, pq_init) of
                 None \<Rightarrow> None
               | Some (m2, mgmt_q, ok2) \<Rightarrow>
                   if \<not> ok2 then Some (m2, None, RTW_PHL_STATUS_RESOURCE, queue idle_q @ queue mgmt_q)
                   else
                     (case alloc_txbufs sok (\<lambda>i. True) 0 RTW_PHL_PKT_TYPE_H2C [m..<h] (m2, pq_init) of
                        None \<Rightarrow> None
                      | Some (m3, h2c_q, ok3) \<Rightarrow>
                          if \<not> ok3 then Some (m3, None, RTW_PHL_STATUS_RESOURCE, queue idle_q @ queue mgmt_q @ queue h2c_q)
                          else if h = 0 then Some (m3, None, RTW_PHL_STATUS_FAILURE, [])
                          else Some (m3, Some \<lparr>idle_txbuf_list = idle_q, mgmt_txbuf_list = mgmt_q, h2c_txbuf_list = h2c_q\<rparr>,
                                     RTW_PHL_STATUS_SUCCESS, []))))"

text \<open>
  A buffer for the ring by the TID of the ring; without one the ring status is released. A status whose ring
  is gone is \<^const>\<open>None\<close>.
\<close>

definition phl_tx_flow_ctrl_usb :: "phl_ring_status \<Rightarrow> usb_tx_st \<Rightarrow> (usb_tx_st \<times> ptr option) option" where
  "phl_tx_flow_ctrl_usb rs st =
     (case ring_ptr rs (u_tx st) of None \<Rightarrow> None
      | Some tring \<Rightarrow>
     (case (if tx_tid tring = MGMT_TID
            then (case dequeue_usb_buf (mgmt_txbuf_list (u_pool st)) of (q, r) \<Rightarrow>
                    (st\<lparr>u_pool := (u_pool st)\<lparr>mgmt_txbuf_list := q\<rparr>\<rparr>, r))
            else (case dequeue_usb_buf (idle_txbuf_list (u_pool st)) of (q, r) \<Rightarrow>
                    (st\<lparr>u_pool := (u_pool st)\<lparr>idle_txbuf_list := q\<rparr>\<rparr>, r))) of
        (st1, None) \<Rightarrow> Some (release_status rs st1, None)
      | (st1, Some b) \<Rightarrow> Some (st1, Some b)))"

text \<open>The loop of the handler over the result of the flow control; \<open>os_tx i\<close> is the bus driver at ring \<open>i\<close>.\<close>

fun tx_rings :: "tx_cfg \<Rightarrow> (nat \<Rightarrow> bool) \<Rightarrow> nat \<Rightarrow> phl_ring_status list \<Rightarrow> usb_tx_st \<Rightarrow> usb_tx_st option" where
  "tx_rings cfg os_tx i [] st = Some (st\<lparr>u_tx := (u_tx st)\<lparr>t_fctrl_result := []\<rparr>\<rparr>)"
| "tx_rings cfg os_tx i (rs # rss) st =
     (case phl_tx_flow_ctrl_usb rs st of
        None \<Rightarrow> None
      | Some (st1, None) \<Rightarrow> tx_rings cfg os_tx (i + 1) rss st1
      | Some (st1, Some b) \<Rightarrow>
          (case phl_handle_xmit_ring_usb cfg (os_tx i) rs b st1 of None \<Rightarrow> None
           | Some (st2, status) \<Rightarrow> tx_rings cfg os_tx (i + 1) rss st2))"

text \<open>
  \<^verbatim>\<open>_phl_tx_callback_usb\<close>. \<open>send_ok\<close> is whether the dispatcher takes a power request, \<open>ps_allowed\<close> whether
  the power saving allows the data path. \<^verbatim>\<open>phl_sw_tx_more\<close> is read by the data-path controller too.
\<close>

definition phl_tx_callback_usb ::
  "tx_cfg \<Rightarrow> bool \<Rightarrow> bool \<Rightarrow> (nat \<Rightarrow> bool) \<Rightarrow> usb_tx_st \<Rightarrow> usb_tx_st option" where
  "phl_tx_callback_usb cfg send_ok ps_allowed os_tx st =
     (let free = (\<lambda>s. map_option (\<lambda>t. s\<lparr>u_tx := t\<rparr>) (phl_free_deferred_tx_ring (u_tx s)));
          dp = (u_dp st)\<lparr>sw_tx_more := phl_sw_tx_more (u_tx st)\<rparr> in
      case phl_datapath_chk_trx_pause send_ok PHL_CTRL_TX dp of
        (dp1, True) \<Rightarrow> free (st\<lparr>u_dp := dp1\<rparr>)
      | (dp1, False) \<Rightarrow>
          let st1 = st\<lparr>u_dp := dp1\<rparr> in
          Option.bind
            (if phl_sw_tx_more (u_tx st1) \<and> \<not> ps_allowed then Some st1
             else
               (case phl_check_xmit_ring_resource (u_tx st1) of
                  (tx1, sta_list, busy) \<Rightarrow>
                    let st2 = st1\<lparr>u_tx := tx1, u_dp := (u_dp st1)\<lparr>sw_tx_more := phl_sw_tx_more tx1\<rparr>\<rparr> in
                    if busy then
                      let tx2 = phl_tx_flow_ctrl sta_list tx1 in
                      tx_rings cfg os_tx 0 (t_fctrl_result tx2) (st2\<lparr>u_tx := tx2\<rparr>)
                    else Some st2))
            (\<lambda>s. free (s\<lparr>u_dp := tx_callback_chk_stop (u_dp s)\<rparr>)))"

section \<open>Completion and command packets\<close>

text \<open>A finished transfer gives its buffer back, a command packet returns to its own pool first.\<close>

definition phl_tx_release_buf_usb :: "ptr \<Rightarrow> usb_tx_st \<Rightarrow> (usb_tx_st \<times> rtw_phl_status) option" where
  "phl_tx_release_buf_usb b st =
     (if ub_type (u_txb st b) = RTW_PHL_PKT_TYPE_H2C then
        (case phl_enqueue_idle_h2c_pkt (ub_h2c (u_txb st b)) (u_h2c st) of None \<Rightarrow> None
         | Some (pool, s) \<Rightarrow>
             (case enqueue_usb_buf (h2c_txbuf_list (u_pool st)) (Some b) Tail of (q, s1) \<Rightarrow>
                Some (st\<lparr>u_h2c := pool, u_txb := (u_txb st)(b := (u_txb st b)\<lparr>ub_h2c := None\<rparr>),
                        u_pool := (u_pool st)\<lparr>h2c_txbuf_list := q\<rparr>\<rparr>, s1)))
      else if ub_type (u_txb st b) = RTW_PHL_PKT_TYPE_MGNT then
        (case enqueue_usb_buf (mgmt_txbuf_list (u_pool st)) (Some b) Tail of (q, s) \<Rightarrow>
           Some (st\<lparr>u_pool := (u_pool st)\<lparr>mgmt_txbuf_list := q\<rparr>\<rparr>, s))
      else
        (case enqueue_usb_buf (idle_txbuf_list (u_pool st)) (Some b) Tail of (q, s) \<Rightarrow>
           Some (st\<lparr>u_pool := (u_pool st)\<lparr>idle_txbuf_list := q\<rparr>\<rparr>, s)))"

text \<open>
  \<^verbatim>\<open>phl_pltfm_tx_usb\<close>; \<open>os_tx\<close> is the status of the bus driver. The packet is given back to its pool when
  the driver reports \<^const>\<open>RTW_PHL_STATUS_FAILURE\<close>, not when there is no buffer.
\<close>

definition phl_pltfm_tx_usb :: "rtw_phl_status \<Rightarrow> ptr \<Rightarrow> usb_tx_st \<Rightarrow> (usb_tx_st \<times> rtw_phl_status) option" where
  "phl_pltfm_tx_usb os_tx pkt st =
     (case dequeue_usb_buf (h2c_txbuf_list (u_pool st)) of
        (q, None) \<Rightarrow> Some (st\<lparr>u_pool := (u_pool st)\<lparr>h2c_txbuf_list := q\<rparr>\<rparr>, RTW_PHL_STATUS_FAILURE)
      | (q, Some b) \<Rightarrow>
          let st1 = st\<lparr>u_pool := (u_pool st)\<lparr>h2c_txbuf_list := q\<rparr>,
                      u_txb := (u_txb st)(b := (u_txb st b)\<lparr>ub_h2c := Some pkt\<rparr>)\<rparr>
          in if os_tx = RTW_PHL_STATUS_FAILURE then
               (case phl_enqueue_idle_h2c_pkt (ub_h2c (u_txb st1 b)) (u_h2c st1) of None \<Rightarrow> None
                | Some (pool, s) \<Rightarrow>
                    (case enqueue_usb_buf (h2c_txbuf_list (u_pool st1)) (Some b) Tail of (q', s1) \<Rightarrow>
                       Some (st1\<lparr>u_h2c := pool, u_txb := (u_txb st1)(b := (u_txb st1 b)\<lparr>ub_h2c := None\<rparr>),
                                 u_pool := (u_pool st1)\<lparr>h2c_txbuf_list := q'\<rparr>\<rparr>, os_tx)))
             else Some (st1, os_tx))"

end
