(* ===== verification/Phl_Usb_Agg.thy ===== *)
theory Phl_Usb_Agg
  imports Phl_Usb_Tx Phl_Bytes
begin

text \<open>
  What a bulk transfer of aggregated data frames contains: read the way the hardware reads it, it is the
  first requests of the ring, in order, each with its descriptor, and it stays inside the buffer.
\<close>

section \<open>Writing a buffer\<close>

lemma put_bytes_spec:
  assumes "put_bytes off bs buf = Some buf'"
  shows "length buf' = length buf" "seg off (length bs) buf' = bs" "\<And>o' n. o' + n \<le> off \<Longrightarrow> seg o' n buf' = seg o' n buf"
    "off + length bs \<le> length buf"
proof -
  show l: "off + length bs \<le> length buf" using assms by (simp add: put_bytes_def split: if_splits)
  have b: "buf' = take off buf @ bs @ drop (off + length bs) buf" using assms by (simp add: put_bytes_def split: if_splits)
  show "length buf' = length buf" "seg off (length bs) buf' = bs" using l by (simp_all add: b seg_def)
  show "seg o' n buf' = seg o' n buf" if "o' + n \<le> off" for o' n
    using that l by (simp add: b seg_def drop_take min_absorb1)
qed

lemma put_bytes_fits: "off + length bs \<le> length buf \<Longrightarrow> \<exists>buf'. put_bytes off bs buf = Some buf'"
  by (simp add: put_bytes_def)

section \<open>A prepared frame\<close>

definition payload :: "rtw_xmit_req \<Rightarrow> u8w list" where
  "payload req = concat (map (\<lambda>p. case p of None \<Rightarrow> [] | Some bs \<Rightarrow> bs) (x_pkt_list req))"

lemma copy_pkts_ok:
  "off + length (concat (map (\<lambda>p. case p of None \<Rightarrow> [] | Some bs \<Rightarrow> bs) ps)) \<le> length buf \<Longrightarrow>
   n + length (concat (map (\<lambda>p. case p of None \<Rightarrow> [] | Some bs \<Rightarrow> bs) ps)) < 4294967296 \<Longrightarrow>
   \<exists>buf'. copy_pkts ps off n buf = Some (n + length (concat (map (\<lambda>p. case p of None \<Rightarrow> [] | Some bs \<Rightarrow> bs) ps)), buf') \<and>
     length buf' = length buf \<and>
     seg off (length (concat (map (\<lambda>p. case p of None \<Rightarrow> [] | Some bs \<Rightarrow> bs) ps))) buf' =
       concat (map (\<lambda>p. case p of None \<Rightarrow> [] | Some bs \<Rightarrow> bs) ps) \<and>
     (\<forall>o' k. o' + k \<le> off \<longrightarrow> seg o' k buf' = seg o' k buf)"
proof (induction ps arbitrary: off n buf)
  case Nil
  then show ?case by (simp add: seg_def)
next
  case (Cons p ps)
  let ?pl = "concat (map (\<lambda>p. case p of None \<Rightarrow> [] | Some bs \<Rightarrow> bs) ps)"
  show ?case
  proof (cases p)
    case None
    then show ?thesis using Cons.IH [of off buf n] Cons.prems by simp
  next
    case (Some bs)
    obtain buf1 where b: "put_bytes off bs buf = Some buf1" using put_bytes_fits [of off bs buf] Cons.prems(1) Some by auto
    note s = put_bytes_spec [OF b]
    obtain buf' where c: "copy_pkts ps (off + length bs) (n + length bs) buf1 = Some (n + length bs + length ?pl, buf')"
      "length buf' = length buf1" "seg (off + length bs) (length ?pl) buf' = ?pl"
      "\<forall>o' k. o' + k \<le> off + length bs \<longrightarrow> seg o' k buf' = seg o' k buf1"
      using Cons.IH [of "off + length bs" buf1 "n + length bs"] Cons.prems Some s(1) by auto
    have "to_u32 (n + length bs) = n + length bs" using Cons.prems(2) Some by (simp add: to_u32_def)
    then show ?thesis using Some b c s by (simp add: seg_split add.assoc)
  qed
qed

lemma copy_payload:
  assumes "off + length (payload req) \<le> length buf" "n + length (payload req) < 4294967296"
  obtains buf' where "copy_pkts (x_pkt_list req) off n buf = Some (n + length (payload req), buf')"
    "length buf' = length buf" "seg off (length (payload req)) buf' = payload req"
    "\<And>o' k. o' + k \<le> off \<Longrightarrow> seg o' k buf' = seg o' k buf"
  using copy_pkts_ok [of off "x_pkt_list req" buf n] assms unfolding payload_def by auto

text \<open>What the builder accepts of a data frame.\<close>

definition buildable :: "mac_ax_adapter \<Rightarrow> rtw_t_meta_data \<Rightarrow> bool" where
  "buildable adapter info \<longleftrightarrow> t_type info = RTW_PHL_PKT_TYPE_DATA \<and> t_dma_ch info \<le> MAC_AX_DATA_HIQ \<and> \<not> bad_pktlen info \<and>
     intf adapter \<noteq> MAC_AX_INTF_INVALID \<and> unat (t_tid info) < 8"

lemma build_data:
  assumes "buildable adapter info"
  obtains w where "mac_build_txdesc adapter info b0 (mac_txdesc_len info) = Some (MACSUCCESS, info, w)"
    "bit (w 0) 22 \<longleftrightarrow> t_wdinfo_en info \<noteq> 0" "GET_FIELD (w 2) AX_TXD_TXPKTSIZE = ucast (t_pktlen info)"
    "GET_FIELD (w 2) AX_TXD_MACID = ucast (t_macid info) AND 0x7f"
proof -
  obtain dw0 where d: "txd_intf_dw0 adapter info = Some dw0"
    using assms by (cases "intf adapter") (auto simp: buildable_def txd_intf_dw0_def)
  have "length qsel_l = 8" by (simp add: qsel_l_def)
  then have "txd_data_qsel info \<noteq> None" using assms by (simp add: buildable_def txd_data_qsel_def)
  then obtain q where q: "txd_data_qsel info = Some q" by blast
  let ?w = "txd_finish adapter info (txd_data_body dw0 (txd_data_ch adapter info) q info) (txd_data_info info) b0"
  have e: "mac_build_txdesc adapter info b0 (mac_txdesc_len info) = Some (MACSUCCESS, info, ?w)"
    using assms d q by (simp add: buildable_def mac_build_txdesc_def txdes_proc_data_def TID_MAX_NUM_def Let_def not_less)
  show thesis
    by (rule that [OF e])
      (use data_dw0_fields [OF d, of "txd_data_ch adapter info" q info] data_body_fields [of dw0 "txd_data_ch adapter info" q info]
         pktlen_exact [of info] assms in \<open>simp_all add: finish_body buildable_def\<close>)
qed

definition frame_at :: "nat \<Rightarrow> nat \<Rightarrow> nat \<Rightarrow> u8w list \<Rightarrow> u8w list \<Rightarrow> bool" where
  "frame_at off wl m pl buf \<longleftrightarrow> off + wl + length pl \<le> length buf \<and> (wl = 24 \<or> wl = 48) \<and> length pl \<le> 0x3fff \<and> m < 128 \<and>
     seg (off + wl) (length pl) buf = pl \<and>
     (\<exists>w. seg off wl buf = concat (map (\<lambda>k. le_bytes (w k)) [0..<wl div 4]) \<and> (bit (w 0) 22 \<longleftrightarrow> wl = 48) \<and>
        GET_FIELD (w 2) AX_TXD_TXPKTSIZE = of_nat (length pl) \<and> GET_FIELD (w 2) AX_TXD_MACID = of_nat m)"

lemma frame_at_keep:
  assumes "frame_at off wl m pl buf" "length buf' = length buf" "\<And>o' k. o' + k \<le> e \<Longrightarrow> seg o' k buf' = seg o' k buf"
    "off + wl + length pl \<le> e"
  shows "frame_at off wl m pl buf'"
  using assms(1,2,4) assms(3) [of off wl] assms(3) [of "off + wl" "length pl"] by (simp add: frame_at_def)

lemma frame_at_reads:
  assumes "frame_at off wl m pl buf"
  shows "bit (le_dword buf off) 22 \<longleftrightarrow> wl = 48" "unat (GET_FIELD (le_dword buf (off + 8)) AX_TXD_TXPKTSIZE) = length pl"
    "unat (GET_FIELD (le_dword buf (off + 8)) AX_TXD_MACID) = m" "seg (off + wl) (length pl) buf = pl"
proof -
  obtain w where w: "seg off (4 * (wl div 4)) buf = concat (map (\<lambda>k. le_bytes (w k)) [0..<wl div 4])"
    "bit (w 0) 22 \<longleftrightarrow> wl = 48" "GET_FIELD (w 2) AX_TXD_TXPKTSIZE = of_nat (length pl)" "GET_FIELD (w 2) AX_TXD_MACID = of_nat m"
    and l: "off + wl + length pl \<le> length buf" "wl = 24 \<or> wl = 48" "length pl \<le> 0x3fff" "m < 128"
    using assms by (auto simp: frame_at_def)
  have b: "off + 4 * (wl div 4) \<le> length buf" using l by auto
  have d: "le_dword buf off = w 0" "le_dword buf (off + 8) = w 2"
    using le_dword_at [OF w(1) b, of 0] le_dword_at [OF w(1) b, of 2] l(2) by auto
  show "bit (le_dword buf off) 22 \<longleftrightarrow> wl = 48" using w d by simp
  show "unat (GET_FIELD (le_dword buf (off + 8)) AX_TXD_TXPKTSIZE) = length pl"
    using w(3) d l(3) by (simp add: unat_of_nat)
  show "unat (GET_FIELD (le_dword buf (off + 8)) AX_TXD_MACID) = m" using w(4) d l(4) by (simp add: unat_of_nat)
  show "seg (off + wl) (length pl) buf = pl" using assms by (simp add: frame_at_def)
qed

lemma ucast_of_nat_small: "n \<le> 0x3fff \<Longrightarrow> ucast (of_nat n :: u16w) = (of_nat n :: u32)"
  by (simp add: word_unat_eq_iff unat_of_nat unsigned_ucast_eq take_bit_nat_eq_self)

lemma macid_small: "m < 128 \<Longrightarrow> ucast (of_nat m :: u16w) AND 0x7f = (of_nat m :: u32)"
proof -
  assume m: "m < 128"
  then have "(of_nat m :: u32) < 2 ^ 7" by (simp add: word_less_nat_alt unat_of_nat)
  then show ?thesis using less_mask_eq [of "of_nat m :: u32" 7] m ucast_of_nat_small [of m]
    by (simp add: mask_eq_exp_minus_1)
qed

lemma prepare_data:
  assumes b: "buildable (c_adapter cfg) (x_mdata req)" and len: "t_pktlen (x_mdata req) = of_nat (length (payload req))"
    "length (payload req) \<le> 0x3fff" and dummy: "t_usb_pkt_ofst (x_mdata req) \<noteq> 1" and m: "t_macid (x_mdata req) = of_nat m" "m < 128"
    and fits: "off + mac_txdesc_len (x_mdata req) + length (payload req) \<le> length buf" "length buf < 2147483648"
  obtains buf' where "phl_prepare_tx_usb cfg req off 0 buf =
      Some (RTW_PHL_STATUS_SUCCESS, mac_txdesc_len (x_mdata req) + length (payload req), x_mdata req, buf')"
    "frame_at off (mac_txdesc_len (x_mdata req)) m (payload req) buf'" "length buf' = length buf"
    "\<And>o' k. o' + k \<le> off \<Longrightarrow> seg o' k buf' = seg o' k buf"
proof -
  let ?info = "x_mdata req" and ?pl = "payload req"
  let ?wl = "mac_txdesc_len ?info"
  have wl: "?wl = (if t_wdinfo_en ?info \<noteq> 0 then 48 else 24)"
    using b by (simp add: buildable_def mac_txdesc_len_def WD_BODY_BYTES_def WD_INFO_BYTES_def)
  obtain w where w: "mac_build_txdesc (c_adapter cfg) ?info (\<lambda>k. le_dword buf (off + 4 * k)) ?wl = Some (MACSUCCESS, ?info, w)"
    "bit (w 0) 22 \<longleftrightarrow> t_wdinfo_en ?info \<noteq> 0" "GET_FIELD (w 2) AX_TXD_TXPKTSIZE = ucast (t_pktlen ?info)"
    "GET_FIELD (w 2) AX_TXD_MACID = ucast (t_macid ?info) AND 0x7f"
    using build_data [OF b] by blast
  let ?ds = "concat (map (\<lambda>k. le_bytes (w k)) [0..<?wl div 4])"
  have lds: "length ?ds = ?wl" using wl by (simp add: length_dwords)
  obtain buf1 where p: "put_bytes off ?ds buf = Some buf1" using put_bytes_fits [of off ?ds buf] fits lds by auto
  note p1 = put_bytes_spec [OF p]
  have f: "rtw_hal_mac_ax_fill_txdesc (c_adapter cfg) ?info off buf = Some (True, ?info, buf1)"
    using w(1) p by (simp add: rtw_hal_mac_ax_fill_txdesc_def Let_def)
  have c1: "off + ?wl + length ?pl \<le> length buf1" "?wl + length ?pl < 4294967296" using fits p1(1) by simp_all
  obtain buf' where c: "copy_pkts (x_pkt_list req) (off + ?wl) ?wl buf1 = Some (?wl + length ?pl, buf')"
    "length buf' = length buf1" "seg (off + ?wl) (length ?pl) buf' = ?pl"
    "\<And>o' k. o' + k \<le> off + ?wl \<Longrightarrow> seg o' k buf' = seg o' k buf1"
    using copy_payload [OF c1] by blast
  have "to_u32 ?wl = ?wl" using wl by (simp add: to_u32_def)
  then have e: "phl_prepare_tx_usb cfg req off 0 buf = Some (RTW_PHL_STATUS_SUCCESS, ?wl + length ?pl, ?info, buf')"
    using f c(1) dummy by (simp add: phl_prepare_tx_usb_def Let_def)
  have pk: "GET_FIELD (w 2) AX_TXD_TXPKTSIZE = of_nat (length ?pl)"
    using w(3) len by (simp add: ucast_of_nat_small)
  have mk: "GET_FIELD (w 2) AX_TXD_MACID = of_nat m" using w(4) m by (simp add: macid_small)
  have fr: "frame_at off ?wl m ?pl buf'" unfolding frame_at_def
  proof (intro conjI exI [of _ w])
    show "seg off ?wl buf' = ?ds" using c(4) [of off ?wl] p1(2) lds by simp
  qed (use fits c(2,3) p1(1) wl w(2) len(2) m pk mk in \<open>auto split: if_splits\<close>)
  show thesis by (rule that [OF e fr]) (use c(2,4) p1(1,3) in auto)
qed

section \<open>Layout of a transfer\<close>

definition al8 :: "nat \<Rightarrow> nat" where "al8 n = (n + 7) div 8 * 8"

lemma ALIGN8_u32_eq: "n + 7 < 4294967296 \<Longrightarrow> ALIGN8_u32 n = al8 n"
  by (simp add: ALIGN8_u32_def al8_def to_u32_def)

lemma al8_facts: "n \<le> al8 n" "al8 n \<le> n + 7" "8 dvd al8 n" "al8 0 = 0"
  unfolding al8_def by auto

lemma al8_shift: "8 dvd c \<Longrightarrow> al8 (c + n) = c + al8 n"
proof -
  assume "8 dvd c"
  then obtain k where k: "c = 8 * k" ..
  have "(8 * k + (n + 7)) div 8 = k + (n + 7) div 8" by simp
  then show ?thesis by (simp add: al8_def k add.assoc)
qed

lemma al8_least: "8 dvd b \<Longrightarrow> t \<le> b \<Longrightarrow> al8 t \<le> b"
proof -
  assume "8 dvd b" "t \<le> b"
  then obtain k where k: "b = 8 * k" "t \<le> 8 * k" by (auto elim: dvdE)
  have "(t + 7) div 8 \<le> (8 * k + 7) div 8" using k by (intro div_le_mono) simp
  then show ?thesis by (simp add: al8_def k)
qed

lemma al8_fit: "8 dvd b \<Longrightarrow> al8 a + t \<le> b \<Longrightarrow> al8 t + a \<le> b"
proof -
  assume b: "8 dvd b" and f: "al8 a + t \<le> b"
  have "al8 t \<le> b - al8 a" by (rule al8_least) (use b f al8_facts(3) [of a] in \<open>auto intro: dvd_diff_nat\<close>)
  then show ?thesis using al8_facts(1) [of a] f by simp
qed

text \<open>A frame of a layout: its offset, the length of its descriptor, its MAC id and its payload.\<close>

type_synonym lframe = "nat \<times> nat \<times> nat \<times> u8w list"

fun f_end :: "lframe \<Rightarrow> nat" where
  "f_end (off, wl, m, pl) = off + wl + length pl"

fun chain :: "nat \<Rightarrow> lframe list \<Rightarrow> bool" where
  "chain off [] = True"
| "chain off (x # xs) = (fst x = off \<and> chain (al8 (f_end x)) xs)"

fun lay_next :: "nat \<Rightarrow> lframe list \<Rightarrow> nat" where
  "lay_next off [] = off"
| "lay_next off (x # xs) = lay_next (al8 (f_end x)) xs"

lemma chain_snoc: "chain off (xs @ [x]) \<longleftrightarrow> chain off xs \<and> fst x = lay_next off xs"
  by (induction xs arbitrary: off) auto

lemma lay_next_snoc: "lay_next off (xs @ [x]) = al8 (f_end x)"
  by (induction xs arbitrary: off) auto

fun lframe_in :: "u8w list \<Rightarrow> lframe \<Rightarrow> bool" where
  "lframe_in buf (off, wl, m, pl) = frame_at off wl m pl buf"

text \<open>
  How the hardware reads a transfer of \<open>k\<close> frames: the descriptor at the offset gives its own length, the
  size of the packet and the MAC id; the next descriptor is at the next multiple of eight.
\<close>

fun parse_agg :: "nat \<Rightarrow> nat \<Rightarrow> u8w list \<Rightarrow> (nat \<times> u8w list) list" where
  "parse_agg 0 off bs = []"
| "parse_agg (Suc k) off bs =
     (let wl = (if bit (le_dword bs off) 22 then 48 else 24);
          n = unat (GET_FIELD (le_dword bs (off + 8)) AX_TXD_TXPKTSIZE);
          m = unat (GET_FIELD (le_dword bs (off + 8)) AX_TXD_MACID)
      in (m, seg (off + wl) n bs) # parse_agg k (al8 (off + wl + n)) bs)"

lemma parse_layout:
  "chain off lay \<Longrightarrow> \<forall>x\<in>set lay. lframe_in buf x \<Longrightarrow> parse_agg (length lay) off buf = map (\<lambda>(_, _, mp). mp) lay"
proof (induction lay arbitrary: off)
  case Nil
  then show ?case by simp
next
  case (Cons x lay)
  obtain wl m pl where x: "x = (off, wl, m, pl)" using Cons.prems(1) by (cases x) auto
  have f: "frame_at off wl m pl buf" using Cons.prems(2) x by simp
  have wl: "(if bit (le_dword buf off) 22 then 48 else 24) = wl" using frame_at_reads(1) [OF f] f by (auto simp: frame_at_def)
  show ?case using Cons x wl frame_at_reads(2-4) [OF f] by (simp add: Let_def)
qed

section \<open>The loop\<close>

definition req_ok :: "rtw_xmit_req \<Rightarrow> bool" where
  "req_ok req \<longleftrightarrow> t_type (x_mdata req) = RTW_PHL_PKT_TYPE_DATA \<and> x_total_len req = length (payload req) \<and>
     payload req \<noteq> [] \<and> length (payload req) \<le> 0x3fff \<and> t_wdinfo_en (x_mdata req) \<in> {0, 1} \<and> t_usb_pkt_ofst (x_mdata req) \<noteq> 1"

definition cfg_ok :: "tx_cfg \<Rightarrow> phl_ring_status \<Rightarrow> bool" where
  "cfg_ok cfg rs \<longleftrightarrow> intf (c_adapter cfg) \<noteq> MAC_AX_INTF_INVALID \<and> 8 dvd tx_buf_size (c_bus_cap cfg) \<and>
     tx_buf_size (c_bus_cap cfg) < 2147483648 \<and> 0 < c_bulk_size cfg \<and> rs_macid rs < 128"

definition ring_ok :: "rtw_phl_tx_ring \<Rightarrow> bool" where
  "ring_ok ring \<longleftrightarrow> tx_ring_invar ring \<and> tx_tid ring < 8 \<and> tx_dma_ch ring \<le> 9 \<and>
     (tx_ring_content ring \<noteq> [] \<longrightarrow> tx_phl_next_idx ring = (tx_phl_idx ring + 1) mod MAX_PHL_RING_ENTRY_NUM)"

lemma fill_mdata_ok:
  assumes "req_ok req" "cfg_ok cfg rs" "tx_tid ring < 8" "tx_dma_ch ring \<le> 9"
  shows "req_ok (fill_mdata rs ring req)" "payload (fill_mdata rs ring req) = payload req"
    "buildable (c_adapter cfg) (x_mdata (fill_mdata rs ring req))"
    "t_pktlen (x_mdata (fill_mdata rs ring req)) = of_nat (length (payload req))"
    "t_macid (x_mdata (fill_mdata rs ring req)) = of_nat (rs_macid rs)"
    "wd_estimate (fill_mdata rs ring req) = mac_txdesc_len (x_mdata (fill_mdata rs ring req))"
    "mac_txdesc_len (x_mdata (fill_mdata rs ring req)) \<le> 48"
proof -
  have n: "0 < length (payload req)" "length (payload req) \<le> 0x3fff" using assms(1) by (auto simp: req_ok_def)
  have u: "unat (of_nat (tx_tid ring) :: u8w) < 8" using assms(3) by (simp add: unat_of_nat)
  have d: "(of_nat (tx_dma_ch ring) :: u8w) \<le> MAC_AX_DATA_HIQ"
    using assms(4) by (simp add: word_le_nat_alt unat_of_nat MAC_AX_DATA_HIQ_def)
  have p: "(of_nat (length (payload req)) :: u16w) \<noteq> 0" "\<not> snd AX_TXD_TXPKTSIZE < ucast (of_nat (length (payload req)) :: u16w)"
    using n by (simp_all add: word_unat_eq_iff unat_of_nat AX_TXD_TXPKTSIZE_def word_less_nat_alt ucast_of_nat_small)
  show "payload (fill_mdata rs ring req) = payload req" by (simp add: fill_mdata_def payload_def)
  then show "req_ok (fill_mdata rs ring req)" using assms(1) by (simp add: fill_mdata_def req_ok_def)
  show "buildable (c_adapter cfg) (x_mdata (fill_mdata rs ring req))"
    using assms(1,2) u d p by (simp add: buildable_def fill_mdata_def req_ok_def cfg_ok_def bad_pktlen_def)
  show "t_pktlen (x_mdata (fill_mdata rs ring req)) = of_nat (length (payload req))"
    "t_macid (x_mdata (fill_mdata rs ring req)) = of_nat (rs_macid rs)"
    using assms(1) by (simp_all add: fill_mdata_def req_ok_def)
  show "wd_estimate (fill_mdata rs ring req) = mac_txdesc_len (x_mdata (fill_mdata rs ring req))"
    "mac_txdesc_len (x_mdata (fill_mdata rs ring req)) \<le> 48"
    using assms(1) by (auto simp: wd_estimate_def fill_mdata_def req_ok_def mac_txdesc_len_def WD_BODY_BYTES_def
        WD_INFO_BYTES_def MAX_WD_LEN_def MAX_WD_BODY_LEN_def)
qed

lemma ring_next:
  assumes "ring_ok ring" "tx_ring_content ring = p # ps"
  shows "to_u16 (int (tx_phl_next_idx ring)) = tx_phl_next_idx ring" "tx_phl_next_idx ring < MAX_PHL_RING_ENTRY_NUM"
    "tx_entry ring (tx_phl_next_idx ring) = Some p" "tx_ring_invar (ring\<lparr>tx_phl_idx := tx_phl_next_idx ring\<rparr>)"
    "tx_ring_content (ring\<lparr>tx_phl_idx := tx_phl_next_idx ring\<rparr>) = ps"
proof -
  have i: "tx_ring_invar ring" and n: "tx_phl_next_idx ring = (tx_phl_idx ring + 1) mod MAX_PHL_RING_ENTRY_NUM"
    using assms by (simp_all add: ring_ok_def)
  have b: "tx_phl_idx ring < MAX_PHL_RING_ENTRY_NUM" using i by (simp add: tx_ring_invar_def)
  show r: "tx_phl_next_idx ring < MAX_PHL_RING_ENTRY_NUM" using n b by simp
  then show "to_u16 (int (tx_phl_next_idx ring)) = tx_phl_next_idx ring" by (rule ring_idx_u16)
  have ne: "tx_phl_idx ring \<noteq> tx_core_idx ring" using assms(2) by (auto simp: tx_ring_content_def ring_slice_def)
  have t: "tx_ring_take ring = (ring\<lparr>tx_phl_idx := tx_phl_next_idx ring\<rparr>, tx_entry ring (tx_phl_next_idx ring))"
    using tx_ring_take_eq [OF b] ne n by (simp add: Let_def)
  show "tx_entry ring (tx_phl_next_idx ring) = Some p" "tx_ring_invar (ring\<lparr>tx_phl_idx := tx_phl_next_idx ring\<rparr>)"
    "tx_ring_content (ring\<lparr>tx_phl_idx := tx_phl_next_idx ring\<rparr>) = ps"
    using tx_ring_get_simps(1) [OF i assms(2)] t by simp_all
qed

definition lay_ok :: "tx_cfg \<Rightarrow> xmit_loc \<Rightarrow> lframe list \<Rightarrow> bool" where
  "lay_ok cfg l lay \<longleftrightarrow> length (l_buf l) = tx_buf_size (c_bus_cap cfg) \<and> chain 0 lay \<and>
     (\<forall>x\<in>set lay. lframe_in (l_buf l) x \<and> f_end x \<le> l_tx_len l) \<and> l_tx_len l \<le> tx_buf_size (c_bus_cap cfg)"

definition agg_inv :: "tx_cfg \<Rightarrow> xmit_loc \<Rightarrow> lframe list \<Rightarrow> bool" where
  "agg_inv cfg l lay \<longleftrightarrow> lay_ok cfg l lay \<and> l_tx_len l = l_cur l + l_packet_len l \<and> 8 dvd l_cur l \<and>
     lay_next 0 lay = al8 (l_tx_len l) \<and> l_type l = RTW_PHL_PKT_TYPE_DATA \<and> l_agg_cnt l < 256"

definition reqs_sim :: "(ptr \<Rightarrow> rtw_xmit_req) \<Rightarrow> (ptr \<Rightarrow> rtw_xmit_req) \<Rightarrow> bool" where
  "reqs_sim r r' \<longleftrightarrow> (\<forall>q. payload (r' q) = payload (r q) \<and> x_treq_type (r' q) = x_treq_type (r q) \<and> (req_ok (r q) \<longrightarrow> req_ok (r' q)))"

text \<open>What the loop did: \<open>k\<close> requests of the ring are in the buffer.\<close>

definition agg_post :: "tx_cfg \<Rightarrow> phl_ring_status \<Rightarrow> xmit_loc \<Rightarrow> lframe list \<Rightarrow> xmit_loc \<Rightarrow> nat \<Rightarrow> bool" where
  "agg_post cfg rs l lay l' k \<longleftrightarrow> k \<le> length (tx_ring_content (l_ring l)) \<and>
     (\<exists>lay'. map (\<lambda>(_, _, mp). mp) lay' =
          map (\<lambda>p. (rs_macid rs, payload (l_reqs l p))) (take k (tx_ring_content (l_ring l))) \<and> lay_ok cfg l' (lay @ lay')) \<and>
     tx_ring_invar (l_ring l') \<and> tx_ring_content (l_ring l') = drop k (tx_ring_content (l_ring l)) \<and>
     l_type l' = RTW_PHL_PKT_TYPE_DATA \<and> l_status l' = (if k = 0 then l_status l else RTW_PHL_STATUS_SUCCESS) \<and>
     l_agg_cnt l' = (l_agg_cnt l + k) mod 256 \<and> reqs_sim (l_reqs l) (l_reqs l') \<and>
     l_recycled l' = l_recycled l @ concat (map (\<lambda>p. recycle_req cfg (l_reqs l p) p) (take k (tx_ring_content (l_ring l))))"

lemma recycle_req_cong: "x_treq_type r = x_treq_type r' \<Longrightarrow> recycle_req cfg r p = recycle_req cfg r' p"
  by (simp add: recycle_req_def)

lemma agg_post_zero:
  assumes "agg_inv cfg l lay" "tx_ring_invar (l_ring l)" "lay_ok cfg l lay \<Longrightarrow> lay_ok cfg l' lay" "l_ring l' = l_ring l"
    "l_type l' = RTW_PHL_PKT_TYPE_DATA" "l_status l' = l_status l" "l_agg_cnt l' = l_agg_cnt l" "reqs_sim (l_reqs l) (l_reqs l')"
    "l_recycled l' = l_recycled l"
  shows "agg_post cfg rs l lay l' 0"
  using assms by (simp add: agg_post_def agg_inv_def)

lemma agg_post_Suc:
  assumes c: "tx_ring_content (l_ring l) = p # ps" and post: "agg_post cfg rs l1 (lay @ [x]) l' k"
    and r: "tx_ring_content (l_ring l1) = ps" "reqs_sim (l_reqs l) (l_reqs l1)" "l_status l1 = RTW_PHL_STATUS_SUCCESS"
      "l_agg_cnt l1 = (l_agg_cnt l + 1) mod 256" "l_recycled l1 = l_recycled l @ recycle_req cfg (l_reqs l p) p"
    and x: "(\<lambda>(_, _, mp). mp) x = (rs_macid rs, payload (l_reqs l p))"
  shows "agg_post cfg rs l lay l' (Suc k)"
proof -
  obtain lay' where lay': "map (\<lambda>(_, _, mp). mp) lay' =
      map (\<lambda>p. (rs_macid rs, payload (l_reqs l1 p))) (take k ps)" "lay_ok cfg l' ((lay @ [x]) @ lay')"
    using post r(1) by (auto simp: agg_post_def)
  have s: "payload (l_reqs l1 q) = payload (l_reqs l q)" "x_treq_type (l_reqs l1 q) = x_treq_type (l_reqs l q)" for q
    using r(2) by (simp_all add: reqs_sim_def)
  have m: "map (\<lambda>(_, _, mp). mp) (x # lay') = map (\<lambda>p. (rs_macid rs, payload (l_reqs l p))) (take (Suc k) (p # ps))"
    using lay'(1) x by (simp add: s)
  have rc: "recycle_req cfg (l_reqs l1 q) q = recycle_req cfg (l_reqs l q) q" for q
    by (rule recycle_req_cong) (simp add: s)
  have "(l_agg_cnt l1 + k) mod 256 = (l_agg_cnt l + Suc k) mod 256" using r(4) by (simp add: mod_simps)
  moreover have "reqs_sim (l_reqs l) (l_reqs l')" using r(2) post by (simp add: agg_post_def reqs_sim_def)
  moreover have "\<exists>lay'. map (\<lambda>(_, _, mp). mp) lay' = map (\<lambda>p. (rs_macid rs, payload (l_reqs l p))) (take (Suc k) (p # ps)) \<and>
      lay_ok cfg l' (lay @ lay')"
    using m lay'(2) by (intro exI [of _ "x # lay'"]) simp
  ultimately show ?thesis using post r(1,3,5) rc by (simp add: agg_post_def c)
qed

lemma agg_step:
  assumes inv: "agg_inv cfg l lay" and cfg: "cfg_ok cfg rs" and ring: "tx_tid (l_ring l) < 8" "tx_dma_ch (l_ring l) \<le> 9"
    and ok: "req_ok (l_reqs l p)" and req: "req = fill_mdata rs (l_ring l) (l_reqs l p)"
    and l1: "l1 = xmit_align RTW_PHL_PKT_TYPE_DATA (l\<lparr>l_reqs := r, l_type := RTW_PHL_PKT_TYPE_DATA\<rparr>)"
    and fit: "al8 (mac_txdesc_len (x_mdata req) + length (payload req)) + l_tx_len l \<le> tx_buf_size (c_bus_cap cfg)"
  obtains buf' x where "phl_prepare_tx_usb cfg req (l_cur l1) 0 (l_buf l1) =
      Some (RTW_PHL_STATUS_SUCCESS, mac_txdesc_len (x_mdata req) + length (payload req), x_mdata req, buf')"
    "(\<lambda>(_, _, mp). mp) x = (rs_macid rs, payload (l_reqs l p))"
    "\<And>l4. l_buf l4 = buf' \<Longrightarrow> l_cur l4 = l_cur l1 \<Longrightarrow> l_packet_len l4 = mac_txdesc_len (x_mdata req) + length (payload req) \<Longrightarrow>
       l_tx_len l4 = to_u32 (l_tx_len l1 + (mac_txdesc_len (x_mdata req) + length (payload req))) \<Longrightarrow>
       l_type l4 = RTW_PHL_PKT_TYPE_DATA \<Longrightarrow> l_agg_cnt l4 < 256 \<Longrightarrow> agg_inv cfg l4 (lay @ [x])"
proof -
  let ?B = "tx_buf_size (c_bus_cap cfg)" and ?wl = "mac_txdesc_len (x_mdata req)" and ?n = "length (payload req)"
  note f = fill_mdata_ok [OF ok cfg ring, folded req]
  have B: "8 dvd ?B" "?B < 2147483648" using cfg by (simp_all add: cfg_ok_def)
  have i: "length (l_buf l) = ?B" "chain 0 lay" "\<forall>x\<in>set lay. lframe_in (l_buf l) x \<and> f_end x \<le> l_tx_len l" "l_tx_len l \<le> ?B"
    "l_tx_len l = l_cur l + l_packet_len l" "8 dvd l_cur l" "lay_next 0 lay = al8 (l_tx_len l)"
    using inv unfolding agg_inv_def lay_ok_def by blast+
  have al: "ALIGN8_u32 (l_packet_len l) = al8 (l_packet_len l)" by (rule ALIGN8_u32_eq) (use i(4,5) B(2) in simp)
  have cur: "l_cur l1 = al8 (l_tx_len l)" "l_buf l1 = l_buf l"
    using i(5,6) al by (simp_all add: l1 xmit_align_def Let_def al8_shift)
  have end1: "al8 (l_tx_len l) + (?wl + ?n) \<le> ?B" using al8_fit [OF B(1) fit] .
  have tl: "l_tx_len l1 = al8 (l_tx_len l)"
  proof -
    have "l_tx_len l + (al8 (l_packet_len l) - l_packet_len l) = al8 (l_tx_len l)"
      using i(5,6) al8_facts(1) [of "l_packet_len l"] by (simp add: al8_shift)
    moreover have "to_u32 (al8 (l_tx_len l)) = al8 (l_tx_len l)" using end1 B(2) by (simp add: to_u32_def)
    ultimately show ?thesis using al al8_facts(1) [of "l_packet_len l"] by (auto simp: l1 xmit_align_def Let_def i(5) al8_shift [OF i(6)])
  qed
  have m: "rs_macid rs < 128" using cfg by (simp add: cfg_ok_def)
  have pl: "t_pktlen (x_mdata req) = of_nat ?n" "?n \<le> 0x3fff" "t_usb_pkt_ofst (x_mdata req) \<noteq> 1"
    using f(1,2,4) by (simp_all add: req_ok_def)
  have ft: "l_cur l1 + ?wl + ?n \<le> length (l_buf l1)" "length (l_buf l1) < 2147483648" using end1 cur i(1) B(2) by simp_all
  obtain buf' where pr: "phl_prepare_tx_usb cfg req (l_cur l1) 0 (l_buf l1) = Some (RTW_PHL_STATUS_SUCCESS, ?wl + ?n, x_mdata req, buf')"
    "frame_at (l_cur l1) ?wl (rs_macid rs) (payload req) buf'" "length buf' = length (l_buf l1)"
    "\<And>o' k. o' + k \<le> l_cur l1 \<Longrightarrow> seg o' k buf' = seg o' k (l_buf l1)"
    using prepare_data [OF f(3) pl f(5) m ft] by blast
  let ?x = "(l_cur l1, ?wl, rs_macid rs, payload req)"
  show thesis
  proof (rule that [OF pr(1), of ?x])
    show "(\<lambda>(_, _, mp). mp) ?x = (rs_macid rs, payload (l_reqs l p))" using f(2) by simp
    fix l4 :: xmit_loc
    assume l4: "l_buf l4 = buf'" "l_cur l4 = l_cur l1" "l_packet_len l4 = ?wl + ?n" "l_tx_len l4 = to_u32 (l_tx_len l1 + (?wl + ?n))"
      "l_type l4 = RTW_PHL_PKT_TYPE_DATA" "l_agg_cnt l4 < 256"
    have t4: "l_tx_len l4 = l_cur l1 + (?wl + ?n)" using l4(4) tl cur(1) end1 B(2) by (simp add: to_u32_def)
    have old: "lframe_in buf' x \<and> f_end x \<le> l_tx_len l4" if "x \<in> set lay" for x
    proof -
      obtain o' w m pl where x: "x = (o', w, m, pl)" by (cases x) auto
      have "frame_at o' w m pl (l_buf l1)" "o' + w + length pl \<le> l_cur l1"
        using i(3) that x cur al8_facts(1) [of "l_tx_len l"] by force+
      then show ?thesis using frame_at_keep [OF _ pr(3,4)] x t4 by simp
    qed
    have "8 dvd l_cur l1" using cur al8_facts(3) by simp
    then show "agg_inv cfg l4 (lay @ [?x])"
      using old i(1,2,7) l4 t4 cur pr(2,3) end1 by (auto simp: agg_inv_def lay_ok_def chain_snoc lay_next_snoc add.assoc)
  qed
qed

lemma trasc_step_frame:
  assumes "trasc_step cfg l = (l', stop)"
  obtains i c where "l' = l\<lparr>l_trasc_idx := i, l_trasc_agg_cnt := c\<rparr>"
proof
  show "l' = l\<lparr>l_trasc_idx := l_trasc_idx l', l_trasc_agg_cnt := l_trasc_agg_cnt l'\<rparr>"
    using assms by (auto simp: trasc_step_def Let_def)
qed

lemma agg_inv_busy:
  assumes "agg_inv cfg l lay" "l_buf l' = l_buf l" "l_tx_len l' = l_tx_len l" "l_cur l' = l_cur l" "l_packet_len l' = l_packet_len l"
    "l_type l' = l_type l" "l_agg_cnt l' = l_agg_cnt l"
  shows "agg_inv cfg l' lay"
  using assms unfolding agg_inv_def lay_ok_def by metis

lemma xmit_loop_agg:
  "agg_inv cfg l lay \<Longrightarrow> cfg_ok cfg rs \<Longrightarrow> ring_ok (l_ring l) \<Longrightarrow> busy = length (tx_ring_content (l_ring l)) \<Longrightarrow>
   \<forall>p\<in>set (tx_ring_content (l_ring l)). req_ok (l_reqs l p) \<Longrightarrow>
   \<exists>l' k. xmit_loop cfg rs busy l = Some l' \<and> agg_post cfg rs l lay l' k \<and>
     (l_tx_len l = 0 \<and> 0 < busy \<and> 16432 \<le> tx_buf_size (c_bus_cap cfg) \<longrightarrow> 0 < k)"
proof (induction busy arbitrary: l lay)
  case 0
  then have "agg_post cfg rs l lay l 0" by (intro agg_post_zero) (auto simp: agg_inv_def ring_ok_def reqs_sim_def)
  then show ?case by auto
next
  case (Suc busy)
  let ?B = "tx_buf_size (c_bus_cap cfg)"
  obtain p ps where c: "tx_ring_content (l_ring l) = p # ps" using Suc.prems(4) by (cases "tx_ring_content (l_ring l)") auto
  note rn = ring_next [OF Suc.prems(3) c]
  have ring: "tx_tid (l_ring l) < 8" "tx_dma_ch (l_ring l) \<le> 9" "tx_ring_invar (l_ring l)" using Suc.prems(3) by (simp_all add: ring_ok_def)
  have ok: "req_ok (l_reqs l p)" using Suc.prems(5) c by simp
  define req where "req = fill_mdata rs (l_ring l) (l_reqs l p)"
  note f = fill_mdata_ok [OF ok Suc.prems(2) ring(1,2), folded req_def]
  have ty: "t_type (x_mdata req) = RTW_PHL_PKT_TYPE_DATA" and tot: "x_total_len req = length (payload req)"
    "length (payload req) \<le> 0x3fff" using f(1) by (simp_all add: req_ok_def)
  let ?wl = "mac_txdesc_len (x_mdata req)" and ?n = "length (payload req)"
  define l0 where "l0 = l\<lparr>l_reqs := (l_reqs l)(p := req), l_type := RTW_PHL_PKT_TYPE_DATA\<rparr>"
  have tl: "l_tx_len l \<le> ?B" "?B < 2147483648" "l_type l = RTW_PHL_PKT_TYPE_DATA" "l_agg_cnt l < 256"
    using Suc.prems(1,2) by (auto simp: agg_inv_def lay_ok_def cfg_ok_def)
  have al: "to_u32 (ALIGN8_u32 (?wl + ?n) + l_tx_len l) = al8 (?wl + ?n) + l_tx_len l" "al8 (?wl + ?n) \<le> 16432"
    using f(7) tot(2) tl al8_facts(2) [of "?wl + ?n"] al8_least [of 16432 "?wl + ?n"] by (simp_all add: ALIGN8_u32_eq to_u32_def)
  have sim0: "reqs_sim (l_reqs l) ((l_reqs l)(p := req))"
    using f(1,2) by (simp add: reqs_sim_def) (simp add: req_def fill_mdata_def)
  have sim: "reqs_sim (l_reqs l) ((l_reqs l)(p := req\<lparr>x_mdata := x_mdata req\<rparr>))" using sim0 by simp
  have zero: "agg_post cfg rs l lay (l0\<lparr>l_cur := cc\<rparr>) 0" "agg_post cfg rs l lay l0 0" for cc
    by (intro agg_post_zero [OF Suc.prems(1) ring(3)]; simp add: l0_def sim0 lay_ok_def)+
  note unf = xmit_loop.simps(2) [of cfg rs busy l, unfolded Let_def rn(1) rn(3) option.case req_def [symmetric] ty l0_def [symmetric] f(6)]
  consider (big) "?B < al8 (?wl + ?n) + l_tx_len l"
    | (bulk) "\<not> ?B < al8 (?wl + ?n) + l_tx_len l" "bulk_end_wd cfg ?wl l0"
    | (prep) "al8 (?wl + ?n) + l_tx_len l \<le> ?B" "\<not> bulk_end_wd cfg ?wl l0" by linarith
  then show ?case
  proof cases
    case big
    then have "xmit_loop cfg rs (Suc busy) l = Some l0" unfolding unf using al(1) tot(1) by (simp add: l0_def)
    moreover have "l_tx_len l \<noteq> 0 \<or> ?B < 16432" using big al(2) by auto
    ultimately show ?thesis using zero(2) by (intro exI [of _ l0] exI [of _ 0]) auto
  next
    case bulk
    then have "xmit_loop cfg rs (Suc busy) l = Some (l0\<lparr>l_cur := l_cur l0 + ALIGN8_u32 (l_packet_len l0)\<rparr>)"
      unfolding unf using al(1) tot(1) Suc.prems(2) by (simp add: l0_def cfg_ok_def)
    moreover have "l_tx_len l \<noteq> 0" using bulk by (simp add: bulk_end_wd_def l0_def)
    ultimately show ?thesis using zero(1) by (intro exI [of _ "l0\<lparr>l_cur := l_cur l0 + ALIGN8_u32 (l_packet_len l0)\<rparr>"] exI [of _ 0]) simp
  next
    case prep
    define l1 where "l1 = xmit_align RTW_PHL_PKT_TYPE_DATA l0"
    have tl0: "l_tx_len l0 = l_tx_len l" by (simp add: l0_def)
    obtain buf' x where st: "phl_prepare_tx_usb cfg req (l_cur l1) 0 (l_buf l1) = Some (RTW_PHL_STATUS_SUCCESS, ?wl + ?n, x_mdata req, buf')"
      "(\<lambda>(_, _, mp). mp) x = (rs_macid rs, payload (l_reqs l p))"
      "\<And>l4. l_buf l4 = buf' \<Longrightarrow> l_cur l4 = l_cur l1 \<Longrightarrow> l_packet_len l4 = ?wl + ?n \<Longrightarrow>
         l_tx_len l4 = to_u32 (l_tx_len l1 + (?wl + ?n)) \<Longrightarrow> l_type l4 = RTW_PHL_PKT_TYPE_DATA \<Longrightarrow> l_agg_cnt l4 < 256 \<Longrightarrow>
         agg_inv cfg l4 (lay @ [x])"
      using agg_step [OF Suc.prems(1,2) ring(1,2) ok req_def l1_def [unfolded l0_def] prep(1)] by blast
    define l3 where "l3 = l1\<lparr>l_packet_len := ?wl + ?n, l_buf := buf', l_status := RTW_PHL_STATUS_SUCCESS,
       l_reqs := (l_reqs l1)(p := req\<lparr>x_mdata := x_mdata req\<rparr>), l_tx_len := to_u32 (l_tx_len l1 + (?wl + ?n)),
       l_recycled := l_recycled l1 @ recycle_req cfg req p, l_ring := (l_ring l1)\<lparr>tx_phl_idx := tx_phl_next_idx (l_ring l)\<rparr>,
       l_agg_cnt := to_u8 (int (l_agg_cnt l1) + 1), l_trasc_agg_cnt := to_u8 (int (l_trasc_agg_cnt l1) + 1)\<rparr>"
    obtain l4 stop where t4: "trasc_step cfg l3 = (l4, stop)" by fastforce
    then obtain i cn where l4: "l4 = l3\<lparr>l_trasc_idx := i, l_trasc_agg_cnt := cn\<rparr>" by (rule trasc_step_frame)
    have g: "l_ring l1 = l_ring l" "l_reqs l1 = (l_reqs l)(p := req)" "l_type l1 = RTW_PHL_PKT_TYPE_DATA" "l_recycled l1 = l_recycled l"
      "l_agg_cnt l1 = l_agg_cnt l" by (simp_all add: l1_def l0_def xmit_align_def Let_def)
    have inv4: "agg_inv cfg l4 (lay @ [x])"
      by (rule st(3)) (simp_all add: l4 l3_def g to_u8_less)
    have agg: "l_agg_cnt l4 = (l_agg_cnt l + 1) mod 256"
      by (simp add: l4 l3_def g to_u8_def nat_mod_distrib nat_add_distrib)
    have rcy: "l_recycled l4 = l_recycled l @ recycle_req cfg (l_reqs l p) p"
      by (simp add: l4 l3_def g req_def fill_mdata_def recycle_req_def)
    have sim4: "reqs_sim (l_reqs l) (l_reqs l4)" using sim by (simp add: l4 l3_def g)
    have ring4: "tx_ring_invar (l_ring l4)" "tx_ring_content (l_ring l4) = ps" "tx_tid (l_ring l4) < 8" "tx_dma_ch (l_ring l4) \<le> 9"
      "tx_phl_idx (l_ring l4) = tx_phl_next_idx (l_ring l)" "tx_phl_next_idx (l_ring l4) = tx_phl_next_idx (l_ring l)"
      using rn(4,5) ring by (simp_all add: l4 l3_def g)
    have s4: "l_status l4 = RTW_PHL_STATUS_SUCCESS" by (simp add: l4 l3_def)
    define l5 where "l5 = (if busy \<noteq> 0 then l4\<lparr>l_ring := (l_ring l4)\<lparr>tx_phl_next_idx :=
        (if MAX_PHL_RING_ENTRY_NUM \<le> to_u16 (int (tx_phl_next_idx (l_ring l)) + 1) then 0 else tx_phl_next_idx (l_ring l4) + 1)\<rparr>\<rparr> else l4)"
    have run: "xmit_loop cfg rs (Suc busy) l = (if stop then Some l4 else xmit_loop cfg rs busy l5)"
      unfolding unf using al(1) tot(1) prep Suc.prems(2) st(1) t4
        tl0 by (simp add: l0_def [symmetric] l1_def [symmetric] l3_def l5_def cfg_ok_def ty)
    show ?thesis
    proof (cases stop)
      case True
      have "agg_post cfg rs l4 (lay @ [x]) l4 0"
        by (intro agg_post_zero [OF inv4 ring4(1)]) (use inv4 in \<open>simp_all add: agg_inv_def reqs_sim_def\<close>)
      then have "agg_post cfg rs l lay l4 (Suc 0)" by (rule agg_post_Suc [OF c _ ring4(2) sim4 s4 agg rcy st(2)])
      then show ?thesis using run True by auto
    next
      case False
      have inv5: "agg_inv cfg l5 (lay @ [x])" by (rule agg_inv_busy [OF inv4]) (simp_all add: l5_def)
      have c5: "tx_ring_content (l_ring l5) = ps" "l_reqs l5 = l_reqs l4" "l_status l5 = l_status l4" "l_agg_cnt l5 = l_agg_cnt l4"
        "l_recycled l5 = l_recycled l4" using ring4(2) by (simp_all add: l5_def next_idx_irrelevant)
      have len: "busy = length ps" using Suc.prems(4) c by simp
      have nx: "(if MAX_PHL_RING_ENTRY_NUM \<le> to_u16 (int (tx_phl_next_idx (l_ring l)) + 1) then 0 else tx_phl_next_idx (l_ring l) + 1) =
          (tx_phl_next_idx (l_ring l) + 1) mod MAX_PHL_RING_ENTRY_NUM"
        using rn(2) by (simp add: MAX_PHL_RING_ENTRY_NUM_def to_u16_def nat_add_distrib mod_if)
      have "ring_ok (l_ring l5)" using ring4 len nx by (auto simp: ring_ok_def l5_def next_idx_irrelevant)
      moreover have "\<forall>q\<in>set (tx_ring_content (l_ring l5)). req_ok (l_reqs l5 q)"
        using sim4 Suc.prems(5) c c5 by (simp add: reqs_sim_def)
      ultimately obtain l' k where "xmit_loop cfg rs busy l5 = Some l'" and post: "agg_post cfg rs l5 (lay @ [x]) l' k"
        using Suc.IH [OF inv5 Suc.prems(2)] c5(1) len by blast
      moreover have "agg_post cfg rs l lay l' (Suc k)"
        by (rule agg_post_Suc [OF c post c5(1) _ _ _ _ st(2)]) (simp_all add: c5 sim4 s4 agg rcy)
      ultimately show ?thesis using run False by auto
    qed
  qed
qed

section \<open>The transfer\<close>

lemma put_bytes_above: "put_bytes off bs buf = Some buf' \<Longrightarrow> off + length bs \<le> o' \<Longrightarrow> seg o' n buf' = seg o' n buf"
  by (auto simp: put_bytes_def seg_def split: if_splits)

lemma seg_take: "off + n \<le> t \<Longrightarrow> seg off n (take t buf) = seg off n buf"
  by (simp add: seg_def drop_take min_absorb1)

lemma lframe_in_take: "lframe_in buf x \<Longrightarrow> f_end x \<le> t \<Longrightarrow> t \<le> length buf \<Longrightarrow> lframe_in (take t buf) x"
  by (cases x) (auto simp: frame_at_def seg_take)

lemma frame_at_set_dword1:
  assumes "frame_at 0 wl m pl buf" "put_bytes 4 (le_bytes d) buf = Some buf'"
  shows "frame_at 0 wl m pl buf'"
proof -
  obtain w where w: "seg 0 wl buf = concat (map (\<lambda>k. le_bytes (w k)) [0..<wl div 4])" "bit (w 0) 22 \<longleftrightarrow> wl = 48"
    "GET_FIELD (w 2) AX_TXD_TXPKTSIZE = of_nat (length pl)" "GET_FIELD (w 2) AX_TXD_MACID = of_nat m"
    and l: "wl + length pl \<le> length buf" "wl = 24 \<or> wl = 48" "length pl \<le> 0x3fff" "m < 128" "seg wl (length pl) buf = pl"
    using assms(1) by (auto simp: frame_at_def)
  note p = put_bytes_spec [OF assms(2)]
  have le: "length (le_bytes v) = 4" for v by (simp add: le_bytes_def)
  have up: "[0..<wl div 4] = 0 # 1 # [2..<wl div 4]" using l(2) by (auto simp: upt_conv_Cons numeral_2_eq_2)
  have s: "seg 0 wl bb = seg 0 4 bb @ seg 4 4 bb @ seg 8 (wl - 8) bb" for bb :: "u8w list"
    using seg_split [of 0 4 "wl - 4" bb] seg_split [of 4 4 "wl - 8" bb] l(2) by auto
  have parts: "seg 0 4 buf = le_bytes (w 0)" "seg 8 (wl - 8) buf = concat (map (\<lambda>k. le_bytes (w k)) [2..<wl div 4])"
  proof -
    have lb: "8 \<le> length buf" using l(1,2) by auto
    have "seg 0 4 buf @ seg 4 4 buf @ seg 8 (wl - 8) buf = le_bytes (w 0) @ le_bytes (w 1) @ concat (map (\<lambda>k. le_bytes (w k)) [2..<wl div 4])"
      using w(1) up unfolding s by simp
    moreover have "length (seg 0 4 buf) = 4" "length (seg 4 4 buf) = 4" using lb by (simp_all add: seg_def)
    ultimately show "seg 0 4 buf = le_bytes (w 0)" "seg 8 (wl - 8) buf = concat (map (\<lambda>k. le_bytes (w k)) [2..<wl div 4])"
      using le by (simp_all add: append_eq_append_conv)
  qed
  have mc: "map (\<lambda>k. le_bytes (if k = Suc 0 then d else w k)) [2..<wl div 4] = map (\<lambda>k. le_bytes (w k)) [2..<wl div 4]" by auto
  have "seg 0 wl buf' = concat (map (\<lambda>k. le_bytes ((w(1 := d)) k)) [0..<wl div 4])"
    using up parts p(2) p(3) [of 0 4] put_bytes_above [OF assms(2), of 8 "wl - 8"] le unfolding s by (simp add: mc)
  moreover have "seg wl (length pl) buf' = pl" using put_bytes_above [OF assms(2), of wl] l(2,5) le by auto
  ultimately show ?thesis using l p(1) w(2-4) unfolding frame_at_def by (intro conjI exI [of _ "w(1 := d)"]) simp_all
qed

lemma agg_num_layout:
  assumes "usb_agg_num n buf = Some buf'" "chain 0 lay" "\<forall>x\<in>set lay. lframe_in buf x"
  shows "\<forall>x\<in>set lay. lframe_in buf' x" "length buf' = length buf"
    "GET_FIELD (le_dword buf' 4) AX_TXD_DMA_TXAGG_NUM = ucast (of_nat n :: u8w) AND 0xff"
proof -
  let ?d = "usb_tx_agg_cfg_8852a (of_nat n) (\<lambda>k. le_dword buf (4 * k)) 1"
  have p: "put_bytes 4 (le_bytes ?d) buf = Some buf'" using assms(1) by (simp add: usb_agg_num_def)
  note ps = put_bytes_spec [OF p]
  have le: "length (le_bytes v) = 4" for v by (simp add: le_bytes_def)
  show "length buf' = length buf" by (rule ps(1))
  have rest: "lframe_in buf' x" if "lframe_in buf x" "8 \<le> fst x" for x
    using that put_bytes_above [OF p] ps(1) by (cases x) (auto simp: frame_at_def le)
  have later: "\<forall>x\<in>set xs. 8 \<le> fst x" if "chain off xs" "8 \<le> off" for off xs
    using that
  proof (induction xs arbitrary: off)
    case (Cons x xs)
    have "8 \<le> al8 (f_end x)" using Cons.prems al8_facts(1) [of "f_end x"] by (cases x) simp
    then show ?case using Cons.IH [of "al8 (f_end x)"] Cons.prems by simp
  qed simp
  show "\<forall>x\<in>set lay. lframe_in buf' x"
  proof (cases lay)
    case (Cons x xs)
    obtain wl m pl where x: "x = (0, wl, m, pl)" using assms(2) Cons by (cases x) auto
    have f: "frame_at 0 wl m pl buf" using assms(3) Cons x by simp
    have "8 \<le> al8 (f_end x)" using f x al8_facts(1) [of "f_end x"] by (auto simp: frame_at_def)
    then have "\<forall>y\<in>set xs. 8 \<le> fst y" using assms(2) Cons later [of "al8 (f_end x)" xs] by simp
    then show ?thesis using frame_at_set_dword1 [OF f p] rest assms(3) Cons x by auto
  qed simp
  have "le_dword buf' 4 = ?d" by (rule le_dword_bytes) (use ps le in simp_all)
  then show "GET_FIELD (le_dword buf' 4) AX_TXD_DMA_TXAGG_NUM = ucast (of_nat n :: u8w) AND 0xff"
    unfolding usb_tx_agg_cfg_8852a_def by (simp add: get_clr_same fld_fits_def fld_mask_def AX_TXD_DMA_TXAGG_NUM_def)
qed

lemma set_ring_ptr:
  "find (\<lambda>t. tl_macid t = m) ts = Some t \<Longrightarrow> tid < length (tl_phl_ring t) \<Longrightarrow>
   \<exists>t'. find (\<lambda>t. tl_macid t = m) (set_ring m tid ring ts) = Some t' \<and> tl_phl_ring t' ! tid = ring"
  by (induction ts) auto

lemma agg_image:
  assumes "lay_ok cfg l lay" "lay \<noteq> []" "length lay = k"
    and "(if 1 < n then usb_agg_num n (l_buf l) else Some (l_buf l)) = Some buf"
  shows "parse_agg k 0 (take (l_tx_len l) buf) = map (\<lambda>(_, _, mp). mp) lay" "length (take (l_tx_len l) buf) \<le> tx_buf_size (c_bus_cap cfg)"
    "1 < n \<Longrightarrow> GET_FIELD (le_dword (take (l_tx_len l) buf) 4) AX_TXD_DMA_TXAGG_NUM = ucast (of_nat n :: u8w) AND 0xff"
proof -
  have l: "length (l_buf l) = tx_buf_size (c_bus_cap cfg)" "chain 0 lay" "\<forall>x\<in>set lay. lframe_in (l_buf l) x"
    "\<forall>x\<in>set lay. f_end x \<le> l_tx_len l" "l_tx_len l \<le> tx_buf_size (c_bus_cap cfg)"
    using assms(1) by (auto simp: lay_ok_def)
  have b: "\<forall>x\<in>set lay. lframe_in buf x" "length buf = length (l_buf l)"
    using assms(4) agg_num_layout [OF _ l(2,3), of n buf] l by (auto split: if_splits)
  have t: "lframe_in (take (l_tx_len l) buf) x" if "x \<in> set lay" for x
    by (rule lframe_in_take) (use that b l in auto)
  show "parse_agg k 0 (take (l_tx_len l) buf) = map (\<lambda>(_, _, mp). mp) lay" using parse_layout [OF l(2)] t assms(3) by auto
  show "length (take (l_tx_len l) buf) \<le> tx_buf_size (c_bus_cap cfg)" using l(5) by simp
  assume n: "1 < n"
  obtain wl m pl where "(0, wl, m, pl) \<in> set lay" using l(2) assms(2) by (cases lay) (auto intro: that)
  then have f: "frame_at 0 wl m pl (take (l_tx_len l) buf)" "wl + length pl \<le> l_tx_len l" using t l(4) by force+
  then have "8 \<le> l_tx_len l" by (auto simp: frame_at_def)
  then have "le_dword (take (l_tx_len l) buf) 4 = le_dword buf 4" by (simp add: le_dword_def)
  then show "GET_FIELD (le_dword (take (l_tx_len l) buf) 4) AX_TXD_DMA_TXAGG_NUM = ucast (of_nat n :: u8w) AND 0xff"
    using agg_num_layout(3) [OF _ l(2,3), of n buf] assms(4) n by simp
qed

text \<open>
  C1: the transfer of a data ring is the ring. When the buffer and the requests are as the driver sets
  them up (descriptor fields in range, declared and real length equal, the buffer a multiple of eight
  bytes and long enough for one frame), the ring is served without a write outside the buffer; at least
  one request is sent; the transfer, read by its descriptors the way the hardware reads it, is the first
  \<open>k\<close> requests of the ring in order, payload by payload, each for the MAC id of the station; the first
  descriptor carries the number of packets of an aggregate of up to 255; the sent requests are recycled
  in order, and the ring keeps exactly the others.
\<close>

theorem usb_aggregate_is_ring_prefix:
  assumes "cfg_ok cfg rs" and "16432 \<le> tx_buf_size (c_bus_cap cfg)"
    and "find (\<lambda>t. tl_macid t = rs_macid rs) (t_ring_list (u_tx st)) = Some t" and "rs_tid rs < length (tl_phl_ring t)"
    and "ring_ok (tl_phl_ring t ! rs_tid rs)" and "rs_req_busy rs = length (tx_ring_content (tl_phl_ring t ! rs_tid rs))"
    and "tx_ring_content (tl_phl_ring t ! rs_tid rs) \<noteq> []"
    and "\<forall>p\<in>set (tx_ring_content (tl_phl_ring t ! rs_tid rs)). req_ok (u_reqs st p)"
    and "length (ub_buffer (u_txb st b)) = tx_buf_size (c_bus_cap cfg)"
  shows "\<exists>st' k bytes ring'. phl_handle_xmit_ring_usb cfg True rs b st = Some (st', RTW_PHL_STATUS_SUCCESS) \<and>
     0 < k \<and> k \<le> rs_req_busy rs \<and> u_sent st' = u_sent st @ [(b, bytes)] \<and> length bytes \<le> tx_buf_size (c_bus_cap cfg) \<and>
     parse_agg k 0 bytes =
       map (\<lambda>p. (rs_macid rs, payload (u_reqs st p))) (take k (tx_ring_content (tl_phl_ring t ! rs_tid rs))) \<and>
     (1 < k \<and> k < 256 \<longrightarrow> unat (GET_FIELD (le_dword bytes 4) AX_TXD_DMA_TXAGG_NUM) = k) \<and>
     u_recycled st' = u_recycled st @
       concat (map (\<lambda>p. recycle_req cfg (u_reqs st p) p) (take k (tx_ring_content (tl_phl_ring t ! rs_tid rs)))) \<and>
     ring_ptr rs (u_tx st') = Some ring' \<and> tx_ring_invar ring' \<and>
     tx_ring_content ring' = drop k (tx_ring_content (tl_phl_ring t ! rs_tid rs))"
proof -
  let ?ring = "tl_phl_ring t ! rs_tid rs"
  let ?l = "xmit_init ?ring (u_reqs st) (ub_buffer (u_txb st b))"
  have rp: "ring_ptr rs (u_tx st) = Some ?ring" using assms(3) by (simp add: ring_ptr_def)
  have "agg_inv cfg ?l []" using assms(9) by (simp add: agg_inv_def lay_ok_def xmit_init_def al8_facts)
  from xmit_loop_agg [OF this assms(1), of "rs_req_busy rs"] assms(2,5-8)
  obtain l' k where run: "xmit_loop cfg rs (rs_req_busy rs) ?l = Some l'" and post: "agg_post cfg rs ?l [] l' k" and k: "0 < k"
    by (auto simp: xmit_init_def)
  obtain lay where lay: "map (\<lambda>(_, _, mp). mp) lay = map (\<lambda>p. (rs_macid rs, payload (u_reqs st p))) (take k (tx_ring_content ?ring))"
    "lay_ok cfg l' lay" and kl: "k \<le> length (tx_ring_content ?ring)"
    and r: "tx_ring_invar (l_ring l')" "tx_ring_content (l_ring l') = drop k (tx_ring_content ?ring)"
      "l_type l' = RTW_PHL_PKT_TYPE_DATA" "l_status l' = RTW_PHL_STATUS_SUCCESS" "l_agg_cnt l' = k mod 256"
      "l_recycled l' = concat (map (\<lambda>p. recycle_req cfg (u_reqs st p) p) (take k (tx_ring_content ?ring)))"
    using post k by (auto simp: agg_post_def xmit_init_def)
  have len: "length lay = k" using arg_cong [OF lay(1), of length] kl by simp
  have ne: "lay \<noteq> []" using len k by auto
  have buf_ex: "\<exists>buf. (if 1 < k mod 256 then usb_agg_num (k mod 256) (l_buf l') else Some (l_buf l')) = Some buf"
    using lay(2) assms(2) by (auto simp: usb_agg_num_def put_bytes_def le_bytes_def lay_ok_def)
  then obtain buf where buf: "(if 1 < k mod 256 then usb_agg_num (k mod 256) (l_buf l') else Some (l_buf l')) = Some buf" ..
  note im = agg_image [OF lay(2) ne len buf]
  obtain t' where t': "find (\<lambda>t. tl_macid t = rs_macid rs) (set_ring (rs_macid rs) (rs_tid rs) (l_ring l') (t_ring_list (u_tx st))) = Some t'"
    "tl_phl_ring t' ! rs_tid rs = l_ring l'" using set_ring_ptr [OF assms(3,4)] by blast
  have cnt: "1 < k \<and> k < 256 \<longrightarrow> unat (GET_FIELD (le_dword (take (l_tx_len l') buf) 4) AX_TXD_DMA_TXAGG_NUM) = k"
  proof
    assume k2: "1 < k \<and> k < 256"
    have "ucast (of_nat k :: u8w) = (of_nat k :: u32)"
      using k2 by (simp add: unat_of_nat word_unat_eq_iff unsigned_ucast_eq take_bit_nat_eq_self)
    moreover have "(of_nat k :: u32) AND 0xff = of_nat k"
      using k2 less_mask_eq [of "of_nat k :: u32" 8] by (simp add: mask_eq_exp_minus_1 word_less_nat_alt unat_of_nat)
    ultimately have "ucast (of_nat k :: u8w) AND 0xff = (of_nat k :: u32)" by simp
    then show "unat (GET_FIELD (le_dword (take (l_tx_len l') buf) 4) AX_TXD_DMA_TXAGG_NUM) = k"
      using im(3) k2 by (simp add: unat_of_nat)
  qed
  let ?st = "release_status rs (st\<lparr>u_reqs := l_reqs l', u_recycled := u_recycled st @ l_recycled l',
      u_tx := (u_tx st)\<lparr>t_ring_list := set_ring (rs_macid rs) (rs_tid rs) (l_ring l') (t_ring_list (u_tx st))\<rparr>,
      u_txb := (u_txb st)(b := (u_txb st b)\<lparr>ub_buffer := buf\<rparr>), u_sent := u_sent st @ [(b, take (l_tx_len l') buf)]\<rparr>)"
  have h: "phl_handle_xmit_ring_usb cfg True rs b st = Some (?st, RTW_PHL_STATUS_SUCCESS)"
    unfolding phl_handle_xmit_ring_usb_def rp option.case run using r(3-5) buf by (cases "1 < k mod 256") (simp_all add: Let_def)
  have "ring_ptr rs (u_tx ?st) = Some (l_ring l')" using t' by (simp add: ring_ptr_def release_status_def)
  moreover have "u_sent ?st = u_sent st @ [(b, take (l_tx_len l') buf)]" "u_recycled ?st = u_recycled st @ l_recycled l'"
    by (simp_all add: release_status_def)
  ultimately show ?thesis
    using h k kl im(1,2) lay(1) cnt r(1,2,6) assms(6) by (metis (no_types, lifting))
qed

section \<open>Management frames\<close>

lemma copy_pkts_over:
  "off \<le> length buf \<Longrightarrow> length buf < off + length (concat (map (\<lambda>p. case p of None \<Rightarrow> [] | Some bs \<Rightarrow> bs) ps)) \<Longrightarrow>
   copy_pkts ps off n buf = None"
proof (induction ps arbitrary: off n buf)
  case Nil
  then show ?case by simp
next
  case (Cons p ps)
  show ?case
  proof (cases p)
    case None
    then show ?thesis using Cons by simp
  next
    case (Some bs)
    show ?thesis
    proof (cases "put_bytes off bs buf")
      case None
      then show ?thesis using Some by simp
    next
      case (Some buf')
      then show ?thesis using Cons.IH [of "off + length bs" buf'] put_bytes_spec(1,4) [OF Some] Cons.prems \<open>p = Some bs\<close> by simp
    qed
  qed
qed

lemma prepare_fits_iff:
  assumes "mac_build_txdesc (c_adapter cfg) (x_mdata req) (\<lambda>k. le_dword buf (off + 4 * k)) (mac_txdesc_len (x_mdata req)) = Some (MACSUCCESS, i, w)"
    and "t_usb_pkt_ofst i \<noteq> 1" "payload req \<noteq> []" "mac_txdesc_len (x_mdata req) + length (payload req) < 4294967296"
    "mac_txdesc_len (x_mdata req) = 24 \<or> mac_txdesc_len (x_mdata req) = 48"
  shows "phl_prepare_tx_usb cfg req off 0 buf = None \<longleftrightarrow> length buf < off + mac_txdesc_len (x_mdata req) + length (payload req)"
proof -
  let ?wl = "mac_txdesc_len (x_mdata req)"
  let ?ds = "concat (map (\<lambda>k. le_bytes (w k)) [0..<?wl div 4])"
  have lds: "length ?ds = ?wl" using assms(5) by (auto simp: length_dwords)
  have u: "to_u32 ?wl = ?wl" using assms(5) by (auto simp: to_u32_def)
  show ?thesis
  proof (cases "put_bytes off ?ds buf")
    case None
    then show ?thesis using assms(1) lds by (auto simp: phl_prepare_tx_usb_def rtw_hal_mac_ax_fill_txdesc_def Let_def put_bytes_def split: if_splits)
  next
    case (Some buf1)
    note p = put_bytes_spec [OF Some]
    have e: "phl_prepare_tx_usb cfg req off 0 buf =
        (case copy_pkts (x_pkt_list req) (off + ?wl) ?wl buf1 of None \<Rightarrow> None
         | Some (n', b') \<Rightarrow> Some (RTW_PHL_STATUS_SUCCESS, n', i, b'))"
      using assms(1,2) Some u by (simp add: phl_prepare_tx_usb_def rtw_hal_mac_ax_fill_txdesc_def Let_def)
    show ?thesis
    proof (cases "off + ?wl + length (payload req) \<le> length buf")
      case True
      then have "off + ?wl + length (payload req) \<le> length buf1" using p(1) by simp
      from copy_payload [OF this assms(4)] obtain b' where
        "copy_pkts (x_pkt_list req) (off + ?wl) ?wl buf1 = Some (?wl + length (payload req), b')" by blast
      then show ?thesis using e True by simp
    next
      case False
      then show ?thesis using e copy_pkts_over [of "off + ?wl" buf1 "x_pkt_list req" ?wl] p lds by (simp add: payload_def)
    qed
  qed
qed

lemma build_mgnt:
  assumes "t_type info = RTW_PHL_PKT_TYPE_MGNT" "\<not> bad_pktlen info" "intf adapter \<noteq> MAC_AX_INTF_INVALID"
  shows "\<exists>w. mac_build_txdesc adapter info b0 (mac_txdesc_len info) = Some (MACSUCCESS, info, w)"
  using assms by (cases "intf adapter") (auto simp: mac_build_txdesc_def txdes_proc_mgnt_def txd_intf_dw0_def)

text \<open>
  C5: a management frame is written outside its buffer exactly when it is too long for it. The room
  check of the handler compares with the size of the data buffers; for a request that passes it, the
  handler stays inside the management buffer if and only if descriptor and frame fit that buffer, which
  may be much smaller.
\<close>

theorem mgnt_frame_overflow_iff:
  assumes "ring_ptr rs (u_tx st) = Some ring" and "tx_ring_invar ring" and "tx_ring_content ring = p # ps"
    and "tx_phl_next_idx ring = (tx_phl_idx ring + 1) mod MAX_PHL_RING_ENTRY_NUM" and "0 < rs_req_busy rs"
    and "t_type (x_mdata (u_reqs st p)) = RTW_PHL_PKT_TYPE_MGNT" and "x_total_len (u_reqs st p) = length (payload (u_reqs st p))"
    and "payload (u_reqs st p) \<noteq> []" and "length (payload (u_reqs st p)) \<le> 0x3fff"
    and "t_wdinfo_en (x_mdata (u_reqs st p)) \<in> {0, 1}" and "t_usb_pkt_ofst (x_mdata (u_reqs st p)) \<noteq> 1"
    and "intf (c_adapter cfg) \<noteq> MAC_AX_INTF_INVALID"
    and "al8 (wd_estimate (u_reqs st p) + length (payload (u_reqs st p))) \<le> tx_buf_size (c_bus_cap cfg)"
  shows "phl_handle_xmit_ring_usb cfg os_tx rs b st = None \<longleftrightarrow>
     length (ub_buffer (u_txb st b)) < wd_estimate (u_reqs st p) + length (payload (u_reqs st p))"
proof -
  define req where "req = fill_mdata rs ring (u_reqs st p)"
  define l where "l = xmit_init ring (u_reqs st) (ub_buffer (u_txb st b))"
  obtain busy where busy: "rs_req_busy rs = Suc busy" using assms(5) gr0_conv_Suc by auto
  have b: "tx_phl_idx ring < MAX_PHL_RING_ENTRY_NUM" using assms(2) by (simp add: tx_ring_invar_def)
  then have nx: "to_u16 (int (tx_phl_next_idx ring)) = tx_phl_next_idx ring" using assms(4) by (intro ring_idx_u16) simp
  have ne: "tx_phl_idx ring \<noteq> tx_core_idx ring" using assms(3) by (auto simp: tx_ring_content_def ring_slice_def)
  have en: "tx_entry ring (tx_phl_next_idx ring) = Some p"
    using tx_ring_get_simps(1) [OF assms(2,3)] tx_ring_take_eq [OF b] ne assms(4) by (simp add: Let_def)
  have q: "t_type (x_mdata req) = RTW_PHL_PKT_TYPE_MGNT" "payload req = payload (u_reqs st p)" "x_total_len req = length (payload req)"
    "wd_estimate req = wd_estimate (u_reqs st p)" "t_usb_pkt_ofst (x_mdata req) \<noteq> 1"
    using assms(6,7,11) by (simp_all add: req_def fill_mdata_def payload_def wd_estimate_def)
  have wl: "wd_estimate req = mac_txdesc_len (x_mdata req)" "mac_txdesc_len (x_mdata req) = 24 \<or> mac_txdesc_len (x_mdata req) = 48"
    using assms(6,10) by (auto simp: req_def fill_mdata_def wd_estimate_def mac_txdesc_len_def WD_BODY_BYTES_def WD_INFO_BYTES_def
        MAX_WD_LEN_def MAX_WD_BODY_LEN_def)
  have "\<not> bad_pktlen (x_mdata req)"
    using assms(7-9) by (simp add: req_def fill_mdata_def bad_pktlen_def word_unat_eq_iff unat_of_nat AX_TXD_TXPKTSIZE_def
        word_less_nat_alt ucast_of_nat_small)
  then obtain w where bd: "mac_build_txdesc (c_adapter cfg) (x_mdata req) (\<lambda>k. le_dword (ub_buffer (u_txb st b)) (0 + 4 * k))
      (mac_txdesc_len (x_mdata req)) = Some (MACSUCCESS, x_mdata req, w)" using build_mgnt [OF q(1) _ assms(12)] by blast
  have room: "\<not> tx_buf_size (c_bus_cap cfg) < to_u32 (ALIGN8_u32 (wd_estimate req + x_total_len req) + 0)"
    using assms(9,13) wl q al8_facts(2) [of "wd_estimate req + x_total_len req"] by (auto simp: ALIGN8_u32_eq to_u32_def)
  have big: "mac_txdesc_len (x_mdata req) + length (payload req) < 4294967296" using assms(9) q(2) wl(2) by auto
  have pne: "payload req \<noteq> []" using assms(8) q(2) by simp
  have fit: "phl_prepare_tx_usb cfg req 0 0 (ub_buffer (u_txb st b)) = None \<longleftrightarrow>
      length (ub_buffer (u_txb st b)) < wd_estimate (u_reqs st p) + length (payload (u_reqs st p))"
    using prepare_fits_iff [OF bd q(5) pne big wl(2)] wl q by simp
  have loop: "xmit_loop cfg rs (Suc busy) l = None \<longleftrightarrow> phl_prepare_tx_usb cfg req 0 0 (ub_buffer (u_txb st b)) = None"
    unfolding xmit_loop.simps(2) Let_def l_def using nx en room q(1)
    by (auto simp: xmit_init_def req_def [symmetric] xmit_align_def split: option.splits)
  have ty: "xmit_loop cfg rs (Suc busy) l = Some l' \<Longrightarrow> l_type l' = RTW_PHL_PKT_TYPE_MGNT" for l'
    unfolding xmit_loop.simps(2) Let_def l_def using nx en room q(1)
    by (auto simp: xmit_init_def req_def [symmetric] xmit_align_def split: option.splits if_splits)
  show ?thesis
  proof (cases "xmit_loop cfg rs (Suc busy) l")
    case None
    then show ?thesis using fit loop by (simp add: phl_handle_xmit_ring_usb_def assms(1) busy l_def [symmetric])
  next
    case (Some l')
    then have "phl_handle_xmit_ring_usb cfg os_tx rs b st \<noteq> None"
      using ty [OF Some] by (simp add: phl_handle_xmit_ring_usb_def assms(1) busy l_def [symmetric] Let_def split: prod.split)
    then show ?thesis using fit loop Some by simp
  qed
qed

section \<open>Examples\<close>

definition ex_txring :: "nat \<Rightarrow> rtw_phl_tx_ring" where
  "ex_txring tid = \<lparr>tx_tid = tid, tx_dma_ch = 0, tx_core_idx = 2, tx_phl_idx = 0, tx_phl_next_idx = 1,
     tx_entry = (\<lambda>_. None)(1 := Some 50, 2 := Some 51)\<rparr>"

definition ex_urs :: "nat \<Rightarrow> phl_ring_status" where
  "ex_urs tid = \<lparr>rs_obj = 0, rs_macid = 3, rs_band = 0, rs_wmm = 0, rs_port = 0, rs_req_busy = 2, rs_tid = tid\<rparr>"

definition ex_txcfg :: tx_cfg where
  "ex_txcfg = \<lparr>c_adapter = ex_adapter,
     c_bus_cap = \<lparr>tx_buf_size = 20480, tx_buf_num = 4, tx_mgnt_buf_size = 1536, tx_mgnt_buf_num = 1, tx_h2c_buf_num = 1\<rparr>,
     c_bulk_size = 512, c_max_wd = 4, c_tx_recycle = True, c_tx_test_recycle = False\<rparr>"

definition ex_xreq :: "rtw_packet_type \<Rightarrow> nat \<Rightarrow> rtw_xmit_req" where
  "ex_xreq ty n = \<lparr>x_treq_type = RTW_PHL_TREQ_TYPE_NORMAL, x_mdata = ex_txinfo\<lparr>t_type := ty\<rparr>, x_total_len = n,
     x_pkt_list = [None, Some (replicate n 7)]\<rparr>"

text \<open>Two requests in ring \<open>tid\<close> of the station with MAC id 3, of \<open>n\<close> bytes each.\<close>

definition ex_usb :: "nat \<Rightarrow> nat \<Rightarrow> rtw_packet_type \<Rightarrow> nat \<Rightarrow> usb_tx_st" where
  "ex_usb tid blen ty n = \<lparr>u_tx = tx_st_init\<lparr>t_ring_list := [\<lparr>tl_macid = 3, tl_band = 0, tl_wmm = 0, tl_port = 0,
       tl_phl_ring = map ex_txring [0..<10], tl_tx_plan = phl_init_tx_plan\<rparr>]\<rparr>,
     u_dp = ex_data, u_txb = (\<lambda>_. \<lparr>ub_buffer = replicate blen 0, ub_h2c = None, ub_type = ty\<rparr>),
     u_pool = \<lparr>idle_txbuf_list = pq_init, mgmt_txbuf_list = pq_init, h2c_txbuf_list = pq_init\<rparr>,
     u_reqs = (\<lambda>_. ex_xreq ty n),
     u_h2c = \<lparr>h2c_pkts = ex_h2c_mem, idle_h2c_pkt_cmd_list = pq_init, idle_h2c_pkt_data_list = pq_init,
              idle_h2c_pkt_ldata_list = pq_init, busy_h2c_pkt_list = pq_init\<rparr>,
     u_sent = [], u_recycled = []\<rparr>"

lemma ex_txring_content: "tx_ring_content (ex_txring tid) = [50, 51]" "tx_ring_invar (ex_txring tid)"
  by (auto simp: ex_txring_def tx_ring_content_def tx_ring_invar_def ring_slice_def MAX_PHL_RING_ENTRY_NUM_def
      upt_conv_Cons less_Suc_eq numeral_2_eq_2)

lemma ex_usb_ring:
  "tid < 10 \<Longrightarrow> \<exists>t. find (\<lambda>t. tl_macid t = rs_macid (ex_urs tid)) (t_ring_list (u_tx (ex_usb tid blen ty n))) = Some t \<and>
     rs_tid (ex_urs tid) < length (tl_phl_ring t) \<and> tl_phl_ring t ! rs_tid (ex_urs tid) = ex_txring tid"
  by (simp add: ex_usb_def ex_urs_def tx_st_init_def)

lemma ex_payload: "payload (ex_xreq ty n) = replicate n 7" "x_total_len (ex_xreq ty n) = n" "t_type (x_mdata (ex_xreq ty n)) = ty"
  "t_wdinfo_en (x_mdata (ex_xreq ty n)) = 1" "t_usb_pkt_ofst (x_mdata (ex_xreq ty n)) = 0" "wd_estimate (ex_xreq ty n) = 48"
  by (simp_all add: payload_def ex_xreq_def ex_txinfo_def wd_estimate_def MAX_WD_LEN_def)

theorem usb_aggregate_is_ring_prefix_witness:
  "\<exists>st' k bytes. phl_handle_xmit_ring_usb ex_txcfg True (ex_urs 0) 9 (ex_usb 0 20480 RTW_PHL_PKT_TYPE_DATA 100) =
       Some (st', RTW_PHL_STATUS_SUCCESS) \<and> 0 < k \<and> k \<le> 2 \<and> u_sent st' = [(9, bytes)] \<and> length bytes \<le> 20480 \<and>
       parse_agg k 0 bytes = map (\<lambda>p. (3, replicate 100 7)) (take k [50 :: nat, 51])"
proof -
  let ?st = "ex_usb 0 20480 RTW_PHL_PKT_TYPE_DATA 100"
  obtain t where t: "find (\<lambda>t. tl_macid t = rs_macid (ex_urs 0)) (t_ring_list (u_tx ?st)) = Some t"
    "rs_tid (ex_urs 0) < length (tl_phl_ring t)" "tl_phl_ring t ! rs_tid (ex_urs 0) = ex_txring 0" using ex_usb_ring by fastforce
  have c: "cfg_ok ex_txcfg (ex_urs 0)" "16432 \<le> tx_buf_size (c_bus_cap ex_txcfg)"
    by (simp_all add: cfg_ok_def ex_txcfg_def ex_adapter_def ex_urs_def)
  have r: "ring_ok (ex_txring 0)" "rs_req_busy (ex_urs 0) = length (tx_ring_content (ex_txring 0))"
    by (simp_all add: ring_ok_def ex_txring_content ex_urs_def) (simp add: ex_txring_def MAX_PHL_RING_ENTRY_NUM_def)
  have q: "u_reqs ?st p = ex_xreq RTW_PHL_PKT_TYPE_DATA 100" "length (ub_buffer (u_txb ?st 9)) = tx_buf_size (c_bus_cap ex_txcfg)" for p
    by (simp_all add: ex_usb_def ex_txcfg_def)
  have ok: "req_ok (ex_xreq RTW_PHL_PKT_TYPE_DATA 100)" by (simp add: req_ok_def ex_payload)
  have sent: "u_sent ?st = []" by (simp add: ex_usb_def)
  have k: "rs_macid (ex_urs 0) = 3" "rs_req_busy (ex_urs 0) = 2" "tx_buf_size (c_bus_cap ex_txcfg) = 20480"
    by (simp_all add: ex_urs_def ex_txcfg_def)
  have a: "ring_ok (tl_phl_ring t ! rs_tid (ex_urs 0))" "rs_req_busy (ex_urs 0) = length (tx_ring_content (tl_phl_ring t ! rs_tid (ex_urs 0)))"
    "tx_ring_content (tl_phl_ring t ! rs_tid (ex_urs 0)) \<noteq> []"
    "\<forall>p\<in>set (tx_ring_content (tl_phl_ring t ! rs_tid (ex_urs 0))). req_ok (u_reqs ?st p)"
    using r ok by (simp_all add: t(3) q(1) ex_txring_content)
  obtain st' k bytes ring' where h: "phl_handle_xmit_ring_usb ex_txcfg True (ex_urs 0) 9 ?st = Some (st', RTW_PHL_STATUS_SUCCESS)"
    "0 < k" "k \<le> rs_req_busy (ex_urs 0)" "u_sent st' = u_sent ?st @ [(9, bytes)]" "length bytes \<le> tx_buf_size (c_bus_cap ex_txcfg)"
    "parse_agg k 0 bytes = map (\<lambda>p. (rs_macid (ex_urs 0), payload (u_reqs ?st p))) (take k (tx_ring_content (tl_phl_ring t ! rs_tid (ex_urs 0))))"
    using usb_aggregate_is_ring_prefix [OF c t(1,2) a q(2)] by blast
  have "parse_agg k 0 bytes = map (\<lambda>p. (3, replicate 100 7)) (take k [50 :: nat, 51])"
    using h(6) unfolding t(3) ex_txring_content(1) q(1) ex_payload(1) k .
  moreover have "u_sent st' = [(9, bytes)]" "k \<le> 2" "length bytes \<le> 20480" using h(3-5) unfolding sent k by simp_all
  ultimately show ?thesis using h(1,2) by blast
qed

theorem mgnt_frame_overflow_iff_witness:
  "phl_handle_xmit_ring_usb ex_txcfg True (ex_urs 8) 9 (ex_usb 8 1536 RTW_PHL_PKT_TYPE_MGNT 1500) = None \<and>
   phl_handle_xmit_ring_usb ex_txcfg True (ex_urs 8) 9 (ex_usb 8 1536 RTW_PHL_PKT_TYPE_MGNT 1488) \<noteq> None"
proof -
  have "phl_handle_xmit_ring_usb ex_txcfg True (ex_urs 8) 9 (ex_usb 8 1536 RTW_PHL_PKT_TYPE_MGNT n) = None \<longleftrightarrow> 1536 < 48 + n"
    if n: "0 < n" "n \<le> 1500" for n
  proof -
    let ?st = "ex_usb 8 1536 RTW_PHL_PKT_TYPE_MGNT n"
    have p: "ring_ptr (ex_urs 8) (u_tx ?st) = Some (ex_txring 8)" using ex_usb_ring [of 8] by (fastforce simp: ring_ptr_def)
    have q: "u_reqs ?st p = ex_xreq RTW_PHL_PKT_TYPE_MGNT n" "length (ub_buffer (u_txb ?st 9)) = 1536" for p by (simp_all add: ex_usb_def)
    have "tx_phl_next_idx (ex_txring 8) = (tx_phl_idx (ex_txring 8) + 1) mod MAX_PHL_RING_ENTRY_NUM"
      by (simp add: ex_txring_def MAX_PHL_RING_ENTRY_NUM_def)
    moreover have "al8 (48 + n) \<le> tx_buf_size (c_bus_cap ex_txcfg)"
      using al8_facts(2) [of "48 + n"] n by (simp add: ex_txcfg_def)
    ultimately show ?thesis
      using mgnt_frame_overflow_iff [OF p ex_txring_content(2) ex_txring_content(1), where cfg = ex_txcfg and b = 9 and os_tx = True] n q
      by (simp add: ex_payload ex_urs_def ex_txcfg_def ex_adapter_def)
  qed
  from this [of 1500] this [of 1488] show ?thesis by simp
qed

end
