(* ===== verification/Phl_Usb_Flow.thy ===== *)
theory Phl_Usb_Flow
  imports Phl_Usb_Agg
begin

text \<open>
  The transmit side of the USB interface as a whole: runs of the handler, of finished transfers and of
  command packets neither lose nor duplicate a transmit buffer or a ring status.
\<close>

section \<open>Invariants\<close>

text \<open>
  The pool has the data buffers first, then the management buffers, then those of the command packets. Each buffer
  is once on the list of its own class or held outside, in flight on the bus.
\<close>

definition mgnt_first :: "bus_cap_t \<Rightarrow> nat" where
  "mgnt_first cap = tx_buf_num cap"

definition h2c_first :: "bus_cap_t \<Rightarrow> nat" where
  "h2c_first cap = tx_buf_num cap + tx_mgnt_buf_num cap"

definition txbuf_total :: "bus_cap_t \<Rightarrow> nat" where
  "txbuf_total cap = tx_buf_num cap + tx_mgnt_buf_num cap + tx_h2c_buf_num cap"

definition txb_inv :: "bus_cap_t \<Rightarrow> ptr multiset \<Rightarrow> phl_usb_tx_buf_resource \<Rightarrow> bool" where
  "txb_inv cap held pool \<longleftrightarrow> pq_wf (idle_txbuf_list pool) \<and> pq_wf (mgmt_txbuf_list pool) \<and> pq_wf (h2c_txbuf_list pool) \<and>
     mset (queue (idle_txbuf_list pool)) + filter_mset (\<lambda>b. b < mgnt_first cap) held = mset [0..<mgnt_first cap] \<and>
     mset (queue (mgmt_txbuf_list pool)) + filter_mset (\<lambda>b. mgnt_first cap \<le> b \<and> b < h2c_first cap) held =
       mset [mgnt_first cap..<h2c_first cap] \<and>
     mset (queue (h2c_txbuf_list pool)) + filter_mset (\<lambda>b. h2c_first cap \<le> b) held = mset [h2c_first cap..<txbuf_total cap]"

text \<open>The class of a buffer is its type, which no operation changes.\<close>

definition buf_class :: "bus_cap_t \<Rightarrow> ptr \<Rightarrow> rtw_packet_type" where
  "buf_class cap b = (if b < mgnt_first cap then RTW_PHL_PKT_TYPE_DATA
     else if b < h2c_first cap then RTW_PHL_PKT_TYPE_MGNT else RTW_PHL_PKT_TYPE_H2C)"

definition txb_typed :: "bus_cap_t \<Rightarrow> (ptr \<Rightarrow> phl_usb_buf) \<Rightarrow> bool" where
  "txb_typed cap txb \<longleftrightarrow> (\<forall>b<txbuf_total cap. ub_type (txb b) = buf_class cap b)"

lemma first_le: "mgnt_first cap \<le> h2c_first cap" "h2c_first cap \<le> txbuf_total cap"
  by (simp_all add: mgnt_first_def h2c_first_def txbuf_total_def)

lemma txb_facts:
  assumes "txb_inv cap held pool"
  shows "b \<in> set (queue (idle_txbuf_list pool)) \<Longrightarrow> b < mgnt_first cap"
    "b \<in> set (queue (mgmt_txbuf_list pool)) \<Longrightarrow> mgnt_first cap \<le> b \<and> b < h2c_first cap"
    "b \<in> set (queue (h2c_txbuf_list pool)) \<Longrightarrow> h2c_first cap \<le> b \<and> b < txbuf_total cap"
    "b \<in># held \<Longrightarrow> b < txbuf_total cap"
proof -
  have e: "mset (queue (idle_txbuf_list pool)) + filter_mset (\<lambda>b. b < mgnt_first cap) held = mset [0..<mgnt_first cap]"
    "mset (queue (mgmt_txbuf_list pool)) + filter_mset (\<lambda>b. mgnt_first cap \<le> b \<and> b < h2c_first cap) held =
       mset [mgnt_first cap..<h2c_first cap]"
    "mset (queue (h2c_txbuf_list pool)) + filter_mset (\<lambda>b. h2c_first cap \<le> b) held = mset [h2c_first cap..<txbuf_total cap]"
    using assms by (simp_all add: txb_inv_def)
  have s: "set (queue (idle_txbuf_list pool)) \<subseteq> {0..<mgnt_first cap}"
    "set (queue (mgmt_txbuf_list pool)) \<subseteq> {mgnt_first cap..<h2c_first cap}"
    "set (queue (h2c_txbuf_list pool)) \<union> {b. b \<in># held \<and> h2c_first cap \<le> b} = {h2c_first cap..<txbuf_total cap}"
    using arg_cong [OF e(1), of set_mset] arg_cong [OF e(2), of set_mset] arg_cong [OF e(3), of set_mset] by auto
  then show "b \<in> set (queue (idle_txbuf_list pool)) \<Longrightarrow> b < mgnt_first cap"
    "b \<in> set (queue (mgmt_txbuf_list pool)) \<Longrightarrow> mgnt_first cap \<le> b \<and> b < h2c_first cap"
    "b \<in> set (queue (h2c_txbuf_list pool)) \<Longrightarrow> h2c_first cap \<le> b \<and> b < txbuf_total cap" by auto
  show "b < txbuf_total cap" if "b \<in># held"
    using s(3) that first_le(2) [of cap] by (cases "h2c_first cap \<le> b") auto
qed

text \<open>Between two runs of the handler all ring status objects are idle and every plan is empty.\<close>

definition sts_inv :: "tx_st \<Rightarrow> bool" where
  "sts_inv tx \<longleftrightarrow> t_fctrl_result tx = [] \<and> (\<forall>t\<in>set (t_ring_list tx). tl_tx_plan t = phl_init_tx_plan) \<and>
     mset (ring_sts_idle tx) = mset [0..<MAX_PHL_RING_STATUS_NUMBER]"

lemma enqueue_wf: "pq_wf q \<Longrightarrow> pq_wf (fst (enqueue_usb_buf q (Some b) pos)) \<and>
    mset (queue (fst (enqueue_usb_buf q (Some b) pos))) = add_mset b (mset (queue q)) \<and>
    snd (enqueue_usb_buf q (Some b) pos) = RTW_PHL_STATUS_SUCCESS"
  by (simp add: enqueue_usb_buf_def pq_wf_def)

lemma dequeue_wf:
  "pq_wf q \<Longrightarrow> dequeue_usb_buf q = (q', r) \<Longrightarrow>
     pq_wf q' \<and> mset (queue q) = (case r of None \<Rightarrow> {#} | Some b \<Rightarrow> {#b#}) + mset (queue q')"
  by (auto simp: dequeue_usb_buf_def pq_wf_def split: list.splits)

section \<open>Ring status objects\<close>

definition plan_objs :: "rtw_phl_tring_list list \<Rightarrow> ptr multiset" where
  "plan_objs ts = image_mset rs_obj (mset (concat (map (\<lambda>t. tp_sorted_ring (tl_tx_plan t)) ts)))"

lemma sort_mset: "mset (tp_sorted_ring (phl_sort_ring_by_tid r cat plan)) = add_mset r (mset (tp_sorted_ring plan))"
proof -
  have "l \<noteq> [] \<Longrightarrow> add_mset (last l) (mset (butlast l)) = mset l" for l :: "phl_ring_status list"
    by (induction l rule: rev_induct) simp_all
  then show ?thesis by (auto simp: phl_sort_ring_by_tid_def Let_def)
qed

lemma sort_plan_ok: "plan_ok plan \<Longrightarrow> plan_ok (phl_sort_ring_by_tid r cat plan)"
proof -
  assume "plan_ok plan"
  moreover have "length (tp_sorted_ring (phl_sort_ring_by_tid r cat plan)) = Suc (length (tp_sorted_ring plan))"
    using arg_cong [OF sort_mset, of size r cat plan] by simp
  ultimately show ?thesis
    by (auto simp: plan_ok_def phl_sort_ring_by_tid_def Let_def split: if_splits)
qed

lemma check_rings_sts:
  "check_rings is idle t = (idle', t') \<Longrightarrow> plan_ok (tl_tx_plan t) \<Longrightarrow>
     mset idle' + image_mset rs_obj (mset (tp_sorted_ring (tl_tx_plan t'))) =
       mset idle + image_mset rs_obj (mset (tp_sorted_ring (tl_tx_plan t))) \<and>
     plan_ok (tl_tx_plan t') \<and> (tp_sorted_ring (tl_tx_plan t') = [] \<longrightarrow> tl_tx_plan t' = tl_tx_plan t) \<and>
     (tp_sleep (tl_tx_plan t') = tp_sleep (tl_tx_plan t))"
proof (induction "is" arbitrary: idle t)
  case Nil
  then show ?case by simp
next
  case (Cons i "is")
  obtain idle1 ring1 r where c: "phl_check_ring_status idle t (tl_phl_ring t ! i) = (idle1, ring1, r)" using prod_cases3 by blast
  show ?case
  proof (cases r)
    case None
    then have "mset idle1 = mset idle" using c
      by (auto simp: phl_check_ring_status_def Let_def phl_alloc_ring_sts_def split: if_splits list.splits)
    then show ?thesis using Cons.IH [of idle1 "t\<lparr>tl_phl_ring := (tl_phl_ring t)[i := ring1]\<rparr>"] Cons.prems c None by simp
  next
    case (Some rs)
    let ?t = "t\<lparr>tl_phl_ring := (tl_phl_ring t)[i := ring1], tl_tx_plan := phl_sort_ring_by_tid rs i (tl_tx_plan t)\<rparr>"
    have idle: "mset idle = add_mset (rs_obj rs) (mset idle1)" using c Some
      by (auto simp: phl_check_ring_status_def Let_def phl_alloc_ring_sts_def split: if_splits list.splits)
    have r: "check_rings is idle1 ?t = (idle', t')" using Cons.prems(1) c Some by simp
    note IH = Cons.IH [OF r, simplified, OF sort_plan_ok [OF Cons.prems(2)]]
    have m: "mset idle' + image_mset rs_obj (mset (tp_sorted_ring (tl_tx_plan t'))) =
        mset idle + image_mset rs_obj (mset (tp_sorted_ring (tl_tx_plan t)))"
      using IH by (simp add: sort_mset idle)
    have "tp_sorted_ring (phl_sort_ring_by_tid rs i (tl_tx_plan t)) \<noteq> []"
      using sort_mset [of rs i "tl_tx_plan t"] by auto
    then show ?thesis using IH m by (auto simp: sort_sleep)
  qed
qed

lemma check_lists_sts:
  "check_tring_lists idle ts = (idle', ts', bs) \<Longrightarrow> \<forall>t\<in>set ts. tl_tx_plan t = phl_init_tx_plan \<Longrightarrow>
     mset idle' + plan_objs ts' = mset idle \<and> length bs = length ts' \<and> (\<forall>t\<in>set ts'. plan_ok (tl_tx_plan t)) \<and>
     list_all2 (\<lambda>t b. b \<or> tl_tx_plan t = phl_init_tx_plan) ts' bs"
proof (induction ts arbitrary: idle idle' ts' bs)
  case Nil
  then show ?case by (simp add: plan_objs_def)
next
  case (Cons t ts)
  obtain idle1 t1 b where c: "phl_check_tring_list idle t = (idle1, t1, b)" using prod_cases3 by blast
  obtain ts1 bs1 where d: "check_tring_lists idle1 ts = (idle', ts1, bs1)" "ts' = t1 # ts1" "bs = b # bs1"
    using Cons.prems(1) c by (auto split: prod.splits)
  obtain t2 where r: "check_rings [0..<MAX_PHL_RING_CAT_NUM] idle t = (idle1, t2)" "t1 = t2" "b = (tp_sorted_ring (tl_tx_plan t2) \<noteq> [])"
    using c by (auto simp: phl_check_tring_list_def split: prod.splits)
  have p: "plan_ok (tl_tx_plan t)" "tl_tx_plan t = phl_init_tx_plan" using Cons.prems(2) by (simp_all add: plan_ok_def phl_init_tx_plan_def)
  note m = check_rings_sts [OF r(1) p(1)]
  have "tp_sorted_ring (tl_tx_plan t) = []" using p(2) by (simp add: phl_init_tx_plan_def)
  then have i: "mset idle1 + image_mset rs_obj (mset (tp_sorted_ring (tl_tx_plan t1))) = mset idle" using m r(2) by simp
  note IH = Cons.IH [OF d(1)]
  have "mset idle' + plan_objs ts' = mset idle" using IH Cons.prems(2) i d(2) by (simp add: plan_objs_def) (metis union_assoc union_commute)
  then show ?case using IH Cons.prems(2) m p(2) r(2,3) d(2,3) by auto
qed

text \<open>With every plan visited or empty, the flow control hands out what the plans hold.\<close>

lemma flow_sts:
  assumes "length bs = length (t_ring_list tx)" "\<forall>t\<in>set (t_ring_list tx). plan_ok (tl_tx_plan t)"
    "list_all2 (\<lambda>t b. b \<or> tl_tx_plan t = phl_init_tx_plan) (t_ring_list tx) bs" "t_fctrl_result tx = []"
  shows "mset (ring_sts_idle (phl_tx_flow_ctrl bs tx)) + image_mset rs_obj (mset (t_fctrl_result (phl_tx_flow_ctrl bs tx))) =
      mset (ring_sts_idle tx) + plan_objs (t_ring_list tx)"
    "\<forall>t\<in>set (t_ring_list (phl_tx_flow_ctrl bs tx)). tl_tx_plan t = phl_init_tx_plan"
proof -
  let ?ts = "zip (t_ring_list tx) bs"
  obtain ts' res' te' idle' where f: "flow_plans ?ts (t_fctrl_result tx, (\<lambda>_. None), ring_sts_idle tx) = (ts', res', te', idle')"
    using prod_cases4 by blast
  have e: "t_fctrl_result (phl_tx_flow_ctrl bs tx) = res'" "ring_sts_idle (phl_tx_flow_ctrl bs tx) = idle'"
    "t_ring_list (phl_tx_flow_ctrl bs tx) = ts'" by (simp_all add: phl_tx_flow_ctrl_def f)
  have "\<forall>(t, on)\<in>set ?ts. plan_ok (tl_tx_plan t)" using assms(2) by (auto dest: set_zip_leftD)
  moreover have "entries_ok (\<lambda>_. None) (t_fctrl_result tx)" by (simp add: entries_ok_def)
  ultimately have M: "mset idle' + image_mset rs_obj (mset res') =
      mset (ring_sts_idle tx) + image_mset rs_obj (mset (t_fctrl_result tx) + mset (on_plans ?ts))"
    and t: "ts' = map (\<lambda>(t, on). if on then t\<lparr>tl_tx_plan := phl_init_tx_plan\<rparr> else t) ?ts"
    using flow_plans_mset [OF _ _ f] by blast+
  have m: "mset idle' + image_mset rs_obj (mset res') = mset (ring_sts_idle tx) + image_mset rs_obj (mset (on_plans ?ts))"
    using M assms(4) by simp
  have "on_plans (zip ts bs) = concat (map (\<lambda>t. tp_sorted_ring (tl_tx_plan t)) ts)"
    if "list_all2 (\<lambda>t b. b \<or> tl_tx_plan t = phl_init_tx_plan) ts bs" for ts bs
    using that by (induction rule: list_all2_induct) (auto simp: on_plans_def phl_init_tx_plan_def)
  from this [OF assms(3)] show "mset (ring_sts_idle (phl_tx_flow_ctrl bs tx)) +
      image_mset rs_obj (mset (t_fctrl_result (phl_tx_flow_ctrl bs tx))) = mset (ring_sts_idle tx) + plan_objs (t_ring_list tx)"
    using m e by (simp add: plan_objs_def)
  have "\<forall>x\<in>set (zip ts bs). snd x \<or> tl_tx_plan (fst x) = phl_init_tx_plan"
    if "list_all2 (\<lambda>t b. b \<or> tl_tx_plan t = phl_init_tx_plan) ts bs" for ts bs
    using that by (auto simp: list_all2_iff)
  from this [OF assms(3)] show "\<forall>t\<in>set (t_ring_list (phl_tx_flow_ctrl bs tx)). tl_tx_plan t = phl_init_tx_plan"
    unfolding e t by auto
qed

section \<open>The rings of one run\<close>

lemma set_ring_plans: "map tl_tx_plan (set_ring m tid ring ts) = map tl_tx_plan ts"
  by (induction ts) auto

text \<open>The class of a buffer that a ring may use: a ring of the management TID has management buffers.\<close>

definition ring_buf :: "bus_cap_t \<Rightarrow> nat \<Rightarrow> ptr \<Rightarrow> bool" where
  "ring_buf cap tid b \<longleftrightarrow> (if tid = MGMT_TID then mgnt_first cap \<le> b \<and> b < h2c_first cap else b < mgnt_first cap)"

lemma requeue_inv:
  assumes "txb_inv cap (add_mset b held) (u_pool st)" "ring_buf cap tid b"
  shows "txb_inv cap held (u_pool (fst (requeue_txbuf tid b st)))" "u_sent (fst (requeue_txbuf tid b st)) = u_sent st"
    "u_tx (fst (requeue_txbuf tid b st)) = u_tx st" "u_txb (fst (requeue_txbuf tid b st)) = u_txb st"
  using assms first_le [of cap]
  by (auto simp: requeue_txbuf_def txb_inv_def ring_buf_def enqueue_usb_buf_def pq_wf_def ac_simps split: prod.splits if_splits)

lemma handle_conserves:
  assumes "phl_handle_xmit_ring_usb cfg os_tx rs b st = Some (st', s)" "txb_inv cap (add_mset b held) (u_pool st)"
    and cl: "\<And>tring. ring_ptr rs (u_tx st) = Some tring \<Longrightarrow> ring_buf cap (tx_tid tring) b"
  shows "\<exists>sent. u_sent st' = u_sent st @ sent \<and> txb_inv cap (held + mset (map fst sent)) (u_pool st') \<and>
     (\<forall>x. ub_type (u_txb st' x) = ub_type (u_txb st x)) \<and>
     ring_sts_idle (u_tx st') = ring_sts_idle (u_tx st) @ [rs_obj rs] \<and>
     map tl_tx_plan (t_ring_list (u_tx st')) = map tl_tx_plan (t_ring_list (u_tx st)) \<and>
     t_fctrl_result (u_tx st') = t_fctrl_result (u_tx st)"
proof -
  let ?B = "\<lambda>l. if l_status l = RTW_PHL_STATUS_SUCCESS \<and> l_type l = RTW_PHL_PKT_TYPE_DATA \<and> 1 < l_agg_cnt l
      then usb_agg_num (l_agg_cnt l) (l_buf l) else Some (l_buf l)"
  obtain tring where h1: "ring_ptr rs (u_tx st) = Some tring"
    using assms(1) by (cases "ring_ptr rs (u_tx st)") (simp_all add: phl_handle_xmit_ring_usb_def)
  obtain l where h2: "xmit_loop cfg rs (rs_req_busy rs) (xmit_init tring (u_reqs st) (ub_buffer (u_txb st b))) = Some l"
    using assms(1) h1 by (cases "xmit_loop cfg rs (rs_req_busy rs) (xmit_init tring (u_reqs st) (ub_buffer (u_txb st b)))")
      (simp_all add: phl_handle_xmit_ring_usb_def)
  have "?B l \<noteq> None"
  proof
    assume "?B l = None"
    then show False using assms(1) unfolding phl_handle_xmit_ring_usb_def h1 h2 option.case by simp
  qed
  then obtain buf where h3: "?B l = Some buf" by blast
  note h = h1 h2 h3
  define st1 where "st1 = st\<lparr>u_reqs := l_reqs l, u_recycled := u_recycled st @ l_recycled l,
      u_tx := (u_tx st)\<lparr>t_ring_list := set_ring (rs_macid rs) (rs_tid rs) (l_ring l) (t_ring_list (u_tx st))\<rparr>,
      u_txb := (u_txb st)(b := (u_txb st b)\<lparr>ub_buffer := buf\<rparr>)\<rparr>"
  have s1: "u_pool st1 = u_pool st" "u_sent st1 = u_sent st" "\<And>x. ub_type (u_txb st1 x) = ub_type (u_txb st x)"
    by (simp_all add: st1_def)
  have e: "st' = release_status rs (if l_status l = RTW_PHL_STATUS_SUCCESS \<and> os_tx
        then st1\<lparr>u_sent := u_sent st1 @ [(b, take (l_tx_len l) buf)]\<rparr> else fst (requeue_txbuf (tx_tid tring) b st1))"
    using assms(1) unfolding phl_handle_xmit_ring_usb_def h option.case Let_def st1_def [symmetric] by (auto split: if_splits prod.splits)
  have tx: "map tl_tx_plan (t_ring_list (u_tx st1)) = map tl_tx_plan (t_ring_list (u_tx st))" "ring_sts_idle (u_tx st1) = ring_sts_idle (u_tx st)"
    "t_fctrl_result (u_tx st1) = t_fctrl_result (u_tx st)" by (simp_all add: st1_def set_ring_plans)
  show ?thesis
  proof (cases "l_status l = RTW_PHL_STATUS_SUCCESS \<and> os_tx")
    case True
    then have "u_sent st' = u_sent st @ [(b, take (l_tx_len l) buf)]" "u_pool st' = u_pool st" by (simp_all add: e release_status_def s1)
    then show ?thesis using assms(2) tx True s1(3) by (intro exI [of _ "[(b, take (l_tx_len l) buf)]"]) (simp add: e release_status_def phl_release_ring_sts_def)
  next
    case False
    then show ?thesis using requeue_inv [of cap b held st1 "tx_tid tring"] assms(2) cl [OF h1] tx s1
      by (intro exI [of _ "[]"]) (simp add: e release_status_def phl_release_ring_sts_def)
  qed
qed

lemma flow_ctrl_usb_conserves:
  assumes "phl_tx_flow_ctrl_usb rs st = Some (st', r)" "txb_inv cap held (u_pool st)"
  shows "u_sent st' = u_sent st \<and> txb_inv cap (held + (case r of None \<Rightarrow> {#} | Some b \<Rightarrow> {#b#})) (u_pool st') \<and>
     ring_sts_idle (u_tx st') = ring_sts_idle (u_tx st) @ (case r of None \<Rightarrow> [rs_obj rs] | Some _ \<Rightarrow> []) \<and> u_txb st' = u_txb st \<and>
     t_ring_list (u_tx st') = t_ring_list (u_tx st) \<and> t_fctrl_result (u_tx st') = t_fctrl_result (u_tx st) \<and>
     (\<forall>b. r = Some b \<longrightarrow> (\<exists>tring. ring_ptr rs (u_tx st) = Some tring \<and> ring_buf cap (tx_tid tring) b))"
proof -
  obtain tring where t: "ring_ptr rs (u_tx st) = Some tring"
    using assms(1) by (cases "ring_ptr rs (u_tx st)") (simp_all add: phl_tx_flow_ctrl_usb_def)
  note f = txb_facts [OF assms(2)] and le = first_le [of cap]
  show ?thesis
  proof (cases "tx_tid tring = MGMT_TID")
    case True
    show ?thesis
    proof (cases "queue (mgmt_txbuf_list (u_pool st))")
      case (Cons b bs)
      have b: "mgnt_first cap \<le> b" "b < h2c_first cap" using f(2) [of b] Cons by auto
      then show ?thesis using assms True Cons t
        by (auto simp: phl_tx_flow_ctrl_usb_def dequeue_usb_buf_def txb_inv_def pq_wf_def ring_buf_def)
    qed (use assms True t in \<open>auto simp: phl_tx_flow_ctrl_usb_def dequeue_usb_buf_def txb_inv_def release_status_def phl_release_ring_sts_def\<close>)
  next
    case False
    show ?thesis
    proof (cases "queue (idle_txbuf_list (u_pool st))")
      case (Cons b bs)
      have b: "b < mgnt_first cap" using f(1) [of b] Cons by auto
      then show ?thesis using assms False Cons t le
        by (auto simp: phl_tx_flow_ctrl_usb_def dequeue_usb_buf_def txb_inv_def pq_wf_def ring_buf_def)
    qed (use assms False t in \<open>auto simp: phl_tx_flow_ctrl_usb_def dequeue_usb_buf_def txb_inv_def release_status_def phl_release_ring_sts_def\<close>)
  qed
qed

lemma tx_rings_conserve:
  "tx_rings cfg os_tx i rss st = Some st' \<Longrightarrow> txb_inv cap held (u_pool st) \<Longrightarrow>
   \<exists>sent. u_sent st' = u_sent st @ sent \<and> txb_inv cap (held + mset (map fst sent)) (u_pool st') \<and>
     (\<forall>x. ub_type (u_txb st' x) = ub_type (u_txb st x)) \<and>
     mset (ring_sts_idle (u_tx st')) = mset (ring_sts_idle (u_tx st)) + image_mset rs_obj (mset rss) \<and>
     map tl_tx_plan (t_ring_list (u_tx st')) = map tl_tx_plan (t_ring_list (u_tx st)) \<and> t_fctrl_result (u_tx st') = []"
proof (induction rss arbitrary: i st held)
  case Nil
  then show ?case by auto
next
  case (Cons rs rss)
  obtain st1 r where f: "phl_tx_flow_ctrl_usb rs st = Some (st1, r)"
    using Cons.prems(1) by (cases "phl_tx_flow_ctrl_usb rs st") auto
  note c = flow_ctrl_usb_conserves [OF f Cons.prems(2)]
  show ?case
  proof (cases r)
    case None
    then have "tx_rings cfg os_tx (i + 1) rss st1 = Some st'" using Cons.prems(1) f by simp
    from Cons.IH [OF this, of held] c None show ?thesis by auto
  next
    case (Some b)
    then obtain st2 s where h: "phl_handle_xmit_ring_usb cfg (os_tx i) rs b st1 = Some (st2, s)"
      and t: "tx_rings cfg os_tx (i + 1) rss st2 = Some st'" using Cons.prems(1) f by (auto split: option.splits)
    have "txb_inv cap (add_mset b held) (u_pool st1)" using c Some by simp
    moreover have "ring_ptr rs (u_tx st1) = ring_ptr rs (u_tx st)" using c by (simp add: ring_ptr_def)
    ultimately obtain sent where d: "u_sent st2 = u_sent st1 @ sent"
      "txb_inv cap (held + mset (map fst sent)) (u_pool st2)" "ring_sts_idle (u_tx st2) = ring_sts_idle (u_tx st1) @ [rs_obj rs]"
      "map tl_tx_plan (t_ring_list (u_tx st2)) = map tl_tx_plan (t_ring_list (u_tx st1))"
      "\<And>x. ub_type (u_txb st2 x) = ub_type (u_txb st1 x)"
      using handle_conserves [OF h, of cap held] c Some by auto
    from Cons.IH [OF t d(2)] obtain sent2 where g: "u_sent st' = u_sent st2 @ sent2"
      "txb_inv cap (held + mset (map fst sent) + mset (map fst sent2)) (u_pool st')"
      "mset (ring_sts_idle (u_tx st')) = mset (ring_sts_idle (u_tx st2)) + image_mset rs_obj (mset rss)"
      "map tl_tx_plan (t_ring_list (u_tx st')) = map tl_tx_plan (t_ring_list (u_tx st2))" "t_fctrl_result (u_tx st') = []"
      "\<And>x. ub_type (u_txb st' x) = ub_type (u_txb st2 x)" by blast
    show ?thesis using c d g Some by (intro exI [of _ "sent @ sent2"]) (simp add: add.assoc)
  qed
qed

lemma free_deferred_frame:
  "phl_free_deferred_tx_ring tx = Some tx' \<Longrightarrow> t_ring_list tx' = t_ring_list tx \<and> ring_sts_idle tx' = ring_sts_idle tx \<and>
     t_fctrl_result tx' = t_fctrl_result tx"
  by (auto simp: phl_free_deferred_tx_ring_def split: option.splits)

lemma plans_eq: "map tl_tx_plan ts = map tl_tx_plan ts' \<Longrightarrow> \<forall>t\<in>set ts'. tl_tx_plan t = p \<Longrightarrow> \<forall>t\<in>set ts. tl_tx_plan t = p"
  by (metis (mono_tags, lifting) image_eqI image_iff list.set_map)

lemma callback_conserves:
  assumes cb: "phl_tx_callback_usb cfg send_ok ps os_tx st = Some st'" and inv: "txb_inv cap held (u_pool st)" "sts_inv (u_tx st)"
  shows "\<exists>sent. u_sent st' = u_sent st @ sent \<and> txb_inv cap (held + mset (map fst sent)) (u_pool st') \<and> sts_inv (u_tx st') \<and>
    (\<forall>x. ub_type (u_txb st' x) = ub_type (u_txb st x))"
proof -
  obtain dp1 b where p: "phl_datapath_chk_trx_pause send_ok PHL_CTRL_TX ((u_dp st)\<lparr>sw_tx_more := phl_sw_tx_more (u_tx st)\<rparr>) = (dp1, b)"
    by fastforce
  have idle: ?thesis if "phl_free_deferred_tx_ring (u_tx st) = Some tx" "st' = s\<lparr>u_tx := tx\<rparr>" "u_sent s = u_sent st" "u_pool s = u_pool st" "u_txb s = u_txb st" for s tx
    using that inv free_deferred_frame [OF that(1)] by (intro exI [of _ "[]"]) (auto simp: sts_inv_def)
  have c: "\<forall>t\<in>set (t_ring_list (u_tx st)). tl_tx_plan t = phl_init_tx_plan" "t_fctrl_result (u_tx st) = []"
    "mset (ring_sts_idle (u_tx st)) = mset [0..<MAX_PHL_RING_STATUS_NUMBER]" using inv(2) by (auto simp: sts_inv_def)
  obtain idle' ts' bs where k: "check_tring_lists (ring_sts_idle (u_tx st)) (t_ring_list (u_tx st)) = (idle', ts', bs)" using prod_cases3 by blast
  note K = check_lists_sts [OF k c(1)]
  define tx1 where "tx1 = (u_tx st)\<lparr>ring_sts_idle := idle', t_ring_list := ts', phl_sw_tx_more := False\<rparr>"
  consider (paused) "b" | (ps) "\<not> b" "phl_sw_tx_more (u_tx st) \<and> \<not> ps" | (none) "\<not> b" "\<not> (phl_sw_tx_more (u_tx st) \<and> \<not> ps)" "True \<notin> set bs"
    | (busy) "\<not> b" "\<not> (phl_sw_tx_more (u_tx st) \<and> \<not> ps)" "True \<in> set bs" by blast
  then show ?thesis
  proof cases
    case paused
    then show ?thesis using cb p idle by (auto simp: phl_tx_callback_usb_def Let_def)
  next
    case ps
    then show ?thesis using cb p idle by (auto simp: phl_tx_callback_usb_def Let_def)
  next
    case none
    have "list_all2 (\<lambda>t b. b \<or> tl_tx_plan t = phl_init_tx_plan) xs ys \<Longrightarrow> True \<notin> set ys \<Longrightarrow>
        \<forall>t\<in>set xs. tl_tx_plan t = phl_init_tx_plan" for xs ys by (induction rule: list_all2_induct) auto
    then have "\<forall>t\<in>set ts'. tl_tx_plan t = phl_init_tx_plan" using K none(3) by blast
    moreover have "plan_objs ts' = {#}" using calculation by (auto simp: plan_objs_def phl_init_tx_plan_def)
    ultimately have s: "sts_inv tx1" using K c by (simp add: sts_inv_def tx1_def)
    obtain tx where "phl_free_deferred_tx_ring tx1 = Some tx" "u_tx st' = tx" "u_sent st' = u_sent st" "u_pool st' = u_pool st" "u_txb st' = u_txb st"
      using cb p none by (auto simp: phl_tx_callback_usb_def Let_def phl_check_xmit_ring_resource_def k tx1_def [symmetric])
    then show ?thesis using s inv(1) free_deferred_frame [of tx1 tx] by (intro exI [of _ "[]"]) (auto simp: sts_inv_def)
  next
    case busy
    define tx2 where "tx2 = phl_tx_flow_ctrl bs tx1"
    define s where "s = st\<lparr>u_dp := dp1\<lparr>sw_tx_more := phl_sw_tx_more tx1\<rparr>, u_tx := tx2\<rparr>"
    have "phl_tx_callback_usb cfg send_ok ps os_tx st = Option.bind (tx_rings cfg os_tx 0 (t_fctrl_result tx2) s)
        (\<lambda>s. map_option (\<lambda>t. s\<lparr>u_dp := tx_callback_chk_stop (u_dp s), u_tx := t\<rparr>) (phl_free_deferred_tx_ring (u_tx s)))"
      using p busy by (auto simp: phl_tx_callback_usb_def Let_def phl_check_xmit_ring_resource_def k tx1_def [symmetric]
          tx2_def [symmetric] s_def)
    with cb obtain s1 tx where r: "tx_rings cfg os_tx 0 (t_fctrl_result tx2) s = Some s1" "u_tx s = tx2" "u_sent s = u_sent st" "u_pool s = u_pool st"
      "phl_free_deferred_tx_ring (u_tx s1) = Some tx" "u_tx st' = tx" "u_sent st' = u_sent s1" "u_pool st' = u_pool s1"
      "u_txb st' = u_txb s1" "u_txb s = u_txb st"
      by (auto simp: bind_eq_Some_conv s_def)
    have pr: "length bs = length (t_ring_list tx1)" "\<forall>t\<in>set (t_ring_list tx1). plan_ok (tl_tx_plan t)"
      "list_all2 (\<lambda>t b. b \<or> tl_tx_plan t = phl_init_tx_plan) (t_ring_list tx1) bs" "t_fctrl_result tx1 = []"
      using K c(2) by (simp_all add: tx1_def)
    note F = flow_sts [OF pr, folded tx2_def]
    have "mset (ring_sts_idle tx1) + plan_objs (t_ring_list tx1) = mset [0..<MAX_PHL_RING_STATUS_NUMBER]"
      using K c(3) by (simp add: tx1_def)
    then have f: "mset (ring_sts_idle tx2) + image_mset rs_obj (mset (t_fctrl_result tx2)) = mset [0..<MAX_PHL_RING_STATUS_NUMBER]"
      "\<forall>t\<in>set (t_ring_list tx2). tl_tx_plan t = phl_init_tx_plan" using F by simp_all
    obtain sent where g: "u_sent s1 = u_sent s @ sent" "txb_inv cap (held + mset (map fst sent)) (u_pool s1)"
      "mset (ring_sts_idle (u_tx s1)) = mset (ring_sts_idle (u_tx s)) + image_mset rs_obj (mset (t_fctrl_result tx2))"
      "map tl_tx_plan (t_ring_list (u_tx s1)) = map tl_tx_plan (t_ring_list (u_tx s))" "t_fctrl_result (u_tx s1) = []"
      "\<And>x. ub_type (u_txb s1 x) = ub_type (u_txb s x)"
      using tx_rings_conserve [OF r(1), of cap held] inv(1) r(4) by auto
    have "sts_inv (u_tx s1)" using g(3,5) f(1) plans_eq [OF g(4)] f(2) r(2) by (simp add: sts_inv_def)
    then have "sts_inv tx" using free_deferred_frame [OF r(5)] by (simp add: sts_inv_def)
    then show ?thesis using g r by auto
  qed
qed

section \<open>Runs\<close>

text \<open>
  A state is the buffers in flight and the transmit side. The handler runs, the bus finishes a transfer,
  the core submits a request, the HAL sends a command packet, which is in flight unless the bus driver
  refuses it.
\<close>

inductive usb_tx_step :: "tx_cfg \<Rightarrow> ptr multiset \<times> usb_tx_st \<Rightarrow> ptr multiset \<times> usb_tx_st \<Rightarrow> bool" for cfg where
  handler: "phl_tx_callback_usb cfg send_ok ps os_tx st = Some st' \<Longrightarrow> u_sent st' = u_sent st @ sent \<Longrightarrow>
    usb_tx_step cfg (held, st) (held + mset (map fst sent), st')"
| complete: "b \<in># held \<Longrightarrow> phl_tx_release_buf_usb b st = Some (st', s) \<Longrightarrow> usb_tx_step cfg (held, st) (held - {#b#}, st')"
| submit: "rtw_phl_add_tx_req macid tid req (u_tx st) = (tx, s, upd) \<Longrightarrow>
    usb_tx_step cfg (held, st) (held, st\<lparr>u_tx := tx, u_reqs := reqs\<rparr>)"
| command: "phl_pltfm_tx_usb os_tx pkt st = Some (st', s) \<Longrightarrow> dequeue_usb_buf (h2c_txbuf_list (u_pool st)) = (q, r) \<Longrightarrow>
    flight = (case r of None \<Rightarrow> {#} | Some b \<Rightarrow> if os_tx = RTW_PHL_STATUS_FAILURE then {#} else {#b#}) \<Longrightarrow>
    usb_tx_step cfg (held, st) (held + flight, st')"

lemma submit_sts:
  assumes "rtw_phl_add_tx_req macid tid req tx = (tx', s, upd)" "sts_inv tx"
  shows "sts_inv tx'"
proof -
  have "add_to_tring macid tid req ts = Some (ts', s') \<Longrightarrow> map tl_tx_plan ts' = map tl_tx_plan ts" for ts ts' s'
    by (induction ts arbitrary: ts') (auto split: if_splits prod.splits)
  then show ?thesis using assms plans_eq
    by (auto simp: rtw_phl_add_tx_req_def sts_inv_def split: option.splits prod.splits if_splits) blast
qed

lemma release_buf_inv:
  assumes "phl_tx_release_buf_usb b st = Some (st', s)" "txb_inv cap (add_mset b held) (u_pool st)" "txb_typed cap (u_txb st)"
  shows "txb_inv cap held (u_pool st') \<and> (\<forall>x. ub_type (u_txb st' x) = ub_type (u_txb st x)) \<and> u_tx st' = u_tx st"
proof -
  have "ub_type (u_txb st b) = buf_class cap b" using assms(3) txb_facts(4) [OF assms(2), of b] by (simp add: txb_typed_def)
  then show ?thesis using assms(1,2) first_le [of cap]
    by (auto simp: phl_tx_release_buf_usb_def txb_inv_def buf_class_def enqueue_usb_buf_def pq_wf_def split: if_splits option.splits)
qed

lemma command_inv:
  assumes "phl_pltfm_tx_usb os_tx pkt st = Some (st', s)" "dequeue_usb_buf (h2c_txbuf_list (u_pool st)) = (q, r)" "txb_inv cap held (u_pool st)"
    "flight = (case r of None \<Rightarrow> {#} | Some b \<Rightarrow> if os_tx = RTW_PHL_STATUS_FAILURE then {#} else {#b#})"
  shows "txb_inv cap (held + flight) (u_pool st') \<and> (\<forall>x. ub_type (u_txb st' x) = ub_type (u_txb st x)) \<and> u_tx st' = u_tx st"
proof (cases "queue (h2c_txbuf_list (u_pool st))")
  case Nil
  then show ?thesis using assms by (auto simp: phl_pltfm_tx_usb_def dequeue_usb_buf_def)
next
  case (Cons b bs)
  have "h2c_first cap \<le> b" using txb_facts(3) [OF assms(3), of b] Cons by simp
  then show ?thesis using assms Cons first_le [of cap]
    by (auto simp: phl_pltfm_tx_usb_def dequeue_usb_buf_def txb_inv_def enqueue_usb_buf_def pq_wf_def Let_def
        split: if_splits option.splits)
qed

definition usb_tx_inv :: "bus_cap_t \<Rightarrow> ptr multiset \<times> usb_tx_st \<Rightarrow> bool" where
  "usb_tx_inv cap s \<longleftrightarrow> txb_inv cap (fst s) (u_pool (snd s)) \<and> txb_typed cap (u_txb (snd s)) \<and> sts_inv (u_tx (snd s))"

lemma usb_tx_step_inv: "usb_tx_step cfg s s' \<Longrightarrow> usb_tx_inv cap s \<Longrightarrow> usb_tx_inv cap s'"
proof (induction rule: usb_tx_step.induct)
  case (handler send_ok ps os_tx st st' sent held)
  then show ?case using callback_conserves [OF handler(1), of cap held] by (auto simp: usb_tx_inv_def txb_typed_def)
next
  case (complete b held st st' s)
  then show ?case using release_buf_inv [OF complete(2), of cap "held - {#b#}"] by (simp add: usb_tx_inv_def txb_typed_def)
next
  case (submit macid tid req st tx s upd held reqs)
  then show ?case using submit_sts by (auto simp: usb_tx_inv_def)
next
  case (command os_tx pkt st st' s q r flight held)
  then show ?case using command_inv [OF command(1,2), of cap held] by (simp add: usb_tx_inv_def txb_typed_def)
qed

interpretation usb_tx_run: step_invariant "usb_tx_step cfg" "usb_tx_inv cap" for cfg cap
  by unfold_locales (rule usb_tx_step_inv)

lemma alloc_txbufs_ok:
  "alloc_txbufs sok bok blen ty is (m, q) = Some (m', q', True) \<Longrightarrow> pq_wf q \<Longrightarrow>
   pq_wf q' \<and> queue q' = queue q @ is \<and> (\<forall>i\<in>set is. ub_type (m' i) = ty) \<and> (\<forall>i. i \<notin> set is \<longrightarrow> m' i = m i)"
proof (induction "is" arbitrary: m q)
  case (Cons i "is")
  then have "alloc_txbufs sok bok blen ty is (m(i := \<lparr>ub_buffer = replicate blen 0, ub_h2c = None, ub_type = ty\<rparr>),
      fst (enqueue_usb_buf q (Some i) Tail)) = Some (m', q', True)"
    by (auto simp: phl_alloc_txbuf_usb_def split: if_splits)
  from Cons.IH [OF this] Cons.prems(2) show ?case by (cases "i \<in> set is") (simp_all add: enqueue_usb_buf_def pq_wf_def)
qed simp

lemma alloc_pool_txb:
  assumes "phl_alloc_txbuf_pool_usb sok bok rok cap m0 = Some (m, Some pool, s, fr)"
  shows "txb_inv cap {#} pool" "txb_typed cap m"
proof -
  obtain m1 q1 m2 q2 q3 where
    a: "alloc_txbufs sok bok (tx_buf_size cap) RTW_PHL_PKT_TYPE_DATA [0..<mgnt_first cap] (m0, pq_init) = Some (m1, q1, True)"
    "alloc_txbufs sok bok (tx_mgnt_buf_size cap) RTW_PHL_PKT_TYPE_MGNT [mgnt_first cap..<h2c_first cap] (m1, pq_init) =
       Some (m2, q2, True)"
    "alloc_txbufs sok (\<lambda>i. True) 0 RTW_PHL_PKT_TYPE_H2C [h2c_first cap..<txbuf_total cap] (m2, pq_init) = Some (m, q3, True)"
    "pool = \<lparr>idle_txbuf_list = q1, mgmt_txbuf_list = q2, h2c_txbuf_list = q3\<rparr>"
    using assms by (auto simp: phl_alloc_txbuf_pool_usb_def Let_def mgnt_first_def h2c_first_def txbuf_total_def split: if_splits option.splits)
  have w: "pq_wf (pq_init :: ptr phl_queue)" by (simp add: pq_init_def pq_wf_def)
  note k = alloc_txbufs_ok [OF a(1) w] alloc_txbufs_ok [OF a(2) w] alloc_txbufs_ok [OF a(3) w]
  show "txb_inv cap {#} pool" using k by (simp add: txb_inv_def a(4) pq_init_def)
  show "txb_typed cap m" unfolding txb_typed_def
  proof (intro allI impI)
    fix b assume "b < txbuf_total cap"
    then show "ub_type (m b) = buf_class cap b" using k first_le [of cap]
      by (cases "b < mgnt_first cap"; cases "b < h2c_first cap") (auto simp: buf_class_def)
  qed
qed

text \<open>
  C2: the transmit side loses nothing. From a freshly allocated buffer pool, whatever way handler runs,
  finished transfers, submissions and command packets follow each other, every transmit buffer is once on
  the list it was allocated for or in flight (the data buffers on the idle list, the management buffers on
  theirs, those of the command packets on theirs), the counters of the lists are their lengths, and between the
  runs of the handler all ring status objects are idle and no ring waits in the flow control.
\<close>

theorem usb_tx_conserves:
  assumes "phl_alloc_txbuf_pool_usb sok bok rok cap m0 = Some (u_txb st, Some (u_pool st), s, fr)"
    and "sts_inv (u_tx st)" and "(usb_tx_step cfg)\<^sup>*\<^sup>* ({#}, st) (held, st')"
    and "d = tx_buf_num cap" and "dm = d + tx_mgnt_buf_num cap" and "dmh = dm + tx_h2c_buf_num cap"
  shows "mset (queue (idle_txbuf_list (u_pool st'))) + filter_mset (\<lambda>b. b < d) held = mset [0..<d] \<and>
     mset (queue (mgmt_txbuf_list (u_pool st'))) + filter_mset (\<lambda>b. d \<le> b \<and> b < dm) held = mset [d..<dm] \<and>
     mset (queue (h2c_txbuf_list (u_pool st'))) + filter_mset (\<lambda>b. dm \<le> b) held = mset [dm..<dmh] \<and>
     pq_wf (idle_txbuf_list (u_pool st')) \<and> pq_wf (mgmt_txbuf_list (u_pool st')) \<and> pq_wf (h2c_txbuf_list (u_pool st')) \<and>
     mset (ring_sts_idle (u_tx st')) = mset [0..<MAX_PHL_RING_STATUS_NUMBER] \<and> t_fctrl_result (u_tx st') = []"
proof -
  have "usb_tx_inv cap ({#}, st)" using alloc_pool_txb [OF assms(1)] assms(2) by (simp add: usb_tx_inv_def)
  from usb_tx_run.run_inv [OF assms(3) this] show ?thesis
    by (simp add: usb_tx_inv_def txb_inv_def sts_inv_def assms(4-6) mgnt_first_def h2c_first_def txbuf_total_def)
qed

definition ex_flow_pool :: phl_usb_tx_buf_resource where
  "ex_flow_pool = \<lparr>idle_txbuf_list = \<lparr>queue = [0, 1, 2, 3], cnt = 4\<rparr>, mgmt_txbuf_list = \<lparr>queue = [4], cnt = 1\<rparr>,
     h2c_txbuf_list = \<lparr>queue = [5], cnt = 1\<rparr>\<rparr>"

definition ex_flow_mem :: "ptr \<Rightarrow> phl_usb_buf" where
  "ex_flow_mem b = (if b < 4 then \<lparr>ub_buffer = replicate 20480 0, ub_h2c = None, ub_type = RTW_PHL_PKT_TYPE_DATA\<rparr>
     else if b < 5 then \<lparr>ub_buffer = replicate 1536 0, ub_h2c = None, ub_type = RTW_PHL_PKT_TYPE_MGNT\<rparr>
     else \<lparr>ub_buffer = [], ub_h2c = None, ub_type = RTW_PHL_PKT_TYPE_H2C\<rparr>)"

definition ex_flow :: usb_tx_st where
  "ex_flow = (ex_usb 0 20480 RTW_PHL_PKT_TYPE_DATA 100)\<lparr>u_pool := ex_flow_pool, u_txb := ex_flow_mem\<rparr>"

theorem usb_tx_conserves_witness:
  "\<exists>st'. phl_pltfm_tx_usb RTW_PHL_STATUS_SUCCESS 0 ex_flow = Some (st', RTW_PHL_STATUS_SUCCESS) \<and>
     mset (queue (idle_txbuf_list (u_pool st'))) = mset [0..<4] \<and> mset (queue (mgmt_txbuf_list (u_pool st'))) = mset [4..<5] \<and>
     mset (queue (h2c_txbuf_list (u_pool st'))) + {#5#} = mset [5..<6]"
proof -
  let ?cap = "c_bus_cap ex_txcfg"
  have u: "[0..<4] = [0, 1, 2, 3 :: nat]" "[4..<5] = [4 :: nat]" "[5..<6] = [5 :: nat]" by (simp_all add: upt_conv_Cons)
  have a: "phl_alloc_txbuf_pool_usb (\<lambda>i. True) (\<lambda>i. True) True ?cap ex_flow_mem =
      Some (u_txb ex_flow, Some (u_pool ex_flow), RTW_PHL_STATUS_SUCCESS, [])"
    by (simp add: phl_alloc_txbuf_pool_usb_def ex_txcfg_def u phl_alloc_txbuf_usb_def enqueue_usb_buf_def pq_init_def
        ex_flow_def ex_flow_pool_def) (auto simp: ex_flow_mem_def fun_eq_iff)
  have s: "sts_inv (u_tx ex_flow)" by (simp add: sts_inv_def ex_flow_def ex_usb_def tx_st_init_def)
  have d: "dequeue_usb_buf (h2c_txbuf_list (u_pool ex_flow)) = (\<lparr>queue = [], cnt = 0\<rparr>, Some 5)"
    by (simp add: dequeue_usb_buf_def ex_flow_def ex_flow_pool_def)
  obtain st' where c: "phl_pltfm_tx_usb RTW_PHL_STATUS_SUCCESS 0 ex_flow = Some (st', RTW_PHL_STATUS_SUCCESS)"
    by (simp add: phl_pltfm_tx_usb_def d Let_def)
  have "usb_tx_step ex_txcfg ({#}, ex_flow) ({#} + {#5#}, st')" by (rule command [OF c d]) simp
  then have r: "(usb_tx_step ex_txcfg)\<^sup>*\<^sup>* ({#}, ex_flow) ({#5#}, st')" by auto
  have "tx_buf_num ?cap = 4" "tx_mgnt_buf_num ?cap = 1" "tx_h2c_buf_num ?cap = 1" by (simp_all add: ex_txcfg_def)
  with usb_tx_conserves [OF a s r refl refl refl] c show ?thesis by simp
qed

end
