(* ===== verification/Phl_Ser.thy ===== *)
theory Phl_Ser
  imports Phl_Queue Phl_Datapath
begin

text \<open>
  System error recovery, \<^verbatim>\<open>phl/phl_cmd_ser.c\<close>: the module of the command dispatcher that polls the chip
  for errors (on USB), and on an error of level 1 goes through the handshake with the firmware: pause the
  data path (M1), tell the firmware (M2), restart the hardware (M3), tell the firmware (M4), resume (M5).
  An error of level 2 (M9), or a step that fails, gives up. The data path is that of \<open>Phl_Datapath\<close>.

  Timers are one shot: \<open>poll_timer\<close> is the delay it was last set to, \<^const>\<open>None\<close> when it is not running.
  The answers of the chip and of the dispatcher during one handler are the argument \<open>env\<close>; what the module
  tells others is appended to \<open>s_out\<close>.
\<close>

section \<open>State\<close>

datatype RTW_PHL_SER_NOTIFY_EVENT =
    RTW_PHL_SER_L0_RESET | RTW_PHL_SER_PAUSE_TRX | RTW_PHL_SER_DO_RECOVERY | RTW_PHL_SER_READY
  | RTW_PHL_SER_L2_RESET | RTW_PHL_SER_EVENT_CHK | RTW_PHL_SER_DUMP_FW_LOG | RTW_PHL_SER_LOG_ONLY
  | RTW_PHL_SER_MAX

datatype RTW_PHL_SER_RCVY_STEP =
    RTW_PHL_SER_L1_DISABLE_EN | RTW_PHL_SER_L1_RCVY_EN | RTW_PHL_SER_L0_CFG_NOTIFY
  | RTW_PHL_SER_L0_CFG_DIS_NOTIFY | RTW_PHL_SER_L0_CFG_HANDSHAKE | RTW_PHL_SER_L0_RCVY_EN

datatype CMD_SER_EVENT_SOURCE =
    CMD_SER_SRC_UNKNOWN | CMD_SER_SRC_INT | CMD_SER_SRC_POLL | CMD_SER_SRC_INT_NOTIFY

text \<open>The message ids the module sends or handles.\<close>

datatype phl_msg_evt_id =
    MSG_EVT_SER_L1 | MSG_EVT_SER_L2 | MSG_EVT_DUMP_PLE_BUFFER | MSG_EVT_SER_L0_RESET | MSG_EVT_SER_M1_PAUSE_TRX
  | MSG_EVT_SER_IO_TIMER_EXPIRE | MSG_EVT_SER_FW_TIMER_EXPIRE | MSG_EVT_SER_M3_DO_RECOV | MSG_EVT_SER_M5_READY
  | MSG_EVT_SER_M9_L2_RESET | MSG_EVT_SER_EVENT_CHK | MSG_EVT_SER_POLLING_CHK

datatype rtw_phl_config_int =
    RTW_PHL_STOP_RX_INT | RTW_PHL_RESUME_RX_INT | RTW_PHL_SER_HANDSHAKE_MODE | RTW_PHL_EN_HCI_INT
  | RTW_PHL_DIS_HCI_INT | RTW_PHL_CLR_HCI_INT | RTW_PHL_CONFIG_INT_MAX

type_synonym ser_flags = "8 word"

definition CMD_SER_NOT_OCCUR :: ser_flags where "CMD_SER_NOT_OCCUR = 0"
definition CMD_SER_M1 :: ser_flags where "CMD_SER_M1 = 1"
definition CMD_SER_M2 :: ser_flags where "CMD_SER_M2 = 2"
definition CMD_SER_M3 :: ser_flags where "CMD_SER_M3 = 4"
definition CMD_SER_M4 :: ser_flags where "CMD_SER_M4 = 8"
definition CMD_SER_M5 :: ser_flags where "CMD_SER_M5 = 16"
definition CMD_SER_M9 :: ser_flags where "CMD_SER_M9 = 32"

definition CMD_SER_FW_TIMEOUT :: nat where "CMD_SER_FW_TIMEOUT = 1000"
definition CMD_SER_POLLING_INTERVAL :: nat where "CMD_SER_POLLING_INTERVAL = 10"
definition CMD_SER_USB_POLLING_INTERVAL_IDL :: nat where "CMD_SER_USB_POLLING_INTERVAL_IDL = 1000"
definition CMD_SER_USB_POLLING_INTERVAL_ACT :: nat where "CMD_SER_USB_POLLING_INTERVAL_ACT = 10"
definition CMD_SER_LOG_SIZE :: nat where "CMD_SER_LOG_SIZE = 10"

record sts_l2 =
  sts_idx :: nat
  sts_ser_log :: ser_flags

record cmd_ser =
  ser_state :: ser_flags
  evtsrc :: CMD_SER_EVENT_SOURCE
  poll_cnt :: int
  poll_timer :: "nat option"
  stslist :: "nat phl_queue"
  stsl2 :: "sts_l2 list"
  bserl2 :: bool
  ser_l2_hdlr :: bool

text \<open>What the module tells the chip, the dispatcher, the message hub and the other handlers.\<close>

datatype ser_out =
    SerHub nat phl_msg_evt_id
  | SerToDispr phl_msg_evt_id
  | SerClrPending
  | SerSetErr RTW_PHL_SER_RCVY_STEP
  | SerConfigInt rtw_phl_config_int
  | SerClearInt
  | SerResetWdt
  | SerL2Hdlr
  | SerStartRx
  | SerScheduleTx

record ser_sys =
  s_ser :: cmd_ser
  s_data :: data_st
  s_event :: "u64 list"
  s_out :: "ser_out list"

text \<open>
  The answers during one handler: of the data path to its controller calls in order, the error code read
  from the chip (\<^const>\<open>None\<close> when it cannot be read), the dispatcher's to the messages in order, whether an
  interrupt and whether a halt is recognised, and the mask of the interrupt handler.
\<close>

record ser_env =
  e_data :: "nat \<Rightarrow> data_env"
  e_err :: "u32 option"
  e_send :: "nat \<Rightarrow> rtw_phl_status"
  e_irq :: bool
  e_halt :: bool
  e_mask :: u32
  e_sched :: rtw_phl_status

definition ser_tell :: "ser_out \<Rightarrow> ser_sys \<Rightarrow> ser_sys" where
  "ser_tell x st = st\<lparr>s_out := s_out st @ [x]\<rparr>"

definition upd_ser :: "(cmd_ser \<Rightarrow> cmd_ser) \<Rightarrow> ser_sys \<Rightarrow> ser_sys" where
  "upd_ser f st = st\<lparr>s_ser := f (s_ser st)\<rparr>"

definition ser_set_timer :: "nat \<Rightarrow> ser_sys \<Rightarrow> ser_sys" where
  "ser_set_timer ms st = upd_ser (\<lambda>c. c\<lparr>poll_timer := Some ms\<rparr>) st"

definition ser_cancel_timer :: "ser_sys \<Rightarrow> ser_sys" where
  "ser_cancel_timer st = upd_ser (\<lambda>c. c\<lparr>poll_timer := None\<rparr>) st"

section \<open>Errors and messages\<close>

definition MAC_AX_ERR_L0_PROMOTE_TO_L1 :: u32 where "MAC_AX_ERR_L0_PROMOTE_TO_L1 = 0x0010"
definition MAC_AX_ERR_L1_ERR_DMAC :: u32 where "MAC_AX_ERR_L1_ERR_DMAC = 0x1000"
definition MAC_AX_ERR_L1_RESET_DISABLE_DMAC_DONE :: u32 where "MAC_AX_ERR_L1_RESET_DISABLE_DMAC_DONE = 0x1001"
definition MAC_AX_ERR_L1_RESET_RECOVERY_DONE :: u32 where "MAC_AX_ERR_L1_RESET_RECOVERY_DONE = 0x1002"
definition MAC_AX_ERR_L1_PROMOTE_TO_L2 :: u32 where "MAC_AX_ERR_L1_PROMOTE_TO_L2 = 0x1010"
definition MAC_AX_ERR_L2_ERR_AH_DMA :: u32 where "MAC_AX_ERR_L2_ERR_AH_DMA = 0x2000"
definition MAC_AX_ERR_L2_ERR_APB_SA_TO_HCI_WCMAC :: u32 where "MAC_AX_ERR_L2_ERR_APB_SA_TO_HCI_WCMAC = 0x2219"
definition MAC_AX_GET_ERR_MAX :: u32 where "MAC_AX_GET_ERR_MAX = 0x4001"
definition MAC_AX_DUMP_SHAREBUFF_INDICATOR :: u32 where "MAC_AX_DUMP_SHAREBUFF_INDICATOR = 0x80000000"

text \<open>An error code that cannot be read leaves the caller's zero.\<close>

definition rtw_hal_ser_get_error_status :: "u32 option \<Rightarrow> RTW_PHL_SER_NOTIFY_EVENT" where
  "rtw_hal_ser_get_error_status r =
     (let err = (case r of None \<Rightarrow> 0 | Some e \<Rightarrow> e) in
      if err = MAC_AX_ERR_L1_ERR_DMAC \<or> err = MAC_AX_ERR_L0_PROMOTE_TO_L1 then RTW_PHL_SER_PAUSE_TRX
      else if err = MAC_AX_ERR_L1_RESET_DISABLE_DMAC_DONE then RTW_PHL_SER_DO_RECOVERY
      else if err = MAC_AX_ERR_L1_RESET_RECOVERY_DONE then RTW_PHL_SER_READY
      else if err < MAC_AX_ERR_L0_PROMOTE_TO_L1 then RTW_PHL_SER_L0_RESET
      else if err = MAC_AX_DUMP_SHAREBUFF_INDICATOR then RTW_PHL_SER_DUMP_FW_LOG
      else if err = MAC_AX_ERR_L2_ERR_APB_SA_TO_HCI_WCMAC then RTW_PHL_SER_LOG_ONLY
      else RTW_PHL_SER_L2_RESET)"

fun ser_notify_code :: "RTW_PHL_SER_NOTIFY_EVENT \<Rightarrow> nat" where
  "ser_notify_code RTW_PHL_SER_L0_RESET = 0"
| "ser_notify_code RTW_PHL_SER_PAUSE_TRX = 1"
| "ser_notify_code RTW_PHL_SER_DO_RECOVERY = 2"
| "ser_notify_code RTW_PHL_SER_READY = 3"
| "ser_notify_code RTW_PHL_SER_L2_RESET = 4"
| "ser_notify_code RTW_PHL_SER_EVENT_CHK = 5"
| "ser_notify_code RTW_PHL_SER_DUMP_FW_LOG = 6"
| "ser_notify_code RTW_PHL_SER_LOG_ONLY = 7"
| "ser_notify_code RTW_PHL_SER_MAX = 8"

fun ser_msg_event :: "RTW_PHL_SER_NOTIFY_EVENT \<Rightarrow> phl_msg_evt_id option" where
  "ser_msg_event RTW_PHL_SER_PAUSE_TRX = Some MSG_EVT_SER_M1_PAUSE_TRX"
| "ser_msg_event RTW_PHL_SER_DO_RECOVERY = Some MSG_EVT_SER_M3_DO_RECOV"
| "ser_msg_event RTW_PHL_SER_READY = Some MSG_EVT_SER_M5_READY"
| "ser_msg_event RTW_PHL_SER_L2_RESET = Some MSG_EVT_SER_M9_L2_RESET"
| "ser_msg_event RTW_PHL_SER_EVENT_CHK = Some MSG_EVT_SER_EVENT_CHK"
| "ser_msg_event _ = None"

text \<open>A message is in the dispatcher only when the dispatcher accepts it.\<close>

definition ser_send :: "rtw_phl_status \<Rightarrow> phl_msg_evt_id \<Rightarrow> ser_sys \<Rightarrow> ser_sys" where
  "ser_send answer ev st = (if answer = RTW_PHL_STATUS_SUCCESS then ser_tell (SerToDispr ev) st else st)"

definition phl_ser_send_msg ::
  "rtw_phl_status \<Rightarrow> RTW_PHL_SER_NOTIFY_EVENT \<Rightarrow> ser_sys \<Rightarrow> ser_sys \<times> rtw_phl_status" where
  "phl_ser_send_msg answer notify st =
     (case ser_msg_event notify of None \<Rightarrow> (st, RTW_PHL_STATUS_FAILURE)
      | Some ev \<Rightarrow> (ser_send answer ev st, answer))"

definition phl_fw_watchdog_timeout_notify :: "rtw_phl_status \<Rightarrow> ser_sys \<Rightarrow> ser_sys \<times> rtw_phl_status" where
  "phl_fw_watchdog_timeout_notify answer st = phl_ser_send_msg answer RTW_PHL_SER_L2_RESET st"

definition rtw_phl_ser_l2_notify :: "rtw_phl_status \<Rightarrow> ser_sys \<Rightarrow> ser_sys \<times> rtw_phl_status" where
  "rtw_phl_ser_l2_notify answer st = phl_ser_send_msg answer RTW_PHL_SER_L2_RESET st"

text \<open>\<^verbatim>\<open>rtw_phl_interrupt_handler\<close> of \<^verbatim>\<open>phl/phl_init.c\<close>, the bits of the mask in the order of the source.\<close>

definition rtw_phl_interrupt_handler :: "ser_env \<Rightarrow> ser_sys \<Rightarrow> ser_sys \<times> rtw_phl_status" where
  "rtw_phl_interrupt_handler env st =
     (if e_mask env = 0 then (st, RTW_PHL_STATUS_FAILURE)
      else
        let st1 = (if bit (e_mask env) 1 then ser_tell SerStartRx st else st);
            st2 = (if bit (e_mask env) 4 then fst (phl_ser_send_msg (e_send env 0) RTW_PHL_SER_EVENT_CHK st1) else st1);
            st3 = (if bit (e_mask env) 5 then fst (phl_fw_watchdog_timeout_notify (e_send env 1) st2) else st2);
            st4 = (if bit (e_mask env) 6 then fst (phl_ser_send_msg (e_send env 2) RTW_PHL_SER_EVENT_CHK st3) else st3)
        in (ser_tell SerScheduleTx st4, e_sched env))"

text \<open>The result is also the event that was read.\<close>

definition ser_event_notify :: "ser_env \<Rightarrow> ser_sys \<Rightarrow> ser_sys \<times> rtw_phl_status \<times> RTW_PHL_SER_NOTIFY_EVENT" where
  "ser_event_notify env st =
     (let notify = rtw_hal_ser_get_error_status (e_err env);
          i = ser_notify_code notify;
          st1 = st\<lparr>s_event := (s_event st)[i := s_event st ! i + 1]\<rparr>
      in if notify = RTW_PHL_SER_L0_RESET \<or> notify = RTW_PHL_SER_LOG_ONLY then (st1, RTW_PHL_STATUS_SUCCESS, notify)
         else if notify = RTW_PHL_SER_DUMP_FW_LOG
         then (ser_tell (SerHub PHL_MDL_PHY_MGNT MSG_EVT_DUMP_PLE_BUFFER) st1, RTW_PHL_STATUS_SUCCESS, notify)
         else case phl_ser_send_msg (e_send env 0) notify st1 of (st2, s) \<Rightarrow> (st2, s, notify))"

section \<open>Steps of the handshake\<close>

definition ser_int_ntfy_ctrl :: "rtw_phl_config_int \<Rightarrow> ser_sys \<Rightarrow> ser_sys" where
  "ser_int_ntfy_ctrl ty st = ser_tell (if ty = RTW_PHL_CLR_HCI_INT then SerClearInt else SerConfigInt ty) st"

definition ser_set_status :: "ser_flags \<Rightarrow> ser_sys \<Rightarrow> ser_sys" where
  "ser_set_status f st = upd_ser (\<lambda>c. c\<lparr>ser_state := ser_state c OR f\<rparr>) st"

definition ser_clear_status :: "ser_flags \<Rightarrow> ser_sys \<Rightarrow> ser_sys" where
  "ser_clear_status f st = upd_ser (\<lambda>c. c\<lparr>ser_state := ser_state c AND NOT f\<rparr>) st"

definition ser_reset_status :: "ser_sys \<Rightarrow> ser_sys" where
  "ser_reset_status st =
     (let st1 = upd_ser (\<lambda>c. c\<lparr>ser_state := CMD_SER_NOT_OCCUR\<rparr>) st in
      if evtsrc (s_ser st) = CMD_SER_SRC_POLL
      then ser_set_timer CMD_SER_USB_POLLING_INTERVAL_IDL (upd_ser (\<lambda>c. c\<lparr>poll_cnt := 0\<rparr>) st1)
      else if evtsrc (s_ser st) = CMD_SER_SRC_INT_NOTIFY then ser_int_ntfy_ctrl RTW_PHL_EN_HCI_INT st1
      else st1)"

definition ser_l1_notify :: "ser_sys \<Rightarrow> ser_sys" where
  "ser_l1_notify st = ser_tell (SerHub PHL_MDL_SER MSG_EVT_SER_L1) st"

text \<open>The log of the last ten errors of level 2 rotates: the oldest entry is reused and moved to the end.\<close>

definition ser_log_l2 :: "cmd_ser \<Rightarrow> cmd_ser" where
  "ser_log_l2 c =
     (case pq_pop (stslist c) First of
        (q, None) \<Rightarrow> c\<lparr>stslist := q\<rparr>
      | (q, Some i) \<Rightarrow>
          c\<lparr>stslist := fst (pq_push q i Tail),
            stsl2 := (stsl2 c)[i := \<lparr>sts_idx = to_u8 (int (sts_idx (stsl2 c ! i)) + int CMD_SER_LOG_SIZE),
                                    sts_ser_log = ser_state c\<rparr>]\<rparr>)"

definition ser_l2_notify :: "ser_sys \<Rightarrow> ser_sys" where
  "ser_l2_notify st =
     (let st1 = ser_tell SerResetWdt st;
          st2 = upd_ser (\<lambda>c. (ser_log_l2 c)\<lparr>bserl2 := True\<rparr>) st1;
          st3 = (if ser_l2_hdlr (s_ser st) then ser_tell SerL2Hdlr st2 else st2)
      in ser_tell (SerHub PHL_MDL_SER MSG_EVT_SER_L2) (ser_tell SerClrPending st3))"

definition ser_handshake_int :: "ser_sys \<Rightarrow> ser_sys" where
  "ser_handshake_int st =
     (if evtsrc (s_ser st) = CMD_SER_SRC_INT_NOTIFY then ser_int_ntfy_ctrl RTW_PHL_SER_HANDSHAKE_MODE st else st)"

definition ser_m2_notify :: "ser_sys \<Rightarrow> ser_sys" where
  "ser_m2_notify st =
     ser_tell (SerSetErr RTW_PHL_SER_L1_DISABLE_EN)
       (ser_set_status CMD_SER_M2 (ser_clear_status CMD_SER_M1 (ser_handshake_int st)))"

definition ser_m3_m5_waiting :: "ser_sys \<Rightarrow> ser_sys" where
  "ser_m3_m5_waiting st =
     (if evtsrc (s_ser st) = CMD_SER_SRC_POLL
      then ser_set_timer CMD_SER_USB_POLLING_INTERVAL_ACT (upd_ser (\<lambda>c. c\<lparr>poll_cnt := int CMD_SER_POLLING_INTERVAL\<rparr>) st)
      else ser_set_timer CMD_SER_FW_TIMEOUT (upd_ser (\<lambda>c. c\<lparr>poll_cnt := 0\<rparr>) st))"

definition ser_m4_notify :: "ser_sys \<Rightarrow> ser_sys" where
  "ser_m4_notify st =
     ser_tell (SerSetErr RTW_PHL_SER_L1_RCVY_EN)
       (ser_set_status CMD_SER_M4 (ser_clear_status CMD_SER_M3 (ser_handshake_int st)))"

definition ser_test :: "ser_flags \<Rightarrow> ser_flags \<Rightarrow> bool" where
  "ser_test s f \<longleftrightarrow> TEST_STATUS_FLAG s f"

definition ser_timer_event :: "cmd_ser \<Rightarrow> phl_msg_evt_id" where
  "ser_timer_event c =
     (if ser_test (ser_state c) CMD_SER_M1 then MSG_EVT_SER_IO_TIMER_EXPIRE
      else if ser_test (ser_state c) CMD_SER_M2
      then (if 0 < poll_cnt c then MSG_EVT_SER_POLLING_CHK else MSG_EVT_SER_FW_TIMER_EXPIRE)
      else if ser_test (ser_state c) CMD_SER_M4
      then (if 0 < poll_cnt c then MSG_EVT_SER_POLLING_CHK else MSG_EVT_SER_FW_TIMER_EXPIRE)
      else MSG_EVT_SER_POLLING_CHK)"

definition ser_poll_timer_cb :: "rtw_phl_status \<Rightarrow> ser_sys \<Rightarrow> ser_sys" where
  "ser_poll_timer_cb answer st = ser_send answer (ser_timer_event (s_ser st)) st"

text \<open>The \<open>k\<close>th call of the data-path controller in a handler.\<close>

definition ser_ctl :: "ser_env \<Rightarrow> nat \<Rightarrow> phl_data_ctl_cmd \<Rightarrow> ser_sys \<Rightarrow> ser_sys \<times> rtw_phl_status" where
  "ser_ctl env k cmd st =
     (case phl_data_ctrler (e_data env k) (Some (cmd, PHL_MDL_SER)) (s_data st) of
        (d, s) \<Rightarrow> (st\<lparr>s_data := d\<rparr>, s))"

definition ser_give_up :: "ser_sys \<Rightarrow> ser_sys" where
  "ser_give_up st = ser_reset_status (ser_l2_notify st)"

text \<open>A time-out of the receive pause is tolerated (\<^verbatim>\<open>RTW_WKARD_SER_L1_EXPIRE\<close>).\<close>

definition ser_m1_pause_trx :: "ser_env \<Rightarrow> ser_sys \<Rightarrow> ser_sys" where
  "ser_m1_pause_trx env st =
     (case ser_ctl env 0 PHL_DATA_CTL_SW_TX_PAUSE st of (st1, s1) \<Rightarrow>
        if s1 \<noteq> RTW_PHL_STATUS_SUCCESS then ser_give_up st1
        else case ser_ctl env 1 PHL_DATA_CTL_HW_TRX_PAUSE st1 of (st2, s2) \<Rightarrow>
          if s2 \<noteq> RTW_PHL_STATUS_SUCCESS then ser_give_up st2
          else case ser_ctl env 2 PHL_DATA_CTL_SW_RX_PAUSE st2 of (st3, s3) \<Rightarrow>
            if s3 \<noteq> RTW_PHL_STATUS_SUCCESS \<and> s3 \<noteq> RTW_PHL_STATUS_CMD_TIMEOUT then ser_give_up st3
            else case ser_ctl env 3 PHL_DATA_CTL_SW_TX_RESET st3 of (st4, s4) \<Rightarrow>
              if s4 \<noteq> RTW_PHL_STATUS_SUCCESS then ser_give_up st4
              else case ser_ctl env 4 PHL_DATA_CTL_SW_RX_RESET st4 of (st5, s5) \<Rightarrow>
                if s5 \<noteq> RTW_PHL_STATUS_SUCCESS then ser_give_up st5
                else ser_m3_m5_waiting (ser_m2_notify st5))"

definition ser_m3_reset_hw_trx :: "ser_env \<Rightarrow> ser_sys \<Rightarrow> ser_sys" where
  "ser_m3_reset_hw_trx env st =
     (case ser_ctl env 0 PHL_DATA_CTL_HW_TRX_RST_RESUME st of (st1, s1) \<Rightarrow>
        if s1 \<noteq> RTW_PHL_STATUS_SUCCESS then ser_give_up st1
        else case ser_ctl env 1 PHL_DATA_CTL_SW_RX_RESUME st1 of (st2, s2) \<Rightarrow>
          if s2 \<noteq> RTW_PHL_STATUS_SUCCESS then ser_give_up st2
          else ser_m3_m5_waiting (ser_m4_notify st2))"

section \<open>Message handlers\<close>

definition ser_fail_ev_hdlr :: "ser_sys \<Rightarrow> ser_sys \<times> phl_mdl_ret_code" where
  "ser_fail_ev_hdlr st =
     (if evtsrc (s_ser st) \<noteq> CMD_SER_SRC_POLL then (st, MDL_RET_SUCCESS)
      else (ser_set_timer CMD_SER_USB_POLLING_INTERVAL_IDL st, MDL_RET_SUCCESS))"

definition ser_hdl_external_evt :: "cmd_ser \<Rightarrow> phl_mdl_ret_code" where
  "ser_hdl_external_evt c =
     (if bserl2 c then MDL_RET_FAIL else if ser_state c \<noteq> 0 then MDL_RET_PENDING else MDL_RET_IGNORE)"

definition ser_msg_hdl_polling_chk :: "ser_env \<Rightarrow> ser_sys \<Rightarrow> ser_sys" where
  "ser_msg_hdl_polling_chk env st =
     (if evtsrc (s_ser st) \<noteq> CMD_SER_SRC_POLL then st
      else if e_irq env then fst (rtw_phl_interrupt_handler env st)
      else if 0 < poll_cnt (s_ser st)
      then ser_set_timer CMD_SER_USB_POLLING_INTERVAL_ACT (upd_ser (\<lambda>c. c\<lparr>poll_cnt := poll_cnt c - 1\<rparr>) st)
      else ser_set_timer CMD_SER_USB_POLLING_INTERVAL_IDL st)"

definition ser_msg_hdl_evt_chk :: "ser_env \<Rightarrow> ser_sys \<Rightarrow> ser_sys \<times> rtw_phl_status" where
  "ser_msg_hdl_evt_chk env st =
     (case evtsrc (s_ser st) of
        CMD_SER_SRC_UNKNOWN \<Rightarrow> (st, RTW_PHL_STATUS_FAILURE)
      | CMD_SER_SRC_INT \<Rightarrow> (case ser_event_notify env st of (st1, s, _) \<Rightarrow> (st1, s))
      | CMD_SER_SRC_POLL \<Rightarrow> (case ser_event_notify env st of (st1, s, _) \<Rightarrow> (st1, s))
      | CMD_SER_SRC_INT_NOTIFY \<Rightarrow>
          if e_halt env then
            (case ser_event_notify env st of (st1, s, notify) \<Rightarrow>
               (if notify = RTW_PHL_SER_L0_RESET \<or> notify = RTW_PHL_SER_L2_RESET
                then ser_int_ntfy_ctrl RTW_PHL_EN_HCI_INT st1 else st1, s))
          else (ser_int_ntfy_ctrl RTW_PHL_EN_HCI_INT st, RTW_PHL_STATUS_FAILURE))"

definition ser_msg_hdl_m1 :: "ser_env \<Rightarrow> ser_sys \<Rightarrow> ser_sys" where
  "ser_msg_hdl_m1 env st =
     (let st1 = (if evtsrc (s_ser st) = CMD_SER_SRC_POLL then ser_cancel_timer st
                 else if evtsrc (s_ser st) = CMD_SER_SRC_INT_NOTIFY then ser_int_ntfy_ctrl RTW_PHL_DIS_HCI_INT st
                 else st)
      in ser_m1_pause_trx env (ser_l1_notify (ser_set_status CMD_SER_M1 st1)))"

definition ser_msg_hdl_fw_expire :: "ser_sys \<Rightarrow> ser_sys" where
  "ser_msg_hdl_fw_expire st =
     (let st1 = (if evtsrc (s_ser st) = CMD_SER_SRC_POLL
                 then ser_set_timer CMD_SER_USB_POLLING_INTERVAL_IDL (ser_set_status CMD_SER_M9 st) else st)
      in upd_ser (\<lambda>c. c\<lparr>bserl2 := True\<rparr>) st1)"

definition ser_msg_hdl_m3 :: "ser_env \<Rightarrow> ser_sys \<Rightarrow> ser_sys" where
  "ser_msg_hdl_m3 env st =
     (let st1 = (if evtsrc (s_ser st) = CMD_SER_SRC_INT_NOTIFY then ser_int_ntfy_ctrl RTW_PHL_CLR_HCI_INT st else st)
      in ser_m3_reset_hw_trx env (ser_set_status CMD_SER_M3 (ser_clear_status CMD_SER_M2 (ser_cancel_timer st1))))"

definition ser_msg_hdl_m5 :: "ser_env \<Rightarrow> ser_sys \<Rightarrow> ser_sys" where
  "ser_msg_hdl_m5 env st =
     (let st1 = ser_set_status CMD_SER_M5 (ser_clear_status CMD_SER_M4 (ser_cancel_timer st));
          st2 = fst (ser_ctl env 0 PHL_DATA_CTL_SW_TX_RESUME st1)
      in ser_tell SerClrPending (ser_reset_status st2))"

definition ser_msg_hdl_m9 :: "ser_env \<Rightarrow> ser_sys \<Rightarrow> ser_sys" where
  "ser_msg_hdl_m9 env st =
     (let st1 = ser_set_status CMD_SER_M9 (ser_cancel_timer st);
          st2 = (if CMD_SER_NOT_OCCUR < ser_state (s_ser st1)
                 then fst (ser_ctl env 1 PHL_DATA_CTL_SW_RX_RESUME (fst (ser_ctl env 0 PHL_DATA_CTL_SW_TX_RESUME st1)))
                 else st1)
      in ser_give_up st2)"

definition ser_hdl_internal_evt :: "ser_env \<Rightarrow> phl_msg_evt_id \<Rightarrow> ser_sys \<Rightarrow> ser_sys \<times> phl_mdl_ret_code" where
  "ser_hdl_internal_evt env ev st =
     (case ev of
        MSG_EVT_SER_POLLING_CHK \<Rightarrow> ser_msg_hdl_polling_chk env st
      | MSG_EVT_SER_EVENT_CHK \<Rightarrow> fst (ser_msg_hdl_evt_chk env st)
      | MSG_EVT_SER_M1_PAUSE_TRX \<Rightarrow> ser_msg_hdl_m1 env st
      | MSG_EVT_SER_IO_TIMER_EXPIRE \<Rightarrow> st
      | MSG_EVT_SER_FW_TIMER_EXPIRE \<Rightarrow> ser_msg_hdl_fw_expire st
      | MSG_EVT_SER_M3_DO_RECOV \<Rightarrow> ser_msg_hdl_m3 env st
      | MSG_EVT_SER_M5_READY \<Rightarrow> ser_msg_hdl_m5 env st
      | MSG_EVT_SER_M9_L2_RESET \<Rightarrow> ser_msg_hdl_m9 env st
      | _ \<Rightarrow> st, MDL_RET_SUCCESS)"

section \<open>The module\<close>

text \<open>\<open>mem_ok\<close> is whether the context can be allocated.\<close>

definition phl_ser_mdl_init :: "bool \<Rightarrow> rtw_hci_type \<Rightarrow> cmd_ser option \<times> phl_mdl_ret_code" where
  "phl_ser_mdl_init mem_ok hci =
     (if \<not> mem_ok then (None, MDL_RET_FAIL)
      else
        (Some \<lparr>ser_state = 0,
           evtsrc = (case hci of RTW_HCI_PCIE \<Rightarrow> CMD_SER_SRC_INT | RTW_HCI_USB \<Rightarrow> CMD_SER_SRC_POLL
                     | RTW_HCI_SDIO \<Rightarrow> CMD_SER_SRC_INT_NOTIFY | _ \<Rightarrow> CMD_SER_SRC_UNKNOWN),
           poll_cnt = 0, poll_timer = None,
           stslist = fold (\<lambda>i q. fst (pq_push q i Tail)) [0..<CMD_SER_LOG_SIZE] pq_init,
           stsl2 = map (\<lambda>i. \<lparr>sts_idx = i, sts_ser_log = 0\<rparr>) [0..<CMD_SER_LOG_SIZE],
           bserl2 = False, ser_l2_hdlr = False\<rparr>, MDL_RET_SUCCESS))"

definition phl_ser_mdl_start :: "ser_sys \<Rightarrow> ser_sys \<times> phl_mdl_ret_code" where
  "phl_ser_mdl_start st =
     (ser_reset_status (if evtsrc (s_ser st) = CMD_SER_SRC_POLL
                        then ser_tell (SerSetErr RTW_PHL_SER_L0_CFG_DIS_NOTIFY) st else st), MDL_RET_SUCCESS)"

definition phl_ser_mdl_stop :: "ser_sys \<Rightarrow> ser_sys \<times> phl_mdl_ret_code" where
  "phl_ser_mdl_stop st = (ser_cancel_timer st, MDL_RET_SUCCESS)"

text \<open>\<open>failed\<close> and \<open>pre\<close> are the flags of the message id, \<open>mdl\<close> its module.\<close>

definition phl_ser_mdl_msg_hdlr ::
  "ser_env \<Rightarrow> bool \<Rightarrow> bool \<Rightarrow> nat \<Rightarrow> phl_msg_evt_id \<Rightarrow> ser_sys \<Rightarrow> ser_sys \<times> phl_mdl_ret_code" where
  "phl_ser_mdl_msg_hdlr env failed pre mdl ev st =
     (if failed then ser_fail_ev_hdlr st
      else if mdl = PHL_MDL_SER
      then (if pre then ser_hdl_internal_evt env ev st else (st, MDL_RET_IGNORE))
      else (st, ser_hdl_external_evt (s_ser st)))"

datatype phy_bk_module_opcode =
    BK_MODL_OP_NONE | BK_MODL_OP_CHK_NEW_MSG | BK_MODL_OP_INPUT_CMD | BK_MODL_OP_STATE
  | BK_MODL_OP_CUS_SET_ROLE_CAP | BK_MODL_OP_CUS_UPDATE_ROLE_CAP | BK_MODL_OP_MAX

text \<open>\<open>inbuf\<close> and \<open>outbuf\<close>: is the pointer not null? The result of a query is the byte stored.\<close>

definition phl_ser_mdl_set_info :: "phy_bk_module_opcode \<Rightarrow> bool \<Rightarrow> cmd_ser \<Rightarrow> cmd_ser \<times> phl_mdl_ret_code" where
  "phl_ser_mdl_set_info op inbuf c =
     (if op = BK_MODL_OP_INPUT_CMD then (if inbuf then c\<lparr>ser_l2_hdlr := True\<rparr> else c, MDL_RET_SUCCESS)
      else (c, MDL_RET_IGNORE))"

definition phl_ser_mdl_query_info ::
  "phy_bk_module_opcode \<Rightarrow> bool \<Rightarrow> cmd_ser \<Rightarrow> (ser_flags option \<times> phl_mdl_ret_code) option" where
  "phl_ser_mdl_query_info op outbuf c =
     (if op = BK_MODL_OP_STATE then (if outbuf then Some (Some (ser_state c), MDL_RET_SUCCESS) else None)
      else Some (None, MDL_RET_IGNORE))"

section \<open>Recovery keeps the transmit path stopped\<close>

lemmas ser_ops = ser_tell_def upd_ser_def ser_set_timer_def ser_cancel_timer_def ser_int_ntfy_ctrl_def ser_set_status_def
  ser_clear_status_def ser_l1_notify_def ser_handshake_int_def Let_def

lemmas ser_flag_defs = CMD_SER_NOT_OCCUR_def CMD_SER_M1_def CMD_SER_M2_def CMD_SER_M3_def CMD_SER_M4_def CMD_SER_M5_def CMD_SER_M9_def

named_theorems ser_frame \<open>what the small operations leave alone\<close>

lemma send_frame [ser_frame]:
  "s_ser (ser_send a ev st) = s_ser st" "s_data (ser_send a ev st) = s_data st"
  "s_ser (fst (phl_ser_send_msg a n st)) = s_ser st" "s_data (fst (phl_ser_send_msg a n st)) = s_data st"
  by (simp_all add: ser_send_def phl_ser_send_msg_def ser_tell_def split: option.splits)

lemma interrupt_frame [ser_frame]:
  "s_ser (fst (rtw_phl_interrupt_handler env st)) = s_ser st" "s_data (fst (rtw_phl_interrupt_handler env st)) = s_data st"
  by (simp_all add: rtw_phl_interrupt_handler_def phl_fw_watchdog_timeout_notify_def ser_frame ser_tell_def Let_def)

lemma event_notify_frame [ser_frame]:
  "s_ser (fst (ser_event_notify env st)) = s_ser st" "s_data (fst (ser_event_notify env st)) = s_data st"
  using send_frame(3,4)
  by (auto simp: ser_event_notify_def ser_tell_def Let_def split: prod.splits) (metis (no_types, lifting) fst_conv ser_sys.select_convs ser_sys.surjective ser_sys.update_convs)+

lemma reset_frame [ser_frame]:
  "s_data (ser_reset_status st) = s_data st" "ser_state (s_ser (ser_reset_status st)) = 0"
  by (simp_all add: ser_reset_status_def ser_ops CMD_SER_NOT_OCCUR_def)

lemma l2_frame [ser_frame]: "s_data (ser_l2_notify st) = s_data st"
  by (simp add: ser_l2_notify_def ser_ops)

lemma give_up_frame [ser_frame]:
  "s_data (ser_give_up st) = s_data st" "ser_state (s_ser (ser_give_up st)) = 0"
  by (simp_all add: ser_give_up_def ser_frame)

lemma notify_frame [ser_frame]:
  "s_data (ser_m3_m5_waiting (ser_m2_notify st)) = s_data st"
  "s_data (ser_m3_m5_waiting (ser_m4_notify st)) = s_data st"
  by (simp_all add: ser_m3_m5_waiting_def ser_m2_notify_def ser_m4_notify_def ser_ops)

lemma ser_ctl_frame [ser_frame]:
  "s_ser (fst (ser_ctl env k cmd st)) = s_ser st"
  "s_data (fst (ser_ctl env k cmd st)) = fst (phl_data_ctrler (e_data env k) (Some (cmd, PHL_MDL_SER)) (s_data st))"
  by (simp_all add: ser_ctl_def split: prod.splits)

lemma ser_mdl: "phl_get_ctrl_mdl PHL_MDL_SER = BIT 1"
  by (simp add: phl_get_ctrl_mdl_def PHL_MDL_SER_def PHL_MDL_PHY_MGNT_def DATA_CTRL_MDL_SER_def)

text \<open>Every command of the module keeps the invariant of the data path; all but a resume keep its own pause.\<close>

lemma ser_ctl_safe:
  "data_inv (s_data st) \<Longrightarrow> data_inv (s_data (fst (ser_ctl env k cmd st)))"
  "\<not> resumes_tx cmd \<Longrightarrow> tx_safe 1 (s_data st) (s_data (fst (ser_ctl env k cmd st)))"
proof -
  have "tx_safe 0 (s_data st) (s_data (fst (ser_ctl env k cmd st)))"
    using tx_safe_ctrler [of 0 cmd PHL_MDL_SER] by (simp add: ser_frame ser_mdl BIT_eq)
  then show "data_inv (s_data st) \<Longrightarrow> data_inv (s_data (fst (ser_ctl env k cmd st)))" by (simp add: tx_safe_def)
  show "\<not> resumes_tx cmd \<Longrightarrow> tx_safe 1 (s_data st) (s_data (fst (ser_ctl env k cmd st)))"
    using tx_safe_ctrler [of 1 cmd PHL_MDL_SER] by (simp add: ser_frame)
qed

lemma ser_pause_owns:
  assumes "ser_ctl env k PHL_DATA_CTL_SW_TX_PAUSE st = (st1, RTW_PHL_STATUS_SUCCESS)"
  shows "bit (pause_tx_id (s_data st1)) 1"
proof -
  obtain d where d: "phl_sw_tx_pause (e_data env k) PHL_MDL_SER (s_data st) = (d, RTW_PHL_STATUS_SUCCESS)" "st1 = st\<lparr>s_data := d\<rparr>"
    using assms by (auto simp: ser_ctl_def phl_data_ctrler_def split: prod.splits)
  from sw_tx_pause_cases [OF d(1)] show ?thesis by (auto simp: d(2) ser_mdl bit_or_iff bit_BIT)
qed

definition recovering :: "cmd_ser \<Rightarrow> bool" where
  "recovering c \<longleftrightarrow> bit (ser_state c) 1 \<or> bit (ser_state c) 2 \<or> bit (ser_state c) 3"

definition ser_inv :: "ser_sys \<Rightarrow> bool" where
  "ser_inv st \<longleftrightarrow> data_inv (s_data st) \<and> (recovering (s_ser st) \<longrightarrow> bit (pause_tx_id (s_data st)) 1)"

lemma ser_inv_idle: "data_inv (s_data st) \<Longrightarrow> ser_state (s_ser st) = 0 \<Longrightarrow> ser_inv st"
  by (simp add: ser_inv_def recovering_def)

lemma ser_inv_owned: "data_inv (s_data st) \<Longrightarrow> bit (pause_tx_id (s_data st)) 1 \<Longrightarrow> ser_inv st"
  by (simp add: ser_inv_def)

lemma m1_pause_inv:
  assumes "data_inv (s_data st)"
  shows "ser_inv (ser_m1_pause_trx env st)"
proof -
  obtain st1 s1 where 1: "ser_ctl env 0 PHL_DATA_CTL_SW_TX_PAUSE st = (st1, s1)" by fastforce
  obtain st2 s2 where 2: "ser_ctl env 1 PHL_DATA_CTL_HW_TRX_PAUSE st1 = (st2, s2)" by fastforce
  obtain st3 s3 where 3: "ser_ctl env 2 PHL_DATA_CTL_SW_RX_PAUSE st2 = (st3, s3)" by fastforce
  obtain st4 s4 where 4: "ser_ctl env 3 PHL_DATA_CTL_SW_TX_RESET st3 = (st4, s4)" by fastforce
  obtain st5 s5 where 5: "ser_ctl env 4 PHL_DATA_CTL_SW_RX_RESET st4 = (st5, s5)" by fastforce
  have d: "data_inv (s_data st1)" "data_inv (s_data st2)" "data_inv (s_data st3)" "data_inv (s_data st4)" "data_inv (s_data st5)"
    using assms ser_ctl_safe(1) 1 2 3 4 5 fst_conv by metis+
  have "tx_safe 1 (s_data st1) (s_data st2)" "tx_safe 1 (s_data st2) (s_data st3)" "tx_safe 1 (s_data st3) (s_data st4)"
    "tx_safe 1 (s_data st4) (s_data st5)"
    using ser_ctl_safe(2) [of PHL_DATA_CTL_HW_TRX_PAUSE st1 env 1] ser_ctl_safe(2) [of PHL_DATA_CTL_SW_RX_PAUSE st2 env 2]
      ser_ctl_safe(2) [of PHL_DATA_CTL_SW_TX_RESET st3 env 3] ser_ctl_safe(2) [of PHL_DATA_CTL_SW_RX_RESET st4 env 4] 2 3 4 5
    by (simp_all add: resumes_tx_def)
  then have "s1 = RTW_PHL_STATUS_SUCCESS \<Longrightarrow> bit (pause_tx_id (s_data st5)) 1"
    using ser_pause_owns [of env 0 st st1] 1 by (simp add: tx_safe_def)
  then show ?thesis using d
    by (simp add: ser_m1_pause_trx_def 1 2 3 4 5 ser_inv_idle ser_inv_owned ser_frame del: One_nat_def)
qed

lemma m3_reset_inv:
  assumes "data_inv (s_data st)" "bit (pause_tx_id (s_data st)) 1"
  shows "ser_inv (ser_m3_reset_hw_trx env st)"
proof -
  obtain st1 s1 where 1: "ser_ctl env 0 PHL_DATA_CTL_HW_TRX_RST_RESUME st = (st1, s1)" by fastforce
  obtain st2 s2 where 2: "ser_ctl env 1 PHL_DATA_CTL_SW_RX_RESUME st1 = (st2, s2)" by fastforce
  have d: "data_inv (s_data st1)" "data_inv (s_data st2)" using assms(1) ser_ctl_safe(1) 1 2 fst_conv by metis+
  have "tx_safe 1 (s_data st) (s_data st1)" "tx_safe 1 (s_data st1) (s_data st2)"
    using ser_ctl_safe(2) [of PHL_DATA_CTL_HW_TRX_RST_RESUME st env 0] ser_ctl_safe(2) [of PHL_DATA_CTL_SW_RX_RESUME st1 env 1] 1 2
    by (simp_all add: resumes_tx_def)
  then have "bit (pause_tx_id (s_data st2)) 1" using assms(2) by (simp add: tx_safe_def)
  then show ?thesis using d by (simp add: ser_m3_reset_hw_trx_def 1 2 ser_inv_idle ser_inv_owned ser_frame del: One_nat_def)
qed

lemma ser_inv_cong: "s_data st' = s_data st \<Longrightarrow> ser_state (s_ser st') = ser_state (s_ser st) \<Longrightarrow> ser_inv st' = ser_inv st"
  by (simp add: ser_inv_def recovering_def)

text \<open>The firmware answers in order: it recovers after it was told of the pause, and is ready after it was told to recover.\<close>

definition fw_order :: "phl_msg_evt_id \<Rightarrow> cmd_ser \<Rightarrow> bool" where
  "fw_order ev c \<longleftrightarrow>
     (ev = MSG_EVT_SER_M3_DO_RECOV \<longrightarrow> ser_test (ser_state c) CMD_SER_M2) \<and>
     (ev = MSG_EVT_SER_M5_READY \<longrightarrow> ser_test (ser_state c) CMD_SER_M4)"

lemma ser_test_bit: "ser_test s CMD_SER_M2 \<longleftrightarrow> bit s 1" "ser_test s CMD_SER_M4 \<longleftrightarrow> bit s 3"
proof -
  have t: "ser_test s f \<longleftrightarrow> (\<forall>n<8. bit f n \<longrightarrow> bit s n)" for f
  proof -
    have b: "bit f n \<Longrightarrow> n < 8" "bit f n \<Longrightarrow> n < 32" for n using bit_imp_le_length [of f n] by simp_all
    show ?thesis using b by (auto simp: ser_test_def TEST_STATUS_FLAG_def bit_eq_iff bit_simps)
  qed
  have "\<forall>n\<in>set [0..<8]. (bit CMD_SER_M2 n \<longleftrightarrow> n = 1) \<and> (bit CMD_SER_M4 n \<longleftrightarrow> n = 3)" by code_simp
  then show "ser_test s CMD_SER_M2 \<longleftrightarrow> bit s 1" "ser_test s CMD_SER_M4 \<longleftrightarrow> bit s 3" by (auto simp: t)
qed

lemma internal_inv:
  assumes "ser_inv st" "fw_order ev (s_ser st)"
  shows "ser_inv (fst (ser_hdl_internal_evt env ev st))"
proof (cases ev)
  case MSG_EVT_SER_M1_PAUSE_TRX
  have "data_inv (s_data st)" using assms(1) by (simp add: ser_inv_def)
  then show ?thesis unfolding MSG_EVT_SER_M1_PAUSE_TRX
    by (simp add: ser_hdl_internal_evt_def ser_msg_hdl_m1_def Let_def) (auto intro!: m1_pause_inv simp: ser_ops)
next
  case MSG_EVT_SER_FW_TIMER_EXPIRE
  then show ?thesis using assms(1)
    by (auto simp: ser_hdl_internal_evt_def ser_msg_hdl_fw_expire_def ser_inv_def recovering_def ser_ops ser_flag_defs bit_simps)
next
  case MSG_EVT_SER_M3_DO_RECOV
  then have "recovering (s_ser st)" using assms(2) by (simp add: fw_order_def ser_test_bit recovering_def)
  then have "data_inv (s_data st)" "bit (pause_tx_id (s_data st)) 1" using assms(1) by (simp_all add: ser_inv_def)
  then show ?thesis using MSG_EVT_SER_M3_DO_RECOV
    by (simp add: ser_hdl_internal_evt_def ser_msg_hdl_m3_def Let_def) (auto intro!: m3_reset_inv simp: ser_ops)
next
  case MSG_EVT_SER_M5_READY
  let ?st1 = "ser_set_status CMD_SER_M5 (ser_clear_status CMD_SER_M4 (ser_cancel_timer st))"
  have "data_inv (s_data ?st1)" using assms(1) by (simp add: ser_inv_def ser_ops)
  from ser_ctl_safe(1) [OF this, of env 0 PHL_DATA_CTL_SW_TX_RESUME] show ?thesis using MSG_EVT_SER_M5_READY
    by (simp add: ser_hdl_internal_evt_def ser_msg_hdl_m5_def Let_def)
      (rule ser_inv_idle; simp add: ser_tell_def ser_frame)
next
  case MSG_EVT_SER_M9_L2_RESET
  let ?st1 = "ser_set_status CMD_SER_M9 (ser_cancel_timer st)"
  have d: "data_inv (s_data ?st1)" using assms(1) by (simp add: ser_inv_def ser_ops)
  let ?st2 = "fst (ser_ctl env 1 PHL_DATA_CTL_SW_RX_RESUME (fst (ser_ctl env 0 PHL_DATA_CTL_SW_TX_RESUME ?st1)))"
  have "data_inv (s_data ?st2)" by (intro ser_ctl_safe(1) d)
  with d show ?thesis using MSG_EVT_SER_M9_L2_RESET
    by (simp add: ser_hdl_internal_evt_def ser_msg_hdl_m9_def Let_def del: One_nat_def)
      (auto intro!: ser_inv_idle simp: ser_frame simp del: One_nat_def)
next
  case MSG_EVT_SER_EVENT_CHK
  then show ?thesis using assms(1) ser_inv_cong [of "fst (ser_hdl_internal_evt env ev st)" st] event_notify_frame [of env st]
    by (auto simp: ser_hdl_internal_evt_def ser_msg_hdl_evt_chk_def ser_int_ntfy_ctrl_def ser_tell_def
        split: prod.splits CMD_SER_EVENT_SOURCE.splits if_splits)
next
  case MSG_EVT_SER_POLLING_CHK
  then show ?thesis using assms(1) ser_inv_cong [of "fst (ser_hdl_internal_evt env ev st)" st] interrupt_frame [of env st]
    by (auto simp: ser_hdl_internal_evt_def ser_msg_hdl_polling_chk_def ser_ops)
qed (use assms(1) in \<open>simp_all add: ser_hdl_internal_evt_def\<close>)

text \<open>
  A step of the system: a message of the dispatcher for the module, in any phase and also one that
  failed, the expiry of its timer, or a step of the data path in which no other module acts in its name.
\<close>

inductive ser_step :: "ser_sys \<Rightarrow> ser_sys \<Rightarrow> bool" where
  message: "fw_order ev (s_ser st) \<Longrightarrow> phl_ser_mdl_msg_hdlr env failed pre mdl ev st = (st', r) \<Longrightarrow> ser_step st st'"
| timeout: "poll_timer (s_ser st) \<noteq> None \<Longrightarrow> ser_step st (ser_poll_timer_cb answer (ser_cancel_timer st))"
| data_path: "data_step (s_data st) l d \<Longrightarrow> (\<forall>cmd mdl. l = Some (cmd, mdl) \<longrightarrow> phl_get_ctrl_mdl mdl \<noteq> DATA_CTRL_MDL_SER) \<Longrightarrow>
    ser_step st (st\<lparr>s_data := d\<rparr>)"

lemma ser_step_inv:
  assumes "ser_inv st" "ser_step st st'"
  shows "ser_inv st'"
  using assms(2,1)
proof (induction rule: ser_step.induct)
  case (message ev st env failed pre mdl st' r)
  have "ser_inv (fst (ser_fail_ev_hdlr st))" using message(3) ser_inv_cong [of "fst (ser_fail_ev_hdlr st)" st]
    by (auto simp: ser_fail_ev_hdlr_def ser_ops)
  then show ?case using message internal_inv [of st ev env]
    by (auto simp: phl_ser_mdl_msg_hdlr_def split: if_splits)
next
  case (timeout st answer)
  then show ?case using ser_inv_cong [of "ser_poll_timer_cb answer (ser_cancel_timer st)" st]
    by (simp add: ser_poll_timer_cb_def ser_frame ser_ops)
next
  case (data_path st l d)
  have "tx_safe 1 (s_data st) d"
    by (rule data_step_safe [OF data_path(1)]) (use data_path(2) in \<open>auto simp: DATA_CTRL_MDL_SER_def\<close>)
  then show ?case using data_path(3) by (simp add: ser_inv_def tx_safe_def)
qed

interpretation ser_run: step_invariant ser_step ser_inv
  by unfold_locales (rule ser_step_inv)

text \<open>
  C31: while the chip is being recovered, nothing is sent. From the start of the module on, through any
  interleaving of recovery messages (the firmware answering in order), failed messages, timer expiries,
  commands of other modules, handlers and power requests: when the module is between M2 and M4, it owns
  the transmit pause, the transmit path is stopped or stopping, and a message of another module is held
  back, or refused after an error of level 2.
\<close>

theorem recovery_keeps_tx_stopped:
  assumes "phl_ser_mdl_init True RTW_HCI_USB = (Some c, r)" and "s_ser st0 = c" and "data_inv (s_data st0)"
    and "ser_step\<^sup>*\<^sup>* (fst (phl_ser_mdl_start st0)) st" and "recovering (s_ser st)"
  shows "bit (pause_tx_id (s_data st)) 1 \<and> sw_tx_sts (s_data st) \<in> {STATUS_STOP_INPROGRESS, STATUS_SW_PAUSE} \<and>
    ser_hdl_external_evt (s_ser st) = (if bserl2 (s_ser st) then MDL_RET_FAIL else MDL_RET_PENDING)"
proof -
  have "ser_inv (fst (phl_ser_mdl_start st0))"
    using assms(3) by (intro ser_inv_idle) (simp_all add: phl_ser_mdl_start_def ser_frame ser_tell_def)
  from ser_run.run_inv [OF assms(4) this] assms(5)
  have "data_inv (s_data st)" and p: "bit (pause_tx_id (s_data st)) 1" by (simp_all add: ser_inv_def)
  then have "stopped (sw_tx_sts (s_data st))" by (auto simp: data_inv_def)
  moreover have "ser_state (s_ser st) \<noteq> 0" using assms(5) by (auto simp: recovering_def)
  ultimately show ?thesis using p by (auto simp: stopped_def ser_hdl_external_evt_def)
qed

section \<open>A recovery that succeeds\<close>

lemma m1_success:
  assumes "sw_tx_sts (s_data st) \<in> {STATUS_IDLE, STATUS_RUNNING}" "sw_rx_sts (s_data st) \<in> {STATUS_IDLE, STATUS_RUNNING}"
    and "pause_tx_id (s_data st) = 0" "pause_rx_id (s_data st) = 0"
    and "tx_notify (e_data env 0) = RTW_PHL_STATUS_SUCCESS" "i < 100" "tx_ran (e_data env 0) i"
    and "hal_pause_ok (e_data env 1)" "rx_start (e_data env 2) = RTW_PHL_STATUS_SUCCESS"
  shows "ser_m1_pause_trx env st = ser_m3_m5_waiting (ser_m2_notify (st\<lparr>s_data :=
     phl_trx_reset_usb PHL_CTRL_RX (phl_trx_reset_usb PHL_CTRL_TX ((s_data st)\<lparr>sw_tx_sts := STATUS_SW_PAUSE, pause_tx_id := BIT 1,
       is_hw_trx_pause := True, sw_rx_sts := STATUS_STOP_INPROGRESS, pause_rx_id := BIT 1\<rparr>))\<rparr>))"
proof -
  let ?d1 = "(s_data st)\<lparr>sw_tx_sts := STATUS_SW_PAUSE, pause_tx_id := BIT 1\<rparr>"
  have "poll_tx_pause (tx_ran (e_data env 0)) 0 POLL_SW_TX_PAUSE_CNT (phl_req_tx_stop_usb (s_data st)) =
      ((phl_req_tx_stop_usb (s_data st))\<lparr>sw_tx_sts := STATUS_SW_PAUSE\<rparr>, True)"
    using assms(6,7) by (intro poll_tx_sees [of _ 0 i]) (auto simp: phl_req_tx_stop_usb_def POLL_SW_TX_PAUSE_CNT_def)
  then have 0: "ser_ctl env 0 PHL_DATA_CTL_SW_TX_PAUSE st = (st\<lparr>s_data := ?d1\<rparr>, RTW_PHL_STATUS_SUCCESS)"
    using assms(1,3,5)
    by (auto simp: ser_ctl_def phl_data_ctrler_def phl_sw_tx_pause_def Let_def SET_STATUS_FLAG_def phl_req_tx_stop_usb_def ser_mdl)
  let ?d2 = "?d1\<lparr>is_hw_trx_pause := True\<rparr>"
  have 1: "ser_ctl env 1 PHL_DATA_CTL_HW_TRX_PAUSE (st\<lparr>s_data := ?d1\<rparr>) = (st\<lparr>s_data := ?d2\<rparr>, RTW_PHL_STATUS_SUCCESS)"
    using assms(8) by (simp add: ser_ctl_def phl_data_ctrler_def phl_hw_trx_pause_def)
  let ?d3 = "?d2\<lparr>sw_rx_sts := STATUS_STOP_INPROGRESS, pause_rx_id := BIT 1\<rparr>"
  have 2: "ser_ctl env 2 PHL_DATA_CTL_SW_RX_PAUSE (st\<lparr>s_data := ?d2\<rparr>) = (st\<lparr>s_data := ?d3\<rparr>, RTW_PHL_STATUS_CMD_TIMEOUT)"
    using assms(2,4,9)
    by (auto simp: ser_ctl_def phl_data_ctrler_def phl_sw_rx_pause_def Let_def SET_STATUS_FLAG_def phl_req_rx_stop_usb_def
        poll_rx_never ser_mdl)
  show ?thesis
    by (simp add: ser_m1_pause_trx_def 0 1 2 del: One_nat_def) (simp add: ser_ctl_def phl_data_ctrler_def)
qed

lemma m3_success:
  assumes "pause_rx_id (s_data st) = BIT 1" "hal_resume_ok (e_data env 0)" "rx_start (e_data env 1) = RTW_PHL_STATUS_SUCCESS"
  shows "ser_m3_reset_hw_trx env st = ser_m3_m5_waiting (ser_m4_notify (st\<lparr>s_data :=
     (s_data st)\<lparr>is_hw_trx_pause := False, pause_rx_id := 0, sw_rx_sts := STATUS_RUNNING\<rparr>\<rparr>))"
  using assms
  by (simp add: ser_m3_reset_hw_trx_def ser_ctl_def phl_data_ctrler_def phl_hw_trx_rst_resume_def phl_sw_rx_resume_def Let_def
      TEST_STATUS_FLAG_def CLEAR_STATUS_FLAG_def ser_mdl data_ops)

lemma m5_resume:
  assumes "pause_tx_id (s_data st) = BIT 1"
  shows "fst (ser_ctl env k PHL_DATA_CTL_SW_TX_RESUME st) = st\<lparr>s_data := (s_data st)\<lparr>pause_tx_id := 0, sw_tx_sts := STATUS_RUNNING\<rparr>\<rparr>"
  using assms
  by (simp add: ser_ctl_def phl_data_ctrler_def phl_sw_tx_resume_def Let_def TEST_STATUS_FLAG_def CLEAR_STATUS_FLAG_def ser_mdl data_ops)

text \<open>
  C32: the handshake restores the data path. On USB, from a running path that nobody pauses, when the
  transmit handler comes to its stop check within the polls and the hardware steps succeed, M1 leaves the
  module waiting for the firmware with the transmit path paused and a poll due in ten milliseconds, M3
  restarts hardware and reception, and M5 leaves both paths running, no pause, no error of level 2 and the
  slow poll running. The messages of the handshake are sent in this order, whatever the receive pause,
  which always times out on USB, reports.
\<close>

theorem recovery_restores_datapath:
  fixes env_c :: ser_env
  assumes "evtsrc (s_ser st) = CMD_SER_SRC_POLL" and "ser_state (s_ser st) = 0"
    and "sw_tx_sts (s_data st) \<in> {STATUS_IDLE, STATUS_RUNNING}" and "sw_rx_sts (s_data st) \<in> {STATUS_IDLE, STATUS_RUNNING}"
    and "pause_tx_id (s_data st) = 0" and "pause_rx_id (s_data st) = 0"
    and "tx_notify (e_data env_a 0) = RTW_PHL_STATUS_SUCCESS" and "i < 100" and "tx_ran (e_data env_a 0) i"
    and "hal_pause_ok (e_data env_a 1)" and "rx_start (e_data env_a 2) = RTW_PHL_STATUS_SUCCESS"
    and "hal_resume_ok (e_data env_b 0)" and "rx_start (e_data env_b 1) = RTW_PHL_STATUS_SUCCESS"
  defines "st1 \<equiv> fst (ser_hdl_internal_evt env_a MSG_EVT_SER_M1_PAUSE_TRX st)"
  defines "st3 \<equiv> fst (ser_hdl_internal_evt env_b MSG_EVT_SER_M3_DO_RECOV st1)"
  defines "st5 \<equiv> fst (ser_hdl_internal_evt env_c MSG_EVT_SER_M5_READY st3)"
  shows "ser_state (s_ser st1) = CMD_SER_M2 \<and> sw_tx_sts (s_data st1) = STATUS_SW_PAUSE \<and> poll_timer (s_ser st1) = Some 10 \<and>
    ser_state (s_ser st3) = CMD_SER_M4 \<and> \<not> is_hw_trx_pause (s_data st3) \<and> sw_rx_sts (s_data st3) = STATUS_RUNNING \<and>
    ser_state (s_ser st5) = 0 \<and> sw_tx_sts (s_data st5) = STATUS_RUNNING \<and> sw_rx_sts (s_data st5) = STATUS_RUNNING \<and>
    pause_tx_id (s_data st5) = 0 \<and> pause_rx_id (s_data st5) = 0 \<and> \<not> is_hw_trx_pause (s_data st5) \<and>
    bserl2 (s_ser st5) = bserl2 (s_ser st) \<and> poll_timer (s_ser st5) = Some 1000 \<and>
    s_out st5 = s_out st @ [SerHub PHL_MDL_SER MSG_EVT_SER_L1, SerSetErr RTW_PHL_SER_L1_DISABLE_EN,
      SerSetErr RTW_PHL_SER_L1_RCVY_EN, SerClrPending]"
proof -
  note wait = ser_m3_m5_waiting_def ser_m2_notify_def ser_m4_notify_def CMD_SER_USB_POLLING_INTERVAL_ACT_def
    CMD_SER_POLLING_INTERVAL_def
  have m: "(0 OR CMD_SER_M1) AND NOT CMD_SER_M1 OR CMD_SER_M2 = CMD_SER_M2"
    "(CMD_SER_M2 AND NOT CMD_SER_M2 OR CMD_SER_M3) AND NOT CMD_SER_M3 OR CMD_SER_M4 = CMD_SER_M4"
    by (simp_all add: ser_flag_defs)
  have 1: "st1 = st\<lparr>s_ser := (s_ser st)\<lparr>ser_state := CMD_SER_M2, poll_timer := Some 10, poll_cnt := 10\<rparr>,
      s_data := phl_trx_reset_usb PHL_CTRL_RX (phl_trx_reset_usb PHL_CTRL_TX ((s_data st)\<lparr>sw_tx_sts := STATUS_SW_PAUSE,
        pause_tx_id := BIT 1, is_hw_trx_pause := True, sw_rx_sts := STATUS_STOP_INPROGRESS, pause_rx_id := BIT 1\<rparr>)),
      s_out := s_out st @ [SerHub PHL_MDL_SER MSG_EVT_SER_L1, SerSetErr RTW_PHL_SER_L1_DISABLE_EN]\<rparr>"
    unfolding st1_def using assms(1-11) m(1)
    by (simp add: ser_hdl_internal_evt_def ser_msg_hdl_m1_def ser_ops m1_success [of _ env_a i]) (simp add: wait ser_ops)
  then have rx: "pause_rx_id (s_data st1) = BIT 1" "pause_tx_id (s_data st1) = BIT 1" by (simp_all add: phl_trx_reset_usb_def)
  have 3: "st3 = st1\<lparr>s_ser := (s_ser st1)\<lparr>ser_state := CMD_SER_M4, poll_timer := Some 10, poll_cnt := 10\<rparr>,
      s_data := (s_data st1)\<lparr>is_hw_trx_pause := False, pause_rx_id := 0, sw_rx_sts := STATUS_RUNNING\<rparr>,
      s_out := s_out st1 @ [SerSetErr RTW_PHL_SER_L1_RCVY_EN]\<rparr>"
    unfolding st3_def using assms(1,12,13) rx m(2) 1
    by (simp add: ser_hdl_internal_evt_def ser_msg_hdl_m3_def ser_ops m3_success) (simp add: wait ser_ops)
  have 5: "st5 = st3\<lparr>s_ser := (s_ser st3)\<lparr>ser_state := 0, poll_timer := Some 1000, poll_cnt := 0\<rparr>,
      s_data := (s_data st3)\<lparr>pause_tx_id := 0, sw_tx_sts := STATUS_RUNNING\<rparr>, s_out := s_out st3 @ [SerClrPending]\<rparr>"
    unfolding st5_def using assms(1) rx 1 3
    by (simp add: ser_hdl_internal_evt_def ser_msg_hdl_m5_def ser_ops m5_resume)
      (simp add: ser_reset_status_def ser_ops CMD_SER_NOT_OCCUR_def CMD_SER_USB_POLLING_INTERVAL_IDL_def)
  show ?thesis by (simp add: 5 3 1 phl_trx_reset_usb_def)
qed

section \<open>When polling stops\<close>

lemma give_up_polls:
  "evtsrc (s_ser st) = CMD_SER_SRC_POLL \<Longrightarrow> poll_timer (s_ser (ser_give_up st)) = Some 1000"
  by (simp add: ser_give_up_def ser_reset_status_def ser_l2_notify_def ser_log_l2_def ser_ops CMD_SER_USB_POLLING_INTERVAL_IDL_def
      split: prod.splits option.splits)

lemma waiting_polls: "\<exists>ms. poll_timer (s_ser (ser_m3_m5_waiting st)) = Some ms"
  by (simp add: ser_m3_m5_waiting_def ser_ops)

lemma m1_polls: "evtsrc (s_ser st) = CMD_SER_SRC_POLL \<Longrightarrow> poll_timer (s_ser (ser_m1_pause_trx env st)) \<noteq> None"
  by (simp add: ser_m1_pause_trx_def split_beta ser_frame give_up_polls waiting_polls)

lemma m3_polls: "evtsrc (s_ser st) = CMD_SER_SRC_POLL \<Longrightarrow> poll_timer (s_ser (ser_m3_reset_hw_trx env st)) \<noteq> None"
  by (simp add: ser_m3_reset_hw_trx_def split_beta ser_frame give_up_polls waiting_polls)

text \<open>Either the timer runs or a message to the module itself waits in the dispatcher.\<close>

definition poll_goes_on :: "ser_sys \<Rightarrow> ser_sys \<Rightarrow> bool" where
  "poll_goes_on st st' \<longleftrightarrow>
     poll_timer (s_ser st') \<noteq> None \<or> (\<exists>ev. SerToDispr ev \<in> set (drop (length (s_out st)) (s_out st')))"

lemma interrupt_out:
  "(\<exists>ev. SerToDispr ev \<in> set (drop (length (s_out st)) (s_out (fst (rtw_phl_interrupt_handler env st))))) \<longleftrightarrow>
     bit (e_mask env) 4 \<and> e_send env 0 = RTW_PHL_STATUS_SUCCESS \<or> bit (e_mask env) 5 \<and> e_send env 1 = RTW_PHL_STATUS_SUCCESS \<or>
     bit (e_mask env) 6 \<and> e_send env 2 = RTW_PHL_STATUS_SUCCESS"
  by (auto simp: rtw_phl_interrupt_handler_def phl_fw_watchdog_timeout_notify_def phl_ser_send_msg_def ser_send_def ser_tell_def Let_def)

lemma event_notify_out:
  "(\<exists>ev. SerToDispr ev \<in> set (drop (length (s_out st)) (s_out (fst (ser_event_notify env st))))) \<longleftrightarrow>
     e_send env 0 = RTW_PHL_STATUS_SUCCESS \<and>
     rtw_hal_ser_get_error_status (e_err env) \<notin> {RTW_PHL_SER_L0_RESET, RTW_PHL_SER_LOG_ONLY, RTW_PHL_SER_DUMP_FW_LOG}"
proof -
  have "rtw_hal_ser_get_error_status (e_err env) \<noteq> RTW_PHL_SER_MAX" by (simp add: rtw_hal_ser_get_error_status_def Let_def)
  then show ?thesis
    by (cases "rtw_hal_ser_get_error_status (e_err env)")
      (auto simp: ser_event_notify_def phl_ser_send_msg_def ser_send_def ser_tell_def Let_def)
qed

text \<open>
  C33: on USB the module finds errors only by polling, and polling ends in exactly these cases. Each step
  of the handshake and a firmware time-out leave the timer running; a poll that sees no interrupt sets it
  again; but a poll that sees one goes on only when the interrupt is of the firmware and the dispatcher
  accepts the message, and the check of the error then only when it is one of level 1 or 2 and the
  dispatcher accepts the message. After a log request, an error of level 0 or an error code that cannot be
  read, no timer runs and no message is on its way: no later error is noticed.
\<close>

theorem polling_ends_iff:
  fixes env :: ser_env
  assumes "evtsrc (s_ser st) = CMD_SER_SRC_POLL" and "poll_timer (s_ser st) = None"
  defines "st' \<equiv> \<lambda>ev. fst (ser_hdl_internal_evt env ev st)"
  shows "(\<forall>ev\<in>{MSG_EVT_SER_M1_PAUSE_TRX, MSG_EVT_SER_M3_DO_RECOV, MSG_EVT_SER_M5_READY, MSG_EVT_SER_M9_L2_RESET,
        MSG_EVT_SER_FW_TIMER_EXPIRE}. poll_timer (s_ser (st' ev)) \<noteq> None) \<and>
    (poll_goes_on st (st' MSG_EVT_SER_POLLING_CHK) \<longleftrightarrow>
       \<not> e_irq env \<or> bit (e_mask env) 4 \<and> e_send env 0 = RTW_PHL_STATUS_SUCCESS \<or>
       bit (e_mask env) 5 \<and> e_send env 1 = RTW_PHL_STATUS_SUCCESS \<or> bit (e_mask env) 6 \<and> e_send env 2 = RTW_PHL_STATUS_SUCCESS) \<and>
    (poll_goes_on st (st' MSG_EVT_SER_EVENT_CHK) \<longleftrightarrow>
       e_send env 0 = RTW_PHL_STATUS_SUCCESS \<and>
       rtw_hal_ser_get_error_status (e_err env) \<notin> {RTW_PHL_SER_L0_RESET, RTW_PHL_SER_LOG_ONLY, RTW_PHL_SER_DUMP_FW_LOG})"
proof (intro conjI)
  have "poll_timer (s_ser (st' MSG_EVT_SER_M1_PAUSE_TRX)) \<noteq> None"
    using assms(1) m1_polls [of "ser_l1_notify (ser_set_status CMD_SER_M1 (ser_cancel_timer st))" env]
    by (simp add: st'_def ser_hdl_internal_evt_def ser_msg_hdl_m1_def) (simp add: ser_ops)
  moreover have "poll_timer (s_ser (st' MSG_EVT_SER_M3_DO_RECOV)) \<noteq> None"
    using assms(1) m3_polls [of "ser_set_status CMD_SER_M3 (ser_clear_status CMD_SER_M2 (ser_cancel_timer st))" env]
    by (simp add: st'_def ser_hdl_internal_evt_def ser_msg_hdl_m3_def) (simp add: ser_ops)
  moreover have "poll_timer (s_ser (st' MSG_EVT_SER_M5_READY)) \<noteq> None"
    using assms(1) by (simp add: st'_def ser_hdl_internal_evt_def ser_msg_hdl_m5_def ser_reset_status_def ser_frame Let_def)
      (simp add: ser_ops)
  moreover have "poll_timer (s_ser (st' MSG_EVT_SER_M9_L2_RESET)) \<noteq> None"
    using assms(1) by (auto simp: st'_def ser_hdl_internal_evt_def ser_msg_hdl_m9_def give_up_polls ser_frame ser_ops)
  moreover have "poll_timer (s_ser (st' MSG_EVT_SER_FW_TIMER_EXPIRE)) \<noteq> None"
    using assms(1) by (simp add: st'_def ser_hdl_internal_evt_def ser_msg_hdl_fw_expire_def ser_ops)
  ultimately show "\<forall>ev\<in>{MSG_EVT_SER_M1_PAUSE_TRX, MSG_EVT_SER_M3_DO_RECOV, MSG_EVT_SER_M5_READY, MSG_EVT_SER_M9_L2_RESET,
      MSG_EVT_SER_FW_TIMER_EXPIRE}. poll_timer (s_ser (st' ev)) \<noteq> None" by simp
next
  show "poll_goes_on st (st' MSG_EVT_SER_POLLING_CHK) \<longleftrightarrow>
       \<not> e_irq env \<or> bit (e_mask env) 4 \<and> e_send env 0 = RTW_PHL_STATUS_SUCCESS \<or>
       bit (e_mask env) 5 \<and> e_send env 1 = RTW_PHL_STATUS_SUCCESS \<or> bit (e_mask env) 6 \<and> e_send env 2 = RTW_PHL_STATUS_SUCCESS"
    using assms(1,2) interrupt_out [of st env]
    by (cases "e_irq env") (simp_all add: poll_goes_on_def st'_def ser_hdl_internal_evt_def ser_msg_hdl_polling_chk_def ser_frame,
        simp add: ser_ops)
next
  show "poll_goes_on st (st' MSG_EVT_SER_EVENT_CHK) \<longleftrightarrow> e_send env 0 = RTW_PHL_STATUS_SUCCESS \<and>
      rtw_hal_ser_get_error_status (e_err env) \<notin> {RTW_PHL_SER_L0_RESET, RTW_PHL_SER_LOG_ONLY, RTW_PHL_SER_DUMP_FW_LOG}"
    using assms(1,2) event_notify_out [of st env] event_notify_frame(1) [of env st]
    by (simp add: poll_goes_on_def st'_def ser_hdl_internal_evt_def ser_msg_hdl_evt_chk_def split_beta)
qed

text \<open>
  Without the order of the firmware's answers the first theorem fails: M1, an early M5 and then M3 leave the
  module waiting in M4 with the transmit path running, because no handler checks the state it starts from.
\<close>

section \<open>Examples\<close>

definition ex_ser :: ser_sys where
  "ex_ser = \<lparr>s_ser = the (fst (phl_ser_mdl_init True RTW_HCI_USB)), s_data = ex_data, s_event = replicate 8 0, s_out = []\<rparr>"

definition ex_senv :: ser_env where
  "ex_senv = \<lparr>e_data = (\<lambda>_. ex_denv), e_err = Some MAC_AX_ERR_L2_ERR_APB_SA_TO_HCI_WCMAC, e_send = (\<lambda>_. RTW_PHL_STATUS_SUCCESS),
     e_irq = True, e_halt = False, e_mask = 0x10, e_sched = RTW_PHL_STATUS_SUCCESS\<rparr>"

lemma ex_ser_fields:
  "evtsrc (s_ser ex_ser) = CMD_SER_SRC_POLL" "ser_state (s_ser ex_ser) = 0" "poll_timer (s_ser ex_ser) = None" "s_data ex_ser = ex_data"
  by (simp_all add: ex_ser_def phl_ser_mdl_init_def)

lemma early_ready_restarts_tx:
  defines "st1 \<equiv> fst (ser_hdl_internal_evt ex_senv MSG_EVT_SER_M1_PAUSE_TRX ex_ser)"
  defines "st2 \<equiv> fst (ser_hdl_internal_evt ex_senv MSG_EVT_SER_M5_READY st1)"
  defines "st3 \<equiv> fst (ser_hdl_internal_evt ex_senv MSG_EVT_SER_M3_DO_RECOV st2)"
  shows "recovering (s_ser st3) \<and> sw_tx_sts (s_data st3) = STATUS_RUNNING"
  unfolding assms by code_simp

theorem recovery_keeps_tx_stopped_witness:
  "bit (pause_tx_id (s_data (fst (ser_hdl_internal_evt ex_senv MSG_EVT_SER_M1_PAUSE_TRX (fst (phl_ser_mdl_start ex_ser)))))) 1 \<and>
   sw_tx_sts (s_data (fst (ser_hdl_internal_evt ex_senv MSG_EVT_SER_M1_PAUSE_TRX (fst (phl_ser_mdl_start ex_ser)))))
     \<in> {STATUS_STOP_INPROGRESS, STATUS_SW_PAUSE}"
proof -
  let ?start = "fst (phl_ser_mdl_start ex_ser)"
  let ?now = "fst (ser_hdl_internal_evt ex_senv MSG_EVT_SER_M1_PAUSE_TRX ?start)"
  have "phl_ser_mdl_msg_hdlr ex_senv False True PHL_MDL_SER MSG_EVT_SER_M1_PAUSE_TRX ?start = (?now, MDL_RET_SUCCESS)"
    by (simp add: phl_ser_mdl_msg_hdlr_def ser_hdl_internal_evt_def)
  moreover have "fw_order MSG_EVT_SER_M1_PAUSE_TRX (s_ser ?start)" by (simp add: fw_order_def)
  ultimately have "ser_step ?start ?now" by (blast intro: ser_step.message)
  then have r: "ser_step\<^sup>*\<^sup>* ?start ?now" by blast
  have i: "phl_ser_mdl_init True RTW_HCI_USB = (Some (s_ser ex_ser), MDL_RET_SUCCESS)" by (simp add: ex_ser_def phl_ser_mdl_init_def)
  have d: "data_inv (s_data ex_ser)" by (simp add: ex_ser_fields ex_data_def data_inv_def)
  have rec: "recovering (s_ser ?now)" by code_simp
  show ?thesis using recovery_keeps_tx_stopped [OF i refl d r rec] by simp
qed

theorem recovery_restores_datapath_witness:
  "sw_tx_sts (s_data (fst (ser_hdl_internal_evt ex_senv MSG_EVT_SER_M5_READY (fst (ser_hdl_internal_evt ex_senv MSG_EVT_SER_M3_DO_RECOV
      (fst (ser_hdl_internal_evt ex_senv MSG_EVT_SER_M1_PAUSE_TRX ex_ser))))))) = STATUS_RUNNING"
proof -
  have p: "sw_tx_sts (s_data ex_ser) \<in> {STATUS_IDLE, STATUS_RUNNING}" "sw_rx_sts (s_data ex_ser) \<in> {STATUS_IDLE, STATUS_RUNNING}"
    "pause_tx_id (s_data ex_ser) = 0" "pause_rx_id (s_data ex_ser) = 0" by (simp_all add: ex_ser_fields ex_data_def)
  have e: "tx_notify (e_data ex_senv 0) = RTW_PHL_STATUS_SUCCESS" "(3::nat) < 100" "tx_ran (e_data ex_senv 0) 3"
    "hal_pause_ok (e_data ex_senv 1)" "rx_start (e_data ex_senv 2) = RTW_PHL_STATUS_SUCCESS" "hal_resume_ok (e_data ex_senv 0)"
    "rx_start (e_data ex_senv 1) = RTW_PHL_STATUS_SUCCESS" by (simp_all add: ex_senv_def ex_denv_def)
  show ?thesis
    using recovery_restores_datapath [where env_c = ex_senv, OF ex_ser_fields(1,2) p(1-4) e(1-5) e(6,7)] by blast
qed

theorem polling_ends_iff_witness:
  "\<not> poll_goes_on ex_ser (fst (ser_hdl_internal_evt ex_senv MSG_EVT_SER_EVENT_CHK ex_ser))"
proof -
  have "rtw_hal_ser_get_error_status (e_err ex_senv) = RTW_PHL_SER_LOG_ONLY" by code_simp
  then show ?thesis using polling_ends_iff [OF ex_ser_fields(1,3), of ex_senv] by simp
qed

end
