(* ===== verification/Phl_Dispr.thy ===== *)
theory Phl_Dispr
  imports Phl_Queue Phl_Datapath
begin

text \<open>
  The command dispatcher of \<^verbatim>\<open>phl/phl_cmd_dispatcher.c\<close>, first part: its data, the message pool and its
  three queues, and the dispatch of one message to the modules. Built as the default configuration: one
  background thread for all dispatchers, no self-defined dispatch order.

  The messages are the 24 objects of \<^verbatim>\<open>msg_ex_pool\<close>, named by their index; a queue holds indices. The
  token operations are the objects embedded in the requests and in the dispatcher, named by
  \<open>op_ptr\<close>. A module is an allocated object, the controller is embedded; \<open>mdl_mem\<close> is the
  memory of the modules and \<open>mdl_live\<close> the addresses that are allocated.

  The handlers of the modules and requests and the completion routines are not part of the dispatcher.
  They run in the dispatcher's thread and may call the dispatcher again, so each is a function on the
  whole state, selected by its function pointer: a field of \<open>dispr_env\<close>. What lies outside the
  dispatcher and is changed by them is the component \<open>world\<close> of the state. Each call
  to a handler is recorded in \<open>d_out\<close>. \<open>d_sema\<close> is the count of the semaphore
  \<^verbatim>\<open>msg_q_sema\<close> on which the thread waits.
\<close>

section \<open>Identifiers and flags\<close>

definition MAX_PHL_MSG_NUM :: nat where "MAX_PHL_MSG_NUM = 24"
definition MAX_CMD_REQ_NUM :: nat where "MAX_CMD_REQ_NUM = 8"
definition MODL_MASK_LEN :: nat where "MODL_MASK_LEN = 16"

definition PHL_MDL_TX :: nat where "PHL_MDL_TX = 2"
definition PHL_MDL_RX :: nat where "PHL_MDL_RX = 3"
definition PHL_BK_MDL_ROLE_START :: nat where "PHL_BK_MDL_ROLE_START = 10"
definition PHL_BK_MDL_ROLE_END :: nat where "PHL_BK_MDL_ROLE_END = 40"
definition PHL_BK_MDL_MDRY_END :: nat where "PHL_BK_MDL_MDRY_END = 70"
definition PHL_BK_MDL_OPT_END :: nat where "PHL_BK_MDL_OPT_END = 127"
definition PHL_BK_MDL_END :: nat where "PHL_BK_MDL_END = 128"
definition PHL_FG_MDL_START :: nat where "PHL_FG_MDL_START = 129"
definition PHL_MDL_ID_MAX :: nat where "PHL_MDL_ID_MAX = 255"

definition MSG_EVT_PHY_ON :: u16w where "MSG_EVT_PHY_ON = 1"
definition MSG_EVT_PHY_IDLE :: u16w where "MSG_EVT_PHY_IDLE = 2"
definition MSG_EVT_DEV_CANNOT_IO :: u16w where "MSG_EVT_DEV_CANNOT_IO = 59"
definition MSG_EVT_DEV_RESUME_IO :: u16w where "MSG_EVT_DEV_RESUME_IO = 60"
definition MSG_EVT_MAX :: u16w where "MSG_EVT_MAX = 0x7fff"

definition MSG_INDC_PRE_PHASE :: u32 where "MSG_INDC_PRE_PHASE = 1"
definition MSG_INDC_FAIL :: u32 where "MSG_INDC_FAIL = 2"
definition MSG_INDC_CANCEL :: u32 where "MSG_INDC_CANCEL = 4"
definition MSG_INDC_CANNOT_IO :: u32 where "MSG_INDC_CANNOT_IO = 8"

definition MSG_OPT_SKIP_NOTIFY_OPT_MDL :: u8w where "MSG_OPT_SKIP_NOTIFY_OPT_MDL = 1"
definition MSG_OPT_BLIST_PRESENT :: u8w where "MSG_OPT_BLIST_PRESENT = 2"
definition MSG_OPT_CLR_SNDR_MSG_IF_PENDING :: u8w where "MSG_OPT_CLR_SNDR_MSG_IF_PENDING = 4"
definition MSG_OPT_SEND_IN_ABORT :: u8w where "MSG_OPT_SEND_IN_ABORT = 8"
definition MSG_OPT_PENDING_DURING_CANNOT_IO :: u8w where "MSG_OPT_PENDING_DURING_CANNOT_IO = 16"

definition MSG_STATUS_ENQ :: u16w where "MSG_STATUS_ENQ = 1"
definition MSG_STATUS_RUN :: u16w where "MSG_STATUS_RUN = 2"
definition MSG_STATUS_NOTIFY_COMPLETE :: u16w where "MSG_STATUS_NOTIFY_COMPLETE = 4"
definition MSG_STATUS_CANCEL :: u16w where "MSG_STATUS_CANCEL = 8"
definition MSG_STATUS_PRE_PHASE :: u16w where "MSG_STATUS_PRE_PHASE = 16"
definition MSG_STATUS_FAIL :: u16w where "MSG_STATUS_FAIL = 32"
definition MSG_STATUS_OWNER_BK_MDL :: u16w where "MSG_STATUS_OWNER_BK_MDL = 64"
definition MSG_STATUS_OWNER_REQ :: u16w where "MSG_STATUS_OWNER_REQ = 128"
definition MSG_STATUS_CLR_SNDR_MSG_IF_PENDING :: u16w where "MSG_STATUS_CLR_SNDR_MSG_IF_PENDING = 256"
definition MSG_STATUS_PENDING :: u16w where "MSG_STATUS_PENDING = 512"
definition MSG_STATUS_FOR_ABORT :: u16w where "MSG_STATUS_FOR_ABORT = 1024"
definition MSG_STATUS_PENDING_DURING_CANNOT_IO :: u16w where "MSG_STATUS_PENDING_DURING_CANNOT_IO = 2048"

definition REQ_STATUS_ENQ :: u8w where "REQ_STATUS_ENQ = 1"
definition REQ_STATUS_RUN :: u8w where "REQ_STATUS_RUN = 2"
definition REQ_STATUS_CANCEL :: u8w where "REQ_STATUS_CANCEL = 4"
definition REQ_STATUS_LAST_PERMIT :: u8w where "REQ_STATUS_LAST_PERMIT = 8"
definition REQ_STATUS_PREPARE :: u8w where "REQ_STATUS_PREPARE = 16"

definition MDL_INIT :: u8w where "MDL_INIT = 1"
definition MDL_STARTED :: u8w where "MDL_STARTED = 2"

definition DISPR_INIT :: u16w where "DISPR_INIT = 1"
definition DISPR_STARTED :: u16w where "DISPR_STARTED = 2"
definition DISPR_SHALL_STOP :: u16w where "DISPR_SHALL_STOP = 4"
definition DISPR_MSGQ_INIT :: u16w where "DISPR_MSGQ_INIT = 8"
definition DISPR_REQ_INIT :: u16w where "DISPR_REQ_INIT = 16"
definition DISPR_NOTIFY_IDLE :: u16w where "DISPR_NOTIFY_IDLE = 32"
definition DISPR_CLR_PEND_MSG :: u16w where "DISPR_CLR_PEND_MSG = 64"
definition DISPR_CTRL_PRESENT :: u16w where "DISPR_CTRL_PRESENT = 128"
definition DISPR_WAIT_ABORT_MSG_DONE :: u16w where "DISPR_WAIT_ABORT_MSG_DONE = 256"
definition DISPR_CANNOT_IO :: u16w where "DISPR_CANNOT_IO = 512"

definition TOKEN_OP_ADD_CMD_REQ :: nat where "TOKEN_OP_ADD_CMD_REQ = 1"
definition TOKEN_OP_FREE_CMD_REQ :: nat where "TOKEN_OP_FREE_CMD_REQ = 2"
definition TOKEN_OP_CANCEL_CMD_REQ :: nat where "TOKEN_OP_CANCEL_CMD_REQ = 3"
definition TOKEN_OP_RENEW_CMD_REQ :: nat where "TOKEN_OP_RENEW_CMD_REQ = 4"

text \<open>The priorities, as the index of the module queue they select.\<close>

definition PHL_MDL_PRI_ROLE :: nat where "PHL_MDL_PRI_ROLE = 0"
definition PHL_MDL_PRI_OPTIONAL :: nat where "PHL_MDL_PRI_OPTIONAL = 1"
definition PHL_MDL_PRI_MANDATORY :: nat where "PHL_MDL_PRI_MANDATORY = 2"
definition PHL_MDL_PRI_MAX :: nat where "PHL_MDL_PRI_MAX = 3"

definition get_mdl_priority :: "nat \<Rightarrow> nat" where
  "get_mdl_priority mid =
     (if mid < PHL_BK_MDL_ROLE_START then PHL_MDL_PRI_MAX
      else if mid \<le> PHL_BK_MDL_ROLE_END then PHL_MDL_PRI_ROLE
      else if mid \<le> PHL_BK_MDL_MDRY_END then PHL_MDL_PRI_MANDATORY
      else if mid \<le> PHL_BK_MDL_OPT_END then PHL_MDL_PRI_OPTIONAL
      else PHL_MDL_PRI_MAX)"

definition IS_DISPR_CTRL :: "nat \<Rightarrow> bool" where
  "IS_DISPR_CTRL mdl_id \<longleftrightarrow> mdl_id < PHL_BK_MDL_ROLE_START"

definition MSG_MDL_ID_FIELD :: "u32 \<Rightarrow> nat" where
  "MSG_MDL_ID_FIELD i = unat (drop_bit 16 i AND 0xFF)"

definition MSG_EVT_ID_FIELD :: "u32 \<Rightarrow> u16w" where
  "MSG_EVT_ID_FIELD i = ucast (i AND 0xFFFF)"

definition MSG_INDC_FIELD :: "u32 \<Rightarrow> u32" where
  "MSG_INDC_FIELD i = drop_bit 24 i AND 0xFF"

definition SET_MSG_MDL_ID_FIELD :: "u32 \<Rightarrow> nat \<Rightarrow> u32" where
  "SET_MSG_MDL_ID_FIELD i mdl = (i AND 0xFF00FFFF) OR push_bit 16 (of_nat mdl)"

definition SET_MSG_EVT_ID_FIELD :: "u32 \<Rightarrow> u16w \<Rightarrow> u32" where
  "SET_MSG_EVT_ID_FIELD i evt = (i AND 0xFFFF0000) OR ucast evt"

definition SET_MSG_INDC_FIELD :: "u32 \<Rightarrow> u32 \<Rightarrow> u32" where
  "SET_MSG_INDC_FIELD i indc = (i AND NOT (push_bit 24 indc)) OR push_bit 24 indc"

definition CLEAR_MSG_INDC_FIELD :: "u32 \<Rightarrow> u32 \<Rightarrow> u32" where
  "CLEAR_MSG_INDC_FIELD i indc = i AND NOT (push_bit 24 indc)"

definition IS_MSG_FAIL :: "u32 \<Rightarrow> bool" where
  "IS_MSG_FAIL i \<longleftrightarrow> i AND push_bit 24 MSG_INDC_FAIL \<noteq> 0"

section \<open>Bit maps of modules\<close>

text \<open>
  A map has 16 bytes, one bit for each module id below 128. A loop counter of 8 bits runs over the ids,
  whose number is 8 bits wide as well. An id of 128 or more selects no byte of the map: \<open>chk\<close>
  refuses ids above 128, and 128 itself, no module's id, selects the byte behind the map; the other two
  do not check. Here these bits are absent.
\<close>

definition add_bitmap_bit :: "u8w list \<Rightarrow> nat list \<Rightarrow> u8w list" where
  "add_bitmap_bit bm arr = foldl (\<lambda>b k. b[k div 8 := b ! (k div 8) OR push_bit (k mod 8) 1]) bm arr"

definition clr_bitmap_bit :: "u8w list \<Rightarrow> nat list \<Rightarrow> u8w list" where
  "clr_bitmap_bit bm arr = foldl (\<lambda>b k. b[k div 8 := b ! (k div 8) AND NOT (push_bit (k mod 8) 1)]) bm arr"

definition chk_bitmap_bit :: "u8w list \<Rightarrow> nat \<Rightarrow> bool" where
  "chk_bitmap_bit bm mid =
     (if 8 * 16 < mid then False
      else mid div 8 < length bm \<and> bm ! (mid div 8) AND push_bit (mid mod 8) 1 \<noteq> 0)"

definition and_bitmaps :: "u8w list \<Rightarrow> u8w list \<Rightarrow> u8w list" where
  "and_bitmaps ref_bitmap bm = map2 (AND) bm ref_bitmap"

definition reset_bitmap :: "u8w list" where
  "reset_bitmap = replicate MODL_MASK_LEN 0"

definition is_bitmap_empty :: "u8w list \<Rightarrow> bool" where
  "is_bitmap_empty bm \<longleftrightarrow> bm = replicate MODL_MASK_LEN 0"

section \<open>Data\<close>

type_synonym fptr = "nat option"

datatype mdl_ptr = CtrlMdl | BkMdl ptr
datatype op_ptr = AddInfo nat | FreeInfo nat | RenewInfo

record phl_msg =
  msg_id :: u32
  band_idx :: nat
  inbuf :: "ptr option"
  outbuf :: "ptr option"
  inlen :: u32
  outlen :: u32
  rsvd :: "(mdl_ptr + ptr) option list"

record msg_completion_routine =
  cr_priv :: "ptr option"
  cr_completion :: fptr

text \<open>The notify array is \<open>None\<close> for a NULL pointer.\<close>

record phl_msg_attribute =
  at_opt :: u8w
  at_id_arr :: "nat list option"
  at_len :: nat
  at_completion :: msg_completion_routine

record phl_dispr_msg_ex =
  mx_status :: u16w
  mx_idx :: nat
  mx_msg :: phl_msg
  premap :: "u8w list"
  postmap :: "u8w list"
  mx_completion :: msg_completion_routine
  mx_module :: "mdl_ptr option"

record phl_bk_module_ops =
  op_init :: fptr
  op_deinit :: fptr
  op_start :: fptr
  op_stop :: fptr
  op_msg_hdlr :: fptr
  op_set_info :: fptr
  op_query_info :: fptr

record phl_bk_module =
  md_status :: u8w
  md_id :: nat
  md_priv :: "ptr option"
  md_ops :: phl_bk_module_ops

record phl_cmd_token_req =
  rq_module_id :: nat
  rq_priv :: "ptr option"
  rq_role :: "ptr option"
  rq_acquired :: fptr
  rq_abort :: fptr
  rq_msg_hdlr :: fptr
  rq_set_info :: fptr
  rq_query_info :: fptr

record phl_token_op_info =
  used :: bool
  op_type :: nat
  op_data :: nat

record phl_cmd_token_req_ex =
  rx_idx :: nat
  rx_status :: u8w
  rx_req :: phl_cmd_token_req
  add_req_info :: phl_token_op_info
  free_req_info :: phl_token_op_info

text \<open>A handler was called: on whom, for which message and with which message id.\<close>

datatype dispr_ev =
    Fed mdl_ptr nat u32
  | ReqFed nat nat u32
  | Completed fptr nat u32
  | Acquired nat
  | Aborted nat

record 'w cmd_dispatcher =
  d_idx :: nat
  d_status :: u16w
  module_q :: "ptr phl_queue list"
  msg_ex_pool :: "phl_dispr_msg_ex list"
  msg_wait_q :: "nat phl_queue"
  msg_idle_q :: "nat phl_queue"
  msg_pend_q :: "nat phl_queue"
  token_req_ex_pool :: "phl_cmd_token_req_ex list"
  token_req_wait_q :: "nat phl_queue"
  token_req_idle_q :: "nat phl_queue"
  token_op_q :: "op_ptr phl_queue"
  token_cnt :: int
  cur_cmd_req :: "nat option"
  bitmap :: "u8w list"
  basemap :: "u8w list"
  pending_evt_id :: "nat \<Rightarrow> u16w"
  controller :: phl_bk_module
  renew_req_info :: phl_token_op_info
  exclusive_mdl :: nat
  mdl_mem :: "ptr \<Rightarrow> phl_bk_module"
  mdl_live :: "ptr list"
  d_sema :: nat
  world :: 'w
  d_out :: "dispr_ev list"

type_synonym 'w disp = "'w cmd_dispatcher"

text \<open>
  The code behind the function pointers. A message handler gets the module's or request's private pointer and
  the message; \<open>cb_mdl_init\<close> also returns the private pointer it stores.
\<close>

record 'w dispr_env =
  cb_completion :: "fptr \<Rightarrow> ptr option \<Rightarrow> nat \<Rightarrow> 'w disp \<Rightarrow> 'w disp"
  cb_msg_hdlr :: "fptr \<Rightarrow> ptr option \<Rightarrow> nat \<Rightarrow> 'w disp \<Rightarrow> 'w disp \<times> phl_mdl_ret_code"
  cb_acquired :: "fptr \<Rightarrow> ptr option \<Rightarrow> 'w disp \<Rightarrow> 'w disp \<times> phl_mdl_ret_code"
  cb_abort :: "fptr \<Rightarrow> ptr option \<Rightarrow> 'w disp \<Rightarrow> 'w disp \<times> phl_mdl_ret_code"
  cb_mdl_init :: "fptr \<Rightarrow> 'w disp \<Rightarrow> 'w disp \<times> phl_mdl_ret_code \<times> ptr option"
  cb_mdl_deinit :: "fptr \<Rightarrow> ptr option \<Rightarrow> 'w disp \<Rightarrow> 'w disp"
  cb_mdl_start :: "fptr \<Rightarrow> ptr option \<Rightarrow> 'w disp \<Rightarrow> 'w disp \<times> phl_mdl_ret_code"
  cb_mdl_stop :: "fptr \<Rightarrow> ptr option \<Rightarrow> 'w disp \<Rightarrow> 'w disp \<times> phl_mdl_ret_code"
  cb_info :: "fptr \<Rightarrow> ptr option \<Rightarrow> 'w disp \<Rightarrow> 'w disp \<times> phl_mdl_ret_code"

section \<open>Access to the objects\<close>

abbreviation mx :: "'w disp \<Rightarrow> nat \<Rightarrow> phl_dispr_msg_ex" where
  "mx d x \<equiv> msg_ex_pool d ! x"

abbreviation rx :: "'w disp \<Rightarrow> nat \<Rightarrow> phl_cmd_token_req_ex" where
  "rx d r \<equiv> token_req_ex_pool d ! r"

definition upd_mx :: "nat \<Rightarrow> (phl_dispr_msg_ex \<Rightarrow> phl_dispr_msg_ex) \<Rightarrow> 'w disp \<Rightarrow> 'w disp" where
  "upd_mx x f d = d\<lparr>msg_ex_pool := (msg_ex_pool d)[x := f (mx d x)]\<rparr>"

definition upd_rx :: "nat \<Rightarrow> (phl_cmd_token_req_ex \<Rightarrow> phl_cmd_token_req_ex) \<Rightarrow> 'w disp \<Rightarrow> 'w disp" where
  "upd_rx r f d = d\<lparr>token_req_ex_pool := (token_req_ex_pool d)[r := f (rx d r)]\<rparr>"

definition mx_flag :: "'w disp \<Rightarrow> nat \<Rightarrow> u16w \<Rightarrow> bool" where
  "mx_flag d x f \<longleftrightarrow> TEST_STATUS_FLAG (mx_status (mx d x)) f"

definition mx_set :: "nat \<Rightarrow> u16w \<Rightarrow> 'w disp \<Rightarrow> 'w disp" where
  "mx_set x f = upd_mx x (\<lambda>m. m\<lparr>mx_status := SET_STATUS_FLAG (mx_status m) f\<rparr>)"

definition mx_clr :: "nat \<Rightarrow> u16w \<Rightarrow> 'w disp \<Rightarrow> 'w disp" where
  "mx_clr x f = upd_mx x (\<lambda>m. m\<lparr>mx_status := CLEAR_STATUS_FLAG (mx_status m) f\<rparr>)"

definition mx_id :: "'w disp \<Rightarrow> nat \<Rightarrow> u32" where
  "mx_id d x = msg_id (mx_msg (mx d x))"

definition mx_set_id :: "nat \<Rightarrow> (u32 \<Rightarrow> u32) \<Rightarrow> 'w disp \<Rightarrow> 'w disp" where
  "mx_set_id x f = upd_mx x (\<lambda>m. m\<lparr>mx_msg := (mx_msg m)\<lparr>msg_id := f (msg_id (mx_msg m))\<rparr>\<rparr>)"

definition mx_indc :: "nat \<Rightarrow> u32 \<Rightarrow> 'w disp \<Rightarrow> 'w disp" where
  "mx_indc x indc = mx_set_id x (\<lambda>i. SET_MSG_INDC_FIELD i indc)"

definition rx_flag :: "'w disp \<Rightarrow> nat \<Rightarrow> u8w \<Rightarrow> bool" where
  "rx_flag d r f \<longleftrightarrow> TEST_STATUS_FLAG (rx_status (rx d r)) f"

definition rx_set :: "nat \<Rightarrow> u8w \<Rightarrow> 'w disp \<Rightarrow> 'w disp" where
  "rx_set r f = upd_rx r (\<lambda>q. q\<lparr>rx_status := SET_STATUS_FLAG (rx_status q) f\<rparr>)"

definition rx_clr :: "nat \<Rightarrow> u8w \<Rightarrow> 'w disp \<Rightarrow> 'w disp" where
  "rx_clr r f = upd_rx r (\<lambda>q. q\<lparr>rx_status := CLEAR_STATUS_FLAG (rx_status q) f\<rparr>)"

definition d_flag :: "'w disp \<Rightarrow> u16w \<Rightarrow> bool" where
  "d_flag d f \<longleftrightarrow> TEST_STATUS_FLAG (d_status d) f"

definition d_set :: "u16w \<Rightarrow> 'w disp \<Rightarrow> 'w disp" where
  "d_set f d = d\<lparr>d_status := SET_STATUS_FLAG (d_status d) f\<rparr>"

definition d_clr :: "u16w \<Rightarrow> 'w disp \<Rightarrow> 'w disp" where
  "d_clr f d = d\<lparr>d_status := CLEAR_STATUS_FLAG (d_status d) f\<rparr>"

definition mdl :: "'w disp \<Rightarrow> mdl_ptr \<Rightarrow> phl_bk_module" where
  "mdl d p = (case p of CtrlMdl \<Rightarrow> controller d | BkMdl a \<Rightarrow> mdl_mem d a)"

definition upd_mdl :: "mdl_ptr \<Rightarrow> (phl_bk_module \<Rightarrow> phl_bk_module) \<Rightarrow> 'w disp \<Rightarrow> 'w disp" where
  "upd_mdl p f d = (case p of CtrlMdl \<Rightarrow> d\<lparr>controller := f (controller d)\<rparr>
     | BkMdl a \<Rightarrow> d\<lparr>mdl_mem := (mdl_mem d)(a := f (mdl_mem d a))\<rparr>)"

definition op_info :: "'w disp \<Rightarrow> op_ptr \<Rightarrow> phl_token_op_info" where
  "op_info d p = (case p of AddInfo r \<Rightarrow> add_req_info (rx d r) | FreeInfo r \<Rightarrow> free_req_info (rx d r)
     | RenewInfo \<Rightarrow> renew_req_info d)"

definition upd_op :: "op_ptr \<Rightarrow> (phl_token_op_info \<Rightarrow> phl_token_op_info) \<Rightarrow> 'w disp \<Rightarrow> 'w disp" where
  "upd_op p f d = (case p of
       AddInfo r \<Rightarrow> upd_rx r (\<lambda>q. q\<lparr>add_req_info := f (add_req_info q)\<rparr>) d
     | FreeInfo r \<Rightarrow> upd_rx r (\<lambda>q. q\<lparr>free_req_info := f (free_req_info q)\<rparr>) d
     | RenewInfo \<Rightarrow> d\<lparr>renew_req_info := f (renew_req_info d)\<rparr>)"

definition d_tell :: "dispr_ev \<Rightarrow> 'w disp \<Rightarrow> 'w disp" where
  "d_tell e d = d\<lparr>d_out := d_out d @ [e]\<rparr>"

text \<open>\<^verbatim>\<open>disp_eng_notify_share_thread\<close>: the thread of the engine is woken.\<close>

definition notify_bk_thread :: "'w disp \<Rightarrow> 'w disp" where
  "notify_bk_thread d = d\<lparr>d_sema := Suc (d_sema d)\<rparr>"

section \<open>Token operations are queued\<close>

definition push_back_token_op_info :: "op_ptr \<Rightarrow> nat \<Rightarrow> nat \<Rightarrow> 'w disp \<Rightarrow> 'w disp \<times> bool" where
  "push_back_token_op_info p ty dat d =
     (if used (op_info d p) then (d, False)
      else
        let d1 = upd_op p (\<lambda>i. i\<lparr>used := True, op_type := ty, op_data := dat\<rparr>) d;
            d2 = d1\<lparr>token_op_q := fst (pq_push (token_op_q d1) p Tail)\<rparr>
        in (notify_bk_thread d2, True))"

definition dispr_enqueue_token_op_info :: "op_ptr \<Rightarrow> nat \<Rightarrow> nat \<Rightarrow> 'w disp \<Rightarrow> 'w disp \<times> bool" where
  "dispr_enqueue_token_op_info p ty dat d = push_back_token_op_info p ty dat d"

definition on_abort_msg_complete :: "'w disp \<Rightarrow> 'w disp" where
  "on_abort_msg_complete d =
     fst (dispr_enqueue_token_op_info RenewInfo TOKEN_OP_RENEW_CMD_REQ 0xff (d_clr DISPR_WAIT_ABORT_MSG_DONE d))"

section \<open>The queues of messages\<close>

definition zero_msg :: phl_msg where
  "zero_msg = \<lparr>msg_id = 0, band_idx = 0, inbuf = None, outbuf = None, inlen = 0, outlen = 0,
     rsvd = replicate 4 None\<rparr>"

definition zero_completion :: msg_completion_routine where
  "zero_completion = \<lparr>cr_priv = None, cr_completion = None\<rparr>"

definition zero_attr :: phl_msg_attribute where
  "zero_attr = \<lparr>at_opt = 0, at_id_arr = None, at_len = 0, at_completion = zero_completion\<rparr>"

definition pop_front_idle_msg :: "'w disp \<Rightarrow> 'w disp \<times> nat option" where
  "pop_front_idle_msg d =
     (case pq_pop (msg_idle_q d) First of
        (q, None) \<Rightarrow> (d, None)
      | (q, Some x) \<Rightarrow>
          (upd_mx x (\<lambda>m. m\<lparr>mx_status := 0, mx_module := None, mx_completion := zero_completion,
             premap := reset_bitmap, postmap := reset_bitmap, mx_msg := zero_msg\<rparr>) (d\<lparr>msg_idle_q := q\<rparr>), Some x))"

definition complete_msg :: "'w dispr_env \<Rightarrow> nat \<Rightarrow> 'w disp \<Rightarrow> 'w disp" where
  "complete_msg env x d =
     (if mx_flag d x MSG_STATUS_NOTIFY_COMPLETE \<and> cr_completion (mx_completion (mx d x)) \<noteq> None then
        let d1 = (if mx_flag d x MSG_STATUS_CANCEL then mx_indc x MSG_INDC_CANCEL d else d);
            c = mx_completion (mx d1 x);
            d2 = cb_completion env (cr_completion c) (cr_priv c) x (d_tell (Completed (cr_completion c) x (mx_id d1 x)) d1)
        in mx_clr x MSG_STATUS_NOTIFY_COMPLETE d2
      else d)"

definition push_back_idle_msg :: "'w dispr_env \<Rightarrow> nat \<Rightarrow> 'w disp \<Rightarrow> 'w disp" where
  "push_back_idle_msg env x d =
     (let d1 = complete_msg env x d;
          d2 = (if mx_flag d1 x MSG_STATUS_FOR_ABORT then on_abort_msg_complete d1 else d1);
          d3 = upd_mx x (\<lambda>m. m\<lparr>mx_status := 0\<rparr>) d2;
          src = MSG_MDL_ID_FIELD (mx_id d3 x);
          d4 = (if pending_evt_id d3 src = MSG_EVT_ID_FIELD (mx_id d3 x)
                then d3\<lparr>pending_evt_id := (pending_evt_id d3)(src := MSG_EVT_MAX)\<rparr> else d3);
          d5 = mx_set_id x (\<lambda>_. 0) d4
      in d5\<lparr>msg_idle_q := fst (pq_push (msg_idle_q d5) x Tail)\<rparr>)"

definition pop_front_wait_msg :: "'w disp \<Rightarrow> 'w disp \<times> nat option" where
  "pop_front_wait_msg d =
     (case pq_pop (msg_wait_q d) First of
        (q, None) \<Rightarrow> (d, None)
      | (q, Some x) \<Rightarrow>
          (mx_clr x MSG_STATUS_PENDING (mx_clr x MSG_STATUS_ENQ (mx_set x MSG_STATUS_RUN (d\<lparr>msg_wait_q := q\<rparr>))), Some x))"

definition push_back_wait_msg :: "nat \<Rightarrow> 'w disp \<Rightarrow> 'w disp" where
  "push_back_wait_msg x d =
     (let d1 = mx_clr x MSG_STATUS_RUN (mx_set x MSG_STATUS_ENQ d)
      in notify_bk_thread (d1\<lparr>msg_wait_q := fst (pq_push (msg_wait_q d1) x Tail)\<rparr>))"

definition is_higher_priority :: "'w disp \<Rightarrow> nat \<Rightarrow> nat \<Rightarrow> bool" where
  "is_higher_priority d inp x \<longleftrightarrow>
     IS_DISPR_CTRL (MSG_MDL_ID_FIELD (mx_id d inp)) \<and> \<not> IS_DISPR_CTRL (MSG_MDL_ID_FIELD (mx_id d x))"

definition insert_msg_by_priority :: "nat \<Rightarrow> 'w disp \<Rightarrow> 'w disp" where
  "insert_msg_by_priority x d =
     (let d1 = mx_clr x MSG_STATUS_RUN (mx_set x MSG_STATUS_ENQ d)
      in notify_bk_thread (d1\<lparr>msg_wait_q := fst (pq_insert (msg_wait_q d1) x (Some (is_higher_priority d1)))\<rparr>))"

definition pop_front_pending_msg :: "'w disp \<Rightarrow> 'w disp \<times> nat option" where
  "pop_front_pending_msg d =
     (case pq_pop (msg_pend_q d) First of (q, r) \<Rightarrow> (d\<lparr>msg_pend_q := q\<rparr>, r))"

definition push_back_pending_msg :: "nat \<Rightarrow> 'w disp \<Rightarrow> 'w disp" where
  "push_back_pending_msg x d =
     (let d1 = mx_clr x MSG_STATUS_RUN (mx_set x MSG_STATUS_ENQ d);
          d2 = (if mx_flag d1 x MSG_STATUS_CLR_SNDR_MSG_IF_PENDING
                then d1\<lparr>pending_evt_id := (pending_evt_id d1)(MSG_MDL_ID_FIELD (mx_id d1 x) := MSG_EVT_ID_FIELD (mx_id d1 x))\<rparr>
                else d1)
      in d2\<lparr>msg_pend_q := fst (pq_push (msg_pend_q d2) x Tail)\<rparr>)"

text \<open>
  The loop of \<^verbatim>\<open>clear_pending_msg\<close>. It takes a message from the pending queue in each round, so the rounds are
  bounded by the length of that queue; the recursion is on it.
\<close>

fun clear_pending_loop :: "nat \<Rightarrow> 'w disp \<Rightarrow> 'w disp" where
  "clear_pending_loop 0 d = d"
| "clear_pending_loop (Suc n) d =
     (case pop_front_pending_msg d of
        (d1, None) \<Rightarrow> d1
      | (d1, Some x) \<Rightarrow>
          clear_pending_loop n
            (if IS_DISPR_CTRL (unat (MSG_EVT_ID_FIELD (mx_id d1 x))) then insert_msg_by_priority x d1
             else push_back_wait_msg x d1))"

definition clear_pending_msg :: "'w disp \<Rightarrow> 'w disp" where
  "clear_pending_msg d =
     (if \<not> d_flag d DISPR_CLR_PEND_MSG then d
      else clear_pending_loop (length (queue (msg_pend_q d))) (d_clr DISPR_CLR_PEND_MSG d))"

definition is_special_msg :: "'w disp \<Rightarrow> nat \<Rightarrow> bool" where
  "is_special_msg d x \<longleftrightarrow>
     (let evt = MSG_EVT_ID_FIELD (mx_id d x) in
      d_flag d DISPR_CANNOT_IO \<and>
      (exclusive_mdl d = MSG_MDL_ID_FIELD (mx_id d x) \<or> evt = MSG_EVT_DEV_CANNOT_IO \<or>
       evt = MSG_EVT_DEV_RESUME_IO \<or> evt = MSG_EVT_PHY_ON \<or> evt = MSG_EVT_PHY_IDLE))"

definition is_msg_canceled :: "nat \<Rightarrow> 'w disp \<Rightarrow> 'w disp \<times> bool" where
  "is_msg_canceled x d =
     (let pending_evt = pending_evt_id d (MSG_MDL_ID_FIELD (mx_id d x)) in
      if \<not> d_flag d DISPR_STARTED \<or> mx_flag d x MSG_STATUS_CANCEL then (d, True)
      else if pending_evt \<noteq> MSG_EVT_MAX \<and> pending_evt \<noteq> MSG_EVT_ID_FIELD (mx_id d x)
      then (mx_set x MSG_STATUS_CANCEL d, True)
      else if d_flag d DISPR_SHALL_STOP
      then (mx_set x MSG_STATUS_CANCEL (mx_indc x MSG_INDC_CANNOT_IO d), True)
      else if d_flag d DISPR_CANNOT_IO then
        (if is_special_msg d x then (mx_indc x MSG_INDC_CANNOT_IO d, False)
         else if \<not> mx_flag d x MSG_STATUS_PENDING_DURING_CANNOT_IO
         then (mx_indc x MSG_INDC_CANNOT_IO (mx_set x MSG_STATUS_CANCEL d), True)
         else (mx_set x MSG_STATUS_PENDING d, False))
      else (d, False))"

definition cancel_msg :: "nat \<Rightarrow> 'w disp \<Rightarrow> 'w disp" where
  "cancel_msg x d =
     mx_set x MSG_STATUS_CANCEL (upd_mx x (\<lambda>m. m\<lparr>premap := reset_bitmap, postmap := reset_bitmap\<rparr>) d)"

fun cancel_run_loop :: "nat list \<Rightarrow> 'w disp \<Rightarrow> 'w disp" where
  "cancel_run_loop [] d = d"
| "cancel_run_loop (x # xs) d =
     cancel_run_loop xs (if mx_flag d x MSG_STATUS_RUN then cancel_msg x d else d)"

definition cancel_running_msg :: "'w disp \<Rightarrow> 'w disp" where
  "cancel_running_msg d = cancel_run_loop [0..<MAX_PHL_MSG_NUM] d"

definition set_msg_bitmap :: "nat \<Rightarrow> nat \<Rightarrow> 'w disp \<Rightarrow> 'w disp" where
  "set_msg_bitmap x mdl_id d =
     (let d1 = upd_mx x (\<lambda>m. m\<lparr>premap := bitmap d, postmap := bitmap d\<rparr>) d in
      if chk_bitmap_bit (bitmap d) mdl_id
      then upd_mx x (\<lambda>m. m\<lparr>premap := add_bitmap_bit (premap m) [mdl_id],
             postmap := add_bitmap_bit (postmap m) [mdl_id]\<rparr>) d1
      else d1)"

definition set_msg_custom_bitmap :: "nat \<Rightarrow> u8w \<Rightarrow> nat list \<Rightarrow> nat \<Rightarrow> 'w disp \<Rightarrow> 'w disp" where
  "set_msg_custom_bitmap x op ids mdl_id d =
     (let d1 = (if op AND MSG_OPT_SKIP_NOTIFY_OPT_MDL \<noteq> 0
                then upd_mx x (\<lambda>m. m\<lparr>premap := basemap d, postmap := basemap d\<rparr>) d else d);
          d2 = (if op AND MSG_OPT_BLIST_PRESENT \<noteq> 0
                then upd_mx x (\<lambda>m. m\<lparr>premap := clr_bitmap_bit (premap m) ids,
                       postmap := clr_bitmap_bit (postmap m) ids\<rparr>) d1
                else upd_mx x (\<lambda>m. m\<lparr>premap := add_bitmap_bit (premap m) ids,
                       postmap := add_bitmap_bit (postmap m) ids\<rparr>) d1)
      in if chk_bitmap_bit (bitmap d) mdl_id
         then upd_mx x (\<lambda>m. m\<lparr>premap := add_bitmap_bit (premap m) [mdl_id],
                postmap := add_bitmap_bit (postmap m) [mdl_id]\<rparr>) d2
         else d2)"

text \<open>
  \<^verbatim>\<open>get_msg_bitmap\<close> returns a pointer to one of the two maps: \<open>True\<close> stands for the
  one of the pre phase.
\<close>

definition get_msg_bitmap :: "nat \<Rightarrow> 'w disp \<Rightarrow> 'w disp \<times> bool" where
  "get_msg_bitmap x d =
     (if mx_flag d x MSG_STATUS_PRE_PHASE then (mx_indc x MSG_INDC_PRE_PHASE d, True)
      else (mx_set_id x (\<lambda>i. CLEAR_MSG_INDC_FIELD i MSG_INDC_PRE_PHASE) d, False))"

definition phase_map :: "bool \<Rightarrow> phl_dispr_msg_ex \<Rightarrow> u8w list" where
  "phase_map pre m = (if pre then premap m else postmap m)"

end
