(* ===== verification/Phl_Dispr_Run.thy ===== *)
theory Phl_Dispr_Run
  imports Phl_Dispr
begin

text \<open>
  The command dispatcher, second part: a message is dispatched to the controller, to the modules of its two
  maps in the two phases and to the current request; the command token is given to one request at a
  time; the thread's round and its end; the operations offered to the rest of the driver.

  The loops that give the token to the next request and that serve the token operations run handlers which may
  ask for further rounds. They have fuel, and \<open>None\<close> is a loop that has not ended with it.
\<close>

section \<open>Dispatch of a message\<close>

definition STOP_DISPATCH_MSG :: "phl_mdl_ret_code \<Rightarrow> bool" where
  "STOP_DISPATCH_MSG ret \<longleftrightarrow> ret \<noteq> MDL_RET_SUCCESS \<and> ret \<noteq> MDL_RET_IGNORE"

definition call_mdl :: "'w dispr_env \<Rightarrow> mdl_ptr \<Rightarrow> nat \<Rightarrow> 'w disp \<Rightarrow> 'w disp \<times> phl_mdl_ret_code" where
  "call_mdl env p x d =
     cb_msg_hdlr env (op_msg_hdlr (md_ops (mdl d p))) (md_priv (mdl d p)) x (d_tell (Fed p x (mx_id d x)) d)"

definition cur_req_hdl :: "'w dispr_env \<Rightarrow> nat \<Rightarrow> 'w disp \<Rightarrow> 'w disp" where
  "cur_req_hdl env x d =
     (case cur_cmd_req d of None \<Rightarrow> d
      | Some r \<Rightarrow>
          if \<not> rx_flag d r REQ_STATUS_RUN \<or> rx_flag d r REQ_STATUS_CANCEL then d
          else if mx_flag d x MSG_STATUS_FOR_ABORT then d
          else fst (cb_msg_hdlr env (rq_msg_hdlr (rx_req (rx d r))) (rq_priv (rx_req (rx d r))) x
                      (d_tell (ReqFed r x (mx_id d x)) d)))"

text \<open>
  A message with the flag \<^verbatim>\<open>MSG_STATUS_OWNER_BK_MDL\<close> has its module set.
\<close>

definition notify_msg_fail :: "'w dispr_env \<Rightarrow> nat \<Rightarrow> phl_mdl_ret_code \<Rightarrow> 'w disp \<Rightarrow> 'w disp" where
  "notify_msg_fail env x ret d =
     (let d1 = mx_indc x MSG_INDC_FAIL (mx_set x MSG_STATUS_FAIL d);
          d2 = (if ret = MDL_RET_CANNOT_IO then mx_indc x MSG_INDC_CANNOT_IO d1 else d1);
          d3 = (if mx_flag d2 x MSG_STATUS_OWNER_BK_MDL then
                  (case mx_module (mx d2 x) of None \<Rightarrow> d2
                   | Some p \<Rightarrow>
                       if IS_DISPR_CTRL (MSG_MDL_ID_FIELD (mx_id d2 x)) \<or> chk_bitmap_bit (bitmap d2) (md_id (mdl d2 p))
                       then fst (call_mdl env p x d2) else d2)
                else d2)
      in if mx_flag d3 x MSG_STATUS_OWNER_REQ then cur_req_hdl env x d3 else d3)"

definition feed_mdl_msg :: "'w dispr_env \<Rightarrow> mdl_ptr \<Rightarrow> nat \<Rightarrow> 'w disp \<Rightarrow> 'w disp \<times> phl_mdl_ret_code" where
  "feed_mdl_msg env p x d =
     (case call_mdl env p x d of
        (d1, ret) \<Rightarrow>
          if ret = MDL_RET_FAIL \<or> ret = MDL_RET_CANNOT_IO then
            (notify_msg_fail env x ret
               (upd_mx x (\<lambda>m. m\<lparr>mx_msg := (mx_msg m)\<lparr>rsvd := (rsvd (mx_msg m))[0 := Some (Inl p)]\<rparr>\<rparr>) d1), ret)
          else if ret = MDL_RET_PENDING then (mx_set x MSG_STATUS_PENDING d1, ret)
          else
            (upd_mx x (\<lambda>m. if MSG_INDC_FIELD (msg_id (mx_msg m)) AND MSG_INDC_PRE_PHASE \<noteq> 0
               then m\<lparr>premap := clr_bitmap_bit (premap m) [md_id (mdl d1 p)]\<rparr>
               else m\<lparr>postmap := clr_bitmap_bit (postmap m) [md_id (mdl d1 p)]\<rparr>) d1, ret))"

text \<open>
  The two phases. The list is the module queue of one priority, from its front in the pre phase and from its tail
  in the post phase; the boolean result says that the dispatch is stopped. The module queues do not
  change while a message is dispatched: modules are registered and removed by the driver's start and stop,
  never by a handler.
\<close>

fun feed_walk :: "'w dispr_env \<Rightarrow> bool \<Rightarrow> nat \<Rightarrow> ptr list \<Rightarrow> 'w disp \<Rightarrow> 'w disp \<times> bool" where
  "feed_walk env pre x [] d = (d, False)"
| "feed_walk env pre x (p # ps) d =
     (if \<not> chk_bitmap_bit (phase_map pre (mx d x)) (md_id (mdl d (BkMdl p))) \<or>
         \<not> TEST_STATUS_FLAG (md_status (mdl d (BkMdl p))) MDL_STARTED
      then feed_walk env pre x ps d
      else
        case feed_mdl_msg env (BkMdl p) x d of
          (d1, ret) \<Rightarrow> if STOP_DISPATCH_MSG ret then (d1, True) else feed_walk env pre x ps d1)"

definition level_list :: "bool \<Rightarrow> 'w disp \<Rightarrow> nat \<Rightarrow> ptr list" where
  "level_list pre d i =
     (let q = module_q d ! i in
      if pre then (case pq_get_front q of None \<Rightarrow> [] | Some _ \<Rightarrow> queue q)
      else (case pq_get_tail q of None \<Rightarrow> [] | Some _ \<Rightarrow> rev (queue q)))"

definition feed_level ::
  "'w dispr_env \<Rightarrow> bool \<Rightarrow> nat \<Rightarrow> nat \<Rightarrow> nat \<Rightarrow> nat \<Rightarrow> 'w disp \<Rightarrow> 'w disp \<times> bool" where
  "feed_level env pre x owner_id priority i d =
     (case mx_module (mx d x) of
        None \<Rightarrow> feed_walk env pre x (level_list pre d i) d
      | Some p \<Rightarrow>
          if priority = i \<and> chk_bitmap_bit (phase_map pre (mx d x)) owner_id then
            (case feed_mdl_msg env p x d of
               (d1, ret) \<Rightarrow> if STOP_DISPATCH_MSG ret then (d1, True) else feed_walk env pre x (level_list pre d1 i) d1)
          else feed_walk env pre x (level_list pre d i) d)"

fun feed_levels ::
  "'w dispr_env \<Rightarrow> bool \<Rightarrow> nat \<Rightarrow> nat \<Rightarrow> nat \<Rightarrow> nat list \<Rightarrow> 'w disp \<Rightarrow> 'w disp" where
  "feed_levels env pre x owner_id priority [] d = d"
| "feed_levels env pre x owner_id priority (i # ls) d =
     (case feed_level env pre x owner_id priority i d of
        (d1, stop) \<Rightarrow> if stop then d1 else feed_levels env pre x owner_id priority ls d1)"

definition owner_of :: "'w disp \<Rightarrow> nat \<Rightarrow> nat" where
  "owner_of d x = (case mx_module (mx d x) of None \<Rightarrow> PHL_MDL_ID_MAX | Some p \<Rightarrow> md_id (mdl d p))"

definition owner_priority :: "nat \<Rightarrow> nat" where
  "owner_priority owner_id = (if owner_id \<le> PHL_BK_MDL_END then get_mdl_priority owner_id else PHL_MDL_PRI_MAX)"

definition msg_pre_phase_hdl :: "'w dispr_env \<Rightarrow> nat \<Rightarrow> 'w disp \<Rightarrow> 'w disp" where
  "msg_pre_phase_hdl env x d =
     feed_levels env True x (owner_of d x) (owner_priority (owner_of d x))
       [PHL_MDL_PRI_MANDATORY, PHL_MDL_PRI_OPTIONAL, PHL_MDL_PRI_ROLE] d"

definition msg_post_phase_hdl :: "'w dispr_env \<Rightarrow> nat \<Rightarrow> 'w disp \<Rightarrow> 'w disp" where
  "msg_post_phase_hdl env x d =
     feed_levels env False x (owner_of d x) (owner_priority (owner_of d x))
       [PHL_MDL_PRI_ROLE, PHL_MDL_PRI_OPTIONAL, PHL_MDL_PRI_MANDATORY] d"

definition notify_dispr_controller :: "'w dispr_env \<Rightarrow> nat \<Rightarrow> 'w disp \<Rightarrow> 'w disp" where
  "notify_dispr_controller env x d =
     (if \<not> d_flag d DISPR_CTRL_PRESENT then d else fst (feed_mdl_msg env CtrlMdl x d))"

definition get_cur_cmd_req_id :: "'w disp \<Rightarrow> nat \<times> u8w" where
  "get_cur_cmd_req_id d =
     (case cur_cmd_req d of None \<Rightarrow> (PHL_MDL_ID_MAX, 0)
      | Some r \<Rightarrow>
          (if \<not> rx_flag d r REQ_STATUS_RUN \<or> rx_flag d r REQ_STATUS_CANCEL then PHL_MDL_ID_MAX
           else rq_module_id (rx_req (rx d r)), rx_status (rx d r)))"

text \<open>\<^verbatim>\<open>MSG_REDIRECT_CHK\<close>: on a redirection the message is given back, else the rest is done.\<close>

definition msg_reschedule :: "nat \<Rightarrow> 'w disp \<Rightarrow> 'w disp" where
  "msg_reschedule x d =
     (if mx_flag d x MSG_STATUS_PENDING then push_back_pending_msg x d else push_back_wait_msg x d)"

definition MSG_REDIRECT_CHK :: "'w dispr_env \<Rightarrow> nat \<Rightarrow> 'w disp \<Rightarrow> ('w disp \<Rightarrow> 'w disp) \<Rightarrow> 'w disp" where
  "MSG_REDIRECT_CHK env x d rest =
     (if mx_flag d x MSG_STATUS_FAIL \<or> mx_flag d x MSG_STATUS_CANCEL then push_back_idle_msg env x d
      else if mx_flag d x MSG_STATUS_PENDING then msg_reschedule x d
      else rest d)"

definition map_empty :: "bool \<Rightarrow> nat \<Rightarrow> 'w disp \<Rightarrow> bool" where
  "map_empty pre x d \<longleftrightarrow> is_bitmap_empty (phase_map pre (mx d x))"

definition msg_post_dispatch :: "'w dispr_env \<Rightarrow> nat \<Rightarrow> bool \<Rightarrow> 'w disp \<Rightarrow> 'w disp" where
  "msg_post_dispatch env x pre d =
     MSG_REDIRECT_CHK env x (if \<not> map_empty pre x d then msg_post_phase_hdl env x d else d) (\<lambda>d5.
       if map_empty pre x d5 then push_back_idle_msg env x (cur_req_hdl env x d5)
       else push_back_idle_msg env x (mx_set x MSG_STATUS_CANCEL d5))"

definition msg_dispatch :: "'w dispr_env \<Rightarrow> nat \<Rightarrow> 'w disp \<Rightarrow> 'w disp" where
  "msg_dispatch env x d =
     (case get_msg_bitmap x d of
        (d1, pre) \<Rightarrow>
          MSG_REDIRECT_CHK env x d1 (\<lambda>d2.
          MSG_REDIRECT_CHK env x (notify_dispr_controller env x d2) (\<lambda>d3.
          MSG_REDIRECT_CHK env x
            (if MSG_INDC_FIELD (mx_id d3 x) AND MSG_INDC_PRE_PHASE \<noteq> 0 \<and> \<not> map_empty pre x d3
             then msg_pre_phase_hdl env x d3 else d3) (\<lambda>d4.
          if map_empty pre x d4
          then (case get_msg_bitmap x (mx_clr x MSG_STATUS_PRE_PHASE d4) of (d5, post) \<Rightarrow> msg_post_dispatch env x post d5)
          else push_back_idle_msg env x (mx_set x MSG_STATUS_CANCEL d4)))))"

section \<open>Modules\<close>

definition chk_module_ops :: "phl_bk_module_ops option \<Rightarrow> bool" where
  "chk_module_ops ops =
     (case ops of None \<Rightarrow> False
      | Some ops \<Rightarrow> op_init ops \<noteq> None \<and> op_deinit ops \<noteq> None \<and> op_msg_hdlr ops \<noteq> None \<and> op_set_info ops \<noteq> None \<and>
          op_query_info ops \<noteq> None \<and> op_start ops \<noteq> None \<and> op_stop ops \<noteq> None)"

definition bk_module_init :: "'w dispr_env \<Rightarrow> mdl_ptr \<Rightarrow> 'w disp \<Rightarrow> 'w disp \<times> bool" where
  "bk_module_init env p d =
     (if TEST_STATUS_FLAG (md_status (mdl d p)) MDL_INIT then (d, False)
      else
        case cb_mdl_init env (op_init (md_ops (mdl d p))) d of
          (d1, ret, prv) \<Rightarrow>
            let d2 = upd_mdl p (\<lambda>m. m\<lparr>md_priv := prv\<rparr>) d1 in
            if ret = MDL_RET_SUCCESS
            then (upd_mdl p (\<lambda>m. m\<lparr>md_status := SET_STATUS_FLAG (md_status m) MDL_INIT\<rparr>) d2, True)
            else (d2, False))"

definition bk_module_deinit :: "'w dispr_env \<Rightarrow> mdl_ptr \<Rightarrow> 'w disp \<Rightarrow> 'w disp" where
  "bk_module_deinit env p d =
     upd_mdl p (\<lambda>m. m\<lparr>md_status := CLEAR_STATUS_FLAG (md_status m) MDL_INIT\<rparr>)
       (if TEST_STATUS_FLAG (md_status (mdl d p)) MDL_INIT
        then cb_mdl_deinit env (op_deinit (md_ops (mdl d p))) (md_priv (mdl d p)) d else d)"

definition bk_module_start :: "'w dispr_env \<Rightarrow> mdl_ptr \<Rightarrow> 'w disp \<Rightarrow> 'w disp \<times> bool" where
  "bk_module_start env p d =
     (if \<not> TEST_STATUS_FLAG (md_status (mdl d p)) MDL_INIT \<or> TEST_STATUS_FLAG (md_status (mdl d p)) MDL_STARTED
      then (d, False)
      else
        case cb_mdl_start env (op_start (md_ops (mdl d p))) (md_priv (mdl d p)) d of
          (d1, ret) \<Rightarrow>
            if ret = MDL_RET_SUCCESS
            then (upd_mdl p (\<lambda>m. m\<lparr>md_status := SET_STATUS_FLAG (md_status m) MDL_STARTED\<rparr>) d1, True)
            else (d1, False))"

definition bk_module_stop :: "'w dispr_env \<Rightarrow> mdl_ptr \<Rightarrow> 'w disp \<Rightarrow> 'w disp \<times> bool" where
  "bk_module_stop env p d =
     (if \<not> TEST_STATUS_FLAG (md_status (mdl d p)) MDL_STARTED then (d, False)
      else
        let d1 = upd_mdl p (\<lambda>m. m\<lparr>md_status := CLEAR_STATUS_FLAG (md_status m) MDL_STARTED\<rparr>) d in
        case cb_mdl_stop env (op_stop (md_ops (mdl d1 p))) (md_priv (mdl d1 p)) d1 of
          (d2, ret) \<Rightarrow> (d2, ret = MDL_RET_SUCCESS))"

text \<open>
  The search of \<^verbatim>\<open>get_module_by_id\<close> over the queues of all priorities. When nothing is found the out
  parameter is NULL or as it was, which is NULL at the only call.
\<close>

fun search_queues :: "'w disp \<Rightarrow> nat \<Rightarrow> ptr phl_queue list \<Rightarrow> ptr option" where
  "search_queues d mid [] = None"
| "search_queues d mid (q # qs) =
     (case snd (pq_search_node q False (Some (\<lambda>p. md_id (mdl_mem d p) = mid))) of
        Some p \<Rightarrow> Some p | None \<Rightarrow> search_queues d mid qs)"

definition get_module_by_id :: "'w disp \<Rightarrow> nat \<Rightarrow> mdl_ptr option" where
  "get_module_by_id d mid =
     (if IS_DISPR_CTRL mid then (if d_flag d DISPR_CTRL_PRESENT then Some CtrlMdl else None)
      else if \<not> chk_bitmap_bit (bitmap d) mid then None
      else map_option BkMdl (search_queues d mid (module_q d)))"

section \<open>Sending a message\<close>

definition GEN_VALID_HDL :: "nat \<Rightarrow> u32" where
  "GEN_VALID_HDL i = BIT 31 OR of_nat i"

definition IS_HDL_VALID :: "u32 \<Rightarrow> bool" where
  "IS_HDL_VALID h \<longleftrightarrow> h AND BIT 31 \<noteq> 0"

definition GET_IDX_FROM_HDL :: "u32 \<Rightarrow> nat" where
  "GET_IDX_FROM_HDL h = unat (h AND 0xFF)"

text \<open>The attributes of a message: maps, completion routine, flags.\<close>

definition apply_attr :: "nat \<Rightarrow> nat \<Rightarrow> phl_msg_attribute \<Rightarrow> 'w disp \<Rightarrow> 'w disp" where
  "apply_attr x module_id attr d =
     (let ids = (case at_id_arr attr of None \<Rightarrow> [] | Some arr \<Rightarrow> take (at_len attr) arr);
          d1 = set_msg_custom_bitmap x (at_opt attr) ids module_id d;
          d2 = (if cr_completion (at_completion attr) \<noteq> None
                then upd_mx x (\<lambda>m. m\<lparr>mx_completion := at_completion attr\<rparr>) (mx_set x MSG_STATUS_NOTIFY_COMPLETE d1)
                else d1);
          d3 = (if TEST_STATUS_FLAG (at_opt attr) MSG_OPT_CLR_SNDR_MSG_IF_PENDING
                then mx_set x MSG_STATUS_CLR_SNDR_MSG_IF_PENDING d2 else d2)
      in if TEST_STATUS_FLAG (at_opt attr) MSG_OPT_PENDING_DURING_CANNOT_IO
         then mx_set x MSG_STATUS_PENDING_DURING_CANNOT_IO d3 else d3)"

definition set_owner :: "nat \<Rightarrow> nat \<Rightarrow> nat \<Rightarrow> u8w \<Rightarrow> 'w disp \<Rightarrow> 'w disp" where
  "set_owner x module_id cur_req_id req_status d =
     (case get_module_by_id d module_id of
        Some p \<Rightarrow> mx_set x MSG_STATUS_OWNER_BK_MDL (upd_mx x (\<lambda>m. m\<lparr>mx_module := Some p\<rparr>) d)
      | None \<Rightarrow>
          if cur_req_id = module_id \<or>
             cur_req_id = PHL_MDL_ID_MAX \<and> TEST_STATUS_FLAG req_status REQ_STATUS_LAST_PERMIT
          then mx_set x MSG_STATUS_OWNER_REQ d else d)"

definition may_send :: "'w disp \<Rightarrow> nat \<Rightarrow> nat \<Rightarrow> u8w \<Rightarrow> bool" where
  "may_send d module_id cur_req_id req_status \<longleftrightarrow>
     \<not> (\<not> IS_DISPR_CTRL module_id \<and> \<not> chk_bitmap_bit (bitmap d) module_id \<and>
        (cur_req_id \<noteq> PHL_MDL_ID_MAX \<and> cur_req_id \<noteq> module_id \<or>
         cur_req_id = PHL_MDL_ID_MAX \<and> req_status = 0 \<or>
         cur_req_id = PHL_MDL_ID_MAX \<and> \<not> TEST_STATUS_FLAG req_status REQ_STATUS_LAST_PERMIT))"

text \<open>The message is set up and put into the wait queue, or refused while the request is unloaded.\<close>

definition enqueue_msg ::
  "'w dispr_env \<Rightarrow> nat \<Rightarrow> nat \<Rightarrow> u8w \<Rightarrow> phl_msg_attribute option \<Rightarrow> 'w disp \<Rightarrow> 'w disp \<times> rtw_phl_status" where
  "enqueue_msg env x module_id req_status attr d =
     (if mx_flag d x MSG_STATUS_OWNER_REQ \<and> TEST_STATUS_FLAG req_status REQ_STATUS_LAST_PERMIT \<and>
         (case attr of None \<Rightarrow> True | Some a \<Rightarrow> \<not> TEST_STATUS_FLAG (at_opt a) MSG_OPT_SEND_IN_ABORT)
      then (push_back_idle_msg env x (mx_indc x MSG_INDC_FAIL d), RTW_PHL_STATUS_FAILURE)
      else
        let d1 = (if mx_flag d x MSG_STATUS_OWNER_REQ \<and> TEST_STATUS_FLAG req_status REQ_STATUS_LAST_PERMIT
                  then d_set DISPR_WAIT_ABORT_MSG_DONE (mx_set x MSG_STATUS_FOR_ABORT d) else d);
            d2 = mx_set x MSG_STATUS_PRE_PHASE d1
        in (if IS_DISPR_CTRL module_id then insert_msg_by_priority x d2 else push_back_wait_msg x d2,
            RTW_PHL_STATUS_SUCCESS))"

text \<open>The result is also what is written to the caller's handle, when there is one.\<close>

definition dispr_send_msg ::
  "'w dispr_env \<Rightarrow> phl_msg \<Rightarrow> phl_msg_attribute option \<Rightarrow> 'w disp \<Rightarrow> 'w disp \<times> rtw_phl_status \<times> u32 option" where
  "dispr_send_msg env msg attr d =
     (let module_id = MSG_MDL_ID_FIELD (msg_id msg) in
      case get_cur_cmd_req_id d of
        (cur_req_id, req_status) \<Rightarrow>
          if \<not> d_flag d DISPR_STARTED then (d, RTW_PHL_STATUS_UNEXPECTED_ERROR, None)
          else if (case attr of None \<Rightarrow> False | Some a \<Rightarrow> at_id_arr a = None \<and> at_len a \<noteq> 0)
          then (d, RTW_PHL_STATUS_INVALID_PARAM, None)
          else if \<not> may_send d module_id cur_req_id req_status then (d, RTW_PHL_STATUS_INVALID_PARAM, None)
          else
            (case pop_front_idle_msg d of
               (d1, None) \<Rightarrow> (d1, RTW_PHL_STATUS_RESOURCE, None)
             | (d1, Some x) \<Rightarrow>
                 let d2 = set_msg_bitmap x module_id (upd_mx x (\<lambda>m. m\<lparr>mx_msg := msg\<rparr>) d1);
                     d3 = (case attr of None \<Rightarrow> d2 | Some a \<Rightarrow> apply_attr x module_id a d2);
                     d4 = set_owner x module_id cur_req_id req_status d3
                 in (case enqueue_msg env x module_id req_status attr d4 of
                       (d5, st) \<Rightarrow>
                         (d5, st, Some (if st = RTW_PHL_STATUS_SUCCESS then GEN_VALID_HDL (mx_idx (mx d5 x)) else 0)))))"

definition make_msg :: "nat \<Rightarrow> u16w \<Rightarrow> phl_msg" where
  "make_msg mid evt = zero_msg\<lparr>msg_id := SET_MSG_EVT_ID_FIELD (SET_MSG_MDL_ID_FIELD 0 mid) evt\<rparr>"

definition send_bk_msg_phy_on :: "'w dispr_env \<Rightarrow> 'w disp \<Rightarrow> 'w disp" where
  "send_bk_msg_phy_on env d = fst (dispr_send_msg env (make_msg PHL_MDL_POWER_MGNT MSG_EVT_PHY_ON) (Some zero_attr) d)"

definition send_bk_msg_phy_idle :: "'w dispr_env \<Rightarrow> 'w disp \<Rightarrow> 'w disp" where
  "send_bk_msg_phy_idle env d = fst (dispr_send_msg env (make_msg PHL_MDL_POWER_MGNT MSG_EVT_PHY_IDLE) (Some zero_attr) d)"

definition send_dev_io_status_change :: "'w dispr_env \<Rightarrow> bool \<Rightarrow> 'w disp \<Rightarrow> 'w disp \<times> rtw_phl_status" where
  "send_dev_io_status_change env allow_io d =
     (case dispr_send_msg env
             (make_msg PHL_MDL_PHY_MGNT (if allow_io then MSG_EVT_DEV_RESUME_IO else MSG_EVT_DEV_CANNOT_IO)) (Some zero_attr) d of
        (d1, st, h) \<Rightarrow> (d1, st))"

text \<open>The handle is set to zero once it is recognised.\<close>

definition dispr_cancel_msg :: "u32 option \<Rightarrow> 'w disp \<Rightarrow> 'w disp \<times> rtw_phl_status \<times> u32 option" where
  "dispr_cancel_msg msg_hdl d =
     (case msg_hdl of None \<Rightarrow> (d, RTW_PHL_STATUS_UNEXPECTED_ERROR, None)
      | Some h \<Rightarrow>
          if \<not> d_flag d DISPR_STARTED then (d, RTW_PHL_STATUS_UNEXPECTED_ERROR, Some h)
          else if \<not> IS_HDL_VALID h \<or> GET_IDX_FROM_HDL h \<ge> MAX_PHL_MSG_NUM then (d, RTW_PHL_STATUS_FAILURE, Some h)
          else
            let x = GET_IDX_FROM_HDL h in
            if \<not> mx_flag d x MSG_STATUS_ENQ \<and> \<not> mx_flag d x MSG_STATUS_RUN then (d, RTW_PHL_STATUS_FAILURE, Some 0)
            else (cancel_msg x d, RTW_PHL_STATUS_SUCCESS, Some 0))"

definition dispr_clr_pending_msg :: "'w disp \<Rightarrow> 'w disp" where
  "dispr_clr_pending_msg d = notify_bk_thread (d_set DISPR_CLR_PEND_MSG d)"

section \<open>The command token\<close>

definition zero_op_info :: phl_token_op_info where
  "zero_op_info = \<lparr>used = False, op_type = 0, op_data = 0\<rparr>"

definition zero_req :: phl_cmd_token_req where
  "zero_req = \<lparr>rq_module_id = 0, rq_priv = None, rq_role = None, rq_acquired = None, rq_abort = None,
     rq_msg_hdlr = None, rq_set_info = None, rq_query_info = None\<rparr>"

definition pop_front_idle_req :: "'w disp \<Rightarrow> 'w disp \<times> nat option" where
  "pop_front_idle_req d =
     (case pq_pop (token_req_idle_q d) First of
        (q, None) \<Rightarrow> (d, None)
      | (q, Some r) \<Rightarrow>
          (upd_rx r (\<lambda>e. e\<lparr>rx_status := 0, rx_req := zero_req, add_req_info := zero_op_info,
             free_req_info := zero_op_info\<rparr>) (d\<lparr>token_req_idle_q := q\<rparr>), Some r))"

definition push_back_idle_req :: "nat \<Rightarrow> 'w disp \<Rightarrow> 'w disp" where
  "push_back_idle_req r d =
     (let d1 = upd_rx r (\<lambda>e. e\<lparr>rx_status := 0\<rparr>) d;
          d2 = d1\<lparr>pending_evt_id := (pending_evt_id d1)(rq_module_id (rx_req (rx d1 r)) := MSG_EVT_MAX)\<rparr>
      in d2\<lparr>token_req_idle_q := fst (pq_push (token_req_idle_q d2) r Tail)\<rparr>)"

definition pop_front_wait_req :: "'w disp \<Rightarrow> 'w disp \<times> nat option" where
  "pop_front_wait_req d =
     (case pq_pop (token_req_wait_q d) First of
        (q, None) \<Rightarrow> (d, None)
      | (q, Some r) \<Rightarrow> (rx_clr r REQ_STATUS_ENQ (rx_set r REQ_STATUS_PREPARE (d\<lparr>token_req_wait_q := q\<rparr>)), Some r))"

definition push_back_wait_req :: "nat \<Rightarrow> 'w disp \<Rightarrow> 'w disp" where
  "push_back_wait_req r d =
     rx_set r REQ_STATUS_ENQ (d\<lparr>token_req_wait_q := fst (pq_push (token_req_wait_q d) r Tail)\<rparr>)"

definition call_abort :: "'w dispr_env \<Rightarrow> nat \<Rightarrow> 'w disp \<Rightarrow> 'w disp" where
  "call_abort env r d =
     fst (cb_abort env (rq_abort (rx_req (rx d r))) (rq_priv (rx_req (rx d r))) (d_tell (Aborted r) d))"

text \<open>The messages of the request's module are cancelled, pending ones put back into the wait queue.\<close>

fun cancel_req_msgs :: "nat \<Rightarrow> nat list \<Rightarrow> 'w disp \<Rightarrow> 'w disp" where
  "cancel_req_msgs mid [] d = d"
| "cancel_req_msgs mid (x # xs) d =
     cancel_req_msgs mid xs
       (if mid \<noteq> MSG_MDL_ID_FIELD (mx_id d x) then d
        else
          let d1 = cancel_msg x (mx_clr x MSG_STATUS_OWNER_REQ d) in
          if mx_flag d1 x MSG_STATUS_PENDING then clear_pending_msg (dispr_clr_pending_msg d1) else d1)"

definition deregister_cur_cmd_req :: "'w dispr_env \<Rightarrow> bool \<Rightarrow> 'w disp \<Rightarrow> 'w disp" where
  "deregister_cur_cmd_req env notify d =
     (case cur_cmd_req d of None \<Rightarrow> d
      | Some r \<Rightarrow>
          let d1 = cancel_req_msgs (rq_module_id (rx_req (rx d r))) [0..<MAX_PHL_MSG_NUM] (rx_clr r REQ_STATUS_RUN d);
              d2 = (if notify
                    then rx_clr r REQ_STATUS_LAST_PERMIT (call_abort env r (rx_set r REQ_STATUS_LAST_PERMIT d1))
                    else d1);
              d3 = push_back_idle_req r d2
          in d3\<lparr>token_cnt := token_cnt d3 - 1, cur_cmd_req := None\<rparr>)"

definition register_cur_cmd_req :: "'w dispr_env \<Rightarrow> nat \<Rightarrow> 'w disp \<Rightarrow> 'w disp \<times> bool" where
  "register_cur_cmd_req env r d =
     (let d1 = rx_clr r REQ_STATUS_PREPARE (rx_set r REQ_STATUS_RUN d);
          d2 = d1\<lparr>cur_cmd_req := Some r, token_cnt := token_cnt d1 + 1\<rparr>
      in case cb_acquired env (rq_acquired (rx_req (rx d2 r))) (rq_priv (rx_req (rx d2 r))) (d_tell (Acquired r) d2) of
           (d3, ret) \<Rightarrow>
             if ret = MDL_RET_FAIL then (deregister_cur_cmd_req env False d3, False) else (d3, True))"

fun cancel_req_loop :: "nat list \<Rightarrow> 'w disp \<Rightarrow> 'w disp" where
  "cancel_req_loop [] d = d"
| "cancel_req_loop (r # rs) d =
     cancel_req_loop rs (if rx_status (rx d r) \<noteq> 0 then rx_set r REQ_STATUS_CANCEL d else d)"

definition cancel_all_cmd_req :: "'w disp \<Rightarrow> 'w disp" where
  "cancel_all_cmd_req d = cancel_req_loop [0..<MAX_CMD_REQ_NUM] d"

definition chk_cmd_req_ops :: "phl_cmd_token_req option \<Rightarrow> bool" where
  "chk_cmd_req_ops req =
     (case req of None \<Rightarrow> False
      | Some q \<Rightarrow> \<not> rq_module_id q < PHL_FG_MDL_START \<and> rq_abort q \<noteq> None \<and> rq_acquired q \<noteq> None \<and>
          rq_msg_hdlr q \<noteq> None \<and> rq_set_info q \<noteq> None \<and> rq_query_info q \<noteq> None)"

fun dispr_process_token_req :: "nat \<Rightarrow> 'w dispr_env \<Rightarrow> 'w disp \<Rightarrow> ('w disp \<times> rtw_phl_status) option" where
  "dispr_process_token_req 0 env d = None"
| "dispr_process_token_req (Suc n) env d =
     (if \<not> d_flag d DISPR_STARTED then Some (d, RTW_PHL_STATUS_UNEXPECTED_ERROR)
      else if d_flag d DISPR_SHALL_STOP then Some (d, RTW_PHL_STATUS_FAILURE)
      else if token_cnt d > 0 then Some (d, RTW_PHL_STATUS_FAILURE)
      else if d_flag d DISPR_WAIT_ABORT_MSG_DONE then Some (d, RTW_PHL_STATUS_FAILURE)
      else
        case pop_front_wait_req d of
          (d1, None) \<Rightarrow>
            Some (if \<not> d_flag d1 DISPR_NOTIFY_IDLE then send_bk_msg_phy_idle env (d_set DISPR_NOTIFY_IDLE d1) else d1,
                  RTW_PHL_STATUS_SUCCESS)
        | (d1, Some r) \<Rightarrow>
            (case register_cur_cmd_req env r
                    (if d_flag d1 DISPR_NOTIFY_IDLE then send_bk_msg_phy_on env (d_clr DISPR_NOTIFY_IDLE d1) else d1) of
               (d2, True) \<Rightarrow> Some (d2, RTW_PHL_STATUS_SUCCESS)
             | (d2, False) \<Rightarrow> dispr_process_token_req n env d2))"

definition handle_token_op_info :: "nat \<Rightarrow> 'w dispr_env \<Rightarrow> op_ptr \<Rightarrow> 'w disp \<Rightarrow> 'w disp option" where
  "handle_token_op_info n env p d =
     (let ty = op_type (op_info d p); r = op_data (op_info d p) in
      if ty = TOKEN_OP_RENEW_CMD_REQ \<or> ty = TOKEN_OP_ADD_CMD_REQ then map_option fst (dispr_process_token_req n env d)
      else if ty = TOKEN_OP_FREE_CMD_REQ then
        (if r \<ge> MAX_CMD_REQ_NUM then Some d
         else if \<not> rx_flag d r REQ_STATUS_RUN then Some d
         else map_option fst (dispr_process_token_req n env (deregister_cur_cmd_req env False d)))
      else if ty = TOKEN_OP_CANCEL_CMD_REQ then
        (if r \<ge> MAX_CMD_REQ_NUM then Some d
         else if rx_flag d r REQ_STATUS_ENQ then
           (let d1 = d\<lparr>token_req_wait_q := pq_del_node (token_req_wait_q d) (Some r)\<rparr>
            in Some (push_back_idle_req r (call_abort env r d1)))
         else if rx_flag d r REQ_STATUS_RUN
         then map_option fst (dispr_process_token_req n env (deregister_cur_cmd_req env True d))
         else Some d)
      else Some d)"

definition pop_front_token_op_info :: "'w disp \<Rightarrow> 'w disp \<times> op_ptr option" where
  "pop_front_token_op_info d = (case pq_pop (token_op_q d) First of (q, r) \<Rightarrow> (d\<lparr>token_op_q := q\<rparr>, r))"

fun token_op_hanler :: "nat \<Rightarrow> nat \<Rightarrow> 'w dispr_env \<Rightarrow> 'w disp \<Rightarrow> 'w disp option" where
  "token_op_hanler 0 n env d = None"
| "token_op_hanler (Suc k) n env d =
     (case pop_front_token_op_info d of
        (d1, None) \<Rightarrow> Some d1
      | (d1, Some p) \<Rightarrow>
          (case handle_token_op_info n env p d1 of None \<Rightarrow> None
           | Some d2 \<Rightarrow> token_op_hanler k n env (upd_op p (\<lambda>i. i\<lparr>used := False\<rparr>) d2)))"

section \<open>The thread\<close>

definition dispr_thread_loop_hdl :: "nat \<Rightarrow> nat \<Rightarrow> 'w dispr_env \<Rightarrow> 'w disp \<Rightarrow> 'w disp option" where
  "dispr_thread_loop_hdl k n env d =
     (case token_op_hanler k n env (clear_pending_msg d) of None \<Rightarrow> None
      | Some d1 \<Rightarrow>
          (case pop_front_wait_msg d1 of
             (d2, None) \<Rightarrow> Some d2
           | (d2, Some x) \<Rightarrow>
               (case is_msg_canceled x d2 of
                  (d3, True) \<Rightarrow> Some (push_back_idle_msg env x d3)
                | (d3, False) \<Rightarrow>
                    Some (msg_dispatch env x
                      (upd_mx x (\<lambda>m. m\<lparr>premap := and_bitmaps (bitmap d3) (premap m),
                         postmap := and_bitmaps (bitmap d3) (postmap m)\<rparr>) d3)))))"

text \<open>
  The end of the thread. The inner loops take what the queues hold, the outer ones go on until the idle queue
  is full. Each loop has fuel.
\<close>

fun pend_to_wait :: "nat \<Rightarrow> 'w disp \<Rightarrow> 'w disp option" where
  "pend_to_wait 0 d = None"
| "pend_to_wait (Suc n) d =
     (case pop_front_pending_msg d of (d1, None) \<Rightarrow> Some d1
      | (d1, Some x) \<Rightarrow> pend_to_wait n (push_back_wait_msg x d1))"

fun wait_to_idle :: "nat \<Rightarrow> 'w dispr_env \<Rightarrow> 'w disp \<Rightarrow> 'w disp option" where
  "wait_to_idle 0 env d = None"
| "wait_to_idle (Suc n) env d =
     (case pop_front_wait_msg d of (d1, None) \<Rightarrow> Some d1
      | (d1, Some x) \<Rightarrow> wait_to_idle n env (push_back_idle_msg env x d1))"

fun clear_waiting_msg :: "nat \<Rightarrow> nat \<Rightarrow> 'w dispr_env \<Rightarrow> 'w disp \<Rightarrow> 'w disp option" where
  "clear_waiting_msg 0 n env d = None"
| "clear_waiting_msg (Suc k) n env d =
     (if cnt (msg_idle_q d) = int MAX_PHL_MSG_NUM then Some d
      else
        case pend_to_wait n d of None \<Rightarrow> None
        | Some d1 \<Rightarrow>
            (case wait_to_idle n env d1 of None \<Rightarrow> None
             | Some d2 \<Rightarrow> clear_waiting_msg k n env d2))"

fun req_to_idle :: "nat \<Rightarrow> 'w dispr_env \<Rightarrow> 'w disp \<Rightarrow> 'w disp option" where
  "req_to_idle 0 env d = None"
| "req_to_idle (Suc n) env d =
     (case pop_front_wait_req d of (d1, None) \<Rightarrow> Some d1
      | (d1, Some r) \<Rightarrow> req_to_idle n env (push_back_idle_req r (call_abort env r d1)))"

fun clear_wating_req :: "nat \<Rightarrow> nat \<Rightarrow> 'w dispr_env \<Rightarrow> 'w disp \<Rightarrow> 'w disp option" where
  "clear_wating_req 0 n env d = None"
| "clear_wating_req (Suc k) n env d =
     (if cnt (token_req_idle_q d) = int MAX_CMD_REQ_NUM then Some d
      else case req_to_idle n env d of None \<Rightarrow> None | Some d1 \<Rightarrow> clear_wating_req k n env d1)"

definition dispr_thread_leave_hdl :: "nat \<Rightarrow> nat \<Rightarrow> 'w dispr_env \<Rightarrow> 'w disp \<Rightarrow> 'w disp option" where
  "dispr_thread_leave_hdl k n env d =
     (case clear_waiting_msg k n env (deregister_cur_cmd_req env True d) of None \<Rightarrow> None
      | Some d1 \<Rightarrow> clear_wating_req k n env d1)"

end
