(* ===== verification/Phl_Dispr_Api.thy ===== *)
theory Phl_Dispr_Api
  imports Phl_Dispr_Run
begin

text \<open>
  The command dispatcher, third part: requests for the command token, registration of modules, start and stop,
  the state of the device, and the queries. A module is allocated at the address the allocator returns
  (\<open>None\<close> when it fails), zeroed; a freed address leaves \<open>mdl_live\<close>.
\<close>

section \<open>Requests for the token\<close>

definition dispr_add_token_req ::
  "phl_cmd_token_req option \<Rightarrow> bool \<Rightarrow> 'w disp \<Rightarrow> 'w disp \<times> rtw_phl_status \<times> u32 option" where
  "dispr_add_token_req req has_hdl d =
     (if \<not> d_flag d DISPR_STARTED \<or> \<not> has_hdl \<or> \<not> chk_cmd_req_ops req then (d, RTW_PHL_STATUS_UNEXPECTED_ERROR, None)
      else
        case pop_front_idle_req d of
          (d1, None) \<Rightarrow> (d1, RTW_PHL_STATUS_RESOURCE, None)
        | (d1, Some r) \<Rightarrow>
            let d2 = upd_rx r (\<lambda>e. e\<lparr>rx_req := the req\<rparr>) d1;
                d3 = push_back_wait_req r d2;
                stat = (if pq_get_front (token_op_q d3) = None \<and> token_cnt d3 = 0 then RTW_PHL_STATUS_SUCCESS
                        else RTW_PHL_STATUS_PENDING);
                d4 = fst (dispr_enqueue_token_op_info (AddInfo r) TOKEN_OP_ADD_CMD_REQ (rx_idx (rx d3 r)) d3)
            in (d4, stat, Some (GEN_VALID_HDL (rx_idx (rx d3 r)))))"

definition dispr_cancel_token_req :: "u32 option \<Rightarrow> 'w disp \<Rightarrow> 'w disp \<times> rtw_phl_status" where
  "dispr_cancel_token_req req_hdl d =
     (case req_hdl of None \<Rightarrow> (d, RTW_PHL_STATUS_UNEXPECTED_ERROR)
      | Some h \<Rightarrow>
          if \<not> d_flag d DISPR_STARTED then (d, RTW_PHL_STATUS_UNEXPECTED_ERROR)
          else if \<not> IS_HDL_VALID h \<or> GET_IDX_FROM_HDL h \<ge> MAX_CMD_REQ_NUM then (d, RTW_PHL_STATUS_FAILURE)
          else
            let r = GET_IDX_FROM_HDL h in
            if \<not> rx_flag d r REQ_STATUS_ENQ \<and> \<not> rx_flag d r REQ_STATUS_RUN \<and> \<not> rx_flag d r REQ_STATUS_PREPARE
            then (d, RTW_PHL_STATUS_FAILURE)
            else
              case dispr_enqueue_token_op_info (FreeInfo r) TOKEN_OP_CANCEL_CMD_REQ (rx_idx (rx d r))
                     (rx_set r REQ_STATUS_CANCEL d) of
                (d1, ok) \<Rightarrow> (d1, if ok then RTW_PHL_STATUS_SUCCESS else RTW_PHL_STATUS_FAILURE))"

definition dispr_free_token :: "u32 option \<Rightarrow> 'w disp \<Rightarrow> 'w disp \<times> rtw_phl_status" where
  "dispr_free_token req_hdl d =
     (case req_hdl of None \<Rightarrow> (d, RTW_PHL_STATUS_UNEXPECTED_ERROR)
      | Some h \<Rightarrow>
          if \<not> d_flag d DISPR_STARTED then (d, RTW_PHL_STATUS_UNEXPECTED_ERROR)
          else if cur_cmd_req d = None \<or> token_cnt d = 0 \<or> \<not> IS_HDL_VALID h \<or> GET_IDX_FROM_HDL h \<ge> MAX_CMD_REQ_NUM
          then (d, RTW_PHL_STATUS_FAILURE)
          else
            let r = GET_IDX_FROM_HDL h in
            if \<not> rx_flag d r REQ_STATUS_RUN \<and> \<not> rx_flag d r REQ_STATUS_PREPARE then (d, RTW_PHL_STATUS_FAILURE)
            else
              case dispr_enqueue_token_op_info (FreeInfo r) TOKEN_OP_FREE_CMD_REQ (rx_idx (rx d r))
                     (rx_set r REQ_STATUS_CANCEL d) of
                (d1, ok) \<Rightarrow> (d1, if ok then RTW_PHL_STATUS_SUCCESS else RTW_PHL_STATUS_FAILURE))"

definition dispr_notify_dev_io_status :: "'w dispr_env \<Rightarrow> nat \<Rightarrow> bool \<Rightarrow> 'w disp \<Rightarrow> 'w disp \<times> rtw_phl_status" where
  "dispr_notify_dev_io_status env mdl_id allow_io d =
     (if \<not> allow_io then
        (if \<not> d_flag d DISPR_CANNOT_IO
         then send_dev_io_status_change env allow_io ((d_set DISPR_CANNOT_IO d)\<lparr>exclusive_mdl := mdl_id\<rparr>)
         else (d, RTW_PHL_STATUS_SUCCESS))
      else if d_flag d DISPR_CANNOT_IO then
        (case send_dev_io_status_change env allow_io ((d_clr DISPR_CANNOT_IO d)\<lparr>exclusive_mdl := PHL_MDL_ID_MAX\<rparr>) of
           (d1, st) \<Rightarrow> (dispr_clr_pending_msg d1, st))
      else (d, RTW_PHL_STATUS_SUCCESS))"

definition dispr_notify_shall_stop :: "'w disp \<Rightarrow> 'w disp" where
  "dispr_notify_shall_stop d =
     (if \<not> d_flag d DISPR_SHALL_STOP then dispr_clr_pending_msg (d_set DISPR_SHALL_STOP d) else d)"

definition dispr_is_fg_empty :: "'w disp \<Rightarrow> bool" where
  "dispr_is_fg_empty d =
     (if queue (token_req_wait_q d) \<noteq> [] \<and> cnt (token_req_wait_q d) > 0 then False
      else \<not> (pq_get_front (token_op_q d) \<noteq> None \<or> token_cnt d > 0))"

section \<open>Start and stop\<close>

text \<open>The pools are zeroed; a zero pending event of module 0 is then set by the idle routine.\<close>

definition zero_mx :: "nat \<Rightarrow> phl_dispr_msg_ex" where
  "zero_mx i = \<lparr>mx_status = 0, mx_idx = i, mx_msg = zero_msg, premap = reset_bitmap, postmap = reset_bitmap,
     mx_completion = zero_completion, mx_module = None\<rparr>"

fun fill_idle :: "'w dispr_env \<Rightarrow> nat list \<Rightarrow> 'w disp \<Rightarrow> 'w disp" where
  "fill_idle env [] d = d"
| "fill_idle env (i # is) d = fill_idle env is (push_back_idle_msg env i (upd_mx i (\<lambda>m. m\<lparr>mx_idx := i\<rparr>) d))"

definition init_dispr_msg_pool :: "'w dispr_env \<Rightarrow> 'w disp \<Rightarrow> 'w disp" where
  "init_dispr_msg_pool env d =
     (if d_flag d DISPR_MSGQ_INIT then d
      else
        d_set DISPR_MSGQ_INIT
          (fill_idle env [0..<MAX_PHL_MSG_NUM]
             (d\<lparr>msg_idle_q := pq_init, msg_wait_q := pq_init, msg_pend_q := pq_init,
                msg_ex_pool := replicate MAX_PHL_MSG_NUM (zero_mx 0)\<rparr>)))"

definition deinit_dispr_msg_pool :: "'w disp \<Rightarrow> 'w disp" where
  "deinit_dispr_msg_pool d =
     (if \<not> d_flag d DISPR_MSGQ_INIT then d
      else (d_clr DISPR_MSGQ_INIT d)\<lparr>msg_idle_q := pq_init, msg_wait_q := pq_init, msg_pend_q := pq_init\<rparr>)"

definition zero_rx :: "nat \<Rightarrow> phl_cmd_token_req_ex" where
  "zero_rx i = \<lparr>rx_idx = i, rx_status = 0, rx_req = zero_req, add_req_info = zero_op_info, free_req_info = zero_op_info\<rparr>"

fun fill_idle_req :: "nat list \<Rightarrow> 'w disp \<Rightarrow> 'w disp" where
  "fill_idle_req [] d = d"
| "fill_idle_req (i # is) d =
     fill_idle_req is
       (let d1 = upd_rx i (\<lambda>e. e\<lparr>rx_idx := i\<rparr>) d in d1\<lparr>token_req_idle_q := fst (pq_push (token_req_idle_q d1) i Tail)\<rparr>)"

definition init_cmd_req_pool :: "'w disp \<Rightarrow> 'w disp" where
  "init_cmd_req_pool d =
     (if d_flag d DISPR_REQ_INIT then d
      else
        d_set DISPR_REQ_INIT
          (fill_idle_req [0..<MAX_CMD_REQ_NUM]
             (d\<lparr>token_req_wait_q := pq_init, token_req_idle_q := pq_init, token_op_q := pq_init,
                token_req_ex_pool := replicate MAX_CMD_REQ_NUM (zero_rx 0)\<rparr>)))"

definition deinit_cmd_req_pool :: "'w disp \<Rightarrow> 'w disp" where
  "deinit_cmd_req_pool d =
     (d_clr DISPR_REQ_INIT d)\<lparr>token_req_wait_q := pq_init, token_req_idle_q := pq_init, token_op_q := pq_init\<rparr>"

definition init_dispr_mdl_mgnt_info :: "'w disp \<Rightarrow> 'w disp" where
  "init_dispr_mdl_mgnt_info d =
     d\<lparr>pending_evt_id := (\<lambda>i. if i < PHL_MDL_ID_MAX then MSG_EVT_MAX else pending_evt_id d i)\<rparr>"

definition start_dispr_controller :: "'w dispr_env \<Rightarrow> 'w disp \<Rightarrow> 'w disp \<times> rtw_phl_status" where
  "start_dispr_controller env d =
     (case bk_module_start env CtrlMdl d of
        (d1, True) \<Rightarrow> (d_set DISPR_CTRL_PRESENT d1, RTW_PHL_STATUS_SUCCESS)
      | (d1, False) \<Rightarrow> (d1, RTW_PHL_STATUS_FAILURE))"

definition stop_dispr_controller :: "'w dispr_env \<Rightarrow> 'w disp \<Rightarrow> 'w disp \<times> rtw_phl_status" where
  "stop_dispr_controller env d =
     (case bk_module_stop env CtrlMdl (d_clr DISPR_CTRL_PRESENT d) of
        (d1, ok) \<Rightarrow> (d1, if ok then RTW_PHL_STATUS_SUCCESS else RTW_PHL_STATUS_FAILURE))"

definition register_dispr_controller :: "'w dispr_env \<Rightarrow> phl_bk_module_ops \<Rightarrow> 'w disp \<Rightarrow> 'w disp \<times> rtw_phl_status" where
  "register_dispr_controller env ops d =
     (case bk_module_init env CtrlMdl (upd_mdl CtrlMdl (\<lambda>m. m\<lparr>md_ops := ops, md_id := PHL_MDL_PHY_MGNT\<rparr>) d) of
        (d1, ok) \<Rightarrow> (d1, if ok then RTW_PHL_STATUS_SUCCESS else RTW_PHL_STATUS_FAILURE))"

text \<open>A freshly allocated dispatcher; what is outside of it is given.\<close>

definition zero_ops :: phl_bk_module_ops where
  "zero_ops = \<lparr>op_init = None, op_deinit = None, op_start = None, op_stop = None, op_msg_hdlr = None,
     op_set_info = None, op_query_info = None\<rparr>"

definition zero_mdl :: phl_bk_module where
  "zero_mdl = \<lparr>md_status = 0, md_id = 0, md_priv = None, md_ops = zero_ops\<rparr>"

definition zero_dispr :: "'w \<Rightarrow> 'w disp" where
  "zero_dispr w = \<lparr>d_idx = 0, d_status = 0, module_q = replicate PHL_MDL_PRI_MAX pq_init,
     msg_ex_pool = replicate MAX_PHL_MSG_NUM (zero_mx 0), msg_wait_q = pq_init, msg_idle_q = pq_init,
     msg_pend_q = pq_init, token_req_ex_pool = replicate MAX_CMD_REQ_NUM (zero_rx 0), token_req_wait_q = pq_init,
     token_req_idle_q = pq_init, token_op_q = pq_init, token_cnt = 0, cur_cmd_req = None, bitmap = reset_bitmap,
     basemap = reset_bitmap, pending_evt_id = (\<lambda>_. 0), controller = zero_mdl, renew_req_info = zero_op_info,
     exclusive_mdl = 0, mdl_mem = (\<lambda>_. zero_mdl), mdl_live = [], d_sema = 0, world = w, d_out = []\<rparr>"

definition dispr_init :: "'w dispr_env \<Rightarrow> phl_bk_module_ops \<Rightarrow> bool \<Rightarrow> nat \<Rightarrow> 'w \<Rightarrow> 'w disp option \<times> rtw_phl_status" where
  "dispr_init env ctrl_ops alloc_ok idx w =
     (if \<not> alloc_ok then (None, RTW_PHL_STATUS_RESOURCE)
      else
        (Some (fst (register_dispr_controller env ctrl_ops
                 (d_set DISPR_NOTIFY_IDLE (d_set DISPR_INIT ((zero_dispr w)\<lparr>d_idx := idx\<rparr>))))),
         RTW_PHL_STATUS_SUCCESS))"

definition dispr_start :: "'w dispr_env \<Rightarrow> 'w disp \<Rightarrow> 'w disp \<times> rtw_phl_status" where
  "dispr_start env d =
     (if d_flag d DISPR_STARTED then (d, RTW_PHL_STATUS_UNEXPECTED_ERROR)
      else
        let d1 = init_dispr_mdl_mgnt_info (init_cmd_req_pool (init_dispr_msg_pool env d));
            d2 = d1\<lparr>renew_req_info := zero_op_info, exclusive_mdl := PHL_MDL_ID_MAX\<rparr>
        in (fst (start_dispr_controller env (d_set DISPR_STARTED d2)), RTW_PHL_STATUS_SUCCESS))"

definition dispr_thread_stop_prior_hdl :: "'w dispr_env \<Rightarrow> 'w disp \<Rightarrow> 'w disp" where
  "dispr_thread_stop_prior_hdl env d =
     cancel_running_msg (cancel_all_cmd_req (fst (stop_dispr_controller env (d_clr DISPR_STARTED d))))"

definition dispr_thread_stop_post_hdl :: "'w disp \<Rightarrow> 'w disp" where
  "dispr_thread_stop_post_hdl d = (deinit_cmd_req_pool (deinit_dispr_msg_pool d))\<lparr>token_cnt := 0\<rparr>"

text \<open>With one thread for all dispatchers, \<^verbatim>\<open>dispr_stop\<close> does not stop a thread of its own.\<close>

definition dispr_stop :: "'w dispr_env \<Rightarrow> 'w disp \<Rightarrow> 'w disp \<times> rtw_phl_status" where
  "dispr_stop env d =
     (if \<not> d_flag d DISPR_STARTED then (d, RTW_PHL_STATUS_UNEXPECTED_ERROR)
      else (dispr_thread_stop_post_hdl (dispr_thread_stop_prior_hdl env d), RTW_PHL_STATUS_SUCCESS))"

text \<open>The dispatcher is freed; the result is what the handlers have seen last.\<close>

definition dispr_deinit :: "'w dispr_env \<Rightarrow> 'w disp \<Rightarrow> 'w disp option \<times> rtw_phl_status" where
  "dispr_deinit env d =
     (if \<not> d_flag d DISPR_INIT then (None, RTW_PHL_STATUS_SUCCESS)
      else (Some (bk_module_deinit env CtrlMdl (fst (dispr_stop env d))), RTW_PHL_STATUS_SUCCESS))"

section \<open>Registration of modules\<close>

definition free_mdl :: "ptr \<Rightarrow> 'w disp \<Rightarrow> 'w disp" where
  "free_mdl a d = d\<lparr>mdl_live := remove1 a (mdl_live d)\<rparr>"

text \<open>A module that is started enters the map of all modules and, unless optional, the base map.\<close>

definition add_started :: "ptr \<Rightarrow> bool \<Rightarrow> 'w disp \<Rightarrow> 'w disp" where
  "add_started a optional d =
     (let d1 = d\<lparr>bitmap := add_bitmap_bit (bitmap d) [md_id (mdl_mem d a)]\<rparr> in
      if optional then d1 else d1\<lparr>basemap := add_bitmap_bit (basemap d1) [md_id (mdl_mem d1 a)]\<rparr>)"

definition dispr_register_module ::
  "'w dispr_env \<Rightarrow> ptr option \<Rightarrow> nat \<Rightarrow> phl_bk_module_ops option \<Rightarrow> 'w disp \<Rightarrow> 'w disp \<times> rtw_phl_status" where
  "dispr_register_module env new mid ops d =
     (let priority = get_mdl_priority mid in
      if \<not> d_flag d DISPR_INIT \<or> priority = PHL_MDL_PRI_MAX \<or> \<not> chk_module_ops ops \<or> chk_bitmap_bit (bitmap d) mid
      then (d, RTW_PHL_STATUS_FAILURE)
      else
        case new of None \<Rightarrow> (d, RTW_PHL_STATUS_FAILURE)
        | Some a \<Rightarrow>
            let d1 = d\<lparr>mdl_mem := (mdl_mem d)(a := zero_mdl\<lparr>md_id := mid, md_ops := the ops\<rparr>), mdl_live := a # mdl_live d\<rparr>;
                d2 = d1\<lparr>module_q := (module_q d1)[priority := fst (pq_push (module_q d1 ! priority) a Tail)]\<rparr>
            in case bk_module_init env (BkMdl a) d2 of
                 (d3, False) \<Rightarrow> (free_mdl a (bk_module_deinit env (BkMdl a) d3), RTW_PHL_STATUS_FAILURE)
               | (d3, True) \<Rightarrow>
                   if \<not> d_flag d3 DISPR_STARTED then (d3, RTW_PHL_STATUS_SUCCESS)
                   else
                     (case bk_module_start env (BkMdl a) d3 of
                        (d4, False) \<Rightarrow> (free_mdl a (bk_module_deinit env (BkMdl a) d4), RTW_PHL_STATUS_FAILURE)
                      | (d4, True) \<Rightarrow> (add_started a (priority = PHL_MDL_PRI_OPTIONAL) d4, RTW_PHL_STATUS_SUCCESS)))"

definition drop_started :: "ptr \<Rightarrow> 'w disp \<Rightarrow> 'w disp" where
  "drop_started a d =
     d\<lparr>bitmap := clr_bitmap_bit (bitmap d) [md_id (mdl_mem d a)],
       basemap := clr_bitmap_bit (basemap d) [md_id (mdl_mem d a)]\<rparr>"

definition dispr_deregister_module :: "'w dispr_env \<Rightarrow> nat \<Rightarrow> 'w disp \<Rightarrow> 'w disp \<times> rtw_phl_status" where
  "dispr_deregister_module env mid d =
     (let priority = get_mdl_priority mid in
      if \<not> d_flag d DISPR_INIT \<or> priority = PHL_MDL_PRI_MAX then (d, RTW_PHL_STATUS_FAILURE)
      else
        case pq_search_node (module_q d ! priority) True (Some (\<lambda>p. md_id (mdl_mem d p) = mid)) of
          (q, None) \<Rightarrow> (d, RTW_PHL_STATUS_FAILURE)
        | (q, Some a) \<Rightarrow>
            (free_mdl a (bk_module_deinit env (BkMdl a) (fst (bk_module_stop env (BkMdl a)
               (drop_started a (d\<lparr>module_q := (module_q d)[priority := q]\<rparr>))))), RTW_PHL_STATUS_SUCCESS))"

text \<open>The loops over the module queues, in the order of the priorities.\<close>

definition all_modules :: "'w disp \<Rightarrow> (nat \<times> ptr) list" where
  "all_modules d = concat (map (\<lambda>i. map (Pair i) (level_list True d i)) [0..<PHL_MDL_PRI_MAX])"

fun init_modules :: "'w dispr_env \<Rightarrow> (nat \<times> ptr) list \<Rightarrow> 'w disp \<Rightarrow> 'w disp" where
  "init_modules env [] d = d"
| "init_modules env ((i, a) # ms) d = init_modules env ms (fst (bk_module_init env (BkMdl a) d))"

definition dispr_module_init :: "'w dispr_env \<Rightarrow> 'w disp \<Rightarrow> 'w disp \<times> rtw_phl_status" where
  "dispr_module_init env d =
     (if \<not> d_flag d DISPR_INIT then (d, RTW_PHL_STATUS_FAILURE)
      else (init_modules env (all_modules d) d, RTW_PHL_STATUS_SUCCESS))"

fun start_modules :: "'w dispr_env \<Rightarrow> (nat \<times> ptr) list \<Rightarrow> 'w disp \<Rightarrow> 'w disp" where
  "start_modules env [] d = d"
| "start_modules env ((i, a) # ms) d =
     start_modules env ms
       (case bk_module_start env (BkMdl a) d of
          (d1, True) \<Rightarrow> add_started a (i = PHL_MDL_PRI_OPTIONAL) d1
        | (d1, False) \<Rightarrow> d1)"

definition dispr_module_start :: "'w dispr_env \<Rightarrow> 'w disp \<Rightarrow> 'w disp \<times> rtw_phl_status" where
  "dispr_module_start env d =
     (if \<not> d_flag d DISPR_STARTED then (d, RTW_PHL_STATUS_UNEXPECTED_ERROR)
      else (start_modules env (all_modules d) d, RTW_PHL_STATUS_SUCCESS))"

fun stop_modules :: "'w dispr_env \<Rightarrow> (nat \<times> ptr) list \<Rightarrow> 'w disp \<Rightarrow> 'w disp" where
  "stop_modules env [] d = d"
| "stop_modules env ((i, a) # ms) d = stop_modules env ms (fst (bk_module_stop env (BkMdl a) (drop_started a d)))"

definition dispr_module_stop :: "'w dispr_env \<Rightarrow> 'w disp \<Rightarrow> 'w disp \<times> rtw_phl_status" where
  "dispr_module_stop env d =
     (if \<not> d_flag d DISPR_STARTED then (d, RTW_PHL_STATUS_UNEXPECTED_ERROR)
      else (stop_modules env (all_modules d) d, RTW_PHL_STATUS_SUCCESS))"

text \<open>\<^verbatim>\<open>dispr_module_deinit\<close> pops the modules off their queues.\<close>

fun deinit_queue :: "'w dispr_env \<Rightarrow> nat \<Rightarrow> nat \<Rightarrow> 'w disp \<Rightarrow> 'w disp" where
  "deinit_queue env i 0 d = d"
| "deinit_queue env i (Suc n) d =
     (case pq_pop (module_q d ! i) First of
        (q, None) \<Rightarrow> d
      | (q, Some a) \<Rightarrow>
          deinit_queue env i n (free_mdl a (bk_module_deinit env (BkMdl a) (d\<lparr>module_q := (module_q d)[i := q]\<rparr>))))"

definition dispr_module_deinit :: "'w dispr_env \<Rightarrow> 'w disp \<Rightarrow> 'w disp \<times> rtw_phl_status" where
  "dispr_module_deinit env d =
     (if \<not> d_flag d DISPR_INIT then (d, RTW_PHL_STATUS_FAILURE)
      else
        (foldl (\<lambda>s i. deinit_queue env i (length (queue (module_q s ! i))) s) d [0..<PHL_MDL_PRI_MAX],
         RTW_PHL_STATUS_SUCCESS))"

section \<open>Queries\<close>

definition dispr_get_cur_cmd_req :: "'w disp \<Rightarrow> bool \<Rightarrow> nat option \<times> rtw_phl_status" where
  "dispr_get_cur_cmd_req d has_handle =
     (if \<not> d_flag d (DISPR_INIT OR DISPR_STARTED) \<or> \<not> has_handle then (None, RTW_PHL_STATUS_UNEXPECTED_ERROR)
      else
        case cur_cmd_req d of None \<Rightarrow> (None, RTW_PHL_STATUS_FAILURE)
        | Some r \<Rightarrow>
            if \<not> rx_flag d r REQ_STATUS_RUN \<or> rx_flag d r REQ_STATUS_CANCEL then (None, RTW_PHL_STATUS_FAILURE)
            else (Some r, RTW_PHL_STATUS_SUCCESS))"

definition info_status :: "phl_mdl_ret_code \<Rightarrow> rtw_phl_status" where
  "info_status ret = (if ret = MDL_RET_SUCCESS then RTW_PHL_STATUS_SUCCESS else RTW_PHL_STATUS_FAILURE)"

definition dispr_set_cur_cmd_info :: "'w dispr_env \<Rightarrow> 'w disp \<Rightarrow> 'w disp \<times> rtw_phl_status" where
  "dispr_set_cur_cmd_info env d =
     (case dispr_get_cur_cmd_req d True of
        (Some r, RTW_PHL_STATUS_SUCCESS) \<Rightarrow>
          (case cb_info env (rq_set_info (rx_req (rx d r))) (rq_priv (rx_req (rx d r))) d of (d1, ret) \<Rightarrow> (d1, info_status ret))
      | _ \<Rightarrow> (d, RTW_PHL_STATUS_FAILURE))"

definition dispr_query_cur_cmd_info :: "'w dispr_env \<Rightarrow> 'w disp \<Rightarrow> 'w disp \<times> rtw_phl_status" where
  "dispr_query_cur_cmd_info env d =
     (case dispr_get_cur_cmd_req d True of
        (Some r, RTW_PHL_STATUS_SUCCESS) \<Rightarrow>
          (case cb_info env (rq_query_info (rx_req (rx d r))) (rq_priv (rx_req (rx d r))) d of (d1, ret) \<Rightarrow> (d1, info_status ret))
      | _ \<Rightarrow> (d, RTW_PHL_STATUS_FAILURE))"

definition dispr_get_bk_module_handle :: "'w disp \<Rightarrow> nat \<Rightarrow> bool \<Rightarrow> ptr option \<times> rtw_phl_status" where
  "dispr_get_bk_module_handle d mid has_handle =
     (let priority = get_mdl_priority mid in
      if \<not> d_flag d DISPR_INIT \<or> \<not> has_handle \<or> priority = PHL_MDL_PRI_MAX \<or> \<not> chk_bitmap_bit (bitmap d) mid
      then (None, RTW_PHL_STATUS_FAILURE)
      else
        case snd (pq_search_node (module_q d ! priority) False (Some (\<lambda>p. md_id (mdl_mem d p) = mid))) of
          None \<Rightarrow> (None, RTW_PHL_STATUS_FAILURE)
        | Some a \<Rightarrow> (Some a, RTW_PHL_STATUS_SUCCESS))"

definition dispr_set_bk_module_info :: "'w dispr_env \<Rightarrow> ptr \<Rightarrow> 'w disp \<Rightarrow> 'w disp \<times> rtw_phl_status" where
  "dispr_set_bk_module_info env a d =
     (let m = mdl_mem d a in
      if \<not> TEST_STATUS_FLAG (md_status m) MDL_INIT then (d, RTW_PHL_STATUS_FAILURE)
      else case cb_info env (op_set_info (md_ops m)) (md_priv m) d of (d1, ret) \<Rightarrow> (d1, info_status ret))"

definition dispr_query_bk_module_info :: "'w dispr_env \<Rightarrow> ptr \<Rightarrow> 'w disp \<Rightarrow> 'w disp \<times> rtw_phl_status" where
  "dispr_query_bk_module_info env a d =
     (let m = mdl_mem d a in
      if \<not> TEST_STATUS_FLAG (md_status m) MDL_INIT then (d, RTW_PHL_STATUS_FAILURE)
      else case cb_info env (op_query_info (md_ops m)) (md_priv m) d of (d1, ret) \<Rightarrow> (d1, info_status ret))"

text \<open>
  The source of a message is asked: the current request, else the module that sent it. A message of module id 255
  without a current request would be a NULL pointer followed; no module and no request has that id.
\<close>

definition src_info ::
  "(phl_cmd_token_req \<Rightarrow> fptr) \<Rightarrow> (phl_bk_module_ops \<Rightarrow> fptr) \<Rightarrow> 'w dispr_env \<Rightarrow> nat \<Rightarrow> 'w disp \<Rightarrow> 'w disp \<times> rtw_phl_status" where
  "src_info of_req of_ops env x d =
     (let mid = MSG_MDL_ID_FIELD (mx_id d x); cur_req_id = fst (get_cur_cmd_req_id d) in
      if \<not> d_flag d DISPR_INIT \<or> \<not> chk_bitmap_bit (bitmap d) mid \<and> cur_req_id \<noteq> mid then (d, RTW_PHL_STATUS_FAILURE)
      else
        case (if cur_req_id = mid then
                (case cur_cmd_req d of None \<Rightarrow> (d, MDL_RET_FAIL)
                 | Some r \<Rightarrow> cb_info env (of_req (rx_req (rx d r))) (rq_priv (rx_req (rx d r))) d)
              else if mx_flag d x MSG_STATUS_OWNER_BK_MDL then
                (case mx_module (mx d x) of None \<Rightarrow> (d, MDL_RET_FAIL)
                 | Some p \<Rightarrow> cb_info env (of_ops (md_ops (mdl d p))) (md_priv (mdl d p)) d)
              else (d, MDL_RET_FAIL)) of
          (d1, ret) \<Rightarrow> (d1, if ret = MDL_RET_FAIL then RTW_PHL_STATUS_FAILURE else RTW_PHL_STATUS_SUCCESS))"

definition dispr_set_src_info :: "'w dispr_env \<Rightarrow> nat \<Rightarrow> 'w disp \<Rightarrow> 'w disp \<times> rtw_phl_status" where
  "dispr_set_src_info = src_info rq_set_info op_set_info"

definition dispr_query_src_info :: "'w dispr_env \<Rightarrow> nat \<Rightarrow> 'w disp \<Rightarrow> 'w disp \<times> rtw_phl_status" where
  "dispr_query_src_info = src_info rq_query_info op_query_info"

definition disp_query_mdl_id :: "'w disp \<Rightarrow> mdl_ptr option \<Rightarrow> nat" where
  "disp_query_mdl_id d bk_mdl = (case bk_mdl of None \<Rightarrow> PHL_MDL_ID_MAX | Some p \<Rightarrow> md_id (mdl d p))"

definition phl_dispr_get_idx :: "'w disp option \<Rightarrow> bool \<Rightarrow> nat option \<times> rtw_phl_status" where
  "phl_dispr_get_idx dispr has_idx =
     (case dispr of None \<Rightarrow> (None, RTW_PHL_STATUS_FAILURE)
      | Some d \<Rightarrow>
          if \<not> d_flag d DISPR_INIT \<or> \<not> has_idx then (None, RTW_PHL_STATUS_FAILURE)
          else (Some (d_idx d), RTW_PHL_STATUS_SUCCESS))"

definition is_dispr_started :: "'w disp \<Rightarrow> bool" where
  "is_dispr_started d \<longleftrightarrow> d_flag d DISPR_STARTED"

end
