(* ===== verification/Phl_Dispr_Inv.thy ===== *)
theory Phl_Dispr_Inv
  imports Phl_Dispr_Api
begin

text \<open>
  The command dispatcher: what every operation and every round of the thread keeps. Each of the 24 messages is
  in exactly one of the three queues or in the hands of the code that runs, each of the eight requests is
  idle, waiting or the current one, the token count says whether there is a current one, and the semaphore covers
  everything that waits for the thread.

  \<open>fl\<close> and \<open>rfl\<close> are the messages and requests in flight, taken from a queue and not yet put back.
  \<open>k\<close> holds what the thread owes, one while it is in a round, for the count it has taken from the semaphore, and a
  count the semaphore does not fall below.
\<close>

section \<open>The invariant\<close>

datatype wake_due = Due (owed: nat) (sema_floor: nat)

definition msgs_inv :: "nat list \<Rightarrow> 'w disp \<Rightarrow> bool" where
  "msgs_inv fl d \<longleftrightarrow>
     pq_wf (msg_idle_q d) \<and> pq_wf (msg_wait_q d) \<and> pq_wf (msg_pend_q d) \<and> length (msg_ex_pool d) = MAX_PHL_MSG_NUM \<and>
     mset (queue (msg_idle_q d) @ queue (msg_wait_q d) @ queue (msg_pend_q d) @ fl) = mset [0..<MAX_PHL_MSG_NUM]"

definition req_ok :: "'w disp \<Rightarrow> nat \<Rightarrow> bool" where
  "req_ok d r \<longleftrightarrow> (rx_flag d r REQ_STATUS_ENQ \<longleftrightarrow> r \<in> set (queue (token_req_wait_q d))) \<and>
     (rx_flag d r REQ_STATUS_RUN \<longrightarrow> cur_cmd_req d = Some r)"

definition cur_list :: "'w disp \<Rightarrow> nat list" where
  "cur_list d = (case cur_cmd_req d of None \<Rightarrow> [] | Some r \<Rightarrow> [r])"

definition reqs_inv :: "nat list \<Rightarrow> 'w disp \<Rightarrow> bool" where
  "reqs_inv rfl d \<longleftrightarrow>
     pq_wf (token_req_idle_q d) \<and> pq_wf (token_req_wait_q d) \<and> pq_wf (token_op_q d) \<and>
     length (token_req_ex_pool d) = MAX_CMD_REQ_NUM \<and>
     mset (queue (token_req_idle_q d) @ queue (token_req_wait_q d) @ cur_list d @ rfl) = mset [0..<MAX_CMD_REQ_NUM] \<and>
     token_cnt d = int (length (cur_list d)) \<and>
     (\<forall>r<MAX_CMD_REQ_NUM. r \<notin> set rfl \<longrightarrow> req_ok d r)"

definition wake_inv :: "wake_due \<Rightarrow> 'w disp \<Rightarrow> bool" where
  "wake_inv k d \<longleftrightarrow>
     length (queue (msg_wait_q d)) \<le> d_sema d + owed k \<and> (queue (token_op_q d) \<noteq> [] \<longrightarrow> 0 < d_sema d + owed k) \<and>
     (d_flag d DISPR_CLR_PEND_MSG \<longrightarrow> 0 < d_sema d) \<and> sema_floor k \<le> d_sema d"

definition dispr_ok :: "nat list \<Rightarrow> nat list \<Rightarrow> wake_due \<Rightarrow> 'w disp \<Rightarrow> bool" where
  "dispr_ok fl rfl k d \<longleftrightarrow> msgs_inv fl d \<and> reqs_inv rfl d \<and> wake_inv k d"

text \<open>
  What a handler may do. It reaches the dispatcher through the operations offered to the rest of the driver, so it
  keeps the invariant whatever is in flight, and none of them changes the current request.
\<close>

definition keeps :: "('w disp \<Rightarrow> 'w disp) \<Rightarrow> bool" where
  "keeps f \<longleftrightarrow>
     (\<forall>fl rfl k d. dispr_ok fl rfl k d \<longrightarrow> dispr_ok fl rfl k (f d) \<and> cur_cmd_req (f d) = cur_cmd_req d)"

definition callbacks_keep :: "'w dispr_env \<Rightarrow> bool" where
  "callbacks_keep env \<longleftrightarrow>
     (\<forall>f p x. keeps (cb_completion env f p x)) \<and>
     (\<forall>f p x. keeps (\<lambda>d. fst (cb_msg_hdlr env f p x d))) \<and>
     (\<forall>f p. keeps (\<lambda>d. fst (cb_acquired env f p d))) \<and>
     (\<forall>f p. keeps (\<lambda>d. fst (cb_abort env f p d))) \<and>
     (\<forall>f. keeps (\<lambda>d. fst (cb_mdl_init env f d))) \<and>
     (\<forall>f p. keeps (cb_mdl_deinit env f p)) \<and>
     (\<forall>f p. keeps (\<lambda>d. fst (cb_mdl_start env f p d))) \<and>
     (\<forall>f p. keeps (\<lambda>d. fst (cb_mdl_stop env f p d))) \<and>
     (\<forall>f p. keeps (\<lambda>d. fst (cb_info env f p d)))"

lemma keepsI:
  "(\<And>fl rfl k d. dispr_ok fl rfl k d \<Longrightarrow> dispr_ok fl rfl k (f d)) \<Longrightarrow> (\<And>d. cur_cmd_req (f d) = cur_cmd_req d) \<Longrightarrow> keeps f"
  by (simp add: keeps_def)

lemma keepsD: "keeps f \<Longrightarrow> dispr_ok fl rfl k d \<Longrightarrow> dispr_ok fl rfl k (f d)"
  by (simp add: keeps_def)

lemma keeps_cur: "keeps f \<Longrightarrow> dispr_ok fl rfl k d \<Longrightarrow> cur_cmd_req (f d) = cur_cmd_req d"
  by (simp add: keeps_def)

lemma keeps_comp: "keeps f \<Longrightarrow> keeps g \<Longrightarrow> keeps (\<lambda>d. f (g d))"
  unfolding keeps_def by metis

lemma keeps_if: "keeps f \<Longrightarrow> keeps g \<Longrightarrow> keeps (\<lambda>d. if c d then f d else g d)"
  by (simp add: keeps_def)

lemma keeps_case: "(\<And>v. keeps (f v)) \<Longrightarrow> keeps (\<lambda>d. f (g d) d)"
  by (simp add: keeps_def)

lemma keeps_id: "keeps (\<lambda>d. d)"
  by (simp add: keeps_def)

section \<open>Updates that the invariant does not see\<close>

named_theorems d_defs \<open>access to the objects of a dispatcher\<close>

lemmas [d_defs] = upd_mx_def upd_rx_def mx_set_def mx_clr_def mx_set_id_def mx_indc_def rx_set_def rx_clr_def d_set_def
  d_clr_def d_tell_def notify_bk_thread_def

lemma ok_no_floor: "dispr_ok fl rfl (Due k s) d \<Longrightarrow> dispr_ok fl rfl (Due k 0) d"
  by (simp add: dispr_ok_def wake_inv_def)

lemmas inv_defs = dispr_ok_def msgs_inv_def reqs_inv_def wake_inv_def req_ok_def cur_list_def rx_flag_def d_flag_def

lemma ok_upd_mx [simp]: "dispr_ok fl rfl k (upd_mx x f d) = dispr_ok fl rfl k d" "cur_cmd_req (upd_mx x f d) = cur_cmd_req d"
  by (simp_all add: upd_mx_def inv_defs)

lemma ok_mx [simp]:
  "dispr_ok fl rfl k (mx_set x f d) = dispr_ok fl rfl k d" "dispr_ok fl rfl k (mx_clr x f d) = dispr_ok fl rfl k d"
  "dispr_ok fl rfl k (mx_set_id x g d) = dispr_ok fl rfl k d" "dispr_ok fl rfl k (mx_indc x i d) = dispr_ok fl rfl k d"
  "cur_cmd_req (mx_set x f d) = cur_cmd_req d" "cur_cmd_req (mx_clr x f d) = cur_cmd_req d"
  "cur_cmd_req (mx_set_id x g d) = cur_cmd_req d" "cur_cmd_req (mx_indc x i d) = cur_cmd_req d"
  by (simp_all add: mx_set_def mx_clr_def mx_set_id_def mx_indc_def)

lemma ok_other [simp]:
  "dispr_ok fl rfl k (d_tell e d) = dispr_ok fl rfl k d" "cur_cmd_req (d_tell e d) = cur_cmd_req d"
  "dispr_ok fl rfl k (d\<lparr>pending_evt_id := g\<rparr>) = dispr_ok fl rfl k d"
  "dispr_ok fl rfl k (d\<lparr>exclusive_mdl := n\<rparr>) = dispr_ok fl rfl k d"
  "dispr_ok fl rfl k (d\<lparr>renew_req_info := i\<rparr>) = dispr_ok fl rfl k d"
  "dispr_ok fl rfl k (d\<lparr>module_q := qs\<rparr>) = dispr_ok fl rfl k d"
  "dispr_ok fl rfl k (d\<lparr>bitmap := b\<rparr>) = dispr_ok fl rfl k d"
  "dispr_ok fl rfl k (d\<lparr>basemap := b\<rparr>) = dispr_ok fl rfl k d"
  "dispr_ok fl rfl k (d\<lparr>mdl_live := l\<rparr>) = dispr_ok fl rfl k d"
  "dispr_ok fl rfl k (d\<lparr>mdl_mem := mm\<rparr>) = dispr_ok fl rfl k d"
  by (simp_all add: d_tell_def inv_defs)

lemma ok_upd_mdl [simp]:
  "dispr_ok fl rfl k (upd_mdl p f d) = dispr_ok fl rfl k d" "cur_cmd_req (upd_mdl p f d) = cur_cmd_req d"
  by (cases p; simp add: upd_mdl_def inv_defs)+

text \<open>The fields an update of a message does not touch.\<close>

lemma upd_mx_fields [simp]:
  "d_status (upd_mx x f d) = d_status d" "module_q (upd_mx x f d) = module_q d" "msg_wait_q (upd_mx x f d) = msg_wait_q d"
  "msg_idle_q (upd_mx x f d) = msg_idle_q d" "msg_pend_q (upd_mx x f d) = msg_pend_q d" "token_req_ex_pool (upd_mx x f d) = token_req_ex_pool d"
  "token_req_wait_q (upd_mx x f d) = token_req_wait_q d" "token_req_idle_q (upd_mx x f d) = token_req_idle_q d" "token_op_q (upd_mx x f d) = token_op_q d"
  "token_cnt (upd_mx x f d) = token_cnt d" "bitmap (upd_mx x f d) = bitmap d" "basemap (upd_mx x f d) = basemap d"
  "controller (upd_mx x f d) = controller d" "mdl_mem (upd_mx x f d) = mdl_mem d" "d_sema (upd_mx x f d) = d_sema d"
  "pending_evt_id (upd_mx x f d) = pending_evt_id d" "d_out (upd_mx x f d) = d_out d" "world (upd_mx x f d) = world d"
  "exclusive_mdl (upd_mx x f d) = exclusive_mdl d" "renew_req_info (upd_mx x f d) = renew_req_info d"
  by (simp_all add: upd_mx_def)

lemma mx_set_fields [simp]:
  "d_status (mx_set x g d) = d_status d" "module_q (mx_set x g d) = module_q d" "msg_wait_q (mx_set x g d) = msg_wait_q d"
  "msg_idle_q (mx_set x g d) = msg_idle_q d" "msg_pend_q (mx_set x g d) = msg_pend_q d" "token_req_ex_pool (mx_set x g d) = token_req_ex_pool d"
  "token_req_wait_q (mx_set x g d) = token_req_wait_q d" "token_req_idle_q (mx_set x g d) = token_req_idle_q d" "token_op_q (mx_set x g d) = token_op_q d"
  "token_cnt (mx_set x g d) = token_cnt d" "bitmap (mx_set x g d) = bitmap d" "basemap (mx_set x g d) = basemap d"
  "controller (mx_set x g d) = controller d" "mdl_mem (mx_set x g d) = mdl_mem d" "d_sema (mx_set x g d) = d_sema d"
  "pending_evt_id (mx_set x g d) = pending_evt_id d" "d_out (mx_set x g d) = d_out d" "world (mx_set x g d) = world d"
  "exclusive_mdl (mx_set x g d) = exclusive_mdl d" "renew_req_info (mx_set x g d) = renew_req_info d"
  by (simp_all add: mx_set_def)

lemma mx_clr_fields [simp]:
  "d_status (mx_clr x g d) = d_status d" "module_q (mx_clr x g d) = module_q d" "msg_wait_q (mx_clr x g d) = msg_wait_q d"
  "msg_idle_q (mx_clr x g d) = msg_idle_q d" "msg_pend_q (mx_clr x g d) = msg_pend_q d" "token_req_ex_pool (mx_clr x g d) = token_req_ex_pool d"
  "token_req_wait_q (mx_clr x g d) = token_req_wait_q d" "token_req_idle_q (mx_clr x g d) = token_req_idle_q d" "token_op_q (mx_clr x g d) = token_op_q d"
  "token_cnt (mx_clr x g d) = token_cnt d" "bitmap (mx_clr x g d) = bitmap d" "basemap (mx_clr x g d) = basemap d"
  "controller (mx_clr x g d) = controller d" "mdl_mem (mx_clr x g d) = mdl_mem d" "d_sema (mx_clr x g d) = d_sema d"
  "pending_evt_id (mx_clr x g d) = pending_evt_id d" "d_out (mx_clr x g d) = d_out d" "world (mx_clr x g d) = world d"
  "exclusive_mdl (mx_clr x g d) = exclusive_mdl d" "renew_req_info (mx_clr x g d) = renew_req_info d"
  by (simp_all add: mx_clr_def)

lemma mx_set_id_fields [simp]:
  "d_status (mx_set_id x h d) = d_status d" "module_q (mx_set_id x h d) = module_q d" "msg_wait_q (mx_set_id x h d) = msg_wait_q d"
  "msg_idle_q (mx_set_id x h d) = msg_idle_q d" "msg_pend_q (mx_set_id x h d) = msg_pend_q d" "token_req_ex_pool (mx_set_id x h d) = token_req_ex_pool d"
  "token_req_wait_q (mx_set_id x h d) = token_req_wait_q d" "token_req_idle_q (mx_set_id x h d) = token_req_idle_q d" "token_op_q (mx_set_id x h d) = token_op_q d"
  "token_cnt (mx_set_id x h d) = token_cnt d" "bitmap (mx_set_id x h d) = bitmap d" "basemap (mx_set_id x h d) = basemap d"
  "controller (mx_set_id x h d) = controller d" "mdl_mem (mx_set_id x h d) = mdl_mem d" "d_sema (mx_set_id x h d) = d_sema d"
  "pending_evt_id (mx_set_id x h d) = pending_evt_id d" "d_out (mx_set_id x h d) = d_out d" "world (mx_set_id x h d) = world d"
  "exclusive_mdl (mx_set_id x h d) = exclusive_mdl d" "renew_req_info (mx_set_id x h d) = renew_req_info d"
  by (simp_all add: mx_set_id_def)

lemma mx_indc_fields [simp]:
  "d_status (mx_indc x i d) = d_status d" "module_q (mx_indc x i d) = module_q d" "msg_wait_q (mx_indc x i d) = msg_wait_q d"
  "msg_idle_q (mx_indc x i d) = msg_idle_q d" "msg_pend_q (mx_indc x i d) = msg_pend_q d" "token_req_ex_pool (mx_indc x i d) = token_req_ex_pool d"
  "token_req_wait_q (mx_indc x i d) = token_req_wait_q d" "token_req_idle_q (mx_indc x i d) = token_req_idle_q d" "token_op_q (mx_indc x i d) = token_op_q d"
  "token_cnt (mx_indc x i d) = token_cnt d" "bitmap (mx_indc x i d) = bitmap d" "basemap (mx_indc x i d) = basemap d"
  "controller (mx_indc x i d) = controller d" "mdl_mem (mx_indc x i d) = mdl_mem d" "d_sema (mx_indc x i d) = d_sema d"
  "pending_evt_id (mx_indc x i d) = pending_evt_id d" "d_out (mx_indc x i d) = d_out d" "world (mx_indc x i d) = world d"
  "exclusive_mdl (mx_indc x i d) = exclusive_mdl d" "renew_req_info (mx_indc x i d) = renew_req_info d"
  by (simp_all add: mx_indc_def mx_set_id_def)

lemma flag_set: "d_flag (d_set f d) g = (if f AND g = 0 then d_flag d g else d_flag (d_set f d) g)"
  by (simp add: d_flag_def d_set_def flag_simps)

lemma flag_clr: "d_flag (d_clr f d) g = (if f AND g = 0 then d_flag d g else d_flag (d_clr f d) g)"
  by (simp add: d_flag_def d_clr_def flag_simps)

lemma ok_d_set [simp]:
  "f AND DISPR_CLR_PEND_MSG = 0 \<Longrightarrow> dispr_ok fl rfl k (d_set f d) = dispr_ok fl rfl k d" "cur_cmd_req (d_set f d) = cur_cmd_req d"
  by (simp_all add: d_set_def inv_defs flag_simps)

lemma ok_d_clr [simp]:
  "f AND DISPR_CLR_PEND_MSG = 0 \<Longrightarrow> dispr_ok fl rfl k (d_clr f d) = dispr_ok fl rfl k d" "cur_cmd_req (d_clr f d) = cur_cmd_req d"
  by (simp_all add: d_clr_def inv_defs flag_simps)

lemma ok_notify: "dispr_ok fl rfl k d \<Longrightarrow> dispr_ok fl rfl k (notify_bk_thread d)"
  by (auto simp: notify_bk_thread_def inv_defs)

lemma cur_notify [simp]: "cur_cmd_req (notify_bk_thread d) = cur_cmd_req d"
  by (simp add: notify_bk_thread_def)

lemma keeps_mx: "keeps (upd_mx x f)" "keeps (mx_set x g)" "keeps (mx_clr x g)" "keeps (mx_set_id x h)" "keeps (mx_indc x i)"
  by (simp_all add: keeps_def)

lemma upd_nth: "xs[i := x] ! j = (if i = j \<and> i < length xs then x else xs ! j)"
  by (cases "i < length xs") (simp_all add: nth_list_update list_update_beyond)

text \<open>Of the requests not in flight the invariant sees two flags.\<close>

lemma ok_rx_pool:
  assumes "length p = length (token_req_ex_pool d)"
    and "\<And>i. i < length p \<Longrightarrow> i \<notin> set rfl \<Longrightarrow>
      TEST_STATUS_FLAG (rx_status (p ! i)) REQ_STATUS_ENQ = rx_flag d i REQ_STATUS_ENQ \<and>
      TEST_STATUS_FLAG (rx_status (p ! i)) REQ_STATUS_RUN = rx_flag d i REQ_STATUS_RUN"
  shows "dispr_ok fl rfl k (d\<lparr>token_req_ex_pool := p\<rparr>) = dispr_ok fl rfl k d"
proof -
  have "\<forall>r<length p. r \<notin> set rfl \<longrightarrow> req_ok (d\<lparr>token_req_ex_pool := p\<rparr>) r = req_ok d r"
    using assms(2) by (simp add: req_ok_def rx_flag_def)
  then show ?thesis using assms(1) by (auto simp: dispr_ok_def msgs_inv_def reqs_inv_def wake_inv_def cur_list_def d_flag_def)
qed

lemma ok_upd_rx:
  assumes "\<And>e. TEST_STATUS_FLAG (rx_status (f e)) REQ_STATUS_ENQ = TEST_STATUS_FLAG (rx_status e) REQ_STATUS_ENQ"
    and "\<And>e. TEST_STATUS_FLAG (rx_status (f e)) REQ_STATUS_RUN = TEST_STATUS_FLAG (rx_status e) REQ_STATUS_RUN"
  shows "dispr_ok fl rfl k (upd_rx r f d) = dispr_ok fl rfl k d"
  unfolding upd_rx_def by (rule ok_rx_pool) (simp_all add: upd_nth rx_flag_def assms)

lemma ok_rx_set:
  "g AND REQ_STATUS_ENQ = 0 \<Longrightarrow> g AND REQ_STATUS_RUN = 0 \<Longrightarrow> dispr_ok fl rfl k (rx_set r g d) = dispr_ok fl rfl k d"
  unfolding rx_set_def by (rule ok_upd_rx) (simp_all add: flag_simps)

lemma ok_rx_clr:
  "g AND REQ_STATUS_ENQ = 0 \<Longrightarrow> g AND REQ_STATUS_RUN = 0 \<Longrightarrow> dispr_ok fl rfl k (rx_clr r g d) = dispr_ok fl rfl k d"
  unfolding rx_clr_def by (rule ok_upd_rx) (simp_all add: flag_simps)

lemma ok_rx_flight: "r \<in> set rfl \<Longrightarrow> dispr_ok fl rfl k (upd_rx r f d) = dispr_ok fl rfl k d"
  unfolding upd_rx_def by (rule ok_rx_pool) (auto simp: upd_nth rx_flag_def)

lemma cur_upd_rx [simp]: "cur_cmd_req (upd_rx r f d) = cur_cmd_req d" "cur_cmd_req (rx_set r g d) = cur_cmd_req d"
  "cur_cmd_req (rx_clr r g d) = cur_cmd_req d"
  by (simp_all add: d_defs)

section \<open>The queues of messages\<close>

lemma pq_pop_Some: "pq_pop q First = (q', Some x) \<Longrightarrow> queue q = x # queue q' \<and> (pq_wf q \<longrightarrow> pq_wf q')"
  by (cases "queue q") (auto simp: pq_pop_def pq_wf_def split: if_splits)

lemma pq_pop_None: "pq_pop q First = (q', None) \<Longrightarrow> q' = q \<and> (pq_wf q \<longrightarrow> queue q = [])"
  by (auto simp: pq_pop_def pq_wf_def split: if_splits)

lemma queue_push: "queue (fst (pq_push q x Tail)) = queue q @ [x]"
  by (simp add: pq_push_def)

lemma ok_msg_queues:
  assumes ok: "dispr_ok fl rfl k d" and "pq_wf iq" "pq_wf wq" "pq_wf pq"
    and ms: "mset (queue iq) + mset (queue wq) + mset (queue pq) + mset fl' =
      mset (queue (msg_idle_q d)) + mset (queue (msg_wait_q d)) + mset (queue (msg_pend_q d)) + mset fl"
    and "length (queue wq) \<le> s + owed k" "d_sema d \<le> s"
  shows "dispr_ok fl' rfl k (d\<lparr>msg_idle_q := iq, msg_wait_q := wq, msg_pend_q := pq, d_sema := s\<rparr>)"
proof -
  have "msgs_inv fl' (d\<lparr>msg_idle_q := iq, msg_wait_q := wq, msg_pend_q := pq, d_sema := s\<rparr>)"
    using assms(1-4) ms by (simp add: dispr_ok_def msgs_inv_def ac_simps)
  moreover have "reqs_inv rfl (d\<lparr>msg_idle_q := iq, msg_wait_q := wq, msg_pend_q := pq, d_sema := s\<rparr>)"
    using ok by (simp add: dispr_ok_def reqs_inv_def req_ok_def rx_flag_def cur_list_def)
  moreover have "wake_inv k (d\<lparr>msg_idle_q := iq, msg_wait_q := wq, msg_pend_q := pq, d_sema := s\<rparr>)"
    using ok assms(6,7) by (auto simp: dispr_ok_def wake_inv_def d_flag_def)
  ultimately show ?thesis by (simp add: dispr_ok_def)
qed

lemma msg_queues_same:
  "d\<lparr>msg_idle_q := iq\<rparr> = d\<lparr>msg_idle_q := iq, msg_wait_q := msg_wait_q d, msg_pend_q := msg_pend_q d, d_sema := d_sema d\<rparr>"
  "d\<lparr>msg_wait_q := wq\<rparr> = d\<lparr>msg_idle_q := msg_idle_q d, msg_wait_q := wq, msg_pend_q := msg_pend_q d, d_sema := d_sema d\<rparr>"
  "d\<lparr>msg_pend_q := pq\<rparr> = d\<lparr>msg_idle_q := msg_idle_q d, msg_wait_q := msg_wait_q d, msg_pend_q := pq, d_sema := d_sema d\<rparr>"
  "d\<lparr>msg_wait_q := wq, d_sema := s\<rparr> = d\<lparr>msg_idle_q := msg_idle_q d, msg_wait_q := wq, msg_pend_q := msg_pend_q d, d_sema := s\<rparr>"
  by simp_all

lemma ok_wf: "dispr_ok fl rfl k d \<Longrightarrow> pq_wf (msg_idle_q d) \<and> pq_wf (msg_wait_q d) \<and> pq_wf (msg_pend_q d) \<and>
    length (queue (msg_wait_q d)) \<le> d_sema d + owed k"
  by (simp add: dispr_ok_def msgs_inv_def wake_inv_def)

lemma ok_pop_idle:
  assumes "dispr_ok fl rfl k d" and "pq_pop (msg_idle_q d) First = (q, Some x)"
  shows "dispr_ok (x # fl) rfl k (d\<lparr>msg_idle_q := q\<rparr>)"
  using pq_pop_Some [OF assms(2)] ok_wf [OF assms(1)]
  by (subst msg_queues_same, intro ok_msg_queues [OF assms(1)]) auto

lemma ok_pop_wait:
  assumes "dispr_ok fl rfl k d" and "pq_pop (msg_wait_q d) First = (q, Some x)"
  shows "dispr_ok (x # fl) rfl k (d\<lparr>msg_wait_q := q\<rparr>)"
  using pq_pop_Some [OF assms(2)] ok_wf [OF assms(1)]
  by (subst msg_queues_same, intro ok_msg_queues [OF assms(1)]) auto

lemma ok_pop_pend:
  assumes "dispr_ok fl rfl k d" and "pq_pop (msg_pend_q d) First = (q, Some x)"
  shows "dispr_ok (x # fl) rfl k (d\<lparr>msg_pend_q := q\<rparr>)"
  using pq_pop_Some [OF assms(2)] ok_wf [OF assms(1)]
  by (subst msg_queues_same, intro ok_msg_queues [OF assms(1)]) auto

lemma ok_push_idle:
  assumes "dispr_ok (x # fl) rfl k d" and "q = fst (pq_push (msg_idle_q d) x Tail)"
  shows "dispr_ok fl rfl k (d\<lparr>msg_idle_q := q\<rparr>)"
  using ok_wf [OF assms(1)] assms(2)
  by (subst msg_queues_same, intro ok_msg_queues [OF assms(1)]) (auto simp: queue_push pq_wf_push)

lemma ok_push_pend:
  assumes "dispr_ok (x # fl) rfl k d" and "q = fst (pq_push (msg_pend_q d) x Tail)"
  shows "dispr_ok fl rfl k (d\<lparr>msg_pend_q := q\<rparr>)"
  using ok_wf [OF assms(1)] assms(2)
  by (subst msg_queues_same, intro ok_msg_queues [OF assms(1)]) (auto simp: queue_push pq_wf_push)

lemma ok_push_wait:
  assumes "dispr_ok (x # fl) rfl k d" and "pq_wf wq" and "mset (queue wq) = add_mset x (mset (queue (msg_wait_q d)))"
  shows "dispr_ok fl rfl k (notify_bk_thread (d\<lparr>msg_wait_q := wq\<rparr>))"
proof -
  have "length (queue wq) = Suc (length (queue (msg_wait_q d)))" using arg_cong [OF assms(3), of size] by simp
  then have "dispr_ok fl rfl k (d\<lparr>msg_wait_q := wq, d_sema := Suc (d_sema d)\<rparr>)"
    using ok_wf [OF assms(1)] assms(2,3) by (subst msg_queues_same, intro ok_msg_queues [OF assms(1)]) auto
  then show ?thesis by (simp add: notify_bk_thread_def)
qed

lemma ok_pop_idle_msg: "dispr_ok fl rfl k d \<Longrightarrow> pop_front_idle_msg d = (d', Some x) \<Longrightarrow> dispr_ok (x # fl) rfl k d'"
  by (auto simp: pop_front_idle_msg_def ok_pop_idle split: prod.splits option.splits)

lemma ok_pop_wait_msg: "dispr_ok fl rfl k d \<Longrightarrow> pop_front_wait_msg d = (d', Some x) \<Longrightarrow> dispr_ok (x # fl) rfl k d'"
  by (auto simp: pop_front_wait_msg_def ok_pop_wait split: prod.splits option.splits)

lemma ok_pop_pend_msg: "dispr_ok fl rfl k d \<Longrightarrow> pop_front_pending_msg d = (d', Some x) \<Longrightarrow> dispr_ok (x # fl) rfl k d'"
  by (auto simp: pop_front_pending_msg_def ok_pop_pend split: prod.splits option.splits)

lemma pop_msg_None:
  "pop_front_idle_msg d = (d', None) \<Longrightarrow> d' = d" "pop_front_wait_msg d = (d', None) \<Longrightarrow> d' = d"
  "pop_front_pending_msg d = (d', None) \<Longrightarrow> d' = d"
  by (auto simp: pop_front_idle_msg_def pop_front_wait_msg_def pop_front_pending_msg_def split: prod.splits option.splits
      dest!: pq_pop_None)

lemma cur_pop_msg:
  "pop_front_idle_msg d = (d', r) \<Longrightarrow> cur_cmd_req d' = cur_cmd_req d"
  "pop_front_wait_msg d = (d', r) \<Longrightarrow> cur_cmd_req d' = cur_cmd_req d"
  "pop_front_pending_msg d = (d', r) \<Longrightarrow> cur_cmd_req d' = cur_cmd_req d"
  by (auto simp: pop_front_idle_msg_def pop_front_wait_msg_def pop_front_pending_msg_def split: prod.splits option.splits)

lemma ok_push_back_wait_msg: "dispr_ok (x # fl) rfl k d \<Longrightarrow> dispr_ok fl rfl k (push_back_wait_msg x d)"
  using ok_wf [of "x # fl" rfl k d] by (auto simp: push_back_wait_msg_def Let_def queue_push pq_wf_push intro!: ok_push_wait)

lemma ok_insert_msg_by_priority: "dispr_ok (x # fl) rfl k d \<Longrightarrow> dispr_ok fl rfl k (insert_msg_by_priority x d)"
  using ok_wf [of "x # fl" rfl k d]
  by (auto simp: insert_msg_by_priority_def Let_def pq_wf_def pq_insert_def intro!: ok_push_wait)

lemma ok_push_back_pending_msg: "dispr_ok (x # fl) rfl k d \<Longrightarrow> dispr_ok fl rfl k (push_back_pending_msg x d)"
  by (auto simp: push_back_pending_msg_def Let_def intro!: ok_push_pend)

lemma cur_push_msg [simp]:
  "cur_cmd_req (push_back_wait_msg x d) = cur_cmd_req d" "cur_cmd_req (insert_msg_by_priority x d) = cur_cmd_req d"
  "cur_cmd_req (push_back_pending_msg x d) = cur_cmd_req d"
  by (simp_all add: push_back_wait_msg_def insert_msg_by_priority_def push_back_pending_msg_def Let_def)

text \<open>Putting a message back calls its completion routine.\<close>

lemma ok_token_op:
  assumes "dispr_ok fl rfl k d" and "pq_wf tq" and "d_sema d < s"
  shows "dispr_ok fl rfl k (d\<lparr>token_op_q := tq, d_sema := s\<rparr>)"
proof -
  have "reqs_inv rfl (d\<lparr>token_op_q := tq, d_sema := s\<rparr>)"
    using assms by (simp add: dispr_ok_def reqs_inv_def req_ok_def rx_flag_def cur_list_def)
  moreover have "msgs_inv fl (d\<lparr>token_op_q := tq, d_sema := s\<rparr>)"
    using assms by (simp add: dispr_ok_def msgs_inv_def)
  moreover have "wake_inv k (d\<lparr>token_op_q := tq, d_sema := s\<rparr>)"
    using assms by (auto simp: dispr_ok_def wake_inv_def d_flag_def)
  ultimately show ?thesis by (simp add: dispr_ok_def)
qed

lemma ok_upd_op: "dispr_ok fl rfl k (upd_op p f d) = dispr_ok fl rfl k d"
  by (cases p) (simp_all add: upd_op_def ok_upd_rx)

lemma op_fields [simp]: "cur_cmd_req (upd_op p f d) = cur_cmd_req d" "token_op_q (upd_op p f d) = token_op_q d"
  "d_sema (upd_op p f d) = d_sema d" "msg_ex_pool (upd_op p f d) = msg_ex_pool d"
  by (cases p; simp add: upd_op_def upd_rx_def)+

lemma ok_ops_wf: "dispr_ok fl rfl k d \<Longrightarrow> pq_wf (token_op_q d)"
  by (simp add: dispr_ok_def reqs_inv_def)

lemma keeps_push_op: "keeps (\<lambda>d. fst (push_back_token_op_info p ty dat d))"
proof (rule keepsI)
  fix fl rfl k and d :: "'a disp"
  assume ok: "dispr_ok fl rfl k d"
  have "dispr_ok fl rfl k (upd_op p f d)" for f using ok by (simp add: ok_upd_op)
  from ok_token_op [OF this, where tq = "fst (pq_push (token_op_q d) p Tail)" and s = "Suc (d_sema d)"]
  show "dispr_ok fl rfl k (fst (push_back_token_op_info p ty dat d))"
    using ok ok_ops_wf [OF ok] by (simp add: push_back_token_op_info_def Let_def notify_bk_thread_def pq_wf_push)
qed (simp add: push_back_token_op_info_def Let_def)

lemma keeps_enqueue_op: "keeps (\<lambda>d. fst (dispr_enqueue_token_op_info p ty dat d))"
  by (simp add: dispr_enqueue_token_op_info_def keeps_push_op)

lemma disp_flag_disjoint:
  "DISPR_WAIT_ABORT_MSG_DONE AND DISPR_CLR_PEND_MSG = 0" "DISPR_NOTIFY_IDLE AND DISPR_CLR_PEND_MSG = 0"
  "DISPR_CANNOT_IO AND DISPR_CLR_PEND_MSG = 0" "DISPR_SHALL_STOP AND DISPR_CLR_PEND_MSG = 0"
  "DISPR_STARTED AND DISPR_CLR_PEND_MSG = 0" "DISPR_CTRL_PRESENT AND DISPR_CLR_PEND_MSG = 0"
  by (simp_all add: DISPR_WAIT_ABORT_MSG_DONE_def DISPR_CLR_PEND_MSG_def DISPR_NOTIFY_IDLE_def DISPR_CANNOT_IO_def
      DISPR_SHALL_STOP_def DISPR_STARTED_def DISPR_CTRL_PRESENT_def)

lemma keeps_flag: "f AND DISPR_CLR_PEND_MSG = 0 \<Longrightarrow> keeps (d_set f)" "f AND DISPR_CLR_PEND_MSG = 0 \<Longrightarrow> keeps (d_clr f)"
  by (simp_all add: keeps_def)

lemma keeps_on_abort: "keeps on_abort_msg_complete"
  unfolding on_abort_msg_complete_def [abs_def]
  by (rule keeps_comp [OF keeps_enqueue_op keeps_flag(2)]) (simp add: disp_flag_disjoint)

text \<open>A step from a message in flight to its place in a queue.\<close>

definition settles :: "nat \<Rightarrow> ('w disp \<Rightarrow> 'w disp) \<Rightarrow> bool" where
  "settles x f \<longleftrightarrow>
     (\<forall>fl rfl k d. dispr_ok (x # fl) rfl k d \<longrightarrow> dispr_ok fl rfl k (f d) \<and> cur_cmd_req (f d) = cur_cmd_req d)"

lemma settlesD: "settles x f \<Longrightarrow> dispr_ok (x # fl) rfl k d \<Longrightarrow> dispr_ok fl rfl k (f d)"
  by (simp add: settles_def)

lemma settles_cur: "settles x f \<Longrightarrow> dispr_ok (x # fl) rfl k d \<Longrightarrow> cur_cmd_req (f d) = cur_cmd_req d"
  by (simp add: settles_def)

lemma settles_comp: "settles x f \<Longrightarrow> keeps g \<Longrightarrow> settles x (\<lambda>d. f (g d))"
  unfolding settles_def keeps_def by metis

lemma settles_if: "settles x f \<Longrightarrow> settles x g \<Longrightarrow> settles x (\<lambda>d. if c d then f d else g d)"
  by (simp add: settles_def)

lemma settles_push:
  "settles x (push_back_wait_msg x)" "settles x (insert_msg_by_priority x)" "settles x (push_back_pending_msg x)"
  by (simp_all add: settles_def ok_push_back_wait_msg ok_insert_msg_by_priority ok_push_back_pending_msg)

lemma keeps_clear_pending_loop: "keeps (clear_pending_loop n)"
proof (induction n)
  case 0
  then show ?case by (simp add: keeps_def)
next
  case (Suc n)
  show ?case
  proof (unfold keeps_def, intro allI impI)
    fix fl rfl k and d :: "'a disp"
    assume ok: "dispr_ok fl rfl k d"
    obtain d1 r where p: "pop_front_pending_msg d = (d1, r)" by fastforce
    show "dispr_ok fl rfl k (clear_pending_loop (Suc n) d) \<and> cur_cmd_req (clear_pending_loop (Suc n) d) = cur_cmd_req d"
    proof (cases r)
      case None
      with p pop_msg_None(3) [of d d1] ok show ?thesis by simp
    next
      case (Some x)
      have o: "dispr_ok (x # fl) rfl k d1" using ok_pop_pend_msg [OF ok] p Some by simp
      let ?f = "\<lambda>d. if IS_DISPR_CTRL (unat (MSG_EVT_ID_FIELD (mx_id d1 x))) then insert_msg_by_priority x d
        else push_back_wait_msg x d"
      have "settles x ?f" by (intro settles_if settles_push)
      from settlesD [OF this o] settles_cur [OF this o] keepsD [OF Suc] keeps_cur [OF Suc] cur_pop_msg(3) [OF p]
      show ?thesis using p Some by (simp del: if_split)
    qed
  qed
qed

lemma keeps_clear_pending: "keeps clear_pending_msg"
proof -
  have "keeps (d_clr DISPR_CLR_PEND_MSG)"
    by (auto simp: keeps_def d_clr_def inv_defs flag_simps DISPR_CLR_PEND_MSG_def)
  then have "keeps (\<lambda>d. clear_pending_loop n (d_clr DISPR_CLR_PEND_MSG d))" for n
    by (rule keeps_comp [OF keeps_clear_pending_loop])
  from keeps_if [OF keeps_id keeps_case [OF this]] show ?thesis
    by (simp add: clear_pending_msg_def [abs_def])
qed

lemma keeps_clr_pending: "keeps dispr_clr_pending_msg"
  by (auto simp: keeps_def dispr_clr_pending_msg_def notify_bk_thread_def d_set_def inv_defs)

lemma cur_clr_pending [simp]: "cur_cmd_req (dispr_clr_pending_msg d) = cur_cmd_req d"
  by (simp add: dispr_clr_pending_msg_def)

lemma keeps_cancel: "keeps (cancel_msg x)"
  by (simp add: keeps_def cancel_msg_def)

lemma keeps_dispr_cancel: "keeps (\<lambda>d. fst (dispr_cancel_msg h d))"
  by (simp add: keeps_def dispr_cancel_msg_def cancel_msg_def Let_def split: option.splits)

lemma keeps_setup:
  "keeps (set_msg_bitmap x m)" "keeps (apply_attr x m a)" "keeps (set_owner x m c s)"
  by (auto simp: keeps_def set_msg_bitmap_def apply_attr_def set_msg_custom_bitmap_def set_owner_def Let_def split: option.splits)

locale completion_routines =
  fixes env :: "'w dispr_env"
  assumes completion_keeps: "keeps (cb_completion env f p x)"
begin

lemma keeps_complete: "keeps (complete_msg env x)"
proof -
  have k: "keeps (\<lambda>d. cb_completion env f p x (d_tell e d))" for f p e
    using completion_keeps by (rule keeps_comp) (simp add: keeps_def)
  show ?thesis
    unfolding keeps_def complete_msg_def Let_def
    using keepsD [OF k] keeps_cur [OF k] by (auto simp del: id_apply)
qed

lemma settles_idle: "settles x (push_back_idle_msg env x)"
proof -
  have "settles x (\<lambda>d. let d3 = upd_mx x (\<lambda>m. m\<lparr>mx_status := 0\<rparr>) d;
          src = MSG_MDL_ID_FIELD (mx_id d3 x);
          d4 = (if pending_evt_id d3 src = MSG_EVT_ID_FIELD (mx_id d3 x)
                then d3\<lparr>pending_evt_id := (pending_evt_id d3)(src := MSG_EVT_MAX)\<rparr> else d3);
          d5 = mx_set_id x (\<lambda>_. 0) d4
      in d5\<lparr>msg_idle_q := fst (pq_push (msg_idle_q d5) x Tail)\<rparr>)"
    by (auto simp: settles_def Let_def intro!: ok_push_idle)
  from settles_comp [OF settles_comp [OF this keeps_if [where c = "\<lambda>d. mx_flag d x MSG_STATUS_FOR_ABORT", OF keeps_on_abort keeps_id]]
      keeps_complete [of x]]
  show ?thesis by (simp add: push_back_idle_msg_def [abs_def] Let_def)
qed

lemma settles_enqueue: "settles x (\<lambda>d. fst (enqueue_msg env x m s a d))"
  using settlesD [OF settles_idle, of x] settles_cur [OF settles_idle, of x]
  by (simp add: settles_def enqueue_msg_def Let_def disp_flag_disjoint ok_push_back_wait_msg ok_insert_msg_by_priority)

lemma keeps_send: "keeps (\<lambda>d. fst (dispr_send_msg env msg attr d))"
proof (unfold keeps_def, intro allI impI)
  fix fl rfl k and d :: "'w disp"
  assume ok: "dispr_ok fl rfl k d"
  let ?m = "MSG_MDL_ID_FIELD (msg_id msg)"
  obtain c s where c: "get_cur_cmd_req_id d = (c, s)" by fastforce
  obtain d1 r where p: "pop_front_idle_msg d = (d1, r)" by fastforce
  show "dispr_ok fl rfl k (fst (dispr_send_msg env msg attr d)) \<and> cur_cmd_req (fst (dispr_send_msg env msg attr d)) = cur_cmd_req d"
  proof (cases r)
    case None
    with p pop_msg_None(1) [of d d1] ok c show ?thesis by (simp add: dispr_send_msg_def Let_def)
  next
    case (Some x)
    have o: "dispr_ok (x # fl) rfl k d1" using ok_pop_idle_msg [OF ok] p Some by simp
    have "keeps (\<lambda>d. case attr of None \<Rightarrow> d | Some a \<Rightarrow> apply_attr x ?m a d)"
      by (cases attr) (simp_all add: keeps_id keeps_setup)
    then have k: "keeps (\<lambda>d. set_owner x ?m c s (case attr of None \<Rightarrow> set_msg_bitmap x ?m (upd_mx x (\<lambda>m. m\<lparr>mx_msg := msg\<rparr>) d)
        | Some a \<Rightarrow> apply_attr x ?m a (set_msg_bitmap x ?m (upd_mx x (\<lambda>m. m\<lparr>mx_msg := msg\<rparr>) d))))"
      using keeps_comp [OF keeps_setup(3) keeps_comp [OF _ keeps_comp [OF keeps_setup(1) keeps_mx(1)]]] by fast
    note e = settlesD [OF settles_comp [OF settles_enqueue k], OF o] settles_cur [OF settles_comp [OF settles_enqueue k], OF o]
    show ?thesis using e [of ?m s attr] ok p Some c cur_pop_msg(1) [OF p]
      by (auto simp: dispr_send_msg_def Let_def split: prod.splits)
  qed
qed

lemma keeps_phy: "keeps (send_bk_msg_phy_on env)" "keeps (send_bk_msg_phy_idle env)"
  using keeps_send by (simp_all add: send_bk_msg_phy_on_def [abs_def] send_bk_msg_phy_idle_def [abs_def])

lemma keeps_dev_io: "keeps (\<lambda>d. fst (dispr_notify_dev_io_status env m b d))"
proof -
  have s: "keeps (\<lambda>d. fst (send_dev_io_status_change env b d))" for b
    using keeps_send by (simp add: send_dev_io_status_change_def split_beta)
  show ?thesis
    unfolding keeps_def dispr_notify_dev_io_status_def
    using keepsD [OF s] keeps_cur [OF s]
    by (simp add: split_beta disp_flag_disjoint keepsD [OF keeps_clr_pending])
qed

end

lemma keeps_shall_stop: "keeps dispr_notify_shall_stop"
  unfolding dispr_notify_shall_stop_def [abs_def]
  by (rule keeps_if [OF keeps_comp [OF keeps_clr_pending keeps_flag(1)] keeps_id]) (simp add: disp_flag_disjoint)

section \<open>The requests\<close>

lemma ok_reqs:
  assumes "dispr_ok fl rfl k d" and "pq_wf iq" "pq_wf wq" "length p = MAX_CMD_REQ_NUM"
    and "mset (queue iq) + mset (queue wq) + mset (case c of None \<Rightarrow> [] | Some r \<Rightarrow> [r]) + mset rfl' =
      mset (queue (token_req_idle_q d)) + mset (queue (token_req_wait_q d)) + mset (cur_list d) + mset rfl"
    and "t = int (length (case c of None \<Rightarrow> [] | Some r \<Rightarrow> [r]))"
    and "\<And>i. i < MAX_CMD_REQ_NUM \<Longrightarrow> i \<notin> set rfl' \<Longrightarrow>
      (TEST_STATUS_FLAG (rx_status (p ! i)) REQ_STATUS_ENQ \<longleftrightarrow> i \<in> set (queue wq)) \<and>
      (TEST_STATUS_FLAG (rx_status (p ! i)) REQ_STATUS_RUN \<longrightarrow> c = Some i)"
  shows "dispr_ok fl rfl' k (d\<lparr>token_req_ex_pool := p, token_req_wait_q := wq, token_req_idle_q := iq, token_cnt := t,
    cur_cmd_req := c\<rparr>)"
proof -
  let ?d = "d\<lparr>token_req_ex_pool := p, token_req_wait_q := wq, token_req_idle_q := iq, token_cnt := t, cur_cmd_req := c\<rparr>"
  have "reqs_inv rfl' ?d"
    using assms by (simp add: dispr_ok_def reqs_inv_def req_ok_def rx_flag_def cur_list_def ac_simps)
  moreover have "msgs_inv fl ?d" "wake_inv k ?d" using assms(1) by (simp_all add: dispr_ok_def msgs_inv_def wake_inv_def d_flag_def)
  ultimately show ?thesis by (simp add: dispr_ok_def)
qed

lemma reqs_distinct:
  assumes "dispr_ok fl rfl k d"
  shows "distinct (queue (token_req_idle_q d) @ queue (token_req_wait_q d) @ cur_list d @ rfl)"
    "set (queue (token_req_idle_q d) @ queue (token_req_wait_q d) @ cur_list d @ rfl) = {0..<MAX_CMD_REQ_NUM}"
proof -
  from assms have m: "mset (queue (token_req_idle_q d) @ queue (token_req_wait_q d) @ cur_list d @ rfl) = mset [0..<MAX_CMD_REQ_NUM]"
    by (simp only: dispr_ok_def reqs_inv_def)
  then show "distinct (queue (token_req_idle_q d) @ queue (token_req_wait_q d) @ cur_list d @ rfl)"
    using mset_eq_imp_distinct_iff distinct_upt by blast
  from m show "set (queue (token_req_idle_q d) @ queue (token_req_wait_q d) @ cur_list d @ rfl) = {0..<MAX_CMD_REQ_NUM}"
    by (metis mset_eq_setD set_upt)
qed

lemma ok_req_facts:
  assumes "dispr_ok fl rfl k d"
  shows "pq_wf (token_req_idle_q d)" "pq_wf (token_req_wait_q d)" "length (token_req_ex_pool d) = MAX_CMD_REQ_NUM"
    "token_cnt d = int (length (cur_list d))"
    "i < MAX_CMD_REQ_NUM \<Longrightarrow> i \<notin> set rfl \<Longrightarrow>
      (TEST_STATUS_FLAG (rx_status (rx d i)) REQ_STATUS_ENQ \<longleftrightarrow> i \<in> set (queue (token_req_wait_q d))) \<and>
      (TEST_STATUS_FLAG (rx_status (rx d i)) REQ_STATUS_RUN \<longrightarrow> cur_cmd_req d = Some i)"
  using assms by (simp_all add: dispr_ok_def reqs_inv_def req_ok_def rx_flag_def)

lemma flight_facts:
  assumes "dispr_ok fl (r # rfl) k d"
  shows "r < MAX_CMD_REQ_NUM" "r \<notin> set rfl" "r \<notin> set (queue (token_req_idle_q d))" "r \<notin> set (queue (token_req_wait_q d))"
    "cur_cmd_req d \<noteq> Some r"
  using reqs_distinct [OF assms] by (auto simp: cur_list_def)

lemma req_same:
  "d\<lparr>token_req_wait_q := wq\<rparr> = d\<lparr>token_req_ex_pool := token_req_ex_pool d, token_req_wait_q := wq,
     token_req_idle_q := token_req_idle_q d, token_cnt := token_cnt d, cur_cmd_req := cur_cmd_req d\<rparr>"
  "d\<lparr>token_req_idle_q := iq\<rparr> = d\<lparr>token_req_ex_pool := token_req_ex_pool d, token_req_wait_q := token_req_wait_q d,
     token_req_idle_q := iq, token_cnt := token_cnt d, cur_cmd_req := cur_cmd_req d\<rparr>"
  "d\<lparr>token_req_ex_pool := p, token_req_wait_q := wq\<rparr> = d\<lparr>token_req_ex_pool := p, token_req_wait_q := wq,
     token_req_idle_q := token_req_idle_q d, token_cnt := token_cnt d, cur_cmd_req := cur_cmd_req d\<rparr>"
  "d\<lparr>token_req_ex_pool := p, token_req_idle_q := iq\<rparr> = d\<lparr>token_req_ex_pool := p, token_req_wait_q := token_req_wait_q d,
     token_req_idle_q := iq, token_cnt := token_cnt d, cur_cmd_req := cur_cmd_req d\<rparr>"
  "d\<lparr>token_req_ex_pool := p, cur_cmd_req := c, token_cnt := t\<rparr> = d\<lparr>token_req_ex_pool := p,
     token_req_wait_q := token_req_wait_q d, token_req_idle_q := token_req_idle_q d, token_cnt := t, cur_cmd_req := c\<rparr>"
  "d\<lparr>token_req_ex_pool := p, token_req_idle_q := iq, token_cnt := t, cur_cmd_req := c\<rparr> = d\<lparr>token_req_ex_pool := p,
     token_req_wait_q := token_req_wait_q d, token_req_idle_q := iq, token_cnt := t, cur_cmd_req := c\<rparr>"
  by simp_all

lemma ok_take_idle_req:
  assumes "dispr_ok fl rfl k d" and "pq_pop (token_req_idle_q d) First = (q, Some r)"
  shows "dispr_ok fl (r # rfl) k (d\<lparr>token_req_idle_q := q\<rparr>)"
  using pq_pop_Some [OF assms(2)] ok_req_facts [OF assms(1)]
  by (subst req_same, intro ok_reqs [OF assms(1)]) (auto simp: cur_list_def)

lemma ok_take_wait_req:
  assumes "dispr_ok fl rfl k d" and "pq_pop (token_req_wait_q d) First = (q, Some r)"
  shows "dispr_ok fl (r # rfl) k (d\<lparr>token_req_wait_q := q\<rparr>)"
  using pq_pop_Some [OF assms(2)] ok_req_facts [OF assms(1)]
  by (subst req_same, intro ok_reqs [OF assms(1)]) (auto simp: cur_list_def)

lemma ok_pop_idle_req:
  assumes "dispr_ok fl rfl k d" and "pop_front_idle_req d = (d', Some r)"
  shows "dispr_ok fl (r # rfl) k d'" "rx_status (rx d' r) = 0" "cur_cmd_req d' = cur_cmd_req d"
proof -
  from assms(2) obtain q where q: "pq_pop (token_req_idle_q d) First = (q, Some r)"
    "d' = upd_rx r (\<lambda>e. e\<lparr>rx_status := 0, rx_req := zero_req, add_req_info := zero_op_info,
             free_req_info := zero_op_info\<rparr>) (d\<lparr>token_req_idle_q := q\<rparr>)"
    by (auto simp: pop_front_idle_req_def split: prod.splits option.splits)
  have o: "dispr_ok fl (r # rfl) k (d\<lparr>token_req_idle_q := q\<rparr>)" using assms(1) q(1) by (rule ok_take_idle_req)
  then show "dispr_ok fl (r # rfl) k d'" by (simp add: q(2) ok_rx_flight)
  show "rx_status (rx d' r) = 0" "cur_cmd_req d' = cur_cmd_req d"
    using flight_facts(1) [OF o] ok_req_facts(3) [OF o] by (simp_all add: q(2) upd_rx_def)
qed

lemma ok_pop_wait_req:
  assumes "dispr_ok fl rfl k d" and "pop_front_wait_req d = (d', Some r)"
  shows "dispr_ok fl (r # rfl) k d'" "\<not> rx_flag d' r REQ_STATUS_ENQ" "cur_cmd_req d' = cur_cmd_req d"
    "token_req_wait_q d' = fst (pq_pop (token_req_wait_q d) First)" "d_status d' = d_status d"
proof -
  from assms(2) obtain q where q: "pq_pop (token_req_wait_q d) First = (q, Some r)"
    "d' = rx_clr r REQ_STATUS_ENQ (rx_set r REQ_STATUS_PREPARE (d\<lparr>token_req_wait_q := q\<rparr>))"
    by (auto simp: pop_front_wait_req_def split: prod.splits option.splits)
  have o: "dispr_ok fl (r # rfl) k (d\<lparr>token_req_wait_q := q\<rparr>)" using assms(1) q(1) by (rule ok_take_wait_req)
  then show "dispr_ok fl (r # rfl) k d'" by (simp add: q(2) ok_rx_flight rx_clr_def rx_set_def)
  show "\<not> rx_flag d' r REQ_STATUS_ENQ" "cur_cmd_req d' = cur_cmd_req d" "d_status d' = d_status d"
    "token_req_wait_q d' = fst (pq_pop (token_req_wait_q d) First)"
    using flight_facts(1) [OF o] ok_req_facts(3) [OF o] q(1)
    by (simp_all add: q(2) rx_flag_def rx_clr_def rx_set_def upd_rx_def flag_simps REQ_STATUS_ENQ_def)
qed

lemma ok_push_wait_req:
  assumes ok: "dispr_ok fl (r # rfl) k d" and "\<not> rx_flag d r REQ_STATUS_RUN"
  shows "dispr_ok fl rfl k (push_back_wait_req r d)"
proof -
  let ?q = "fst (pq_push (token_req_wait_q d) r Tail)"
  let ?p = "(token_req_ex_pool d)[r := (rx d r)\<lparr>rx_status := SET_STATUS_FLAG (rx_status (rx d r)) REQ_STATUS_ENQ\<rparr>]"
  have "push_back_wait_req r d = d\<lparr>token_req_ex_pool := ?p, token_req_wait_q := ?q\<rparr>"
    by (simp add: push_back_wait_req_def rx_set_def upd_rx_def)
  moreover have "dispr_ok fl rfl k \<dots>"
    using ok_req_facts [OF ok] flight_facts [OF ok] assms(2)
    by (subst req_same, intro ok_reqs [OF ok])
      (auto simp: cur_list_def queue_push pq_wf_push upd_nth flag_simps rx_flag_def REQ_STATUS_ENQ_def REQ_STATUS_RUN_def)
  ultimately show ?thesis by simp
qed

lemma ok_push_idle_req:
  assumes ok: "dispr_ok fl (r # rfl) k d"
  shows "dispr_ok fl rfl k (push_back_idle_req r d)"
proof -
  let ?q = "fst (pq_push (token_req_idle_q d) r Tail)"
  let ?p = "(token_req_ex_pool d)[r := (rx d r)\<lparr>rx_status := 0\<rparr>]"
  have "dispr_ok fl rfl k (d\<lparr>token_req_ex_pool := ?p, token_req_idle_q := ?q\<rparr>)"
    using ok_req_facts [OF ok] flight_facts [OF ok]
    by (subst req_same, intro ok_reqs [OF ok])
      (auto simp: cur_list_def queue_push pq_wf_push upd_nth flag_simps REQ_STATUS_ENQ_def REQ_STATUS_RUN_def)
  moreover have "push_back_idle_req r d = d\<lparr>token_req_ex_pool := ?p, token_req_idle_q := ?q, pending_evt_id :=
      (pending_evt_id d)(rq_module_id (rx_req (?p ! r)) := MSG_EVT_MAX)\<rparr>"
    by (simp add: push_back_idle_req_def Let_def upd_rx_def)
  ultimately show ?thesis by simp
qed

text \<open>A request gets the token.\<close>

lemma ok_make_current:
  assumes ok: "dispr_ok fl (r # rfl) k d" and "\<not> rx_flag d r REQ_STATUS_ENQ" and "cur_cmd_req d = None"
    and "d1 = rx_clr r REQ_STATUS_PREPARE (rx_set r REQ_STATUS_RUN d)"
  shows "dispr_ok fl rfl k (d1\<lparr>cur_cmd_req := Some r, token_cnt := token_cnt d1 + 1\<rparr>)"
proof -
  let ?p = "(token_req_ex_pool d)[r := (rx d r)\<lparr>rx_status := CLEAR_STATUS_FLAG (SET_STATUS_FLAG (rx_status (rx d r)) REQ_STATUS_RUN)
     REQ_STATUS_PREPARE\<rparr>]"
  note fs = flight_facts [OF ok] ok_req_facts [OF ok]
  have "d1\<lparr>cur_cmd_req := Some r, token_cnt := token_cnt d1 + 1\<rparr> =
      d\<lparr>token_req_ex_pool := ?p, cur_cmd_req := Some r, token_cnt := token_cnt d + 1\<rparr>"
    using fs(1,8) by (simp add: assms(4) rx_set_def rx_clr_def upd_rx_def)
  moreover have "dispr_ok fl rfl k \<dots>"
    using fs assms(2,3)
    by (subst req_same, intro ok_reqs [OF ok])
      (auto simp: cur_list_def upd_nth flag_simps rx_flag_def REQ_STATUS_ENQ_def REQ_STATUS_RUN_def REQ_STATUS_PREPARE_def)
  ultimately show ?thesis by simp
qed

text \<open>The current request gives the token back.\<close>

lemma ok_drop_current:
  assumes ok: "dispr_ok fl rfl k d" and "cur_cmd_req d = Some r" and "d1 = push_back_idle_req r d"
  shows "dispr_ok fl rfl k (d1\<lparr>token_cnt := token_cnt d1 - 1, cur_cmd_req := None\<rparr>)"
proof -
  let ?q = "fst (pq_push (token_req_idle_q d) r Tail)"
  let ?p = "(token_req_ex_pool d)[r := (rx d r)\<lparr>rx_status := 0\<rparr>]"
  note fs = reqs_distinct [OF ok] ok_req_facts [OF ok]
  have "d1\<lparr>token_cnt := token_cnt d1 - 1, cur_cmd_req := None\<rparr> =
      (d\<lparr>token_req_ex_pool := ?p, token_req_idle_q := ?q, token_cnt := token_cnt d - 1, cur_cmd_req := None\<rparr>)\<lparr>pending_evt_id :=
      (pending_evt_id d)(rq_module_id (rx_req (?p ! r)) := MSG_EVT_MAX)\<rparr>"
    by (simp add: assms(3) push_back_idle_req_def Let_def upd_rx_def)
  moreover have "dispr_ok fl rfl k (d\<lparr>token_req_ex_pool := ?p, token_req_idle_q := ?q, token_cnt := token_cnt d - 1, cur_cmd_req := None\<rparr>)"
    using fs assms(2)
    by (subst req_same, intro ok_reqs [OF ok])
      (auto simp: cur_list_def queue_push pq_wf_push upd_nth flag_simps REQ_STATUS_ENQ_def REQ_STATUS_RUN_def split: if_splits)
  ultimately show ?thesis by simp
qed

lemma ok_del_wait_req:
  assumes ok: "dispr_ok fl rfl k d" and "r \<in> set (queue (token_req_wait_q d))"
  shows "dispr_ok fl (r # rfl) k (d\<lparr>token_req_wait_q := pq_del_node (token_req_wait_q d) (Some r)\<rparr>)"
  using ok_req_facts [OF ok] assms(2) pq_wf_del [of "token_req_wait_q d" r]
  by (subst req_same, intro ok_reqs [OF ok]) (auto simp: cur_list_def pq_del_node_def)

section \<open>The thread\<close>

lemma keeps_fst_case: "(\<And>v. keeps (\<lambda>d. fst (f v d))) \<Longrightarrow> keeps (\<lambda>d. fst (f (g d) d))"
  by (simp add: keeps_def)

text \<open>What a handler returned decides how to go on.\<close>

lemma keeps_bind:
  assumes "keeps (\<lambda>d. fst (f d))" and "\<And>r. keeps (\<lambda>d. g d r)"
  shows "keeps (\<lambda>d. case f d of (d1, r) \<Rightarrow> g d1 r)"
  using assms unfolding keeps_def split_beta by metis

text \<open>A message without completion routine is sent without touching the requests.\<close>

lemma completion_upd_mx:
  "(\<And>m. mx_completion (f m) = mx_completion m) \<Longrightarrow> mx_completion (mx (upd_mx y f d) x) = mx_completion (mx d x)"
  by (simp add: upd_mx_def upd_nth)

lemma completion_mx:
  "mx_completion (mx (mx_set y f d) x) = mx_completion (mx d x)" "mx_completion (mx (mx_indc y i d) x) = mx_completion (mx d x)"
  by (simp_all add: mx_set_def mx_indc_def mx_set_id_def completion_upd_mx)

lemma completion_setup:
  "mx_completion (mx (set_msg_bitmap y m d) x) = mx_completion (mx d x)"
  "mx_completion (mx (set_owner y m c s d) x) = mx_completion (mx d x)"
  "mx_completion (mx (apply_attr y m zero_attr d) x) = mx_completion (mx d x)"
  by (simp_all add: set_msg_bitmap_def set_owner_def apply_attr_def set_msg_custom_bitmap_def zero_attr_def zero_completion_def Let_def
      completion_upd_mx completion_mx split: option.splits)

lemma pool_setup:
  "token_req_ex_pool (set_msg_bitmap y m d) = token_req_ex_pool d" "token_req_ex_pool (set_owner y m c s d) = token_req_ex_pool d"
  "token_req_ex_pool (apply_attr y m a d) = token_req_ex_pool d"
  by (simp_all add: set_msg_bitmap_def set_owner_def apply_attr_def set_msg_custom_bitmap_def Let_def split: option.splits)

lemma pool_push_idle:
  "cr_completion (mx_completion (mx d x)) = None \<Longrightarrow> token_req_ex_pool (push_back_idle_msg env x d) = token_req_ex_pool d"
  by (simp add: push_back_idle_msg_def complete_msg_def Let_def on_abort_msg_complete_def dispr_enqueue_token_op_info_def
      push_back_token_op_info_def upd_op_def notify_bk_thread_def d_clr_def)

lemma pool_enqueue:
  "cr_completion (mx_completion (mx d x)) = None \<Longrightarrow>
     token_req_ex_pool (fst (enqueue_msg env x m s a d)) = token_req_ex_pool d"
  by (simp add: enqueue_msg_def pool_push_idle completion_mx Let_def insert_msg_by_priority_def push_back_wait_msg_def
      notify_bk_thread_def d_set_def)

lemma msg_flight:
  assumes "dispr_ok (x # fl) rfl k d"
  shows "x < length (msg_ex_pool d)"
proof -
  from assms have "mset (queue (msg_idle_q d) @ queue (msg_wait_q d) @ queue (msg_pend_q d) @ x # fl) = mset [0..<MAX_PHL_MSG_NUM]"
    by (simp only: dispr_ok_def msgs_inv_def)
  then have "x \<in> set [0..<MAX_PHL_MSG_NUM]" by (metis mset_eq_setD in_set_conv_decomp append.assoc)
  then show ?thesis using assms by (simp add: dispr_ok_def msgs_inv_def)
qed

lemma pool_d_clr: "token_req_ex_pool (d_clr f d) = token_req_ex_pool d"
  by (simp add: d_clr_def)

lemma pool_send:
  assumes "dispr_ok fl rfl k d"
  shows "token_req_ex_pool (fst (dispr_send_msg env msg (Some zero_attr) d)) = token_req_ex_pool d"
proof -
  obtain d1 r where p: "pop_front_idle_msg d = (d1, r)" by fastforce
  obtain c s where c: "get_cur_cmd_req_id d = (c, s)" by fastforce
  have "token_req_ex_pool d1 = token_req_ex_pool d"
    using p by (auto simp: pop_front_idle_msg_def split: prod.splits option.splits)
  moreover have "cr_completion (mx_completion (mx d1 x)) = None" if "r = Some x" for x
  proof -
    from that p have "dispr_ok (x # fl) rfl k d1" using ok_pop_idle_msg [OF assms] by simp
    then have "x < length (msg_ex_pool d1)" by (rule msg_flight)
    then show ?thesis using p that
      by (auto simp: pop_front_idle_msg_def upd_mx_def zero_completion_def split: prod.splits option.splits)
  qed
  ultimately show ?thesis
    using p c
    by (auto simp: dispr_send_msg_def Let_def split_beta pool_enqueue completion_setup completion_upd_mx pool_setup split: option.splits)
qed

lemma ok_pop_op:
  assumes "dispr_ok fl rfl k d" and "pop_front_token_op_info d = (d', r)"
  shows "dispr_ok fl rfl k d'" "cur_cmd_req d' = cur_cmd_req d" "r = None \<Longrightarrow> d' = d \<and> queue (token_op_q d) = []"
proof -
  obtain q where q: "pq_pop (token_op_q d) First = (q, r)" "d' = d\<lparr>token_op_q := q\<rparr>"
    using assms(2) by (auto simp: pop_front_token_op_info_def split: prod.splits)
  have "pq_wf q \<and> (queue q \<noteq> [] \<longrightarrow> queue (token_op_q d) \<noteq> [])"
    using q(1) ok_ops_wf [OF assms(1)] by (cases r) (auto dest!: pq_pop_Some pq_pop_None)
  then have "reqs_inv rfl (d\<lparr>token_op_q := q\<rparr>)" "wake_inv k (d\<lparr>token_op_q := q\<rparr>)" "msgs_inv fl (d\<lparr>token_op_q := q\<rparr>)"
    using assms(1) by (auto simp: dispr_ok_def reqs_inv_def wake_inv_def msgs_inv_def req_ok_def rx_flag_def cur_list_def d_flag_def)
  then show "dispr_ok fl rfl k d'" by (simp add: dispr_ok_def q(2))
  show "cur_cmd_req d' = cur_cmd_req d" by (simp add: q(2))
  show "d' = d \<and> queue (token_op_q d) = []" if "r = None"
    using q pq_pop_None [of "token_op_q d" q] that ok_ops_wf [OF assms(1)] by simp
qed

text \<open>A round of the thread takes one count from the semaphore.\<close>

lemma ok_round_start:
  assumes "dispr_ok fl rfl (Due 0 0) d" and "0 < d_sema d"
  shows "dispr_ok fl rfl (Due 1 (d_sema d - 1)) (clear_pending_msg (d\<lparr>d_sema := d_sema d - 1\<rparr>))"
proof -
  let ?d = "d\<lparr>d_sema := d_sema d - 1\<rparr>"
  have inv: "msgs_inv fl ?d" "reqs_inv rfl ?d" "length (queue (msg_wait_q ?d)) \<le> d_sema ?d + 1"
    using assms by (auto simp: dispr_ok_def msgs_inv_def reqs_inv_def wake_inv_def req_ok_def rx_flag_def cur_list_def)
  show ?thesis
  proof (cases "d_flag d DISPR_CLR_PEND_MSG")
    case True
    have "\<not> d_flag (d_clr DISPR_CLR_PEND_MSG ?d) DISPR_CLR_PEND_MSG"
      by (simp add: d_flag_def d_clr_def flag_simps DISPR_CLR_PEND_MSG_def)
    then have "dispr_ok fl rfl (Due 1 (d_sema d - 1)) (d_clr DISPR_CLR_PEND_MSG ?d)"
      using inv by (simp add: dispr_ok_def msgs_inv_def reqs_inv_def wake_inv_def req_ok_def rx_flag_def cur_list_def d_clr_def)
    from keepsD [OF keeps_clear_pending_loop this] show ?thesis
      using True by (simp add: clear_pending_msg_def d_flag_def)
  next
    case False
    then have "\<not> d_flag ?d DISPR_CLR_PEND_MSG" by (simp add: d_flag_def)
    then show ?thesis using inv by (simp add: clear_pending_msg_def dispr_ok_def wake_inv_def)
  qed
qed

lemma ok_round_msg:
  assumes "dispr_ok fl rfl (Due 1 s) d" and "queue (token_op_q d) = []" and "pop_front_wait_msg d = (d', r)"
  shows "dispr_ok (case r of None \<Rightarrow> fl | Some x \<Rightarrow> x # fl) rfl (Due 0 s) d'"
proof -
  have "dispr_ok (case r of None \<Rightarrow> fl | Some x \<Rightarrow> x # fl) rfl (Due 1 s) d'"
    using assms ok_pop_wait_msg [OF assms(1)] pop_msg_None(2) [of d d'] by (cases r) auto
  moreover have "length (queue (msg_wait_q d')) \<le> d_sema d' \<and> token_op_q d' = token_op_q d"
    using assms(1,3) by (cases r) (auto simp: pop_front_wait_msg_def dispr_ok_def msgs_inv_def wake_inv_def split: prod.splits option.splits
        dest!: pq_pop_Some pq_pop_None)
  ultimately show ?thesis using assms(2) by (simp add: dispr_ok_def wake_inv_def)
qed

locale dispr_callbacks = completion_routines env for env :: "'w dispr_env" +
  assumes msg_hdlr_keeps: "keeps (\<lambda>d. fst (cb_msg_hdlr env f p x d))"
    and acquired_keeps: "keeps (\<lambda>d. fst (cb_acquired env f p d))"
    and abort_keeps: "keeps (\<lambda>d. fst (cb_abort env f p d))"
begin

lemma keeps_call_mdl: "keeps (\<lambda>d. fst (call_mdl env p x d))"
proof -
  have k: "keeps (\<lambda>d. fst (cb_msg_hdlr env f q x (d_tell e d)))" for f q e
    using keeps_comp [OF msg_hdlr_keeps] by (simp add: keeps_def)
  show ?thesis
    unfolding call_mdl_def
    by (rule keeps_case [where f = "\<lambda>(f, q, e) d. fst (cb_msg_hdlr env f q x (d_tell e d))"
          and g = "\<lambda>d. (op_msg_hdlr (md_ops (mdl d p)), md_priv (mdl d p), Fed p x (mx_id d x))", simplified]) (auto intro: k)
qed

lemma keeps_req_hdl: "keeps (cur_req_hdl env x)"
proof -
  have k: "keeps (\<lambda>d. fst (cb_msg_hdlr env f q x (d_tell e d)))" for f q e
    using keeps_comp [OF msg_hdlr_keeps] by (simp add: keeps_def)
  show ?thesis
    unfolding keeps_def cur_req_hdl_def
    using keepsD [OF k] keeps_cur [OF k] by (simp split: option.split)
qed

lemma keeps_fail: "keeps (notify_msg_fail env x ret)"
proof -
  let ?fail = "\<lambda>d2. if mx_flag d2 x MSG_STATUS_OWNER_BK_MDL then
      (case mx_module (mx d2 x) of None \<Rightarrow> d2
       | Some p \<Rightarrow>
           if IS_DISPR_CTRL (MSG_MDL_ID_FIELD (mx_id d2 x)) \<or> chk_bitmap_bit (bitmap d2) (md_id (mdl d2 p))
           then fst (call_mdl env p x d2) else d2)
    else d2"
  let ?ind = "\<lambda>d. if ret = MDL_RET_CANNOT_IO then mx_indc x MSG_INDC_CANNOT_IO d else d"
  have a: "keeps ?fail"
    unfolding keeps_def using keepsD [OF keeps_call_mdl] keeps_cur [OF keeps_call_mdl] by (simp split: option.split)
  have b: "keeps ?ind" by (rule keeps_if [OF keeps_mx(5) keeps_id])
  have c: "keeps (\<lambda>d. if mx_flag d x MSG_STATUS_OWNER_REQ then cur_req_hdl env x d else d)"
    by (rule keeps_if [OF keeps_req_hdl keeps_id])
  show ?thesis
    using keeps_comp [OF c keeps_comp [OF a keeps_comp [OF b keeps_comp [OF keeps_mx(5) keeps_mx(2)]]]]
    by (simp add: notify_msg_fail_def [abs_def] Let_def)
qed

lemma keeps_feed: "keeps (\<lambda>d. fst (feed_mdl_msg env p x d))"
proof -
  have "keeps (\<lambda>d. case call_mdl env p x d of (d1, ret) \<Rightarrow>
      fst (if ret = MDL_RET_FAIL \<or> ret = MDL_RET_CANNOT_IO then
            (notify_msg_fail env x ret
               (upd_mx x (\<lambda>m. m\<lparr>mx_msg := (mx_msg m)\<lparr>rsvd := (rsvd (mx_msg m))[0 := Some (Inl p)]\<rparr>\<rparr>) d1), ret)
          else if ret = MDL_RET_PENDING then (mx_set x MSG_STATUS_PENDING d1, ret)
          else
            (upd_mx x (\<lambda>m. if MSG_INDC_FIELD (msg_id (mx_msg m)) AND MSG_INDC_PRE_PHASE \<noteq> 0
               then m\<lparr>premap := clr_bitmap_bit (premap m) [md_id (mdl d1 p)]\<rparr>
               else m\<lparr>postmap := clr_bitmap_bit (postmap m) [md_id (mdl d1 p)]\<rparr>) d1, ret)))"
    by (rule keeps_bind [OF keeps_call_mdl]) (simp add: keeps_def keepsD [OF keeps_fail] keeps_cur [OF keeps_fail])
  then show ?thesis by (simp add: feed_mdl_msg_def split_beta)
qed

lemma keeps_walk: "keeps (\<lambda>d. fst (feed_walk env pre x ps d))"
proof (induction ps)
  case Nil
  then show ?case by (simp add: keeps_id)
next
  case (Cons p ps)
  have "keeps (\<lambda>d. case feed_mdl_msg env (BkMdl p) x d of
      (d1, ret) \<Rightarrow> fst (if STOP_DISPATCH_MSG ret then (d1, True) else feed_walk env pre x ps d1))"
    by (rule keeps_bind [OF keeps_feed]) (simp add: keeps_def keepsD [OF Cons] keeps_cur [OF Cons])
  from keeps_if [OF Cons this] show ?case
    by (simp only: feed_walk.simps if_distrib [of fst] prod.case_distrib [of fst])
qed

lemma keeps_level: "keeps (\<lambda>d. fst (feed_level env pre x o1 pr i d))"
proof -
  have w: "keeps (\<lambda>d. fst (feed_walk env pre x (level_list pre d i) d))"
    by (rule keeps_fst_case [where f = "feed_walk env pre x"]) (rule keeps_walk)
  have f: "keeps (\<lambda>d. case feed_mdl_msg env p x d of
      (d1, ret) \<Rightarrow> fst (if STOP_DISPATCH_MSG ret then (d1, True) else feed_walk env pre x (level_list pre d1 i) d1))" for p
    by (rule keeps_bind [OF keeps_feed]) (simp add: keeps_def keepsD [OF w] keeps_cur [OF w])
  show ?thesis
    unfolding keeps_def feed_level_def
    using keepsD [OF w] keeps_cur [OF w] keepsD [OF f] keeps_cur [OF f]
    by (simp add: split_beta split: option.split)
qed

lemma keeps_levels: "keeps (feed_levels env pre x o1 pr ls)"
proof (induction ls)
  case Nil
  then show ?case by (simp add: keeps_def)
next
  case (Cons i ls)
  have "keeps (\<lambda>d. case feed_level env pre x o1 pr i d of (d1, stop) \<Rightarrow> if stop then d1 else feed_levels env pre x o1 pr ls d1)"
    by (rule keeps_bind [OF keeps_level]) (simp add: keeps_def keepsD [OF Cons] keeps_cur [OF Cons])
  then show ?case by (simp add: fun_eq_iff [symmetric] keeps_def)
qed

lemma keeps_phases: "keeps (msg_pre_phase_hdl env x)" "keeps (msg_post_phase_hdl env x)"
  "keeps (notify_dispr_controller env x)"
  using keepsD [OF keeps_levels] keeps_cur [OF keeps_levels] keepsD [OF keeps_feed] keeps_cur [OF keeps_feed]
  by (simp_all add: keeps_def msg_pre_phase_hdl_def msg_post_phase_hdl_def notify_dispr_controller_def del: feed_levels.simps)

lemma settles_redirect: "settles x rest \<Longrightarrow> settles x (\<lambda>d. MSG_REDIRECT_CHK env x d rest)"
  unfolding MSG_REDIRECT_CHK_def msg_reschedule_def by (intro settles_if settles_idle settles_push)

lemma settles_post: "settles x (msg_post_dispatch env x pre)"
  unfolding msg_post_dispatch_def [abs_def]
  by (intro settles_comp [OF settles_redirect] settles_if settles_comp [OF settles_idle] keeps_req_hdl keeps_mx keeps_if
      keeps_phases keeps_id)

lemma keeps_get_map: "keeps (\<lambda>d. fst (get_msg_bitmap x d))"
  by (simp add: keeps_def get_msg_bitmap_def)

lemma settles_bind:
  assumes "keeps (\<lambda>d. fst (f d))" and "\<And>r. settles x (\<lambda>d. g d r)"
  shows "settles x (\<lambda>d. case f d of (d1, r) \<Rightarrow> g d1 r)"
  using assms unfolding keeps_def settles_def split_beta by metis

lemma settles_dispatch: "settles x (msg_dispatch env x)"
proof -
  have post: "settles x (\<lambda>d4. if map_empty pre x d4
          then (case get_msg_bitmap x (mx_clr x MSG_STATUS_PRE_PHASE d4) of (d5, post) \<Rightarrow> msg_post_dispatch env x post d5)
          else push_back_idle_msg env x (mx_set x MSG_STATUS_CANCEL d4))" for pre
    by (intro settles_if settles_bind keeps_comp [OF keeps_get_map] keeps_mx settles_post settles_comp [OF settles_idle])
  show ?thesis
    unfolding msg_dispatch_def [abs_def]
    by (intro settles_bind keeps_get_map settles_redirect settles_comp [OF settles_redirect] post keeps_if keeps_phases keeps_id)
qed

text \<open>The current request is left, another one gets the token.\<close>

lemma keeps_cancel_req: "keeps (cancel_req_msgs mid xs)"
proof (induction xs)
  case Nil
  then show ?case by (simp add: keeps_def)
next
  case (Cons x xs)
  let ?one = "\<lambda>d. if mid \<noteq> MSG_MDL_ID_FIELD (mx_id d x) then d
        else
          let d1 = cancel_msg x (mx_clr x MSG_STATUS_OWNER_REQ d) in
          if mx_flag d1 x MSG_STATUS_PENDING then clear_pending_msg (dispr_clr_pending_msg d1) else d1"
  have "keeps (\<lambda>d. if mx_flag d x MSG_STATUS_PENDING then clear_pending_msg (dispr_clr_pending_msg d) else d)"
    by (rule keeps_if [OF keeps_comp [OF keeps_clear_pending keeps_clr_pending] keeps_id])
  then have "keeps ?one"
    unfolding Let_def by (rule keeps_if [OF keeps_id keeps_comp [OF _ keeps_comp [OF keeps_cancel keeps_mx(3)]]])
  from keeps_comp [OF Cons this] show ?case by (simp add: keeps_def)
qed

lemma keeps_call_abort: "keeps (call_abort env r)"
proof -
  have k: "keeps (\<lambda>d. fst (cb_abort env f q (d_tell e d)))" for f q e
    using keeps_comp [OF abort_keeps] by (simp add: keeps_def)
  show ?thesis
    unfolding keeps_def call_abort_def using keepsD [OF k] keeps_cur [OF k] by simp
qed

lemma req_flag_disjoint:
  "REQ_STATUS_LAST_PERMIT AND REQ_STATUS_ENQ = 0" "REQ_STATUS_LAST_PERMIT AND REQ_STATUS_RUN = 0"
  "REQ_STATUS_CANCEL AND REQ_STATUS_ENQ = 0" "REQ_STATUS_CANCEL AND REQ_STATUS_RUN = 0"
  by (simp_all add: REQ_STATUS_LAST_PERMIT_def REQ_STATUS_ENQ_def REQ_STATUS_RUN_def REQ_STATUS_CANCEL_def)

lemma keeps_not_running: "keeps (rx_clr r REQ_STATUS_RUN)"
proof (rule keepsI)
  fix fl rfl k and d :: "'b disp"
  assume ok: "dispr_ok fl rfl k d"
  let ?p = "(token_req_ex_pool d)[r := (rx d r)\<lparr>rx_status := CLEAR_STATUS_FLAG (rx_status (rx d r)) REQ_STATUS_RUN\<rparr>]"
  have "rx_clr r REQ_STATUS_RUN d = d\<lparr>token_req_ex_pool := ?p, token_req_wait_q := token_req_wait_q d\<rparr>"
    by (simp add: rx_clr_def upd_rx_def)
  moreover have "dispr_ok fl rfl k \<dots>"
    using ok_req_facts [OF ok]
    by (subst req_same, intro ok_reqs [OF ok])
      (auto simp: cur_list_def upd_nth flag_simps REQ_STATUS_ENQ_def REQ_STATUS_RUN_def split: if_splits)
  ultimately show "dispr_ok fl rfl k (rx_clr r REQ_STATUS_RUN d)" by simp
qed simp

lemma ok_deregister:
  assumes "dispr_ok fl rfl k d"
  shows "dispr_ok fl rfl k (deregister_cur_cmd_req env notify d)" "cur_cmd_req (deregister_cur_cmd_req env notify d) = None"
proof -
  let ?leave = "\<lambda>r d. if notify then rx_clr r REQ_STATUS_LAST_PERMIT (call_abort env r (rx_set r REQ_STATUS_LAST_PERMIT d)) else d"
  have p: "keeps (rx_clr r REQ_STATUS_LAST_PERMIT)" "keeps (rx_set r REQ_STATUS_LAST_PERMIT)" for r
    by (simp_all add: keeps_def ok_rx_set ok_rx_clr req_flag_disjoint)
  have "keeps (?leave r)" for r
    by (rule keeps_if [OF keeps_comp [OF p(1) keeps_comp [OF keeps_call_abort p(2)]] keeps_id])
  then have k: "keeps (\<lambda>d. ?leave r (cancel_req_msgs m [0..<MAX_PHL_MSG_NUM] (rx_clr r REQ_STATUS_RUN d)))" for r m
    using keeps_comp keeps_cancel_req keeps_not_running by blast
  show "dispr_ok fl rfl k (deregister_cur_cmd_req env notify d)" "cur_cmd_req (deregister_cur_cmd_req env notify d) = None"
    using assms ok_drop_current [OF keepsD [OF k, OF assms] _ refl] keeps_cur [OF k, OF assms]
    by (auto simp: deregister_cur_cmd_req_def Let_def split: option.splits simp del: upt_Suc)
qed

lemma ok_register:
  assumes "dispr_ok fl (r # rfl) k d" and "\<not> rx_flag d r REQ_STATUS_ENQ" and "cur_cmd_req d = None"
  shows "dispr_ok fl rfl k (fst (register_cur_cmd_req env r d))"
proof -
  have a: "keeps (\<lambda>d. fst (cb_acquired env f q (d_tell e d)))" for f q e
    using keeps_comp [OF acquired_keeps] by (simp add: keeps_def)
  show ?thesis
    using keepsD [OF a, OF ok_make_current [OF assms refl]]
    by (auto simp: register_cur_cmd_req_def Let_def split_beta intro!: ok_deregister)
qed

lemma cur_none: "dispr_ok fl rfl k d \<Longrightarrow> \<not> token_cnt d > 0 \<longleftrightarrow> cur_cmd_req d = None"
  using ok_req_facts(4) [of fl rfl k d] by (auto simp: cur_list_def split: option.splits)

lemma ok_process: "dispr_process_token_req n env d = Some (d', st) \<Longrightarrow> dispr_ok fl rfl k d \<Longrightarrow> dispr_ok fl rfl k d'"
proof (induction n arbitrary: d)
  case 0
  then show ?case by simp
next
  case (Suc n)
  obtain d1 r where p: "pop_front_wait_req d = (d1, r)" by fastforce
  note kp = keepsD [OF keeps_phy(2)] keepsD [OF keeps_phy(1)] keeps_cur [OF keeps_phy(1)]
  show ?case
  proof (cases r)
    case None
    then have "d1 = d" using p by (auto simp: pop_front_wait_req_def split: prod.splits option.splits)
    then show ?thesis using Suc.prems p None kp(1) [of fl rfl k]
      by (auto simp: disp_flag_disjoint split: if_splits)
  next
    case (Some q)
    let ?d = "if d_flag d1 DISPR_NOTIFY_IDLE then send_bk_msg_phy_on env (d_clr DISPR_NOTIFY_IDLE d1) else d1"
    have o1: "dispr_ok fl (q # rfl) k d1" "\<not> rx_flag d1 q REQ_STATUS_ENQ" "cur_cmd_req d1 = cur_cmd_req d"
      using ok_pop_wait_req [OF Suc.prems(2)] p Some by auto
    have o2: "dispr_ok fl (q # rfl) k ?d" "cur_cmd_req ?d = cur_cmd_req d"
      using o1 kp(2) [of fl "q # rfl" k] kp(3) [of fl "q # rfl" k] by (auto simp: disp_flag_disjoint)
    have "token_req_ex_pool ?d = token_req_ex_pool d1"
      using pool_send [of fl "q # rfl" k "d_clr DISPR_NOTIFY_IDLE d1"] o1(1)
      by (simp add: send_bk_msg_phy_on_def disp_flag_disjoint pool_d_clr)
    then have enq: "\<not> rx_flag ?d q REQ_STATUS_ENQ" using o1(2) by (metis rx_flag_def)
    obtain d2 b where r: "register_cur_cmd_req env q ?d = (d2, b)" by fastforce
    show ?thesis
    proof (cases "\<not> d_flag d DISPR_STARTED \<or> d_flag d DISPR_SHALL_STOP \<or> token_cnt d > 0 \<or> d_flag d DISPR_WAIT_ABORT_MSG_DONE")
      case True
      then show ?thesis using Suc.prems by (auto split: if_splits)
    next
      case False
      then have "cur_cmd_req ?d = None" using o2(2) cur_none [OF Suc.prems(2)] by simp
      then have o3: "dispr_ok fl rfl k d2" using ok_register [OF o2(1) enq] r by simp
      have "(if b then Some (d2, RTW_PHL_STATUS_SUCCESS) else dispr_process_token_req n env d2) = Some (d', st)"
        using False Suc.prems(1) p Some r by (simp split: if_splits bool.splits)
      then show ?thesis using Suc.IH [OF _ o3] o3 by (auto split: if_splits)
    qed
  qed
qed

lemma ok_handle_op:
  assumes "handle_token_op_info n env p d = Some d'" and ok: "dispr_ok fl rfl k d"
    and free: "\<And>r. r < MAX_CMD_REQ_NUM \<Longrightarrow> r \<notin> set rfl"
  shows "dispr_ok fl rfl k d'"
proof -
  let ?r = "op_data (op_info d p)"
  have cancel: "dispr_ok fl rfl k (push_back_idle_req ?r (call_abort env ?r
      (d\<lparr>token_req_wait_q := pq_del_node (token_req_wait_q d) (Some ?r)\<rparr>)))"
    if "?r < MAX_CMD_REQ_NUM" "rx_flag d ?r REQ_STATUS_ENQ"
  proof -
    have "?r \<in> set (queue (token_req_wait_q d))"
      using ok_req_facts(5) [OF ok that(1) free [OF that(1)]] that(2) by (simp add: rx_flag_def)
    from keepsD [OF keeps_call_abort ok_del_wait_req [OF ok this]] show ?thesis by (rule ok_push_idle_req)
  qed
  show ?thesis
    using assms(1) ok cancel ok_deregister(1) [OF ok]
    by (auto simp: handle_token_op_info_def Let_def not_le split: if_splits dest!: ok_process)
qed

lemma ok_token_ops:
  "token_op_hanler m n env d = Some d' \<Longrightarrow> dispr_ok fl [] k d \<Longrightarrow> dispr_ok fl [] k d' \<and> queue (token_op_q d') = []"
proof (induction m arbitrary: d)
  case 0
  then show ?case by simp
next
  case (Suc m)
  obtain d1 r where p: "pop_front_token_op_info d = (d1, r)" by fastforce
  note o = ok_pop_op [OF Suc.prems(2) p]
  show ?case
  proof (cases r)
    case None
    with Suc.prems p o show ?thesis by simp
  next
    case (Some q)
    with Suc.prems(1) p obtain d2 where d2: "handle_token_op_info n env q d1 = Some d2"
      "token_op_hanler m n env (upd_op q (\<lambda>i. i\<lparr>used := False\<rparr>) d2) = Some d'"
      by (auto split: option.splits)
    have "dispr_ok fl [] k d2" using ok_handle_op [OF d2(1) o(1)] by simp
    then show ?thesis using Suc.IH [OF d2(2)] by (simp add: ok_upd_op)
  qed
qed

lemma ok_canceled: "is_msg_canceled x d = (d', b) \<Longrightarrow> dispr_ok fl rfl k d \<Longrightarrow> dispr_ok fl rfl k d'"
  by (auto simp: is_msg_canceled_def Let_def split: if_splits)

lemma ok_loop:
  assumes "dispr_ok [] [] (Due 0 0) d" and "0 < d_sema d"
    and "dispr_thread_loop_hdl m n env (d\<lparr>d_sema := d_sema d - 1\<rparr>) = Some d'"
  shows "dispr_ok [] [] (Due 0 (d_sema d - 1)) d'"
proof -
  from assms(3) obtain d1 where d1: "token_op_hanler m n env (clear_pending_msg (d\<lparr>d_sema := d_sema d - 1\<rparr>)) = Some d1"
    by (auto simp: dispr_thread_loop_hdl_def split: option.splits)
  have o1: "dispr_ok [] [] (Due 1 (d_sema d - 1)) d1" "queue (token_op_q d1) = []"
    using ok_token_ops [OF d1 ok_round_start [OF assms(1,2)]] by simp_all
  obtain d2 r where p: "pop_front_wait_msg d1 = (d2, r)" by fastforce
  note o2 = ok_round_msg [OF o1 p]
  show ?thesis
  proof (cases r)
    case None
    with assms(3) d1 p o2 show ?thesis by (simp add: dispr_thread_loop_hdl_def)
  next
    case (Some x)
    obtain d3 b where c: "is_msg_canceled x d2 = (d3, b)" by fastforce
    have "dispr_ok [x] [] (Due 0 (d_sema d - 1)) d3" using ok_canceled [OF c] o2 Some by simp
    then show ?thesis
      using assms(3) d1 p c Some settlesD [OF settles_idle, of x "[]"] settlesD [OF settles_dispatch, of x "[]"]
      by (cases b) (auto simp: dispr_thread_loop_hdl_def)
  qed
qed

end

section \<open>The operations of the rest of the driver\<close>

lemma keeps_add_req: "keeps (\<lambda>d. fst (dispr_add_token_req req h d))"
proof (unfold keeps_def, intro allI impI)
  fix fl rfl k and d :: "'a disp"
  assume ok: "dispr_ok fl rfl k d"
  obtain d1 r where p: "pop_front_idle_req d = (d1, r)" by fastforce
  show "dispr_ok fl rfl k (fst (dispr_add_token_req req h d)) \<and> cur_cmd_req (fst (dispr_add_token_req req h d)) = cur_cmd_req d"
  proof (cases r)
    case None
    then have "d1 = d" using p by (auto simp: pop_front_idle_req_def split: prod.splits option.splits)
    then show ?thesis using ok p None by (simp add: dispr_add_token_req_def)
  next
    case (Some q)
    note o = ok_pop_idle_req [OF ok, of d1 q]
    let ?d2 = "upd_rx q (\<lambda>e. e\<lparr>rx_req := the req\<rparr>) d1"
    have o1: "dispr_ok fl (q # rfl) k ?d2" "\<not> rx_flag ?d2 q REQ_STATUS_RUN" "cur_cmd_req ?d2 = cur_cmd_req d"
      using o p Some by (simp_all add: ok_rx_flight) (simp add: rx_flag_def upd_rx_def upd_nth flag_simps REQ_STATUS_RUN_def)
    have o2: "dispr_ok fl rfl k (push_back_wait_req q ?d2)" using o1(1,2) by (rule ok_push_wait_req)
    have "cur_cmd_req (push_back_wait_req q ?d2) = cur_cmd_req d" using o1(3) by (simp add: push_back_wait_req_def)
    then show ?thesis using ok p Some keepsD [OF keeps_enqueue_op o2] keeps_cur [OF keeps_enqueue_op o2]
      by (simp add: dispr_add_token_req_def Let_def)
  qed
qed

lemma req_cancel_disjoint: "REQ_STATUS_CANCEL AND REQ_STATUS_ENQ = 0" "REQ_STATUS_CANCEL AND REQ_STATUS_RUN = 0"
  by (simp_all add: REQ_STATUS_ENQ_def REQ_STATUS_RUN_def REQ_STATUS_CANCEL_def)

lemma keeps_cancel_op: "keeps (\<lambda>d. fst (dispr_enqueue_token_op_info (FreeInfo r) ty (rx_idx (rx d r)) (rx_set r REQ_STATUS_CANCEL d)))"
proof -
  have "keeps (rx_set r REQ_STATUS_CANCEL)" by (simp add: keeps_def ok_rx_set req_cancel_disjoint)
  from keeps_case [OF keeps_comp [OF keeps_enqueue_op this]] show ?thesis .
qed

lemma keeps_free_req: "keeps (\<lambda>d. fst (dispr_cancel_token_req h d))" "keeps (\<lambda>d. fst (dispr_free_token h d))"
  by (auto simp: keeps_def dispr_cancel_token_req_def dispr_free_token_def Let_def split_beta keepsD [OF keeps_cancel_op]
      keeps_cur [OF keeps_cancel_op] split: option.splits)

text \<open>
  A step of the driver: an operation on the dispatcher, a wake-up of the common thread for another dispatcher, or a
  round of the thread.
\<close>

inductive dispr_step :: "'w dispr_env \<Rightarrow> 'w disp \<Rightarrow> 'w disp \<Rightarrow> bool" for env :: "'w dispr_env" where
  send: "dispr_step env d (fst (dispr_send_msg env msg attr d))"
| cancel: "dispr_step env d (fst (dispr_cancel_msg h d))"
| clr_pending: "dispr_step env d (dispr_clr_pending_msg d)"
| add_req: "dispr_step env d (fst (dispr_add_token_req req h d))"
| cancel_req: "dispr_step env d (fst (dispr_cancel_token_req h d))"
| free_req: "dispr_step env d (fst (dispr_free_token h d))"
| dev_io: "dispr_step env d (fst (dispr_notify_dev_io_status env mid allow_io d))"
| shall_stop: "dispr_step env d (dispr_notify_shall_stop d)"
| other_dispr: "dispr_step env d (notify_bk_thread d)"
| round: "0 < d_sema d \<Longrightarrow> dispr_thread_loop_hdl m n env (d\<lparr>d_sema := d_sema d - 1\<rparr>) = Some d' \<Longrightarrow> dispr_step env d d'"

inductive_cases dispr_stepE: "dispr_step env d d'"

context dispr_callbacks
begin

lemma step_ok:
  assumes "dispr_step env d d'" and "dispr_ok [] [] (Due 0 0) d"
  shows "dispr_ok [] [] (Due 0 0) d'"
  using assms
  by (elim dispr_stepE)
    (auto intro: keepsD [OF keeps_send] keepsD [OF keeps_dispr_cancel] keepsD [OF keeps_clr_pending] keepsD [OF keeps_add_req]
      keepsD [OF keeps_free_req(1)] keepsD [OF keeps_free_req(2)] keepsD [OF keeps_dev_io] keepsD [OF keeps_shall_stop]
      ok_notify ok_no_floor [OF ok_loop])

end

sublocale dispr_callbacks \<subseteq> steps: step_invariant "dispr_step env" "dispr_ok [] [] (Due 0 0)"
  by unfold_locales (rule step_ok)

context dispr_callbacks
begin

lemma steps_ok: "(dispr_step env)\<^sup>*\<^sup>* d d' \<Longrightarrow> dispr_ok [] [] (Due 0 0) d \<Longrightarrow> dispr_ok [] [] (Due 0 0) d'"
  by (rule steps.run_inv)

end

section \<open>Start\<close>

text \<open>A dispatcher that is not started: its pools are not set up and no request holds the token.\<close>

definition dispr_stopped :: "'w disp \<Rightarrow> bool" where
  "dispr_stopped d \<longleftrightarrow>
     \<not> d_flag d DISPR_STARTED \<and> \<not> d_flag d DISPR_MSGQ_INIT \<and> \<not> d_flag d DISPR_REQ_INIT \<and> cur_cmd_req d = None \<and>
     token_cnt d = 0 \<and> (d_flag d DISPR_CLR_PEND_MSG \<longrightarrow> 0 < d_sema d)"

lemma push_idle_unused:
  assumes "mx_status (mx d i) = 0" and "i < length (msg_ex_pool d)"
  shows "push_back_idle_msg env i d =
    (let d3 = upd_mx i (\<lambda>m. m\<lparr>mx_status := 0\<rparr>) d;
         src = MSG_MDL_ID_FIELD (mx_id d3 i);
         d4 = (if pending_evt_id d3 src = MSG_EVT_ID_FIELD (mx_id d3 i)
               then d3\<lparr>pending_evt_id := (pending_evt_id d3)(src := MSG_EVT_MAX)\<rparr> else d3);
         d5 = mx_set_id i (\<lambda>_. 0) d4
     in d5\<lparr>msg_idle_q := fst (pq_push (msg_idle_q d5) i Tail)\<rparr>)"
proof -
  have "\<not> mx_flag d i MSG_STATUS_NOTIFY_COMPLETE" "\<not> mx_flag d i MSG_STATUS_FOR_ABORT"
    using assms(1) by (simp_all add: mx_flag_def flag_simps MSG_STATUS_NOTIFY_COMPLETE_def MSG_STATUS_FOR_ABORT_def)
  then show ?thesis by (simp add: push_back_idle_msg_def complete_msg_def Let_def)
qed

definition unused_pool :: "'w disp \<Rightarrow> bool" where
  "unused_pool d \<longleftrightarrow> length (msg_ex_pool d) = MAX_PHL_MSG_NUM \<and> (\<forall>i<MAX_PHL_MSG_NUM. mx_status (mx d i) = 0)"

definition same_reqs :: "'w disp \<Rightarrow> 'w disp \<Rightarrow> bool" where
  "same_reqs d d' \<longleftrightarrow> token_cnt d' = token_cnt d \<and> cur_cmd_req d' = cur_cmd_req d \<and> d_sema d' = d_sema d \<and> d_status d' = d_status d \<and>
     msg_wait_q d' = msg_wait_q d \<and> msg_pend_q d' = msg_pend_q d"

lemma push_idle_fill:
  assumes "unused_pool d" and "i < MAX_PHL_MSG_NUM" and "d' = push_back_idle_msg env i (upd_mx i (\<lambda>m. m\<lparr>mx_idx := i\<rparr>) d)"
  shows "unused_pool d'" "msg_idle_q d' = fst (pq_push (msg_idle_q d) i Tail)" "same_reqs d d'"
proof -
  have u: "mx_status (mx (upd_mx i (\<lambda>m. m\<lparr>mx_idx := i\<rparr>) d) i) = 0" "i < length (msg_ex_pool (upd_mx i (\<lambda>m. m\<lparr>mx_idx := i\<rparr>) d))"
    using assms(1,2) by (simp_all add: unused_pool_def upd_mx_def)
  note eq = push_idle_unused [OF u, of env, folded assms(3)]
  show "unused_pool d'"
    using assms(1,2) by (auto simp: eq unused_pool_def Let_def mx_set_id_def upd_mx_def upd_nth)
  show "msg_idle_q d' = fst (pq_push (msg_idle_q d) i Tail)" "same_reqs d d'"
    by (simp_all add: eq same_reqs_def Let_def)
qed

lemma fill_idle_ok:
  "unused_pool d \<Longrightarrow> set is \<subseteq> {..<MAX_PHL_MSG_NUM} \<Longrightarrow> pq_wf (msg_idle_q d) \<Longrightarrow> d' = fill_idle env is d \<Longrightarrow>
     unused_pool d' \<and> queue (msg_idle_q d') = queue (msg_idle_q d) @ is \<and> pq_wf (msg_idle_q d') \<and> same_reqs d d'"
proof (induction "is" arbitrary: d)
  case Nil
  then show ?case by (simp add: same_reqs_def)
next
  case (Cons i js)
  let ?d = "push_back_idle_msg env i (upd_mx i (\<lambda>m. m\<lparr>mx_idx := i\<rparr>) d)"
  from Cons.prems have i: "i < MAX_PHL_MSG_NUM" by simp
  note f = push_idle_fill [OF Cons.prems(1) i refl, of env]
  have "unused_pool d' \<and> queue (msg_idle_q d') = queue (msg_idle_q ?d) @ js \<and> pq_wf (msg_idle_q d') \<and> same_reqs ?d d'"
    using Cons.IH [OF f(1)] Cons.prems f(2) by (simp add: pq_wf_push)
  then show ?case using f(2,3) by (simp add: queue_push same_reqs_def)
qed

lemma queue_init: "queue pq_init = []"
  by (simp add: pq_init_def)

lemma fill_idle_req_ok:
  "length (token_req_ex_pool d) = MAX_CMD_REQ_NUM \<Longrightarrow> (\<forall>i<MAX_CMD_REQ_NUM. rx_status (rx d i) = 0) \<Longrightarrow> pq_wf (token_req_idle_q d) \<Longrightarrow>
     \<exists>p q. fill_idle_req is d = d\<lparr>token_req_ex_pool := p, token_req_idle_q := q\<rparr> \<and> length p = MAX_CMD_REQ_NUM \<and>
       (\<forall>i<MAX_CMD_REQ_NUM. rx_status (p ! i) = 0) \<and> pq_wf q \<and> queue q = queue (token_req_idle_q d) @ is"
proof (induction "is" arbitrary: d)
  case Nil
  then show ?case by (intro exI [of _ "token_req_ex_pool d"] exI [of _ "token_req_idle_q d"]) simp
next
  case (Cons i js)
  let ?p = "(token_req_ex_pool d)[i := (rx d i)\<lparr>rx_idx := i\<rparr>]"
  let ?d = "d\<lparr>token_req_ex_pool := ?p, token_req_idle_q := fst (pq_push (token_req_idle_q d) i Tail)\<rparr>"
  have "fill_idle_req (i # js) d = fill_idle_req js ?d" by (simp add: upd_rx_def)
  moreover have "\<forall>j<MAX_CMD_REQ_NUM. rx_status (?p ! j) = 0" using Cons.prems by (simp add: upd_nth)
  from Cons.IH [of ?d] Cons.prems this obtain p q where
    "fill_idle_req js ?d = ?d\<lparr>token_req_ex_pool := p, token_req_idle_q := q\<rparr>" "length p = MAX_CMD_REQ_NUM"
    "\<forall>i<MAX_CMD_REQ_NUM. rx_status (p ! i) = 0" "pq_wf q" "queue q = queue (token_req_idle_q d) @ i # js"
    by (auto simp: pq_wf_push queue_push)
  ultimately show ?case by (intro exI [of _ p] exI [of _ q]) simp
qed

text \<open>The set-up of the two pools.\<close>

lemma pools_ok:
  assumes "dispr_stopped d" and "d1 = init_cmd_req_pool (init_dispr_msg_pool env d)"
  shows "dispr_ok [] [] (Due 0 (d_sema d)) d1"
proof -
  let ?z = "d\<lparr>msg_idle_q := pq_init, msg_wait_q := pq_init, msg_pend_q := pq_init,
      msg_ex_pool := replicate MAX_PHL_MSG_NUM (zero_mx 0)\<rparr>"
  let ?m = "fill_idle env [0..<MAX_PHL_MSG_NUM] ?z"
  have sub: "set [0..<MAX_PHL_MSG_NUM] \<subseteq> {..<MAX_PHL_MSG_NUM}" by auto
  have z: "unused_pool ?z" by (simp add: unused_pool_def zero_mx_def)
  have m: "unused_pool ?m \<and> queue (msg_idle_q ?m) = [0..<MAX_PHL_MSG_NUM] \<and> pq_wf (msg_idle_q ?m) \<and> same_reqs ?z ?m"
    using fill_idle_ok [OF z sub _ refl, of env] by (simp add: pq_wf_init queue_init)
  let ?s = "d_set DISPR_MSGQ_INIT ?m"
  have e: "init_dispr_msg_pool env d = ?s" using assms(1) by (simp add: init_dispr_msg_pool_def dispr_stopped_def)
  have f: "\<not> d_flag ?s DISPR_REQ_INIT" "d_flag ?s DISPR_CLR_PEND_MSG = d_flag d DISPR_CLR_PEND_MSG"
    using assms(1) m by (simp_all add: dispr_stopped_def d_flag_def d_set_def flag_simps same_reqs_def DISPR_MSGQ_INIT_def
        DISPR_REQ_INIT_def DISPR_CLR_PEND_MSG_def)
  let ?r = "?s\<lparr>token_req_wait_q := pq_init, token_req_idle_q := pq_init, token_op_q := pq_init,
      token_req_ex_pool := replicate MAX_CMD_REQ_NUM (zero_rx 0)\<rparr>"
  obtain p q where r: "fill_idle_req [0..<MAX_CMD_REQ_NUM] ?r = ?r\<lparr>token_req_ex_pool := p, token_req_idle_q := q\<rparr>"
    "length p = MAX_CMD_REQ_NUM" "\<forall>i<MAX_CMD_REQ_NUM. rx_status (p ! i) = 0" "pq_wf q" "queue q = [0..<MAX_CMD_REQ_NUM]"
    using fill_idle_req_ok [of ?r "[0..<MAX_CMD_REQ_NUM]"] by (auto simp: pq_wf_init zero_rx_def queue_init)
  let ?d = "?r\<lparr>token_req_ex_pool := p, token_req_idle_q := q\<rparr>"
  have "msgs_inv [] ?d"
    using m by (simp add: msgs_inv_def unused_pool_def same_reqs_def d_set_def pq_wf_init queue_init)
  moreover have "reqs_inv [] ?d"
    using m r assms(1)
    by (auto simp: reqs_inv_def cur_list_def req_ok_def rx_flag_def same_reqs_def d_set_def dispr_stopped_def pq_wf_init queue_init
        flag_simps REQ_STATUS_ENQ_def REQ_STATUS_RUN_def)
  moreover have "wake_inv (Due 0 (d_sema d)) ?d"
    using m f(2) assms(1) by (simp add: wake_inv_def d_flag_def d_set_def same_reqs_def dispr_stopped_def queue_init)
  ultimately have "dispr_ok [] [] (Due 0 (d_sema d)) ?d" by (simp add: dispr_ok_def)
  moreover have "d1 = d_set DISPR_REQ_INIT ?d"
    using assms(2) f(1) r(1) by (simp only: e init_cmd_req_pool_def if_False)
  ultimately show ?thesis by (simp add: DISPR_REQ_INIT_def DISPR_CLR_PEND_MSG_def)
qed

lemma start_ok:
  assumes "dispr_stopped d" and "\<And>f p. keeps (\<lambda>d. fst (cb_mdl_start env f p d))"
  shows "dispr_ok [] [] (Due 0 (d_sema d)) (fst (dispr_start env d))"
proof -
  have "dispr_ok [] [] k (fst (bk_module_start env CtrlMdl d1))" if "dispr_ok [] [] k d1" for k d1
    using keepsD [OF assms(2) that] that by (simp add: bk_module_start_def split_beta)
  then have "dispr_ok [] [] k (fst (start_dispr_controller env d1))" if "dispr_ok [] [] k d1" for k d1
    using that by (fastforce simp: start_dispr_controller_def disp_flag_disjoint split_beta split: bool.split)
  then show ?thesis
    using pools_ok [OF assms(1) refl, of env] assms(1)
    by (simp add: dispr_start_def dispr_stopped_def Let_def init_dispr_mdl_mgnt_info_def disp_flag_disjoint)
qed

end
