(* ===== verification/Phl_Dispr_Thms.thy ===== *)
theory Phl_Dispr_Thms
  imports Phl_Dispr_Inv
begin

text \<open>
  The command dispatcher: its properties along every run from a start, for all handlers that reach it through its
  operations, and a client whose handlers do so.
\<close>

section \<open>A client\<close>

text \<open>
  \<open>quiet_env\<close> has handlers that do nothing. In \<open>client_env\<close> the message handlers behind the function pointer 2
  send a message of the recovery module, a request sends a message when it gets the token and another one when it is aborted, and
  completion routines ask for the pending messages.
\<close>

definition quiet_env :: "'w dispr_env" where
  "quiet_env = \<lparr>cb_completion = (\<lambda>f p x d. d), cb_msg_hdlr = (\<lambda>f p x d. (d, MDL_RET_SUCCESS)),
     cb_acquired = (\<lambda>f p d. (d, MDL_RET_SUCCESS)), cb_abort = (\<lambda>f p d. (d, MDL_RET_SUCCESS)),
     cb_mdl_init = (\<lambda>f d. (d, MDL_RET_SUCCESS, None)), cb_mdl_deinit = (\<lambda>f p d. d),
     cb_mdl_start = (\<lambda>f p d. (d, MDL_RET_SUCCESS)), cb_mdl_stop = (\<lambda>f p d. (d, MDL_RET_SUCCESS)),
     cb_info = (\<lambda>f p d. (d, MDL_RET_SUCCESS))\<rparr>"

definition client_env :: "'w dispr_env" where
  "client_env = quiet_env\<lparr>
     cb_completion := (\<lambda>f p x. dispr_clr_pending_msg),
     cb_msg_hdlr := (\<lambda>f p x d. if f = Some 2 then (fst (dispr_send_msg quiet_env (make_msg PHL_MDL_SER 77) None d), MDL_RET_SUCCESS)
        else (d, MDL_RET_IGNORE)),
     cb_acquired := (\<lambda>f p d. (fst (dispr_send_msg quiet_env (make_msg 130 3) None d), MDL_RET_SUCCESS)),
     cb_abort := (\<lambda>f p d. (fst (dispr_send_msg quiet_env (make_msg 130 4)
        (Some (zero_attr\<lparr>at_opt := MSG_OPT_SEND_IN_ABORT\<rparr>)) d), MDL_RET_SUCCESS))\<rparr>"

interpretation quiet: dispr_callbacks quiet_env
  by unfold_locales (simp_all add: quiet_env_def keeps_id)

interpretation client: dispr_callbacks client_env
  by unfold_locales
    (use quiet.keeps_send in \<open>auto simp: client_env_def keeps_clr_pending keeps_id if_distrib [of fst] intro!: keeps_if\<close>)

lemma client_modules:
  "cb_mdl_init client_env = (\<lambda>f d. (d, MDL_RET_SUCCESS, None))" "cb_mdl_deinit client_env = (\<lambda>f p d. d)"
  "cb_mdl_start client_env = (\<lambda>f p d. (d, MDL_RET_SUCCESS))" "cb_mdl_stop client_env = (\<lambda>f p d. (d, MDL_RET_SUCCESS))"
  "cb_info client_env = (\<lambda>f p d. (d, MDL_RET_SUCCESS))"
  by (simp_all add: client_env_def quiet_env_def)

lemma client_keeps: "callbacks_keep client_env"
  by (simp add: callbacks_keep_def client.completion_keeps client.msg_hdlr_keeps client.acquired_keeps client.abort_keeps
      client_modules keeps_id)

lemma callbacks_locale: "callbacks_keep env \<Longrightarrow> dispr_callbacks env"
  by unfold_locales (simp_all add: callbacks_keep_def)

section \<open>Along every run\<close>

lemma run_ok:
  assumes "callbacks_keep env" and "dispr_stopped d0" and "(dispr_step env)\<^sup>*\<^sup>* (fst (dispr_start env d0)) d"
  shows "dispr_ok [] [] (Due 0 0) d"
proof -
  have "dispr_ok [] [] (Due 0 0) (fst (dispr_start env d0))"
    using ok_no_floor [OF start_ok [OF assms(2)]] assms(1) by (simp add: callbacks_keep_def)
  from dispr_callbacks.steps_ok [OF callbacks_locale [OF assms(1)] assms(3) this] show ?thesis .
qed

text \<open>
  C10: From the start of a dispatcher, through any sequence of sent, cancelled and dispatched messages, token requests and changes
  of the device state, with handlers that call the dispatcher again, each of the 24 messages is in exactly one of the idle,
  wait and pending queues whenever the thread is between two rounds, and the counts agree.
\<close>

theorem dispr_conserves_messages:
  assumes "callbacks_keep env" and "dispr_stopped d0" and "(dispr_step env)\<^sup>*\<^sup>* (fst (dispr_start env d0)) d"
  shows "distinct (queue (msg_idle_q d) @ queue (msg_wait_q d) @ queue (msg_pend_q d)) \<and>
    set (queue (msg_idle_q d) @ queue (msg_wait_q d) @ queue (msg_pend_q d)) = {..<MAX_PHL_MSG_NUM} \<and>
    cnt (msg_idle_q d) + cnt (msg_wait_q d) + cnt (msg_pend_q d) = int MAX_PHL_MSG_NUM"
proof -
  from run_ok [OF assms] have inv: "msgs_inv [] d" by (simp add: dispr_ok_def)
  then have m: "mset (queue (msg_idle_q d) @ queue (msg_wait_q d) @ queue (msg_pend_q d)) = mset [0..<MAX_PHL_MSG_NUM]"
    by (simp add: msgs_inv_def)
  then have "distinct (queue (msg_idle_q d) @ queue (msg_wait_q d) @ queue (msg_pend_q d))"
    using mset_eq_imp_distinct_iff distinct_upt by blast
  moreover have "set (queue (msg_idle_q d) @ queue (msg_wait_q d) @ queue (msg_pend_q d)) = {..<MAX_PHL_MSG_NUM}"
    using m by (metis mset_eq_setD atLeast0LessThan set_upt)
  moreover have "length (queue (msg_idle_q d)) + length (queue (msg_wait_q d)) + length (queue (msg_pend_q d)) = MAX_PHL_MSG_NUM"
    using arg_cong [OF m, of size] by simp
  ultimately show ?thesis using inv by (simp add: msgs_inv_def pq_wf_def)
qed

text \<open>
  C11: Along every such run at most one request holds the command token: the token count is one exactly when there is a current
  request and zero otherwise, a request in the running state is the current one, a request is marked as waiting exactly when it is
  in the wait queue, and each of the eight requests is idle, waiting or the current one.
\<close>

theorem dispr_token_exclusive:
  assumes "callbacks_keep env" and "dispr_stopped d0" and "(dispr_step env)\<^sup>*\<^sup>* (fst (dispr_start env d0)) d"
  shows "token_cnt d = (if cur_cmd_req d = None then 0 else 1) \<and>
    (\<forall>r<MAX_CMD_REQ_NUM. (rx_flag d r REQ_STATUS_RUN \<longrightarrow> cur_cmd_req d = Some r) \<and>
       (rx_flag d r REQ_STATUS_ENQ \<longleftrightarrow> r \<in> set (queue (token_req_wait_q d))) \<and>
       ((r \<in> set (queue (token_req_idle_q d))) \<noteq> (r \<in> set (queue (token_req_wait_q d)) \<or> cur_cmd_req d = Some r)))"
proof -
  note ok = run_ok [OF assms]
  note facts = ok_req_facts(4) [OF ok] ok_req_facts(5) [OF ok] reqs_distinct [OF ok]
  have "(r \<in> set (queue (token_req_idle_q d))) \<noteq> (r \<in> set (queue (token_req_wait_q d)) \<or> cur_cmd_req d = Some r)"
    if "r < MAX_CMD_REQ_NUM" for r
  proof -
    have "r \<in> set (queue (token_req_idle_q d) @ queue (token_req_wait_q d) @ cur_list d @ [])" using facts(4) that by simp
    then show ?thesis using facts(3) by (auto simp: cur_list_def split: option.splits)
  qed
  then show ?thesis using facts(1,2) by (auto simp: rx_flag_def cur_list_def split: option.splits)
qed

text \<open>
  C13: No wake-up is lost: along every such run the semaphore of the thread counts at least as many wake-ups as messages wait, and it
  is not zero when a token operation is queued or when the pending messages are to be taken up again.
\<close>

theorem dispr_no_lost_wakeup:
  assumes "callbacks_keep env" and "dispr_stopped d0" and "(dispr_step env)\<^sup>*\<^sup>* (fst (dispr_start env d0)) d"
  shows "length (queue (msg_wait_q d)) \<le> d_sema d \<and>
    (queue (token_op_q d) \<noteq> [] \<or> d_flag d DISPR_CLR_PEND_MSG \<longrightarrow> 0 < d_sema d)"
  using run_ok [OF assms] by (auto simp: dispr_ok_def wake_inv_def)

section \<open>A run of the client\<close>

definition ex_ops :: "nat \<Rightarrow> phl_bk_module_ops" where
  "ex_ops h = \<lparr>op_init = Some 1, op_deinit = Some 1, op_start = Some 1, op_stop = Some 1, op_msg_hdlr = Some h,
     op_set_info = Some 1, op_query_info = Some 1\<rparr>"

definition ex_d0 :: "unit disp" where
  "ex_d0 = the (fst (dispr_init client_env (ex_ops 1) True 0 ()))"

definition ex_started :: "unit disp" where
  "ex_started = fst (dispr_start client_env ex_d0)"

definition ex_req :: phl_cmd_token_req where
  "ex_req = \<lparr>rq_module_id = 130, rq_priv = None, rq_role = None, rq_acquired = Some 1, rq_abort = Some 1, rq_msg_hdlr = Some 1,
     rq_set_info = Some 1, rq_query_info = Some 1\<rparr>"

definition ex_added :: "unit disp" where
  "ex_added = fst (dispr_add_token_req (Some ex_req) True ex_started)"

definition ex_round :: "unit disp option" where
  "ex_round = dispr_thread_loop_hdl 9 9 client_env (ex_added\<lparr>d_sema := d_sema ex_added - 1\<rparr>)"

lemma ex_stopped: "dispr_stopped ex_d0"
  by code_simp

lemma ex_added_run: "(dispr_step client_env)\<^sup>*\<^sup>* (fst (dispr_start client_env ex_d0)) ex_added"
  unfolding ex_added_def ex_started_def by (rule r_into_rtranclp, rule dispr_step.add_req)

lemma ex_sema: "0 < d_sema ex_added"
  by code_simp

lemma ex_round_some: "ex_round \<noteq> None"
  by code_simp

lemma ex_round_run: "(dispr_step client_env)\<^sup>*\<^sup>* (fst (dispr_start client_env ex_d0)) (the ex_round)"
proof -
  have "dispr_thread_loop_hdl 9 9 client_env (ex_added\<lparr>d_sema := d_sema ex_added - 1\<rparr>) = Some (the ex_round)"
    using ex_round_some by (auto simp: ex_round_def)
  from dispr_step.round [OF ex_sema this] ex_added_run show ?thesis by simp
qed

theorem dispr_conserves_messages_witness:
  "let d = the ex_round in
   distinct (queue (msg_idle_q d) @ queue (msg_wait_q d) @ queue (msg_pend_q d)) \<and>
   set (queue (msg_idle_q d) @ queue (msg_wait_q d) @ queue (msg_pend_q d)) = {..<MAX_PHL_MSG_NUM}"
  using dispr_conserves_messages [OF client_keeps ex_stopped ex_round_run] unfolding Let_def by blast

theorem dispr_token_exclusive_witness:
  "token_cnt ex_added = (if cur_cmd_req ex_added = None then 0 else 1) \<and>
   (rx_flag ex_added 0 REQ_STATUS_ENQ \<longleftrightarrow> 0 \<in> set (queue (token_req_wait_q ex_added)))"
  using dispr_token_exclusive [OF client_keeps ex_stopped ex_added_run] by (simp add: MAX_CMD_REQ_NUM_def)

theorem dispr_no_lost_wakeup_witness:
  "length (queue (msg_wait_q ex_added)) \<le> d_sema ex_added"
  using dispr_no_lost_wakeup [OF client_keeps ex_stopped ex_added_run] by blast

end
