(* ===== verification/Phl_Dispr_Order.thy ===== *)
theory Phl_Dispr_Order
  imports Phl_Dispr_Thms
begin

text \<open>
  The order in which a message visits the modules. With handlers that accept it, a message goes to the controller, in the pre
  phase to every started module of its map, mandatory modules first and role modules last, in the post phase back to
  all of them in the opposite order, to the current request and to its completion routine.
\<close>

section \<open>Bit maps\<close>

lemma chk_bitmap_iff: "length bm = 16 \<Longrightarrow> chk_bitmap_bit bm i \<longleftrightarrow> i < 128 \<and> bit (bm ! (i div 8)) (i mod 8)"
proof -
  assume l: "length bm = 16"
  have "i div 8 < 16 \<longleftrightarrow> i < 128" by (simp add: div_less_iff_less_mult)
  moreover have "w AND push_bit n 1 \<noteq> 0 \<longleftrightarrow> bit w n" if "n < 8" for w :: u8w and n
    by (simp add: push_bit_eq_mult and_exp_eq_0_iff_not_bit)
  ultimately show ?thesis using l by (auto simp: chk_bitmap_bit_def)
qed

lemma length_clr [simp]: "length (clr_bitmap_bit bm js) = length bm"
  by (induction js arbitrary: bm) (simp_all add: clr_bitmap_bit_def)

lemma clr_Cons: "clr_bitmap_bit bm (j # js) = clr_bitmap_bit (clr_bitmap_bit bm [j]) js"
  by (simp add: clr_bitmap_bit_def)

lemma chk_clr1:
  assumes l: "length bm = 16"
  shows "chk_bitmap_bit (clr_bitmap_bit bm [j]) i \<longleftrightarrow> chk_bitmap_bit bm i \<and> i \<noteq> j"
proof (cases "i div 8 = j div 8")
  case True
  have "i = j \<longleftrightarrow> i mod 8 = j mod 8" using True by (metis div_mult_mod_eq)
  then show ?thesis using True by (auto simp: chk_bitmap_iff l) (auto simp: clr_bitmap_bit_def upd_nth l bit_simps div_less_iff_less_mult split: if_splits)
next
  case False
  then show ?thesis by (auto simp: chk_bitmap_iff l) (auto simp: clr_bitmap_bit_def upd_nth l)
qed

lemma chk_clr: "length bm = 16 \<Longrightarrow> chk_bitmap_bit (clr_bitmap_bit bm js) i \<longleftrightarrow> chk_bitmap_bit bm i \<and> i \<notin> set js"
proof (induction js arbitrary: bm)
  case Nil
  then show ?case by (simp add: clr_bitmap_bit_def)
next
  case (Cons j js)
  then show ?case unfolding clr_Cons [of bm j js] by (auto simp: chk_clr1)
qed

lemma map_is_empty: "length bm = 16 \<Longrightarrow> is_bitmap_empty bm \<longleftrightarrow> (\<forall>i. \<not> chk_bitmap_bit bm i)"
proof -
  assume l: "length bm = 16"
  have "(\<forall>i. \<not> chk_bitmap_bit bm i) \<longleftrightarrow> (\<forall>k<16. bm ! k = 0)"
  proof
    assume none: "\<forall>i. \<not> chk_bitmap_bit bm i"
    show "\<forall>k<16. bm ! k = 0"
    proof (intro allI impI bit_word_eqI)
      fix k n
      assume "k < (16::nat)" and n: "n < LENGTH(8)"
      then have "8 * k + n < 128" "(8 * k + n) div 8 = k" "(8 * k + n) mod 8 = n" by auto
      then show "bit (bm ! k) n = bit (0::u8w) n" using none [rule_format, of "8 * k + n"] by (simp add: chk_bitmap_iff l)
    qed
  qed (simp add: chk_bitmap_iff l div_less_iff_less_mult)
  also have "\<dots> \<longleftrightarrow> is_bitmap_empty bm"
    using l by (auto simp: is_bitmap_empty_def MODL_MASK_LEN_def list_eq_iff_nth_eq)
  finally show ?thesis by simp
qed

section \<open>Handlers that accept a message\<close>

definition obedient :: "'w dispr_env \<Rightarrow> bool" where
  "obedient env \<longleftrightarrow>
     (\<forall>f p x d. \<exists>w r. cb_msg_hdlr env f p x d = (d\<lparr>world := w\<rparr>, r) \<and> \<not> STOP_DISPATCH_MSG r) \<and>
     (\<forall>f p x d. \<exists>w. cb_completion env f p x d = d\<lparr>world := w\<rparr>)"

text \<open>Handlers that may refuse a message, but do not call the dispatcher.\<close>

definition detached :: "'w dispr_env \<Rightarrow> bool" where
  "detached env \<longleftrightarrow>
     (\<forall>f p x d. \<exists>w r. cb_msg_hdlr env f p x d = (d\<lparr>world := w\<rparr>, r)) \<and> (\<forall>f p x d. \<exists>w. cb_completion env f p x d = d\<lparr>world := w\<rparr>)"

lemma obedient_detached: "obedient env \<Longrightarrow> detached env"
  unfolding obedient_def detached_def by blast

definition set_map :: "bool \<Rightarrow> u8w list \<Rightarrow> phl_dispr_msg_ex \<Rightarrow> phl_dispr_msg_ex" where
  "set_map pre bm m = (if pre then m\<lparr>premap := bm\<rparr> else m\<lparr>postmap := bm\<rparr>)"

text \<open>The events \<open>evs\<close> have happened to message \<open>x\<close>, and its map of the phase is \<open>bm\<close> now.\<close>

definition fed :: "bool \<Rightarrow> nat \<Rightarrow> 'w disp \<Rightarrow> u8w list \<Rightarrow> dispr_ev list \<Rightarrow> 'w disp \<Rightarrow> bool" where
  "fed pre x d bm evs d' \<longleftrightarrow>
     (\<exists>w. d' = d\<lparr>msg_ex_pool := (msg_ex_pool d)[x := set_map pre bm (mx d x)], world := w, d_out := d_out d @ evs\<rparr>)"

definition in_phase :: "bool \<Rightarrow> 'w disp \<Rightarrow> nat \<Rightarrow> bool" where
  "in_phase pre d x \<longleftrightarrow> (MSG_INDC_FIELD (mx_id d x) AND MSG_INDC_PRE_PHASE \<noteq> 0) = pre"

lemma set_map_simps [simp]:
  "phase_map pre (set_map pre bm m) = bm" "mx_msg (set_map pre bm m) = mx_msg m" "mx_status (set_map pre bm m) = mx_status m"
  "mx_module (set_map pre bm m) = mx_module m" "mx_completion (set_map pre bm m) = mx_completion m"
  "set_map pre bm (set_map pre bm' m) = set_map pre bm m" "phase_map (\<not> pre) (set_map pre bm m) = phase_map (\<not> pre) m"
  "set_map pre (phase_map pre m) m = m"
  by (simp_all add: set_map_def phase_map_def)

lemma fed_refl: "fed pre x d (phase_map pre (mx d x)) [] d"
  by (auto simp: fed_def intro!: exI [of _ "world d"])

lemma fed_trans:
  assumes "x < length (msg_ex_pool d)" and "fed pre x d bm evs d1" and "fed pre x d1 bm' evs' d2"
  shows "fed pre x d bm' (evs @ evs') d2"
  using assms by (auto simp: fed_def)

lemma fed_keeps:
  assumes "fed pre x d bm evs d'" and "x < length (msg_ex_pool d)"
  shows "mdl d' = mdl d" "module_q d' = module_q d" "mx_id d' x = mx_id d x" "mx_flag d' x f = mx_flag d x f"
    "mx_module (mx d' x) = mx_module (mx d x)" "phase_map pre (mx d' x) = bm" "length (msg_ex_pool d') = length (msg_ex_pool d)"
    "in_phase pre' d' x = in_phase pre' d x" "phase_map (\<not> pre) (mx d' x) = phase_map (\<not> pre) (mx d x)"
    "d_out d' = d_out d @ evs"
  using assms by (auto simp: fed_def mdl_def fun_eq_iff mx_id_def mx_flag_def in_phase_def split: mdl_ptr.splits)

lemma feed_obedient:
  assumes "obedient env" and x: "x < length (msg_ex_pool d)" and ph: "in_phase pre d x"
  shows "\<exists>d1 r. feed_mdl_msg env p x d = (d1, r) \<and> \<not> STOP_DISPATCH_MSG r \<and>
    fed pre x d (clr_bitmap_bit (phase_map pre (mx d x)) [md_id (mdl d p)]) [Fed p x (mx_id d x)] d1"
proof -
  from assms(1) obtain w r where r: "call_mdl env p x d = ((d_tell (Fed p x (mx_id d x)) d)\<lparr>world := w\<rparr>, r)" "\<not> STOP_DISPATCH_MSG r"
    unfolding obedient_def call_mdl_def by metis
  have m: "mdl ((d_tell (Fed p x (mx_id d x)) d)\<lparr>world := w\<rparr>) p = mdl d p"
    by (simp add: mdl_def d_tell_def split: mdl_ptr.split)
  let ?d = "d\<lparr>msg_ex_pool := (msg_ex_pool d)[x := set_map pre (clr_bitmap_bit (phase_map pre (mx d x)) [md_id (mdl d p)]) (mx d x)],
    world := w, d_out := d_out d @ [Fed p x (mx_id d x)]\<rparr>"
  have "feed_mdl_msg env p x d = (?d, r)"
    using r ph x m
    by (auto simp: feed_mdl_msg_def STOP_DISPATCH_MSG_def d_tell_def upd_mx_def set_map_def phase_map_def in_phase_def mx_id_def)
  then show ?thesis using r(2) by (auto simp: fed_def)
qed

section \<open>One priority\<close>

definition started :: "'w disp \<Rightarrow> ptr \<Rightarrow> bool" where
  "started d a \<longleftrightarrow> TEST_STATUS_FLAG (md_status (mdl_mem d a)) MDL_STARTED"

definition visit :: "'w disp \<Rightarrow> u8w list \<Rightarrow> ptr list \<Rightarrow> ptr list" where
  "visit d bm ps = filter (\<lambda>a. chk_bitmap_bit bm (md_id (mdl_mem d a)) \<and> started d a) ps"

abbreviation ids :: "'w disp \<Rightarrow> ptr list \<Rightarrow> nat list" where
  "ids d ps \<equiv> map (\<lambda>a. md_id (mdl_mem d a)) ps"

lemma mdl_bk [simp]: "mdl d (BkMdl a) = mdl_mem d a"
  by (simp add: mdl_def)

lemma fed_mem: "fed pre x d bm evs d' \<Longrightarrow> mdl_mem d' = mdl_mem d \<and> started d' = started d"
  by (auto simp: fed_def started_def fun_eq_iff)

lemma walk_obedient:
  assumes "obedient env"
  shows "x < length (msg_ex_pool d) \<Longrightarrow> in_phase pre d x \<Longrightarrow> length (phase_map pre (mx d x)) = 16 \<Longrightarrow> distinct (ids d ps) \<Longrightarrow>
    \<exists>d1. feed_walk env pre x ps d = (d1, False) \<and>
      fed pre x d (clr_bitmap_bit (phase_map pre (mx d x)) (ids d (visit d (phase_map pre (mx d x)) ps)))
        (map (\<lambda>a. Fed (BkMdl a) x (mx_id d x)) (visit d (phase_map pre (mx d x)) ps)) d1"
proof (induction ps arbitrary: d)
  case Nil
  then show ?case using fed_refl [of pre x d] by (simp add: visit_def clr_bitmap_bit_def)
next
  case (Cons a ps)
  let ?bm = "phase_map pre (mx d x)"
  let ?i = "md_id (mdl_mem d a)"
  show ?case
  proof (cases "chk_bitmap_bit ?bm ?i \<and> started d a")
    case False
    then have "visit d ?bm (a # ps) = visit d ?bm ps" by (simp add: visit_def)
    then show ?thesis using Cons False by (auto simp: started_def)
  next
    case True
    obtain d1 r where f: "feed_mdl_msg env (BkMdl a) x d = (d1, r)" "\<not> STOP_DISPATCH_MSG r"
      "fed pre x d (clr_bitmap_bit ?bm [?i]) [Fed (BkMdl a) x (mx_id d x)] d1"
      using feed_obedient [OF assms Cons.prems(1,2)] by fastforce
    note k = fed_keeps [OF f(3) Cons.prems(1)] fed_mem [OF f(3)]
    have v: "visit d1 (clr_bitmap_bit ?bm [?i]) ps = visit d ?bm ps"
    proof -
      have "?i \<notin> (\<lambda>a. md_id (mdl_mem d a)) ` set ps" using Cons.prems(4) by simp
      then have "md_id (mdl_mem d b) \<noteq> ?i" if "b \<in> set ps" for b using that by (metis imageI)
      then show ?thesis using Cons.prems(3) k(11) by (auto simp: visit_def chk_clr1 intro!: filter_cong)
    qed
    obtain d2 where d2: "feed_walk env pre x ps d1 = (d2, False)"
      "fed pre x d1 (clr_bitmap_bit (clr_bitmap_bit ?bm [?i]) (ids d (visit d ?bm ps)))
         (map (\<lambda>a. Fed (BkMdl a) x (mx_id d x)) (visit d ?bm ps)) d2"
      using Cons.IH [of d1] Cons.prems k v by auto
    have "visit d ?bm (a # ps) = a # visit d ?bm ps" using True by (simp add: visit_def)
    moreover have "feed_walk env pre x (a # ps) d = (d2, False)" using f(1,2) d2(1) True by (simp add: started_def)
    ultimately show ?thesis
      using fed_trans [OF Cons.prems(1) f(3) d2(2)] by (simp add: clr_Cons [of ?bm ?i "ids d (visit d ?bm ps)"])
  qed
qed

text \<open>The modules of one priority: the sender first, then the queue without it.\<close>

definition own_visit :: "'w disp \<Rightarrow> nat \<Rightarrow> u8w list \<Rightarrow> nat \<Rightarrow> mdl_ptr list" where
  "own_visit d x bm i =
     (case mx_module (mx d x) of None \<Rightarrow> []
      | Some p \<Rightarrow> if owner_priority (owner_of d x) = i \<and> chk_bitmap_bit bm (owner_of d x) then [p] else [])"

definition rest_map :: "'w disp \<Rightarrow> nat \<Rightarrow> u8w list \<Rightarrow> nat \<Rightarrow> u8w list" where
  "rest_map d x bm i = (if own_visit d x bm i = [] then bm else clr_bitmap_bit bm [owner_of d x])"

definition level_visit :: "bool \<Rightarrow> 'w disp \<Rightarrow> nat \<Rightarrow> u8w list \<Rightarrow> nat \<Rightarrow> mdl_ptr list" where
  "level_visit pre d x bm i = own_visit d x bm i @ map BkMdl (visit d (rest_map d x bm i) (level_list pre d i))"

lemma ids_visit: "map (\<lambda>p. md_id (mdl d p)) (map BkMdl ps) = ids d ps"
  by simp

lemma level_obedient:
  assumes "obedient env" and x: "x < length (msg_ex_pool d)" and ph: "in_phase pre d x"
    and l: "length (phase_map pre (mx d x)) = 16" and dist: "distinct (ids d (level_list pre d i))"
  shows "\<exists>d1. feed_level env pre x (owner_of d x) (owner_priority (owner_of d x)) i d = (d1, False) \<and>
    fed pre x d (clr_bitmap_bit (phase_map pre (mx d x)) (map (\<lambda>p. md_id (mdl d p)) (level_visit pre d x (phase_map pre (mx d x)) i)))
      (map (\<lambda>p. Fed p x (mx_id d x)) (level_visit pre d x (phase_map pre (mx d x)) i)) d1"
proof (cases "own_visit d x (phase_map pre (mx d x)) i = []")
  case True
  then have "feed_level env pre x (owner_of d x) (owner_priority (owner_of d x)) i d = feed_walk env pre x (level_list pre d i) d"
    by (auto simp: feed_level_def own_visit_def split: option.splits if_splits)
  then show ?thesis using walk_obedient [OF assms(1) x ph l dist] True by (simp add: level_visit_def rest_map_def comp_def)
next
  case False
  let ?bm = "phase_map pre (mx d x)"
  from False obtain p where p: "mx_module (mx d x) = Some p" "owner_priority (owner_of d x) = i" "chk_bitmap_bit ?bm (owner_of d x)"
    "own_visit d x ?bm i = [p]"
    by (auto simp: own_visit_def split: option.splits if_splits)
  have o: "owner_of d x = md_id (mdl d p)" by (simp add: owner_of_def p(1))
  obtain d1 r where f: "feed_mdl_msg env p x d = (d1, r)" "\<not> STOP_DISPATCH_MSG r"
    "fed pre x d (clr_bitmap_bit ?bm [md_id (mdl d p)]) [Fed p x (mx_id d x)] d1"
    using feed_obedient [OF assms(1) x ph] by blast
  note k = fed_keeps [OF f(3) x] fed_mem [OF f(3)]
  have ll: "level_list pre d1 i = level_list pre d i" by (simp add: level_list_def k(2))
  have vis: "visit d1 = visit d" using k(11) by (simp add: visit_def fun_eq_iff)
  obtain d2 where w: "feed_walk env pre x (level_list pre d i) d1 = (d2, False)"
    "fed pre x d1 (clr_bitmap_bit (clr_bitmap_bit ?bm [md_id (mdl d p)])
        (ids d (visit d (clr_bitmap_bit ?bm [md_id (mdl d p)]) (level_list pre d i))))
      (map (\<lambda>a. Fed (BkMdl a) x (mx_id d x)) (visit d (clr_bitmap_bit ?bm [md_id (mdl d p)]) (level_list pre d i))) d2"
    using walk_obedient [OF assms(1), of x d1 pre "level_list pre d i"] x ph l dist k by (auto simp: vis)
  have "feed_level env pre x (owner_of d x) (owner_priority (owner_of d x)) i d = (d2, False)"
    using p f w by (simp add: feed_level_def ll o)
  then show ?thesis using fed_trans [OF x f(3) w(2)] p(4)
    by (simp add: level_visit_def rest_map_def o comp_def clr_Cons [of ?bm "md_id (mdl d p)" "ids d (visit d (clr_bitmap_bit ?bm [md_id (mdl d p)]) (level_list pre d i))"])
qed

section \<open>All priorities\<close>

text \<open>
  The module queues of a dispatcher: each holds modules of its own priority, no two modules have the same id. A map is served
  when each of its bits belongs to a started module.
\<close>

definition modules_ok :: "'w disp \<Rightarrow> bool" where
  "modules_ok d \<longleftrightarrow>
     (\<forall>i<PHL_MDL_PRI_MAX. pq_wf (module_q d ! i) \<and> distinct (ids d (queue (module_q d ! i))) \<and>
        (\<forall>a\<in>set (queue (module_q d ! i)). get_mdl_priority (md_id (mdl_mem d a)) = i))"

definition map_served :: "'w disp \<Rightarrow> u8w list \<Rightarrow> bool" where
  "map_served d bm \<longleftrightarrow> length bm = 16 \<and>
     (\<forall>i. chk_bitmap_bit bm i \<longrightarrow>
        get_mdl_priority i < PHL_MDL_PRI_MAX \<and>
        (\<exists>a\<in>set (queue (module_q d ! get_mdl_priority i)). md_id (mdl_mem d a) = i \<and> started d a))"

lemma level_list_wf: "pq_wf (module_q d ! i) \<Longrightarrow> level_list pre d i = (if pre then queue (module_q d ! i) else rev (queue (module_q d ! i)))"
  by (auto simp: level_list_def pq_get_front_def pq_get_tail_def pq_wf_def Let_def)

lemma level_facts:
  assumes "modules_ok d" and "i < PHL_MDL_PRI_MAX"
  shows "set (level_list pre d i) = set (queue (module_q d ! i))" "distinct (ids d (level_list pre d i))"
    "a \<in> set (level_list pre d i) \<Longrightarrow> get_mdl_priority (md_id (mdl_mem d a)) = i"
  using assms by (auto simp: modules_ok_def level_list_wf rev_map [symmetric] split: if_splits)

lemma owner_pri: "owner_priority m = i \<Longrightarrow> i < PHL_MDL_PRI_MAX \<Longrightarrow> get_mdl_priority m = i"
  by (auto simp: owner_priority_def split: if_splits)

lemma visit_cong: "(\<And>a. a \<in> set ps \<Longrightarrow> chk_bitmap_bit bm (md_id (mdl_mem d a)) = chk_bitmap_bit bm' (md_id (mdl_mem d a))) \<Longrightarrow>
    visit d bm ps = visit d bm' ps"
  by (auto simp: visit_def intro!: filter_cong)

lemma level_visit_cong:
  assumes "modules_ok d" and j: "j < PHL_MDL_PRI_MAX" and l: "length bm = 16" "length bm' = 16"
    and eq: "\<And>i. get_mdl_priority i = j \<Longrightarrow> chk_bitmap_bit bm i = chk_bitmap_bit bm' i"
  shows "level_visit pre d x bm j = level_visit pre d x bm' j"
proof -
  have own: "own_visit d x bm j = own_visit d x bm' j"
    using eq owner_pri [OF _ j, of "owner_of d x"] by (auto simp: own_visit_def split: option.splits)
  have "chk_bitmap_bit (rest_map d x bm j) i = chk_bitmap_bit (rest_map d x bm' j) i" if "get_mdl_priority i = j" for i
    using eq [OF that] own l by (simp add: rest_map_def chk_clr1)
  then have "visit d (rest_map d x bm j) (level_list pre d j) = visit d (rest_map d x bm' j) (level_list pre d j)"
    using level_facts(3) [OF assms(1) j] by (intro visit_cong) auto
  then show ?thesis by (simp add: level_visit_def own)
qed

lemma level_visit_ids:
  assumes "modules_ok d" and "i < PHL_MDL_PRI_MAX" and "p \<in> set (level_visit pre d x bm i)"
  shows "get_mdl_priority (md_id (mdl d p)) = i"
  using assms(3) level_facts(3) [OF assms(1,2)] owner_pri [OF _ assms(2), of "owner_of d x"]
  by (auto simp: level_visit_def own_visit_def visit_def owner_of_def split: option.splits if_splits)

lemma clr_append: "clr_bitmap_bit bm (xs @ ys) = clr_bitmap_bit (clr_bitmap_bit bm xs) ys"
  by (simp add: clr_bitmap_bit_def)

definition visits :: "bool \<Rightarrow> 'w disp \<Rightarrow> nat \<Rightarrow> u8w list \<Rightarrow> nat list \<Rightarrow> mdl_ptr list" where
  "visits pre d x bm ls = concat (map (level_visit pre d x bm) ls)"

lemma level_visit_fed:
  assumes "fed pre x d bm evs d1" and "x < length (msg_ex_pool d)"
  shows "level_visit pre d1 x = level_visit pre d x" "owner_of d1 x = owner_of d x" "modules_ok d1 = modules_ok d" "ids d1 = ids d"
proof -
  note k = fed_keeps [OF assms] fed_mem [OF assms(1)]
  show o: "owner_of d1 x = owner_of d x" and "modules_ok d1 = modules_ok d" and "ids d1 = ids d"
    using k(1,2,5,11) by (simp_all add: owner_of_def modules_ok_def split: option.split)
  have "own_visit d1 x = own_visit d x" using k(5) o by (intro ext) (simp add: own_visit_def split: option.split)
  moreover from this have "rest_map d1 x = rest_map d x" using o by (intro ext) (simp add: rest_map_def)
  moreover have "visit d1 = visit d" "level_list pre d1 = level_list pre d"
    using k(2,11) by (simp_all add: visit_def [abs_def] level_list_def [abs_def])
  ultimately show "level_visit pre d1 x = level_visit pre d x" by (simp add: level_visit_def [abs_def])
qed

lemma levels_obedient:
  assumes "obedient env"
  shows "x < length (msg_ex_pool d) \<Longrightarrow> in_phase pre d x \<Longrightarrow> length (phase_map pre (mx d x)) = 16 \<Longrightarrow> modules_ok d \<Longrightarrow>
    distinct ls \<Longrightarrow> set ls \<subseteq> {..<PHL_MDL_PRI_MAX} \<Longrightarrow>
    fed pre x d (clr_bitmap_bit (phase_map pre (mx d x)) (map (\<lambda>p. md_id (mdl d p)) (visits pre d x (phase_map pre (mx d x)) ls)))
      (map (\<lambda>p. Fed p x (mx_id d x)) (visits pre d x (phase_map pre (mx d x)) ls))
      (feed_levels env pre x (owner_of d x) (owner_priority (owner_of d x)) ls d)"
proof (induction ls arbitrary: d)
  case Nil
  then show ?case using fed_refl [of pre x d] by (simp add: visits_def clr_bitmap_bit_def)
next
  case (Cons i ls)
  let ?bm = "phase_map pre (mx d x)"
  let ?vs = "level_visit pre d x ?bm i"
  let ?bm1 = "clr_bitmap_bit ?bm (map (\<lambda>p. md_id (mdl d p)) ?vs)"
  have i: "i < PHL_MDL_PRI_MAX" using Cons.prems(6) by simp
  obtain d1 where f: "feed_level env pre x (owner_of d x) (owner_priority (owner_of d x)) i d = (d1, False)"
    "fed pre x d ?bm1 (map (\<lambda>p. Fed p x (mx_id d x)) ?vs) d1"
    using level_obedient [OF assms Cons.prems(1-3) level_facts(2) [OF Cons.prems(4) i]] by blast
  note k = fed_keeps [OF f(2) Cons.prems(1)] and v = level_visit_fed [OF f(2) Cons.prems(1)]
  have same: "level_visit pre d x ?bm1 j = level_visit pre d x ?bm j" if "j \<in> set ls" for j
  proof (rule level_visit_cong [OF Cons.prems(4)])
    show "j < PHL_MDL_PRI_MAX" using that Cons.prems(6) by auto
    show "chk_bitmap_bit ?bm1 m = chk_bitmap_bit ?bm m" if "get_mdl_priority m = j" for m
      using level_visit_ids [OF Cons.prems(4) i, of _ pre x ?bm] that \<open>j \<in> set ls\<close> Cons.prems(3,5) by (auto simp: chk_clr)
  qed (use Cons.prems(3) in simp_all)
  then have vs: "visits pre d x ?bm1 ls = visits pre d x ?bm ls" by (simp add: visits_def cong: map_cong)
  have "fed pre x d1 (clr_bitmap_bit ?bm1 (map (\<lambda>p. md_id (mdl d p)) (visits pre d x ?bm ls)))
      (map (\<lambda>p. Fed p x (mx_id d x)) (visits pre d x ?bm ls))
      (feed_levels env pre x (owner_of d x) (owner_priority (owner_of d x)) ls d1)"
    using Cons.IH [of d1] Cons.prems k v vs by (simp add: visits_def)
  from fed_trans [OF Cons.prems(1) f(2) this] show ?case
    by (simp add: f(1) visits_def clr_append)
qed

text \<open>A served map is empty after all priorities were visited.\<close>

lemma visits_all:
  assumes "modules_ok d" and "map_served d bm" and "set ls = {..<PHL_MDL_PRI_MAX}"
  shows "is_bitmap_empty (clr_bitmap_bit bm (map (\<lambda>p. md_id (mdl d p)) (visits pre d x bm ls)))"
proof -
  have "m \<in> (\<lambda>p. md_id (mdl d p)) ` set (visits pre d x bm ls)" if chk: "chk_bitmap_bit bm m" for m
  proof -
    let ?i = "get_mdl_priority m"
    obtain a where a: "?i < PHL_MDL_PRI_MAX" "a \<in> set (queue (module_q d ! ?i))" "md_id (mdl_mem d a) = m" "started d a"
      using assms(2) chk by (auto simp: map_served_def)
    have "m \<in> (\<lambda>p. md_id (mdl d p)) ` set (level_visit pre d x bm ?i)"
    proof (cases "own_visit d x bm ?i \<noteq> [] \<and> m = owner_of d x")
      case True
      then show ?thesis by (auto simp: level_visit_def own_visit_def owner_of_def split: option.splits if_splits)
    next
      case False
      have "length bm = 16" using assms(2) by (simp add: map_served_def)
      then have "chk_bitmap_bit (rest_map d x bm ?i) m" using False chk by (auto simp: rest_map_def chk_clr1)
      then have "BkMdl a \<in> set (level_visit pre d x bm ?i)"
        using a level_facts(1) [OF assms(1) a(1), of pre] by (simp add: level_visit_def visit_def)
      then show ?thesis using a(3) by force
    qed
    then show ?thesis using a(1) assms(3) by (auto simp: visits_def)
  qed
  then show ?thesis using assms(2) by (auto simp: map_is_empty chk_clr map_served_def)
qed

lemma phase_obedient:
  assumes "obedient env" and x: "x < length (msg_ex_pool d)" and "in_phase pre d x" and ok: "modules_ok d"
    and served: "map_served d (phase_map pre (mx d x))" and ls: "distinct ls" "set ls = {..<PHL_MDL_PRI_MAX}"
    and d': "d' = (if map_empty pre x d then d else feed_levels env pre x (owner_of d x) (owner_priority (owner_of d x)) ls d)"
  shows "\<exists>bm. fed pre x d bm (map (\<lambda>p. Fed p x (mx_id d x)) (visits pre d x (phase_map pre (mx d x)) ls)) d' \<and> is_bitmap_empty bm"
proof (cases "map_empty pre x d")
  case True
  let ?bm = "phase_map pre (mx d x)"
  have l: "length ?bm = 16" using served by (simp add: map_served_def)
  then have none: "\<not> chk_bitmap_bit ?bm i" for i using True by (simp add: map_empty_def map_is_empty)
  then have "own_visit d x ?bm i = []" for i by (simp add: own_visit_def split: option.split)
  then have "level_visit pre d x ?bm i = []" for i using none by (simp add: level_visit_def rest_map_def visit_def)
  then have "visits pre d x ?bm ls = []" by (simp add: visits_def)
  then show ?thesis using fed_refl [of pre x d] True d' by (auto simp: map_empty_def)
next
  case False
  have l: "length (phase_map pre (mx d x)) = 16" using served by (simp add: map_served_def)
  show ?thesis
    using levels_obedient [OF assms(1) x assms(3) l ok ls(1)] ls(2) False visits_all [OF ok served ls(2), of pre x] d' by auto
qed

section \<open>The whole dispatch\<close>

lemma indc_bits:
  "MSG_INDC_FIELD (SET_MSG_INDC_FIELD i MSG_INDC_PRE_PHASE) AND MSG_INDC_PRE_PHASE \<noteq> 0"
  "MSG_INDC_FIELD (CLEAR_MSG_INDC_FIELD i MSG_INDC_PRE_PHASE) AND MSG_INDC_PRE_PHASE = 0"
proof -
  have m: "MSG_INDC_FIELD j AND MSG_INDC_PRE_PHASE = (if bit j 24 then 1 else 0)" for j
  proof (rule bit_word_eqI)
    fix n
    assume "n < LENGTH(32)"
    show "bit (MSG_INDC_FIELD j AND MSG_INDC_PRE_PHASE) n = bit (if bit j 24 then 1 else 0 :: u32) n"
      by (cases n) (auto simp: MSG_INDC_FIELD_def MSG_INDC_PRE_PHASE_def bit_simps)
  qed
  show "MSG_INDC_FIELD (SET_MSG_INDC_FIELD i MSG_INDC_PRE_PHASE) AND MSG_INDC_PRE_PHASE \<noteq> 0"
    "MSG_INDC_FIELD (CLEAR_MSG_INDC_FIELD i MSG_INDC_PRE_PHASE) AND MSG_INDC_PRE_PHASE = 0"
    unfolding m by (simp_all add: SET_MSG_INDC_FIELD_def CLEAR_MSG_INDC_FIELD_def MSG_INDC_PRE_PHASE_def bit_simps)
qed

definition cur_event :: "'w disp \<Rightarrow> nat \<Rightarrow> u32 \<Rightarrow> dispr_ev list" where
  "cur_event d x i =
     (case cur_cmd_req d of None \<Rightarrow> []
      | Some r \<Rightarrow> if rx_flag d r REQ_STATUS_RUN \<and> \<not> rx_flag d r REQ_STATUS_CANCEL \<and> \<not> mx_flag d x MSG_STATUS_FOR_ABORT
          then [ReqFed r x i] else [])"

definition completion_event :: "'w disp \<Rightarrow> nat \<Rightarrow> u32 \<Rightarrow> dispr_ev list" where
  "completion_event d x i =
     (let c = cr_completion (mx_completion (mx d x)) in
      if mx_flag d x MSG_STATUS_NOTIFY_COMPLETE \<and> c \<noteq> None then [Completed c x i] else [])"

text \<open>What the rest of the dispatch looks at is not changed by the modules.\<close>

definition same_rest :: "nat \<Rightarrow> 'w disp \<Rightarrow> 'w disp \<Rightarrow> bool" where
  "same_rest x d d' \<longleftrightarrow>
     cur_cmd_req d' = cur_cmd_req d \<and> token_req_ex_pool d' = token_req_ex_pool d \<and> msg_idle_q d' = msg_idle_q d \<and>
     d_status d' = d_status d \<and> length (msg_ex_pool d') = length (msg_ex_pool d) \<and> module_q d' = module_q d \<and> mdl d' = mdl d \<and>
     mx_module (mx d' x) = mx_module (mx d x) \<and> mx_completion (mx d' x) = mx_completion (mx d x) \<and>
     (\<forall>f. f AND MSG_STATUS_PRE_PHASE = 0 \<longrightarrow> mx_flag d' x f = mx_flag d x f)"

lemma disp_rest_trans: "same_rest x d d1 \<Longrightarrow> same_rest x d1 d2 \<Longrightarrow> same_rest x d d2"
  by (simp add: same_rest_def)

lemma fed_same_rest:
  assumes "fed pre x d bm evs d'" and "x < length (msg_ex_pool d)"
  shows "same_rest x d d'"
proof -
  have "cur_cmd_req d' = cur_cmd_req d" "token_req_ex_pool d' = token_req_ex_pool d" "msg_idle_q d' = msg_idle_q d"
    "d_status d' = d_status d" "mx_completion (mx d' x) = mx_completion (mx d x)"
    using assms by (auto simp: fed_def)
  then show ?thesis using fed_keeps [OF assms] by (simp add: same_rest_def)
qed

lemma mdl_set_id [simp]: "mdl (mx_set_id x g d) = mdl d" "mdl (mx_clr x f d) = mdl d"
  by (auto simp: mdl_def fun_eq_iff split: mdl_ptr.split)

lemma same_rest_id: "x < length (msg_ex_pool d) \<Longrightarrow> same_rest x d (mx_set_id x g d)"
  by (simp add: same_rest_def) (simp add: mx_set_id_def upd_mx_def mx_flag_def)

lemma same_rest_clr: "x < length (msg_ex_pool d) \<Longrightarrow> same_rest x d (mx_clr x MSG_STATUS_PRE_PHASE d)"
  by (simp add: same_rest_def) (simp add: mx_clr_def upd_mx_def mx_flag_def flag_simps and.commute)

lemma same_rest_modules:
  assumes "same_rest x d d'"
  shows "modules_ok d' = modules_ok d" "map_served d' = map_served d" "visits pre d' x = visits pre d x"
proof -
  have m: "mdl_mem d' = mdl_mem d" using assms by (auto simp: same_rest_def mdl_def fun_eq_iff split: mdl_ptr.splits dest: spec [of _ "BkMdl _"])
  then have s: "started d' = started d" by (simp add: started_def [abs_def])
  show "modules_ok d' = modules_ok d" "map_served d' = map_served d"
    using assms m s by (simp_all add: same_rest_def modules_ok_def map_served_def [abs_def])
  have o: "owner_of d' x = owner_of d x" using assms by (auto simp: same_rest_def owner_of_def split: option.split)
  then have "own_visit d' x = own_visit d x" using assms by (intro ext) (simp add: same_rest_def own_visit_def split: option.split)
  moreover from this have "rest_map d' x = rest_map d x" using o by (intro ext) (simp add: rest_map_def)
  moreover have "visit d' = visit d" "level_list pre d' = level_list pre d"
    using m s assms by (simp_all add: same_rest_def visit_def [abs_def] level_list_def [abs_def])
  ultimately show "visits pre d' x = visits pre d x" by (simp add: visits_def [abs_def] level_visit_def [abs_def])
qed

lemma controller_obedient:
  assumes "obedient env" and x: "x < length (msg_ex_pool d)" and "in_phase True d x" and id: "md_id (controller d) = PHL_MDL_PHY_MGNT"
    and served: "map_served d (premap (mx d x))" and ok: "modules_ok d" and ls: "set ls = {..<PHL_MDL_PRI_MAX}"
    and d': "d' = notify_dispr_controller env x d"
  shows "\<exists>bm. fed True x d bm (if d_flag d DISPR_CTRL_PRESENT then [Fed CtrlMdl x (mx_id d x)] else []) d' \<and>
    map_served d bm \<and> visits True d x bm ls = visits True d x (premap (mx d x)) ls"
proof (cases "d_flag d DISPR_CTRL_PRESENT")
  case False
  then show ?thesis using fed_refl [of True x d] served d' by (auto simp: notify_dispr_controller_def phase_map_def)
next
  case True
  let ?bm = "premap (mx d x)"
  let ?bm1 = "clr_bitmap_bit ?bm [PHL_MDL_PHY_MGNT]"
  have l: "length ?bm = 16" using served by (simp add: map_served_def)
  have "get_mdl_priority PHL_MDL_PHY_MGNT = PHL_MDL_PRI_MAX"
    by (simp add: get_mdl_priority_def PHL_MDL_PHY_MGNT_def PHL_BK_MDL_ROLE_START_def)
  then have "\<not> chk_bitmap_bit ?bm PHL_MDL_PHY_MGNT" using served by (auto simp: map_served_def)
  then have chk: "chk_bitmap_bit ?bm1 i = chk_bitmap_bit ?bm i" for i using l by (auto simp: chk_clr1)
  obtain d1 r where "feed_mdl_msg env CtrlMdl x d = (d1, r)" "fed True x d ?bm1 [Fed CtrlMdl x (mx_id d x)] d1"
    using feed_obedient [OF assms(1) x assms(3), of CtrlMdl] id by (auto simp: mdl_def phase_map_def)
  moreover have "map_served d ?bm1" using served chk by (simp add: map_served_def)
  moreover have "level_visit True d x ?bm1 j = level_visit True d x ?bm j" if "j \<in> set ls" for j
    using level_visit_cong [OF ok, of j ?bm1 ?bm] that ls l chk by auto
  then have "visits True d x ?bm1 ls = visits True d x ?bm ls" by (simp add: visits_def cong: map_cong)
  ultimately show ?thesis using True d' by (auto simp: notify_dispr_controller_def)
qed

lemma cur_detached:
  assumes "detached env"
  shows "\<exists>w. cur_req_hdl env x d = d\<lparr>d_out := d_out d @ cur_event d x (mx_id d x), world := w\<rparr>"
proof -
  have "\<exists>w. fst (cb_msg_hdlr env f p x (d_tell e d)) = d\<lparr>d_out := d_out d @ [e], world := w\<rparr>" for f p e
  proof -
    obtain w r where "cb_msg_hdlr env f p x (d_tell e d) = ((d_tell e d)\<lparr>world := w\<rparr>, r)"
      using assms unfolding detached_def by metis
    then show ?thesis by (auto simp: d_tell_def)
  qed
  note run = this
  show ?thesis
  proof (cases "cur_event d x (mx_id d x) = []")
    case True
    then have "cur_req_hdl env x d = d" by (auto simp: cur_req_hdl_def cur_event_def split: option.splits if_splits)
    then show ?thesis using True by (intro exI [of _ "world d"]) simp
  next
    case False
    then obtain r where r: "cur_cmd_req d = Some r" "cur_event d x (mx_id d x) = [ReqFed r x (mx_id d x)]"
      "cur_req_hdl env x d = fst (cb_msg_hdlr env (rq_msg_hdlr (rx_req (rx d r))) (rq_priv (rx_req (rx d r))) x
         (d_tell (ReqFed r x (mx_id d x)) d))"
      by (auto simp: cur_event_def cur_req_hdl_def split: option.splits if_splits)
    show ?thesis unfolding r(2,3) by (rule run)
  qed
qed

text \<open>A message that is not cancelled is completed with the message id it has.\<close>

lemma idle_detached:
  assumes "detached env" and x: "x < length (msg_ex_pool d)" and "\<not> mx_flag d x MSG_STATUS_CANCEL" "\<not> mx_flag d x MSG_STATUS_FOR_ABORT"
  shows "d_out (push_back_idle_msg env x d) = d_out d @ completion_event d x (mx_id d x) \<and>
    queue (msg_idle_q (push_back_idle_msg env x d)) = queue (msg_idle_q d) @ [x]"
proof -
  obtain w where c: "complete_msg env x d = (if completion_event d x (mx_id d x) = [] then d
      else mx_clr x MSG_STATUS_NOTIFY_COMPLETE (d\<lparr>d_out := d_out d @ completion_event d x (mx_id d x), world := w\<rparr>))"
  proof -
    let ?c = "mx_completion (mx d x)"
    obtain w where "cb_completion env (cr_completion ?c) (cr_priv ?c) x (d_tell (Completed (cr_completion ?c) x (mx_id d x)) d) =
        (d_tell (Completed (cr_completion ?c) x (mx_id d x)) d)\<lparr>world := w\<rparr>"
      using assms(1) unfolding detached_def by metis
    then show ?thesis using assms(3) by (intro that [of w]) (auto simp: complete_msg_def completion_event_def Let_def d_tell_def)
  qed
  have f: "\<not> mx_flag (complete_msg env x d) x MSG_STATUS_FOR_ABORT"
    using assms(4) x unfolding c
    by (auto simp: mx_flag_def mx_clr_def upd_mx_def flag_simps MSG_STATUS_FOR_ABORT_def MSG_STATUS_NOTIFY_COMPLETE_def)
  have "d_out (complete_msg env x d) = d_out d @ completion_event d x (mx_id d x)" "msg_idle_q (complete_msg env x d) = msg_idle_q d"
    unfolding c by simp_all
  then show ?thesis using f by (simp add: push_back_idle_msg_def Let_def queue_push)
qed

lemma msg_flags_disjoint:
  "MSG_STATUS_FAIL AND MSG_STATUS_PRE_PHASE = 0" "MSG_STATUS_CANCEL AND MSG_STATUS_PRE_PHASE = 0"
  "MSG_STATUS_PENDING AND MSG_STATUS_PRE_PHASE = 0" "MSG_STATUS_FOR_ABORT AND MSG_STATUS_PRE_PHASE = 0"
  "MSG_STATUS_NOTIFY_COMPLETE AND MSG_STATUS_PRE_PHASE = 0"
  by (simp_all add: MSG_STATUS_FAIL_def MSG_STATUS_CANCEL_def MSG_STATUS_PENDING_def MSG_STATUS_FOR_ABORT_def
      MSG_STATUS_NOTIFY_COMPLETE_def MSG_STATUS_PRE_PHASE_def)

lemma redirect_go:
  "\<not> mx_flag d x MSG_STATUS_FAIL \<Longrightarrow> \<not> mx_flag d x MSG_STATUS_CANCEL \<Longrightarrow> \<not> mx_flag d x MSG_STATUS_PENDING \<Longrightarrow>
     MSG_REDIRECT_CHK env x d rest = rest d"
  by (simp add: MSG_REDIRECT_CHK_def)

lemma mx_id_set: "x < length (msg_ex_pool d) \<Longrightarrow> mx_id (mx_set_id x g d) x = g (mx_id d x)"
  "mx_id (mx_clr x f d) x = mx_id d x"
  by (simp_all add: mx_id_def mx_set_id_def mx_clr_def upd_mx_def upd_nth)

lemma map_set: "phase_map pre (mx (mx_set_id x g d) x) = phase_map pre (mx d x)" "phase_map pre (mx (mx_clr x f d) x) = phase_map pre (mx d x)"
  "premap (mx (mx_set_id x g d) x) = premap (mx d x)" "postmap (mx (mx_set_id x g d) x) = postmap (mx d x)"
  "postmap (mx (mx_clr x f d) x) = postmap (mx d x)"
  by (simp_all add: phase_map_def mx_set_id_def mx_clr_def upd_mx_def upd_nth)

text \<open>A message that waits for its pre phase, and the order of the priorities in the two phases.\<close>

definition fresh_msg :: "'w disp \<Rightarrow> nat \<Rightarrow> bool" where
  "fresh_msg d x \<longleftrightarrow> x < length (msg_ex_pool d) \<and> mx_flag d x MSG_STATUS_PRE_PHASE \<and> \<not> mx_flag d x MSG_STATUS_FAIL \<and>
     \<not> mx_flag d x MSG_STATUS_CANCEL \<and> \<not> mx_flag d x MSG_STATUS_PENDING"

definition pre_order :: "nat list" where
  "pre_order = [PHL_MDL_PRI_MANDATORY, PHL_MDL_PRI_OPTIONAL, PHL_MDL_PRI_ROLE]"

lemma orders: "distinct pre_order" "set pre_order = {..<PHL_MDL_PRI_MAX}" "distinct (rev pre_order)" "set (rev pre_order) = {..<PHL_MDL_PRI_MAX}"
  by (auto simp: pre_order_def PHL_MDL_PRI_MANDATORY_def PHL_MDL_PRI_OPTIONAL_def PHL_MDL_PRI_ROLE_def PHL_MDL_PRI_MAX_def lessThan_Suc
      numeral_eq_Suc)

text \<open>The pre phase of a dispatch, with the controller first.\<close>

lemma pre_part:
  assumes env: "obedient env" and ok: "modules_ok d" and x: "x < length (msg_ex_pool d)" and ph: "in_phase True d x"
    and served: "map_served d (premap (mx d x))" and ctl: "md_id (controller d) = PHL_MDL_PHY_MGNT"
    and d3: "d3 = notify_dispr_controller env x d"
    and d4: "d4 = (if MSG_INDC_FIELD (mx_id d3 x) AND MSG_INDC_PRE_PHASE \<noteq> 0 \<and> \<not> map_empty True x d3 then msg_pre_phase_hdl env x d3 else d3)"
  shows "same_rest x d d3 \<and> (\<forall>f. mx_flag d3 x f = mx_flag d x f) \<and> (\<forall>f. mx_flag d4 x f = mx_flag d x f) \<and>
    (\<exists>bm. fed True x d bm ((if d_flag d DISPR_CTRL_PRESENT then [Fed CtrlMdl x (mx_id d x)] else []) @
      map (\<lambda>p. Fed p x (mx_id d x)) (visits True d x (premap (mx d x)) pre_order)) d4 \<and> is_bitmap_empty bm)"
proof -
  obtain bm where f3: "fed True x d bm (if d_flag d DISPR_CTRL_PRESENT then [Fed CtrlMdl x (mx_id d x)] else []) d3"
    and bm: "map_served d bm" "visits True d x bm pre_order = visits True d x (premap (mx d x)) pre_order"
    using controller_obedient [OF env x ph ctl served ok orders(2) d3] by blast
  note k = fed_keeps [OF f3 x] and r = fed_same_rest [OF f3 x]
  note m = same_rest_modules [OF r]
  have d4': "d4 = (if map_empty True x d3 then d3 else feed_levels env True x (owner_of d3 x) (owner_priority (owner_of d3 x)) pre_order d3)"
    using d4 ph k(3) by (simp add: in_phase_def msg_pre_phase_hdl_def pre_order_def)
  obtain bm' where f4: "fed True x d3 bm' (map (\<lambda>p. Fed p x (mx_id d x)) (visits True d x bm pre_order)) d4" "is_bitmap_empty bm'"
    using phase_obedient [OF env _ _ _ _ orders(1,2) d4'] x ph ok bm(1) k m by auto
  have x3: "x < length (msg_ex_pool d3)" using x k(7) by simp
  show ?thesis
    using fed_trans [OF x f3 f4(1)] f4(2) r k(4) fed_keeps(4) [OF f3 x] fed_keeps(4) [OF f4(1) x3] bm(2) by auto
qed

text \<open>The post phase, then the current request and the completion.\<close>

lemma post_part:
  assumes env: "obedient env" and ok: "modules_ok d" and x: "x < length (msg_ex_pool d)" and ph: "in_phase False d x"
    and served: "map_served d (postmap (mx d x))"
    and fl: "\<not> mx_flag d x MSG_STATUS_FAIL" "\<not> mx_flag d x MSG_STATUS_CANCEL" "\<not> mx_flag d x MSG_STATUS_PENDING"
      "\<not> mx_flag d x MSG_STATUS_FOR_ABORT"
  shows "d_out (msg_post_dispatch env x False d) = d_out d @
      map (\<lambda>p. Fed p x (mx_id d x)) (visits False d x (postmap (mx d x)) (rev pre_order)) @
      cur_event d x (mx_id d x) @ completion_event d x (mx_id d x) \<and>
    queue (msg_idle_q (msg_post_dispatch env x False d)) = queue (msg_idle_q d) @ [x]"
proof -
  define d5 where "d5 = (if \<not> map_empty False x d then msg_post_phase_hdl env x d else d)"
  have d5': "d5 = (if map_empty False x d then d else feed_levels env False x (owner_of d x) (owner_priority (owner_of d x)) (rev pre_order) d)"
    by (simp add: d5_def msg_post_phase_hdl_def pre_order_def)
  obtain bm where f: "fed False x d bm (map (\<lambda>p. Fed p x (mx_id d x)) (visits False d x (postmap (mx d x)) (rev pre_order))) d5"
    "is_bitmap_empty bm"
    using phase_obedient [OF env x ph ok _ orders(3,4) d5'] served by (auto simp: phase_map_def)
  note k = fed_keeps [OF f(1) x] and r = fed_same_rest [OF f(1) x]
  obtain w where w: "cur_req_hdl env x d5 = d5\<lparr>d_out := d_out d5 @ cur_event d5 x (mx_id d5 x), world := w\<rparr>"
    using cur_detached [OF obedient_detached [OF env]] by blast
  have post: "msg_post_dispatch env x False d = push_back_idle_msg env x (cur_req_hdl env x d5)"
    unfolding msg_post_dispatch_def d5_def [symmetric] using fl k(4) f(2) k(6) by (simp add: redirect_go map_empty_def)
  have ev: "cur_event d5 x = cur_event d x" "completion_event d5 x = completion_event d x"
    using r k(4) by (auto simp: fun_eq_iff same_rest_def cur_event_def completion_event_def rx_flag_def split: option.split)
  have c: "completion_event (d5\<lparr>d_out := es, world := w\<rparr>) x = completion_event d5 x" for es
    by (simp add: fun_eq_iff completion_event_def mx_flag_def)
  show ?thesis
    using idle_detached [OF obedient_detached [OF env], of x "cur_req_hdl env x d5"] x fl k r
    unfolding post w by (simp add: ev c mx_flag_def mx_id_def same_rest_def)
qed

lemma dispatch_shape:
  assumes env: "obedient env" and ok: "modules_ok d" and x: "fresh_msg d x"
    and served: "map_served d (premap (mx d x))" and ctl: "md_id (controller d) = PHL_MDL_PHY_MGNT"
  shows "\<exists>d4 bm. msg_dispatch env x d = msg_post_dispatch env x False
      (mx_set_id x (\<lambda>i. CLEAR_MSG_INDC_FIELD i MSG_INDC_PRE_PHASE) (mx_clr x MSG_STATUS_PRE_PHASE d4)) \<and>
    fed True x (mx_indc x MSG_INDC_PRE_PHASE d) bm
      ((if d_flag d DISPR_CTRL_PRESENT then [Fed CtrlMdl x (SET_MSG_INDC_FIELD (mx_id d x) MSG_INDC_PRE_PHASE)] else []) @
       map (\<lambda>p. Fed p x (SET_MSG_INDC_FIELD (mx_id d x) MSG_INDC_PRE_PHASE)) (visits True d x (premap (mx d x)) pre_order)) d4"
proof -
  define d1 where "d1 = mx_indc x MSG_INDC_PRE_PHASE d"
  define d3 where "d3 = notify_dispr_controller env x d1"
  define d4 where
    "d4 = (if MSG_INDC_FIELD (mx_id d3 x) AND MSG_INDC_PRE_PHASE \<noteq> 0 \<and> \<not> map_empty True x d3 then msg_pre_phase_hdl env x d3 else d3)"
  have xl: "x < length (msg_ex_pool d)" using x by (simp add: fresh_msg_def)
  have r1: "same_rest x d d1" unfolding d1_def mx_indc_def by (rule same_rest_id [OF xl])
  have x1: "x < length (msg_ex_pool d1)" using r1 xl by (simp add: same_rest_def)
  have i1: "mx_id d1 x = SET_MSG_INDC_FIELD (mx_id d x) MSG_INDC_PRE_PHASE" "premap (mx d1 x) = premap (mx d x)"
    "mx_flag d1 x = mx_flag d x" "controller d1 = controller d"
    using xl by (simp_all add: d1_def mx_indc_def mx_id_set map_set)
      (simp_all add: mx_set_id_def upd_mx_def mx_flag_def [abs_def] upd_nth)
  have ph: "in_phase True d1 x" by (simp add: in_phase_def i1 indc_bits)
  have cp: "d_flag d1 = d_flag d" using r1 by (simp add: same_rest_def d_flag_def [abs_def])
  note m = same_rest_modules [OF r1]
  obtain bm where f: "\<forall>f. mx_flag d3 x f = mx_flag d x f" "\<forall>f. mx_flag d4 x f = mx_flag d x f" "is_bitmap_empty bm"
    "fed True x d1 bm ((if d_flag d1 DISPR_CTRL_PRESENT then [Fed CtrlMdl x (mx_id d1 x)] else []) @
       map (\<lambda>p. Fed p x (mx_id d1 x)) (visits True d1 x (premap (mx d1 x)) pre_order)) d4"
    using pre_part [OF env _ x1 ph _ _ d3_def d4_def] ok served ctl i1 m by auto
  have e: "map_empty True x d4" using f(3) fed_keeps(6) [OF f(4) x1] by (simp add: map_empty_def)
  have x4: "x < length (msg_ex_pool d4)" using fed_keeps(7) [OF f(4) x1] x1 by simp
  have "msg_dispatch env x d = (case get_msg_bitmap x (mx_clr x MSG_STATUS_PRE_PHASE d4) of (d5, post) \<Rightarrow> msg_post_dispatch env x post d5)"
  proof -
    have g: "get_msg_bitmap x d = (d1, True)" using x by (simp add: get_msg_bitmap_def fresh_msg_def d1_def)
    show ?thesis
      unfolding msg_dispatch_def g using x f(1,2) e i1(3)
      by (simp add: fresh_msg_def redirect_go d3_def [symmetric] d4_def [symmetric])
  qed
  also have "get_msg_bitmap x (mx_clr x MSG_STATUS_PRE_PHASE d4) =
      (mx_set_id x (\<lambda>i. CLEAR_MSG_INDC_FIELD i MSG_INDC_PRE_PHASE) (mx_clr x MSG_STATUS_PRE_PHASE d4), False)"
    using x4 by (simp add: get_msg_bitmap_def mx_flag_def mx_clr_def upd_mx_def flag_simps MSG_STATUS_PRE_PHASE_def)
  finally show ?thesis using f(4) unfolding i1 cp m(3) unfolding d1_def
    by (intro exI [of _ d4] exI [of _ bm] conjI) simp_all
qed

text \<open>
  C12: A message dispatched with handlers that accept it goes, in this order, to the controller of the dispatcher, to each started
  module of its map (mandatory modules, then optional, then role modules, the sender first in its class), back to all of them in the
  opposite order of the classes without the indication of the pre phase, to the request that holds the token, to its completion
  routine, and then to the idle queue.
\<close>

theorem dispatch_order:
  assumes "obedient env" and "modules_ok d" and "fresh_msg d x" and "\<not> mx_flag d x MSG_STATUS_FOR_ABORT"
    and "map_served d (premap (mx d x))" and "map_served d (postmap (mx d x))" and "md_id (controller d) = PHL_MDL_PHY_MGNT"
  shows "let i1 = SET_MSG_INDC_FIELD (mx_id d x) MSG_INDC_PRE_PHASE; i2 = CLEAR_MSG_INDC_FIELD i1 MSG_INDC_PRE_PHASE;
      d' = msg_dispatch env x d in
    d_out d' = d_out d @ (if d_flag d DISPR_CTRL_PRESENT then [Fed CtrlMdl x i1] else []) @
      map (\<lambda>p. Fed p x i1) (visits True d x (premap (mx d x)) pre_order) @
      map (\<lambda>p. Fed p x i2) (visits False d x (postmap (mx d x)) (rev pre_order)) @
      cur_event d x i2 @ completion_event d x i2 \<and>
    queue (msg_idle_q d') = queue (msg_idle_q d) @ [x]"
proof -
  let ?d1 = "mx_indc x MSG_INDC_PRE_PHASE d"
  have x: "x < length (msg_ex_pool d)" using assms(3) by (simp add: fresh_msg_def)
  obtain d4 bm where d4: "msg_dispatch env x d = msg_post_dispatch env x False
      (mx_set_id x (\<lambda>i. CLEAR_MSG_INDC_FIELD i MSG_INDC_PRE_PHASE) (mx_clr x MSG_STATUS_PRE_PHASE d4))"
    "fed True x ?d1 bm
      ((if d_flag d DISPR_CTRL_PRESENT then [Fed CtrlMdl x (SET_MSG_INDC_FIELD (mx_id d x) MSG_INDC_PRE_PHASE)] else []) @
       map (\<lambda>p. Fed p x (SET_MSG_INDC_FIELD (mx_id d x) MSG_INDC_PRE_PHASE)) (visits True d x (premap (mx d x)) pre_order)) d4"
    using dispatch_shape [OF assms(1-3,5,7)] by blast
  define d6 where "d6 = mx_set_id x (\<lambda>i. CLEAR_MSG_INDC_FIELD i MSG_INDC_PRE_PHASE) (mx_clr x MSG_STATUS_PRE_PHASE d4)"
  have r1: "same_rest x d ?d1" unfolding mx_indc_def by (rule same_rest_id [OF x])
  then have x1: "x < length (msg_ex_pool ?d1)" using x by (simp add: same_rest_def)
  have r4: "same_rest x d d4" by (rule disp_rest_trans [OF r1 fed_same_rest [OF d4(2) x1]])
  have x4: "x < length (msg_ex_pool d4)" using r4 x by (simp add: same_rest_def)
  have x5: "x < length (msg_ex_pool (mx_clr x MSG_STATUS_PRE_PHASE d4))" using x4 by (simp add: mx_clr_def upd_mx_def)
  have r6: "same_rest x d d6"
    unfolding d6_def by (intro disp_rest_trans [OF r4] disp_rest_trans [OF same_rest_clr [OF x4]] same_rest_id x5)
  note m = same_rest_modules [OF r6] and k = fed_keeps [OF d4(2) x1]
  have x6: "x < length (msg_ex_pool d6)" using r6 x by (simp add: same_rest_def)
  have i6: "mx_id d6 x = CLEAR_MSG_INDC_FIELD (SET_MSG_INDC_FIELD (mx_id d x) MSG_INDC_PRE_PHASE) MSG_INDC_PRE_PHASE"
    using x5 k(3) x by (simp add: d6_def mx_id_set mx_indc_def)
  have p6: "postmap (mx d6 x) = postmap (mx d x)"
    using k(9) by (simp add: d6_def map_set mx_indc_def) (simp add: phase_map_def map_set)
  have o6: "d_out d6 = d_out d4" "d_out ?d1 = d_out d" "msg_idle_q d6 = msg_idle_q d"
    using r6 by (simp_all add: d6_def mx_set_id_def mx_clr_def mx_indc_def upd_mx_def same_rest_def)
  have fl: "mx_flag d6 x f = mx_flag d x f" if "f AND MSG_STATUS_PRE_PHASE = 0" for f using r6 that by (simp add: same_rest_def)
  have ev: "cur_event d6 x = cur_event d x" "completion_event d6 x = completion_event d x"
    using r6 fl msg_flags_disjoint by (auto simp: fun_eq_iff same_rest_def cur_event_def completion_event_def rx_flag_def split: option.split)
  have ph: "in_phase False d6 x" by (simp add: in_phase_def i6 indc_bits)
  have "d_out (msg_post_dispatch env x False d6) = d_out d6 @
      map (\<lambda>p. Fed p x (mx_id d6 x)) (visits False d6 x (postmap (mx d6 x)) (rev pre_order)) @
      cur_event d6 x (mx_id d6 x) @ completion_event d6 x (mx_id d6 x) \<and>
    queue (msg_idle_q (msg_post_dispatch env x False d6)) = queue (msg_idle_q d6) @ [x]"
    using post_part [OF assms(1) _ x6 ph] assms m p6 fl msg_flags_disjoint by (simp add: fresh_msg_def)
  then show ?thesis using k(10) unfolding d4(1) d6_def [symmetric] by (simp add: Let_def i6 p6 o6 ev m(3))
qed

section \<open>A message of an optional module\<close>

lemma chk_add1:
  assumes "length bm = 16" and "j < 128"
  shows "chk_bitmap_bit (add_bitmap_bit bm [j]) i \<longleftrightarrow> chk_bitmap_bit bm i \<or> i = j"
proof (cases "i div 8 = j div 8")
  case True
  have "i = j \<longleftrightarrow> i mod 8 = j mod 8" using True by (metis div_mult_mod_eq)
  then show ?thesis using True assms
    by (auto simp: chk_bitmap_iff add_bitmap_bit_def) (auto simp: upd_nth bit_simps div_less_iff_less_mult split: if_splits)
next
  case False
  then show ?thesis using assms by (auto simp: chk_bitmap_iff add_bitmap_bit_def upd_nth)
qed

lemma chk_add:
  "length bm = 16 \<Longrightarrow> set js \<subseteq> {..<128} \<Longrightarrow>
     length (add_bitmap_bit bm js) = 16 \<and> (chk_bitmap_bit (add_bitmap_bit bm js) i \<longleftrightarrow> chk_bitmap_bit bm i \<or> i \<in> set js)"
proof (induction js arbitrary: bm)
  case Nil
  then show ?case by (simp add: add_bitmap_bit_def)
next
  case (Cons j js)
  have "add_bitmap_bit bm (j # js) = add_bitmap_bit (add_bitmap_bit bm [j]) js" by (simp add: add_bitmap_bit_def)
  moreover have "length (add_bitmap_bit bm [j]) = 16" using Cons.prems by (simp add: add_bitmap_bit_def)
  ultimately show ?case using Cons chk_add1 [of bm j i] by auto
qed

lemma chk_reset: "length reset_bitmap = 16" "\<not> chk_bitmap_bit reset_bitmap i"
  by (auto simp: reset_bitmap_def MODL_MASK_LEN_def chk_bitmap_bit_def)

lemma quiet_obedient: "obedient quiet_env"
proof -
  have "\<exists>w r. (d, MDL_RET_SUCCESS) = (d\<lparr>world := w\<rparr>, r) \<and> \<not> STOP_DISPATCH_MSG r" for d :: "'w disp"
    by (intro exI [of _ "world d"] exI [of _ MDL_RET_SUCCESS]) (simp add: STOP_DISPATCH_MSG_def)
  moreover have "\<exists>w. d = d\<lparr>world := w\<rparr>" for d :: "'w disp" by (rule exI [of _ "world d"]) simp
  ultimately show ?thesis unfolding obedient_def quiet_env_def by auto
qed

text \<open>The modules 10 (role), 41 and 42 (mandatory), 71 and 75 (optional) are started; module 42 has sent message 0.\<close>

abbreviation ex_ids :: "nat list" where
  "ex_ids \<equiv> [10, 41, 42, 71, 75]"

definition ex_sent :: "unit disp" where
  "ex_sent = (zero_dispr ())\<lparr>d_status := DISPR_CTRL_PRESENT, 
     module_q := [\<lparr>queue = [10], cnt = 1\<rparr>, \<lparr>queue = [71, 75], cnt = 2\<rparr>, \<lparr>queue = [41, 42], cnt = 2\<rparr>],
     msg_ex_pool := [(zero_mx 0)\<lparr>mx_status := MSG_STATUS_PRE_PHASE OR MSG_STATUS_NOTIFY_COMPLETE, mx_msg := make_msg 42 5,
       premap := add_bitmap_bit reset_bitmap ex_ids, postmap := add_bitmap_bit reset_bitmap ex_ids,
       mx_completion := \<lparr>cr_priv = None, cr_completion = Some 9\<rparr>, mx_module := Some (BkMdl 42)\<rparr>],
     controller := zero_mdl\<lparr>md_id := PHL_MDL_PHY_MGNT\<rparr>, mdl_mem := (\<lambda>a. zero_mdl\<lparr>md_id := a, md_status := MDL_STARTED\<rparr>)\<rparr>"

lemma ex_sent_modules: "modules_ok ex_sent"
  by code_simp

lemma ex_sent_msg: "fresh_msg ex_sent 0"
  by code_simp

lemma ex_sent_controller: "\<not> mx_flag ex_sent 0 MSG_STATUS_FOR_ABORT" "md_id (controller ex_sent) = PHL_MDL_PHY_MGNT"
  by code_simp+

lemma ex_sent_visits:
  "visits True ex_sent 0 (premap (mx ex_sent 0)) pre_order = map BkMdl [42, 41, 71, 75, 10]"
  "visits False ex_sent 0 (postmap (mx ex_sent 0)) (rev pre_order) = map BkMdl [10, 75, 71, 42, 41]"
  by code_simp+

lemma ex_sent_served: "map_served ex_sent (add_bitmap_bit reset_bitmap ex_ids)"
proof -
  have "list_all (\<lambda>i. get_mdl_priority i < PHL_MDL_PRI_MAX \<and>
     list_ex (\<lambda>a. md_id (mdl_mem ex_sent a) = i \<and> started ex_sent a) (queue (module_q ex_sent ! get_mdl_priority i))) ex_ids"
    by code_simp
  moreover have "set ex_ids \<subseteq> {..<128}" by simp
  ultimately show ?thesis unfolding map_served_def
    using chk_add [OF chk_reset(1), of ex_ids] chk_reset(2) by (simp only: list_all_iff list_ex_iff) blast
qed

lemma ex_sent_maps: "map_served ex_sent (premap (mx ex_sent 0))" "map_served ex_sent (postmap (mx ex_sent 0))"
  using ex_sent_served by (simp_all add: ex_sent_def)

theorem dispatch_order_witness:
  "let d' = msg_dispatch quiet_env 0 ex_sent; i1 = SET_MSG_INDC_FIELD (mx_id ex_sent 0) MSG_INDC_PRE_PHASE;
     i2 = CLEAR_MSG_INDC_FIELD i1 MSG_INDC_PRE_PHASE in
   d_out d' = d_out ex_sent @ (if d_flag ex_sent DISPR_CTRL_PRESENT then [Fed CtrlMdl 0 i1] else []) @
     map (\<lambda>p. Fed p 0 i1) (map BkMdl [42, 41, 71, 75, 10]) @ map (\<lambda>p. Fed p 0 i2) (map BkMdl [10, 75, 71, 42, 41]) @
     cur_event ex_sent 0 i2 @ completion_event ex_sent 0 i2"
  using dispatch_order [OF quiet_obedient ex_sent_modules ex_sent_msg ex_sent_controller(1) ex_sent_maps ex_sent_controller(2)]
  unfolding Let_def ex_sent_visits by blast

end
