(* ===== verification/Phl_Dispr_Ctrl.thy ===== *)
theory Phl_Dispr_Ctrl
  imports Phl_Dispr_Order
begin

text \<open>
  The controller of a dispatcher (\<^verbatim>\<open>phl_cmd_dispr_controller.c\<close>): the module that sees every message first and turns
  the messages for the data path into commands of the data-path controller. It runs inside the dispatcher, whose
  \<open>world\<close> is the data path here.
\<close>

section \<open>Events and device states\<close>

definition MSG_EVT_HW_TRX_RST_RESUME :: u16w where "MSG_EVT_HW_TRX_RST_RESUME = 81"
definition MSG_EVT_HW_TRX_PAUSE :: u16w where "MSG_EVT_HW_TRX_PAUSE = 82"
definition MSG_EVT_SW_TX_RESUME :: u16w where "MSG_EVT_SW_TX_RESUME = 83"
definition MSG_EVT_SW_RX_RESUME :: u16w where "MSG_EVT_SW_RX_RESUME = 84"
definition MSG_EVT_SW_TX_PAUSE :: u16w where "MSG_EVT_SW_TX_PAUSE = 85"
definition MSG_EVT_SW_RX_PAUSE :: u16w where "MSG_EVT_SW_RX_PAUSE = 86"
definition MSG_EVT_SW_TX_RESET :: u16w where "MSG_EVT_SW_TX_RESET = 87"
definition MSG_EVT_SW_RX_RESET :: u16w where "MSG_EVT_SW_RX_RESET = 88"
definition MSG_EVT_TRX_SW_PAUSE :: u16w where "MSG_EVT_TRX_SW_PAUSE = 89"
definition MSG_EVT_TRX_SW_RESUME :: u16w where "MSG_EVT_TRX_SW_RESUME = 90"
definition MSG_EVT_TRX_PAUSE_W_RST :: u16w where "MSG_EVT_TRX_PAUSE_W_RST = 91"
definition MSG_EVT_TRX_RESUME_W_RST :: u16w where "MSG_EVT_TRX_RESUME_W_RST = 92"
definition MSG_EVT_TRX_PWR_REQ :: u16w where "MSG_EVT_TRX_PWR_REQ = 101"

definition RTW_DEV_RESUMING :: u32 where "RTW_DEV_RESUMING = 4"
definition RTW_DEV_SURPRISE_REMOVAL :: u32 where "RTW_DEV_SURPRISE_REMOVAL = 8"

section \<open>Commands for the data path\<close>

text \<open>
  \<open>denv\<close> holds the answers the data path gets from the handlers and the HAL. Every command reports failure unless the
  data path reports success.
\<close>

definition ctrl_cmd ::
  "data_env \<Rightarrow> phl_data_ctl_cmd \<Rightarrow> nat \<Rightarrow> data_st \<Rightarrow> data_st \<times> phl_mdl_ret_code" where
  "ctrl_cmd denv cmd mdl_id st =
     (case phl_data_ctrler denv (Some (cmd, mdl_id)) st of
        (st1, status) \<Rightarrow> (st1, if status \<noteq> RTW_PHL_STATUS_SUCCESS then MDL_RET_FAIL else MDL_RET_SUCCESS))"

definition dispr_resume_io_ctrl :: "data_env \<Rightarrow> phl_msg \<Rightarrow> data_st \<Rightarrow> data_st \<times> phl_mdl_ret_code" where
  "dispr_resume_io_ctrl denv msg st =
     (case ctrl_cmd denv PHL_DATA_CTL_SW_TX_RESUME (MSG_MDL_ID_FIELD (msg_id msg)) st of
        (st1, MDL_RET_FAIL) \<Rightarrow> (st1, MDL_RET_FAIL)
      | (st1, _) \<Rightarrow> ctrl_cmd denv PHL_DATA_CTL_SW_RX_RESUME (MSG_MDL_ID_FIELD (msg_id msg)) st1)"

text \<open>A pause of power management is ended on behalf of the data path itself.\<close>

definition resume_id :: "phl_msg \<Rightarrow> nat" where
  "resume_id msg =
     (let mdl_id = MSG_MDL_ID_FIELD (msg_id msg)
      in if mdl_id = PHL_MDL_TX \<or> mdl_id = PHL_MDL_RX then PHL_MDL_POWER_MGNT else mdl_id)"

definition dispr_cannot_io_ctrl :: "data_env \<Rightarrow> phl_msg \<Rightarrow> data_st \<Rightarrow> data_st \<times> phl_mdl_ret_code" where
  "dispr_cannot_io_ctrl denv msg = ctrl_cmd denv PHL_DATA_CTL_TRX_SW_PAUSE (MSG_MDL_ID_FIELD (msg_id msg))"

definition dispr_hw_trx_rst_resume_ctrl :: "data_env \<Rightarrow> phl_msg \<Rightarrow> data_st \<Rightarrow> data_st \<times> phl_mdl_ret_code" where
  "dispr_hw_trx_rst_resume_ctrl denv msg = ctrl_cmd denv PHL_DATA_CTL_HW_TRX_RST_RESUME (MSG_MDL_ID_FIELD (msg_id msg))"

definition dispr_hw_trx_pause_ctrl :: "data_env \<Rightarrow> phl_msg \<Rightarrow> data_st \<Rightarrow> data_st \<times> phl_mdl_ret_code" where
  "dispr_hw_trx_pause_ctrl denv msg = ctrl_cmd denv PHL_DATA_CTL_HW_TRX_PAUSE (MSG_MDL_ID_FIELD (msg_id msg))"

definition dispr_sw_tx_resume_ctrl :: "data_env \<Rightarrow> phl_msg \<Rightarrow> data_st \<Rightarrow> data_st \<times> phl_mdl_ret_code" where
  "dispr_sw_tx_resume_ctrl denv msg = ctrl_cmd denv PHL_DATA_CTL_SW_TX_RESUME (resume_id msg)"

definition dispr_sw_rx_resume_ctrl :: "data_env \<Rightarrow> phl_msg \<Rightarrow> data_st \<Rightarrow> data_st \<times> phl_mdl_ret_code" where
  "dispr_sw_rx_resume_ctrl denv msg = ctrl_cmd denv PHL_DATA_CTL_SW_RX_RESUME (resume_id msg)"

definition dispr_sw_tx_pause_ctrl :: "data_env \<Rightarrow> phl_msg \<Rightarrow> data_st \<Rightarrow> data_st \<times> phl_mdl_ret_code" where
  "dispr_sw_tx_pause_ctrl denv msg = ctrl_cmd denv PHL_DATA_CTL_SW_TX_PAUSE (MSG_MDL_ID_FIELD (msg_id msg))"

definition dispr_sw_rx_pause_ctrl :: "data_env \<Rightarrow> phl_msg \<Rightarrow> data_st \<Rightarrow> data_st \<times> phl_mdl_ret_code" where
  "dispr_sw_rx_pause_ctrl denv msg = ctrl_cmd denv PHL_DATA_CTL_SW_RX_PAUSE (MSG_MDL_ID_FIELD (msg_id msg))"

definition dispr_sw_tx_reset_ctrl :: "data_env \<Rightarrow> phl_msg \<Rightarrow> data_st \<Rightarrow> data_st \<times> phl_mdl_ret_code" where
  "dispr_sw_tx_reset_ctrl denv msg = ctrl_cmd denv PHL_DATA_CTL_SW_TX_RESET (MSG_MDL_ID_FIELD (msg_id msg))"

definition dispr_sw_rx_reset_ctrl :: "data_env \<Rightarrow> phl_msg \<Rightarrow> data_st \<Rightarrow> data_st \<times> phl_mdl_ret_code" where
  "dispr_sw_rx_reset_ctrl denv msg = ctrl_cmd denv PHL_DATA_CTL_SW_RX_RESET (MSG_MDL_ID_FIELD (msg_id msg))"

definition dispr_trx_sw_pause_ctrl :: "data_env \<Rightarrow> phl_msg \<Rightarrow> data_st \<Rightarrow> data_st \<times> phl_mdl_ret_code" where
  "dispr_trx_sw_pause_ctrl denv msg = ctrl_cmd denv PHL_DATA_CTL_TRX_SW_PAUSE (MSG_MDL_ID_FIELD (msg_id msg))"

definition dispr_trx_sw_resume_ctrl :: "data_env \<Rightarrow> phl_msg \<Rightarrow> data_st \<Rightarrow> data_st \<times> phl_mdl_ret_code" where
  "dispr_trx_sw_resume_ctrl denv msg = ctrl_cmd denv PHL_DATA_CTL_TRX_SW_RESUME (MSG_MDL_ID_FIELD (msg_id msg))"

definition dispr_trx_pause_w_rst_ctrl :: "data_env \<Rightarrow> phl_msg \<Rightarrow> data_st \<Rightarrow> data_st \<times> phl_mdl_ret_code" where
  "dispr_trx_pause_w_rst_ctrl denv msg = ctrl_cmd denv PHL_DATA_CTL_TRX_PAUSE_W_RST (MSG_MDL_ID_FIELD (msg_id msg))"

definition dispr_trx_resume_w_rst_ctrl :: "data_env \<Rightarrow> phl_msg \<Rightarrow> data_st \<Rightarrow> data_st \<times> phl_mdl_ret_code" where
  "dispr_trx_resume_w_rst_ctrl denv msg = ctrl_cmd denv PHL_DATA_CTL_TRX_RESUME_W_RST (MSG_MDL_ID_FIELD (msg_id msg))"

section \<open>The message handler\<close>

definition ctrler_msg_hdlr :: "data_env \<Rightarrow> phl_msg \<Rightarrow> data_st \<Rightarrow> data_st \<times> phl_mdl_ret_code" where
  "ctrler_msg_hdlr denv msg st =
     (let evt = MSG_EVT_ID_FIELD (msg_id msg) in
      if evt = MSG_EVT_DEV_RESUME_IO then dispr_resume_io_ctrl denv msg st
      else if evt = MSG_EVT_DEV_CANNOT_IO then dispr_cannot_io_ctrl denv msg st
      else (st, MDL_RET_IGNORE))"

definition tx_msg_hdlr :: "data_env \<Rightarrow> phl_msg \<Rightarrow> data_st \<Rightarrow> data_st \<times> phl_mdl_ret_code" where
  "tx_msg_hdlr denv msg st =
     (if MSG_EVT_ID_FIELD (msg_id msg) = MSG_EVT_TRX_PWR_REQ then dispr_sw_tx_resume_ctrl denv msg st
      else (st, MDL_RET_IGNORE))"

definition rx_msg_hdlr :: "data_env \<Rightarrow> phl_msg \<Rightarrow> data_st \<Rightarrow> data_st \<times> phl_mdl_ret_code" where
  "rx_msg_hdlr denv msg st =
     (if MSG_EVT_ID_FIELD (msg_id msg) = MSG_EVT_TRX_PWR_REQ then dispr_sw_rx_resume_ctrl denv msg st
      else (st, MDL_RET_IGNORE))"

definition internal_msg_hdlr :: "data_env \<Rightarrow> phl_msg \<Rightarrow> data_st \<Rightarrow> data_st \<times> phl_mdl_ret_code" where
  "internal_msg_hdlr denv msg st =
     (let mdl_id = MSG_MDL_ID_FIELD (msg_id msg) in
      if mdl_id = PHL_MDL_PHY_MGNT then ctrler_msg_hdlr denv msg st
      else if mdl_id = PHL_MDL_TX then tx_msg_hdlr denv msg st
      else if mdl_id = PHL_MDL_RX then rx_msg_hdlr denv msg st
      else (st, MDL_RET_IGNORE))"

definition external_msg_hdlr :: "data_env \<Rightarrow> u32 \<Rightarrow> phl_msg \<Rightarrow> data_st \<Rightarrow> data_st \<times> phl_mdl_ret_code" where
  "external_msg_hdlr denv dev_state msg st =
     (let evt = MSG_EVT_ID_FIELD (msg_id msg) in
      if dev_state AND RTW_DEV_SURPRISE_REMOVAL \<noteq> 0 then (st, MDL_RET_FAIL)
      else if evt = MSG_EVT_HW_TRX_RST_RESUME then dispr_hw_trx_rst_resume_ctrl denv msg st
      else if evt = MSG_EVT_HW_TRX_PAUSE then dispr_hw_trx_pause_ctrl denv msg st
      else if evt = MSG_EVT_SW_TX_RESUME then dispr_sw_tx_resume_ctrl denv msg st
      else if evt = MSG_EVT_SW_RX_RESUME then dispr_sw_rx_resume_ctrl denv msg st
      else if evt = MSG_EVT_SW_TX_PAUSE then dispr_sw_tx_pause_ctrl denv msg st
      else if evt = MSG_EVT_SW_RX_PAUSE then dispr_sw_rx_pause_ctrl denv msg st
      else if evt = MSG_EVT_SW_TX_RESET then dispr_sw_tx_reset_ctrl denv msg st
      else if evt = MSG_EVT_SW_RX_RESET then dispr_sw_rx_reset_ctrl denv msg st
      else if evt = MSG_EVT_TRX_SW_PAUSE then dispr_trx_sw_pause_ctrl denv msg st
      else if evt = MSG_EVT_TRX_SW_RESUME then dispr_trx_sw_resume_ctrl denv msg st
      else if evt = MSG_EVT_TRX_PAUSE_W_RST then dispr_trx_pause_w_rst_ctrl denv msg st
      else if evt = MSG_EVT_TRX_RESUME_W_RST then dispr_trx_resume_w_rst_ctrl denv msg st
      else (st, MDL_RET_IGNORE))"

definition dispr_ctrl_msg_hdlr :: "data_env \<Rightarrow> u32 \<Rightarrow> phl_msg \<Rightarrow> data_st \<Rightarrow> data_st \<times> phl_mdl_ret_code" where
  "dispr_ctrl_msg_hdlr denv dev_state msg st =
     (if IS_MSG_FAIL (msg_id msg) then (st, MDL_RET_FAIL)
      else if IS_DISPR_CTRL (MSG_MDL_ID_FIELD (msg_id msg)) then internal_msg_hdlr denv msg st
      else external_msg_hdlr denv dev_state msg st)"

text \<open>
  The function pointers of the controller, and the environment of a dispatcher in which they lead to the controller and
  all others to the modules. The answers of the data path and the state of the device may change with every call.
\<close>

definition dispr_ctrl_hook_ops :: phl_bk_module_ops where
  "dispr_ctrl_hook_ops = \<lparr>op_init = Some 1, op_deinit = Some 2, op_start = Some 3, op_stop = Some 4, op_msg_hdlr = Some 5,
     op_set_info = Some 6, op_query_info = Some 7\<rparr>"

definition ctrl_env :: "(data_st disp \<Rightarrow> data_env) \<Rightarrow> (data_st disp \<Rightarrow> u32) \<Rightarrow> data_st dispr_env \<Rightarrow> data_st dispr_env" where
  "ctrl_env denv dev_state env = env\<lparr>
     cb_msg_hdlr := (\<lambda>f p x d.
       if f = op_msg_hdlr dispr_ctrl_hook_ops
       then (case dispr_ctrl_msg_hdlr (denv d) (dev_state d) (mx_msg (mx d x)) (world d) of (st, ret) \<Rightarrow> (d\<lparr>world := st\<rparr>, ret))
       else cb_msg_hdlr env f p x d),
     cb_mdl_init := (\<lambda>f d. if f = op_init dispr_ctrl_hook_ops then (d, MDL_RET_SUCCESS, None) else cb_mdl_init env f d),
     cb_mdl_deinit := (\<lambda>f p d. if f = op_deinit dispr_ctrl_hook_ops then d else cb_mdl_deinit env f p d),
     cb_mdl_start := (\<lambda>f p d. if f = op_start dispr_ctrl_hook_ops then (d, MDL_RET_SUCCESS) else cb_mdl_start env f p d),
     cb_mdl_stop := (\<lambda>f p d. if f = op_stop dispr_ctrl_hook_ops then (d, MDL_RET_SUCCESS) else cb_mdl_stop env f p d),
     cb_info := (\<lambda>f p d. if f = op_set_info dispr_ctrl_hook_ops \<or> f = op_query_info dispr_ctrl_hook_ops then (d, MDL_RET_IGNORE)
       else cb_info env f p d)\<rparr>"

section \<open>A refused message\<close>

text \<open>The states of a dispatch that differ from \<open>d\<close> in the message, the trace and the data path.\<close>

definition shape :: "'w disp \<Rightarrow> nat \<Rightarrow> phl_dispr_msg_ex \<Rightarrow> dispr_ev list \<Rightarrow> 'w \<Rightarrow> 'w disp" where
  "shape d x m es w = d\<lparr>msg_ex_pool := (msg_ex_pool d)[x := m], d_out := d_out d @ es, world := w\<rparr>"

lemma shape_self: "d = shape d x (mx d x) [] (world d)"
  by (simp add: shape_def)

lemma shape_simps [simp]:
  "d_tell e (shape d x m es w) = shape d x m (es @ [e]) w" "shape d x m es w\<lparr>world := w'\<rparr> = shape d x m es w'"
  "mdl (shape d x m es w) = mdl d" "bitmap (shape d x m es w) = bitmap d" "cur_cmd_req (shape d x m es w) = cur_cmd_req d"
  "token_req_ex_pool (shape d x m es w) = token_req_ex_pool d" "d_status (shape d x m es w) = d_status d"
  "d_out (shape d x m es w) = d_out d @ es" "length (msg_ex_pool (shape d x m es w)) = length (msg_ex_pool d)"
  "msg_idle_q (shape d x m es w) = msg_idle_q d" "controller (shape d x m es w) = controller d" "world (shape d x m es w) = w"
  by (simp_all add: shape_def d_tell_def mdl_def fun_eq_iff split: mdl_ptr.split)

lemma shape_msg:
  assumes "x < length (msg_ex_pool d)"
  shows "mx (shape d x m es w) x = m" "upd_mx x f (shape d x m es w) = shape d x (f m) es w"
    "mx_id (shape d x m es w) x = msg_id (mx_msg m)" "mx_flag (shape d x m es w) x g = TEST_STATUS_FLAG (mx_status m) g"
  using assms by (simp_all add: shape_def upd_mx_def mx_id_def mx_flag_def)

lemma shape_call:
  assumes "detached env" and "x < length (msg_ex_pool d)"
  shows "\<exists>w'. fst (call_mdl env p x (shape d x m es w)) = shape d x m (es @ [Fed p x (msg_id (mx_msg m))]) w'"
proof -
  obtain w' r where "cb_msg_hdlr env (op_msg_hdlr (md_ops (mdl d p))) (md_priv (mdl d p)) x
      (shape d x m (es @ [Fed p x (msg_id (mx_msg m))]) w) =
      (shape d x m (es @ [Fed p x (msg_id (mx_msg m))]) w\<lparr>world := w'\<rparr>, r)"
    using assms(1) unfolding detached_def by blast
  then show ?thesis using assms(2) by (intro exI [of _ w']) (simp add: call_mdl_def shape_msg)
qed

lemma shape_cur_event:
  "x < length (msg_ex_pool d) \<Longrightarrow> mx_flag (shape d x m es w) x MSG_STATUS_FOR_ABORT = mx_flag d x MSG_STATUS_FOR_ABORT \<Longrightarrow>
     cur_event (shape d x m es w) x i = cur_event d x i"
  by (simp add: cur_event_def rx_flag_def split: option.split)

lemma shape_cur:
  assumes "detached env"
  shows "\<exists>w'. cur_req_hdl env x (shape d x m es w) = shape d x m (es @ cur_event (shape d x m es w) x (mx_id (shape d x m es w) x)) w'"
proof -
  obtain w' where "cur_req_hdl env x (shape d x m es w) = shape d x m es w
      \<lparr>d_out := d_out (shape d x m es w) @ cur_event (shape d x m es w) x (mx_id (shape d x m es w) x), world := w'\<rparr>"
    using cur_detached [OF assms] by blast
  then show ?thesis by (intro exI [of _ w']) (simp add: shape_def)
qed

text \<open>The id a refused message has, and who is told.\<close>

definition refused_id :: "phl_mdl_ret_code \<Rightarrow> u32 \<Rightarrow> u32" where
  "refused_id ret i =
     (let i1 = SET_MSG_INDC_FIELD (SET_MSG_INDC_FIELD i MSG_INDC_PRE_PHASE) MSG_INDC_FAIL
      in if ret = MDL_RET_CANNOT_IO then SET_MSG_INDC_FIELD i1 MSG_INDC_CANNOT_IO else i1)"

definition sender_told :: "'w disp \<Rightarrow> nat \<Rightarrow> u32 \<Rightarrow> dispr_ev list" where
  "sender_told d x i =
     (case mx_module (mx d x) of None \<Rightarrow> []
      | Some p \<Rightarrow>
          if mx_flag d x MSG_STATUS_OWNER_BK_MDL \<and> (IS_DISPR_CTRL (MSG_MDL_ID_FIELD i) \<or> chk_bitmap_bit (bitmap d) (md_id (mdl d p)))
          then [Fed p x i] else []) @
     (if mx_flag d x MSG_STATUS_OWNER_REQ then cur_event d x i else [])"

lemma shape_fail:
  assumes env: "detached env" and x: "x < length (msg_ex_pool d)"
    and i: "msg_id (mx_msg m) = SET_MSG_INDC_FIELD (mx_id d x) MSG_INDC_PRE_PHASE"
    and m: "mx_status m = mx_status (mx d x)" "mx_module m = mx_module (mx d x)"
  shows "\<exists>w'. notify_msg_fail env x ret (shape d x m es w) =
    shape d x (m\<lparr>mx_status := SET_STATUS_FLAG (mx_status m) MSG_STATUS_FAIL,
        mx_msg := (mx_msg m)\<lparr>msg_id := refused_id ret (mx_id d x)\<rparr>\<rparr>)
      (es @ sender_told d x (refused_id ret (mx_id d x))) w'"
proof -
  let ?i = "refused_id ret (mx_id d x)"
  let ?m = "m\<lparr>mx_status := SET_STATUS_FLAG (mx_status m) MSG_STATUS_FAIL, mx_msg := (mx_msg m)\<lparr>msg_id := ?i\<rparr>\<rparr>"
  have fl: "TEST_STATUS_FLAG (mx_status ?m) f = mx_flag d x f" if "f AND MSG_STATUS_FAIL = 0" for f
    using that m(1) by (simp add: mx_flag_def flag_simps and.commute)
  have fl': "TEST_STATUS_FLAG (mx_status ?m) MSG_STATUS_OWNER_BK_MDL = mx_flag d x MSG_STATUS_OWNER_BK_MDL"
    "TEST_STATUS_FLAG (mx_status ?m) MSG_STATUS_OWNER_REQ = mx_flag d x MSG_STATUS_OWNER_REQ"
    "TEST_STATUS_FLAG (mx_status ?m) MSG_STATUS_FOR_ABORT = mx_flag d x MSG_STATUS_FOR_ABORT"
    by (rule fl; simp add: MSG_STATUS_FAIL_def MSG_STATUS_OWNER_BK_MDL_def MSG_STATUS_OWNER_REQ_def MSG_STATUS_FOR_ABORT_def)+
  define d2 where "d2 = shape d x ?m es w"
  have d2: "(let d1 = mx_indc x MSG_INDC_FAIL (mx_set x MSG_STATUS_FAIL (shape d x m es w))
     in if ret = MDL_RET_CANNOT_IO then mx_indc x MSG_INDC_CANNOT_IO d1 else d1) = d2"
    using x i by (simp add: d2_def mx_indc_def mx_set_id_def mx_set_def shape_msg refused_id_def Let_def)
  define evs where "evs = (case mx_module (mx d x) of None \<Rightarrow> [] | Some p \<Rightarrow>
      if mx_flag d x MSG_STATUS_OWNER_BK_MDL \<and> (IS_DISPR_CTRL (MSG_MDL_ID_FIELD ?i) \<or> chk_bitmap_bit (bitmap d) (md_id (mdl d p)))
      then [Fed p x ?i] else [])"
  have "\<exists>w3. (if mx_flag d2 x MSG_STATUS_OWNER_BK_MDL then
                  (case mx_module (mx d2 x) of None \<Rightarrow> d2
                   | Some p \<Rightarrow>
                       if IS_DISPR_CTRL (MSG_MDL_ID_FIELD (mx_id d2 x)) \<or> chk_bitmap_bit (bitmap d2) (md_id (mdl d2 p))
                       then fst (call_mdl env p x d2) else d2)
                else d2) = shape d x ?m (es @ evs) w3"
    using shape_call [OF env x, of _ ?m es w] x m(2) fl'(1)
    by (cases "mx_module (mx d x)") (auto simp: evs_def d2_def shape_msg)
  then obtain w3 where h: "(if mx_flag d2 x MSG_STATUS_OWNER_BK_MDL then
                  (case mx_module (mx d2 x) of None \<Rightarrow> d2
                   | Some p \<Rightarrow>
                       if IS_DISPR_CTRL (MSG_MDL_ID_FIELD (mx_id d2 x)) \<or> chk_bitmap_bit (bitmap d2) (md_id (mdl d2 p))
                       then fst (call_mdl env p x d2) else d2)
                else d2) = shape d x ?m (es @ evs) w3" by blast
  have w3: "notify_msg_fail env x ret (shape d x m es w) =
      (if mx_flag (shape d x ?m (es @ evs) w3) x MSG_STATUS_OWNER_REQ then cur_req_hdl env x (shape d x ?m (es @ evs) w3)
       else shape d x ?m (es @ evs) w3)"
    unfolding notify_msg_fail_def Let_def d2 [unfolded Let_def] h by (rule refl)
  have e: "cur_event (shape d x ?m es' w') x ?i = cur_event d x ?i" for es' w'
    using x fl'(3) by (intro shape_cur_event) (simp_all add: shape_msg)
  have told: "sender_told d x ?i = evs @ (if mx_flag d x MSG_STATUS_OWNER_REQ then cur_event d x ?i else [])"
    by (simp add: sender_told_def evs_def)
  show ?thesis
  proof (cases "mx_flag d x MSG_STATUS_OWNER_REQ")
    case True
    obtain w' where "cur_req_hdl env x (shape d x ?m (es @ evs) w3) = shape d x ?m ((es @ evs) @ cur_event d x ?i) w'"
      using shape_cur [OF env, of x d ?m "es @ evs" w3] x e by (auto simp: shape_msg)
    then show ?thesis using w3 True x fl'(2) told by (intro exI [of _ w']) (simp add: shape_msg)
  next
    case False
    then show ?thesis using w3 x fl'(2) told by (intro exI [of _ w3]) (simp add: shape_msg)
  qed
qed

lemma refused_dispatch:
  assumes env: "detached env" and x: "fresh_msg d x" and "\<not> mx_flag d x MSG_STATUS_FOR_ABORT" and "d_flag d DISPR_CTRL_PRESENT"
    and ret: "ret = MDL_RET_FAIL \<or> ret = MDL_RET_CANNOT_IO"
    and call: "snd (call_mdl env CtrlMdl x (mx_indc x MSG_INDC_PRE_PHASE d)) = ret"
  shows "let i1 = SET_MSG_INDC_FIELD (mx_id d x) MSG_INDC_PRE_PHASE; i2 = refused_id ret (mx_id d x); d' = msg_dispatch env x d in
    d_out d' = d_out d @ [Fed CtrlMdl x i1] @ sender_told d x i2 @ completion_event d x i2 \<and>
    queue (msg_idle_q d') = queue (msg_idle_q d) @ [x]"
proof -
  let ?i1 = "SET_MSG_INDC_FIELD (mx_id d x) MSG_INDC_PRE_PHASE" and ?i2 = "refused_id ret (mx_id d x)"
  let ?m = "(mx d x)\<lparr>mx_msg := (mx_msg (mx d x))\<lparr>msg_id := ?i1\<rparr>\<rparr>"
  let ?m1 = "?m\<lparr>mx_msg := (mx_msg ?m)\<lparr>rsvd := (rsvd (mx_msg ?m))[0 := Some (Inl CtrlMdl)]\<rparr>\<rparr>"
  have xl: "x < length (msg_ex_pool d)" using x by (simp add: fresh_msg_def)
  have d1: "mx_indc x MSG_INDC_PRE_PHASE d = shape d x ?m [] (world d)"
    by (simp add: mx_indc_def mx_set_id_def upd_mx_def shape_def mx_id_def)
  obtain w where "fst (call_mdl env CtrlMdl x (mx_indc x MSG_INDC_PRE_PHASE d)) = shape d x ?m [Fed CtrlMdl x ?i1] w"
    using shape_call [OF env xl, of CtrlMdl ?m "[]" "world d"] unfolding d1 by auto
  with call have c: "call_mdl env CtrlMdl x (mx_indc x MSG_INDC_PRE_PHASE d) = (shape d x ?m [Fed CtrlMdl x ?i1] w, ret)"
    by (metis prod.collapse)
  obtain w' where n: "notify_msg_fail env x ret (shape d x ?m1 [Fed CtrlMdl x ?i1] w) =
      shape d x (?m1\<lparr>mx_status := SET_STATUS_FLAG (mx_status ?m1) MSG_STATUS_FAIL, mx_msg := (mx_msg ?m1)\<lparr>msg_id := ?i2\<rparr>\<rparr>)
        ([Fed CtrlMdl x ?i1] @ sender_told d x ?i2) w'"
    using shape_fail [OF env xl, of ?m1 ret "[Fed CtrlMdl x ?i1]" w] by auto
  let ?d3 = "shape d x (?m1\<lparr>mx_status := SET_STATUS_FLAG (mx_status ?m1) MSG_STATUS_FAIL, mx_msg := (mx_msg ?m1)\<lparr>msg_id := ?i2\<rparr>\<rparr>)
        ([Fed CtrlMdl x ?i1] @ sender_told d x ?i2) w'"
  have fl: "mx_flag ?d3 x f = mx_flag d x f" if "f AND MSG_STATUS_FAIL = 0" for f
    using that xl by (simp add: shape_msg mx_flag_def flag_simps and.commute)
  have fail: "mx_flag ?d3 x MSG_STATUS_FAIL" using xl by (simp add: shape_msg flag_simps MSG_STATUS_FAIL_def)
  have disj: "MSG_STATUS_CANCEL AND MSG_STATUS_FAIL = 0" "MSG_STATUS_FOR_ABORT AND MSG_STATUS_FAIL = 0"
    "MSG_STATUS_NOTIFY_COMPLETE AND MSG_STATUS_FAIL = 0"
    by (simp_all add: MSG_STATUS_CANCEL_def MSG_STATUS_FAIL_def MSG_STATUS_FOR_ABORT_def MSG_STATUS_NOTIFY_COMPLETE_def)
  have no: "\<not> mx_flag ?d3 x MSG_STATUS_CANCEL" "\<not> mx_flag ?d3 x MSG_STATUS_FOR_ABORT"
    "mx_flag ?d3 x MSG_STATUS_NOTIFY_COMPLETE = mx_flag d x MSG_STATUS_NOTIFY_COMPLETE"
    using x assms(3) unfolding fl [OF disj(1)] fl [OF disj(2)] fl [OF disj(3)] by (simp_all add: fresh_msg_def)
  have ctl: "notify_dispr_controller env x (mx_indc x MSG_INDC_PRE_PHASE d) = ?d3"
    using assms(4) c n ret xl by (auto simp: notify_dispr_controller_def feed_mdl_msg_def d1 d_flag_def shape_msg)
  have "msg_dispatch env x d = push_back_idle_msg env x ?d3"
  proof -
    have g: "get_msg_bitmap x d = (mx_indc x MSG_INDC_PRE_PHASE d, True)" using x by (simp add: get_msg_bitmap_def fresh_msg_def)
    have r: "MSG_REDIRECT_CHK env x (mx_indc x MSG_INDC_PRE_PHASE d) rest = rest (mx_indc x MSG_INDC_PRE_PHASE d)" for rest
      using x xl by (intro redirect_go) (simp_all add: d1 shape_msg fresh_msg_def mx_flag_def)
    have f: "MSG_REDIRECT_CHK env x ?d3 rest = push_back_idle_msg env x ?d3" for rest
      using fail unfolding MSG_REDIRECT_CHK_def by (rule if_P [OF disjI1])
    show ?thesis unfolding msg_dispatch_def g prod.case r ctl f by (rule refl)
  qed
  moreover have "completion_event ?d3 x ?i2 = completion_event d x ?i2"
    using xl no(3) by (simp add: completion_event_def shape_msg)
  moreover have "x < length (msg_ex_pool ?d3)" "mx_id ?d3 x = ?i2" using xl by (simp_all add: shape_msg)
  ultimately show ?thesis using idle_detached [OF env, of x ?d3] no xl by (simp add: Let_def)
qed

lemma indc_low: "n < 24 \<Longrightarrow> bit (SET_MSG_INDC_FIELD i indc) n = bit i n"
  by (simp add: SET_MSG_INDC_FIELD_def bit_simps)

lemma indc_fields [simp]:
  "MSG_MDL_ID_FIELD (SET_MSG_INDC_FIELD i indc) = MSG_MDL_ID_FIELD i" "MSG_EVT_ID_FIELD (SET_MSG_INDC_FIELD i indc) = MSG_EVT_ID_FIELD i"
  "IS_MSG_FAIL (SET_MSG_INDC_FIELD i MSG_INDC_PRE_PHASE) = IS_MSG_FAIL i"
proof -
  have "(0xFF :: u32) = mask 8" "(0xFFFF :: u32) = mask 16" by (simp_all add: mask_eq_exp_minus_1)
  then have m: "bit (a AND 0xFF :: u32) n \<longleftrightarrow> n < 8 \<and> bit a n" "bit (a AND 0xFFFF :: u32) n \<longleftrightarrow> n < 16 \<and> bit a n"
    if "n < 32" for a n
    using that by (auto simp only: bit_and_iff bit_mask_iff possible_bit_word len_num1 len_bit0)
  have "drop_bit 16 (SET_MSG_INDC_FIELD i indc) AND 0xFF = drop_bit 16 i AND 0xFF"
  proof (rule bit_word_eqI)
    fix n
    assume "n < LENGTH(32)"
    then show "bit (drop_bit 16 (SET_MSG_INDC_FIELD i indc) AND 0xFF) n = bit (drop_bit 16 i AND 0xFF) n"
      by (simp add: m bit_drop_bit_eq indc_low cong: conj_cong)
  qed
  then show "MSG_MDL_ID_FIELD (SET_MSG_INDC_FIELD i indc) = MSG_MDL_ID_FIELD i" by (simp add: MSG_MDL_ID_FIELD_def)
  have "SET_MSG_INDC_FIELD i indc AND 0xFFFF = i AND 0xFFFF"
  proof (rule bit_word_eqI)
    fix n
    assume "n < LENGTH(32)"
    then show "bit (SET_MSG_INDC_FIELD i indc AND 0xFFFF) n = bit (i AND 0xFFFF) n" by (simp add: m indc_low cong: conj_cong)
  qed
  then show "MSG_EVT_ID_FIELD (SET_MSG_INDC_FIELD i indc) = MSG_EVT_ID_FIELD i" by (simp add: MSG_EVT_ID_FIELD_def)
  have z: "push_bit 24 MSG_INDC_PRE_PHASE AND push_bit 24 MSG_INDC_FAIL = 0" by (simp add: MSG_INDC_PRE_PHASE_def MSG_INDC_FAIL_def)
  have "(i AND NOT a OR a) AND b = i AND b" if "a AND b = 0" for a b :: u32
  proof (rule bit_word_eqI)
    fix n
    assume "n < LENGTH(32)"
    have "\<not> (bit a n \<and> bit b n)" using arg_cong [OF that, of "\<lambda>w. bit w n"] by (simp add: bit_and_iff)
    then show "bit ((i AND NOT a OR a) AND b) n = bit (i AND b) n" using \<open>n < LENGTH(32)\<close> by (auto simp: bit_simps)
  qed
  from this [OF z] have "SET_MSG_INDC_FIELD i MSG_INDC_PRE_PHASE AND push_bit 24 MSG_INDC_FAIL = i AND push_bit 24 MSG_INDC_FAIL"
    by (simp add: SET_MSG_INDC_FIELD_def)
  then show "IS_MSG_FAIL (SET_MSG_INDC_FIELD i MSG_INDC_PRE_PHASE) = IS_MSG_FAIL i" by (simp add: IS_MSG_FAIL_def)
qed

section \<open>The controller refuses\<close>

lemma ctrl_detached:
  assumes "detached env"
  shows "detached (ctrl_env denv dev_state env)"
proof -
  have "\<exists>w r. (case dispr_ctrl_msg_hdlr (denv d) (dev_state d) m st of (st, ret) \<Rightarrow> (d\<lparr>world := st\<rparr>, ret)) = (d\<lparr>world := w\<rparr>, r)"
    for d m st by (auto split: prod.split)
  then show ?thesis using assms unfolding detached_def ctrl_env_def by auto
qed

text \<open>The dispatcher has the controller of \<^verbatim>\<open>dispr_ctrl_hook_ops\<close>.\<close>

definition controlled :: "'w disp \<Rightarrow> bool" where
  "controlled d \<longleftrightarrow> md_ops (controller d) = dispr_ctrl_hook_ops \<and> d_flag d DISPR_CTRL_PRESENT"

lemma refused_by_controller:
  assumes "detached env" and "controlled d" and "fresh_msg d x" and "\<not> mx_flag d x MSG_STATUS_FOR_ABORT"
    and "snd (dispr_ctrl_msg_hdlr denv dev_state ((mx_msg (mx d x))\<lparr>msg_id := SET_MSG_INDC_FIELD (mx_id d x) MSG_INDC_PRE_PHASE\<rparr>) (world d)) =
      MDL_RET_FAIL"
  shows "let i1 = SET_MSG_INDC_FIELD (mx_id d x) MSG_INDC_PRE_PHASE; i2 = SET_MSG_INDC_FIELD i1 MSG_INDC_FAIL;
      d' = msg_dispatch (ctrl_env (\<lambda>_. denv) (\<lambda>_. dev_state) env) x d in
    d_out d' = d_out d @ [Fed CtrlMdl x i1] @ sender_told d x i2 @ completion_event d x i2 \<and>
    queue (msg_idle_q d') = queue (msg_idle_q d) @ [x]"
proof -
  have x: "x < length (msg_ex_pool d)" using assms(3) by (simp add: fresh_msg_def)
  have s: "mx_indc x MSG_INDC_PRE_PHASE d =
      shape d x ((mx d x)\<lparr>mx_msg := (mx_msg (mx d x))\<lparr>msg_id := SET_MSG_INDC_FIELD (mx_id d x) MSG_INDC_PRE_PHASE\<rparr>\<rparr>) [] (world d)"
    by (simp add: mx_indc_def mx_set_id_def upd_mx_def shape_def mx_id_def)
  have "snd (call_mdl (ctrl_env (\<lambda>_. denv) (\<lambda>_. dev_state) env) CtrlMdl x (mx_indc x MSG_INDC_PRE_PHASE d)) = MDL_RET_FAIL"
    using assms(2,5) x unfolding s by (simp add: call_mdl_def shape_msg ctrl_env_def controlled_def mdl_def split_beta)
  from refused_dispatch [OF ctrl_detached [OF assms(1)] assms(3,4) _ _ this] assms(2) show ?thesis
    by (simp add: controlled_def refused_id_def)
qed

text \<open>
  C15: After the removal of the device the controller refuses every message of a module: no module of its map sees it, its
  sender is told with the failure indication, its completion routine runs with it, and the message is idle again.
\<close>

theorem removal_refuses_messages:
  assumes "detached env" and "controlled d" and "fresh_msg d x" and "\<not> mx_flag d x MSG_STATUS_FOR_ABORT"
    and "dev_state AND RTW_DEV_SURPRISE_REMOVAL \<noteq> 0" and "\<not> IS_DISPR_CTRL (MSG_MDL_ID_FIELD (mx_id d x))"
  shows "let i1 = SET_MSG_INDC_FIELD (mx_id d x) MSG_INDC_PRE_PHASE; i2 = SET_MSG_INDC_FIELD i1 MSG_INDC_FAIL;
      d' = msg_dispatch (ctrl_env (\<lambda>_. denv) (\<lambda>_. dev_state) env) x d in
    d_out d' = d_out d @ [Fed CtrlMdl x i1] @ sender_told d x i2 @ completion_event d x i2 \<and>
    queue (msg_idle_q d') = queue (msg_idle_q d) @ [x]"
  using assms(5,6) by (intro refused_by_controller [OF assms(1-4)]) (simp add: dispr_ctrl_msg_hdlr_def external_msg_hdlr_def Let_def)

text \<open>
  C16: On the USB interface the message that the device cannot do I/O reaches no module while reception is running: the
  controller pauses the data path first, the pause of reception times out, and the message is refused.
\<close>

theorem cannot_io_not_delivered:
  assumes "detached env" and "controlled d" and "fresh_msg d x" and "\<not> mx_flag d x MSG_STATUS_FOR_ABORT"
    and "MSG_MDL_ID_FIELD (mx_id d x) = PHL_MDL_PHY_MGNT" and "MSG_EVT_ID_FIELD (mx_id d x) = MSG_EVT_DEV_CANNOT_IO"
    and "sw_rx_sts (world d) \<in> {STATUS_IDLE, STATUS_RUNNING}"
  shows "let i1 = SET_MSG_INDC_FIELD (mx_id d x) MSG_INDC_PRE_PHASE; i2 = SET_MSG_INDC_FIELD i1 MSG_INDC_FAIL;
      d' = msg_dispatch (ctrl_env (\<lambda>_. denv) (\<lambda>_. dev_state) env) x d in
    d_out d' = d_out d @ [Fed CtrlMdl x i1] @ sender_told d x i2 @ completion_event d x i2 \<and>
    queue (msg_idle_q d') = queue (msg_idle_q d) @ [x]"
proof (rule refused_by_controller [OF assms(1-4)])
  have rx: "snd (phl_sw_rx_pause denv m st) \<noteq> RTW_PHL_STATUS_SUCCESS" if "sw_rx_sts st \<in> {STATUS_IDLE, STATUS_RUNNING}" for m st
    using that by (auto simp: phl_sw_rx_pause_def Let_def phl_req_rx_stop_usb_def poll_rx_never)
  obtain st1 r where t: "phl_sw_tx_pause denv PHL_MDL_PHY_MGNT (world d) = (st1, r)" by fastforce
  then have "sw_rx_sts st1 = sw_rx_sts (world d)" using sw_tx_pause_cases [OF t] by auto
  then have "snd (phl_trx_sw_pause denv PHL_MDL_PHY_MGNT (world d)) \<noteq> RTW_PHL_STATUS_SUCCESS"
    using rx [of st1 PHL_MDL_PHY_MGNT] assms(7) t by (auto simp: phl_trx_sw_pause_def and_then_def)
  then show "snd (dispr_ctrl_msg_hdlr denv dev_state
      ((mx_msg (mx d x))\<lparr>msg_id := SET_MSG_INDC_FIELD (mx_id d x) MSG_INDC_PRE_PHASE\<rparr>) (world d)) = MDL_RET_FAIL"
    using assms(5,6)
    by (auto simp: dispr_ctrl_msg_hdlr_def internal_msg_hdlr_def ctrler_msg_hdlr_def dispr_cannot_io_ctrl_def ctrl_cmd_def
        phl_data_ctrler_def IS_DISPR_CTRL_def PHL_BK_MDL_ROLE_START_def PHL_MDL_PHY_MGNT_def Let_def
        MSG_EVT_DEV_CANNOT_IO_def MSG_EVT_DEV_RESUME_IO_def split: prod.split)
qed

section \<open>Two refused messages\<close>

definition ex_ctl :: "nat \<Rightarrow> u16w \<Rightarrow> data_st disp" where
  "ex_ctl mid evt = (zero_dispr ex_data)\<lparr>d_status := DISPR_CTRL_PRESENT, bitmap := add_bitmap_bit reset_bitmap [42],
     msg_ex_pool := [(zero_mx 0)\<lparr>mx_status := MSG_STATUS_PRE_PHASE OR MSG_STATUS_OWNER_BK_MDL, mx_msg := make_msg mid evt,
       mx_module := Some (BkMdl 42)\<rparr>],
     controller := zero_mdl\<lparr>md_id := PHL_MDL_PHY_MGNT, md_ops := dispr_ctrl_hook_ops\<rparr>,
     mdl_mem := (\<lambda>a. zero_mdl\<lparr>md_id := a, md_status := MDL_STARTED\<rparr>)\<rparr>"

lemma ex_ctl_ser: "controlled (ex_ctl 42 5)" "fresh_msg (ex_ctl 42 5) 0" "\<not> mx_flag (ex_ctl 42 5) 0 MSG_STATUS_FOR_ABORT"
  "\<not> IS_DISPR_CTRL (MSG_MDL_ID_FIELD (mx_id (ex_ctl 42 5) 0))"
  by code_simp+

lemma ex_ctl_io: "controlled (ex_ctl 1 59)" "fresh_msg (ex_ctl 1 59) 0" "\<not> mx_flag (ex_ctl 1 59) 0 MSG_STATUS_FOR_ABORT"
  "MSG_MDL_ID_FIELD (mx_id (ex_ctl 1 59) 0) = PHL_MDL_PHY_MGNT" "MSG_EVT_ID_FIELD (mx_id (ex_ctl 1 59) 0) = MSG_EVT_DEV_CANNOT_IO"
  "sw_rx_sts (world (ex_ctl 1 59)) \<in> {STATUS_IDLE, STATUS_RUNNING}"
  by code_simp+

theorem removal_refuses_messages_witness:
  "queue (msg_idle_q (msg_dispatch (ctrl_env (\<lambda>_. ex_denv) (\<lambda>_. 9) quiet_env) 0 (ex_ctl 42 5))) = queue (msg_idle_q (ex_ctl 42 5)) @ [0]"
proof -
  have "(9 :: u32) AND RTW_DEV_SURPRISE_REMOVAL \<noteq> 0" by (simp add: RTW_DEV_SURPRISE_REMOVAL_def)
  from removal_refuses_messages [OF obedient_detached [OF quiet_obedient] ex_ctl_ser(1,2,3) this ex_ctl_ser(4)] show ?thesis
    unfolding Let_def by blast
qed

theorem cannot_io_not_delivered_witness:
  "queue (msg_idle_q (msg_dispatch (ctrl_env (\<lambda>_. ex_denv) (\<lambda>_. 1) quiet_env) 0 (ex_ctl 1 59))) = queue (msg_idle_q (ex_ctl 1 59)) @ [0]"
  using cannot_io_not_delivered [OF obedient_detached [OF quiet_obedient] ex_ctl_io] unfolding Let_def by blast

end
