(* ===== verification/Phl_Dispr_Eng.thy ===== *)
theory Phl_Dispr_Eng
  imports Phl_Dispr_Ctrl
begin

text \<open>
  The dispatch engine (\<^verbatim>\<open>phl_cmd_dispatch_engine.c\<close>): one dispatcher per band, one thread for all of them. The dispatchers
  share the semaphore of the thread and the state outside, so an operation on one of them runs with the engine's
  semaphore and world and leaves what it made of them to the engine.

  A pointer to a dispatcher is \<open>None\<close> when it is NULL. The result \<open>None\<close> of an operation is the use of a NULL pointer or of a
  pointer outside the array, and, where a loop has fuel, a loop that has not ended.
\<close>

section \<open>State\<close>

record 'w phl_cmd_dispatch_engine =
  eng_dispatcher :: "'w disp option list option"
  eng_phy_num :: nat
  eng_sema :: nat
  eng_world :: 'w

type_synonym 'w eng = "'w phl_cmd_dispatch_engine"

definition eng_load :: "'w eng \<Rightarrow> 'w disp \<Rightarrow> 'w disp" where
  "eng_load e d = d\<lparr>d_sema := eng_sema e, world := eng_world e\<rparr>"

definition eng_store :: "nat \<Rightarrow> 'w disp \<Rightarrow> 'w eng \<Rightarrow> 'w eng" where
  "eng_store i d e = e\<lparr>eng_dispatcher := map_option (\<lambda>ds. ds[i := Some d]) (eng_dispatcher e),
     eng_sema := d_sema d, eng_world := world d\<rparr>"

definition eng_ptr :: "'w eng \<Rightarrow> nat \<Rightarrow> 'w disp option option" where
  "eng_ptr e i = (case eng_dispatcher e of None \<Rightarrow> None | Some ds \<Rightarrow> if i < length ds then Some (ds ! i) else None)"

definition eng_run :: "nat \<Rightarrow> ('w disp \<Rightarrow> 'w disp \<times> 'a) \<Rightarrow> 'w eng \<Rightarrow> ('w eng \<times> 'a) option" where
  "eng_run i f e =
     (case eng_ptr e i of
        Some (Some d) \<Rightarrow> (case f (eng_load e d) of (d', r) \<Rightarrow> Some (eng_store i d' e, r))
      | _ \<Rightarrow> None)"

text \<open>An operation on every dispatcher in turn, where a NULL pointer is passed over or not.\<close>

fun eng_each :: "bool \<Rightarrow> ('w disp \<Rightarrow> 'w disp option) \<Rightarrow> nat list \<Rightarrow> 'w eng \<Rightarrow> 'w eng option" where
  "eng_each skip f [] e = Some e"
| "eng_each skip f (i # is) e =
     (case eng_ptr e i of
        None \<Rightarrow> None
      | Some None \<Rightarrow> if skip then eng_each skip f is e else None
      | Some (Some d) \<Rightarrow> (case f (eng_load e d) of None \<Rightarrow> None | Some d' \<Rightarrow> eng_each skip f is (eng_store i d' e)))"

section \<open>The thread\<close>

text \<open>A round of the thread after it has taken a count from the semaphore; \<open>m\<close> and \<open>n\<close> are the fuel of the token loops.\<close>

definition share_thread_round :: "nat \<Rightarrow> nat \<Rightarrow> 'w dispr_env \<Rightarrow> 'w eng \<Rightarrow> 'w eng option" where
  "share_thread_round m n env e =
     eng_each False (dispr_thread_loop_hdl m n env) [0..<eng_phy_num e] (e\<lparr>eng_sema := eng_sema e - 1\<rparr>)"

definition share_thread_leave :: "nat \<Rightarrow> nat \<Rightarrow> 'w dispr_env \<Rightarrow> 'w eng \<Rightarrow> 'w eng option" where
  "share_thread_leave k n env e = eng_each False (dispr_thread_leave_hdl k n env) [0..<eng_phy_num e] e"

definition disp_eng_notify_share_thread :: "'w eng \<Rightarrow> 'w eng" where
  "disp_eng_notify_share_thread e = e\<lparr>eng_sema := Suc (eng_sema e)\<rparr>"

section \<open>Life of the engine\<close>

definition phl_disp_eng_bk_module_deinit :: "'w dispr_env \<Rightarrow> 'w eng \<Rightarrow> 'w eng option \<times> rtw_phl_status" where
  "phl_disp_eng_bk_module_deinit env e =
     (eng_each True (\<lambda>d. Some (fst (dispr_module_deinit env d))) [0..<eng_phy_num e] e, RTW_PHL_STATUS_SUCCESS)"

text \<open>The dispatchers are freed one after the other; the state outside is what the last one leaves.\<close>

fun deinit_each :: "'w dispr_env \<Rightarrow> nat list \<Rightarrow> 'w eng \<Rightarrow> 'w eng option" where
  "deinit_each env [] e = Some e"
| "deinit_each env (i # is) e =
     (case eng_ptr e i of
        None \<Rightarrow> None
      | Some None \<Rightarrow> deinit_each env is e
      | Some (Some d) \<Rightarrow>
          let d' = (case fst (dispr_deinit env (eng_load e d)) of None \<Rightarrow> eng_load e d | Some d' \<Rightarrow> d');
              e' = eng_store i d' e
          in deinit_each env is (e'\<lparr>eng_dispatcher := map_option (\<lambda>ds. ds[i := None]) (eng_dispatcher e')\<rparr>))"

definition phl_disp_eng_deinit :: "'w dispr_env \<Rightarrow> 'w eng \<Rightarrow> ('w eng \<times> rtw_phl_status) option" where
  "phl_disp_eng_deinit env e =
     (if eng_dispatcher e = None then Some (e, RTW_PHL_STATUS_FAILURE)
      else
        case fst (phl_disp_eng_bk_module_deinit env e) of None \<Rightarrow> None
        | Some e1 \<Rightarrow>
            (case deinit_each env [0..<eng_phy_num e1] e1 of None \<Rightarrow> None
             | Some e2 \<Rightarrow>
                 Some (if eng_phy_num e2 \<noteq> 0 then e2\<lparr>eng_dispatcher := None, eng_phy_num := 0\<rparr> else e2, RTW_PHL_STATUS_SUCCESS)))"

text \<open>
  \<open>alloc\<close> says which of the allocations of a dispatcher succeed. The loop stops at the first that fails; the array was
  allocated with zeros.
\<close>

fun init_each :: "'w dispr_env \<Rightarrow> (nat \<Rightarrow> bool) \<Rightarrow> nat list \<Rightarrow> 'w eng \<Rightarrow> 'w eng \<times> rtw_phl_status" where
  "init_each env alloc [] e = (e, RTW_PHL_STATUS_SUCCESS)"
| "init_each env alloc (i # is) e =
     (case dispr_init env dispr_ctrl_hook_ops (alloc i) i (eng_world e) of
        (None, status) \<Rightarrow> (e, status)
      | (Some d, status) \<Rightarrow> init_each env alloc is (eng_store i (d\<lparr>d_sema := eng_sema e\<rparr>) e))"

definition phl_disp_eng_init ::
  "'w dispr_env \<Rightarrow> bool \<Rightarrow> (nat \<Rightarrow> bool) \<Rightarrow> nat \<Rightarrow> 'w eng \<Rightarrow> ('w eng \<times> rtw_phl_status) option" where
  "phl_disp_eng_init env array_ok alloc phy_num e =
     (if eng_dispatcher e \<noteq> None then Some (e, RTW_PHL_STATUS_FAILURE)
      else if \<not> array_ok then Some (e\<lparr>eng_phy_num := 0\<rparr>, RTW_PHL_STATUS_RESOURCE)
      else
        case init_each env alloc [0..<phy_num] (e\<lparr>eng_phy_num := phy_num, eng_dispatcher := Some (replicate phy_num None)\<rparr>) of
          (e1, status) \<Rightarrow>
            if status \<noteq> RTW_PHL_STATUS_SUCCESS
            then map_option (\<lambda>(e2, _). (e2, RTW_PHL_STATUS_SUCCESS)) (phl_disp_eng_deinit env e1)
            else Some (e1, RTW_PHL_STATUS_SUCCESS))"

definition phl_disp_eng_start :: "'w dispr_env \<Rightarrow> 'w eng \<Rightarrow> ('w eng \<times> rtw_phl_status) option" where
  "phl_disp_eng_start env e =
     map_option (\<lambda>e1. (e1, RTW_PHL_STATUS_SUCCESS))
       (eng_each True (\<lambda>d. Some (fst (dispr_module_start env (fst (dispr_start env d))))) [0..<eng_phy_num e] (e\<lparr>eng_sema := 0\<rparr>))"

text \<open>The thread is stopped by a wake-up; it leaves its dispatchers before the pools are taken down.\<close>

definition phl_disp_eng_stop :: "nat \<Rightarrow> nat \<Rightarrow> 'w dispr_env \<Rightarrow> 'w eng \<Rightarrow> ('w eng \<times> rtw_phl_status) option" where
  "phl_disp_eng_stop k n env e =
     (if eng_dispatcher e = None then Some (e, RTW_PHL_STATUS_SUCCESS)
      else
        case eng_each True (\<lambda>d. Some (dispr_thread_stop_prior_hdl env (fst (dispr_module_stop env d)))) [0..<eng_phy_num e] e of
          None \<Rightarrow> None
        | Some e1 \<Rightarrow>
            (case share_thread_leave k n env (disp_eng_notify_share_thread e1) of None \<Rightarrow> None
             | Some e2 \<Rightarrow>
                 map_option (\<lambda>e3. (e3, RTW_PHL_STATUS_SUCCESS))
                   (eng_each False (\<lambda>d. Some (dispr_thread_stop_post_hdl d)) [0..<eng_phy_num e2] e2)))"

section \<open>Operations by band\<close>

definition disp_eng_get_dispr_by_idx :: "nat \<Rightarrow> 'w eng \<Rightarrow> rtw_phl_status" where
  "disp_eng_get_dispr_by_idx band e =
     (if int (eng_phy_num e) - 1 < int band then RTW_PHL_STATUS_INVALID_PARAM else RTW_PHL_STATUS_SUCCESS)"

definition eng_band :: "nat \<Rightarrow> (rtw_phl_status \<Rightarrow> 'a) \<Rightarrow> ('w disp \<Rightarrow> 'w disp \<times> 'a) \<Rightarrow> 'w eng \<Rightarrow> ('w eng \<times> 'a) option" where
  "eng_band band err f e =
     (let status = disp_eng_get_dispr_by_idx band e
      in if status \<noteq> RTW_PHL_STATUS_SUCCESS then Some (e, err status) else eng_run band f e)"

definition phl_disp_eng_register_module ::
  "'w dispr_env \<Rightarrow> ptr option \<Rightarrow> nat \<Rightarrow> nat \<Rightarrow> phl_bk_module_ops option \<Rightarrow> 'w eng \<Rightarrow> ('w eng \<times> rtw_phl_status) option" where
  "phl_disp_eng_register_module env new band mid ops e =
     (if eng_phy_num e < band + 1 then Some (e, RTW_PHL_STATUS_INVALID_PARAM)
      else eng_run band (dispr_register_module env new mid ops) e)"

definition phl_disp_eng_deregister_module :: "'w dispr_env \<Rightarrow> nat \<Rightarrow> nat \<Rightarrow> 'w eng \<Rightarrow> ('w eng \<times> rtw_phl_status) option" where
  "phl_disp_eng_deregister_module env band mid e =
     (if eng_phy_num e < band + 1 then Some (e, RTW_PHL_STATUS_INVALID_PARAM)
      else eng_run band (dispr_deregister_module env mid) e)"

definition phl_disp_eng_is_dispr_busy :: "nat \<Rightarrow> 'w eng \<Rightarrow> ('w eng \<times> bool) option" where
  "phl_disp_eng_is_dispr_busy band =
     eng_band band (\<lambda>_. False) (\<lambda>d. (d, snd (dispr_get_cur_cmd_req d True) = RTW_PHL_STATUS_SUCCESS))"

definition phl_disp_eng_set_cur_cmd_info :: "'w dispr_env \<Rightarrow> nat \<Rightarrow> 'w eng \<Rightarrow> ('w eng \<times> rtw_phl_status) option" where
  "phl_disp_eng_set_cur_cmd_info env band = eng_band band (\<lambda>s. s) (dispr_set_cur_cmd_info env)"

definition phl_disp_eng_query_cur_cmd_info :: "'w dispr_env \<Rightarrow> nat \<Rightarrow> 'w eng \<Rightarrow> ('w eng \<times> rtw_phl_status) option" where
  "phl_disp_eng_query_cur_cmd_info env band = eng_band band (\<lambda>s. s) (dispr_query_cur_cmd_info env)"

definition phl_disp_eng_set_bk_module_info :: "'w dispr_env \<Rightarrow> nat \<Rightarrow> nat \<Rightarrow> 'w eng \<Rightarrow> ('w eng \<times> rtw_phl_status) option" where
  "phl_disp_eng_set_bk_module_info env band mid =
     eng_band band (\<lambda>s. s) (\<lambda>d. case dispr_get_bk_module_handle d mid True of
       (Some a, RTW_PHL_STATUS_SUCCESS) \<Rightarrow> dispr_set_bk_module_info env a d
     | (_, status) \<Rightarrow> (d, status))"

definition phl_disp_eng_query_bk_module_info :: "'w dispr_env \<Rightarrow> nat \<Rightarrow> nat \<Rightarrow> 'w eng \<Rightarrow> ('w eng \<times> rtw_phl_status) option" where
  "phl_disp_eng_query_bk_module_info env band mid =
     eng_band band (\<lambda>s. s) (\<lambda>d. case dispr_get_bk_module_handle d mid True of
       (Some a, RTW_PHL_STATUS_SUCCESS) \<Rightarrow> dispr_query_bk_module_info env a d
     | (_, status) \<Rightarrow> (d, status))"

text \<open>The band of a message in the pool is its field \<^verbatim>\<open>band_idx\<close>.\<close>

definition phl_disp_eng_set_src_info :: "'w dispr_env \<Rightarrow> nat \<Rightarrow> nat \<Rightarrow> 'w eng \<Rightarrow> ('w eng \<times> rtw_phl_status) option" where
  "phl_disp_eng_set_src_info env band x = eng_band band (\<lambda>s. s) (dispr_set_src_info env x)"

definition phl_disp_eng_query_src_info :: "'w dispr_env \<Rightarrow> nat \<Rightarrow> nat \<Rightarrow> 'w eng \<Rightarrow> ('w eng \<times> rtw_phl_status) option" where
  "phl_disp_eng_query_src_info env band x = eng_band band (\<lambda>s. s) (dispr_query_src_info env x)"

definition phl_disp_eng_send_msg ::
  "'w dispr_env \<Rightarrow> phl_msg \<Rightarrow> phl_msg_attribute option \<Rightarrow> 'w eng \<Rightarrow> ('w eng \<times> rtw_phl_status \<times> u32 option) option" where
  "phl_disp_eng_send_msg env msg attr = eng_band (band_idx msg) (\<lambda>s. (s, None)) (dispr_send_msg env msg attr)"

definition phl_disp_eng_cancel_msg :: "nat \<Rightarrow> u32 option \<Rightarrow> 'w eng \<Rightarrow> ('w eng \<times> rtw_phl_status \<times> u32 option) option" where
  "phl_disp_eng_cancel_msg band h = eng_band band (\<lambda>s. (s, h)) (dispr_cancel_msg h)"

definition phl_disp_eng_clr_pending_msg :: "nat \<Rightarrow> 'w eng \<Rightarrow> ('w eng \<times> rtw_phl_status) option" where
  "phl_disp_eng_clr_pending_msg band = eng_band band (\<lambda>s. s) (\<lambda>d. (dispr_clr_pending_msg d, RTW_PHL_STATUS_SUCCESS))"

definition phl_disp_eng_add_token_req ::
  "nat \<Rightarrow> phl_cmd_token_req option \<Rightarrow> bool \<Rightarrow> 'w eng \<Rightarrow> ('w eng \<times> rtw_phl_status \<times> u32 option) option" where
  "phl_disp_eng_add_token_req band req hdl = eng_band band (\<lambda>s. (s, None)) (dispr_add_token_req req hdl)"

definition phl_disp_eng_cancel_token_req :: "nat \<Rightarrow> u32 option \<Rightarrow> 'w eng \<Rightarrow> ('w eng \<times> rtw_phl_status) option" where
  "phl_disp_eng_cancel_token_req band h = eng_band band (\<lambda>s. s) (dispr_cancel_token_req h)"

definition phl_disp_eng_free_token :: "nat \<Rightarrow> u32 option \<Rightarrow> 'w eng \<Rightarrow> ('w eng \<times> rtw_phl_status) option" where
  "phl_disp_eng_free_token band h = eng_band band (\<lambda>s. s) (dispr_free_token h)"

text \<open>The band given by the caller is replaced by all bands.\<close>

definition phl_disp_eng_notify_dev_io_status :: "'w dispr_env \<Rightarrow> nat \<Rightarrow> nat \<Rightarrow> bool \<Rightarrow> 'w eng \<Rightarrow> ('w eng \<times> rtw_phl_status) option" where
  "phl_disp_eng_notify_dev_io_status env band mid allow_io e =
     map_option (\<lambda>e1. (e1, RTW_PHL_STATUS_SUCCESS))
       (eng_each False (\<lambda>d. Some (fst (dispr_notify_dev_io_status env mid allow_io d))) [0..<eng_phy_num e] e)"

definition phl_disp_eng_notify_shall_stop :: "'w eng \<Rightarrow> 'w eng option" where
  "phl_disp_eng_notify_shall_stop e =
     eng_each False (\<lambda>d. Some (if is_dispr_started d then dispr_notify_shall_stop d else d)) [0..<eng_phy_num e] e"

fun fg_empty_each :: "nat list \<Rightarrow> 'w eng \<Rightarrow> bool option" where
  "fg_empty_each [] e = Some True"
| "fg_empty_each (i # is) e =
     (case eng_ptr e i of
        Some (Some d) \<Rightarrow> if \<not> dispr_is_fg_empty (eng_load e d) then Some False else fg_empty_each is e
      | _ \<Rightarrow> None)"

definition phl_disp_eng_is_fg_empty :: "nat \<Rightarrow> 'w eng \<Rightarrow> bool option" where
  "phl_disp_eng_is_fg_empty band e =
     (if band \<noteq> HW_BAND_MAX
      then (case eng_ptr e band of Some (Some d) \<Rightarrow> Some (dispr_is_fg_empty (eng_load e d)) | _ \<Rightarrow> None)
      else fg_empty_each [0..<eng_phy_num e] e)"

section \<open>The invariant of the engine\<close>

definition eng_ok :: "'w eng \<Rightarrow> bool" where
  "eng_ok e \<longleftrightarrow> (\<forall>i<eng_phy_num e. \<exists>d. eng_ptr e i = Some (Some d) \<and> dispr_ok [] [] (Due 0 0) (eng_load e d))"

lemma ok_world [simp]: "dispr_ok fl rfl k (d\<lparr>world := w\<rparr>) = dispr_ok fl rfl k d"
  by (simp add: inv_defs)

lemma ok_more_sema: "dispr_ok fl rfl (Due 0 0) (d\<lparr>d_sema := s\<rparr>) \<Longrightarrow> s \<le> s' \<Longrightarrow> dispr_ok fl rfl (Due 0 0) (d\<lparr>d_sema := s'\<rparr>)"
  by (auto simp: inv_defs)

lemma ok_floor: "dispr_ok fl rfl (Due 0 0) d \<Longrightarrow> dispr_ok fl rfl (Due 0 (d_sema d)) d"
  by (simp add: dispr_ok_def wake_inv_def)

lemma floor_sema: "dispr_ok fl rfl (Due k s) d \<Longrightarrow> s \<le> d_sema d"
  by (simp add: dispr_ok_def wake_inv_def)

lemma ok_load: "dispr_ok fl rfl (Due 0 0) (eng_load e d) = dispr_ok fl rfl (Due 0 0) (d\<lparr>d_sema := eng_sema e\<rparr>)"
  by (simp add: eng_load_def)

lemma eng_store_fields [simp]:
  "eng_phy_num (eng_store i d e) = eng_phy_num e" "eng_sema (eng_store i d e) = d_sema d" "eng_world (eng_store i d e) = world d"
  by (simp_all add: eng_store_def)

lemma eng_ptr_store: "eng_ptr e i = Some p \<Longrightarrow> eng_ptr (eng_store i d e) j = (if j = i then Some (Some d) else eng_ptr e j)"
  by (auto simp: eng_ptr_def eng_store_def split: option.splits if_splits)

text \<open>
  The dispatchers \<open>J\<close> have still to be served in the round that took a count from the semaphore: they are accounted for with
  that count.
\<close>

definition round_ok :: "nat set \<Rightarrow> 'w eng \<Rightarrow> bool" where
  "round_ok J e \<longleftrightarrow> (\<forall>i<eng_phy_num e. \<exists>d. eng_ptr e i = Some (Some d) \<and>
     dispr_ok [] [] (Due 0 0) (d\<lparr>d_sema := eng_sema e + (if i \<in> J then 1 else 0)\<rparr>))"

lemma eng_ok_round: "eng_ok e \<longleftrightarrow> round_ok {} e"
  by (simp add: eng_ok_def round_ok_def ok_load)

lemma round_ok_store:
  assumes "round_ok J e" and "i < eng_phy_num e" and "dispr_ok [] [] (Due 0 0) d'" and "eng_sema e \<le> d_sema d'" and "J' = J - {i}"
  shows "round_ok J' (eng_store i d' e)"
proof (unfold round_ok_def, intro allI impI)
  fix j
  assume j: "j < eng_phy_num (eng_store i d' e)"
  obtain p where p: "eng_ptr e i = Some p" using assms(1,2) by (auto simp: round_ok_def)
  show "\<exists>d. eng_ptr (eng_store i d' e) j = Some (Some d) \<and>
      dispr_ok [] [] (Due 0 0) (d\<lparr>d_sema := eng_sema (eng_store i d' e) + (if j \<in> J' then 1 else 0)\<rparr>)"
  proof (cases "j = i")
    case True
    then show ?thesis using assms(3,5) eng_ptr_store [OF p] by simp
  next
    case False
    then obtain d where d: "eng_ptr e j = Some (Some d)" "dispr_ok [] [] (Due 0 0) (d\<lparr>d_sema := eng_sema e + (if j \<in> J then 1 else 0)\<rparr>)"
      using assms(1) j by (auto simp: round_ok_def)
    then show ?thesis
      using False assms(4,5) ok_more_sema [OF d(2), of "d_sema d' + (if j \<in> J then 1 else 0)"] eng_ptr_store [OF p, of d' j] by simp
  qed
qed

lemma run_eng_ok:
  assumes "eng_ok e" and k: "keeps (\<lambda>d. fst (f d))" and "i < eng_phy_num e" and "eng_run i f e = Some (e', r)"
  shows "eng_ok e'"
proof -
  obtain d where d: "eng_ptr e i = Some (Some d)" "dispr_ok [] [] (Due 0 0) (eng_load e d)"
    using assms(1,3) by (auto simp: eng_ok_def)
  from keepsD [OF k ok_floor [OF d(2)]] have o: "dispr_ok [] [] (Due 0 (eng_sema e)) (fst (f (eng_load e d)))"
    by (simp add: eng_load_def)
  have "e' = eng_store i (fst (f (eng_load e d))) e" using assms(4) d(1) by (auto simp: eng_run_def split: prod.splits)
  then show ?thesis
    using round_ok_store [of "{}", OF _ assms(3) ok_no_floor [OF o] floor_sema [OF o]] assms(1) by (simp add: eng_ok_round)
qed

lemma band_eng_ok:
  assumes "eng_ok e" and "keeps (\<lambda>d. fst (f d))" and "eng_band band err f e = Some (e', r)"
  shows "eng_ok e'"
  using assms run_eng_ok [OF assms(1,2), of band e' r]
  by (auto simp: eng_band_def disp_eng_get_dispr_by_idx_def Let_def split: if_splits)

lemma each_eng_ok:
  assumes "keeps f"
  shows "eng_ok e \<Longrightarrow> set is \<subseteq> {..<eng_phy_num e} \<Longrightarrow> eng_each skip (\<lambda>d. Some (f d)) is e = Some e' \<Longrightarrow> eng_ok e'"
proof (induction "is" arbitrary: e)
  case (Cons i "is")
  obtain d where d: "eng_ptr e i = Some (Some d)" using Cons.prems(1,2) by (auto simp: eng_ok_def)
  have "eng_run i (\<lambda>d. (f d, ())) e = Some (eng_store i (f (eng_load e d)) e, ())" by (simp add: eng_run_def d)
  then have "eng_ok (eng_store i (f (eng_load e d)) e)"
    using assms Cons.prems(2) by (intro run_eng_ok [OF Cons.prems(1), of "\<lambda>d. (f d, ())" i _ "()"]) simp_all
  then show ?case using Cons d by simp
qed simp

context dispr_callbacks
begin

lemma loop_each_ok:
  "round_ok (set is) e \<Longrightarrow> distinct is \<Longrightarrow> set is \<subseteq> {..<eng_phy_num e} \<Longrightarrow>
     eng_each False (dispr_thread_loop_hdl m n env) is e = Some e' \<Longrightarrow> eng_ok e'"
proof (induction "is" arbitrary: e)
  case Nil
  then show ?case by (simp add: eng_ok_round)
next
  case (Cons i "is")
  obtain d where d: "eng_ptr e i = Some (Some d)" "dispr_ok [] [] (Due 0 0) (d\<lparr>d_sema := Suc (eng_sema e)\<rparr>)"
    using Cons.prems(1,3) by (auto simp: round_ok_def)
  obtain d' where l: "dispr_thread_loop_hdl m n env (eng_load e d) = Some d'"
    "eng_each False (dispr_thread_loop_hdl m n env) is (eng_store i d' e) = Some e'"
    using Cons.prems(4) d(1) by (auto split: option.splits)
  let ?d = "d\<lparr>d_sema := Suc (eng_sema e), world := eng_world e\<rparr>"
  have "dispr_ok [] [] (Due 0 (d_sema ?d - 1)) d'"
  proof (rule ok_loop)
    have "?d\<lparr>d_sema := d_sema ?d - 1\<rparr> = eng_load e d" by (cases d) (simp add: eng_load_def)
    then show "dispr_thread_loop_hdl m n env (?d\<lparr>d_sema := d_sema ?d - 1\<rparr>) = Some d'" using l(1) by simp
  qed (use d(2) in simp_all)
  then have o: "dispr_ok [] [] (Due 0 (eng_sema e)) d'" by simp
  have "round_ok (set is) (eng_store i d' e)"
    using Cons.prems(2,3) by (intro round_ok_store [OF Cons.prems(1) _ ok_no_floor [OF o] floor_sema [OF o]]) auto
  from Cons.IH [OF this] Cons.prems(2,3) l(2) show ?case by simp
qed

lemma share_round_ok:
  assumes "eng_ok e" and "0 < eng_sema e" and "share_thread_round m n env e = Some e'"
  shows "eng_ok e'"
proof -
  have "round_ok {..<eng_phy_num e} (e\<lparr>eng_sema := eng_sema e - 1\<rparr>)"
    using assms(1,2) by (simp add: eng_ok_round round_ok_def eng_ptr_def)
  then show ?thesis
    using loop_each_ok [of "[0..<eng_phy_num e]"] assms(3) by (simp add: share_thread_round_def atLeast0LessThan)
qed

end

section \<open>Modules that come and go\<close>

locale engine_callbacks = dispr_callbacks env for env :: "'w dispr_env" +
  assumes mdl_init_keeps: "keeps (\<lambda>d. fst (cb_mdl_init env f d))"
    and mdl_deinit_keeps: "keeps (cb_mdl_deinit env f p)"
    and mdl_start_keeps: "keeps (\<lambda>d. fst (cb_mdl_start env f p d))"
    and mdl_stop_keeps: "keeps (\<lambda>d. fst (cb_mdl_stop env f p d))"
    and info_keeps: "keeps (\<lambda>d. fst (cb_info env f p d))"

lemma keeps_mdl_fields:
  "keeps (add_started a opt)" "keeps (drop_started a)" "keeps (free_mdl a)"
  "keeps (\<lambda>d. d\<lparr>mdl_mem := m d, mdl_live := l d, module_q := q d\<rparr>)" "keeps (\<lambda>d. d\<lparr>module_q := q d\<rparr>)"
  by (simp_all add: keeps_def add_started_def drop_started_def free_mdl_def Let_def inv_defs)

context engine_callbacks
begin

lemma keeps_bk_start: "keeps (\<lambda>d. fst (bk_module_start env p d))"
  using mdl_start_keeps by (auto simp: keeps_def bk_module_start_def split_beta)

lemma keeps_bk_init: "keeps (\<lambda>d. fst (bk_module_init env p d))"
  using mdl_init_keeps by (auto simp: keeps_def bk_module_init_def split_beta Let_def)

lemma keeps_bk_deinit: "keeps (bk_module_deinit env p)"
  using mdl_deinit_keeps by (auto simp: keeps_def bk_module_deinit_def)

lemma keeps_bk_stop: "keeps (\<lambda>d. fst (bk_module_stop env p d))"
  using mdl_stop_keeps by (auto simp: keeps_def bk_module_stop_def split_beta Let_def)

lemma keeps_start_modules: "keeps (start_modules env ms)"
proof (induction ms)
  case Nil
  then show ?case by (simp add: keeps_id)
next
  case (Cons m ms)
  obtain i a where m: "m = (i, a)" by (cases m)
  have "keeps (\<lambda>d. start_modules env ms (if snd (bk_module_start env (BkMdl a) d)
      then add_started a (i = PHL_MDL_PRI_OPTIONAL) (fst (bk_module_start env (BkMdl a) d)) else fst (bk_module_start env (BkMdl a) d)))"
    by (intro keeps_comp [OF Cons] keeps_if keeps_comp [OF keeps_mdl_fields(1)] keeps_bk_start)
  then show ?case by (simp add: m split_beta case_bool_if)
qed

lemma keeps_register: "keeps (\<lambda>d. fst (dispr_register_module env new mid ops d))"
proof (cases new)
  case None
  then show ?thesis by (auto simp: dispr_register_module_def Let_def keeps_def)
next
  case (Some a)
  let ?pri = "get_mdl_priority mid"
  let ?d = "\<lambda>d. d\<lparr>mdl_mem := (mdl_mem d)(a := zero_mdl\<lparr>md_id := mid, md_ops := the ops\<rparr>), mdl_live := a # mdl_live d,
    module_q := (module_q d)[?pri := fst (pq_push (module_q d ! ?pri) a Tail)]\<rparr>"
  let ?i = "\<lambda>d. fst (bk_module_init env (BkMdl a) (?d d))"
  let ?s = "\<lambda>d. fst (bk_module_start env (BkMdl a) (?i d))"
  let ?gone = "\<lambda>d. free_mdl a (bk_module_deinit env (BkMdl a) d)"
  let ?out = "\<lambda>d. if \<not> d_flag d DISPR_INIT \<or> ?pri = PHL_MDL_PRI_MAX \<or> \<not> chk_module_ops ops \<or> chk_bitmap_bit (bitmap d) mid then d
    else if \<not> snd (bk_module_init env (BkMdl a) (?d d)) then ?gone (?i d)
    else if \<not> d_flag (?i d) DISPR_STARTED then ?i d
    else if \<not> snd (bk_module_start env (BkMdl a) (?i d)) then ?gone (?s d)
    else add_started a (?pri = PHL_MDL_PRI_OPTIONAL) (?s d)"
  have "keeps ?out"
    by (intro keeps_if keeps_id keeps_comp [OF keeps_mdl_fields(3)] keeps_comp [OF keeps_bk_deinit] keeps_comp [OF keeps_mdl_fields(1)]
        keeps_comp [OF keeps_bk_start] keeps_comp [OF keeps_bk_init] keeps_mdl_fields(4))
  moreover have "fst (dispr_register_module env new mid ops d) = ?out d" for d
    by (simp add: dispr_register_module_def Some Let_def split_beta split: bool.split)
  ultimately show ?thesis by simp
qed

lemma keeps_deregister: "keeps (\<lambda>d. fst (dispr_deregister_module env mid d))"
proof -
  let ?pri = "get_mdl_priority mid"
  let ?found = "\<lambda>d. pq_search_node (module_q d ! ?pri) True (Some (\<lambda>p. md_id (mdl_mem d p) = mid))"
  let ?out = "\<lambda>(q, r) d. case r of None \<Rightarrow> d
    | Some a \<Rightarrow> free_mdl a (bk_module_deinit env (BkMdl a) (fst (bk_module_stop env (BkMdl a)
        (drop_started a (d\<lparr>module_q := (module_q d)[?pri := q]\<rparr>)))))"
  have gone: "keeps (\<lambda>d. free_mdl a (bk_module_deinit env (BkMdl a) (fst (bk_module_stop env (BkMdl a)
        (drop_started a (d\<lparr>module_q := (module_q d)[?pri := q]\<rparr>))))))" for a q
    by (intro keeps_comp [OF keeps_mdl_fields(3)] keeps_comp [OF keeps_bk_deinit] keeps_comp [OF keeps_bk_stop]
        keeps_comp [OF keeps_mdl_fields(2)] keeps_mdl_fields(5))
  have "keeps (?out v)" for v
    using gone by (cases v; cases "snd v") (simp_all add: keeps_id)
  then have "keeps (\<lambda>d. ?out (?found d) d)" by (rule keeps_case)
  then have "keeps (\<lambda>d. if \<not> d_flag d DISPR_INIT \<or> ?pri = PHL_MDL_PRI_MAX then d else ?out (?found d) d)"
    by (intro keeps_if keeps_id)
  then show ?thesis
    unfolding dispr_deregister_module_def Let_def
    by (auto simp: keeps_def split_beta split: option.splits if_splits)
qed

lemma keeps_cb_info: "keeps (\<lambda>d. fst (case cb_info env (f d) (p d) d of (d1, ret) \<Rightarrow> (d1, info_status ret)))"
  using info_keeps by (simp add: keeps_def split_beta)

lemma keeps_cur_info: "keeps (\<lambda>d. fst (dispr_set_cur_cmd_info env d))" "keeps (\<lambda>d. fst (dispr_query_cur_cmd_info env d))"
  using info_keeps
  by (auto simp: keeps_def dispr_set_cur_cmd_info_def dispr_query_cur_cmd_info_def split_beta split: option.splits rtw_phl_status.splits)

lemma keeps_mdl_info:
  "keeps (\<lambda>d. fst (case dispr_get_bk_module_handle d mid True of
     (Some a, RTW_PHL_STATUS_SUCCESS) \<Rightarrow> dispr_set_bk_module_info env a d | (_, status) \<Rightarrow> (d, status)))"
  "keeps (\<lambda>d. fst (case dispr_get_bk_module_handle d mid True of
     (Some a, RTW_PHL_STATUS_SUCCESS) \<Rightarrow> dispr_query_bk_module_info env a d | (_, status) \<Rightarrow> (d, status)))"
  using info_keeps
  by (auto simp: keeps_def dispr_set_bk_module_info_def dispr_query_bk_module_info_def Let_def split_beta
      split: option.splits rtw_phl_status.splits)

lemma keeps_src_info: "keeps (\<lambda>d. fst (dispr_set_src_info env x d))" "keeps (\<lambda>d. fst (dispr_query_src_info env x d))"
  using info_keeps
  by (auto simp: keeps_def dispr_set_src_info_def dispr_query_src_info_def src_info_def Let_def split_beta
      split: option.splits rtw_phl_status.splits)

end

section \<open>Runs of the engine\<close>

inductive eng_step :: "'w dispr_env \<Rightarrow> 'w eng \<Rightarrow> 'w eng \<Rightarrow> bool" for env :: "'w dispr_env" where
  send: "phl_disp_eng_send_msg env msg attr e = Some (e', r) \<Longrightarrow> eng_step env e e'"
| cancel: "phl_disp_eng_cancel_msg band h e = Some (e', r) \<Longrightarrow> eng_step env e e'"
| clr_pending: "phl_disp_eng_clr_pending_msg band e = Some (e', r) \<Longrightarrow> eng_step env e e'"
| add_req: "phl_disp_eng_add_token_req band req hdl e = Some (e', r) \<Longrightarrow> eng_step env e e'"
| cancel_req: "phl_disp_eng_cancel_token_req band h e = Some (e', r) \<Longrightarrow> eng_step env e e'"
| free_req: "phl_disp_eng_free_token band h e = Some (e', r) \<Longrightarrow> eng_step env e e'"
| dev_io: "phl_disp_eng_notify_dev_io_status env band mid allow_io e = Some (e', r) \<Longrightarrow> eng_step env e e'"
| shall_stop: "phl_disp_eng_notify_shall_stop e = Some e' \<Longrightarrow> eng_step env e e'"
| register: "phl_disp_eng_register_module env new band mid ops e = Some (e', r) \<Longrightarrow> eng_step env e e'"
| deregister: "phl_disp_eng_deregister_module env band mid e = Some (e', r) \<Longrightarrow> eng_step env e e'"
| cur_info: "phl_disp_eng_set_cur_cmd_info env band e = Some (e', r) \<or> phl_disp_eng_query_cur_cmd_info env band e = Some (e', r) \<Longrightarrow>
    eng_step env e e'"
| mdl_info: "phl_disp_eng_set_bk_module_info env band mid e = Some (e', r) \<or> phl_disp_eng_query_bk_module_info env band mid e = Some (e', r) \<Longrightarrow>
    eng_step env e e'"
| src_info: "phl_disp_eng_set_src_info env band x e = Some (e', r) \<or> phl_disp_eng_query_src_info env band x e = Some (e', r) \<Longrightarrow>
    eng_step env e e'"
| round: "0 < eng_sema e \<Longrightarrow> share_thread_round m n env e = Some e' \<Longrightarrow> eng_step env e e'"

inductive_cases eng_stepE: "eng_step env e e'"

context engine_callbacks
begin

lemma eng_step_ok:
  assumes "eng_step env e e'" and ok: "eng_ok e"
  shows "eng_ok e'"
  using assms(1)
proof (cases rule: eng_step.cases)
  case (send msg attr r)
  then show ?thesis using band_eng_ok [OF ok keeps_send] by (simp add: phl_disp_eng_send_msg_def)
next
  case (cancel band h r)
  then show ?thesis using band_eng_ok [OF ok keeps_dispr_cancel] by (simp add: phl_disp_eng_cancel_msg_def)
next
  case (clr_pending band r)
  then show ?thesis
    using band_eng_ok [OF ok, of "\<lambda>d. (dispr_clr_pending_msg d, RTW_PHL_STATUS_SUCCESS)"] keeps_clr_pending
    by (simp add: phl_disp_eng_clr_pending_msg_def)
next
  case (add_req band req hdl r)
  then show ?thesis using band_eng_ok [OF ok keeps_add_req] by (simp add: phl_disp_eng_add_token_req_def)
next
  case (cancel_req band h r)
  then show ?thesis using band_eng_ok [OF ok keeps_free_req(1)] by (simp add: phl_disp_eng_cancel_token_req_def)
next
  case (free_req band h r)
  then show ?thesis using band_eng_ok [OF ok keeps_free_req(2)] by (simp add: phl_disp_eng_free_token_def)
next
  case (dev_io band mid allow_io r)
  then show ?thesis
    using each_eng_ok [OF keeps_dev_io ok, of "[0..<eng_phy_num e]" False mid allow_io]
    by (auto simp: phl_disp_eng_notify_dev_io_status_def atLeast0LessThan split: option.splits)
next
  case shall_stop
  have "keeps (\<lambda>d. if is_dispr_started d then dispr_notify_shall_stop d else d)" by (rule keeps_if [OF keeps_shall_stop keeps_id])
  then show ?thesis using each_eng_ok [OF _ ok, of _ "[0..<eng_phy_num e]" False] shall_stop by (auto simp: phl_disp_eng_notify_shall_stop_def atLeast0LessThan)
next
  case (register new band mid ops r)
  then show ?thesis
    using ok run_eng_ok [OF ok keeps_register, of band new mid ops e' r] by (auto simp: phl_disp_eng_register_module_def split: if_splits)
next
  case (deregister band mid r)
  then show ?thesis
    using ok run_eng_ok [OF ok keeps_deregister, of band mid e' r] by (auto simp: phl_disp_eng_deregister_module_def split: if_splits)
next
  case (cur_info band r)
  then show ?thesis
    using band_eng_ok [OF ok keeps_cur_info(1)] band_eng_ok [OF ok keeps_cur_info(2)]
    by (auto simp: phl_disp_eng_set_cur_cmd_info_def phl_disp_eng_query_cur_cmd_info_def)
next
  case (mdl_info band mid r)
  then show ?thesis
    using band_eng_ok [OF ok keeps_mdl_info(1)] band_eng_ok [OF ok keeps_mdl_info(2)]
    by (auto simp: phl_disp_eng_set_bk_module_info_def phl_disp_eng_query_bk_module_info_def)
next
  case (src_info band x r)
  then show ?thesis
    using band_eng_ok [OF ok keeps_src_info(1)] band_eng_ok [OF ok keeps_src_info(2)]
    by (auto simp: phl_disp_eng_set_src_info_def phl_disp_eng_query_src_info_def)
next
  case (round m n)
  then show ?thesis using share_round_ok [OF ok] by blast
qed

end

sublocale engine_callbacks \<subseteq> eng_steps: step_invariant "eng_step env" eng_ok
  by unfold_locales (rule eng_step_ok)

section \<open>From the start of the engine\<close>

definition eng_stopped :: "'w eng \<Rightarrow> bool" where
  "eng_stopped e \<longleftrightarrow>
     (\<forall>i<eng_phy_num e. case eng_ptr e i of Some (Some d) \<Rightarrow> dispr_stopped (d\<lparr>d_sema := 0\<rparr>) | _ \<Rightarrow> False)"

lemma eng_stoppedD: "eng_stopped e \<Longrightarrow> i < eng_phy_num e \<Longrightarrow> \<exists>d. eng_ptr e i = Some (Some d) \<and> dispr_stopped (d\<lparr>d_sema := 0\<rparr>)"
  by (fastforce simp: eng_stopped_def split: option.splits)

context engine_callbacks
begin

lemma start_each_ok:
  assumes "\<forall>j<i. \<exists>d. eng_ptr e j = Some (Some d) \<and> dispr_ok [] [] (Due 0 0) (eng_load e d)"
    and "\<forall>j\<in>{i..<n}. \<exists>d. eng_ptr e j = Some (Some d) \<and> dispr_stopped (d\<lparr>d_sema := 0\<rparr>)" and "i \<le> n" and "eng_phy_num e = n"
  shows "\<exists>e'. eng_each True (\<lambda>d. Some (fst (dispr_module_start env (fst (dispr_start env d))))) [i..<n] e = Some e' \<and> eng_ok e'"
  using assms
proof (induction "n - i" arbitrary: i e)
  case 0
  then show ?case by (simp add: eng_ok_def)
next
  case (Suc m)
  let ?f = "\<lambda>d. fst (dispr_module_start env (fst (dispr_start env d)))"
  from Suc.hyps(2) have i: "i < n" by simp
  then obtain d where d: "eng_ptr e i = Some (Some d)" "dispr_stopped (d\<lparr>d_sema := 0\<rparr>)"
    using Suc.prems(2) by (meson atLeastLessThan_iff le_refl)
  then have "dispr_stopped (eng_load e d)" by (auto simp: dispr_stopped_def eng_load_def d_flag_def)
  from start_ok [OF this mdl_start_keeps] have "dispr_ok [] [] (Due 0 (eng_sema e)) (fst (dispr_start env (eng_load e d)))"
    by (simp add: eng_load_def)
  then have o: "dispr_ok [] [] (Due 0 (eng_sema e)) (?f (eng_load e d))"
    using keepsD [OF keeps_start_modules] by (simp add: dispr_module_start_def)
  let ?e = "eng_store i (?f (eng_load e d)) e"
  have "\<exists>d. eng_ptr ?e j = Some (Some d) \<and> dispr_ok [] [] (Due 0 0) (eng_load ?e d)" if j: "j < Suc i" for j
  proof (cases "j = i")
    case True
    then show ?thesis using eng_ptr_store [OF d(1)] ok_no_floor [OF o] by (simp add: ok_load)
  next
    case False
    then obtain c where c: "eng_ptr e j = Some (Some c)" "dispr_ok [] [] (Due 0 0) (eng_load e c)"
      using j Suc.prems(1) by (meson less_SucE)
    then show ?thesis using False eng_ptr_store [OF d(1)] ok_more_sema [OF _ floor_sema [OF o]] by (simp add: ok_load)
  qed
  moreover have "\<forall>j\<in>{Suc i..<n}. \<exists>d. eng_ptr ?e j = Some (Some d) \<and> dispr_stopped (d\<lparr>d_sema := 0\<rparr>)"
    using Suc.prems(2) eng_ptr_store [OF d(1)] by auto
  ultimately show ?case
    using Suc.hyps(1) [of "Suc i" ?e] Suc.hyps(2) Suc.prems(4) i d(1) by (simp add: upt_conv_Cons)
qed

lemma eng_steps_ok: "(eng_step env)\<^sup>*\<^sup>* e e' \<Longrightarrow> eng_ok e \<Longrightarrow> eng_ok e'"
  by (rule eng_steps.run_inv)

lemma eng_start_ok: "eng_stopped e \<Longrightarrow> \<exists>e'. phl_disp_eng_start env e = Some (e', RTW_PHL_STATUS_SUCCESS) \<and> eng_ok e'"
  using start_each_ok [of 0 "e\<lparr>eng_sema := 0\<rparr>" "eng_phy_num e"] eng_stoppedD [of e]
  by (auto simp: phl_disp_eng_start_def eng_ptr_def)

end

lemma engine_locale: "callbacks_keep env \<Longrightarrow> engine_callbacks env"
  by (intro engine_callbacks.intro callbacks_locale) (unfold_locales, simp_all add: callbacks_keep_def)

text \<open>
  C14: The engine serves every band. Once its dispatchers are started, along every sequence of operations of the engine (messages
  sent, cancelled and dispatched, token requests, modules that register and leave, device state, information calls) and rounds of
  its single thread, each dispatcher has each of its 24 messages in exactly one of its idle, wait and pending queues and at most
  one holder of the token, and the one semaphore of the thread still counts at least as many wake-ups as messages wait in any
  dispatcher, and is not zero while a dispatcher has a token operation queued or pending messages to take up again.
\<close>

theorem engine_serves_all:
  assumes "callbacks_keep env" and "eng_stopped e0" and "phl_disp_eng_start env e0 = Some (e1, r)" and "(eng_step env)\<^sup>*\<^sup>* e1 e"
    and "i < eng_phy_num e"
  shows "\<exists>d. eng_ptr e i = Some (Some d) \<and>
    mset (queue (msg_idle_q d) @ queue (msg_wait_q d) @ queue (msg_pend_q d)) = mset [0..<MAX_PHL_MSG_NUM] \<and>
    token_cnt d = (if cur_cmd_req d = None then 0 else 1) \<and>
    length (queue (msg_wait_q d)) \<le> eng_sema e \<and>
    (queue (token_op_q d) \<noteq> [] \<or> d_flag d DISPR_CLR_PEND_MSG \<longrightarrow> 0 < eng_sema e)"
proof -
  note loc = engine_locale [OF assms(1)]
  have "eng_ok e1" using engine_callbacks.eng_start_ok [OF loc assms(2)] assms(3) by auto
  with engine_callbacks.eng_steps_ok [OF loc assms(4)] have "eng_ok e" .
  then obtain d where d: "eng_ptr e i = Some (Some d)" "dispr_ok [] [] (Due 0 0) (eng_load e d)"
    using assms(5) by (auto simp: eng_ok_def)
  then show ?thesis
    by (intro exI [of _ d]) (auto simp: dispr_ok_def msgs_inv_def reqs_inv_def wake_inv_def eng_load_def cur_list_def d_flag_def split: option.splits)
qed

section \<open>A run of an engine with two bands\<close>

definition ex_eng0 :: "unit eng" where
  "ex_eng0 = fst (the (phl_disp_eng_init client_env True (\<lambda>_. True) 2 \<lparr>eng_dispatcher = None, eng_phy_num = 0, eng_sema = 0, eng_world = ()\<rparr>))"

definition ex_eng1 :: "unit eng" where
  "ex_eng1 = fst (the (phl_disp_eng_start client_env ex_eng0))"

definition ex_eng2 :: "unit eng" where
  "ex_eng2 = fst (the (phl_disp_eng_add_token_req 1 (Some ex_req) True ex_eng1))"

definition ex_eng3 :: "unit eng" where
  "ex_eng3 = the (share_thread_round 9 9 client_env ex_eng2)"

lemma ex_eng_stopped: "eng_stopped ex_eng0"
  by code_simp

lemma ex_eng_start: "phl_disp_eng_start client_env ex_eng0 \<noteq> None"
  by code_simp

lemma ex_eng_add: "phl_disp_eng_add_token_req 1 (Some ex_req) True ex_eng1 \<noteq> None"
  by code_simp

lemma ex_eng_sema: "0 < eng_sema ex_eng2"
  by code_simp

lemma ex_eng_round: "share_thread_round 9 9 client_env ex_eng2 \<noteq> None"
  by code_simp

lemma ex_eng_num: "1 < eng_phy_num ex_eng3"
  by code_simp

lemma ex_eng_run: "(eng_step client_env)\<^sup>*\<^sup>* ex_eng1 ex_eng3"
proof -
  have "eng_step client_env ex_eng1 ex_eng2"
    using ex_eng_add by (intro eng_step.add_req [of 1 "Some ex_req" True _ _ "snd (the (phl_disp_eng_add_token_req 1 (Some ex_req) True ex_eng1))"])
      (auto simp: ex_eng2_def)
  moreover have "eng_step client_env ex_eng2 ex_eng3"
    using ex_eng_round by (intro eng_step.round [OF ex_eng_sema, of 9 9]) (auto simp: ex_eng3_def)
  ultimately show ?thesis by (meson rtranclp.simps)
qed

theorem engine_serves_all_witness:
  "\<exists>d. eng_ptr ex_eng3 1 = Some (Some d) \<and> length (queue (msg_wait_q d)) \<le> eng_sema ex_eng3 \<and>
    token_cnt d = (if cur_cmd_req d = None then 0 else 1)"
proof -
  have "phl_disp_eng_start client_env ex_eng0 = Some (ex_eng1, snd (the (phl_disp_eng_start client_env ex_eng0)))"
    using ex_eng_start by (auto simp: ex_eng1_def)
  from engine_serves_all [OF client_keeps ex_eng_stopped this ex_eng_run ex_eng_num] show ?thesis by blast
qed

end
