(* ===== verification/Chan_Codes.thy ===== *)
theory Chan_Codes
  imports Phl_Prelude
begin

text \<open>
  The codes of bands, channel widths and secondary-channel offsets (\<^verbatim>\<open>phl/rtw_general_def.h\<close>), which the information
  elements and the channel contexts share.
\<close>

datatype band_type = BAND_ON_24G | BAND_ON_5G | BAND_ON_6G | BAND_MAX

definition CHANNEL_WIDTH_20 :: nat where "CHANNEL_WIDTH_20 = 0"
definition CHANNEL_WIDTH_40 :: nat where "CHANNEL_WIDTH_40 = 1"
definition CHANNEL_WIDTH_80 :: nat where "CHANNEL_WIDTH_80 = 2"
definition CHANNEL_WIDTH_160 :: nat where "CHANNEL_WIDTH_160 = 3"
definition CHANNEL_WIDTH_5 :: nat where "CHANNEL_WIDTH_5 = 5"
definition CHANNEL_WIDTH_10 :: nat where "CHANNEL_WIDTH_10 = 6"
definition CHAN_OFFSET_NO_EXT :: nat where "CHAN_OFFSET_NO_EXT = 0"
definition CHAN_OFFSET_UPPER :: nat where "CHAN_OFFSET_UPPER = 1"
definition CHAN_OFFSET_NO_DEF :: nat where "CHAN_OFFSET_NO_DEF = 2"
definition CHAN_OFFSET_LOWER :: nat where "CHAN_OFFSET_LOWER = 3"

named_theorems chan_codes \<open>bandwidths and offsets\<close>

lemmas [chan_codes] = CHANNEL_WIDTH_20_def CHANNEL_WIDTH_40_def CHANNEL_WIDTH_80_def CHANNEL_WIDTH_160_def CHANNEL_WIDTH_5_def
  CHANNEL_WIDTH_10_def CHAN_OFFSET_NO_EXT_def CHAN_OFFSET_UPPER_def CHAN_OFFSET_NO_DEF_def CHAN_OFFSET_LOWER_def

end
