(* ===== verification/Core_Ie.thy ===== *)
theory Core_Ie
  imports Phl_Bytes Chan_Codes "HOL-Library.Monad_Syntax"
begin

text \<open>
  Information elements (\<^verbatim>\<open>core/rtw_ieee80211.c\<close>): the building, search, update and removal of elements in the body of a
  management frame, most of them received from the air.

  A buffer is the list of its bytes, as long as the memory behind it; a pointer into it is an offset. An access outside the
  buffer makes the result \<open>None\<close>. Lengths are far below the range of their C types, except where a difference can be negative:
  there the wrap-around is written out.
\<close>

section \<open>Access to a buffer\<close>

definition rd :: "u8w list \<Rightarrow> nat \<Rightarrow> nat option" where
  "rd m i = (if i < length m then Some (unat (m ! i)) else None)"

definition rdn :: "u8w list \<Rightarrow> nat \<Rightarrow> nat \<Rightarrow> u8w list option" where
  "rdn m i n = (if i + n \<le> length m then Some (seg i n m) else None)"

definition wrn :: "u8w list \<Rightarrow> nat \<Rightarrow> u8w list \<Rightarrow> u8w list option" where
  "wrn m i bs = (if i + length bs \<le> length m then Some (take i m @ bs @ drop (i + length bs) m) else None)"

definition mem_move :: "u8w list \<Rightarrow> nat \<Rightarrow> nat \<Rightarrow> nat \<Rightarrow> u8w list option" where
  "mem_move m dst src n = do { bs \<leftarrow> rdn m src n; wrn m dst bs }"

definition mem_eq :: "u8w list \<Rightarrow> nat \<Rightarrow> u8w list \<Rightarrow> bool option" where
  "mem_eq m i bs = map_option (\<lambda>x. x = bs) (rdn m i (length bs))"

text \<open>The difference of two lengths in an unsigned 32-bit variable.\<close>

definition u32_diff :: "nat \<Rightarrow> nat \<Rightarrow> nat" where
  "u32_diff a b = nat ((int a - int b) mod 2 ^ 32)"

definition RTW_GET_LE16 :: "u8w list \<Rightarrow> nat \<Rightarrow> nat option" where
  "RTW_GET_LE16 m i = do { a \<leftarrow> rd m i; b \<leftarrow> rd m (i + 1); Some (256 * b + a) }"

definition RTW_GET_BE16 :: "u8w list \<Rightarrow> nat \<Rightarrow> nat option" where
  "RTW_GET_BE16 m i = do { a \<leftarrow> rd m i; b \<leftarrow> rd m (i + 1); Some (256 * a + b) }"

definition RTW_GET_BE24 :: "u8w list \<Rightarrow> nat \<Rightarrow> nat option" where
  "RTW_GET_BE24 m i = do { a \<leftarrow> rd m i; b \<leftarrow> rd m (i + 1); c \<leftarrow> rd m (i + 2); Some (65536 * a + 256 * b + c) }"

definition RTW_PUT_LE16 :: "nat \<Rightarrow> u8w list" where
  "RTW_PUT_LE16 v = [of_nat (v mod 256), of_nat (v div 256 mod 256)]"

section \<open>Building elements\<close>

definition WLAN_EID_CHANNEL_SWITCH :: nat where "WLAN_EID_CHANNEL_SWITCH = 37"
definition WLAN_EID_SECONDARY_CHANNEL_OFFSET :: nat where "WLAN_EID_SECONDARY_CHANNEL_OFFSET = 62"

definition rtw_set_fixed_ie :: "u8w list \<Rightarrow> nat \<Rightarrow> u8w list \<Rightarrow> nat \<Rightarrow> (u8w list \<times> nat \<times> nat) option" where
  "rtw_set_fixed_ie m pbuf source frlen =
     do { m1 \<leftarrow> wrn m pbuf source; Some (m1, frlen + length source, pbuf + length source) }"

text \<open>The identifier and the length are stored as bytes; the content has the length given by the caller.\<close>

definition rtw_set_ie :: "u8w list \<Rightarrow> nat \<Rightarrow> nat \<Rightarrow> u8w list \<Rightarrow> nat \<Rightarrow> (u8w list \<times> nat \<times> nat) option" where
  "rtw_set_ie m pbuf index source frlen =
     do { m1 \<leftarrow> wrn m pbuf [of_nat index, of_nat (length source)];
          m2 \<leftarrow> (if source \<noteq> [] then wrn m1 (pbuf + 2) source else Some m1);
          Some (m2, frlen + (length source + 2), pbuf + length source + 2) }"

definition rtw_set_ie_ch_switch :: "u8w list \<Rightarrow> nat \<Rightarrow> nat \<Rightarrow> u8w \<Rightarrow> u8w \<Rightarrow> u8w \<Rightarrow> (u8w list \<times> nat \<times> nat) option" where
  "rtw_set_ie_ch_switch m buf buf_len ch_switch_mode new_ch ch_switch_cnt =
     rtw_set_ie m buf WLAN_EID_CHANNEL_SWITCH [ch_switch_mode, new_ch, ch_switch_cnt] buf_len"

definition rtw_set_ie_secondary_ch_offset :: "u8w list \<Rightarrow> nat \<Rightarrow> nat \<Rightarrow> u8w \<Rightarrow> (u8w list \<times> nat \<times> nat) option" where
  "rtw_set_ie_secondary_ch_offset m buf buf_len secondary_ch_offset =
     rtw_set_ie m buf WLAN_EID_SECONDARY_CHANNEL_OFFSET [secondary_ch_offset] buf_len"

definition rtw_set_ie_mesh_ch_switch_parm ::
  "u8w list \<Rightarrow> nat \<Rightarrow> nat \<Rightarrow> u8w \<Rightarrow> u8w \<Rightarrow> nat \<Rightarrow> nat \<Rightarrow> (u8w list \<times> nat \<times> nat) option" where
  "rtw_set_ie_mesh_ch_switch_parm m buf buf_len ttl flags reason precedence =
     rtw_set_ie m buf 0x118 ([ttl, flags] @ RTW_PUT_LE16 reason @ RTW_PUT_LE16 precedence) buf_len"

definition IEEE80211_SCN :: nat where "IEEE80211_SCN = 0"
definition IEEE80211_SCA :: nat where "IEEE80211_SCA = 1"
definition IEEE80211_SCB :: nat where "IEEE80211_SCB = 3"

definition secondary_ch_offset_to_hal_ch_offset :: "nat \<Rightarrow> nat" where
  "secondary_ch_offset_to_hal_ch_offset ch_offset =
     (if ch_offset = IEEE80211_SCN then CHAN_OFFSET_NO_EXT
      else if ch_offset = IEEE80211_SCA then CHAN_OFFSET_UPPER
      else if ch_offset = IEEE80211_SCB then CHAN_OFFSET_LOWER
      else CHAN_OFFSET_NO_EXT)"

definition hal_ch_offset_to_secondary_ch_offset :: "nat \<Rightarrow> nat" where
  "hal_ch_offset_to_secondary_ch_offset ch_offset =
     (if ch_offset = CHAN_OFFSET_NO_EXT then IEEE80211_SCN
      else if ch_offset = CHAN_OFFSET_UPPER then IEEE80211_SCA
      else if ch_offset = CHAN_OFFSET_LOWER then IEEE80211_SCB
      else IEEE80211_SCN)"

section \<open>Searching elements\<close>

text \<open>
  The results of a search: \<open>None\<close> is an access outside the buffer, \<open>Some None\<close> a NULL pointer. The loop of
  \<^verbatim>\<open>rtw_get_ie\<close> tests its limit after an element, so it looks at the first in any case; the length at a NULL pointer is
  zero, or untouched for a limit below one, and no caller uses it.
\<close>

function get_ie_loop :: "u8w list \<Rightarrow> nat \<Rightarrow> nat \<Rightarrow> nat \<Rightarrow> nat \<Rightarrow> (nat \<times> nat) option option" where
  "get_ie_loop m p index i limit =
     do { b \<leftarrow> rd m p;
          l \<leftarrow> rd m (p + 1);
          if b = index then Some (Some (p, l))
          else if limit \<le> i + (l + 2) then Some None
          else get_ie_loop m (p + (l + 2)) index (i + (l + 2)) limit }"
  by pat_completeness auto
termination
  by (relation "measure (\<lambda>(m, p, index, i, limit). limit - i)") auto

declare get_ie_loop.simps [simp del]

definition rtw_get_ie :: "u8w list \<Rightarrow> nat \<Rightarrow> nat \<Rightarrow> int \<Rightarrow> (nat \<times> nat) option option" where
  "rtw_get_ie m pbuf index limit = (if limit < 1 then Some None else get_ie_loop m pbuf index 0 (nat limit))"

text \<open>
  The place of a match in \<^verbatim>\<open>rtw_get_ie_ex\<close>; \<open>hit\<close> says whether the element at a place, whose identifier was read,
  has the wanted vendor.
\<close>

definition oui_hit :: "u8w list \<Rightarrow> u8w list option \<Rightarrow> nat \<Rightarrow> bool option" where
  "oui_hit m oui p = (case oui of None \<Rightarrow> Some True | Some o' \<Rightarrow> mem_eq m (p + 2) o')"

function get_ie_ex_loop :: "u8w list \<Rightarrow> nat \<Rightarrow> nat \<Rightarrow> nat \<Rightarrow> u8w list option \<Rightarrow> nat \<Rightarrow> nat option option" where
  "get_ie_ex_loop m in_ie in_len eid oui cnt =
     (if cnt < in_len then
        do { b \<leftarrow> rd m (in_ie + cnt);
             hit \<leftarrow> (if b = eid then oui_hit m oui (in_ie + cnt) else Some False);
             if hit then Some (Some (in_ie + cnt))
             else do { l \<leftarrow> rd m (in_ie + cnt + 1); get_ie_ex_loop m in_ie in_len eid oui (cnt + (l + 2)) } }
      else Some None)"
  by pat_completeness auto
termination
  by (relation "measure (\<lambda>(m, in_ie, in_len, eid, oui, cnt). in_len - cnt)") auto

declare get_ie_ex_loop.simps [simp del]

text \<open>
  What a search hands out of the element it found: its place, its length if wanted, and the copy of it, if there is a buffer
  for it, of the given size.
\<close>

definition found_ie :: "u8w list \<Rightarrow> nat option \<Rightarrow> bool \<Rightarrow> nat option \<Rightarrow> (nat \<times> nat \<times> u8w list) option option" where
  "found_ie m ie ielen target =
     (case target of None \<Rightarrow> Some None
      | Some p \<Rightarrow>
          do { l \<leftarrow> (if ie \<noteq> None \<or> ielen then rd m (p + 1) else Some 0);
               copy \<leftarrow> (case ie of None \<Rightarrow> Some [] | Some sz \<Rightarrow> if l + 2 \<le> sz then rdn m p (l + 2) else None);
               Some (Some (p, if ielen then l + 2 else 0, copy)) })"

definition rtw_get_ie_ex ::
  "u8w list \<Rightarrow> nat option \<Rightarrow> nat \<Rightarrow> nat \<Rightarrow> u8w list option \<Rightarrow> nat option \<Rightarrow> bool \<Rightarrow> (nat \<times> nat \<times> u8w list) option option" where
  "rtw_get_ie_ex m in_ie in_len eid oui ie ielen =
     (case in_ie of None \<Rightarrow> Some None
      | Some p \<Rightarrow>
          if in_len = 0 then Some None
          else do { target \<leftarrow> get_ie_ex_loop m p in_len eid oui 0; found_ie m ie ielen target })"

section \<open>Updating and removing elements\<close>

datatype rtw_ret = RTW_FAIL | RTW_SUCCESS

text \<open>
  \<open>backup_ok\<close> says whether the memory for the elements behind the changed one is there. It is not given back.
\<close>

definition rtw_ies_update_ie ::
  "bool \<Rightarrow> u8w list \<Rightarrow> nat option \<Rightarrow> nat \<Rightarrow> nat \<Rightarrow> nat \<Rightarrow> u8w list \<Rightarrow> (u8w list \<times> nat \<times> rtw_ret) option" where
  "rtw_ies_update_ie backup_ok m ies ies_len ies_offset eid content =
     (case ies of None \<Rightarrow> Some (m, ies_len, RTW_FAIL)
      | Some p \<Rightarrow>
          if ies_len = 0 \<or> ies_len \<le> ies_offset then Some (m, ies_len, RTW_FAIL)
          else
            let start = p + ies_offset; search_len = ies_len - ies_offset; content_len = length content in
            do { r \<leftarrow> rtw_get_ie m start eid (int search_len);
                 (case r of
                    None \<Rightarrow> Some (m, ies_len, RTW_FAIL)
                  | Some (target_ie, target_ielen) \<Rightarrow>
                      if target_ielen = 0 then Some (m, ies_len, RTW_FAIL)
                      else if target_ielen \<noteq> content_len then
                        let remain_len = u32_diff search_len (target_ie + 2 + target_ielen - start) in
                        if \<not> backup_ok then Some (m, ies_len, RTW_FAIL)
                        else
                          do { backup_ies \<leftarrow> rdn m (target_ie + 2 + target_ielen) remain_len;
                               m1 \<leftarrow> wrn m (target_ie + 2) content;
                               m2 \<leftarrow> wrn m1 (target_ie + 1) [of_nat content_len];
                               m3 \<leftarrow> wrn m2 (target_ie + 2 + content_len) backup_ies;
                               Some (m3, nat ((int ies_len + (int content_len - int target_ielen)) mod 2 ^ 32), RTW_SUCCESS) }
                      else
                        do { m1 \<leftarrow> wrn m (target_ie + 2) content;
                             m2 \<leftarrow> wrn m1 (target_ie + 1) [of_nat content_len];
                             Some (m2, ies_len, RTW_SUCCESS) }) })"

text \<open>
  The loop of \<^verbatim>\<open>rtw_ies_remove_ie\<close>: the search starts again at the place of the removed element. It ends because a
  removed element makes the search shorter, or else, where the element overruns the search, the move accesses memory outside the
  buffer; \<open>fuel\<close> counts the rounds.
\<close>

fun remove_ie_loop ::
  "nat \<Rightarrow> u8w list \<Rightarrow> nat \<Rightarrow> nat \<Rightarrow> nat \<Rightarrow> nat \<Rightarrow> u8w list option \<Rightarrow> rtw_ret \<Rightarrow> (u8w list \<times> nat \<times> rtw_ret) option" where
  "remove_ie_loop 0 m start search_len ies_len eid oui ret = None"
| "remove_ie_loop (Suc fuel) m start search_len ies_len eid oui ret =
     do { r \<leftarrow> rtw_get_ie_ex m (Some start) search_len eid oui None True;
          (case r of
             None \<Rightarrow> Some (m, ies_len, ret)
           | Some (target_ie, target_ielen, _) \<Rightarrow>
               let remain_len = u32_diff search_len (target_ie + target_ielen - start) in
               do { m1 \<leftarrow> mem_move m target_ie (target_ie + target_ielen) remain_len;
                    remove_ie_loop fuel m1 target_ie remain_len (u32_diff ies_len target_ielen) eid oui RTW_SUCCESS }) }"

definition rtw_ies_remove_ie ::
  "u8w list \<Rightarrow> nat option \<Rightarrow> nat \<Rightarrow> nat \<Rightarrow> nat \<Rightarrow> u8w list option \<Rightarrow> (u8w list \<times> nat \<times> rtw_ret) option" where
  "rtw_ies_remove_ie m ies ies_len offset eid oui =
     (case ies of None \<Rightarrow> Some (m, ies_len, RTW_FAIL)
      | Some p \<Rightarrow>
          if ies_len \<le> offset then Some (m, ies_len, RTW_FAIL)
          else remove_ie_loop (Suc (length m)) m (p + offset) (ies_len - offset) ies_len eid oui RTW_FAIL)"

section \<open>Lists of elements\<close>

text \<open>The elements a buffer holds, and their bytes.\<close>

type_synonym element = "u8w \<times> u8w list"

definition ie_bytes :: "element \<Rightarrow> u8w list" where
  "ie_bytes e = fst e # of_nat (length (snd e)) # snd e"

definition ies_bytes :: "element list \<Rightarrow> u8w list" where
  "ies_bytes es = concat (map ie_bytes es)"

definition ie_ok :: "element \<Rightarrow> bool" where
  "ie_ok e \<longleftrightarrow> length (snd e) \<le> 255"

lemma ies_bytes_simps [simp]: "ies_bytes [] = []" "ies_bytes (e # es) = ie_bytes e @ ies_bytes es"
  "ies_bytes (es @ fs) = ies_bytes es @ ies_bytes fs"
  by (simp_all add: ies_bytes_def)

lemma ie_bytes_length [simp]: "length (ie_bytes e) = length (snd e) + 2"
  by (simp add: ie_bytes_def)

lemma unat_len: "n \<le> 255 \<Longrightarrow> unat (of_nat n :: u8w) = n"
  by (simp add: unat_of_nat)

text \<open>An element at a place of a buffer.\<close>

definition ie_at :: "u8w list \<Rightarrow> nat \<Rightarrow> element \<Rightarrow> bool" where
  "ie_at m p e \<longleftrightarrow> ie_ok e \<and> (\<exists>pre post. m = pre @ ie_bytes e @ post \<and> length pre = p)"

lemma ie_at_I: "ie_ok e \<Longrightarrow> length pre = p \<Longrightarrow> ie_at (pre @ ie_bytes e @ post) p e"
  by (auto simp: ie_at_def)

lemma ie_at_rd:
  assumes "ie_at m p e"
  shows "rd m p = Some (unat (fst e))" "rd m (p + 1) = Some (length (snd e))" "rd m (Suc p) = Some (length (snd e))"
    "n \<le> length (snd e) \<Longrightarrow> rdn m (p + 2) n = Some (take n (snd e))" "rdn m p (length (snd e) + 2) = Some (ie_bytes e)"
    "n \<le> length (snd e) \<Longrightarrow> rdn m (Suc (Suc p)) n = Some (take n (snd e))"
  using assms by (auto simp: ie_at_def ie_bytes_def rd_def rdn_def seg_def nth_append unat_len ie_ok_def)

lemma rdn_none: "length m < i + n \<Longrightarrow> rdn m i n = None"
  by (simp add: rdn_def)

lemma u32_diff_le: "b \<le> a \<Longrightarrow> a < 2 ^ 32 \<Longrightarrow> u32_diff a b = a - b"
  by (simp add: u32_diff_def nat_diff_distrib' flip: of_nat_diff)

lemma u32_diff_wrap: "a < b \<Longrightarrow> b \<le> 2 ^ 32 \<Longrightarrow> u32_diff a b = 2 ^ 32 + a - b"
  by (simp add: u32_diff_def int_mod_neg nat_diff_distrib' nat_add_distrib flip: of_nat_add of_nat_diff) 

lemma get_le16:
  assumes "m = pre @ RTW_PUT_LE16 n @ post" and "n < 65536"
  shows "RTW_GET_LE16 m (length pre) = Some n"
proof -
  have "unat (of_nat (n div 256 mod 256) :: u8w) = n div 256" "unat (of_nat (n mod 256) :: u8w) = n mod 256"
    using assms(2) by (simp_all add: unat_of_nat)
  then show ?thesis using assms(1) by (simp add: RTW_GET_LE16_def rd_def RTW_PUT_LE16_def nth_append)
qed

section \<open>A search finds the first element\<close>

text \<open>
  What every search of this file does with the element in front of it: it ends where nothing is left, hands out an element it
  looks for, and goes on behind any other. \<open>look m p n\<close> is the search at \<open>p\<close> with \<open>n\<close> bytes left, \<open>want\<close> the elements it looks for.
\<close>

fun first_at :: "(element \<Rightarrow> bool) \<Rightarrow> nat \<Rightarrow> element list \<Rightarrow> (nat \<times> element) option" where
  "first_at want p [] = None"
| "first_at want p (e # es) = (if want e then Some (p, e) else first_at want (p + length (ie_bytes e)) es)"

locale element_search =
  fixes look :: "u8w list \<Rightarrow> nat \<Rightarrow> nat \<Rightarrow> 'r option" and want :: "element \<Rightarrow> bool" and none :: 'r and some :: "nat \<times> element \<Rightarrow> 'r"
    and fit :: "element \<Rightarrow> bool"
  assumes look_end: "look m p 0 = Some none"
    and look_want: "ie_at m p e \<Longrightarrow> fit e \<Longrightarrow> want e \<Longrightarrow> length (ie_bytes e) \<le> n \<Longrightarrow> look m p n = Some (some (p, e))"
    and look_other: "ie_at m p e \<Longrightarrow> fit e \<Longrightarrow> \<not> want e \<Longrightarrow> length (ie_bytes e) \<le> n \<Longrightarrow>
      look m p n = look m (p + length (ie_bytes e)) (n - length (ie_bytes e))"
begin

lemma look_from:
  "m = pre @ ies_bytes es @ post \<Longrightarrow> \<forall>e\<in>set es. ie_ok e \<and> fit e \<Longrightarrow>
     look m (length pre) (length (ies_bytes es) + t) =
       (case first_at want (length pre) es of None \<Rightarrow> look m (length pre + length (ies_bytes es)) t | Some x \<Rightarrow> Some (some x))"
proof (induction es arbitrary: pre)
  case (Cons e es)
  have at: "ie_at m (length pre) e" using Cons.prems by (auto simp: ie_at_def)
  show ?case
  proof (cases "want e")
    case True
    then show ?thesis using look_want [OF at] Cons.prems by simp
  next
    case False
    have "m = (pre @ ie_bytes e) @ ies_bytes es @ post" using Cons.prems by simp
    from Cons.IH [OF this] Cons.prems False look_other [OF at, of "length (ies_bytes (e # es)) + t"] show ?thesis
      by (simp add: add.assoc split: option.splits)
  qed
qed simp

lemma look_first:
  "m = pre @ ies_bytes es @ post \<Longrightarrow> \<forall>e\<in>set es. ie_ok e \<and> fit e \<Longrightarrow>
     look m (length pre) (length (ies_bytes es)) = Some (case first_at want (length pre) es of None \<Rightarrow> none | Some x \<Rightarrow> some x)"
  using look_from [of m pre es post 0] by (simp add: look_end split: option.splits)

end

definition get_ie_look :: "nat \<Rightarrow> u8w list \<Rightarrow> nat \<Rightarrow> nat \<Rightarrow> (nat \<times> nat) option option" where
  "get_ie_look index m p n = rtw_get_ie m p index (int n)"

lemma rtw_get_ie_nat: "rtw_get_ie m p index (int n) = (if n = 0 then Some None else get_ie_loop m p index 0 n)"
  by (auto simp: rtw_get_ie_def)

lemma get_ie_loop_step:
  "rd m p = Some b \<Longrightarrow> rd m (p + 1) = Some l \<Longrightarrow>
     get_ie_loop m p index i limit =
       (if b = index then Some (Some (p, l)) else if limit \<le> i + (l + 2) then Some None
        else get_ie_loop m (p + (l + 2)) index (i + (l + 2)) limit)"
  by (subst get_ie_loop.simps) simp

lemma get_ie_loop_fault: "rd m p = None \<or> rd m (p + 1) = None \<Longrightarrow> get_ie_loop m p index i limit = None"
  by (subst get_ie_loop.simps) (auto simp: bind_eq_None_conv)

lemma get_ie_loop_shift: "k \<le> i \<Longrightarrow> k \<le> limit \<Longrightarrow> get_ie_loop m p index i limit = get_ie_loop m p index (i - k) (limit - k)"
proof (induction m p index i limit rule: get_ie_loop.induct)
  case (1 m p index i limit)
  show ?case
  proof (cases "rd m p = None \<or> rd m (p + 1) = None")
    case True
    then show ?thesis by (simp add: get_ie_loop_fault)
  next
    case False
    then obtain b l where r: "rd m p = Some b" "rd m (p + 1) = Some l" by (meson option.exhaust)
    have "limit - k \<le> i - k + (l + 2) \<longleftrightarrow> limit \<le> i + (l + 2)" "i - k + (l + 2) = i + (l + 2) - k" using 1(2,3) by linarith+
    then show ?thesis using 1(1) [OF r] 1(2,3) by (simp add: get_ie_loop_step [OF r] del: add_2_eq_Suc')
  qed
qed

interpretation get_ie: element_search "get_ie_look index" "\<lambda>e. unat (fst e) = index" None "\<lambda>(p, e). Some (p, length (snd e))" "\<lambda>e. True"
proof unfold_locales
  fix m p e n
  assume a: "ie_at m p e" "unat (fst e) \<noteq> index" "length (ie_bytes e) \<le> n"
  have "get_ie_loop m (p + (length (snd e) + 2)) index (length (snd e) + 2) n =
      get_ie_loop m (p + (length (snd e) + 2)) index 0 (n - (length (snd e) + 2))"
    using a(3) get_ie_loop_shift [of "length (snd e) + 2" "length (snd e) + 2" n] by simp
  then show "get_ie_look index m p n = get_ie_look index m (p + length (ie_bytes e)) (n - length (ie_bytes e))"
    unfolding get_ie_look_def rtw_get_ie_nat
    using a(2,3) get_ie_loop_step [OF ie_at_rd(1) [OF a(1)] ie_at_rd(2) [OF a(1)], of index 0 n] by simp
qed (auto simp: get_ie_look_def rtw_get_ie_nat rtw_get_ie_def get_ie_loop_step [OF ie_at_rd(1) ie_at_rd(2)])

text \<open>In a well-formed list of elements \<^verbatim>\<open>rtw_get_ie\<close> finds the first element with the wanted identifier and its length.\<close>

lemma get_ie_finds_first:
  assumes "\<forall>e\<in>set es. ie_ok e"
  shows "rtw_get_ie (pre @ ies_bytes es @ post) (length pre) index (int (length (ies_bytes es))) =
    Some (map_option (\<lambda>(p, e). (p, length (snd e))) (first_at (\<lambda>e. unat (fst e) = index) (length pre) es))"
  using get_ie.look_first [OF refl, of es index pre post] assms by (simp add: get_ie_look_def split: option.split)

definition get_ie_ex_look :: "nat \<Rightarrow> u8w list option \<Rightarrow> u8w list \<Rightarrow> nat \<Rightarrow> nat \<Rightarrow> nat option option" where
  "get_ie_ex_look eid oui m p n = get_ie_ex_loop m p n eid oui 0"

definition ie_match :: "nat \<Rightarrow> u8w list option \<Rightarrow> element \<Rightarrow> bool" where
  "ie_match eid oui e \<longleftrightarrow> unat (fst e) = eid \<and> (case oui of None \<Rightarrow> True | Some v \<Rightarrow> take (length v) (snd e) = v)"

text \<open>An element of the wanted identifier is long enough for the vendor it is compared with.\<close>

definition ie_fit :: "nat \<Rightarrow> u8w list option \<Rightarrow> element \<Rightarrow> bool" where
  "ie_fit eid oui e \<longleftrightarrow> (unat (fst e) = eid \<longrightarrow> (case oui of None \<Rightarrow> True | Some v \<Rightarrow> length v \<le> length (snd e)))"

lemma get_ie_ex_loop_shift: "k \<le> cnt \<Longrightarrow> k \<le> n \<Longrightarrow> get_ie_ex_loop m p n eid oui cnt = get_ie_ex_loop m (p + k) (n - k) eid oui (cnt - k)"
proof (induction m p n eid oui cnt rule: get_ie_ex_loop.induct)
  case (1 m p n eid oui cnt)
  have e: "p + k + (cnt - k) = p + cnt" "cnt - k < n - k \<longleftrightarrow> cnt < n" "cnt - k + (l + 2) = cnt + (l + 2) - k" for l using 1(2,3) by linarith+
  show ?case
    using 1(1) 1(2,3)
    by (subst get_ie_ex_loop.simps, subst (2) get_ie_ex_loop.simps)
      (auto simp: e intro!: Option.bind_cong simp del: add_2_eq_Suc' cong: if_cong)
qed

lemma oui_hit_fit: "ie_at m p e \<Longrightarrow> unat (fst e) = eid \<Longrightarrow> ie_fit eid oui e \<Longrightarrow> oui_hit m oui p = Some (ie_match eid oui e)"
  by (auto simp: oui_hit_def mem_eq_def ie_match_def ie_fit_def ie_at_rd split: option.splits)

interpretation get_ie_ex: element_search "get_ie_ex_look eid oui" "ie_match eid oui" None "\<lambda>(p, e). Some p" "ie_fit eid oui"
proof unfold_locales
  fix m p
  show "get_ie_ex_look eid oui m p 0 = Some None" by (simp add: get_ie_ex_look_def get_ie_ex_loop.simps)
next
  fix m p e n
  assume a: "ie_at m p e" "ie_fit eid oui e" "ie_match eid oui e" "length (ie_bytes e) \<le> n"
  then show "get_ie_ex_look eid oui m p n = Some (case (p, e) of (p, e) \<Rightarrow> Some p)"
    using oui_hit_fit [OF a(1) _ a(2)]
    by (subst get_ie_ex_look_def, subst get_ie_ex_loop.simps) (simp add: ie_at_rd [OF a(1)] ie_match_def)
next
  fix m p e n
  assume a: "ie_at m p e" "ie_fit eid oui e" "\<not> ie_match eid oui e" "length (ie_bytes e) \<le> n"
  have "get_ie_ex_look eid oui m p n = get_ie_ex_loop m p n eid oui (length (snd e) + 2)"
    using a oui_hit_fit [OF a(1) _ a(2)]
    by (subst get_ie_ex_look_def, subst get_ie_ex_loop.simps) (simp add: ie_at_rd [OF a(1)] ie_match_def)
  then show "get_ie_ex_look eid oui m p n = get_ie_ex_look eid oui m (p + length (ie_bytes e)) (n - length (ie_bytes e))"
    using a(4) get_ie_ex_loop_shift [of "length (snd e) + 2" "length (snd e) + 2" n] by (simp add: get_ie_ex_look_def)
qed

lemma first_at_split:
  "first_at want p es = Some (q, e) \<Longrightarrow> \<exists>xs ys. es = xs @ e # ys \<and> q = p + length (ies_bytes xs) \<and> want e \<and> (\<forall>x\<in>set xs. \<not> want x)"
proof (induction es arbitrary: p)
  case (Cons x es)
  show ?case
  proof (cases "want x")
    case True
    then show ?thesis using Cons.prems by (intro exI [of _ "[]"] exI [of _ es]) auto
  next
    case False
    with Cons obtain xs ys where "es = xs @ e # ys" "q = p + length (ie_bytes x) + length (ies_bytes xs)" "want e" "\<forall>y\<in>set xs. \<not> want y"
      by fastforce
    then show ?thesis using False by (intro exI [of _ "x # xs"] exI [of _ ys]) auto
  qed
qed simp

lemma first_at_none: "first_at want p es = None \<longleftrightarrow> (\<forall>e\<in>set es. \<not> want e)"
  by (induction es arbitrary: p) auto

lemma get_ie_ex_first:
  assumes "\<forall>e\<in>set es. ie_ok e \<and> ie_fit eid oui e" and m: "m = pre @ ies_bytes es @ post"
    and f: "first_at (ie_match eid oui) (length pre) es = Some (p, e)"
  shows "rtw_get_ie_ex m (Some (length pre)) (length (ies_bytes es) + t) eid oui None True = Some (Some (p, length (ie_bytes e), []))"
proof -
  from first_at_split [OF f] obtain xs ys where es: "es = xs @ e # ys" "p = length pre + length (ies_bytes xs)" by blast
  have at: "ie_at m p e"
    unfolding ie_at_def using es assms by (intro conjI exI [of _ "pre @ ies_bytes xs"] exI [of _ "ies_bytes ys @ post"]) auto
  have "get_ie_ex_loop m (length pre) (length (ies_bytes es) + t) eid oui 0 = Some (Some p)"
    using get_ie_ex.look_from [OF m assms(1), of t] f by (simp add: get_ie_ex_look_def)
  then show ?thesis using es(1) by (simp add: rtw_get_ie_ex_def found_ie_def ie_at_rd [OF at])
qed

text \<open>The search behind elements that do not match.\<close>

lemma get_ie_ex_rest:
  assumes "\<forall>e\<in>set es. ie_ok e \<and> ie_fit eid oui e" and "m = pre @ ies_bytes es @ post" and "\<forall>e\<in>set es. \<not> ie_match eid oui e"
  shows "rtw_get_ie_ex m (Some (length pre)) (length (ies_bytes es) + t) eid oui ie ielen =
    rtw_get_ie_ex m (Some (length pre + length (ies_bytes es))) t eid oui ie ielen"
  using get_ie_ex.look_from [OF assms(2,1), of t] assms(3) first_at_none [of "ie_match eid oui" "length pre" es]
    get_ie_ex.look_end [of eid oui m "length pre + length (ies_bytes es)"]
  by (auto simp: rtw_get_ie_ex_def get_ie_ex_look_def found_ie_def)

section \<open>Removing elements\<close>

lemma rdn_append: "rdn (pre @ bs @ post) (length pre) (length bs) = Some bs"
  by (simp add: rdn_def seg_def)

lemma wrn_append: "length cs = length bs \<Longrightarrow> wrn (pre @ bs @ post) (length pre) cs = Some (pre @ cs @ post)"
  by (simp add: wrn_def)

lemma mem_move_down:
  assumes "m = pre @ gap @ bs @ post"
  shows "mem_move m (length pre) (length pre + length gap) (length bs) = Some (pre @ bs @ drop (length bs) (gap @ bs) @ post)"
proof -
  have "rdn m (length pre + length gap) (length bs) = Some bs"
    using rdn_append [of "pre @ gap" bs post] assms by simp
  moreover have "wrn m (length pre) bs = Some (pre @ bs @ drop (length bs) (gap @ bs @ post))"
    using assms by (simp add: wrn_def)
  moreover have "drop (length bs) (gap @ bs @ post) = drop (length bs) (gap @ bs) @ post"
    by (metis append.assoc append_Nil2 drop_append diff_is_0_eq' drop0 le_add2 length_append)
  ultimately show ?thesis by (simp add: mem_move_def)
qed

definition removed :: "nat \<Rightarrow> u8w list option \<Rightarrow> element list \<Rightarrow> nat" where
  "removed eid oui es = length (ies_bytes (filter (ie_match eid oui) es))"

lemma removed_simps [simp]:
  "removed eid oui [] = 0" "removed eid oui (es @ fs) = removed eid oui es + removed eid oui fs"
  "removed eid oui (e # es) = (if ie_match eid oui e then length (ie_bytes e) else 0) + removed eid oui es"
  by (simp_all add: removed_def)

lemma removed_none: "\<forall>e\<in>set es. \<not> ie_match eid oui e \<Longrightarrow> removed eid oui es = 0"
  by (simp add: removed_def)

lemma kept_length: "length (ies_bytes (filter (\<lambda>e. \<not> ie_match eid oui e) es)) + removed eid oui es = length (ies_bytes es)"
  by (induction es) auto

lemma removed_le: "removed eid oui es \<le> length (ies_bytes es)"
  by (induction es) auto

text \<open>
  The end of a search: a tail in which nothing is found, or an element that is longer than what is left of the search.
\<close>

definition tail_search :: "bool \<Rightarrow> nat \<Rightarrow> u8w list option \<Rightarrow> u8w list \<Rightarrow> bool" where
  "tail_search hit eid oui tail \<longleftrightarrow>
     (\<forall>pre post. rtw_get_ie_ex (pre @ tail @ post) (Some (length pre)) (length tail) eid oui None True =
        Some (if hit then Some (length pre, unat (tail ! 1) + 2, []) else None)) \<and>
     (hit \<longrightarrow> length tail < unat (tail ! 1) + 2)"

lemma unat_u8w: "unat (x :: u8w) < 256"
  using unsigned_less [of x] by simp

lemma remove_loop_filter:
  assumes "\<forall>e\<in>set es. ie_ok e \<and> ie_fit eid oui e" and "m = pre @ ies_bytes es @ tail @ post" and "length (ies_bytes es @ tail) \<le> ies_len"
    and "ies_len < 2 ^ 32" and "length (filter (ie_match eid oui) es) < fuel" and "tail_search hit eid oui tail" and "length m + 257 < 2 ^ 32"
  shows "\<exists>junk. length junk = removed eid oui es \<and>
    remove_ie_loop fuel m (length pre) (length (ies_bytes es @ tail)) ies_len eid oui ret =
      (if hit then None
       else Some (pre @ ies_bytes (filter (\<lambda>e. \<not> ie_match eid oui e) es) @ tail @ junk @ post, ies_len - removed eid oui es,
         if \<exists>e\<in>set es. ie_match eid oui e then RTW_SUCCESS else ret))"
  using assms(1-5,7)
proof (induction fuel arbitrary: m pre es post ies_len ret)
  case (Suc fuel)
  show ?case
  proof (cases "first_at (ie_match eid oui) (length pre) es")
    case None
    then have n: "\<forall>e\<in>set es. \<not> ie_match eid oui e" by (simp add: first_at_none)
    have f: "filter (\<lambda>e. \<not> ie_match eid oui e) es = es" using n by simp
    let ?pre = "pre @ ies_bytes es"
    have r: "rtw_get_ie_ex m (Some (length pre)) (length (ies_bytes es @ tail)) eid oui None True =
      Some (if hit then Some (length ?pre, unat (tail ! 1) + 2, []) else None)"
    proof -
      have "rtw_get_ie_ex (?pre @ tail @ post) (Some (length ?pre)) (length tail) eid oui None True =
        Some (if hit then Some (length ?pre, unat (tail ! 1) + 2, []) else None)"
        using assms(6) unfolding tail_search_def by blast
      then show ?thesis
        using get_ie_ex_rest [OF Suc.prems(1,2) n, of "length tail" None True] Suc.prems(2) by simp
    qed
    have w: "u32_diff (length (ies_bytes es @ tail)) (length ?pre + (unat (tail ! 1) + 2) - length pre) + 257 \<ge> 2 ^ 32" if hit
    proof -
      have "length (ies_bytes es @ tail) < length ?pre + (unat (tail ! 1) + 2) - length pre"
        using that assms(6) by (simp add: tail_search_def)
      moreover have "length ?pre + (unat (tail ! 1) + 2) - length pre \<le> 2 ^ 32"
        using unat_u8w [of "tail ! 1"] Suc.prems(2,6) by simp
      ultimately show ?thesis using unat_u8w [of "tail ! 1"] by (simp add: u32_diff_wrap)
    qed
    have "mem_move m (length ?pre) q (u32_diff (length (ies_bytes es @ tail)) (length ?pre + (unat (tail ! 1) + 2) - length pre)) = None" if hit for q
      using w [OF that] Suc.prems(6) by (simp add: mem_move_def rdn_none)
    then show ?thesis using r n f Suc.prems(2) by (auto simp: removed_none Let_def)
  next
    case (Some x)
    obtain p e where x: "x = (p, e)" by (cases x)
    note first = get_ie_ex_first [OF Suc.prems(1,2) Some [unfolded x]]
    from first_at_split [OF Some [unfolded x]] obtain xs ys where es: "es = xs @ e # ys" "p = length pre + length (ies_bytes xs)"
      and h: "ie_match eid oui e" "\<forall>x\<in>set xs. \<not> ie_match eid oui x" by blast
    let ?pre = "pre @ ies_bytes xs"
    let ?len = "ies_len - length (ie_bytes e)"
    define gap where "gap = drop (length (ies_bytes ys @ tail)) (ie_bytes e @ ies_bytes ys @ tail)"
    have m: "m = ?pre @ ie_bytes e @ (ies_bytes ys @ tail) @ post" using Suc.prems(2) es(1) by simp
    have u: "u32_diff (length (ies_bytes es @ tail)) (p + length (ie_bytes e) - length pre) = length (ies_bytes ys @ tail)"
      "u32_diff ies_len (length (ie_bytes e)) = ?len"
      using es Suc.prems(3,4) by (simp_all add: u32_diff_le)
    have g: "length gap = length (ie_bytes e)" by (simp add: gap_def)
    have step: "remove_ie_loop (Suc fuel) m (length pre) (length (ies_bytes es @ tail)) ies_len eid oui ret =
      remove_ie_loop fuel (?pre @ ies_bytes ys @ tail @ gap @ post) (length ?pre) (length (ies_bytes ys @ tail)) ?len eid oui RTW_SUCCESS"
      using first [of "length tail"] mem_move_down [OF m, folded gap_def] u es(2) by (simp add: Let_def)
    have "\<forall>e\<in>set ys. ie_ok e \<and> ie_fit eid oui e" "length (ies_bytes ys @ tail) \<le> ?len" "?len < 2 ^ 32"
      "length (filter (ie_match eid oui) ys) < fuel" "length (?pre @ ies_bytes ys @ tail @ gap @ post) + 257 < 2 ^ 32"
      using Suc.prems h(1) es(1) g by auto
    from Suc.IH [OF this(1) refl this(2-5), of RTW_SUCCESS] obtain junk where j: "length junk = removed eid oui ys"
      "remove_ie_loop fuel (?pre @ ies_bytes ys @ tail @ gap @ post) (length ?pre) (length (ies_bytes ys @ tail)) ?len eid oui RTW_SUCCESS =
        (if hit then None
         else Some (?pre @ ies_bytes (filter (\<lambda>e. \<not> ie_match eid oui e) ys) @ tail @ junk @ gap @ post, ?len - removed eid oui ys, RTW_SUCCESS))"
      unfolding if_cancel by blast
    have f: "filter (\<lambda>e. \<not> ie_match eid oui e) es = xs @ filter (\<lambda>e. \<not> ie_match eid oui e) ys" using h es(1) by simp
    show ?thesis
      unfolding step using h j f g es(1) by (intro exI [of _ "junk @ gap"]) (simp add: removed_none)
  qed
qed simp

lemma tail_search_nil: "tail_search False eid oui []"
  by (simp add: tail_search_def rtw_get_ie_ex_def)

lemma get_ie_ex_loop_end: "in_len \<le> cnt \<Longrightarrow> get_ie_ex_loop m p in_len eid oui cnt = Some None"
  by (simp add: get_ie_ex_loop.simps)

lemma tail_search_cut:
  assumes "length part < unat l"
  shows "tail_search (unat i = eid) eid None (i # l # part)"
  using assms
  by (auto simp: tail_search_def rtw_get_ie_ex_def get_ie_ex_loop.simps [of _ _ _ _ _ 0] get_ie_ex_loop_end
      rd_def nth_append oui_hit_def found_ie_def)

lemma filter_ies_length: "length (filter P es) \<le> length (ies_bytes es)"
  by (induction es) auto

lemma remove_ie_tail:
  assumes "\<forall>e\<in>set es. ie_ok e \<and> ie_fit eid oui e" and "m = pre @ fixed @ ies_bytes es @ tail @ post"
    and "tail_search hit eid oui tail" and "length m + 257 < 2 ^ 32"
  shows "\<exists>junk. length junk = removed eid oui es \<and>
    rtw_ies_remove_ie m (Some (length pre)) (length (fixed @ ies_bytes es @ tail)) (length fixed) eid oui =
      (if hit then None
       else Some (pre @ fixed @ ies_bytes (filter (\<lambda>e. \<not> ie_match eid oui e) es) @ tail @ junk @ post,
         length (fixed @ ies_bytes es @ tail) - removed eid oui es, if \<exists>e\<in>set es. ie_match eid oui e then RTW_SUCCESS else RTW_FAIL))"
proof (cases "es = [] \<and> tail = []")
  case True
  then have "\<not> hit" using assms(3) by (auto simp: tail_search_def rtw_get_ie_ex_def)
  then show ?thesis using True assms(2) by (simp add: rtw_ies_remove_ie_def)
next
  case False
  then have n: "\<not> length (fixed @ ies_bytes es @ tail) \<le> length fixed" by (cases es) auto
  have fuel: "length (filter (ie_match eid oui) es) < Suc (length m)"
    using filter_ies_length [of "ie_match eid oui" es] assms(2) by simp
  have e: "rtw_ies_remove_ie m (Some (length pre)) (length (fixed @ ies_bytes es @ tail)) (length fixed) eid oui =
      remove_ie_loop (Suc (length m)) m (length (pre @ fixed)) (length (ies_bytes es @ tail)) (length (fixed @ ies_bytes es @ tail)) eid oui RTW_FAIL"
    using n by (auto simp: rtw_ies_remove_ie_def simp del: remove_ie_loop.simps)
  have "m = (pre @ fixed) @ ies_bytes es @ tail @ post" "length (ies_bytes es @ tail) \<le> length (fixed @ ies_bytes es @ tail)"
    "length (fixed @ ies_bytes es @ tail) < 2 ^ 32"
    using assms(2,4) by auto
  from remove_loop_filter [OF assms(1) this fuel assms(3,4), of RTW_FAIL] show ?thesis unfolding e by (simp only: append_assoc)
qed

text \<open>
  C37: On a well-formed list, behind a fixed part, \<^verbatim>\<open>rtw_ies_remove_ie\<close> takes out exactly the elements with the identifier and
  vendor: the others are kept in order, the length is that of what is kept, nothing behind the list changes, and the result tells
  whether an element was removed.
\<close>

theorem ies_remove_filters:
  assumes "\<forall>e\<in>set es. ie_ok e \<and> ie_fit eid oui e" and "length (pre @ fixed @ ies_bytes es @ post) + 257 < 2 ^ 32"
  shows "let kept = filter (\<lambda>e. \<not> ie_match eid oui e) es in
    \<exists>junk. rtw_ies_remove_ie (pre @ fixed @ ies_bytes es @ post) (Some (length pre)) (length (fixed @ ies_bytes es)) (length fixed) eid oui =
      Some (pre @ fixed @ ies_bytes kept @ junk @ post, length (fixed @ ies_bytes kept), if kept = es then RTW_FAIL else RTW_SUCCESS)"
proof -
  let ?kept = "filter (\<lambda>e. \<not> ie_match eid oui e) es"
  have k: "length (fixed @ ies_bytes es) - removed eid oui es = length (fixed @ ies_bytes ?kept)"
    using kept_length [of eid oui es] by simp
  have "(\<exists>e\<in>set es. ie_match eid oui e) \<longleftrightarrow> ?kept \<noteq> es" by (auto simp: filter_id_conv)
  with remove_ie_tail [OF assms(1) _ tail_search_nil, of _ pre fixed post] assms(2) k show ?thesis
    unfolding Let_def by (auto simp del: length_append)
qed

theorem ies_remove_filters_witness:
  "list_all (\<lambda>e. ie_ok e \<and> ie_fit 221 (Some [1, 2]) e) [(0, [65]), (221, [1, 2, 3]), (3, [6]::u8w list)] \<and>
   (\<exists>junk. rtw_ies_remove_ie ([9] @ [8, 8] @ ies_bytes [(0, [65]), (221, [1, 2, 3]), (3, [6])] @ [7]) (Some 1) 13 2 221 (Some [1, 2]) =
      Some ([9] @ [8, 8] @ ies_bytes [(0, [65]), (3, [6])] @ junk @ [7], 8, RTW_SUCCESS))"
proof -
  let ?es = "[(0::u8w, [65]), (221, [1, 2, 3]), (3, [6]::u8w list)]"
  have ok: "\<forall>e\<in>set ?es. ie_ok e \<and> ie_fit 221 (Some [1, 2]) e" by (simp add: ie_ok_def ie_fit_def)
  have n: "length ([9] @ [8, 8] @ ies_bytes ?es @ [7]) + 257 < 2 ^ 32" by (simp add: ie_bytes_def)
  have f: "filter (\<lambda>e. \<not> ie_match 221 (Some [1, 2]) e) ?es = [(0, [65]), (3, [6])]" by (simp add: ie_match_def)
  have l: "length [9::u8w] = 1" "length ([8, 8] @ ies_bytes ?es) = 13" "length [8, 8::u8w] = 2"
    "length ([8, 8] @ ies_bytes [(0, [65]), (3, [6])]) = 8" by (simp_all add: ie_bytes_def)
  have "[(0::u8w, [65]), (3, [6])] \<noteq> ?es" by simp
  with ok ies_remove_filters [OF ok n, unfolded f Let_def l] show ?thesis by (simp only: list_all_iff if_False simp_thms)
qed

text \<open>A list that ends in an element longer than what is left of it makes \<^verbatim>\<open>rtw_ies_remove_ie\<close> access memory outside the buffer
  exactly when that element has the identifier: the length of the rest is negative, and the move is given it as an unsigned length.
\<close>

lemma ies_remove_overrun_iff:
  assumes "\<forall>e\<in>set es. ie_ok e" and "length part < unat l" and "length (pre @ fixed @ ies_bytes es @ (i # l # part) @ post) + 257 < 2 ^ 32"
  shows "rtw_ies_remove_ie (pre @ fixed @ ies_bytes es @ (i # l # part) @ post) (Some (length pre))
      (length (fixed @ ies_bytes es @ (i # l # part))) (length fixed) eid None = None \<longleftrightarrow> unat i = eid"
proof -
  have "\<forall>e\<in>set es. ie_ok e \<and> ie_fit eid None e" using assms(1) by (simp add: ie_fit_def)
  from remove_ie_tail [OF this refl tail_search_cut [OF assms(2)] assms(3)] obtain r where
    "rtw_ies_remove_ie (pre @ fixed @ ies_bytes es @ (i # l # part) @ post) (Some (length pre))
      (length (fixed @ ies_bytes es @ (i # l # part))) (length fixed) eid None = (if unat i = eid then None else Some r)"
    by blast
  then show ?thesis by (simp del: length_append append_Cons)
qed

section \<open>The end of the list\<close>

lemma get_ie_loop_inside: "p + (limit - i) + 1 \<le> length m \<Longrightarrow> i < limit \<Longrightarrow> get_ie_loop m p index i limit \<noteq> None"
proof (induction m p index i limit rule: get_ie_loop.induct)
  case (1 m p index i limit)
  have r: "rd m p = Some (unat (m ! p))" "rd m (p + 1) = Some (unat (m ! (p + 1)))" using 1(2,3) by (simp_all add: rd_def)
  let ?l = "unat (m ! (p + 1))"
  show ?case
  proof (cases "unat (m ! p) = index \<or> limit \<le> i + (?l + 2)")
    case True
    then show ?thesis by (auto simp: get_ie_loop_step [OF r])
  next
    case False
    then have "p + (?l + 2) + (limit - (i + (?l + 2))) + 1 \<le> length m" "i + (?l + 2) < limit" using 1(2) by linarith+
    with 1(1) [OF r] False have "get_ie_loop m (p + (?l + 2)) index (i + (?l + 2)) limit \<noteq> None" by blast
    then show ?thesis using False by (simp add: get_ie_loop_step [OF r] del: not_None_eq)
  qed
qed

text \<open>\<^verbatim>\<open>rtw_get_ie\<close> never looks further than one byte behind its limit, whatever the bytes are, and it looks at that byte exactly
  when the walk comes to the last byte before the limit: a list with one byte too many, at the end of the memory, makes it read
  outside the memory unless the wanted element is found before.
\<close>

lemma get_ie_one_byte_beyond:
  "(pbuf + n + 1 \<le> length m \<longrightarrow> rtw_get_ie m pbuf index (int n) \<noteq> None) \<and>
   ((\<forall>e\<in>set es. ie_ok e) \<longrightarrow>
      (rtw_get_ie (pre @ ies_bytes es @ [x]) (length pre) index (int (length (ies_bytes es) + 1)) = None \<longleftrightarrow>
         (\<forall>e\<in>set es. unat (fst e) \<noteq> index)))"
proof (intro conjI impI)
  assume "pbuf + n + 1 \<le> length m"
  then show "rtw_get_ie m pbuf index (int n) \<noteq> None"
    using get_ie_loop_inside [of pbuf n 0 m index] by (simp add: rtw_get_ie_nat del: not_None_eq)
next
  assume ok: "\<forall>e\<in>set es. ie_ok e"
  let ?m = "pre @ ies_bytes es @ [x]"
  have "rtw_get_ie ?m (length pre + length (ies_bytes es)) index (int 1) = None"
    unfolding rtw_get_ie_nat by (simp add: get_ie_loop_fault rd_def)
  with get_ie.look_from [where es = es and pre = pre and post = "[x]" and index = index and t = 1, OF refl] ok first_at_none [of "\<lambda>e. unat (fst e) = index" "length pre" es]
  show "rtw_get_ie ?m (length pre) index (int (length (ies_bytes es) + 1)) = None \<longleftrightarrow> (\<forall>e\<in>set es. unat (fst e) \<noteq> index)"
    by (auto simp: get_ie_look_def split: option.splits)
qed

section \<open>Updating an element\<close>

lemma wrn_over:
  assumes "length bs \<le> length old"
  shows "wrn (pre @ old) (length pre) bs = Some (pre @ bs @ drop (length bs) old)"
  using assms by (simp add: wrn_def)

lemma first_at_skip: "\<forall>x\<in>set xs. \<not> want x \<Longrightarrow> first_at want p (xs @ es) = first_at want (p + length (ies_bytes xs)) es"
  by (induction xs arbitrary: p) (auto simp: add.assoc)

text \<open>The writes of the update, where \<open>P\<close> is what stands before the element and \<open>R\<close> what stands behind its length.\<close>

lemma update_content:
  assumes "length content \<le> length R"
  shows "do { m1 \<leftarrow> wrn (P @ i # l # R) (length P + 2) content; wrn m1 (length P + 1) [of_nat (length content)] } =
    Some (P @ ie_bytes (i, content) @ drop (length content) R)"
  using wrn_over [OF assms, of "P @ [i, l]"] by (simp add: wrn_def ie_bytes_def)

text \<open>On a well-formed list \<^verbatim>\<open>rtw_ies_update_ie\<close> gives the first element with the identifier, if it is not empty, the new
  content: the other elements are kept, and the length grows or shrinks with the content, provided the memory behind the
  list has room for what is added.
\<close>

lemma ies_update_replaces:
  assumes "\<forall>e\<in>set (xs @ (i, c) # ys). ie_ok e" and "\<forall>e\<in>set xs. fst e \<noteq> i" and "c \<noteq> []"
    and "length content \<le> 255" and "length content \<le> length c + length post"
    and "length (pre @ fixed @ ies_bytes (xs @ (i, c) # ys) @ post) + 257 < 2 ^ 32"
  shows "\<exists>rest. rtw_ies_update_ie True (pre @ fixed @ ies_bytes (xs @ (i, c) # ys) @ post) (Some (length pre))
      (length (fixed @ ies_bytes (xs @ (i, c) # ys))) (length fixed) (unat i) content =
    Some (pre @ fixed @ ies_bytes (xs @ (i, content) # ys) @ rest, length (fixed @ ies_bytes (xs @ (i, content) # ys)), RTW_SUCCESS)"
proof -
  let ?es = "xs @ (i, c) # ys"
  let ?P = "pre @ fixed @ ies_bytes xs"
  let ?R = "c @ ies_bytes ys @ post"
  let ?m = "pre @ fixed @ ies_bytes ?es @ post"
  let ?Q = "?P @ ie_bytes (i, content)"
  have m: "?m = ?P @ i # of_nat (length c) # ?R" by (simp add: ie_bytes_def)
  have "\<forall>x\<in>set xs. unat (fst x) \<noteq> unat i" using assms(2) by (metis word_unat_eq_iff)
  then have "first_at (\<lambda>e. unat (fst e) = unat i) (length (pre @ fixed)) ?es = Some (length ?P, (i, c))"
    by (simp add: first_at_skip)
  with get_ie.look_first [where es = ?es and pre = "pre @ fixed" and post = post and index = "unat i", OF refl] assms(1)
  have g: "rtw_get_ie ?m (length pre + length fixed) (unat i) (int (length (ies_bytes ?es))) = Some (Some (length ?P, length c))"
    by (simp add: get_ie_look_def)
  have u: "u32_diff (length (ies_bytes ?es)) (length ?P + 2 + length c - (length pre + length fixed)) = length (ies_bytes ys)"
    using assms(6) by (simp add: u32_diff_le)
  have b: "rdn ?m (length ?P + 2 + length c) (length (ies_bytes ys)) = Some (ies_bytes ys)"
    using rdn_append [of "?P @ ie_bytes (i, c)" "ies_bytes ys" post] by (simp add: add.assoc)
  have w: "do { m1 \<leftarrow> wrn ?m (length ?P + 2) content; wrn m1 (length ?P + 1) [of_nat (length content)] } =
      Some (?Q @ drop (length content) ?R)"
    unfolding m using update_content [of content ?R ?P] assms(5) by simp
  obtain old where old: "drop (length content) ?R = old" "length (ies_bytes ys) \<le> length old" using assms(5) by simp
  have w3: "wrn (?Q @ old) (length ?P + 2 + length content) (ies_bytes ys) = Some (?Q @ ies_bytes ys @ drop (length (ies_bytes ys)) old)"
    using wrn_over [OF old(2), of ?Q] by (simp add: add.assoc)
  from w obtain m1 where w12: "wrn ?m (length ?P + 2) content = Some m1" "wrn m1 (length ?P + 1) [of_nat (length content)] = Some (?Q @ old)"
    unfolding old(1) by (auto simp: bind_eq_Some_conv)
  let ?len = "length (fixed @ ies_bytes (xs @ (i, content) # ys))"
  have "int (length (fixed @ ies_bytes ?es)) + (int (length content) - int (length c)) = int ?len" "?len < 2 ^ 32"
    using assms(4,6) by simp_all
  then have n: "nat ((int (length (fixed @ ies_bytes ?es)) + (int (length content) - int (length c))) mod 2 ^ 32) = ?len"
    by simp
  have s: "\<not> (length (fixed @ ies_bytes ?es) = 0 \<or> length (fixed @ ies_bytes ?es) \<le> length fixed)"
    "length (fixed @ ies_bytes ?es) - length fixed = length (ies_bytes ?es)" by simp_all
  show ?thesis
  proof (cases "length c = length content")
    case True
    then show ?thesis
      unfolding rtw_ies_update_ie_def option.case if_not_P [OF s(1)] Let_def s(2) g
      using w12 assms(3) old(1) by (intro exI [of _ post]) (auto simp: ie_bytes_def)
  next
    case False
    then show ?thesis
      unfolding rtw_ies_update_ie_def option.case if_not_P [OF s(1)] Let_def s(2) g
      using w12 b w3 u n assms(3) by (intro exI [of _ "drop (length (ies_bytes ys)) old"]) (simp add: ie_bytes_def)
  qed
qed

end
