(* ===== verification/Core_Attr.thy ===== *)
theory Core_Attr
  imports Core_Ie
begin

text \<open>
  Vendor elements and their attributes (\<^verbatim>\<open>core/rtw_ieee80211.c\<close>): Wi-Fi protected setup, Wi-Fi direct (P2P), Wi-Fi display
  (WFD) and the parameter of opportunistic encryption. The elements come from the air.

  The searches for an attribute add the length of an attribute to that of its header in 16 bits, and need not end. Their result is
  \<open>None\<close> when they do not return, \<open>Some None\<close> when they access memory outside the buffer.
\<close>

section \<open>Vendor elements\<close>

definition MAX_IE_SZ :: nat where "MAX_IE_SZ = 768"
definition WLAN_EID_VENDOR_SPECIFIC :: nat where "WLAN_EID_VENDOR_SPECIFIC = 221"
definition WLAN_EID_EXTENSION :: nat where "WLAN_EID_EXTENSION = 255"
definition WLAN_EID_EXT_OWE_DH_PARAM :: nat where "WLAN_EID_EXT_OWE_DH_PARAM = 32"

definition wps_oui :: "u8w list" where "wps_oui = [0x00, 0x50, 0xf2, 0x04]"
definition p2p_oui :: "u8w list" where "p2p_oui = [0x50, 0x6f, 0x9a, 0x09]"
definition wfd_oui :: "u8w list" where "wfd_oui = [0x50, 0x6f, 0x9a, 0x0a]"

definition vendor_hit :: "u8w list \<Rightarrow> u8w list \<Rightarrow> nat \<Rightarrow> nat \<Rightarrow> bool option" where
  "vendor_hit oui m eid p = (if eid = WLAN_EID_VENDOR_SPECIFIC then mem_eq m (p + 2) oui else Some False)"

definition owe_hit :: "u8w list \<Rightarrow> nat \<Rightarrow> nat \<Rightarrow> bool option" where
  "owe_hit m eid p =
     (if eid = WLAN_EID_EXTENSION then map_option (\<lambda>x. x = WLAN_EID_EXT_OWE_DH_PARAM) (rd m (p + 2)) else Some False)"

text \<open>The loop the searches share; it gives up at the size of the largest element list.\<close>

function vendor_loop :: "u8w list \<Rightarrow> nat \<Rightarrow> nat \<Rightarrow> (nat \<Rightarrow> nat \<Rightarrow> bool option) \<Rightarrow> nat \<Rightarrow> nat option option" where
  "vendor_loop m in_ie in_len hit cnt =
     (if cnt + 1 + 4 < in_len then
        do { eid \<leftarrow> rd m (in_ie + cnt);
             if MAX_IE_SZ \<le> cnt + 1 + 4 then Some None
             else
               do { found \<leftarrow> hit eid (in_ie + cnt);
                    if found then Some (Some (in_ie + cnt))
                    else do { l \<leftarrow> rd m (in_ie + cnt + 1); vendor_loop m in_ie in_len hit (cnt + (l + 2)) } } }
      else Some None)"
  by pat_completeness auto
termination
  by (relation "measure (\<lambda>(m, in_ie, in_len, hit, cnt). in_len - cnt)") auto

declare vendor_loop.simps [simp del]

definition rtw_is_wps_ie :: "u8w list \<Rightarrow> nat option \<Rightarrow> (bool \<times> nat option) option" where
  "rtw_is_wps_ie m ie_ptr =
     (case ie_ptr of None \<Rightarrow> Some (False, None)
      | Some p \<Rightarrow>
          do { eid \<leftarrow> rd m p;
               hit \<leftarrow> vendor_hit wps_oui m eid p;
               if hit then do { l \<leftarrow> rd m (p + 1); Some (True, Some (l + 2)) } else Some (False, None) })"

definition rtw_get_wps_ie ::
  "u8w list \<Rightarrow> nat option \<Rightarrow> nat \<Rightarrow> nat option \<Rightarrow> bool \<Rightarrow> (nat \<times> nat \<times> u8w list) option option" where
  "rtw_get_wps_ie m in_ie in_len wps_ie wps_ielen =
     (case in_ie of None \<Rightarrow> Some None
      | Some p \<Rightarrow>
          if in_len = 0 then Some None
          else do { r \<leftarrow> vendor_loop m p in_len (vendor_hit wps_oui m) 0; found_ie m wps_ie wps_ielen r })"

datatype bss_type = BSS_TYPE_UNDEF | BSS_TYPE_BCN | BSS_TYPE_PROB_REQ | BSS_TYPE_PROB_RSP

definition PROBERSP_IE_OFFSET :: nat where "PROBERSP_IE_OFFSET = 12"
definition PROBEREQ_IE_OFFSET :: nat where "PROBEREQ_IE_OFFSET = 0"

definition rtw_get_wps_ie_from_scan_queue ::
  "u8w list \<Rightarrow> nat \<Rightarrow> nat \<Rightarrow> nat option \<Rightarrow> bool \<Rightarrow> bss_type \<Rightarrow> (nat \<times> nat \<times> u8w list) option option" where
  "rtw_get_wps_ie_from_scan_queue m in_ie in_len wps_ie wps_ielen frame_type =
     (if frame_type = BSS_TYPE_BCN \<or> frame_type = BSS_TYPE_PROB_RSP
      then rtw_get_wps_ie m (Some (in_ie + PROBERSP_IE_OFFSET)) (u32_diff in_len PROBERSP_IE_OFFSET) wps_ie wps_ielen
      else if frame_type = BSS_TYPE_PROB_REQ
      then rtw_get_wps_ie m (Some (in_ie + PROBEREQ_IE_OFFSET)) (u32_diff in_len PROBEREQ_IE_OFFSET) wps_ie wps_ielen
      else Some None)"

definition rtw_get_owe_ie ::
  "u8w list \<Rightarrow> nat option \<Rightarrow> nat \<Rightarrow> nat option \<Rightarrow> bool \<Rightarrow> (nat \<times> nat \<times> u8w list) option option" where
  "rtw_get_owe_ie m in_ie in_len owe_ie owe_ielen =
     (case in_ie of None \<Rightarrow> Some None
      | Some p \<Rightarrow>
          if in_len = 0 then Some None
          else do { r \<leftarrow> vendor_loop m p in_len (owe_hit m) 0; found_ie m owe_ie owe_ielen r })"

text \<open>The length of a P2P or WFD search is signed.\<close>

definition rtw_get_p2p_ie ::
  "u8w list \<Rightarrow> nat option \<Rightarrow> int \<Rightarrow> nat option \<Rightarrow> bool \<Rightarrow> (nat \<times> nat \<times> u8w list) option option" where
  "rtw_get_p2p_ie m in_ie in_len p2p_ie p2p_ielen =
     (case in_ie of None \<Rightarrow> Some None
      | Some p \<Rightarrow>
          if in_len \<le> 0 then Some None
          else do { r \<leftarrow> vendor_loop m p (nat in_len) (vendor_hit p2p_oui m) 0; found_ie m p2p_ie p2p_ielen r })"

definition rtw_get_wfd_ie ::
  "u8w list \<Rightarrow> nat option \<Rightarrow> int \<Rightarrow> nat option \<Rightarrow> bool \<Rightarrow> (nat \<times> nat \<times> u8w list) option option" where
  "rtw_get_wfd_ie m in_ie in_len wfd_ie wfd_ielen =
     (case in_ie of None \<Rightarrow> Some None
      | Some p \<Rightarrow>
          if in_len \<le> 0 then Some None
          else do { r \<leftarrow> vendor_loop m p (nat in_len) (vendor_hit wfd_oui m) 0; found_ie m wfd_ie wfd_ielen r })"

section \<open>Attributes of a protected-setup element\<close>

text \<open>A run that may not return, followed by another one.\<close>

definition then_run :: "'a option option \<Rightarrow> ('a \<Rightarrow> 'b option option) \<Rightarrow> 'b option option" where
  "then_run r f = (case r of None \<Rightarrow> None | Some None \<Rightarrow> Some None | Some (Some x) \<Rightarrow> f x)"

partial_function (option) wps_attr_loop :: "u8w list \<Rightarrow> nat \<Rightarrow> nat \<Rightarrow> nat \<Rightarrow> nat \<Rightarrow> (nat \<times> nat) option option option" where
  "wps_attr_loop m wps_ie wps_ielen target_attr_id attr_ptr =
     (if attr_ptr - wps_ie < wps_ielen then
        (case RTW_GET_BE16 m attr_ptr of None \<Rightarrow> Some None
         | Some attr_id \<Rightarrow>
             (case RTW_GET_BE16 m (attr_ptr + 2) of None \<Rightarrow> Some None
              | Some attr_data_len \<Rightarrow>
                  if attr_id = target_attr_id then Some (Some (Some (attr_ptr, (attr_data_len + 4) mod 65536)))
                  else wps_attr_loop m wps_ie wps_ielen target_attr_id (attr_ptr + (attr_data_len + 4) mod 65536)))
      else Some (Some None))"

text \<open>
  What a search for an attribute hands out: the place, the length, and the copy if there is a buffer of the given size.
\<close>

definition found_attr :: "u8w list \<Rightarrow> nat option \<Rightarrow> (nat \<times> nat) option \<Rightarrow> (nat \<times> nat \<times> u8w list) option option option" where
  "found_attr m buf_attr r =
     (case r of None \<Rightarrow> Some (Some None)
      | Some (p, attr_len) \<Rightarrow>
          (case buf_attr of None \<Rightarrow> Some (Some (Some (p, attr_len, [])))
           | Some sz \<Rightarrow>
               if attr_len \<le> sz then Some (map_option (\<lambda>copy. Some (p, attr_len, copy)) (rdn m p attr_len)) else Some None))"

definition rtw_get_wps_attr ::
  "u8w list \<Rightarrow> nat \<Rightarrow> nat \<Rightarrow> nat \<Rightarrow> nat option \<Rightarrow> (nat \<times> nat \<times> u8w list) option option option" where
  "rtw_get_wps_attr m wps_ie wps_ielen target_attr_id buf_attr =
     (case do { b \<leftarrow> rd m wps_ie; vendor_hit wps_oui m b wps_ie } of None \<Rightarrow> Some None
      | Some False \<Rightarrow> Some (Some None)
      | Some True \<Rightarrow> then_run (wps_attr_loop m wps_ie wps_ielen target_attr_id (wps_ie + 6)) (found_attr m buf_attr))"

text \<open>The content behind a header of \<open>hdr\<close> bytes; an attribute of length zero counts as not found.\<close>

definition attr_content ::
  "u8w list \<Rightarrow> nat \<Rightarrow> nat option \<Rightarrow> (nat \<times> nat \<times> u8w list) option \<Rightarrow> (nat \<times> nat \<times> u8w list) option option option" where
  "attr_content m hdr buf_content r =
     (case r of None \<Rightarrow> Some (Some None)
      | Some (p, attr_len, _) \<Rightarrow>
          if attr_len = 0 then Some (Some None) else found_attr m buf_content (Some (p + hdr, u32_diff attr_len hdr)))"

definition rtw_get_wps_attr_content ::
  "u8w list \<Rightarrow> nat \<Rightarrow> nat \<Rightarrow> nat \<Rightarrow> nat option \<Rightarrow> (nat \<times> nat \<times> u8w list) option option option" where
  "rtw_get_wps_attr_content m wps_ie wps_ielen target_attr_id buf_content =
     then_run (rtw_get_wps_attr m wps_ie wps_ielen target_attr_id None) (attr_content m 4 buf_content)"

section \<open>Attributes of P2P and WFD elements\<close>

text \<open>P2P stores the length of an attribute with its low byte first, WFD with its high byte first: \<open>get16\<close>.\<close>

partial_function (option) p2p_attr_loop ::
  "(u8w list \<Rightarrow> nat \<Rightarrow> nat option) \<Rightarrow> u8w list \<Rightarrow> nat \<Rightarrow> nat \<Rightarrow> nat \<Rightarrow> nat \<Rightarrow> (nat \<times> nat) option option option" where
  "p2p_attr_loop get16 m p2p_ie p2p_ielen target_attr_id attr_ptr =
     (if attr_ptr - p2p_ie + 3 \<le> p2p_ielen then
        (case rd m attr_ptr of None \<Rightarrow> Some None
         | Some attr_id \<Rightarrow>
             (case get16 m (attr_ptr + 1) of None \<Rightarrow> Some None
              | Some attr_data_len \<Rightarrow>
                  if p2p_ielen < attr_ptr - p2p_ie + (attr_data_len + 3) mod 65536 then Some (Some None)
                  else if attr_id = target_attr_id then Some (Some (Some (attr_ptr, (attr_data_len + 3) mod 65536)))
                  else p2p_attr_loop get16 m p2p_ie p2p_ielen target_attr_id (attr_ptr + (attr_data_len + 3) mod 65536)))
      else Some (Some None))"

definition vendor_attr ::
  "u8w list \<Rightarrow> (u8w list \<Rightarrow> nat \<Rightarrow> nat option) \<Rightarrow> u8w list \<Rightarrow> nat option \<Rightarrow> nat \<Rightarrow> nat \<Rightarrow> nat option \<Rightarrow>
     (nat \<times> nat \<times> u8w list) option option option" where
  "vendor_attr oui get16 m ie ielen target_attr_id buf_attr =
     (case ie of None \<Rightarrow> Some (Some None)
      | Some p \<Rightarrow>
          if ielen \<le> 6 then Some (Some None)
          else
            (case do { b \<leftarrow> rd m p; vendor_hit oui m b p } of None \<Rightarrow> Some None
             | Some False \<Rightarrow> Some (Some None)
             | Some True \<Rightarrow> then_run (p2p_attr_loop get16 m p ielen target_attr_id (p + 6)) (found_attr m buf_attr)))"

definition rtw_get_p2p_attr ::
  "u8w list \<Rightarrow> nat option \<Rightarrow> nat \<Rightarrow> nat \<Rightarrow> nat option \<Rightarrow> (nat \<times> nat \<times> u8w list) option option option" where
  "rtw_get_p2p_attr = vendor_attr p2p_oui RTW_GET_LE16"

definition rtw_get_wfd_attr ::
  "u8w list \<Rightarrow> nat option \<Rightarrow> nat \<Rightarrow> nat \<Rightarrow> nat option \<Rightarrow> (nat \<times> nat \<times> u8w list) option option option" where
  "rtw_get_wfd_attr = vendor_attr wfd_oui RTW_GET_BE16"

definition rtw_get_p2p_attr_content ::
  "u8w list \<Rightarrow> nat option \<Rightarrow> nat \<Rightarrow> nat \<Rightarrow> nat option \<Rightarrow> (nat \<times> nat \<times> u8w list) option option option" where
  "rtw_get_p2p_attr_content m p2p_ie p2p_ielen target_attr_id buf_content =
     then_run (rtw_get_p2p_attr m p2p_ie p2p_ielen target_attr_id None) (attr_content m 3 buf_content)"

definition rtw_get_wfd_attr_content ::
  "u8w list \<Rightarrow> nat option \<Rightarrow> nat \<Rightarrow> nat \<Rightarrow> nat option \<Rightarrow> (nat \<times> nat \<times> u8w list) option option option" where
  "rtw_get_wfd_attr_content m wfd_ie wfd_ielen target_attr_id buf_content =
     then_run (rtw_get_wfd_attr m wfd_ie wfd_ielen target_attr_id None) (attr_content m 3 buf_content)"

text \<open>\<open>pdata_attr\<close> is NULL or has at least the length; a NULL leaves the content of the buffer.\<close>

definition rtw_set_p2p_attr_content :: "u8w list \<Rightarrow> nat \<Rightarrow> u8w \<Rightarrow> nat \<Rightarrow> u8w list option \<Rightarrow> (u8w list \<times> nat) option" where
  "rtw_set_p2p_attr_content m pbuf attr_id attr_len pdata_attr =
     do { m1 \<leftarrow> wrn m pbuf (attr_id # RTW_PUT_LE16 attr_len);
          m2 \<leftarrow> (case pdata_attr of None \<Rightarrow> Some m1 | Some d \<Rightarrow> wrn m1 (pbuf + 3) (take attr_len d));
          Some (m2, attr_len + 3) }"

section \<open>Deleting elements and attributes\<close>

definition s32 :: "nat \<Rightarrow> int" where
  "s32 n = (if n < 2 ^ 31 then int n else int n - 2 ^ 32)"

text \<open>
  The loops of the deletions, over the search for the element or attribute. A round that goes on makes the rest shorter, so that
  \<open>fuel\<close> is not used up.
\<close>

fun del_ie_loop ::
  "(u8w list \<Rightarrow> nat option \<Rightarrow> int \<Rightarrow> nat option \<Rightarrow> bool \<Rightarrow> (nat \<times> nat \<times> u8w list) option option) \<Rightarrow> nat \<Rightarrow> u8w list \<Rightarrow> nat \<Rightarrow> nat \<Rightarrow>
     (u8w list \<times> nat) option" where
  "del_ie_loop search 0 m ies ies_len = None"
| "del_ie_loop search (Suc fuel) m ies ies_len =
     do { r \<leftarrow> search m (Some ies) (s32 ies_len) None True;
          (case r of None \<Rightarrow> Some (m, ies_len)
           | Some (target_ie, target_ie_len, _) \<Rightarrow>
               let remain_len = u32_diff ies_len (target_ie + target_ie_len - ies) in
               do { m1 \<leftarrow> mem_move m target_ie (target_ie + target_ie_len) remain_len;
                    m2 \<leftarrow> wrn m1 (target_ie + remain_len) (replicate target_ie_len 0);
                    del_ie_loop search fuel m2 ies (u32_diff ies_len target_ie_len) }) }"

definition rtw_del_p2p_ie :: "u8w list \<Rightarrow> nat \<Rightarrow> nat \<Rightarrow> (u8w list \<times> nat) option" where
  "rtw_del_p2p_ie m ies ies_len_ori = del_ie_loop rtw_get_p2p_ie (Suc (length m)) m ies ies_len_ori"

definition rtw_del_wfd_ie :: "u8w list \<Rightarrow> nat \<Rightarrow> nat \<Rightarrow> (u8w list \<times> nat) option" where
  "rtw_del_wfd_ie m ies ies_len_ori = del_ie_loop rtw_get_wfd_ie (Suc (length m)) m ies ies_len_ori"

text \<open>Taking out the attribute at a place: the length of the element, a byte, is lowered.\<close>

definition cut_attr :: "u8w list \<Rightarrow> nat \<Rightarrow> nat \<Rightarrow> nat \<Rightarrow> nat \<Rightarrow> u8w list option" where
  "cut_attr m ie ielen target_attr target_attr_len =
     (let remain_len = u32_diff ielen (target_attr + target_attr_len - ie) in
      do { m1 \<leftarrow> mem_move m target_attr (target_attr + target_attr_len) remain_len;
           m2 \<leftarrow> wrn m1 (target_attr + remain_len) (replicate target_attr_len 0);
           l \<leftarrow> rd m2 (ie + 1);
           wrn m2 (ie + 1) [of_int (int l - int target_attr_len)] })"

fun del_attr_loop ::
  "(u8w list \<Rightarrow> nat option \<Rightarrow> nat \<Rightarrow> nat \<Rightarrow> nat option \<Rightarrow> (nat \<times> nat \<times> u8w list) option option option) \<Rightarrow> nat \<Rightarrow> u8w list \<Rightarrow> nat \<Rightarrow> nat \<Rightarrow> nat \<Rightarrow>
     (u8w list \<times> nat) option option" where
  "del_attr_loop search 0 m ie ielen attr_id = None"
| "del_attr_loop search (Suc fuel) m ie ielen attr_id =
     then_run (search m (Some ie) ielen attr_id None) (\<lambda>r.
       case r of None \<Rightarrow> Some (Some (m, ielen))
       | Some (target_attr, target_attr_len, _) \<Rightarrow>
           if target_attr_len = 0 then Some (Some (m, ielen))
           else
             (case cut_attr m ie ielen target_attr target_attr_len of None \<Rightarrow> Some None
              | Some m1 \<Rightarrow> del_attr_loop search fuel m1 ie (u32_diff ielen target_attr_len) attr_id))"

definition rtw_del_p2p_attr :: "u8w list \<Rightarrow> nat \<Rightarrow> nat \<Rightarrow> nat \<Rightarrow> (u8w list \<times> nat) option option" where
  "rtw_del_p2p_attr m ie ielen_ori attr_id = del_attr_loop rtw_get_p2p_attr (Suc ielen_ori) m ie ielen_ori attr_id"

definition rtw_del_wfd_attr :: "u8w list \<Rightarrow> nat \<Rightarrow> nat \<Rightarrow> nat \<Rightarrow> (u8w list \<times> nat) option option" where
  "rtw_del_wfd_attr m ie ielen_ori attr_id = del_attr_loop rtw_get_wfd_attr (Suc ielen_ori) m ie ielen_ori attr_id"

text \<open>The merging of several P2P elements into one. The length of the merged element is kept in a byte.\<close>

function merged_len_loop :: "u8w list \<Rightarrow> nat \<Rightarrow> nat \<Rightarrow> nat \<Rightarrow> int \<Rightarrow> int option" where
  "merged_len_loop m in_ie in_len i len =
     (if i < in_len then
        do { b \<leftarrow> rd m (in_ie + i);
             hit \<leftarrow> vendor_hit p2p_oui m b (in_ie + i);
             l \<leftarrow> rd m (in_ie + i + 1);
             merged_len_loop m in_ie in_len (i + (l + 2)) (if hit then len + (int l - 4) else len) }
      else Some len)"
  by pat_completeness auto
termination
  by (relation "measure (\<lambda>(m, in_ie, in_len, i, len). in_len - i)") auto

definition rtw_get_p2p_merged_ies_len :: "u8w list \<Rightarrow> nat \<Rightarrow> nat \<Rightarrow> nat option" where
  "rtw_get_p2p_merged_ies_len m in_ie in_len = map_option (\<lambda>len. nat ((len + 4) mod 2 ^ 32)) (merged_len_loop m in_ie in_len 0 0)"

text \<open>\<open>mm\<close> is the buffer of the merged element, \<open>q\<close> the place in it. An element shorter than its vendor makes the copied length negative.\<close>

function merge_loop :: "u8w list \<Rightarrow> nat \<Rightarrow> nat \<Rightarrow> nat \<Rightarrow> u8w list \<Rightarrow> nat \<Rightarrow> nat \<Rightarrow> (u8w list \<times> nat) option" where
  "merge_loop m in_ie in_len i mm q len =
     (if i < in_len then
        do { b \<leftarrow> rd m (in_ie + i);
             hit \<leftarrow> vendor_hit p2p_oui m b (in_ie + i);
             l \<leftarrow> rd m (in_ie + i + 1);
             if hit then
               do { bs \<leftarrow> rdn m (in_ie + i + 6) (u32_diff l 4);
                    mm1 \<leftarrow> wrn mm q bs;
                    merge_loop m in_ie in_len (i + (l + 2)) mm1 (q + u32_diff l 4) (to_u8 (int len + (int l - 4))) }
             else merge_loop m in_ie in_len (i + (l + 2)) mm q len }
      else Some (mm, len))"
  by pat_completeness auto
termination
  by (relation "measure (\<lambda>(m, in_ie, in_len, i, mm, q, len). in_len - i)") auto

definition rtw_p2p_merge_ies :: "u8w list \<Rightarrow> nat \<Rightarrow> nat \<Rightarrow> u8w list option \<Rightarrow> (u8w list option \<times> nat) option" where
  "rtw_p2p_merge_ies m in_ie in_len merge_ie =
     (case merge_ie of None \<Rightarrow> Some (None, 0)
      | Some mm \<Rightarrow>
          do { mm1 \<leftarrow> wrn mm 0 (0xDD # 0 # p2p_oui);
               (mm2, len) \<leftarrow> merge_loop m in_ie in_len 0 mm1 6 0;
               Some (Some mm2, len + 4) })"

declare merged_len_loop.simps [simp del] merge_loop.simps [simp del]

section \<open>Lists of attributes\<close>

text \<open>Attributes with a header of four bytes, as protected setup has them, and of three, as P2P and WFD have them.\<close>

type_synonym attr = "nat \<times> u8w list"

definition be16 :: "nat \<Rightarrow> u8w list" where
  "be16 n = [of_nat (n div 256), of_nat (n mod 256)]"

definition wps_attr_bytes :: "attr \<Rightarrow> u8w list" where
  "wps_attr_bytes a = be16 (fst a) @ be16 (length (snd a)) @ snd a"

definition wps_attr_ok :: "attr \<Rightarrow> bool" where
  "wps_attr_ok a \<longleftrightarrow> fst a < 65536 \<and> length (snd a) < 65532"

definition p2p_attr_bytes :: "(nat \<Rightarrow> u8w list) \<Rightarrow> attr \<Rightarrow> u8w list" where
  "p2p_attr_bytes put16 a = of_nat (fst a) # put16 (length (snd a)) @ snd a"

fun first_attr :: "(attr \<Rightarrow> nat) \<Rightarrow> nat \<Rightarrow> nat \<Rightarrow> attr list \<Rightarrow> (nat \<times> attr) option" where
  "first_attr sz i p [] = None"
| "first_attr sz i p (a # as) = (if fst a = i then Some (p, a) else first_attr sz i (p + sz a) as)"

lemma first_attr_none: "first_attr sz i p as = None \<longleftrightarrow> i \<notin> fst ` set as"
  by (induction as arbitrary: p) auto

lemma get_be16:
  assumes "m = pre @ be16 n @ post" and "n < 65536"
  shows "RTW_GET_BE16 m (length pre) = Some n"
proof -
  have "unat (of_nat (n div 256) :: u8w) = n div 256" "unat (of_nat (n mod 256) :: u8w) = n mod 256"
    using assms(2) by (simp_all add: unat_of_nat)
  then show ?thesis using assms(1) by (simp add: RTW_GET_BE16_def rd_def be16_def nth_append)
qed

lemma wps_attr_bytes_length [simp]: "length (wps_attr_bytes a) = length (snd a) + 4"
  by (simp add: wps_attr_bytes_def be16_def)

lemma wps_loop_step:
  assumes "m = pre @ be16 j @ be16 l @ post" and "j < 65536" and "l < 65536" and "length pre - wps_ie < n"
  shows "wps_attr_loop m wps_ie n i (length pre) =
    (if j = i then Some (Some (Some (length pre, (l + 4) mod 65536))) else wps_attr_loop m wps_ie n i (length pre + (l + 4) mod 65536))"
proof -
  have "RTW_GET_BE16 m (length pre) = Some j" using get_be16 [OF assms(1,2)] .
  moreover have "RTW_GET_BE16 m (length pre + 2) = Some l"
    using get_be16 [of m "pre @ be16 j" l post] assms(1,3) by (simp add: be16_def)
  ultimately show ?thesis using assms(4) by (subst wps_attr_loop.simps) simp
qed

lemma wps_loop_attrs:
  assumes "\<forall>a\<in>set as. wps_attr_ok a" and "m = pre @ concat (map wps_attr_bytes as) @ post"
    and "length pre + length (concat (map wps_attr_bytes as)) \<le> wps_ie + n" and "wps_ie \<le> length pre"
  shows "wps_attr_loop m wps_ie n i (length pre) =
    (case first_attr (\<lambda>a. length (snd a) + 4) i (length pre) as of
       None \<Rightarrow> wps_attr_loop m wps_ie n i (length pre + length (concat (map wps_attr_bytes as)))
     | Some (p, a) \<Rightarrow> Some (Some (Some (p, length (snd a) + 4))))"
  using assms
proof (induction as arbitrary: pre)
  case (Cons a as)
  have m: "m = pre @ be16 (fst a) @ be16 (length (snd a)) @ (snd a @ concat (map wps_attr_bytes as) @ post)"
    using Cons.prems(2) by (simp add: wps_attr_bytes_def [of a])
  have ok: "fst a < 65536" "length (snd a) < 65536" "(length (snd a) + 4) mod 65536 = length (snd a) + 4" "length pre - wps_ie < n"
    using Cons.prems by (auto simp: wps_attr_ok_def)
  note step = wps_loop_step [OF m ok(1,2,4), unfolded ok(3)]
  show ?case
  proof (cases "fst a = i")
    case True
    then show ?thesis by (simp add: step)
  next
    case False
    have "m = (pre @ wps_attr_bytes a) @ concat (map wps_attr_bytes as) @ post" using Cons.prems(2) by simp
    from Cons.IH [OF _ this] Cons.prems(1,3,4)
    have "wps_attr_loop m wps_ie n i (length pre + (length (snd a) + 4)) =
      (case first_attr (\<lambda>a. length (snd a) + 4) i (length pre + (length (snd a) + 4)) as of
         None \<Rightarrow> wps_attr_loop m wps_ie n i (length pre + (length (snd a) + 4) + length (concat (map wps_attr_bytes as)))
       | Some (p, a) \<Rightarrow> Some (Some (Some (p, length (snd a) + 4))))"
      by (simp add: add.assoc cong: option.case_cong)
    then show ?thesis using False by (simp add: step add.assoc cong: option.case_cong)
  qed
qed simp

text \<open>An attribute of length zero that is not the wanted one is met again and again.\<close>

lemma wps_loop_stuck:
  assumes "m = pre @ be16 j @ be16 65532 @ post" and "j < 65536" and "length pre - wps_ie < n" and "j \<noteq> i"
  shows "wps_attr_loop m wps_ie n i (length pre) = None"
proof -
  let ?stuck = "\<lambda>m wps_ie n i p. p - wps_ie < n \<and> RTW_GET_BE16 m p \<noteq> None \<and> RTW_GET_BE16 m p \<noteq> Some i \<and> RTW_GET_BE16 m (p + 2) = Some 65532"
  have "\<not> ?stuck m wps_ie n i p" if "wps_attr_loop m wps_ie n i p = Some r" for m wps_ie n i p r
  proof (rule wps_attr_loop.raw_induct [OF _ that])
    fix loop :: "u8w list \<Rightarrow> nat \<Rightarrow> nat \<Rightarrow> nat \<Rightarrow> nat \<Rightarrow> (nat \<times> nat) option option option" and m wps_ie n i p r
    assume ih: "\<And>m wps_ie n i p r. loop m wps_ie n i p = Some r \<Longrightarrow> \<not> ?stuck m wps_ie n i p"
    assume body: "(if p - wps_ie < n then case RTW_GET_BE16 m p of None \<Rightarrow> Some None
      | Some j \<Rightarrow> (case RTW_GET_BE16 m (p + 2) of None \<Rightarrow> Some None
        | Some l \<Rightarrow> if j = i then Some (Some (Some (p, (l + 4) mod 65536))) else loop m wps_ie n i (p + (l + 4) mod 65536))
      else Some (Some None)) = Some r"
    show "\<not> ?stuck m wps_ie n i p"
    proof
      assume s: "?stuck m wps_ie n i p"
      then have "loop m wps_ie n i p = Some r" using body by (auto split: option.splits)
      from ih [OF this] s show False by blast
    qed
  qed
  moreover have "?stuck m wps_ie n i (length pre)"
    using get_be16 [OF assms(1,2)] get_be16 [of m "pre @ be16 j" 65532 post] assms by (simp add: be16_def)
  ultimately show ?thesis by (meson not_None_eq)
qed

lemma wps_attr_first:
  assumes "m = pre @ (221 # L # wps_oui) @ rest"
  shows "rtw_get_wps_attr m (length pre) n i buf = then_run (wps_attr_loop m (length pre) n i (length pre + 6)) (found_attr m buf)"
proof -
  have "rd m (length pre) = Some 221" using assms by (simp add: rd_def nth_append)
  moreover have "mem_eq m (length pre + 2) wps_oui = Some True"
    using assms by (simp add: mem_eq_def rdn_def seg_def wps_oui_def)
  ultimately show ?thesis by (simp add: rtw_get_wps_attr_def vendor_hit_def WLAN_EID_VENDOR_SPECIFIC_def)
qed

text \<open>
  C39: An element of protected setup whose attributes are followed by one with the length 65532 keeps \<^verbatim>\<open>rtw_get_wps_attr\<close> in its loop for
  ever, exactly when neither that attribute nor one before it is the wanted one: with its header such an attribute is 65536 bytes
  long, which is zero in 16 bits.
\<close>

theorem wps_attr_hangs_iff:
  assumes "\<forall>a\<in>set as. wps_attr_ok a" and "j < 65536" and "length (concat (map wps_attr_bytes as)) + 6 < n"
  shows "rtw_get_wps_attr (pre @ (221 # L # wps_oui) @ concat (map wps_attr_bytes as) @ be16 j @ be16 65532 @ post) (length pre) n i None = None \<longleftrightarrow>
    i \<noteq> j \<and> i \<notin> fst ` set as"
proof -
  define P where "P = pre @ 221 # L # wps_oui"
  let ?as = "concat (map wps_attr_bytes as)"
  define m where "m = pre @ (221 # L # wps_oui) @ ?as @ be16 j @ be16 65532 @ post"
  have m1: "m = P @ ?as @ (be16 j @ be16 65532 @ post)" and m2: "m = (P @ ?as) @ be16 j @ be16 65532 @ post" by (simp_all add: m_def P_def)
  have P: "length P = length pre + 6" by (simp add: P_def wps_oui_def)
  have loop: "wps_attr_loop m (length pre) n i (length P) =
    (case first_attr (\<lambda>a. length (snd a) + 4) i (length P) as of
       None \<Rightarrow> wps_attr_loop m (length pre) n i (length (P @ ?as))
     | Some (p, a) \<Rightarrow> Some (Some (Some (p, length (snd a) + 4))))"
    using wps_loop_attrs [OF assms(1) m1, of "length pre" n i] assms(3) P by (simp cong: option.case_cong)
  have n: "length (P @ ?as) - length pre < n" using assms(3) P by simp
  have "wps_attr_loop m (length pre) n i (length (P @ ?as)) = Some (Some (Some (length (P @ ?as), 0)))" if "i = j"
    using wps_loop_step [OF m2 assms(2) _ n, of i] that by simp
  then have tail: "wps_attr_loop m (length pre) n i (length (P @ ?as)) = None \<longleftrightarrow> i \<noteq> j"
    using wps_loop_stuck [OF m2 assms(2) n] by fastforce
  have none: "then_run r (found_attr m None) = None \<longleftrightarrow> r = None" for r
    by (auto simp: then_run_def found_attr_def split: option.splits)
  have "rtw_get_wps_attr m (length pre) n i None = None \<longleftrightarrow> wps_attr_loop m (length pre) n i (length P) = None"
    using wps_attr_first [of m pre L "?as @ be16 j @ be16 65532 @ post" n i None] P none by (simp add: m_def)
  also have "\<dots> \<longleftrightarrow> i \<noteq> j \<and> i \<notin> fst ` set as"
    using loop tail first_attr_none [of "\<lambda>a. length (snd a) + 4" i "length P" as] by (auto split: option.splits)
  finally show ?thesis unfolding m_def .
qed

theorem wps_attr_hangs_iff_witness:
  "list_all wps_attr_ok [(0x104A, [0x10]::u8w list)] \<and> (0x1044::nat) < 65536 \<and>
   rtw_get_wps_attr ([] @ (221 # 20 # wps_oui) @ concat (map wps_attr_bytes [(0x104A, [0x10])]) @ be16 0x1044 @ be16 65532 @ [2])
     (length ([]::u8w list)) 14 0x1041 None = None"
proof -
  have ok: "\<forall>a\<in>set [(0x104A, [0x10]::u8w list)]. wps_attr_ok a" by (simp add: wps_attr_ok_def)
  have n: "(0x1044::nat) < 65536" "length (concat (map wps_attr_bytes [(0x104A, [0x10])])) + 6 < 14"
    by (simp_all add: wps_attr_bytes_def be16_def)
  have "(0x1041::nat) \<noteq> 0x1044" "(0x1041::nat) \<notin> fst ` set [(0x104A, [0x10]::u8w list)]" by simp_all
  with ok n(1) wps_attr_hangs_iff [OF ok n, where pre = "[]" and L = 20 and post = "[2]" and i = "0x1041"] show ?thesis unfolding list_all_iff by blast
qed

section \<open>The two layouts with a header of three bytes\<close>

definition p2p_attr_ok :: "attr \<Rightarrow> bool" where
  "p2p_attr_ok a \<longleftrightarrow> fst a < 256 \<and> length (snd a) < 65533"

locale attr_layout =
  fixes get16 :: "u8w list \<Rightarrow> nat \<Rightarrow> nat option" and put16 :: "nat \<Rightarrow> u8w list"
  assumes get_put: "n < 65536 \<Longrightarrow> get16 (pre @ put16 n @ post) (length pre) = Some n"
    and put_length: "length (put16 n) = 2"
begin

lemma attr_length: "length (p2p_attr_bytes put16 a) = length (snd a) + 3"
  by (simp add: p2p_attr_bytes_def put_length)

lemma header:
  assumes "m = pre @ of_nat j # put16 l @ post" and "j < 256" and "l < 65536"
  shows "rd m (length pre) = Some j" "get16 m (length pre + 1) = Some l"
proof -
  show "rd m (length pre) = Some j" using assms(1,2) by (simp add: rd_def nth_append unat_of_nat)
  show "get16 m (length pre + 1) = Some l" using get_put [of l "pre @ [of_nat j]" post] assms(1,3) by simp
qed

lemma loop_attrs:
  assumes "\<forall>a\<in>set as. p2p_attr_ok a" and "m = pre @ concat (map (p2p_attr_bytes put16) as) @ post"
    and "length pre + length (concat (map (p2p_attr_bytes put16) as)) \<le> ie + n" and "ie \<le> length pre"
  shows "p2p_attr_loop get16 m ie n i (length pre) =
    (case first_attr (\<lambda>a. length (snd a) + 3) i (length pre) as of
       None \<Rightarrow> p2p_attr_loop get16 m ie n i (length pre + length (concat (map (p2p_attr_bytes put16) as)))
     | Some (p, a) \<Rightarrow> Some (Some (Some (p, length (snd a) + 3))))"
  using assms
proof (induction as arbitrary: pre)
  case (Cons a as)
  let ?l = "length (snd a)"
  let ?rest = "concat (map (p2p_attr_bytes put16) as)"
  have m: "m = pre @ of_nat (fst a) # put16 ?l @ (snd a @ ?rest @ post)"
    using Cons.prems(2) by (simp add: p2p_attr_bytes_def [of _ a])
  have ok: "fst a < 256" "?l < 65536" "(?l + 3) mod 65536 = ?l + 3" using Cons.prems(1) by (simp_all add: p2p_attr_ok_def)
  have len: "length pre + (?l + 3) + length ?rest \<le> ie + n" using Cons.prems(3) by (simp add: attr_length)
  then have c: "length pre - ie + 3 \<le> n" "\<not> n < length pre - ie + (?l + 3)" using Cons.prems(4) by linarith+
  have step: "p2p_attr_loop get16 m ie n i (length pre) =
      (if fst a = i then Some (Some (Some (length pre, ?l + 3))) else p2p_attr_loop get16 m ie n i (length pre + (?l + 3)))"
    using header [OF m ok(1,2)] c ok(3) by (subst p2p_attr_loop.simps) simp
  have "m = (pre @ p2p_attr_bytes put16 a) @ ?rest @ post" using Cons.prems(2) by simp
  from Cons.IH [OF _ this] Cons.prems(1,4) len
  have "p2p_attr_loop get16 m ie n i (length pre + (?l + 3)) =
      (case first_attr (\<lambda>a. length (snd a) + 3) i (length pre + (?l + 3)) as of
         None \<Rightarrow> p2p_attr_loop get16 m ie n i (length pre + (?l + 3) + length ?rest)
       | Some (p, a) \<Rightarrow> Some (Some (Some (p, length (snd a) + 3))))"
    by (simp add: attr_length add.assoc cong: option.case_cong)
  then show ?case by (simp add: step attr_length add.assoc cong: option.case_cong)
qed simp

lemma loop_stuck:
  assumes "m = pre @ of_nat j # put16 65533 @ post" and "j < 256" and "length pre - ie + 3 \<le> n" and "j \<noteq> i"
  shows "p2p_attr_loop get16 m ie n i (length pre) = None"
proof -
  let ?stuck = "\<lambda>get16 m ie n i p. p - ie + 3 \<le> n \<and> rd m p \<noteq> None \<and> rd m p \<noteq> Some i \<and> get16 m (p + 1) = Some 65533"
  have "\<not> ?stuck get16 m ie n i p" if "p2p_attr_loop get16 m ie n i p = Some r" for get16 m ie n i p r
  proof (rule p2p_attr_loop.raw_induct [OF _ that])
    fix loop :: "(u8w list \<Rightarrow> nat \<Rightarrow> nat option) \<Rightarrow> u8w list \<Rightarrow> nat \<Rightarrow> nat \<Rightarrow> nat \<Rightarrow> nat \<Rightarrow> (nat \<times> nat) option option option"
      and get16 m ie n i p r
    assume ih: "\<And>get16 m ie n i p r. loop get16 m ie n i p = Some r \<Longrightarrow> \<not> ?stuck get16 m ie n i p"
    assume body: "(if p - ie + 3 \<le> n then case rd m p of None \<Rightarrow> Some None
      | Some j \<Rightarrow> (case get16 m (p + 1) of None \<Rightarrow> Some None
        | Some l \<Rightarrow> if n < p - ie + (l + 3) mod 65536 then Some (Some None)
            else if j = i then Some (Some (Some (p, (l + 3) mod 65536))) else loop get16 m ie n i (p + (l + 3) mod 65536))
      else Some (Some None)) = Some r"
    show "\<not> ?stuck get16 m ie n i p"
    proof
      assume s: "?stuck get16 m ie n i p"
      then have "loop get16 m ie n i p = Some r" using body by (auto split: option.splits)
      from ih [OF this] s show False by blast
    qed
  qed
  moreover have "?stuck get16 m ie n i (length pre)" using header [OF assms(1,2)] assms(3,4) by simp
  ultimately show ?thesis by (meson not_None_eq)
qed

text \<open>The attribute found in an element with the wanted vendor.\<close>

lemma vendor_attr_first:
  assumes "\<forall>a\<in>set as. p2p_attr_ok a" and "m = pre @ (221 # L # oui) @ concat (map (p2p_attr_bytes put16) as) @ post" and "length oui = 4"
    and "n = length (concat (map (p2p_attr_bytes put16) as)) + 6" and "as \<noteq> []"
    and "first_attr (\<lambda>a. length (snd a) + 3) i (length pre + 6) as = Some (p, a)"
  shows "vendor_attr oui get16 m (Some (length pre)) n i None = Some (Some (Some (p, length (snd a) + 3, [])))"
proof -
  have n: "\<not> n \<le> 6" using assms(4,5) by (cases as) (auto simp: attr_length)
  have "rd m (length pre) = Some 221" "mem_eq m (length pre + 2) oui = Some True"
    using assms(2,3) by (simp_all add: rd_def nth_append mem_eq_def rdn_def seg_def)
  then have "vendor_attr oui get16 m (Some (length pre)) n i None =
      then_run (p2p_attr_loop get16 m (length pre) n i (length pre + 6)) (found_attr m None)"
    using n by (simp add: vendor_attr_def vendor_hit_def WLAN_EID_VENDOR_SPECIFIC_def)
  moreover have "p2p_attr_loop get16 m (length pre) n i (length pre + 6) = Some (Some (Some (p, length (snd a) + 3)))"
    using loop_attrs [OF assms(1), of m "pre @ 221 # L # oui" post "length pre" n i] assms by (simp add: add.commute)
  ultimately show ?thesis by (simp add: then_run_def found_attr_def)
qed

end

interpretation p2p: attr_layout RTW_GET_LE16 RTW_PUT_LE16
  by unfold_locales (auto simp: get_le16 RTW_PUT_LE16_def)

interpretation wfd: attr_layout RTW_GET_BE16 be16
  by unfold_locales (auto simp: get_be16 be16_def)

lemma first_attr_last:
  "i \<notin> fst ` set as \<Longrightarrow> first_attr (\<lambda>a. length (snd a) + 3) i p (as @ [(i, c)]) =
     Some (p + length (concat (map (p2p_attr_bytes RTW_PUT_LE16) as)), (i, c))"
  by (induction as arbitrary: p) (auto simp: p2p.attr_length add.assoc)

text \<open>An attribute that \<^verbatim>\<open>rtw_set_p2p_attr_content\<close> writes behind the attributes of a P2P element is found again by
  \<^verbatim>\<open>rtw_get_p2p_attr_content\<close> in the grown element, with the same content, when no attribute before it has its identifier.
\<close>

lemma p2p_attr_roundtrip:
  assumes "\<forall>a\<in>set as. p2p_attr_ok a" and "p2p_attr_ok (i, c)" and "i \<notin> fst ` set as" and "length old = length c + 3" and "length c \<le> sz"
  shows "let hdr = 221 # L # p2p_oui; body = concat (map (p2p_attr_bytes RTW_PUT_LE16) as); p = length (pre @ hdr @ body) in
    \<exists>m. rtw_set_p2p_attr_content (pre @ hdr @ body @ old @ post) p (of_nat i) (length c) (Some c) = Some (m, length c + 3) \<and>
      rtw_get_p2p_attr_content m (Some (length pre)) (length (hdr @ body) + (length c + 3)) i (Some sz) = Some (Some (Some (p + 3, length c, c)))"
proof -
  let ?as = "as @ [(i, c)]"
  define hdr where "hdr = 221 # L # p2p_oui"
  define body where "body = concat (map (p2p_attr_bytes RTW_PUT_LE16) as)"
  define a where "a = p2p_attr_bytes RTW_PUT_LE16 (i, c)"
  define m where "m = pre @ hdr @ body @ a @ post"
  have a: "a = of_nat i # RTW_PUT_LE16 (length c) @ c" "length a = length c + 3"
    by (simp_all add: a_def p2p_attr_bytes_def RTW_PUT_LE16_def)
  obtain o1 o2 where old: "old = o1 @ o2" "length o1 = 3" "length o2 = length c"
    using assms(4) by (metis add.commute length_append append_take_drop_id length_drop length_take min_absorb2 le_add2 diff_add_inverse)
  let ?h = "of_nat i # RTW_PUT_LE16 (length c)"
  have w1: "wrn (pre @ hdr @ body @ old @ post) (length (pre @ hdr @ body)) ?h = Some ((pre @ hdr @ body) @ ?h @ o2 @ post)"
    using wrn_append [of ?h o1 "pre @ hdr @ body" "o2 @ post"] old by (simp add: RTW_PUT_LE16_def)
  have w2: "wrn ((pre @ hdr @ body) @ ?h @ o2 @ post) (length (pre @ hdr @ body) + 3) c = Some m"
    using wrn_append [of c o2 "(pre @ hdr @ body) @ ?h" post] old a by (simp add: m_def RTW_PUT_LE16_def numeral_3_eq_3)
  have set: "rtw_set_p2p_attr_content (pre @ hdr @ body @ old @ post) (length (pre @ hdr @ body)) (of_nat i) (length c) (Some c) = Some (m, length c + 3)"
    unfolding rtw_set_p2p_attr_content_def w1 using w2 by simp
  have "vendor_attr p2p_oui RTW_GET_LE16 m (Some (length pre)) (length (hdr @ body) + (length c + 3)) i None =
    Some (Some (Some (length (pre @ hdr @ body), length c + 3, [])))"
    using p2p.vendor_attr_first [of ?as m pre L p2p_oui post _ i] assms(1,2) first_attr_last [OF assms(3), of "length pre + 6" c]
    by (simp add: m_def hdr_def body_def a_def p2p_oui_def p2p.attr_length)
  moreover have "rdn m (length (pre @ hdr @ body) + 3) (length c) = Some c"
    using rdn_append [of "(pre @ hdr @ body) @ ?h" c post] a by (simp add: m_def RTW_PUT_LE16_def numeral_3_eq_3)
  ultimately have "rtw_get_p2p_attr_content m (Some (length pre)) (length (hdr @ body) + (length c + 3)) i (Some sz) =
    Some (Some (Some (length (pre @ hdr @ body) + 3, length c, c)))"
    using assms(2,5)
    by (simp add: rtw_get_p2p_attr_content_def rtw_get_p2p_attr_def then_run_def attr_content_def found_attr_def u32_diff_le p2p_attr_ok_def)
  with set show ?thesis unfolding Let_def hdr_def [symmetric] body_def [symmetric] by blast
qed

section \<open>The deletions end\<close>

text \<open>What a search for an element or an attribute promises the loops.\<close>

lemma vendor_loop_ge: "vendor_loop m in_ie in_len hit cnt = Some (Some p) \<Longrightarrow> in_ie + cnt \<le> p"
proof (induction m in_ie in_len hit cnt rule: vendor_loop.induct)
  case (1 m in_ie in_len hit cnt)
  from 1(2) consider "p = in_ie + cnt"
    | eid l where "cnt + 1 + 4 < in_len" "rd m (in_ie + cnt) = Some eid" "\<not> MAX_IE_SZ \<le> cnt + 1 + 4" "hit eid (in_ie + cnt) = Some False"
      "rd m (in_ie + cnt + 1) = Some l" "vendor_loop m in_ie in_len hit (cnt + (l + 2)) = Some (Some p)"
    by (subst (asm) vendor_loop.simps) (auto simp: Option.bind_eq_Some_conv split: if_splits)
  then show ?case
  proof cases
    case 2
    from 1(1) [OF 2(1-4) _ 2(5,6)] show ?thesis by simp
  qed simp
qed

lemma found_ie_len: "found_ie m None True r = Some (Some (q, l, c)) \<Longrightarrow> r = Some q \<and> 2 \<le> l \<and> l \<le> 257"
  using unat_u8w [of "m ! Suc q"] by (auto simp: found_ie_def rd_def Option.bind_eq_Some_conv split: if_splits option.splits)

lemma vendor_search_found:
  assumes "do { r \<leftarrow> vendor_loop m p n hit 0; found_ie m None True r } = Some (Some (q, l, c))"
  shows "p \<le> q \<and> 2 \<le> l \<and> l \<le> 257"
proof -
  obtain r where r: "vendor_loop m p n hit 0 = Some r" "found_ie m None True r = Some (Some (q, l, c))"
    using assms by (auto simp: Option.bind_eq_Some_conv)
  from found_ie_len [OF r(2)] vendor_loop_ge [of m p n hit 0 q] r(1) show ?thesis by simp
qed

locale ie_search =
  fixes search :: "u8w list \<Rightarrow> nat option \<Rightarrow> int \<Rightarrow> nat option \<Rightarrow> bool \<Rightarrow> (nat \<times> nat \<times> u8w list) option option"
  assumes found: "search m (Some ies) n None True = Some (Some (p, l, c)) \<Longrightarrow> ies \<le> p \<and> 2 \<le> l \<and> l \<le> 257"
begin

lemma round_shrinks:
  assumes "search m (Some ies) (s32 L) None True = Some (Some (p, l, c))"
    and "mem_move m p (p + l) (u32_diff L (p + l - ies)) = Some m1" and "length m + 257 < 2 ^ 32" "L < 2 ^ 32"
  shows "length m1 = length m \<and> u32_diff L l < L \<and> u32_diff L l < length m"
proof -
  note f = found [OF assms(1)]
  let ?r = "u32_diff L (p + l - ies)"
  have r: "p + l + ?r \<le> length m" "length m1 = length m"
    using assms(2) by (auto simp: mem_move_def rdn_def wrn_def Option.bind_eq_Some_conv split: if_splits)
  have le: "p + l - ies \<le> L"
  proof (rule ccontr)
    assume "\<not> p + l - ies \<le> L"
    then have "?r = 2 ^ 32 + L - (p + l - ies)" using r(1) assms(3) by (intro u32_diff_wrap) auto
    then show False using r(1) assms(3) f by linarith
  qed
  then have "?r = L - (p + l - ies)" using u32_diff_le assms(4) by blast
  moreover have "u32_diff L l = L - l" using le f u32_diff_le [of l L] assms(4) by linarith
  ultimately show ?thesis using r le f by linarith
qed

lemma fuel_enough:
  "L < n \<Longrightarrow> L < k \<Longrightarrow> length m + 257 < 2 ^ 32 \<Longrightarrow> L < 2 ^ 32 \<Longrightarrow> del_ie_loop search n m ies L = del_ie_loop search k m ies L"
proof (induction n arbitrary: k m L)
  case 0
  then show ?case by simp
next
  case (Suc n)
  obtain j where k: "k = Suc j" using Suc.prems(2) by (cases k) auto
  have "del_ie_loop search n m2 ies (u32_diff L l) = del_ie_loop search j m2 ies (u32_diff L l)"
    if "search m (Some ies) (s32 L) None True = Some (Some (p, l, c))"
      "mem_move m p (p + l) (u32_diff L (p + l - ies)) = Some m1" "wrn m1 q bs = Some m2" for p l c m1 m2 q bs
  proof -
    note s = round_shrinks [OF that(1,2) Suc.prems(3,4)]
    have "length m2 = length m" using that(3) s by (auto simp: wrn_def split: if_splits)
    with s show ?thesis using Suc.prems k by (intro Suc.IH) linarith+
  qed
  then show ?case by (auto simp: k Let_def split: option.splits intro!: bind_option_cong)
qed

text \<open>As many rounds as the memory has bytes, and one more, are enough.\<close>

lemma loop_ends:
  assumes "length m < k" and "length m + 257 < 2 ^ 32" "L < 2 ^ 32"
  shows "del_ie_loop search (Suc (length m)) m ies L = del_ie_loop search k m ies L"
proof -
  obtain j where k: "k = Suc j" using assms(1) by (cases k) auto
  have "del_ie_loop search (length m) m2 ies (u32_diff L l) = del_ie_loop search j m2 ies (u32_diff L l)"
    if "search m (Some ies) (s32 L) None True = Some (Some (p, l, c))"
      "mem_move m p (p + l) (u32_diff L (p + l - ies)) = Some m1" "wrn m1 q bs = Some m2" for p l c m1 m2 q bs
  proof -
    note s = round_shrinks [OF that(1,2) assms(2,3)]
    have "length m2 = length m" using that(3) s by (auto simp: wrn_def split: if_splits)
    with s show ?thesis using assms k by (intro fuel_enough) linarith+
  qed
  then show ?thesis by (auto simp: k Let_def split: option.splits intro!: bind_option_cong)
qed

end

interpretation p2p_search: ie_search rtw_get_p2p_ie
  proof unfold_locales
  fix m ies n p l c
  assume "rtw_get_p2p_ie m (Some ies) n None True = Some (Some (p, l, c))"
  then show "ies \<le> p \<and> 2 \<le> l \<and> l \<le> 257"
    by (intro vendor_search_found) (simp add: rtw_get_p2p_ie_def split: if_splits)
qed

interpretation wfd_search: ie_search rtw_get_wfd_ie
  proof unfold_locales
  fix m ies n p l c
  assume "rtw_get_wfd_ie m (Some ies) n None True = Some (Some (p, l, c))"
  then show "ies \<le> p \<and> 2 \<le> l \<and> l \<le> 257"
    by (intro vendor_search_found) (simp add: rtw_get_wfd_ie_def split: if_splits)
qed

locale attr_search =
  fixes search :: "u8w list \<Rightarrow> nat option \<Rightarrow> nat \<Rightarrow> nat \<Rightarrow> nat option \<Rightarrow> (nat \<times> nat \<times> u8w list) option option option"
  assumes found: "search m (Some ie) n i None = Some (Some (Some (p, l, c))) \<Longrightarrow> l \<le> n"
begin

text \<open>One round for each byte of the element, and one more, are enough.\<close>

lemma loop_ends: "L < n \<Longrightarrow> L < k \<Longrightarrow> L < 2 ^ 32 \<Longrightarrow> del_attr_loop search n m ie L i = del_attr_loop search k m ie L i"
proof (induction n arbitrary: k m L)
  case 0
  then show ?case by simp
next
  case (Suc n)
  obtain j where k: "k = Suc j" using Suc.prems(2) by (cases k) auto
  have "del_attr_loop search n m1 ie (u32_diff L l) i = del_attr_loop search j m1 ie (u32_diff L l) i"
    if "search m (Some ie) L i None = Some (Some (Some (p, l, c)))" "l \<noteq> 0" for p l c m1
  proof -
    have "u32_diff L l = L - l" using found [OF that(1)] Suc.prems(3) by (intro u32_diff_le)
    then show ?thesis using Suc.prems k that(2) found [OF that(1)] by (intro Suc.IH) linarith+
  qed
  then show ?case by (auto simp: k then_run_def split: option.splits)
qed

end

lemma p2p_attr_loop_inside: "p2p_attr_loop get16 m ie n i q = Some (Some (Some (p, l))) \<Longrightarrow> l \<le> n"
proof -
  have "r = Some (Some (p, l)) \<longrightarrow> l \<le> n" if "p2p_attr_loop get16 m ie n i q = Some r" for r
    using that
  proof (induction rule: p2p_attr_loop.raw_induct [rotated, consumes 1, case_names step])
    case (step f get16 m ie n i q r)
    from step(2) show ?case by (auto split: if_splits option.splits dest: step(1))
  qed
  then show "p2p_attr_loop get16 m ie n i q = Some (Some (Some (p, l))) \<Longrightarrow> l \<le> n" by blast
qed

interpretation p2p_attr: attr_search rtw_get_p2p_attr
  by unfold_locales
    (auto simp: rtw_get_p2p_attr_def vendor_attr_def then_run_def found_attr_def split: if_splits option.splits bool.splits
      dest!: p2p_attr_loop_inside)

interpretation wfd_attr: attr_search rtw_get_wfd_attr
  by unfold_locales
    (auto simp: rtw_get_wfd_attr_def vendor_attr_def then_run_def found_attr_def split: if_splits option.splits bool.splits
      dest!: p2p_attr_loop_inside)

text \<open>
  The deletions end within the rounds they are given: more rounds change nothing, so that a result is missing for an access outside
  the memory, and for attributes a search that does not return, only.
\<close>

lemma deletions_end:
  "length m < k \<Longrightarrow> length m + 257 < 2 ^ 32 \<Longrightarrow> L < 2 ^ 32 \<Longrightarrow> rtw_del_p2p_ie m ies L = del_ie_loop rtw_get_p2p_ie k m ies L"
  "length m < k \<Longrightarrow> length m + 257 < 2 ^ 32 \<Longrightarrow> L < 2 ^ 32 \<Longrightarrow> rtw_del_wfd_ie m ies L = del_ie_loop rtw_get_wfd_ie k m ies L"
  "L < k \<Longrightarrow> L < 2 ^ 32 \<Longrightarrow> rtw_del_p2p_attr m ie L i = del_attr_loop rtw_get_p2p_attr k m ie L i"
  "L < k \<Longrightarrow> L < 2 ^ 32 \<Longrightarrow> rtw_del_wfd_attr m ie L i = del_attr_loop rtw_get_wfd_attr k m ie L i"
  by (simp_all only: rtw_del_p2p_ie_def rtw_del_wfd_ie_def rtw_del_p2p_attr_def rtw_del_wfd_attr_def
      p2p_search.loop_ends wfd_search.loop_ends p2p_attr.loop_ends [OF lessI] wfd_attr.loop_ends [OF lessI])

end
