(* ===== verification/Core_Sec.thy ===== *)
theory Core_Sec
  imports Core_Ie
begin

text \<open>
  The security elements of a network (\<^verbatim>\<open>core/rtw_ieee80211.c\<close>): the WPA and RSN elements of beacons and association requests,
  the ciphers and key managements they name, and the search for them.
\<close>

section \<open>Suites\<close>

definition WPA_CIPHER_NONE :: u32 where "WPA_CIPHER_NONE = BIT 0"
definition WPA_CIPHER_WEP40 :: u32 where "WPA_CIPHER_WEP40 = BIT 1"
definition WPA_CIPHER_WEP104 :: u32 where "WPA_CIPHER_WEP104 = BIT 2"
definition WPA_CIPHER_TKIP :: u32 where "WPA_CIPHER_TKIP = BIT 3"
definition WPA_CIPHER_CCMP :: u32 where "WPA_CIPHER_CCMP = BIT 4"
definition WPA_CIPHER_GCMP :: u32 where "WPA_CIPHER_GCMP = BIT 5"
definition WPA_CIPHER_GCMP_256 :: u32 where "WPA_CIPHER_GCMP_256 = BIT 6"
definition WPA_CIPHER_CCMP_256 :: u32 where "WPA_CIPHER_CCMP_256 = BIT 7"
definition WPA_CIPHER_BIP_CMAC_128 :: u32 where "WPA_CIPHER_BIP_CMAC_128 = BIT 8"
definition WPA_CIPHER_BIP_GMAC_128 :: u32 where "WPA_CIPHER_BIP_GMAC_128 = BIT 9"
definition WPA_CIPHER_BIP_GMAC_256 :: u32 where "WPA_CIPHER_BIP_GMAC_256 = BIT 10"
definition WPA_CIPHER_BIP_CMAC_256 :: u32 where "WPA_CIPHER_BIP_CMAC_256 = BIT 11"

definition WPA_CIPHER_SUITE_NONE :: "u8w list" where "WPA_CIPHER_SUITE_NONE = [0x00, 0x50, 0xf2, 0]"
definition WPA_CIPHER_SUITE_WEP40 :: "u8w list" where "WPA_CIPHER_SUITE_WEP40 = [0x00, 0x50, 0xf2, 1]"
definition WPA_CIPHER_SUITE_TKIP :: "u8w list" where "WPA_CIPHER_SUITE_TKIP = [0x00, 0x50, 0xf2, 2]"
definition WPA_CIPHER_SUITE_CCMP :: "u8w list" where "WPA_CIPHER_SUITE_CCMP = [0x00, 0x50, 0xf2, 4]"
definition WPA_CIPHER_SUITE_WEP104 :: "u8w list" where "WPA_CIPHER_SUITE_WEP104 = [0x00, 0x50, 0xf2, 5]"

definition RSN_CIPHER_SUITE_NONE :: "u8w list" where "RSN_CIPHER_SUITE_NONE = [0x00, 0x0f, 0xac, 0]"
definition RSN_CIPHER_SUITE_WEP40 :: "u8w list" where "RSN_CIPHER_SUITE_WEP40 = [0x00, 0x0f, 0xac, 1]"
definition RSN_CIPHER_SUITE_TKIP :: "u8w list" where "RSN_CIPHER_SUITE_TKIP = [0x00, 0x0f, 0xac, 2]"
definition RSN_CIPHER_SUITE_CCMP :: "u8w list" where "RSN_CIPHER_SUITE_CCMP = [0x00, 0x0f, 0xac, 4]"
definition RSN_CIPHER_SUITE_GCMP :: "u8w list" where "RSN_CIPHER_SUITE_GCMP = [0x00, 0x0f, 0xac, 8]"
definition RSN_CIPHER_SUITE_GCMP_256 :: "u8w list" where "RSN_CIPHER_SUITE_GCMP_256 = [0x00, 0x0f, 0xac, 9]"
definition RSN_CIPHER_SUITE_CCMP_256 :: "u8w list" where "RSN_CIPHER_SUITE_CCMP_256 = [0x00, 0x0f, 0xac, 10]"
definition RSN_CIPHER_SUITE_WEP104 :: "u8w list" where "RSN_CIPHER_SUITE_WEP104 = [0x00, 0x0f, 0xac, 5]"
definition RSN_CIPHER_SUITE_AES_128_CMAC :: "u8w list" where "RSN_CIPHER_SUITE_AES_128_CMAC = [0x00, 0x0f, 0xac, 6]"
definition RSN_CIPHER_SUITE_BIP_GMAC_128 :: "u8w list" where "RSN_CIPHER_SUITE_BIP_GMAC_128 = [0x00, 0x0f, 0xac, 11]"
definition RSN_CIPHER_SUITE_BIP_GMAC_256 :: "u8w list" where "RSN_CIPHER_SUITE_BIP_GMAC_256 = [0x00, 0x0f, 0xac, 12]"
definition RSN_CIPHER_SUITE_BIP_CMAC_256 :: "u8w list" where "RSN_CIPHER_SUITE_BIP_CMAC_256 = [0x00, 0x0f, 0xac, 13]"

definition WLAN_AKM_TYPE_8021X :: u32 where "WLAN_AKM_TYPE_8021X = BIT 0"
definition WLAN_AKM_TYPE_PSK :: u32 where "WLAN_AKM_TYPE_PSK = BIT 1"
definition WLAN_AKM_TYPE_FT_8021X :: u32 where "WLAN_AKM_TYPE_FT_8021X = BIT 2"
definition WLAN_AKM_TYPE_FT_PSK :: u32 where "WLAN_AKM_TYPE_FT_PSK = BIT 3"
definition WLAN_AKM_TYPE_8021X_SHA256 :: u32 where "WLAN_AKM_TYPE_8021X_SHA256 = BIT 4"
definition WLAN_AKM_TYPE_PSK_SHA256 :: u32 where "WLAN_AKM_TYPE_PSK_SHA256 = BIT 5"
definition WLAN_AKM_TYPE_TDLS :: u32 where "WLAN_AKM_TYPE_TDLS = BIT 6"
definition WLAN_AKM_TYPE_SAE :: u32 where "WLAN_AKM_TYPE_SAE = BIT 7"
definition WLAN_AKM_TYPE_FT_OVER_SAE :: u32 where "WLAN_AKM_TYPE_FT_OVER_SAE = BIT 8"
definition WLAN_AKM_TYPE_8021X_SUITE_B :: u32 where "WLAN_AKM_TYPE_8021X_SUITE_B = BIT 9"
definition WLAN_AKM_TYPE_8021X_SUITE_B_192 :: u32 where "WLAN_AKM_TYPE_8021X_SUITE_B_192 = BIT 10"
definition WLAN_AKM_TYPE_FILS_SHA256 :: u32 where "WLAN_AKM_TYPE_FILS_SHA256 = BIT 11"
definition WLAN_AKM_TYPE_FILS_SHA384 :: u32 where "WLAN_AKM_TYPE_FILS_SHA384 = BIT 12"
definition WLAN_AKM_TYPE_FT_FILS_SHA256 :: u32 where "WLAN_AKM_TYPE_FT_FILS_SHA256 = BIT 13"
definition WLAN_AKM_TYPE_FT_FILS_SHA384 :: u32 where "WLAN_AKM_TYPE_FT_FILS_SHA384 = BIT 14"

definition WLAN_AKM_8021X :: "u8w list" where "WLAN_AKM_8021X = [0x00, 0x0f, 0xac, 1]"
definition WLAN_AKM_PSK :: "u8w list" where "WLAN_AKM_PSK = [0x00, 0x0f, 0xac, 2]"
definition WLAN_AKM_FT_8021X :: "u8w list" where "WLAN_AKM_FT_8021X = [0x00, 0x0f, 0xac, 3]"
definition WLAN_AKM_FT_PSK :: "u8w list" where "WLAN_AKM_FT_PSK = [0x00, 0x0f, 0xac, 4]"
definition WLAN_AKM_8021X_SHA256 :: "u8w list" where "WLAN_AKM_8021X_SHA256 = [0x00, 0x0f, 0xac, 5]"
definition WLAN_AKM_PSK_SHA256 :: "u8w list" where "WLAN_AKM_PSK_SHA256 = [0x00, 0x0f, 0xac, 6]"
definition WLAN_AKM_TDLS :: "u8w list" where "WLAN_AKM_TDLS = [0x00, 0x0f, 0xac, 7]"
definition WLAN_AKM_SAE :: "u8w list" where "WLAN_AKM_SAE = [0x00, 0x0f, 0xac, 8]"
definition WLAN_AKM_FT_OVER_SAE :: "u8w list" where "WLAN_AKM_FT_OVER_SAE = [0x00, 0x0f, 0xac, 9]"
definition WLAN_AKM_8021X_SUITE_B :: "u8w list" where "WLAN_AKM_8021X_SUITE_B = [0x00, 0x0f, 0xac, 11]"
definition WLAN_AKM_8021X_SUITE_B_192 :: "u8w list" where "WLAN_AKM_8021X_SUITE_B_192 = [0x00, 0x0f, 0xac, 12]"
definition WLAN_AKM_FILS_SHA256 :: "u8w list" where "WLAN_AKM_FILS_SHA256 = [0x00, 0x0f, 0xac, 14]"
definition WLAN_AKM_FILS_SHA384 :: "u8w list" where "WLAN_AKM_FILS_SHA384 = [0x00, 0x0f, 0xac, 15]"
definition WLAN_AKM_FT_FILS_SHA256 :: "u8w list" where "WLAN_AKM_FT_FILS_SHA256 = [0x00, 0x0f, 0xac, 16]"
definition WLAN_AKM_FT_FILS_SHA384 :: "u8w list" where "WLAN_AKM_FT_FILS_SHA384 = [0x00, 0x0f, 0xac, 17]"

text \<open>A suite is compared with the known ones in turn.\<close>

fun suite_of :: "u8w list \<Rightarrow> (u8w list \<times> u32) list \<Rightarrow> u32" where
  "suite_of s [] = 0"
| "suite_of s ((suite, v) # known) = (if s = suite then v else suite_of s known)"

definition wpa_ciphers :: "(u8w list \<times> u32) list" where
  "wpa_ciphers =
     [(WPA_CIPHER_SUITE_NONE, WPA_CIPHER_NONE),
      (WPA_CIPHER_SUITE_WEP40, WPA_CIPHER_WEP40),
      (WPA_CIPHER_SUITE_TKIP, WPA_CIPHER_TKIP),
      (WPA_CIPHER_SUITE_CCMP, WPA_CIPHER_CCMP),
      (WPA_CIPHER_SUITE_WEP104, WPA_CIPHER_WEP104)]"

definition rsn_ciphers :: "(u8w list \<times> u32) list" where
  "rsn_ciphers =
     [(RSN_CIPHER_SUITE_NONE, WPA_CIPHER_NONE),
      (RSN_CIPHER_SUITE_WEP40, WPA_CIPHER_WEP40),
      (RSN_CIPHER_SUITE_TKIP, WPA_CIPHER_TKIP),
      (RSN_CIPHER_SUITE_CCMP, WPA_CIPHER_CCMP),
      (RSN_CIPHER_SUITE_GCMP, WPA_CIPHER_GCMP),
      (RSN_CIPHER_SUITE_GCMP_256, WPA_CIPHER_GCMP_256),
      (RSN_CIPHER_SUITE_CCMP_256, WPA_CIPHER_CCMP_256),
      (RSN_CIPHER_SUITE_WEP104, WPA_CIPHER_WEP104),
      (RSN_CIPHER_SUITE_AES_128_CMAC, WPA_CIPHER_BIP_CMAC_128),
      (RSN_CIPHER_SUITE_BIP_GMAC_128, WPA_CIPHER_BIP_GMAC_128),
      (RSN_CIPHER_SUITE_BIP_GMAC_256, WPA_CIPHER_BIP_GMAC_256),
      (RSN_CIPHER_SUITE_BIP_CMAC_256, WPA_CIPHER_BIP_CMAC_256)]"

definition akm_suites :: "(u8w list \<times> u32) list" where
  "akm_suites =
     [(WLAN_AKM_8021X, WLAN_AKM_TYPE_8021X),
      (WLAN_AKM_PSK, WLAN_AKM_TYPE_PSK),
      (WLAN_AKM_FT_8021X, WLAN_AKM_TYPE_FT_8021X),
      (WLAN_AKM_FT_PSK, WLAN_AKM_TYPE_FT_PSK),
      (WLAN_AKM_8021X_SHA256, WLAN_AKM_TYPE_8021X_SHA256),
      (WLAN_AKM_PSK_SHA256, WLAN_AKM_TYPE_PSK_SHA256),
      (WLAN_AKM_TDLS, WLAN_AKM_TYPE_TDLS),
      (WLAN_AKM_SAE, WLAN_AKM_TYPE_SAE),
      (WLAN_AKM_FT_OVER_SAE, WLAN_AKM_TYPE_FT_OVER_SAE),
      (WLAN_AKM_8021X_SUITE_B, WLAN_AKM_TYPE_8021X_SUITE_B),
      (WLAN_AKM_8021X_SUITE_B_192, WLAN_AKM_TYPE_8021X_SUITE_B_192),
      (WLAN_AKM_FILS_SHA256, WLAN_AKM_TYPE_FILS_SHA256),
      (WLAN_AKM_FILS_SHA384, WLAN_AKM_TYPE_FILS_SHA384),
      (WLAN_AKM_FT_FILS_SHA256, WLAN_AKM_TYPE_FT_FILS_SHA256),
      (WLAN_AKM_FT_FILS_SHA384, WLAN_AKM_TYPE_FT_FILS_SHA384)]"

definition rtw_get_wpa_cipher_suite :: "u8w list \<Rightarrow> nat \<Rightarrow> u32 option" where
  "rtw_get_wpa_cipher_suite m p = map_option (\<lambda>s. suite_of s wpa_ciphers) (rdn m p 4)"

definition rtw_get_rsn_cipher_suite :: "u8w list \<Rightarrow> nat \<Rightarrow> u32 option" where
  "rtw_get_rsn_cipher_suite m p = map_option (\<lambda>s. suite_of s rsn_ciphers) (rdn m p 4)"

definition rtw_get_akm_suite_bitmap :: "u8w list \<Rightarrow> nat \<Rightarrow> u32 option" where
  "rtw_get_akm_suite_bitmap m p = map_option (\<lambda>s. suite_of s akm_suites) (rdn m p 4)"

text \<open>The suites of a list, collected in a bit map.\<close>

fun suites_or :: "(u8w list \<Rightarrow> nat \<Rightarrow> u32 option) \<Rightarrow> u8w list \<Rightarrow> nat \<Rightarrow> nat \<Rightarrow> u32 \<Rightarrow> u32 option" where
  "suites_or suite m p 0 acc = Some acc"
| "suites_or suite m p (Suc n) acc = do { v \<leftarrow> suite m p; suites_or suite m (p + 4) n (acc OR v) }"

section \<open>The WPA element\<close>

definition WPA_IE_ID :: nat where "WPA_IE_ID = 0xdd"
definition WPA2_IE_ID :: nat where "WPA2_IE_ID = 0x30"
definition RTW_WPA_OUI_TYPE :: "u8w list" where "RTW_WPA_OUI_TYPE = [0x00, 0x50, 0xf2, 1]"
definition WPA_SELECTOR_LEN :: nat where "WPA_SELECTOR_LEN = 4"

lemma get_ie_loop_ge: "get_ie_loop m p index i limit = Some (Some (q, l)) \<Longrightarrow> p \<le> q"
proof (induction m p index i limit rule: get_ie_loop.induct)
  case (1 m p index i limit)
  show ?case
  proof (cases "rd m p = None \<or> rd m (p + 1) = None")
    case True
    with 1(2) show ?thesis by (simp add: get_ie_loop_fault)
  next
    case False
    then obtain b l' where r: "rd m p = Some b" "rd m (p + 1) = Some l'" by (meson option.exhaust)
    show ?thesis using 1(1) [OF r] 1(2) by (auto simp: get_ie_loop_step [OF r] split: if_splits)
  qed
qed

text \<open>The search for a WPA element of version one, from \<open>pbuf\<close> on.\<close>

function get_wpa_loop :: "u8w list \<Rightarrow> nat \<Rightarrow> int \<Rightarrow> nat \<Rightarrow> int \<Rightarrow> (nat \<times> nat) option option" where
  "get_wpa_loop m pie limit pbuf limit_new =
     (case rtw_get_ie m pbuf WPA_IE_ID limit_new of None \<Rightarrow> None
      | Some None \<Rightarrow> Some None
      | Some (Some (p, l)) \<Rightarrow>
          do { oui \<leftarrow> mem_eq m (p + 2) RTW_WPA_OUI_TYPE;
               version \<leftarrow> (if oui then RTW_GET_LE16 m (p + 6) else Some 0);
               if oui \<and> version = 1 then map_option (\<lambda>n. Some (p, n)) (rd m (p + 1))
               else
                 let limit_new = limit - (int p - int pie) - 2 - int l in
                 if limit_new \<le> 0 then Some None else get_wpa_loop m pie limit (p + (2 + l)) limit_new })"
  by pat_completeness auto
termination
proof (relation "measure (\<lambda>(m, pie, limit, pbuf, limit_new). nat (int pie + limit - int pbuf))", goal_cases)
  case (2 m pie limit pbuf limit_new x2 x2a p l oui version limit_new')
  then have "pbuf \<le> p" using get_ie_loop_ge [of m pbuf WPA_IE_ID 0] by (auto simp: rtw_get_ie_def split: if_splits)
  with 2 show ?case by auto
qed auto

declare get_wpa_loop.simps [simp del]

definition rtw_get_wpa_ie :: "u8w list \<Rightarrow> nat \<Rightarrow> int \<Rightarrow> (nat \<times> nat) option option" where
  "rtw_get_wpa_ie m pie limit = get_wpa_loop m pie limit pie limit"

definition rtw_get_wpa2_ie :: "u8w list \<Rightarrow> nat \<Rightarrow> int \<Rightarrow> (nat \<times> nat) option option" where
  "rtw_get_wpa2_ie m pie limit = rtw_get_ie m pie WPA2_IE_ID limit"

text \<open>The ciphers and the key management of a WPA element; what is not in the element keeps the value the caller
  gave. No key management is wanted when it is \<open>None\<close>.\<close>

record wpa_info =
  group_cipher :: u32
  pairwise_cipher :: u32
  wpa_akm :: "u32 option"

definition wpa_akm_of :: "u8w list \<Rightarrow> nat \<Rightarrow> int \<Rightarrow> wpa_info \<Rightarrow> wpa_info option" where
  "wpa_akm_of m pos left info =
     (if wpa_akm info \<noteq> None \<and> 6 \<le> left
      then do { hit \<leftarrow> mem_eq m (pos + 2) RTW_WPA_OUI_TYPE; Some (if hit then info\<lparr>wpa_akm := Some WLAN_AKM_TYPE_8021X\<rparr> else info) }
      else Some info)"

definition rtw_parse_wpa_ie :: "u8w list \<Rightarrow> nat \<Rightarrow> int \<Rightarrow> wpa_info \<Rightarrow> (wpa_info \<times> rtw_ret) option" where
  "rtw_parse_wpa_ie m wpa_ie wpa_ie_len info =
     (if wpa_ie_len \<le> 0 then Some (info, RTW_FAIL)
      else
        do { b \<leftarrow> rd m wpa_ie;
             hdr \<leftarrow> (if b \<noteq> WPA_IE_ID then Some False
                     else do { l \<leftarrow> rd m (wpa_ie + 1);
                               if l \<noteq> to_u8 (wpa_ie_len - 2) then Some False else mem_eq m (wpa_ie + 2) RTW_WPA_OUI_TYPE });
             if \<not> hdr then Some (info, RTW_FAIL)
             else
               let pos = wpa_ie + 8; left = wpa_ie_len - 8 in
               if 0 < left \<and> left < int WPA_SELECTOR_LEN then Some (info, RTW_FAIL)
               else
                 do { (info1, pos1, left1) \<leftarrow>
                        (if int WPA_SELECTOR_LEN \<le> left
                         then do { g \<leftarrow> rtw_get_wpa_cipher_suite m pos;
                                   Some (info\<lparr>group_cipher := g\<rparr>, pos + WPA_SELECTOR_LEN, left - int WPA_SELECTOR_LEN) }
                         else Some (info, pos, left));
                      if left1 = 1 then Some (info1, RTW_FAIL)
                      else if 2 \<le> left1 then
                        do { cnt \<leftarrow> RTW_GET_LE16 m pos1;
                             if cnt = 0 \<or> left1 - 2 < int cnt * int WPA_SELECTOR_LEN then Some (info1, RTW_FAIL)
                             else
                               do { pc \<leftarrow> suites_or rtw_get_wpa_cipher_suite m (pos1 + 2) cnt (pairwise_cipher info1);
                                    info2 \<leftarrow> wpa_akm_of m (pos1 + 2 + 4 * cnt) (left1 - 2 - 4 * int cnt) (info1\<lparr>pairwise_cipher := pc\<rparr>);
                                    Some (info2, RTW_SUCCESS) } }
                      else do { info2 \<leftarrow> wpa_akm_of m pos1 left1 info1; Some (info2, RTW_SUCCESS) } } })"

section \<open>The RSN element\<close>

definition WLAN_EID_RSN :: nat where "WLAN_EID_RSN = 48"
definition RSN_HEADER_LEN :: nat where "RSN_HEADER_LEN = 4"
definition RSN_SELECTOR_LEN :: nat where "RSN_SELECTOR_LEN = 4"
definition RSN_PMKID_LEN :: nat where "RSN_PMKID_LEN = 16"
definition RSN_VERSION_BSD :: nat where "RSN_VERSION_BSD = 1"

record rsne_info =
  gcs :: "nat option"
  pcs_cnt :: nat
  pcs_list :: "nat option"
  akm_cnt :: nat
  akm_list :: "nat option"
  rsn_cap :: "nat option"
  pmkid_cnt :: nat
  pmkid_list :: "nat option"
  gmcs :: "nat option"
  rsne_err :: bool

definition zero_rsne :: rsne_info where
  "zero_rsne = \<lparr>gcs = None, pcs_cnt = 0, pcs_list = None, akm_cnt = 0, akm_list = None, rsn_cap = None, pmkid_cnt = 0,
     pmkid_list = None, gmcs = None, rsne_err = False\<rparr>"

text \<open>
  The fields of the element from a position on, the last one first; \<open>fin\<close> is the end of the element. An element may end before
  any field; one that ends within a field is an error.
\<close>

definition rsne_fail :: "rsne_info \<Rightarrow> rsne_info \<times> rtw_ret" where
  "rsne_fail info = (info\<lparr>rsne_err := True\<rparr>, RTW_FAIL)"

definition rsne_cut :: "bool \<Rightarrow> rsne_info \<Rightarrow> rsne_info \<times> rtw_ret" where
  "rsne_cut at_end info = (if \<not> at_end then rsne_fail info else (info, RTW_SUCCESS))"

definition rsne_gmcs :: "nat \<Rightarrow> nat \<Rightarrow> rsne_info \<Rightarrow> rsne_info \<times> rtw_ret" where
  "rsne_gmcs fin pos info =
     (if fin < pos + RSN_SELECTOR_LEN then rsne_cut (fin = pos) info else (info\<lparr>gmcs := Some pos\<rparr>, RTW_SUCCESS))"

definition rsne_pmkid :: "u8w list \<Rightarrow> nat \<Rightarrow> nat \<Rightarrow> rsne_info \<Rightarrow> (rsne_info \<times> rtw_ret) option" where
  "rsne_pmkid m fin pos info =
     (if fin < pos + 2 then Some (rsne_cut (fin = pos) info)
      else
        do { cnt \<leftarrow> RTW_GET_LE16 m pos;
             if fin < pos + 2 + RSN_PMKID_LEN * cnt then Some (rsne_cut (fin = pos + 2 \<and> cnt = 0) info)
             else Some (rsne_gmcs fin (pos + 2 + RSN_PMKID_LEN * cnt) (info\<lparr>pmkid_cnt := cnt, pmkid_list := Some (pos + 2)\<rparr>)) })"

definition rsne_rsn_cap :: "u8w list \<Rightarrow> nat \<Rightarrow> nat \<Rightarrow> rsne_info \<Rightarrow> (rsne_info \<times> rtw_ret) option" where
  "rsne_rsn_cap m fin pos info =
     (if fin < pos + 2 then Some (rsne_cut (fin = pos) info) else rsne_pmkid m fin (pos + 2) (info\<lparr>rsn_cap := Some pos\<rparr>))"

definition rsne_akm :: "u8w list \<Rightarrow> nat \<Rightarrow> nat \<Rightarrow> rsne_info \<Rightarrow> (rsne_info \<times> rtw_ret) option" where
  "rsne_akm m fin pos info =
     (if fin < pos + 2 then Some (rsne_cut (fin = pos) info)
      else
        do { cnt \<leftarrow> RTW_GET_LE16 m pos;
             if cnt = 0 then Some (rsne_fail info)
             else if fin < pos + 2 + RSN_SELECTOR_LEN * cnt then Some (rsne_cut (fin = pos + 2) info)
             else rsne_rsn_cap m fin (pos + 2 + RSN_SELECTOR_LEN * cnt) (info\<lparr>akm_cnt := cnt, akm_list := Some (pos + 2)\<rparr>) })"

definition rsne_pcs :: "u8w list \<Rightarrow> nat \<Rightarrow> nat \<Rightarrow> rsne_info \<Rightarrow> (rsne_info \<times> rtw_ret) option" where
  "rsne_pcs m fin pos info =
     (if fin < pos + 2 then Some (rsne_cut (fin = pos) info)
      else
        do { cnt \<leftarrow> RTW_GET_LE16 m pos;
             if cnt = 0 then Some (rsne_fail info)
             else if fin < pos + 2 + RSN_SELECTOR_LEN * cnt then Some (rsne_cut (fin = pos + 2) info)
             else rsne_akm m fin (pos + 2 + RSN_SELECTOR_LEN * cnt) (info\<lparr>pcs_cnt := cnt, pcs_list := Some (pos + 2)\<rparr>) })"

definition rsne_gcs :: "u8w list \<Rightarrow> nat \<Rightarrow> nat \<Rightarrow> rsne_info \<Rightarrow> (rsne_info \<times> rtw_ret) option" where
  "rsne_gcs m fin pos info =
     (if fin < pos + RSN_SELECTOR_LEN then Some (rsne_cut (fin = pos) info)
      else rsne_pcs m fin (pos + RSN_SELECTOR_LEN) (info\<lparr>gcs := Some pos\<rparr>))"

text \<open>The version is compared by its low byte only.\<close>

definition rtw_rsne_info_parse :: "u8w list \<Rightarrow> nat \<Rightarrow> nat \<Rightarrow> (rsne_info \<times> rtw_ret) option" where
  "rtw_rsne_info_parse m ie ie_len =
     (if ie + ie_len < ie + RSN_HEADER_LEN then Some (rsne_fail zero_rsne)
      else
        do { b \<leftarrow> rd m ie;
             bad \<leftarrow> (if b \<noteq> WLAN_EID_RSN then Some True else map_option (\<lambda>l. l \<noteq> ie_len - 2) (rd m (ie + 1)));
             if bad then Some (rsne_fail zero_rsne)
             else
               do { v \<leftarrow> rd m (ie + 2);
                    if v \<noteq> RSN_VERSION_BSD then Some (rsne_fail zero_rsne)
                    else rsne_gcs m (ie + ie_len) (ie + RSN_HEADER_LEN) zero_rsne } })"

definition GET_RSN_CAP_MFP_OPTION :: "u8w list \<Rightarrow> nat \<Rightarrow> nat option" where
  "GET_RSN_CAP_MFP_OPTION m p = map_option (\<lambda>v. v div 2 ^ 6 mod 2 ^ 2) (RTW_GET_LE16 m p)"

definition GET_RSN_CAP_SPP_OPT :: "u8w list \<Rightarrow> nat \<Rightarrow> nat option" where
  "GET_RSN_CAP_SPP_OPT m p = map_option (\<lambda>v. v div 2 ^ 10 mod 2 ^ 2) (RTW_GET_LE16 m p)"

definition MFP_NO :: nat where "MFP_NO = 0"

text \<open>The outputs of \<^verbatim>\<open>rtw_parse_wpa2_ie\<close>; each is written only if the caller gives a place for it.\<close>

record rsn_out =
  o_group :: u32
  o_pairwise :: u32
  o_gmcs :: u32
  o_akm :: u32
  o_mfp :: nat
  o_spp :: nat

definition at_ptr :: "nat option \<Rightarrow> 'a \<Rightarrow> (nat \<Rightarrow> 'a option) \<Rightarrow> 'a option" where
  "at_ptr p dflt f = (case p of None \<Rightarrow> Some dflt | Some q \<Rightarrow> f q)"

definition rtw_parse_wpa2_ie :: "u8w list \<Rightarrow> nat \<Rightarrow> nat \<Rightarrow> (rsn_out option \<times> rtw_ret) option" where
  "rtw_parse_wpa2_ie m rsn_ie rsn_ie_len =
     do { (info, ret) \<leftarrow> rtw_rsne_info_parse m rsn_ie rsn_ie_len;
          if ret \<noteq> RTW_SUCCESS then Some (None, ret)
          else
            do { g \<leftarrow> at_ptr (gcs info) 0 (rtw_get_rsn_cipher_suite m);
                 p \<leftarrow> suites_or rtw_get_rsn_cipher_suite m (case pcs_list info of None \<Rightarrow> 0 | Some q \<Rightarrow> q) (pcs_cnt info) 0;
                 gm \<leftarrow> at_ptr (gmcs info) WPA_CIPHER_BIP_CMAC_128 (rtw_get_rsn_cipher_suite m);
                 a \<leftarrow> suites_or rtw_get_akm_suite_bitmap m (case akm_list info of None \<Rightarrow> 0 | Some q \<Rightarrow> q) (akm_cnt info) 0;
                 mfp \<leftarrow> at_ptr (rsn_cap info) MFP_NO (GET_RSN_CAP_MFP_OPTION m);
                 spp \<leftarrow> at_ptr (rsn_cap info) 0 (GET_RSN_CAP_SPP_OPT m);
                 Some (Some \<lparr>o_group = g, o_pairwise = p, o_gmcs = gm, o_akm = a, o_mfp = mfp, o_spp = spp\<rparr>, ret) } }"

section \<open>Security elements of a network\<close>

definition FIXED_IE_LENGTH :: nat where "FIXED_IE_LENGTH = 12"
definition WAPI_IE :: nat where "WAPI_IE = 68"

text \<open>
  The loops go over all elements behind the fixed part and keep the last that match: a length, and the copy in a buffer of
  the given size, if there is one.
\<close>

record sec_out =
  sec_len :: nat
  sec_copy :: "u8w list"

definition copy_ie :: "u8w list \<Rightarrow> nat option \<Rightarrow> nat \<Rightarrow> nat \<Rightarrow> u8w list \<Rightarrow> u8w list option" where
  "copy_ie m buf p n old = (case buf of None \<Rightarrow> Some old | Some sz \<Rightarrow> if n \<le> sz then rdn m p n else None)"

definition wapi_hit :: "u8w list \<Rightarrow> nat \<Rightarrow> nat \<Rightarrow> bool option" where
  "wapi_hit m authmode p =
     (if authmode = WAPI_IE
      then do { one \<leftarrow> mem_eq m (p + 6) [0x0, 0x14, 0x72, 0x01];
                if one then Some True else mem_eq m (p + 6) [0x0, 0x14, 0x72, 0x02] }
      else Some False)"

function wapi_loop :: "u8w list \<Rightarrow> nat \<Rightarrow> nat \<Rightarrow> nat option \<Rightarrow> bool \<Rightarrow> nat \<Rightarrow> sec_out \<Rightarrow> sec_out option" where
  "wapi_loop m in_ie in_len wapi_ie wapi_len cnt out =
     (if cnt < in_len then
        do { authmode \<leftarrow> rd m (in_ie + cnt);
             hit \<leftarrow> wapi_hit m authmode (in_ie + cnt);
             l \<leftarrow> rd m (in_ie + cnt + 1);
             out1 \<leftarrow> (if hit then do { c \<leftarrow> copy_ie m wapi_ie (in_ie + cnt) (l + 2) (sec_copy out);
                                       Some (out\<lparr>sec_len := if wapi_len then l + 2 else sec_len out, sec_copy := c\<rparr>) }
                      else Some out);
             wapi_loop m in_ie in_len wapi_ie wapi_len (cnt + (l + 2)) out1 }
      else Some out)"
  by pat_completeness auto
termination
  by (relation "measure (\<lambda>(m, in_ie, in_len, wapi_ie, wapi_len, cnt, out). in_len - cnt)") auto

definition rtw_get_wapi_ie :: "u8w list \<Rightarrow> nat option \<Rightarrow> nat \<Rightarrow> nat option \<Rightarrow> bool \<Rightarrow> (nat \<times> u8w list) option" where
  "rtw_get_wapi_ie m in_ie in_len wapi_ie wapi_len =
     (case in_ie of None \<Rightarrow> Some (0, [])
      | Some p \<Rightarrow>
          if in_len = 0 then Some (0, [])
          else map_option (\<lambda>out. (sec_len out, sec_copy out))
                 (wapi_loop m p in_len wapi_ie wapi_len FIXED_IE_LENGTH \<lparr>sec_len = 0, sec_copy = []\<rparr>))"

text \<open>The lengths of the two elements are those of the caller where no element is found.\<close>

function sec_loop ::
  "u8w list \<Rightarrow> nat \<Rightarrow> nat \<Rightarrow> nat option \<Rightarrow> nat option \<Rightarrow> nat \<Rightarrow> sec_out \<Rightarrow> sec_out \<Rightarrow> (sec_out \<times> sec_out) option" where
  "sec_loop m in_ie in_len rsn_ie wpa_ie cnt rsn wpa =
     (if cnt < in_len then
        do { authmode \<leftarrow> rd m (in_ie + cnt);
             is_wpa \<leftarrow> (if authmode = WPA_IE_ID then mem_eq m (in_ie + cnt + 2) RTW_WPA_OUI_TYPE else Some False);
             l \<leftarrow> rd m (in_ie + cnt + 1);
             (rsn1, wpa1) \<leftarrow>
               (if is_wpa then do { c \<leftarrow> copy_ie m wpa_ie (in_ie + cnt) (l + 2) (sec_copy wpa); Some (rsn, \<lparr>sec_len = l + 2, sec_copy = c\<rparr>) }
                else if authmode = WPA2_IE_ID
                then do { c \<leftarrow> copy_ie m rsn_ie (in_ie + cnt) (l + 2) (sec_copy rsn); Some (\<lparr>sec_len = l + 2, sec_copy = c\<rparr>, wpa) }
                else Some (rsn, wpa));
             sec_loop m in_ie in_len rsn_ie wpa_ie (cnt + (l + 2)) rsn1 wpa1 }
      else Some (rsn, wpa))"
  by pat_completeness auto
termination
  by (relation "measure (\<lambda>(m, in_ie, in_len, rsn_ie, wpa_ie, cnt, rsn, wpa). in_len - cnt)") auto

declare wapi_loop.simps [simp del] sec_loop.simps [simp del]

definition rtw_get_sec_ie ::
  "u8w list \<Rightarrow> nat \<Rightarrow> nat \<Rightarrow> nat option \<Rightarrow> nat option \<Rightarrow> sec_out \<Rightarrow> sec_out \<Rightarrow> (sec_out \<times> sec_out \<times> nat) option" where
  "rtw_get_sec_ie m in_ie in_len rsn_ie wpa_ie rsn wpa =
     map_option (\<lambda>(r, w). (r, w, sec_len r + sec_len w)) (sec_loop m in_ie in_len rsn_ie wpa_ie FIXED_IE_LENGTH rsn wpa)"

section \<open>Protected aggregates\<close>

datatype rtw_amsdu_mode = RTW_AMSDU_MODE_NON_SPP | RTW_AMSDU_MODE_SPP | RTW_AMSDU_MODE_ALL_DROP | RTW_AMSDU_MODE_OTHER nat

definition SPP_CAP :: u32 where "SPP_CAP = BIT 0"
definition SPP_REQ :: u32 where "SPP_REQ = BIT 1"

text \<open>The two bits of the capabilities are set through a pointer that is NULL when the element has no capabilities.\<close>

definition SET_RSN_CAP_SPP :: "u8w list \<Rightarrow> nat option \<Rightarrow> u8w \<Rightarrow> u8w list option" where
  "SET_RSN_CAP_SPP m cap spp =
     (case cap of None \<Rightarrow> None
      | Some p \<Rightarrow>
          do { v \<leftarrow> RTW_GET_LE16 m p;
               wrn m p (RTW_PUT_LE16 (v - (v div 2 ^ 10 mod 2 ^ 2) * 2 ^ 10 + unat (spp AND 3) * 2 ^ 10)) })"

definition rtw_set_spp_amsdu_mode :: "rtw_amsdu_mode \<Rightarrow> u8w list \<Rightarrow> nat \<Rightarrow> nat \<Rightarrow> u8w list option" where
  "rtw_set_spp_amsdu_mode mode m rsn_ie rsn_ie_len =
     (let set = (\<lambda>v. do { (info, ret) \<leftarrow> rtw_rsne_info_parse m rsn_ie rsn_ie_len;
                          if ret \<noteq> RTW_SUCCESS then Some m else SET_RSN_CAP_SPP m (rsn_cap info) v })
      in case mode of
           RTW_AMSDU_MODE_NON_SPP \<Rightarrow> set (ucast (NOT SPP_CAP OR NOT SPP_REQ))
         | RTW_AMSDU_MODE_SPP \<Rightarrow> set (ucast (SPP_CAP OR SPP_REQ))
         | RTW_AMSDU_MODE_ALL_DROP \<Rightarrow> set (ucast (NOT SPP_CAP OR SPP_REQ))
         | RTW_AMSDU_MODE_OTHER _ \<Rightarrow> Some m)"

definition rtw_check_amsdu_disable :: "rtw_amsdu_mode \<Rightarrow> u32 \<Rightarrow> bool" where
  "rtw_check_amsdu_disable mode spp_opt =
     (if mode = RTW_AMSDU_MODE_NON_SPP \<and> spp_opt AND SPP_REQ \<noteq> 0 then True
      else if mode = RTW_AMSDU_MODE_SPP \<and> NOT (spp_opt AND SPP_CAP) \<noteq> 0 then True
      else if mode = RTW_AMSDU_MODE_ALL_DROP then True
      else False)"

section \<open>The RSN parser stays inside the element\<close>

definition inside :: "nat \<Rightarrow> nat \<Rightarrow> nat option \<Rightarrow> nat \<Rightarrow> bool" where
  "inside lo fin p n \<longleftrightarrow> (case p of None \<Rightarrow> True | Some q \<Rightarrow> lo \<le> q \<and> q + n \<le> fin)"

definition info_inside :: "nat \<Rightarrow> nat \<Rightarrow> rsne_info \<Rightarrow> bool" where
  "info_inside lo fin info \<longleftrightarrow> inside lo fin (gcs info) 4 \<and> inside lo fin (pcs_list info) (4 * pcs_cnt info) \<and>
     inside lo fin (akm_list info) (4 * akm_cnt info) \<and> inside lo fin (rsn_cap info) 2 \<and>
     inside lo fin (pmkid_list info) (16 * pmkid_cnt info) \<and> inside lo fin (gmcs info) 4 \<and>
     (pcs_list info = None \<longrightarrow> pcs_cnt info = 0) \<and> (akm_list info = None \<longrightarrow> akm_cnt info = 0)"

lemmas rsne_lens = RSN_HEADER_LEN_def RSN_SELECTOR_LEN_def RSN_PMKID_LEN_def

lemma get_le16_inside: "p + 2 \<le> length m \<Longrightarrow> \<exists>n. RTW_GET_LE16 m p = Some n"
  by (simp add: RTW_GET_LE16_def rd_def)

lemma cut_inside: "info_inside lo fin info \<Longrightarrow> info_inside lo fin (fst (rsne_cut b info))"
  by (simp add: rsne_cut_def rsne_fail_def info_inside_def)

lemma fail_inside: "info_inside lo fin info \<Longrightarrow> info_inside lo fin (fst (rsne_fail info))"
  by (simp add: rsne_fail_def info_inside_def)

lemma gmcs_inside: "info_inside lo fin info \<Longrightarrow> lo \<le> pos \<Longrightarrow> info_inside lo fin (fst (rsne_gmcs fin pos info))"
  by (auto simp: rsne_gmcs_def cut_inside) (simp add: info_inside_def inside_def rsne_lens)

text \<open>A result without a fault, whose pointers are inside the element.\<close>

definition stays :: "nat \<Rightarrow> nat \<Rightarrow> (rsne_info \<times> rtw_ret) option \<Rightarrow> bool" where
  "stays lo fin r \<longleftrightarrow> (case r of None \<Rightarrow> False | Some x \<Rightarrow> info_inside lo fin (fst x))"

lemma stays_Some: "info_inside lo fin (fst x) \<Longrightarrow> stays lo fin (Some x)"
  by (simp add: stays_def)

lemma stays_if: "(c \<Longrightarrow> stays lo fin a) \<Longrightarrow> (\<not> c \<Longrightarrow> stays lo fin b) \<Longrightarrow> stays lo fin (if c then a else b)"
  by simp

lemma stays_cnt: "p + 2 \<le> length m \<Longrightarrow> (\<And>n. stays lo fin (f n)) \<Longrightarrow> stays lo fin (RTW_GET_LE16 m p \<bind> f)"
  using get_le16_inside [of p m] by auto

lemmas stays_intros = stays_if stays_cnt stays_Some cut_inside fail_inside

lemma stays_pmkid: "info_inside lo fin info \<Longrightarrow> lo \<le> pos \<Longrightarrow> fin \<le> length m \<Longrightarrow> stays lo fin (rsne_pmkid m fin pos info)"
  unfolding rsne_pmkid_def by (intro stays_intros gmcs_inside) (auto simp: info_inside_def inside_def rsne_lens)

lemma stays_rsn_cap: "info_inside lo fin info \<Longrightarrow> lo \<le> pos \<Longrightarrow> fin \<le> length m \<Longrightarrow> stays lo fin (rsne_rsn_cap m fin pos info)"
  unfolding rsne_rsn_cap_def by (intro stays_intros stays_pmkid) (auto simp: info_inside_def inside_def rsne_lens)

lemma stays_akm: "info_inside lo fin info \<Longrightarrow> lo \<le> pos \<Longrightarrow> fin \<le> length m \<Longrightarrow> stays lo fin (rsne_akm m fin pos info)"
  unfolding rsne_akm_def by (intro stays_intros stays_rsn_cap) (auto simp: info_inside_def inside_def rsne_lens)

lemma stays_pcs: "info_inside lo fin info \<Longrightarrow> lo \<le> pos \<Longrightarrow> fin \<le> length m \<Longrightarrow> stays lo fin (rsne_pcs m fin pos info)"
  unfolding rsne_pcs_def by (intro stays_intros stays_akm) (auto simp: info_inside_def inside_def rsne_lens)

lemma stays_gcs: "info_inside lo fin info \<Longrightarrow> lo \<le> pos \<Longrightarrow> fin \<le> length m \<Longrightarrow> stays lo fin (rsne_gcs m fin pos info)"
  unfolding rsne_gcs_def by (intro stays_intros stays_pcs) (auto simp: info_inside_def inside_def rsne_lens)

lemma stays_parse:
  assumes "ie + ie_len \<le> length m"
  shows "stays (ie + 4) (ie + ie_len) (rtw_rsne_info_parse m ie ie_len)"
proof (cases "ie_len < 4")
  case True
  then show ?thesis by (simp add: rtw_rsne_info_parse_def rsne_lens stays_def rsne_fail_def zero_rsne_def info_inside_def inside_def)
next
  case False
  have z: "info_inside lo fin zero_rsne" for lo fin by (simp add: zero_rsne_def info_inside_def inside_def)
  have "ie < length m" "ie + 1 < length m" "ie + 2 < length m" using False assms by auto
  then have r: "rd m ie = Some (unat (m ! ie))" "rd m (ie + 1) = Some (unat (m ! (ie + 1)))" "rd m (ie + 2) = Some (unat (m ! (ie + 2)))"
    by (simp_all add: rd_def)
  have f: "stays lo fin (Some (rsne_fail zero_rsne))" for lo fin using z by (intro stays_intros)
  have "stays (ie + 4) (ie + ie_len) (rsne_gcs m (ie + ie_len) (ie + RSN_HEADER_LEN) zero_rsne)"
    using assms by (intro stays_gcs z) (simp_all add: rsne_lens)
  then show ?thesis using False f unfolding rtw_rsne_info_parse_def r by (simp add: rsne_lens)
qed

lemma suites_or_inside:
  assumes "\<And>p. p + 4 \<le> length m \<Longrightarrow> suite m p \<noteq> None"
  shows "p + 4 * n \<le> length m \<Longrightarrow> suites_or suite m p n acc \<noteq> None"
proof (induction n arbitrary: p acc)
  case (Suc n)
  then obtain v where "suite m p = Some v" using assms [of p] by auto
  with Suc.IH [of "p + 4"] Suc.prems show ?case by simp
qed simp

lemma suite_inside:
  "p + 4 \<le> length m \<Longrightarrow> rtw_get_rsn_cipher_suite m p \<noteq> None" "p + 4 \<le> length m \<Longrightarrow> rtw_get_akm_suite_bitmap m p \<noteq> None"
  by (simp_all add: rtw_get_rsn_cipher_suite_def rtw_get_akm_suite_bitmap_def rdn_def)

lemma cap_inside: "p + 2 \<le> length m \<Longrightarrow> GET_RSN_CAP_MFP_OPTION m p \<noteq> None" "p + 2 \<le> length m \<Longrightarrow> GET_RSN_CAP_SPP_OPT m p \<noteq> None"
  using get_le16_inside [of p m] by (auto simp: GET_RSN_CAP_MFP_OPTION_def GET_RSN_CAP_SPP_OPT_def)

lemma at_ptr_inside:
  "inside lo fin p n \<Longrightarrow> fin \<le> length m \<Longrightarrow> (\<And>q. q + n \<le> length m \<Longrightarrow> f q \<noteq> None) \<Longrightarrow> at_ptr p d f \<noteq> None"
  by (cases p) (auto simp: at_ptr_def inside_def)

text \<open>
  C18: Whatever the bytes of an RSN element are, its parser, and the collection of the ciphers and key managements it names, read
  nothing outside the element: they return, and every field and list they find lies behind the header and before the end of the element.
\<close>

theorem rsne_parse_inside:
  assumes "ie + ie_len \<le> length m"
  shows "\<exists>info ret. rtw_rsne_info_parse m ie ie_len = Some (info, ret) \<and> info_inside (ie + 4) (ie + ie_len) info \<and>
    rtw_parse_wpa2_ie m ie ie_len \<noteq> None"
proof -
  obtain info ret where p: "rtw_rsne_info_parse m ie ie_len = Some (info, ret)" "info_inside (ie + 4) (ie + ie_len) info"
    using stays_parse [OF assms] by (auto simp: stays_def split: option.splits)
  note parts = p(2) [unfolded info_inside_def]
  have suites: "\<exists>v. suites_or rtw_get_rsn_cipher_suite m (case pcs_list info of None \<Rightarrow> 0 | Some q \<Rightarrow> q) (pcs_cnt info) 0 = Some v"
    "\<exists>v. suites_or rtw_get_akm_suite_bitmap m (case akm_list info of None \<Rightarrow> 0 | Some q \<Rightarrow> q) (akm_cnt info) 0 = Some v"
    using suites_or_inside [OF suite_inside(1), of m] suites_or_inside [OF suite_inside(2), of m] parts assms
    by (auto simp: inside_def split: option.splits)
  have cipher: "\<exists>v. at_ptr q d (rtw_get_rsn_cipher_suite m) = Some v" if "inside (ie + 4) (ie + ie_len) q 4" for d q
    using at_ptr_inside [OF that assms suite_inside(1)] by simp
  have cap: "\<exists>v. at_ptr q d (GET_RSN_CAP_MFP_OPTION m) = Some v" "\<exists>v. at_ptr q d (GET_RSN_CAP_SPP_OPT m) = Some v"
    if "inside (ie + 4) (ie + ie_len) q 2" for d q
    using at_ptr_inside [OF that assms cap_inside(1)] at_ptr_inside [OF that assms cap_inside(2)] by simp_all
  obtain v1 v2 v3 v4 where "at_ptr (gcs info) 0 (rtw_get_rsn_cipher_suite m) = Some v1"
    "at_ptr (gmcs info) WPA_CIPHER_BIP_CMAC_128 (rtw_get_rsn_cipher_suite m) = Some v2"
    "at_ptr (rsn_cap info) MFP_NO (GET_RSN_CAP_MFP_OPTION m) = Some v3" "at_ptr (rsn_cap info) 0 (GET_RSN_CAP_SPP_OPT m) = Some v4"
    using cipher cap parts by meson
  then have "rtw_parse_wpa2_ie m ie ie_len \<noteq> None" using p(1) suites by (auto simp: rtw_parse_wpa2_ie_def)
  with p show ?thesis by blast
qed

theorem rsne_parse_inside_witness:
  "(2::nat) + 9 \<le> length [7, 7, 48, 200, 1, 0, 0, 0x0F, 0xAC, 4, (2::u8w)] \<and>
   (\<exists>info ret. rtw_rsne_info_parse [7, 7, 48, 200, 1, 0, 0, 0x0F, 0xAC, 4, 2] 2 9 = Some (info, ret) \<and> info_inside (2 + 4) (2 + 9) info \<and>
    rtw_parse_wpa2_ie [7, 7, 48, 200, 1, 0, 0, 0x0F, 0xAC, 4, 2] 2 9 \<noteq> None)"
  using rsne_parse_inside [of 2 9 "[7, 7, 48, 200, 1, 0, 0, 0x0F, 0xAC, 4, 2]"] by (simp del: not_None_eq)

section \<open>A complete RSN element\<close>

record rsne =
  e_group :: "u8w list"
  e_pairwise :: "u8w list list"
  e_akm :: "u8w list list"
  e_cap :: nat
  e_pmkid :: "u8w list list"
  e_gmcs :: "u8w list"

definition rsne_body :: "rsne \<Rightarrow> u8w list" where
  "rsne_body e = [1, 0] @ e_group e @ RTW_PUT_LE16 (length (e_pairwise e)) @ concat (e_pairwise e) @
     RTW_PUT_LE16 (length (e_akm e)) @ concat (e_akm e) @ RTW_PUT_LE16 (e_cap e) @
     RTW_PUT_LE16 (length (e_pmkid e)) @ concat (e_pmkid e) @ e_gmcs e"

definition rsne_bytes :: "rsne \<Rightarrow> u8w list" where
  "rsne_bytes e = 48 # of_nat (length (rsne_body e)) # rsne_body e"

definition rsne_ok :: "rsne \<Rightarrow> bool" where
  "rsne_ok e \<longleftrightarrow> length (e_group e) = 4 \<and> (\<forall>s\<in>set (e_pairwise e). length s = 4) \<and> e_pairwise e \<noteq> [] \<and>
     (\<forall>s\<in>set (e_akm e). length s = 4) \<and> e_akm e \<noteq> [] \<and> e_cap e < 65536 \<and> (\<forall>k\<in>set (e_pmkid e). length k = 16) \<and>
     length (e_gmcs e) = 4 \<and> length (rsne_body e) \<le> 255"

definition suites_map :: "(u8w list \<times> u32) list \<Rightarrow> u8w list list \<Rightarrow> u32" where
  "suites_map known ss = fold (\<lambda>s acc. acc OR suite_of s known) ss 0"

lemma concat_length: "\<forall>s\<in>set ss. length s = n \<Longrightarrow> length (concat ss) = n * length ss"
  by (induction ss) auto

lemma length_put16 [simp]: "length (RTW_PUT_LE16 n) = 2"
  by (simp add: RTW_PUT_LE16_def)

lemma suites_or_concat:
  assumes "\<And>m p. suite m p = map_option (\<lambda>s. suite_of s known) (rdn m p 4)"
  shows "\<forall>s\<in>set ss. length s = 4 \<Longrightarrow> m = pre @ concat ss @ post \<Longrightarrow>
    suites_or suite m (length pre) (length ss) acc = Some (fold (\<lambda>s acc. acc OR suite_of s known) ss acc)"
proof (induction ss arbitrary: pre acc)
  case (Cons s ss)
  have "rdn m (length pre) 4 = Some s" using rdn_append [of pre s "concat ss @ post"] Cons.prems by simp
  then have "suite m (length pre) = Some (suite_of s known)" by (simp add: assms)
  moreover have "m = (pre @ s) @ concat ss @ post" using Cons.prems by simp
  from Cons.IH [OF _ this] Cons.prems(1)
  have "suites_or suite m (length pre + 4) (length ss) (acc OR suite_of s known) =
      Some (fold (\<lambda>s acc. acc OR suite_of s known) ss (acc OR suite_of s known))"
    by simp
  ultimately show ?case by simp
qed simp

text \<open>The places of the fields.\<close>

lemma rsne_parse_complete:
  assumes "rsne_ok e" and m: "m = pre @ rsne_bytes e @ post"
  defines "g \<equiv> length pre + 4" defines "p \<equiv> g + 6" defines "a \<equiv> p + 4 * length (e_pairwise e) + 2" defines "c \<equiv> a + 4 * length (e_akm e)"
  defines "k \<equiv> c + 4" defines "f \<equiv> k + 16 * length (e_pmkid e)"
  shows "rtw_rsne_info_parse m (length pre) (length (rsne_bytes e)) =
    Some (\<lparr>gcs = Some g, pcs_cnt = length (e_pairwise e), pcs_list = Some p, akm_cnt = length (e_akm e), akm_list = Some a,
      rsn_cap = Some c, pmkid_cnt = length (e_pmkid e), pmkid_list = Some k, gmcs = Some f, rsne_err = False\<rparr>, RTW_SUCCESS)"
    and "rdn m g 4 = Some (e_group e)" "rdn m f 4 = Some (e_gmcs e)" "RTW_GET_LE16 m c = Some (e_cap e)"
    and "suites_or rtw_get_rsn_cipher_suite m p (length (e_pairwise e)) 0 = Some (suites_map rsn_ciphers (e_pairwise e))"
    and "suites_or rtw_get_akm_suite_bitmap m a (length (e_akm e)) 0 = Some (suites_map akm_suites (e_akm e))"
proof -
  let ?np = "length (e_pairwise e)" let ?na = "length (e_akm e)" let ?nk = "length (e_pmkid e)"
  define P0 where "P0 = pre @ [48, of_nat (length (rsne_body e)), 1, 0]"
  define P1 where "P1 = P0 @ e_group e @ RTW_PUT_LE16 ?np"
  define P2 where "P2 = P1 @ concat (e_pairwise e) @ RTW_PUT_LE16 ?na"
  define P3 where "P3 = P2 @ concat (e_akm e)"
  define P4 where "P4 = P3 @ RTW_PUT_LE16 (e_cap e) @ RTW_PUT_LE16 ?nk"
  define P5 where "P5 = P4 @ concat (e_pmkid e)"
  note ok = assms(1) [unfolded rsne_ok_def]
  have sizes: "length (concat (e_pairwise e)) = 4 * ?np" "length (concat (e_akm e)) = 4 * ?na" "length (concat (e_pmkid e)) = 16 * ?nk"
    using ok by (simp_all add: concat_length)
  have body: "length (rsne_body e) = 18 + 4 * ?np + 4 * ?na + 16 * ?nk" using ok sizes by (simp add: rsne_body_def)
  have l: "length P0 = g" "length P1 = p" "length P2 = a" "length P3 = c" "length P4 = k" "length P5 = f"
    using ok sizes by (simp_all add: P0_def P1_def P2_def P3_def P4_def P5_def g_def p_def a_def c_def k_def f_def)
  have m5: "m = P5 @ e_gmcs e @ post" by (simp add: m rsne_bytes_def rsne_body_def P0_def P1_def P2_def P3_def P4_def P5_def)
  have cnt: "?np < 65536" "?na < 65536" "?nk < 65536" "e_cap e < 65536" "?np \<noteq> 0" "?na \<noteq> 0" using ok body by auto
  show grp: "rdn m g 4 = Some (e_group e)"
    using rdn_append [of P0 "e_group e"] ok unfolding m5 l(1) [symmetric] by (simp add: P1_def P2_def P3_def P4_def P5_def)
  show "rdn m f 4 = Some (e_gmcs e)" using rdn_append [of P5 "e_gmcs e" post] ok l(6) m5 by simp
  have np: "RTW_GET_LE16 m (g + 4) = Some ?np"
    using get_le16 [of m "P0 @ e_group e" ?np] cnt(1) l(1) ok unfolding m5 by (simp add: P1_def P2_def P3_def P4_def P5_def)
  have na: "RTW_GET_LE16 m (p + 4 * ?np) = Some ?na"
    using get_le16 [of m "P1 @ concat (e_pairwise e)" ?na] cnt(2) l(2) sizes unfolding m5 by (simp add: P2_def P3_def P4_def P5_def)
  show cap: "RTW_GET_LE16 m c = Some (e_cap e)"
    using get_le16 [of m P3 "e_cap e"] cnt(4) l(4) unfolding m5 by (simp add: P4_def P5_def)
  have nk: "RTW_GET_LE16 m (c + 2) = Some ?nk"
    using get_le16 [of m "P3 @ RTW_PUT_LE16 (e_cap e)" ?nk] cnt(3) l(4) unfolding m5 by (simp add: P4_def P5_def)
  show "suites_or rtw_get_rsn_cipher_suite m p ?np 0 = Some (suites_map rsn_ciphers (e_pairwise e))"
    using suites_or_concat [OF rtw_get_rsn_cipher_suite_def, of "e_pairwise e" m P1] ok l(2) unfolding m5
    by (simp add: suites_map_def P2_def P3_def P4_def P5_def)
  show "suites_or rtw_get_akm_suite_bitmap m a ?na 0 = Some (suites_map akm_suites (e_akm e))"
    using suites_or_concat [OF rtw_get_akm_suite_bitmap_def, of "e_akm e" m P2] ok l(3) unfolding m5
    by (simp add: suites_map_def P3_def P4_def P5_def)
  have fin: "length pre + length (rsne_bytes e) = f + 4"
    by (simp add: rsne_bytes_def body g_def p_def a_def c_def k_def f_def)
  have "rd m (length pre + 2) = Some 1" by (simp add: m rsne_bytes_def rsne_body_def rd_def nth_append)
  moreover have "rd m (length pre) = Some 48" "rd m (length pre + 1) = Some (length (rsne_body e))"
    using ok unat_len [of "length (rsne_body e)"] by (simp_all add: m rsne_bytes_def rd_def nth_append del: of_nat_add)
  ultimately have h: "rd m (length pre) = Some 48" "rd m (length pre + 1) = Some (length (rsne_body e))" "rd m (length pre + 2) = Some 1"
    by simp_all
  show "rtw_rsne_info_parse m (length pre) (length (rsne_bytes e)) =
    Some (\<lparr>gcs = Some g, pcs_cnt = ?np, pcs_list = Some p, akm_cnt = ?na, akm_list = Some a, rsn_cap = Some c, pmkid_cnt = ?nk,
      pmkid_list = Some k, gmcs = Some f, rsne_err = False\<rparr>, RTW_SUCCESS)"
  proof -
    let ?e1 = "zero_rsne\<lparr>gcs := Some g\<rparr>"
    let ?e2 = "?e1\<lparr>pcs_cnt := ?np, pcs_list := Some p\<rparr>"
    let ?e3 = "?e2\<lparr>akm_cnt := ?na, akm_list := Some a\<rparr>"
    let ?e4 = "?e3\<lparr>rsn_cap := Some c\<rparr>"
    let ?e5 = "?e4\<lparr>pmkid_cnt := ?nk, pmkid_list := Some k\<rparr>"
    have pos: "g + 4 + 2 = p" "p + 4 * ?np + 2 = a" "a + 4 * ?na = c" "c + 2 + 2 = k" "k + 16 * ?nk = f" by (simp_all add: p_def a_def c_def k_def f_def)
    have "rsne_gmcs (f + 4) f ?e5 = (?e5\<lparr>gmcs := Some f\<rparr>, RTW_SUCCESS)" by (simp add: rsne_gmcs_def rsne_lens)
    then have "rsne_pmkid m (f + 4) (c + 2) ?e4 = Some (?e5\<lparr>gmcs := Some f\<rparr>, RTW_SUCCESS)"
      using pos nk by (simp add: rsne_pmkid_def rsne_lens)
    then have "rsne_rsn_cap m (f + 4) c ?e3 = Some (?e5\<lparr>gmcs := Some f\<rparr>, RTW_SUCCESS)"
      using pos by (simp add: rsne_rsn_cap_def)
    then have "rsne_akm m (f + 4) (p + 4 * ?np) ?e2 = Some (?e5\<lparr>gmcs := Some f\<rparr>, RTW_SUCCESS)"
      using pos na cnt by (simp add: rsne_akm_def rsne_lens)
    then have "rsne_pcs m (f + 4) (g + 4) ?e1 = Some (?e5\<lparr>gmcs := Some f\<rparr>, RTW_SUCCESS)"
      using pos np cnt by (simp add: rsne_pcs_def rsne_lens)
    then have "rsne_gcs m (f + 4) g zero_rsne = Some (?e5\<lparr>gmcs := Some f\<rparr>, RTW_SUCCESS)"
      using pos by (simp add: rsne_gcs_def rsne_lens)
    moreover have "rtw_rsne_info_parse m (length pre) (length (rsne_bytes e)) =
        rsne_gcs m (length pre + length (rsne_bytes e)) (length pre + 4) zero_rsne"
      using h body by (simp add: rtw_rsne_info_parse_def rsne_lens WLAN_EID_RSN_def RSN_VERSION_BSD_def rsne_bytes_def)
    ultimately show ?thesis unfolding fin by (simp add: g_def zero_rsne_def)
  qed
qed

text \<open>
  C19: The parser reads back what a complete RSN element says: the group cipher, the pairwise ciphers and the key managements as
  bit maps, the cipher of group management frames and the two options in the capabilities.
\<close>

theorem rsne_parsed_back:
  assumes "rsne_ok e"
  shows "rtw_parse_wpa2_ie (pre @ rsne_bytes e @ post) (length pre) (length (rsne_bytes e)) =
    Some (Some \<lparr>o_group = suite_of (e_group e) rsn_ciphers, o_pairwise = suites_map rsn_ciphers (e_pairwise e),
      o_gmcs = suite_of (e_gmcs e) rsn_ciphers, o_akm = suites_map akm_suites (e_akm e),
      o_mfp = e_cap e div 2 ^ 6 mod 2 ^ 2, o_spp = e_cap e div 2 ^ 10 mod 2 ^ 2\<rparr>, RTW_SUCCESS)"
  using rsne_parse_complete [OF assms refl, of pre post]
  by (simp add: rtw_parse_wpa2_ie_def at_ptr_def rtw_get_rsn_cipher_suite_def GET_RSN_CAP_MFP_OPTION_def GET_RSN_CAP_SPP_OPT_def)

definition rsne_example :: rsne where
  "rsne_example = \<lparr>e_group = [0, 0x0F, 0xAC, 4], e_pairwise = [[0, 0x0F, 0xAC, 4], [0, 0x0F, 0xAC, 2]], e_akm = [[0, 0x0F, 0xAC, 8]],
     e_cap = 0xC0, e_pmkid = [], e_gmcs = [0, 0x0F, 0xAC, 6]\<rparr>"

theorem rsne_parsed_back_witness:
  "rsne_ok rsne_example \<and>
   rtw_parse_wpa2_ie ([9] @ rsne_bytes rsne_example @ [9]) (length [9::nat]) (length (rsne_bytes rsne_example)) =
    Some (Some \<lparr>o_group = suite_of (e_group rsne_example) rsn_ciphers, o_pairwise = suites_map rsn_ciphers (e_pairwise rsne_example),
      o_gmcs = suite_of (e_gmcs rsne_example) rsn_ciphers, o_akm = suites_map akm_suites (e_akm rsne_example),
      o_mfp = 3, o_spp = 0\<rparr>, RTW_SUCCESS)"
proof -
  have ok: "rsne_ok rsne_example" by (simp add: rsne_ok_def rsne_example_def rsne_body_def)
  have cap: "e_cap rsne_example div 2 ^ 6 mod 2 ^ 2 = 3" "e_cap rsne_example div 2 ^ 10 mod 2 ^ 2 = 0" by (simp_all add: rsne_example_def)
  from ok rsne_parsed_back [OF ok, of "[9]" "[9]", unfolded cap] show ?thesis by simp
qed

section \<open>What the aggregate modes do\<close>

lemma not_and_SPP_CAP: "NOT (x AND SPP_CAP) \<noteq> 0"
proof
  assume "NOT (x AND SPP_CAP) = 0"
  then have "\<not> bit (NOT (x AND SPP_CAP)) 1" by simp
  then show False by (simp add: bit_simps SPP_CAP_def bit_BIT)
qed

text \<open>The mode with protected aggregates never uses aggregates, whatever the peer announces, and the mode without
  announces the same capabilities as the mode with: the complement of a masked bit is never zero, and the union of two complements
  has all bits.
\<close>

lemma spp_modes_confused:
  "rtw_check_amsdu_disable RTW_AMSDU_MODE_SPP spp_opt \<and>
   rtw_set_spp_amsdu_mode RTW_AMSDU_MODE_NON_SPP m rsn_ie rsn_ie_len = rtw_set_spp_amsdu_mode RTW_AMSDU_MODE_SPP m rsn_ie rsn_ie_len"
proof -
  have "(ucast (NOT SPP_CAP OR NOT SPP_REQ) :: u8w) AND 3 = ucast (SPP_CAP OR SPP_REQ) AND 3" by code_simp
  then have set: "SET_RSN_CAP_SPP m cap (ucast (NOT SPP_CAP OR NOT SPP_REQ)) = SET_RSN_CAP_SPP m cap (ucast (SPP_CAP OR SPP_REQ))" for cap
    by (simp only: SET_RSN_CAP_SPP_def)
  have "rtw_check_amsdu_disable RTW_AMSDU_MODE_SPP spp_opt"
    using not_and_SPP_CAP [of spp_opt] unfolding rtw_check_amsdu_disable_def by simp
  then show ?thesis unfolding rtw_set_spp_amsdu_mode_def Let_def set by simp
qed

end
