(* ===== verification/Core_Elems.thy ===== *)
theory Core_Elems
  imports Core_Attr Core_Sec
begin

text \<open>
  The parser that every received management frame goes through (\<^verbatim>\<open>rtw_ieee802_11_parse_elems\<close> in
  \<^verbatim>\<open>core/rtw_ieee80211.c\<close>): it walks over the elements of the body and records for each kind it knows where the content is
  and how long. Without mesh and token based transmission, as the driver is built.
\<close>

section \<open>The fields\<close>

text \<open>
  \<^verbatim>\<open>struct rtw_ieee802_11_elems\<close> holds for every kind a pointer and a length; here it is a function from the kinds, which have the names
  of the pointers, and \<open>None\<close> is a NULL pointer with the length zero.
\<close>

datatype elem_field = E_ssid | E_supp_rates | E_fh_params | E_ds_params | E_cf_params | E_tim | E_ibss_params | E_challenge | E_erp_info
  | E_ext_supp_rates | E_wpa_ie | E_rsn_ie | E_wme | E_wme_tspec | E_wps_ie | E_power_cap | E_supp_channels | E_mdie | E_ftie | E_timeout_int
  | E_ht_capabilities | E_ht_operation | E_vendor_ht_cap | E_vht_capabilities | E_vht_operation | E_vht_op_mode_notify
  | E_he_capabilities | E_he_operation | E_rm_en_cap

type_synonym rtw_ieee802_11_elems = "elem_field \<Rightarrow> (nat \<times> nat) option"

datatype ParseRes = ParseOK | ParseUnknown | ParseFailed

definition WLAN_EID_SSID :: nat where "WLAN_EID_SSID = 0"
definition WLAN_EID_SUPP_RATES :: nat where "WLAN_EID_SUPP_RATES = 1"
definition WLAN_EID_FH_PARAMS :: nat where "WLAN_EID_FH_PARAMS = 2"
definition WLAN_EID_DS_PARAMS :: nat where "WLAN_EID_DS_PARAMS = 3"
definition WLAN_EID_CF_PARAMS :: nat where "WLAN_EID_CF_PARAMS = 4"
definition WLAN_EID_TIM :: nat where "WLAN_EID_TIM = 5"
definition WLAN_EID_IBSS_PARAMS :: nat where "WLAN_EID_IBSS_PARAMS = 6"
definition WLAN_EID_CHALLENGE :: nat where "WLAN_EID_CHALLENGE = 16"
definition WLAN_EID_PWR_CAPABILITY :: nat where "WLAN_EID_PWR_CAPABILITY = 33"
definition WLAN_EID_SUPPORTED_CHANNELS :: nat where "WLAN_EID_SUPPORTED_CHANNELS = 36"
definition WLAN_EID_ERP_INFO :: nat where "WLAN_EID_ERP_INFO = 42"
definition WLAN_EID_HT_CAP :: nat where "WLAN_EID_HT_CAP = 45"
definition WLAN_EID_EXT_SUPP_RATES :: nat where "WLAN_EID_EXT_SUPP_RATES = 50"
definition WLAN_EID_MOBILITY_DOMAIN :: nat where "WLAN_EID_MOBILITY_DOMAIN = 54"
definition WLAN_EID_FAST_BSS_TRANSITION :: nat where "WLAN_EID_FAST_BSS_TRANSITION = 55"
definition WLAN_EID_TIMEOUT_INTERVAL :: nat where "WLAN_EID_TIMEOUT_INTERVAL = 56"
definition WLAN_EID_HT_OPERATION :: nat where "WLAN_EID_HT_OPERATION = 61"
definition EID_RRM_EN_CAP_IE :: nat where "EID_RRM_EN_CAP_IE = 70"
definition WLAN_EID_VHT_CAPABILITY :: nat where "WLAN_EID_VHT_CAPABILITY = 191"
definition WLAN_EID_VHT_OPERATION :: nat where "WLAN_EID_VHT_OPERATION = 192"
definition WLAN_EID_VHT_OP_MODE_NOTIFY :: nat where "WLAN_EID_VHT_OP_MODE_NOTIFY = 199"
definition WLAN_EID_EXTENSION_HE_CAPABILITY :: nat where "WLAN_EID_EXTENSION_HE_CAPABILITY = 35"
definition WLAN_EID_EXTENSION_HE_OPERATION :: nat where "WLAN_EID_EXTENSION_HE_OPERATION = 36"
definition OUI_MICROSOFT :: nat where "OUI_MICROSOFT = 0x0050f2"
definition OUI_BROADCOM :: nat where "OUI_BROADCOM = 0x00904c"
definition WME_OUI_TYPE :: nat where "WME_OUI_TYPE = 2"
definition WME_OUI_SUBTYPE_INFORMATION_ELEMENT :: nat where "WME_OUI_SUBTYPE_INFORMATION_ELEMENT = 0"
definition WME_OUI_SUBTYPE_PARAMETER_ELEMENT :: nat where "WME_OUI_SUBTYPE_PARAMETER_ELEMENT = 1"
definition WME_OUI_SUBTYPE_TSPEC_ELEMENT :: nat where "WME_OUI_SUBTYPE_TSPEC_ELEMENT = 2"
definition VENDOR_HT_CAPAB_OUI_TYPE :: nat where "VENDOR_HT_CAPAB_OUI_TYPE = 0x33"

lemmas vendor_codes = OUI_MICROSOFT_def OUI_BROADCOM_def WME_OUI_TYPE_def WME_OUI_SUBTYPE_INFORMATION_ELEMENT_def
  WME_OUI_SUBTYPE_PARAMETER_ELEMENT_def WME_OUI_SUBTYPE_TSPEC_ELEMENT_def VENDOR_HT_CAPAB_OUI_TYPE_def

text \<open>The cases of the switch over the identifier that only record the place and the length.\<close>

definition eid_fields :: "(nat \<times> elem_field) list" where
  "eid_fields =
    [(WLAN_EID_SSID, E_ssid), (WLAN_EID_SUPP_RATES, E_supp_rates), (WLAN_EID_FH_PARAMS, E_fh_params), (WLAN_EID_DS_PARAMS, E_ds_params),
     (WLAN_EID_CF_PARAMS, E_cf_params), (WLAN_EID_TIM, E_tim), (WLAN_EID_IBSS_PARAMS, E_ibss_params), (WLAN_EID_CHALLENGE, E_challenge),
     (WLAN_EID_ERP_INFO, E_erp_info), (WLAN_EID_EXT_SUPP_RATES, E_ext_supp_rates), (WLAN_EID_RSN, E_rsn_ie),
     (WLAN_EID_PWR_CAPABILITY, E_power_cap), (WLAN_EID_SUPPORTED_CHANNELS, E_supp_channels), (WLAN_EID_MOBILITY_DOMAIN, E_mdie),
     (WLAN_EID_FAST_BSS_TRANSITION, E_ftie), (WLAN_EID_TIMEOUT_INTERVAL, E_timeout_int), (WLAN_EID_HT_CAP, E_ht_capabilities),
     (WLAN_EID_HT_OPERATION, E_ht_operation), (WLAN_EID_VHT_CAPABILITY, E_vht_capabilities), (WLAN_EID_VHT_OPERATION, E_vht_operation),
     (WLAN_EID_VHT_OP_MODE_NOTIFY, E_vht_op_mode_notify), (EID_RRM_EN_CAP_IE, E_rm_en_cap)]"

section \<open>The parser\<close>

text \<open>The second component of a result tells that the element is not known (the result -1).\<close>

definition rtw_ieee802_11_parse_vendor_specific ::
  "u8w list \<Rightarrow> nat \<Rightarrow> nat \<Rightarrow> rtw_ieee802_11_elems \<Rightarrow> (rtw_ieee802_11_elems \<times> bool) option" where
  "rtw_ieee802_11_parse_vendor_specific m pos elen elems =
     (let record = (\<lambda>f. Some (elems(f := Some (pos, elen)), False)); unknown = Some (elems, True) in
      if elen < 4 then unknown
      else do { oui \<leftarrow> RTW_GET_BE24 m pos;
                if oui = OUI_MICROSOFT then
                  do { t \<leftarrow> rd m (pos + 3);
                       if t = 1 then record E_wpa_ie
                       else if t = WME_OUI_TYPE then
                         if elen < 5 then unknown
                         else do { s \<leftarrow> rd m (pos + 4);
                                   if s = WME_OUI_SUBTYPE_INFORMATION_ELEMENT \<or> s = WME_OUI_SUBTYPE_PARAMETER_ELEMENT then record E_wme
                                   else if s = WME_OUI_SUBTYPE_TSPEC_ELEMENT then record E_wme_tspec
                                   else unknown }
                       else if t = 4 then record E_wps_ie
                       else unknown }
                else if oui = OUI_BROADCOM then
                  do { t \<leftarrow> rd m (pos + 3); if t = VENDOR_HT_CAPAB_OUI_TYPE then record E_vendor_ht_cap else unknown }
                else unknown })"

definition rtw_ieee802_11_parse_ext_elems ::
  "u8w list \<Rightarrow> nat \<Rightarrow> nat \<Rightarrow> rtw_ieee802_11_elems \<Rightarrow> rtw_ieee802_11_elems option" where
  "rtw_ieee802_11_parse_ext_elems m start elen elems =
     do { i \<leftarrow> rd m start;
          if i = WLAN_EID_EXTENSION_HE_CAPABILITY then Some (elems(E_he_capabilities := Some (start, elen)))
          else if i = WLAN_EID_EXTENSION_HE_OPERATION then Some (elems(E_he_operation := Some (start, elen)))
          else Some elems }"

text \<open>The body of the loop, behind the header of an element; the result of the extension's parser is not looked at.\<close>

definition parse_elem :: "u8w list \<Rightarrow> nat \<Rightarrow> nat \<Rightarrow> nat \<Rightarrow> rtw_ieee802_11_elems \<Rightarrow> (rtw_ieee802_11_elems \<times> bool) option" where
  "parse_elem m eid pos elen elems =
     (case map_of eid_fields eid of
        Some f \<Rightarrow> Some (elems(f := Some (pos, elen)), False)
      | None \<Rightarrow>
          if eid = WLAN_EID_VENDOR_SPECIFIC then rtw_ieee802_11_parse_vendor_specific m pos elen elems
          else if eid = WLAN_EID_EXTENSION then map_option (\<lambda>el. (el, False)) (rtw_ieee802_11_parse_ext_elems m pos elen elems)
          else Some (elems, True))"

function parse_elems_loop ::
  "u8w list \<Rightarrow> nat \<Rightarrow> nat \<Rightarrow> nat \<Rightarrow> rtw_ieee802_11_elems \<Rightarrow> (rtw_ieee802_11_elems \<times> ParseRes) option" where
  "parse_elems_loop m pos left unknown elems =
     (if 2 \<le> left then
        do { eid \<leftarrow> rd m pos;
             elen \<leftarrow> rd m (pos + 1);
             if left - 2 < elen then Some (elems, ParseFailed)
             else do { (el, unk) \<leftarrow> parse_elem m eid (pos + 2) elen elems;
                       parse_elems_loop m (pos + 2 + elen) (left - 2 - elen) (if unk then unknown + 1 else unknown) el } }
      else Some (elems, if left \<noteq> 0 then ParseFailed else if unknown \<noteq> 0 then ParseUnknown else ParseOK))"
  by pat_completeness auto
termination
  by (relation "measure (\<lambda>(m, pos, left, unknown, elems). left)") auto

declare parse_elems_loop.simps [simp del]

definition rtw_ieee802_11_parse_elems :: "u8w list \<Rightarrow> nat \<Rightarrow> nat \<Rightarrow> (rtw_ieee802_11_elems \<times> ParseRes) option" where
  "rtw_ieee802_11_parse_elems m start len = parse_elems_loop m start len 0 (\<lambda>_. None)"

section \<open>What a kind of element is\<close>

text \<open>
  The specification, in terms of the elements a body is made of: the field that an element belongs to, if there is one, and whether it
  counts as unknown. An extension element the driver does not use has no field and does not count as unknown.
\<close>

definition vendor_field :: "u8w list \<Rightarrow> elem_field option" where
  "vendor_field c =
     (if length c < 4 then None
      else if take 3 c = [0, 0x50, 0xF2] then
        if c ! 3 = 1 then Some E_wpa_ie
        else if c ! 3 = 2 \<and> 5 \<le> length c then
          if c ! 4 = 0 \<or> c ! 4 = 1 then Some E_wme else if c ! 4 = 2 then Some E_wme_tspec else None
        else if c ! 3 = 4 then Some E_wps_ie else None
      else if take 3 c = [0, 0x90, 0x4C] \<and> c ! 3 = 0x33 then Some E_vendor_ht_cap
      else None)"

definition elem_of :: "element \<Rightarrow> elem_field option" where
  "elem_of e =
     (if fst e = 221 then vendor_field (snd e)
      else if fst e = 255 then
        (if snd e \<noteq> [] \<and> hd (snd e) = 35 then Some E_he_capabilities
         else if snd e \<noteq> [] \<and> hd (snd e) = 36 then Some E_he_operation else None)
      else map_of eid_fields (unat (fst e)))"

definition elem_unknown :: "element \<Rightarrow> bool" where
  "elem_unknown e \<longleftrightarrow> fst e \<noteq> 255 \<and> elem_of e = None"

text \<open>The place and the length of the content of the last element of a kind.\<close>

fun field_at :: "elem_field \<Rightarrow> nat \<Rightarrow> element list \<Rightarrow> (nat \<times> nat) option" where
  "field_at f p [] = None"
| "field_at f p (e # es) =
     (case field_at f (p + length (ie_bytes e)) es of
        Some x \<Rightarrow> Some x
      | None \<Rightarrow> if elem_of e = Some f then Some (p + 2, length (snd e)) else None)"

text \<open>The elements at the front of some bytes, and what is left of them: nothing, a single byte, or an element that is cut off.\<close>

fun split_ies :: "u8w list \<Rightarrow> element list \<times> u8w list" where
  "split_ies (i # l # r) =
     (if length r < unat l then ([], i # l # r)
      else let (es, frag) = split_ies (drop (unat l) r) in ((i, take (unat l) r) # es, frag))"
| "split_ies bs = ([], bs)"

section \<open>One element\<close>

lemma content_rd: "ie_at m p e \<Longrightarrow> k < length (snd e) \<Longrightarrow> rd m (p + 2 + k) = Some (unat (snd e ! k))"
  by (auto simp: ie_at_def rd_def ie_bytes_def nth_append)

lemma be24_inj:
  assumes "a < 256" "b < 256" "c < 256" "a' < 256" "b' < 256" "c' < (256 :: nat)"
  shows "65536 * a + 256 * b + c = 65536 * a' + 256 * b' + c' \<longleftrightarrow> a = a' \<and> b = b' \<and> c = c'"
proof
  assume eq: "65536 * a + 256 * b + c = 65536 * a' + 256 * b' + c'"
  then have a: "a = a'" using assms by linarith
  then have "b = b'" using eq assms by linarith
  with a eq show "a = a' \<and> b = b' \<and> c = c'" by simp
qed simp

lemma oui_eq:
  assumes "a < 256" "b < 256" "c < (256::nat)"
  shows "65536 * a + 256 * b + c = OUI_MICROSOFT \<longleftrightarrow> a = 0 \<and> b = 0x50 \<and> c = 0xF2"
    "65536 * a + 256 * b + c = OUI_BROADCOM \<longleftrightarrow> a = 0 \<and> b = 0x90 \<and> c = 0x4C"
  using be24_inj [OF assms, where a' = 0 and b' = "0x50" and c' = "0xF2"] be24_inj [OF assms, where a' = 0 and b' = "0x90" and c' = "0x4C"] by (simp_all add: vendor_codes)

lemma u8_lt: "unat (x :: u8w) < 256"
  using unsigned_less [of x] by simp

lemma long_content:
  assumes "\<not> length xs < 4"
  shows "\<exists>a b c d cs. xs = a # b # c # d # cs"
  using assms by (cases xs; cases "tl xs"; cases "tl (tl xs)"; cases "tl (tl (tl xs))") auto

lemma vendor_elem:
  assumes "ie_at m p e"
  shows "rtw_ieee802_11_parse_vendor_specific m (p + 2) (length (snd e)) elems =
    Some (case vendor_field (snd e) of None \<Rightarrow> (elems, True) | Some f \<Rightarrow> (elems(f := Some (p + 2, length (snd e))), False))"
proof (cases "length (snd e) < 4")
  case True
  then show ?thesis by (simp add: rtw_ieee802_11_parse_vendor_specific_def vendor_field_def)
next
  case False
  then obtain a b c d cs where s: "snd e = a # b # c # d # cs" using long_content by blast
  have r: "rd m (p + 2) = Some (unat a)" "rd m (p + 2 + 1) = Some (unat b)" "rd m (p + 2 + 2) = Some (unat c)" "rd m (p + 2 + 3) = Some (unat d)"
    using content_rd [OF assms, of 0] content_rd [OF assms, of 1] content_rd [OF assms, of 2] content_rd [OF assms, of 3] s by simp_all
  have r4: "cs \<noteq> [] \<Longrightarrow> rd m (p + 2 + 4) = Some (unat (hd cs))" using content_rd [OF assms, of 4] s by (cases cs) simp_all
  show ?thesis
    unfolding rtw_ieee802_11_parse_vendor_specific_def RTW_GET_BE24_def r Let_def Option.bind.bind_lunit oui_eq [OF u8_lt u8_lt u8_lt]
    using r4 s by (cases cs) (simp_all add: vendor_field_def vendor_codes word_unat_eq_iff)
qed

lemma eid_fields_other: "map_of eid_fields WLAN_EID_VENDOR_SPECIFIC = None" "map_of eid_fields WLAN_EID_EXTENSION = None"
  by code_simp+

definition ext_ok :: "element \<Rightarrow> bool" where
  "ext_ok e \<longleftrightarrow> ie_ok e \<and> (fst e = 255 \<longrightarrow> snd e \<noteq> [])"

definition record_elem :: "nat \<Rightarrow> element \<Rightarrow> rtw_ieee802_11_elems \<Rightarrow> rtw_ieee802_11_elems" where
  "record_elem p e elems = (case elem_of e of None \<Rightarrow> elems | Some f \<Rightarrow> elems(f := Some (p + 2, length (snd e))))"

lemma ext_elem:
  assumes "ie_at m p e" "snd e \<noteq> []" "fst e = 255"
  shows "rtw_ieee802_11_parse_ext_elems m (p + 2) (length (snd e)) elems = Some (record_elem p e elems)"
  using content_rd [OF assms(1), of 0] assms(2,3)
  by (auto simp: rtw_ieee802_11_parse_ext_elems_def record_elem_def elem_of_def hd_conv_nth word_unat_eq_iff
    WLAN_EID_EXTENSION_HE_CAPABILITY_def WLAN_EID_EXTENSION_HE_OPERATION_def)

lemma parse_elem_at:
  assumes "ie_at m p e" "ext_ok e"
  shows "parse_elem m (unat (fst e)) (p + 2) (length (snd e)) elems = Some (record_elem p e elems, elem_unknown e)"
proof -
  consider (vendor) "fst e = 221" | (ext) "fst e = 255" | (other) "fst e \<noteq> 221" "fst e \<noteq> 255" by blast
  then show ?thesis
  proof cases
    case vendor
    then have i: "unat (fst e) = WLAN_EID_VENDOR_SPECIFIC" by (simp add: WLAN_EID_VENDOR_SPECIFIC_def)
    have "elem_of e = vendor_field (snd e)" using vendor by (simp add: elem_of_def)
    then show ?thesis
      unfolding parse_elem_def i eid_fields_other vendor_elem [OF assms(1)] record_elem_def elem_unknown_def
      using vendor by (simp split: option.split)
  next
    case ext
    then have i: "unat (fst e) = WLAN_EID_EXTENSION" by (simp add: WLAN_EID_EXTENSION_def)
    have "WLAN_EID_EXTENSION \<noteq> WLAN_EID_VENDOR_SPECIFIC" by (simp add: WLAN_EID_EXTENSION_def WLAN_EID_VENDOR_SPECIFIC_def)
    moreover have "snd e \<noteq> []" using assms(2) ext by (simp add: ext_ok_def)
    ultimately show ?thesis
      unfolding parse_elem_def i eid_fields_other elem_unknown_def using ext ext_elem [OF assms(1) _ ext] by simp
  next
    case other
    then have "unat (fst e) \<noteq> WLAN_EID_VENDOR_SPECIFIC" "unat (fst e) \<noteq> WLAN_EID_EXTENSION"
      by (simp_all add: WLAN_EID_VENDOR_SPECIFIC_def WLAN_EID_EXTENSION_def word_unat_eq_iff)
    with other show ?thesis by (simp add: parse_elem_def record_elem_def elem_unknown_def elem_of_def split: option.split)
  qed
qed

section \<open>All elements\<close>

lemma parse_loop_at:
  assumes "ie_at m p e" "ext_ok e" "length (ie_bytes e) \<le> n"
  shows "parse_elems_loop m p n unk elems =
    parse_elems_loop m (p + length (ie_bytes e)) (n - length (ie_bytes e)) (if elem_unknown e then unk + 1 else unk) (record_elem p e elems)"
proof -
  have "2 \<le> n" "\<not> n - 2 < length (snd e)" "p + 2 + length (snd e) = p + length (ie_bytes e)"
    "n - 2 - length (snd e) = n - length (ie_bytes e)" using assms(3) by auto
  then show ?thesis using parse_elem_at [OF assms(1,2)] ie_at_rd(1,2) [OF assms(1)] by (subst parse_elems_loop.simps) simp
qed

lemma parse_loop_elements:
  "m = pre @ ies_bytes es @ post \<Longrightarrow> \<forall>e\<in>set es. ext_ok e \<Longrightarrow>
     parse_elems_loop m (length pre) (length (ies_bytes es) + t) unk elems =
       parse_elems_loop m (length pre + length (ies_bytes es)) t (unk + length (filter elem_unknown es))
         (\<lambda>f. case field_at f (length pre) es of Some x \<Rightarrow> Some x | None \<Rightarrow> elems f)"
proof (induction es arbitrary: pre unk elems)
  case (Cons e es)
  have at: "ie_at m (length pre) e" using Cons.prems by (auto simp: ie_at_def ext_ok_def)
  have m: "m = (pre @ ie_bytes e) @ ies_bytes es @ post" using Cons.prems by simp
  have f: "(\<lambda>f. case field_at f (length (pre @ ie_bytes e)) es of Some x \<Rightarrow> Some x | None \<Rightarrow> record_elem (length pre) e elems f) =
    (\<lambda>f. case field_at f (length pre) (e # es) of Some x \<Rightarrow> Some x | None \<Rightarrow> elems f)"
    by (auto simp: fun_eq_iff record_elem_def split: option.split)
  have "parse_elems_loop m (length pre) (length (ies_bytes (e # es)) + t) unk elems =
    parse_elems_loop m (length (pre @ ie_bytes e)) (length (ies_bytes es) + t) (if elem_unknown e then unk + 1 else unk) (record_elem (length pre) e elems)"
    using parse_loop_at [OF at, of "length (ies_bytes (e # es)) + t"] Cons.prems(2) by simp
  also have "\<dots> = parse_elems_loop m (length (pre @ ie_bytes e) + length (ies_bytes es)) t (unk + length (filter elem_unknown (e # es)))
      (\<lambda>f. case field_at f (length pre) (e # es) of Some x \<Rightarrow> Some x | None \<Rightarrow> elems f)"
    unfolding f [symmetric] using Cons.IH [OF m] Cons.prems(2) by simp
  finally show ?case by (simp add: add.assoc)
qed simp

text \<open>Some bytes are their elements and what is cut off; that is too short, and the parser says so.\<close>

lemma split_ies_bytes: "split_ies bs = (es, frag) \<Longrightarrow> bs = ies_bytes es @ frag"
proof (induction bs arbitrary: es frag rule: split_ies.induct)
  case (1 i l r)
  show ?case
  proof (cases "length r < unat l")
    case False
    obtain es' frag' where s: "split_ies (drop (unat l) r) = (es', frag')" by fastforce
    have "r = take (unat l) r @ ies_bytes es' @ frag'" using 1(1) [OF False s] by (metis append_take_drop_id)
    then show ?thesis using 1(2) False s by (auto simp: ie_bytes_def)
  qed (use 1(2) in auto)
qed auto

lemma split_ies_ok: "split_ies bs = (es, frag) \<Longrightarrow> e \<in> set es \<Longrightarrow> ie_ok e"
proof (induction bs arbitrary: es frag rule: split_ies.induct)
  case (1 i l r)
  then show ?case
    using u8_lt [of l] by (auto simp: ie_ok_def split: if_splits prod.splits)
qed auto

lemma split_ies_cut:
  "split_ies bs = (es, frag) \<Longrightarrow> frag \<noteq> [] \<Longrightarrow> length frag = 1 \<or> (\<exists>i l r. frag = i # l # r \<and> length r < unat l)"
  by (induction bs arbitrary: es frag rule: split_ies.induct) (auto split: if_splits prod.splits)

lemma parse_loop_cut:
  assumes "split_ies bs = (es, frag)" "m = P @ frag @ post"
  shows "parse_elems_loop m (length P) (length frag) unk elems =
    Some (elems, if frag \<noteq> [] then ParseFailed else if unk \<noteq> 0 then ParseUnknown else ParseOK)"
proof -
  consider "length frag \<le> 1" | i l r where "frag = i # l # r" "length r < unat l" using split_ies_cut [OF assms(1)] by fastforce
  then show ?thesis
  proof cases
    case 1
    then show ?thesis by (subst parse_elems_loop.simps) auto
  next
    case 2
    then show ?thesis using assms(2) by (subst parse_elems_loop.simps) (simp add: rd_def nth_append)
  qed
qed

lemma case_some_id: "(case x of None \<Rightarrow> None | Some y \<Rightarrow> Some y) = x"
  by (cases x) auto

text \<open>
  C17: Whatever the bytes of a management frame are, if no extension element in them is empty, the parser records for every kind the
  place and the length of the last element of that kind, and nothing for a kind that is not there; it fails exactly when the bytes end in a part of an element, and
  otherwise tells whether there is an element it does not know.
\<close>

theorem parse_elems_exact:
  assumes "split_ies bs = (es, frag)" and "\<forall>e\<in>set es. fst e = 255 \<longrightarrow> snd e \<noteq> []"
  shows "rtw_ieee802_11_parse_elems (pre @ bs @ post) (length pre) (length bs) =
    Some (\<lambda>f. field_at f (length pre) es,
      if frag \<noteq> [] then ParseFailed else if \<exists>e\<in>set es. elem_unknown e then ParseUnknown else ParseOK)"
proof -
  have bs: "bs = ies_bytes es @ frag" by (rule split_ies_bytes [OF assms(1)])
  have ok: "\<forall>e\<in>set es. ext_ok e" using assms(2) split_ies_ok [OF assms(1)] by (auto simp: ext_ok_def)
  let ?m = "pre @ ies_bytes es @ frag @ post"
  have "parse_elems_loop ?m (length pre) (length (ies_bytes es) + length frag) 0 (\<lambda>_. None) =
    parse_elems_loop ?m (length (pre @ ies_bytes es)) (length frag) (length (filter elem_unknown es)) (\<lambda>f. field_at f (length pre) es)"
    using parse_loop_elements [OF refl ok, of pre "frag @ post" "length frag" 0 "\<lambda>_. None"] by (simp add: case_some_id)
  also have "\<dots> = Some (\<lambda>f. field_at f (length pre) es,
      if frag \<noteq> [] then ParseFailed else if length (filter elem_unknown es) \<noteq> 0 then ParseUnknown else ParseOK)"
    by (rule parse_loop_cut [OF assms(1)]) simp
  finally show ?thesis by (auto simp: rtw_ieee802_11_parse_elems_def bs filter_empty_conv)
qed

definition frame_example :: "u8w list" where
  "frame_example = [0, 1, 65, 221, 4, 0, 0x50, 0xF2, 4, 200, 0, 0, 2, 66, 67, 255, 1, 36, 7, 9, 1]"

theorem parse_elems_exact_witness:
  "let es = [(0, [65]), (221, [0, 0x50, 0xF2, 4]), (200, []), (0, [66, 67]), (255, [36])] in
    split_ies frame_example = (es, [7, 9, 1]) \<and> list_all (\<lambda>e. fst e = 255 \<longrightarrow> snd e \<noteq> []) es \<and>
    rtw_ieee802_11_parse_elems ([9, 9] @ frame_example @ [8]) (length [9::u8w, 9]) (length frame_example) =
      Some (\<lambda>f. field_at f (length [9::u8w, 9]) es, ParseFailed) \<and>
    field_at E_ssid 2 es = Some (15, 2) \<and> field_at E_wps_ie 2 es = Some (7, 4)"
proof -
  define es where "es = [(0::u8w, [65]), (221, [0, 0x50, 0xF2, 4]), (200, []), (0, [66, 67]), (255, [36::u8w])]"
  have s: "split_ies frame_example = (es, [7, 9, 1])" by (simp add: frame_example_def es_def)
  have ok: "\<forall>e\<in>set es. fst e = 255 \<longrightarrow> snd e \<noteq> []" by (simp add: es_def)
  have "field_at E_ssid 2 es = Some (15, 2)" "field_at E_wps_ie 2 es = Some (7, 4)" unfolding es_def by code_simp+
  with s ok parse_elems_exact [OF s ok, of "[9, 9]" "[8]"] show ?thesis unfolding Let_def es_def [symmetric] list_all_iff by simp
qed

section \<open>Staying inside the frame\<close>

definition places_in :: "nat \<Rightarrow> nat \<Rightarrow> rtw_ieee802_11_elems \<Rightarrow> bool" where
  "places_in lo hi elems \<longleftrightarrow> (\<forall>f p l. elems f = Some (p, l) \<longrightarrow> lo \<le> p \<and> p + l \<le> hi)"

lemma places_in_upd: "places_in lo hi elems \<Longrightarrow> lo \<le> p \<Longrightarrow> p + l \<le> hi \<Longrightarrow> places_in lo hi (elems(f := Some (p, l)))"
  by (auto simp: places_in_def)

definition keeps_in :: "nat \<Rightarrow> nat \<Rightarrow> (rtw_ieee802_11_elems \<times> 'r) option \<Rightarrow> bool" where
  "keeps_in lo hi r \<longleftrightarrow> (case r of None \<Rightarrow> False | Some (el, _) \<Rightarrow> places_in lo hi el)"

lemma keeps_in_simps:
  "keeps_in lo hi (Some (el, x)) = places_in lo hi el" "keeps_in lo hi (if b then r else r') = (if b then keeps_in lo hi r else keeps_in lo hi r')"
  by (simp_all add: keeps_in_def)

lemma keeps_in_ex: "keeps_in lo hi r \<longleftrightarrow> (\<exists>el x. r = Some (el, x) \<and> places_in lo hi el)"
  by (auto simp: keeps_in_def split: option.splits)

lemma vendor_inside:
  assumes "pos + elen < length m" "places_in lo hi elems" "lo \<le> pos" "pos + elen \<le> hi"
  shows "keeps_in lo hi (rtw_ieee802_11_parse_vendor_specific m pos elen elems)"
proof -
  note up = places_in_upd [OF assms(2-4)]
  have r: "\<exists>v. rd m (pos + k) = Some v" if "k < elen" for k using that assms(1) by (simp add: rd_def)
  show ?thesis
  proof (cases "elen < 4")
    case False
    then obtain a b c d where "rd m pos = Some a" "rd m (pos + 1) = Some b" "rd m (pos + 2) = Some c" "rd m (pos + 3) = Some d"
      using r [of 0] r [of 1] r [of 2] r [of 3] by auto
    moreover obtain e where "elen < 5 \<or> rd m (pos + 4) = Some e" using r [of 4] by (cases "elen < 5") auto
    ultimately show ?thesis
      using False up assms(2) by (auto simp: rtw_ieee802_11_parse_vendor_specific_def RTW_GET_BE24_def Let_def keeps_in_simps)
  qed (simp add: rtw_ieee802_11_parse_vendor_specific_def assms(2) keeps_in_simps)
qed

lemma parse_elem_inside:
  assumes "pos + elen < length m" "places_in lo hi elems" "lo \<le> pos" "pos + elen \<le> hi"
  shows "\<exists>el u. parse_elem m eid pos elen elems = Some (el, u) \<and> places_in lo hi el"
proof -
  have "rd m pos = Some (unat (m ! pos))" using assms(1) by (simp add: rd_def)
  then have "keeps_in lo hi (parse_elem m eid pos elen elems)"
    using vendor_inside [OF assms] assms(2) places_in_upd [OF assms(2-4)]
    by (simp add: parse_elem_def rtw_ieee802_11_parse_ext_elems_def keeps_in_simps split: option.split)
  then show ?thesis by (simp only: keeps_in_ex)
qed

lemma parse_loop_inside:
  "pos + left < length m \<Longrightarrow> places_in lo hi elems \<Longrightarrow> lo \<le> pos \<Longrightarrow> pos + left \<le> hi \<Longrightarrow>
     \<exists>el r. parse_elems_loop m pos left unk elems = Some (el, r) \<and> places_in lo hi el"
proof (induction m pos left unk elems rule: parse_elems_loop.induct)
  case (1 m pos left unk elems)
  show ?case
  proof (cases "2 \<le> left \<and> unat (m ! (pos + 1)) \<le> left - 2")
    case True
    let ?n = "unat (m ! (pos + 1))"
    have r: "rd m pos = Some (unat (m ! pos))" "rd m (pos + 1) = Some ?n" using 1(2) True by (simp_all add: rd_def)
    have b: "pos + 2 + ?n < length m" "lo \<le> pos + 2" "pos + 2 + ?n \<le> hi" using 1(2,4,5) True by auto
    obtain el u where e: "parse_elem m (unat (m ! pos)) (pos + 2) ?n elems = Some (el, u)" "places_in lo hi el"
      using parse_elem_inside [OF b(1) 1(3) b(2,3)] by blast
    have "pos + 2 + ?n + (left - 2 - ?n) = pos + left" using True by auto
    then have "\<exists>el' r. parse_elems_loop m (pos + 2 + ?n) (left - 2 - ?n) (if u then unk + 1 else unk) el = Some (el', r) \<and> places_in lo hi el'"
      using 1(1) [OF _ r _ e(1) refl _ e(2)] 1(2,4,5) True by simp
    then show ?thesis using True r e by (subst parse_elems_loop.simps) (simp add: not_less [symmetric])
  next
    case False
    then show ?thesis using 1(2,3) by (subst parse_elems_loop.simps) (auto simp: rd_def)
  qed
qed

text \<open>
  C38: With at least one byte of memory behind the frame the parser reads nothing outside the memory, whatever the bytes are, and all it records lies inside the frame,
  behind the header of an element; without that byte it reads outside when the last element is an empty extension, whose first
  byte it takes from behind the element.
\<close>

theorem parse_elems_inside:
  "(start + len < length m \<longrightarrow>
     (\<exists>elems r. rtw_ieee802_11_parse_elems m start len = Some (elems, r) \<and>
       (\<forall>f p l. elems f = Some (p, l) \<longrightarrow> start \<le> p \<and> p + l \<le> start + len))) \<and>
   ((\<forall>e\<in>set es. ie_ok e \<and> (fst e = 255 \<longrightarrow> snd e \<noteq> [])) \<longrightarrow>
     rtw_ieee802_11_parse_elems (pre @ ies_bytes es @ [255, 0]) (length pre) (length (ies_bytes es) + 2) = None)"
proof (intro conjI impI)
  assume "start + len < length m"
  from parse_loop_inside [OF this, of start "start + len" "\<lambda>_. None" 0]
  show "\<exists>elems r. rtw_ieee802_11_parse_elems m start len = Some (elems, r) \<and>
       (\<forall>f p l. elems f = Some (p, l) \<longrightarrow> start \<le> p \<and> p + l \<le> start + len)"
    by (auto simp: rtw_ieee802_11_parse_elems_def places_in_def)
next
  assume ok: "\<forall>e\<in>set es. ie_ok e \<and> (fst e = 255 \<longrightarrow> snd e \<noteq> [])"
  let ?m = "pre @ ies_bytes es @ [255, 0]"
  have rd: "rd ?m (length (pre @ ies_bytes es)) = Some WLAN_EID_EXTENSION" "rd ?m (length (pre @ ies_bytes es) + 1) = Some 0"
    "rd ?m (length (pre @ ies_bytes es) + 2) = None"
    by (simp_all add: rd_def nth_append WLAN_EID_EXTENSION_def)
  have "parse_elem ?m WLAN_EID_EXTENSION (length (pre @ ies_bytes es) + 2) 0 elems = None" for elems
    unfolding parse_elem_def eid_fields_other rtw_ieee802_11_parse_ext_elems_def rd
    by (simp add: WLAN_EID_EXTENSION_def WLAN_EID_VENDOR_SPECIFIC_def)
  then have "parse_elems_loop ?m (length (pre @ ies_bytes es)) 2 unk elems = None" for unk elems
    using rd by (subst parse_elems_loop.simps) simp
  then show "rtw_ieee802_11_parse_elems ?m (length pre) (length (ies_bytes es) + 2) = None"
    using parse_loop_elements [of ?m pre es "[255, 0]" 2 0 "\<lambda>_. None"] ok by (simp add: rtw_ieee802_11_parse_elems_def ext_ok_def)
qed

theorem parse_elems_inside_witness:
  "(\<exists>elems r. rtw_ieee802_11_parse_elems [0, 2, 65, 66, 9] 0 4 = Some (elems, r) \<and>
     (\<forall>f p l. elems f = Some (p, l) \<longrightarrow> 0 \<le> p \<and> p + l \<le> 0 + 4)) \<and>
   rtw_ieee802_11_parse_elems ([7] @ ies_bytes [(0, [65])] @ [255, 0]) (length [7::u8w]) (length (ies_bytes [(0::u8w, [65])]) + 2) = None"
proof -
  have "(0::nat) + 4 < length [0, 2, 65, 66, 9::u8w]" "\<forall>e\<in>set [(0::u8w, [65])]. ie_ok e \<and> (fst e = 255 \<longrightarrow> snd e \<noteq> [])"
    by (simp_all add: ie_ok_def)
  with parse_elems_inside [of 0 4 "[0, 2, 65, 66, 9]" "[(0, [65])]" "[7]"] show ?thesis by blast
qed

end
