(* ===== verification/Phl_Chan.thy ===== *)
theory Phl_Chan
  imports Phl_Queue Phl_Macid Chan_Codes "HOL-Library.Monad_Syntax"
begin

text \<open>
  Channel contexts (\<^verbatim>\<open>phl/phl_chan.c\<close>, and the synchronisation in \<^verbatim>\<open>phl/phl_mr.c\<close>): the roles of the device that are on
  the same channel share a context, which holds the widest bandwidth any of them needs. A band has at most two contexts. Also
  the channel arithmetic: centre channels, secondary-channel offsets and operating classes.

  A context is an object of the heap; the queue of a band and every role hold pointers to it. An access to a context that is
  not allocated makes the result \<open>None\<close>. Spinlocks make the operations atomic.
\<close>

section \<open>Data\<close>

definition MAX_CHANCTX_QUEUE_NUM :: nat where "MAX_CHANCTX_QUEUE_NUM = 2"

record rtw_chan_def =
  cd_band :: band_type
  cd_bw :: nat
  cd_offset :: nat
  cd_chan :: nat
  cd_center_ch :: nat
  cd_hw_value :: nat
  cd_center_freq1 :: nat
  cd_center_freq2 :: nat

record rtw_chan_ctx =
  ctx_def :: rtw_chan_def
  ctx_role_map :: u8w
  ctx_dfs_enabled :: bool

datatype mr_op_mode = MR_OP_NON | MR_OP_SCC | MR_OP_MCC | MR_OP_MAX

text \<open>
  The fields of \<^verbatim>\<open>struct hw_band_ctl_t\<close> and \<^verbatim>\<open>struct rtw_wifi_role_t\<close> that the contexts use, and the state they are part of:
  the allocated contexts, the bands and roles by index, and whether only one band is in use.
\<close>

record hw_band_ctl_t =
  op_mode :: mr_op_mode
  chan_ctx_queue :: "ptr phl_queue"

record chan_role =
  r_hw_band :: nat
  r_chanctx :: "ptr option"
  r_chandef :: rtw_chan_def

record chan_state =
  ctx_heap :: "ptr \<Rightarrow> rtw_chan_ctx option"
  band_ctrl :: "nat \<Rightarrow> hw_band_ctl_t"
  wifi_roles :: "nat \<Rightarrow> chan_role"
  is_sb :: bool

text \<open>Whether time sharing between two channels is compiled in, and the capabilities of the device.\<close>

record chan_cap =
  mcc_config :: bool
  mcc_sup :: bool
  dbcc_config :: bool
  dbcc_sup :: bool

abbreviation ctxq :: "chan_state \<Rightarrow> nat \<Rightarrow> ptr list" where
  "ctxq st b \<equiv> queue (chan_ctx_queue (band_ctrl st b))"

section \<open>Channel arithmetic\<close>

definition rtw_phl_get_band_type :: "nat \<Rightarrow> band_type" where
  "rtw_phl_get_band_type chan = (if 14 < chan then BAND_ON_5G else BAND_ON_24G)"

text \<open>Channels are bytes: \<^verbatim>\<open>ch - 2\<close> wraps below zero and \<^verbatim>\<open>ch + 2\<close> above 255.\<close>

definition rtw_phl_get_center_ch :: "nat \<Rightarrow> nat \<Rightarrow> nat \<Rightarrow> nat" where
  "rtw_phl_get_center_ch ch bw offset =
     (if bw = CHANNEL_WIDTH_160 then
        if ch mod 4 = 0 then
          (if 36 \<le> ch \<and> ch \<le> 64 then 50 else if 100 \<le> ch \<and> ch \<le> 128 then 114 else ch)
        else if ch mod 4 = 1 then
          (if 149 \<le> ch \<and> ch \<le> 177 then 163 else ch)
        else ch
      else if bw = CHANNEL_WIDTH_80 then
        if ch \<le> 14 then 7
        else if ch mod 4 = 0 then
          (if 36 \<le> ch \<and> ch \<le> 48 then 42
           else if 52 \<le> ch \<and> ch \<le> 64 then 58
           else if 100 \<le> ch \<and> ch \<le> 112 then 106
           else if 116 \<le> ch \<and> ch \<le> 128 then 122
           else if 132 \<le> ch \<and> ch \<le> 144 then 138
           else ch)
        else if ch mod 4 = 1 then
          (if 149 \<le> ch \<and> ch \<le> 161 then 155 else if 165 \<le> ch \<and> ch \<le> 177 then 171 else ch)
        else ch
      else if bw = CHANNEL_WIDTH_40 then
        if offset = CHAN_OFFSET_UPPER then to_u8 (int ch + 2)
        else if offset = CHAN_OFFSET_LOWER then to_u8 (int ch - 2)
        else ch
      else ch)"

definition upper_5g :: "nat list" where
  "upper_5g = [36, 44, 52, 60, 100, 108, 116, 124, 132, 140, 149, 157, 165, 173]"

definition lower_5g :: "nat list" where
  "lower_5g = [40, 48, 56, 64, 104, 112, 120, 128, 136, 144, 153, 161, 169, 177]"

text \<open>\<open>None\<close> is the result 0, in which the offset of the caller is not changed.\<close>

definition phl_get_offset_by_chbw :: "nat \<Rightarrow> nat \<Rightarrow> nat \<Rightarrow> nat option" where
  "phl_get_offset_by_chbw ch bw r_offset =
     (if bw = CHANNEL_WIDTH_20 then Some CHAN_OFFSET_NO_EXT
      else if CHANNEL_WIDTH_80 \<le> bw \<and> ch \<le> 14 then None
      else if 1 \<le> ch \<and> ch \<le> 4 then Some CHAN_OFFSET_UPPER
      else if 5 \<le> ch \<and> ch \<le> 9 then
        Some (if r_offset = CHAN_OFFSET_UPPER \<or> r_offset = CHAN_OFFSET_LOWER then r_offset else CHAN_OFFSET_LOWER)
      else if 10 \<le> ch \<and> ch \<le> 13 then Some CHAN_OFFSET_LOWER
      else if ch = 14 then None
      else if 36 \<le> ch \<and> ch \<le> 177 then
        (if ch \<in> set upper_5g then Some CHAN_OFFSET_UPPER
         else if ch \<in> set lower_5g then Some CHAN_OFFSET_LOWER
         else None)
      else None)"

definition wide :: "nat \<Rightarrow> bool" where
  "wide bw \<longleftrightarrow> bw = CHANNEL_WIDTH_40 \<or> bw = CHANNEL_WIDTH_80"

definition phl_is_chbw_grouped :: "nat \<Rightarrow> nat \<Rightarrow> nat \<Rightarrow> nat \<Rightarrow> nat \<Rightarrow> nat \<Rightarrow> bool" where
  "phl_is_chbw_grouped ch_a bw_a offset_a ch_b bw_b offset_b =
     (if ch_a \<noteq> ch_b then False
      else if wide bw_a \<and> wide bw_b then \<not> offset_a \<noteq> offset_b
      else True)"

text \<open>
  The request and the group after the adjustment, as (channel, bandwidth, offset). The cases of 80 and 40 MHz are the same code,
  written once.
\<close>

type_synonym chbw = "nat \<times> nat \<times> nat"

definition phl_adjust_chandef :: "chbw \<Rightarrow> chbw \<Rightarrow> chbw \<times> chbw" where
  "phl_adjust_chandef req g =
     (let (_, req_bw, req_offset) = req; (g_ch, g_bw, g_offset) = g;
          bw = (if req_bw = CHANNEL_WIDTH_80 \<and> g_ch \<le> 14 then CHANNEL_WIDTH_40 else req_bw);
          (bw1, off1) =
            (if wide bw then
               let off = (if wide g_bw then g_offset
                          else if g_bw = CHANNEL_WIDTH_20 then
                            (case phl_get_offset_by_chbw g_ch bw req_offset of None \<Rightarrow> req_offset | Some f \<Rightarrow> f)
                          else req_offset)
               in (if off = CHAN_OFFSET_NO_EXT then (CHANNEL_WIDTH_20, off) else (bw, off))
             else if bw = CHANNEL_WIDTH_20 then (bw, CHAN_OFFSET_NO_EXT)
             else (bw, req_offset))
      in ((g_ch, bw1, off1), if g_bw < bw1 then (g_ch, bw1, off1) else g))"

section \<open>Operating classes\<close>

definition rtw_phl_get_operating_class :: "rtw_chan_def \<Rightarrow> nat" where
  "rtw_phl_get_operating_class cd =
     (let ch = cd_chan cd in
      if cd_bw cd = CHANNEL_WIDTH_20 then
        if ch \<le> 13 then 81
        else if ch = 14 then 82
        else if 36 \<le> ch \<and> ch \<le> 48 then 115
        else if 52 \<le> ch \<and> ch \<le> 64 then 118
        else if 100 \<le> ch \<and> ch \<le> 144 then 121
        else if 149 \<le> ch \<and> ch \<le> 169 then 125
        else 0
      else if cd_bw cd = CHANNEL_WIDTH_40 then
        if cd_offset cd = CHAN_OFFSET_UPPER then
          if 1 \<le> ch \<and> ch \<le> 9 then 83
          else if ch = 36 \<or> ch = 44 then 116
          else if ch = 52 \<or> ch = 60 then 119
          else if ch = 100 \<or> ch = 108 \<or> ch = 116 \<or> ch = 124 \<or> ch = 132 \<or> ch = 140 then 122
          else if ch = 149 \<or> ch = 157 then 126
          else 0
        else if cd_offset cd = CHAN_OFFSET_LOWER then
          if 5 \<le> ch \<and> ch \<le> 13 then 84
          else if ch = 40 \<or> ch = 48 then 117
          else if ch = 56 \<or> ch = 64 then 120
          else if ch = 104 \<or> ch = 112 \<or> ch = 120 \<or> ch = 128 \<or> ch = 136 \<or> ch = 144 then 123
          else if ch = 153 \<or> ch = 161 then 127
          else 0
        else 0
      else if cd_bw cd = CHANNEL_WIDTH_80 then
        if cd_center_ch cd \<in> {42, 58, 106, 122, 138, 155} then 128 else 0
      else if cd_bw cd = CHANNEL_WIDTH_160 then
        if cd_center_ch cd \<in> {50, 114} then 129 else 0
      else 0)"

definition set_chandef :: "nat \<Rightarrow> nat \<Rightarrow> nat \<Rightarrow> nat \<Rightarrow> rtw_chan_def \<Rightarrow> rtw_chan_def" where
  "set_chandef ch bw offset center cd = cd\<lparr>cd_chan := ch, cd_bw := bw, cd_offset := offset, cd_center_ch := center\<rparr>"

text \<open>The centre channel of the class 129 is asked for with the bandwidth of 40 MHz.\<close>

definition rtw_phl_get_chandef_from_operating_class :: "nat \<Rightarrow> nat \<Rightarrow> rtw_chan_def \<Rightarrow> rtw_chan_def \<times> bool" where
  "rtw_phl_get_chandef_from_operating_class channel operating_class cd =
     (if operating_class \<in> {81, 82, 115, 118, 121, 125} then
        (set_chandef channel CHANNEL_WIDTH_20 CHAN_OFFSET_NO_EXT
           (rtw_phl_get_center_ch channel CHANNEL_WIDTH_20 CHAN_OFFSET_NO_EXT) cd, True)
      else if operating_class \<in> {83, 116, 119, 122, 126} then
        (set_chandef channel CHANNEL_WIDTH_40 CHAN_OFFSET_UPPER
           (rtw_phl_get_center_ch channel CHANNEL_WIDTH_40 CHAN_OFFSET_UPPER) cd, True)
      else if operating_class \<in> {84, 117, 120, 123, 127} then
        (set_chandef channel CHANNEL_WIDTH_40 CHAN_OFFSET_LOWER
           (rtw_phl_get_center_ch channel CHANNEL_WIDTH_40 CHAN_OFFSET_LOWER) cd, True)
      else if operating_class = 128 then
        (set_chandef channel CHANNEL_WIDTH_80 CHAN_OFFSET_NO_DEF
           (rtw_phl_get_center_ch channel CHANNEL_WIDTH_80 CHAN_OFFSET_NO_DEF) cd, True)
      else if operating_class = 129 then
        (set_chandef channel CHANNEL_WIDTH_160 CHAN_OFFSET_NO_DEF
           (rtw_phl_get_center_ch channel CHANNEL_WIDTH_40 CHAN_OFFSET_NO_DEF) cd, True)
      else (cd, False))"

section \<open>Contexts of a band\<close>

definition phl_mr_get_chanctx_num :: "chan_state \<Rightarrow> nat \<Rightarrow> int" where
  "phl_mr_get_chanctx_num st b = cnt (chan_ctx_queue (band_ctrl st b))"

definition set_queue :: "nat \<Rightarrow> ptr list \<Rightarrow> int \<Rightarrow> chan_state \<Rightarrow> chan_state" where
  "set_queue b q n st =
     st\<lparr>band_ctrl := (band_ctrl st)(b := (band_ctrl st b)\<lparr>chan_ctx_queue := \<lparr>queue = q, cnt = n\<rparr>\<rparr>)\<rparr>"

definition set_op_mode :: "nat \<Rightarrow> mr_op_mode \<Rightarrow> chan_state \<Rightarrow> chan_state" where
  "set_op_mode b mode st = st\<lparr>band_ctrl := (band_ctrl st)(b := (band_ctrl st b)\<lparr>op_mode := mode\<rparr>)\<rparr>"

definition set_ctx :: "ptr \<Rightarrow> rtw_chan_ctx option \<Rightarrow> chan_state \<Rightarrow> chan_state" where
  "set_ctx p x st = st\<lparr>ctx_heap := (ctx_heap st)(p := x)\<rparr>"

definition set_role_ctx :: "nat \<Rightarrow> ptr option \<Rightarrow> chan_state \<Rightarrow> chan_state" where
  "set_role_ctx r p st = st\<lparr>wifi_roles := (wifi_roles st)(r := (wifi_roles st r)\<lparr>r_chanctx := p\<rparr>)\<rparr>"

text \<open>A context is added at the end; the check of the count against \<open>MAX_CHANCTX_QUEUE_NUM\<close> only warns.\<close>

definition phl_chanctx_enqueue :: "nat \<Rightarrow> ptr \<Rightarrow> chan_state \<Rightarrow> chan_state" where
  "phl_chanctx_enqueue b p st = set_queue b (ctxq st b @ [p]) (phl_mr_get_chanctx_num st b + 1) st"

text \<open>Unlinking an object that is not linked in the queue is an error.\<close>

definition phl_chanctx_del :: "nat \<Rightarrow> ptr \<Rightarrow> chan_state \<Rightarrow> chan_state option" where
  "phl_chanctx_del b p st =
     (if phl_mr_get_chanctx_num st b \<noteq> 0 then
        if p \<in> set (ctxq st b) then Some (set_queue b (remove1 p (ctxq st b)) (phl_mr_get_chanctx_num st b - 1) st) else None
      else Some st)"

definition phl_chanctx_rmap_set :: "nat \<Rightarrow> ptr \<Rightarrow> chan_state \<Rightarrow> chan_state option" where
  "phl_chanctx_rmap_set r p st =
     do { x \<leftarrow> ctx_heap st p;
          Some (set_role_ctx r (Some p) (set_ctx p (Some (x\<lparr>ctx_role_map := set_bit r (ctx_role_map x)\<rparr>)) st)) }"

definition phl_chanctx_rmap_clr :: "nat \<Rightarrow> ptr \<Rightarrow> chan_state \<Rightarrow> chan_state option" where
  "phl_chanctx_rmap_clr r p st =
     do { x \<leftarrow> ctx_heap st p;
          Some (set_ctx p (Some (x\<lparr>ctx_role_map := unset_bit r (ctx_role_map x)\<rparr>)) (set_role_ctx r None st)) }"

definition phl_chanctx_get_rnum :: "rtw_chan_ctx \<Rightarrow> nat" where
  "phl_chanctx_get_rnum x = length (filter (\<lambda>i. bit (ctx_role_map x) i) [0..<MAX_WIFI_ROLE_NUMBER])"

definition zero_chan_def :: rtw_chan_def where
  "zero_chan_def = \<lparr>cd_band = BAND_ON_24G, cd_bw = 0, cd_offset = 0, cd_chan = 0, cd_center_ch = 0, cd_hw_value = 0,
     cd_center_freq1 = 0, cd_center_freq2 = 0\<rparr>"

text \<open>\<open>alloc\<close> is what the allocation returns: the address of zeroed memory, or NULL.\<close>

definition phl_chanctx_create ::
  "ptr option \<Rightarrow> nat \<Rightarrow> band_type \<Rightarrow> chbw \<Rightarrow> chan_state \<Rightarrow> (chan_state \<times> rtw_phl_status) option" where
  "phl_chanctx_create alloc r band req st =
     (case alloc of
        None \<Rightarrow> Some (st, RTW_PHL_STATUS_FAILURE)
      | Some p \<Rightarrow>
          let (chan, bw, offset) = req; b = r_hw_band (wifi_roles st r);
              d = zero_chan_def\<lparr>cd_band := band, cd_chan := chan, cd_bw := bw, cd_offset := offset,
                    cd_center_ch := rtw_phl_get_center_ch chan bw offset\<rparr>;
              st1 = set_ctx p (Some \<lparr>ctx_def = d, ctx_role_map = 0, ctx_dfs_enabled = False\<rparr>) st
          in do { st2 \<leftarrow> phl_chanctx_rmap_set r p (phl_chanctx_enqueue b p st1); Some (st2, RTW_PHL_STATUS_SUCCESS) })"

text \<open>The walk over the contexts of a band for one that the request can join.\<close>

fun find_grouped :: "(ptr \<Rightarrow> rtw_chan_ctx option) \<Rightarrow> ptr list \<Rightarrow> chbw \<Rightarrow> ptr option option" where
  "find_grouped h [] req = Some None"
| "find_grouped h (p # ps) req =
     do { x \<leftarrow> h p;
          let d = ctx_def x; (chan, bw, offset) = req in
          if phl_is_chbw_grouped (cd_chan d) (cd_bw d) (cd_offset d) chan bw offset then Some (Some p)
          else find_grouped h ps req }"

definition join_group :: "nat \<Rightarrow> ptr \<Rightarrow> chbw \<Rightarrow> chan_state \<Rightarrow> (chan_state \<times> bool \<times> chbw) option" where
  "join_group r p req st =
     do { x \<leftarrow> ctx_heap st p;
          let d = ctx_def x;
              (_, (g_ch, g_bw, g_off)) = phl_adjust_chandef req (cd_chan d, cd_bw d, cd_offset d);
              d1 = d\<lparr>cd_chan := g_ch, cd_bw := g_bw, cd_offset := g_off\<rparr>
          in do { st1 \<leftarrow> phl_chanctx_rmap_set r p (set_ctx p (Some (x\<lparr>ctx_def := d1\<rparr>)) st);
                  Some (st1, True, (g_ch, g_bw, g_off)) } }"

text \<open>
  Without a group: with time sharing a second context is made, unless the last context of the walk is in another band and the
  device could use both bands at once.
\<close>

definition add_second ::
  "chan_cap \<Rightarrow> ptr option \<Rightarrow> nat \<Rightarrow> band_type \<Rightarrow> chbw \<Rightarrow> chan_state \<Rightarrow> (chan_state \<times> bool) option" where
  "add_second cap alloc r band req st =
     (let b = r_hw_band (wifi_roles st r) in
      if \<not> mcc_config cap then Some (st, False)
      else if \<not> mcc_sup cap then Some (st, False)
      else if 2 \<le> phl_mr_get_chanctx_num st b then Some (st, False)
      else if ctxq st b = [] then None
      else do { x \<leftarrow> ctx_heap st (last (ctxq st b));
                if band \<noteq> cd_band (ctx_def x) \<and> dbcc_config cap \<and> dbcc_sup cap then Some (st, False)
                else do { (st1, s) \<leftarrow> phl_chanctx_create alloc r band req st; Some (st1, s = RTW_PHL_STATUS_SUCCESS) } })"

definition phl_chanctx_add ::
  "chan_cap \<Rightarrow> ptr option \<Rightarrow> nat \<Rightarrow> chbw \<Rightarrow> chan_state \<Rightarrow> (chan_state \<times> bool \<times> chbw) option" where
  "phl_chanctx_add cap alloc r req st =
     (let b = r_hw_band (wifi_roles st r); band = (if 14 < fst req then BAND_ON_5G else BAND_ON_24G) in
      if phl_mr_get_chanctx_num st b = 0 then
        do { (st1, s) \<leftarrow> phl_chanctx_create alloc r band req st; Some (st1, s = RTW_PHL_STATUS_SUCCESS, req) }
      else
        do { g \<leftarrow> find_grouped (ctx_heap st) (ctxq st b) req;
             (case g of
                Some p \<Rightarrow> join_group r p req st
              | None \<Rightarrow> do { (st1, ok) \<leftarrow> add_second cap alloc r band req st; Some (st1, ok, req) }) })"

definition rtw_phl_chanctx_chk :: "chan_cap \<Rightarrow> nat \<Rightarrow> chbw \<Rightarrow> chan_state \<Rightarrow> bool option" where
  "rtw_phl_chanctx_chk cap r req st =
     (let b = r_hw_band (wifi_roles st r); num = phl_mr_get_chanctx_num st b in
      if fst req = 0 then Some False
      else if is_sb st \<and> b = 1 then Some False
      else if 0 < num then
        do { g \<leftarrow> find_grouped (ctx_heap st) (ctxq st b) req;
             Some (g \<noteq> None \<or> (mcc_config cap \<and> mcc_sup cap \<and> num < 2)) }
      else Some True)"

definition rtw_phl_chanctx_add ::
  "chan_cap \<Rightarrow> ptr option \<Rightarrow> nat \<Rightarrow> chbw \<Rightarrow> chan_state \<Rightarrow> (chan_state \<times> bool \<times> chbw) option" where
  "rtw_phl_chanctx_add cap alloc r req st =
     (let b = r_hw_band (wifi_roles st r) in
      if fst req = 0 then Some (st, False, req)
      else if is_sb st \<and> b = 1 then Some (st, False, req)
      else
        do { (st1, ok, req1) \<leftarrow> phl_chanctx_add cap alloc r req st;
             if \<not> ok then Some (st1, ok, req1)
             else if phl_mr_get_chanctx_num st1 b = 2 then Some (set_op_mode b MR_OP_MCC st1, ok, req1)
             else if phl_mr_get_chanctx_num st1 b = 1 then
               if ctxq st1 b = [] then None
               else do { x \<leftarrow> ctx_heap st1 (hd (ctxq st1 b));
                         Some (set_op_mode b (if 2 \<le> phl_chanctx_get_rnum x then MR_OP_SCC else MR_OP_NON) st1, ok, req1) }
             else Some (st1, ok, req1) })"

section \<open>Synchronising and leaving a context\<close>

text \<open>
  \<^verbatim>\<open>phl_mr_chandef_sync\<close> goes over the roles of a context; \<open>acc\<close> is the band, channel, bandwidth and offset so far, and nothing before the first
  role. The walk stops with no roles counted where two roles do not fit together.
\<close>

fun sync_roles :: "(nat \<Rightarrow> chan_role) \<Rightarrow> nat list \<Rightarrow> (band_type \<times> chbw) option \<Rightarrow> (band_type \<times> chbw) option" where
  "sync_roles roles [] acc = acc"
| "sync_roles roles (r # rs) acc =
     (let d = r_chandef (roles r) in
      case acc of
        None \<Rightarrow> sync_roles roles rs (Some (cd_band d, cd_chan d, cd_bw d, cd_offset d))
      | Some (band, ch, bw, offset) \<Rightarrow>
          if band \<noteq> cd_band d then None
          else if ch \<noteq> cd_chan d then None
          else if bw < cd_bw d then sync_roles roles rs (Some (band, ch, cd_bw d, cd_offset d))
          else if bw = cd_bw d \<and> offset \<noteq> cd_offset d then None
          else sync_roles roles rs acc)"

definition roles_of :: "rtw_chan_ctx \<Rightarrow> nat list" where
  "roles_of x = filter (\<lambda>i. bit (ctx_role_map x) i) [0..<MAX_WIFI_ROLE_NUMBER]"

definition phl_mr_chandef_sync :: "chan_state \<Rightarrow> rtw_chan_ctx \<Rightarrow> rtw_chan_def \<Rightarrow> rtw_chan_def \<times> rtw_phl_status" where
  "phl_mr_chandef_sync st x cd =
     (case sync_roles (wifi_roles st) (roles_of x) None of
        None \<Rightarrow> (cd, RTW_PHL_STATUS_FAILURE)
      | Some (band, ch, bw, offset) \<Rightarrow>
          (cd\<lparr>cd_band := band, cd_chan := ch, cd_bw := bw, cd_offset := offset\<rparr>, RTW_PHL_STATUS_SUCCESS))"

definition phl_mr_chandef_upt :: "ptr \<Rightarrow> chan_state \<Rightarrow> (chan_state \<times> rtw_phl_status) option" where
  "phl_mr_chandef_upt p st =
     do { x \<leftarrow> ctx_heap st p;
          let (d, s) = phl_mr_chandef_sync st x (ctx_def x) in Some (set_ctx p (Some (x\<lparr>ctx_def := d\<rparr>)) st, s) }"

text \<open>
  The end of \<^verbatim>\<open>rtw_phl_chanctx_del\<close>: the mode of the band, and the channel that is left, in the structure the caller may give: \<open>None\<close> if at
  most its channel was set, to zero.
\<close>

definition del_done :: "nat \<Rightarrow> ptr \<Rightarrow> chan_state \<Rightarrow> (chan_state \<times> int \<times> rtw_chan_def option) option" where
  "del_done b t st =
     (let num = phl_mr_get_chanctx_num st b in
      if num = 0 then Some (set_op_mode b MR_OP_NON st, num, None)
      else if num = 1 then
        if ctxq st b = [] then None
        else do { x \<leftarrow> ctx_heap st (hd (ctxq st b));
                  Some (set_op_mode b (if phl_chanctx_get_rnum x = 1 then MR_OP_NON else MR_OP_SCC) st, num, Some (ctx_def x)) }
      else if num = 2 then
        do { x \<leftarrow> ctx_heap st t; Some (set_op_mode b MR_OP_MCC st, num, Some (ctx_def x)) }
      else Some (st, num, None))"

definition rtw_phl_chanctx_del :: "nat \<Rightarrow> chan_state \<Rightarrow> (chan_state \<times> int \<times> rtw_chan_def option) option" where
  "rtw_phl_chanctx_del r st =
     (case r_chanctx (wifi_roles st r) of
        None \<Rightarrow> Some (st, 0, None)
      | Some t \<Rightarrow>
          let b = r_hw_band (wifi_roles st r); num = phl_mr_get_chanctx_num st b in
          do { x \<leftarrow> ctx_heap st t;
               if num = 0 \<or> phl_chanctx_get_rnum x = 0 then Some (st, num, None)
               else if 2 < num then Some (st, num, None)
               else if phl_chanctx_get_rnum x = 1 then
                 do { st1 \<leftarrow> phl_chanctx_rmap_clr r t st;
                      st2 \<leftarrow> phl_chanctx_del b t st1;
                      del_done b t (set_ctx t None st2) }
               else
                 do { st1 \<leftarrow> phl_chanctx_rmap_clr r t st;
                      (st2, s) \<leftarrow> phl_mr_chandef_upt t st1;
                      if s \<noteq> RTW_PHL_STATUS_SUCCESS then Some (st2, num, None) else del_done b t st2 } })"

text \<open>Neither of the next two tells the roles of a context that it is gone.\<close>

definition rtw_phl_chanctx_del_no_self :: "nat \<Rightarrow> chan_state \<Rightarrow> (chan_state \<times> rtw_phl_status) option" where
  "rtw_phl_chanctx_del_no_self r st =
     (let b = r_hw_band (wifi_roles st r); num = phl_mr_get_chanctx_num st b in
      if 2 < num then Some (st, RTW_PHL_STATUS_FAILURE)
      else if num = 0 then Some (st, RTW_PHL_STATUS_SUCCESS)
      else if num = 1 then
        if ctxq st b = [] then Some (st, RTW_PHL_STATUS_FAILURE)
        else do { st1 \<leftarrow> phl_chanctx_del b (hd (ctxq st b)) st;
                  Some (set_ctx (hd (ctxq st b)) None st1, RTW_PHL_STATUS_SUCCESS) }
      else Some (st, RTW_PHL_STATUS_FAILURE))"

definition phl_chanctx_free :: "nat \<Rightarrow> chan_state \<Rightarrow> chan_state \<times> rtw_phl_status" where
  "phl_chanctx_free b st =
     (if phl_mr_get_chanctx_num st b = 0 then (st, RTW_PHL_STATUS_SUCCESS)
      else (fold (\<lambda>p s. set_ctx p None (set_queue b (tl (ctxq s b)) (phl_mr_get_chanctx_num s b - 1) s)) (ctxq st b) st,
            RTW_PHL_STATUS_SUCCESS))"

text \<open>
  For a role without a context, the walk over the roles of the only context would take the lock of the queue, which is held
  already: with \<open>sync\<close> and two roles in the context the code does not return.
\<close>

definition phl_mr_get_chandef :: "nat \<Rightarrow> bool \<Rightarrow> rtw_chan_def \<Rightarrow> chan_state \<Rightarrow> (rtw_chan_def \<times> rtw_phl_status) option" where
  "phl_mr_get_chandef r sync cd st =
     (let b = r_hw_band (wifi_roles st r); cd0 = cd\<lparr>cd_chan := 0\<rparr>;
          get = (\<lambda>x. if sync \<and> 2 \<le> phl_chanctx_get_rnum x then phl_mr_chandef_sync st x cd0 else (ctx_def x, RTW_PHL_STATUS_SUCCESS))
      in case r_chanctx (wifi_roles st r) of
           Some p \<Rightarrow> map_option get (ctx_heap st p)
         | None \<Rightarrow>
             if phl_mr_get_chanctx_num st b = 0 then Some (r_chandef (wifi_roles st r), RTW_PHL_STATUS_SUCCESS)
             else if phl_mr_get_chanctx_num st b = 1 then
               if ctxq st b = [] then None
               else do { x \<leftarrow> ctx_heap st (hd (ctxq st b)); if sync \<and> 2 \<le> phl_chanctx_get_rnum x then None else Some (get x) }
             else Some (cd0, RTW_PHL_STATUS_SUCCESS))"

section \<open>Queues, contexts and roles fit together\<close>

text \<open>
  The relation between the contexts of the bands \<open>Q\<close> with their counts \<open>N\<close>, the role maps \<open>H\<close> of the allocated contexts, and the contexts \<open>R\<close> and
  bands \<open>B\<close> of the roles: the allocated contexts are those in the queues, each in one; a role map has exactly the roles that point
  to the context, which are in its band; and no context is without a role.
\<close>

definition ctx_rel ::
  "(nat \<Rightarrow> ptr list) \<Rightarrow> (nat \<Rightarrow> int) \<Rightarrow> (ptr \<Rightarrow> u8w option) \<Rightarrow> (nat \<Rightarrow> ptr option) \<Rightarrow> (nat \<Rightarrow> nat) \<Rightarrow> bool" where
  "ctx_rel Q N H R B \<longleftrightarrow>
     (\<forall>b. distinct (Q b) \<and> N b = int (length (Q b)) \<and> length (Q b) \<le> MAX_CHANCTX_QUEUE_NUM) \<and>
     (\<forall>b b' p. p \<in> set (Q b) \<longrightarrow> p \<in> set (Q b') \<longrightarrow> b = b') \<and>
     (\<forall>p. H p \<noteq> None \<longleftrightarrow> (\<exists>b. p \<in> set (Q b))) \<and>
     (\<forall>r p. R r = Some p \<longrightarrow> r < MAX_WIFI_ROLE_NUMBER \<and> p \<in> set (Q (B r))) \<and>
     (\<forall>p m. H p = Some m \<longrightarrow> (\<forall>r. bit m r \<longleftrightarrow> R r = Some p)) \<and>
     (\<forall>b p. p \<in> set (Q b) \<longrightarrow> (\<exists>r. R r = Some p))"

definition role_maps :: "chan_state \<Rightarrow> ptr \<Rightarrow> u8w option" where
  "role_maps st p = map_option ctx_role_map (ctx_heap st p)"

definition chan_inv :: "chan_state \<Rightarrow> bool" where
  "chan_inv st \<longleftrightarrow> ctx_rel (ctxq st) (phl_mr_get_chanctx_num st) (role_maps st) (\<lambda>r. r_chanctx (wifi_roles st r)) (\<lambda>r. r_hw_band (wifi_roles st r))"

lemma max_role_lt_8: "r < MAX_WIFI_ROLE_NUMBER \<Longrightarrow> r < 8"
  by (simp add: MAX_WIFI_ROLE_NUMBER_def)

lemma bit_set_role: "r < MAX_WIFI_ROLE_NUMBER \<Longrightarrow> bit (set_bit r m :: u8w) n \<longleftrightarrow> n = r \<or> bit m n"
  using max_role_lt_8 [of r] by (auto simp: bit_set_bit_iff)

lemma bit_unset_role: "bit (unset_bit r m :: u8w) n \<longleftrightarrow> n \<noteq> r \<and> bit m n"
  by (auto simp: bit_unset_bit_iff)

lemma ctx_relI:
  assumes "\<And>b. distinct (Q b)" "\<And>b. N b = int (length (Q b))" "\<And>b. length (Q b) \<le> MAX_CHANCTX_QUEUE_NUM"
    and "\<And>b b' p. p \<in> set (Q b) \<Longrightarrow> p \<in> set (Q b') \<Longrightarrow> b = b'"
    and "\<And>p. H p \<noteq> None \<longleftrightarrow> (\<exists>b. p \<in> set (Q b))"
    and "\<And>r p. R r = Some p \<Longrightarrow> r < MAX_WIFI_ROLE_NUMBER \<and> p \<in> set (Q (B r))"
    and "\<And>p m r. H p = Some m \<Longrightarrow> bit m r \<longleftrightarrow> R r = Some p"
    and "\<And>b p. p \<in> set (Q b) \<Longrightarrow> \<exists>r. R r = Some p"
  shows "ctx_rel Q N H R B"
  using assms unfolding ctx_rel_def by blast

lemma ctx_relD:
  assumes "ctx_rel Q N H R B"
  shows "distinct (Q b)" "N b = int (length (Q b))" "length (Q b) \<le> MAX_CHANCTX_QUEUE_NUM"
    and "p \<in> set (Q b) \<Longrightarrow> p \<in> set (Q b') \<Longrightarrow> b = b'"
    and "H p \<noteq> None \<longleftrightarrow> (\<exists>b. p \<in> set (Q b))"
    and "R r = Some p \<Longrightarrow> r < MAX_WIFI_ROLE_NUMBER \<and> p \<in> set (Q (B r))"
    and "H p = Some m \<Longrightarrow> bit m r \<longleftrightarrow> R r = Some p"
    and "p \<in> set (Q b) \<Longrightarrow> \<exists>r. R r = Some p"
  using assms unfolding ctx_rel_def by blast+

lemma ctx_rel_create:
  assumes rel: "ctx_rel Q N H R B" and "R r = None" "r < MAX_WIFI_ROLE_NUMBER" "H p = None" "length (Q b) < 2" "b = B r"
  shows "ctx_rel (Q(b := Q b @ [p])) (N(b := N b + 1)) (H(p := Some (set_bit r 0))) (R(r := Some p)) B"
proof -
  have new: "p \<notin> set (Q c)" for c using ctx_relD(5) [OF rel, of p] assms(4) by blast
  have none: "R r' \<noteq> Some p" for r' using ctx_relD(6) [OF rel] new by blast
  show ?thesis
  proof (rule ctx_relI)
    fix b1 show "distinct ((Q(b := Q b @ [p])) b1)" using ctx_relD(1) [OF rel] new by simp
    show "(N(b := N b + 1)) b1 = int (length ((Q(b := Q b @ [p])) b1))" using ctx_relD(2) [OF rel] by simp
    show "length ((Q(b := Q b @ [p])) b1) \<le> MAX_CHANCTX_QUEUE_NUM" using ctx_relD(3) [OF rel] assms(5) by (simp add: MAX_CHANCTX_QUEUE_NUM_def)
  next
    fix b1 b2 q assume "q \<in> set ((Q(b := Q b @ [p])) b1)" "q \<in> set ((Q(b := Q b @ [p])) b2)"
    then show "b1 = b2" using ctx_relD(4) [OF rel] new by (auto split: if_splits)
  next
    fix q show "(H(p := Some (set_bit r 0))) q \<noteq> None \<longleftrightarrow> (\<exists>b1. q \<in> set ((Q(b := Q b @ [p])) b1))"
      using ctx_relD(5) [OF rel, of q] by auto
  next
    fix r1 q assume "(R(r := Some p)) r1 = Some q"
    then show "r1 < MAX_WIFI_ROLE_NUMBER \<and> q \<in> set ((Q(b := Q b @ [p])) (B r1))"
      using ctx_relD(6) [OF rel, of r1 q] assms(3,6) by (auto split: if_splits)
  next
    fix q m r1 assume "(H(p := Some (set_bit r 0))) q = Some m"
    then show "bit m r1 \<longleftrightarrow> (R(r := Some p)) r1 = Some q"
      using ctx_relD(7) [OF rel, of q m r1] none assms(2) bit_set_role [OF assms(3), of 0 r1] by (cases "q = p") auto
  next
    fix b1 q assume "q \<in> set ((Q(b := Q b @ [p])) b1)"
    then consider "q = p" | "q \<in> set (Q b1)" by (auto split: if_splits)
    then show "\<exists>r1. (R(r := Some p)) r1 = Some q"
    proof cases
      case 2
      then obtain r1 where "R r1 = Some q" using ctx_relD(8) [OF rel] by blast
      then show ?thesis using assms(2) by (intro exI [of _ r1]) auto
    qed auto
  qed
qed

text \<open>A role that joins or leaves a context that has other roles only changes the role map.\<close>

lemma ctx_rel_roles:
  assumes rel: "ctx_rel Q N H R B" and "H p \<noteq> None" and "\<And>r p. R' r = Some p \<Longrightarrow> r < MAX_WIFI_ROLE_NUMBER \<and> p \<in> set (Q (B r))"
    and "\<And>r. bit m r \<longleftrightarrow> R' r = Some p" and "\<And>r q. q \<noteq> p \<Longrightarrow> R' r = Some q \<longleftrightarrow> R r = Some q" and "R' k = Some p"
  shows "ctx_rel Q N (H(p := Some m)) R' B"
proof (rule ctx_relI)
  fix q show "(H(p := Some m)) q \<noteq> None \<longleftrightarrow> (\<exists>b. q \<in> set (Q b))" using ctx_relD(5) [OF rel, of q] assms(2) by auto
next
  fix q m' r assume "(H(p := Some m)) q = Some m'"
  then show "bit m' r \<longleftrightarrow> R' r = Some q" using ctx_relD(7) [OF rel, of q m' r] assms(4,5) by (cases "q = p") auto
next
  fix b q assume "q \<in> set (Q b)"
  then show "\<exists>r. R' r = Some q" using ctx_relD(8) [OF rel, of q b] assms(5,6) by (cases "q = p") blast+
qed (use ctx_relD [OF rel] assms(3) in auto)

lemma ctx_rel_join:
  assumes rel: "ctx_rel Q N H R B" and "R r = None" "r < MAX_WIFI_ROLE_NUMBER" "H p = Some m" "p \<in> set (Q (B r))"
  shows "ctx_rel Q N (H(p := Some (set_bit r m))) (R(r := Some p)) B"
proof (rule ctx_rel_roles [OF rel])
  fix r1 q assume "(R(r := Some p)) r1 = Some q"
  then show "r1 < MAX_WIFI_ROLE_NUMBER \<and> q \<in> set (Q (B r1))" using ctx_relD(6) [OF rel, of r1 q] assms(3,5) by (auto split: if_splits)
next
  fix r1 show "bit (set_bit r m) r1 \<longleftrightarrow> (R(r := Some p)) r1 = Some p"
    using ctx_relD(7) [OF rel assms(4)] assms(3) by (simp add: bit_set_role)
qed (use assms in auto)

lemma ctx_rel_leave:
  assumes rel: "ctx_rel Q N H R B" and "R r = Some p" "H p = Some m" "R k = Some p" "k \<noteq> r"
  shows "ctx_rel Q N (H(p := Some (unset_bit r m))) (R(r := None)) B"
proof (rule ctx_rel_roles [OF rel])
  fix r1 q assume "(R(r := None)) r1 = Some q"
  then show "r1 < MAX_WIFI_ROLE_NUMBER \<and> q \<in> set (Q (B r1))" using ctx_relD(6) [OF rel, of r1 q] by (auto split: if_splits)
next
  fix r1 show "bit (unset_bit r m) r1 \<longleftrightarrow> (R(r := None)) r1 = Some p"
    using ctx_relD(7) [OF rel assms(3)] by (simp add: bit_unset_role)
qed (use assms in auto)

lemma ctx_rel_last:
  assumes rel: "ctx_rel Q N H R B" and "R r = Some p" and only: "\<And>r'. R r' = Some p \<Longrightarrow> r' = r" and "b = B r"
  shows "ctx_rel (Q(b := remove1 p (Q b))) (N(b := N b - 1)) (H(p := None)) (R(r := None)) B"
proof -
  have p: "p \<in> set (Q b)" using ctx_relD(6) [OF rel assms(2)] assms(4) by simp
  note one = ctx_relD(4) [OF rel]
  have in_q: "q \<in> set ((Q(b := remove1 p (Q b))) c) \<longleftrightarrow> q \<noteq> p \<and> q \<in> set (Q c)" for q c
    using ctx_relD(1) [OF rel, of b] one [OF p] by (cases "c = b") (auto simp: set_remove1_eq)
  show ?thesis
  proof (rule ctx_relI)
    fix c show "distinct ((Q(b := remove1 p (Q b))) c)" using ctx_relD(1) [OF rel] by simp
    show "(N(b := N b - 1)) c = int (length ((Q(b := remove1 p (Q b))) c))"
      using ctx_relD(2) [OF rel] p length_pos_if_in_set [OF p] by (simp add: length_remove1 of_nat_diff Suc_leI)
    show "length ((Q(b := remove1 p (Q b))) c) \<le> MAX_CHANCTX_QUEUE_NUM"
      using ctx_relD(3) [OF rel, of c] by (cases "c = b") (auto simp: length_remove1)
  next
    fix c d q assume "q \<in> set ((Q(b := remove1 p (Q b))) c)" "q \<in> set ((Q(b := remove1 p (Q b))) d)"
    then show "c = d" using one unfolding in_q by blast
  next
    fix q show "(H(p := None)) q \<noteq> None \<longleftrightarrow> (\<exists>c. q \<in> set ((Q(b := remove1 p (Q b))) c))"
      unfolding in_q using ctx_relD(5) [OF rel, of q] by auto
  next
    fix r1 q assume "(R(r := None)) r1 = Some q"
    then show "r1 < MAX_WIFI_ROLE_NUMBER \<and> q \<in> set ((Q(b := remove1 p (Q b))) (B r1))"
      unfolding in_q using ctx_relD(6) [OF rel, of r1 q] only [of r1] by (auto split: if_splits)
  next
    fix q m r1 assume "(H(p := None)) q = Some m"
    then show "bit m r1 \<longleftrightarrow> (R(r := None)) r1 = Some q"
      using ctx_relD(7) [OF rel, of q m r1] assms(2) by (auto split: if_splits)
  next
    fix c q assume "q \<in> set ((Q(b := remove1 p (Q b))) c)"
    then show "\<exists>r1. (R(r := None)) r1 = Some q"
      unfolding in_q using ctx_relD(8) [OF rel, of q c] assms(2) by force
  qed
qed

section \<open>Every operation keeps the relation\<close>

lemma chan_state_simps [simp]:
  "ctx_heap (set_queue b q n st) = ctx_heap st" "wifi_roles (set_queue b q n st) = wifi_roles st" "is_sb (set_queue b q n st) = is_sb st"
  "ctx_heap (set_op_mode b m st) = ctx_heap st" "wifi_roles (set_op_mode b m st) = wifi_roles st" "is_sb (set_op_mode b m st) = is_sb st"
  "ctx_heap (set_ctx p x st) = (ctx_heap st)(p := x)" "wifi_roles (set_ctx p x st) = wifi_roles st" "is_sb (set_ctx p x st) = is_sb st"
  "band_ctrl (set_ctx p x st) = band_ctrl st"
  "ctx_heap (set_role_ctx r y st) = ctx_heap st" "band_ctrl (set_role_ctx r y st) = band_ctrl st" "is_sb (set_role_ctx r y st) = is_sb st"
  by (simp_all add: set_queue_def set_op_mode_def set_ctx_def set_role_ctx_def)

lemma ctxq_simps [simp]:
  "queue (chan_ctx_queue (band_ctrl (set_queue b q n st) c)) = ((ctxq st)(b := q)) c"
  "queue (chan_ctx_queue (band_ctrl (set_op_mode b m st) c)) = ctxq st c"
  "op_mode (band_ctrl (set_op_mode b m st) c) = (if c = b then m else op_mode (band_ctrl st c))"
  "op_mode (band_ctrl (set_queue b q n st) c) = op_mode (band_ctrl st c)"
  by (simp_all add: set_queue_def set_op_mode_def)

lemma num_simps [simp]:
  "phl_mr_get_chanctx_num (set_queue b q n st) = (phl_mr_get_chanctx_num st)(b := n)"
  "phl_mr_get_chanctx_num (set_op_mode b m st) = phl_mr_get_chanctx_num st"
  "phl_mr_get_chanctx_num (set_ctx p x st) = phl_mr_get_chanctx_num st"
  "phl_mr_get_chanctx_num (set_role_ctx r y st) = phl_mr_get_chanctx_num st"
  by (auto simp: phl_mr_get_chanctx_num_def set_queue_def set_op_mode_def set_ctx_def set_role_ctx_def fun_eq_iff)

lemma role_simps [simp]:
  "r_chanctx (wifi_roles (set_role_ctx r y st) k) = ((\<lambda>k. r_chanctx (wifi_roles st k))(r := y)) k"
  "r_hw_band (wifi_roles (set_role_ctx r y st) k) = r_hw_band (wifi_roles st k)"
  "r_chandef (wifi_roles (set_role_ctx r y st) k) = r_chandef (wifi_roles st k)"
  by (simp_all add: set_role_ctx_def)

lemma role_maps_simps [simp]:
  "role_maps (set_queue b q n st) = role_maps st" "role_maps (set_op_mode b m st) = role_maps st"
  "role_maps (set_role_ctx r y st) = role_maps st" "role_maps (set_ctx p x st) = (role_maps st)(p := map_option ctx_role_map x)"
  by (auto simp: role_maps_def fun_eq_iff)

text \<open>The parts of the relation, for a state.\<close>

lemma chan_invD:
  assumes "chan_inv st"
  shows "distinct (ctxq st b)" "phl_mr_get_chanctx_num st b = int (length (ctxq st b))" "length (ctxq st b) \<le> 2"
    "p \<in> set (ctxq st b) \<Longrightarrow> \<exists>x. ctx_heap st p = Some x"
    "r_chanctx (wifi_roles st r) = Some p \<Longrightarrow> r < MAX_WIFI_ROLE_NUMBER \<and> p \<in> set (ctxq st (r_hw_band (wifi_roles st r)))"
    "ctx_heap st p = Some x \<Longrightarrow> bit (ctx_role_map x) r \<longleftrightarrow> r_chanctx (wifi_roles st r) = Some p"
    "p \<in> set (ctxq st b) \<Longrightarrow> \<exists>r. r_chanctx (wifi_roles st r) = Some p"
    "ctx_heap st p \<noteq> None \<longleftrightarrow> (\<exists>b. p \<in> set (ctxq st b))"
  using ctx_relD [OF assms [unfolded chan_inv_def]] by (auto simp: role_maps_def MAX_CHANCTX_QUEUE_NUM_def)

lemma inv_op_mode [simp]: "chan_inv (set_op_mode b m st) \<longleftrightarrow> chan_inv st"
  by (simp add: chan_inv_def)

text \<open>Only the role map of a context matters.\<close>

lemma inv_set_def:
  assumes "chan_inv st" "ctx_heap st p = Some x"
  shows "chan_inv (set_ctx p (Some (x\<lparr>ctx_def := d\<rparr>)) st)"
proof -
  have "role_maps (set_ctx p (Some (x\<lparr>ctx_def := d\<rparr>)) st) = role_maps st" using assms(2) by (auto simp: role_maps_def fun_eq_iff)
  then show ?thesis using assms(1) by (simp add: chan_inv_def)
qed

definition joined :: "nat \<Rightarrow> chan_state \<Rightarrow> chan_state \<Rightarrow> bool" where
  "joined r st st' \<longleftrightarrow> chan_inv st' \<and> r_chanctx (wifi_roles st' r) \<noteq> None \<and> r_hw_band (wifi_roles st' r) = r_hw_band (wifi_roles st r)"

text \<open>The outcome of adding a role: it is in a context of its band, or not, and the relation holds.\<close>

definition added :: "nat \<Rightarrow> chan_state \<Rightarrow> chan_state \<Rightarrow> bool \<Rightarrow> bool" where
  "added r st st' ok \<longleftrightarrow> chan_inv st' \<and> (ok \<longrightarrow> joined r st st')"

lemma inv_rmap_set:
  assumes "chan_inv st" "r < MAX_WIFI_ROLE_NUMBER" "r_chanctx (wifi_roles st r) = None" "p \<in> set (ctxq st (r_hw_band (wifi_roles st r)))"
  shows "\<exists>st'. phl_chanctx_rmap_set r p st = Some st' \<and> joined r st st'"
proof -
  obtain x where x: "ctx_heap st p = Some x" using chan_invD(4) [OF assms(1,4)] by blast
  then have "role_maps st p = Some (ctx_role_map x)" by (simp add: role_maps_def)
  from ctx_rel_join [OF assms(1) [unfolded chan_inv_def] assms(3,2) this assms(4)] x show ?thesis
    by (simp add: phl_chanctx_rmap_set_def chan_inv_def joined_def fun_upd_def)
qed

lemma inv_create:
  assumes "chan_inv st" "r < MAX_WIFI_ROLE_NUMBER" "r_chanctx (wifi_roles st r) = None" "\<forall>p. alloc = Some p \<longrightarrow> ctx_heap st p = None"
    and "length (ctxq st (r_hw_band (wifi_roles st r))) < 2"
  obtains st' s where "phl_chanctx_create alloc r band req st = Some (st', s)" "added r st st' (s = RTW_PHL_STATUS_SUCCESS)"
proof (cases alloc)
  case None
  then show thesis using assms(1) that by (simp add: phl_chanctx_create_def added_def)
next
  case (Some p)
  then have "role_maps st p = None" using assms(4) by (simp add: role_maps_def)
  from ctx_rel_create [OF assms(1) [unfolded chan_inv_def] assms(3,2) this assms(5) refl] Some
  have "\<exists>st' s. phl_chanctx_create alloc r band req st = Some (st', s) \<and> added r st st' (s = RTW_PHL_STATUS_SUCCESS)"
    by (simp add: phl_chanctx_create_def phl_chanctx_rmap_set_def phl_chanctx_enqueue_def chan_inv_def added_def joined_def fun_upd_def Let_def
      split: prod.splits cong: if_cong)
  with that show thesis by blast
qed

lemma find_grouped_in:
  assumes "\<forall>p\<in>set ps. h p \<noteq> None"
  shows "\<exists>g. find_grouped h ps req = Some g \<and> (\<forall>p. g = Some p \<longrightarrow> p \<in> set ps)"
  using assms by (induction ps) (auto simp: Let_def split: prod.splits)

lemma inv_find_grouped:
  assumes "chan_inv st"
  shows "\<exists>g. find_grouped (ctx_heap st) (ctxq st b) req = Some g \<and> (\<forall>p. g = Some p \<longrightarrow> p \<in> set (ctxq st b))"
  using chan_invD(4) [OF assms] by (intro find_grouped_in) auto

lemma inv_join_group:
  assumes "chan_inv st" "r < MAX_WIFI_ROLE_NUMBER" "r_chanctx (wifi_roles st r) = None" "p \<in> set (ctxq st (r_hw_band (wifi_roles st r)))"
  obtains st' y where "join_group r p req st = Some (st', True, y)" "added r st st' True"
proof -
  obtain x where x: "ctx_heap st p = Some x" using chan_invD(4) [OF assms(1,4)] by blast
  obtain q g_ch g_bw g_off where adj: "phl_adjust_chandef req (cd_chan (ctx_def x), cd_bw (ctx_def x), cd_offset (ctx_def x)) = (q, g_ch, g_bw, g_off)"
    by (metis surj_pair)
  let ?d = "ctx_def x\<lparr>cd_chan := g_ch, cd_bw := g_bw, cd_offset := g_off\<rparr>"
  let ?st = "set_ctx p (Some (x\<lparr>ctx_def := ?d\<rparr>)) st"
  have "p \<in> set (ctxq ?st (r_hw_band (wifi_roles ?st r)))" using assms(4) by simp
  then obtain st' where "phl_chanctx_rmap_set r p ?st = Some st'" "joined r ?st st'"
    using inv_rmap_set [OF inv_set_def [OF assms(1) x] assms(2), of ?d p] assms(3) by auto
  then show thesis using x adj that by (simp add: join_group_def joined_def added_def)
qed

lemma inv_add_second:
  assumes "chan_inv st" "r < MAX_WIFI_ROLE_NUMBER" "r_chanctx (wifi_roles st r) = None" "\<forall>p. alloc = Some p \<longrightarrow> ctx_heap st p = None"
    and "ctxq st (r_hw_band (wifi_roles st r)) \<noteq> []"
  obtains st' ok where "add_second cap alloc r band req st = Some (st', ok)" "added r st st' ok"
proof (cases "mcc_config cap \<and> mcc_sup cap \<and> length (ctxq st (r_hw_band (wifi_roles st r))) < 2")
  case True
  obtain x where x: "ctx_heap st (last (ctxq st (r_hw_band (wifi_roles st r)))) = Some x"
    using chan_invD(4) [OF assms(1)] assms(5) last_in_set by blast
  obtain st' s where c: "phl_chanctx_create alloc r band req st = Some (st', s)" "added r st st' (s = RTW_PHL_STATUS_SUCCESS)"
    using inv_create [OF assms(1-4)] True by blast
  show thesis
  proof (cases "band \<noteq> cd_band (ctx_def x) \<and> dbcc_config cap \<and> dbcc_sup cap")
    case dbcc: True
    show thesis by (rule that [of st False]) (use assms(1,5) True x dbcc chan_invD(2) [OF assms(1)] in \<open>simp_all add: add_second_def added_def\<close>)
  next
    case mcc: False
    have n: "\<not> 2 \<le> phl_mr_get_chanctx_num st (r_hw_band (wifi_roles st r))" using True chan_invD(2) [OF assms(1)] by simp
    show thesis by (rule that [OF _ c(2)]) (use assms(5) True x c(1) mcc n in \<open>auto simp: add_second_def\<close>)
  qed
next
  case False
  then have "add_second cap alloc r band req st = Some (st, False)" using chan_invD(2) [OF assms(1)] by (auto simp: add_second_def Let_def)
  then show thesis by (rule that) (simp add: added_def assms(1))
qed

lemma inv_chanctx_add:
  assumes "chan_inv st" "r < MAX_WIFI_ROLE_NUMBER" "r_chanctx (wifi_roles st r) = None" "\<forall>p. alloc = Some p \<longrightarrow> ctx_heap st p = None"
  obtains st' ok y where "phl_chanctx_add cap alloc r req st = Some (st', ok, y)" "added r st st' ok"
proof (cases "ctxq st (r_hw_band (wifi_roles st r)) = []")
  case True
  let ?band = "if 14 < fst req then BAND_ON_5G else BAND_ON_24G"
  obtain st' s where c: "phl_chanctx_create alloc r ?band req st = Some (st', s)" "added r st st' (s = RTW_PHL_STATUS_SUCCESS)"
    using inv_create [OF assms] True by (metis length_0_conv zero_less_numeral)
  have n: "phl_mr_get_chanctx_num st (r_hw_band (wifi_roles st r)) = 0" using True chan_invD(2) [OF assms(1)] by simp
  have "phl_chanctx_add cap alloc r req st = Some (st', s = RTW_PHL_STATUS_SUCCESS, req)"
    unfolding phl_chanctx_add_def Let_def n c(1) by simp
  then show thesis using c(2) by (rule that)
next
  case False
  then have n: "phl_mr_get_chanctx_num st (r_hw_band (wifi_roles st r)) \<noteq> 0" using chan_invD(2) [OF assms(1)] by simp
  obtain g where g: "find_grouped (ctx_heap st) (ctxq st (r_hw_band (wifi_roles st r))) req = Some g"
    "\<forall>p. g = Some p \<longrightarrow> p \<in> set (ctxq st (r_hw_band (wifi_roles st r)))"
    using inv_find_grouped [OF assms(1)] by blast
  show thesis
  proof (cases g)
    case None
    let ?band = "if 14 < fst req then BAND_ON_5G else BAND_ON_24G"
    obtain st' ok where c: "add_second cap alloc r ?band req st = Some (st', ok)" "added r st st' ok" using inv_add_second [OF assms False] by blast
    have "phl_chanctx_add cap alloc r req st = Some (st', ok, req)"
      unfolding phl_chanctx_add_def Let_def if_not_P [OF n] g(1) None by (simp add: c(1))
    then show thesis using c(2) by (rule that)
  next
    case (Some p)
    obtain st' y where c: "join_group r p req st = Some (st', True, y)" "added r st st' True" using inv_join_group [OF assms(1-3)] g(2) Some by blast
    have "phl_chanctx_add cap alloc r req st = Some (st', True, y)"
      unfolding phl_chanctx_add_def Let_def if_not_P [OF n] g(1) Some by (simp add: c(1))
    then show thesis using c(2) by (rule that)
  qed
qed

text \<open>What the mode of a band should be.\<close>

definition band_mode :: "chan_state \<Rightarrow> nat \<Rightarrow> mr_op_mode" where
  "band_mode st b =
     (if length (ctxq st b) = 2 then MR_OP_MCC
      else if 2 \<le> card {r. r_chanctx (wifi_roles st r) \<in> Some ` set (ctxq st b)} then MR_OP_SCC
      else MR_OP_NON)"

lemma rnum_card:
  assumes "chan_inv st" "ctx_heap st p = Some x"
  shows "phl_chanctx_get_rnum x = card {r. r_chanctx (wifi_roles st r) = Some p}"
proof -
  have "{r. r_chanctx (wifi_roles st r) = Some p} = set (filter (\<lambda>i. bit (ctx_role_map x) i) [0..<MAX_WIFI_ROLE_NUMBER])"
    using chan_invD(5) [OF assms(1), of _ p] chan_invD(6) [OF assms] by auto
  then show ?thesis unfolding phl_chanctx_get_rnum_def by (metis distinct_card distinct_filter distinct_upt)
qed

lemma band_mode_one:
  assumes "chan_inv st" "ctxq st b = [p]" "ctx_heap st p = Some x"
  shows "band_mode st b = (if 2 \<le> phl_chanctx_get_rnum x then MR_OP_SCC else MR_OP_NON)"
  using assms rnum_card [OF assms(1,3)] by (simp add: band_mode_def)

lemma band_mode_none: "ctxq st b = [] \<Longrightarrow> band_mode st b = MR_OP_NON"
  by (simp add: band_mode_def)

lemma band_mode_op_mode [simp]: "band_mode (set_op_mode c m st) b = band_mode st b"
  by (simp add: band_mode_def)

text \<open>The three lengths a queue of contexts can have.\<close>

lemma ctxq_cases [consumes 1, case_names none one two]:
  assumes "chan_inv st"
  obtains (none) "ctxq st b = []" "phl_mr_get_chanctx_num st b = 0" "band_mode st b = MR_OP_NON"
    | (one) p x where "ctxq st b = [p]" "ctx_heap st p = Some x" "phl_mr_get_chanctx_num st b = 1"
        "band_mode st b = (if 2 \<le> phl_chanctx_get_rnum x then MR_OP_SCC else MR_OP_NON)" "1 \<le> phl_chanctx_get_rnum x"
    | (two) p q where "ctxq st b = [p, q]" "phl_mr_get_chanctx_num st b = 2" "band_mode st b = MR_OP_MCC"
proof -
  note len = chan_invD(2,3) [OF assms, of b]
  consider "ctxq st b = []" | p where "ctxq st b = [p]" | p q where "ctxq st b = [p, q]"
    using len(2) by (cases "ctxq st b"; cases "tl (ctxq st b)"; cases "tl (tl (ctxq st b))") auto
  then show thesis
  proof cases
    case 1
    then show thesis using none len band_mode_none [OF 1] by simp
  next
    case 2
    then obtain x where x: "ctx_heap st p = Some x" using chan_invD(4) [OF assms, of p b] by auto
    obtain r where "r_chanctx (wifi_roles st r) = Some p" using chan_invD(7) [OF assms, of p b] 2 by auto
    then have "r \<in> set (filter (\<lambda>i. bit (ctx_role_map x) i) [0..<MAX_WIFI_ROLE_NUMBER])"
      using chan_invD(5) [OF assms, of r p] chan_invD(6) [OF assms x, of r] by simp
    then have "1 \<le> phl_chanctx_get_rnum x" unfolding phl_chanctx_get_rnum_def by (metis One_nat_def Suc_leI length_pos_if_in_set)
    then show thesis using one [OF 2 x] len 2 band_mode_one [OF assms 2 x] by simp
  next
    case 3
    then show thesis using two len by (simp add: band_mode_def)
  qed
qed

lemma inv_add:
  assumes "chan_inv st" "r < MAX_WIFI_ROLE_NUMBER" "r_chanctx (wifi_roles st r) = None" "\<forall>p. alloc = Some p \<longrightarrow> ctx_heap st p = None"
  obtains st' ok y where "rtw_phl_chanctx_add cap alloc r req st = Some (st', ok, y)" "chan_inv st'"
    "ok \<longrightarrow> r_chanctx (wifi_roles st' r) \<noteq> None \<and>
      op_mode (band_ctrl st' (r_hw_band (wifi_roles st r))) = band_mode st' (r_hw_band (wifi_roles st r))"
proof -
  let ?b = "r_hw_band (wifi_roles st r)"
  obtain st1 ok y where a: "phl_chanctx_add cap alloc r req st = Some (st1, ok, y)" "added r st st1 ok" using inv_chanctx_add [OF assms] by blast
  then have inv: "chan_inv st1" by (simp add: added_def)
  consider (off) "fst req = 0 \<or> is_sb st \<and> ?b = 1" | (no) "\<not> (fst req = 0 \<or> is_sb st \<and> ?b = 1)" "\<not> ok"
    | (yes) "\<not> (fst req = 0 \<or> is_sb st \<and> ?b = 1)" "ok" by blast
  then show thesis
  proof cases
    case off
    then show thesis using that [of st False req] assms(1) by (auto simp: rtw_phl_chanctx_add_def Let_def)
  next
    case no
    then show thesis using that [of st1 False y] a inv by (auto simp: rtw_phl_chanctx_add_def Let_def)
  next
    case yes
    then have j: "r_chanctx (wifi_roles st1 r) \<noteq> None" "r_hw_band (wifi_roles st1 r) = ?b" using a by (auto simp: added_def joined_def)
    from inv show thesis
    proof (cases rule: ctxq_cases [where b = ?b])
      case none
      then show thesis using j chan_invD(5) [OF inv, of r] by force
    next
      case (one p x)
      then show thesis
        using that [of "set_op_mode ?b (band_mode st1 ?b) st1" True y] a yes inv j by (auto simp: rtw_phl_chanctx_add_def Let_def)
    next
      case (two p q)
      then show thesis
        using that [of "set_op_mode ?b (band_mode st1 ?b) st1" True y] a yes inv j by (auto simp: rtw_phl_chanctx_add_def Let_def)
    qed
  qed
qed

lemma inv_rmap_clr:
  assumes "ctx_heap st t = Some x"
  shows "phl_chanctx_rmap_clr r t st = Some (set_ctx t (Some (x\<lparr>ctx_role_map := unset_bit r (ctx_role_map x)\<rparr>)) (set_role_ctx r None st))"
  using assms by (simp add: phl_chanctx_rmap_clr_def)

lemma inv_leave:
  assumes "chan_inv st" "r_chanctx (wifi_roles st r) = Some t" "ctx_heap st t = Some x" "2 \<le> phl_chanctx_get_rnum x"
  shows "chan_inv (set_ctx t (Some (x\<lparr>ctx_role_map := unset_bit r (ctx_role_map x)\<rparr>)) (set_role_ctx r None st))"
proof -
  have "2 \<le> card {k. r_chanctx (wifi_roles st k) = Some t}" using assms(4) rnum_card [OF assms(1,3)] by simp
  then have "\<not> {k. r_chanctx (wifi_roles st k) = Some t} \<subseteq> {r}" using card_mono [of "{r}" "{k. r_chanctx (wifi_roles st k) = Some t}"] by auto
  then obtain k where "r_chanctx (wifi_roles st k) = Some t" "k \<noteq> r" by blast
  moreover have "role_maps st t = Some (ctx_role_map x)" using assms(3) by (simp add: role_maps_def)
  ultimately show ?thesis
    using ctx_rel_leave [OF assms(1) [unfolded chan_inv_def] assms(2)] by (simp add: chan_inv_def fun_upd_def)
qed

lemma inv_last:
  assumes "chan_inv st" "r_chanctx (wifi_roles st r) = Some t" "ctx_heap st t = Some x" "phl_chanctx_get_rnum x = 1" "b = r_hw_band (wifi_roles st r)"
  shows "chan_inv (set_ctx t None (set_queue b (remove1 t (ctxq st b)) (phl_mr_get_chanctx_num st b - 1) (set_ctx t y (set_role_ctx r None st))))"
proof -
  have "card {k. r_chanctx (wifi_roles st k) = Some t} = 1" using assms(4) rnum_card [OF assms(1,3)] by simp
  then obtain r0 where one: "{k. r_chanctx (wifi_roles st k) = Some t} = {r0}" by (rule card_1_singletonE)
  have "k = r" if "r_chanctx (wifi_roles st k) = Some t" for k
  proof -
    have "k \<in> {r0}" "r \<in> {r0}" unfolding one [symmetric] using that assms(2) by simp_all
    then show "k = r" by simp
  qed
  from ctx_rel_last [OF assms(1) [unfolded chan_inv_def] assms(2) this assms(5)] show ?thesis
    by (simp add: chan_inv_def fun_upd_def cong: if_cong)
qed

text \<open>The end of a deletion sets the mode of the band.\<close>

lemma del_done_mode:
  assumes "chan_inv st" and "\<And>q. length (ctxq st b) = 2 \<Longrightarrow> ctx_heap st t \<noteq> None"
  obtains d where "del_done b t st = Some (set_op_mode b (band_mode st b) st, phl_mr_get_chanctx_num st b, d)"
  using assms(1)
proof (cases rule: ctxq_cases [where b = b])
  case none
  then show thesis using that by (simp add: del_done_def)
next
  case (one p x)
  then have "(phl_chanctx_get_rnum x = 1) = (\<not> 2 \<le> phl_chanctx_get_rnum x)" by auto
  with one show thesis using that by (simp add: del_done_def)
next
  case (two p q)
  then obtain x where "ctx_heap st t = Some x" using assms(2) by auto
  with two show thesis using that by (simp add: del_done_def)
qed

lemma inv_upt:
  assumes "chan_inv st" "ctx_heap st p = Some x"
  obtains st' s where "phl_mr_chandef_upt p st = Some (st', s)" "chan_inv st'" "ctx_heap st' p \<noteq> None" "wifi_roles st' = wifi_roles st"
proof -
  obtain d s where "phl_mr_chandef_sync st x (ctx_def x) = (d, s)" by fastforce
  then have "phl_mr_chandef_upt p st = Some (set_ctx p (Some (x\<lparr>ctx_def := d\<rparr>)) st, s)" using assms(2) by (simp add: phl_mr_chandef_upt_def)
  then show thesis by (rule that) (simp_all add: inv_set_def [OF assms])
qed

lemma inv_del:
  assumes "chan_inv st"
  obtains st' n d where "rtw_phl_chanctx_del r st = Some (st', n, d)" "chan_inv st'" "r_chanctx (wifi_roles st' r) = None"
proof (cases "r_chanctx (wifi_roles st r)")
  case None
  then show thesis using that [of st 0 None] assms by (simp add: rtw_phl_chanctx_del_def)
next
  case (Some t)
  let ?b = "r_hw_band (wifi_roles st r)"
  have t: "t \<in> set (ctxq st ?b)" using chan_invD(5) [OF assms Some] by simp
  obtain x where x: "ctx_heap st t = Some x" using chan_invD(4) [OF assms t] by blast
  let ?st1 = "set_ctx t (Some (x\<lparr>ctx_role_map := unset_bit r (ctx_role_map x)\<rparr>)) (set_role_ctx r None st)"
  have n: "phl_mr_get_chanctx_num st ?b \<noteq> 0" "\<not> 2 < phl_mr_get_chanctx_num st ?b"
    using t chan_invD(2,3) [OF assms, of ?b] by auto
  have rn: "phl_chanctx_get_rnum x \<noteq> 0"
    using rnum_card [OF assms x] chan_invD(5) [OF assms, of _ t] Some
    by (metis (mono_tags, lifting) card_eq_0_iff empty_iff finite_nat_set_iff_bounded mem_Collect_eq)
  show thesis
  proof (cases "phl_chanctx_get_rnum x = 1")
    case True
    let ?st2 = "set_ctx t None (set_queue ?b (remove1 t (ctxq st ?b)) (phl_mr_get_chanctx_num st ?b - 1) ?st1)"
    have inv: "chan_inv ?st2" by (rule inv_last [OF assms Some x True refl])
    have "length (ctxq ?st2 ?b) < 2" using t chan_invD(3) [OF assms, of ?b] length_pos_if_in_set [OF t] by (simp add: length_remove1)
    then obtain d where "del_done ?b t ?st2 = Some (set_op_mode ?b (band_mode ?st2 ?b) ?st2, phl_mr_get_chanctx_num ?st2 ?b, d)"
      using del_done_mode [OF inv, of ?b t] by auto
    then have "rtw_phl_chanctx_del r st = Some (set_op_mode ?b (band_mode ?st2 ?b) ?st2, phl_mr_get_chanctx_num ?st2 ?b, d)"
      using Some x n rn True t by (simp add: rtw_phl_chanctx_del_def inv_rmap_clr phl_chanctx_del_def Let_def)
    then show thesis by (rule that) (simp_all add: inv)
  next
    case False
    have inv: "chan_inv ?st1" using inv_leave [OF assms Some x] False rn by simp
    have "ctx_heap ?st1 t = Some (x\<lparr>ctx_role_map := unset_bit r (ctx_role_map x)\<rparr>)" by simp
    then obtain st2 s where u: "phl_mr_chandef_upt t ?st1 = Some (st2, s)" "chan_inv st2" "ctx_heap st2 t \<noteq> None" "wifi_roles st2 = wifi_roles ?st1"
      by (rule inv_upt [OF inv])
    obtain d where "del_done ?b t st2 = Some (set_op_mode ?b (band_mode st2 ?b) st2, phl_mr_get_chanctx_num st2 ?b, d)"
      using del_done_mode [OF u(2), of ?b t] u(3) by auto
    then have "rtw_phl_chanctx_del r st =
        Some (if s \<noteq> RTW_PHL_STATUS_SUCCESS then (st2, phl_mr_get_chanctx_num st ?b, None)
              else (set_op_mode ?b (band_mode st2 ?b) st2, phl_mr_get_chanctx_num st2 ?b, d))"
      using u(1) Some x n rn False by (simp add: rtw_phl_chanctx_del_def inv_rmap_clr Let_def)
    moreover have "r_chanctx (wifi_roles st2 r) = None" using u(4) by simp
    ultimately show thesis using that u(2) by (cases "s = RTW_PHL_STATUS_SUCCESS") simp_all
  qed
qed

section \<open>Runs\<close>

definition chan_start :: "(nat \<Rightarrow> chan_role) \<Rightarrow> bool \<Rightarrow> chan_state" where
  "chan_start roles sb = \<lparr>ctx_heap = (\<lambda>_. None), band_ctrl = (\<lambda>_. \<lparr>op_mode = MR_OP_NON, chan_ctx_queue = pq_init\<rparr>),
     wifi_roles = (\<lambda>r. (roles r)\<lparr>r_chanctx := None\<rparr>), is_sb = sb\<rparr>"

text \<open>
  The steps: the core adds a role that has no context, with an allocation that gives fresh memory or fails; it takes a role out; it asks for an
  update of the context of a role; and it changes the channel a role wants.
\<close>

inductive chan_step :: "chan_cap \<Rightarrow> chan_state \<Rightarrow> chan_state \<Rightarrow> bool" for cap where
  add: "r < MAX_WIFI_ROLE_NUMBER \<Longrightarrow> r_chanctx (wifi_roles st r) = None \<Longrightarrow> (\<forall>p. alloc = Some p \<longrightarrow> ctx_heap st p = None) \<Longrightarrow>
    rtw_phl_chanctx_add cap alloc r req st = Some (st', ok, y) \<Longrightarrow> chan_step cap st st'"
| del: "rtw_phl_chanctx_del r st = Some (st', n, d) \<Longrightarrow> chan_step cap st st'"
| upt: "r_chanctx (wifi_roles st r) = Some p \<Longrightarrow> phl_mr_chandef_upt p st = Some (st', s) \<Longrightarrow> chan_step cap st st'"
| chandef: "chan_step cap st (st\<lparr>wifi_roles := (wifi_roles st)(r := (wifi_roles st r)\<lparr>r_chandef := d\<rparr>)\<rparr>)"

lemma inv_chandef: "chan_inv st \<Longrightarrow> chan_inv (st\<lparr>wifi_roles := (wifi_roles st)(r := (wifi_roles st r)\<lparr>r_chandef := d\<rparr>)\<rparr>)"
proof -
  let ?st = "st\<lparr>wifi_roles := (wifi_roles st)(r := (wifi_roles st r)\<lparr>r_chandef := d\<rparr>)\<rparr>"
  have "r_chanctx (wifi_roles ?st k) = r_chanctx (wifi_roles st k)" "r_hw_band (wifi_roles ?st k) = r_hw_band (wifi_roles st k)" for k by simp_all
  moreover have "role_maps ?st = role_maps st" "phl_mr_get_chanctx_num ?st = phl_mr_get_chanctx_num st"
    by (simp_all add: role_maps_def phl_mr_get_chanctx_num_def fun_eq_iff)
  ultimately show "chan_inv st \<Longrightarrow> chan_inv ?st" by (simp add: chan_inv_def)
qed

interpretation chan_runs: step_invariant "chan_step cap" chan_inv for cap
proof
  fix st st' assume inv: "chan_inv st" and step: "chan_step cap st st'"
  from step show "chan_inv st'"
  proof cases
    case (add r alloc req ok y)
    from inv_add [OF inv add(1-3), of cap req] add(4) show ?thesis by (metis option.inject prod.inject)
  next
    case (del r n d)
    from inv_del [OF inv, of r] del show ?thesis by (metis option.inject prod.inject)
  next
    case (upt r p s)
    then obtain x where "ctx_heap st p = Some x" using chan_invD(4,5) [OF inv] by blast
    from inv_upt [OF inv this] upt show ?thesis by (metis option.inject prod.inject)
  next
    case (chandef r d)
    then show ?thesis using inv_chandef [OF inv] by simp
  qed
qed

lemma inv_start: "chan_inv (chan_start roles sb)"
  unfolding chan_inv_def
  by (rule ctx_relI) (simp_all add: chan_start_def pq_init_def phl_mr_get_chanctx_num_def role_maps_def)

text \<open>
  C20: Along every run of adding, removing and updating roles the channel contexts stay consistent: the allocated contexts are exactly those
  in the queues of the bands, at most two for a band; the role map of a context has exactly the roles that point to it, which
  are roles of its band, and no context is without one. No operation meets a context that is not there, and after a role was added the mode of its band
  tells whether the band has two contexts, or one with several roles.
\<close>

theorem chan_contexts_consistent:
  assumes "(chan_step cap)\<^sup>*\<^sup>* (chan_start roles sb) st"
  shows "chan_inv st \<and> rtw_phl_chanctx_del r st \<noteq> None \<and> rtw_phl_chanctx_chk cap r req st \<noteq> None \<and>
    (r < MAX_WIFI_ROLE_NUMBER \<and> r_chanctx (wifi_roles st r) = None \<and> (\<forall>p. alloc = Some p \<longrightarrow> ctx_heap st p = None) \<longrightarrow>
      (\<exists>st' ok y. rtw_phl_chanctx_add cap alloc r req st = Some (st', ok, y) \<and>
        (ok \<longrightarrow> r_chanctx (wifi_roles st' r) \<noteq> None \<and>
           op_mode (band_ctrl st' (r_hw_band (wifi_roles st r))) = band_mode st' (r_hw_band (wifi_roles st r)))))"
proof (intro conjI impI)
  show inv: "chan_inv st" by (rule chan_runs.run_inv [OF assms inv_start])
  from inv_del [OF inv, of r] show "rtw_phl_chanctx_del r st \<noteq> None" by (metis option.distinct(1))
  from inv_find_grouped [OF inv, of "r_hw_band (wifi_roles st r)" req] show "rtw_phl_chanctx_chk cap r req st \<noteq> None"
    by (auto simp: rtw_phl_chanctx_chk_def Let_def)
  assume "r < MAX_WIFI_ROLE_NUMBER \<and> r_chanctx (wifi_roles st r) = None \<and> (\<forall>p. alloc = Some p \<longrightarrow> ctx_heap st p = None)"
  then show "\<exists>st' ok y. rtw_phl_chanctx_add cap alloc r req st = Some (st', ok, y) \<and>
        (ok \<longrightarrow> r_chanctx (wifi_roles st' r) \<noteq> None \<and>
           op_mode (band_ctrl st' (r_hw_band (wifi_roles st r))) = band_mode st' (r_hw_band (wifi_roles st r)))"
    using inv_add [OF inv, of r alloc cap req] by metis
qed

definition ex_cap :: chan_cap where
  "ex_cap = \<lparr>mcc_config = False, mcc_sup = False, dbcc_config = True, dbcc_sup = False\<rparr>"

definition ex_chan_start :: chan_state where
  "ex_chan_start = chan_start (\<lambda>_. \<lparr>r_hw_band = 0, r_chanctx = None, r_chandef = zero_chan_def\<rparr>) False"

definition ex_chan_state :: chan_state where
  "ex_chan_state = fst (the (rtw_phl_chanctx_add ex_cap (Some 7) 0 (6, CHANNEL_WIDTH_20, CHAN_OFFSET_NO_EXT) ex_chan_start))"

lemma ex_chan_added: "\<exists>y. rtw_phl_chanctx_add ex_cap (Some 7) 0 (6, CHANNEL_WIDTH_20, CHAN_OFFSET_NO_EXT) ex_chan_start = Some (ex_chan_state, True, y)"
  by (simp add: ex_chan_state_def ex_chan_start_def chan_start_def rtw_phl_chanctx_add_def phl_chanctx_add_def phl_mr_get_chanctx_num_def pq_init_def
    phl_chanctx_create_def phl_chanctx_rmap_set_def phl_chanctx_enqueue_def set_queue_def set_ctx_def set_role_ctx_def)

theorem chan_contexts_consistent_witness:
  "(chan_step ex_cap)\<^sup>*\<^sup>* ex_chan_start ex_chan_state \<and> chan_inv ex_chan_state \<and> rtw_phl_chanctx_del 0 ex_chan_state \<noteq> None \<and>
   r_chanctx (wifi_roles ex_chan_state 0) = Some 7"
proof -
  obtain y where y: "rtw_phl_chanctx_add ex_cap (Some 7) 0 (6, CHANNEL_WIDTH_20, CHAN_OFFSET_NO_EXT) ex_chan_start = Some (ex_chan_state, True, y)"
    using ex_chan_added by blast
  have "chan_step ex_cap ex_chan_start ex_chan_state"
    by (rule chan_step.add [OF _ _ _ y]) (simp_all add: ex_chan_start_def chan_start_def MAX_WIFI_ROLE_NUMBER_def)
  then have run: "(chan_step ex_cap)\<^sup>*\<^sup>* ex_chan_start ex_chan_state" by blast
  moreover have "r_chanctx (wifi_roles ex_chan_state 0) = Some 7"
    by (simp add: ex_chan_state_def ex_chan_start_def chan_start_def rtw_phl_chanctx_add_def phl_chanctx_add_def phl_mr_get_chanctx_num_def pq_init_def
      phl_chanctx_create_def phl_chanctx_rmap_set_def phl_chanctx_enqueue_def set_queue_def set_ctx_def set_role_ctx_def set_op_mode_def)
  ultimately show ?thesis
    using chan_contexts_consistent [OF run [unfolded ex_chan_start_def], of 0 "(6, CHANNEL_WIDTH_20, CHAN_OFFSET_NO_EXT)" None] by blast
qed

section \<open>Contexts that are gone\<close>

text \<open>
  After \<^verbatim>\<open>rtw_phl_chanctx_del_no_self\<close> took away the only context of a band, the next operation of a role that was in it accesses the freed
  context.
\<close>

lemma del_no_self_dangles:
  assumes "chan_inv st" "ctxq st (r_hw_band (wifi_roles st r)) = [p]" "r_chanctx (wifi_roles st k) = Some p"
  shows "\<exists>st'. rtw_phl_chanctx_del_no_self r st = Some (st', RTW_PHL_STATUS_SUCCESS) \<and> rtw_phl_chanctx_del k st' = None \<and>
    phl_mr_get_chandef k sync cd st' = None"
  using assms chan_invD(2) [OF assms(1), of "r_hw_band (wifi_roles st r)"]
  by (simp add: rtw_phl_chanctx_del_no_self_def phl_chanctx_del_def rtw_phl_chanctx_del_def phl_mr_get_chandef_def Let_def)

section \<open>Joining a group\<close>

lemma adjust_group:
  assumes "phl_adjust_chandef (ch, bw, offset) (g_ch, g_bw, g_off) = (req', g_ch', g_bw', g_off')"
  shows "g_ch' = g_ch" "g_bw \<le> g_bw'" "fst req' = g_ch" "fst (snd req') \<le> g_bw'" "wide g_bw \<Longrightarrow> wide g_bw' \<Longrightarrow> g_off' = g_off"
  using assms by (auto simp: phl_adjust_chandef_def Let_def wide_def chan_codes split: if_splits option.splits)

text \<open>The bandwidth of a group grows with a role that joins, but the centre channel of the group stays what it was.\<close>

lemma join_keeps_center:
  assumes "ctx_heap st p = Some x" "join_group r p req st = Some (st', ok, ch, bw, offset)"
  shows "\<exists>x'. ctx_heap st' p = Some x' \<and> cd_chan (ctx_def x') = cd_chan (ctx_def x) \<and> cd_bw (ctx_def x) \<le> cd_bw (ctx_def x') \<and>
    (ch, bw, offset) = (cd_chan (ctx_def x'), cd_bw (ctx_def x'), cd_offset (ctx_def x')) \<and> cd_center_ch (ctx_def x') = cd_center_ch (ctx_def x)"
proof -
  obtain c w f where req: "req = (c, w, f)" by (metis prod_cases3)
  obtain q g_ch g_bw g_off where adj: "phl_adjust_chandef req (cd_chan (ctx_def x), cd_bw (ctx_def x), cd_offset (ctx_def x)) = (q, g_ch, g_bw, g_off)"
    by (metis surj_pair)
  from assms(2) show ?thesis
    using adjust_group(1,2) [OF adj [unfolded req]] assms(1) adj by (auto simp: join_group_def phl_chanctx_rmap_set_def Let_def)
qed

section \<open>The widest channel of the roles\<close>

lemma sync_roles_widest:
  assumes "sync_roles roles rs (Some (band, ch, bw, offset)) = Some (band', ch', bw', offset')"
  shows "band' = band \<and> ch' = ch \<and> bw \<le> bw' \<and> (bw' = bw \<longrightarrow> offset' = offset) \<and> (bw' = bw \<or> (\<exists>r\<in>set rs. cd_bw (r_chandef (roles r)) = bw')) \<and>
    (\<forall>r\<in>set rs. cd_band (r_chandef (roles r)) = band \<and> cd_chan (r_chandef (roles r)) = ch \<and> cd_bw (r_chandef (roles r)) \<le> bw' \<and>
       (cd_bw (r_chandef (roles r)) = bw' \<longrightarrow> cd_offset (r_chandef (roles r)) = offset'))"
  using assms
proof (induction rs arbitrary: bw offset)
  case (Cons r rs)
  let ?d = "r_chandef (roles r)"
  have d: "cd_band ?d = band" "cd_chan ?d = ch" using Cons.prems by (auto simp: Let_def split: if_splits)
  show ?case
  proof (cases "bw < cd_bw ?d")
    case True
    then have "sync_roles roles rs (Some (band, ch, cd_bw ?d, cd_offset ?d)) = Some (band', ch', bw', offset')"
      using Cons.prems d by (simp add: Let_def)
    from Cons.IH [OF this] show ?thesis using True d by auto
  next
    case False
    then have s: "sync_roles roles rs (Some (band, ch, bw, offset)) = Some (band', ch', bw', offset')" "bw = cd_bw ?d \<longrightarrow> offset = cd_offset ?d"
      using Cons.prems d by (auto simp: Let_def split: if_splits)
    from Cons.IH [OF s(1)] show ?thesis using False d s(2) by auto
  qed
qed simp

text \<open>The synchronised channel of a context is that of its widest roles.\<close>

lemma chandef_sync_widest:
  assumes "phl_mr_chandef_sync st x cd = (cd', RTW_PHL_STATUS_SUCCESS)"
  shows "(\<exists>k\<in>set (roles_of x). cd_bw cd' = cd_bw (r_chandef (wifi_roles st k))) \<and>
    (\<forall>r\<in>set (roles_of x). let d = r_chandef (wifi_roles st r) in
      cd_band cd' = cd_band d \<and> cd_chan cd' = cd_chan d \<and> cd_bw d \<le> cd_bw cd' \<and> (cd_bw d = cd_bw cd' \<longrightarrow> cd_offset d = cd_offset cd'))"
proof -
  obtain band ch bw offset where s: "sync_roles (wifi_roles st) (roles_of x) None = Some (band, ch, bw, offset)"
    and cd: "cd' = cd\<lparr>cd_band := band, cd_chan := ch, cd_bw := bw, cd_offset := offset\<rparr>"
    using assms by (auto simp: phl_mr_chandef_sync_def split: option.splits)
  obtain r rs where rs: "roles_of x = r # rs" using s by (cases "roles_of x") auto
  let ?d = "\<lambda>k. r_chandef (wifi_roles st k)"
  have "sync_roles (wifi_roles st) rs (Some (cd_band (?d r), cd_chan (?d r), cd_bw (?d r), cd_offset (?d r))) = Some (band, ch, bw, offset)"
    using s rs by (simp add: Let_def)
  note w = sync_roles_widest [OF this]
  have "\<exists>k\<in>set (r # rs). bw = cd_bw (?d k)" using w by auto
  moreover have "band = cd_band (?d k) \<and> ch = cd_chan (?d k) \<and> cd_bw (?d k) \<le> bw \<and> (cd_bw (?d k) = bw \<longrightarrow> cd_offset (?d k) = offset)" if "k \<in> set (r # rs)" for k
    using w that by (cases "k = r") auto
  ultimately show ?thesis unfolding cd rs Let_def by simp
qed

section \<open>Operating classes\<close>

lemma class_of_bw:
  assumes "rtw_phl_get_operating_class cd \<noteq> 0"
  obtains (bw20) "cd_bw cd = CHANNEL_WIDTH_20" "rtw_phl_get_operating_class cd \<in> {81, 82, 115, 118, 121, 125}"
  | (upper) "cd_bw cd = CHANNEL_WIDTH_40" "cd_offset cd = CHAN_OFFSET_UPPER" "rtw_phl_get_operating_class cd \<in> {83, 116, 119, 122, 126}"
  | (lower) "cd_bw cd = CHANNEL_WIDTH_40" "cd_offset cd = CHAN_OFFSET_LOWER" "rtw_phl_get_operating_class cd \<in> {84, 117, 120, 123, 127}"
  | (bw80) "cd_bw cd = CHANNEL_WIDTH_80" "rtw_phl_get_operating_class cd = 128"
  | (bw160) "cd_bw cd = CHANNEL_WIDTH_160" "rtw_phl_get_operating_class cd = 129" "cd_center_ch cd \<in> {50, 114}"
  using assms unfolding rtw_phl_get_operating_class_def Let_def by (simp split: if_splits)

lemma center_80: "rtw_phl_get_center_ch ch CHANNEL_WIDTH_80 f = rtw_phl_get_center_ch ch CHANNEL_WIDTH_80 g"
  by (simp add: rtw_phl_get_center_ch_def chan_codes)

text \<open>
  C40: The operating class of a channel leads back to the channel with its bandwidth, its secondary channel for 40 MHz, and its centre; except that
  for the class of 160 MHz the centre is not found: the primary channel is given instead.
\<close>

theorem class_roundtrip:
  assumes "rtw_phl_get_operating_class cd \<noteq> 0" and "cd_center_ch cd = rtw_phl_get_center_ch (cd_chan cd) (cd_bw cd) (cd_offset cd)"
    and "cd_chan cd \<noteq> 50" "cd_chan cd \<noteq> 114"
  shows "\<exists>d. rtw_phl_get_chandef_from_operating_class (cd_chan cd) (rtw_phl_get_operating_class cd) init = (d, True) \<and>
    cd_chan d = cd_chan cd \<and> cd_bw d = cd_bw cd \<and> (cd_bw cd = CHANNEL_WIDTH_40 \<longrightarrow> cd_offset d = cd_offset cd) \<and>
    (if cd_bw cd = CHANNEL_WIDTH_160 then cd_center_ch d = cd_chan cd \<and> cd_center_ch d \<noteq> cd_center_ch cd else cd_center_ch d = cd_center_ch cd)"
  using assms(1)
proof (cases rule: class_of_bw)
  case bw20
  then show ?thesis
    using assms(2) by (auto simp: rtw_phl_get_chandef_from_operating_class_def set_chandef_def rtw_phl_get_center_ch_def chan_codes)
next
  case upper
  then show ?thesis
    using assms(2) by (auto simp: rtw_phl_get_chandef_from_operating_class_def set_chandef_def CHANNEL_WIDTH_160_def CHANNEL_WIDTH_40_def)
next
  case lower
  then show ?thesis
    using assms(2) by (auto simp: rtw_phl_get_chandef_from_operating_class_def set_chandef_def CHANNEL_WIDTH_160_def CHANNEL_WIDTH_40_def)
next
  case bw80
  then show ?thesis
    using assms(2) center_80 by (auto simp: rtw_phl_get_chandef_from_operating_class_def set_chandef_def CHANNEL_WIDTH_160_def CHANNEL_WIDTH_80_def CHANNEL_WIDTH_40_def)
next
  case bw160
  then show ?thesis
    using assms(3,4) by (auto simp: rtw_phl_get_chandef_from_operating_class_def set_chandef_def rtw_phl_get_center_ch_def chan_codes)
qed

theorem class_roundtrip_witness:
  "let cd = zero_chan_def\<lparr>cd_chan := 36, cd_bw := CHANNEL_WIDTH_160, cd_center_ch := 50\<rparr> in
    rtw_phl_get_operating_class cd = 129 \<and> cd_center_ch cd = rtw_phl_get_center_ch (cd_chan cd) (cd_bw cd) (cd_offset cd) \<and>
    (\<exists>d. rtw_phl_get_chandef_from_operating_class 36 129 zero_chan_def = (d, True) \<and> cd_center_ch d = 36)"
proof -
  let ?cd = "zero_chan_def\<lparr>cd_chan := 36, cd_bw := CHANNEL_WIDTH_160, cd_center_ch := 50\<rparr>"
  have c: "rtw_phl_get_operating_class ?cd = 129" "cd_center_ch ?cd = rtw_phl_get_center_ch (cd_chan ?cd) (cd_bw ?cd) (cd_offset ?cd)"
    by (simp_all add: rtw_phl_get_operating_class_def rtw_phl_get_center_ch_def zero_chan_def_def chan_codes)
  with class_roundtrip [of ?cd zero_chan_def] show ?thesis by (auto simp: Let_def)
qed

end
