(* ===== verification/Spec2Isabelle.thy ===== *)
theory Spec2Isabelle
  imports Phl_Bcn Hal_Rx_Agg Phl_Usb_Flow Phl_Ser Phl_Dispr_Eng Core_Elems Phl_Chan
begin

text \<open>
  A verification of the \<^verbatim>\<open>rtl8852au\<close> driver: a USB Wi-Fi 6 adapter whose driver has
  a core (\<^verbatim>\<open>core/\<close>), a protocol hardware layer, the PHL (\<^verbatim>\<open>phl/\<close>), and below it a chip layer
  (\<^verbatim>\<open>phl/hal_g6/\<close>). Most theories model the PHL, which owns the shared state of the driver: the rings to
  and from the core, the USB buffers, the block-ack sessions, the stations, the pause state of the
  data path, the command dispatcher and the channel contexts. Of the chip layer the descriptors in front of a frame are
  modelled, in both directions, and of the core the information elements of management frames.

  \<^bold>\<open>How the parts interact.\<close> Sending: the core puts a request into the ring of a station and TID
  (\<^verbatim>\<open>rtw_phl_add_tx_req\<close>); the USB transmit handler (\<^verbatim>\<open>_phl_tx_callback_usb\<close>) plans the rings of every
  awake station, takes a transmit buffer per ring, packs requests with their descriptors into it, hands
  it to the bus and recycles the requests; the completion gives the buffer back. Receiving: a filled USB
  buffer is cut into packets (\<^verbatim>\<open>phl_get_single_rx\<close>), each packet holds a reference to its buffer, data
  frames may wait for their PPDU status, are reordered per station and TID, and are put into the receive
  ring, from which the core takes and later returns them. Stations tie a MAC id, transmit rings,
  block-ack sessions and statistics to an address; the data-path controller pauses either direction for
  the command dispatcher, error recovery and power saving. Commands: modules send messages to the
  dispatcher of a band, whose thread passes each through the controller and the modules by priority, and
  requests wait for the one command token. Channels: roles that are on the same channel share a channel
  context. Management frames: the core parses the elements of frames from the air.

  \<^bold>\<open>The theories\<close>, sources under \<^verbatim>\<open>src/\<close>:
  \<^item> \<open>Phl_Prelude\<close>: C integer conversions, status codes (\<^verbatim>\<open>phl/phl_status.h\<close>), the locale
    \<open>step_invariant\<close> of step relations with an invariant.
  \<^item> \<open>Phl_Fifo\<close>: the interfaces \<open>bounded_fifo\<close> and \<open>object_pool\<close> as locales, interpreted by the rings,
    the buffer lists and the packet pools.
  \<^item> \<open>Phl_Queue\<close>: \<^verbatim>\<open>struct phl_queue\<close> and the \<^verbatim>\<open>pq_\<close> operations, elapsed time (\<^verbatim>\<open>phl/phl_util.c\<close>).
  \<^item> \<open>Phl_Ring\<close>: the read and write indices of the rings (\<^verbatim>\<open>phl/phl_tx.c\<close>, \<^verbatim>\<open>phl/phl_rx.c\<close>).
  \<^item> \<open>Phl_Reorder\<close>, \<open>Phl_Rx_Agg\<close>: the reorder buffer and the block-ack sessions (\<^verbatim>\<open>phl/phl_rx.c\<close>,
    \<^verbatim>\<open>phl/phl_rx_agg.c\<close>).
  \<^item> \<open>Phl_Stats\<close>, \<open>Phl_Rssi\<close>: throughput, traffic level and signal-strength averages.
  \<^item> \<open>Phl_Tring\<close>: ring lists, plans and flow control of the transmit side (\<^verbatim>\<open>phl/phl_tx.c\<close>).
  \<^item> \<open>Phl_Bcn\<close>, \<open>Phl_Macid\<close>, \<open>Phl_Sta\<close>, \<open>Phl_Media\<close>: beacons, MAC ids, stations and media status
    (\<^verbatim>\<open>phl/phl_sta.c\<close>).
  \<^item> \<open>Phl_Datapath\<close>: pause, resume and power requests (\<^verbatim>\<open>phl/phl_tx.c\<close> and the USB hooks).
  \<^item> \<open>Phl_Ser\<close>: system error recovery, the dispatcher module that pauses the data path and restarts the
    chip together with the firmware (\<^verbatim>\<open>phl/phl_cmd_ser.c\<close>).
  \<^item> \<open>Phl_Usb_Buf\<close>, \<open>Phl_Rx_Pool\<close>: USB receive buffers and packet objects.
  \<^item> \<open>Phl_Rx\<close>, \<open>Phl_Psts\<close>, \<open>Phl_Usb_Rx\<close>: the receive path of a packet, the PPDU status, the USB receive
    handler (\<^verbatim>\<open>phl/phl_rx.c\<close>, \<^verbatim>\<open>phl/hci/phl_trx_usb.c\<close>).
  \<^item> \<open>Phl_Bytes\<close>, \<open>Hal_Rxdesc\<close>, \<open>Hal_Rx_Agg\<close>: bytes and bit fields of a buffer; the receive descriptor,
    the PPDU status report and the packet parser of the chip layer (\<^verbatim>\<open>phl/hal_g6/rtl8852a/hal_trx_8852a.c\<close>,
    \<^verbatim>\<open>phl/hal_g6/hal_rx.c\<close>, \<^verbatim>\<open>phl/hal_g6/mac/mac_ax/phy_rpt.c\<close>), and the loop over a transfer of several packets.
  \<^item> \<open>Phl_Rx_System\<close>: all operations of the receive side as one step relation.
  \<^item> \<open>Phl_H2c\<close>: the pool of firmware command packets (\<^verbatim>\<open>phl/phl_tx.c\<close>).
  \<^item> \<open>Mac_Txdesc\<close>: the transmit descriptor (\<^verbatim>\<open>phl/hal_g6/mac/mac_ax/trx_desc.c\<close>).
  \<^item> \<open>Phl_Usb_Tx\<close>: transmit buffers, aggregation and handler (\<^verbatim>\<open>phl/hci/phl_trx_usb.c\<close>); \<open>Phl_Usb_Agg\<close>
    proves what a transfer contains, \<open>Phl_Usb_Flow\<close> that runs of the transmit side lose nothing.

  \<^item> \<open>Phl_Dispr\<close>, \<open>Phl_Dispr_Run\<close>, \<open>Phl_Dispr_Api\<close>: the command dispatcher (\<^verbatim>\<open>phl/phl_cmd_dispatcher.c\<close>), its queues, the
    thread with its phases, the functions others call; \<open>Phl_Dispr_Inv\<close>, \<open>Phl_Dispr_Order\<close>, \<open>Phl_Dispr_Thms\<close> prove what
    runs keep and in which order a message is delivered.
  \<^item> \<open>Phl_Dispr_Ctrl\<close>, \<open>Phl_Dispr_Eng\<close>: the controller module (\<^verbatim>\<open>phl/phl_cmd_dispr_controller.c\<close>) and the engine with one
    thread for the dispatchers of all bands (\<^verbatim>\<open>phl/phl_cmd_dispatch_engine.c\<close>).
  \<^item> \<open>Chan_Codes\<close>, \<open>Phl_Chan\<close>: channel contexts and channel arithmetic (\<^verbatim>\<open>phl/phl_chan.c\<close>, \<^verbatim>\<open>phl/phl_mr.c\<close>).
  \<^item> \<open>Core_Ie\<close>, \<open>Core_Attr\<close>, \<open>Core_Sec\<close>, \<open>Core_Elems\<close>: information elements, the attributes of WPS, P2P and WFD
    elements, the WPA and RSN elements, and the parser of all elements of a frame (\<^verbatim>\<open>core/rtw_ieee80211.c\<close>).

  \<^bold>\<open>Correspondence.\<close> Structures are records with the fields the code reads or writes, enumerations are
  datatypes, a function of the source is a definition of the same name without leading underscores.
  Pointers are natural numbers and a null pointer is \<^const>\<open>None\<close>; objects live in a map from pointers.
  Narrow integers carry their conversion (\<open>to_u8\<close>, \<open>to_u16\<close>, \<open>to_u32\<close>) where the source assigns to them,
  or are words. An access outside an array, a division by zero and a use of freed memory are the result
  \<^const>\<open>None\<close> of the operation, an error of the code a status value. Callbacks, HAL results, allocation
  and the clock are arguments; what the code tells others (indications, recycled requests, buffers given
  to the bus) is an output. Regions under a spin lock are single steps. Macros follow the Makefile and
  \<^verbatim>\<open>include/autoconf.h\<close>: USB bus, command dispatcher, transmit and receive aggregation on; batch
  indication, TDLS and transmit padding off.

  \<^bold>\<open>What is shown.\<close> Reordering: every arrival keeps the session well formed, releases in order and loses
  no frame, and a window move refines an abstract slide. Rings: first in first out under any
  interleaving. Receive side: in every reachable state each packet is in exactly one place and each
  buffer is listed or referenced by as many packets as its count says; the handler returns; a drained
  system is idle. Transmit side: a transfer, read by its descriptors, is a prefix of the ring; buffers
  and ring status objects are conserved; descriptor fields read back and its check sum is valid.
  Stations: allocation and release keep queues, MAC ids and rings consistent and are inverse to each
  other. Data path: a pause is exclusive and a resume by its last owner restarts the path. Error
  recovery: transmission stays stopped while a recovery is under way, the whole handshake restores the
  data path, and the events after which polling ends are exactly characterised. Receive descriptor: a
  descriptor in its documented layout is read back, an accepted packet lies inside its transfer, and a
  transfer of several packets is cut into these. Dispatcher: on every run, with handlers that call it
  again, each message is in one queue, one request at most holds the token, no wake-up of the thread is
  lost, and messages are delivered in the order of the priorities. Channel contexts: contexts, queues and
  roles agree on every run; an operating class leads back to its channel. Information elements: the
  parser of a frame equals a reference on the list of elements and reads only the frame and one byte
  behind it; the RSN parser stays inside the element and reads back what it says; removal filters
  the list. Some theorems state where the code fails: the block-ack request with a TID of 8 or
  more, the management frame larger than its buffer, the packet whose header is not in the buffer, the
  message that the device cannot do I/O, which reaches nobody, the attribute whose length wraps and keeps
  its search in a loop, the class of 160 MHz whose centre is lost.

  \<^bold>\<open>Loops.\<close> Loops over lists recurse on the list, counted loops on the count. The receive handler and the
  parser of a buffer recurse on what is left of the buffer list and of the buffer, with a measure. The
  polling loops of the data path run at most the number of polls of the source. The searches for attributes,
  which may not end, are partial functions whose result \<^const>\<open>None\<close> is the endless loop. The removal of
  elements has fuel, one step more than the buffer has bytes; each step removes at least two bytes, and
  the theorems about it show that a result is there. The token loops of the dispatcher call handlers
  that can ask for further rounds without end; their fuel is an argument, \<^const>\<open>None\<close> is a loop that has
  not ended with it, and what is shown of a run holds for every amount of fuel.

  \<^bold>\<open>Not modelled.\<close> The core except the information elements, and the operating system layer, whose calls
  are the arguments and outputs above; of \<^verbatim>\<open>core/rtw_ieee80211.c\<close> the rates, the extended capabilities, the
  conversions of texts and the dumps; power-save, scan and multi-role state machines and the message hub;
  TWT, sounding, packet offload and regulation; the chip layer except the descriptors; the PCIe and SDIO buses,
  which this build does not contain; firmware and calibration tables, which are data. Next in order: the
  scan and power-save modules of the dispatcher, the message hub, the core's transmit and receive paths.
\<close>

end
